(* ===== verification/Prelude.thy ===== *)
theory Prelude
  imports Main "HOL-Library.List_Lexorder" "HOL-Library.Char_ord"
begin

text \<open>
  Shared vocabulary of the development: identifiers, clock readings, the exceptions the modelled
  code raises, the action type of code that changes state and may raise, the rules that carry an
  invariant through such code, and decimal rendering of integers for log notes.

  An identifier is a \<^typ>\<open>string\<close>. Its order is the lexicographic order on character codes
  (\<^verbatim>\<open>HOL-Library.List_Lexorder\<close>, \<^verbatim>\<open>Char_ord\<close>), the order Python's \<^verbatim>\<open>sorted\<close> and SQLite's
  \<^verbatim>\<open>ORDER BY id\<close> (binary collation) use on the same byte strings.
  A clock reading (\<^verbatim>\<open>time.time()\<close>) is an \<^typ>\<open>int\<close> in ticks of any fixed resolution: the code only
  subtracts and compares readings.
\<close>

type_synonym ident = string
type_synonym time = int

named_theorems keeps_intros \<open>rules carrying an invariant through an action\<close>
named_theorems act_simps \<open>equations that run an action\<close>

section \<open>Exceptions and actions\<close>

datatype py_error =
    InvalidTransition string
  | ValueError string
  | IntegrityError string
  | KeyError string
  | TypeError string
  | OSError string
  | IndexError string
  | RuntimeError string
  | AssertionError string
  | TimeoutExpired string
  | CalledProcessError string
  | ShutdownRequested string

text \<open>\<^verbatim>\<open>str(e)\<close>.\<close>

primrec err_text :: "py_error \<Rightarrow> string" where
  "err_text (InvalidTransition t) = t"
| "err_text (ValueError t) = t"
| "err_text (IntegrityError t) = t"
| "err_text (KeyError t) = t"
| "err_text (TypeError t) = t"
| "err_text (OSError t) = t"
| "err_text (IndexError t) = t"
| "err_text (RuntimeError t) = t"
| "err_text (AssertionError t) = t"
| "err_text (TimeoutExpired t) = t"
| "err_text (CalledProcessError t) = t"
| "err_text (ShutdownRequested t) = t"

text \<open>
  An action takes the state, returns a value or raises, and leaves a state. The state survives an
  exception: what an earlier, committed transaction wrote stays written.
\<close>

type_synonym ('s, 'a) act = "'s \<Rightarrow> (py_error + 'a) \<times> 's"

definition py_return :: "'a \<Rightarrow> ('s, 'a) act" where
  "py_return a = (\<lambda>s. (Inr a, s))"

definition py_raise :: "py_error \<Rightarrow> ('s, 'a) act" where
  "py_raise e = (\<lambda>s. (Inl e, s))"

definition py_read :: "('s \<Rightarrow> 'a) \<Rightarrow> ('s, 'a) act" where
  "py_read f = (\<lambda>s. (Inr (f s), s))"

definition py_modify :: "('s \<Rightarrow> 's) \<Rightarrow> ('s, unit) act" where
  "py_modify f = (\<lambda>s. (Inr (), f s))"

definition py_bind :: "('s, 'a) act \<Rightarrow> ('a \<Rightarrow> ('s, 'b) act) \<Rightarrow> ('s, 'b) act" where
  "py_bind m f = (\<lambda>s. case m s of (Inl e, s') \<Rightarrow> (Inl e, s') | (Inr a, s') \<Rightarrow> f a s')"

definition py_then :: "('s, 'a) act \<Rightarrow> ('s, 'b) act \<Rightarrow> ('s, 'b) act" where
  "py_then m k = py_bind m (\<lambda>_. k)"

text \<open>\<^verbatim>\<open>try: m / except: h\<close>: the handler runs on the state the failed action left.\<close>

definition py_catch :: "('s, 'a) act \<Rightarrow> (py_error \<Rightarrow> ('s, 'a) act) \<Rightarrow> ('s, 'a) act" where
  "py_catch m h = (\<lambda>s. case m s of (Inl e, s') \<Rightarrow> h e s' | (Inr a, s') \<Rightarrow> (Inr a, s'))"

text \<open>A \<^verbatim>\<open>for\<close> loop that collects the values of its bodies; the first exception ends it.\<close>

fun py_for :: "'a list \<Rightarrow> ('a \<Rightarrow> ('s, 'b) act) \<Rightarrow> ('s, 'b list) act" where
  "py_for [] f = py_return []"
| "py_for (x # xs) f = py_bind (f x) (\<lambda>y. py_bind (py_for xs f) (\<lambda>ys. py_return (y # ys)))"

lemma py_bind_run [act_simps]:
  "py_bind m f s = (case m s of (Inl e, s') \<Rightarrow> (Inl e, s') | (Inr a, s') \<Rightarrow> f a s')"
  by (simp add: py_bind_def)

lemma py_then_run [act_simps]:
  "py_then m k s = (case m s of (Inl e, s') \<Rightarrow> (Inl e, s') | (Inr a, s') \<Rightarrow> k s')"
  by (simp add: py_then_def py_bind_def)

lemma py_return_run [act_simps]: "py_return a s = (Inr a, s)"
  by (simp add: py_return_def)

lemma py_raise_run [act_simps]: "py_raise e s = (Inl e, s)"
  by (simp add: py_raise_def)

lemma py_read_run [act_simps]: "py_read f s = (Inr (f s), s)"
  by (simp add: py_read_def)

lemma py_modify_run [act_simps]: "py_modify f s = (Inr (), f s)"
  by (simp add: py_modify_def)

lemma py_catch_run [act_simps]:
  "py_catch m h s = (case m s of (Inl e, s') \<Rightarrow> h e s' | (Inr a, s') \<Rightarrow> (Inr a, s'))"
  by (simp add: py_catch_def)

section \<open>Invariants of actions\<close>

text \<open>
  \<open>keeps P m\<close>: running \<open>m\<close> from a state with \<open>P\<close> leaves a state with \<open>P\<close>, also when \<open>m\<close> raises.
\<close>

definition keeps :: "('s \<Rightarrow> bool) \<Rightarrow> ('s, 'a) act \<Rightarrow> bool" where
  "keeps P m \<longleftrightarrow> (\<forall>s. P s \<longrightarrow> P (snd (m s)))"

lemma keepsI: "(\<And>s. P s \<Longrightarrow> P (snd (m s))) \<Longrightarrow> keeps P m"
  by (simp add: keeps_def)

lemma keepsD: "keeps P m \<Longrightarrow> P s \<Longrightarrow> P (snd (m s))"
  by (simp add: keeps_def)

lemma keeps_result: "keeps P m \<Longrightarrow> P s \<Longrightarrow> m s = (r, s') \<Longrightarrow> P s'"
  by (drule (1) keepsD) simp

lemma keeps_return [keeps_intros]: "keeps P (py_return a)"
  by (simp add: keeps_def py_return_def)

lemma keeps_raise [keeps_intros]: "keeps P (py_raise e)"
  by (simp add: keeps_def py_raise_def)

lemma keeps_read [keeps_intros]: "keeps P (py_read f)"
  by (simp add: keeps_def py_read_def)

lemma keeps_bind [keeps_intros]:
  assumes "keeps P m" and "\<And>a. keeps P (f a)"
  shows "keeps P (py_bind m f)"
proof (rule keepsI)
  fix s
  assume "P s"
  obtain r s' where run: "m s = (r, s')" by fastforce
  with assms(1) \<open>P s\<close> have "P s'" by (blast intro: keeps_result)
  then show "P (snd (py_bind m f s))"
    using keepsD [OF assms(2)] by (cases r) (simp_all add: py_bind_run run)
qed

text \<open>\<open>yields Q m\<close>: every value \<open>m\<close> returns has \<open>Q\<close>, so what follows may rely on it.\<close>

definition yields :: "('a \<Rightarrow> bool) \<Rightarrow> ('s, 'a) act \<Rightarrow> bool" where
  "yields Q m \<longleftrightarrow> (\<forall>s a. fst (m s) = Inr a \<longrightarrow> Q a)"

lemma yieldsD: "yields Q m \<Longrightarrow> m s = (Inr a, s') \<Longrightarrow> Q a"
  unfolding yields_def by (drule spec [of _ s]) simp

lemma yields_return: "Q a \<Longrightarrow> yields Q (py_return a)"
  by (simp add: yields_def py_return_def)

lemma yields_read: "(\<And>s. Q (f s)) \<Longrightarrow> yields Q (py_read f)"
  by (simp add: yields_def py_read_def)

lemma yields_bind:
  assumes "yields R m" and "\<And>a. R a \<Longrightarrow> yields Q (f a)"
  shows "yields Q (py_bind m f)"
  unfolding yields_def py_bind_def
proof (intro allI impI)
  fix s b
  assume b: "fst (case m s of (Inl e, s') \<Rightarrow> (Inl e, s') | (Inr a, s') \<Rightarrow> f a s') = Inr b"
  then obtain a s' where a: "m s = (Inr a, s')" by (cases "m s"; cases "fst (m s)") auto
  with b have "fst (f a s') = Inr b" by simp
  with assms(2) [OF yieldsD [OF assms(1) a]] show "Q b" unfolding yields_def by blast
qed

lemma keeps_bind_yields:
  assumes "yields Q m" and "keeps P m" and "\<And>a. Q a \<Longrightarrow> keeps P (f a)"
  shows "keeps P (py_bind m f)"
proof (rule keepsI)
  fix s
  assume "P s"
  obtain r s' where run: "m s = (r, s')" by fastforce
  with assms(2) \<open>P s\<close> have "P s'" by (blast intro: keeps_result)
  then show "P (snd (py_bind m f s))"
    using keepsD [OF assms(3)] yieldsD [OF assms(1)] run by (cases r) (simp_all add: py_bind_run)
qed

lemma then_yields: "yields Q k \<Longrightarrow> yields Q (py_then m k)"
  unfolding py_then_def by (rule yields_bind [where R = "\<lambda>_. True"]) (simp_all add: yields_def)

lemma yields_for:
  assumes "\<And>x. x \<in> set xs \<Longrightarrow> yields (Q x) (f x)"
  shows "yields (list_all2 Q xs) (py_for xs f)"
  using assms
proof (induction xs)
  case Nil
  then show ?case by (simp add: yields_return)
next
  case (Cons x xs)
  have "yields (list_all2 Q xs) (py_for xs f)" using Cons by simp
  with Cons.prems show ?case
    by (auto intro!: yields_bind [of "Q x"] yields_bind [of "list_all2 Q xs"] yields_return)
qed

lemma keeps_conj: "keeps P m \<Longrightarrow> keeps Q m \<Longrightarrow> keeps (\<lambda>s. P s \<and> Q s) m"
  by (simp add: keeps_def)

lemma keeps_then [keeps_intros]:
  "keeps P m \<Longrightarrow> keeps P k \<Longrightarrow> keeps P (py_then m k)"
  by (simp add: py_then_def keeps_bind)

lemma keeps_catch [keeps_intros]:
  assumes "keeps P m" and "\<And>e. keeps P (h e)"
  shows "keeps P (py_catch m h)"
proof (rule keepsI)
  fix s
  assume "P s"
  obtain r s' where run: "m s = (r, s')" by fastforce
  with assms(1) \<open>P s\<close> have "P s'" by (blast intro: keeps_result)
  then show "P (snd (py_catch m h s))"
    using keepsD [OF assms(2)] by (cases r) (simp_all add: py_catch_run run)
qed

lemma keeps_for [keeps_intros]:
  "(\<And>x. x \<in> set xs \<Longrightarrow> keeps P (f x)) \<Longrightarrow> keeps P (py_for xs f)"
  by (induction xs) (auto intro!: keeps_intros)

lemma keeps_if [keeps_intros]:
  "(b \<Longrightarrow> keeps P m) \<Longrightarrow> (\<not> b \<Longrightarrow> keeps P k) \<Longrightarrow> keeps P (if b then m else k)"
  by simp

lemma keeps_case_option [keeps_intros]:
  "(x = None \<Longrightarrow> keeps P m) \<Longrightarrow> (\<And>y. x = Some y \<Longrightarrow> keeps P (k y)) \<Longrightarrow>
   keeps P (case x of None \<Rightarrow> m | Some y \<Rightarrow> k y)"
  by (cases x) simp_all

lemma keeps_case_sum [keeps_intros]:
  "(\<And>a. x = Inl a \<Longrightarrow> keeps P (m a)) \<Longrightarrow> (\<And>b. x = Inr b \<Longrightarrow> keeps P (k b)) \<Longrightarrow>
   keeps P (case x of Inl a \<Rightarrow> m a | Inr b \<Rightarrow> k b)"
  by (cases x) simp_all

lemma keeps_modify: "(\<And>s. P s \<Longrightarrow> P (f s)) \<Longrightarrow> keeps P (py_modify f)"
  by (simp add: keeps_def py_modify_def)

text \<open>
  A loop over rows with distinct keys whose body changes the view of its own key only: the bodies
  do not disturb each other, so each runs on the row it was given.
\<close>

lemma py_for_keyed:
  fixes view :: "'k \<Rightarrow> 's \<Rightarrow> 'v"
  assumes "distinct (map key rows)" and "I d"
    and "\<And>r. r \<in> set rows \<Longrightarrow> view (key r) d = pre r"
    and body: "\<And>r d. r \<in> set rows \<Longrightarrow> I d \<Longrightarrow> view (key r) d = pre r \<Longrightarrow>
      \<exists>out d'. f r d = (Inr out, d') \<and> I d' \<and> (\<forall>x. x \<noteq> key r \<longrightarrow> view x d' = view x d) \<and>
        post r out (view (key r) d')"
  shows "\<exists>outs d'. py_for rows f d = (Inr outs, d') \<and> I d' \<and>
    (\<forall>x. x \<notin> key ` set rows \<longrightarrow> view x d' = view x d) \<and>
    list_all2 (\<lambda>r out. post r out (view (key r) d')) rows outs"
  using assms
proof (induction rows arbitrary: d)
  case Nil
  then show ?case by (simp add: act_simps)
next
  case (Cons row rows)
  obtain o1 d1 where one: "f row d = (Inr o1, d1)" "I d1"
    and frame: "\<forall>x. x \<noteq> key row \<longrightarrow> view x d1 = view x d"
    and post: "post row o1 (view (key row) d1)"
    using Cons.prems(4) [of row d] Cons.prems(2) Cons.prems(3) [of row] by auto
  have fresh: "key row \<notin> key ` set rows" using Cons.prems(1) by auto
  have "\<exists>outs d'. py_for rows f d1 = (Inr outs, d') \<and> I d' \<and>
    (\<forall>x. x \<notin> key ` set rows \<longrightarrow> view x d' = view x d1) \<and>
    list_all2 (\<lambda>r out. post r out (view (key r) d')) rows outs"
  proof (rule Cons.IH)
    show "view (key r) d1 = pre r" if "r \<in> set rows" for r
    proof -
      have "key r \<noteq> key row" using that fresh by (metis image_eqI)
      with Cons.prems(3) [of r] that frame show ?thesis by simp
    qed
  qed (use Cons.prems one(2) in simp_all)
  then obtain outs d' where rest: "py_for rows f d1 = (Inr outs, d')" "I d'"
    and keep: "\<forall>x. x \<notin> key ` set rows \<longrightarrow> view x d' = view x d1"
    and posts: "list_all2 (\<lambda>r out. post r out (view (key r) d')) rows outs"
    by blast
  have run: "py_for (row # rows) f d = (Inr (o1 # outs), d')"
    by (simp add: py_bind_run py_return_run one rest)
  have "view (key row) d' = view (key row) d1" using keep fresh by blast
  with post posts have "list_all2 (\<lambda>r out. post r out (view (key r) d')) (row # rows) (o1 # outs)"
    by simp
  moreover have "\<forall>x. x \<notin> key ` set (row # rows) \<longrightarrow> view x d' = view x d"
    using keep frame by simp
  ultimately show ?case using run rest(2) by blast
qed

section \<open>Decimal rendering\<close>

definition digit_char :: "nat \<Rightarrow> char" where
  "digit_char n = char_of (48 + n)"

fun str_nat :: "nat \<Rightarrow> string" where
  "str_nat n = (if n < 10 then [digit_char n] else str_nat (n div 10) @ [digit_char (n mod 10)])"

declare str_nat.simps [simp del]

definition str_int :: "int \<Rightarrow> string" where
  "str_int i = (if i < 0 then ''-'' @ str_nat (nat (- i)) else str_nat (nat i))"

text \<open>\<^verbatim>\<open>repr\<close> of a string without quotes, backslashes and control characters.\<close>

definition py_repr :: "string \<Rightarrow> string" where
  "py_repr s = [CHR 0x27] @ s @ [CHR 0x27]"

text \<open>The UTF-8 bytes of the arrow that some log notes contain.\<close>

definition arrow :: string where
  "arrow = [char_of (226 :: nat), char_of (134 :: nat), char_of (146 :: nat)]"

text \<open>\<^verbatim>\<open>str.lower\<close> on ASCII characters.\<close>

definition lower_char :: "char \<Rightarrow> char" where
  "lower_char c = (let n = of_char c :: nat in if 65 \<le> n \<and> n \<le> 90 then char_of (n + 32) else c)"

section \<open>Lists\<close>

lemma map_of_Some_list_all:
  assumes "list_all P xs" and "map_of xs k = Some v"
  shows "P (k, v)"
  using assms map_of_SomeD by (fastforce simp: list_all_iff)

lemma find_eq_None: "List.find P xs = None \<longleftrightarrow> (\<forall>x \<in> set xs. \<not> P x)"
  by (auto simp: find_None_iff)

lemma find_SomeD: "List.find P xs = Some x \<Longrightarrow> x \<in> set xs \<and> P x"
  by (induction xs) (auto split: if_splits)

lemma find_map_key_update:
  assumes "\<And>x. key (f x) = key x"
  shows "List.find (\<lambda>x. key x = k) (map (\<lambda>x. if key x = k' then f x else x) xs) =
    (if k = k' then map_option f (List.find (\<lambda>x. key x = k) xs)
     else List.find (\<lambda>x. key x = k) xs)"
  using assms by (induction xs) auto

lemma find_append:
  "List.find P (xs @ ys) = (case List.find P xs of None \<Rightarrow> List.find P ys | Some x \<Rightarrow> Some x)"
  by (induction xs) simp_all

lemma distinct_key_find:
  assumes "distinct (map key xs)" and "x \<in> set xs"
  shows "List.find (\<lambda>y. key y = key x) xs = Some x"
  using assms by (induction xs) force+

end
