(* ===== verification/Worklist.thy ===== *)
theory Worklist
  imports Prelude
begin

text \<open>
  The worklist loops of the program, over a graph given as an association list from a vertex to its
  successors. \<open>closure_from\<close> is \<^verbatim>\<open>while stack: cur = stack.pop(); if cur in out: continue; out.add(cur);
  stack.extend(succ)\<close>; \<open>reach_from\<close> is the variant that marks a vertex when it is pushed. Both are total,
  and their results are the reflexive and the irreflexive transitive closure.
\<close>

type_synonym 'a graph = "('a \<times> 'a list) list"

definition succs :: "'a graph \<Rightarrow> 'a \<Rightarrow> 'a list" where
  "succs g x = (case map_of g x of None \<Rightarrow> [] | Some ys \<Rightarrow> ys)"

definition edge_rel :: "'a graph \<Rightarrow> ('a \<times> 'a) set" where
  "edge_rel g = {(x, y). y \<in> set (succs g x)}"

lemma succs_nonempty_dom: "y \<in> set (succs g x) \<Longrightarrow> x \<in> fst ` set g"
  by (cases "map_of g x") (force simp: succs_def dest: map_of_SomeD)+

lemma edge_rel_iff [simp]: "(x, y) \<in> edge_rel g \<longleftrightarrow> y \<in> set (succs g x)"
  by (simp add: edge_rel_def)

lemma succs_off_dom: "x \<notin> fst ` set g \<Longrightarrow> succs g x = []"
  using succs_nonempty_dom [of _ g x] by (cases "succs g x") auto

function closure_from :: "'a graph \<Rightarrow> 'a list \<Rightarrow> 'a set \<Rightarrow> 'a set" where
  "closure_from g stack out =
     (if stack = [] then out
      else let cur = last stack; rest = butlast stack
           in if cur \<in> out then closure_from g rest out
              else closure_from g (rest @ succs g cur) (insert cur out))"
  by pat_completeness auto
termination
proof (relation "measures [\<lambda>(g, stack, out). card (fst ` set g - out), \<lambda>(g, stack, out). length stack]",
    goal_cases)
  case (3 g stack out cur rest)
  show ?case
  proof (cases "cur \<in> fst ` set g")
    case True
    then have "fst ` set g - insert cur out \<subset> fst ` set g - out" using 3 by blast
    then show ?thesis by (simp add: psubset_card_mono)
  next
    case False
    then have "fst ` set g - insert cur out = fst ` set g - out" by blast
    then show ?thesis using 3 False by (simp add: succs_off_dom)
  qed
qed auto

declare closure_from.simps [simp del]

lemma closure_from_Nil [simp]: "closure_from g [] out = out"
  by (simp add: closure_from.simps)

lemma closure_from_snoc:
  "closure_from g (stack @ [x]) out =
     (if x \<in> out then closure_from g stack out
      else closure_from g (stack @ succs g x) (insert x out))"
  by (simp add: closure_from.simps)

lemma closure_from_sound:
  "closure_from g stack out \<subseteq> out \<union> (edge_rel g)\<^sup>* `` set stack"
proof (induction g stack out rule: closure_from.induct)
  case (1 g stack out)
  show ?case
  proof (cases stack rule: rev_cases)
    case Nil
    then show ?thesis by simp
  next
    case (snoc rest x)
    have one: "(edge_rel g)\<^sup>* `` set (succs g x) \<subseteq> (edge_rel g)\<^sup>* `` {x}"
      by (auto intro: converse_rtrancl_into_rtrancl)
    show ?thesis
    proof (cases "x \<in> out")
      case True
      with 1(1) snoc show ?thesis by (fastforce simp: closure_from_snoc)
    next
      case False
      with 1(2) snoc one show ?thesis by (fastforce simp: closure_from_snoc)
    qed
  qed
qed

lemma closure_from_complete:
  assumes "\<forall>x \<in> out. set (succs g x) \<subseteq> out \<union> set stack"
  shows "out \<union> set stack \<subseteq> closure_from g stack out \<and>
    (\<forall>x \<in> closure_from g stack out. set (succs g x) \<subseteq> closure_from g stack out)"
  using assms
proof (induction g stack out rule: closure_from.induct)
  case (1 g stack out)
  show ?case
  proof (cases stack rule: rev_cases)
    case Nil
    with 1(3) show ?thesis by simp
  next
    case (snoc rest x)
    then have ne: "stack \<noteq> []" and x: "x = last stack" and rest: "rest = butlast stack" by simp_all
    show ?thesis
    proof (cases "x \<in> out")
      case True
      have "\<forall>y \<in> out. set (succs g y) \<subseteq> out \<union> set rest" using 1(3) snoc True by auto
      from 1(1) [OF ne x rest True this] show ?thesis
        using snoc True by (simp add: closure_from_snoc) blast
    next
      case False
      have "\<forall>y \<in> insert x out. set (succs g y) \<subseteq> insert x out \<union> set (rest @ succs g x)"
        using 1(3) snoc by fastforce
      from 1(2) [OF ne x rest False this] show ?thesis
        using snoc False by (simp add: closure_from_snoc)
    qed
  qed
qed

lemma rtrancl_closed: "(x, y) \<in> (edge_rel g)\<^sup>* \<Longrightarrow> x \<in> S \<Longrightarrow> \<forall>z \<in> S. set (succs g z) \<subseteq> S \<Longrightarrow> y \<in> S"
  by (induction rule: rtrancl_induct) auto

theorem closure_from_correct: "closure_from g stack {} = (edge_rel g)\<^sup>* `` set stack"
proof
  show "closure_from g stack {} \<subseteq> (edge_rel g)\<^sup>* `` set stack"
    using closure_from_sound [of g stack "{}"] by simp
  show "(edge_rel g)\<^sup>* `` set stack \<subseteq> closure_from g stack {}"
    using closure_from_complete [of "{}" g stack] by (auto intro: rtrancl_closed)
qed

section \<open>Marking on push\<close>

text \<open>\<^verbatim>\<open>for child in children: if child not in out: out.add(child); stack.append(child)\<close>.\<close>

fun push_new :: "'a list \<Rightarrow> 'a list \<Rightarrow> 'a set \<Rightarrow> 'a list \<times> 'a set" where
  "push_new [] stack out = (stack, out)"
| "push_new (c # cs) stack out =
     (if c \<in> out then push_new cs stack out else push_new cs (stack @ [c]) (insert c out))"

lemma push_new_effect:
  "push_new cs stack out = (stack', out') \<Longrightarrow>
     out' = out \<union> set cs \<and> set stack' = set stack \<union> (set cs - out) \<and>
     length stack' = length stack + card (set cs - out)"
proof (induction cs arbitrary: stack out)
  case Nil
  then show ?case by simp
next
  case (Cons c cs)
  show ?case
  proof (cases "c \<in> out")
    case True
    with Cons show ?thesis by (auto simp: insert_Diff_if)
  next
    case False
    then have eq: "set (c # cs) - out = insert c (set cs - insert c out)" by auto
    have "card (insert c (set cs - insert c out)) = Suc (card (set cs - insert c out))"
      by (subst card_insert_disjoint) auto
    with Cons.IH [of "stack @ [c]" "insert c out"] Cons.prems False show ?thesis
      unfolding eq by auto
  qed
qed

lemma succs_range_finite: "finite (\<Union>(x, ys) \<in> set g. set ys)"
  by auto

lemma succs_in_range: "set (succs g x) \<subseteq> (\<Union>(x, ys) \<in> set g. set ys)"
  by (cases "map_of g x") (force simp: succs_def dest: map_of_SomeD)+

function reach_from :: "'a graph \<Rightarrow> 'a list \<Rightarrow> 'a set \<Rightarrow> 'a set" where
  "reach_from g stack out =
     (if stack = [] then out
      else case push_new (succs g (last stack)) (butlast stack) out of
             (stack', out') \<Rightarrow> reach_from g stack' out')"
  by pat_completeness auto
termination
proof (relation "measure (\<lambda>(g, stack, out). card ((\<Union>(x, ys) \<in> set g. set ys) - out) + length stack)",
    goal_cases)
  case (2 g stack out stack' out')
  let ?U = "\<Union>(x, ys) \<in> set g. set ys"
  let ?new = "set (succs g (last stack)) - out"
  have eff: "out' = out \<union> set (succs g (last stack))"
    "length stack' = length (butlast stack) + card ?new"
    using push_new_effect [OF 2(2) [symmetric]] by blast+
  have "?U - out = (?U - out') \<union> ?new" using eff(1) succs_in_range [of g "last stack"] by auto
  then have "card (?U - out) = card (?U - out') + card ?new"
    using eff(1) by (simp add: card_Un_disjoint) (subst card_Un_disjoint, auto)
  moreover have "length stack > 0" using 2(1) by simp
  ultimately show ?case using eff(2) by simp
qed auto

declare reach_from.simps [simp del]

lemma reach_from_invariant:
  assumes "\<forall>x \<in> insert r out. x \<in> set stack \<or> set (succs g x) \<subseteq> out"
    and "set stack \<subseteq> insert r out" and "out \<subseteq> (edge_rel g)\<^sup>+ `` {r}"
  shows "reach_from g stack out \<subseteq> (edge_rel g)\<^sup>+ `` {r} \<and> out \<subseteq> reach_from g stack out \<and>
    (\<forall>x \<in> insert r (reach_from g stack out). set (succs g x) \<subseteq> reach_from g stack out)"
  using assms
proof (induction g stack out rule: reach_from.induct)
  case (1 g stack out)
  show ?case
  proof (cases stack rule: rev_cases)
    case Nil
    with 1(2-4) show ?thesis by (simp add: reach_from.simps)
  next
    case (snoc rest x)
    obtain stack' out' where push: "push_new (succs g x) rest out = (stack', out')" by fastforce
    have eff: "out' = out \<union> set (succs g x)" "set stack' = set rest \<union> (set (succs g x) - out)"
      using push_new_effect [OF push] by blast+
    have run: "reach_from g stack out = reach_from g stack' out'"
      by (subst reach_from.simps) (simp add: snoc push)
    have "set (succs g x) \<subseteq> (edge_rel g)\<^sup>+ `` {r}"
      using 1(3,4) snoc by (auto intro: trancl_into_trancl)
    then have "reach_from g stack' out' \<subseteq> (edge_rel g)\<^sup>+ `` {r} \<and> out' \<subseteq> reach_from g stack' out' \<and>
      (\<forall>x \<in> insert r (reach_from g stack' out'). set (succs g x) \<subseteq> reach_from g stack' out')"
      using 1(2-4) snoc push eff by (intro 1(1) [OF _ _]) auto
    then show ?thesis using run eff(1) by auto
  qed
qed

theorem reach_from_correct: "reach_from g [r] {} = (edge_rel g)\<^sup>+ `` {r}"
proof
  have inv: "reach_from g [r] {} \<subseteq> (edge_rel g)\<^sup>+ `` {r} \<and> {} \<subseteq> reach_from g [r] {} \<and>
    (\<forall>x \<in> insert r (reach_from g [r] {}). set (succs g x) \<subseteq> reach_from g [r] {})"
    by (rule reach_from_invariant) auto
  then show "reach_from g [r] {} \<subseteq> (edge_rel g)\<^sup>+ `` {r}" by blast
  have "y \<in> reach_from g [r] {}" if "(r, y) \<in> (edge_rel g)\<^sup>+" for y
    using that by (induction rule: trancl_induct) (use inv in auto)
  then show "(edge_rel g)\<^sup>+ `` {r} \<subseteq> reach_from g [r] {}" by auto
qed

end
