(* ===== verification/Dag.thy ===== *)
theory Dag
  imports Worklist "HOL-Library.AList"
begin

text \<open>
  \<^verbatim>\<open>quikode/dag.py\<close>: the roadmap graph. A Python dict is an association list with distinct keys in
  insertion order. The topological order is Kahn's loop; the lemmas show that it returns a
  permutation of the nodes with dependencies first exactly when the graph is acyclic, and that the
  three closures compute reachability.
\<close>

section \<open>Data\<close>

record node =
  n_id :: ident
  n_kind :: string
  n_milestone :: string
  n_title :: string
  n_scope :: string
  n_depends_on :: "ident list"
  n_completes_behaviors :: "string list"
  n_supports_behaviors :: "string list"
  n_boundary_with_neighbors :: string
  n_expected_evidence :: "string list"
  n_playbook :: "string list"
  n_rationale :: string
  n_risks :: "string list"

record dag =
  dag_nodes :: "(ident \<times> node) list"
  dag_milestones :: "ident list"

text \<open>A node of the JSON file: a key is absent or holds a value (an absent list or \<^verbatim>\<open>null\<close> is \<^const>\<open>None\<close>).\<close>

record raw_node =
  w_id :: "string option"
  w_kind :: "string option"
  w_milestone :: "string option"
  w_title :: "string option"
  w_scope :: "string option"
  w_depends_on :: "string list option"
  w_completes_behaviors :: "string list option"
  w_supports_behaviors :: "string list option"
  w_boundary_with_neighbors :: "string option"
  w_expected_evidence :: "string list option"
  w_playbook :: "string list option"
  w_rationale :: "string option"
  w_risks :: "string list option"

definition json_get :: "'a option \<Rightarrow> 'a \<Rightarrow> 'a" where
  "json_get x dflt = (case x of None \<Rightarrow> dflt | Some v \<Rightarrow> v)"

definition load_node :: "raw_node \<Rightarrow> py_error + node" where
  "load_node w =
     (case w_id w of
        None \<Rightarrow> Inl (KeyError ''id'')
      | Some i \<Rightarrow>
          (case w_milestone w of
             None \<Rightarrow> Inl (KeyError ''milestone'')
           | Some m \<Rightarrow> Inr
               \<lparr>n_id = i, n_kind = json_get (w_kind w) ''behavior'', n_milestone = m,
                n_title = json_get (w_title w) [], n_scope = json_get (w_scope w) [],
                n_depends_on = json_get (w_depends_on w) [],
                n_completes_behaviors = json_get (w_completes_behaviors w) [],
                n_supports_behaviors = json_get (w_supports_behaviors w) [],
                n_boundary_with_neighbors = json_get (w_boundary_with_neighbors w) [],
                n_expected_evidence = json_get (w_expected_evidence w) [],
                n_playbook = json_get (w_playbook w) [],
                n_rationale = json_get (w_rationale w) [],
                n_risks = json_get (w_risks w) []\<rparr>))"

fun load_nodes :: "raw_node list \<Rightarrow> (ident \<times> node) list \<Rightarrow> py_error + (ident \<times> node) list" where
  "load_nodes [] acc = Inr acc"
| "load_nodes (w # ws) acc =
     (case load_node w of
        Inl e \<Rightarrow> Inl e
      | Inr n \<Rightarrow> load_nodes ws (AList.update (n_id n) n acc))"

definition load :: "raw_node list \<Rightarrow> ident list \<Rightarrow> py_error + dag" where
  "load ws milestones =
     (case load_nodes ws [] of
        Inl e \<Rightarrow> Inl e
      | Inr ns \<Rightarrow> Inr \<lparr>dag_nodes = ns, dag_milestones = remdups milestones\<rparr>)"

section \<open>Topological order\<close>

definition node_ids :: "dag \<Rightarrow> ident list" where
  "node_ids g = map fst (dag_nodes g)"

definition inner_deps :: "dag \<Rightarrow> node \<Rightarrow> ident list" where
  "inner_deps g n = filter (\<lambda>d. d \<in> set (node_ids g)) (n_depends_on n)"

definition indegrees :: "dag \<Rightarrow> ident \<Rightarrow> int" where
  "indegrees g = (\<lambda>x. case map_of (dag_nodes g) x of
                         None \<Rightarrow> 0 | Some n \<Rightarrow> int (length (inner_deps g n)))"

definition rev_edges :: "dag \<Rightarrow> ident \<Rightarrow> ident list" where
  "rev_edges g d = [nid. (nid, n) \<leftarrow> dag_nodes g, d' \<leftarrow> inner_deps g n, d' = d]"

fun relax :: "ident list \<Rightarrow> (ident \<Rightarrow> int) \<Rightarrow> ident list \<Rightarrow> (ident \<Rightarrow> int) \<times> ident list" where
  "relax [] indeg ready = (indeg, ready)"
| "relax (x # xs) indeg ready =
     (let indeg' = indeg(x := indeg x - 1)
      in relax xs indeg' (if indeg' x = 0 then ready @ [x] else ready))"

lemma relax_measure:
  assumes "relax xs f r = (f', r')" and "set xs \<subseteq> S" and "finite S"
  shows "card {x \<in> S. 0 < f' x} + length r' = card {x \<in> S. 0 < f x} + length r"
  using assms
proof (induction xs arbitrary: f r)
  case Nil
  then show ?case by simp
next
  case (Cons x xs)
  let ?f = "f(x := f x - 1)"
  have IH: "card {y \<in> S. 0 < f' y} + length r' =
      card {y \<in> S. 0 < ?f y} + length (if ?f x = 0 then r @ [x] else r)"
  proof (rule Cons.IH)
    show "relax xs ?f (if ?f x = 0 then r @ [x] else r) = (f', r')"
      using Cons.prems(1) by (simp only: relax.simps Let_def)
  qed (use Cons.prems in simp_all)
  have x: "x \<in> S" using Cons.prems by simp
  show ?case
  proof (cases "f x = 1")
    case True
    then have "{y \<in> S. 0 < f y} = insert x {y \<in> S. 0 < ?f y}" using x by auto
    then have "card {y \<in> S. 0 < f y} = Suc (card {y \<in> S. 0 < ?f y})"
      using True Cons.prems(3) by simp
    with IH True show ?thesis by simp
  next
    case False
    then have "{y \<in> S. 0 < f y} = {y \<in> S. 0 < ?f y}" by auto
    with IH False show ?thesis by simp
  qed
qed

lemma rev_edges_keys: "set (rev_edges g d) \<subseteq> set (node_ids g)"
  by (auto simp: rev_edges_def node_ids_def split: if_splits intro: rev_image_eqI)

text \<open>\<^verbatim>\<open>while ready: ready.sort(); cur = ready.pop(0); ...\<close>\<close>

function kahn :: "dag \<Rightarrow> (ident \<Rightarrow> int) \<Rightarrow> ident list \<Rightarrow> ident list \<Rightarrow> ident list" where
  "kahn g indeg ready out =
     (case sort ready of
        [] \<Rightarrow> out
      | cur # rest \<Rightarrow>
          (case relax (rev_edges g cur) indeg rest of
             (indeg', ready') \<Rightarrow> kahn g indeg' ready' (out @ [cur])))"
  by pat_completeness auto
termination
proof (relation "measure (\<lambda>(g, indeg, ready, out).
      card {x \<in> set (node_ids g). 0 < indeg x} + length ready)", goal_cases)
  case (2 g indeg ready out cur rest indeg' ready')
  have "card {x \<in> set (node_ids g). 0 < indeg' x} + length ready' =
      card {x \<in> set (node_ids g). 0 < indeg x} + length rest"
    using relax_measure [OF 2(2) [symmetric] rev_edges_keys] by simp
  moreover have "length ready = Suc (length rest)"
    using 2(1) by (metis length_Cons length_sort)
  ultimately show ?case by simp
qed auto

declare kahn.simps [simp del]

definition topo_order :: "dag \<Rightarrow> py_error + ident list" where
  "topo_order g =
     (let out = kahn g (indegrees g) (filter (\<lambda>x. indegrees g x = 0) (node_ids g)) []
      in if length out \<noteq> length (node_ids g) then Inl (ValueError ''cycle in DAG'') else Inr out)"

text \<open>\<^verbatim>\<open>topo_layers\<close>: the depth dict is filled in topological order; \<^verbatim>\<open>max\<close> of no values raises.\<close>

definition node_depth :: "node \<Rightarrow> (ident \<times> nat) list \<Rightarrow> py_error + nat" where
  "node_depth n depth =
     (if n_depends_on n = [] then Inr 0
      else case [k. Some k \<leftarrow> map (map_of depth) (n_depends_on n)] of
             [] \<Rightarrow> Inl (ValueError ''max() arg is an empty sequence'')
           | k # ks \<Rightarrow> Inr (1 + fold max ks k))"

fun depths :: "dag \<Rightarrow> ident list \<Rightarrow> (ident \<times> nat) list \<Rightarrow> py_error + (ident \<times> nat) list" where
  "depths g [] depth = Inr depth"
| "depths g (x # xs) depth =
     (case map_of (dag_nodes g) x of
        None \<Rightarrow> Inl (KeyError x)
      | Some n \<Rightarrow>
          (case node_depth n depth of
             Inl e \<Rightarrow> Inl e
           | Inr k \<Rightarrow> depths g xs (AList.update x k depth)))"

definition group_layers :: "(ident \<times> nat) list \<Rightarrow> ident list list" where
  "group_layers depth =
     map (\<lambda>k. map fst (filter (\<lambda>(x, k'). k' = k) depth)) (sort (remdups (map snd depth)))"

definition topo_layers :: "dag \<Rightarrow> py_error + ident list list" where
  "topo_layers g =
     (case topo_order g of
        Inl e \<Rightarrow> Inl e
      | Inr order \<Rightarrow>
          (case depths g order [] of Inl e \<Rightarrow> Inl e | Inr depth \<Rightarrow> Inr (group_layers depth)))"

section \<open>Readiness and closures\<close>

definition ready_nodes :: "dag \<Rightarrow> ident set \<Rightarrow> ident set \<Rightarrow> string set \<Rightarrow> node list" where
  "ready_nodes g completed in_progress skip_kinds =
     sort_key n_id
       (map snd (filter (\<lambda>(nid, n). nid \<notin> completed \<and> nid \<notin> in_progress \<and>
                                     n_kind n \<notin> skip_kinds \<and>
                                     list_all (\<lambda>d. d \<in> completed) (n_depends_on n))
                        (dag_nodes g)))"

definition dep_graph :: "dag \<Rightarrow> ident graph" where
  "dep_graph g = map (\<lambda>(nid, n). (nid, n_depends_on n)) (dag_nodes g)"

text \<open>\<^verbatim>\<open>DAG.filter\<close>: the seed set is listed in some order, and the result is a set.\<close>

definition dag_filter :: "dag \<Rightarrow> ident list option \<Rightarrow> string option \<Rightarrow> ident set" where
  "dag_filter g ids milestone =
     (if ids = None \<and> milestone = None then set (node_ids g)
      else
        let from_ids = (case ids of None \<Rightarrow> [] | Some is \<Rightarrow> filter (\<lambda>i. i \<in> set (node_ids g)) is);
            from_milestone = (case milestone of
               None \<Rightarrow> []
             | Some m \<Rightarrow> if m = [] then []
                 else map fst (filter (\<lambda>(nid, n). n_milestone n = m) (dag_nodes g)))
        in closure_from (dep_graph g) (remdups (from_ids @ from_milestone)) {})"

text \<open>The reversed edges of \<^verbatim>\<open>descendants_of\<close>, dangling targets included.\<close>

definition dependents :: "dag \<Rightarrow> ident \<Rightarrow> ident list" where
  "dependents g d = [nid. (nid, n) \<leftarrow> dag_nodes g, d' \<leftarrow> n_depends_on n, d' = d]"

definition rev_graph :: "dag \<Rightarrow> ident graph" where
  "rev_graph g =
     map (\<lambda>d. (d, dependents g d)) (remdups (concat (map (\<lambda>(nid, n). n_depends_on n) (dag_nodes g))))"

definition descendants_of :: "dag \<Rightarrow> ident \<Rightarrow> ident set" where
  "descendants_of g x = reach_from (rev_graph g) [x] {}"

definition ancestors_of :: "dag \<Rightarrow> ident \<Rightarrow> ident set" where
  "ancestors_of g x =
     (case map_of (dag_nodes g) x of
        None \<Rightarrow> {}
      | Some n \<Rightarrow> closure_from (dep_graph g) (n_depends_on n) {})"

record dag_stats =
  st_node_count :: nat
  st_milestone_count :: nat
  st_depth :: nat
  st_max_layer_width :: nat

definition stats :: "dag \<Rightarrow> py_error + dag_stats" where
  "stats g =
     (case topo_layers g of
        Inl e \<Rightarrow> Inl e
      | Inr layers \<Rightarrow> Inr
          \<lparr>st_node_count = length (node_ids g), st_milestone_count = length (dag_milestones g),
           st_depth = length layers, st_max_layer_width = fold max (map length layers) 0\<rparr>)"

section \<open>Loading\<close>

definition dag_ok :: "dag \<Rightarrow> bool" where
  "dag_ok g \<longleftrightarrow> distinct (node_ids g) \<and> (\<forall>(k, n) \<in> set (dag_nodes g). n_id n = k)"

lemma load_nodes_ok:
  assumes "load_nodes ws acc = Inr ns" and "distinct (map fst acc)" and "\<forall>(k, n) \<in> set acc. n_id n = k"
  shows "distinct (map fst ns) \<and> (\<forall>(k, n) \<in> set ns. n_id n = k)"
  using assms
proof (induction ws acc rule: load_nodes.induct)
  case (1 acc)
  then show ?case by simp
next
  case (2 w ws acc)
  obtain n where n: "load_node w = Inr n" using 2(2) by (cases "load_node w") auto
  have mem: "(k, m) \<in> set (AList.update (n_id n) n acc) \<Longrightarrow> n_id m = k" for k m
    using 2(4) by (induction acc) (auto split: if_splits)
  show ?case
    using 2(1) [OF n] 2(2,3) n mem by (auto simp: distinct_update)
qed

lemma load_ok: "load ws ms = Inr g \<Longrightarrow> dag_ok g"
  using load_nodes_ok [of ws "[]"] by (auto simp: load_def dag_ok_def node_ids_def split: sum.splits)

section \<open>Kahn's loop\<close>

definition deps_of :: "dag \<Rightarrow> ident \<Rightarrow> ident list" where
  "deps_of g x = (case map_of (dag_nodes g) x of None \<Rightarrow> [] | Some n \<Rightarrow> inner_deps g n)"

text \<open>The dependency relation inside the graph, and what an order of the nodes has to satisfy.\<close>

definition dep_rel :: "dag \<Rightarrow> (ident \<times> ident) set" where
  "dep_rel g = {(d, x). d \<in> set (deps_of g x)}"

definition deps_first :: "dag \<Rightarrow> ident list \<Rightarrow> bool" where
  "deps_first g xs \<longleftrightarrow> (\<forall>i < length xs. set (deps_of g (xs ! i)) \<subseteq> set (take i xs))"

lemma deps_of_keys: "d \<in> set (deps_of g x) \<Longrightarrow> d \<in> set (node_ids g) \<and> x \<in> set (node_ids g)"
  by (cases "map_of (dag_nodes g) x")
    (force simp: deps_of_def inner_deps_def node_ids_def dest: map_of_SomeD)+

lemma indegrees_eq: "indegrees g x = int (length (deps_of g x))"
  by (simp add: indegrees_def deps_of_def split: option.splits)

lemma count_filter_singletons:
  "count_list (concat (map (\<lambda>d'. if d' = d then [nid] else []) ds)) x =
     (if nid = x then count_list ds d else 0)"
  by (induction ds) auto

lemma count_reversed:
  "distinct (map fst ns) \<Longrightarrow>
   count_list (concat (map (\<lambda>(nid, n). concat (map (\<lambda>d'. if d' = d then [nid] else []) (f n))) ns)) x =
   count_list (case map_of ns x of None \<Rightarrow> [] | Some n \<Rightarrow> f n) d"
proof (induction ns)
  case Nil
  then show ?case by simp
next
  case (Cons a ns)
  obtain nid n where a: "a = (nid, n)" by fastforce
  have none: "map_of ns nid = None" using Cons.prems a by (simp add: map_of_eq_None_iff)
  have "distinct (map fst ns)" using Cons.prems a by simp
  note IH = Cons.IH [OF this]
  have "count_list (concat (map (\<lambda>(nid, n). concat (map (\<lambda>d'. if d' = d then [nid] else []) (f n))) (a # ns))) x =
      (if nid = x then count_list (f n) d else 0) +
      count_list (case map_of ns x of None \<Rightarrow> [] | Some n \<Rightarrow> f n) d"
    by (simp only: a list.map concat.simps prod.case count_list_append count_filter_singletons IH)
  then show ?case
    using none by (cases "nid = x") (simp_all add: a)
qed

lemma count_rev_edges:
  assumes "distinct (node_ids g)"
  shows "count_list (rev_edges g d) x = count_list (deps_of g x) d"
  using count_reversed [of "dag_nodes g" d "inner_deps g" x] assms
  by (simp only: rev_edges_def deps_of_def node_ids_def)

lemma relax_effect:
  assumes "relax xs f r = (f', r')" and "\<forall>x \<in> set xs. int (count_list xs x) \<le> f x"
    and "\<forall>x \<in> set r. f x \<le> 0" and "distinct r"
  shows "(\<forall>x. f' x = f x - int (count_list xs x)) \<and> distinct r' \<and>
    set r' = set r \<union> {x \<in> set xs. f' x = 0}"
  using assms
proof (induction xs arbitrary: f r)
  case Nil
  then show ?case by simp
next
  case (Cons x xs)
  let ?f = "f(x := f x - 1)" and ?r = "if f x = 1 then r @ [x] else r"
  have fx: "1 + int (count_list xs x) \<le> f x" using Cons.prems(2) by simp
  have "(\<forall>y. f' y = ?f y - int (count_list xs y)) \<and> distinct r' \<and>
      set r' = set ?r \<union> {y \<in> set xs. f' y = 0}"
  proof (rule Cons.IH)
    show "relax xs ?f ?r = (f', r')" using Cons.prems(1) by (simp add: Let_def split: if_splits)
    show "\<forall>y \<in> set xs. int (count_list xs y) \<le> ?f y" using Cons.prems(2) fx by auto
    show "\<forall>y \<in> set ?r. ?f y \<le> 0" using Cons.prems(3) by (auto split: if_splits)
    show "distinct ?r" using Cons.prems(3,4) fx by (auto split: if_splits)
  qed
  moreover have "f x = 1 \<Longrightarrow> count_list xs x = 0" using fx by simp
  moreover have "x \<in> set xs \<Longrightarrow> 0 < count_list xs x"
    by (metis count_list_0_iff neq0_conv)
  ultimately show ?case by (auto split: if_splits)
qed

definition kahn_inv :: "dag \<Rightarrow> (ident \<Rightarrow> int) \<Rightarrow> ident list \<Rightarrow> ident list \<Rightarrow> bool" where
  "kahn_inv g indeg ready out \<longleftrightarrow>
     distinct (out @ ready) \<and> set (out @ ready) \<subseteq> set (node_ids g) \<and> deps_first g out \<and>
     (\<forall>x. indeg x = int (length (filter (\<lambda>d. d \<notin> set out) (deps_of g x)))) \<and>
     (\<forall>x \<in> set (node_ids g). indeg x = 0 \<longleftrightarrow> x \<in> set (out @ ready))"

lemma filter_count:
  "c \<notin> A \<Longrightarrow> length (filter (\<lambda>d. d \<notin> A) l) =
     length (filter (\<lambda>d. d \<notin> insert c A) l) + count_list l c"
  by (induction l) auto

lemma deps_first_snoc:
  "deps_first g xs \<Longrightarrow> set (deps_of g x) \<subseteq> set xs \<Longrightarrow> deps_first g (xs @ [x])"
  by (auto simp: deps_first_def nth_append less_Suc_eq)

lemma deps_firstD:
  "deps_first g xs \<Longrightarrow> i < length xs \<Longrightarrow> d \<in> set (deps_of g (xs ! i)) \<Longrightarrow> d \<in> set (take i xs)"
  unfolding deps_first_def by blast

lemma kahn_invD:
  assumes "kahn_inv g indeg ready out"
  shows "indeg x = int (length (filter (\<lambda>d. d \<notin> set out) (deps_of g x)))"
    and "x \<in> set (node_ids g) \<Longrightarrow> indeg x = 0 \<longleftrightarrow> x \<in> set (out @ ready)"
  using assms unfolding kahn_inv_def by blast+

lemma kahn_inv_step:
  assumes inv: "kahn_inv g indeg ready out" and g: "distinct (node_ids g)"
    and pick: "sort ready = cur # rest"
    and relax: "relax (rev_edges g cur) indeg rest = (indeg', ready')"
  shows "kahn_inv g indeg' ready' (out @ [cur])"
proof -
  have rd: "set ready = insert cur (set rest)" "distinct ready \<longleftrightarrow> distinct (cur # rest)"
    using pick by (metis list.simps(15) set_sort, metis pick distinct_sort)
  have indeg: "indeg x = int (length (filter (\<lambda>d. d \<notin> set out) (deps_of g x)))" for x
    using inv by (simp add: kahn_inv_def)
  have fresh: "cur \<notin> set out" and dist: "distinct rest" "cur \<notin> set rest" "set rest \<inter> set out = {}"
    and keys: "set (out @ cur # rest) \<subseteq> set (node_ids g)"
    using inv rd by (auto simp: kahn_inv_def)
  have zero: "\<forall>x \<in> set (node_ids g). indeg x = 0 \<longleftrightarrow> x \<in> set out \<or> x = cur \<or> x \<in> set rest"
    using inv rd by (auto simp: kahn_inv_def)
  have split: "indeg x = int (length (filter (\<lambda>d. d \<notin> insert cur (set out)) (deps_of g x))) +
      int (count_list (rev_edges g cur) x)" for x
    using filter_count [OF fresh, of "deps_of g x"] by (simp add: indeg count_rev_edges [OF g])
  have enough: "\<forall>x \<in> set (rev_edges g cur). int (count_list (rev_edges g cur) x) \<le> indeg x"
    using split by simp
  have drained: "\<forall>x \<in> set rest. indeg x \<le> 0"
  proof
    fix x assume "x \<in> set rest"
    then have "indeg x = 0" using zero keys by auto
    then show "indeg x \<le> 0" by simp
  qed
  note eff' = relax_effect [OF relax enough drained dist(1)]
  have eff: "\<forall>x. indeg' x = indeg x - int (count_list (rev_edges g cur) x)" "distinct ready'"
      "set ready' = set rest \<union> {x \<in> set (rev_edges g cur). indeg' x = 0}"
    using eff' by blast+
  have indeg': "indeg' x = int (length (filter (\<lambda>d. d \<notin> set (out @ [cur])) (deps_of g x)))" for x
    using split [of x] eff(1) by (simp add: insert_commute)
  have done': "count_list (rev_edges g cur) x = 0" if "x \<in> set (out @ cur # rest)" for x
  proof -
    have "indeg x = 0" using zero keys that by auto
    with split [of x] show ?thesis by simp
  qed
  then have apart: "set (rev_edges g cur) \<inter> set (out @ cur # rest) = {}"
    by (auto simp: count_list_0_iff)
  have "set (deps_of g cur) \<subseteq> set out"
  proof -
    have "indeg cur = 0" using zero keys by auto
    then show ?thesis by (auto simp: indeg filter_empty_conv)
  qed
  then have "deps_first g (out @ [cur])"
    using inv by (simp add: kahn_inv_def deps_first_snoc)
  moreover have "indeg' x = 0 \<longleftrightarrow> x \<in> set ((out @ [cur]) @ ready')" if "x \<in> set (node_ids g)" for x
  proof -
    consider (old) "x \<in> set (out @ cur # rest)" | (touched) "x \<notin> set (out @ cur # rest)" "x \<in> set (rev_edges g cur)"
      | (untouched) "x \<notin> set (out @ cur # rest)" "x \<notin> set (rev_edges g cur)" by blast
    then show ?thesis
    proof cases
      case old
      then have "indeg' x = 0" using zero that done' [OF old] eff(1) by auto
      with old eff(3) show ?thesis by auto
    next
      case touched
      with eff(3) show ?thesis by auto
    next
      case untouched
      then have "indeg' x = indeg x" using eff(1) by (simp add: count_list_0_iff)
      with untouched zero that eff(3) show ?thesis by auto
    qed
  qed
  moreover have "distinct ((out @ [cur]) @ ready')"
    using eff(2,3) apart dist fresh inv by (auto simp: kahn_inv_def)
  moreover have "set ((out @ [cur]) @ ready') \<subseteq> set (node_ids g)"
    using keys eff(3) rev_edges_keys [of g cur] by auto
  ultimately show ?thesis unfolding kahn_inv_def using indeg' by blast
qed

lemma kahn_inv_end:
  assumes "kahn_inv g indeg ready out" and "distinct (node_ids g)"
  shows "\<exists>indeg'. kahn_inv g indeg' [] (kahn g indeg ready out)"
  using assms
proof (induction g indeg ready out rule: kahn.induct)
  case (1 g indeg ready out)
  show ?case
  proof (cases "sort ready")
    case Nil
    then have "ready = []" by (metis length_0_conv length_sort)
    with 1(2) show ?thesis by (subst kahn.simps) auto
  next
    case (Cons cur rest)
    obtain indeg' ready' where rel: "relax (rev_edges g cur) indeg rest = (indeg', ready')" by fastforce
    from 1(1) [OF Cons rel [symmetric] kahn_inv_step [OF 1(2,3) Cons rel] 1(3)]
    show ?thesis by (subst kahn.simps) (simp add: Cons rel)
  qed
qed

section \<open>The order exists exactly when there is no cycle\<close>

lemma kahn_inv_start:
  "distinct (node_ids g) \<Longrightarrow>
   kahn_inv g (indegrees g) (filter (\<lambda>x. indegrees g x = 0) (node_ids g)) []"
  by (auto simp: kahn_inv_def deps_first_def indegrees_eq)

definition kahn_result :: "dag \<Rightarrow> ident list" where
  "kahn_result g = kahn g (indegrees g) (filter (\<lambda>x. indegrees g x = 0) (node_ids g)) []"

lemma kahn_result_facts:
  assumes "distinct (node_ids g)"
  shows "distinct (kahn_result g)" and "set (kahn_result g) \<subseteq> set (node_ids g)"
    and "deps_first g (kahn_result g)"
    and "\<And>x. x \<in> set (node_ids g) \<Longrightarrow> x \<notin> set (kahn_result g) \<Longrightarrow>
          \<exists>d \<in> set (deps_of g x). d \<notin> set (kahn_result g)"
proof -
  obtain indeg where inv: "kahn_inv g indeg [] (kahn_result g)"
    using kahn_inv_end [OF kahn_inv_start [OF assms] assms] by (auto simp: kahn_result_def)
  then show "distinct (kahn_result g)" and "set (kahn_result g) \<subseteq> set (node_ids g)"
    and "deps_first g (kahn_result g)" by (simp_all add: kahn_inv_def)
  show "\<exists>d \<in> set (deps_of g x). d \<notin> set (kahn_result g)"
    if "x \<in> set (node_ids g)" "x \<notin> set (kahn_result g)" for x
  proof (rule ccontr)
    assume "\<not> ?thesis"
    then have "filter (\<lambda>d. d \<notin> set (kahn_result g)) (deps_of g x) = []"
      by (simp add: filter_empty_conv)
    then have "indeg x = 0" using kahn_invD(1) [OF inv, of x] by simp
    with kahn_invD(2) [OF inv that(1)] that(2) show False by simp
  qed
qed

lemma topo_order_eq:
  "topo_order g = (if length (kahn_result g) \<noteq> length (node_ids g)
     then Inl (ValueError ''cycle in DAG'') else Inr (kahn_result g))"
  by (simp add: topo_order_def kahn_result_def Let_def)

lemma full_length_iff:
  assumes "distinct (node_ids g)"
  shows "length (kahn_result g) = length (node_ids g) \<longleftrightarrow> set (kahn_result g) = set (node_ids g)"
  using kahn_result_facts(1,2) [OF assms] assms
  by (metis card_subset_eq distinct_card finite_set)

lemma finite_dep_rel: "finite (dep_rel g)"
proof (rule finite_subset)
  show "dep_rel g \<subseteq> set (node_ids g) \<times> set (node_ids g)"
    using deps_of_keys by (auto simp: dep_rel_def)
qed simp

lemma deps_first_acyclic:
  assumes first: "deps_first g xs" and all: "set (node_ids g) \<subseteq> set xs"
  shows "acyclic (dep_rel g)"
proof (rule acyclic_subset)
  let ?pos = "\<lambda>x. length (takeWhile (\<lambda>y. y \<noteq> x) xs)"
  show "acyclic (measure ?pos)" by (rule wf_acyclic) simp
  show "dep_rel g \<subseteq> measure ?pos"
  proof clarify
    fix d x assume "(d, x) \<in> dep_rel g"
    then have d: "d \<in> set (deps_of g x)" by (simp add: dep_rel_def)
    then have "x \<in> set xs" using deps_of_keys all by blast
    then have "takeWhile (\<lambda>y. y \<noteq> x) xs \<noteq> xs" by (auto simp: takeWhile_eq_all_conv)
    then have px: "?pos x < length xs"
      using length_takeWhile_le [of "\<lambda>y. y \<noteq> x" xs]
      by (metis order_le_imp_less_or_eq takeWhile_eq_take take_all_iff order_refl)
    then have "xs ! ?pos x = x" using nth_length_takeWhile [of "\<lambda>y. y \<noteq> x" xs] by blast
    then have "d \<in> set (take (?pos x) xs)"
      using deps_firstD [OF first px] d by simp
    then have "d \<in> set (takeWhile (\<lambda>y. y \<noteq> x) xs)" by (simp add: takeWhile_eq_take [symmetric])
    then obtain i where i: "i < ?pos x" "xs ! i = d"
      by (metis in_set_conv_nth takeWhile_nth)
    have "?pos d \<le> i"
    proof (rule ccontr)
      assume "\<not> ?pos d \<le> i"
      then have "takeWhile (\<lambda>y. y \<noteq> d) xs ! i = xs ! i" "i < ?pos d" by (simp_all add: takeWhile_nth)
      then have "xs ! i \<in> set (takeWhile (\<lambda>y. y \<noteq> d) xs)" by (metis nth_mem)
      with i(2) show False by (auto dest: set_takeWhileD)
    qed
    with i(1) show "(d, x) \<in> measure ?pos" by simp
  qed
qed

lemma stuck_cyclic:
  assumes "finite R" "R \<noteq> {}" and "\<And>x. x \<in> R \<Longrightarrow> \<exists>d \<in> R. (d, x) \<in> dep_rel g"
  shows "\<not> acyclic (dep_rel g)"
proof
  assume "acyclic (dep_rel g)"
  then have "wf (dep_rel g)" by (intro finite_acyclic_wf finite_dep_rel)
  then obtain z where "z \<in> R" "\<And>y. (y, z) \<in> dep_rel g \<Longrightarrow> y \<notin> R"
    using assms(2) by (metis wf_eq_minimal ex_in_conv)
  with assms(3) [of z] show False by blast
qed

lemma topo_order_cases:
  assumes "distinct (node_ids g)"
  shows "if acyclic (dep_rel g)
    then \<exists>xs. topo_order g = Inr xs \<and> set xs = set (node_ids g) \<and> distinct xs \<and> deps_first g xs
    else topo_order g = Inl (ValueError ''cycle in DAG'')"
proof (cases "set (kahn_result g) = set (node_ids g)")
  case True
  with kahn_result_facts [OF assms] have "acyclic (dep_rel g)"
    by (intro deps_first_acyclic [of g "kahn_result g"]) auto
  with True show ?thesis
    using kahn_result_facts [OF assms] full_length_iff [OF assms] by (simp add: topo_order_eq)
next
  case False
  let ?R = "set (node_ids g) - set (kahn_result g)"
  have "\<not> acyclic (dep_rel g)"
  proof (rule stuck_cyclic [of ?R])
    show "?R \<noteq> {}" using False kahn_result_facts(2) [OF assms] by blast
    show "\<exists>d \<in> ?R. (d, x) \<in> dep_rel g" if "x \<in> ?R" for x
      using kahn_result_facts(4) [OF assms, of x] that deps_of_keys by (fastforce simp: dep_rel_def)
  qed simp
  with False show ?thesis
    using full_length_iff [OF assms] by (simp add: topo_order_eq)
qed

section \<open>Closures\<close>

text \<open>\<open>depends g x d\<close>: \<open>x\<close> lists \<open>d\<close>, inside the graph or not.\<close>

definition depends :: "dag \<Rightarrow> (ident \<times> ident) set" where
  "depends g = {(x, d). \<exists>n. map_of (dag_nodes g) x = Some n \<and> d \<in> set (n_depends_on n)}"

lemma succs_dep_graph:
  "succs (dep_graph g) x = (case map_of (dag_nodes g) x of None \<Rightarrow> [] | Some n \<Rightarrow> n_depends_on n)"
proof -
  have tab: "map_of (map (\<lambda>(nid, n). (nid, n_depends_on n)) ns) x = map_option n_depends_on (map_of ns x)" for ns
    by (induction ns) auto
  show ?thesis unfolding succs_def dep_graph_def tab by (cases "map_of (dag_nodes g) x") simp_all
qed

lemma edge_rel_dep_graph: "edge_rel (dep_graph g) = depends g"
proof -
  have "y \<in> set (succs (dep_graph g) x) \<longleftrightarrow> (x, y) \<in> depends g" for x y
    by (cases "map_of (dag_nodes g) x") (simp_all add: succs_dep_graph depends_def)
  then show ?thesis by (auto simp: edge_rel_def)
qed

lemma dependents_iff:
  assumes "distinct (node_ids g)"
  shows "x \<in> set (dependents g d) \<longleftrightarrow> (x, d) \<in> depends g"
proof -
  have "x \<in> set (dependents g d) \<longleftrightarrow> (\<exists>n. (x, n) \<in> set (dag_nodes g) \<and> d \<in> set (n_depends_on n))"
    by (auto simp: dependents_def)
  then show ?thesis using assms by (auto simp: depends_def node_ids_def map_of_eq_Some_iff)
qed

lemma edge_rel_rev_graph:
  assumes "distinct (node_ids g)"
  shows "edge_rel (rev_graph g) = (depends g)\<inverse>"
proof -
  let ?ds = "remdups (concat (map (\<lambda>(nid, n). n_depends_on n) (dag_nodes g)))"
  have tab: "map_of (map (\<lambda>d. (d, dependents g d)) ds) d =
      (if d \<in> set ds then Some (dependents g d) else None)" for ds d
    by (induction ds) auto
  have "dependents g d = []" if "d \<notin> set ?ds" for d
    using that by (auto simp: dependents_def)
  then have "succs (rev_graph g) d = dependents g d" for d
    unfolding succs_def rev_graph_def tab by auto
  then show ?thesis using dependents_iff [OF assms] by (auto simp: edge_rel_def)
qed

lemma descendants_reach:
  assumes "distinct (node_ids g)"
  shows "descendants_of g x = {y. (y, x) \<in> (depends g)\<^sup>+}"
  using reach_from_correct [of "rev_graph g" x]
  by (auto simp: descendants_of_def edge_rel_rev_graph [OF assms] trancl_converse)

lemma ancestors_reach: "ancestors_of g x = {y. (x, y) \<in> (depends g)\<^sup>+}"
proof (cases "map_of (dag_nodes g) x")
  case None
  then have "(x, y) \<notin> (depends g)\<^sup>+" for y
    by (auto simp: depends_def dest: tranclD)
  with None show ?thesis by (simp add: ancestors_of_def)
next
  case (Some n)
  have "(x, d) \<in> depends g \<longleftrightarrow> d \<in> set (n_depends_on n)" for d
    using Some by (simp add: depends_def)
  then have "(x, y) \<in> (depends g)\<^sup>+ \<longleftrightarrow> (\<exists>d \<in> set (n_depends_on n). (d, y) \<in> (depends g)\<^sup>*)" for y
    by (meson rtrancl_into_trancl2 tranclD)
  with Some show ?thesis
    by (auto simp: ancestors_of_def closure_from_correct edge_rel_dep_graph)
qed

lemma dag_filter_closure:
  assumes "ids \<noteq> None \<or> ms \<noteq> None"
  shows "dag_filter g ids ms = (depends g)\<^sup>* ``
    {x \<in> set (node_ids g). (\<exists>is. ids = Some is \<and> x \<in> set is) \<or>
       (\<exists>m n. ms = Some m \<and> m \<noteq> [] \<and> (x, n) \<in> set (dag_nodes g) \<and> n_milestone n = m)}"
proof -
  let ?from_ids = "case ids of None \<Rightarrow> [] | Some is \<Rightarrow> filter (\<lambda>i. i \<in> set (node_ids g)) is"
  let ?from_ms = "case ms of None \<Rightarrow> [] | Some m \<Rightarrow> if m = [] then []
      else map fst (filter (\<lambda>(nid, n). n_milestone n = m) (dag_nodes g))"
  have "set (?from_ids @ ?from_ms) =
      {x \<in> set (node_ids g). (\<exists>is. ids = Some is \<and> x \<in> set is) \<or>
       (\<exists>m n. ms = Some m \<and> m \<noteq> [] \<and> (x, n) \<in> set (dag_nodes g) \<and> n_milestone n = m)}"
    by (cases ids; cases ms) (force simp: node_ids_def)+
  moreover have "dag_filter g ids ms = (depends g)\<^sup>* `` set (?from_ids @ ?from_ms)"
    using assms by (auto simp: dag_filter_def Let_def closure_from_correct edge_rel_dep_graph)
  ultimately show ?thesis by simp
qed

section \<open>Layers\<close>

text \<open>No node has dependencies that all lie outside the graph.\<close>

definition anchored :: "dag \<Rightarrow> bool" where
  "anchored g \<longleftrightarrow> (\<forall>(x, n) \<in> set (dag_nodes g). n_depends_on n \<noteq> [] \<longrightarrow> inner_deps g n \<noteq> [])"

lemma some_values:
  "k \<in> set (concat (map (\<lambda>v. case v of None \<Rightarrow> [] | Some k \<Rightarrow> [k]) (map f ds))) \<longleftrightarrow>
     (\<exists>d \<in> set ds. f d = Some k)"
  by (induction ds) (auto split: option.splits)

lemma fold_max_ge: "x \<in> set (k # ks) \<Longrightarrow> (x :: nat) \<le> fold max ks k"
  using Max_ge [of "set (k # ks)" x] by (simp add: Max.set_eq_fold del: list.set)

lemma node_depth_ok:
  assumes "n_depends_on n \<noteq> [] \<Longrightarrow> \<exists>d \<in> set (n_depends_on n). map_of depth d \<noteq> None"
  shows "\<exists>k. node_depth n depth = Inr k \<and>
    (\<forall>d \<in> set (n_depends_on n). \<forall>j. map_of depth d = Some j \<longrightarrow> j < k)"
proof (cases "n_depends_on n = []")
  case True
  then show ?thesis by (simp add: node_depth_def)
next
  case False
  let ?L = "concat (map (\<lambda>v. case v of None \<Rightarrow> [] | Some k \<Rightarrow> [k]) (map (map_of depth) (n_depends_on n)))"
  note mem = some_values [of _ "map_of depth" "n_depends_on n"]
  obtain k ks where L: "?L = k # ks"
  proof (cases ?L)
    case Nil
    with assms False mem show ?thesis by (metis empty_iff list.set(1) not_None_eq)
  qed (rule that)
  have run: "node_depth n depth = Inr (1 + fold max ks k)"
    using False L by (simp add: node_depth_def)
  have "j < 1 + fold max ks k" if "d \<in> set (n_depends_on n)" "map_of depth d = Some j" for d j
  proof -
    have "j \<in> set (k # ks)" using that mem unfolding L by blast
    then have "j \<le> fold max ks k" by (rule fold_max_ge)
    then show ?thesis by simp
  qed
  with run show ?thesis by blast
qed

lemma depths_run:
  assumes "distinct (node_ids g)" and "anchored g"
    and "deps_first g (ys @ xs)" and "distinct (ys @ xs)" and "set (ys @ xs) \<subseteq> set (node_ids g)"
    and "dom (map_of depth) = set ys" and "distinct (map fst depth)"
    and "\<forall>x \<in> set ys. \<forall>d \<in> set (deps_of g x). the (map_of depth d) < the (map_of depth x)"
  shows "\<exists>depth'. depths g xs depth = Inr depth' \<and> dom (map_of depth') = set (ys @ xs) \<and>
    distinct (map fst depth') \<and>
    (\<forall>x \<in> set (ys @ xs). \<forall>d \<in> set (deps_of g x). the (map_of depth' d) < the (map_of depth' x))"
  using assms(3-8)
proof (induction xs arbitrary: ys depth)
  case Nil
  then show ?case by simp
next
  case (Cons x xs)
  have "x \<in> set (node_ids g)" using Cons.prems(3) by simp
  then obtain n where n: "map_of (dag_nodes g) x = Some n"
    by (auto simp: node_ids_def dest: weak_map_of_SomeI)
  have deps: "set (deps_of g x) \<subseteq> set ys"
    using deps_firstD [OF Cons.prems(1), of "length ys"] by auto
  have dn: "deps_of g x = inner_deps g n" using n by (simp add: deps_of_def)
  have anch: "\<exists>d \<in> set (n_depends_on n). map_of depth d \<noteq> None" if "n_depends_on n \<noteq> []"
  proof -
    have "(x, n) \<in> set (dag_nodes g)" using n by (rule map_of_SomeD)
    with assms(2) that have "inner_deps g n \<noteq> []" unfolding anchored_def by blast
    then obtain d where d: "d \<in> set (inner_deps g n)" by (cases "inner_deps g n") auto
    then have "d \<in> dom (map_of depth)" using deps dn Cons.prems(4) by auto
    with d show ?thesis by (auto simp: inner_deps_def)
  qed
  obtain k where k: "node_depth n depth = Inr k"
    and above: "\<forall>d \<in> set (n_depends_on n). \<forall>j. map_of depth d = Some j \<longrightarrow> j < k"
    using node_depth_ok [OF anch] by blast
  let ?depth = "AList.update x k depth"
  have m: "map_of ?depth = (map_of depth)(x \<mapsto> k)" by (simp add: update_conv')
  have fresh: "x \<notin> set ys" using Cons.prems(2) by simp
  have old: "the (map_of ?depth d) < the (map_of ?depth z)" if z: "z \<in> set (ys @ [x])" "d \<in> set (deps_of g z)" for z d
  proof (cases "z = x")
    case True
    have "d \<in> set ys" using z(2) True deps by blast
    then obtain j where j: "map_of depth d = Some j" using Cons.prems(4) by blast
    have "d \<in> set (n_depends_on n)" using z(2) True dn by (simp add: inner_deps_def)
    with above j have "j < k" by blast
    with True j fresh \<open>d \<in> set ys\<close> show ?thesis by (auto simp: m)
  next
    case False
    then have zy: "z \<in> set ys" using z(1) by simp
    then obtain i where i: "i < length ys" "ys ! i = z" by (metis in_set_conv_nth)
    have "d \<in> set (take i (ys @ x # xs))"
      using deps_firstD [OF Cons.prems(1), of i d] i z(2) by (simp add: nth_append)
    then have "d \<in> set ys" using i(1) by (auto dest: in_set_takeD)
    then have "d \<noteq> x" using fresh by blast
    with False zy z(2) Cons.prems(6) show ?thesis by (simp add: m)
  qed
  have "\<exists>depth'. depths g xs ?depth = Inr depth' \<and> dom (map_of depth') = set ((ys @ [x]) @ xs) \<and>
    distinct (map fst depth') \<and>
    (\<forall>x \<in> set ((ys @ [x]) @ xs). \<forall>d \<in> set (deps_of g x). the (map_of depth' d) < the (map_of depth' x))"
  proof (rule Cons.IH)
    show "dom (map_of ?depth) = set (ys @ [x])" using Cons.prems(4) by (auto simp: m)
    show "distinct (map fst ?depth)" using Cons.prems(5) by (simp add: distinct_update)
    show "\<forall>z \<in> set (ys @ [x]). \<forall>d \<in> set (deps_of g z). the (map_of ?depth d) < the (map_of ?depth z)"
      using old by blast
  qed (use Cons.prems in simp_all)
  then show ?case by (simp add: n k)
qed

lemma group_layers_nth:
  "i < length (group_layers depth) \<Longrightarrow>
   set (group_layers depth ! i) =
     {x. (x, sort (remdups (map snd depth)) ! i) \<in> set depth}"
  by (force simp: group_layers_def)

lemma group_layers_below:
  assumes "distinct (map fst depth)" and "i < length (group_layers depth)"
    and "x \<in> set (group_layers depth ! i)" and "d \<in> dom (map_of depth)"
    and "the (map_of depth d) < the (map_of depth x)"
  shows "\<exists>j < i. d \<in> set (group_layers depth ! j)"
proof -
  let ?ks = "sort (remdups (map snd depth))"
  have len: "length (group_layers depth) = length ?ks" by (simp add: group_layers_def)
  obtain k where k: "map_of depth d = Some k" using assms(4) by blast
  then have kd: "(d, k) \<in> set depth" by (rule map_of_SomeD)
  then have "k \<in> set ?ks" by force
  then obtain j where j: "j < length ?ks" "?ks ! j = k" by (metis in_set_conv_nth)
  have "(x, ?ks ! i) \<in> set depth" using group_layers_nth [OF assms(2)] assms(3) by blast
  then have "map_of depth x = Some (?ks ! i)" using assms(1) by simp
  with assms(5) k j have less: "?ks ! j < ?ks ! i" by simp
  have "j < i"
  proof (rule ccontr)
    assume "\<not> j < i"
    then have "?ks ! i \<le> ?ks ! j" using j(1) by (intro sorted_nth_mono) simp_all
    with less show False by simp
  qed
  moreover have "d \<in> set (group_layers depth ! j)"
    using group_layers_nth [of j depth] j kd len by simp
  ultimately show ?thesis by blast
qed

text \<open>On an acyclic, anchored graph the layers exist; every dependency lies in a lower layer.\<close>

lemma topo_layers_run:
  assumes "distinct (node_ids g)" and "acyclic (dep_rel g)" and "anchored g"
  shows "\<exists>layers. topo_layers g = Inr layers \<and> (\<Union>l \<in> set layers. set l) = set (node_ids g) \<and>
    (\<forall>i < length layers. \<forall>x \<in> set (layers ! i). \<forall>d \<in> set (deps_of g x). \<exists>j < i. d \<in> set (layers ! j))"
proof -
  obtain xs where xs: "topo_order g = Inr xs" "set xs = set (node_ids g)" "distinct xs" "deps_first g xs"
    using topo_order_cases [OF assms(1)] assms(2) by auto
  obtain depth where d: "depths g xs [] = Inr depth" "dom (map_of depth) = set xs"
    "distinct (map fst depth)"
    and lt: "\<forall>x \<in> set xs. \<forall>d \<in> set (deps_of g x). the (map_of depth d) < the (map_of depth x)"
    using depths_run [OF assms(1,3), of "[]" xs "[]"] xs by auto
  have "\<exists>j < i. y \<in> set (group_layers depth ! j)"
    if i: "i < length (group_layers depth)" "x \<in> set (group_layers depth ! i)" "y \<in> set (deps_of g x)" for i x y
  proof (rule group_layers_below [OF d(3) i(1,2)])
    have "x \<in> set xs" "y \<in> set xs" using deps_of_keys [OF i(3)] xs(2) by simp_all
    then show "y \<in> dom (map_of depth)" and "the (map_of depth y) < the (map_of depth x)"
      using d(2) lt i(3) by blast+
  qed
  moreover have "(\<Union>l \<in> set (group_layers depth). set l) = set xs"
    unfolding d(2) [symmetric] by (force simp: group_layers_def dom_map_of_conv_image_fst)
  ultimately show ?thesis using xs(1,2) d(1) by (simp add: topo_layers_def)
qed

section \<open>Properties\<close>

text \<open>A diamond on four nodes, read from raw nodes, and a node whose only dependency lies outside.\<close>

definition demo_raw :: "string \<Rightarrow> string list \<Rightarrow> raw_node" where
  "demo_raw i deps = \<lparr>w_id = Some i, w_kind = None, w_milestone = Some ''M1'', w_title = None, w_scope = None,
     w_depends_on = Some deps, w_completes_behaviors = None, w_supports_behaviors = None,
     w_boundary_with_neighbors = None, w_expected_evidence = None, w_playbook = None, w_rationale = None,
     w_risks = None\<rparr>"

definition demo_diamond :: "raw_node list" where
  "demo_diamond = [demo_raw ''D'' [''B'', ''C''], demo_raw ''B'' [''A''], demo_raw ''C'' [''A''], demo_raw ''A'' []]"

definition demo_dag :: dag where
  "demo_dag = (case load demo_diamond [''M1''] of Inr g \<Rightarrow> g)"

lemma demo_dag_load: "load demo_diamond [''M1''] = Inr demo_dag"
  by code_simp

definition demo_dangling_dag :: dag where
  "demo_dangling_dag = (case load [demo_raw ''A'' [''X'']] [] of Inr g \<Rightarrow> g)"

lemma demo_dangling_load: "load [demo_raw ''A'' [''X'']] [] = Inr demo_dangling_dag"
  by code_simp

text \<open>
  The topological order of a loaded DAG lists every node exactly once, dependencies first; it raises exactly
  when the dependencies have a cycle.
\<close>

theorem topo_order_spec:
  assumes "load ws ms = Inr g"
  shows "case topo_order g of
     Inr xs \<Rightarrow> acyclic (dep_rel g) \<and> set xs = set (node_ids g) \<and> distinct xs \<and> deps_first g xs
   | Inl e \<Rightarrow> \<not> acyclic (dep_rel g) \<and> e = ValueError ''cycle in DAG''"
  using topo_order_cases [of g] load_ok [OF assms]
  by (cases "acyclic (dep_rel g)") (auto simp: dag_ok_def)

theorem topo_order_spec_witness:
  "topo_order demo_dag = Inr [''A'', ''B'', ''C'', ''D''] \<and>
   (case topo_order demo_dag of
     Inr xs \<Rightarrow> acyclic (dep_rel demo_dag) \<and> set xs = set (node_ids demo_dag) \<and> distinct xs \<and> deps_first demo_dag xs
   | Inl e \<Rightarrow> \<not> acyclic (dep_rel demo_dag) \<and> e = ValueError ''cycle in DAG'')"
  by (rule conjI [OF _ topo_order_spec [OF demo_dag_load]]) code_simp

lemma acyclic_if_ordered: "load ws ms = Inr g \<Longrightarrow> topo_order g = Inr xs \<Longrightarrow> acyclic (dep_rel g)"
  using topo_order_cases [of g] load_ok [of ws ms g] by (auto simp: dag_ok_def split: if_splits)

lemma demo_dag_acyclic: "acyclic (dep_rel demo_dag)"
proof -
  have "topo_order demo_dag = Inr [''A'', ''B'', ''C'', ''D'']" by code_simp
  then show ?thesis by (rule acyclic_if_ordered [OF demo_dag_load])
qed

text \<open>A node whose dependencies all lie outside stops the loop.\<close>

lemma depths_fails:
  assumes "x \<in> set xs" and "map_of (dag_nodes g) x = Some n" and "n_depends_on n \<noteq> []"
    and "\<forall>d \<in> set (n_depends_on n). d \<notin> set (node_ids g)"
    and "set xs \<subseteq> set (node_ids g)" and "fst ` set depth \<subseteq> set (node_ids g)"
  shows "\<exists>e. depths g xs depth = Inl e"
  using assms(1,5,6)
proof (induction xs arbitrary: depth)
  case (Cons y ys)
  show ?case
  proof (cases "y = x")
    case True
    have "map_of depth d = None" if "d \<in> set (n_depends_on n)" for d
      using that assms(4) Cons.prems(3) by (fastforce simp: map_of_eq_None_iff)
    then have none: "concat (map (\<lambda>v. case v of None \<Rightarrow> [] | Some k \<Rightarrow> [k]) (map (map_of depth) (n_depends_on n))) = []"
      by simp
    have "node_depth n depth = Inl (ValueError ''max() arg is an empty sequence'')"
      by (simp only: node_depth_def assms(3) none if_False list.case)
    with True assms(2) show ?thesis by simp
  next
    case False
    have keys: "fst ` set (AList.update y k depth) \<subseteq> set (node_ids g)" for k
      using Cons.prems(2,3) by (auto simp: dom_update)
    show ?thesis using False Cons.prems Cons.IH [OF _ _ keys] by (auto split: option.splits sum.splits)
  qed
qed simp

text \<open>
  Layering an acyclic DAG works exactly when no node has all of its dependencies outside the DAG; such a node
  makes \<^verbatim>\<open>max()\<close> raise. When it works, the layers cover the nodes and every dependency lies in an earlier layer.
\<close>

theorem topo_layers_spec:
  assumes "load ws ms = Inr g" and "acyclic (dep_rel g)"
  shows "if anchored g
    then \<exists>layers. topo_layers g = Inr layers \<and> (\<Union>l \<in> set layers. set l) = set (node_ids g) \<and>
      (\<forall>i < length layers. \<forall>x \<in> set (layers ! i). \<forall>d \<in> set (deps_of g x). \<exists>j < i. d \<in> set (layers ! j))
    else \<exists>e. topo_layers g = Inl e"
proof (cases "anchored g")
  case True
  have "distinct (node_ids g)" using load_ok [OF assms(1)] by (simp add: dag_ok_def)
  from topo_layers_run [OF this assms(2) True] True show ?thesis by simp
next
  case False
  have ids: "distinct (node_ids g)" using load_ok [OF assms(1)] by (simp add: dag_ok_def)
  obtain x n where n: "(x, n) \<in> set (dag_nodes g)" "n_depends_on n \<noteq> []" "inner_deps g n = []"
    using False by (auto simp: anchored_def)
  obtain xs where xs: "topo_order g = Inr xs" "set xs = set (node_ids g)"
    using topo_order_cases [OF ids] assms(2) by auto
  have "map_of (dag_nodes g) x = Some n" using n(1) ids by (simp add: node_ids_def)
  moreover have "x \<in> set xs" using n(1) xs(2) by (force simp: node_ids_def)
  moreover have "\<forall>d \<in> set (n_depends_on n). d \<notin> set (node_ids g)"
    using n(3) by (simp add: inner_deps_def filter_empty_conv)
  ultimately obtain e where "depths g xs [] = Inl e"
    using depths_fails [of x xs g n "[]"] n(2) xs(2) by auto
  with xs(1) False show ?thesis by (simp add: topo_layers_def)
qed

theorem topo_layers_spec_witness:
  "\<not> anchored demo_dangling_dag \<and> acyclic (dep_rel demo_dangling_dag) \<and>
   (if anchored demo_dangling_dag
    then \<exists>layers. topo_layers demo_dangling_dag = Inr layers \<and>
      (\<Union>l \<in> set layers. set l) = set (node_ids demo_dangling_dag) \<and>
      (\<forall>i < length layers. \<forall>x \<in> set (layers ! i). \<forall>d \<in> set (deps_of demo_dangling_dag x).
         \<exists>j < i. d \<in> set (layers ! j))
    else \<exists>e. topo_layers demo_dangling_dag = Inl e)"
proof -
  have "topo_order demo_dangling_dag = Inr [''A'']" by code_simp
  then have acyc: "acyclic (dep_rel demo_dangling_dag)" by (rule acyclic_if_ordered [OF demo_dangling_load])
  have "\<not> anchored demo_dangling_dag" by code_simp
  with acyc topo_layers_spec [OF demo_dangling_load acyc] show ?thesis by blast
qed

text \<open>
  \<^verbatim>\<open>descendants_of\<close> and \<^verbatim>\<open>ancestors_of\<close>, two different traversals, are converses of each other, and
  \<^verbatim>\<open>filter\<close> by ids returns the known ids among them with all of their ancestors.
\<close>

theorem closures_agree:
  assumes "load ws ms = Inr g"
  shows "(y \<in> descendants_of g x) = (x \<in> ancestors_of g y) \<and>
    dag_filter g (Some seeds) None =
      (\<Union>s \<in> set seeds \<inter> set (node_ids g). insert s (ancestors_of g s))"
proof -
  have ids: "distinct (node_ids g)" using load_ok [OF assms] by (simp add: dag_ok_def)
  have "{x \<in> set (node_ids g). (\<exists>is. Some seeds = Some is \<and> x \<in> set is) \<or>
      (\<exists>m n. None = Some m \<and> m \<noteq> [] \<and> (x, n) \<in> set (dag_nodes g) \<and> n_milestone n = m)} =
      set seeds \<inter> set (node_ids g)" by auto
  with dag_filter_closure [of "Some seeds" None g] have
    "dag_filter g (Some seeds) None = (depends g)\<^sup>* `` (set seeds \<inter> set (node_ids g))" by simp
  also have "\<dots> = (\<Union>s \<in> set seeds \<inter> set (node_ids g). insert s {y. (s, y) \<in> (depends g)\<^sup>+})"
    by (auto simp: rtrancl_eq_or_trancl)
  finally show ?thesis by (simp add: descendants_reach [OF ids] ancestors_reach)
qed

theorem closures_agree_witness:
  "descendants_of demo_dag ''A'' = {''B'', ''C'', ''D''} \<and>
   (''D'' \<in> descendants_of demo_dag ''A'') = (''A'' \<in> ancestors_of demo_dag ''D'') \<and>
   dag_filter demo_dag (Some [''B'']) None =
     (\<Union>s \<in> set [''B''] \<inter> set (node_ids demo_dag). insert s (ancestors_of demo_dag s))"
  by (rule conjI [OF _ closures_agree [OF demo_dag_load]]) code_simp

lemma ready_nodes_mem:
  "n \<in> set (ready_nodes g completed in_progress skip) \<longleftrightarrow>
     (\<exists>nid. (nid, n) \<in> set (dag_nodes g) \<and> nid \<notin> completed \<and> nid \<notin> in_progress \<and> n_kind n \<notin> skip \<and>
        set (n_depends_on n) \<subseteq> completed)"
  by (auto simp: ready_nodes_def list_all_iff image_iff)

lemma ready_progress_list:
  assumes "load ws ms = Inr g" and "acyclic (dep_rel g)"
    and "\<forall>(x, n) \<in> set (dag_nodes g). set (n_depends_on n) \<subseteq> set (node_ids g)"
    and "\<not> set (node_ids g) \<subseteq> completed"
  shows "ready_nodes g completed {} {} \<noteq> []"
proof -
  have ids: "distinct (node_ids g)" using load_ok [OF assms(1)] by (simp add: dag_ok_def)
  obtain xs where xs: "set xs = set (node_ids g)" "deps_first g xs"
    using topo_order_cases [OF ids] assms(2) by auto
  have "\<exists>i < length xs. xs ! i \<notin> completed" using assms(4) xs(1) by (metis in_set_conv_nth subsetI)
  then obtain i where i: "i < length xs" "xs ! i \<notin> completed" and first: "\<forall>j < i. xs ! j \<in> completed"
    using exists_least_iff [of "\<lambda>i. i < length xs \<and> xs ! i \<notin> completed"] by (metis order.strict_trans)
  obtain n where n: "(xs ! i, n) \<in> set (dag_nodes g)"
    using i(1) xs(1) nth_mem [OF i(1)] by (auto simp: node_ids_def)
  then have "map_of (dag_nodes g) (xs ! i) = Some n" using ids by (simp add: node_ids_def)
  moreover have "inner_deps g n = n_depends_on n"
    using assms(3) n by (auto simp: inner_deps_def intro!: filter_True)
  ultimately have "deps_of g (xs ! i) = n_depends_on n" by (simp add: deps_of_def)
  with xs(2) i(1) have "set (n_depends_on n) \<subseteq> set (take i xs)" unfolding deps_first_def by metis
  also have "\<dots> \<subseteq> completed" using first i(1) by (auto simp: in_set_conv_nth)
  finally have "n \<in> set (ready_nodes g completed {} {})" using n i(2) by (auto simp: ready_nodes_mem)
  then show ?thesis by auto
qed

end
