(* ===== verification/Fsm.thy ===== *)
theory Fsm
  imports Prelude
begin

text \<open>
  The canonical task lifecycle (\<^verbatim>\<open>quikode/fsm.py\<close>): the states and events with their wire names, the
  transition table as the module builds it (a literal followed by two \<^verbatim>\<open>update\<close> calls), the named
  state sets, event application with its errors, and the crash-recovery map. The lemmas turn the
  table into one-step facts that the other theories use.
\<close>

section \<open>States and events\<close>

datatype state =
    PENDING | PROVISIONING | PLANNING | DOING_SUBTASK | CHECKING_SUBTASK | TRIAGING_SUBTASK
  | COMMITTING | PUSHING | LOCAL_CI_CHECKING
  | AUDIT_LOCAL_CI | AUDIT_RUBRIC | AUDIT_STANDARDS | AUDIT_ARCHITECTURE | AUDIT_BEHAVIOR
  | FIXUP_PLANNING | PR_OPENING | PENDING_CI | AWAITING_REVIEW | REBASING_TO_MAIN
  | CONFLICT_RESOLVING | MERGED | MERGE_NODE_READY | MERGE_NODE_RETIRED
  | BLOCKED | FAILED | ABORTED

definition all_states :: "state list" where
  "all_states =
     [PENDING, PROVISIONING, PLANNING, DOING_SUBTASK, CHECKING_SUBTASK, TRIAGING_SUBTASK,
      COMMITTING, PUSHING, LOCAL_CI_CHECKING,
      AUDIT_LOCAL_CI, AUDIT_RUBRIC, AUDIT_STANDARDS, AUDIT_ARCHITECTURE, AUDIT_BEHAVIOR,
      FIXUP_PLANNING, PR_OPENING, PENDING_CI, AWAITING_REVIEW, REBASING_TO_MAIN,
      CONFLICT_RESOLVING, MERGED, MERGE_NODE_READY, MERGE_NODE_RETIRED,
      BLOCKED, FAILED, ABORTED]"

primrec state_value :: "state \<Rightarrow> string" where
  "state_value PENDING = ''pending''"
| "state_value PROVISIONING = ''provisioning''"
| "state_value PLANNING = ''planning''"
| "state_value DOING_SUBTASK = ''doing_subtask''"
| "state_value CHECKING_SUBTASK = ''checking_subtask''"
| "state_value TRIAGING_SUBTASK = ''triaging_subtask''"
| "state_value COMMITTING = ''committing''"
| "state_value PUSHING = ''pushing''"
| "state_value LOCAL_CI_CHECKING = ''local_ci_checking''"
| "state_value AUDIT_LOCAL_CI = ''audit_local_ci''"
| "state_value AUDIT_RUBRIC = ''audit_rubric''"
| "state_value AUDIT_STANDARDS = ''audit_standards''"
| "state_value AUDIT_ARCHITECTURE = ''audit_architecture''"
| "state_value AUDIT_BEHAVIOR = ''audit_behavior''"
| "state_value FIXUP_PLANNING = ''fixup_planning''"
| "state_value PR_OPENING = ''pr_opening''"
| "state_value PENDING_CI = ''pending_ci''"
| "state_value AWAITING_REVIEW = ''awaiting_review''"
| "state_value REBASING_TO_MAIN = ''rebasing_to_main''"
| "state_value CONFLICT_RESOLVING = ''conflict_resolving''"
| "state_value MERGED = ''merged''"
| "state_value MERGE_NODE_READY = ''merge_node_ready''"
| "state_value MERGE_NODE_RETIRED = ''merge_node_retired''"
| "state_value BLOCKED = ''blocked''"
| "state_value FAILED = ''failed''"
| "state_value ABORTED = ''aborted''"

datatype event =
    Ev_START_TASK | Ev_ENVIRONMENT_READY | Ev_PLAN_VALID | Ev_DOER_DONE | Ev_SUBTASK_PASSED
  | Ev_SUBTASK_FAILED | Ev_RETRY_SUBTASK | Ev_RETRY_EXHAUSTED | Ev_COMMIT_CREATED
  | Ev_MORE_SUBTASKS | Ev_ALL_SUBTASKS_DONE | Ev_LOCAL_CI_PASSED | Ev_LOCAL_CI_FAILED
  | Ev_AUDIT_LOCAL_CI_PASSED | Ev_AUDIT_LOCAL_CI_FAILED
  | Ev_AUDIT_RUBRIC_PASSED | Ev_AUDIT_RUBRIC_FAILED
  | Ev_AUDIT_STANDARDS_PASSED | Ev_AUDIT_STANDARDS_FAILED
  | Ev_AUDIT_ARCHITECTURE_PASSED | Ev_AUDIT_ARCHITECTURE_FAILED
  | Ev_AUDIT_BEHAVIOR_PASSED | Ev_AUDIT_BEHAVIOR_FAILED
  | Ev_INITIAL_AUDIT_START | Ev_CI_FIXUP_START | Ev_REVIEW_FIXUP_START
  | Ev_FIXUP_PLAN_VALID | Ev_FIXUP_EXHAUSTED | Ev_PR_OPENED | Ev_CI_PASSED | Ev_CI_FAILED
  | Ev_CHANGES_REQUESTED_RECEIVED | Ev_MERGED
  | Ev_MERGE_NODE_BUILT | Ev_PARENT_ADVANCED | Ev_ALL_PARENTS_MERGED
  | Ev_PARENT_MERGED_OR_CONFLICT | Ev_REBASE_PUSHED | Ev_CONFLICT | Ev_RESOLVED | Ev_UNRESOLVED
  | Ev_ABORT | Ev_CRASH | Ev_RETRY_TASK | Ev_RESUME_TASK | Ev_MARK_MERGED | Ev_PR_CLOSED
  | Ev_BLOCK_TASK

definition all_events :: "event list" where
  "all_events =
     [Ev_START_TASK, Ev_ENVIRONMENT_READY, Ev_PLAN_VALID, Ev_DOER_DONE, Ev_SUBTASK_PASSED,
      Ev_SUBTASK_FAILED, Ev_RETRY_SUBTASK, Ev_RETRY_EXHAUSTED, Ev_COMMIT_CREATED,
      Ev_MORE_SUBTASKS, Ev_ALL_SUBTASKS_DONE, Ev_LOCAL_CI_PASSED, Ev_LOCAL_CI_FAILED,
      Ev_AUDIT_LOCAL_CI_PASSED, Ev_AUDIT_LOCAL_CI_FAILED,
      Ev_AUDIT_RUBRIC_PASSED, Ev_AUDIT_RUBRIC_FAILED,
      Ev_AUDIT_STANDARDS_PASSED, Ev_AUDIT_STANDARDS_FAILED,
      Ev_AUDIT_ARCHITECTURE_PASSED, Ev_AUDIT_ARCHITECTURE_FAILED,
      Ev_AUDIT_BEHAVIOR_PASSED, Ev_AUDIT_BEHAVIOR_FAILED,
      Ev_INITIAL_AUDIT_START, Ev_CI_FIXUP_START, Ev_REVIEW_FIXUP_START,
      Ev_FIXUP_PLAN_VALID, Ev_FIXUP_EXHAUSTED, Ev_PR_OPENED, Ev_CI_PASSED, Ev_CI_FAILED,
      Ev_CHANGES_REQUESTED_RECEIVED, Ev_MERGED,
      Ev_MERGE_NODE_BUILT, Ev_PARENT_ADVANCED, Ev_ALL_PARENTS_MERGED,
      Ev_PARENT_MERGED_OR_CONFLICT, Ev_REBASE_PUSHED, Ev_CONFLICT, Ev_RESOLVED, Ev_UNRESOLVED,
      Ev_ABORT, Ev_CRASH, Ev_RETRY_TASK, Ev_RESUME_TASK, Ev_MARK_MERGED, Ev_PR_CLOSED,
      Ev_BLOCK_TASK]"

primrec event_value :: "event \<Rightarrow> string" where
  "event_value Ev_START_TASK = ''start_task''"
| "event_value Ev_ENVIRONMENT_READY = ''environment_ready''"
| "event_value Ev_PLAN_VALID = ''plan_valid''"
| "event_value Ev_DOER_DONE = ''doer_done''"
| "event_value Ev_SUBTASK_PASSED = ''subtask_passed''"
| "event_value Ev_SUBTASK_FAILED = ''subtask_failed''"
| "event_value Ev_RETRY_SUBTASK = ''retry_subtask''"
| "event_value Ev_RETRY_EXHAUSTED = ''retry_exhausted''"
| "event_value Ev_COMMIT_CREATED = ''commit_created''"
| "event_value Ev_MORE_SUBTASKS = ''more_subtasks''"
| "event_value Ev_ALL_SUBTASKS_DONE = ''all_subtasks_done''"
| "event_value Ev_LOCAL_CI_PASSED = ''local_ci_passed''"
| "event_value Ev_LOCAL_CI_FAILED = ''local_ci_failed''"
| "event_value Ev_AUDIT_LOCAL_CI_PASSED = ''audit_local_ci_passed''"
| "event_value Ev_AUDIT_LOCAL_CI_FAILED = ''audit_local_ci_failed''"
| "event_value Ev_AUDIT_RUBRIC_PASSED = ''audit_rubric_passed''"
| "event_value Ev_AUDIT_RUBRIC_FAILED = ''audit_rubric_failed''"
| "event_value Ev_AUDIT_STANDARDS_PASSED = ''audit_standards_passed''"
| "event_value Ev_AUDIT_STANDARDS_FAILED = ''audit_standards_failed''"
| "event_value Ev_AUDIT_ARCHITECTURE_PASSED = ''audit_architecture_passed''"
| "event_value Ev_AUDIT_ARCHITECTURE_FAILED = ''audit_architecture_failed''"
| "event_value Ev_AUDIT_BEHAVIOR_PASSED = ''audit_behavior_passed''"
| "event_value Ev_AUDIT_BEHAVIOR_FAILED = ''audit_behavior_failed''"
| "event_value Ev_INITIAL_AUDIT_START = ''initial_audit_start''"
| "event_value Ev_CI_FIXUP_START = ''ci_fixup_start''"
| "event_value Ev_REVIEW_FIXUP_START = ''review_fixup_start''"
| "event_value Ev_FIXUP_PLAN_VALID = ''fixup_plan_valid''"
| "event_value Ev_FIXUP_EXHAUSTED = ''fixup_exhausted''"
| "event_value Ev_PR_OPENED = ''pr_opened''"
| "event_value Ev_CI_PASSED = ''ci_passed''"
| "event_value Ev_CI_FAILED = ''ci_failed''"
| "event_value Ev_CHANGES_REQUESTED_RECEIVED = ''changes_requested_received''"
| "event_value Ev_MERGED = ''merged''"
| "event_value Ev_MERGE_NODE_BUILT = ''merge_node_built''"
| "event_value Ev_PARENT_ADVANCED = ''parent_advanced''"
| "event_value Ev_ALL_PARENTS_MERGED = ''all_parents_merged''"
| "event_value Ev_PARENT_MERGED_OR_CONFLICT = ''parent_merged_or_conflict''"
| "event_value Ev_REBASE_PUSHED = ''rebase_pushed''"
| "event_value Ev_CONFLICT = ''conflict''"
| "event_value Ev_RESOLVED = ''resolved''"
| "event_value Ev_UNRESOLVED = ''unresolved''"
| "event_value Ev_ABORT = ''abort''"
| "event_value Ev_CRASH = ''crash''"
| "event_value Ev_RETRY_TASK = ''retry_task''"
| "event_value Ev_RESUME_TASK = ''resume_task''"
| "event_value Ev_MARK_MERGED = ''mark_merged''"
| "event_value Ev_PR_CLOSED = ''pr_closed''"
| "event_value Ev_BLOCK_TASK = ''block_task''"

section \<open>The transition table\<close>

text \<open>Python's dict: an association list in insertion order with distinct keys; \<^verbatim>\<open>update\<close> with fresh keys appends.\<close>

definition audit_stage_transitions :: "(state \<times> event \<times> event \<times> state option) list" where
  "audit_stage_transitions =
     [(AUDIT_LOCAL_CI, Ev_AUDIT_LOCAL_CI_PASSED, Ev_AUDIT_LOCAL_CI_FAILED, Some AUDIT_RUBRIC),
      (AUDIT_RUBRIC, Ev_AUDIT_RUBRIC_PASSED, Ev_AUDIT_RUBRIC_FAILED, Some AUDIT_STANDARDS),
      (AUDIT_STANDARDS, Ev_AUDIT_STANDARDS_PASSED, Ev_AUDIT_STANDARDS_FAILED,
       Some AUDIT_ARCHITECTURE),
      (AUDIT_ARCHITECTURE, Ev_AUDIT_ARCHITECTURE_PASSED, Ev_AUDIT_ARCHITECTURE_FAILED,
       Some AUDIT_BEHAVIOR),
      (AUDIT_BEHAVIOR, Ev_AUDIT_BEHAVIOR_PASSED, Ev_AUDIT_BEHAVIOR_FAILED, None)]"

definition transitions_literal :: "((state \<times> event) \<times> state) list" where
  "transitions_literal =
     [((PENDING, Ev_START_TASK), PROVISIONING),
      ((PROVISIONING, Ev_ENVIRONMENT_READY), PLANNING),
      ((PLANNING, Ev_PLAN_VALID), DOING_SUBTASK),
      ((DOING_SUBTASK, Ev_DOER_DONE), CHECKING_SUBTASK),
      ((CHECKING_SUBTASK, Ev_SUBTASK_PASSED), COMMITTING),
      ((CHECKING_SUBTASK, Ev_SUBTASK_FAILED), TRIAGING_SUBTASK),
      ((TRIAGING_SUBTASK, Ev_RETRY_SUBTASK), DOING_SUBTASK),
      ((TRIAGING_SUBTASK, Ev_RETRY_EXHAUSTED), BLOCKED),
      ((COMMITTING, Ev_COMMIT_CREATED), PUSHING),
      ((PUSHING, Ev_MORE_SUBTASKS), DOING_SUBTASK),
      ((PUSHING, Ev_ALL_SUBTASKS_DONE), LOCAL_CI_CHECKING),
      ((LOCAL_CI_CHECKING, Ev_LOCAL_CI_PASSED), AUDIT_LOCAL_CI),
      ((LOCAL_CI_CHECKING, Ev_LOCAL_CI_FAILED), FIXUP_PLANNING),
      ((AUDIT_LOCAL_CI, Ev_AUDIT_LOCAL_CI_PASSED), AUDIT_RUBRIC),
      ((AUDIT_LOCAL_CI, Ev_AUDIT_LOCAL_CI_FAILED), FIXUP_PLANNING),
      ((AUDIT_RUBRIC, Ev_AUDIT_RUBRIC_PASSED), AUDIT_STANDARDS),
      ((AUDIT_RUBRIC, Ev_AUDIT_RUBRIC_FAILED), FIXUP_PLANNING),
      ((AUDIT_STANDARDS, Ev_AUDIT_STANDARDS_PASSED), AUDIT_ARCHITECTURE),
      ((AUDIT_STANDARDS, Ev_AUDIT_STANDARDS_FAILED), FIXUP_PLANNING),
      ((AUDIT_ARCHITECTURE, Ev_AUDIT_ARCHITECTURE_PASSED), AUDIT_BEHAVIOR),
      ((AUDIT_ARCHITECTURE, Ev_AUDIT_ARCHITECTURE_FAILED), FIXUP_PLANNING),
      ((AUDIT_BEHAVIOR, Ev_AUDIT_BEHAVIOR_PASSED), PR_OPENING),
      ((AUDIT_BEHAVIOR, Ev_AUDIT_BEHAVIOR_FAILED), FIXUP_PLANNING),
      ((PENDING_CI, Ev_CI_FIXUP_START), AUDIT_LOCAL_CI),
      ((AWAITING_REVIEW, Ev_CI_FIXUP_START), AUDIT_LOCAL_CI),
      ((AWAITING_REVIEW, Ev_REVIEW_FIXUP_START), AUDIT_LOCAL_CI),
      ((FIXUP_PLANNING, Ev_FIXUP_PLAN_VALID), DOING_SUBTASK),
      ((FIXUP_PLANNING, Ev_FIXUP_EXHAUSTED), BLOCKED),
      ((PR_OPENING, Ev_PR_OPENED), PENDING_CI),
      ((PENDING_CI, Ev_CI_PASSED), AWAITING_REVIEW),
      ((AWAITING_REVIEW, Ev_MERGED), MERGED),
      ((AUDIT_BEHAVIOR, Ev_MERGE_NODE_BUILT), MERGE_NODE_READY),
      ((MERGE_NODE_READY, Ev_PARENT_ADVANCED), PENDING),
      ((MERGE_NODE_READY, Ev_ALL_PARENTS_MERGED), MERGE_NODE_RETIRED),
      ((PENDING_CI, Ev_PARENT_MERGED_OR_CONFLICT), REBASING_TO_MAIN),
      ((AWAITING_REVIEW, Ev_PARENT_MERGED_OR_CONFLICT), REBASING_TO_MAIN),
      ((REBASING_TO_MAIN, Ev_REBASE_PUSHED), PENDING_CI),
      ((REBASING_TO_MAIN, Ev_CONFLICT), CONFLICT_RESOLVING),
      ((CONFLICT_RESOLVING, Ev_RESOLVED), REBASING_TO_MAIN),
      ((CONFLICT_RESOLVING, Ev_UNRESOLVED), BLOCKED),
      ((PENDING, Ev_ABORT), ABORTED),
      ((PROVISIONING, Ev_CRASH), FAILED),
      ((PLANNING, Ev_CRASH), FAILED),
      ((DOING_SUBTASK, Ev_CRASH), FAILED),
      ((CHECKING_SUBTASK, Ev_CRASH), FAILED),
      ((TRIAGING_SUBTASK, Ev_CRASH), FAILED),
      ((COMMITTING, Ev_CRASH), FAILED),
      ((PUSHING, Ev_CRASH), FAILED),
      ((LOCAL_CI_CHECKING, Ev_CRASH), FAILED),
      ((AUDIT_LOCAL_CI, Ev_CRASH), FAILED),
      ((AUDIT_RUBRIC, Ev_CRASH), FAILED),
      ((AUDIT_STANDARDS, Ev_CRASH), FAILED),
      ((AUDIT_ARCHITECTURE, Ev_CRASH), FAILED),
      ((AUDIT_BEHAVIOR, Ev_CRASH), FAILED),
      ((FIXUP_PLANNING, Ev_CRASH), FAILED),
      ((PR_OPENING, Ev_CRASH), FAILED),
      ((REBASING_TO_MAIN, Ev_CRASH), FAILED),
      ((CONFLICT_RESOLVING, Ev_CRASH), FAILED),
      ((BLOCKED, Ev_RETRY_TASK), PENDING),
      ((FAILED, Ev_RETRY_TASK), PENDING),
      ((ABORTED, Ev_RETRY_TASK), PENDING),
      ((BLOCKED, Ev_RESUME_TASK), PENDING),
      ((FAILED, Ev_RESUME_TASK), PENDING),
      ((PENDING, Ev_MARK_MERGED), MERGED),
      ((PENDING_CI, Ev_PR_CLOSED), ABORTED),
      ((AWAITING_REVIEW, Ev_PR_CLOSED), ABORTED)]"

definition audit_stage_states :: "state list" where
  "audit_stage_states =
     [AUDIT_LOCAL_CI, AUDIT_RUBRIC, AUDIT_STANDARDS, AUDIT_ARCHITECTURE, AUDIT_BEHAVIOR]"

definition active_states :: "state list" where
  "active_states =
     [PROVISIONING, PLANNING, DOING_SUBTASK, CHECKING_SUBTASK, TRIAGING_SUBTASK, COMMITTING,
      PUSHING, LOCAL_CI_CHECKING, FIXUP_PLANNING, PR_OPENING, REBASING_TO_MAIN, CONFLICT_RESOLVING] @ audit_stage_states"

text \<open>First update: every active state but \<^const>\<open>CONFLICT_RESOLVING\<close> can be blocked.\<close>

definition with_block_task :: "((state \<times> event) \<times> state) list \<Rightarrow> ((state \<times> event) \<times> state) list" where
  "with_block_task T =
     T @ [((s, Ev_BLOCK_TASK), BLOCKED).
          s \<leftarrow> active_states,
          map_of T (s, Ev_BLOCK_TASK) = None \<and> s \<noteq> CONFLICT_RESOLVING]"

text \<open>Second update: every active or post-PR state but the rebase state itself can be rebased.\<close>

definition with_parent_merged :: "((state \<times> event) \<times> state) list \<Rightarrow> ((state \<times> event) \<times> state) list" where
  "with_parent_merged T =
     T @ [((s, Ev_PARENT_MERGED_OR_CONFLICT), REBASING_TO_MAIN).
          s \<leftarrow> active_states @ [PENDING_CI, AWAITING_REVIEW],
          s \<noteq> REBASING_TO_MAIN \<and> map_of T (s, Ev_PARENT_MERGED_OR_CONFLICT) = None]"

definition transitions :: "((state \<times> event) \<times> state) list" where
  "transitions = with_parent_merged (with_block_task transitions_literal)"

definition terminal_states :: "state list" where
  "terminal_states = [MERGED, MERGE_NODE_RETIRED, BLOCKED, FAILED, ABORTED]"

definition post_pr_states :: "state list" where
  "post_pr_states = [PENDING_CI, AWAITING_REVIEW]"

definition retryable_states :: "state list" where
  "retryable_states = [BLOCKED, FAILED, ABORTED]"

definition stack_ready_states :: "state list" where
  "stack_ready_states = [PENDING_CI, AWAITING_REVIEW, MERGE_NODE_READY]"

section \<open>Applying an event\<close>

text \<open>The union types \<^verbatim>\<open>State | str\<close> and \<^verbatim>\<open>Event | str\<close> of the entry points.\<close>

datatype 'a coercible = Member 'a | Raw string

definition coerce_state :: "state coercible \<Rightarrow> py_error + state" where
  "coerce_state x =
     (case x of
        Member s \<Rightarrow> Inr s
      | Raw v \<Rightarrow>
          (case List.find (\<lambda>s. state_value s = v) all_states of
             None \<Rightarrow> Inl (InvalidTransition (''unknown task state: '' @ py_repr v))
           | Some s \<Rightarrow> Inr s))"

definition coerce_event :: "event coercible \<Rightarrow> py_error + event" where
  "coerce_event x =
     (case x of
        Member e \<Rightarrow> Inr e
      | Raw v \<Rightarrow>
          (case List.find (\<lambda>e. event_value e = v) all_events of
             None \<Rightarrow> Inl (InvalidTransition (''unknown task event: '' @ py_repr v))
           | Some e \<Rightarrow> Inr e))"

definition target_of :: "state \<Rightarrow> event \<Rightarrow> state option" where
  "target_of s e = map_of transitions (s, e)"

definition target_for_event :: "state coercible \<Rightarrow> event coercible \<Rightarrow> py_error + state" where
  "target_for_event current ev =
     (case coerce_state current of
        Inl x \<Rightarrow> Inl x
      | Inr s \<Rightarrow>
          (case coerce_event ev of
             Inl x \<Rightarrow> Inl x
           | Inr e \<Rightarrow>
               (case target_of s e of
                  Some t \<Rightarrow> Inr t
                | None \<Rightarrow>
                    Inl (InvalidTransition
                          (''event '' @ py_repr (event_value e) @ '' is not valid from state '' @
                           py_repr (state_value s))))))"

definition assert_transition_allowed :: "state coercible \<Rightarrow> event coercible \<Rightarrow> py_error + unit" where
  "assert_transition_allowed current ev =
     (case target_for_event current ev of Inl x \<Rightarrow> Inl x | Inr _ \<Rightarrow> Inr ())"

section \<open>One-step facts\<close>

lemma state_UNIV: "s \<in> set all_states"
  by (cases s) (simp_all add: all_states_def)

lemma event_UNIV: "e \<in> set all_events"
  by (cases e) (simp_all add: all_events_def)

lemma distinct_states: "distinct all_states"
  by code_simp

lemma distinct_state_values: "distinct (map state_value all_states)"
  by code_simp

lemma distinct_event_values: "distinct (map event_value all_events)"
  by code_simp

lemma coerce_state_value [simp]: "coerce_state (Raw (state_value s)) = Inr s"
  using distinct_key_find [OF distinct_state_values state_UNIV [of s]]
  by (simp add: coerce_state_def)

lemma coerce_event_value [simp]: "coerce_event (Raw (event_value e)) = Inr e"
  using distinct_key_find [OF distinct_event_values event_UNIV [of e]]
  by (simp add: coerce_event_def)

lemma coerce_member [simp]:
  "coerce_state (Member s) = Inr s" "coerce_event (Member e) = Inr e"
  by (simp_all add: coerce_state_def coerce_event_def)

lemma target_for_event_member:
  "target_for_event (Member s) (Member e) =
     (case target_of s e of
        Some t \<Rightarrow> Inr t
      | None \<Rightarrow> Inl (InvalidTransition
                  (''event '' @ py_repr (event_value e) @ '' is not valid from state '' @
                   py_repr (state_value s))))"
  by (simp add: target_for_event_def)

text \<open>An equation for evaluation: the literal table first, then the two programmatic updates.\<close>

lemma map_of_filter_pairs:
  "map_of [((s, e), t). s \<leftarrow> xs, P s] (s', e') = (if e' = e \<and> s' \<in> set xs \<and> P s' then Some t else None)"
  by (induction xs) auto

lemma target_of_eval [code]:
  "target_of s e =
     (case map_of transitions_literal (s, e) of
        Some t \<Rightarrow> Some t
      | None \<Rightarrow>
          if e = Ev_BLOCK_TASK \<and> s \<noteq> CONFLICT_RESOLVING \<and> s \<in> set active_states then Some BLOCKED
          else if e = Ev_PARENT_MERGED_OR_CONFLICT \<and> s \<noteq> REBASING_TO_MAIN \<and>
                  s \<in> set (active_states @ [PENDING_CI, AWAITING_REVIEW])
            then Some REBASING_TO_MAIN else None)"
proof (cases "map_of transitions_literal (s, e)")
  case None
  have "map_of (with_block_task transitions_literal) (s, e) =
      (if e = Ev_BLOCK_TASK \<and> s \<noteq> CONFLICT_RESOLVING \<and> s \<in> set active_states then Some BLOCKED else None)"
    using None unfolding with_block_task_def map_of_append map_add_def map_of_filter_pairs
    by (cases "e = Ev_BLOCK_TASK") simp_all
  then show ?thesis
    using None unfolding target_of_def transitions_def with_parent_merged_def map_of_append map_add_def
      map_of_filter_pairs
    by (cases "e = Ev_PARENT_MERGED_OR_CONFLICT") simp_all
next
  case (Some t)
  then have "map_of (with_block_task transitions_literal) (s, e) = Some t"
    unfolding with_block_task_def map_of_append map_add_def map_of_filter_pairs by simp
  with Some show ?thesis
    unfolding target_of_def transitions_def with_parent_merged_def map_of_append map_add_def
      map_of_filter_pairs by simp
qed

text \<open>
  Every fact about single transitions is a check of the finite table: \<open>transition_check\<close> turns a
  check of all its entries into a rule, \<open>no_transition_check\<close> a check that no entry matches.
\<close>

lemma transition_check:
  assumes "list_all (\<lambda>((s, e), t). P s e t) transitions" and "target_of s e = Some t"
  shows "P s e t"
  using map_of_Some_list_all [OF assms(1), of "(s, e)" t] assms(2) by (simp add: target_of_def)

lemma no_transition_check:
  assumes "list_all (\<lambda>((s, e), t). \<not> P s e) transitions" and "P s e"
  shows "target_of s e = None"
  using transition_check [OF assms(1)] assms(2) by (cases "target_of s e") auto

lemma state_check: "list_all P all_states \<Longrightarrow> P s"
  using state_UNIV by (simp add: list_all_iff)

lemma event_check: "list_all P all_events \<Longrightarrow> P e"
  using event_UNIV by (simp add: list_all_iff)

inductive fsm_step :: "state \<Rightarrow> event \<Rightarrow> state \<Rightarrow> bool" where
  step: "target_of s e = Some t \<Longrightarrow> fsm_step s e t"

code_pred fsm_step .

inductive_simps fsm_step_iff: "fsm_step s e t"

text \<open>A run: the events fired on one task, in order.\<close>

inductive fsm_run :: "state \<Rightarrow> event list \<Rightarrow> state \<Rightarrow> bool" where
  nil: "fsm_run s [] s"
| snoc: "fsm_run s es t \<Longrightarrow> fsm_step t e u \<Longrightarrow> fsm_run s (es @ [e]) u"

inductive_simps fsm_run_Nil [simp]: "fsm_run s [] t"
inductive_simps fsm_run_snoc: "fsm_run s (es @ [e]) u"

fun run_events :: "state \<Rightarrow> event list \<Rightarrow> state option" where
  "run_events s [] = Some s"
| "run_events s (e # es) =
     (case target_of s e of None \<Rightarrow> None | Some t \<Rightarrow> run_events t es)"

lemma run_events_append:
  "run_events s (es @ fs) =
     (case run_events s es of None \<Rightarrow> None | Some t \<Rightarrow> run_events t fs)"
  by (induction es arbitrary: s) (auto split: option.splits)

lemma fsm_run_iff_run_events: "fsm_run s es t \<longleftrightarrow> run_events s es = Some t"
proof (induction es arbitrary: t rule: rev_induct)
  case Nil
  then show ?case by auto
next
  case (snoc e es)
  then show ?case
    by (auto simp: fsm_run_snoc run_events_append fsm_step_iff split: option.splits)
qed

lemma fsm_run_Cons:
  "fsm_run s (e # es) u \<longleftrightarrow> (\<exists>t. fsm_step s e t \<and> fsm_run t es u)"
  by (auto simp: fsm_run_iff_run_events fsm_step_iff split: option.splits)

lemma fsm_run_append:
  "fsm_run s (es @ fs) u \<longleftrightarrow> (\<exists>t. fsm_run s es t \<and> fsm_run t fs u)"
  by (auto simp: fsm_run_iff_run_events run_events_append split: option.splits)

section \<open>Table checks\<close>

lemma transitions_functional: "distinct (map fst transitions)"
  by code_simp

lemma absorbing: "s = MERGED \<or> s = MERGE_NODE_RETIRED \<Longrightarrow> target_of s e = None"
  by (rule no_transition_check [where P = "\<lambda>s e. s = MERGED \<or> s = MERGE_NODE_RETIRED"])
    (code_simp, simp)

lemma into_pr_opening:
  "target_of s e = Some PR_OPENING \<Longrightarrow> s = AUDIT_BEHAVIOR \<and> e = Ev_AUDIT_BEHAVIOR_PASSED"
  by (drule transition_check [rotated,
        where P = "\<lambda>s e t. t = PR_OPENING \<longrightarrow> s = AUDIT_BEHAVIOR \<and> e = Ev_AUDIT_BEHAVIOR_PASSED"])
    (code_simp, simp)

lemma into_audit_behavior:
  "target_of s e = Some AUDIT_BEHAVIOR \<Longrightarrow>
     s = AUDIT_ARCHITECTURE \<and> e = Ev_AUDIT_ARCHITECTURE_PASSED"
  by (drule transition_check [rotated,
        where P = "\<lambda>s e t. t = AUDIT_BEHAVIOR \<longrightarrow>
                     s = AUDIT_ARCHITECTURE \<and> e = Ev_AUDIT_ARCHITECTURE_PASSED"])
    (code_simp, simp)

lemma into_audit_architecture:
  "target_of s e = Some AUDIT_ARCHITECTURE \<Longrightarrow>
     s = AUDIT_STANDARDS \<and> e = Ev_AUDIT_STANDARDS_PASSED"
  by (drule transition_check [rotated,
        where P = "\<lambda>s e t. t = AUDIT_ARCHITECTURE \<longrightarrow>
                     s = AUDIT_STANDARDS \<and> e = Ev_AUDIT_STANDARDS_PASSED"])
    (code_simp, simp)

lemma into_audit_standards:
  "target_of s e = Some AUDIT_STANDARDS \<Longrightarrow> s = AUDIT_RUBRIC \<and> e = Ev_AUDIT_RUBRIC_PASSED"
  by (drule transition_check [rotated,
        where P = "\<lambda>s e t. t = AUDIT_STANDARDS \<longrightarrow> s = AUDIT_RUBRIC \<and> e = Ev_AUDIT_RUBRIC_PASSED"])
    (code_simp, simp)

lemma into_audit_rubric:
  "target_of s e = Some AUDIT_RUBRIC \<Longrightarrow> s = AUDIT_LOCAL_CI \<and> e = Ev_AUDIT_LOCAL_CI_PASSED"
  by (drule transition_check [rotated,
        where P = "\<lambda>s e t. t = AUDIT_RUBRIC \<longrightarrow> s = AUDIT_LOCAL_CI \<and> e = Ev_AUDIT_LOCAL_CI_PASSED"])
    (code_simp, simp)

lemmas gauntlet_predecessors =
  into_pr_opening into_audit_behavior into_audit_architecture into_audit_standards into_audit_rubric

lemma into_merged:
  "target_of s e = Some MERGED \<Longrightarrow>
     (s = AWAITING_REVIEW \<and> e = Ev_MERGED) \<or> (s = PENDING \<and> e = Ev_MARK_MERGED)"
  by (drule transition_check [rotated,
        where P = "\<lambda>s e t. t = MERGED \<longrightarrow>
                     (s = AWAITING_REVIEW \<and> e = Ev_MERGED) \<or> (s = PENDING \<and> e = Ev_MARK_MERGED)"])
    (code_simp, simp)

lemma active_check:
  assumes "list_all P active_states" and "s \<in> set active_states"
  shows "P s"
  using assms by (simp add: list_all_iff)

lemma active_crash: "s \<in> set active_states \<Longrightarrow> target_of s Ev_CRASH = Some FAILED"
  by (rule active_check [where P = "\<lambda>s. target_of s Ev_CRASH = Some FAILED"]) code_simp

text \<open>The last event of a run into a state determines the run's shape.\<close>

lemma fsm_run_into:
  assumes "fsm_run s es t" and "s \<noteq> t"
  obtains fs e u where "es = fs @ [e]" and "fsm_run s fs u" and "target_of u e = Some t"
  using assms by (cases rule: fsm_run.cases) (auto simp: fsm_step_iff)

section \<open>Properties\<close>

text \<open>
  A PR can only be opened straight after the whole audit gauntlet: every run from PENDING to PR_OPENING ends
  with the five stages passed in order, starting from a visit of AUDIT_LOCAL_CI.
\<close>

theorem gauntlet_complete:
  assumes "fsm_run PENDING es PR_OPENING"
  shows "\<exists>fs. es = fs @ [Ev_AUDIT_LOCAL_CI_PASSED, Ev_AUDIT_RUBRIC_PASSED, Ev_AUDIT_STANDARDS_PASSED,
             Ev_AUDIT_ARCHITECTURE_PASSED, Ev_AUDIT_BEHAVIOR_PASSED] \<and> fsm_run PENDING fs AUDIT_LOCAL_CI"
proof -
  obtain f5 where 5: "es = f5 @ [Ev_AUDIT_BEHAVIOR_PASSED]" "fsm_run PENDING f5 AUDIT_BEHAVIOR"
    using fsm_run_into [OF assms] into_pr_opening by (metis state.distinct)
  obtain f4 where 4: "f5 = f4 @ [Ev_AUDIT_ARCHITECTURE_PASSED]" "fsm_run PENDING f4 AUDIT_ARCHITECTURE"
    using fsm_run_into [OF 5(2)] into_audit_behavior by (metis state.distinct)
  obtain f3 where 3: "f4 = f3 @ [Ev_AUDIT_STANDARDS_PASSED]" "fsm_run PENDING f3 AUDIT_STANDARDS"
    using fsm_run_into [OF 4(2)] into_audit_architecture by (metis state.distinct)
  obtain f2 where 2: "f3 = f2 @ [Ev_AUDIT_RUBRIC_PASSED]" "fsm_run PENDING f2 AUDIT_RUBRIC"
    using fsm_run_into [OF 3(2)] into_audit_standards by (metis state.distinct)
  obtain f1 where 1: "f2 = f1 @ [Ev_AUDIT_LOCAL_CI_PASSED]" "fsm_run PENDING f1 AUDIT_LOCAL_CI"
    using fsm_run_into [OF 2(2)] into_audit_rubric by (metis state.distinct)
  from 1 2 3 4 5 show ?thesis by (intro exI [of _ f1]) simp
qed

definition shortest_pr_run :: "event list" where
  "shortest_pr_run =
     [Ev_START_TASK, Ev_ENVIRONMENT_READY, Ev_PLAN_VALID, Ev_DOER_DONE, Ev_SUBTASK_PASSED, Ev_COMMIT_CREATED,
      Ev_ALL_SUBTASKS_DONE, Ev_LOCAL_CI_PASSED, Ev_AUDIT_LOCAL_CI_PASSED, Ev_AUDIT_RUBRIC_PASSED,
      Ev_AUDIT_STANDARDS_PASSED, Ev_AUDIT_ARCHITECTURE_PASSED, Ev_AUDIT_BEHAVIOR_PASSED]"

lemma shortest_pr_run_opens: "fsm_run PENDING shortest_pr_run PR_OPENING"
  unfolding fsm_run_iff_run_events by code_simp

theorem gauntlet_complete_witness:
  "\<exists>fs. shortest_pr_run = fs @ [Ev_AUDIT_LOCAL_CI_PASSED, Ev_AUDIT_RUBRIC_PASSED,
     Ev_AUDIT_STANDARDS_PASSED, Ev_AUDIT_ARCHITECTURE_PASSED, Ev_AUDIT_BEHAVIOR_PASSED] \<and>
     fsm_run PENDING fs AUDIT_LOCAL_CI"
  by (rule gauntlet_complete [OF shortest_pr_run_opens])

definition merge_route :: "state \<Rightarrow> event list" where
  "merge_route s =
     (if s = MERGED then []
      else if s = PENDING then [Ev_MARK_MERGED]
      else if s = PENDING_CI then [Ev_CI_PASSED, Ev_MERGED]
      else if s = AWAITING_REVIEW then [Ev_MERGED]
      else if s = MERGE_NODE_READY then [Ev_PARENT_ADVANCED, Ev_MARK_MERGED]
      else if s \<in> set retryable_states then [Ev_RETRY_TASK, Ev_MARK_MERGED]
      else [Ev_CRASH, Ev_RETRY_TASK, Ev_MARK_MERGED])"

lemma merge_route_merges: "s \<noteq> MERGE_NODE_RETIRED \<longrightarrow> run_events s (merge_route s) = Some MERGED"
  by (rule state_check [where P = "\<lambda>s. s \<noteq> MERGE_NODE_RETIRED \<longrightarrow> run_events s (merge_route s) = Some MERGED"])
    code_simp

text \<open>
  No dead ends. Every state has a run to MERGED, except a retired merge-node, which has none.
\<close>

theorem no_dead_ends: "(\<exists>es. fsm_run s es MERGED) \<longleftrightarrow> s \<noteq> MERGE_NODE_RETIRED"
proof
  assume "\<exists>es. fsm_run s es MERGED"
  then obtain es where run: "run_events s es = Some MERGED" by (auto simp: fsm_run_iff_run_events)
  show "s \<noteq> MERGE_NODE_RETIRED"
  proof
    assume "s = MERGE_NODE_RETIRED"
    with run show False by (cases es) (simp_all add: absorbing)
  qed
next
  assume "s \<noteq> MERGE_NODE_RETIRED"
  with merge_route_merges show "\<exists>es. fsm_run s es MERGED" by (auto simp: fsm_run_iff_run_events)
qed

text \<open>
  The rebase edges bypass the gauntlet. A task that has not been audited can be rebased out of its
  first subtask, reach PENDING_CI by REBASE_PUSHED, and from there be reviewed and merged without one audit event.
\<close>

theorem gauntlet_bypass:
  "fsm_run PENDING [Ev_START_TASK, Ev_ENVIRONMENT_READY, Ev_PLAN_VALID, Ev_PARENT_MERGED_OR_CONFLICT,
     Ev_REBASE_PUSHED, Ev_CI_PASSED, Ev_MERGED] MERGED"
  unfolding fsm_run_iff_run_events by code_simp

text \<open>
  Reading a state or an event back from its database text inverts writing it: a text is accepted exactly
  when it is the value of the member it is read as.
\<close>

theorem coerce_round_trip:
  "(coerce_state (Raw v) = Inr s) = (state_value s = v) \<and> (coerce_event (Raw v) = Inr e) = (event_value e = v)"
proof -
  have "(coerce_state (Raw v) = Inr s) = (state_value s = v)"
  proof
    assume "coerce_state (Raw v) = Inr s"
    then show "state_value s = v"
      by (auto simp: coerce_state_def dest: find_SomeD split: option.splits)
  qed auto
  moreover have "(coerce_event (Raw v) = Inr e) = (event_value e = v)"
  proof
    assume "coerce_event (Raw v) = Inr e"
    then show "event_value e = v"
      by (auto simp: coerce_event_def dest: find_SomeD split: option.splits)
  qed auto
  ultimately show ?thesis by blast
qed

end
