(* ===== verification/StateTypes.thy ===== *)
theory StateTypes
  imports Fsm
begin

text \<open>
  Row types and enums (\<^verbatim>\<open>quikode/state_types.py\<close>, column by column as \<^verbatim>\<open>state_schema.SCHEMA\<close> declares
  them). A nullable column is an option. A column that holds JSON text has the type of the value its
  writers serialize. \<^verbatim>\<open>task_field\<close> and \<^verbatim>\<open>subtask_field\<close> are the keyword arguments (\<^verbatim>\<open>**fields\<close>) of the
  generic update functions, one constructor per column.
\<close>

section \<open>Enums\<close>

datatype phase = Phase_INITIAL | Phase_PRE_PR_REVIEW | Phase_PR_REVIEW

primrec phase_value :: "phase \<Rightarrow> string" where
  "phase_value Phase_INITIAL = ''initial''"
| "phase_value Phase_PRE_PR_REVIEW = ''pre_pr_review''"
| "phase_value Phase_PR_REVIEW = ''pr_review''"

datatype pr_review_trigger = Trigger_NONE | Trigger_CI_FAILURE | Trigger_REVIEW_FEEDBACK

primrec trigger_value :: "pr_review_trigger \<Rightarrow> string" where
  "trigger_value Trigger_NONE = ''none''"
| "trigger_value Trigger_CI_FAILURE = ''ci_failure''"
| "trigger_value Trigger_REVIEW_FEEDBACK = ''review_feedback''"

datatype subtask_state =
  Sub_PENDING | Sub_DOING | Sub_CHECKING | Sub_TRIAGING | Sub_DONE | Sub_BLOCKED | Sub_SKIPPED

primrec subtask_state_value :: "subtask_state \<Rightarrow> string" where
  "subtask_state_value Sub_PENDING = ''pending''"
| "subtask_state_value Sub_DOING = ''doing''"
| "subtask_state_value Sub_CHECKING = ''checking''"
| "subtask_state_value Sub_TRIAGING = ''triaging''"
| "subtask_state_value Sub_DONE = ''done''"
| "subtask_state_value Sub_BLOCKED = ''blocked''"
| "subtask_state_value Sub_SKIPPED = ''skipped''"

datatype task_kind = Kind_SPEC | Kind_MERGE

section \<open>JSON columns\<close>

record audit_stage =
  as_name :: string
  as_passed :: "bool option"
  as_summary :: string

record audit_summary =
  sum_cycle :: int
  sum_ts :: time
  sum_stages :: "audit_stage list"

record retry_reason =
  rr_attempt :: int
  rr_ts :: time
  rr_category :: string
  rr_signature :: string
  rr_transient :: bool

record subtask_forensics =
  sf_subtask_id :: string
  sf_retries :: int
  sf_transient_retries :: int
  sf_flatline_count :: int
  sf_pre_commit_failures :: int
  sf_retry_categories :: "(string \<times> nat) list"
  sf_recent_retry_examples :: "retry_reason list"

record forensics =
  fo_task_id :: ident
  fo_captured_at :: time
  fo_retry_categories_total :: "(string \<times> nat) list"
  fo_per_subtask :: "subtask_forensics list"
  fo_last_checker_outputs :: "(string \<times> string) list"
  fo_last_triage_notes :: "(string \<times> string) list"
  fo_last_progress_checks :: "(string \<times> string \<times> string \<times> time) list"
  fo_peak_mem_bytes :: "int option"
  fo_recent_state_log :: "(state option \<times> state \<times> time \<times> string) list"
  fo_subtask_states :: "(subtask_state \<times> nat) list"

section \<open>Rows\<close>

record task_row =
  t_id :: ident
  t_state :: state
  t_branch :: "string option"
  t_worktree_path :: "string option"
  t_container_id :: "string option"
  t_pr_url :: "string option"
  t_pr_number :: "int option"
  t_plan_text :: "string option"
  t_last_error :: "string option"
  t_failure_reason :: "string option"
  t_ci_triage_retries :: "int option"
  t_last_pr_event_ts :: "string option"
  t_base_ref_sha :: "string option"
  t_last_synced_main_sha :: "string option"
  t_conflict_resolve_retries :: "int option"
  t_needs_intent_review :: "int option"
  t_last_intent_review_ts :: "time option"
  t_intent_review_count :: "int option"
  t_replan_count :: "int option"
  t_resume_from_existing_subtasks :: "int option"
  t_review_round :: "int option"
  t_intervention_request :: "string option"
  t_draft_pr_number :: "int option"
  t_last_review_poll_ts :: "time option"
  t_pre_rebase_state :: "string option"
  t_needs_parent_rebase :: "int option"
  t_auto_merged :: "int option"
  t_last_rebase_scheduled_ts :: "time option"
  t_last_notified_settled_ts :: "time option"
  t_last_processed_review_id :: "string option"
  t_phase :: phase
  t_cycle_in_phase :: int
  t_pr_review_trigger :: pr_review_trigger
  t_kind :: task_kind
  t_parent_task_ids :: "string list option"
  t_parent_branches :: "string list option"
  t_parent_pr_branches :: "string list option"
  t_parent_merge_base_sha :: "string option"
  t_parent_merge_base_branch :: "string option"
  t_last_observed_branch_tip_sha :: "string option"
  t_block_forensics :: "forensics option"
  t_pre_pr_audit_summary :: "audit_summary option"
  t_seed_source :: "string option"
  t_seed_evidence :: "string option"
  t_seeded_at :: "time option"
  t_replan_cycle_marker :: "string option"
  t_created_at :: time
  t_updated_at :: time

text \<open>A fresh row: \<^verbatim>\<open>INSERT INTO tasks (id, state, created_at, updated_at)\<close> with the column defaults.\<close>

definition new_task :: "ident \<Rightarrow> state \<Rightarrow> time \<Rightarrow> task_row" where
  "new_task tid st now =
     \<lparr>t_id = tid, t_state = st, t_branch = None, t_worktree_path = None, t_container_id = None,
      t_pr_url = None, t_pr_number = None, t_plan_text = None, t_last_error = None,
      t_failure_reason = None, t_ci_triage_retries = Some 0, t_last_pr_event_ts = None,
      t_base_ref_sha = None, t_last_synced_main_sha = None, t_conflict_resolve_retries = Some 0,
      t_needs_intent_review = Some 0, t_last_intent_review_ts = None,
      t_intent_review_count = Some 0, t_replan_count = Some 0,
      t_resume_from_existing_subtasks = Some 0, t_review_round = Some 0,
      t_intervention_request = None, t_draft_pr_number = None, t_last_review_poll_ts = None,
      t_pre_rebase_state = None, t_needs_parent_rebase = Some 0, t_auto_merged = Some 0,
      t_last_rebase_scheduled_ts = None, t_last_notified_settled_ts = None,
      t_last_processed_review_id = None, t_phase = Phase_INITIAL, t_cycle_in_phase = 1,
      t_pr_review_trigger = Trigger_NONE, t_kind = Kind_SPEC, t_parent_task_ids = None,
      t_parent_branches = None, t_parent_pr_branches = None, t_parent_merge_base_sha = None,
      t_parent_merge_base_branch = None, t_last_observed_branch_tip_sha = None,
      t_block_forensics = None, t_pre_pr_audit_summary = None, t_seed_source = None,
      t_seed_evidence = None, t_seeded_at = None, t_replan_cycle_marker = None,
      t_created_at = now, t_updated_at = now\<rparr>"

record log_row =
  l_task_id :: ident
  l_from_state :: "state option"
  l_to_state :: state
  l_note :: "string option"
  l_ts :: time

record subtask_row =
  s_task_id :: ident
  s_subtask_id :: string
  s_state :: subtask_state
  s_title :: "string option"
  s_depends_on :: "string list"
  s_files_to_touch :: "string list"
  s_boundary :: "string option"
  s_acceptance :: "string list"
  s_notes :: "string option"
  s_retries :: "int option"
  s_last_error :: "string option"
  s_triage_notes :: "string option"
  s_commit_sha :: "string option"
  s_transient_retries :: "int option"
  s_progress_check_count :: "int option"
  s_flatline_count :: "int option"
  s_last_failure_root_cause_hash :: "string option"
  s_pre_commit_failures :: "int option"
  s_kind :: string
  s_retry_reasons :: "retry_reason list option"
  s_accepted_files :: "string option"
  s_planning_cycle :: int
  s_planning_kind :: string
  s_created_at :: "time option"
  s_updated_at :: "time option"

record agent_call =
  a_id :: nat
  a_task_id :: ident
  a_phase :: string
  a_cli :: string
  a_model :: "string option"
  a_rc :: "int option"
  a_duration_s :: "time option"
  a_tokens_used :: "int option"
  a_tokens_input :: "int option"
  a_tokens_output :: "int option"
  a_tokens_cached_read :: "int option"
  a_tokens_cached_creation :: "int option"
  a_cost_usd :: "int option"
  a_subtask_id :: "string option"
  a_started_at :: "time option"
  a_status :: string
  a_ts :: time

record artifact_row =
  ar_task_id :: ident
  ar_kind :: string
  ar_content :: string
  ar_is_path :: bool
  ar_ts :: time

record progress_check_row =
  pc_task_id :: ident
  pc_subtask_id :: string
  pc_ts :: time
  pc_attempts_at_check :: int
  pc_verdict :: string
  pc_rationale :: "string option"

record container_stats_row =
  cs_task_id :: ident
  cs_container_name :: string
  cs_cpu_pct :: "int option"
  cs_mem_bytes :: "int option"
  cs_mem_pct :: "int option"
  cs_ts :: time

record review_thread_row =
  th_task_id :: ident
  th_thread_id :: string
  th_is_resolved :: bool
  th_last_comment_ts :: time
  th_last_comment_author :: "string option"
  th_last_comment_is_bot :: bool
  th_addressed_in_commit_sha :: "string option"
  th_first_seen_ts :: time

record intent_review_row =
  ir_task_id :: ident
  ir_triggered_by_merge_of :: "string option"
  ir_main_sha_before :: "string option"
  ir_main_sha_after :: "string option"
  ir_verdict :: string
  ir_explanation :: string
  ir_affected_areas :: string
  ir_raw_output :: string
  ir_ts :: time

section \<open>State sets of the row layer\<close>

text \<open>These differ from the sets of \<^verbatim>\<open>fsm.py\<close>: here "terminal" means no worker, and CI polling is active.\<close>

definition row_terminal :: "state list" where
  "row_terminal =
     [MERGED, MERGE_NODE_READY, MERGE_NODE_RETIRED, PENDING_CI, AWAITING_REVIEW,
      BLOCKED, FAILED, ABORTED]"

definition row_active :: "state list" where
  "row_active =
     [PROVISIONING, PLANNING, DOING_SUBTASK, CHECKING_SUBTASK, TRIAGING_SUBTASK, COMMITTING,
      PUSHING, PR_OPENING, PENDING_CI, REBASING_TO_MAIN, CONFLICT_RESOLVING, FIXUP_PLANNING,
      LOCAL_CI_CHECKING,
      AUDIT_LOCAL_CI, AUDIT_RUBRIC, AUDIT_STANDARDS, AUDIT_ARCHITECTURE, AUDIT_BEHAVIOR]"

section \<open>Keyword updates\<close>

datatype task_field =
    F_branch "string option"
  | F_worktree_path "string option"
  | F_container_id "string option"
  | F_pr_url "string option"
  | F_pr_number "int option"
  | F_plan_text "string option"
  | F_last_error "string option"
  | F_failure_reason "string option"
  | F_ci_triage_retries "int option"
  | F_last_synced_main_sha "string option"
  | F_base_ref_sha "string option"
  | F_conflict_resolve_retries "int option"
  | F_needs_intent_review "int option"
  | F_replan_count "int option"
  | F_resume_from_existing_subtasks "int option"
  | F_review_round "int option"
  | F_intervention_request "string option"
  | F_draft_pr_number "int option"
  | F_last_review_poll_ts "time option"
  | F_pre_rebase_state "string option"
  | F_needs_parent_rebase "int option"
  | F_auto_merged "int option"
  | F_last_processed_review_id "string option"
  | F_pre_pr_audit_summary "audit_summary option"
  | F_replan_cycle_marker "string option"

primrec set_task_field :: "task_field \<Rightarrow> task_row \<Rightarrow> task_row" where
  "set_task_field (F_branch v) r = r\<lparr>t_branch := v\<rparr>"
| "set_task_field (F_worktree_path v) r = r\<lparr>t_worktree_path := v\<rparr>"
| "set_task_field (F_container_id v) r = r\<lparr>t_container_id := v\<rparr>"
| "set_task_field (F_pr_url v) r = r\<lparr>t_pr_url := v\<rparr>"
| "set_task_field (F_pr_number v) r = r\<lparr>t_pr_number := v\<rparr>"
| "set_task_field (F_plan_text v) r = r\<lparr>t_plan_text := v\<rparr>"
| "set_task_field (F_last_error v) r = r\<lparr>t_last_error := v\<rparr>"
| "set_task_field (F_failure_reason v) r = r\<lparr>t_failure_reason := v\<rparr>"
| "set_task_field (F_ci_triage_retries v) r = r\<lparr>t_ci_triage_retries := v\<rparr>"
| "set_task_field (F_last_synced_main_sha v) r = r\<lparr>t_last_synced_main_sha := v\<rparr>"
| "set_task_field (F_base_ref_sha v) r = r\<lparr>t_base_ref_sha := v\<rparr>"
| "set_task_field (F_conflict_resolve_retries v) r = r\<lparr>t_conflict_resolve_retries := v\<rparr>"
| "set_task_field (F_needs_intent_review v) r = r\<lparr>t_needs_intent_review := v\<rparr>"
| "set_task_field (F_replan_count v) r = r\<lparr>t_replan_count := v\<rparr>"
| "set_task_field (F_resume_from_existing_subtasks v) r = r\<lparr>t_resume_from_existing_subtasks := v\<rparr>"
| "set_task_field (F_review_round v) r = r\<lparr>t_review_round := v\<rparr>"
| "set_task_field (F_intervention_request v) r = r\<lparr>t_intervention_request := v\<rparr>"
| "set_task_field (F_draft_pr_number v) r = r\<lparr>t_draft_pr_number := v\<rparr>"
| "set_task_field (F_last_review_poll_ts v) r = r\<lparr>t_last_review_poll_ts := v\<rparr>"
| "set_task_field (F_pre_rebase_state v) r = r\<lparr>t_pre_rebase_state := v\<rparr>"
| "set_task_field (F_needs_parent_rebase v) r = r\<lparr>t_needs_parent_rebase := v\<rparr>"
| "set_task_field (F_auto_merged v) r = r\<lparr>t_auto_merged := v\<rparr>"
| "set_task_field (F_last_processed_review_id v) r = r\<lparr>t_last_processed_review_id := v\<rparr>"
| "set_task_field (F_pre_pr_audit_summary v) r = r\<lparr>t_pre_pr_audit_summary := v\<rparr>"
| "set_task_field (F_replan_cycle_marker v) r = r\<lparr>t_replan_cycle_marker := v\<rparr>"

text \<open>A keyword dictionary has one value per key; applying a list left to right lets the last one win.\<close>

definition set_task_fields :: "task_field list \<Rightarrow> task_row \<Rightarrow> task_row" where
  "set_task_fields fs r = fold set_task_field fs r"

datatype subtask_field =
    SF_state subtask_state
  | SF_retries "int option"
  | SF_last_error "string option"
  | SF_triage_notes "string option"
  | SF_commit_sha "string option"
  | SF_transient_retries "int option"
  | SF_flatline_count "int option"
  | SF_progress_check_count "int option"
  | SF_pre_commit_failures "int option"
  | SF_retry_reasons "retry_reason list option"
  | SF_accepted_files "string option"
  | SF_last_failure_root_cause_hash "string option"

primrec set_subtask_field :: "subtask_field \<Rightarrow> subtask_row \<Rightarrow> subtask_row" where
  "set_subtask_field (SF_state v) r = r\<lparr>s_state := v\<rparr>"
| "set_subtask_field (SF_retries v) r = r\<lparr>s_retries := v\<rparr>"
| "set_subtask_field (SF_last_error v) r = r\<lparr>s_last_error := v\<rparr>"
| "set_subtask_field (SF_triage_notes v) r = r\<lparr>s_triage_notes := v\<rparr>"
| "set_subtask_field (SF_commit_sha v) r = r\<lparr>s_commit_sha := v\<rparr>"
| "set_subtask_field (SF_transient_retries v) r = r\<lparr>s_transient_retries := v\<rparr>"
| "set_subtask_field (SF_flatline_count v) r = r\<lparr>s_flatline_count := v\<rparr>"
| "set_subtask_field (SF_progress_check_count v) r = r\<lparr>s_progress_check_count := v\<rparr>"
| "set_subtask_field (SF_pre_commit_failures v) r = r\<lparr>s_pre_commit_failures := v\<rparr>"
| "set_subtask_field (SF_retry_reasons v) r = r\<lparr>s_retry_reasons := v\<rparr>"
| "set_subtask_field (SF_accepted_files v) r = r\<lparr>s_accepted_files := v\<rparr>"
| "set_subtask_field (SF_last_failure_root_cause_hash v) r =
     r\<lparr>s_last_failure_root_cause_hash := v\<rparr>"

section \<open>Frame facts\<close>

text \<open>A keyword update never touches the identity, the state, the kind or the parent columns.\<close>

lemma set_task_field_frame [simp]:
  "t_id (set_task_field f r) = t_id r"
  "t_state (set_task_field f r) = t_state r"
  "t_kind (set_task_field f r) = t_kind r"
  "t_parent_task_ids (set_task_field f r) = t_parent_task_ids r"
  "t_parent_branches (set_task_field f r) = t_parent_branches r"
  "t_parent_pr_branches (set_task_field f r) = t_parent_pr_branches r"
  "t_block_forensics (set_task_field f r) = t_block_forensics r"
  by (cases f; simp)+

lemma set_task_fields_frame [simp]:
  "t_id (set_task_fields fs r) = t_id r"
  "t_state (set_task_fields fs r) = t_state r"
  "t_kind (set_task_fields fs r) = t_kind r"
  "t_parent_task_ids (set_task_fields fs r) = t_parent_task_ids r"
  "t_parent_branches (set_task_fields fs r) = t_parent_branches r"
  "t_parent_pr_branches (set_task_fields fs r) = t_parent_pr_branches r"
  "t_block_forensics (set_task_fields fs r) = t_block_forensics r"
  unfolding set_task_fields_def by (induction fs arbitrary: r) simp_all

lemma set_task_fields_Nil [simp]: "set_task_fields [] r = r"
  by (simp add: set_task_fields_def)

lemma set_task_fields_Cons [simp]:
  "set_task_fields (f # fs) r = set_task_fields fs (set_task_field f r)"
  by (simp add: set_task_fields_def)

lemma set_subtask_field_frame [simp]:
  "s_task_id (set_subtask_field f r) = s_task_id r"
  "s_subtask_id (set_subtask_field f r) = s_subtask_id r"
  "s_planning_cycle (set_subtask_field f r) = s_planning_cycle r"
  "s_planning_kind (set_subtask_field f r) = s_planning_kind r"
  by (cases f; simp)+

lemma new_task_simps [simp]:
  "t_id (new_task tid st now) = tid"
  "t_state (new_task tid st now) = st"
  "t_kind (new_task tid st now) = Kind_SPEC"
  "t_parent_task_ids (new_task tid st now) = None"
  "t_created_at (new_task tid st now) = now"
  by (simp_all add: new_task_def)

end
