(* ===== verification/Db.thy ===== *)
theory Db
  imports StateTypes
begin

text \<open>
  The SQLite database behind \<^verbatim>\<open>quikode/state.py\<close> as a record of tables. A table is the list of its rows
  in rowid order, so appending is \<^verbatim>\<open>INSERT\<close> and an \<^verbatim>\<open>AUTOINCREMENT\<close> order is the list order. The
  constraints the schema declares and the code can violate are checked by the insert primitives: the
  primary key of \<^verbatim>\<open>tasks\<close> and the foreign key of \<^verbatim>\<open>state_log\<close> (\<^verbatim>\<open>PRAGMA foreign_keys=ON\<close>).
  \<open>clock\<close> is what \<^verbatim>\<open>time.time()\<close> returns; it moves between actions, never inside one.
  \<open>store_ok\<close> is the invariant that ties each task's row to its history in \<^verbatim>\<open>state_log\<close>.
\<close>

record db =
  clock :: time
  db_tasks :: "task_row list"
  db_log :: "log_row list"
  db_subtasks :: "subtask_row list"
  db_agent_calls :: "agent_call list"
  db_next_call :: nat
  db_artifacts :: "artifact_row list"
  db_progress_checks :: "progress_check_row list"
  db_container_stats :: "container_stats_row list"
  db_review_threads :: "review_thread_row list"
  db_intent_reviews :: "intent_review_row list"

definition empty_db :: "time \<Rightarrow> db" where
  "empty_db now =
     \<lparr>clock = now, db_tasks = [], db_log = [], db_subtasks = [], db_agent_calls = [],
      db_next_call = 1, db_artifacts = [], db_progress_checks = [], db_container_stats = [],
      db_review_threads = [], db_intent_reviews = []\<rparr>"

type_synonym 'a store_act = "(db, 'a) act"

text \<open>\<^verbatim>\<open>Store.tx\<close>: commit on success, roll the whole body back on an exception.\<close>

definition tx :: "'a store_act \<Rightarrow> 'a store_act" where
  "tx body = (\<lambda>d. case body d of (Inl e, _) \<Rightarrow> (Inl e, d) | (Inr a, d') \<Rightarrow> (Inr a, d'))"

section \<open>Statements\<close>

definition find_task :: "ident \<Rightarrow> db \<Rightarrow> task_row option" where
  "find_task tid d = List.find (\<lambda>r. t_id r = tid) (db_tasks d)"

definition select_state :: "ident \<Rightarrow> db \<Rightarrow> state option" where
  "select_state tid d = map_option t_state (find_task tid d)"

definition task_ids :: "db \<Rightarrow> ident list" where
  "task_ids d = map t_id (db_tasks d)"

definition insert_task :: "task_row \<Rightarrow> unit store_act" where
  "insert_task r =
     (\<lambda>d. if t_id r \<in> set (task_ids d)
          then (Inl (IntegrityError ''UNIQUE constraint failed: tasks.id''), d)
          else (Inr (), d\<lparr>db_tasks := db_tasks d @ [r]\<rparr>))"

definition insert_log :: "ident \<Rightarrow> state option \<Rightarrow> state \<Rightarrow> string option \<Rightarrow> unit store_act" where
  "insert_log tid from to note =
     (\<lambda>d. if tid \<in> set (task_ids d)
          then (Inr (), d\<lparr>db_log := db_log d @
                   [\<lparr>l_task_id = tid, l_from_state = from, l_to_state = to, l_note = note,
                     l_ts = clock d\<rparr>]\<rparr>)
          else (Inl (IntegrityError ''FOREIGN KEY constraint failed''), d))"

text \<open>\<^verbatim>\<open>UPDATE tasks SET ..., updated_at = now WHERE id = tid\<close>.\<close>

definition update_row :: "ident \<Rightarrow> (task_row \<Rightarrow> task_row) \<Rightarrow> db \<Rightarrow> db" where
  "update_row tid f d =
     d\<lparr>db_tasks := map (\<lambda>r. if t_id r = tid then (f r)\<lparr>t_updated_at := clock d\<rparr> else r) (db_tasks d)\<rparr>"

definition update_task :: "ident \<Rightarrow> (task_row \<Rightarrow> task_row) \<Rightarrow> unit store_act" where
  "update_task tid f = py_modify (update_row tid f)"

text \<open>\<^verbatim>\<open>UPDATE subtasks SET ..., updated_at = now WHERE task_id = tid AND subtask_id = sid\<close>.\<close>

definition update_subtask_row ::
  "ident \<Rightarrow> string \<Rightarrow> (subtask_row \<Rightarrow> subtask_row) \<Rightarrow> db \<Rightarrow> db" where
  "update_subtask_row tid sid f d =
     d\<lparr>db_subtasks :=
         map (\<lambda>s. if s_task_id s = tid \<and> s_subtask_id s = sid
                  then (f s)\<lparr>s_updated_at := Some (clock d)\<rparr> else s) (db_subtasks d)\<rparr>"

definition find_subtask :: "ident \<Rightarrow> string \<Rightarrow> db \<Rightarrow> subtask_row option" where
  "find_subtask tid sid d =
     List.find (\<lambda>s. s_task_id s = tid \<and> s_subtask_id s = sid) (db_subtasks d)"

lemma tx_run [act_simps]:
  "tx body d = (case body d of (Inl e, _) \<Rightarrow> (Inl e, d) | (Inr a, d') \<Rightarrow> (Inr a, d'))"
  by (simp add: tx_def)

lemma insert_log_run [act_simps]:
  "insert_log tid from to note d =
     (if tid \<in> set (task_ids d)
      then (Inr (), d\<lparr>db_log := db_log d @
               [\<lparr>l_task_id = tid, l_from_state = from, l_to_state = to, l_note = note,
                 l_ts = clock d\<rparr>]\<rparr>)
      else (Inl (IntegrityError ''FOREIGN KEY constraint failed''), d))"
  by (simp add: insert_log_def)

lemma insert_task_run [act_simps]:
  "insert_task r d =
     (if t_id r \<in> set (task_ids d)
      then (Inl (IntegrityError ''UNIQUE constraint failed: tasks.id''), d)
      else (Inr (), d\<lparr>db_tasks := db_tasks d @ [r]\<rparr>))"
  by (simp add: insert_task_def)

lemma update_task_run [act_simps]: "update_task tid f d = (Inr (), update_row tid f d)"
  by (simp add: update_task_def py_modify_run)

lemma keeps_tx [keeps_intros]: "keeps P m \<Longrightarrow> keeps P (tx m)"
  by (auto simp: keeps_def tx_run split: prod.splits sum.splits)

text \<open>The rollback law: a transaction that raises leaves the database as it was.\<close>

lemma tx_rollback: "fst (tx m d) = Inl e \<Longrightarrow> snd (tx m d) = d"
  by (auto simp: tx_run split: prod.splits sum.splits)

section \<open>Lookup after update\<close>

lemma task_ids_update_row [simp]:
  "(\<And>r. t_id (f r) = t_id r) \<Longrightarrow> task_ids (update_row tid f d) = task_ids d"
  by (simp add: task_ids_def update_row_def)

lemma update_row_frame [simp]:
  "clock (update_row tid f d) = clock d"
  "db_log (update_row tid f d) = db_log d"
  "db_subtasks (update_row tid f d) = db_subtasks d"
  "db_agent_calls (update_row tid f d) = db_agent_calls d"
  "db_next_call (update_row tid f d) = db_next_call d"
  "db_artifacts (update_row tid f d) = db_artifacts d"
  "db_progress_checks (update_row tid f d) = db_progress_checks d"
  "db_container_stats (update_row tid f d) = db_container_stats d"
  by (simp_all add: update_row_def)

lemma find_task_update_row:
  assumes "\<And>r. t_id (f r) = t_id r"
  shows "find_task tid (update_row tid' f d) =
     (if tid = tid' then map_option (\<lambda>r. (f r)\<lparr>t_updated_at := clock d\<rparr>) (find_task tid d)
      else find_task tid d)"
  using find_map_key_update [of t_id "\<lambda>r. (f r)\<lparr>t_updated_at := clock d\<rparr>" tid tid' "db_tasks d"] assms
  by (simp add: find_task_def update_row_def)

lemma find_task_None_iff: "find_task tid d = None \<longleftrightarrow> tid \<notin> set (task_ids d)"
  by (auto simp: find_task_def task_ids_def find_None_iff)

lemma find_task_Some_in: "find_task tid d = Some r \<Longrightarrow> tid \<in> set (task_ids d)"
  using find_task_None_iff [of tid d] by auto

lemma find_task_id: "find_task tid d = Some r \<Longrightarrow> t_id r = tid"
  unfolding find_task_def by (drule find_SomeD) simp

lemma find_task_mem: "find_task tid d = Some r \<Longrightarrow> r \<in> set (db_tasks d)"
  unfolding find_task_def by (drule find_SomeD) simp

lemma find_task_cong: "db_tasks d = db_tasks d' \<Longrightarrow> find_task tid d = find_task tid d'"
  by (simp add: find_task_def)

lemma find_task_unique:
  "distinct (task_ids d) \<Longrightarrow> r \<in> set (db_tasks d) \<Longrightarrow> find_task (t_id r) d = Some r"
  unfolding find_task_def task_ids_def by (rule distinct_key_find)

section \<open>The history invariant\<close>

definition task_log :: "ident \<Rightarrow> db \<Rightarrow> log_row list" where
  "task_log tid d = filter (\<lambda>l. l_task_id l = tid) (db_log d)"

fun log_chain :: "state option \<Rightarrow> log_row list \<Rightarrow> bool" where
  "log_chain prev [] \<longleftrightarrow> True"
| "log_chain prev (l # ls) \<longleftrightarrow> l_from_state l = prev \<and> log_chain (Some (l_to_state l)) ls"

definition log_end :: "state option \<Rightarrow> log_row list \<Rightarrow> state option" where
  "log_end prev ls = (if ls = [] then prev else Some (l_to_state (last ls)))"

text \<open>
  The edges a history may contain: creation (fresh or seeded as merged), an FSM transition, a phase
  note that leaves the state, orphan recovery and the supervisor's forced recovery of a stalled audit.
\<close>

inductive legal_edge :: "state option \<Rightarrow> state \<Rightarrow> bool" where
  created: "legal_edge None PENDING"
| seeded: "legal_edge None MERGED"
| fired: "target_of s e = Some t \<Longrightarrow> legal_edge (Some s) t"
| noted: "legal_edge (Some s) s"
| recovered: "s \<in> set active_states \<Longrightarrow> t = PENDING \<or> t = PENDING_CI \<Longrightarrow> legal_edge (Some s) t"
| forced: "s \<in> set (FIXUP_PLANNING # audit_stage_states) \<Longrightarrow> legal_edge (Some s) PENDING_CI"

inductive_simps legal_edge_None: "legal_edge None t"
inductive_simps legal_edge_Some: "legal_edge (Some s) t"

definition history_ok :: "state option \<Rightarrow> log_row list \<Rightarrow> bool" where
  "history_ok st ls \<longleftrightarrow>
     log_chain None ls \<and> log_end None ls = st \<and>
     (\<forall>l \<in> set ls. legal_edge (l_from_state l) (l_to_state l))"

definition store_ok :: "db \<Rightarrow> bool" where
  "store_ok d \<longleftrightarrow>
     distinct (task_ids d) \<and>
     (\<forall>tid. history_ok (select_state tid d) (task_log tid d))"

lemma log_chain_append: "log_chain prev (ls @ ms) \<longleftrightarrow> log_chain prev ls \<and> log_chain (log_end prev ls) ms"
  by (induction ls arbitrary: prev) (auto simp: log_end_def)

lemma history_snoc:
  "history_ok st ls \<Longrightarrow> l_from_state l = st \<Longrightarrow> legal_edge st (l_to_state l) \<Longrightarrow>
   history_ok (Some (l_to_state l)) (ls @ [l])"
  by (auto simp: history_ok_def log_chain_append log_end_def)

lemma history_empty [simp]: "history_ok None []"
  by (simp add: history_ok_def log_end_def)

lemma store_ok_empty: "store_ok (empty_db now)"
  by (simp add: store_ok_def empty_db_def task_ids_def select_state_def find_task_def task_log_def)

text \<open>Only the tasks and the log matter to it.\<close>

lemma store_ok_cong:
  "db_tasks d = db_tasks d' \<Longrightarrow> db_log d = db_log d' \<Longrightarrow> store_ok d \<longleftrightarrow> store_ok d'"
  by (simp add: store_ok_def task_ids_def select_state_def find_task_def task_log_def)

lemma store_okI_frame:
  "store_ok d \<Longrightarrow> db_tasks d' = db_tasks d \<Longrightarrow> db_log d' = db_log d \<Longrightarrow> store_ok d'"
  using store_ok_cong [of d' d] by simp

lemma select_state_update_row:
  assumes "\<And>r. t_id (f r) = t_id r" and "\<And>r. t_state (f r) = t_state r"
  shows "select_state tid (update_row tid' f d) = select_state tid d"
  using assms by (auto simp: select_state_def find_task_update_row option.map_comp comp_def)

lemma store_ok_update_row:
  assumes "store_ok d" and "\<And>r. t_id (f r) = t_id r" and "\<And>r. t_state (f r) = t_state r"
  shows "store_ok (update_row tid f d)"
  using assms by (simp add: store_ok_def select_state_update_row task_log_def)

lemma keeps_update_task [keeps_intros]:
  "(\<And>r. t_id (f r) = t_id r) \<Longrightarrow> (\<And>r. t_state (f r) = t_state r) \<Longrightarrow>
   keeps store_ok (update_task tid f)"
  unfolding update_task_def by (rule keeps_modify) (rule store_ok_update_row)

lemma task_log_append:
  "task_log tid (d\<lparr>db_log := db_log d @ [l]\<rparr>) =
     task_log tid d @ (if l_task_id l = tid then [l] else [])"
  by (simp add: task_log_def)

text \<open>Changing a task's state and logging the edge.\<close>

lemma store_ok_move:
  assumes ok: "store_ok d" and cur: "select_state tid d = Some s"
    and edge: "legal_edge (Some s) t"
    and f: "\<And>r. t_id (f r) = t_id r" "\<And>r. t_state (f r) = t"
  shows "store_ok ((update_row tid f d)\<lparr>db_log := db_log d @
            [\<lparr>l_task_id = tid, l_from_state = Some s, l_to_state = t, l_note = n, l_ts = c\<rparr>]\<rparr>)"
    (is "store_ok ?d'")
proof -
  have sel: "select_state x ?d' = (if x = tid then Some t else select_state x d)" for x
    using cur find_task_update_row [of f x tid d] f
    by (auto simp: select_state_def find_task_def update_row_def)
  have lg: "task_log x ?d' = task_log x d @ (if x = tid then
      [\<lparr>l_task_id = tid, l_from_state = Some s, l_to_state = t, l_note = n, l_ts = c\<rparr>] else [])" for x
    by (simp add: task_log_def)
  have "history_ok (select_state x ?d') (task_log x ?d')" for x
  proof (cases "x = tid")
    case True
    have "history_ok (Some s) (task_log tid d)"
      using ok cur by (simp add: store_ok_def) (metis cur)
    then show ?thesis
      using history_snoc [where l = "\<lparr>l_task_id = tid, l_from_state = Some s, l_to_state = t,
          l_note = n, l_ts = c\<rparr>"] edge True
      by (simp add: sel lg)
  next
    case False
    with ok show ?thesis by (simp add: sel lg store_ok_def)
  qed
  moreover have "task_ids ?d' = task_ids d"
    using f by (simp add: task_ids_def update_row_def)
  ultimately show ?thesis
    using ok by (simp add: store_ok_def)
qed

text \<open>Creating a task and logging its first state.\<close>

lemma store_ok_create:
  assumes ok: "store_ok d" and fresh: "tid \<notin> set (task_ids d)"
    and r: "t_id r = tid" "t_state r = t" and edge: "legal_edge None t"
  shows "store_ok (d\<lparr>db_tasks := db_tasks d @ [r], db_log := db_log d @
            [\<lparr>l_task_id = tid, l_from_state = None, l_to_state = t, l_note = n, l_ts = c\<rparr>]\<rparr>)"
    (is "store_ok ?d'")
proof -
  have none: "select_state tid d = None"
    using fresh find_task_None_iff by (simp add: select_state_def)
  have sel: "select_state x ?d' = (if x = tid then Some t else select_state x d)" for x
    using none r by (auto simp: select_state_def find_task_def find_append split: option.splits)
  have lg: "task_log x ?d' = task_log x d @ (if x = tid then
      [\<lparr>l_task_id = tid, l_from_state = None, l_to_state = t, l_note = n, l_ts = c\<rparr>] else [])" for x
    by (simp add: task_log_def)
  have "history_ok (select_state x ?d') (task_log x ?d')" for x
  proof (cases "x = tid")
    case True
    have "history_ok None (task_log tid d)"
      using ok none by (simp add: store_ok_def) (metis none)
    then show ?thesis
      using history_snoc [where l = "\<lparr>l_task_id = tid, l_from_state = None, l_to_state = t,
          l_note = n, l_ts = c\<rparr>"] edge True
      by (simp add: sel lg)
  next
    case False
    with ok show ?thesis by (simp add: sel lg store_ok_def)
  qed
  moreover have "distinct (task_ids ?d')"
    using ok fresh r by (simp add: store_ok_def task_ids_def)
  ultimately show ?thesis by (simp add: store_ok_def)
qed

end
