(* ===== verification/StoreForensics.thy ===== *)
theory StoreForensics
  imports Db
begin

text \<open>
  \<^verbatim>\<open>quikode/store_forensics.py\<close>: the snapshot taken when a task becomes BLOCKED, the bounded history of
  retry reasons with the query the stop-loss checks read, the per-subtask counters, and the generic
  column setters. Two SQL orders are resolved as SQLite executes them: \<^verbatim>\<open>ORDER BY ts DESC\<close> over the
  \<^verbatim>\<open>(task_id, ts)\<close> index visits equal timestamps from the newest row on.
  The snapshot is stored as a value; the 200000-character cut of its JSON text is not modelled.
\<close>

section \<open>Blocked-task snapshot\<close>

text \<open>A Python dict of counters, in insertion order: \<^verbatim>\<open>d[k] = d.get(k, 0) + 1\<close>.\<close>

fun bump_count :: "string \<Rightarrow> (string \<times> nat) list \<Rightarrow> (string \<times> nat) list" where
  "bump_count k [] = [(k, 1)]"
| "bump_count k ((k', n) # xs) = (if k' = k then (k', Suc n) # xs else (k', n) # bump_count k xs)"

definition count_categories ::
  "retry_reason list \<Rightarrow> (string \<times> nat) list \<Rightarrow> (string \<times> nat) list" where
  "count_categories rr acc = fold (\<lambda>e. bump_count (rr_category e)) rr acc"

definition or0 :: "int option \<Rightarrow> int" where
  "or0 x = (case x of None \<Rightarrow> 0 | Some i \<Rightarrow> i)"

definition last_n :: "nat \<Rightarrow> 'a list \<Rightarrow> 'a list" where
  "last_n n xs = drop (length xs - n) xs"

definition subtask_forensics_of :: "subtask_row \<Rightarrow> subtask_forensics" where
  "subtask_forensics_of s =
     (let rr = (case s_retry_reasons s of None \<Rightarrow> [] | Some r \<Rightarrow> r)
      in \<lparr>sf_subtask_id = s_subtask_id s, sf_retries = or0 (s_retries s),
          sf_transient_retries = or0 (s_transient_retries s),
          sf_flatline_count = or0 (s_flatline_count s),
          sf_pre_commit_failures = or0 (s_pre_commit_failures s),
          sf_retry_categories = count_categories rr [],
          sf_recent_retry_examples = last_n 3 rr\<rparr>)"

text \<open>\<^verbatim>\<open>kind LIKE 'prefix:%'\<close>.\<close>

definition kind_like :: "string \<Rightarrow> artifact_row \<Rightarrow> bool" where
  "kind_like prefix a \<longleftrightarrow> take (length prefix) (ar_kind a) = prefix"

text \<open>The scan that keeps the first outputs with distinct 80-character heads, up to \<open>n\<close> of them.\<close>

fun distinct_heads :: "nat \<Rightarrow> string list \<Rightarrow> artifact_row list \<Rightarrow> (string \<times> string) list" where
  "distinct_heads 0 seen arts = []"
| "distinct_heads (Suc n) seen [] = []"
| "distinct_heads (Suc n) seen (a # arts) =
     (let content = take 1500 (ar_content a); head = take 80 content
      in if head \<in> set seen then distinct_heads (Suc n) seen arts
         else (ar_kind a, content) # distinct_heads n (head # seen) arts)"

definition newest_first :: "('a \<Rightarrow> time) \<Rightarrow> 'a list \<Rightarrow> 'a list" where
  "newest_first ts rows = sort_key (\<lambda>r. - ts r) (rev rows)"

definition subtask_state_counts :: "subtask_row list \<Rightarrow> (subtask_state \<times> nat) list" where
  "subtask_state_counts rows =
     filter (\<lambda>(_, n). 0 < n)
       (map (\<lambda>st. (st, length (filter (\<lambda>s. s_state s = st) rows)))
          [Sub_BLOCKED, Sub_CHECKING, Sub_DOING, Sub_DONE, Sub_PENDING, Sub_SKIPPED, Sub_TRIAGING])"

definition max_option :: "int list \<Rightarrow> int option" where
  "max_option xs = (case xs of [] \<Rightarrow> None | x # ys \<Rightarrow> Some (fold max ys x))"

definition block_snapshot :: "ident \<Rightarrow> db \<Rightarrow> forensics" where
  "block_snapshot tid d =
     (let subs = filter (\<lambda>s. s_task_id s = tid) (db_subtasks d);
          arts = filter (\<lambda>a. ar_task_id a = tid) (db_artifacts d);
          reasons = concat (map (\<lambda>s. case s_retry_reasons s of None \<Rightarrow> [] | Some r \<Rightarrow> r) subs);
          mem = [m. c \<leftarrow> db_container_stats d, cs_task_id c = tid,
                    m \<leftarrow> (case cs_mem_bytes c of None \<Rightarrow> [] | Some b \<Rightarrow> [b])]
      in \<lparr>fo_task_id = tid, fo_captured_at = clock d,
          fo_retry_categories_total = count_categories reasons [],
          fo_per_subtask = map subtask_forensics_of subs,
          fo_last_checker_outputs =
            distinct_heads 5 [] (take 20 (rev (filter (kind_like ''subtask_checker:'') arts))),
          fo_last_triage_notes =
            map (\<lambda>a. (ar_kind a, take 1500 (ar_content a)))
              (take 5 (rev (filter (kind_like ''subtask_triage:'') arts))),
          fo_last_progress_checks =
            map (\<lambda>p. (pc_subtask_id p, pc_verdict p,
                      take 500 (case pc_rationale p of None \<Rightarrow> [] | Some s \<Rightarrow> s), pc_ts p))
              (take 3 (newest_first pc_ts
                 (filter (\<lambda>p. pc_task_id p = tid) (db_progress_checks d)))),
          fo_peak_mem_bytes =
            (case max_option mem of None \<Rightarrow> None | Some b \<Rightarrow> if b = 0 then None else Some b),
          fo_recent_state_log =
            map (\<lambda>l. (l_from_state l, l_to_state l, l_ts l,
                      take 200 (case l_note l of None \<Rightarrow> [] | Some s \<Rightarrow> s)))
              (take 20 (newest_first l_ts (task_log tid d))),
          fo_subtask_states = subtask_state_counts subs\<rparr>)"

definition set_block_forensics :: "ident \<Rightarrow> forensics \<Rightarrow> unit store_act" where
  "set_block_forensics tid snap = tx (update_task tid (\<lambda>r. r\<lparr>t_block_forensics := Some snap\<rparr>))"

definition capture_block_forensics :: "ident \<Rightarrow> forensics store_act" where
  "capture_block_forensics tid =
     py_bind (py_read (block_snapshot tid)) (\<lambda>snap.
       py_then (set_block_forensics tid snap) (py_return snap))"

definition get_block_forensics :: "ident \<Rightarrow> db \<Rightarrow> forensics option" where
  "get_block_forensics tid d = Option.bind (find_task tid d) t_block_forensics"

section \<open>Column setters\<close>

definition get_last_observed_branch_tip_sha :: "ident \<Rightarrow> db \<Rightarrow> string option" where
  "get_last_observed_branch_tip_sha tid d =
     (case Option.bind (find_task tid d) t_last_observed_branch_tip_sha of
        None \<Rightarrow> None
      | Some v \<Rightarrow> if v = [] then None else Some v)"

definition set_last_observed_branch_tip_sha :: "ident \<Rightarrow> string \<Rightarrow> unit store_act" where
  "set_last_observed_branch_tip_sha tid sha =
     tx (update_task tid (\<lambda>r. r\<lparr>t_last_observed_branch_tip_sha := Some sha\<rparr>))"

definition set_parent_merge_base ::
  "ident \<Rightarrow> string option \<Rightarrow> string option \<Rightarrow> unit store_act" where
  "set_parent_merge_base tid b sha =
     tx (update_task tid (\<lambda>r. r\<lparr>t_parent_merge_base_branch := b, t_parent_merge_base_sha := sha\<rparr>))"

text \<open>\<^verbatim>\<open>set_field(task_id, **fields)\<close> and its one-column form \<^verbatim>\<open>reset_field\<close>.\<close>

definition set_field :: "ident \<Rightarrow> task_field list \<Rightarrow> unit store_act" where
  "set_field tid kw =
     (if kw = [] then py_return () else tx (update_task tid (set_task_fields kw)))"

definition reset_field :: "ident \<Rightarrow> task_field \<Rightarrow> unit store_act" where
  "reset_field tid field = tx (update_task tid (set_task_field field))"

text \<open>The integer columns \<^verbatim>\<open>increment\<close> is called with.\<close>

datatype task_counter =
  C_ci_triage_retries | C_conflict_resolve_retries | C_replan_count | C_review_round

primrec get_counter :: "task_counter \<Rightarrow> task_row \<Rightarrow> int option" where
  "get_counter C_ci_triage_retries r = t_ci_triage_retries r"
| "get_counter C_conflict_resolve_retries r = t_conflict_resolve_retries r"
| "get_counter C_replan_count r = t_replan_count r"
| "get_counter C_review_round r = t_review_round r"

primrec counter_field :: "task_counter \<Rightarrow> int \<Rightarrow> task_field" where
  "counter_field C_ci_triage_retries i = F_ci_triage_retries (Some i)"
| "counter_field C_conflict_resolve_retries i = F_conflict_resolve_retries (Some i)"
| "counter_field C_replan_count i = F_replan_count (Some i)"
| "counter_field C_review_round i = F_review_round (Some i)"

definition increment :: "ident \<Rightarrow> task_counter \<Rightarrow> int store_act" where
  "increment tid c =
     tx (py_then
           (update_task tid (\<lambda>r. set_task_field (counter_field c (or0 (get_counter c r) + 1)) r))
           (py_read (\<lambda>d. case find_task tid d of
                            None \<Rightarrow> 0
                          | Some r \<Rightarrow> or0 (get_counter c r))))"

section \<open>Retry reasons\<close>

definition update_subtask_act ::
  "ident \<Rightarrow> string \<Rightarrow> (subtask_row \<Rightarrow> subtask_row) \<Rightarrow> unit store_act" where
  "update_subtask_act tid sid f = py_modify (update_subtask_row tid sid f)"

definition append_retry_reason ::
  "ident \<Rightarrow> string \<Rightarrow> int \<Rightarrow> string \<Rightarrow> string \<Rightarrow> bool \<Rightarrow> unit store_act" where
  "append_retry_reason tid sid attempt category signature transient =
     tx (py_bind (py_read (\<lambda>d. (clock d, Option.bind (find_subtask tid sid d) s_retry_reasons)))
           (\<lambda>(now, cur).
              let existing = (case cur of None \<Rightarrow> [] | Some rr \<Rightarrow> rr) @
                    [\<lparr>rr_attempt = attempt, rr_ts = now, rr_category = category,
                      rr_signature = take 200 signature, rr_transient = transient\<rparr>];
                  kept = (if length existing > 50 then last_n 50 existing else existing)
              in update_subtask_act tid sid (\<lambda>s. s\<lparr>s_retry_reasons := Some kept\<rparr>)))"

definition retry_reasons :: "ident \<Rightarrow> string \<Rightarrow> db \<Rightarrow> retry_reason list" where
  "retry_reasons tid sid d =
     (case Option.bind (find_subtask tid sid d) s_retry_reasons of None \<Rightarrow> [] | Some rr \<Rightarrow> rr)"

text \<open>\<^verbatim>\<open>out[-limit:]\<close>: Python's slice, which keeps the whole list for a limit of zero.\<close>

definition py_tail :: "nat \<Rightarrow> 'a list \<Rightarrow> 'a list" where
  "py_tail limit xs = (if limit = 0 then xs else last_n limit xs)"

definition last_n_retry_signatures ::
  "ident \<Rightarrow> string \<Rightarrow> nat \<Rightarrow> db \<Rightarrow> (string \<times> string) list" where
  "last_n_retry_signatures tid sid limit d =
     py_tail limit
       (map (\<lambda>r. (rr_category r, rr_signature r))
          (filter (\<lambda>r. \<not> rr_transient r) (retry_reasons tid sid d)))"

section \<open>Subtask counters\<close>

definition read_subtask_counter ::
  "ident \<Rightarrow> string \<Rightarrow> (subtask_row \<Rightarrow> int option) \<Rightarrow> int store_act" where
  "read_subtask_counter tid sid c =
     py_read (\<lambda>d. case find_subtask tid sid d of None \<Rightarrow> 0 | Some s \<Rightarrow> or0 (c s))"

definition increment_subtask_pre_commit_failures :: "ident \<Rightarrow> string \<Rightarrow> int store_act" where
  "increment_subtask_pre_commit_failures tid sid =
     tx (py_then
           (update_subtask_act tid sid
              (\<lambda>s. s\<lparr>s_pre_commit_failures := Some (or0 (s_pre_commit_failures s) + 1)\<rparr>))
           (read_subtask_counter tid sid s_pre_commit_failures))"

definition increment_subtask_flatline_count :: "ident \<Rightarrow> string \<Rightarrow> int store_act" where
  "increment_subtask_flatline_count tid sid =
     tx (py_then
           (update_subtask_act tid sid
              (\<lambda>s. s\<lparr>s_flatline_count := Some (or0 (s_flatline_count s) + 1),
                     s_progress_check_count := Some (or0 (s_progress_check_count s) + 1)\<rparr>))
           (read_subtask_counter tid sid s_flatline_count))"

definition reset_subtask_flatline_count :: "ident \<Rightarrow> string \<Rightarrow> unit store_act" where
  "reset_subtask_flatline_count tid sid =
     tx (update_subtask_act tid sid
           (\<lambda>s. s\<lparr>s_flatline_count := Some 0,
                  s_progress_check_count := Some (or0 (s_progress_check_count s) + 1)\<rparr>))"

definition increment_subtask_transient_retries :: "ident \<Rightarrow> string \<Rightarrow> int store_act" where
  "increment_subtask_transient_retries tid sid =
     tx (py_then
           (update_subtask_act tid sid
              (\<lambda>s. s\<lparr>s_transient_retries := Some (or0 (s_transient_retries s) + 1)\<rparr>))
           (read_subtask_counter tid sid s_transient_retries))"

section \<open>Audit rows and artifacts\<close>

text \<open>The primary key \<^verbatim>\<open>(task_id, subtask_id, ts)\<close> rejects a second check in the same instant.\<close>

definition record_progress_check ::
  "ident \<Rightarrow> string \<Rightarrow> int \<Rightarrow> string \<Rightarrow> string option \<Rightarrow> unit store_act" where
  "record_progress_check tid sid attempts verdict rationale =
     tx (\<lambda>d. if \<exists>p \<in> set (db_progress_checks d).
                  pc_task_id p = tid \<and> pc_subtask_id p = sid \<and> pc_ts p = clock d
             then (Inl (IntegrityError ''UNIQUE constraint failed: progress_checks''), d)
             else (Inr (), d\<lparr>db_progress_checks := db_progress_checks d @
                     [\<lparr>pc_task_id = tid, pc_subtask_id = sid, pc_ts = clock d,
                       pc_attempts_at_check = attempts, pc_verdict = verdict,
                       pc_rationale = rationale\<rparr>]\<rparr>))"

definition get_recent_progress_checks ::
  "ident \<Rightarrow> string \<Rightarrow> nat \<Rightarrow> db \<Rightarrow> progress_check_row list" where
  "get_recent_progress_checks tid sid limit d =
     take limit (newest_first pc_ts
       (filter (\<lambda>p. pc_task_id p = tid \<and> pc_subtask_id p = sid) (db_progress_checks d)))"

definition recent_subtask_checker_outputs ::
  "ident \<Rightarrow> string \<Rightarrow> nat \<Rightarrow> db \<Rightarrow> string list" where
  "recent_subtask_checker_outputs tid sid limit d =
     rev (map ar_content (take limit (newest_first ar_ts
       (filter (\<lambda>a. ar_task_id a = tid \<and> ar_kind a = ''subtask_checker:'' @ sid)
          (db_artifacts d)))))"

definition latest_subtask_doer_output :: "ident \<Rightarrow> string \<Rightarrow> db \<Rightarrow> string option" where
  "latest_subtask_doer_output tid sid d =
     (case newest_first ar_ts
             (filter (\<lambda>a. ar_task_id a = tid \<and> ar_kind a = ''subtask_doer:'' @ sid)
                (db_artifacts d)) of
        [] \<Rightarrow> None
      | a # _ \<Rightarrow> if ar_content a = [] then None else Some (ar_content a))"

definition add_artifact :: "ident \<Rightarrow> string \<Rightarrow> string \<Rightarrow> bool \<Rightarrow> unit store_act" where
  "add_artifact tid kind content is_path =
     tx (py_modify (\<lambda>d. d\<lparr>db_artifacts := db_artifacts d @
           [\<lparr>ar_task_id = tid, ar_kind = kind, ar_content = content, ar_is_path = is_path,
             ar_ts = clock d\<rparr>]\<rparr>))"

section \<open>Invariants\<close>

lemma update_subtask_row_frame [simp]:
  "clock (update_subtask_row tid sid f d) = clock d"
  "db_tasks (update_subtask_row tid sid f d) = db_tasks d"
  "db_log (update_subtask_row tid sid f d) = db_log d"
  "db_agent_calls (update_subtask_row tid sid f d) = db_agent_calls d"
  "db_artifacts (update_subtask_row tid sid f d) = db_artifacts d"
  by (simp_all add: update_subtask_row_def)

lemma update_subtask_act_run [act_simps]:
  "update_subtask_act tid sid f d = (Inr (), update_subtask_row tid sid f d)"
  by (simp add: update_subtask_act_def py_modify_run)

lemma keeps_update_subtask_act [keeps_intros]: "keeps store_ok (update_subtask_act tid sid f)"
  unfolding update_subtask_act_def by (rule keeps_modify) (erule store_okI_frame, simp_all)

lemma counter_field_frame [simp]:
  "t_id (set_task_field (counter_field c i) r) = t_id r"
  by simp

lemma keeps_set_block_forensics [keeps_intros]: "keeps store_ok (set_block_forensics tid snap)"
  unfolding set_block_forensics_def by (intro keeps_intros) simp_all

lemma keeps_capture [keeps_intros]: "keeps store_ok (capture_block_forensics tid)"
  unfolding capture_block_forensics_def by (intro keeps_intros)

lemma keeps_set_field [keeps_intros]: "keeps store_ok (set_field tid kw)"
  unfolding set_field_def by (intro keeps_intros) simp_all

lemma keeps_reset_field [keeps_intros]: "keeps store_ok (reset_field tid f)"
  unfolding reset_field_def by (intro keeps_intros) simp_all

lemma keeps_increment [keeps_intros]: "keeps store_ok (increment tid c)"
  unfolding increment_def by (intro keeps_intros) simp_all

lemma keeps_tip_and_base [keeps_intros]:
  "keeps store_ok (set_last_observed_branch_tip_sha tid sha)"
  "keeps store_ok (set_parent_merge_base tid b sha')"
  unfolding set_last_observed_branch_tip_sha_def set_parent_merge_base_def
  by (intro keeps_intros; simp)+

lemma keeps_subtask_counters [keeps_intros]:
  "keeps store_ok (increment_subtask_pre_commit_failures tid sid)"
  "keeps store_ok (increment_subtask_flatline_count tid sid)"
  "keeps store_ok (reset_subtask_flatline_count tid sid)"
  "keeps store_ok (increment_subtask_transient_retries tid sid)"
  unfolding increment_subtask_pre_commit_failures_def increment_subtask_flatline_count_def
    reset_subtask_flatline_count_def increment_subtask_transient_retries_def
    read_subtask_counter_def
  by (intro keeps_intros)+

lemma keeps_append_retry_reason [keeps_intros]:
  "keeps store_ok (append_retry_reason tid sid attempt cat sig tr)"
  unfolding append_retry_reason_def by (intro keeps_intros) (auto intro!: keeps_intros simp: Let_def)

lemma keeps_add_artifact [keeps_intros]: "keeps store_ok (add_artifact tid k c p)"
  unfolding add_artifact_def by (intro keeps_intros keeps_modify) (erule store_okI_frame, simp_all)

lemma keeps_record_progress_check [keeps_intros]:
  "keeps store_ok (record_progress_check tid sid n v r)"
  unfolding record_progress_check_def
  by (intro keeps_intros) (auto intro!: keepsI elim: store_okI_frame)

section \<open>Retry history\<close>

lemma length_last_n [simp]: "length (last_n n xs) = min n (length xs)"
  by (simp add: last_n_def)

lemma last_n_snoc: "0 < n \<Longrightarrow> last_n n (xs @ [x]) = last_n (n - 1) xs @ [x]"
  by (simp add: last_n_def Suc_diff_le)

lemma last_n_all: "length xs \<le> n \<Longrightarrow> last_n n xs = xs"
  by (simp add: last_n_def)

lemma py_tail_last: "xs \<noteq> [] \<Longrightarrow> last (py_tail n xs) = last xs"
  by (auto simp: py_tail_def last_n_def)

lemma find_subtask_update:
  assumes "\<And>s. s_task_id (f s) = s_task_id s" and "\<And>s. s_subtask_id (f s) = s_subtask_id s"
  shows "find_subtask tid sid (update_subtask_row tid' sid' f d) =
     (if tid = tid' \<and> sid = sid'
      then map_option (\<lambda>s. (f s)\<lparr>s_updated_at := Some (clock d)\<rparr>) (find_subtask tid sid d)
      else find_subtask tid sid d)"
proof -
  have "List.find (\<lambda>s. s_task_id s = tid \<and> s_subtask_id s = sid)
      (map (\<lambda>s. if s_task_id s = tid' \<and> s_subtask_id s = sid'
                then (f s)\<lparr>s_updated_at := Some (clock d)\<rparr> else s) ss) =
    (if tid = tid' \<and> sid = sid'
     then map_option (\<lambda>s. (f s)\<lparr>s_updated_at := Some (clock d)\<rparr>)
            (List.find (\<lambda>s. s_task_id s = tid \<and> s_subtask_id s = sid) ss)
     else List.find (\<lambda>s. s_task_id s = tid \<and> s_subtask_id s = sid) ss)" for ss
    using assms by (induction ss) auto
  then show ?thesis by (simp add: find_subtask_def update_subtask_row_def)
qed

text \<open>The history after recording a reason: the old one and the new entry, cut to its last 50.\<close>

lemma retry_reasons_append:
  assumes "find_subtask tid sid d = Some s"
  shows "retry_reasons tid sid (snd (append_retry_reason tid sid attempt cat sig tr d)) =
     last_n 50 (retry_reasons tid sid d @
       [\<lparr>rr_attempt = attempt, rr_ts = clock d, rr_category = cat,
         rr_signature = take 200 sig, rr_transient = tr\<rparr>])"
  using assms
  by (auto simp: append_retry_reason_def retry_reasons_def act_simps Let_def find_subtask_update
      last_n_all split: option.splits)

section \<open>Properties\<close>

text \<open>
  The retry history is bounded and its window is current. After an attempt is recorded at most 50 reasons
  are kept, the newest is the recorded one, and a stop-loss window of any positive size ends with it when the failure
  was not transient.
\<close>

theorem retry_history_bounded:
  assumes "find_subtask tid sid d = Some s" and "0 < k"
  shows "let d' = snd (append_retry_reason tid sid attempt cat sig tr d)
    in length (retry_reasons tid sid d') \<le> 50 \<and>
       last (retry_reasons tid sid d') = \<lparr>rr_attempt = attempt, rr_ts = clock d, rr_category = cat,
         rr_signature = take 200 sig, rr_transient = tr\<rparr> \<and>
       length (last_n_retry_signatures tid sid k d') \<le> k \<and>
       (tr \<or> last (last_n_retry_signatures tid sid k d') = (cat, take 200 sig))"
proof -
  let ?new = "\<lparr>rr_attempt = attempt, rr_ts = clock d, rr_category = cat, rr_signature = take 200 sig,
    rr_transient = tr\<rparr>"
  let ?rr = "retry_reasons tid sid d" and ?d' = "snd (append_retry_reason tid sid attempt cat sig tr d)"
  have rr: "retry_reasons tid sid ?d' = last_n 49 ?rr @ [?new]"
    using retry_reasons_append [OF assms(1)] by (simp add: last_n_snoc)
  have "length (last_n_retry_signatures tid sid k ?d') \<le> k"
    using assms(2) by (simp add: last_n_retry_signatures_def py_tail_def)
  moreover have "tr \<or> last (last_n_retry_signatures tid sid k ?d') = (cat, take 200 sig)"
    unfolding last_n_retry_signatures_def rr by (cases tr) (simp_all add: py_tail_last)
  ultimately show ?thesis unfolding Let_def by (simp add: rr)
qed

definition demo_subtask_db :: db where
  "demo_subtask_db = (empty_db 7)\<lparr>db_subtasks :=
     [\<lparr>s_task_id = ''T1'', s_subtask_id = ''S1'', s_state = Sub_PENDING, s_title = None, s_depends_on = [],
       s_files_to_touch = [], s_boundary = None, s_acceptance = [], s_notes = None, s_retries = Some 0,
       s_last_error = None, s_triage_notes = None, s_commit_sha = None, s_transient_retries = Some 0,
       s_progress_check_count = Some 0, s_flatline_count = Some 0, s_last_failure_root_cause_hash = None,
       s_pre_commit_failures = Some 0, s_kind = ''spec'', s_retry_reasons = None, s_accepted_files = None,
       s_planning_cycle = 1, s_planning_kind = ''initial'', s_created_at = None, s_updated_at = None\<rparr>]\<rparr>"

theorem retry_history_bounded_witness:
  "let d' = snd (append_retry_reason ''T1'' ''S1'' 1 ''checker_fail'' ''sig'' False demo_subtask_db)
   in length (retry_reasons ''T1'' ''S1'' d') \<le> 50 \<and>
      last (retry_reasons ''T1'' ''S1'' d') = \<lparr>rr_attempt = 1, rr_ts = clock demo_subtask_db,
        rr_category = ''checker_fail'', rr_signature = take 200 ''sig'', rr_transient = False\<rparr> \<and>
      length (last_n_retry_signatures ''T1'' ''S1'' 3 d') \<le> 3 \<and>
      (False \<or> last (last_n_retry_signatures ''T1'' ''S1'' 3 d') = (''checker_fail'', take 200 ''sig''))"
proof -
  have "find_subtask ''T1'' ''S1'' demo_subtask_db = Some (hd (db_subtasks demo_subtask_db))"
    by (simp add: demo_subtask_db_def find_subtask_def)
  from retry_history_bounded [OF this, of 3 1 "''checker_fail''" "''sig''" False] show ?thesis by simp
qed

end
