(* ===== verification/StoreTasks.thy ===== *)
theory StoreTasks
  imports StoreForensics
begin

text \<open>
  \<^verbatim>\<open>quikode/store_tasks.py\<close>: task creation and seeding, the raw transition writer, event application, the
  phase writers, the state queries the scheduler reads, and the agent-call ledger. Every writer keeps
  \<^const>\<open>store_ok\<close>; the raw \<^verbatim>\<open>transition\<close> keeps it exactly for the edges \<^const>\<open>legal_edge\<close> lists.
\<close>

section \<open>Task lifecycle\<close>

definition upsert_pending :: "ident \<Rightarrow> unit store_act" where
  "upsert_pending tid =
     tx (py_bind (py_read (\<lambda>d. (clock d, select_state tid d)))
           (\<lambda>(now, r). case r of
              None \<Rightarrow> py_then (insert_task (new_task tid PENDING now))
                              (insert_log tid None PENDING None)
            | Some _ \<Rightarrow> py_return ()))"

definition transition :: "ident \<Rightarrow> state \<Rightarrow> string option \<Rightarrow> task_field list \<Rightarrow> unit store_act" where
  "transition tid new_state note kw =
     py_bind
       (tx (py_bind (py_read (select_state tid)) (\<lambda>from_state.
              py_then (update_task tid (\<lambda>r. set_task_fields kw (r\<lparr>t_state := new_state\<rparr>)))
                (py_then (insert_log tid from_state new_state note) (py_return from_state)))))
       (\<lambda>from_state.
          if new_state = BLOCKED \<and> from_state \<noteq> Some BLOCKED
          then py_catch (py_then (capture_block_forensics tid) (py_return ()))
                 (\<lambda>_. py_return ())
          else py_return ())"

text \<open>\<^verbatim>\<open>note or str(event)\<close>: an empty note counts as missing.\<close>

definition note_or :: "string option \<Rightarrow> string \<Rightarrow> string option" where
  "note_or note dflt =
     (case note of None \<Rightarrow> Some dflt | Some n \<Rightarrow> if n = [] then Some dflt else Some n)"

definition no_such_task :: "ident \<Rightarrow> py_error" where
  "no_such_task tid = InvalidTransition (''task does not exist: '' @ tid)"

definition apply_event ::
  "ident \<Rightarrow> event \<Rightarrow> string option \<Rightarrow> task_field list \<Rightarrow> state store_act" where
  "apply_event tid ev note kw =
     py_bind (py_read (find_task tid)) (\<lambda>row. case row of
        None \<Rightarrow> py_raise (no_such_task tid)
      | Some r \<Rightarrow>
          (case target_for_event (Member (t_state r)) (Member ev) of
             Inl x \<Rightarrow> py_raise x
           | Inr target \<Rightarrow>
               py_then (transition tid target (note_or note (event_value ev)) kw)
                 (py_return target)))"

definition seed_merged_node ::
  "ident \<Rightarrow> string \<Rightarrow> string \<Rightarrow> time option \<Rightarrow> unit store_act" where
  "seed_merged_node tid source evidence seeded_at =
     py_bind (py_read (\<lambda>d. case seeded_at of
                              None \<Rightarrow> clock d
                            | Some t \<Rightarrow> if t = 0 then clock d else t)) (\<lambda>now.
     let stamp = (\<lambda>r. r\<lparr>t_seed_source := Some source, t_seed_evidence := Some evidence,
                         t_seeded_at := Some now\<rparr>);
         note = Some (''seed-from-base:'' @ source)
     in tx (py_bind (py_read (select_state tid)) (\<lambda>cur. case cur of
          None \<Rightarrow> py_then (insert_task (stamp (new_task tid MERGED now)))
                          (insert_log tid None MERGED note)
        | Some s \<Rightarrow>
            if s = PENDING then
              py_then (update_task tid (\<lambda>r. stamp (r\<lparr>t_state := MERGED\<rparr>)))
                      (insert_log tid (Some PENDING) MERGED note)
            else if s = MERGED then py_return ()
            else py_raise (ValueError (''cannot seed '' @ tid @ '': task already exists in state '' @
                                       py_repr (state_value s))))))"

section \<open>Queries\<close>

text \<open>\<^verbatim>\<open>ORDER BY id\<close> over the primary key.\<close>

definition all_tasks :: "db \<Rightarrow> task_row list" where
  "all_tasks d = sort_key t_id (db_tasks d)"

definition in_state :: "state list \<Rightarrow> db \<Rightarrow> task_row list" where
  "in_state sts d = filter (\<lambda>r. t_state r \<in> set sts) (all_tasks d)"

definition subtask_progress :: "ident \<Rightarrow> db \<Rightarrow> nat \<times> nat" where
  "subtask_progress tid d =
     (let rows = filter (\<lambda>s. s_task_id s = tid) (db_subtasks d)
      in (length (filter (\<lambda>s. s_state s = Sub_DONE) rows), length rows))"

definition completed_ids :: "db \<Rightarrow> ident set" where
  "completed_ids d = set (map t_id (filter (\<lambda>r. t_state r = MERGED) (db_tasks d)))"

definition active_ids :: "db \<Rightarrow> ident set" where
  "active_ids d =
     set (map t_id (filter (\<lambda>r. t_state r \<notin>
        set [PENDING, MERGED, BLOCKED, FAILED, ABORTED, PENDING_CI]) (db_tasks d)))"

section \<open>Phases\<close>

definition enter_phase ::
  "ident \<Rightarrow> phase \<Rightarrow> int \<Rightarrow> pr_review_trigger \<Rightarrow> string option \<Rightarrow> unit store_act" where
  "enter_phase tid ph cycle trigger note =
     tx (py_bind (py_read (select_state tid)) (\<lambda>cur.
           py_then
             (update_task tid (\<lambda>r. r\<lparr>t_phase := ph, t_cycle_in_phase := cycle,
                                     t_pr_review_trigger := trigger\<rparr>))
             (case cur of
                None \<Rightarrow> py_raise (IntegrityError ''NOT NULL constraint failed: state_log.to_state'')
              | Some s \<Rightarrow>
                  insert_log tid cur s
                    (note_or note (''phase'' @ arrow @ phase_value ph @ '' cycle='' @ str_int cycle @
                                   '' trigger='' @ trigger_value trigger)))))"

definition increment_cycle_in_phase ::
  "ident \<Rightarrow> pr_review_trigger option \<Rightarrow> string option \<Rightarrow> int store_act" where
  "increment_cycle_in_phase tid trigger note =
     tx (py_bind (py_read (find_task tid)) (\<lambda>row. case row of
           None \<Rightarrow> py_raise (no_such_task tid)
         | Some r \<Rightarrow>
             let new_cycle = t_cycle_in_phase r + 1;
                 new_trigger = (case trigger of None \<Rightarrow> t_pr_review_trigger r | Some t \<Rightarrow> t)
             in py_then
                  (update_task tid (\<lambda>r. r\<lparr>t_cycle_in_phase := new_cycle,
                                          t_pr_review_trigger := new_trigger\<rparr>))
                  (py_then
                    (insert_log tid (Some (t_state r)) (t_state r)
                       (note_or note (''cycle_in_phase'' @ arrow @ str_int new_cycle @ '' trigger='' @
                                      trigger_value new_trigger)))
                    (py_return new_cycle))))"

section \<open>Agent-call ledger\<close>

definition insert_agent_call :: "(nat \<Rightarrow> time \<Rightarrow> agent_call) \<Rightarrow> nat store_act" where
  "insert_agent_call mk =
     (\<lambda>d. (Inr (db_next_call d),
           d\<lparr>db_agent_calls := db_agent_calls d @ [mk (db_next_call d) (clock d)],
             db_next_call := Suc (db_next_call d)\<rparr>))"

definition record_agent_call ::
  "ident \<Rightarrow> string \<Rightarrow> string \<Rightarrow> string option \<Rightarrow> int \<Rightarrow> time \<Rightarrow> int option \<Rightarrow> string option \<Rightarrow>
   int option \<Rightarrow> int option \<Rightarrow> int option \<Rightarrow> int option \<Rightarrow> int option \<Rightarrow> unit store_act" where
  "record_agent_call tid ph cli model rc dur used sid tin tout tread tcreate cost =
     tx (py_then
       (insert_agent_call (\<lambda>i now.
          \<lparr>a_id = i, a_task_id = tid, a_phase = ph, a_cli = cli, a_model = model, a_rc = Some rc,
            a_duration_s = Some dur, a_tokens_used = used, a_tokens_input = tin,
            a_tokens_output = tout, a_tokens_cached_read = tread,
            a_tokens_cached_creation = tcreate, a_cost_usd = cost, a_subtask_id = sid,
            a_started_at = Some now, a_status = ''running'', a_ts = now\<rparr>))
       (py_return ()))"

definition record_agent_call_started ::
  "ident \<Rightarrow> string \<Rightarrow> string \<Rightarrow> string option \<Rightarrow> string option \<Rightarrow> nat store_act" where
  "record_agent_call_started tid ph cli model sid =
     tx (insert_agent_call (\<lambda>i now.
          \<lparr>a_id = i, a_task_id = tid, a_phase = ph, a_cli = cli, a_model = model, a_rc = None,
            a_duration_s = None, a_tokens_used = None, a_tokens_input = None,
            a_tokens_output = None, a_tokens_cached_read = None,
            a_tokens_cached_creation = None, a_cost_usd = None, a_subtask_id = sid,
            a_started_at = Some now, a_status = ''running'', a_ts = now\<rparr>))"

definition update_calls :: "nat \<Rightarrow> (time \<Rightarrow> agent_call \<Rightarrow> agent_call) \<Rightarrow> unit store_act" where
  "update_calls i f =
     py_modify (\<lambda>d. d\<lparr>db_agent_calls :=
        map (\<lambda>a. if a_id a = i then f (clock d) a else a) (db_agent_calls d)\<rparr>)"

definition record_agent_call_finished ::
  "nat \<Rightarrow> int \<Rightarrow> time \<Rightarrow> int option \<Rightarrow> int option \<Rightarrow> int option \<Rightarrow> int option \<Rightarrow> int option \<Rightarrow>
   int option \<Rightarrow> unit store_act" where
  "record_agent_call_finished i rc dur used tin tout tread tcreate cost =
     tx (update_calls i (\<lambda>now a.
           a\<lparr>a_rc := Some rc, a_duration_s := Some dur, a_tokens_used := used,
             a_tokens_input := tin, a_tokens_output := tout, a_tokens_cached_read := tread,
             a_tokens_cached_creation := tcreate, a_cost_usd := cost, a_ts := now\<rparr>))"

definition update_agent_call_status :: "nat \<Rightarrow> string \<Rightarrow> unit store_act" where
  "update_agent_call_status i st = tx (update_calls i (\<lambda>_ a. a\<lparr>a_status := st\<rparr>))"

datatype flight_class = Flight_RUNNING | Flight_IDLE | Flight_NEVER

text \<open>\<^verbatim>\<open>ORDER BY id DESC LIMIT 1\<close>: the newest call of the task.\<close>

definition latest_call :: "ident \<Rightarrow> db \<Rightarrow> agent_call option" where
  "latest_call tid d = List.find (\<lambda>a. a_task_id a = tid) (rev (db_agent_calls d))"

definition agent_in_flight_status ::
  "ident \<Rightarrow> time option \<Rightarrow> db \<Rightarrow>
   flight_class \<times> string option \<times> time option \<times> int option \<times> string option" where
  "agent_in_flight_status tid now d =
     (let wall = (case now of None \<Rightarrow> clock d | Some t \<Rightarrow> t)
      in case latest_call tid d of
           None \<Rightarrow> (Flight_NEVER, None, None, None, None)
         | Some a \<Rightarrow>
             (case a_rc a of
                None \<Rightarrow>
                  let started = (case a_started_at a of None \<Rightarrow> a_ts a | Some t \<Rightarrow> t)
                  in (Flight_RUNNING, Some (a_phase a), Some (max 0 (wall - started)), None,
                      Some (a_status a))
              | Some rc \<Rightarrow>
                  (Flight_IDLE, Some (a_phase a), Some (max 0 (wall - a_ts a)), Some rc, None)))"

section \<open>History is preserved\<close>

lemma in_task_ids_iff: "tid \<in> set (task_ids d) \<longleftrightarrow> select_state tid d \<noteq> None"
  using find_task_None_iff [of tid d] by (auto simp: select_state_def)

lemma keeps_upsert_pending [keeps_intros]: "keeps store_ok (upsert_pending tid)"
proof (rule keepsI)
  fix d assume ok: "store_ok d"
  show "store_ok (snd (upsert_pending tid d))"
    using ok store_ok_create [OF ok, of tid "new_task tid PENDING (clock d)" PENDING None "clock d"]
    by (auto simp: upsert_pending_def act_simps in_task_ids_iff task_ids_def legal_edge.intros
        split: option.splits)
qed

text \<open>The database after the transaction of a transition, before the forensics snapshot.\<close>

definition moved_db :: "ident \<Rightarrow> state \<Rightarrow> state \<Rightarrow> string option \<Rightarrow> task_field list \<Rightarrow> db \<Rightarrow> db" where
  "moved_db tid s new_state note kw d =
     (update_row tid (\<lambda>r. set_task_fields kw (r\<lparr>t_state := new_state\<rparr>)) d)\<lparr>db_log := db_log d @
        [\<lparr>l_task_id = tid, l_from_state = Some s, l_to_state = new_state, l_note = note,
          l_ts = clock d\<rparr>]\<rparr>"

lemma store_ok_moved_db:
  "store_ok d \<Longrightarrow> select_state tid d = Some s \<Longrightarrow> legal_edge (Some s) t \<Longrightarrow>
   store_ok (moved_db tid s t note kw d)"
  unfolding moved_db_def by (rule store_ok_move) simp_all

lemma capture_run:
  "capture_block_forensics tid d =
     (Inr (block_snapshot tid d),
      update_row tid (\<lambda>r. r\<lparr>t_block_forensics := Some (block_snapshot tid d)\<rparr>) d)"
  by (simp add: capture_block_forensics_def set_block_forensics_def act_simps)

lemma transition_run:
  assumes "select_state tid d = Some s"
  shows "transition tid t note kw d =
    (Inr (), let d' = moved_db tid s t note kw d
             in if t = BLOCKED \<and> s \<noteq> BLOCKED
                then update_row tid (\<lambda>r. r\<lparr>t_block_forensics := Some (block_snapshot tid d')\<rparr>) d'
                else d')"
proof -
  have "tid \<in> set (task_ids d)" using assms by (simp add: in_task_ids_iff)
  then show ?thesis
    using assms by (simp add: transition_def act_simps moved_db_def capture_run Let_def)
qed

lemma transition_missing:
  "select_state tid d = None \<Longrightarrow>
   transition tid t note kw d = (Inl (IntegrityError ''FOREIGN KEY constraint failed''), d)"
  using in_task_ids_iff [of tid d] by (simp add: transition_def act_simps)

lemma store_ok_transition:
  assumes "store_ok d" and "\<And>s. select_state tid d = Some s \<Longrightarrow> legal_edge (Some s) t"
  shows "store_ok (snd (transition tid t note kw d))"
proof (cases "select_state tid d")
  case None
  with assms(1) show ?thesis by (simp add: transition_missing)
next
  case (Some s)
  then have "store_ok (moved_db tid s t note kw d)"
    using assms by (blast intro: store_ok_moved_db)
  then show ?thesis
    by (auto simp: transition_run [OF Some] Let_def intro!: store_ok_update_row)
qed

lemma select_state_moved_db:
  assumes "select_state tid d = Some s"
  shows "select_state x (moved_db tid s t note kw d) = (if x = tid then Some t else select_state x d)"
  using assms find_task_update_row [of "\<lambda>r. set_task_fields kw (r\<lparr>t_state := t\<rparr>)" x tid d]
  by (auto simp: moved_db_def select_state_def find_task_def update_row_def)

lemma select_state_transition:
  assumes "select_state tid d = Some s"
  shows "select_state x (snd (transition tid t note kw d)) =
     (if x = tid then Some t else select_state x d)"
  using select_state_moved_db [OF assms]
  by (simp add: transition_run [OF assms] Let_def select_state_update_row)

lemma apply_event_run:
  assumes "select_state tid d = Some s"
  shows "apply_event tid ev note kw d =
    (case target_of s ev of
       None \<Rightarrow> (Inl (InvalidTransition (''event '' @ py_repr (event_value ev) @
                  '' is not valid from state '' @ py_repr (state_value s))), d)
     | Some t \<Rightarrow> (Inr t, snd (transition tid t (note_or note (event_value ev)) kw d)))"
  using assms
  by (auto simp: apply_event_def act_simps select_state_def target_for_event_member transition_run
      Let_def split: option.splits)

lemma apply_event_missing:
  "select_state tid d = None \<Longrightarrow> apply_event tid ev note kw d = (Inl (no_such_task tid), d)"
  by (simp add: apply_event_def act_simps select_state_def)

lemma keeps_apply_event [keeps_intros]: "keeps store_ok (apply_event tid ev note kw)"
proof (rule keepsI)
  fix d assume ok: "store_ok d"
  show "store_ok (snd (apply_event tid ev note kw d))"
  proof (cases "select_state tid d")
    case None
    with ok show ?thesis by (simp add: apply_event_missing)
  next
    case (Some s)
    with ok show ?thesis
      by (auto simp: apply_event_run split: option.splits
          intro!: store_ok_transition legal_edge.intros)
  qed
qed

lemma fired_mark_merged: "legal_edge (Some PENDING) MERGED"
  by (rule legal_edge.fired [where e = Ev_MARK_MERGED]) code_simp

lemma keeps_seed [keeps_intros]: "keeps store_ok (seed_merged_node tid source evidence at)"
proof (rule keepsI)
  fix d assume ok: "store_ok d"
  define now where "now = (case at of None \<Rightarrow> clock d | Some t \<Rightarrow> if t = 0 then clock d else t)"
  define stamp where "stamp = (\<lambda>r :: task_row. r\<lparr>t_seed_source := Some source, t_seed_evidence := Some evidence,
    t_seeded_at := Some now\<rparr>)"
  note run = seed_merged_node_def act_simps Let_def now_def [symmetric]
  show "store_ok (snd (seed_merged_node tid source evidence at d))"
  proof (cases "select_state tid d")
    case None
    then have fresh: "tid \<notin> set (task_ids d)" by (simp add: in_task_ids_iff)
    have "store_ok (d\<lparr>db_tasks := db_tasks d @ [stamp (new_task tid MERGED now)], db_log := db_log d @
        [\<lparr>l_task_id = tid, l_from_state = None, l_to_state = MERGED,
          l_note = Some (''seed-from-base:'' @ source), l_ts = clock d\<rparr>]\<rparr>)"
      by (rule store_ok_create [OF ok fresh]) (simp_all add: stamp_def legal_edge.seeded)
    with None fresh show ?thesis by (simp add: run stamp_def task_ids_def)
  next
    case (Some s)
    then have known: "tid \<in> set (task_ids d)" by (simp add: in_task_ids_iff)
    have "store_ok ((update_row tid (\<lambda>r. stamp (r\<lparr>t_state := MERGED\<rparr>)) d)\<lparr>db_log := db_log d @
        [\<lparr>l_task_id = tid, l_from_state = Some PENDING, l_to_state = MERGED,
          l_note = Some (''seed-from-base:'' @ source), l_ts = clock d\<rparr>]\<rparr>)" if "s = PENDING"
      using ok Some that fired_mark_merged by (intro store_ok_move) (simp_all add: stamp_def)
    with ok Some known show ?thesis by (simp add: run stamp_def)
  qed
qed

text \<open>A phase note logs an edge from the current state to itself.\<close>

lemma store_ok_note:
  assumes "store_ok d" and "select_state tid d = Some s"
    and "\<And>r. t_id (f r) = t_id r" and "\<And>r. t_state (f r) = t_state r"
  shows "store_ok ((update_row tid f d)\<lparr>db_log := db_log d @
            [\<lparr>l_task_id = tid, l_from_state = Some s, l_to_state = s, l_note = n, l_ts = c\<rparr>]\<rparr>)"
    (is "store_ok ?d'")
proof -
  have sel: "select_state x ?d' = select_state x d" for x
    using select_state_update_row [of f x tid d] assms(3,4)
    by (simp add: select_state_def find_task_def)
  have "history_ok (select_state x ?d') (task_log x ?d')" for x
  proof (cases "x = tid")
    case True
    have "history_ok (Some s) (task_log tid d)"
      using assms(1,2) by (simp add: store_ok_def) (metis assms(2))
    then show ?thesis
      using history_snoc [where l = "\<lparr>l_task_id = tid, l_from_state = Some s, l_to_state = s,
          l_note = n, l_ts = c\<rparr>"] True assms(2)
      by (simp add: sel) (simp add: task_log_def legal_edge.noted)
  next
    case False
    with assms(1) show ?thesis by (simp add: sel store_ok_def) (simp add: task_log_def)
  qed
  moreover have "task_ids ?d' = task_ids d"
    using assms(3) by (simp add: task_ids_def update_row_def)
  ultimately show ?thesis using assms(1) by (simp add: store_ok_def)
qed

lemma keeps_enter_phase [keeps_intros]: "keeps store_ok (enter_phase tid ph c tr note)"
proof (rule keepsI)
  fix d assume ok: "store_ok d"
  show "store_ok (snd (enter_phase tid ph c tr note d))"
  proof (cases "select_state tid d")
    case None
    with ok show ?thesis by (simp add: enter_phase_def act_simps)
  next
    case (Some s)
    with ok show ?thesis
      by (simp add: enter_phase_def act_simps in_task_ids_iff store_ok_note)
  qed
qed

lemma keeps_increment_cycle [keeps_intros]: "keeps store_ok (increment_cycle_in_phase tid tr note)"
proof (rule keepsI)
  fix d assume ok: "store_ok d"
  show "store_ok (snd (increment_cycle_in_phase tid tr note d))"
  proof (cases "find_task tid d")
    case None
    with ok show ?thesis by (simp add: increment_cycle_in_phase_def act_simps)
  next
    case (Some r)
    then have "select_state tid d = Some (t_state r)" by (simp add: select_state_def)
    with ok Some show ?thesis
      by (simp add: increment_cycle_in_phase_def act_simps in_task_ids_iff Let_def store_ok_note)
  qed
qed

lemma keeps_agent_ledger [keeps_intros]:
  "keeps store_ok (record_agent_call_started tid ph cli model sid)"
  "keeps store_ok (record_agent_call tid ph cli model rc dur used sid tin tout tread tcreate cost)"
  "keeps store_ok (record_agent_call_finished i rc dur used tin tout tread tcreate cost)"
  "keeps store_ok (update_agent_call_status i st)"
proof -
  have insert: "keeps store_ok (insert_agent_call mk)" for mk
    by (rule keepsI) (simp add: insert_agent_call_def store_okI_frame)
  have update: "keeps store_ok (update_calls i f)" for i f
    unfolding update_calls_def by (rule keeps_modify) (erule store_okI_frame, simp_all)
  show "keeps store_ok (record_agent_call_started tid ph cli model sid)"
    and "keeps store_ok (record_agent_call tid ph cli model rc dur used sid tin tout tread tcreate cost)"
    and "keeps store_ok (record_agent_call_finished i rc dur used tin tout tread tcreate cost)"
    and "keeps store_ok (update_agent_call_status i st)"
    unfolding record_agent_call_started_def record_agent_call_def record_agent_call_finished_def
      update_agent_call_status_def
    by (intro keeps_intros insert update)+
qed

section \<open>Properties\<close>

text \<open>
  C9: an event is atomic. A rejected event leaves the database as it was; an accepted one takes an edge of the
  table, moves this task and no other, and appends exactly one row to the log.
\<close>

theorem apply_event_atomic:
  "case apply_event tid ev n kw d of
     (Inl e, d') \<Rightarrow> d' = d
   | (Inr t, d') \<Rightarrow> \<exists>s. select_state tid d = Some s \<and> target_of s ev = Some t \<and>
       select_state x d' = (if x = tid then Some t else select_state x d) \<and>
       db_log d' = db_log d @ [\<lparr>l_task_id = tid, l_from_state = Some s, l_to_state = t,
                               l_note = note_or n (event_value ev), l_ts = clock d\<rparr>]"
proof (cases "select_state tid d")
  case None
  then show ?thesis by (simp add: apply_event_missing)
next
  case (Some s)
  have "db_log (snd (transition tid t m kw d)) = db_log d @ [\<lparr>l_task_id = tid, l_from_state = Some s,
      l_to_state = t, l_note = m, l_ts = clock d\<rparr>]" for t m
    by (simp add: transition_run [OF Some] Let_def moved_db_def)
  with Some show ?thesis
    by (simp add: apply_event_run select_state_transition split: option.splits)
qed

end
