(* ===== verification/StoreSubtasks.thy ===== *)
theory StoreSubtasks
  imports StoreTasks "HOL-Library.Product_Lexorder"
begin

text \<open>
  \<^verbatim>\<open>quikode/store_subtasks.py\<close> and \<^verbatim>\<open>quikode/store_planning_cycle.py\<close>: the subtask table with its planning
  cycles, rewind and repair, resource samples, intent review, the merge-node rows and the parent
  linkage, and the pre-PR audit summary. \<open>subtasks_ok\<close> is the table's unique key. A subtask
  dictionary is a record whose optional keys are options.
\<close>

section \<open>Subtask rows\<close>

record subtask_spec =
  sp_subtask_id :: string
  sp_title :: "string option"
  sp_depends_on :: "string list option"
  sp_files_to_touch :: "string list option"
  sp_boundary :: "string option"
  sp_acceptance :: "string list option"
  sp_notes :: "string option"
  sp_kind :: "string option"
  sp_planning_cycle :: "int option"
  sp_planning_kind :: "string option"

definition get_default :: "'a option \<Rightarrow> 'a \<Rightarrow> 'a" where
  "get_default x dflt = (case x of None \<Rightarrow> dflt | Some v \<Rightarrow> v)"

definition spec_row :: "ident \<Rightarrow> subtask_spec \<Rightarrow> int \<Rightarrow> string \<Rightarrow> time \<Rightarrow> subtask_row" where
  "spec_row tid s cycle kind now =
     \<lparr>s_task_id = tid, s_subtask_id = sp_subtask_id s, s_state = Sub_PENDING,
      s_title = Some (get_default (sp_title s) []),
      s_depends_on = get_default (sp_depends_on s) [],
      s_files_to_touch = get_default (sp_files_to_touch s) [],
      s_boundary = Some (get_default (sp_boundary s) []),
      s_acceptance = get_default (sp_acceptance s) [],
      s_notes = Some (get_default (sp_notes s) []), s_retries = Some 0, s_last_error = None,
      s_triage_notes = None, s_commit_sha = None, s_transient_retries = Some 0,
      s_progress_check_count = Some 0, s_flatline_count = Some 0,
      s_last_failure_root_cause_hash = None, s_pre_commit_failures = Some 0,
      s_kind = get_default (sp_kind s) ''spec'', s_retry_reasons = None, s_accepted_files = None,
      s_planning_cycle = get_default (sp_planning_cycle s) cycle,
      s_planning_kind = get_default (sp_planning_kind s) kind,
      s_created_at = Some now, s_updated_at = Some now\<rparr>"

definition subtask_key :: "subtask_row \<Rightarrow> ident \<times> string" where
  "subtask_key s = (s_task_id s, s_subtask_id s)"

text \<open>\<^verbatim>\<open>UNIQUE(task_id, subtask_id)\<close>.\<close>

definition insert_subtask :: "subtask_row \<Rightarrow> unit store_act" where
  "insert_subtask s =
     (\<lambda>d. if subtask_key s \<in> set (map subtask_key (db_subtasks d))
          then (Inl (IntegrityError ''UNIQUE constraint failed: subtasks''), d)
          else (Inr (), d\<lparr>db_subtasks := db_subtasks d @ [s]\<rparr>))"

fun insert_subtasks :: "subtask_row list \<Rightarrow> unit store_act" where
  "insert_subtasks [] = py_return ()"
| "insert_subtasks (s # ss) = py_then (insert_subtask s) (insert_subtasks ss)"

definition upsert_subtasks ::
  "ident \<Rightarrow> subtask_spec list \<Rightarrow> int \<Rightarrow> string \<Rightarrow> unit store_act" where
  "upsert_subtasks tid specs cycle kind =
     tx (py_bind (py_read clock) (\<lambda>now.
          py_then
            (py_modify (\<lambda>d. d\<lparr>db_subtasks := filter (\<lambda>s. s_task_id s \<noteq> tid) (db_subtasks d)\<rparr>))
            (insert_subtasks (map (\<lambda>s. spec_row tid s cycle kind now) specs))))"

definition task_subtasks :: "ident \<Rightarrow> db \<Rightarrow> subtask_row list" where
  "task_subtasks tid d = filter (\<lambda>s. s_task_id s = tid) (db_subtasks d)"

text \<open>\<^verbatim>\<open>COALESCE(MAX(planning_cycle), 0)\<close>.\<close>

definition max_cycle :: "ident \<Rightarrow> db \<Rightarrow> int" where
  "max_cycle tid d = or0 (max_option (map s_planning_cycle (task_subtasks tid d)))"

definition append_subtasks ::
  "ident \<Rightarrow> subtask_spec list \<Rightarrow> int option \<Rightarrow> string \<Rightarrow> unit store_act" where
  "append_subtasks tid specs cycle kind =
     tx (py_bind
           (py_read (\<lambda>d. (clock d, map s_subtask_id (task_subtasks tid d), max_cycle tid d)))
           (\<lambda>(now, existing, m).
              let effective_cycle = (case cycle of None \<Rightarrow> m + 1 | Some c \<Rightarrow> c);
                  fresh = filter (\<lambda>s. sp_subtask_id s \<notin> set existing) specs
              in insert_subtasks (map (\<lambda>s. spec_row tid s effective_cycle kind now) fresh)))"

definition list_subtasks :: "ident \<Rightarrow> db \<Rightarrow> subtask_row list" where
  "list_subtasks tid d = task_subtasks tid d"

definition get_subtask :: "ident \<Rightarrow> string \<Rightarrow> db \<Rightarrow> subtask_row option" where
  "get_subtask tid sid d = find_subtask tid sid d"

definition update_subtask :: "ident \<Rightarrow> string \<Rightarrow> subtask_field list \<Rightarrow> unit store_act" where
  "update_subtask tid sid kw =
     (if kw = [] then py_return () else tx (update_subtask_act tid sid (fold set_subtask_field kw)))"

definition repair_stale_skipped_subtasks :: "(ident \<times> string) list store_act" where
  "repair_stale_skipped_subtasks =
     tx (py_bind
           (py_read (\<lambda>d. sort (map subtask_key
                            (filter (\<lambda>s. s_state s = Sub_SKIPPED) (db_subtasks d)))))
           (\<lambda>rows. py_then
              (py_modify (\<lambda>d. d\<lparr>db_subtasks :=
                 map (\<lambda>s. if s_state s = Sub_SKIPPED
                          then s\<lparr>s_state := Sub_PENDING, s_updated_at := Some (clock d)\<rparr> else s)
                   (db_subtasks d)\<rparr>))
              (py_return rows)))"

definition reset_subtask_for_rewind :: "ident \<Rightarrow> string \<Rightarrow> unit store_act" where
  "reset_subtask_for_rewind tid sid =
     tx (update_subtask_act tid sid
          (\<lambda>s. s\<lparr>s_state := Sub_PENDING, s_retries := Some 0, s_transient_retries := Some 0,
                 s_flatline_count := Some 0, s_triage_notes := None, s_last_error := None,
                 s_commit_sha := None, s_retry_reasons := None, s_accepted_files := None,
                 s_pre_commit_failures := Some 0, s_progress_check_count := Some 0\<rparr>))"

definition increment_subtask_retries :: "ident \<Rightarrow> string \<Rightarrow> int store_act" where
  "increment_subtask_retries tid sid =
     tx (py_then
           (update_subtask_act tid sid (\<lambda>s. s\<lparr>s_retries := Some (or0 (s_retries s) + 1)\<rparr>))
           (read_subtask_counter tid sid s_retries))"

section \<open>Resources, cost and intent review\<close>

definition record_container_stats ::
  "ident \<Rightarrow> string \<Rightarrow> int option \<Rightarrow> int option \<Rightarrow> int option \<Rightarrow> unit store_act" where
  "record_container_stats tid nm cpu mem pct =
     tx (py_modify (\<lambda>d. d\<lparr>db_container_stats := db_container_stats d @
          [\<lparr>cs_task_id = tid, cs_container_name = nm, cs_cpu_pct = cpu, cs_mem_bytes = mem,
            cs_mem_pct = pct, cs_ts = clock d\<rparr>]\<rparr>))"

text \<open>\<^verbatim>\<open>SUM\<close> ignores NULL and is NULL over no values.\<close>

definition sum_option :: "int option list \<Rightarrow> int option" where
  "sum_option xs =
     (case [v. Some v \<leftarrow> xs] of [] \<Rightarrow> None | v # vs \<Rightarrow> Some (sum_list (v # vs)))"

definition task_total_cost_usd :: "ident \<Rightarrow> db \<Rightarrow> int option" where
  "task_total_cost_usd tid d =
     sum_option (map a_cost_usd (filter (\<lambda>a. a_task_id a = tid) (db_agent_calls d)))"

definition workspace_total_cost_usd :: "db \<Rightarrow> int option" where
  "workspace_total_cost_usd d = sum_option (map a_cost_usd (db_agent_calls d))"

definition task_max_rss :: "ident \<Rightarrow> db \<Rightarrow> int option" where
  "task_max_rss tid d =
     (case max_option [v. Some v \<leftarrow> map cs_mem_bytes
              (filter (\<lambda>c. cs_task_id c = tid) (db_container_stats d))] of
        None \<Rightarrow> None
      | Some m \<Rightarrow> if m = 0 then None else Some m)"

definition latest_container_stats :: "ident \<Rightarrow> db \<Rightarrow> container_stats_row option" where
  "latest_container_stats tid d =
     (case newest_first cs_ts (filter (\<lambda>c. cs_task_id c = tid) (db_container_stats d)) of
        [] \<Rightarrow> None
      | c # _ \<Rightarrow> Some c)"

definition flag_intent_review :: "ident \<Rightarrow> unit store_act" where
  "flag_intent_review tid = update_task tid (\<lambda>r. r\<lparr>t_needs_intent_review := Some 1\<rparr>)"

definition mark_needs_intent_review :: "ident list \<Rightarrow> unit store_act" where
  "mark_needs_intent_review tids =
     (if tids = [] then py_return ()
      else tx (py_then (py_for tids flag_intent_review) (py_return ())))"

definition clear_intent_review_flag :: "ident \<Rightarrow> unit store_act" where
  "clear_intent_review_flag tid =
     tx (py_bind (py_read clock) (\<lambda>now.
          update_task tid (\<lambda>r. r\<lparr>t_needs_intent_review := Some 0, t_last_intent_review_ts := Some now,
                                 t_intent_review_count := Some (or0 (t_intent_review_count r) + 1)\<rparr>)))"

definition record_intent_review ::
  "ident \<Rightarrow> string option \<Rightarrow> string option \<Rightarrow> string option \<Rightarrow> string \<Rightarrow> string \<Rightarrow> string \<Rightarrow> string \<Rightarrow>
   unit store_act" where
  "record_intent_review tid merged before after verdict expl areas raw =
     tx (py_modify (\<lambda>d. d\<lparr>db_intent_reviews := db_intent_reviews d @
          [\<lparr>ir_task_id = tid, ir_triggered_by_merge_of = merged, ir_main_sha_before = before,
            ir_main_sha_after = after, ir_verdict = verdict, ir_explanation = expl,
            ir_affected_areas = areas, ir_raw_output = raw, ir_ts = clock d\<rparr>]\<rparr>))"

section \<open>Parent linkage and merge-node rows\<close>

definition nonempty_strings :: "string list option \<Rightarrow> string list" where
  "nonempty_strings col = (case col of None \<Rightarrow> [] | Some xs \<Rightarrow> filter (\<lambda>x. x \<noteq> []) xs)"

definition get_parent_task_ids :: "ident \<Rightarrow> db \<Rightarrow> ident list" where
  "get_parent_task_ids tid d =
     nonempty_strings (Option.bind (find_task tid d) t_parent_task_ids)"

definition get_parent_branches :: "ident \<Rightarrow> db \<Rightarrow> string list" where
  "get_parent_branches tid d =
     nonempty_strings (Option.bind (find_task tid d) t_parent_branches)"

text \<open>The list rendering \<^verbatim>\<open>f"{parent_task_ids}"\<close>.\<close>

fun py_list_body :: "string list \<Rightarrow> string" where
  "py_list_body [] = []"
| "py_list_body [x] = py_repr x"
| "py_list_body (x # y # xs) = py_repr x @ '', '' @ py_list_body (y # xs)"

definition create_merge_node ::
  "ident \<Rightarrow> ident list \<Rightarrow> string list \<Rightarrow> string \<Rightarrow> unit store_act" where
  "create_merge_node mn parents branches br =
     tx (py_bind (py_read clock) (\<lambda>now.
          py_then
            (insert_task ((new_task mn PENDING now)\<lparr>
               t_kind := Kind_MERGE, t_branch := Some br, t_parent_task_ids := Some parents,
               t_parent_branches := Some branches, t_parent_pr_branches := Some branches\<rparr>))
            (insert_log mn None PENDING
               (Some (''merge-node created for parents=['' @ py_list_body parents @ '']'')))))"

definition merge_nodes_with_parent :: "ident \<Rightarrow> db \<Rightarrow> task_row list" where
  "merge_nodes_with_parent p d =
     filter (\<lambda>r. t_kind r = Kind_MERGE \<and>
                 t_state r \<notin> set [MERGE_NODE_RETIRED, BLOCKED, FAILED, ABORTED] \<and>
                 (case t_parent_task_ids r of None \<Rightarrow> False | Some ids \<Rightarrow> p \<in> set ids))
       (all_tasks d)"

fun index_of :: "'a \<Rightarrow> 'a list \<Rightarrow> nat" where
  "index_of x [] = 0"
| "index_of x (y # ys) = (if x = y then 0 else Suc (index_of x ys))"

text \<open>\<^verbatim>\<open>if idx < len(xs): xs.pop(idx)\<close>.\<close>

definition pop_at :: "nat \<Rightarrow> 'a list \<Rightarrow> 'a list" where
  "pop_at i xs = (if i < length xs then take i xs @ drop (Suc i) xs else xs)"

definition prune_merge_node_parent :: "ident \<Rightarrow> ident \<Rightarrow> ident list store_act" where
  "prune_merge_node_parent mn p =
     tx (py_bind (py_read (find_task mn)) (\<lambda>row. case row of
          None \<Rightarrow> py_return []
        | Some r \<Rightarrow>
            (case t_parent_task_ids r of
               None \<Rightarrow> py_return []
             | Some ids \<Rightarrow>
                 if p \<notin> set ids then py_return ids
                 else
                   let i = index_of p ids;
                       ids' = pop_at i ids;
                       branches = pop_at i (get_default (t_parent_branches r) []);
                       pr_branches = pop_at i (get_default (t_parent_pr_branches r) [])
                   in py_then
                        (update_task mn (\<lambda>r. r\<lparr>t_parent_task_ids := Some ids',
                           t_parent_branches := Some branches,
                           t_parent_pr_branches := Some pr_branches\<rparr>))
                        (py_return ids'))))"

definition all_parents_merged :: "ident \<Rightarrow> db \<Rightarrow> bool" where
  "all_parents_merged tid d =
     (let parents = get_parent_task_ids tid d;
          rows = filter (\<lambda>r. t_id r \<in> set parents) (db_tasks d)
      in parents \<noteq> [] \<and> length rows = length parents \<and> list_all (\<lambda>r. t_state r = MERGED) rows)"

definition set_parent_chain ::
  "ident \<Rightarrow> ident list \<Rightarrow> string list option \<Rightarrow> string list option \<Rightarrow> unit store_act" where
  "set_parent_chain tid ids branches pr_branches =
     tx (update_task tid (\<lambda>r. r\<lparr>t_parent_task_ids := Some ids,
           t_parent_branches := Some (get_default branches []),
           t_parent_pr_branches := Some (get_default pr_branches [])\<rparr>))"

section \<open>Planning cycles\<close>

definition latest_planning_cycle :: "ident \<Rightarrow> db \<Rightarrow> int \<times> string option" where
  "latest_planning_cycle tid d =
     (case max_option (map s_planning_cycle (task_subtasks tid d)) of
        None \<Rightarrow> (0, None)
      | Some m \<Rightarrow>
          (m, map_option s_planning_kind
                (List.find (\<lambda>s. s_planning_cycle s = m) (task_subtasks tid d))))"

definition subtasks_in_cycle :: "ident \<Rightarrow> int \<Rightarrow> db \<Rightarrow> subtask_row list" where
  "subtasks_in_cycle tid cycle d = filter (\<lambda>s. s_planning_cycle s = cycle) (task_subtasks tid d)"

definition delete_subtasks_in_cycle :: "ident \<Rightarrow> int \<Rightarrow> nat store_act" where
  "delete_subtasks_in_cycle tid cycle =
     tx (py_bind (py_read (\<lambda>d. length (subtasks_in_cycle tid cycle d))) (\<lambda>n.
          py_then
            (py_modify (\<lambda>d. d\<lparr>db_subtasks :=
               filter (\<lambda>s. \<not> (s_task_id s = tid \<and> s_planning_cycle s = cycle)) (db_subtasks d)\<rparr>))
            (py_return n)))"

definition get_pre_pr_audit_summary :: "ident \<Rightarrow> db \<Rightarrow> audit_summary option" where
  "get_pre_pr_audit_summary tid d = Option.bind (find_task tid d) t_pre_pr_audit_summary"

definition queued_stage :: "string \<Rightarrow> audit_stage" where
  "queued_stage n = \<lparr>as_name = n, as_passed = None, as_summary = ''queued''\<rparr>"

definition seeded_summary :: "int \<Rightarrow> time \<Rightarrow> audit_summary" where
  "seeded_summary cycle now =
     \<lparr>sum_cycle = cycle, sum_ts = now,
      sum_stages = map queued_stage
        [''local_ci'', ''rubric'', ''standards'', ''architecture'', ''behavior'']\<rparr>"

definition write_summary :: "ident \<Rightarrow> audit_summary \<Rightarrow> unit store_act" where
  "write_summary tid s = tx (update_task tid (\<lambda>r. r\<lparr>t_pre_pr_audit_summary := Some s\<rparr>))"

definition begin_pre_pr_audit_cycle :: "ident \<Rightarrow> int \<Rightarrow> unit store_act" where
  "begin_pre_pr_audit_cycle tid cycle =
     py_bind (py_read clock) (\<lambda>now. write_summary tid (seeded_summary cycle now))"

text \<open>The first stage with the name is overwritten; without one, a stage is appended.\<close>

fun put_stage :: "string \<Rightarrow> bool \<Rightarrow> string \<Rightarrow> audit_stage list \<Rightarrow> audit_stage list" where
  "put_stage nm passed summary [] =
     [\<lparr>as_name = nm, as_passed = Some passed, as_summary = take 300 summary\<rparr>]"
| "put_stage nm passed summary (s # ss) =
     (if as_name s = nm
      then s\<lparr>as_passed := Some passed, as_summary := take 300 summary\<rparr> # ss
      else s # put_stage nm passed summary ss)"

definition update_pre_pr_audit_stage ::
  "ident \<Rightarrow> int \<Rightarrow> string \<Rightarrow> bool \<Rightarrow> string \<Rightarrow> unit store_act" where
  "update_pre_pr_audit_stage tid cycle nm passed summary =
     py_bind (py_read (get_pre_pr_audit_summary tid)) (\<lambda>existing.
     py_then
       (if (case existing of None \<Rightarrow> True | Some s \<Rightarrow> sum_cycle s \<noteq> cycle)
        then begin_pre_pr_audit_cycle tid cycle else py_return ())
       (py_bind (py_read (\<lambda>d. (clock d, get_pre_pr_audit_summary tid d))) (\<lambda>(now, cur).
          case cur of
            None \<Rightarrow> py_return ()
          | Some s \<Rightarrow>
              write_summary tid (s\<lparr>sum_stages := put_stage nm passed summary (sum_stages s),
                                   sum_ts := now\<rparr>))))"

section \<open>Invariants\<close>

definition subtasks_ok :: "db \<Rightarrow> bool" where
  "subtasks_ok d \<longleftrightarrow> distinct (map subtask_key (db_subtasks d))"

text \<open>Writers of the subtask table leave tasks and history alone.\<close>

lemma keeps_store_ok_subtask_table:
  "keeps store_ok (py_modify (\<lambda>d. d\<lparr>db_subtasks := f d\<rparr>))"
  by (rule keeps_modify) (erule store_okI_frame, simp_all)

lemma keeps_insert_subtask: "keeps store_ok (insert_subtask s)"
  by (rule keepsI) (auto simp: insert_subtask_def elim: store_okI_frame)

lemma keeps_insert_subtasks: "keeps store_ok (insert_subtasks rows)"
  by (induction rows) (simp_all add: keeps_intros keeps_insert_subtask)

lemma keeps_subtask_writers [keeps_intros]:
  "keeps store_ok (upsert_subtasks tid specs cycle kind)"
  "keeps store_ok (append_subtasks tid specs cycle' kind)"
  "keeps store_ok (update_subtask tid sid kw)"
  "keeps store_ok repair_stale_skipped_subtasks"
  "keeps store_ok (reset_subtask_for_rewind tid sid)"
  "keeps store_ok (increment_subtask_retries tid sid)"
  "keeps store_ok (delete_subtasks_in_cycle tid c)"
  unfolding upsert_subtasks_def append_subtasks_def update_subtask_def
    repair_stale_skipped_subtasks_def reset_subtask_for_rewind_def increment_subtask_retries_def
    delete_subtasks_in_cycle_def read_subtask_counter_def
  by (auto intro!: keeps_intros keeps_insert_subtasks keeps_store_ok_subtask_table simp: Let_def)

lemma keeps_flag [keeps_intros]: "keeps store_ok (flag_intent_review tid)"
  unfolding flag_intent_review_def by (intro keeps_intros) simp_all

lemma keeps_task_writers [keeps_intros]:
  "keeps store_ok (mark_needs_intent_review tids)"
  "keeps store_ok (clear_intent_review_flag tid)"
  "keeps store_ok (set_parent_chain tid ids brs prs)"
  "keeps store_ok (prune_merge_node_parent tid p)"
  "keeps store_ok (write_summary tid s)"
  "keeps store_ok (begin_pre_pr_audit_cycle tid c)"
  "keeps store_ok (update_pre_pr_audit_stage tid c nm b summ)"
proof -
  have wr: "keeps store_ok (write_summary tid s)" for s
    unfolding write_summary_def by (intro keeps_intros) simp_all
  have seed: "keeps store_ok (begin_pre_pr_audit_cycle tid c)"
    unfolding begin_pre_pr_audit_cycle_def by (intro keeps_intros wr)
  show "keeps store_ok (write_summary tid s)" and "keeps store_ok (begin_pre_pr_audit_cycle tid c)"
    by (fact wr seed)+
  show "keeps store_ok (mark_needs_intent_review tids)"
    "keeps store_ok (clear_intent_review_flag tid)"
    "keeps store_ok (set_parent_chain tid ids brs prs)"
    "keeps store_ok (prune_merge_node_parent tid p)"
    unfolding mark_needs_intent_review_def clear_intent_review_flag_def set_parent_chain_def
      prune_merge_node_parent_def
    by (auto intro!: keeps_intros simp: Let_def split: option.splits)
  show "keeps store_ok (update_pre_pr_audit_stage tid c nm b summ)"
    unfolding update_pre_pr_audit_stage_def
    by (auto intro!: keeps_intros wr seed split: option.splits)
qed

lemma keeps_samples [keeps_intros]:
  "keeps store_ok (record_container_stats tid nm cpu mem pct)"
  "keeps store_ok (record_intent_review tid m b a v e ar raw)"
  unfolding record_container_stats_def record_intent_review_def
  by (intro keeps_intros keeps_modify; erule store_okI_frame; simp)+

lemma keeps_create_merge_node [keeps_intros]: "keeps store_ok (create_merge_node mn ps brs br)"
proof (rule keepsI)
  fix d assume ok: "store_ok d"
  show "store_ok (snd (create_merge_node mn ps brs br d))"
  proof (cases "mn \<in> set (task_ids d)")
    case True
    with ok show ?thesis by (simp add: create_merge_node_def act_simps)
  next
    case False
    then show ?thesis
      using store_ok_create [OF ok False, of "(new_task mn PENDING (clock d))\<lparr>
          t_kind := Kind_MERGE, t_branch := Some br, t_parent_task_ids := Some ps,
          t_parent_branches := Some brs, t_parent_pr_branches := Some brs\<rparr>" PENDING
          "Some (''merge-node created for parents=['' @ py_list_body ps @ '']'')" "clock d"]
      by (simp add: create_merge_node_def act_simps legal_edge.created task_ids_def)
  qed
qed

section \<open>Subtask batches\<close>

lemma insert_subtasks_ok:
  assumes "distinct (map subtask_key rows)"
    and "set (map subtask_key rows) \<inter> set (map subtask_key (db_subtasks d)) = {}"
  shows "insert_subtasks rows d = (Inr (), d\<lparr>db_subtasks := db_subtasks d @ rows\<rparr>)"
  using assms
proof (induction rows arbitrary: d)
  case Nil
  then show ?case by (simp add: act_simps)
next
  case (Cons s rows)
  let ?d1 = "d\<lparr>db_subtasks := db_subtasks d @ [s]\<rparr>"
  have "insert_subtasks rows ?d1 = (Inr (), ?d1\<lparr>db_subtasks := db_subtasks ?d1 @ rows\<rparr>)"
    using Cons.prems by (intro Cons.IH) auto
  with Cons.prems show ?case by (auto simp: act_simps insert_subtask_def)
qed

lemma insert_subtasks_dup:
  assumes "\<not> (distinct (map subtask_key rows) \<and>
              set (map subtask_key rows) \<inter> set (map subtask_key (db_subtasks d)) = {})"
  shows "fst (insert_subtasks rows d) = Inl (IntegrityError ''UNIQUE constraint failed: subtasks'')"
  using assms
proof (induction rows arbitrary: d)
  case Nil
  then show ?case by simp
next
  case (Cons s rows)
  let ?d1 = "d\<lparr>db_subtasks := db_subtasks d @ [s]\<rparr>"
  show ?case
  proof (cases "subtask_key s \<in> set (map subtask_key (db_subtasks d))")
    case True
    then show ?thesis by (simp add: act_simps insert_subtask_def)
  next
    case False
    have "fst (insert_subtasks rows ?d1) =
        Inl (IntegrityError ''UNIQUE constraint failed: subtasks'')"
      using Cons.prems False by (intro Cons.IH) auto
    with False show ?thesis by (auto simp: act_simps insert_subtask_def)
  qed
qed

lemma spec_row_simps [simp]:
  "s_task_id (spec_row tid s c k now) = tid"
  "s_subtask_id (spec_row tid s c k now) = sp_subtask_id s"
  "s_state (spec_row tid s c k now) = Sub_PENDING"
  "s_planning_cycle (spec_row tid s c k now) = get_default (sp_planning_cycle s) c"
  "s_planning_kind (spec_row tid s c k now) = get_default (sp_planning_kind s) k"
  "subtask_key (spec_row tid s c k now) = (tid, sp_subtask_id s)"
  by (simp_all add: spec_row_def subtask_key_def)

lemma task_subtask_keys:
  "set (map subtask_key (db_subtasks d)) \<inter> {(tid, i) | i. i \<in> A} = {} \<longleftrightarrow>
   A \<inter> set (map s_subtask_id (task_subtasks tid d)) = {}"
  by (force simp: task_subtasks_def subtask_key_def)

text \<open>Appending ids that are new to the task and distinct: the table grows by exactly these rows.\<close>

lemma append_subtasks_run:
  assumes "distinct (map sp_subtask_id specs)"
    and "set (map sp_subtask_id specs) \<inter> set (map s_subtask_id (task_subtasks tid d)) = {}"
  shows "append_subtasks tid specs cycle kind d =
    (Inr (), d\<lparr>db_subtasks := db_subtasks d @
       map (\<lambda>s. spec_row tid s (case cycle of None \<Rightarrow> max_cycle tid d + 1 | Some c \<Rightarrow> c) kind (clock d))
         specs\<rparr>)"
proof -
  let ?c = "case cycle of None \<Rightarrow> max_cycle tid d + 1 | Some c \<Rightarrow> c"
  let ?rows = "map (\<lambda>s. spec_row tid s ?c kind (clock d)) specs"
  have keys: "map subtask_key ?rows = map (Pair tid) (map sp_subtask_id specs)" by simp
  have "filter (\<lambda>s. sp_subtask_id s \<notin> s_subtask_id ` set (task_subtasks tid d)) specs = specs"
    using assms(2) by (intro filter_True) auto
  moreover have "insert_subtasks ?rows d = (Inr (), d\<lparr>db_subtasks := db_subtasks d @ ?rows\<rparr>)"
  proof (rule insert_subtasks_ok)
    show "distinct (map subtask_key ?rows)"
      using assms(1) by (simp only: keys distinct_map) (simp add: inj_on_def)
    show "set (map subtask_key ?rows) \<inter> set (map subtask_key (db_subtasks d)) = {}"
      using assms(2) by (force simp: task_subtasks_def subtask_key_def)
  qed
  ultimately show ?thesis
    by (simp add: append_subtasks_def act_simps Let_def)
qed

text \<open>A repeated id inside one batch violates the key and rolls the batch back.\<close>

lemma append_subtasks_dup:
  assumes "sp_subtask_id s = sp_subtask_id s'"
    and "sp_subtask_id s \<notin> set (map s_subtask_id (task_subtasks tid d))"
    and specs: "specs = xs @ s # ys @ s' # zs"
  shows "append_subtasks tid specs cycle kind d =
           (Inl (IntegrityError ''UNIQUE constraint failed: subtasks''), d)"
proof -
  let ?P = "\<lambda>s. sp_subtask_id s \<notin> s_subtask_id ` set (task_subtasks tid d)"
  let ?c = "case cycle of None \<Rightarrow> max_cycle tid d + 1 | Some c \<Rightarrow> c"
  let ?rows = "map (\<lambda>s. spec_row tid s ?c kind (clock d)) (filter ?P specs)"
  have "\<not> distinct (map subtask_key ?rows)"
    using assms by (auto simp: specs)
  then have "fst (insert_subtasks ?rows d) =
      Inl (IntegrityError ''UNIQUE constraint failed: subtasks'')"
    by (intro insert_subtasks_dup) blast
  then show ?thesis
    by (auto simp: append_subtasks_def act_simps Let_def split: prod.splits sum.splits)
qed

section \<open>Planning cycles\<close>

lemma max_option_Max: "max_option xs = (if xs = [] then None else Some (Max (set xs)))"
  by (cases xs) (simp_all only: max_option_def list.case Max.set_eq_fold, simp_all)

lemma max_option_bound: "max_option xs = Some m \<Longrightarrow> x \<in> set xs \<Longrightarrow> x \<le> m"
  by (auto simp: max_option_Max split: if_splits)

lemma cycle_le_max: "s \<in> set (task_subtasks tid d) \<Longrightarrow> s_planning_cycle s \<le> max_cycle tid d"
  by (auto simp: max_cycle_def max_option_Max or0_def)

lemma subtasks_in_cycle_mem:
  "s \<in> set (subtasks_in_cycle tid c d) \<longleftrightarrow>
     s \<in> set (db_subtasks d) \<and> s_task_id s = tid \<and> s_planning_cycle s = c"
  by (auto simp: subtasks_in_cycle_def task_subtasks_def)

lemma delete_cycle_run:
  "delete_subtasks_in_cycle tid c d =
     (Inr (length (subtasks_in_cycle tid c d)),
      d\<lparr>db_subtasks := filter (\<lambda>s. \<not> (s_task_id s = tid \<and> s_planning_cycle s = c)) (db_subtasks d)\<rparr>)"
  by (simp add: delete_subtasks_in_cycle_def act_simps)

section \<open>Properties\<close>

text \<open>
  Appending a batch of new subtasks opens the next planning cycle, which holds exactly that batch, and
  deleting that cycle gives back the database as it was.
\<close>

theorem append_delete_round_trip:
  assumes "distinct (map sp_subtask_id specs)"
    and "set (map sp_subtask_id specs) \<inter> set (map s_subtask_id (task_subtasks tid d)) = {}"
    and "\<forall>s \<in> set specs. sp_planning_cycle s = None"
  shows "\<exists>d'. append_subtasks tid specs None kind d = (Inr (), d') \<and>
    map s_subtask_id (subtasks_in_cycle tid (max_cycle tid d + 1) d') = map sp_subtask_id specs \<and>
    delete_subtasks_in_cycle tid (max_cycle tid d + 1) d' = (Inr (length specs), d)"
proof -
  let ?c = "max_cycle tid d + 1"
  let ?rows = "map (\<lambda>s. spec_row tid s ?c kind (clock d)) specs"
  let ?d' = "d\<lparr>db_subtasks := db_subtasks d @ ?rows\<rparr>"
  have run: "append_subtasks tid specs None kind d = (Inr (), ?d')"
    using append_subtasks_run [OF assms(1,2), of None kind] by simp
  have old: "\<not> (s_task_id s = tid \<and> s_planning_cycle s = ?c)" if "s \<in> set (db_subtasks d)" for s
    using that cycle_le_max [of s tid d] by (auto simp: task_subtasks_def)
  have new: "s_task_id s = tid \<and> s_planning_cycle s = ?c" if "s \<in> set ?rows" for s
    using that assms(3) by (auto simp: get_default_def)
  let ?P = "\<lambda>s. s_task_id s = tid \<and> s_planning_cycle s = ?c"
  have parts: "filter ?P (db_subtasks d) = []" "filter ?P ?rows = ?rows"
    "filter (\<lambda>s. \<not> ?P s) (db_subtasks d) = db_subtasks d" "filter (\<lambda>s. \<not> ?P s) ?rows = []"
    using old new by (auto simp only: filter_empty_conv filter_id_conv)
  have "filter ?P (db_subtasks d @ ?rows) = ?rows" by (simp only: filter_append parts append_Nil)
  moreover have "db_subtasks ?d' = db_subtasks d @ ?rows" by simp
  ultimately have cyc: "subtasks_in_cycle tid ?c ?d' = ?rows"
    unfolding subtasks_in_cycle_def task_subtasks_def filter_filter by (simp only:)
  have "filter (\<lambda>s. \<not> ?P s) (db_subtasks d @ ?rows) = db_subtasks d"
    by (simp only: filter_append parts append_Nil2)
  then have "delete_subtasks_in_cycle tid ?c ?d' = (Inr (length specs), d)"
    unfolding delete_cycle_run cyc by simp
  with run cyc show ?thesis by (intro exI [of _ ?d']) (simp add: comp_def)
qed

definition demo_spec :: "string \<Rightarrow> subtask_spec" where
  "demo_spec i = \<lparr>sp_subtask_id = i, sp_title = None, sp_depends_on = None, sp_files_to_touch = None,
     sp_boundary = None, sp_acceptance = None, sp_notes = None, sp_kind = None, sp_planning_cycle = None,
     sp_planning_kind = None\<rparr>"

theorem append_delete_round_trip_witness:
  "\<exists>d'. append_subtasks ''T1'' [demo_spec ''S2'', demo_spec ''S3''] None ''fixup'' demo_subtask_db = (Inr (), d') \<and>
     map s_subtask_id (subtasks_in_cycle ''T1'' (max_cycle ''T1'' demo_subtask_db + 1) d') =
       map sp_subtask_id [demo_spec ''S2'', demo_spec ''S3''] \<and>
     delete_subtasks_in_cycle ''T1'' (max_cycle ''T1'' demo_subtask_db + 1) d' =
       (Inr (length [demo_spec ''S2'', demo_spec ''S3'']), demo_subtask_db)"
  by (rule append_delete_round_trip)
    (simp_all add: demo_spec_def task_subtasks_def demo_subtask_db_def)

text \<open>
  A batch that names a new subtask twice violates the key, and the whole batch is rolled back.
\<close>

theorem append_duplicate_rolls_back:
  assumes "\<not> distinct (filter (\<lambda>i. i \<notin> s_subtask_id ` set (task_subtasks tid d)) (map sp_subtask_id specs))"
  shows "append_subtasks tid specs cyc kind d =
    (Inl (IntegrityError ''UNIQUE constraint failed: subtasks''), d)"
proof -
  let ?P = "\<lambda>s. sp_subtask_id s \<notin> s_subtask_id ` set (task_subtasks tid d)"
  let ?c = "case cyc of None \<Rightarrow> max_cycle tid d + 1 | Some c \<Rightarrow> c"
  let ?rows = "map (\<lambda>s. spec_row tid s ?c kind (clock d)) (filter ?P specs)"
  have "map subtask_key ?rows = map (Pair tid) (map sp_subtask_id (filter ?P specs))" by simp
  moreover have "map sp_subtask_id (filter ?P specs) =
      filter (\<lambda>i. i \<notin> s_subtask_id ` set (task_subtasks tid d)) (map sp_subtask_id specs)"
    by (simp add: filter_map comp_def)
  ultimately have "\<not> distinct (map subtask_key ?rows)" using assms by (simp add: distinct_map)
  then have "fst (insert_subtasks ?rows d) = Inl (IntegrityError ''UNIQUE constraint failed: subtasks'')"
    by (intro insert_subtasks_dup) blast
  then show ?thesis
    by (auto simp: append_subtasks_def act_simps Let_def split: prod.splits sum.splits)
qed

theorem append_duplicate_rolls_back_witness:
  "append_subtasks ''T1'' [demo_spec ''S2'', demo_spec ''S2''] None ''fixup'' demo_subtask_db =
    (Inl (IntegrityError ''UNIQUE constraint failed: subtasks''), demo_subtask_db)"
  by (rule append_duplicate_rolls_back) (simp add: demo_spec_def task_subtasks_def demo_subtask_db_def)

end
