(* ===== verification/StoreReview.thy ===== *)
theory StoreReview
  imports StoreSubtasks
begin

text \<open>
  \<^verbatim>\<open>quikode/store_review.py\<close> and the crash-recovery map of \<^verbatim>\<open>quikode/fsm.py\<close>: review-poll throttling and
  cursors, review threads, the children of a parent branch, rebase flags, orphan recovery at startup,
  and the timestamps the settle gates read from \<^verbatim>\<open>state_log\<close>.
\<close>

section \<open>Crash recovery\<close>

definition recover_after_crash :: "state coercible \<Rightarrow> bool \<Rightarrow> py_error + (state \<times> task_field list)" where
  "recover_after_crash st has_pr =
     (case coerce_state st of
        Inl x \<Rightarrow> Inl x
      | Inr current \<Rightarrow> Inr
          (if current \<in> set terminal_states \<or> current = PENDING then (current, [])
           else if current \<in> set post_pr_states then (PENDING_CI, [])
           else if current = PROVISIONING then
             (PENDING, [F_branch None, F_worktree_path None, F_container_id None])
           else if current \<in> set ([PR_OPENING, REBASING_TO_MAIN, CONFLICT_RESOLVING] @
                                  audit_stage_states) then
             (if has_pr then (PENDING_CI, [])
              else (PENDING, [F_resume_from_existing_subtasks (Some 1)]))
           else (PENDING, [F_resume_from_existing_subtasks (Some 1)])))"

definition retry_reset_fields :: "task_field list" where
  "retry_reset_fields =
     [F_ci_triage_retries (Some 0), F_conflict_resolve_retries (Some 0),
      F_needs_intent_review (Some 0), F_needs_parent_rebase (Some 0),
      F_last_error None, F_failure_reason None]"

text \<open>Truthiness of an integer column: NULL and 0 are false.\<close>

definition truthy_int :: "int option \<Rightarrow> bool" where
  "truthy_int x \<longleftrightarrow> (case x of None \<Rightarrow> False | Some i \<Rightarrow> i \<noteq> 0)"

definition recover_row :: "task_row \<Rightarrow> (ident \<times> state \<times> state) option store_act" where
  "recover_row row =
     (let cur = t_state row
      in if cur \<notin> set active_states then py_return None
         else case recover_after_crash (Member cur) (truthy_int (t_pr_number row)) of
                Inl x \<Rightarrow> py_raise x
              | Inr (target, recovery) \<Rightarrow>
                  py_then
                    (transition (t_id row) target
                       (Some (''orphan recovery from '' @ state_value cur))
                       (retry_reset_fields @ recovery))
                    (py_return (Some (t_id row, cur, target))))"

definition recover_orphan_tasks :: "(ident \<times> state \<times> state) list store_act" where
  "recover_orphan_tasks =
     py_bind (py_read all_tasks) (\<lambda>rows.
       py_bind (py_for rows recover_row) (\<lambda>out. py_return (List.map_filter id out)))"

section \<open>Review polling\<close>

definition tasks_needing_review_poll :: "time \<Rightarrow> db \<Rightarrow> task_row list" where
  "tasks_needing_review_poll cutoff d =
     filter (\<lambda>r. (t_state r \<in> set [PENDING_CI, AWAITING_REVIEW] \<or>
                  t_state r = BLOCKED \<and> t_pr_number r \<noteq> None) \<and>
                 (case t_last_review_poll_ts r of None \<Rightarrow> True | Some ts \<Rightarrow> ts < cutoff))
       (all_tasks d)"

definition str_or_none :: "string option \<Rightarrow> string option" where
  "str_or_none v = (case v of None \<Rightarrow> None | Some s \<Rightarrow> if s = [] then None else Some s)"

definition get_last_processed_review_id :: "ident \<Rightarrow> db \<Rightarrow> string option" where
  "get_last_processed_review_id tid d =
     str_or_none (Option.bind (find_task tid d) t_last_processed_review_id)"

definition mark_review_processed :: "ident \<Rightarrow> string \<Rightarrow> unit store_act" where
  "mark_review_processed tid rid =
     tx (update_task tid (\<lambda>r. r\<lparr>t_last_processed_review_id := Some rid\<rparr>))"

definition get_stored_review_threads :: "ident \<Rightarrow> db \<Rightarrow> review_thread_row list" where
  "get_stored_review_threads tid d =
     sort_key th_first_seen_ts (filter (\<lambda>t. th_task_id t = tid) (db_review_threads d))"

definition get_review_thread :: "ident \<Rightarrow> string \<Rightarrow> db \<Rightarrow> review_thread_row option" where
  "get_review_thread tid thr d =
     List.find (\<lambda>t. th_task_id t = tid \<and> th_thread_id t = thr) (db_review_threads d)"

definition upsert_review_thread ::
  "ident \<Rightarrow> string \<Rightarrow> bool \<Rightarrow> time \<Rightarrow> string option \<Rightarrow> bool \<Rightarrow> unit store_act" where
  "upsert_review_thread tid thr resolved ts author is_bot =
     tx (py_bind (py_read (\<lambda>d. (clock d, get_review_thread tid thr d))) (\<lambda>(now, existing).
          case existing of
            None \<Rightarrow>
              py_modify (\<lambda>d. d\<lparr>db_review_threads := db_review_threads d @
                [\<lparr>th_task_id = tid, th_thread_id = thr, th_is_resolved = resolved,
                  th_last_comment_ts = ts, th_last_comment_author = author,
                  th_last_comment_is_bot = is_bot, th_addressed_in_commit_sha = None,
                  th_first_seen_ts = now\<rparr>]\<rparr>)
          | Some _ \<Rightarrow>
              py_modify (\<lambda>d. d\<lparr>db_review_threads :=
                map (\<lambda>t. if th_task_id t = tid \<and> th_thread_id t = thr
                         then t\<lparr>th_is_resolved := resolved, th_last_comment_ts := ts,
                                th_last_comment_author := author,
                                th_last_comment_is_bot := is_bot\<rparr>
                         else t) (db_review_threads d)\<rparr>)))"

definition mark_thread_addressed :: "ident \<Rightarrow> string \<Rightarrow> string \<Rightarrow> unit store_act" where
  "mark_thread_addressed tid thr sha =
     tx (py_modify (\<lambda>d. d\<lparr>db_review_threads :=
          map (\<lambda>t. if th_task_id t = tid \<and> th_thread_id t = thr
                   then t\<lparr>th_addressed_in_commit_sha := Some sha\<rparr> else t) (db_review_threads d)\<rparr>))"

section \<open>Children of a parent branch\<close>

definition has_parent_pr_branch :: "string \<Rightarrow> task_row \<Rightarrow> bool" where
  "has_parent_pr_branch b r \<longleftrightarrow>
     (case t_parent_pr_branches r of None \<Rightarrow> False | Some bs \<Rightarrow> b \<in> set bs)"

definition children_of_parent_branch :: "string \<Rightarrow> db \<Rightarrow> task_row list" where
  "children_of_parent_branch b d =
     filter (\<lambda>r. t_state r \<notin> set [MERGED, ABORTED, FAILED, BLOCKED, PENDING] \<and>
                 has_parent_pr_branch b r) (all_tasks d)"

definition children_with_parent_branch :: "string \<Rightarrow> db \<Rightarrow> task_row list" where
  "children_with_parent_branch b d =
     filter (\<lambda>r. t_state r \<notin> set [MERGED, ABORTED, FAILED, BLOCKED] \<and>
                 has_parent_pr_branch b r) (all_tasks d)"

definition clear_parent_branch :: "ident \<Rightarrow> unit store_act" where
  "clear_parent_branch tid =
     tx (update_task tid (\<lambda>r. r\<lparr>t_parent_task_ids := None, t_parent_branches := None,
           t_parent_pr_branches := None, t_parent_merge_base_sha := None,
           t_parent_merge_base_branch := None, t_needs_parent_rebase := Some 0\<rparr>))"

definition mark_needs_parent_rebase :: "ident \<Rightarrow> unit store_act" where
  "mark_needs_parent_rebase tid =
     tx (update_task tid (\<lambda>r. r\<lparr>t_needs_parent_rebase := Some 1\<rparr>))"

definition clear_needs_parent_rebase :: "ident \<Rightarrow> unit store_act" where
  "clear_needs_parent_rebase tid =
     tx (update_task tid (\<lambda>r. r\<lparr>t_needs_parent_rebase := Some 0\<rparr>))"

definition set_pre_rebase_state :: "ident \<Rightarrow> string \<Rightarrow> unit store_act" where
  "set_pre_rebase_state tid st =
     tx (update_task tid (\<lambda>r. r\<lparr>t_pre_rebase_state := Some st\<rparr>))"

definition get_pre_rebase_state :: "ident \<Rightarrow> db \<Rightarrow> string option" where
  "get_pre_rebase_state tid d = Option.bind (find_task tid d) t_pre_rebase_state"

section \<open>Timestamps and counters\<close>

definition get_last_rebase_scheduled_ts :: "ident \<Rightarrow> db \<Rightarrow> time option" where
  "get_last_rebase_scheduled_ts tid d = Option.bind (find_task tid d) t_last_rebase_scheduled_ts"

definition set_last_rebase_scheduled :: "ident \<Rightarrow> time \<Rightarrow> unit store_act" where
  "set_last_rebase_scheduled tid ts =
     tx (update_task tid (\<lambda>r. r\<lparr>t_last_rebase_scheduled_ts := Some ts\<rparr>))"

definition increment_review_round :: "ident \<Rightarrow> int store_act" where
  "increment_review_round tid =
     tx (py_then
           (update_task tid (\<lambda>r. r\<lparr>t_review_round := Some (or0 (t_review_round r) + 1)\<rparr>))
           (py_read (\<lambda>d. case find_task tid d of
                            None \<Rightarrow> 0 | Some r \<Rightarrow> or0 (t_review_round r))))"

text \<open>\<^verbatim>\<open>SELECT MAX(ts) FROM state_log WHERE task_id = ? AND to_state = ?\<close>.\<close>

definition last_entry_ts :: "ident \<Rightarrow> state \<Rightarrow> db \<Rightarrow> time option" where
  "last_entry_ts tid st d =
     max_option (map l_ts (filter (\<lambda>l. l_to_state l = st) (task_log tid d)))"

definition most_recent_awaiting_review_entry_ts :: "ident \<Rightarrow> db \<Rightarrow> time option" where
  "most_recent_awaiting_review_entry_ts tid d = last_entry_ts tid AWAITING_REVIEW d"

definition get_last_review_ready_notified_ts :: "ident \<Rightarrow> db \<Rightarrow> time option" where
  "get_last_review_ready_notified_ts tid d =
     Option.bind (find_task tid d) t_last_notified_settled_ts"

definition set_last_review_ready_notified_ts :: "ident \<Rightarrow> time \<Rightarrow> unit store_act" where
  "set_last_review_ready_notified_ts tid ts =
     tx (update_task tid (\<lambda>r. r\<lparr>t_last_notified_settled_ts := Some ts\<rparr>))"

section \<open>Invariants\<close>

lemma keeps_review_writers [keeps_intros]:
  "keeps store_ok (mark_review_processed tid rid)"
  "keeps store_ok (clear_parent_branch tid)"
  "keeps store_ok (mark_needs_parent_rebase tid)"
  "keeps store_ok (clear_needs_parent_rebase tid)"
  "keeps store_ok (set_pre_rebase_state tid st)"
  "keeps store_ok (set_last_rebase_scheduled tid ts)"
  "keeps store_ok (increment_review_round tid)"
  "keeps store_ok (set_last_review_ready_notified_ts tid ts)"
  unfolding mark_review_processed_def clear_parent_branch_def mark_needs_parent_rebase_def
    clear_needs_parent_rebase_def set_pre_rebase_state_def set_last_rebase_scheduled_def
    increment_review_round_def set_last_review_ready_notified_ts_def
  by (intro keeps_intros; simp)+

lemma keeps_thread_writers [keeps_intros]:
  "keeps store_ok (upsert_review_thread tid thr b ts a by_bot)"
  "keeps store_ok (mark_thread_addressed tid thr sha)"
proof -
  have threads: "keeps store_ok (py_modify (\<lambda>d. d\<lparr>db_review_threads := f d\<rparr>))" for f
    by (rule keeps_modify) (erule store_okI_frame, simp_all)
  show "keeps store_ok (upsert_review_thread tid thr b ts a by_bot)"
    and "keeps store_ok (mark_thread_addressed tid thr sha)"
    unfolding upsert_review_thread_def mark_thread_addressed_def
    by (auto intro!: keeps_intros threads)
qed

text \<open>Recovery of an active state lands in a state no worker owns.\<close>

lemma recover_target:
  assumes "recover_after_crash (Member s) pr = Inr (t, fs)" and "s \<in> set active_states"
  shows "t = PENDING \<or> (t = PENDING_CI \<and> pr)"
proof -
  have "list_all (\<lambda>s. list_all (\<lambda>pr. case recover_after_crash (Member s) pr of
      Inl _ \<Rightarrow> False | Inr (t, _) \<Rightarrow> t = PENDING \<or> (t = PENDING_CI \<and> pr)) [True, False]) active_states"
    by code_simp
  with assms show ?thesis
    by (cases pr) (auto simp: list_all_iff dest!: bspec [where x = s])
qed

lemma recover_total: "\<exists>t fs. recover_after_crash (Member s) pr = Inr (t, fs)"
  by (simp add: recover_after_crash_def)

lemma recover_row_effect:
  assumes ok: "store_ok d" and cur: "select_state (t_id row) d = Some (t_state row)"
  shows "\<exists>out d'. recover_row row d = (Inr out, d') \<and> store_ok d' \<and>
    (\<forall>x. x \<noteq> t_id row \<longrightarrow> select_state x d' = select_state x d) \<and>
    (if t_state row \<in> set active_states
     then select_state (t_id row) d' \<in> {Some PENDING, Some PENDING_CI} else d' = d)"
proof -
  obtain t fs where r: "recover_after_crash (Member (t_state row)) (truthy_int (t_pr_number row)) =
      Inr (t, fs)"
    using recover_total by blast
  let ?d' = "snd (transition (t_id row) t (Some (''orphan recovery from '' @ state_value (t_state row)))
      (retry_reset_fields @ fs) d)"
  have run: "recover_row row d = (if t_state row \<in> set active_states
      then (Inr (Some (t_id row, t_state row, t)), ?d') else (Inr None, d))"
    by (simp add: recover_row_def r act_simps transition_run [OF cur] Let_def)
  have "t = PENDING \<or> t = PENDING_CI" if "t_state row \<in> set active_states"
    using recover_target [OF r that] by blast
  moreover from this have "store_ok ?d'" if "t_state row \<in> set active_states"
    using ok cur that by (auto intro!: store_ok_transition legal_edge.recovered)
  ultimately show ?thesis
    using run ok select_state_transition [OF cur]
    by (cases "t_state row \<in> set active_states") auto
qed

lemma list_all2_in_set1: "list_all2 P xs ys \<Longrightarrow> x \<in> set xs \<Longrightarrow> \<exists>y. P x y"
  by (auto simp: list_all2_conv_all_nth in_set_conv_nth)

lemma recover_loop:
  assumes "store_ok d" and "distinct (map t_id rows)"
    and "\<And>r. r \<in> set rows \<Longrightarrow> select_state (t_id r) d = Some (t_state r)"
  shows "\<exists>out d'. py_for rows recover_row d = (Inr out, d') \<and> store_ok d' \<and>
    (\<forall>x. x \<notin> t_id ` set rows \<longrightarrow> select_state x d' = select_state x d) \<and>
    (\<forall>r \<in> set rows. if t_state r \<in> set active_states
       then select_state (t_id r) d' \<in> {Some PENDING, Some PENDING_CI}
       else select_state (t_id r) d' = Some (t_state r))"
proof -
  let ?post = "\<lambda>r out v. if t_state r \<in> set active_states
       then v \<in> {Some PENDING, Some PENDING_CI} else v = Some (t_state r)"
  have "\<exists>outs d'. py_for rows recover_row d = (Inr outs, d') \<and> store_ok d' \<and>
      (\<forall>x. x \<notin> t_id ` set rows \<longrightarrow> select_state x d' = select_state x d) \<and>
      list_all2 (\<lambda>r out. ?post r out (select_state (t_id r) d')) rows outs"
  proof (rule py_for_keyed [where pre = "\<lambda>r. Some (t_state r)"])
    show "\<exists>out d'. recover_row r d = (Inr out, d') \<and> store_ok d' \<and>
        (\<forall>x. x \<noteq> t_id r \<longrightarrow> select_state x d' = select_state x d) \<and>
        ?post r out (select_state (t_id r) d')"
      if ok: "store_ok d" and cur: "select_state (t_id r) d = Some (t_state r)" for r d
    proof -
      obtain out d' where "recover_row r d = (Inr out, d')" and "store_ok d'"
        and "\<forall>x. x \<noteq> t_id r \<longrightarrow> select_state x d' = select_state x d"
        and eff: "if t_state r \<in> set active_states
          then select_state (t_id r) d' \<in> {Some PENDING, Some PENDING_CI} else d' = d"
        using recover_row_effect [OF ok cur] by blast
      moreover have "?post r out (select_state (t_id r) d')"
        using eff cur by (cases "t_state r \<in> set active_states") simp_all
      ultimately show ?thesis by blast
    qed
  qed (use assms in simp_all)
  then obtain outs d' where "py_for rows recover_row d = (Inr outs, d')" and "store_ok d'"
    and "\<forall>x. x \<notin> t_id ` set rows \<longrightarrow> select_state x d' = select_state x d"
    and posts: "list_all2 (\<lambda>r out. ?post r out (select_state (t_id r) d')) rows outs"
    by (elim exE conjE) (rule that)
  moreover have "\<forall>r \<in> set rows. ?post r () (select_state (t_id r) d')"
    by (intro ballI, drule list_all2_in_set1 [OF posts], elim exE)
  ultimately show ?thesis by (intro exI conjI)
qed

lemma all_tasks_facts:
  "set (all_tasks d) = set (db_tasks d)"
  "distinct (task_ids d) \<Longrightarrow> distinct (map t_id (all_tasks d))"
  by (simp_all add: all_tasks_def task_ids_def distinct_map)

lemma all_tasks_current:
  "store_ok d \<Longrightarrow> r \<in> set (all_tasks d) \<Longrightarrow> select_state (t_id r) d = Some (t_state r)"
  using find_task_unique [of d r] by (simp add: all_tasks_facts store_ok_def select_state_def)

text \<open>After startup recovery no task is active, the others are as they were, the history is legal.\<close>

lemma recover_orphan_tasks_run:
  assumes "store_ok d"
  obtains out d' where "recover_orphan_tasks d = (Inr out, d')" and "store_ok d'"
    and "\<And>tid s. select_state tid d = Some s \<Longrightarrow> s \<in> set active_states \<Longrightarrow>
           select_state tid d' \<in> {Some PENDING, Some PENDING_CI}"
    and "\<And>tid s. select_state tid d = Some s \<Longrightarrow> s \<notin> set active_states \<Longrightarrow>
           select_state tid d' = Some s"
    and "\<And>tid. select_state tid d = None \<Longrightarrow> select_state tid d' = None"
proof -
  obtain out d' where run: "py_for (all_tasks d) recover_row d = (Inr out, d')" and ok: "store_ok d'"
    and keep: "\<forall>x. x \<notin> t_id ` set (all_tasks d) \<longrightarrow> select_state x d' = select_state x d"
    and rows: "\<forall>r \<in> set (all_tasks d). if t_state r \<in> set active_states
       then select_state (t_id r) d' \<in> {Some PENDING, Some PENDING_CI}
       else select_state (t_id r) d' = Some (t_state r)"
    using recover_loop [of d "all_tasks d"] assms all_tasks_facts(2) [of d] all_tasks_current [of d]
    by (auto simp: store_ok_def)
  have row: "\<exists>r \<in> set (all_tasks d). t_id r = tid \<and> t_state r = s"
    if "select_state tid d = Some s" for tid s
    using that find_task_id find_task_mem
    by (fastforce simp: select_state_def all_tasks_facts)
  show thesis
  proof (rule that)
    show "recover_orphan_tasks d = (Inr (List.map_filter id out), d')"
      by (simp add: recover_orphan_tasks_def act_simps run)
    show "store_ok d'" by (fact ok)
    show "select_state tid d' \<in> {Some PENDING, Some PENDING_CI}"
      if "select_state tid d = Some s" "s \<in> set active_states" for tid s
      using row [OF that(1)] rows that(2) by fastforce
    show "select_state tid d' = Some s"
      if "select_state tid d = Some s" "s \<notin> set active_states" for tid s
      using row [OF that(1)] rows that(2) by fastforce
    show "select_state tid d' = None" if "select_state tid d = None" for tid
    proof -
      have "tid \<notin> t_id ` set (all_tasks d)"
        using that in_task_ids_iff [of tid d] by (auto simp: all_tasks_facts task_ids_def)
      with keep that show ?thesis by simp
    qed
  qed
qed

lemma keeps_recover [keeps_intros]: "keeps store_ok recover_orphan_tasks"
proof (rule keepsI)
  fix d assume "store_ok d"
  then show "store_ok (snd (recover_orphan_tasks d))"
    by (rule recover_orphan_tasks_run) simp
qed

section \<open>Properties\<close>

lemma recover_nothing_active:
  assumes "\<And>r. r \<in> set (all_tasks d) \<Longrightarrow> t_state r \<notin> set active_states"
  shows "recover_orphan_tasks d = (Inr [], d)"
proof -
  have "py_for rows recover_row d = (Inr (map (\<lambda>_. None) rows), d)"
    if "\<And>r. r \<in> set rows \<Longrightarrow> t_state r \<notin> set active_states" for rows
    using that by (induction rows) (simp_all add: act_simps recover_row_def)
  from this [of "all_tasks d"] assms have
    "recover_orphan_tasks d = (Inr (List.map_filter id (map (\<lambda>_. None) (all_tasks d))), d)"
    by (simp add: recover_orphan_tasks_def act_simps)
  moreover have "List.map_filter id (map (\<lambda>_. None) xs) = []" for xs :: "task_row list"
    by (induction xs) (simp_all add: map_filter_simps)
  ultimately show ?thesis by simp
qed

lemma not_active_after_recovery: "PENDING \<notin> set active_states" "PENDING_CI \<notin> set active_states"
  by code_simp+

text \<open>
  Startup recovery of a lawful store never fails. It leaves a lawful store in which every task that was active
  waits in PENDING or PENDING_CI and every other task is where it was; running it again changes nothing.
\<close>

theorem recovery_clears_active:
  assumes "store_ok d"
  shows "\<exists>out d'. recover_orphan_tasks d = (Inr out, d') \<and> store_ok d' \<and>
    (\<forall>tid s. select_state tid d = Some s \<longrightarrow>
       (if s \<in> set active_states then select_state tid d' \<in> {Some PENDING, Some PENDING_CI}
        else select_state tid d' = Some s)) \<and>
    recover_orphan_tasks d' = (Inr [], d')"
proof -
  obtain out d' where run: "recover_orphan_tasks d = (Inr out, d')" and ok: "store_ok d'"
    and act: "\<And>tid s. select_state tid d = Some s \<Longrightarrow> s \<in> set active_states \<Longrightarrow>
           select_state tid d' \<in> {Some PENDING, Some PENDING_CI}"
    and idle: "\<And>tid s. select_state tid d = Some s \<Longrightarrow> s \<notin> set active_states \<Longrightarrow> select_state tid d' = Some s"
    and none: "\<And>tid. select_state tid d = None \<Longrightarrow> select_state tid d' = None"
    using recover_orphan_tasks_run [OF assms] by blast
  have "t_state r \<notin> set active_states" if "r \<in> set (all_tasks d')" for r
  proof -
    have now: "select_state (t_id r) d' = Some (t_state r)" using all_tasks_current [OF ok that] .
    then obtain s where "select_state (t_id r) d = Some s" using none by fastforce
    then show ?thesis using act [of "t_id r" s] idle [of "t_id r" s] now not_active_after_recovery
      by (cases "s \<in> set active_states") auto
  qed
  then have "recover_orphan_tasks d' = (Inr [], d')" by (rule recover_nothing_active)
  with run ok act idle show ?thesis by auto
qed

definition demo_running_db :: db where
  "demo_running_db = snd (py_then (upsert_pending ''T1'')
     (py_then (apply_event ''T1'' Ev_START_TASK None []) (upsert_pending ''T2'')) (empty_db 7))"

lemma demo_running_ok: "store_ok demo_running_db"
  unfolding demo_running_db_def by (rule keepsD [where P = store_ok, OF _ store_ok_empty]) (intro keeps_intros)

theorem recovery_clears_active_witness:
  "select_state ''T1'' demo_running_db = Some PROVISIONING \<and>
   (\<exists>out d'. recover_orphan_tasks demo_running_db = (Inr out, d') \<and> store_ok d' \<and>
      (\<forall>tid s. select_state tid demo_running_db = Some s \<longrightarrow>
         (if s \<in> set active_states then select_state tid d' \<in> {Some PENDING, Some PENDING_CI}
          else select_state tid d' = Some s)) \<and>
      recover_orphan_tasks d' = (Inr [], d'))"
  by (rule conjI [OF _ recovery_clears_active [OF demo_running_ok]]) code_simp

end
