(* ===== verification/Stacking.thy ===== *)
theory Stacking
  imports Worklist StoreReview
begin

text \<open>
  \<^verbatim>\<open>quikode/orchestration/stacking_helpers.py\<close>: depth, root, breadth and cycle checks over the stacking
  graph. The \<^verbatim>\<open>StoreLike\<close> protocol a helper is given is a table: every task, in the order of
  \<^verbatim>\<open>all_tasks\<close>, with its parents. \<open>stack_store\<close> is the contract of that protocol; the production store
  and the TUI's read-only adapter provide it, with different treatments of empty parent ids.
\<close>

section \<open>Operations\<close>

definition parents_of :: "ident graph \<Rightarrow> ident \<Rightarrow> ident list" where
  "parents_of store tid = succs store tid"

text \<open>The nested \<^verbatim>\<open>_depth\<close>: the depth and whether \<^verbatim>\<open>cycle_detected\<close> was set below this call.\<close>

function depth_walk :: "ident graph \<Rightarrow> ident set \<Rightarrow> ident \<Rightarrow> nat \<times> bool" where
  "depth_walk store on_stack node =
     (if node \<in> on_stack then (0, True)
      else case parents_of store node of
             [] \<Rightarrow> (1, False)
           | p # ps \<Rightarrow>
               (let rs = map (depth_walk store (insert node on_stack)) (p # ps)
                in (1 + fold max (map fst (tl rs)) (fst (hd rs)), list_ex snd rs)))"
  by pat_completeness auto
termination
proof (relation "measure (\<lambda>(g, S, n). card (fst ` set g - S))", goal_cases)
  case (2 g S n p ps x)
  have "n \<in> fst ` set g"
    using 2 succs_nonempty_dom [of p g n] by (simp add: parents_of_def)
  then have "fst ` set g - insert n S \<subset> fst ` set g - S" using 2 by blast
  then show ?case by (simp add: psubset_card_mono)
qed simp

declare depth_walk.simps [simp del]

definition stack_depth :: "ident graph \<Rightarrow> ident \<Rightarrow> int \<Rightarrow> int" where
  "stack_depth store tid max_depth_sentinel =
     (case depth_walk store {} tid of
        (depth, cycle_detected) \<Rightarrow>
          if cycle_detected then max (int depth) (max_depth_sentinel + 1) else int depth)"

function root_walk :: "ident graph \<Rightarrow> ident list \<Rightarrow> ident set \<Rightarrow> ident list \<Rightarrow> ident list" where
  "root_walk store frontier seen roots =
     (if frontier = [] then roots
      else let cur = last frontier; rest = butlast frontier
           in if cur \<in> seen then root_walk store rest seen roots
              else if parents_of store cur = []
                then root_walk store rest (insert cur seen) (roots @ [cur])
              else root_walk store
                     (rest @ filter (\<lambda>p. p \<notin> insert cur seen) (parents_of store cur))
                     (insert cur seen) roots)"
  by pat_completeness auto
termination
proof (relation "measures [\<lambda>(g, fr, seen, roots). card (fst ` set g - seen), \<lambda>(g, fr, seen, roots). length fr]",
    goal_cases)
  case (3 g fr seen roots cur rest)
  have "fst ` set g - insert cur seen \<subseteq> fst ` set g - seen" by blast
  then have "card (fst ` set g - insert cur seen) \<le> card (fst ` set g - seen)"
    by (intro card_mono) auto
  then show ?case using 3 by auto
next
  case (4 g fr seen roots cur rest)
  then obtain p where "p \<in> set (succs g cur)"
    by (cases "succs g cur") (auto simp: parents_of_def)
  then have "cur \<in> fst ` set g" by (rule succs_nonempty_dom)
  then have "fst ` set g - insert cur seen \<subset> fst ` set g - seen" using 4 by blast
  then show ?case by (simp add: psubset_card_mono)
qed auto

declare root_walk.simps [simp del]

definition stack_root :: "ident graph \<Rightarrow> ident \<Rightarrow> ident" where
  "stack_root store tid =
     (case root_walk store [tid] {} [] of [] \<Rightarrow> tid | r # rs \<Rightarrow> fold min rs r)"

definition stack_size_under_root :: "ident graph \<Rightarrow> ident \<Rightarrow> nat" where
  "stack_size_under_root store root =
     length (filter (\<lambda>tid. stack_root store tid = root) (map fst store))"

function cycle_walk :: "ident graph \<Rightarrow> ident \<Rightarrow> ident list \<Rightarrow> ident set \<Rightarrow> bool" where
  "cycle_walk store child frontier seen =
     (if frontier = [] then False
      else let cur = last frontier; rest = butlast frontier
           in if cur \<in> seen then cycle_walk store child rest seen
              else if cur = child then True
              else cycle_walk store child
                     (rest @ filter (\<lambda>p. p \<notin> insert cur seen) (parents_of store cur))
                     (insert cur seen))"
  by pat_completeness auto
termination
proof (relation "measures [\<lambda>(g, c, fr, seen). card (fst ` set g - seen), \<lambda>(g, c, fr, seen). length fr]",
    goal_cases)
  case (3 g child fr seen cur rest)
  show ?case
  proof (cases "cur \<in> fst ` set g")
    case True
    then have "fst ` set g - insert cur seen \<subset> fst ` set g - seen" using 3 by blast
    then show ?thesis by (simp add: psubset_card_mono)
  next
    case False
    then have "fst ` set g - insert cur seen = fst ` set g - seen" by blast
    then show ?thesis using 3 False by (simp add: succs_off_dom parents_of_def)
  qed
qed auto

declare cycle_walk.simps [simp del]

definition would_form_cycle :: "ident graph \<Rightarrow> ident \<Rightarrow> ident \<Rightarrow> bool" where
  "would_form_cycle store child parent = (child = parent \<or> cycle_walk store child [parent] {})"

section \<open>Depth\<close>

abbreviation (input) cyclic_from :: "ident graph \<Rightarrow> ident \<Rightarrow> bool" where
  "cyclic_from g n \<equiv> \<exists>x. (n, x) \<in> (edge_rel g)\<^sup>* \<and> (x, x) \<in> (edge_rel g)\<^sup>+"

lemma depth_walk_cycle:
  "snd (depth_walk g S n) \<longleftrightarrow>
     (\<exists>x. (n, x) \<in> (edge_rel g)\<^sup>* \<and> (x \<in> S \<or> (x, x) \<in> (edge_rel g)\<^sup>+))"
proof (induction g S n rule: depth_walk.induct)
  case (1 g S n)
  show ?case
  proof (cases "n \<in> S")
    case True
    then show ?thesis by (auto simp: depth_walk.simps)
  next
    case nS: False
    show ?thesis
    proof (cases "succs g n")
      case Nil
      then have "(n, x) \<in> (edge_rel g)\<^sup>* \<longleftrightarrow> x = n" "(n, x) \<notin> (edge_rel g)\<^sup>+" for x
        by (auto elim: converse_rtranclE dest: tranclD)
      then show ?thesis using nS Nil by (auto simp: depth_walk.simps [of g S n] parents_of_def)
    next
      case (Cons p ps)
      have walk: "snd (depth_walk g S n) \<longleftrightarrow> (\<exists>q \<in> set (succs g n). snd (depth_walk g (insert n S) q))"
        using nS Cons by (subst depth_walk.simps) (auto simp: parents_of_def Let_def list_ex_iff)
      have IH: "snd (depth_walk g (insert n S) q) \<longleftrightarrow>
          (\<exists>x. (q, x) \<in> (edge_rel g)\<^sup>* \<and> (x \<in> insert n S \<or> (x, x) \<in> (edge_rel g)\<^sup>+))"
        if "q \<in> set (succs g n)" for q
        using 1 [OF nS, of p ps q] Cons that by (simp add: parents_of_def)
      show ?thesis
      proof
        assume "snd (depth_walk g S n)"
        then obtain q x where q: "q \<in> set (succs g n)" "(q, x) \<in> (edge_rel g)\<^sup>*"
          and x: "x = n \<or> x \<in> S \<or> (x, x) \<in> (edge_rel g)\<^sup>+"
          using walk IH by blast
        have nx: "(n, x) \<in> (edge_rel g)\<^sup>+" using q by (intro rtrancl_into_trancl2) simp_all
        with x show "\<exists>x. (n, x) \<in> (edge_rel g)\<^sup>* \<and> (x \<in> S \<or> (x, x) \<in> (edge_rel g)\<^sup>+)"
          by (blast intro: trancl_into_rtrancl)
      next
        assume "\<exists>x. (n, x) \<in> (edge_rel g)\<^sup>* \<and> (x \<in> S \<or> (x, x) \<in> (edge_rel g)\<^sup>+)"
        then obtain x where x: "(n, x) \<in> (edge_rel g)\<^sup>*" "x \<in> S \<or> (x, x) \<in> (edge_rel g)\<^sup>+" by blast
        then have "(n, x) \<in> (edge_rel g)\<^sup>+" using nS by (auto dest: rtranclD)
        then obtain q where "q \<in> set (succs g n)" "(q, x) \<in> (edge_rel g)\<^sup>*"
          by (auto dest: tranclD)
        then show "snd (depth_walk g S n)" using walk IH x(2) by blast
      qed
    qed
  qed
qed

lemma fold_max_less: "(k :: nat) < fold max ks j \<longleftrightarrow> (\<exists>x \<in> set (j # ks). k < x)"
  by (induction ks arbitrary: j) (auto simp: less_max_iff_disj)

text \<open>Without a cycle the depth exceeds \<open>k\<close> exactly when there is a chain of \<open>k\<close> parent steps.\<close>

lemma depth_walk_chain:
  "\<not> snd (depth_walk g S n) \<Longrightarrow> k < fst (depth_walk g S n) \<longleftrightarrow> (\<exists>m. (n, m) \<in> edge_rel g ^^ k)"
proof (induction g S n arbitrary: k rule: depth_walk.induct)
  case (1 g S n)
  have nS: "n \<notin> S" using 1(2) by (auto simp: depth_walk.simps)
  show ?case
  proof (cases "succs g n")
    case Nil
    have "\<nexists>m. (n, m) \<in> edge_rel g ^^ Suc j" for j
      using Nil by (metis relpow_Suc_D2 edge_rel_iff empty_iff list.set(1))
    then have "(\<exists>m. (n, m) \<in> edge_rel g ^^ k) \<longleftrightarrow> k = 0"
      by (cases k) auto
    with Nil nS show ?thesis by (simp add: depth_walk.simps [of g S n] parents_of_def)
  next
    case (Cons p ps)
    have run: "fst (depth_walk g S n) =
        Suc (fold max (map (\<lambda>q. fst (depth_walk g (insert n S) q)) ps) (fst (depth_walk g (insert n S) p)))"
      and flag: "snd (depth_walk g S n) \<longleftrightarrow> (\<exists>q \<in> set (p # ps). snd (depth_walk g (insert n S) q))"
      using nS Cons by (simp_all add: depth_walk.simps [of g S n] parents_of_def Let_def list_ex_iff comp_def)
    have IH: "j < fst (depth_walk g (insert n S) q) \<longleftrightarrow> (\<exists>m. (q, m) \<in> edge_rel g ^^ j)"
      if "q \<in> set (p # ps)" for q j
    proof -
      have "\<not> snd (depth_walk g (insert n S) q)" using flag 1(2) that by blast
      then show ?thesis using 1(1) [OF nS _ that] Cons by (simp add: parents_of_def)
    qed
    show ?thesis
    proof (cases k)
      case 0
      then show ?thesis using run by auto
    next
      case (Suc j)
      have "k < fst (depth_walk g S n) \<longleftrightarrow> (\<exists>q \<in> set (p # ps). j < fst (depth_walk g (insert n S) q))"
        using run Suc by (simp add: fold_max_less)
      also have "\<dots> \<longleftrightarrow> (\<exists>q \<in> set (p # ps). \<exists>m. (q, m) \<in> edge_rel g ^^ j)"
        using IH by blast
      also have "\<dots> \<longleftrightarrow> (\<exists>m. (n, m) \<in> edge_rel g ^^ Suc j)"
        using Cons by (fastforce dest: relpow_Suc_D2 intro: relpow_Suc_I2)
      finally show ?thesis using Suc by simp
    qed
  qed
qed

lemma stack_depth_cyclic: "cyclic_from g n \<Longrightarrow> m < stack_depth g n m"
  using depth_walk_cycle [of g "{}" n] by (auto simp: stack_depth_def split: prod.splits)

lemma stack_depth_chain:
  "\<not> cyclic_from g n \<Longrightarrow> int k < stack_depth g n m \<longleftrightarrow> (\<exists>x. (n, x) \<in> edge_rel g ^^ k)"
  using depth_walk_cycle [of g "{}" n] depth_walk_chain [of g "{}" n k]
  by (auto simp: stack_depth_def split: prod.splits)

section \<open>Roots\<close>

lemma root_walk_inv:
  assumes "set roots = {x \<in> seen. succs g x = []}"
    and "\<forall>x \<in> seen. set (succs g x) \<subseteq> seen \<union> set fr"
    and "seen \<union> set fr \<subseteq> (edge_rel g)\<^sup>* `` {n}" and "n \<in> seen \<union> set fr"
  shows "set (root_walk g fr seen roots) = {x. (n, x) \<in> (edge_rel g)\<^sup>* \<and> succs g x = []}"
  using assms
proof (induction g fr seen roots rule: root_walk.induct)
  case (1 g fr seen roots)
  show ?case
  proof (cases fr rule: rev_cases)
    case Nil
    have "(n, x) \<in> (edge_rel g)\<^sup>* \<Longrightarrow> x \<in> seen" for x
      using rtrancl_closed [of n x g seen] 1(5,7) Nil by simp
    then have "x \<in> seen \<longleftrightarrow> (n, x) \<in> (edge_rel g)\<^sup>*" for x using 1(6) by blast
    moreover have "root_walk g fr seen roots = roots" by (subst root_walk.simps) (simp add: Nil)
    ultimately show ?thesis using 1(4) by simp
  next
    case (snoc rest cur)
    then have ne: "fr \<noteq> []" and cur: "cur = last fr" and rest: "rest = butlast fr" by simp_all
    have fr: "set fr = insert cur (set rest)" using snoc by simp
    show ?thesis
    proof (cases "cur \<in> seen")
      case True
      have "set (root_walk g rest seen roots) = {x. (n, x) \<in> (edge_rel g)\<^sup>* \<and> succs g x = []}"
        using True fr 1(4-7) by (intro 1(1) [OF ne cur rest True]) auto
      then show ?thesis using snoc True by (subst root_walk.simps) simp
    next
      case False
      have reach: "(n, cur) \<in> (edge_rel g)\<^sup>*" using 1(6) fr by auto
      show ?thesis
      proof (cases "succs g cur = []")
        case True
        have "set (root_walk g rest (insert cur seen) (roots @ [cur])) =
            {x. (n, x) \<in> (edge_rel g)\<^sup>* \<and> succs g x = []}"
          using True False fr 1(4-7)
          by (intro 1(2) [OF ne cur rest False]) (auto simp: parents_of_def)
        then show ?thesis using snoc True False by (subst root_walk.simps) (simp add: parents_of_def)
      next
        case ps: False
        let ?fr = "rest @ filter (\<lambda>p. p \<notin> insert cur seen) (parents_of g cur)"
        have up: "set (succs g cur) \<subseteq> (edge_rel g)\<^sup>* `` {n}"
          using reach by (auto intro: rtrancl_into_rtrancl)
        have "set (root_walk g ?fr (insert cur seen) roots) =
            {x. (n, x) \<in> (edge_rel g)\<^sup>* \<and> succs g x = []}"
        proof (rule 1(3) [OF ne cur rest False])
          show "set roots = {x \<in> insert cur seen. succs g x = []}" using 1(4) ps by auto
          show "\<forall>x \<in> insert cur seen. set (succs g x) \<subseteq> insert cur seen \<union>
              set (rest @ filter (\<lambda>p. p \<notin> insert cur seen) (parents_of g cur))"
            using 1(5) fr by (auto simp: parents_of_def)
          show "insert cur seen \<union> set (rest @ filter (\<lambda>p. p \<notin> insert cur seen) (parents_of g cur)) \<subseteq>
              (edge_rel g)\<^sup>* `` {n}"
            using 1(6) fr up by (auto simp: parents_of_def)
          show "n \<in> insert cur seen \<union> set (rest @ filter (\<lambda>p. p \<notin> insert cur seen) (parents_of g cur))"
            using 1(7) fr by auto
        qed (use ps in \<open>simp add: parents_of_def\<close>)
        then show ?thesis using snoc False ps by (subst root_walk.simps) (simp add: parents_of_def)
      qed
    qed
  qed
qed

lemma stack_root_min:
  "stack_root g n =
     (let roots = {x. (n, x) \<in> (edge_rel g)\<^sup>* \<and> succs g x = []} in if roots = {} then n else Min roots)"
proof -
  have roots: "set (root_walk g [n] {} []) = {x. (n, x) \<in> (edge_rel g)\<^sup>* \<and> succs g x = []}"
    by (rule root_walk_inv) auto
  show ?thesis
  proof (cases "root_walk g [n] {} []")
    case Nil
    then show ?thesis using roots by (simp add: stack_root_def Let_def)
  next
    case (Cons r rs)
    have "stack_root g n = Min (set (r # rs))"
      using Cons by (simp only: stack_root_def list.case Min.set_eq_fold)
    then show ?thesis using roots Cons by (auto simp: Let_def)
  qed
qed

section \<open>Cycles\<close>

lemma escape:
  assumes "(x, c) \<in> (edge_rel g)\<^sup>*" and "x \<in> seen \<union> F" and "c \<notin> seen"
    and "\<forall>x \<in> seen. set (succs g x) \<subseteq> seen \<union> F"
  shows "\<exists>f \<in> F. (f, c) \<in> (edge_rel g)\<^sup>*"
  using assms(1,2)
proof (induction rule: converse_rtrancl_induct)
  case base
  then show ?case using assms(3) by blast
next
  case (step y z)
  show ?case
  proof (cases "y \<in> F")
    case True
    then show ?thesis using step(1,2) by (blast intro: converse_rtrancl_into_rtrancl)
  next
    case False
    then have "z \<in> seen \<union> F" using step assms(4) by auto
    then show ?thesis by (rule step.IH)
  qed
qed

lemma cycle_walk_reach:
  assumes "\<forall>x \<in> seen. set (succs g x) \<subseteq> seen \<union> set fr" and "child \<notin> seen"
  shows "cycle_walk g child fr seen \<longleftrightarrow> (\<exists>f \<in> set fr. (f, child) \<in> (edge_rel g)\<^sup>*)"
  using assms
proof (induction g child fr seen rule: cycle_walk.induct)
  case (1 g child fr seen)
  show ?case
  proof (cases fr rule: rev_cases)
    case Nil
    then show ?thesis by (simp add: cycle_walk.simps)
  next
    case (snoc rest cur)
    then have ne: "fr \<noteq> []" and cur: "cur = last fr" and rest: "rest = butlast fr" by simp_all
    have fr: "set fr = insert cur (set rest)" using snoc by simp
    consider (seen) "cur \<in> seen" | (hit) "cur \<notin> seen" "cur = child" | (go) "cur \<notin> seen" "cur \<noteq> child" by blast
    then show ?thesis
    proof cases
      case seen
      have closed: "\<forall>x \<in> seen. set (succs g x) \<subseteq> seen \<union> set rest" using 1(3) seen fr by auto
      have "cycle_walk g child fr seen = cycle_walk g child rest seen"
        using snoc seen by (subst cycle_walk.simps) simp
      also have "\<dots> \<longleftrightarrow> (\<exists>f \<in> set rest. (f, child) \<in> (edge_rel g)\<^sup>*)"
        by (rule 1(1) [OF ne cur rest seen closed 1(4)])
      also have "\<dots> \<longleftrightarrow> (\<exists>f \<in> set fr. (f, child) \<in> (edge_rel g)\<^sup>*)"
      proof -
        have "\<exists>f \<in> set rest. (f, child) \<in> (edge_rel g)\<^sup>*" if "(cur, child) \<in> (edge_rel g)\<^sup>*"
          using escape [OF that _ 1(4) closed] seen by simp
        then show ?thesis using fr by auto
      qed
      finally show ?thesis .
    next
      case hit
      then show ?thesis using snoc fr by (subst cycle_walk.simps) auto
    next
      case go
      let ?fr = "rest @ filter (\<lambda>p. p \<notin> insert cur seen) (parents_of g cur)"
      have closed: "\<forall>x \<in> insert cur seen. set (succs g x) \<subseteq> insert cur seen \<union> set ?fr"
        using 1(3) fr by (auto simp: parents_of_def)
      have fresh: "child \<notin> insert cur seen" using 1(4) go by auto
      have "cycle_walk g child fr seen = cycle_walk g child ?fr (insert cur seen)"
        using snoc go by (subst cycle_walk.simps) simp
      also have "\<dots> \<longleftrightarrow> (\<exists>f \<in> set ?fr. (f, child) \<in> (edge_rel g)\<^sup>*)"
        by (rule 1(2) [OF ne cur rest go closed fresh])
      also have "\<dots> \<longleftrightarrow> (\<exists>f \<in> set fr. (f, child) \<in> (edge_rel g)\<^sup>*)"
      proof
        assume "\<exists>f \<in> set ?fr. (f, child) \<in> (edge_rel g)\<^sup>*"
        then obtain f where f: "f \<in> set ?fr" "(f, child) \<in> (edge_rel g)\<^sup>*" by blast
        show "\<exists>f \<in> set fr. (f, child) \<in> (edge_rel g)\<^sup>*"
        proof (cases "f \<in> set rest")
          case True
          with f fr show ?thesis by blast
        next
          case False
          then have "(cur, f) \<in> edge_rel g" using f(1) by (simp add: parents_of_def)
          with f(2) fr show ?thesis by (blast intro: converse_rtrancl_into_rtrancl)
        qed
      next
        assume "\<exists>f \<in> set fr. (f, child) \<in> (edge_rel g)\<^sup>*"
        then obtain f where f: "f \<in> set fr" "(f, child) \<in> (edge_rel g)\<^sup>*" by blast
        have "f \<in> insert cur seen \<union> set ?fr" using f(1) fr by auto
        from escape [OF f(2) this fresh closed] show "\<exists>f \<in> set ?fr. (f, child) \<in> (edge_rel g)\<^sup>*" .
      qed
      finally show ?thesis .
    qed
  qed
qed

lemma would_form_cycle_reach: "would_form_cycle g child parent \<longleftrightarrow> (parent, child) \<in> (edge_rel g)\<^sup>*"
  using cycle_walk_reach [of "{}" g "[parent]" child] by (auto simp: would_form_cycle_def)

section \<open>The store protocol\<close>

text \<open>
  What a \<^verbatim>\<open>StoreLike\<close> object promises: its table answers \<open>get_parent_task_ids\<close> and lists
  \<open>all_tasks\<close> in order.
\<close>

locale stack_store =
  fixes table :: "'s \<Rightarrow> ident graph"
    and get_parents :: "ident \<Rightarrow> 's \<Rightarrow> ident list"
    and task_order :: "'s \<Rightarrow> ident list"
    and valid :: "'s \<Rightarrow> bool"
  assumes lookup: "valid s \<Longrightarrow> parents_of (table s) tid = get_parents tid s"
    and order: "map fst (table s) = task_order s"
begin

text \<open>The parent relation as the store answers it.\<close>

definition stacked_on :: "'s \<Rightarrow> (ident \<times> ident) set" where
  "stacked_on s = {(x, p). p \<in> set (get_parents x s)}"

lemma edges: "valid s \<Longrightarrow> edge_rel (table s) = stacked_on s"
  using lookup [of s] by (auto simp: stacked_on_def parents_of_def edge_rel_def)

lemma cycle_exact:
  "valid s \<Longrightarrow> would_form_cycle (table s) child parent \<longleftrightarrow> (parent, child) \<in> (stacked_on s)\<^sup>*"
  by (simp add: would_form_cycle_reach edges)

lemma depth_exact:
  assumes "valid s" and "\<not> (\<exists>x. (tid, x) \<in> (stacked_on s)\<^sup>* \<and> (x, x) \<in> (stacked_on s)\<^sup>+)"
  shows "int k < stack_depth (table s) tid m \<longleftrightarrow> (\<exists>x. (tid, x) \<in> stacked_on s ^^ k)"
  using stack_depth_chain [of tid "table s" k m] assms(2) unfolding edges [OF assms(1)] by blast

lemma depth_cycle:
  assumes "valid s" and "(tid, x) \<in> (stacked_on s)\<^sup>*" and "(x, x) \<in> (stacked_on s)\<^sup>+"
  shows "m < stack_depth (table s) tid m"
  using stack_depth_cyclic [of tid "table s" m] assms(2,3) unfolding edges [OF assms(1)] by blast

lemma size_counts:
  "stack_size_under_root (table s) root =
     length (filter (\<lambda>tid. stack_root (table s) tid = root) (task_order s))"
  by (simp add: stack_size_under_root_def order)

end

definition store_table :: "db \<Rightarrow> ident graph" where
  "store_table d = map (\<lambda>r. (t_id r, nonempty_strings (t_parent_task_ids r))) (all_tasks d)"

text \<open>The adapter's \<^verbatim>\<open>get_parent_task_ids\<close> keeps empty strings.\<close>

definition adapter_parent_task_ids :: "ident \<Rightarrow> db \<Rightarrow> ident list" where
  "adapter_parent_task_ids tid d =
     (case Option.bind (find_task tid d) t_parent_task_ids of None \<Rightarrow> [] | Some ids \<Rightarrow> ids)"

definition adapter_table :: "db \<Rightarrow> ident graph" where
  "adapter_table d =
     map (\<lambda>r. (t_id r, case t_parent_task_ids r of None \<Rightarrow> [] | Some ids \<Rightarrow> ids)) (all_tasks d)"

lemma table_lookup:
  assumes "distinct (task_ids d)"
  shows "map_of (map (\<lambda>r. (t_id r, f r)) (all_tasks d)) tid = map_option f (find_task tid d)"
proof (cases "find_task tid d")
  case None
  then have "tid \<notin> t_id ` set (all_tasks d)"
    using find_task_None_iff [of tid d] by (simp add: all_tasks_facts task_ids_def)
  then show ?thesis using None by (auto simp: map_of_eq_None_iff)
next
  case (Some r)
  then have "(tid, f r) \<in> set (map (\<lambda>r. (t_id r, f r)) (all_tasks d))"
    using find_task_mem [OF Some] find_task_id [OF Some] by (force simp: all_tasks_facts)
  moreover have "distinct (map fst (map (\<lambda>r. (t_id r, f r)) (all_tasks d)))"
    using all_tasks_facts(2) [OF assms] by (simp add: comp_def)
  ultimately show ?thesis using Some by simp
qed

interpretation store_stack:
  stack_store store_table get_parent_task_ids "\<lambda>d. map t_id (all_tasks d)" "\<lambda>d. distinct (task_ids d)"
proof
  show "parents_of (store_table d) tid = get_parent_task_ids tid d" if "distinct (task_ids d)" for d tid
    using table_lookup [OF that, of "\<lambda>r. nonempty_strings (t_parent_task_ids r)" tid]
    by (cases "find_task tid d")
      (simp_all add: parents_of_def succs_def store_table_def get_parent_task_ids_def nonempty_strings_def)
qed (simp add: store_table_def comp_def)

interpretation adapter_stack:
  stack_store adapter_table adapter_parent_task_ids "\<lambda>d. map t_id (all_tasks d)" "\<lambda>d. distinct (task_ids d)"
proof
  show "parents_of (adapter_table d) tid = adapter_parent_task_ids tid d" if "distinct (task_ids d)" for d tid
    using table_lookup [OF that, of "\<lambda>r. case t_parent_task_ids r of None \<Rightarrow> [] | Some ids \<Rightarrow> ids" tid]
    by (cases "find_task tid d")
      (simp_all add: parents_of_def succs_def adapter_table_def adapter_parent_task_ids_def)
qed (simp add: adapter_table_def comp_def)

section \<open>Properties\<close>

text \<open>The parent relation the store answers.\<close>

definition parent_rel :: "db \<Rightarrow> (ident \<times> ident) set" where
  "parent_rel d = {(x, p). p \<in> set (get_parent_task_ids x d)}"

lemma parent_rel_edges: "store_stack.stacked_on d = parent_rel d"
  by (simp add: store_stack.stacked_on_def parent_rel_def)

text \<open>
  C10: the cycle guard is exact. While stacking is acyclic, letting a child stack on a parent keeps it acyclic
  exactly when \<^verbatim>\<open>would_form_cycle\<close> says no.
\<close>

theorem cycle_guard_exact:
  assumes "distinct (task_ids d)" and "acyclic (parent_rel d)"
  shows "acyclic (insert (child, parent) (parent_rel d)) = (\<not> would_form_cycle (store_table d) child parent)"
  using store_stack.cycle_exact [OF assms(1), of child parent] assms(2)
  by (simp add: acyclic_insert parent_rel_edges)

definition demo_task :: "ident \<Rightarrow> ident list \<Rightarrow> task_row" where
  "demo_task i ps = (new_task i PENDING 7)\<lparr>t_parent_task_ids := Some ps\<rparr>"

text \<open>A chain \<open>C\<close> on \<open>B\<close> on \<open>A\<close>.\<close>

definition demo_chain_db :: db where
  "demo_chain_db = (empty_db 7)\<lparr>db_tasks := [demo_task ''A'' [], demo_task ''B'' [''A''], demo_task ''C'' [''B'']]\<rparr>"

lemma demo_chain_ids: "distinct (task_ids demo_chain_db)"
  by code_simp

lemma demo_chain_rel: "parent_rel demo_chain_db = {(''B'', ''A''), (''C'', ''B'')}"
  by (auto simp: parent_rel_def get_parent_task_ids_def demo_chain_db_def find_task_def demo_task_def
      nonempty_strings_def empty_db_def split: if_splits)

lemma demo_chain_acyclic: "acyclic (parent_rel demo_chain_db)"
proof -
  have "acyclic ({} :: (ident \<times> ident) set)" by (simp add: acyclic_def)
  then show ?thesis by (simp add: demo_chain_rel acyclic_insert) (auto elim: converse_rtranclE)
qed

theorem cycle_guard_exact_witness:
  "would_form_cycle (store_table demo_chain_db) ''A'' ''C'' \<and>
   acyclic (insert (''A'', ''C'') (parent_rel demo_chain_db)) =
     (\<not> would_form_cycle (store_table demo_chain_db) ''A'' ''C'')"
  by (rule conjI [OF _ cycle_guard_exact [OF demo_chain_ids demo_chain_acyclic]]) code_simp

text \<open>
  The depth of a stack. Without a cycle above it, the depth of a task exceeds \<open>k\<close> exactly when a chain of \<open>k\<close>
  parents starts at it; with a cycle above it, the depth lies above the sentinel, so the depth gate refuses.
\<close>

theorem stack_depth_spec:
  assumes "distinct (task_ids d)"
  shows "if \<exists>x. (tid, x) \<in> (parent_rel d)\<^sup>* \<and> (x, x) \<in> (parent_rel d)\<^sup>+
    then m < stack_depth (store_table d) tid m
    else (int k < stack_depth (store_table d) tid m) = (\<exists>x. (tid, x) \<in> parent_rel d ^^ k)"
  using store_stack.depth_exact [OF assms, of tid k m] store_stack.depth_cycle [OF assms, of tid _ m]
  unfolding parent_rel_edges by auto

theorem stack_depth_spec_witness:
  "stack_depth (store_table demo_chain_db) ''C'' 9 = 3 \<and>
   (if \<exists>x. (''C'', x) \<in> (parent_rel demo_chain_db)\<^sup>* \<and> (x, x) \<in> (parent_rel demo_chain_db)\<^sup>+
    then 9 < stack_depth (store_table demo_chain_db) ''C'' 9
    else (int 2 < stack_depth (store_table demo_chain_db) ''C'' 9) =
      (\<exists>x. (''C'', x) \<in> parent_rel demo_chain_db ^^ 2))"
  by (rule conjI [OF _ stack_depth_spec [OF demo_chain_ids]]) code_simp

end
