(* ===== verification/Scheduler.thy ===== *)
theory Scheduler
  imports Dag Stacking
begin

text \<open>
  \<^verbatim>\<open>quikode/orchestration/scheduler.py\<close>: which tasks may be picked and in which order. The store is seen
  through the \<^verbatim>\<open>_SchedulerStore\<close> protocol, a record of its answers; \<open>scheduler_store\<close> is the contract
  of the protocol, provided by the production store and by the TUI's read-only adapter
  (\<^verbatim>\<open>quikode/tui/controllers/pending_eligibility.py\<close>).
\<close>

section \<open>Configuration\<close>

datatype stacking_strategy = Strategy_OFF | Strategy_WITHIN_MILESTONE | Strategy_AGGRESSIVE

datatype readiness_mode = Readiness_SPECULATIVE | Readiness_SETTLED

text \<open>The knobs of \<^verbatim>\<open>Config\<close> that the modelled components read.\<close>

record config =
  cfg_max_parallel :: int
  cfg_base_branch :: string
  cfg_review_poll_interval_s :: time
  cfg_review_rounds_max :: int
  cfg_review_response_extra_slots :: int
  cfg_auto_merge_when_clean :: bool
  cfg_review_ready_settle_s :: time
  cfg_notify_ntfy_topic :: string
  cfg_stacking_strategy :: stacking_strategy
  cfg_stacking_max_depth :: int
  cfg_stacking_max_breadth_per_root :: int
  cfg_stacking_auto_rebase_on_parent_merge :: bool
  cfg_stacking_readiness :: readiness_mode
  cfg_rebase_coalesce_window_s :: time
  cfg_stall_warn_seconds :: time
  cfg_container_stats_sample_seconds :: time

section \<open>The protocol\<close>

record sched_view =
  sv_completed_ids :: "ident set"
  sv_active_ids :: "ident set"
  sv_get :: "ident \<Rightarrow> task_row option"
  sv_awaiting_entry_ts :: "ident \<Rightarrow> time option"
  sv_subtask_progress :: "ident \<Rightarrow> nat \<times> nat"
  sv_now :: time

text \<open>The callables \<^verbatim>\<open>stack_depth_fn\<close>, \<^verbatim>\<open>stack_root_fn\<close>, \<^verbatim>\<open>stack_size_under_root_fn\<close>, \<^verbatim>\<open>would_form_cycle_fn\<close>.\<close>

record stack_fns =
  fn_depth :: "ident \<Rightarrow> int"
  fn_root :: "ident \<Rightarrow> ident"
  fn_size :: "ident \<Rightarrow> nat"
  fn_cycle :: "ident \<Rightarrow> ident \<Rightarrow> bool"

section \<open>Readiness and score\<close>

definition sched_stack_ready_states :: "state list" where
  "sched_stack_ready_states =
     stack_ready_states @
     [PENDING_CI, PR_OPENING, AUDIT_LOCAL_CI, AUDIT_RUBRIC, AUDIT_STANDARDS, AUDIT_ARCHITECTURE,
      AUDIT_BEHAVIOR, PROVISIONING, FIXUP_PLANNING]"

definition is_parent_stack_ready ::
  "config \<Rightarrow> state option \<Rightarrow> ident \<Rightarrow> sched_view \<Rightarrow> time option \<Rightarrow> bool" where
  "is_parent_stack_ready cfg parent_state parent_id store now =
     (case parent_state of
        None \<Rightarrow> False
      | Some s \<Rightarrow>
          (case cfg_stacking_readiness cfg of
             Readiness_SPECULATIVE \<Rightarrow> s \<in> set sched_stack_ready_states
           | Readiness_SETTLED \<Rightarrow>
               if s \<noteq> AWAITING_REVIEW then False
               else if cfg_review_ready_settle_s cfg \<le> 0 then True
               else case sv_awaiting_entry_ts store parent_id of
                      None \<Rightarrow> False
                    | Some entered \<Rightarrow>
                        cfg_review_ready_settle_s cfg \<le> get_default now (sv_now store) - entered))"

text \<open>
  \<^verbatim>\<open>round(25 * fraction)\<close> with \<^verbatim>\<open>fraction = done / total\<close> capped at 1: Python rounds half to even. The
  rational arithmetic here agrees with the double arithmetic of the code for all totals below 400.
\<close>

definition progress_boost :: "nat \<Rightarrow> nat \<Rightarrow> int" where
  "progress_boost sub_done sub_total =
     (if sub_total = 0 then 0
      else
        let n = 25 * min sub_done sub_total; q = n div sub_total; r = n mod sub_total
        in int (if 2 * r < sub_total then q
                else if sub_total < 2 * r then q + 1
                else if even q then q else q + 1))"

definition dependents_in_scope :: "dag \<Rightarrow> ident set \<Rightarrow> ident \<Rightarrow> nat" where
  "dependents_in_scope g scope tid =
     length (filter (\<lambda>(nid, n). nid \<in> scope \<and> tid \<in> set (n_depends_on n)) (dag_nodes g))"

definition score_candidate :: "ident \<Rightarrow> dag \<Rightarrow> ident set \<Rightarrow> bool \<Rightarrow> nat \<Rightarrow> nat \<Rightarrow> int" where
  "score_candidate tid g scope has_open_pr sub_done sub_total =
     int (dependents_in_scope g scope tid) * 5 + (if has_open_pr then 15 else 0) +
     progress_boost sub_done sub_total"

record candidate =
  c_task_id :: ident
  c_is_stacked :: bool
  c_unmet :: "ident list"
  c_row :: "task_row option"
  c_has_open_pr :: bool
  c_subtask_done :: nat
  c_subtask_total :: nat

definition prefer_primary_candidates :: "candidate list \<Rightarrow> candidate list" where
  "prefer_primary_candidates cs =
     (let primaries = filter (\<lambda>c. \<not> c_is_stacked c) cs in if primaries \<noteq> [] then primaries else cs)"

definition resume_signals :: "task_row option \<Rightarrow> sched_view \<Rightarrow> bool \<times> nat \<times> nat" where
  "resume_signals row store =
     (case row of
        None \<Rightarrow> (False, 0, 0)
      | Some r \<Rightarrow> (truthy_int (t_pr_number r), sv_subtask_progress store (t_id r)))"

definition make_candidate ::
  "ident \<Rightarrow> bool \<Rightarrow> ident list \<Rightarrow> task_row option \<Rightarrow> bool \<times> nat \<times> nat \<Rightarrow> candidate" where
  "make_candidate nid stacked unmet row sig =
     (case sig of (pr, dn, tot) \<Rightarrow>
        \<lparr>c_task_id = nid, c_is_stacked = stacked, c_unmet = unmet, c_row = row, c_has_open_pr = pr,
         c_subtask_done = dn, c_subtask_total = tot\<rparr>)"

section \<open>Candidate collection\<close>

definition unmet_deps :: "dag \<Rightarrow> ident set \<Rightarrow> node \<Rightarrow> ident list" where
  "unmet_deps g completed n =
     filter (\<lambda>d. d \<notin> completed) (filter (\<lambda>d. d \<in> set (node_ids g)) (n_depends_on n))"

text \<open>The guards at the head of every enumeration loop: the node to consider, if any.\<close>

definition open_node ::
  "dag \<Rightarrow> sched_view \<Rightarrow> ident set \<Rightarrow> ident set \<Rightarrow> ident set \<Rightarrow> ident \<Rightarrow> (node \<times> task_row option) option" where
  "open_node g store completed active in_flight nid =
     (if nid \<in> completed \<or> nid \<in> active \<or> nid \<in> in_flight then None
      else case map_of (dag_nodes g) nid of
             None \<Rightarrow> None
           | Some n \<Rightarrow>
               (case sv_get store nid of
                  None \<Rightarrow> Some (n, None)
                | Some r \<Rightarrow> if t_state r \<noteq> PENDING then None else Some (n, Some r)))"

definition milestone_of :: "dag \<Rightarrow> ident \<Rightarrow> string option" where
  "milestone_of g d = map_option n_milestone (map_of (dag_nodes g) d)"

definition stacking_eligible ::
  "config \<Rightarrow> dag \<Rightarrow> sched_view \<Rightarrow> time option \<Rightarrow> node \<Rightarrow> ident list \<Rightarrow> bool" where
  "stacking_eligible cfg g store now n unmet =
     (cfg_stacking_strategy cfg \<noteq> Strategy_OFF \<and>
      list_all (\<lambda>d. is_parent_stack_ready cfg (map_option t_state (sv_get store d)) d store now) unmet \<and>
      (cfg_stacking_strategy cfg = Strategy_WITHIN_MILESTONE \<longrightarrow>
         list_all (\<lambda>d. milestone_of g d = Some (n_milestone n)) unmet))"

text \<open>Depth, cycle and breadth gates on the first unmet parent.\<close>

definition stack_gates :: "config \<Rightarrow> stack_fns \<Rightarrow> ident \<Rightarrow> ident \<Rightarrow> bool" where
  "stack_gates cfg fns nid parent =
     (fn_depth fns parent < cfg_stacking_max_depth cfg \<and>
      \<not> fn_cycle fns nid parent \<and>
      int (fn_size fns (fn_root fns parent)) < cfg_stacking_max_breadth_per_root cfg)"

definition pick_candidate ::
  "config \<Rightarrow> dag \<Rightarrow> sched_view \<Rightarrow> ident set \<Rightarrow> ident set \<Rightarrow> ident set \<Rightarrow> stack_fns \<Rightarrow> time option \<Rightarrow> ident \<Rightarrow>
   candidate option" where
  "pick_candidate cfg g store completed active in_flight fns now nid =
     (case open_node g store completed active in_flight nid of
        None \<Rightarrow> None
      | Some (n, row) \<Rightarrow>
          let unmet = unmet_deps g completed n; sig = resume_signals row store
          in case unmet of
               [] \<Rightarrow> Some (make_candidate nid False [] row sig)
             | p # _ \<Rightarrow>
                 if stacking_eligible cfg g store now n unmet \<and> stack_gates cfg fns nid p
                 then Some (make_candidate nid True unmet row sig) else None)"

definition collect_pick_candidates ::
  "config \<Rightarrow> dag \<Rightarrow> sched_view \<Rightarrow> ident set \<Rightarrow> ident set \<Rightarrow> stack_fns \<Rightarrow> time option \<Rightarrow> candidate list" where
  "collect_pick_candidates cfg g store scope in_flight fns now =
     (let completed = sv_completed_ids store \<inter> scope; active = sv_active_ids store \<inter> scope
      in List.map_filter (pick_candidate cfg g store completed active in_flight fns now)
           (sorted_list_of_set scope))"

definition fresh_candidate ::
  "dag \<Rightarrow> sched_view \<Rightarrow> ident set \<Rightarrow> ident set \<Rightarrow> ident set \<Rightarrow> ident \<Rightarrow> candidate option" where
  "fresh_candidate g store completed active in_flight nid =
     (case open_node g store completed active in_flight nid of
        None \<Rightarrow> None
      | Some (n, row) \<Rightarrow>
          if unmet_deps g completed n \<noteq> [] then None
          else Some (make_candidate nid False [] row (resume_signals row store)))"

definition score_of :: "dag \<Rightarrow> ident set \<Rightarrow> candidate \<Rightarrow> int" where
  "score_of g scope c =
     score_candidate (c_task_id c) g scope (c_has_open_pr c) (c_subtask_done c) (c_subtask_total c)"

definition best_queued_priority ::
  "config \<Rightarrow> dag \<Rightarrow> sched_view \<Rightarrow> ident set option \<Rightarrow> ident set option \<Rightarrow> stack_fns option \<Rightarrow>
   (ident \<times> int) option" where
  "best_queued_priority cfg g store scope_arg in_flight_arg fns_arg =
     (let scope = get_default scope_arg (set (node_ids g));
          in_flight = get_default in_flight_arg {};
          candidates = (case fns_arg of
             None \<Rightarrow>
               (let completed = sv_completed_ids store \<inter> scope; active = sv_active_ids store \<inter> scope
                in List.map_filter (fresh_candidate g store completed active in_flight)
                     (sorted_list_of_set scope))
           | Some fns \<Rightarrow> collect_pick_candidates cfg g store scope in_flight fns None)
      in if candidates = [] then None
         else
           let scored = map (\<lambda>c. (score_of g scope c, c_task_id c)) (prefer_primary_candidates candidates)
           in case sort_key (\<lambda>(s, i). (- s, i)) scored of
                [] \<Rightarrow> None
              | (best_score, best_id) # _ \<Rightarrow> Some (best_id, best_score))"

definition task_priority_if_picked :: "ident \<Rightarrow> dag \<Rightarrow> ident set \<Rightarrow> int" where
  "task_priority_if_picked tid g scope = score_candidate tid g scope False 0 0"

section \<open>The two providers\<close>

definition store_view :: "db \<Rightarrow> sched_view" where
  "store_view d =
     \<lparr>sv_completed_ids = completed_ids d, sv_active_ids = active_ids d,
      sv_get = (\<lambda>tid. find_task tid d),
      sv_awaiting_entry_ts = (\<lambda>tid. most_recent_awaiting_review_entry_ts tid d),
      sv_subtask_progress = (\<lambda>tid. subtask_progress tid d), sv_now = clock d\<rparr>"

definition adapter_completed_ids :: "db \<Rightarrow> ident set" where
  "adapter_completed_ids d = set (map t_id (filter (\<lambda>r. t_state r = MERGED) (db_tasks d)))"

definition adapter_active_ids :: "db \<Rightarrow> ident set" where
  "adapter_active_ids d =
     set (map t_id (filter (\<lambda>r. t_state r \<notin>
        set [PENDING, MERGED, BLOCKED, FAILED, ABORTED, PENDING_CI]) (db_tasks d)))"

definition adapter_awaiting_entry_ts :: "ident \<Rightarrow> db \<Rightarrow> time option" where
  "adapter_awaiting_entry_ts tid d =
     max_option (map l_ts (filter (\<lambda>l. l_task_id l = tid \<and> l_to_state l = AWAITING_REVIEW) (db_log d)))"

definition adapter_subtask_progress :: "ident \<Rightarrow> db \<Rightarrow> nat \<times> nat" where
  "adapter_subtask_progress tid d =
     (let rows = filter (\<lambda>s. s_task_id s = tid) (db_subtasks d)
      in (sum_list (map (\<lambda>s. if s_state s = Sub_DONE then 1 else 0) rows), length rows))"

definition adapter_view :: "db \<Rightarrow> sched_view" where
  "adapter_view d =
     \<lparr>sv_completed_ids = adapter_completed_ids d, sv_active_ids = adapter_active_ids d,
      sv_get = (\<lambda>tid. find_task tid d),
      sv_awaiting_entry_ts = (\<lambda>tid. adapter_awaiting_entry_ts tid d),
      sv_subtask_progress = (\<lambda>tid. adapter_subtask_progress tid d), sv_now = clock d\<rparr>"

definition table_fns :: "ident graph \<Rightarrow> int \<Rightarrow> stack_fns" where
  "table_fns table max_depth =
     \<lparr>fn_depth = (\<lambda>tid. stack_depth table tid max_depth), fn_root = stack_root table,
      fn_size = stack_size_under_root table, fn_cycle = would_form_cycle table\<rparr>"

definition count_pending_eligible :: "config \<Rightarrow> dag \<Rightarrow> db \<Rightarrow> nat" where
  "count_pending_eligible cfg g d =
     length (prefer_primary_candidates
       (collect_pick_candidates cfg g (adapter_view d) (set (node_ids g)) {}
          (table_fns (adapter_table d) (cfg_stacking_max_depth cfg)) None))"

section \<open>Scores\<close>

lemma progress_boost_bounds: "0 \<le> progress_boost a b \<and> progress_boost a b \<le> 25"
proof (cases "b = 0")
  case True
  then show ?thesis by (simp add: progress_boost_def)
next
  case False
  let ?n = "25 * min a b"
  have n: "?n = b * (?n div b) + ?n mod b" by simp
  have "?n \<le> 25 * b" by simp
  then have le: "?n div b \<le> 25" using False by (metis div_le_mono nonzero_mult_div_cancel_right)
  have "?n div b = 25 \<Longrightarrow> ?n mod b = 0"
    using n \<open>?n \<le> 25 * b\<close> by (metis add_le_same_cancel1 le_zero_eq mult.commute)
  with le consider "?n div b = 25" "?n mod b = 0" | "?n div b \<le> 24" by linarith
  then show ?thesis
  proof cases
    case 1
    then show ?thesis using False by (simp add: progress_boost_def Let_def)
  next
    case 2
    then have "?n div b + 1 \<le> 25" by simp
    with 2 show ?thesis unfolding progress_boost_def Let_def by (simp only: split: if_split) simp
  qed
qed

lemma progress_boost_full: "0 < b \<Longrightarrow> b \<le> a \<Longrightarrow> progress_boost a b = 25"
  by (simp add: progress_boost_def Let_def min_def)

text \<open>A task with fewer dependents never overtakes one with at least eight more: resume signals weigh at most 40.\<close>

lemma score_bounds:
  "5 * int (dependents_in_scope g scope tid) \<le> score_candidate tid g scope pr a b \<and>
   score_candidate tid g scope pr a b \<le> 5 * int (dependents_in_scope g scope tid) + 40"
  using progress_boost_bounds [of a b] by (simp add: score_candidate_def)

lemma prefer_primary_subset: "set (prefer_primary_candidates cs) \<subseteq> set cs"
  by (auto simp: prefer_primary_candidates_def Let_def)

lemma prefer_primary_tier:
  "c \<in> set (prefer_primary_candidates cs) \<Longrightarrow> c_is_stacked c \<Longrightarrow> \<forall>c' \<in> set cs. c_is_stacked c'"
  by (auto simp: prefer_primary_candidates_def Let_def filter_empty_conv split: if_splits)

lemma prefer_primary_Nil [simp]: "prefer_primary_candidates cs = [] \<longleftrightarrow> cs = []"
  by (auto simp: prefer_primary_candidates_def Let_def)

text \<open>The head of a list sorted by a key is a minimum of the key.\<close>

lemma sort_key_hd:
  assumes "sort_key f xs = x # ys"
  shows "x \<in> set xs \<and> (\<forall>y \<in> set xs. f x \<le> f y)"
proof -
  have "set xs = set (x # ys)" using assms by (metis set_sort)
  moreover have "sorted (map f (x # ys))" using assms by (metis sorted_sort_key)
  ultimately show ?thesis by auto
qed

lemma sort_key_Nil [simp]: "sort_key f xs = [] \<longleftrightarrow> xs = []"
  by (metis length_0_conv length_sort)

section \<open>Eligibility\<close>

lemma open_node_SomeD:
  "open_node g store completed active in_flight nid = Some (n, row) \<Longrightarrow>
     nid \<notin> completed \<and> nid \<notin> active \<and> nid \<notin> in_flight \<and> map_of (dag_nodes g) nid = Some n \<and>
     row = sv_get store nid \<and> (\<forall>r. row = Some r \<longrightarrow> t_state r = PENDING)"
  by (auto simp: open_node_def split: if_splits option.splits)

lemma make_candidate_simps [simp]:
  "c_task_id (make_candidate nid st u row sig) = nid"
  "c_is_stacked (make_candidate nid st u row sig) = st"
  "c_unmet (make_candidate nid st u row sig) = u"
  "c_row (make_candidate nid st u row sig) = row"
  by (simp_all add: make_candidate_def split: prod.splits)

lemma pick_candidate_SomeD:
  assumes "pick_candidate cfg g store completed active in_flight fns now nid = Some c"
  shows "\<exists>n row. open_node g store completed active in_flight nid = Some (n, row) \<and>
    c_task_id c = nid \<and> c_unmet c = unmet_deps g completed n \<and> c_row c = row \<and>
    (c_is_stacked c \<longleftrightarrow> unmet_deps g completed n \<noteq> []) \<and>
    (c_is_stacked c \<longrightarrow> stacking_eligible cfg g store now n (c_unmet c) \<and>
       stack_gates cfg fns nid (hd (c_unmet c)))"
  using assms
  by (auto simp: pick_candidate_def Let_def split: option.splits list.splits if_splits)

lemma map_filter_mem: "y \<in> set (List.map_filter f xs) \<longleftrightarrow> (\<exists>x \<in> set xs. f x = Some y)"
  by (induction xs) (auto simp: List.map_filter_simps split: option.splits)

lemma collect_mem:
  assumes "finite scope"
  shows "c \<in> set (collect_pick_candidates cfg g store scope in_flight fns now) \<longleftrightarrow>
    (\<exists>nid \<in> scope. pick_candidate cfg g store (sv_completed_ids store \<inter> scope)
       (sv_active_ids store \<inter> scope) in_flight fns now nid = Some c)"
  using assms by (simp add: collect_pick_candidates_def Let_def map_filter_mem)

text \<open>
  The contract of \<^verbatim>\<open>_SchedulerStore\<close>: the three state queries agree about one state per task.
\<close>

locale scheduler_store =
  fixes view :: "'s \<Rightarrow> sched_view"
    and state_of :: "ident \<Rightarrow> 's \<Rightarrow> state option"
    and valid :: "'s \<Rightarrow> bool"
  assumes completed_law: "valid s \<Longrightarrow> x \<in> sv_completed_ids (view s) \<longleftrightarrow> state_of x s = Some MERGED"
    and active_law: "valid s \<Longrightarrow> x \<in> sv_active_ids (view s) \<longleftrightarrow>
      (\<exists>t. state_of x s = Some t \<and> t \<notin> {PENDING, MERGED, BLOCKED, FAILED, ABORTED, PENDING_CI})"
    and get_law: "valid s \<Longrightarrow> map_option t_state (sv_get (view s) x) = state_of x s"
begin

lemma get_state: "valid s \<Longrightarrow> sv_get (view s) x = Some r \<Longrightarrow> state_of x s = Some (t_state r)"
  using get_law [of s x] by simp

lemma get_none: "valid s \<Longrightarrow> sv_get (view s) x = None \<Longrightarrow> state_of x s = None"
  using get_law [of s x] by simp

lemma candidate_open:
  assumes "valid s" and "finite scope"
    and "c \<in> set (collect_pick_candidates cfg g (view s) scope in_flight fns now)"
  shows "c_task_id c \<in> scope - in_flight \<and> c_task_id c \<in> set (node_ids g) \<and>
    state_of (c_task_id c) s \<in> {None, Some PENDING}"
proof -
  obtain n row where "c_task_id c \<in> scope"
    and "open_node g (view s) (sv_completed_ids (view s) \<inter> scope) (sv_active_ids (view s) \<inter> scope)
       in_flight (c_task_id c) = Some (n, row)"
    using assms(3) pick_candidate_SomeD unfolding collect_mem [OF assms(2)] by metis
  note op = open_node_SomeD [OF this(2)]
  have "state_of (c_task_id c) s \<in> {None, Some PENDING}"
    using op get_law [OF assms(1), of "c_task_id c"]
    by (cases "sv_get (view s) (c_task_id c)") simp_all
  moreover have "c_task_id c \<in> set (node_ids g)"
    using op by (auto simp: node_ids_def dest!: map_of_SomeD intro: rev_image_eqI)
  ultimately show ?thesis using op \<open>c_task_id c \<in> scope\<close> by blast
qed

lemma primary_deps_merged:
  assumes "valid s" and "finite scope"
    and "c \<in> set (collect_pick_candidates cfg g (view s) scope in_flight fns now)"
    and "\<not> c_is_stacked c" and "map_of (dag_nodes g) (c_task_id c) = Some n"
    and "d \<in> set (n_depends_on n)" and "d \<in> set (node_ids g)"
  shows "d \<in> scope \<and> state_of d s = Some MERGED"
proof -
  obtain m row where "open_node g (view s) (sv_completed_ids (view s) \<inter> scope) (sv_active_ids (view s) \<inter> scope)
       in_flight (c_task_id c) = Some (m, row)"
    and "unmet_deps g (sv_completed_ids (view s) \<inter> scope) m = []"
    using assms(3,4) pick_candidate_SomeD unfolding collect_mem [OF assms(2)] by metis
  then have "unmet_deps g (sv_completed_ids (view s) \<inter> scope) n = []"
    using open_node_SomeD assms(5) by fastforce
  then have "d \<in> sv_completed_ids (view s) \<inter> scope"
    using assms(6,7) by (auto simp: unmet_deps_def filter_empty_conv)
  with completed_law [OF assms(1)] show ?thesis by blast
qed

lemma stacked_deps_ready:
  assumes "valid s" and "finite scope"
    and "c \<in> set (collect_pick_candidates cfg g (view s) scope in_flight fns now)"
    and "c_is_stacked c"
  shows "cfg_stacking_strategy cfg \<noteq> Strategy_OFF \<and> c_unmet c \<noteq> [] \<and>
    (\<forall>d \<in> set (c_unmet c). is_parent_stack_ready cfg (state_of d s) d (view s) now) \<and>
    stack_gates cfg fns (c_task_id c) (hd (c_unmet c))"
proof -
  obtain n where "stacking_eligible cfg g (view s) now n (c_unmet c)"
    and gates: "stack_gates cfg fns (c_task_id c) (hd (c_unmet c))" and ne: "c_unmet c \<noteq> []"
    using assms(3,4) pick_candidate_SomeD unfolding collect_mem [OF assms(2)] by metis
  then show ?thesis
    using gates ne get_law [OF assms(1)] by (simp add: stacking_eligible_def list_all_iff)
qed

lemma root_is_candidate:
  assumes "valid s" and "finite scope" and "nid \<in> scope - in_flight"
    and "map_of (dag_nodes g) nid = Some n" and "state_of nid s \<in> {None, Some PENDING}"
    and "\<And>d. d \<in> set (n_depends_on n) \<Longrightarrow> d \<in> set (node_ids g) \<Longrightarrow> d \<in> scope \<and> state_of d s = Some MERGED"
  shows "\<exists>c \<in> set (collect_pick_candidates cfg g (view s) scope in_flight fns now).
    c_task_id c = nid \<and> \<not> c_is_stacked c"
proof -
  let ?comp = "sv_completed_ids (view s) \<inter> scope" and ?act = "sv_active_ids (view s) \<inter> scope"
  have un: "unmet_deps g ?comp n = []"
    using assms(6) completed_law [OF assms(1)] by (auto simp: unmet_deps_def filter_empty_conv)
  have "nid \<notin> ?comp" "nid \<notin> ?act"
    using assms(5) completed_law [OF assms(1)] active_law [OF assms(1)] by auto
  moreover have "\<forall>r. sv_get (view s) nid = Some r \<longrightarrow> t_state r = PENDING"
    using assms(5) get_law [OF assms(1), of nid] by auto
  ultimately have "open_node g (view s) ?comp ?act in_flight nid = Some (n, sv_get (view s) nid)"
    using assms(3,4) by (auto simp: open_node_def split: option.splits)
  then have "pick_candidate cfg g (view s) ?comp ?act in_flight fns now nid =
      Some (make_candidate nid False [] (sv_get (view s) nid) (resume_signals (sv_get (view s) nid) (view s)))"
    by (simp add: pick_candidate_def un)
  with assms(3) show ?thesis unfolding collect_mem [OF assms(2)] Bex_def by (metis DiffD1 make_candidate_simps(1,2))
qed

end

lemma ids_of_state:
  assumes "distinct (task_ids d)"
  shows "x \<in> set (map t_id (filter (\<lambda>r. P (t_state r)) (db_tasks d))) \<longleftrightarrow>
     (\<exists>t. select_state x d = Some t \<and> P t)"
proof
  assume "x \<in> set (map t_id (filter (\<lambda>r. P (t_state r)) (db_tasks d)))"
  then obtain r where r: "r \<in> set (db_tasks d)" "x = t_id r" "P (t_state r)" by auto
  with find_task_unique [OF assms r(1)] show "\<exists>t. select_state x d = Some t \<and> P t"
    by (simp add: select_state_def)
next
  assume "\<exists>t. select_state x d = Some t \<and> P t"
  then obtain r where "find_task x d = Some r" "P (t_state r)"
    by (auto simp: select_state_def)
  with find_task_mem [OF this(1)] find_task_id [OF this(1)]
  show "x \<in> set (map t_id (filter (\<lambda>r. P (t_state r)) (db_tasks d)))"
    by (auto intro: rev_image_eqI)
qed

interpretation store_sched: scheduler_store store_view select_state "\<lambda>d. distinct (task_ids d)"
proof
  fix d :: db and x
  assume d: "distinct (task_ids d)"
  show "x \<in> sv_completed_ids (store_view d) \<longleftrightarrow> select_state x d = Some MERGED"
    using ids_of_state [OF d, of x "\<lambda>t. t = MERGED"] by (simp add: store_view_def completed_ids_def)
  show "x \<in> sv_active_ids (store_view d) \<longleftrightarrow>
      (\<exists>t. select_state x d = Some t \<and> t \<notin> {PENDING, MERGED, BLOCKED, FAILED, ABORTED, PENDING_CI})"
    using ids_of_state [OF d, of x "\<lambda>t. t \<notin> {PENDING, MERGED, BLOCKED, FAILED, ABORTED, PENDING_CI}"]
    by (simp add: store_view_def active_ids_def)
qed (simp add: store_view_def select_state_def)

text \<open>The adapter answers every scheduler query as the store does; only its parent lists may differ.\<close>

lemma adapter_view_eq: "adapter_view d = store_view d"
proof -
  have count: "sum_list (map (\<lambda>s. if s_state s = Sub_DONE then 1 else 0) rows) =
      length (filter (\<lambda>s. s_state s = Sub_DONE) rows)" for rows
    by (induction rows) simp_all
  have "adapter_subtask_progress tid d = subtask_progress tid d" for tid
    by (simp only: adapter_subtask_progress_def subtask_progress_def Let_def count)
  moreover have "adapter_awaiting_entry_ts tid d = most_recent_awaiting_review_entry_ts tid d" for tid
    by (simp add: adapter_awaiting_entry_ts_def most_recent_awaiting_review_entry_ts_def last_entry_ts_def
        task_log_def conj_commute)
  ultimately show ?thesis
    by (simp add: adapter_view_def store_view_def adapter_completed_ids_def completed_ids_def
        adapter_active_ids_def active_ids_def)
qed

interpretation adapter_sched: scheduler_store adapter_view select_state "\<lambda>d. distinct (task_ids d)"
  unfolding adapter_view_eq [abs_def] by (rule store_sched.scheduler_store_axioms)

section \<open>The pick\<close>

lemma best_queued_max:
  assumes "best_queued_priority cfg g store sc infl (Some fns) = Some (tid, score)"
  shows "\<exists>c \<in> set (prefer_primary_candidates (collect_pick_candidates cfg g store
      (get_default sc (set (node_ids g))) (get_default infl {}) fns None)).
    c_task_id c = tid \<and> score_of g (get_default sc (set (node_ids g))) c = score \<and>
    (\<forall>c' \<in> set (prefer_primary_candidates (collect_pick_candidates cfg g store
        (get_default sc (set (node_ids g))) (get_default infl {}) fns None)).
       score_of g (get_default sc (set (node_ids g))) c' < score \<or>
       score_of g (get_default sc (set (node_ids g))) c' = score \<and> tid \<le> c_task_id c')"
proof -
  let ?scope = "get_default sc (set (node_ids g))"
  let ?cs = "prefer_primary_candidates (collect_pick_candidates cfg g store ?scope (get_default infl {}) fns None)"
  let ?key = "\<lambda>(s :: int, i :: ident). (- s, i)"
  let ?scored = "map (\<lambda>c. (score_of g ?scope c, c_task_id c)) ?cs"
  obtain rest where srt: "sort_key ?key ?scored = (score, tid) # rest"
    using assms by (auto simp: best_queued_priority_def Let_def split: if_splits list.splits)
  note best = sort_key_hd [OF srt]
  then obtain c where c: "c \<in> set ?cs" "score_of g ?scope c = score" "c_task_id c = tid" by auto
  have "score_of g ?scope c' < score \<or> score_of g ?scope c' = score \<and> tid \<le> c_task_id c'"
    if "c' \<in> set ?cs" for c'
  proof -
    have "?key (score, tid) \<le> ?key (score_of g ?scope c', c_task_id c')" using best that by auto
    then show ?thesis by (auto simp: less_eq_prod_def)
  qed
  with c show ?thesis by blast
qed

section \<open>Properties\<close>

lemma known_node: "x \<in> set (node_ids g) \<Longrightarrow> \<exists>n. map_of (dag_nodes g) x = Some n"
  by (cases "map_of (dag_nodes g) x") (auto simp: node_ids_def map_of_eq_None_iff)

text \<open>
  The scheduler's notion of a ready root is exact. A node of the scope that nobody works on is offered as a
  primary candidate if and only if it is new or PENDING and each of its dependencies that the DAG knows lies in the
  scope and is MERGED.
\<close>

theorem primary_candidates_exact:
  assumes "distinct (task_ids d)" and "finite scope"
  shows "(\<exists>c \<in> set (collect_pick_candidates cfg g (store_view d) scope in_flight fns now).
      c_task_id c = nid \<and> \<not> c_is_stacked c) =
    (nid \<in> scope - in_flight \<and> select_state nid d \<in> {None, Some PENDING} \<and>
     (\<exists>n. map_of (dag_nodes g) nid = Some n \<and>
        (\<forall>dep \<in> set (n_depends_on n) \<inter> set (node_ids g). dep \<in> scope \<and> select_state dep d = Some MERGED)))"
    (is "?offered = ?ready")
proof
  assume ?offered
  then obtain c where c: "c \<in> set (collect_pick_candidates cfg g (store_view d) scope in_flight fns now)"
    "c_task_id c = nid" "\<not> c_is_stacked c" by blast
  note op = store_sched.candidate_open [OF assms c(1)]
  obtain n where n: "map_of (dag_nodes g) nid = Some n"
    using known_node op c(2) by blast
  have "dep \<in> scope \<and> select_state dep d = Some MERGED"
    if "dep \<in> set (n_depends_on n) \<inter> set (node_ids g)" for dep
    using store_sched.primary_deps_merged [OF assms c(1,3), of n dep] that n c(2) by auto
  with op n c(2) show ?ready by blast
next
  assume ?ready
  then obtain n where "nid \<in> scope - in_flight" "map_of (dag_nodes g) nid = Some n"
    "select_state nid d \<in> {None, Some PENDING}"
    "\<And>dep. dep \<in> set (n_depends_on n) \<Longrightarrow> dep \<in> set (node_ids g) \<Longrightarrow>
       dep \<in> scope \<and> select_state dep d = Some MERGED" by blast
  from store_sched.root_is_candidate [OF assms this] show ?offered by blast
qed

definition demo_config :: config where
  "demo_config = \<lparr>cfg_max_parallel = 2, cfg_base_branch = ''main'', cfg_review_poll_interval_s = 60,
     cfg_review_rounds_max = 3, cfg_review_response_extra_slots = 1, cfg_auto_merge_when_clean = True,
     cfg_review_ready_settle_s = 1800, cfg_notify_ntfy_topic = ''reviews'',
     cfg_stacking_strategy = Strategy_AGGRESSIVE, cfg_stacking_max_depth = 5,
     cfg_stacking_max_breadth_per_root = 4, cfg_stacking_auto_rebase_on_parent_merge = True,
     cfg_stacking_readiness = Readiness_SPECULATIVE, cfg_rebase_coalesce_window_s = 60,
     cfg_stall_warn_seconds = 1800, cfg_container_stats_sample_seconds = 30\<rparr>"

text \<open>The diamond with its root merged.\<close>

definition demo_merged_root :: db where
  "demo_merged_root = (empty_db 7)\<lparr>db_tasks := [new_task ''A'' MERGED 7, new_task ''B'' PENDING 7]\<rparr>"

lemma demo_merged_root_ids: "distinct (task_ids demo_merged_root)"
  by code_simp

theorem primary_candidates_exact_witness:
  "''B'' \<in> {''A'', ''B''} - {} \<and>
   (\<exists>c \<in> set (collect_pick_candidates demo_config demo_dag (store_view demo_merged_root) {''A'', ''B''} {}
        (table_fns (store_table demo_merged_root) 5) None). c_task_id c = ''B'' \<and> \<not> c_is_stacked c) =
    (''B'' \<in> {''A'', ''B''} - {} \<and> select_state ''B'' demo_merged_root \<in> {None, Some PENDING} \<and>
     (\<exists>n. map_of (dag_nodes demo_dag) ''B'' = Some n \<and>
        (\<forall>dep \<in> set (n_depends_on n) \<inter> set (node_ids demo_dag).
           dep \<in> {''A'', ''B''} \<and> select_state dep demo_merged_root = Some MERGED)))"
  by (rule conjI [OF _ primary_candidates_exact [OF demo_merged_root_ids]]) simp_all

end
