(* ===== verification/FsmRuntime.thy ===== *)
theory FsmRuntime
  imports StoreReview
begin

text \<open>
  \<^verbatim>\<open>quikode/fsm_runtime.py\<close>: the helpers workers and watchers call to move a task. A helper reads the
  current state, picks the event the state admits and applies it; from any other state it returns
  \<^const>\<open>None\<close> and leaves the database alone. \<open>fsm_helper\<close> is the contract all of them share;
  \<open>mark_merged\<close>, which may fire several events, and the raw forced recovery are treated apart.
\<close>

section \<open>Operations\<close>

definition audit_stage_events :: "(state \<times> event \<times> event) list" where
  "audit_stage_events =
     [(AUDIT_LOCAL_CI, Ev_AUDIT_LOCAL_CI_PASSED, Ev_AUDIT_LOCAL_CI_FAILED),
      (AUDIT_RUBRIC, Ev_AUDIT_RUBRIC_PASSED, Ev_AUDIT_RUBRIC_FAILED),
      (AUDIT_STANDARDS, Ev_AUDIT_STANDARDS_PASSED, Ev_AUDIT_STANDARDS_FAILED),
      (AUDIT_ARCHITECTURE, Ev_AUDIT_ARCHITECTURE_PASSED, Ev_AUDIT_ARCHITECTURE_FAILED),
      (AUDIT_BEHAVIOR, Ev_AUDIT_BEHAVIOR_PASSED, Ev_AUDIT_BEHAVIOR_FAILED)]"

definition in_audit_stage :: "state \<Rightarrow> bool" where
  "in_audit_stage s \<longleftrightarrow> map_of audit_stage_events s \<noteq> None"

definition current_state :: "ident \<Rightarrow> state store_act" where
  "current_state tid =
     py_bind (py_read (select_state tid)) (\<lambda>cur. case cur of
        None \<Rightarrow> py_raise (no_such_task tid)
      | Some s \<Rightarrow> py_return s)"

type_synonym helper = "ident \<Rightarrow> string option \<Rightarrow> task_field list \<Rightarrow> state option store_act"

text \<open>\<^verbatim>\<open>return store.apply_event(task_id, event, note=note, **fields)\<close> at type \<^verbatim>\<open>State | None\<close>.\<close>

definition fire :: "ident \<Rightarrow> event \<Rightarrow> string option \<Rightarrow> task_field list \<Rightarrow> state option store_act" where
  "fire tid ev note kw = py_bind (apply_event tid ev note kw) (\<lambda>t. py_return (Some t))"

text \<open>\<^verbatim>\<open>except InvalidTransition: return None\<close>.\<close>

definition skip_invalid :: "py_error \<Rightarrow> state option store_act" where
  "skip_invalid e = (case e of InvalidTransition _ \<Rightarrow> py_return None | _ \<Rightarrow> py_raise e)"

definition start_task :: "ident \<Rightarrow> string option \<Rightarrow> task_field list \<Rightarrow> state store_act" where
  "start_task tid note kw = apply_event tid Ev_START_TASK note kw"

definition environment_ready :: "ident \<Rightarrow> string option \<Rightarrow> task_field list \<Rightarrow> state store_act" where
  "environment_ready tid note kw = apply_event tid Ev_ENVIRONMENT_READY note kw"

definition enter_doing_subtask :: helper where
  "enter_doing_subtask tid note kw =
     py_bind (current_state tid) (\<lambda>s.
       if s = DOING_SUBTASK then py_return (Some s)
       else case map_of [(PLANNING, Ev_PLAN_VALID), (TRIAGING_SUBTASK, Ev_RETRY_SUBTASK),
                         (FIXUP_PLANNING, Ev_FIXUP_PLAN_VALID), (PUSHING, Ev_MORE_SUBTASKS)] s of
              None \<Rightarrow> py_return None
            | Some ev \<Rightarrow> fire tid ev note kw)"

definition enter_checking_subtask :: helper where
  "enter_checking_subtask tid note kw =
     py_bind (current_state tid) (\<lambda>s.
       if s = CHECKING_SUBTASK then py_return (Some s)
       else if s \<noteq> DOING_SUBTASK then py_return None
       else fire tid Ev_DOER_DONE note kw)"

definition enter_triaging_subtask :: helper where
  "enter_triaging_subtask tid note kw =
     py_bind (current_state tid) (\<lambda>s.
       if s = TRIAGING_SUBTASK then py_return (Some s)
       else if s \<noteq> CHECKING_SUBTASK then py_return None
       else fire tid Ev_SUBTASK_FAILED note kw)"

definition enter_committing :: helper where
  "enter_committing tid note kw =
     py_bind (current_state tid) (\<lambda>s.
       if s \<noteq> CHECKING_SUBTASK then py_return None else fire tid Ev_SUBTASK_PASSED note kw)"

definition enter_pushing :: helper where
  "enter_pushing tid note kw =
     py_bind (current_state tid) (\<lambda>s.
       if s \<noteq> COMMITTING then py_return None else fire tid Ev_COMMIT_CREATED note kw)"

definition enter_local_ci_checking :: helper where
  "enter_local_ci_checking tid note kw =
     py_bind (current_state tid) (\<lambda>s.
       if s = LOCAL_CI_CHECKING then py_return (Some s)
       else if s \<noteq> PUSHING then py_return None
       else fire tid Ev_ALL_SUBTASKS_DONE note kw)"

text \<open>
  The keyword \<^verbatim>\<open>event\<close> is consumed only on the \<^const>\<open>AWAITING_REVIEW\<close> branch; on the other firing
  branches it reaches \<^verbatim>\<open>apply_event\<close>, whose positional argument has the same name.
\<close>

definition event_clash :: py_error where
  "event_clash = TypeError (''apply_event() got multiple values for argument '' @ py_repr ''event'')"

definition enter_audit_local_ci ::
  "ident \<Rightarrow> event option \<Rightarrow> string option \<Rightarrow> task_field list \<Rightarrow> state option store_act" where
  "enter_audit_local_ci tid event note kw =
     py_bind (current_state tid) (\<lambda>s.
       let apply_kw = (\<lambda>ev. if event = None then fire tid ev note kw else py_raise event_clash)
       in if s = AUDIT_LOCAL_CI then py_return (Some s)
          else if s = LOCAL_CI_CHECKING then apply_kw Ev_LOCAL_CI_PASSED
          else if s = PENDING_CI then apply_kw Ev_CI_FIXUP_START
          else if s = AWAITING_REVIEW
            then fire tid (get_default event Ev_REVIEW_FIXUP_START) note kw
          else py_return None)"

definition advance_audit_stage ::
  "ident \<Rightarrow> bool \<Rightarrow> state \<Rightarrow> string option \<Rightarrow> task_field list \<Rightarrow> state option store_act" where
  "advance_audit_stage tid passed expected note kw =
     py_bind (current_state tid) (\<lambda>s.
       if s \<noteq> expected then py_return None
       else case map_of audit_stage_events expected of
              None \<Rightarrow> py_raise (KeyError (state_value expected))
            | Some (passed_event, failed_event) \<Rightarrow>
                fire tid (if passed then passed_event else failed_event) note kw)"

definition audit_local_ci_passed :: helper where
  "audit_local_ci_passed tid note kw = advance_audit_stage tid True AUDIT_LOCAL_CI note kw"

definition audit_local_ci_failed :: helper where
  "audit_local_ci_failed tid note kw = advance_audit_stage tid False AUDIT_LOCAL_CI note kw"

definition enter_audit_rubric :: helper where
  "enter_audit_rubric tid note kw = audit_local_ci_passed tid note kw"

definition audit_rubric_passed :: helper where
  "audit_rubric_passed tid note kw = advance_audit_stage tid True AUDIT_RUBRIC note kw"

definition audit_rubric_failed :: helper where
  "audit_rubric_failed tid note kw = advance_audit_stage tid False AUDIT_RUBRIC note kw"

definition enter_audit_standards :: helper where
  "enter_audit_standards tid note kw = audit_rubric_passed tid note kw"

definition audit_standards_passed :: helper where
  "audit_standards_passed tid note kw = advance_audit_stage tid True AUDIT_STANDARDS note kw"

definition audit_standards_failed :: helper where
  "audit_standards_failed tid note kw = advance_audit_stage tid False AUDIT_STANDARDS note kw"

definition enter_audit_architecture :: helper where
  "enter_audit_architecture tid note kw = audit_standards_passed tid note kw"

definition audit_architecture_passed :: helper where
  "audit_architecture_passed tid note kw = advance_audit_stage tid True AUDIT_ARCHITECTURE note kw"

definition audit_architecture_failed :: helper where
  "audit_architecture_failed tid note kw = advance_audit_stage tid False AUDIT_ARCHITECTURE note kw"

definition enter_audit_behavior :: helper where
  "enter_audit_behavior tid note kw = audit_architecture_passed tid note kw"

definition audit_behavior_passed :: helper where
  "audit_behavior_passed tid note kw = advance_audit_stage tid True AUDIT_BEHAVIOR note kw"

definition audit_behavior_failed :: helper where
  "audit_behavior_failed tid note kw = advance_audit_stage tid False AUDIT_BEHAVIOR note kw"

definition enter_fixup_planning :: helper where
  "enter_fixup_planning tid note kw =
     py_bind (current_state tid) (\<lambda>s.
       if s = FIXUP_PLANNING then py_return (Some s)
       else case map_of [(LOCAL_CI_CHECKING, Ev_LOCAL_CI_FAILED),
                         (AUDIT_LOCAL_CI, Ev_AUDIT_LOCAL_CI_FAILED),
                         (AUDIT_RUBRIC, Ev_AUDIT_RUBRIC_FAILED),
                         (AUDIT_STANDARDS, Ev_AUDIT_STANDARDS_FAILED),
                         (AUDIT_ARCHITECTURE, Ev_AUDIT_ARCHITECTURE_FAILED),
                         (AUDIT_BEHAVIOR, Ev_AUDIT_BEHAVIOR_FAILED)] s of
              None \<Rightarrow> py_return None
            | Some ev \<Rightarrow> fire tid ev note kw)"

definition enter_pr_opening :: helper where
  "enter_pr_opening tid note kw =
     py_bind (current_state tid) (\<lambda>s.
       if s = PR_OPENING then py_return (Some s)
       else if s \<noteq> AUDIT_BEHAVIOR then py_return None
       else fire tid Ev_AUDIT_BEHAVIOR_PASSED note kw)"

definition enter_pending_ci :: helper where
  "enter_pending_ci tid note kw =
     py_bind (current_state tid) (\<lambda>s.
       if s = PENDING_CI then py_return (Some s)
       else case map_of [(PR_OPENING, Ev_PR_OPENED), (REBASING_TO_MAIN, Ev_REBASE_PUSHED)] s of
              None \<Rightarrow> py_return None
            | Some ev \<Rightarrow> fire tid ev note kw)"

definition enter_awaiting_review :: helper where
  "enter_awaiting_review tid note kw =
     py_bind (current_state tid) (\<lambda>s.
       if s = AWAITING_REVIEW then py_return (Some s)
       else if s \<noteq> PENDING_CI then py_return None
       else fire tid Ev_CI_PASSED note kw)"

definition enter_audit_cycle_for_ci_fixup :: helper where
  "enter_audit_cycle_for_ci_fixup tid note kw =
     py_bind (current_state tid) (\<lambda>s.
       if in_audit_stage s then py_return (Some s)
       else if s \<notin> set [PENDING_CI, AWAITING_REVIEW] then py_return None
       else fire tid Ev_CI_FIXUP_START note kw)"

definition enter_audit_cycle_for_review_fixup :: helper where
  "enter_audit_cycle_for_review_fixup tid note kw =
     py_bind (current_state tid) (\<lambda>s.
       if in_audit_stage s then py_return (Some s)
       else if s \<noteq> AWAITING_REVIEW then py_return None
       else fire tid Ev_REVIEW_FIXUP_START note kw)"

definition mark_merged :: helper where
  "mark_merged tid note kw =
     py_bind (current_state tid) (\<lambda>s.
       let ev = (\<lambda>e n. py_then (apply_event tid e n []) (py_return ()));
           bridge_note = note_or note ''auto-merge via ancestry: bridging side/terminal state to MERGED'';
           from_terminal = py_then (ev Ev_RETRY_TASK bridge_note) (fire tid Ev_MARK_MERGED note kw)
       in if s = MERGED then py_return (Some s)
          else if s = PENDING then fire tid Ev_MARK_MERGED note kw
          else if s = PENDING_CI then py_then (ev Ev_CI_PASSED note) (fire tid Ev_MERGED note kw)
          else if s = AWAITING_REVIEW then fire tid Ev_MERGED note kw
          else if s = CONFLICT_RESOLVING then py_then (ev Ev_UNRESOLVED bridge_note) from_terminal
          else if s = REBASING_TO_MAIN \<or> in_audit_stage s
            then py_then (ev Ev_BLOCK_TASK bridge_note) from_terminal
          else if s \<in> set [BLOCKED, FAILED, ABORTED] then from_terminal
          else py_return None)"

definition enter_rebasing_to_main :: helper where
  "enter_rebasing_to_main tid note kw =
     py_bind (current_state tid) (\<lambda>s.
       if s = REBASING_TO_MAIN then py_return (Some s)
       else if s = CONFLICT_RESOLVING then fire tid Ev_RESOLVED note kw
       else py_catch (fire tid Ev_PARENT_MERGED_OR_CONFLICT note kw) skip_invalid)"

definition enter_conflict_resolving :: helper where
  "enter_conflict_resolving tid note kw =
     py_bind (current_state tid) (\<lambda>s.
       if s \<noteq> REBASING_TO_MAIN then py_return None else fire tid Ev_CONFLICT note kw)"

definition block_current :: helper where
  "block_current tid note kw =
     py_bind (current_state tid) (\<lambda>s.
       py_catch
         (fire tid
            (get_default (map_of [(TRIAGING_SUBTASK, Ev_RETRY_EXHAUSTED),
                                  (FIXUP_PLANNING, Ev_FIXUP_EXHAUSTED),
                                  (CONFLICT_RESOLVING, Ev_UNRESOLVED)] s) Ev_BLOCK_TASK)
            note kw)
         skip_invalid)"

definition force_recover_to_pending_ci :: helper where
  "force_recover_to_pending_ci tid note kw =
     py_bind (current_state tid) (\<lambda>s.
       if s = PENDING_CI then py_return (Some s)
       else py_then
              (transition tid PENDING_CI
                 (note_or note ''supervisor force-recovery: bridging to PENDING_CI'') kw)
              (py_return (Some PENDING_CI)))"

definition crash_current :: "ident \<Rightarrow> string option \<Rightarrow> task_field list \<Rightarrow> state store_act" where
  "crash_current tid note kw = apply_event tid Ev_CRASH note kw"

definition abort_pending :: "ident \<Rightarrow> string option \<Rightarrow> task_field list \<Rightarrow> state store_act" where
  "abort_pending tid note kw = apply_event tid Ev_ABORT note kw"

definition pr_closed :: "ident \<Rightarrow> string option \<Rightarrow> task_field list \<Rightarrow> state store_act" where
  "pr_closed tid note kw = apply_event tid Ev_PR_CLOSED note kw"

definition retry_task :: "ident \<Rightarrow> string option \<Rightarrow> task_field list \<Rightarrow> state store_act" where
  "retry_task tid note kw = apply_event tid Ev_RETRY_TASK note kw"

definition resume_task :: "ident \<Rightarrow> string option \<Rightarrow> task_field list \<Rightarrow> state store_act" where
  "resume_task tid note kw = apply_event tid Ev_RESUME_TASK note kw"

definition merge_node_built :: "ident \<Rightarrow> string option \<Rightarrow> task_field list \<Rightarrow> state store_act" where
  "merge_node_built tid note kw = apply_event tid Ev_MERGE_NODE_BUILT note kw"

section \<open>The contract of a helper\<close>

lemma current_state_run:
  "select_state tid d = Some s \<Longrightarrow> current_state tid d = (Inr s, d)"
  "select_state tid d = None \<Longrightarrow> current_state tid d = (Inl (no_such_task tid), d)"
  by (simp_all add: current_state_def act_simps)

lemma keeps_current_state [keeps_intros]: "keeps P (current_state tid)"
  unfolding current_state_def by (intro keeps_intros)

lemma keeps_fire [keeps_intros]: "keeps store_ok (fire tid ev n kw)"
  unfolding fire_def by (intro keeps_intros)

lemma keeps_skip_invalid [keeps_intros]: "keeps P (skip_invalid e)"
  by (cases e) (simp_all add: skip_invalid_def keeps_return keeps_raise)

lemma fire_run:
  assumes "select_state tid d = Some s"
  shows "fire tid ev n kw d =
    (case target_of s ev of
       None \<Rightarrow> (Inl (InvalidTransition (''event '' @ py_repr (event_value ev) @
                  '' is not valid from state '' @ py_repr (state_value s))), d)
     | Some t \<Rightarrow> (Inr (Some t), snd (transition tid t (note_or n (event_value ev)) kw d)))"
  using apply_event_run [OF assms] by (simp add: fire_def act_simps split: option.splits)

text \<open>What a dispatching helper does, as a function of the state it finds.\<close>

definition dispatch :: "(state \<Rightarrow> bool) \<Rightarrow> (state \<Rightarrow> event option) \<Rightarrow> helper" where
  "dispatch stay ev_of tid n kw =
     py_bind (current_state tid) (\<lambda>s.
       if stay s then py_return (Some s)
       else case ev_of s of None \<Rightarrow> py_return None | Some ev \<Rightarrow> fire tid ev n kw)"

definition dispatch_sound :: "(state \<Rightarrow> bool) \<Rightarrow> (state \<Rightarrow> event option) \<Rightarrow> (state \<Rightarrow> bool) \<Rightarrow> bool" where
  "dispatch_sound stay ev_of T \<longleftrightarrow>
     list_all (\<lambda>s. (stay s \<longrightarrow> T s) \<and>
                   (case ev_of s of None \<Rightarrow> True
                    | Some ev \<Rightarrow> stay s \<or> (case target_of s ev of None \<Rightarrow> False | Some t \<Rightarrow> T t)))
       all_states"

text \<open>
  The contract a caller relies on: \<open>h\<close> moves the task into \<open>T\<close>, or stays in \<open>T\<close>, or changes nothing.
\<close>

locale fsm_helper =
  fixes h :: helper and T :: "state \<Rightarrow> bool"
  assumes missing: "select_state tid d = None \<Longrightarrow> h tid n kw d = (Inl (no_such_task tid), d)"
    and outcome: "select_state tid d = Some s \<Longrightarrow>
      h tid n kw d = (Inr None, d) \<or>
      h tid n kw d = (Inr (Some s), d) \<and> T s \<or>
      (\<exists>ev t. target_of s ev = Some t \<and> T t \<and>
         h tid n kw d = (Inr (Some t), snd (transition tid t (note_or n (event_value ev)) kw d)))"
begin

lemma never_raises: "select_state tid d \<noteq> None \<Longrightarrow> fst (h tid n kw d) \<noteq> Inl e"
  using outcome [of tid d _ n kw] by (cases "select_state tid d") fastforce+

lemma lands:
  assumes "h tid n kw d = (Inr (Some u), d')"
  shows "T u \<and> select_state tid d' = Some u"
proof (cases "select_state tid d")
  case None
  with assms show ?thesis by (simp add: missing)
next
  case (Some s)
  from outcome [OF this, of n kw] assms show ?thesis
    using select_state_transition [OF Some] Some by auto
qed

lemma skips: "h tid n kw d = (Inr None, d') \<Longrightarrow> d' = d"
  using outcome [of tid d _ n kw] missing [of tid d n kw]
  by (cases "select_state tid d") fastforce+

lemma others: "x \<noteq> tid \<Longrightarrow> select_state x (snd (h tid n kw d)) = select_state x d"
proof (cases "select_state tid d")
  case None
  then show ?thesis by (simp add: missing)
next
  case (Some s)
  assume "x \<noteq> tid"
  with outcome [OF Some, of n kw] show ?thesis
    using select_state_transition [OF Some] by auto
qed

lemma keeps_history: "keeps store_ok (h tid n kw)"
proof (rule keepsI)
  fix d assume ok: "store_ok d"
  show "store_ok (snd (h tid n kw d))"
  proof (cases "select_state tid d")
    case None
    with ok show ?thesis by (simp add: missing)
  next
    case (Some s)
    with outcome [OF Some, of n kw] ok show ?thesis
      by (auto intro!: store_ok_transition legal_edge.fired)
  qed
qed

end

lemma fsm_helper_dispatch:
  assumes body: "h = dispatch stay ev_of" and sound: "dispatch_sound stay ev_of T"
  shows "fsm_helper h T"
proof
  fix tid d n kw
  show "h tid n kw d = (Inl (no_such_task tid), d)" if "select_state tid d = None"
    using that by (simp add: body dispatch_def act_simps current_state_run)
  show "h tid n kw d = (Inr None, d) \<or> h tid n kw d = (Inr (Some s), d) \<and> T s \<or>
      (\<exists>ev t. target_of s ev = Some t \<and> T t \<and>
         h tid n kw d = (Inr (Some t), snd (transition tid t (note_or n (event_value ev)) kw d)))"
    if cur: "select_state tid d = Some s" for s
  proof -
    have "(stay s \<longrightarrow> T s) \<and> (case ev_of s of None \<Rightarrow> True
        | Some ev \<Rightarrow> stay s \<or> (case target_of s ev of None \<Rightarrow> False | Some t \<Rightarrow> T t))"
      using state_check [of _ s] sound unfolding dispatch_sound_def by fast
    then show ?thesis
      using cur by (auto simp: body dispatch_def act_simps current_state_run fire_run
          split: option.splits)
  qed
qed


section \<open>Every helper honours it\<close>

text \<open>The guard \<^verbatim>\<open>if state is not s0: return None\<close> before firing \<open>ev\<close>.\<close>

definition only :: "state \<Rightarrow> event \<Rightarrow> state \<Rightarrow> event option" where
  "only s0 ev s = (if s = s0 then Some ev else None)"

lemmas same_body = fun_eq_iff dispatch_def only_def py_bind_run

interpretation to_doing: fsm_helper enter_doing_subtask "\<lambda>s. s = DOING_SUBTASK"
  by (rule fsm_helper_dispatch
        [where stay = "\<lambda>s. s = DOING_SUBTASK" and ev_of = "\<lambda>s. map_of [(PLANNING, Ev_PLAN_VALID), (TRIAGING_SUBTASK, Ev_RETRY_SUBTASK),
        (FIXUP_PLANNING, Ev_FIXUP_PLAN_VALID), (PUSHING, Ev_MORE_SUBTASKS)] s"])
    (auto simp: enter_doing_subtask_def same_body split: prod.splits sum.splits, code_simp)

interpretation to_checking: fsm_helper enter_checking_subtask "\<lambda>s. s = CHECKING_SUBTASK"
  by (rule fsm_helper_dispatch
        [where stay = "\<lambda>s. s = CHECKING_SUBTASK" and ev_of = "\<lambda>s. only DOING_SUBTASK Ev_DOER_DONE s"])
    (auto simp: enter_checking_subtask_def same_body split: prod.splits sum.splits, code_simp)

interpretation to_triaging: fsm_helper enter_triaging_subtask "\<lambda>s. s = TRIAGING_SUBTASK"
  by (rule fsm_helper_dispatch
        [where stay = "\<lambda>s. s = TRIAGING_SUBTASK" and ev_of = "\<lambda>s. only CHECKING_SUBTASK Ev_SUBTASK_FAILED s"])
    (auto simp: enter_triaging_subtask_def same_body split: prod.splits sum.splits, code_simp)

interpretation to_committing: fsm_helper enter_committing "\<lambda>s. s = COMMITTING"
  by (rule fsm_helper_dispatch
        [where stay = "\<lambda>s. False" and ev_of = "\<lambda>s. only CHECKING_SUBTASK Ev_SUBTASK_PASSED s"])
    (auto simp: enter_committing_def same_body split: prod.splits sum.splits, code_simp)

interpretation to_pushing: fsm_helper enter_pushing "\<lambda>s. s = PUSHING"
  by (rule fsm_helper_dispatch
        [where stay = "\<lambda>s. False" and ev_of = "\<lambda>s. only COMMITTING Ev_COMMIT_CREATED s"])
    (auto simp: enter_pushing_def same_body split: prod.splits sum.splits, code_simp)

interpretation to_local_ci: fsm_helper enter_local_ci_checking "\<lambda>s. s = LOCAL_CI_CHECKING"
  by (rule fsm_helper_dispatch
        [where stay = "\<lambda>s. s = LOCAL_CI_CHECKING" and ev_of = "\<lambda>s. only PUSHING Ev_ALL_SUBTASKS_DONE s"])
    (auto simp: enter_local_ci_checking_def same_body split: prod.splits sum.splits, code_simp)

interpretation to_fixup: fsm_helper enter_fixup_planning "\<lambda>s. s = FIXUP_PLANNING"
  by (rule fsm_helper_dispatch
        [where stay = "\<lambda>s. s = FIXUP_PLANNING" and ev_of = "\<lambda>s. map_of [(LOCAL_CI_CHECKING, Ev_LOCAL_CI_FAILED),
        (AUDIT_LOCAL_CI, Ev_AUDIT_LOCAL_CI_FAILED), (AUDIT_RUBRIC, Ev_AUDIT_RUBRIC_FAILED),
        (AUDIT_STANDARDS, Ev_AUDIT_STANDARDS_FAILED),
        (AUDIT_ARCHITECTURE, Ev_AUDIT_ARCHITECTURE_FAILED),
        (AUDIT_BEHAVIOR, Ev_AUDIT_BEHAVIOR_FAILED)] s"])
    (auto simp: enter_fixup_planning_def same_body split: prod.splits sum.splits, code_simp)

interpretation to_pr_opening: fsm_helper enter_pr_opening "\<lambda>s. s = PR_OPENING"
  by (rule fsm_helper_dispatch
        [where stay = "\<lambda>s. s = PR_OPENING" and ev_of = "\<lambda>s. only AUDIT_BEHAVIOR Ev_AUDIT_BEHAVIOR_PASSED s"])
    (auto simp: enter_pr_opening_def same_body split: prod.splits sum.splits, code_simp)

interpretation to_pending_ci: fsm_helper enter_pending_ci "\<lambda>s. s = PENDING_CI"
  by (rule fsm_helper_dispatch
        [where stay = "\<lambda>s. s = PENDING_CI" and ev_of = "\<lambda>s. map_of [(PR_OPENING, Ev_PR_OPENED), (REBASING_TO_MAIN, Ev_REBASE_PUSHED)] s"])
    (auto simp: enter_pending_ci_def same_body split: prod.splits sum.splits, code_simp)

interpretation to_awaiting: fsm_helper enter_awaiting_review "\<lambda>s. s = AWAITING_REVIEW"
  by (rule fsm_helper_dispatch
        [where stay = "\<lambda>s. s = AWAITING_REVIEW" and ev_of = "\<lambda>s. only PENDING_CI Ev_CI_PASSED s"])
    (auto simp: enter_awaiting_review_def same_body split: prod.splits sum.splits, code_simp)

interpretation to_conflict: fsm_helper enter_conflict_resolving "\<lambda>s. s = CONFLICT_RESOLVING"
  by (rule fsm_helper_dispatch
        [where stay = "\<lambda>s. False" and ev_of = "\<lambda>s. only REBASING_TO_MAIN Ev_CONFLICT s"])
    (auto simp: enter_conflict_resolving_def same_body split: prod.splits sum.splits, code_simp)

interpretation to_review_fixup: fsm_helper enter_audit_cycle_for_review_fixup "in_audit_stage"
  by (rule fsm_helper_dispatch
        [where stay = "\<lambda>s. in_audit_stage s" and ev_of = "\<lambda>s. only AWAITING_REVIEW Ev_REVIEW_FIXUP_START s"])
    (auto simp: enter_audit_cycle_for_review_fixup_def same_body split: prod.splits sum.splits, code_simp)


interpretation to_ci_fixup: fsm_helper enter_audit_cycle_for_ci_fixup in_audit_stage
  by (rule fsm_helper_dispatch [where stay = in_audit_stage
        and ev_of = "\<lambda>s. if s \<in> set [PENDING_CI, AWAITING_REVIEW] then Some Ev_CI_FIXUP_START else None"])
    (auto simp: enter_audit_cycle_for_ci_fixup_def same_body split: prod.splits sum.splits, code_simp)

interpretation to_audit: fsm_helper "\<lambda>tid. enter_audit_local_ci tid None" "\<lambda>s. s = AUDIT_LOCAL_CI"
  by (rule fsm_helper_dispatch [where stay = "\<lambda>s. s = AUDIT_LOCAL_CI"
        and ev_of = "\<lambda>s. map_of [(LOCAL_CI_CHECKING, Ev_LOCAL_CI_PASSED), (PENDING_CI, Ev_CI_FIXUP_START),
          (AWAITING_REVIEW, Ev_REVIEW_FIXUP_START)] s"])
    (auto simp: enter_audit_local_ci_def same_body get_default_def Let_def
       split: prod.splits sum.splits, code_simp)

text \<open>The stage helpers: \<open>_passed\<close> advances to the next stage, \<open>_failed\<close> diverts to fixup planning.\<close>

lemma advance_stage_helper:
  assumes "map_of audit_stage_events s0 = Some (p, f)"
    and "target_of s0 (if passed then p else f) = Some t"
  shows "fsm_helper (\<lambda>tid. advance_audit_stage tid passed s0) (\<lambda>s. s = t)"
proof (rule fsm_helper_dispatch
    [where stay = "\<lambda>s. False" and ev_of = "only s0 (if passed then p else f)"])
  show "(\<lambda>tid. advance_audit_stage tid passed s0) =
      dispatch (\<lambda>s. False) (only s0 (if passed then p else f))"
    using assms(1) by (auto simp: advance_audit_stage_def same_body split: prod.splits sum.splits)
  show "dispatch_sound (\<lambda>s. False) (only s0 (if passed then p else f)) (\<lambda>s. s = t)"
    using assms(2) by (simp add: dispatch_sound_def only_def list_all_iff split: if_splits)
qed

interpretation local_ci_passed: fsm_helper audit_local_ci_passed "\<lambda>s. s = AUDIT_RUBRIC"
  unfolding audit_local_ci_passed_def [abs_def]
  by (rule advance_stage_helper [where p = Ev_AUDIT_LOCAL_CI_PASSED and f = Ev_AUDIT_LOCAL_CI_FAILED])
    code_simp+

interpretation local_ci_failed: fsm_helper audit_local_ci_failed "\<lambda>s. s = FIXUP_PLANNING"
  unfolding audit_local_ci_failed_def [abs_def]
  by (rule advance_stage_helper [where p = Ev_AUDIT_LOCAL_CI_PASSED and f = Ev_AUDIT_LOCAL_CI_FAILED])
    code_simp+

interpretation rubric_passed: fsm_helper audit_rubric_passed "\<lambda>s. s = AUDIT_STANDARDS"
  unfolding audit_rubric_passed_def [abs_def]
  by (rule advance_stage_helper [where p = Ev_AUDIT_RUBRIC_PASSED and f = Ev_AUDIT_RUBRIC_FAILED])
    code_simp+

interpretation rubric_failed: fsm_helper audit_rubric_failed "\<lambda>s. s = FIXUP_PLANNING"
  unfolding audit_rubric_failed_def [abs_def]
  by (rule advance_stage_helper [where p = Ev_AUDIT_RUBRIC_PASSED and f = Ev_AUDIT_RUBRIC_FAILED])
    code_simp+

interpretation standards_passed: fsm_helper audit_standards_passed "\<lambda>s. s = AUDIT_ARCHITECTURE"
  unfolding audit_standards_passed_def [abs_def]
  by (rule advance_stage_helper [where p = Ev_AUDIT_STANDARDS_PASSED and f = Ev_AUDIT_STANDARDS_FAILED])
    code_simp+

interpretation standards_failed: fsm_helper audit_standards_failed "\<lambda>s. s = FIXUP_PLANNING"
  unfolding audit_standards_failed_def [abs_def]
  by (rule advance_stage_helper [where p = Ev_AUDIT_STANDARDS_PASSED and f = Ev_AUDIT_STANDARDS_FAILED])
    code_simp+

interpretation architecture_passed: fsm_helper audit_architecture_passed "\<lambda>s. s = AUDIT_BEHAVIOR"
  unfolding audit_architecture_passed_def [abs_def]
  by (rule advance_stage_helper [where p = Ev_AUDIT_ARCHITECTURE_PASSED and f = Ev_AUDIT_ARCHITECTURE_FAILED])
    code_simp+

interpretation architecture_failed: fsm_helper audit_architecture_failed "\<lambda>s. s = FIXUP_PLANNING"
  unfolding audit_architecture_failed_def [abs_def]
  by (rule advance_stage_helper [where p = Ev_AUDIT_ARCHITECTURE_PASSED and f = Ev_AUDIT_ARCHITECTURE_FAILED])
    code_simp+

interpretation behavior_passed: fsm_helper audit_behavior_passed "\<lambda>s. s = PR_OPENING"
  unfolding audit_behavior_passed_def [abs_def]
  by (rule advance_stage_helper [where p = Ev_AUDIT_BEHAVIOR_PASSED and f = Ev_AUDIT_BEHAVIOR_FAILED])
    code_simp+

interpretation behavior_failed: fsm_helper audit_behavior_failed "\<lambda>s. s = FIXUP_PLANNING"
  unfolding audit_behavior_failed_def [abs_def]
  by (rule advance_stage_helper [where p = Ev_AUDIT_BEHAVIOR_PASSED and f = Ev_AUDIT_BEHAVIOR_FAILED])
    code_simp+

text \<open>The two helpers that try the event and swallow its rejection.\<close>

lemma try_fire_run:
  assumes "select_state tid d = Some s"
  shows "py_catch (fire tid ev n kw) skip_invalid d =
    (case target_of s ev of None \<Rightarrow> (Inr None, d) | Some _ \<Rightarrow> fire tid ev n kw d)"
  by (auto simp: py_catch_run fire_run [OF assms] skip_invalid_def py_return_run split: option.splits)

definition if_valid :: "(state \<Rightarrow> event) \<Rightarrow> state \<Rightarrow> event option" where
  "if_valid ev_of s = (if target_of s (ev_of s) = None then None else Some (ev_of s))"

definition block_event :: "state \<Rightarrow> event" where
  "block_event s =
     get_default (map_of [(TRIAGING_SUBTASK, Ev_RETRY_EXHAUSTED), (FIXUP_PLANNING, Ev_FIXUP_EXHAUSTED),
                          (CONFLICT_RESOLVING, Ev_UNRESOLVED)] s) Ev_BLOCK_TASK"

definition rebase_event :: "state \<Rightarrow> event" where
  "rebase_event s = (if s = CONFLICT_RESOLVING then Ev_RESOLVED else Ev_PARENT_MERGED_OR_CONFLICT)"

lemma resolved_valid: "target_of CONFLICT_RESOLVING Ev_RESOLVED = Some REBASING_TO_MAIN"
  by code_simp

lemma block_current_dispatch: "block_current = dispatch (\<lambda>s. False) (if_valid block_event)"
proof (intro ext)
  fix tid n kw d
  show "block_current tid n kw d = dispatch (\<lambda>s. False) (if_valid block_event) tid n kw d"
    by (cases "select_state tid d")
      (auto simp: block_current_def dispatch_def py_bind_run current_state_run try_fire_run if_valid_def
         block_event_def py_return_run split: option.splits)
qed

lemma rebasing_dispatch:
  "enter_rebasing_to_main = dispatch (\<lambda>s. s = REBASING_TO_MAIN) (if_valid rebase_event)"
proof (intro ext)
  fix tid n kw d
  show "enter_rebasing_to_main tid n kw d =
      dispatch (\<lambda>s. s = REBASING_TO_MAIN) (if_valid rebase_event) tid n kw d"
    by (cases "select_state tid d")
      (auto simp: enter_rebasing_to_main_def dispatch_def py_bind_run current_state_run try_fire_run
         if_valid_def rebase_event_def py_return_run resolved_valid split: option.splits)
qed

interpretation to_blocked: fsm_helper block_current "\<lambda>s. s = BLOCKED"
  by (rule fsm_helper_dispatch [OF block_current_dispatch]) code_simp

interpretation to_rebasing: fsm_helper enter_rebasing_to_main "\<lambda>s. s = REBASING_TO_MAIN"
  by (rule fsm_helper_dispatch [OF rebasing_dispatch]) code_simp

text \<open>Which states they move: every active state blocks; every active and post-PR state rebases.\<close>

definition rebasable :: "state \<Rightarrow> bool" where
  "rebasable s \<longleftrightarrow> s \<in> set (active_states @ post_pr_states)"

lemma dispatch_state:
  assumes "list_all (\<lambda>s. if moves s then stay s \<and> s = t \<or> \<not> stay s \<and>
      (case ev_of s of None \<Rightarrow> False | Some ev \<Rightarrow> target_of s ev = Some t)
      else \<not> stay s \<and> ev_of s = None) all_states"
    and cur: "select_state tid d = Some s"
  shows "if moves s
    then \<exists>d'. dispatch stay ev_of tid n kw d = (Inr (Some t), d') \<and> select_state tid d' = Some t \<and>
      (\<forall>x. x \<noteq> tid \<longrightarrow> select_state x d' = select_state x d)
    else dispatch stay ev_of tid n kw d = (Inr None, d)"
proof -
  have "if moves s then stay s \<and> s = t \<or> \<not> stay s \<and>
      (case ev_of s of None \<Rightarrow> False | Some ev \<Rightarrow> target_of s ev = Some t)
      else \<not> stay s \<and> ev_of s = None"
    using assms(1) state_UNIV [of s] by (simp add: list_all_iff)
  then show ?thesis
    using cur select_state_transition [OF cur]
    by (auto simp: dispatch_def py_bind_run current_state_run fire_run py_return_run split: if_splits option.splits)
qed

lemma enter_rebasing_state:
  assumes "select_state tid d = Some s"
  shows "if rebasable s
    then \<exists>d'. enter_rebasing_to_main tid n kw d = (Inr (Some REBASING_TO_MAIN), d') \<and>
      select_state tid d' = Some REBASING_TO_MAIN \<and> (\<forall>x. x \<noteq> tid \<longrightarrow> select_state x d' = select_state x d)
    else enter_rebasing_to_main tid n kw d = (Inr None, d)"
  unfolding rebasing_dispatch by (rule dispatch_state [OF _ assms]) code_simp

lemma block_current_state:
  assumes "select_state tid d = Some s"
  shows "if s \<in> set active_states
    then \<exists>d'. block_current tid n kw d = (Inr (Some BLOCKED), d') \<and>
      select_state tid d' = Some BLOCKED \<and> (\<forall>x. x \<noteq> tid \<longrightarrow> select_state x d' = select_state x d)
    else block_current tid n kw d = (Inr None, d)"
  unfolding block_current_dispatch by (rule dispatch_state [OF _ assms]) code_simp

section \<open>Merging and forced recovery\<close>

lemma apply_event_ok:
  assumes "select_state tid d = Some s" and "target_of s ev = Some t"
  obtains d' where "apply_event tid ev n kw d = (Inr t, d')" and "select_state tid d' = Some t"
    and "\<And>x. x \<noteq> tid \<Longrightarrow> select_state x d' = select_state x d"
  using that [of "snd (transition tid t (note_or n (event_value ev)) kw d)"]
    apply_event_run [OF assms(1), of ev n kw] select_state_transition [OF assms(1)] assms(2) by simp

definition mergeable :: "state \<Rightarrow> bool" where
  "mergeable s \<longleftrightarrow>
     s \<in> set ([MERGED, PENDING, PENDING_CI, AWAITING_REVIEW, CONFLICT_RESOLVING, REBASING_TO_MAIN] @
               audit_stage_states @ retryable_states)"

lemma in_audit_stage_iff: "in_audit_stage s \<longleftrightarrow> s \<in> set audit_stage_states"
  by (rule state_check [of _ s]) code_simp

lemma block_merge_path:
  "s = REBASING_TO_MAIN \<or> in_audit_stage s \<Longrightarrow> target_of s Ev_BLOCK_TASK = Some BLOCKED"
  by (drule mp [rotated, of _ "target_of s Ev_BLOCK_TASK = Some BLOCKED"])
    (rule state_check [of _ s], code_simp)

lemma merge_path_edges:
  "target_of PENDING Ev_MARK_MERGED = Some MERGED"
  "target_of PENDING_CI Ev_CI_PASSED = Some AWAITING_REVIEW"
  "target_of AWAITING_REVIEW Ev_MERGED = Some MERGED"
  "target_of CONFLICT_RESOLVING Ev_UNRESOLVED = Some BLOCKED"
  "target_of BLOCKED Ev_RETRY_TASK = Some PENDING"
  "target_of FAILED Ev_RETRY_TASK = Some PENDING"
  "target_of ABORTED Ev_RETRY_TASK = Some PENDING"
  by code_simp+

text \<open>Firing one event before an action, and the two-step tail \<^verbatim>\<open>RETRY_TASK\<close>, \<^verbatim>\<open>MARK_MERGED\<close>.\<close>

definition ends_merged :: "ident \<Rightarrow> state option store_act \<Rightarrow> state \<Rightarrow> bool" where
  "ends_merged tid m s \<longleftrightarrow>
     (\<forall>d. select_state tid d = Some s \<longrightarrow>
        (\<exists>d'. m d = (Inr (Some MERGED), d') \<and> select_state tid d' = Some MERGED \<and>
          (\<forall>x. x \<noteq> tid \<longrightarrow> select_state x d' = select_state x d)))"

lemma ends_merged_fire: "target_of s ev = Some MERGED \<Longrightarrow> ends_merged tid (fire tid ev n kw) s"
  using select_state_transition by (simp add: ends_merged_def fire_run)

lemma ends_merged_step:
  assumes "target_of s ev = Some t" and "ends_merged tid m t"
  shows "ends_merged tid (py_then (py_then (apply_event tid ev n kw) (py_return ())) m) s"
  unfolding ends_merged_def
proof (intro allI impI)
  fix d assume "select_state tid d = Some s"
  then obtain d' where "apply_event tid ev n kw d = (Inr t, d')" "select_state tid d' = Some t"
    and "\<And>x. x \<noteq> tid \<Longrightarrow> select_state x d' = select_state x d"
    using apply_event_ok assms(1) by metis
  with assms(2) show "\<exists>d''. py_then (py_then (apply_event tid ev n kw) (py_return ())) m d =
      (Inr (Some MERGED), d'') \<and> select_state tid d'' = Some MERGED \<and>
      (\<forall>x. x \<noteq> tid \<longrightarrow> select_state x d'' = select_state x d)"
    by (fastforce simp: ends_merged_def act_simps)
qed

lemma mark_merged_merges:
  assumes "select_state tid d = Some s" and "mergeable s"
  shows "\<exists>d'. mark_merged tid n kw d = (Inr (Some MERGED), d') \<and> select_state tid d' = Some MERGED \<and>
    (\<forall>x. x \<noteq> tid \<longrightarrow> select_state x d' = select_state x d)"
proof -
  let ?n = "note_or n ''auto-merge via ancestry: bridging side/terminal state to MERGED''"
  let ?tail = "py_then (py_then (apply_event tid Ev_RETRY_TASK ?n []) (py_return ()))
    (fire tid Ev_MARK_MERGED n kw)"
  have tail: "ends_merged tid ?tail s" if "s \<in> {BLOCKED, FAILED, ABORTED}" for s
    using that by (auto intro!: ends_merged_step [where t = PENDING] ends_merged_fire merge_path_edges)
  have side: "ends_merged tid (py_then (py_then (apply_event tid ev ?n []) (py_return ())) ?tail) s"
    if "target_of s ev = Some BLOCKED" for s ev
    by (rule ends_merged_step [OF that tail]) simp
  have ci: "ends_merged tid (py_then (py_then (apply_event tid Ev_CI_PASSED n []) (py_return ()))
      (fire tid Ev_MERGED n kw)) PENDING_CI"
    by (rule ends_merged_step [OF merge_path_edges(2)]) (rule ends_merged_fire [OF merge_path_edges(3)])
  note fire = ends_merged_fire [OF merge_path_edges(1)] ends_merged_fire [OF merge_path_edges(3)]
  note parts = tail [unfolded ends_merged_def] side [unfolded ends_merged_def]
    ci [unfolded ends_merged_def] fire [unfolded ends_merged_def]
  have run: "mark_merged tid n kw d = (if s = MERGED then (Inr (Some s), d)
      else if s = PENDING then fire tid Ev_MARK_MERGED n kw d
      else if s = PENDING_CI then py_then (py_then (apply_event tid Ev_CI_PASSED n []) (py_return ()))
        (fire tid Ev_MERGED n kw) d
      else if s = AWAITING_REVIEW then fire tid Ev_MERGED n kw d
      else if s = CONFLICT_RESOLVING then
        py_then (py_then (apply_event tid Ev_UNRESOLVED ?n []) (py_return ())) ?tail d
      else if s = REBASING_TO_MAIN \<or> in_audit_stage s then
        py_then (py_then (apply_event tid Ev_BLOCK_TASK ?n []) (py_return ())) ?tail d
      else if s \<in> set [BLOCKED, FAILED, ABORTED] then ?tail d else (Inr None, d))"
    using assms(1) by (simp add: mark_merged_def py_bind_run current_state_run py_return_run Let_def)
  show ?thesis
    using assms parts(2) [OF merge_path_edges(4)] parts(2) [OF block_merge_path] parts(1) parts(3-5)
    unfolding run mergeable_def in_audit_stage_iff retryable_states_def
    by (auto split: if_splits)
qed

lemma mark_merged_skips:
  assumes "select_state tid d = Some s" and "\<not> mergeable s"
  shows "mark_merged tid n kw d = (Inr None, d)"
  using assms by (simp add: mark_merged_def py_bind_run current_state_run py_return_run Let_def
      mergeable_def in_audit_stage_iff retryable_states_def)

lemma keeps_mark_merged [keeps_intros]: "keeps store_ok (mark_merged tid n kw)"
  unfolding mark_merged_def Let_def by (intro keeps_intros)

text \<open>The helper itself asks for no state: its caller has to have seen an audit stage.\<close>

lemma force_recover_run:
  assumes "select_state tid d = Some s"
  shows "force_recover_to_pending_ci tid n kw d =
    (Inr (Some PENDING_CI), if s = PENDING_CI then d else
       snd (transition tid PENDING_CI (note_or n ''supervisor force-recovery: bridging to PENDING_CI'') kw d))"
  using assms transition_run [OF assms]
  by (simp add: force_recover_to_pending_ci_def py_bind_run py_then_run py_return_run current_state_run Let_def)

lemma store_ok_force_recover:
  assumes "store_ok d" and "select_state tid d = Some s" and "s \<in> set (FIXUP_PLANNING # audit_stage_states)"
  shows "store_ok (snd (force_recover_to_pending_ci tid n kw d))"
proof -
  have "store_ok (snd (transition tid PENDING_CI m kw d))" for m
  proof (rule store_ok_transition [OF assms(1)])
    fix s' assume "select_state tid d = Some s'"
    with assms(2) legal_edge.forced [OF assms(3)] show "legal_edge (Some s') PENDING_CI" by simp
  qed
  with assms(1) show ?thesis by (simp add: force_recover_run [OF assms(2)])
qed

lemma keeps_direct_events [keeps_intros]:
  "keeps store_ok (start_task tid n kw)" "keeps store_ok (environment_ready tid n kw)"
  "keeps store_ok (crash_current tid n kw)" "keeps store_ok (abort_pending tid n kw)"
  "keeps store_ok (pr_closed tid n kw)" "keeps store_ok (retry_task tid n kw)"
  "keeps store_ok (resume_task tid n kw)" "keeps store_ok (merge_node_built tid n kw)"
  unfolding start_task_def environment_ready_def crash_current_def abort_pending_def pr_closed_def
    retry_task_def resume_task_def merge_node_built_def
  by (intro keeps_intros)+

lemmas [keeps_intros] =
  to_rebasing.keeps_history to_blocked.keeps_history to_pending_ci.keeps_history
  to_awaiting.keeps_history to_ci_fixup.keeps_history to_review_fixup.keeps_history

section \<open>Properties\<close>

definition demo_audit_db :: db where
  "demo_audit_db = snd (py_then (upsert_pending ''T1'')
     (py_for shortest_pr_run (\<lambda>ev. apply_event ''T1'' ev None [])) (empty_db 7))"

lemma demo_audit_state: "select_state ''T1'' demo_audit_db = Some PR_OPENING"
  by code_simp

text \<open>
  Ancestry merges. From a mergeable state (all but the pre-PR subtask loop, PR opening, the merge-node states
  and fixup planning) \<^verbatim>\<open>mark_merged\<close> takes the task to MERGED whatever bridge events that needs; from any other
  it changes nothing. No other task moves.
\<close>

theorem mark_merged_outcome:
  assumes "select_state tid d = Some s"
  shows "if mergeable s
    then \<exists>d'. mark_merged tid n kw d = (Inr (Some MERGED), d') \<and> select_state tid d' = Some MERGED \<and>
           (\<forall>x. x \<noteq> tid \<longrightarrow> select_state x d' = select_state x d)
    else mark_merged tid n kw d = (Inr None, d)"
  using mark_merged_merges [OF assms] mark_merged_skips [OF assms] by (cases "mergeable s") simp_all

theorem mark_merged_outcome_witness:
  "if mergeable PENDING
   then \<exists>d'. mark_merged ''T1'' None [] (snd (upsert_pending ''T1'' (empty_db 7))) = (Inr (Some MERGED), d') \<and>
          select_state ''T1'' d' = Some MERGED \<and>
          (\<forall>x. x \<noteq> ''T1'' \<longrightarrow> select_state x d' = select_state x (snd (upsert_pending ''T1'' (empty_db 7))))
   else mark_merged ''T1'' None [] (snd (upsert_pending ''T1'' (empty_db 7))) =
          (Inr None, snd (upsert_pending ''T1'' (empty_db 7)))"
proof -
  have "select_state ''T1'' (snd (upsert_pending ''T1'' (empty_db 7))) = Some PENDING" by code_simp
  from mark_merged_outcome [OF this] show ?thesis .
qed

text \<open>
  Blocking. An active task, and only an active task, is blocked by \<^verbatim>\<open>block_current\<close>, whatever event its state
  needs for that; in any other state the call is a logged no-op, never an exception.
\<close>

theorem block_current_outcome:
  assumes "select_state tid d = Some s"
  shows "if s \<in> set active_states
    then \<exists>d'. block_current tid n kw d = (Inr (Some BLOCKED), d') \<and> select_state tid d' = Some BLOCKED \<and>
           (\<forall>x. x \<noteq> tid \<longrightarrow> select_state x d' = select_state x d)
    else block_current tid n kw d = (Inr None, d)"
  by (rule block_current_state [OF assms])

theorem block_current_outcome_witness:
  "PR_OPENING \<in> set active_states \<and>
   (if PR_OPENING \<in> set active_states
    then \<exists>d'. block_current ''T1'' None [] demo_audit_db = (Inr (Some BLOCKED), d') \<and>
           select_state ''T1'' d' = Some BLOCKED \<and>
           (\<forall>x. x \<noteq> ''T1'' \<longrightarrow> select_state x d' = select_state x demo_audit_db)
    else block_current ''T1'' None [] demo_audit_db = (Inr None, demo_audit_db))"
  by (rule conjI [OF _ block_current_outcome [OF demo_audit_state]]) (simp add: active_states_def)

end
