(* ===== verification/MergeNode.thy ===== *)
theory MergeNode
  imports FsmRuntime "HOL-Library.Multiset"
begin

text \<open>
  \<^verbatim>\<open>quikode/merge_node.py\<close>: merge-nodes, the synthetic tasks that integrate several source parents into
  one branch. The id digest (\<^verbatim>\<open>hashlib.blake2b(..., digest_size=4).hexdigest()\<close>) is the parameter
  \<open>hexdigest\<close> of the operations that need it. The lemmas show that the id ignores the arrival order of
  the parents, that lookup-or-create is idempotent, and what each propagation does to every
  merge-node.
\<close>

section \<open>Identity\<close>

fun py_join :: "string \<Rightarrow> string list \<Rightarrow> string" where
  "py_join sep [] = []"
| "py_join sep [x] = x"
| "py_join sep (x # y # xs) = x @ sep @ py_join sep (y # xs)"

definition compute_merge_node_id :: "(string \<Rightarrow> string) \<Rightarrow> ident list \<Rightarrow> py_error + ident" where
  "compute_merge_node_id hexdigest parents =
     (if parents = [] then Inl (ValueError ''compute_merge_node_id: empty parent_task_ids'')
      else Inr (''M-'' @ hexdigest (py_join '','' (sort parents))))"

definition merge_node_branch_name :: "ident \<Rightarrow> string" where
  "merge_node_branch_name mn = ''quikode/merge/'' @ map lower_char mn"

definition lookup_or_create_merge_node ::
  "(string \<Rightarrow> string) \<Rightarrow> ident list \<Rightarrow> string list \<Rightarrow> ident store_act" where
  "lookup_or_create_merge_node hexdigest parents branches =
     (case compute_merge_node_id hexdigest parents of
        Inl e \<Rightarrow> py_raise e
      | Inr mn \<Rightarrow>
          py_bind (py_read (find_task mn)) (\<lambda>existing. case existing of
             Some _ \<Rightarrow> py_return mn
           | None \<Rightarrow>
               py_then (create_merge_node mn parents branches (merge_node_branch_name mn))
                 (py_return mn)))"

section \<open>Propagation\<close>

definition advanced_note :: "ident \<Rightarrow> string" where
  "advanced_note p = ''source parent '' @ p @ '' advanced; re-merge cycle''"

definition propagate_parent_advanced :: "ident \<Rightarrow> ident list store_act" where
  "propagate_parent_advanced p =
     py_bind (py_read (merge_nodes_with_parent p)) (\<lambda>affected.
       py_for (filter (\<lambda>r. t_state r = MERGE_NODE_READY) affected) (\<lambda>row.
         py_then
           (apply_event (t_id row) Ev_PARENT_ADVANCED (Some (advanced_note p))
              [F_resume_from_existing_subtasks (Some 1)])
           (py_return (t_id row))))"

definition retired_note :: "ident \<Rightarrow> string" where
  "retired_note p = ''all source parents merged to main (last: '' @ p @ '')''"

definition remerge_note :: "ident \<Rightarrow> nat \<Rightarrow> string" where
  "remerge_note p n =
     ''source parent '' @ p @ '' merged; re-merge against remaining '' @ str_nat n @ '' parent(s)''"

definition merged_row :: "ident \<Rightarrow> task_row \<Rightarrow> ident store_act" where
  "merged_row p row =
     py_bind (prune_merge_node_parent (t_id row) p) (\<lambda>remaining.
       py_then
         (if remaining = [] then
            (if t_state row = MERGE_NODE_READY
             then py_then (apply_event (t_id row) Ev_ALL_PARENTS_MERGED (Some (retired_note p)) [])
                          (py_return ())
             else py_return ())
          else if t_state row = MERGE_NODE_READY then
            py_then (apply_event (t_id row) Ev_PARENT_ADVANCED
                       (Some (remerge_note p (length remaining)))
                       [F_resume_from_existing_subtasks (Some 1)])
                    (py_return ())
          else py_return ())
         (py_return (t_id row)))"

definition propagate_parent_merged :: "ident \<Rightarrow> ident list store_act" where
  "propagate_parent_merged p =
     py_bind (py_read (merge_nodes_with_parent p)) (\<lambda>affected. py_for affected (merged_row p))"

definition is_merge_node :: "task_row \<Rightarrow> bool" where
  "is_merge_node row \<longleftrightarrow> t_kind row = Kind_MERGE"

definition merge_node_age_seconds :: "ident \<Rightarrow> db \<Rightarrow> time option" where
  "merge_node_age_seconds mn d =
     (case last_entry_ts mn MERGE_NODE_READY d of None \<Rightarrow> None | Some ts \<Rightarrow> Some (clock d - ts))"

section \<open>Identity ignores order\<close>

lemma compute_id_perm:
  assumes "mset ps = mset qs"
  shows "compute_merge_node_id hexdigest ps = compute_merge_node_id hexdigest qs"
proof -
  have "sort ps = sort qs" using assms by (intro properties_for_sort) simp_all
  moreover have "ps = [] \<longleftrightarrow> qs = []" using assms by auto
  ultimately show ?thesis by (simp add: compute_merge_node_id_def)
qed

lemma create_merge_node_fresh:
  assumes "find_task mn d = None"
  shows "\<exists>row d'. create_merge_node mn ps brs br d = (Inr (), d') \<and>
    find_task mn d' = Some row \<and> t_kind row = Kind_MERGE \<and> t_state row = PENDING \<and>
    t_parent_task_ids row = Some ps \<and> t_parent_branches row = Some brs \<and> t_branch row = Some br"
  using assms find_task_None_iff [of mn d]
  by (auto simp: create_merge_node_def act_simps find_task_def find_append task_ids_def)

lemma lookup_existing:
  "find_task mn d = Some row \<Longrightarrow> compute_merge_node_id hexdigest ps = Inr mn \<Longrightarrow>
   lookup_or_create_merge_node hexdigest ps brs d = (Inr mn, d)"
  by (simp add: lookup_or_create_merge_node_def act_simps)

lemma lookup_fresh:
  assumes "find_task mn d = None" and "compute_merge_node_id hexdigest ps = Inr mn"
  shows "\<exists>row d'. lookup_or_create_merge_node hexdigest ps brs d = (Inr mn, d') \<and>
    find_task mn d' = Some row \<and> t_kind row = Kind_MERGE \<and> t_state row = PENDING \<and>
    t_parent_task_ids row = Some ps"
  using create_merge_node_fresh [OF assms(1), of ps brs "merge_node_branch_name mn"] assms
  by (auto simp: lookup_or_create_merge_node_def act_simps)

lemma lookup_result:
  assumes "lookup_or_create_merge_node hexdigest ps brs d = (Inr mn, d')"
  shows "compute_merge_node_id hexdigest ps = Inr mn \<and> find_task mn d' \<noteq> None"
proof (cases "compute_merge_node_id hexdigest ps")
  case (Inl e)
  with assms show ?thesis by (simp add: lookup_or_create_merge_node_def act_simps)
next
  case (Inr m)
  show ?thesis
  proof (cases "find_task m d")
    case None
    with lookup_fresh [OF None Inr, of brs] assms Inr show ?thesis by auto
  next
    case (Some row)
    with lookup_existing [OF Some Inr, of brs] assms Inr show ?thesis by auto
  qed
qed

lemma keeps_lookup_merge_node [keeps_intros]:
  "keeps store_ok (lookup_or_create_merge_node hexdigest ps brs)"
  unfolding lookup_or_create_merge_node_def
  by (auto intro!: keeps_intros split: sum.splits option.splits)

section \<open>Pruning a parent\<close>

lemma pop_index: "p \<in> set ids \<Longrightarrow> pop_at (index_of p ids) ids = remove1 p ids"
  by (induction ids) (auto simp: pop_at_def)

lemma pop_at_Cons: "pop_at (Suc i) (x # xs) = x # pop_at i xs" "pop_at 0 (x # xs) = xs"
  by (simp_all add: pop_at_def)

text \<open>The parallel columns stay aligned.\<close>

lemma pop_zip:
  assumes "p \<in> set ids" and "distinct ids" and "length ids = length brs"
  shows "zip (remove1 p ids) (pop_at (index_of p ids) brs) = filter (\<lambda>(i, b). i \<noteq> p) (zip ids brs)"
  using assms
proof (induction ids arbitrary: brs)
  case Nil
  then show ?case by simp
next
  case (Cons x ids)
  then obtain b bs where brs: "brs = b # bs" by (cases brs) auto
  show ?case
  proof (cases "x = p")
    case True
    have "filter (\<lambda>(i, b). i \<noteq> p) (zip ids bs) = zip ids bs"
      using Cons.prems(2) True by (auto intro!: filter_True dest: set_zip_leftD)
    with True brs show ?thesis by (simp add: pop_at_Cons)
  next
    case False
    with Cons.IH [of bs] Cons.prems brs show ?thesis by (simp add: pop_at_Cons)
  qed
qed

lemma prune_run:
  assumes "find_task mn d = Some r" and "t_parent_task_ids r = Some ids" and "p \<in> set ids"
  shows "\<exists>d' r'. prune_merge_node_parent mn p d = (Inr (remove1 p ids), d') \<and>
    find_task mn d' = Some r' \<and> t_state r' = t_state r \<and> t_kind r' = t_kind r \<and>
    t_parent_task_ids r' = Some (remove1 p ids) \<and>
    t_parent_branches r' = Some (pop_at (index_of p ids) (get_default (t_parent_branches r) [])) \<and>
    (\<forall>x. x \<noteq> mn \<longrightarrow> find_task x d' = find_task x d)"
  using assms
  by (simp add: prune_merge_node_parent_def act_simps Let_def pop_index find_task_update_row)

section \<open>What a propagation does\<close>

lemma merge_nodes_facts:
  "r \<in> set (merge_nodes_with_parent p d) \<longleftrightarrow>
     r \<in> set (db_tasks d) \<and> t_kind r = Kind_MERGE \<and>
     t_state r \<notin> {MERGE_NODE_RETIRED, BLOCKED, FAILED, ABORTED} \<and>
     (\<exists>ids. t_parent_task_ids r = Some ids \<and> p \<in> set ids)"
  by (auto simp: merge_nodes_with_parent_def all_tasks_facts split: option.splits)

lemma merge_nodes_distinct:
  "distinct (task_ids d) \<Longrightarrow> distinct (map t_id (merge_nodes_with_parent p d))"
  using all_tasks_facts(2) [of d] by (simp add: merge_nodes_with_parent_def distinct_map_filter)

lemma merge_node_edges:
  "target_of MERGE_NODE_READY Ev_PARENT_ADVANCED = Some PENDING"
  "target_of MERGE_NODE_READY Ev_ALL_PARENTS_MERGED = Some MERGE_NODE_RETIRED"
  by code_simp+

text \<open>An event on a task, seen through the row it leaves.\<close>

lemma find_task_frame_simps [simp]:
  "find_task x (d\<lparr>db_log := l\<rparr>) = find_task x d"
  by (simp add: find_task_def)

lemma apply_event_row:
  assumes "find_task tid d = Some r" and "target_of (t_state r) ev = Some t" and "t \<noteq> BLOCKED"
  shows "\<exists>d' r'. apply_event tid ev n kw d = (Inr t, d') \<and> find_task tid d' = Some r' \<and>
    t_state r' = t \<and> t_parent_task_ids r' = t_parent_task_ids r \<and> t_kind r' = t_kind r \<and>
    (\<forall>x. x \<noteq> tid \<longrightarrow> find_task x d' = find_task x d)"
proof -
  have "select_state tid d = Some (t_state r)" using assms(1) by (simp add: select_state_def)
  from apply_event_run [OF this, of ev n kw] transition_run [OF this] assms show ?thesis
    by (simp add: Let_def moved_db_def find_task_update_row)
qed

definition merged_post :: "ident \<Rightarrow> task_row \<Rightarrow> task_row option \<Rightarrow> bool" where
  "merged_post p r v \<longleftrightarrow>
     (\<exists>r'. v = Some r' \<and> t_parent_task_ids r' = map_option (remove1 p) (t_parent_task_ids r) \<and>
        t_state r' =
          (if t_state r = MERGE_NODE_READY
           then if t_parent_task_ids r = Some [p] then MERGE_NODE_RETIRED else PENDING
           else t_state r))"

lemma remove1_eq_Nil: "p \<in> set ids \<Longrightarrow> remove1 p ids = [] \<longleftrightarrow> ids = [p]"
  by (cases ids) auto

lemma merged_row_effect:
  assumes row: "find_task (t_id r) d = Some r"
    and ids: "t_parent_task_ids r = Some ids" "p \<in> set ids"
  shows "\<exists>d'. merged_row p r d = (Inr (t_id r), d') \<and>
    (\<forall>x. x \<noteq> t_id r \<longrightarrow> find_task x d' = find_task x d) \<and> merged_post p r (find_task (t_id r) d')"
proof -
  obtain d1 r1 where prune: "prune_merge_node_parent (t_id r) p d = (Inr (remove1 p ids), d1)"
    and r1: "find_task (t_id r) d1 = Some r1" "t_state r1 = t_state r"
      "t_parent_task_ids r1 = Some (remove1 p ids)"
    and f1: "\<forall>x. x \<noteq> t_id r \<longrightarrow> find_task x d1 = find_task x d"
    using prune_run [OF row ids] by blast
  consider (other) "t_state r \<noteq> MERGE_NODE_READY"
    | (retire) "t_state r = MERGE_NODE_READY" "ids = [p]"
    | (remerge) "t_state r = MERGE_NODE_READY" "ids \<noteq> [p]" by blast
  then show ?thesis
  proof cases
    case other
    with prune r1 f1 ids show ?thesis
      by (auto simp: merged_row_def act_simps merged_post_def)
  next
    case retire
    have "target_of (t_state r1) Ev_ALL_PARENTS_MERGED = Some MERGE_NODE_RETIRED"
      using retire r1(2) merge_node_edges by simp
    from apply_event_row [OF r1(1) this, of "Some (retired_note p)" "[]"] prune r1 f1 ids retire
    show ?thesis by (auto simp: merged_row_def act_simps merged_post_def)
  next
    case remerge
    have "target_of (t_state r1) Ev_PARENT_ADVANCED = Some PENDING"
      using remerge r1(2) merge_node_edges by simp
    from apply_event_row [OF r1(1) this, of "Some (remerge_note p (length (remove1 p ids)))"
        "[F_resume_from_existing_subtasks (Some 1)]"] prune r1 f1 ids remerge
      remove1_eq_Nil [OF ids(2)]
    show ?thesis by (auto simp: merged_row_def act_simps merged_post_def)
  qed
qed

lemma keeps_merged_row [keeps_intros]: "keeps store_ok (merged_row p r)"
  unfolding merged_row_def by (intro keeps_intros)

lemma keeps_propagate [keeps_intros]:
  "keeps store_ok (propagate_parent_merged p)" "keeps store_ok (propagate_parent_advanced p)"
  unfolding propagate_parent_merged_def propagate_parent_advanced_def by (intro keeps_intros)+

lemma affected_current:
  "distinct (task_ids d) \<Longrightarrow> r \<in> set (merge_nodes_with_parent p d) \<Longrightarrow> find_task (t_id r) d = Some r"
  by (simp add: merge_nodes_facts find_task_unique)

lemma propagate_merged_loop:
  assumes "distinct (task_ids d)"
  shows "\<exists>outs d'. propagate_parent_merged p d = (Inr outs, d') \<and>
    (\<forall>x. x \<notin> t_id ` set (merge_nodes_with_parent p d) \<longrightarrow> find_task x d' = find_task x d) \<and>
    list_all2 (\<lambda>r out. out = t_id r \<and> merged_post p r (find_task (t_id r) d'))
      (merge_nodes_with_parent p d) outs"
proof -
  let ?rows = "merge_nodes_with_parent p d"
  have "\<exists>outs d'. py_for ?rows (merged_row p) d = (Inr outs, d') \<and> True \<and>
    (\<forall>x. x \<notin> t_id ` set ?rows \<longrightarrow> find_task x d' = find_task x d) \<and>
    list_all2 (\<lambda>r out. out = t_id r \<and> merged_post p r (find_task (t_id r) d')) ?rows outs"
  proof (rule py_for_keyed [where pre = Some])
    show "\<exists>out d'. merged_row p r d0 = (Inr out, d') \<and> True \<and>
        (\<forall>x. x \<noteq> t_id r \<longrightarrow> find_task x d' = find_task x d0) \<and>
        (out = t_id r \<and> merged_post p r (find_task (t_id r) d'))"
      if mem: "r \<in> set ?rows" and cur: "find_task (t_id r) d0 = Some r" for r d0
    proof -
      obtain ids where "t_parent_task_ids r = Some ids" "p \<in> set ids"
        using mem by (auto simp: merge_nodes_facts)
      from merged_row_effect [OF cur this] show ?thesis by blast
    qed
  qed (use assms in \<open>simp_all add: merge_nodes_distinct affected_current\<close>)
  then show ?thesis by (simp add: propagate_parent_merged_def act_simps)
qed

lemma propagate_advanced_loop:
  assumes "distinct (task_ids d)"
  shows "\<exists>outs d'. propagate_parent_advanced p d = (Inr outs, d') \<and>
    (\<forall>x. x \<notin> set outs \<longrightarrow> find_task x d' = find_task x d) \<and>
    outs = map t_id (filter (\<lambda>r. t_state r = MERGE_NODE_READY) (merge_nodes_with_parent p d)) \<and>
    (\<forall>x \<in> set outs. select_state x d' = Some PENDING)"
proof -
  let ?rows = "filter (\<lambda>r. t_state r = MERGE_NODE_READY) (merge_nodes_with_parent p d)"
  let ?f = "\<lambda>row. py_then
         (apply_event (t_id row) Ev_PARENT_ADVANCED (Some (advanced_note p))
              [F_resume_from_existing_subtasks (Some 1)])
         (py_return (t_id row))"
  let ?post = "\<lambda>r out v. out = t_id r \<and> map_option t_state v = Some PENDING"
  have "\<exists>outs d'. py_for ?rows ?f d = (Inr outs, d') \<and> True \<and>
    (\<forall>x. x \<notin> t_id ` set ?rows \<longrightarrow> find_task x d' = find_task x d) \<and>
    list_all2 (\<lambda>r out. ?post r out (find_task (t_id r) d')) ?rows outs"
  proof (rule py_for_keyed [where pre = Some])
    show "\<exists>out d'. ?f r d0 = (Inr out, d') \<and> True \<and>
        (\<forall>x. x \<noteq> t_id r \<longrightarrow> find_task x d' = find_task x d0) \<and> ?post r out (find_task (t_id r) d')"
      if "r \<in> set ?rows" and "find_task (t_id r) d0 = Some r" for r d0
    proof -
      have "target_of (t_state r) Ev_PARENT_ADVANCED = Some PENDING"
        using that(1) merge_node_edges by simp
      from apply_event_row [OF that(2) this, of "Some (advanced_note p)"
          "[F_resume_from_existing_subtasks (Some 1)]"]
      show ?thesis by (auto simp: act_simps)
    qed
  qed (use assms in \<open>auto simp: merge_nodes_distinct affected_current distinct_map_filter\<close>)
  then obtain outs d' where run: "py_for ?rows ?f d = (Inr outs, d')"
    and frame: "\<forall>x. x \<notin> t_id ` set ?rows \<longrightarrow> find_task x d' = find_task x d"
    and posts: "list_all2 (\<lambda>r out. ?post r out (find_task (t_id r) d')) ?rows outs"
    by (elim exE conjE) (rule that)
  have outs: "outs = map t_id ?rows"
    using posts by (auto simp: list_all2_conv_all_nth intro!: nth_equalityI)
  have "select_state x d' = Some PENDING" if "x \<in> set outs" for x
  proof -
    obtain r where "r \<in> set ?rows" "x = t_id r" using \<open>x \<in> set outs\<close> outs by auto
    with list_all2_in_set1 [OF posts this(1)] show ?thesis by (simp add: select_state_def)
  qed
  with run frame outs show ?thesis
    by (intro exI [of _ outs] exI [of _ d']) (simp add: propagate_parent_advanced_def act_simps)
qed

section \<open>Properties\<close>

text \<open>
  A merge-node is found again. Whatever order a caller lists the same parents in, a second lookup returns the
  same node and creates no second row.
\<close>

theorem merge_node_idempotent:
  assumes "mset ps = mset qs" and "lookup_or_create_merge_node hexdigest ps brs d = (Inr mn, d')"
  shows "lookup_or_create_merge_node hexdigest qs brs' d' = (Inr mn, d')"
proof -
  have "compute_merge_node_id hexdigest qs = Inr mn"
    using lookup_result [OF assms(2)] compute_id_perm [OF assms(1), of hexdigest] by simp
  moreover obtain row where "find_task mn d' = Some row" using lookup_result [OF assms(2)] by auto
  ultimately show ?thesis by (rule lookup_existing [rotated])
qed

text \<open>A digest for evaluation.\<close>

definition demo_digest :: "string \<Rightarrow> string" where
  "demo_digest s = s @ ''00000000''"

definition demo_lookup :: "(py_error + ident) \<times> db" where
  "demo_lookup = lookup_or_create_merge_node demo_digest [''B'', ''A''] [''qk/b'', ''qk/a''] (empty_db 7)"

theorem merge_node_idempotent_witness:
  "\<exists>mn d'. demo_lookup = (Inr mn, d') \<and>
     lookup_or_create_merge_node demo_digest [''A'', ''B''] [] d' = (Inr mn, d')"
proof -
  have "\<exists>mn. fst demo_lookup = Inr mn" by (rule exI [of _ "case fst demo_lookup of Inr m \<Rightarrow> m"]) code_simp
  then obtain mn d' where "demo_lookup = (Inr mn, d')" by (metis prod.collapse)
  moreover from merge_node_idempotent [OF _ this [unfolded demo_lookup_def], of "[''A'', ''B'']" "[]"]
  have "lookup_or_create_merge_node demo_digest [''A'', ''B''] [] d' = (Inr mn, d')"
    by (simp add: add_mset_commute)
  ultimately show ?thesis by blast
qed

text \<open>
  C12: when a parent merges, every live merge-node that waits for it drops exactly that parent; a ready one goes
  back to PENDING to be rebuilt, or retires when that was its last parent. Every other row is untouched.
\<close>

theorem parent_merged_effect:
  assumes "distinct (task_ids d)"
  shows "\<exists>outs d'. propagate_parent_merged p d = (Inr outs, d') \<and>
    outs = map t_id (merge_nodes_with_parent p d) \<and>
    (\<forall>x. x \<notin> set outs \<longrightarrow> find_task x d' = find_task x d) \<and>
    (\<forall>r \<in> set (merge_nodes_with_parent p d). \<exists>r'. find_task (t_id r) d' = Some r' \<and>
       t_parent_task_ids r' = map_option (remove1 p) (t_parent_task_ids r) \<and>
       t_state r' = (if t_state r = MERGE_NODE_READY
                     then if t_parent_task_ids r = Some [p] then MERGE_NODE_RETIRED else PENDING
                     else t_state r))"
proof -
  let ?rows = "merge_nodes_with_parent p d"
  obtain outs d' where run: "propagate_parent_merged p d = (Inr outs, d')"
    and frame: "\<forall>x. x \<notin> t_id ` set ?rows \<longrightarrow> find_task x d' = find_task x d"
    and posts: "list_all2 (\<lambda>r out. out = t_id r \<and> merged_post p r (find_task (t_id r) d')) ?rows outs"
    using propagate_merged_loop [OF assms] by blast
  have "outs = map t_id ?rows"
    using posts by (auto simp: list_all2_conv_all_nth intro!: nth_equalityI)
  moreover have "merged_post p r (find_task (t_id r) d')" if "r \<in> set ?rows" for r
    using list_all2_in_set1 [OF posts that] by blast
  ultimately show ?thesis using run frame unfolding merged_post_def by (intro exI [of _ outs] exI [of _ d']) simp
qed

theorem parent_merged_effect_witness:
  "map t_id (merge_nodes_with_parent ''A'' (snd demo_lookup)) \<noteq> [] \<and>
   (\<exists>outs d'. propagate_parent_merged ''A'' (snd demo_lookup) = (Inr outs, d') \<and>
    outs = map t_id (merge_nodes_with_parent ''A'' (snd demo_lookup)) \<and>
    (\<forall>x. x \<notin> set outs \<longrightarrow> find_task x d' = find_task x (snd demo_lookup)) \<and>
    (\<forall>r \<in> set (merge_nodes_with_parent ''A'' (snd demo_lookup)). \<exists>r'. find_task (t_id r) d' = Some r' \<and>
       t_parent_task_ids r' = map_option (remove1 ''A'') (t_parent_task_ids r) \<and>
       t_state r' = (if t_state r = MERGE_NODE_READY
                     then if t_parent_task_ids r = Some [''A''] then MERGE_NODE_RETIRED else PENDING
                     else t_state r)))"
proof -
  have ids: "distinct (task_ids (snd demo_lookup))" by code_simp
  show ?thesis by (rule conjI [OF _ parent_merged_effect [OF ids]]) code_simp
qed

end
