(* ===== verification/Runner.thy ===== *)
theory Runner
  imports Scheduler MergeNode
begin

text \<open>
  \<^verbatim>\<open>quikode/orchestration/candidates.py\<close> and the scheduling part of \<^verbatim>\<open>quikode/orchestration/runner.py\<close>: the
  orchestrator's own candidate collection (which, unlike the TUI's, reduces several unmet parents to a
  merge-node and lists pending merge-nodes), the pick and its side effects, slot filling, the
  terminal check and the intent-review flags. Thread pools are lists of task ids with a worker; what a
  worker returns is an argument.
\<close>

section \<open>Candidates\<close>

definition store_fns :: "config \<Rightarrow> db \<Rightarrow> stack_fns" where
  "store_fns cfg d = table_fns (store_table d) (cfg_stacking_max_depth cfg)"

text \<open>The branches of the sorted parents; none when a parent has no branch yet.\<close>

fun collect_parent_branches :: "ident list \<Rightarrow> db \<Rightarrow> string list option" where
  "collect_parent_branches [] d = Some []"
| "collect_parent_branches (p # ps) d =
     (case str_or_none (Option.bind (find_task p d) t_branch) of
        None \<Rightarrow> None
      | Some b \<Rightarrow> map_option (Cons b) (collect_parent_branches ps d))"

definition resolve_multi_parent_merge_node ::
  "(string \<Rightarrow> string) \<Rightarrow> ident list \<Rightarrow> ident list option store_act" where
  "resolve_multi_parent_merge_node hexdigest unmet =
     (let sorted_ids = sort unmet
      in py_bind (py_read (collect_parent_branches sorted_ids)) (\<lambda>branches. case branches of
           None \<Rightarrow> py_return None
         | Some brs \<Rightarrow>
             py_bind (lookup_or_create_merge_node hexdigest sorted_ids brs) (\<lambda>mn.
               py_bind (py_read (select_state mn)) (\<lambda>st. case st of
                 None \<Rightarrow> py_return None
               | Some s \<Rightarrow> py_return (if s \<noteq> MERGE_NODE_READY then None else Some [mn])))))"

definition candidate_for_node ::
  "(string \<Rightarrow> string) \<Rightarrow> config \<Rightarrow> dag \<Rightarrow> ident set \<Rightarrow> ident \<Rightarrow> node \<Rightarrow> task_row option \<Rightarrow>
   candidate option store_act" where
  "candidate_for_node hexdigest cfg g completed nid n row =
     py_bind (py_read (\<lambda>d. (resume_signals row (store_view d),
                            stacking_eligible cfg g (store_view d) None n (unmet_deps g completed n),
                            store_fns cfg d)))
       (\<lambda>(sig, eligible, fns).
          let unmet = unmet_deps g completed n
          in if unmet = [] then py_return (Some (make_candidate nid False [] row sig))
             else if \<not> eligible then py_return None
             else if 1 < length unmet then
               py_bind (resolve_multi_parent_merge_node hexdigest unmet) (\<lambda>mn_unmet. case mn_unmet of
                  None \<Rightarrow> py_return None
                | Some u \<Rightarrow> py_return (Some (make_candidate nid True u row sig)))
             else py_return (if stack_gates cfg fns nid (hd unmet)
                             then Some (make_candidate nid True unmet row sig) else None))"

definition pending_merge_node_rows :: "ident set \<Rightarrow> db \<Rightarrow> task_row list" where
  "pending_merge_node_rows in_flight d =
     filter (\<lambda>r. t_kind r = Kind_MERGE \<and> t_state r = PENDING \<and> t_id r \<notin> in_flight) (all_tasks d)"

definition collect_candidates ::
  "(string \<Rightarrow> string) \<Rightarrow> config \<Rightarrow> dag \<Rightarrow> ident set \<Rightarrow> ident set \<Rightarrow> candidate list store_act" where
  "collect_candidates hexdigest cfg g scope in_flight =
     py_bind (py_read (\<lambda>d. (completed_ids d \<inter> scope, active_ids d \<inter> scope))) (\<lambda>(completed, active).
     py_bind
       (py_for (sorted_list_of_set scope) (\<lambda>nid.
          py_bind (py_read (\<lambda>d. open_node g (store_view d) completed active in_flight nid)) (\<lambda>op.
            case op of
              None \<Rightarrow> py_return None
            | Some (n, row) \<Rightarrow> candidate_for_node hexdigest cfg g completed nid n row)))
       (\<lambda>found.
          py_bind (py_read (pending_merge_node_rows in_flight)) (\<lambda>mns.
            py_return (List.map_filter id found @
                       map (\<lambda>r. make_candidate (t_id r) False [] (Some r) (False, 0, 0)) mns))))"

section \<open>The pick\<close>

text \<open>\<^verbatim>\<open>row = c.get("row") or self.store.get(nid) or {}\<close>, then its kind.\<close>

definition candidate_is_merge :: "candidate \<Rightarrow> db \<Rightarrow> bool" where
  "candidate_is_merge c d =
     (case c_row c of
        Some r \<Rightarrow> is_merge_node r
      | None \<Rightarrow> (case find_task (c_task_id c) d of None \<Rightarrow> False | Some r \<Rightarrow> is_merge_node r))"

definition unmet_with_branch :: "ident list \<Rightarrow> db \<Rightarrow> (ident \<times> string) list" where
  "unmet_with_branch unmet d =
     List.map_filter (\<lambda>p. map_option (Pair p) (str_or_none (Option.bind (find_task p d) t_branch)))
       (sort unmet)"

definition apply_pick_side_effects :: "candidate \<Rightarrow> unit store_act" where
  "apply_pick_side_effects c =
     (let nid = c_task_id c
      in if \<not> c_is_stacked c then
           py_bind (py_read (\<lambda>d. \<not> candidate_is_merge c d \<and> get_parent_task_ids nid d \<noteq> [])) (\<lambda>stale.
             if stale then py_then (clear_parent_branch nid) (set_parent_merge_base nid None None)
             else py_return ())
         else
           py_bind (py_read (unmet_with_branch (c_unmet c))) (\<lambda>pairs.
             if pairs = [] then py_return ()
             else py_then
                    (set_parent_chain nid (map fst pairs) (Some (map snd pairs)) (Some (map snd pairs)))
                    (set_parent_merge_base nid None None)))"

definition pick_order :: "dag \<Rightarrow> ident set \<Rightarrow> candidate list \<Rightarrow> candidate list" where
  "pick_order g scope cs = sort_key (\<lambda>c. (- score_of g scope c, c_task_id c)) (prefer_primary_candidates cs)"

definition pick_next ::
  "(string \<Rightarrow> string) \<Rightarrow> config \<Rightarrow> dag \<Rightarrow> ident set \<Rightarrow> ident set \<Rightarrow> ident option store_act" where
  "pick_next hexdigest cfg g scope in_flight =
     py_bind (collect_candidates hexdigest cfg g scope in_flight) (\<lambda>cs.
       case pick_order g scope cs of
         [] \<Rightarrow> py_return None
       | best # _ \<Rightarrow> py_then (apply_pick_side_effects best) (py_return (Some (c_task_id best))))"

text \<open>
  \<^verbatim>\<open>while len(futures) < max_parallel\<close>: every pick adds a future, so \<open>fuel\<close> free slots are enough turns.
\<close>

primrec schedule_ready_tasks ::
  "nat \<Rightarrow> (string \<Rightarrow> string) \<Rightarrow> config \<Rightarrow> dag \<Rightarrow> ident set \<Rightarrow> ident list \<Rightarrow> ident list store_act" where
  "schedule_ready_tasks 0 hexdigest cfg g scope futures = py_return futures"
| "schedule_ready_tasks (Suc fuel) hexdigest cfg g scope futures =
     (if int (length futures) < cfg_max_parallel cfg then
        py_bind (pick_next hexdigest cfg g scope (set futures)) (\<lambda>nxt. case nxt of
           None \<Rightarrow> py_return futures
         | Some tid \<Rightarrow> schedule_ready_tasks fuel hexdigest cfg g scope (futures @ [tid]))
      else py_return futures)"

section \<open>Termination check and intent review\<close>

definition all_done :: "ident set \<Rightarrow> db \<Rightarrow> bool" where
  "all_done scope d \<longleftrightarrow>
     (\<forall>nid \<in> scope. case find_task nid d of
        None \<Rightarrow> False | Some r \<Rightarrow> t_state r \<in> set [MERGED, BLOCKED, FAILED, ABORTED])"

definition intent_review_targets :: "ident set \<Rightarrow> db \<Rightarrow> ident list" where
  "intent_review_targets exclude d =
     filter (\<lambda>i. i \<notin> exclude)
       (map t_id (in_state [DOING_SUBTASK, CHECKING_SUBTASK, TRIAGING_SUBTASK, PR_OPENING, PENDING_CI] d))"

definition flag_external_merges :: "ident set \<Rightarrow> ident set \<Rightarrow> ident set store_act" where
  "flag_external_merges scope previously =
     py_bind (py_read (\<lambda>d. completed_ids d \<inter> scope)) (\<lambda>current.
       let newly = current - previously
       in py_then
            (if newly = {} then py_return ()
             else py_bind (py_read (intent_review_targets newly)) (\<lambda>targets.
                    py_then (py_for (sorted_list_of_set newly) (\<lambda>_. mark_needs_intent_review targets))
                            (py_return ())))
            (py_return current))"

text \<open>\<^verbatim>\<open>None\<close> is a worker that raised.\<close>

definition handle_finished_task :: "ident \<Rightarrow> state option \<Rightarrow> unit store_act" where
  "handle_finished_task tid final_state =
     (case final_state of
        None \<Rightarrow> py_return ()
      | Some s \<Rightarrow>
          if s = MERGED then
            py_bind (py_read (intent_review_targets {tid})) (\<lambda>targets.
              if targets = [] then py_return () else mark_needs_intent_review targets)
          else py_return ())"

definition reap_finished_tasks ::
  "(ident \<times> state option) list \<Rightarrow> ident list \<Rightarrow> ident set \<Rightarrow> (ident list \<times> ident set) store_act" where
  "reap_finished_tasks outcomes futures review_futures =
     (let finished = filter (\<lambda>tid. map_of outcomes tid \<noteq> None) futures
      in py_then
           (py_for finished (\<lambda>tid. handle_finished_task tid (Option.bind (map_of outcomes tid) id)))
           (py_return (filter (\<lambda>tid. tid \<notin> set finished) futures, review_futures - set finished)))"

text \<open>The entry of \<^verbatim>\<open>run\<close>: every node of the scope gets a row.\<close>

definition register_scope :: "ident set \<Rightarrow> unit store_act" where
  "register_scope scope = py_then (py_for (sorted_list_of_set scope) upsert_pending) (py_return ())"

section \<open>Collecting only adds pending merge-nodes\<close>

lemma py_for_all:
  assumes "I s" and "\<And>x s. x \<in> set xs \<Longrightarrow> I s \<Longrightarrow> \<exists>out s'. f x s = (Inr out, s') \<and> I s' \<and> Q x out s'"
    and "\<And>x out s s'. Q x out s \<Longrightarrow> I s \<Longrightarrow> R s s' \<Longrightarrow> Q x out s'"
    and "\<And>x s out s'. x \<in> set xs \<Longrightarrow> I s \<Longrightarrow> f x s = (Inr out, s') \<Longrightarrow> R s s'"
    and "\<And>s. R s s" and "\<And>s t u. R s t \<Longrightarrow> R t u \<Longrightarrow> R s u"
  shows "\<exists>outs s'. py_for xs f s = (Inr outs, s') \<and> I s' \<and> R s s' \<and> list_all2 (\<lambda>x out. Q x out s') xs outs"
  using assms(1,2,4)
proof (induction xs arbitrary: s)
  case Nil
  then show ?case using assms(5) by (simp add: act_simps)
next
  case (Cons x xs)
  obtain o1 s1 where one: "f x s = (Inr o1, s1)" "I s1" "Q x o1 s1" using Cons.prems(1,2) by fastforce
  have R1: "R s s1" using Cons.prems(3) [OF _ Cons.prems(1) one(1)] by simp
  obtain outs s2 where rest: "py_for xs f s1 = (Inr outs, s2)" "I s2" "R s1 s2"
      "list_all2 (\<lambda>x out. Q x out s2) xs outs"
    using Cons.IH [OF one(2)] Cons.prems(2,3) by (metis list.set_intros(2))
  have "Q x o1 s2" using assms(3) one(2,3) rest(3) by blast
  with one rest R1 show ?case using assms(6) by (auto simp: act_simps)
qed

definition grows :: "db \<Rightarrow> db \<Rightarrow> bool" where
  "grows d d' \<longleftrightarrow>
     (\<forall>x r. find_task x d = Some r \<longrightarrow> find_task x d' = Some r) \<and>
     (\<forall>x. find_task x d = None \<longrightarrow> select_state x d' \<in> {None, Some PENDING})"

lemma grows_refl: "grows d d"
  by (simp add: grows_def select_state_def)

lemma grows_trans: "grows a b \<Longrightarrow> grows b c \<Longrightarrow> grows a c"
proof -
  assume ab: "grows a b" and bc: "grows b c"
  have "select_state x c \<in> {None, Some PENDING}" if "find_task x a = None" for x
  proof (cases "find_task x b")
    case None
    with bc show ?thesis by (simp add: grows_def)
  next
    case (Some r)
    have "select_state x b \<in> {None, Some PENDING}" using ab that unfolding grows_def by blast
    with Some have "t_state r = PENDING" by (simp add: select_state_def)
    moreover have "find_task x c = Some r" using bc Some by (simp add: grows_def)
    ultimately show ?thesis by (simp add: select_state_def)
  qed
  with ab bc show ?thesis by (simp add: grows_def)
qed

lemma grows_state: "grows d d' \<Longrightarrow> select_state x d = Some s \<Longrightarrow> select_state x d' = Some s"
  by (auto simp: grows_def select_state_def)

lemma grows_open: "grows d d' \<Longrightarrow> select_state x d \<in> {None, Some PENDING} \<Longrightarrow>
    select_state x d' \<in> {None, Some PENDING}"
  by (cases "find_task x d") (auto simp: grows_def select_state_def)

lemma create_merge_node_grows:
  assumes "find_task mn d = None" and "distinct (task_ids d)"
  shows "\<exists>d'. create_merge_node mn ps brs br d = (Inr (), d') \<and> grows d d' \<and> distinct (task_ids d')"
  using assms find_task_None_iff [of mn d]
  by (auto simp: create_merge_node_def act_simps grows_def select_state_def find_task_def find_append
      task_ids_def split: option.splits)

lemma lookup_total:
  assumes "ps \<noteq> []" and "distinct (task_ids d)"
  shows "\<exists>mn d'. lookup_or_create_merge_node hexdigest ps brs d = (Inr mn, d') \<and> grows d d' \<and>
    distinct (task_ids d')"
proof -
  obtain mn where mn: "compute_merge_node_id hexdigest ps = Inr mn"
    using assms(1) by (simp add: compute_merge_node_id_def)
  show ?thesis
  proof (cases "find_task mn d")
    case None
    with create_merge_node_grows [OF None assms(2), of ps brs "merge_node_branch_name mn"] mn show ?thesis
      by (auto simp: lookup_or_create_merge_node_def act_simps)
  next
    case (Some row)
    with lookup_existing [OF Some mn] assms(2) show ?thesis by (auto simp: grows_refl)
  qed
qed

lemma resolve_total:
  assumes "unmet \<noteq> []" and "distinct (task_ids d)"
  shows "\<exists>r d'. resolve_multi_parent_merge_node hexdigest unmet d = (Inr r, d') \<and> grows d d' \<and>
    distinct (task_ids d') \<and> (\<forall>u. r = Some u \<longrightarrow> (\<exists>mn. u = [mn] \<and> select_state mn d' = Some MERGE_NODE_READY))"
proof (cases "collect_parent_branches (sort unmet) d")
  case None
  then show ?thesis
    using assms(2) by (simp add: resolve_multi_parent_merge_node_def act_simps grows_refl Let_def)
next
  case (Some brs)
  have "sort unmet \<noteq> []" using assms(1) by simp
  from lookup_total [OF this assms(2), of hexdigest brs] obtain mn d'
    where run: "lookup_or_create_merge_node hexdigest (sort unmet) brs d = (Inr mn, d')"
      "grows d d'" "distinct (task_ids d')" by blast
  with Some show ?thesis
    by (auto simp: resolve_multi_parent_merge_node_def act_simps Let_def split: option.splits)
qed

lemma candidate_for_node_total:
  assumes "distinct (task_ids d)"
  shows "\<exists>r d'. candidate_for_node hexdigest cfg g completed nid n row d = (Inr r, d') \<and> grows d d' \<and>
    distinct (task_ids d') \<and> (\<forall>c. r = Some c \<longrightarrow> c_task_id c = nid \<and>
      (c_is_stacked c \<longleftrightarrow> unmet_deps g completed n \<noteq> []))"
proof (cases "unmet_deps g completed n \<noteq> [] \<and> 1 < length (unmet_deps g completed n)")
  case True
  with resolve_total [OF _ assms, of "unmet_deps g completed n" hexdigest] show ?thesis
    using assms
    by (auto simp: candidate_for_node_def act_simps grows_refl Let_def split: option.splits)
next
  case False
  then show ?thesis
    using assms by (auto simp: candidate_for_node_def act_simps grows_refl Let_def)
qed

lemma collect_total:
  assumes "distinct (task_ids d)" and "finite scope"
  shows "\<exists>cs d'. collect_candidates hexdigest cfg g scope in_flight d = (Inr cs, d') \<and> grows d d' \<and>
    distinct (task_ids d') \<and>
    (\<forall>c \<in> set cs. c_task_id c \<notin> in_flight \<and> select_state (c_task_id c) d' \<in> {None, Some PENDING})"
proof -
  let ?comp = "completed_ids d \<inter> scope" and ?act = "active_ids d \<inter> scope"
  let ?body = "\<lambda>nid. py_bind (py_read (\<lambda>d. open_node g (store_view d) ?comp ?act in_flight nid)) (\<lambda>op.
            case op of
              None \<Rightarrow> py_return None
            | Some (n, row) \<Rightarrow> candidate_for_node hexdigest cfg g ?comp nid n row)"
  let ?Q = "\<lambda>nid out d. \<forall>c. out = Some c \<longrightarrow> c_task_id c \<notin> in_flight \<and>
      select_state (c_task_id c) d \<in> {None, Some PENDING}"
  have one: "\<exists>out d'. ?body nid d = (Inr out, d') \<and> distinct (task_ids d') \<and> grows d d' \<and> ?Q nid out d'"
    if ids: "distinct (task_ids d)" for nid d
  proof (cases "open_node g (store_view d) ?comp ?act in_flight nid")
    case None
    with ids show ?thesis by (auto simp: act_simps grows_refl)
  next
    case (Some nr)
    obtain n row where nr: "nr = (n, row)" by fastforce
    have op: "nid \<notin> in_flight" "select_state nid d \<in> {None, Some PENDING}"
      using open_node_SomeD [OF Some [unfolded nr]] by (cases row; auto simp: store_view_def select_state_def)+
    from candidate_for_node_total [OF ids, of hexdigest cfg g ?comp nid n row]
    show ?thesis using Some nr op grows_open by (fastforce simp: act_simps)
  qed
  have "\<exists>outs d'. py_for (sorted_list_of_set scope) ?body d = (Inr outs, d') \<and> distinct (task_ids d') \<and>
      grows d d' \<and> list_all2 (\<lambda>x out. ?Q x out d') (sorted_list_of_set scope) outs"
  proof (rule py_for_all)
    show "\<exists>out d'. ?body nid d = (Inr out, d') \<and> distinct (task_ids d') \<and> ?Q nid out d'"
      if "distinct (task_ids d)" for nid d
      using one [OF that, of nid] by blast
    show "grows d d'" if "distinct (task_ids d)" "?body nid d = (Inr out, d')" for nid d out d'
      using one [OF that(1), of nid] that(2) by auto
    show "?Q x out d'" if "?Q x out d" "grows d d'" for x out d d'
      using that grows_open by blast
  qed (use assms(1) in \<open>auto intro: grows_refl grows_trans\<close>)
  then obtain outs d' where loop: "py_for (sorted_list_of_set scope) ?body d = (Inr outs, d')"
      "distinct (task_ids d')" "grows d d'"
    and Q: "list_all2 (\<lambda>x out. ?Q x out d') (sorted_list_of_set scope) outs" by blast
  have found: "c_task_id c \<notin> in_flight \<and> select_state (c_task_id c) d' \<in> {None, Some PENDING}"
    if "Some c \<in> set outs" for c
    using Q that by (auto simp: list_all2_conv_all_nth in_set_conv_nth)
  have mns: "t_id r \<notin> in_flight \<and> select_state (t_id r) d' = Some PENDING"
    if "r \<in> set (pending_merge_node_rows in_flight d')" for r
    using that find_task_unique [OF loop(2), of r]
    by (simp add: pending_merge_node_rows_def all_tasks_facts select_state_def)
  have run: "collect_candidates hexdigest cfg g scope in_flight d =
      (Inr (List.map_filter id outs @ map (\<lambda>r. make_candidate (t_id r) False [] (Some r) (False, 0, 0))
         (pending_merge_node_rows in_flight d')), d')"
    using loop(1) by (simp add: collect_candidates_def act_simps)
  have all: "c_task_id c \<notin> in_flight \<and> select_state (c_task_id c) d' \<in> {None, Some PENDING}"
    if c: "c \<in> set (List.map_filter id outs @ map (\<lambda>r. make_candidate (t_id r) False [] (Some r) (False, 0, 0))
         (pending_merge_node_rows in_flight d'))" for c
  proof -
    consider "Some c \<in> set outs" | r where "r \<in> set (pending_merge_node_rows in_flight d')" "c_task_id c = t_id r"
      using c by (auto simp: map_filter_mem)
    then show ?thesis
    proof cases
      case 1
      then show ?thesis by (rule found)
    next
      case 2
      with mns [OF 2(1)] show ?thesis by simp
    qed
  qed
  show ?thesis by (intro exI conjI ballI, rule run) (use loop(2,3) all in blast)+
qed

section \<open>The pick moves no task\<close>

text \<open>\<open>same_states\<close>: an action that returns and leaves every task's state and identity as it was.\<close>

definition same_states :: "'a store_act \<Rightarrow> bool" where
  "same_states m \<longleftrightarrow>
     (\<forall>d. \<exists>a. fst (m d) = Inr a) \<and>
     (\<forall>d x. select_state x (snd (m d)) = select_state x d) \<and>
     (\<forall>d. task_ids (snd (m d)) = task_ids d)"

named_theorems same_intros \<open>actions that move no task\<close>

lemma same_statesD:
  assumes "same_states m"
  obtains a d' where "m d = (Inr a, d')" and "\<And>x. select_state x d' = select_state x d"
    and "task_ids d' = task_ids d"
  using assms that [of _ "snd (m d)"] unfolding same_states_def by (metis prod.collapse)

lemma same_return [same_intros]: "same_states (py_return a)"
  by (simp add: same_states_def py_return_run)

lemma same_read [same_intros]: "same_states (py_read f)"
  by (simp add: same_states_def py_read_run)

lemma same_update [same_intros]:
  assumes "\<And>r. t_id (f r) = t_id r" and "\<And>r. t_state (f r) = t_state r"
  shows "same_states (update_task tid f)"
  using assms by (simp add: same_states_def update_task_run select_state_update_row)

lemma same_bind [same_intros]:
  assumes "same_states m" and "\<And>a. same_states (k a)"
  shows "same_states (py_bind m k)"
proof -
  have "\<exists>b d2. py_bind m k d = (Inr b, d2) \<and> (\<forall>x. select_state x d2 = select_state x d) \<and>
      task_ids d2 = task_ids d" for d
  proof -
    obtain a d1 where 1: "m d = (Inr a, d1)" "\<And>x. select_state x d1 = select_state x d"
      "task_ids d1 = task_ids d" using same_statesD [OF assms(1)] by metis
    obtain b d2 where 2: "k a d1 = (Inr b, d2)" "\<And>x. select_state x d2 = select_state x d1"
      "task_ids d2 = task_ids d1" using same_statesD [OF assms(2)] by metis
    from 1 2 show ?thesis by (simp add: py_bind_run)
  qed
  then show ?thesis unfolding same_states_def by (metis fst_conv snd_conv)
qed

lemma same_then [same_intros]: "same_states m \<Longrightarrow> same_states k \<Longrightarrow> same_states (py_then m k)"
  unfolding py_then_def by (rule same_bind)

lemma same_if [same_intros]: "same_states m \<Longrightarrow> same_states k \<Longrightarrow> same_states (if b then m else k)"
  by simp

lemma same_for [same_intros]: "(\<And>x. same_states (f x)) \<Longrightarrow> same_states (py_for xs f)"
  by (induction xs) (auto intro!: same_intros)

lemma same_case_option [same_intros]:
  "same_states m \<Longrightarrow> (\<And>y. same_states (k y)) \<Longrightarrow> same_states (case x of None \<Rightarrow> m | Some y \<Rightarrow> k y)"
  by (cases x) simp_all

lemma same_tx [same_intros]: "same_states m \<Longrightarrow> same_states (tx m)"
proof -
  assume m: "same_states m"
  have "tx m = m"
  proof
    fix d
    show "tx m d = m d" using same_statesD [OF m, of d] by (metis (no_types, lifting) case_prod_conv old.sum.simps(6) tx_run)
  qed
  with m show ?thesis by simp
qed

lemma same_parent_writers [same_intros]:
  "same_states (clear_parent_branch tid)" "same_states (set_parent_merge_base tid b sha)"
  "same_states (set_parent_chain tid ids brs prs)" "same_states (mark_needs_intent_review tids)"
  "same_states (clear_needs_parent_rebase tid)" "same_states (mark_needs_parent_rebase tid)"
  "same_states (set_pre_rebase_state tid st)" "same_states (set_last_rebase_scheduled tid ts)"
  "same_states (set_last_review_ready_notified_ts tid ts)" "same_states (mark_review_processed tid rid)"
  "same_states (set_last_observed_branch_tip_sha tid tip)" "same_states (increment_review_round tid)"
  unfolding clear_parent_branch_def set_parent_merge_base_def set_parent_chain_def
    mark_needs_intent_review_def flag_intent_review_def clear_needs_parent_rebase_def
    mark_needs_parent_rebase_def set_pre_rebase_state_def set_last_rebase_scheduled_def
    set_last_review_ready_notified_ts_def mark_review_processed_def
    set_last_observed_branch_tip_sha_def increment_review_round_def
  by (intro same_intros; simp)+

lemma same_set_field [same_intros]: "same_states (set_field tid kw)"
  unfolding set_field_def by (intro same_intros) simp_all

lemma same_pick_effects [same_intros]: "same_states (apply_pick_side_effects c)"
  unfolding apply_pick_side_effects_def Let_def by (intro same_intros)

lemma pick_order_head:
  assumes "pick_order g scope cs = best # rest"
  shows "best \<in> set (prefer_primary_candidates cs) \<and>
    (\<forall>c \<in> set (prefer_primary_candidates cs).
       score_of g scope c < score_of g scope best \<or>
       score_of g scope c = score_of g scope best \<and> c_task_id best \<le> c_task_id c)"
  using sort_key_hd [OF assms [unfolded pick_order_def]] by (fastforce simp: less_eq_prod_def)

lemma pick_order_Nil [simp]: "pick_order g scope cs = [] \<longleftrightarrow> cs = []"
  by (simp add: pick_order_def)

lemma pick_order_empty [simp]: "pick_order g scope [] = []"
  using pick_order_Nil [of g scope "[]"] by blast

lemma pick_next_run:
  assumes "distinct (task_ids d)" and "finite scope"
  shows "\<exists>cs d1 r d'. collect_candidates hexdigest cfg g scope in_flight d = (Inr cs, d1) \<and>
    pick_next hexdigest cfg g scope in_flight d = (Inr r, d') \<and>
    (r = None \<longleftrightarrow> cs = []) \<and>
    (\<forall>tid. r = Some tid \<longrightarrow> tid \<notin> in_flight \<and> select_state tid d' \<in> {None, Some PENDING} \<and>
       (\<exists>best rest. pick_order g scope cs = best # rest \<and> c_task_id best = tid)) \<and>
    (\<forall>x s. select_state x d = Some s \<longrightarrow> select_state x d' = Some s) \<and> distinct (task_ids d')"
proof -
  obtain cs d1 where c: "collect_candidates hexdigest cfg g scope in_flight d = (Inr cs, d1)"
    "grows d d1" "distinct (task_ids d1)"
    and open': "\<forall>c \<in> set cs. c_task_id c \<notin> in_flight \<and> select_state (c_task_id c) d1 \<in> {None, Some PENDING}"
    using collect_total [OF assms] by blast
  show ?thesis
  proof (cases "pick_order g scope cs")
    case Nil
    then have "pick_next hexdigest cfg g scope in_flight d = (Inr None, d1)"
      by (simp add: pick_next_def py_bind_run c(1) py_return_run)
    with c Nil show ?thesis by (auto intro: grows_state)
  next
    case (Cons best rest)
    obtain a d2 where e: "apply_pick_side_effects best d1 = (Inr a, d2)"
      "\<And>x. select_state x d2 = select_state x d1" "task_ids d2 = task_ids d1"
      using same_statesD [OF same_pick_effects] by metis
    have run: "pick_next hexdigest cfg g scope in_flight d = (Inr (Some (c_task_id best)), d2)"
      by (simp add: pick_next_def py_bind_run py_then_run c(1) Cons e(1) py_return_run)
    have "best \<in> set cs" using pick_order_head [OF Cons] prefer_primary_subset by blast
    then have b: "c_task_id best \<notin> in_flight" "select_state (c_task_id best) d2 \<in> {None, Some PENDING}"
      using open' e(2) by simp_all
    have keep: "select_state x d = Some s \<Longrightarrow> select_state x d2 = Some s" for x s
      using grows_state [OF c(2)] e(2) by simp
    have "cs \<noteq> []" using Cons by (metis list.distinct(1) pick_order_Nil)
    with run c(1) b keep Cons e(3) c(3) show ?thesis by auto
  qed
qed

section \<open>Filling the slots\<close>

text \<open>
  What filling leaves: distinct futures within the limit, every earlier state, and either a full pool
  or a last pick that found nothing.
\<close>

lemma schedule_run:
  assumes "distinct (task_ids d)" and "finite scope" and "distinct futures"
  shows "\<exists>fs d'. schedule_ready_tasks fuel hexdigest cfg g scope futures d = (Inr fs, d') \<and>
    distinct fs \<and> take (length futures) fs = futures \<and> length fs \<le> length futures + fuel \<and>
    (int (length futures) \<le> cfg_max_parallel cfg \<longrightarrow> int (length fs) \<le> cfg_max_parallel cfg) \<and>
    (\<forall>x s. select_state x d = Some s \<longrightarrow> select_state x d' = Some s) \<and> distinct (task_ids d') \<and>
    (nat (cfg_max_parallel cfg) \<le> length futures + fuel \<longrightarrow>
       cfg_max_parallel cfg \<le> int (length fs) \<or>
       (\<exists>d1. pick_next hexdigest cfg g scope (set fs) d1 = (Inr None, d')))"
  using assms(1,3)
proof (induction fuel arbitrary: d futures)
  case 0
  then show ?case by (auto simp: py_return_run)
next
  case (Suc fuel)
  show ?case
  proof (cases "int (length futures) < cfg_max_parallel cfg")
    case False
    with Suc.prems show ?thesis by (auto simp: py_return_run)
  next
    case True
    obtain r d1 where pick: "pick_next hexdigest cfg g scope (set futures) d = (Inr r, d1)"
      and fresh: "\<And>tid. r = Some tid \<Longrightarrow> tid \<notin> set futures"
      and keep: "\<And>x s. select_state x d = Some s \<Longrightarrow> select_state x d1 = Some s"
      and ids: "distinct (task_ids d1)"
      using pick_next_run [OF Suc.prems(1) assms(2), of hexdigest cfg g "set futures"] by metis
    show ?thesis
    proof (cases r)
      case None
      with True pick keep ids Suc.prems show ?thesis by (auto simp: py_bind_run py_return_run)
    next
      case (Some tid)
      let ?fs = "futures @ [tid]"
      have "distinct ?fs" using Suc.prems(2) fresh [OF Some] by simp
      from Suc.IH [OF ids this] obtain fs d' where
        rest: "schedule_ready_tasks fuel hexdigest cfg g scope ?fs d1 = (Inr fs, d')"
        and f: "distinct fs" "take (length ?fs) fs = ?fs" "length fs \<le> length ?fs + fuel"
        and lim: "int (length ?fs) \<le> cfg_max_parallel cfg \<longrightarrow> int (length fs) \<le> cfg_max_parallel cfg"
        and keep': "\<forall>x s. select_state x d1 = Some s \<longrightarrow> select_state x d' = Some s"
        and ids': "distinct (task_ids d')"
        and full: "nat (cfg_max_parallel cfg) \<le> length ?fs + fuel \<longrightarrow>
          cfg_max_parallel cfg \<le> int (length fs) \<or>
          (\<exists>d2. pick_next hexdigest cfg g scope (set fs) d2 = (Inr None, d'))"
        by blast
      have run: "schedule_ready_tasks (Suc fuel) hexdigest cfg g scope futures d = (Inr fs, d')"
        using True pick Some rest by (simp add: py_bind_run)
      have "take (length futures) fs = futures"
        using f(2) by (metis append_eq_conv_conj append_take_drop_id append.assoc)
      moreover have "int (length ?fs) \<le> cfg_max_parallel cfg" using True by simp
      ultimately show ?thesis using run f lim keep keep' ids' full by auto
    qed
  qed
qed

lemma schedule_keeps_states:
  assumes "distinct (task_ids d)" and "finite scope"
  shows "\<exists>fs d'. schedule_ready_tasks fuel hexdigest cfg g scope futures d = (Inr fs, d') \<and>
    (\<forall>x s. select_state x d = Some s \<longrightarrow> select_state x d' = Some s)"
  using assms(1)
proof (induction fuel arbitrary: d futures)
  case 0
  then show ?case by (simp add: py_return_run)
next
  case (Suc fuel)
  obtain r d1 where pick: "pick_next hexdigest cfg g scope (set futures) d = (Inr r, d1)"
    "\<forall>x s. select_state x d = Some s \<longrightarrow> select_state x d1 = Some s" "distinct (task_ids d1)"
    using pick_next_run [OF Suc.prems assms(2), of hexdigest cfg g "set futures"] by blast
  show ?case
  proof (cases r)
    case None
    with pick show ?thesis by (simp add: py_bind_run py_return_run)
  next
    case (Some tid)
    with Suc.IH [OF pick(3), of "futures @ [tid]"] pick show ?thesis by (auto simp: py_bind_run py_return_run)
  qed
qed

section \<open>Histories\<close>

lemma keeps_parent_writers [keeps_intros]: "keeps store_ok (set_parent_merge_base tid b sha)"
  unfolding set_parent_merge_base_def by (intro keeps_intros) simp_all

lemma keeps_resolve [keeps_intros]: "keeps store_ok (resolve_multi_parent_merge_node hexdigest u)"
  unfolding resolve_multi_parent_merge_node_def Let_def by (intro keeps_intros)

lemma keeps_candidate [keeps_intros]:
  "keeps store_ok (candidate_for_node hexdigest cfg g completed nid n row)"
  unfolding candidate_for_node_def Let_def
  by (intro keeps_intros) (auto intro!: keeps_intros split: prod.splits)

lemma keeps_collect [keeps_intros]: "keeps store_ok (collect_candidates hexdigest cfg g scope in_flight)"
  unfolding collect_candidates_def by (auto intro!: keeps_intros split: option.splits)

lemma keeps_pick [keeps_intros]: "keeps store_ok (pick_next hexdigest cfg g scope in_flight)"
  unfolding pick_next_def apply_pick_side_effects_def Let_def
  by (auto intro!: keeps_intros split: list.splits)

lemma keeps_schedule [keeps_intros]:
  "keeps store_ok (schedule_ready_tasks fuel hexdigest cfg g scope futures)"
  by (induction fuel arbitrary: futures) (auto intro!: keeps_intros)

lemma keeps_finish [keeps_intros]:
  "keeps store_ok (flag_external_merges scope prev)"
  "keeps store_ok (handle_finished_task tid st)"
  "keeps store_ok (register_scope scope)"
  unfolding flag_external_merges_def handle_finished_task_def register_scope_def Let_def
  by (auto intro!: keeps_intros split: option.splits)

lemma keeps_reap [keeps_intros]: "keeps store_ok (reap_finished_tasks outcomes futures reviews)"
  unfolding reap_finished_tasks_def Let_def by (intro keeps_intros)

section \<open>What is offered\<close>

text \<open>A candidate is a pending merge-node, or a DAG node that is stacked exactly when a dependency is unmet.\<close>

definition offered :: "config \<Rightarrow> dag \<Rightarrow> ident set \<Rightarrow> ident set \<Rightarrow> candidate \<Rightarrow> bool" where
  "offered cfg g scope completed c \<longleftrightarrow>
     (\<exists>r. c_row c = Some r \<and> t_kind r = Kind_MERGE \<and> c_task_id c = t_id r) \<or>
     (\<exists>n. c_task_id c \<in> scope \<and> map_of (dag_nodes g) (c_task_id c) = Some n \<and>
        (c_is_stacked c \<longleftrightarrow> unmet_deps g completed n \<noteq> []) \<and>
        (c_is_stacked c \<longrightarrow> cfg_stacking_strategy cfg \<noteq> Strategy_OFF))"

lemma candidate_for_node_yields:
  "yields (\<lambda>r. \<forall>c. r = Some c \<longrightarrow> c_task_id c = nid \<and> (c_is_stacked c \<longleftrightarrow> unmet_deps g completed n \<noteq> []) \<and>
     (c_is_stacked c \<longrightarrow> cfg_stacking_strategy cfg \<noteq> Strategy_OFF))
   (candidate_for_node hexdigest cfg g completed nid n row)"
  by (auto simp: yields_def candidate_for_node_def act_simps Let_def stacking_eligible_def split: option.splits
      if_splits sum.splits prod.splits)

lemma collect_offered:
  assumes "finite scope" and "collect_candidates hexdigest cfg g scope in_flight d = (Inr cs, d')" and "c \<in> set cs"
  shows "offered cfg g scope (completed_ids d \<inter> scope) c"
proof -
  let ?comp = "completed_ids d \<inter> scope" and ?act = "active_ids d \<inter> scope"
  let ?body = "\<lambda>nid. py_bind (py_read (\<lambda>d. open_node g (store_view d) ?comp ?act in_flight nid)) (\<lambda>op.
            case op of
              None \<Rightarrow> py_return None
            | Some (n, row) \<Rightarrow> candidate_for_node hexdigest cfg g ?comp nid n row)"
  let ?Q = "\<lambda>nid out. \<forall>c. out = Some c \<longrightarrow> (\<exists>n. c_task_id c = nid \<and> map_of (dag_nodes g) nid = Some n \<and>
        (c_is_stacked c \<longleftrightarrow> unmet_deps g ?comp n \<noteq> []) \<and>
        (c_is_stacked c \<longrightarrow> cfg_stacking_strategy cfg \<noteq> Strategy_OFF))"
  have one: "yields (?Q nid) (?body nid)" for nid
  proof (rule yields_bind)
    show "yields (\<lambda>op. \<forall>n row. op = Some (n, row) \<longrightarrow> map_of (dag_nodes g) nid = Some n)
       (py_read (\<lambda>d. open_node g (store_view d) ?comp ?act in_flight nid))"
      by (rule yields_read) (auto dest: open_node_SomeD)
  next
    fix op :: "(node \<times> task_row option) option"
    assume op: "\<forall>n row. op = Some (n, row) \<longrightarrow> map_of (dag_nodes g) nid = Some n"
    show "yields (?Q nid) (case op of None \<Rightarrow> py_return None
        | Some (n, row) \<Rightarrow> candidate_for_node hexdigest cfg g ?comp nid n row)"
    proof (cases op)
      case None
      then show ?thesis by (simp add: yields_return)
    next
      case (Some nr)
      obtain n row where nr: "op = Some (n, row)" using Some by fastforce
      with op candidate_for_node_yields [of nid g ?comp n cfg hexdigest row] show ?thesis
        by (auto simp: yields_def)
    qed
  qed
  obtain outs d1 where loop: "py_for (sorted_list_of_set scope) ?body d = (Inr outs, d1)"
    and cs: "cs = List.map_filter id outs @ map (\<lambda>r. make_candidate (t_id r) False [] (Some r) (False, 0, 0))
         (pending_merge_node_rows in_flight d1)"
    using assms(2) by (auto simp: collect_candidates_def act_simps split: prod.splits sum.splits)
  have all: "list_all2 ?Q (sorted_list_of_set scope) outs"
    using yieldsD [OF yields_for [OF one] loop] .
  consider "Some c \<in> set outs" | r where "r \<in> set (pending_merge_node_rows in_flight d1)"
      "c = make_candidate (t_id r) False [] (Some r) (False, 0, 0)"
    using assms(3) unfolding cs by (auto simp: map_filter_mem)
  then show ?thesis
  proof cases
    case 1
    then obtain i where i: "i < length outs" "outs ! i = Some c" by (auto simp: in_set_conv_nth)
    let ?x = "sorted_list_of_set scope ! i"
    have "?Q ?x (Some c)" "i < length (sorted_list_of_set scope)"
      using all i by (auto simp: list_all2_conv_all_nth)
    moreover from this(2) have "?x \<in> set (sorted_list_of_set scope)" by (rule nth_mem)
    then have "?x \<in> scope" using assms(1) by simp
    ultimately have "\<exists>n. c_task_id c \<in> scope \<and> map_of (dag_nodes g) (c_task_id c) = Some n \<and>
        (c_is_stacked c \<longleftrightarrow> unmet_deps g ?comp n \<noteq> []) \<and>
        (c_is_stacked c \<longrightarrow> cfg_stacking_strategy cfg \<noteq> Strategy_OFF)" by auto
    then show ?thesis unfolding offered_def by (rule disjI2)
  next
    case 2
    then show ?thesis unfolding offered_def
      by (intro disjI1 exI [of _ r]) (simp add: pending_merge_node_rows_def)
  qed
qed

text \<open>Every open node whose dependencies are met is offered.\<close>

lemma collect_offers:
  assumes "distinct (task_ids d)" and "finite scope" and "nid \<in> scope - in_flight"
    and "map_of (dag_nodes g) nid = Some n" and "select_state nid d \<in> {None, Some PENDING}"
    and "unmet_deps g (completed_ids d \<inter> scope) n = []"
    and "collect_candidates hexdigest cfg g scope in_flight d = (Inr cs, d')"
  shows "\<exists>c \<in> set cs. c_task_id c = nid"
proof -
  let ?comp = "completed_ids d \<inter> scope" and ?act = "active_ids d \<inter> scope"
  let ?body = "\<lambda>nid. py_bind (py_read (\<lambda>d. open_node g (store_view d) ?comp ?act in_flight nid)) (\<lambda>op.
            case op of
              None \<Rightarrow> py_return None
            | Some (n, row) \<Rightarrow> candidate_for_node hexdigest cfg g ?comp nid n row)"
  let ?Q = "\<lambda>x out (s :: db). x = nid \<longrightarrow> (\<exists>c. out = Some c \<and> c_task_id c = nid)"
  have fresh: "nid \<notin> ?comp" "nid \<notin> ?act"
    using assms(5) store_sched.completed_law [OF assms(1)] store_sched.active_law [OF assms(1)]
    by (auto simp: store_view_def)
  have step: "\<exists>out s'. ?body x s = (Inr out, s') \<and> distinct (task_ids s') \<and> grows s s' \<and> ?Q x out s'"
    if ids: "distinct (task_ids s)" and gr: "grows d s" for x s
  proof (cases "open_node g (store_view s) ?comp ?act in_flight x")
    case None
    have "x \<noteq> nid"
    proof
      assume x: "x = nid"
      have "select_state nid s \<in> {None, Some PENDING}" by (rule grows_open [OF gr assms(5)])
      then have "open_node g (store_view s) ?comp ?act in_flight nid \<noteq> None"
        using fresh assms(3,4) by (auto simp: open_node_def store_view_def select_state_def split: option.splits)
      with None x show False by simp
    qed
    with None ids show ?thesis by (auto simp: act_simps grows_refl)
  next
    case (Some nr)
    obtain m row where nr: "nr = (m, row)" by fastforce
    obtain r s' where c: "candidate_for_node hexdigest cfg g ?comp x m row s = (Inr r, s')" "grows s s'"
      "distinct (task_ids s')" "\<forall>c. r = Some c \<longrightarrow> c_task_id c = x"
      using candidate_for_node_total [OF ids] by metis
    have "r \<noteq> None" if "x = nid"
    proof -
      have "m = n" using open_node_SomeD [OF Some [unfolded nr]] assms(4) that by auto
      with c(1) assms(6) show ?thesis
        by (auto simp: candidate_for_node_def act_simps Let_def)
    qed
    with c Some nr show ?thesis by (auto simp: act_simps)
  qed
  have "\<exists>outs s'. py_for (sorted_list_of_set scope) ?body d = (Inr outs, s') \<and>
      (distinct (task_ids s') \<and> grows d s') \<and> grows d s' \<and>
      list_all2 (\<lambda>x out. ?Q x out s') (sorted_list_of_set scope) outs"
  proof (rule py_for_all)
    show "\<exists>out s'. ?body x s = (Inr out, s') \<and> (distinct (task_ids s') \<and> grows d s') \<and> ?Q x out s'"
      if "distinct (task_ids s) \<and> grows d s" for x s
      using step [of s x] that grows_trans by blast
    show "grows s s'" if "distinct (task_ids s) \<and> grows d s" "?body x s = (Inr out, s')" for x s out s'
      using step [of s x] that by auto
  qed (use assms(1) in \<open>auto intro: grows_refl grows_trans\<close>)
  then obtain outs s' where loop: "py_for (sorted_list_of_set scope) ?body d = (Inr outs, s')"
    and all: "list_all2 (\<lambda>x out. ?Q x out s') (sorted_list_of_set scope) outs" by blast
  have "nid \<in> set (sorted_list_of_set scope)" using assms(2,3) by simp
  then obtain i where i: "i < length (sorted_list_of_set scope)" "sorted_list_of_set scope ! i = nid"
    by (auto simp: in_set_conv_nth)
  with all have "i < length outs" "\<exists>c. outs ! i = Some c \<and> c_task_id c = nid"
    by (auto simp: list_all2_conv_all_nth)
  then obtain c where c: "outs ! i = Some c" "c_task_id c = nid" by blast
  have "Some c \<in> set outs" using c(1) \<open>i < length outs\<close> by (metis nth_mem)
  have "c \<in> set cs" using assms(7) loop \<open>Some c \<in> set outs\<close>
    by (auto simp: collect_candidates_def act_simps map_filter_mem)
  with c(2) show ?thesis by blast
qed

text \<open>A pick that found something, taken apart.\<close>

lemma pick_next_SomeE:
  assumes "distinct (task_ids d)" and "finite scope"
    and "pick_next hexdigest cfg g scope in_flight d = (Inr (Some tid), d')"
  obtains cs d1 best where "collect_candidates hexdigest cfg g scope in_flight d = (Inr cs, d1)"
    and "best \<in> set cs" and "c_task_id best = tid"
    and "\<And>x s. select_state x d = Some s \<Longrightarrow> select_state x d' = Some s"
proof -
  obtain cs d1 best rest where "collect_candidates hexdigest cfg g scope in_flight d = (Inr cs, d1)"
    and b: "pick_order g scope cs = best # rest" "c_task_id best = tid"
    and "\<forall>x s. select_state x d = Some s \<longrightarrow> select_state x d' = Some s"
    using pick_next_run [OF assms(1,2), of hexdigest cfg g in_flight] assms(3) by auto
  moreover have "best \<in> set cs" using pick_order_head [OF b(1)] prefer_primary_subset by blast
  ultimately show thesis using that b(2) by blast
qed

section \<open>Properties\<close>

text \<open>
  C4: the pick. On a well-formed store the orchestrator's pick returns and moves no recorded task. It is empty exactly
  when nothing is offered; otherwise it is an open task that no worker holds, it is unstacked if any candidate is, and
  among its tier nobody has a higher score, nor the same score and a smaller id.
\<close>

theorem pick_next_best:
  assumes "distinct (task_ids d)" and "finite scope"
  shows "\<exists>cs d1 r d'. collect_candidates hexdigest cfg g scope in_flight d = (Inr cs, d1) \<and>
    pick_next hexdigest cfg g scope in_flight d = (Inr r, d') \<and>
    (\<forall>x s. select_state x d = Some s \<longrightarrow> select_state x d' = Some s) \<and>
    (case r of None \<Rightarrow> cs = []
     | Some tid \<Rightarrow> tid \<notin> in_flight \<and> select_state tid d' \<in> {None, Some PENDING} \<and>
         (\<exists>best \<in> set cs. c_task_id best = tid \<and>
            (\<forall>c \<in> set cs. c_is_stacked best \<longrightarrow> c_is_stacked c) \<and>
            (\<forall>c \<in> set cs. c_is_stacked c = c_is_stacked best \<longrightarrow>
               score_of g scope c < score_of g scope best \<or>
               score_of g scope c = score_of g scope best \<and> tid \<le> c_task_id c)))"
proof -
  obtain cs d1 r d' where run: "collect_candidates hexdigest cfg g scope in_flight d = (Inr cs, d1)"
      "pick_next hexdigest cfg g scope in_flight d = (Inr r, d')" "r = None \<longleftrightarrow> cs = []"
    and some: "\<And>tid. r = Some tid \<Longrightarrow> tid \<notin> in_flight \<and> select_state tid d' \<in> {None, Some PENDING} \<and>
       (\<exists>best rest. pick_order g scope cs = best # rest \<and> c_task_id best = tid)"
    and keep: "\<forall>x s. select_state x d = Some s \<longrightarrow> select_state x d' = Some s"
    using pick_next_run [OF assms, of hexdigest cfg g in_flight]
    by (elim exE conjE) (rule that, assumption+, blast+)
  have "\<exists>best \<in> set cs. c_task_id best = tid \<and>
      (\<forall>c \<in> set cs. c_is_stacked best \<longrightarrow> c_is_stacked c) \<and>
      (\<forall>c \<in> set cs. c_is_stacked c = c_is_stacked best \<longrightarrow>
         score_of g scope c < score_of g scope best \<or>
         score_of g scope c = score_of g scope best \<and> tid \<le> c_task_id c)" if r: "r = Some tid" for tid
  proof -
    obtain best rest where b: "pick_order g scope cs = best # rest" "c_task_id best = tid"
      using some [OF r] by blast
    note head = pick_order_head [OF b(1)]
    have mem: "set (prefer_primary_candidates cs) =
        (if \<exists>c \<in> set cs. \<not> c_is_stacked c then {c \<in> set cs. \<not> c_is_stacked c} else set cs)"
      by (auto simp: prefer_primary_candidates_def Let_def filter_empty_conv)
    have in_cs: "best \<in> set cs" using head prefer_primary_subset by blast
    show ?thesis
    proof (cases "\<exists>c \<in> set cs. \<not> c_is_stacked c")
      case True
      with head b(2) in_cs show ?thesis by (intro bexI [of _ best]) (simp_all add: mem)
    next
      case False
      with head b(2) in_cs show ?thesis by (intro bexI [of _ best]) (simp_all add: mem)
    qed
  qed
  then have "case r of None \<Rightarrow> cs = [] | Some tid \<Rightarrow> tid \<notin> in_flight \<and> select_state tid d' \<in> {None, Some PENDING} \<and>
      (\<exists>best \<in> set cs. c_task_id best = tid \<and>
         (\<forall>c \<in> set cs. c_is_stacked best \<longrightarrow> c_is_stacked c) \<and>
         (\<forall>c \<in> set cs. c_is_stacked c = c_is_stacked best \<longrightarrow>
            score_of g scope c < score_of g scope best \<or>
            score_of g scope c = score_of g scope best \<and> tid \<le> c_task_id c))"
    using run(3) some by (cases r) simp_all
  with run(1,2) keep show ?thesis by blast
qed

theorem pick_next_best_witness:
  "\<exists>cs d1 r d'. collect_candidates id demo_config demo_dag {''A'', ''B''} {} demo_merged_root = (Inr cs, d1) \<and>
    pick_next id demo_config demo_dag {''A'', ''B''} {} demo_merged_root = (Inr r, d') \<and>
    (\<forall>x s. select_state x demo_merged_root = Some s \<longrightarrow> select_state x d' = Some s) \<and>
    (case r of None \<Rightarrow> cs = []
     | Some tid \<Rightarrow> tid \<notin> {} \<and> select_state tid d' \<in> {None, Some PENDING} \<and>
         (\<exists>best \<in> set cs. c_task_id best = tid \<and>
            (\<forall>c \<in> set cs. c_is_stacked best \<longrightarrow> c_is_stacked c) \<and>
            (\<forall>c \<in> set cs. c_is_stacked c = c_is_stacked best \<longrightarrow>
               score_of demo_dag {''A'', ''B''} c < score_of demo_dag {''A'', ''B''} best \<or>
               score_of demo_dag {''A'', ''B''} c = score_of demo_dag {''A'', ''B''} best \<and> tid \<le> c_task_id c)))"
  by (rule pick_next_best [OF demo_merged_root_ids]) simp



definition demo_off_config :: config where
  "demo_off_config = demo_config\<lparr>cfg_stacking_strategy := Strategy_OFF\<rparr>"

lemma demo_pick:
  "pick_next id demo_off_config demo_dag {''A'', ''B''} {} demo_merged_root = (Inr (Some ''B''), demo_merged_root)"
  by code_simp


text \<open>
  C11: the slots. Filling the free slots returns with distinct futures, the old ones first, never more than
  \<open>max_parallel\<close> of them, and moves no recorded task; it stops because the pool is full or because a pick on
  the final database finds nothing.
\<close>

theorem slots_filled:
  assumes "distinct (task_ids d)" and "finite scope" and "distinct futures"
    and "int (length futures) \<le> cfg_max_parallel cfg"
  shows "\<exists>fs d'. schedule_ready_tasks (nat (cfg_max_parallel cfg) - length futures) hexdigest cfg g scope futures d =
      (Inr fs, d') \<and>
    distinct fs \<and> take (length futures) fs = futures \<and> int (length fs) \<le> cfg_max_parallel cfg \<and>
    (\<forall>x s. select_state x d = Some s \<longrightarrow> select_state x d' = Some s) \<and>
    (int (length fs) = cfg_max_parallel cfg \<or>
     (\<exists>d1. pick_next hexdigest cfg g scope (set fs) d1 = (Inr None, d')))"
proof -
  have "nat (cfg_max_parallel cfg) \<le> length futures + (nat (cfg_max_parallel cfg) - length futures)" by simp
  with schedule_run [OF assms(1-3), of "nat (cfg_max_parallel cfg) - length futures" hexdigest cfg g] assms(4)
  show ?thesis by fastforce
qed

theorem slots_filled_witness:
  "\<exists>fs d'. schedule_ready_tasks (nat (cfg_max_parallel demo_config) - length [''A'']) id demo_config demo_dag
      {''A'', ''B''} [''A''] demo_merged_root = (Inr fs, d') \<and>
    distinct fs \<and> take (length [''A'']) fs = [''A''] \<and> int (length fs) \<le> cfg_max_parallel demo_config \<and>
    (\<forall>x s. select_state x demo_merged_root = Some s \<longrightarrow> select_state x d' = Some s) \<and>
    (int (length fs) = cfg_max_parallel demo_config \<or>
     (\<exists>d1. pick_next id demo_config demo_dag {''A'', ''B''} (set fs) d1 = (Inr None, d')))"
  by (rule slots_filled [OF demo_merged_root_ids]) (simp_all add: demo_config_def)

text \<open>
  C6: the run makes progress. With an acyclic plan whose dependencies are all inside it, an idle pool and no node
  in a state other than new, PENDING or MERGED, the pick finds a task unless every node of the plan is MERGED.
\<close>

theorem pick_progress:
  assumes "load ws ms = Inr g" and "acyclic (dep_rel g)"
    and "\<forall>(x, n) \<in> set (dag_nodes g). set (n_depends_on n) \<subseteq> set (node_ids g)"
    and "distinct (task_ids d)"
    and "\<forall>x \<in> set (node_ids g). select_state x d \<in> {None, Some PENDING, Some MERGED}"
    and "x \<in> set (node_ids g)" and "select_state x d \<noteq> Some MERGED"
  shows "\<exists>tid d'. pick_next hexdigest cfg g (set (node_ids g)) {} d = (Inr (Some tid), d')"
proof -
  let ?scope = "set (node_ids g)" and ?done = "{y. select_state y d = Some MERGED}"
  have undone: "\<not> ?scope \<subseteq> ?done" using assms(6,7) by blast
  obtain n where n: "n \<in> set (ready_nodes g ?done {} {})"
    using ready_progress_list [OF assms(1-3) undone] last_in_set by blast
  then obtain y where y: "(y, n) \<in> set (dag_nodes g)" "y \<notin> ?done" "set (n_depends_on n) \<subseteq> ?done"
    by (auto simp: ready_nodes_mem)
  have "distinct (node_ids g)" using load_ok [OF assms(1)] by (simp add: dag_ok_def)
  then have yn: "map_of (dag_nodes g) y = Some n" using y(1) by (simp add: node_ids_def)
  have yin: "y \<in> ?scope" using y(1) by (force simp: node_ids_def)
  have "unmet_deps g (completed_ids d \<inter> ?scope) n = []"
    using y(3) store_sched.completed_law [OF assms(4)]
    by (auto simp: unmet_deps_def filter_empty_conv store_view_def)
  moreover have "select_state y d \<in> {None, Some PENDING}" using assms(5) yin y(2) by auto
  ultimately have offers: "\<exists>c \<in> set cs. c_task_id c = y"
    if "collect_candidates hexdigest cfg g ?scope {} d = (Inr cs, d')" for cs d'
    using collect_offers [OF assms(4) _ _ yn _ _ that] yin by simp
  obtain cs d1 r d' where run: "collect_candidates hexdigest cfg g ?scope {} d = (Inr cs, d1)"
      "pick_next hexdigest cfg g ?scope {} d = (Inr r, d')" "r = None \<longleftrightarrow> cs = []"
    using pick_next_run [OF assms(4), of ?scope hexdigest cfg g "{}"] by auto
  from offers [OF run(1)] have "cs \<noteq> []" by auto
  with run show ?thesis by auto
qed


theorem pick_progress_witness:
  "\<exists>tid d'. pick_next id demo_config demo_dag (set (node_ids demo_dag)) {} demo_merged_root = (Inr (Some tid), d')"
proof (rule pick_progress [OF demo_dag_load demo_dag_acyclic _ demo_merged_root_ids])
  show "\<forall>(x, n) \<in> set (dag_nodes demo_dag). set (n_depends_on n) \<subseteq> set (node_ids demo_dag)" by code_simp
  show "\<forall>x \<in> set (node_ids demo_dag). select_state x demo_merged_root \<in> {None, Some PENDING, Some MERGED}"
    by code_simp
  show "''D'' \<in> set (node_ids demo_dag)" "select_state ''D'' demo_merged_root \<noteq> Some MERGED" by code_simp+
qed

end
