(* ===== verification/Text.thy ===== *)
theory Text
  imports Prelude
begin

text \<open>
  The string functions of the Python standard library that the modelled code calls, on ASCII text, and
  a matcher for the regular expressions it uses. A match is searched with the order of Python's
  backtracking matcher: \<open>ends\<close> lists the ways a pattern can match from a position, best first, so
  the first one is the match \<^verbatim>\<open>re.search\<close> reports. Quantifiers repeat single characters only, which is
  all these expressions need and makes the matcher total.
\<close>

section \<open>Strings\<close>

definition starts_with :: "string \<Rightarrow> string \<Rightarrow> bool" where
  "starts_with p s \<longleftrightarrow> take (length p) s = p"

primrec contains :: "string \<Rightarrow> string \<Rightarrow> bool" where
  "contains p [] \<longleftrightarrow> p = []"
| "contains p (c # s) \<longleftrightarrow> starts_with p (c # s) \<or> contains p s"

definition is_digit :: "char \<Rightarrow> bool" where
  "is_digit c \<longleftrightarrow> c \<in> set ''0123456789''"

definition is_word_char :: "char \<Rightarrow> bool" where
  "is_word_char c \<longleftrightarrow>
     c \<in> set ''abcdefghijklmnopqrstuvwxyz'' \<or> c \<in> set ''ABCDEFGHIJKLMNOPQRSTUVWXYZ'' \<or> is_digit c \<or>
     c = CHR ''_''"

definition ends_with :: "string \<Rightarrow> string \<Rightarrow> bool" where
  "ends_with p s \<longleftrightarrow> starts_with (rev p) (rev s)"

definition whitespace :: "char \<Rightarrow> bool" where
  "whitespace c \<longleftrightarrow>
     c \<in> set [CHR 0x09, CHR 0x0A, CHR 0x0B, CHR 0x0C, CHR 0x0D, CHR 0x1C, CHR 0x1D, CHR 0x1E, CHR 0x1F, CHR 0x20]"

definition strip :: "string \<Rightarrow> string" where
  "strip s = rev (dropWhile whitespace (rev (dropWhile whitespace s)))"

definition drop_prefix :: "string \<Rightarrow> string \<Rightarrow> string option" where
  "drop_prefix p s = (if starts_with p s then Some (drop (length p) s) else None)"

fun split_on :: "(char \<Rightarrow> bool) \<Rightarrow> string \<Rightarrow> string list" where
  "split_on p [] = [[]]"
| "split_on p (c # s) =
     (if p c then [] # split_on p s
      else case split_on p s of [] \<Rightarrow> [[c]] | w # ws \<Rightarrow> (c # w) # ws)"

text \<open>\<^verbatim>\<open>s.split()\<close>: maximal runs of characters that are not whitespace.\<close>

definition words :: "string \<Rightarrow> string list" where
  "words s = filter (\<lambda>w. w \<noteq> []) (split_on whitespace s)"

text \<open>\<^verbatim>\<open>s.splitlines()\<close>: a trailing line break opens no line, and a carriage return with its line feed is one break.\<close>

definition line_break :: "char \<Rightarrow> bool" where
  "line_break c \<longleftrightarrow>
     c \<in> set [CHR 0x0A, CHR 0x0B, CHR 0x0C, CHR 0x0D, CHR 0x1C, CHR 0x1D, CHR 0x1E]"

fun lines_from :: "string \<Rightarrow> string \<Rightarrow> string list" where
  "lines_from cur [] = (if cur = [] then [] else [rev cur])"
| "lines_from cur (c # s) =
     (if line_break c
      then rev cur #
           (case s of
              d # s' \<Rightarrow> if c = CHR 0x0D \<and> d = CHR 0x0A
                        then lines_from [] s' else lines_from [] (d # s')
            | [] \<Rightarrow> [])
      else lines_from (c # cur) s)"

definition splitlines :: "string \<Rightarrow> string list" where
  "splitlines s = lines_from [] s"

text \<open>The line feed, and \<^verbatim>\<open>sep.join(parts)\<close>.\<close>

definition nl :: string where
  "nl = [CHR 0x0A]"

fun join :: "string \<Rightarrow> string list \<Rightarrow> string" where
  "join sep [] = []"
| "join sep [s] = s"
| "join sep (s # t # ss) = s @ sep @ join sep (t # ss)"

text \<open>\<^verbatim>\<open>str.upper\<close> on ASCII characters.\<close>

definition upper_ascii :: "char \<Rightarrow> char" where
  "upper_ascii c = (let n = of_char c :: nat in if 97 \<le> n \<and> n \<le> 122 then char_of (n - 32) else c)"

text \<open>\<^verbatim>\<open>s[-n:]\<close> for a positive \<open>n\<close>, and \<^verbatim>\<open>s[a:b]\<close> for positions.\<close>

definition tail_of :: "nat \<Rightarrow> 'a list \<Rightarrow> 'a list" where
  "tail_of n s = drop (length s - n) s"

definition slice :: "nat \<Rightarrow> nat \<Rightarrow> 'a list \<Rightarrow> 'a list" where
  "slice a b s = take (b - a) (drop a s)"

text \<open>\<^verbatim>\<open>int(s)\<close> of a decimal numeral, with an optional sign and surrounding whitespace.\<close>

definition digits_value :: "string \<Rightarrow> nat" where
  "digits_value ds = fold (\<lambda>c n. 10 * n + (of_char c - 48)) ds 0"

definition parse_int :: "string \<Rightarrow> int option" where
  "parse_int s =
     (case strip s of
        [] \<Rightarrow> None
      | c # ds \<Rightarrow>
          if c = CHR ''-'' then (if ds \<noteq> [] \<and> list_all is_digit ds then Some (- int (digits_value ds)) else None)
          else if c = CHR ''+'' then (if ds \<noteq> [] \<and> list_all is_digit ds then Some (int (digits_value ds)) else None)
          else if list_all is_digit (c # ds) then Some (int (digits_value (c # ds))) else None)"

section \<open>Regular expressions\<close>

datatype rx =
    One "char \<Rightarrow> bool"
  | Seq rx rx
  | Alt rx rx
  | Maybe rx
  | Many "char \<Rightarrow> bool"
  | Few "char \<Rightarrow> bool"
  | Word_edge
  | Line_start
  | Line_end
  | Text_end
  | Group string rx

text \<open>A position with the spans of the groups closed so far.\<close>

type_synonym mstate = "nat \<times> (string \<times> nat \<times> nat) list"

definition run_end :: "(char \<Rightarrow> bool) \<Rightarrow> string \<Rightarrow> nat \<Rightarrow> nat" where
  "run_end p s i = i + length (takeWhile p (drop i s))"

definition word_at :: "string \<Rightarrow> nat \<Rightarrow> bool" where
  "word_at s i \<longleftrightarrow> i < length s \<and> is_word_char (s ! i)"

fun ends :: "rx \<Rightarrow> string \<Rightarrow> mstate \<Rightarrow> mstate list" where
  "ends (One p) s (i, g) = (if i < length s \<and> p (s ! i) then [(Suc i, g)] else [])"
| "ends (Seq a b) s m = concat (map (ends b s) (ends a s m))"
| "ends (Alt a b) s m = ends a s m @ ends b s m"
| "ends (Maybe a) s m = ends a s m @ [m]"
| "ends (Many p) s (i, g) = map (\<lambda>j. (j, g)) (rev [i ..< Suc (run_end p s i)])"
| "ends (Few p) s (i, g) = map (\<lambda>j. (j, g)) [i ..< Suc (run_end p s i)]"
| "ends Word_edge s (i, g) = (if (0 < i \<and> word_at s (i - 1)) \<noteq> word_at s i then [(i, g)] else [])"
| "ends Line_start s (i, g) = (if i = 0 \<or> s ! (i - 1) = CHR 0x0A then [(i, g)] else [])"
| "ends Line_end s (i, g) =
     (if length s \<le> i \<or> s ! i = CHR 0x0A then [(i, g)] else [])"
| "ends Text_end s (i, g) = (if length s \<le> i then [(i, g)] else [])"
| "ends (Group n a) s (i, g) = map (\<lambda>(j, h). (j, (n, i, j) # h)) (ends a s (i, g))"

text \<open>A match: where it starts, where it ends, and its groups.\<close>

record rx_match =
  m_start :: nat
  m_end :: nat
  m_groups :: "(string \<times> nat \<times> nat) list"

definition match_at :: "rx \<Rightarrow> string \<Rightarrow> nat \<Rightarrow> rx_match option" where
  "match_at r s i =
     (case ends r s (i, []) of
        [] \<Rightarrow> None
      | (j, g) # _ \<Rightarrow> Some \<lparr>m_start = i, m_end = j, m_groups = g\<rparr>)"

text \<open>\<^verbatim>\<open>re.search\<close>, from a given position on.\<close>

fun first_match :: "rx \<Rightarrow> string \<Rightarrow> nat list \<Rightarrow> rx_match option" where
  "first_match r s [] = None"
| "first_match r s (i # is) =
     (case match_at r s i of Some m \<Rightarrow> Some m | None \<Rightarrow> first_match r s is)"

definition search :: "rx \<Rightarrow> string \<Rightarrow> rx_match option" where
  "search r s = first_match r s [0 ..< Suc (length s)]"

definition group :: "string \<Rightarrow> rx_match \<Rightarrow> string \<Rightarrow> string option" where
  "group n m s = map_option (\<lambda>(a, b). slice a b s) (map_of (m_groups m) n)"

text \<open>\<^verbatim>\<open>re.finditer\<close>: the next search starts where the last match ended, or one further after an empty match.\<close>

fun matches_from :: "nat \<Rightarrow> rx \<Rightarrow> string \<Rightarrow> nat \<Rightarrow> rx_match list" where
  "matches_from 0 r s i = []"
| "matches_from (Suc n) r s i =
     (case first_match r s [i ..< Suc (length s)] of
        None \<Rightarrow> []
      | Some m \<Rightarrow> m # matches_from n r s (if m_end m = m_start m then Suc (m_end m) else m_end m))"

definition finditer :: "rx \<Rightarrow> string \<Rightarrow> rx_match list" where
  "finditer r s = matches_from (Suc (length s)) r s 0"

text \<open>Building blocks: literals with and without regard to case, sequences and alternatives.\<close>

definition any_char :: "char \<Rightarrow> bool" where
  "any_char c \<longleftrightarrow> c \<noteq> CHR 0x0A"

definition same_letter :: "char \<Rightarrow> char \<Rightarrow> bool" where
  "same_letter c d \<longleftrightarrow> lower_char c = lower_char d"

fun seq_of :: "rx list \<Rightarrow> rx" where
  "seq_of [] = Many (\<lambda>_. False)"
| "seq_of [r] = r"
| "seq_of (r # q # rs) = Seq r (seq_of (q # rs))"

fun alt_of :: "rx list \<Rightarrow> rx" where
  "alt_of [] = One (\<lambda>_. False)"
| "alt_of [r] = r"
| "alt_of (r # q # rs) = Alt r (alt_of (q # rs))"

definition lit :: "string \<Rightarrow> rx" where
  "lit w = seq_of (map (\<lambda>c. One (\<lambda>d. d = c)) w)"

definition ilit :: "string \<Rightarrow> rx" where
  "ilit w = seq_of (map (\<lambda>c. One (same_letter c)) w)"

definition some_of :: "(char \<Rightarrow> bool) \<Rightarrow> rx" where
  "some_of p = Seq (One p) (Many p)"

section \<open>Facts\<close>

lemma ends_bounds:
  "(j, h) \<in> set (ends r s (i, g)) \<Longrightarrow> i \<le> length s \<Longrightarrow> i \<le> j \<and> j \<le> length s"
proof (induction r arbitrary: i g j h)
  case (Seq a b)
  then show ?case by fastforce
next
  case (Many p)
  have "length (takeWhile p (drop i s)) \<le> length (drop i s)" by (rule length_takeWhile_le)
  with Many show ?case by (auto simp: run_end_def)
next
  case (Few p)
  have "length (takeWhile p (drop i s)) \<le> length (drop i s)" by (rule length_takeWhile_le)
  with Few show ?case by (auto simp: run_end_def)
qed (auto split: if_splits)

lemma match_at_bounds:
  "match_at r s i = Some m \<Longrightarrow> i \<le> length s \<Longrightarrow> m_start m = i \<and> i \<le> m_end m \<and> m_end m \<le> length s"
  using ends_bounds [of _ _ r s i "[]"] by (fastforce simp: match_at_def split: list.splits prod.splits)

lemma first_match_Some: "first_match r s is = Some m \<Longrightarrow> \<exists>i \<in> set is. match_at r s i = Some m"
  by (induction "is") (auto split: option.splits)

lemma first_match_None: "first_match r s is = None \<longleftrightarrow> (\<forall>i \<in> set is. match_at r s i = None)"
  by (induction "is") (auto split: option.splits)

lemma search_bounds:
  assumes "search r s = Some m"
  shows "m_start m \<le> m_end m \<and> m_end m \<le> length s"
proof -
  obtain i where "i \<in> set [0 ..< Suc (length s)]" "match_at r s i = Some m"
    using first_match_Some assms unfolding search_def by blast
  then show ?thesis using match_at_bounds by fastforce
qed

end
