(* ===== verification/Github.thy ===== *)
theory Github
  imports Text "HOL-Library.Multiset"
begin

text \<open>
  \<^verbatim>\<open>quikode/net_retry.py\<close>, and the parts of \<^verbatim>\<open>quikode/github.py\<close> and
  \<^verbatim>\<open>quikode/github_graphql.py\<close> that turn an answer of \<^verbatim>\<open>gh\<close> into a value: the retry loop around a
  subprocess, the rollup of a PR's checks, and the reviews of a PR. The \<open>k\<close>-th run of a subprocess
  is a parameter; \<^const>\<open>None\<close> is a run that raised (a timeout or an OSError).
\<close>

section \<open>Classifying a finished subprocess\<close>

record completed_process =
  cp_returncode :: int
  cp_stdout :: string
  cp_stderr :: string

datatype classify_verdict = Verdict_ok | Verdict_transient | Verdict_hard

text \<open>The only two patterns that are not literals: \<^verbatim>\<open>server error \(5\d\d\)\<close> and \<^verbatim>\<open>rejected\b\<close>.\<close>

primrec server_error_5xx :: "string \<Rightarrow> bool" where
  "server_error_5xx [] \<longleftrightarrow> False"
| "server_error_5xx (c # s) \<longleftrightarrow>
     (starts_with ''server error (5'' (c # s) \<and>
      (case drop (length ''server error (5'') (c # s) of
         d1 # d2 # cl # _ \<Rightarrow> is_digit d1 \<and> is_digit d2 \<and> cl = CHR '')''
       | _ \<Rightarrow> False)) \<or> server_error_5xx s"

primrec rejected_word :: "string \<Rightarrow> bool" where
  "rejected_word [] \<longleftrightarrow> False"
| "rejected_word (c # s) \<longleftrightarrow>
     (starts_with ''rejected'' (c # s) \<and>
      (case drop (length ''rejected'') (c # s) of [] \<Rightarrow> True | d # _ \<Rightarrow> \<not> is_word_char d)) \<or>
     rejected_word s"

definition gh_transient_re :: "string \<Rightarrow> bool" where
  "gh_transient_re blob \<longleftrightarrow>
     (let s = map lower_char blob
      in list_ex (\<lambda>p. contains p s)
           [''429'', ''secondary rate limit'', ''api rate limit exceeded'', ''abuse detection'',
            ''could not resolve host'', ''connection refused'', ''connection timed out'',
            ''operation timed out'', ''tls handshake timeout'', ''temporary failure in name resolution'',
            ''i/o timeout'', ''network is unreachable'', ''gateway timeout''] \<or> server_error_5xx s)"

definition gh_hard_re :: "string \<Rightarrow> bool" where
  "gh_hard_re blob \<longleftrightarrow>
     (let s = map lower_char blob
      in list_ex (\<lambda>p. contains p s)
           [''not found'', ''resource not accessible'', ''requires authentication'', ''403 forbidden'',
            ''401 unauthorized'', ''404'', ''validation failed'', ''already exists''])"

definition git_transient_re :: "string \<Rightarrow> bool" where
  "git_transient_re blob \<longleftrightarrow>
     (let s = map lower_char blob
      in list_ex (\<lambda>p. contains p s)
           [''could not resolve host'', ''connection refused'', ''connection timed out'', ''connection reset'',
            ''operation timed out'', ''early eof'', ''rpc failed'', ''tls connection'',
            ''failed to connect to'', ''remote end hung up unexpectedly'', ''unable to access''])"

definition git_hard_re :: "string \<Rightarrow> bool" where
  "git_hard_re blob \<longleftrightarrow>
     (let s = map lower_char blob
      in list_ex (\<lambda>p. contains p s)
           [''stale info'', ''non-fast-forward'', ''permission denied'', ''authentication failed'',
            ''could not read from remote repository'', ''repository not found''] \<or> rejected_word s)"

definition stderr_blob :: "completed_process \<Rightarrow> string" where
  "stderr_blob p =
     (let parts = filter (\<lambda>s. s \<noteq> []) [cp_stderr p, cp_stdout p]
      in concat (case parts of [] \<Rightarrow> [] | q # qs \<Rightarrow> q # map (\<lambda>s. CHR 0x0A # s) qs))"

definition gh_classifier :: "completed_process \<Rightarrow> classify_verdict" where
  "gh_classifier p =
     (if cp_returncode p = 0 then Verdict_ok
      else let blob = stderr_blob p
           in if gh_hard_re blob then Verdict_hard
              else if gh_transient_re blob then Verdict_transient
              else Verdict_hard)"

definition git_classifier :: "completed_process \<Rightarrow> classify_verdict" where
  "git_classifier p =
     (if cp_returncode p = 0 then Verdict_ok
      else let blob = stderr_blob p
           in if git_hard_re blob then Verdict_hard
              else if git_transient_re blob then Verdict_transient
              else Verdict_hard)"

section \<open>The retry loop\<close>

text \<open>
  The value is what \<^verbatim>\<open>run_with_backoff\<close> returns (\<^const>\<open>None\<close> when a run raised) and the sleeps it made.
  \<open>left\<close> counts the attempts after the current one.
\<close>

fun backoff_loop ::
  "(completed_process \<Rightarrow> classify_verdict) \<Rightarrow> (nat \<Rightarrow> completed_process option) \<Rightarrow> nat \<Rightarrow> nat \<Rightarrow> time
     \<Rightarrow> completed_process option \<times> time list" where
  "backoff_loop classifier run left attempt delay =
     (case run attempt of
        None \<Rightarrow> (None, [])
      | Some proc \<Rightarrow>
          if classifier proc = Verdict_ok then (Some proc, [])
          else if classifier proc = Verdict_hard then (Some proc, [])
          else case left of
                 0 \<Rightarrow> (Some proc, [])
               | Suc k \<Rightarrow>
                   let (res, sleeps) = backoff_loop classifier run k (Suc attempt) (delay * 2)
                   in (res, delay # sleeps))"

declare backoff_loop.simps [simp del]

definition run_with_backoff ::
  "(completed_process \<Rightarrow> classify_verdict) \<Rightarrow> nat \<Rightarrow> time \<Rightarrow> (nat \<Rightarrow> completed_process option)
     \<Rightarrow> completed_process option \<times> time list" where
  "run_with_backoff classifier retries base_delay_s run =
     backoff_loop classifier run retries 0 base_delay_s"

section \<open>The status of a PR\<close>

record check_run =
  c_conclusion :: "string option"
  c_state :: "string option"
  c_status :: "string option"

text \<open>The object \<^verbatim>\<open>gh pr view --json\<close> prints; \<^const>\<open>None\<close> is a missing (for the last three also a null) key.\<close>

record pr_json =
  j_state :: "string option"
  j_mergeable :: "string option"
  j_url :: "string option"
  j_rollup :: "check_run list option"
  j_base_ref_name :: "string option"
  j_head_ref_oid :: "string option"

definition empty_json :: pr_json where
  "empty_json = \<lparr>j_state = None, j_mergeable = None, j_url = None, j_rollup = None,
                 j_base_ref_name = None, j_head_ref_oid = None\<rparr>"

record pr_status =
  pr_number :: int
  pr_url :: string
  pr_state :: string
  pr_mergeable :: string
  pr_checks_status :: string
  pr_failed_checks :: "check_run list"
  pr_base_ref_name :: string
  pr_head_sha :: string

text \<open>\<^verbatim>\<open>a or b\<close> on optional strings.\<close>

definition str_or :: "string option \<Rightarrow> string option \<Rightarrow> string option" where
  "str_or a b = (case a of None \<Rightarrow> b | Some s \<Rightarrow> if s = [] then b else Some s)"

definition the_or :: "string option \<Rightarrow> string \<Rightarrow> string" where
  "the_or a b = (case a of None \<Rightarrow> b | Some s \<Rightarrow> s)"

definition check_failed :: "check_run \<Rightarrow> bool" where
  "check_failed c \<longleftrightarrow>
     str_or (c_conclusion c) (c_state c) \<in> {Some ''FAILURE'', Some ''TIMED_OUT'', Some ''STARTUP_FAILURE''}"

definition check_pending :: "check_run \<Rightarrow> bool" where
  "check_pending c \<longleftrightarrow>
     map upper_ascii (the_or (c_status c) []) \<in> {''IN_PROGRESS'', ''QUEUED'', ''PENDING''}"

definition checks_rollup :: "check_run list \<Rightarrow> string" where
  "checks_rollup rollup =
     (if rollup = [] then ''none''
      else if filter check_failed rollup \<noteq> [] then ''failure''
      else if filter check_pending rollup \<noteq> [] then ''pending''
      else ''success'')"

text \<open>
  \<open>decode\<close> is \<^verbatim>\<open>json.loads\<close>: \<^const>\<open>None\<close> when the text is not JSON. The result is \<^const>\<open>None\<close> when the subprocess
  raised.
\<close>

definition pr_view :: "(string \<Rightarrow> pr_json option) \<Rightarrow> (nat \<Rightarrow> completed_process option) \<Rightarrow> pr_json option" where
  "pr_view decode run =
     (case fst (run_with_backoff gh_classifier 3 2 run) of
        None \<Rightarrow> None
      | Some r \<Rightarrow>
          if cp_returncode r \<noteq> 0 then Some empty_json
          else Some (case decode (cp_stdout r) of None \<Rightarrow> empty_json | Some j \<Rightarrow> j))"

definition status_of_json :: "int \<Rightarrow> pr_json \<Rightarrow> pr_status" where
  "status_of_json n data =
     (let rollup = (case j_rollup data of None \<Rightarrow> [] | Some cs \<Rightarrow> cs)
      in \<lparr>pr_number = n, pr_url = the_or (j_url data) [],
          pr_state = the_or (j_state data) ''UNKNOWN'',
          pr_mergeable = the_or (j_mergeable data) ''UNKNOWN'',
          pr_checks_status = checks_rollup rollup,
          pr_failed_checks = filter check_failed rollup,
          pr_base_ref_name = the_or (j_base_ref_name data) [],
          pr_head_sha = the_or (j_head_ref_oid data) []\<rparr>)"

definition poll_pr ::
  "(string \<Rightarrow> pr_json option) \<Rightarrow> (nat \<Rightarrow> completed_process option) \<Rightarrow> int \<Rightarrow> pr_status option" where
  "poll_pr decode run n = map_option (status_of_json n) (pr_view decode run)"

section \<open>Reviews\<close>

record review =
  rv_review_id :: string
  rv_database_id :: "int option"
  rv_state :: string
  rv_submitted_at :: time
  rv_body :: string
  rv_author :: string
  rv_is_bot :: bool

text \<open>A node of the GraphQL answer; \<open>n_submitted\<close> is the parsed timestamp, 0 when missing or malformed.\<close>

record review_node =
  n_id :: "string option"
  n_database_id :: "int option"
  n_state :: "string option"
  n_submitted :: time
  n_body :: "string option"
  n_login :: "string option"

definition bot_allowlist :: "string list" where
  "bot_allowlist =
     [''chatgpt-codex-connector'', ''github-actions'', ''dependabot'', ''claude'', ''codecov-commenter'']"

fun split_comma :: "string \<Rightarrow> string list" where
  "split_comma [] = [[]]"
| "split_comma (c # s) =
     (if c = CHR '','' then [] # split_comma s
      else case split_comma s of [] \<Rightarrow> [[c]] | w # ws \<Rightarrow> (c # w) # ws)"

text \<open>\<open>env_bots\<close> is the variable \<^verbatim>\<open>QUIKODE_BOT_ALLOWLIST\<close>.\<close>

definition extra_bots :: "string \<Rightarrow> string list" where
  "extra_bots env_bots =
     (if env_bots = [] then [] else filter (\<lambda>s. s \<noteq> []) (map strip (split_comma env_bots)))"

definition is_bot_author :: "string \<Rightarrow> string \<Rightarrow> bool" where
  "is_bot_author env_bots login =
     (if login = [] then False
      else if ends_with ''[bot]'' login then True
      else if login \<in> set bot_allowlist then True
      else login \<in> set (extra_bots env_bots))"

definition parse_review :: "string \<Rightarrow> review_node \<Rightarrow> review" where
  "parse_review env_bots n =
     (let login = the_or (n_login n) []
      in \<lparr>rv_review_id = the_or (n_id n) [], rv_database_id = n_database_id n,
          rv_state = the_or (n_state n) [], rv_submitted_at = n_submitted n,
          rv_body = the_or (n_body n) [], rv_author = login,
          rv_is_bot = is_bot_author env_bots login\<rparr>)"

definition parse_reviews :: "string \<Rightarrow> review_node list \<Rightarrow> review list" where
  "parse_reviews env_bots nodes = sort_key rv_submitted_at (map (parse_review env_bots) nodes)"

definition split_repo :: "string \<Rightarrow> (string \<times> string) option" where
  "split_repo repo =
     (if CHR ''/'' \<notin> set repo then None
      else Some (takeWhile (\<lambda>c. c \<noteq> CHR ''/'') repo, tl (dropWhile (\<lambda>c. c \<noteq> CHR ''/'') repo)))"

text \<open>
  \<open>decode\<close> reads the \<^verbatim>\<open>reviews.nodes\<close> list out of the answer; \<open>run\<close> is the subprocess for an owner and a
  name. Every failure is \<^const>\<open>None\<close>.
\<close>

definition fetch_pr_reviews_payload ::
  "(string \<Rightarrow> review_node list option) \<Rightarrow> (string \<Rightarrow> string \<Rightarrow> nat \<Rightarrow> completed_process option) \<Rightarrow> string
     \<Rightarrow> review_node list option" where
  "fetch_pr_reviews_payload decode run repo =
     (case split_repo repo of
        None \<Rightarrow> None
      | Some (owner, name) \<Rightarrow>
          (case fst (run_with_backoff gh_classifier 3 2 (run owner name)) of
             None \<Rightarrow> None
           | Some r \<Rightarrow> if cp_returncode r \<noteq> 0 then None else decode (cp_stdout r)))"

definition get_latest_reviews ::
  "(string \<Rightarrow> review_node list option) \<Rightarrow> string \<Rightarrow> (string \<Rightarrow> string \<Rightarrow> nat \<Rightarrow> completed_process option)
     \<Rightarrow> string \<Rightarrow> review list" where
  "get_latest_reviews decode env_bots run repo =
     (case fetch_pr_reviews_payload decode run repo of
        None \<Rightarrow> []
      | Some nodes \<Rightarrow> parse_reviews env_bots nodes)"

section \<open>What the retry loop does\<close>

definition transient :: "(completed_process \<Rightarrow> classify_verdict) \<Rightarrow> completed_process option \<Rightarrow> bool" where
  "transient classifier o' \<longleftrightarrow>
     (case o' of None \<Rightarrow> False | Some p \<Rightarrow> classifier p = Verdict_transient)"

lemma transient_cases:
  "classifier p = Verdict_transient \<longleftrightarrow> classifier p \<noteq> Verdict_ok \<and> classifier p \<noteq> Verdict_hard"
  by (cases "classifier p") simp_all

lemma backoff_loop_stops:
  "\<not> transient classifier (run a) \<Longrightarrow> backoff_loop classifier run left a delay = (run a, [])"
  by (subst backoff_loop.simps) (auto simp: transient_def transient_cases split: option.splits)

lemma backoff_loop_last:
  "transient classifier (run a) \<Longrightarrow> backoff_loop classifier run 0 a delay = (run a, [])"
  by (subst backoff_loop.simps) (auto simp: transient_def split: option.splits)

lemma backoff_loop_again:
  "transient classifier (run a) \<Longrightarrow> backoff_loop classifier run (Suc k) a delay =
     (fst (backoff_loop classifier run k (Suc a) (delay * 2)),
      delay # snd (backoff_loop classifier run k (Suc a) (delay * 2)))"
  by (subst backoff_loop.simps) (auto simp: transient_def split: option.splits prod.splits)

lemma backoff_loop_run:
  "\<exists>i \<le> left. backoff_loop classifier run left a delay = (run (a + i), map (\<lambda>j. delay * 2 ^ j) [0..<i]) \<and>
     (\<forall>j < i. transient classifier (run (a + j))) \<and>
     (i < left \<longrightarrow> \<not> transient classifier (run (a + i)))"
proof (induction left arbitrary: a delay)
  case 0
  show ?case by (cases "transient classifier (run a)") (simp_all add: backoff_loop_stops backoff_loop_last)
next
  case (Suc k)
  show ?case
  proof (cases "transient classifier (run a)")
    case False
    then show ?thesis by (intro exI [of _ 0]) (simp add: backoff_loop_stops)
  next
    case True
    obtain i where i: "i \<le> k"
      "backoff_loop classifier run k (Suc a) (delay * 2) = (run (Suc a + i), map (\<lambda>j. delay * 2 * 2 ^ j) [0..<i])"
      "\<forall>j < i. transient classifier (run (Suc a + j))"
      "i < k \<longrightarrow> \<not> transient classifier (run (Suc a + i))"
      using Suc.IH [of "Suc a" "delay * 2"] by blast
    have "[0..<Suc i] = 0 # map Suc [0..<i]" by (simp add: map_Suc_upt upt_conv_Cons)
    then have sleeps: "map (\<lambda>j. delay * 2 ^ j) [0..<Suc i] = delay # map (\<lambda>j. delay * 2 * 2 ^ j) [0..<i]"
      by (simp add: comp_def mult.assoc)
    have "\<forall>j < Suc i. transient classifier (run (a + j))"
    proof (intro allI impI)
      fix j assume "j < Suc i"
      then show "transient classifier (run (a + j))" using True i(3) by (cases j) simp_all
    qed
    with i True sleeps show ?thesis
      by (intro exI [of _ "Suc i"]) (simp add: backoff_loop_again del: upt_Suc)
  qed
qed

section \<open>What the rollup says\<close>

lemma rollup_success:
  "checks_rollup cs = ''success'' \<longleftrightarrow> cs \<noteq> [] \<and> (\<forall>c \<in> set cs. \<not> check_failed c \<and> \<not> check_pending c)"
  by (auto simp: checks_rollup_def filter_empty_conv)

lemma rollup_failure: "checks_rollup cs = ''failure'' \<longleftrightarrow> filter check_failed cs \<noteq> []"
  by (auto simp: checks_rollup_def)

lemma parse_reviews_sorted: "sorted (map rv_submitted_at (parse_reviews env_bots nodes))"
  by (simp add: parse_reviews_def)

lemma parse_reviews_set: "set (parse_reviews env_bots nodes) = parse_review env_bots ` set nodes"
  by (simp add: parse_reviews_def)

section \<open>Properties\<close>

text \<open>
  The retry loop. A subprocess runs at most \<open>retries + 1\<close> times; every run before the last one was a transient
  failure, the pauses double from the base delay, and the result is that of the last run, which is transient only
  when the attempts are used up.
\<close>

theorem backoff_outcome:
  "\<exists>i \<le> retries. run_with_backoff classifier retries base run = (run i, map (\<lambda>j. base * 2 ^ j) [0..<i]) \<and>
     (\<forall>j < i. transient classifier (run j)) \<and> (i = retries \<or> \<not> transient classifier (run i))"
  using backoff_loop_run [of retries classifier run 0 base] unfolding run_with_backoff_def by force

text \<open>A rate-limited call that succeeds the second time.\<close>

definition demo_run :: "nat \<Rightarrow> completed_process option" where
  "demo_run k = (if k = 0 then Some \<lparr>cp_returncode = 1, cp_stdout = [], cp_stderr = ''API rate limit exceeded''\<rparr>
                 else Some \<lparr>cp_returncode = 0, cp_stdout = ''ok'', cp_stderr = []\<rparr>)"

theorem backoff_outcome_witness:
  "run_with_backoff gh_classifier 3 2 demo_run = (demo_run 1, [2]) \<and>
   (\<exists>i \<le> 3. run_with_backoff gh_classifier 3 2 demo_run = (demo_run i, map (\<lambda>j. 2 * 2 ^ j) [0..<i]) \<and>
     (\<forall>j < i. transient gh_classifier (demo_run j)) \<and> (i = 3 \<or> \<not> transient gh_classifier (demo_run i)))"
  by (rule conjI [OF _ backoff_outcome]) code_simp

text \<open>
  Whatever order GitHub answers in, the parsed reviews are a stable rearrangement by
  submission time: sorted, with the same reviews, those of equal time in the order of the answer.
\<close>

lemma reviews_in_time_order:
  "sorted (map rv_submitted_at (parse_reviews bots nodes)) \<and>
   mset (parse_reviews bots nodes) = image_mset (parse_review bots) (mset nodes) \<and>
   filter (\<lambda>r. rv_submitted_at r = t) (parse_reviews bots nodes) =
     filter (\<lambda>r. rv_submitted_at r = t) (map (parse_review bots) nodes)"
  by (simp add: parse_reviews_def sort_key_stable)

end
