(* ===== verification/RebaseWatch.thy ===== *)
theory RebaseWatch
  imports Runner Github
begin

text \<open>
  \<^verbatim>\<open>quikode/orchestration/rebase_watch.py\<close>: what the orchestrator does when a parent merges or its branch
  advances. The orchestrator's own state is the record \<open>orch\<close>: the database, the futures, the jobs it
  submitted, the cascade-walk timestamps, the cached repository name, and a record of the messages and
  merge calls it made. GitHub and git answers are the record \<open>github_env\<close>.
\<close>

section \<open>The outside\<close>

text \<open>
  \<open>g_run_pr_view\<close> and \<open>g_run_reviews\<close> give the successive runs of the \<^verbatim>\<open>gh\<close> subprocess, \<open>g_decode_pr\<close> and
  \<open>g_decode_reviews\<close> are \<^verbatim>\<open>json.loads\<close> on their output, and \<open>g_bots\<close> is \<^verbatim>\<open>QUIKODE_BOT_ALLOWLIST\<close>.
  \<open>g_ls_remote\<close>, \<open>g_merge_pr\<close> and \<open>g_repo_view\<close> are the other subprocesses (\<^const>\<open>None\<close> when one raised; the
  name in \<open>g_repo_view\<close> is \<^const>\<open>None\<close> when the output is not JSON or has none). \<open>g_bundle_context\<close> is the
  prompt text \<^verbatim>\<open>bundle_pr_context\<close> renders and \<open>g_notify\<close> whether the ntfy server took the message.
\<close>

record review_ready_message =
  msg_task_id :: ident
  msg_title :: string
  msg_pr_url :: string
  msg_summary :: string

record github_env =
  g_run_pr_view :: "int \<Rightarrow> nat \<Rightarrow> completed_process option"
  g_decode_pr :: "string \<Rightarrow> pr_json option"
  g_run_reviews :: "int \<Rightarrow> string \<Rightarrow> string \<Rightarrow> nat \<Rightarrow> completed_process option"
  g_decode_reviews :: "string \<Rightarrow> review_node list option"
  g_bots :: string
  g_ls_remote :: "string \<Rightarrow> (int \<times> string) option"
  g_bundle_context :: "string \<Rightarrow> int \<Rightarrow> string option"
  g_merge_pr :: "int \<Rightarrow> int option"
  g_notify :: "review_ready_message \<Rightarrow> bool"
  g_repo_view :: "(int \<times> string option) option"

definition poll :: "github_env \<Rightarrow> int \<Rightarrow> pr_status option" where
  "poll env n = poll_pr (g_decode_pr env) (g_run_pr_view env n) n"

definition reviews_of :: "github_env \<Rightarrow> string \<Rightarrow> int \<Rightarrow> review list" where
  "reviews_of env repo n =
     get_latest_reviews (g_decode_reviews env) (g_bots env) (g_run_reviews env n) repo"

datatype job =
    Job_RUN
  | Job_REBASE_TO_MAIN
  | Job_REBASE_TO_PARENT_TIP
  | Job_CHANGES_REQUESTED string
  | Job_CI_FIX pr_status

record orch =
  o_db :: db
  o_futures :: "ident list"
  o_review_futures :: "ident set"
  o_jobs :: "(ident \<times> job) list"
  o_cascade_ts :: "string \<rightharpoonup> time"
  o_repo_id_cache :: "string option"
  o_notified :: "review_ready_message list"
  o_merge_calls :: "int list"

type_synonym 'a orch_act = "(orch, 'a) act"

definition on_db :: "'a store_act \<Rightarrow> 'a orch_act" where
  "on_db m = (\<lambda>o'. case m (o_db o') of (r, d) \<Rightarrow> (r, o'\<lparr>o_db := d\<rparr>))"

text \<open>\<^verbatim>\<open>bool(s.strip())\<close>.\<close>

definition strip_nonempty :: "string \<Rightarrow> bool" where
  "strip_nonempty s \<longleftrightarrow> strip s \<noteq> []"

definition remote_branch_exists :: "github_env \<Rightarrow> string \<Rightarrow> bool" where
  "remote_branch_exists env b =
     (case g_ls_remote env b of
        None \<Rightarrow> True
      | Some (rc, out) \<Rightarrow> if rc \<noteq> 0 then True else strip_nonempty out)"

section \<open>Scheduling a rebase\<close>

definition task_id_for_branch :: "string \<Rightarrow> db \<Rightarrow> ident option" where
  "task_id_for_branch b d = map_option t_id (List.find (\<lambda>r. t_branch r = Some b) (db_tasks d))"

definition reason_label :: "string \<Rightarrow> string" where
  "reason_label reason =
     get_default (map_of
       [(''parent_merged'', ''parent merged''), (''parent_tip_advanced'', ''parent tip advanced''),
        (''sibling_conflict'', ''sibling conflict via mergeable=CONFLICTING''),
        (''worker_checkpoint_flag'', ''worker checkpoint flag''), (''manual'', ''manual''),
        (''parent_merge_auto_close'', ''parent merge auto-close'')] reason) reason"

definition rebase_note :: "string \<Rightarrow> string \<Rightarrow> string \<Rightarrow> string" where
  "rebase_note target_kind reason pre_state =
     ''rebasing onto '' @ target_kind @ '' ('' @ reason_label reason @ ''; was '' @ pre_state @ '')''"

definition begin_scheduled_rebase :: "config \<Rightarrow> ident \<Rightarrow> string \<Rightarrow> string \<Rightarrow> bool store_act" where
  "begin_scheduled_rebase cfg tid reason target_kind =
     py_bind (py_read (\<lambda>d. (find_task tid d, get_last_rebase_scheduled_ts tid d, clock d)))
       (\<lambda>(row, last_ts, now). case row of
          None \<Rightarrow> py_return False
        | Some r \<Rightarrow>
            if 0 < cfg_rebase_coalesce_window_s cfg \<and>
               (case last_ts of None \<Rightarrow> False | Some t \<Rightarrow> now - t < cfg_rebase_coalesce_window_s cfg)
            then py_return False
            else
              let pre_state = state_value (t_state r)
              in py_then (set_last_rebase_scheduled tid now)
                   (py_then (set_pre_rebase_state tid pre_state)
                     (py_then
                       (enter_rebasing_to_main tid (Some (rebase_note target_kind reason pre_state)) [])
                       (py_return True))))"

text \<open>\<^verbatim>\<open>futures[task_id] = pool.submit(...); review_response_futures.add(task_id)\<close>.\<close>

definition submit_review_job :: "ident \<Rightarrow> job \<Rightarrow> unit orch_act" where
  "submit_review_job tid j =
     py_modify (\<lambda>o'. o'\<lparr>o_futures := (if tid \<in> set (o_futures o') then o_futures o' else o_futures o' @ [tid]),
                       o_review_futures := insert tid (o_review_futures o'),
                       o_jobs := o_jobs o' @ [(tid, j)]\<rparr>)"

definition schedule_rebase_to_main :: "config \<Rightarrow> ident \<Rightarrow> string \<Rightarrow> unit orch_act" where
  "schedule_rebase_to_main cfg tid reason =
     py_bind (on_db (begin_scheduled_rebase cfg tid reason ''main'')) (\<lambda>go.
       if go then submit_review_job tid Job_REBASE_TO_MAIN else py_return ())"

definition schedule_rebase_to_parent_tip :: "config \<Rightarrow> ident \<Rightarrow> unit orch_act" where
  "schedule_rebase_to_parent_tip cfg tid =
     py_bind (on_db (begin_scheduled_rebase cfg tid ''parent_tip_advanced'' ''parent_tip'')) (\<lambda>go.
       if go then submit_review_job tid Job_REBASE_TO_PARENT_TIP else py_return ())"

section \<open>A parent merged\<close>

text \<open>Whether the child's PR may stay as it is: still mergeable, and its base ref still on the remote.\<close>

definition child_keeps_pr :: "github_env \<Rightarrow> string \<Rightarrow> task_row \<Rightarrow> bool" where
  "child_keeps_pr env parent_branch child =
     (truthy_int (t_pr_number child) \<and>
      (case poll env (or0 (t_pr_number child)) of
         None \<Rightarrow> False
       | Some st \<Rightarrow> pr_mergeable st = ''MERGEABLE'' \<and> remote_branch_exists env parent_branch))"

definition rebase_child_of_merged :: "github_env \<Rightarrow> config \<Rightarrow> string \<Rightarrow> task_row \<Rightarrow> unit orch_act" where
  "rebase_child_of_merged env cfg parent_branch child =
     (let cid = t_id child
      in if child_keeps_pr env parent_branch child then on_db (clear_parent_branch cid)
         else py_then (on_db (mark_needs_parent_rebase cid))
                (py_bind (py_read (\<lambda>o'. cid \<in> set (o_futures o'))) (\<lambda>busy.
                   if busy then py_return ()
                   else schedule_rebase_to_main cfg cid ''parent_merged'')))"

definition schedule_rebases_for_merged_parent ::
  "github_env \<Rightarrow> config \<Rightarrow> string \<Rightarrow> unit orch_act" where
  "schedule_rebases_for_merged_parent env cfg parent_branch =
     py_bind (py_read (\<lambda>o'. str_or_none (task_id_for_branch parent_branch (o_db o')))) (\<lambda>pid.
     py_then
       (case pid of None \<Rightarrow> py_return [] | Some p \<Rightarrow> on_db (propagate_parent_merged p))
       (py_bind (py_read (\<lambda>o'. children_of_parent_branch parent_branch (o_db o'))) (\<lambda>children.
          py_then (py_for children (rebase_child_of_merged env cfg parent_branch)) (py_return ()))))"

section \<open>A parent advanced\<close>

definition cascade_walk_should_proceed :: "config \<Rightarrow> string \<Rightarrow> bool orch_act" where
  "cascade_walk_should_proceed cfg parent_branch =
     (if cfg_rebase_coalesce_window_s cfg \<le> 0 then py_return True
      else py_bind (py_read (\<lambda>o'. (clock (o_db o'), o_cascade_ts o' parent_branch))) (\<lambda>(now, last).
        if (case last of None \<Rightarrow> False | Some t \<Rightarrow> now - t < cfg_rebase_coalesce_window_s cfg)
        then py_return False
        else py_then
               (py_modify (\<lambda>o'. o'\<lparr>o_cascade_ts := (o_cascade_ts o')(parent_branch \<mapsto> now)\<rparr>))
               (py_return True)))"

text \<open>One visit of the nested \<^verbatim>\<open>_enqueue\<close>: flag the child, schedule it unless a worker owns it.\<close>

definition cascade_visit :: "config \<Rightarrow> task_row \<Rightarrow> unit orch_act" where
  "cascade_visit cfg child =
     py_then (on_db (mark_needs_parent_rebase (t_id child)))
       (py_bind (py_read (\<lambda>o'. t_id child \<in> set (o_futures o'))) (\<lambda>busy.
          if busy then py_return () else schedule_rebase_to_parent_tip cfg (t_id child)))"

definition grandchildren :: "task_row \<Rightarrow> db \<Rightarrow> task_row list" where
  "grandchildren child d =
     (case str_or_none (t_branch child) of None \<Rightarrow> [] | Some b \<Rightarrow> children_of_parent_branch b d)"

text \<open>
  The recursion of \<^verbatim>\<open>_enqueue\<close> in its call order: the children of a visited task come before its
  siblings. The value is \<^const>\<open>None\<close> when the fuel ran out, otherwise the scheduled ids.
\<close>

primrec cascade_loop :: "nat \<Rightarrow> config \<Rightarrow> ident set \<Rightarrow> task_row list \<Rightarrow> ident set option orch_act" where
  "cascade_loop 0 cfg scheduled work = py_return (if work = [] then Some scheduled else None)"
| "cascade_loop (Suc fuel) cfg scheduled work =
     (case work of
        [] \<Rightarrow> py_return (Some scheduled)
      | child # rest \<Rightarrow>
          if t_id child \<in> scheduled then cascade_loop fuel cfg scheduled rest
          else py_then (cascade_visit cfg child)
                 (py_bind (py_read (\<lambda>o'. grandchildren child (o_db o'))) (\<lambda>gcs.
                    cascade_loop fuel cfg (insert (t_id child) scheduled) (gcs @ rest))))"

definition cascade_fuel :: "db \<Rightarrow> nat" where
  "cascade_fuel d = (let n = length (db_tasks d) in n + n * n)"

definition schedule_cascade_rebase :: "config \<Rightarrow> string \<Rightarrow> unit orch_act" where
  "schedule_cascade_rebase cfg parent_branch =
     py_bind (cascade_walk_should_proceed cfg parent_branch) (\<lambda>go.
       if \<not> go then py_return ()
       else
         py_bind (py_read (\<lambda>o'. str_or_none (task_id_for_branch parent_branch (o_db o')))) (\<lambda>pid.
         py_then
           (case pid of None \<Rightarrow> py_return [] | Some p \<Rightarrow> on_db (propagate_parent_advanced p))
           (py_bind (py_read (\<lambda>o'. (children_of_parent_branch parent_branch (o_db o'),
                                   cascade_fuel (o_db o'))))
              (\<lambda>(children, fuel). py_then (cascade_loop fuel cfg {} children) (py_return ())))))"

section \<open>Histories\<close>

definition orch_ok :: "orch \<Rightarrow> bool" where
  "orch_ok o' \<longleftrightarrow> store_ok (o_db o')"

lemma on_db_run [act_simps]: "on_db m o' = (case m (o_db o') of (r, d) \<Rightarrow> (r, o'\<lparr>o_db := d\<rparr>))"
  by (simp add: on_db_def)

lemma keeps_on_db [keeps_intros]: "keeps store_ok m \<Longrightarrow> keeps orch_ok (on_db m)"
  by (auto simp: keeps_def orch_ok_def on_db_def split: prod.splits)

lemma keeps_begin_rebase [keeps_intros]: "keeps store_ok (begin_scheduled_rebase cfg tid r k)"
  unfolding begin_scheduled_rebase_def Let_def
  by (auto intro!: keeps_intros split: prod.splits option.splits)

lemma keeps_submit [keeps_intros]: "keeps orch_ok (submit_review_job tid j)"
  unfolding submit_review_job_def by (rule keeps_modify) (simp add: orch_ok_def)

lemma keeps_schedule_rebase [keeps_intros]:
  "keeps orch_ok (schedule_rebase_to_main cfg tid r)"
  "keeps orch_ok (schedule_rebase_to_parent_tip cfg tid)"
  unfolding schedule_rebase_to_main_def schedule_rebase_to_parent_tip_def by (intro keeps_intros)+

lemma keeps_merged_parent [keeps_intros]:
  "keeps orch_ok (schedule_rebases_for_merged_parent env cfg b)"
  unfolding schedule_rebases_for_merged_parent_def rebase_child_of_merged_def Let_def
  by (intro keeps_intros)

lemma keeps_cascade_proceed [keeps_intros]: "keeps orch_ok (cascade_walk_should_proceed cfg b)"
  unfolding cascade_walk_should_proceed_def
  by (auto intro!: keeps_intros keeps_modify simp: orch_ok_def split: prod.splits)

lemma keeps_cascade_loop [keeps_intros]: "keeps orch_ok (cascade_loop fuel cfg scheduled work)"
proof (induction fuel arbitrary: scheduled work)
  case 0
  then show ?case by (simp add: keeps_intros)
next
  case (Suc fuel)
  have "keeps orch_ok (cascade_visit cfg child)" for child
    unfolding cascade_visit_def by (intro keeps_intros)
  with Suc.IH show ?case by (cases work) (auto intro!: keeps_intros)
qed

lemma keeps_cascade [keeps_intros]: "keeps orch_ok (schedule_cascade_rebase cfg b)"
  unfolding schedule_cascade_rebase_def by (auto intro!: keeps_intros split: prod.splits)

section \<open>Columns an action leaves alone\<close>

text \<open>\<open>col\<close> does not look at what a plain transition writes.\<close>

definition plain_col :: "(task_row \<Rightarrow> 'a) \<Rightarrow> bool" where
  "plain_col col \<longleftrightarrow>
     (\<forall>r s. col (r\<lparr>t_state := s\<rparr>) = col r) \<and> (\<forall>r u. col (r\<lparr>t_updated_at := u\<rparr>) = col r) \<and>
     (\<forall>r b. col (r\<lparr>t_block_forensics := b\<rparr>) = col r)"

abbreviation col_is :: "(task_row \<Rightarrow> 'a) \<Rightarrow> ident \<Rightarrow> 'a option \<Rightarrow> db \<Rightarrow> bool" where
  "col_is col x c \<equiv> \<lambda>d. map_option col (find_task x d) = c"

lemma keeps_col_update:
  assumes "plain_col col" and "\<And>r. t_id (f r) = t_id r" and "x \<noteq> tid \<or> (\<forall>r. col (f r) = col r)"
  shows "keeps (col_is col x c) (update_task tid f)"
  unfolding update_task_def
proof (rule keeps_modify)
  fix d assume "col_is col x c d"
  then show "col_is col x c (update_row tid f d)"
    using assms by (auto simp: find_task_update_row plain_col_def option.map_comp comp_def)
qed

lemma keeps_col_log: "keeps (col_is col x c) (insert_log tid from to n)"
  by (rule keepsI) (simp add: insert_log_run)

lemma keeps_col_transition:
  assumes "plain_col col"
  shows "keeps (col_is col x c) (transition tid t n [])"
  unfolding transition_def capture_block_forensics_def set_block_forensics_def
  using assms by (intro keeps_intros keeps_col_update keeps_col_log) (auto simp: plain_col_def)

lemma keeps_col_fire:
  assumes "plain_col col"
  shows "keeps (col_is col x c) (fire tid ev n [])"
  unfolding fire_def apply_event_def
  by (auto intro!: keeps_intros keeps_col_transition [OF assms] split: option.splits sum.splits)

lemma keeps_col_enter_rebasing:
  assumes "plain_col col"
  shows "keeps (col_is col x c) (enter_rebasing_to_main tid n [])"
  unfolding enter_rebasing_to_main_def
  by (auto intro!: keeps_intros keeps_col_fire [OF assms])

lemma enter_rebasing_clock: "keeps (\<lambda>d. clock d = c) (enter_rebasing_to_main tid n kw)"
proof -
  have up: "keeps (\<lambda>d. clock d = c) (update_task tid f)" for tid f
    by (rule keepsI) (simp add: update_task_run)
  have lg: "keeps (\<lambda>d. clock d = c) (insert_log tid s1 s2 n)" for tid s1 s2 n
    by (rule keepsI) (simp add: insert_log_run)
  have tr: "keeps (\<lambda>d. clock d = c) (transition tid t n kw)" for tid t n kw
    unfolding transition_def capture_block_forensics_def set_block_forensics_def
    by (intro keeps_intros up lg)
  have "keeps (\<lambda>d. clock d = c) (fire tid ev n kw)" for tid ev n kw
    unfolding fire_def apply_event_def
    by (auto intro!: keeps_intros tr split: option.splits sum.splits)
  then show ?thesis unfolding enter_rebasing_to_main_def by (auto intro!: keeps_intros)
qed

lemma enter_rebasing_ids: "keeps (\<lambda>d. task_ids d = ids) (enter_rebasing_to_main tid n kw)"
proof -
  have lg: "keeps (\<lambda>d. task_ids d = ids) (insert_log tid s1 s2 n)" for tid s1 s2 n
    by (rule keepsI) (simp add: insert_log_run task_ids_def)
  have up: "(\<And>r. t_id (f r) = t_id r) \<Longrightarrow> keeps (\<lambda>d. task_ids d = ids) (update_task tid f)" for tid f
    by (rule keepsI) (simp add: update_task_run)
  have tr: "keeps (\<lambda>d. task_ids d = ids) (transition tid t n kw)" for tid t n kw
    unfolding transition_def capture_block_forensics_def set_block_forensics_def
    by (intro keeps_intros up lg) simp_all
  have "keeps (\<lambda>d. task_ids d = ids) (fire tid ev n kw)" for tid ev n kw
    unfolding fire_def apply_event_def
    by (auto intro!: keeps_intros tr split: option.splits sum.splits)
  then show ?thesis unfolding enter_rebasing_to_main_def by (auto intro!: keeps_intros)
qed

section \<open>Beginning a rebase\<close>

definition coalesced :: "config \<Rightarrow> ident \<Rightarrow> db \<Rightarrow> bool" where
  "coalesced cfg tid d \<longleftrightarrow>
     0 < cfg_rebase_coalesce_window_s cfg \<and>
     (case get_last_rebase_scheduled_ts tid d of
        None \<Rightarrow> False | Some t \<Rightarrow> clock d - t < cfg_rebase_coalesce_window_s cfg)"

lemma set_rebase_ts_run:
  "set_last_rebase_scheduled tid ts d =
     (Inr (), update_row tid (\<lambda>r. r\<lparr>t_last_rebase_scheduled_ts := Some ts\<rparr>) d)"
  "set_pre_rebase_state tid st d = (Inr (), update_row tid (\<lambda>r. r\<lparr>t_pre_rebase_state := Some st\<rparr>) d)"
  "mark_needs_parent_rebase tid d = (Inr (), update_row tid (\<lambda>r. r\<lparr>t_needs_parent_rebase := Some 1\<rparr>) d)"
  by (simp_all add: set_last_rebase_scheduled_def set_pre_rebase_state_def mark_needs_parent_rebase_def act_simps)

text \<open>
  Outside the coalesce window a rebase begins: the task moves to REBASING_TO_MAIN when its state
  allows it and stays otherwise, and in both cases the caller is told to dispatch a worker.
\<close>

lemma begin_rebase_run:
  assumes cur: "select_state tid d = Some s"
  shows "if coalesced cfg tid d then begin_scheduled_rebase cfg tid reason kind d = (Inr False, d)
    else \<exists>d'. begin_scheduled_rebase cfg tid reason kind d = (Inr True, d') \<and>
      select_state tid d' = Some (if rebasable s then REBASING_TO_MAIN else s) \<and>
      (\<forall>x. x \<noteq> tid \<longrightarrow> select_state x d' = select_state x d) \<and>
      get_last_rebase_scheduled_ts tid d' = Some (clock d) \<and> get_pre_rebase_state tid d' = Some (state_value s) \<and>
      clock d' = clock d \<and> task_ids d' = task_ids d"
proof -
  obtain r where r: "find_task tid d = Some r" "t_state r = s"
    using cur by (auto simp: select_state_def)
  let ?d1 = "update_row tid (\<lambda>r. r\<lparr>t_last_rebase_scheduled_ts := Some (clock d)\<rparr>) d"
  let ?d2 = "update_row tid (\<lambda>r. r\<lparr>t_pre_rebase_state := Some (state_value s)\<rparr>) ?d1"
  let ?note = "Some (rebase_note kind reason (state_value s))"
  have sel: "select_state x ?d2 = select_state x d" for x
    by (simp add: select_state_update_row)
  have row: "map_option t_last_rebase_scheduled_ts (find_task tid ?d2) = Some (Some (clock d))"
    "map_option t_pre_rebase_state (find_task tid ?d2) = Some (Some (state_value s))"
    using r by (simp_all add: find_task_update_row)
  obtain res d' where enter: "enter_rebasing_to_main tid ?note [] ?d2 = (Inr res, d')"
    and st: "select_state tid d' = Some (if rebasable s then REBASING_TO_MAIN else s)"
    and others: "\<forall>x. x \<noteq> tid \<longrightarrow> select_state x d' = select_state x d"
    using enter_rebasing_state [of tid ?d2 s ?note "[]"] sel cur by (cases "rebasable s") auto
  have plain: "plain_col t_last_rebase_scheduled_ts" "plain_col t_pre_rebase_state"
    by (simp_all add: plain_col_def)
  have cols: "map_option t_last_rebase_scheduled_ts (find_task tid d') = Some (Some (clock d))"
    "map_option t_pre_rebase_state (find_task tid d') = Some (Some (state_value s))"
    using keepsD [OF keeps_col_enter_rebasing [OF plain(1)] row(1), of tid ?note]
      keepsD [OF keeps_col_enter_rebasing [OF plain(2)] row(2), of tid ?note] enter by simp_all
  have "clock d' = clock d"
    using keepsD [OF enter_rebasing_clock [of "clock d" tid ?note "[]"], of ?d2] enter by simp
  moreover have "task_ids d' = task_ids d"
    using keepsD [OF enter_rebasing_ids [of "task_ids d" tid ?note "[]"], of ?d2] enter by simp
  moreover have "begin_scheduled_rebase cfg tid reason kind d =
      (if coalesced cfg tid d then (Inr False, d) else (Inr True, d'))"
    using r enter by (simp add: begin_scheduled_rebase_def act_simps set_rebase_ts_run coalesced_def Let_def)
  moreover have "get_last_rebase_scheduled_ts tid d' = Some (clock d)"
    "get_pre_rebase_state tid d' = Some (state_value s)"
    using cols by (auto simp: get_last_rebase_scheduled_ts_def get_pre_rebase_state_def)
  ultimately show ?thesis using st others by simp
qed

lemma begin_rebase_missing:
  "select_state tid d = None \<Longrightarrow> begin_scheduled_rebase cfg tid reason kind d = (Inr False, d)"
  by (simp add: begin_scheduled_rebase_def act_simps select_state_def)

lemma begin_rebase_total:
  "\<exists>b d'. begin_scheduled_rebase cfg tid reason kind d = (Inr b, d') \<and> task_ids d' = task_ids d"
proof (cases "select_state tid d")
  case None
  show ?thesis using begin_rebase_missing [OF None, of cfg reason kind] by blast
next
  case (Some s)
  from begin_rebase_run [OF this, of cfg reason kind] show ?thesis by (auto split: if_splits)
qed

section \<open>The cascade\<close>

lemma cascade_visit_total:
  "\<exists>o2. cascade_visit cfg child o1 = (Inr (), o2) \<and> task_ids (o_db o2) = task_ids (o_db o1)"
proof -
  let ?d1 = "update_row (t_id child) (\<lambda>r. r\<lparr>t_needs_parent_rebase := Some 1\<rparr>) (o_db o1)"
  obtain b d' where "begin_scheduled_rebase cfg (t_id child) ''parent_tip_advanced'' ''parent_tip'' ?d1 =
      (Inr b, d')" "task_ids d' = task_ids ?d1"
    using begin_rebase_total by blast
  then show ?thesis
    by (simp add: cascade_visit_def schedule_rebase_to_parent_tip_def submit_review_job_def act_simps
        set_rebase_ts_run)
qed

lemma children_known:
  "r \<in> set (children_of_parent_branch b d) \<Longrightarrow> t_id r \<in> set (task_ids d)"
  by (simp add: children_of_parent_branch_def all_tasks_facts task_ids_def)

lemma children_length: "length (children_of_parent_branch b d) \<le> length (task_ids d)"
proof -
  have "length (children_of_parent_branch b d) \<le> length (all_tasks d)"
    unfolding children_of_parent_branch_def by (rule length_filter_le)
  then show ?thesis by (simp add: all_tasks_def task_ids_def)
qed

lemma grandchildren_known: "r \<in> set (grandchildren c d) \<Longrightarrow> t_id r \<in> set (task_ids d)"
  by (auto simp: grandchildren_def children_known split: option.splits)

lemma grandchildren_length: "length (grandchildren c d) \<le> length (task_ids d)"
  by (simp add: grandchildren_def children_length split: option.splits)

text \<open>Enough fuel: every visit schedules a new task and adds at most all tasks to the work.\<close>

lemma cascade_loop_ends:
  assumes "\<forall>r \<in> set work. t_id r \<in> set (task_ids (o_db o1))"
    and "length work + length (task_ids (o_db o1)) * card (set (task_ids (o_db o1)) - S) \<le> fuel"
  shows "\<exists>S' o2. cascade_loop fuel cfg S work o1 = (Inr (Some S'), o2) \<and> S \<union> t_id ` set work \<subseteq> S' \<and>
    task_ids (o_db o2) = task_ids (o_db o1)"
  using assms
proof (induction fuel arbitrary: S work o1)
  case 0
  then show ?case by (simp add: py_return_run)
next
  case (Suc fuel)
  show ?case
  proof (cases work)
    case Nil
    then show ?thesis by (simp add: py_return_run)
  next
    case (Cons child rest)
    let ?n = "length (task_ids (o_db o1))" and ?ids = "set (task_ids (o_db o1))"
    show ?thesis
    proof (cases "t_id child \<in> S")
      case True
      have "\<exists>S' o2. cascade_loop fuel cfg S rest o1 = (Inr (Some S'), o2) \<and> S \<union> t_id ` set rest \<subseteq> S' \<and>
          task_ids (o_db o2) = task_ids (o_db o1)"
        using Suc.prems Cons by (intro Suc.IH) simp_all
      with Cons True show ?thesis by auto
    next
      case False
      obtain o2 where v: "cascade_visit cfg child o1 = (Inr (), o2)" "task_ids (o_db o2) = task_ids (o_db o1)"
        using cascade_visit_total by blast
      let ?g = "grandchildren child (o_db o2)"
      have child: "t_id child \<in> ?ids" using Suc.prems(1) Cons by simp
      have "?ids - S = insert (t_id child) (?ids - insert (t_id child) S)" using child False by blast
      then have card: "card (?ids - S) = Suc (card (?ids - insert (t_id child) S))"
        by (metis DiffD2 card_insert_disjoint finite_Diff insertI1 List.finite_set)
      have g: "\<forall>r \<in> set ?g. t_id r \<in> ?ids" "length ?g \<le> ?n"
        using grandchildren_known [of _ child "o_db o2"] grandchildren_length [of child "o_db o2"] v(2)
        by simp_all
      have known: "\<forall>r \<in> set (?g @ rest). t_id r \<in> set (task_ids (o_db o2))"
        using Suc.prems(1) Cons g(1) v(2) by auto
      have "length (?g @ rest) + ?n * card (?ids - insert (t_id child) S) \<le> fuel"
        using Suc.prems(2) Cons card g(2) by simp
      then obtain S' o3 where rest: "cascade_loop fuel cfg (insert (t_id child) S) (?g @ rest) o2 = (Inr (Some S'), o3)"
        "insert (t_id child) S \<union> t_id ` set (?g @ rest) \<subseteq> S'" "task_ids (o_db o3) = task_ids (o_db o1)"
        using Suc.IH [of "?g @ rest" o2 "insert (t_id child) S", OF known, unfolded v(2)] by blast
      have "cascade_loop (Suc fuel) cfg S work o1 = (Inr (Some S'), o3)"
        using Cons False v(1) rest(1) by (simp add: py_then_run py_bind_run py_read_run)
      with rest(2,3) v(2) Cons show ?thesis by auto
    qed
  qed
qed

lemma cascade_ends:
  "\<exists>S' o2. cascade_loop (cascade_fuel (o_db o1)) cfg {} (children_of_parent_branch b (o_db o1)) o1 =
     (Inr (Some S'), o2) \<and> t_id ` set (children_of_parent_branch b (o_db o1)) \<subseteq> S'"
proof -
  let ?ids = "task_ids (o_db o1)" and ?work = "children_of_parent_branch b (o_db o1)"
  have n: "length ?ids = length (db_tasks (o_db o1))" by (simp add: task_ids_def)
  have "length ?ids * card (set ?ids - {}) \<le> length ?ids * length ?ids"
    using card_length [of ?ids] by (intro mult_le_mono2) simp
  then have "length ?work + length ?ids * card (set ?ids - {}) \<le> length ?ids + length ?ids * length ?ids"
    by (rule add_mono [OF children_length])
  then have "length ?work + length ?ids * card (set ?ids - {}) \<le> cascade_fuel (o_db o1)"
    by (simp only: cascade_fuel_def Let_def n)
  moreover have "\<forall>r \<in> set ?work. t_id r \<in> set ?ids" using children_known by blast
  ultimately show ?thesis
    using cascade_loop_ends [of ?work o1 "{}" "cascade_fuel (o_db o1)" cfg] by auto
qed

section \<open>Properties\<close>

text \<open>
  Beginning a rebase. Inside the coalesce window the call does nothing. Outside it the task is stamped with the time
  and the state it came from, moves to REBASING_TO_MAIN exactly when its state allows it, no other task moves, and the
  caller is told to dispatch a worker in either case.
\<close>

theorem rebase_begins:
  assumes "select_state tid d = Some s"
  shows "if coalesced cfg tid d then begin_scheduled_rebase cfg tid reason kind d = (Inr False, d)
    else \<exists>d'. begin_scheduled_rebase cfg tid reason kind d = (Inr True, d') \<and>
      select_state tid d' = Some (if rebasable s then REBASING_TO_MAIN else s) \<and>
      (\<forall>x. x \<noteq> tid \<longrightarrow> select_state x d' = select_state x d) \<and>
      get_last_rebase_scheduled_ts tid d' = Some (clock d) \<and> get_pre_rebase_state tid d' = Some (state_value s)"
  using begin_rebase_run [OF assms, of cfg reason kind] by (auto split: if_splits)

theorem rebase_begins_witness:
  "\<not> rebasable MERGED \<and> \<not> coalesced demo_config ''A'' demo_merged_root \<and>
   (if coalesced demo_config ''A'' demo_merged_root
    then begin_scheduled_rebase demo_config ''A'' ''manual'' ''main'' demo_merged_root = (Inr False, demo_merged_root)
    else \<exists>d'. begin_scheduled_rebase demo_config ''A'' ''manual'' ''main'' demo_merged_root = (Inr True, d') \<and>
      select_state ''A'' d' = Some (if rebasable MERGED then REBASING_TO_MAIN else MERGED) \<and>
      (\<forall>x. x \<noteq> ''A'' \<longrightarrow> select_state x d' = select_state x demo_merged_root) \<and>
      get_last_rebase_scheduled_ts ''A'' d' = Some (clock demo_merged_root) \<and>
      get_pre_rebase_state ''A'' d' = Some (state_value MERGED))"
proof -
  have st: "select_state ''A'' demo_merged_root = Some MERGED" by code_simp
  have "\<not> rebasable MERGED \<and> \<not> coalesced demo_config ''A'' demo_merged_root" by code_simp
  with rebase_begins [OF st, of demo_config "''manual''" "''main''"] show ?thesis by blast
qed

text \<open>
  C33: the cascade ends. From any database, whatever its stacking looks like, the recursion of \<^verbatim>\<open>_enqueue\<close> is finished
  within the fuel, raises nothing, and has visited every stacked child of the branch that advanced.
\<close>

theorem cascade_terminates:
  "\<exists>visited o2. cascade_loop (cascade_fuel (o_db o1)) cfg {} (children_of_parent_branch b (o_db o1)) o1 =
     (Inr (Some visited), o2) \<and> t_id ` set (children_of_parent_branch b (o_db o1)) \<subseteq> visited"
  by (rule cascade_ends)

end
