(* ===== verification/ReviewWatch.thy ===== *)
theory ReviewWatch
  imports RebaseWatch
begin

text \<open>
  \<^verbatim>\<open>quikode/orchestration/review_watch.py\<close> and \<^verbatim>\<open>merge_watch.py\<close>: one tick of the post-PR poll. Handlers
  read the row the tick started from (\<open>row\<close>) where the code does, and the database where it asks the
  store again.
\<close>

section \<open>Which repository\<close>

text \<open>\<^verbatim>\<open>re.match(r"https?://github\.com/([^/]+)/([^/]+)/pull/\d+", pr_url)\<close>.\<close>

definition parse_github_pr_repo :: "string \<Rightarrow> string" where
  "parse_github_pr_repo url =
     (let not_slash = (\<lambda>c. c \<noteq> CHR ''/'');
          rest0 = (case drop_prefix ''https://github.com/'' url of
                     Some r \<Rightarrow> Some r | None \<Rightarrow> drop_prefix ''http://github.com/'' url)
      in case rest0 of
           None \<Rightarrow> []
         | Some r \<Rightarrow>
             let owner = takeWhile not_slash r; r1 = dropWhile not_slash r;
                 name = takeWhile not_slash (tl r1); r2 = dropWhile not_slash (tl r1)
             in if owner \<noteq> [] \<and> r1 \<noteq> [] \<and> name \<noteq> [] \<and>
                   (case drop_prefix ''/pull/'' r2 of Some (d # _) \<Rightarrow> is_digit d | _ \<Rightarrow> False)
                then owner @ ''/'' @ name else [])"

definition query_repo_identifier :: "github_env \<Rightarrow> string" where
  "query_repo_identifier env =
     (case g_repo_view env of
        None \<Rightarrow> []
      | Some (rc, name) \<Rightarrow> if rc \<noteq> 0 then [] else the_or name [])"

text \<open>The row of today's schema has no \<^verbatim>\<open>repo\<close> column, so the explicit source is never there.\<close>

definition repo_identifier :: "github_env \<Rightarrow> task_row \<Rightarrow> string orch_act" where
  "repo_identifier env row =
     (let parsed = parse_github_pr_repo (the_or (t_pr_url row) [])
      in if parsed \<noteq> [] then py_return parsed
         else py_bind (py_read (\<lambda>o'. str_or_none (o_repo_id_cache o'))) (\<lambda>cached.
           case cached of
             Some c \<Rightarrow> py_return c
           | None \<Rightarrow>
               let rid = query_repo_identifier env
               in if rid = [] then py_return rid
                  else py_then (py_modify (\<lambda>o'. o'\<lparr>o_repo_id_cache := Some rid\<rparr>)) (py_return rid)))"

definition stamp_poll :: "ident \<Rightarrow> time \<Rightarrow> unit orch_act" where
  "stamp_poll tid now = on_db (set_field tid [F_last_review_poll_ts (Some now)])"

definition review_pr_info ::
  "github_env \<Rightarrow> task_row \<Rightarrow> time \<Rightarrow> (int \<times> string) option orch_act" where
  "review_pr_info env row now =
     py_bind (if truthy_int (t_pr_number row) then repo_identifier env row else py_return []) (\<lambda>repo.
       if truthy_int (t_pr_number row) \<and> repo \<noteq> []
       then py_return (Some (or0 (t_pr_number row), repo))
       else py_then (stamp_poll (t_id row) now) (py_return None))"

section \<open>The branch tip moved\<close>

definition maybe_schedule_cascade_for_push :: "config \<Rightarrow> task_row \<Rightarrow> pr_status \<Rightarrow> unit orch_act" where
  "maybe_schedule_cascade_for_push cfg row st =
     (let tid = t_id row; branch = the_or (t_branch row) []
      in if pr_state st \<noteq> ''OPEN'' \<or> pr_head_sha st = [] \<or> branch = [] then py_return ()
         else py_bind (py_read (\<lambda>o'. get_last_observed_branch_tip_sha tid (o_db o'))) (\<lambda>last_seen.
           py_then
             (if last_seen \<noteq> None \<and> last_seen \<noteq> Some (pr_head_sha st)
              then schedule_cascade_rebase cfg branch else py_return ())
             (on_db (set_last_observed_branch_tip_sha tid (pr_head_sha st)))))"

section \<open>The PR is over\<close>

definition closed_pr_needs_rebase :: "github_env \<Rightarrow> config \<Rightarrow> ident \<Rightarrow> string \<Rightarrow> db \<Rightarrow> bool" where
  "closed_pr_needs_rebase env cfg tid base d \<longleftrightarrow>
     get_parent_branches tid d \<noteq> [] \<and> base \<noteq> [] \<and> base \<noteq> cfg_base_branch cfg \<and>
     \<not> remote_branch_exists env base"

definition clear_stranded_children :: "string \<Rightarrow> unit orch_act" where
  "clear_stranded_children parent_branch =
     (if parent_branch = [] then py_return ()
      else py_bind (py_read (\<lambda>o'. children_with_parent_branch parent_branch (o_db o'))) (\<lambda>stranded.
        py_then (py_for stranded (\<lambda>child. on_db (clear_parent_branch (t_id child)))) (py_return ())))"

definition handle_closed_pr ::
  "github_env \<Rightarrow> config \<Rightarrow> task_row \<Rightarrow> pr_status \<Rightarrow> time \<Rightarrow> bool orch_act" where
  "handle_closed_pr env cfg row st now =
     (let tid = t_id row
      in py_bind (py_read (\<lambda>o'. closed_pr_needs_rebase env cfg tid (pr_base_ref_name st) (o_db o'))) (\<lambda>again.
           if again
           then py_then (stamp_poll tid now)
                  (py_then (schedule_rebase_to_main cfg tid ''parent_merge_auto_close'') (py_return True))
           else
             py_then (on_db (pr_closed tid (Some ''closed without merge'') []))
               (py_then (stamp_poll tid now)
                 (py_then (clear_stranded_children (the_or (t_branch row) [])) (py_return True)))))"

definition handle_terminal_pr_status ::
  "github_env \<Rightarrow> config \<Rightarrow> task_row \<Rightarrow> pr_status \<Rightarrow> time \<Rightarrow> bool orch_act" where
  "handle_terminal_pr_status env cfg row st now =
     (if pr_state st = ''MERGED''
      then let tid = t_id row; parent_branch = the_or (t_branch row) []
           in py_then (on_db (mark_merged tid (Some ''merged on github'') []))
                (py_then (stamp_poll tid now)
                  (py_then
                    (if parent_branch \<noteq> [] then schedule_rebases_for_merged_parent env cfg parent_branch
                     else py_return ())
                    (py_return True)))
      else if pr_state st \<noteq> ''CLOSED'' then py_return False
      else handle_closed_pr env cfg row st now)"

section \<open>The PR needs work\<close>

definition handle_post_pr_rebase_signal ::
  "config \<Rightarrow> task_row \<Rightarrow> pr_status \<Rightarrow> time \<Rightarrow> bool orch_act" where
  "handle_post_pr_rebase_signal cfg row st now =
     py_bind (py_read (\<lambda>o'. t_id row \<in> set (o_futures o'))) (\<lambda>busy.
       if pr_mergeable st \<noteq> ''CONFLICTING'' \<or> busy then py_return False
       else py_then (stamp_poll (t_id row) now)
              (py_then (schedule_rebase_to_main cfg (t_id row) ''sibling_conflict'') (py_return True)))"

definition review_cap :: "config \<Rightarrow> int" where
  "review_cap cfg = cfg_max_parallel cfg + cfg_review_response_extra_slots cfg"

definition schedule_ci_fix_response :: "ident \<Rightarrow> pr_status \<Rightarrow> unit orch_act" where
  "schedule_ci_fix_response tid st = submit_review_job tid (Job_CI_FIX st)"

definition handle_post_pr_ci_failure ::
  "config \<Rightarrow> task_row \<Rightarrow> pr_status \<Rightarrow> time \<Rightarrow> bool orch_act" where
  "handle_post_pr_ci_failure cfg row st now =
     (if pr_checks_status st \<noteq> ''failure'' \<or> pr_failed_checks st = [] then py_return False
      else py_bind (py_read o_futures) (\<lambda>futures.
        if t_id row \<in> set futures \<or> review_cap cfg \<le> int (length futures) then py_return False
        else if t_state row \<in> set [BLOCKED, FAILED] then py_return False
        else py_then (stamp_poll (t_id row) now)
               (py_then (schedule_ci_fix_response (t_id row) st) (py_return True))))"

definition handle_pre_review_pr_signal ::
  "github_env \<Rightarrow> config \<Rightarrow> task_row \<Rightarrow> pr_status \<Rightarrow> time \<Rightarrow> bool orch_act" where
  "handle_pre_review_pr_signal env cfg row st now =
     py_bind (handle_terminal_pr_status env cfg row st now) (\<lambda>a.
       if a then py_return True
       else py_bind (handle_post_pr_rebase_signal cfg row st now) (\<lambda>b.
         if b then py_return True
         else handle_post_pr_ci_failure cfg row st now))"

text \<open>The UTF-8 bytes of the two characters outside ASCII that notes and messages use.\<close>

definition em_dash :: string where
  "em_dash = [char_of (226 :: nat), char_of (128 :: nat), char_of (148 :: nat)]"

definition mid_dot :: string where
  "mid_dot = [char_of (194 :: nat), char_of (183 :: nat)]"

definition maybe_handle_ci_pass :: "task_row \<Rightarrow> pr_status \<Rightarrow> bool orch_act" where
  "maybe_handle_ci_pass row st =
     (if t_state row \<noteq> PENDING_CI then py_return False
      else if pr_checks_status st \<notin> set [''success'', ''none''] then py_return False
      else py_then
             (on_db (enter_awaiting_review (t_id row) (Some (''CI green '' @ em_dash @ '' awaiting formal review'')) []))
             (py_return True))"

section \<open>The settled notification\<close>

text \<open>\<open>titles\<close> is the title of a DAG node.\<close>

definition ready_message :: "(ident \<rightharpoonup> string) \<Rightarrow> task_row \<Rightarrow> time \<Rightarrow> review_ready_message" where
  "ready_message titles row settled_s =
     (let tid = t_id row; round_no = or0 (t_review_round row);
          round_str = (if round_no = 0 then []
                       else '' '' @ mid_dot @ '' '' @ str_int round_no @ '' review round(s)'')
      in \<lparr>msg_task_id = tid,
          msg_title = (case titles tid of None \<Rightarrow> tid | Some t \<Rightarrow> t),
          msg_pr_url = the_or (t_pr_url row) [],
          msg_summary = ''settled '' @ str_int (settled_s div 60) @ ''min'' @ round_str @
                         '' '' @ mid_dot @ '' '' @ ''CI green''\<rparr>)"

definition maybe_notify_review_ready ::
  "github_env \<Rightarrow> config \<Rightarrow> (ident \<rightharpoonup> string) \<Rightarrow> task_row \<Rightarrow> unit orch_act" where
  "maybe_notify_review_ready env cfg titles row =
     (let tid = t_id row
      in if strip (cfg_notify_ntfy_topic cfg) = [] then py_return ()
         else py_bind
           (py_read (\<lambda>o'. (most_recent_awaiting_review_entry_ts tid (o_db o'), clock (o_db o'),
                          get_last_review_ready_notified_ts tid (o_db o'))))
           (\<lambda>(entered_ts, now, last_notified).
              case entered_ts of
                None \<Rightarrow> py_return ()
              | Some entered \<Rightarrow>
                  if now - entered < cfg_review_ready_settle_s cfg then py_return ()
                  else if (case last_notified of None \<Rightarrow> False | Some l \<Rightarrow> entered \<le> l) then py_return ()
                  else let msg = ready_message titles row (now - entered)
                       in py_then (py_modify (\<lambda>o'. o'\<lparr>o_notified := o_notified o' @ [msg]\<rparr>))
                            (if g_notify env msg then on_db (set_last_review_ready_notified_ts tid now)
                             else py_return ())))"

section \<open>Formal reviews\<close>

fun after_review :: "string \<Rightarrow> review list \<Rightarrow> review list option" where
  "after_review rid [] = None"
| "after_review rid (r # rs) = (if rv_review_id r = rid then Some rs else after_review rid rs)"

text \<open>The loop with \<^verbatim>\<open>seen\<close>: what follows the first review with the processed id, if it is there.\<close>

definition novel_reviews :: "review list \<Rightarrow> string option \<Rightarrow> review list" where
  "novel_reviews reviews last_processed =
     (let non_bot = filter (\<lambda>r. \<not> rv_is_bot r \<and> rv_state r \<noteq> ''PENDING'') reviews
      in case str_or_none last_processed of
           None \<Rightarrow> non_bot
         | Some rid \<Rightarrow> (case after_review rid non_bot of None \<Rightarrow> non_bot | Some out \<Rightarrow> out))"

definition rounds_note :: "config \<Rightarrow> string" where
  "rounds_note cfg = ''review_rounds_max ('' @ str_int (cfg_review_rounds_max cfg) @
                     '') exhausted; manual merge or close required.''"

definition review_context :: "github_env \<Rightarrow> string \<Rightarrow> int \<Rightarrow> review \<Rightarrow> string" where
  "review_context env repo n rv =
     (let bundled = the_or (g_bundle_context env repo n) []
      in if strip_nonempty bundled then bundled
         else ''CHANGES_REQUESTED review by '' @ rv_author rv @ '':'' @ [CHR 0x0A] @
              (if rv_body rv = [] then ''(no body)'' else rv_body rv))"

definition handle_changes_requested ::
  "github_env \<Rightarrow> config \<Rightarrow> string \<Rightarrow> int \<Rightarrow> task_row \<Rightarrow> review \<Rightarrow> unit orch_act" where
  "handle_changes_requested env cfg repo n row rv =
     (let tid = t_id row
      in py_bind (py_read (\<lambda>o'. int (length (o_futures o')))) (\<lambda>in_flight.
        if review_cap cfg \<le> in_flight then py_return ()
        else if cfg_review_rounds_max cfg \<le> or0 (t_review_round row)
        then py_then (on_db (block_current tid (Some (rounds_note cfg)) [F_last_error (Some (rounds_note cfg))]))
               (on_db (mark_review_processed tid (rv_review_id rv)))
        else py_bind (py_read (\<lambda>o'. select_state tid (o_db o'))) (\<lambda>fresh.
          if fresh \<in> {Some BLOCKED, Some FAILED} then py_return ()
          else py_then (on_db (mark_review_processed tid (rv_review_id rv)))
                 (submit_review_job tid (Job_CHANGES_REQUESTED (review_context env repo n rv))))))"

definition attempt_auto_merge ::
  "github_env \<Rightarrow> config \<Rightarrow> task_row \<Rightarrow> pr_status \<Rightarrow> string \<Rightarrow> unit orch_act" where
  "attempt_auto_merge env cfg row st approval =
     (if approval = [] \<or> \<not> cfg_auto_merge_when_clean cfg then py_return ()
      else if pr_state st \<noteq> ''OPEN'' \<or> pr_mergeable st \<noteq> ''MERGEABLE'' then py_return ()
      else if pr_checks_status st \<notin> set [''success'', ''none''] then py_return ()
      else let n = or0 (t_pr_number row)
           in if n = 0 then py_return ()
              else py_then (py_modify (\<lambda>o'. o'\<lparr>o_merge_calls := o_merge_calls o' @ [n]\<rparr>))
                     (if g_merge_pr env n = Some 0
                      then on_db (set_field (t_id row) [F_auto_merged (Some 1)]) else py_return ()))"

definition handle_approval ::
  "github_env \<Rightarrow> config \<Rightarrow> task_row \<Rightarrow> pr_status \<Rightarrow> review \<Rightarrow> unit orch_act" where
  "handle_approval env cfg row st rv =
     py_then (on_db (mark_review_processed (t_id row) (rv_review_id rv)))
       (attempt_auto_merge env cfg row st (rv_review_id rv))"

definition handle_awaiting_review_reviews ::
  "github_env \<Rightarrow> config \<Rightarrow> string \<Rightarrow> int \<Rightarrow> task_row \<Rightarrow> pr_status \<Rightarrow> unit orch_act" where
  "handle_awaiting_review_reviews env cfg repo n row st =
     py_bind (py_read (\<lambda>o'. novel_reviews (reviews_of env repo n)
                              (get_last_processed_review_id (t_id row) (o_db o')))) (\<lambda>novel.
       if novel = [] then py_return ()
       else let target = last novel
            in if rv_state target = ''CHANGES_REQUESTED''
               then handle_changes_requested env cfg repo n row target
               else if rv_state target = ''APPROVED'' then handle_approval env cfg row st target
               else on_db (mark_review_processed (t_id row) (rv_review_id target)))"

section \<open>The tick\<close>

definition poll_review_candidate ::
  "github_env \<Rightarrow> config \<Rightarrow> (ident \<rightharpoonup> string) \<Rightarrow> time \<Rightarrow> task_row \<Rightarrow> unit orch_act" where
  "poll_review_candidate env cfg titles now row =
     (let tid = t_id row
      in py_bind (py_read (\<lambda>o'. tid \<in> set (o_futures o'))) (\<lambda>busy.
        if busy then py_return ()
        else py_bind (review_pr_info env row now) (\<lambda>info.
          case info of
            None \<Rightarrow> py_return ()
          | Some (n, repo) \<Rightarrow>
              (case poll env n of
                 None \<Rightarrow> py_raise (OSError ''gh pr view'')
               | Some st \<Rightarrow>
                   py_then (maybe_schedule_cascade_for_push cfg row st)
                     (py_bind (handle_pre_review_pr_signal env cfg row st now) (\<lambda>handled.
                        if handled then py_return ()
                        else py_then (stamp_poll tid now)
                          (py_bind (maybe_handle_ci_pass row st) (\<lambda>passed.
                             if passed then py_return ()
                             else if t_state row \<noteq> AWAITING_REVIEW then py_return ()
                             else py_then (maybe_notify_review_ready env cfg titles row)
                                    (handle_awaiting_review_reviews env cfg repo n row st)))))))))"

definition poll_review_threads :: "github_env \<Rightarrow> config \<Rightarrow> (ident \<rightharpoonup> string) \<Rightarrow> unit orch_act" where
  "poll_review_threads env cfg titles =
     py_bind (py_read (\<lambda>o'. (clock (o_db o'),
               tasks_needing_review_poll (clock (o_db o') - cfg_review_poll_interval_s cfg) (o_db o'))))
       (\<lambda>(now, candidates).
          py_then (py_for candidates (poll_review_candidate env cfg titles now)) (py_return ()))"

section \<open>Histories\<close>

lemma keeps_stamp_poll [keeps_intros]: "keeps orch_ok (stamp_poll tid now)"
  unfolding stamp_poll_def by (intro keeps_intros)

lemma keeps_modify_orch [keeps_intros]:
  "keeps orch_ok (py_modify (\<lambda>o'. o'\<lparr>o_notified := f o'\<rparr>))"
  "keeps orch_ok (py_modify (\<lambda>o'. o'\<lparr>o_repo_id_cache := g o'\<rparr>))"
  "keeps orch_ok (py_modify (\<lambda>o'. o'\<lparr>o_merge_calls := h o'\<rparr>))"
  by (rule keeps_modify, simp add: orch_ok_def)+

lemma keeps_pr_info [keeps_intros]: "keeps orch_ok (review_pr_info env row now)"
  unfolding review_pr_info_def repo_identifier_def Let_def
  by (auto intro!: keeps_intros split: option.splits)

lemma keeps_push [keeps_intros]: "keeps orch_ok (maybe_schedule_cascade_for_push cfg row st)"
  unfolding maybe_schedule_cascade_for_push_def Let_def by (intro keeps_intros)

lemma keeps_terminal [keeps_intros]:
  "keeps orch_ok (handle_closed_pr env cfg row st now)"
  "keeps orch_ok (handle_terminal_pr_status env cfg row st now)"
  unfolding handle_terminal_pr_status_def handle_closed_pr_def clear_stranded_children_def Let_def
  by (intro keeps_intros)+

lemma keeps_signals [keeps_intros]:
  "keeps orch_ok (handle_post_pr_rebase_signal cfg row st now)"
  "keeps orch_ok (handle_post_pr_ci_failure cfg row st now)"
  "keeps orch_ok (maybe_handle_ci_pass row st)"
  unfolding handle_post_pr_rebase_signal_def handle_post_pr_ci_failure_def schedule_ci_fix_response_def
    maybe_handle_ci_pass_def
  by (intro keeps_intros)+

lemma keeps_pre_review [keeps_intros]: "keeps orch_ok (handle_pre_review_pr_signal env cfg row st now)"
  unfolding handle_pre_review_pr_signal_def by (intro keeps_intros)

lemma keeps_notify [keeps_intros]: "keeps orch_ok (maybe_notify_review_ready env cfg titles row)"
  unfolding maybe_notify_review_ready_def Let_def
  by (auto intro!: keeps_intros split: prod.splits option.splits)

lemma keeps_reviews [keeps_intros]: "keeps orch_ok (handle_awaiting_review_reviews env cfg repo n row st)"
  unfolding handle_awaiting_review_reviews_def handle_changes_requested_def handle_approval_def
    attempt_auto_merge_def Let_def
  by (intro keeps_intros)

lemma keeps_candidate_tick [keeps_intros]: "keeps orch_ok (poll_review_candidate env cfg titles now row)"
  unfolding poll_review_candidate_def Let_def
  by (auto intro!: keeps_intros split: prod.splits option.splits)

lemma keeps_tick [keeps_intros]: "keeps orch_ok (poll_review_threads env cfg titles)"
  unfolding poll_review_threads_def by (auto intro!: keeps_intros split: prod.splits)

section \<open>A merged task stays merged\<close>

abbreviation merged :: "ident \<Rightarrow> db \<Rightarrow> bool" where
  "merged tid d \<equiv> select_state tid d = Some MERGED"

abbreviation merged_o :: "ident \<Rightarrow> orch \<Rightarrow> bool" where
  "merged_o tid o' \<equiv> select_state tid (o_db o') = Some MERGED"

named_theorems merged_intros \<open>actions that leave a merged task merged\<close>

lemma merged_on_db [merged_intros]: "keeps (merged tid) m \<Longrightarrow> keeps (merged_o tid) (on_db m)"
  by (simp add: keeps_def on_db_def split: prod.splits) (metis snd_conv)

lemma merged_same: "same_states m \<Longrightarrow> keeps (merged tid) m"
  by (simp add: keeps_def same_states_def)

lemmas merged_writers [merged_intros] =
  same_parent_writers [THEN merged_same] same_set_field [THEN merged_same]

lemma merged_update [merged_intros]:
  "(\<And>r. t_id (f r) = t_id r) \<Longrightarrow> (\<And>r. t_state (f r) = t_state r) \<Longrightarrow> keeps (merged tid) (update_task x f)"
  by (rule keepsI) (simp add: update_task_run select_state_update_row)

lemma merged_apply [merged_intros]: "keeps (merged tid) (apply_event x ev n kw)"
proof (rule keepsI)
  fix d assume m: "merged tid d"
  show "merged tid (snd (apply_event x ev n kw d))"
  proof (cases "select_state x d")
    case None
    with m show ?thesis by (simp add: apply_event_missing)
  next
    case (Some s)
    show ?thesis
    proof (cases "target_of s ev")
      case None
      with m Some show ?thesis by (simp add: apply_event_run)
    next
      case (Some t)
      with m \<open>select_state x d = Some s\<close> have "x \<noteq> tid" using absorbing [of s ev] by auto
      with m Some \<open>select_state x d = Some s\<close> show ?thesis
        by (simp add: apply_event_run select_state_transition)
    qed
  qed
qed

lemma merged_fire [merged_intros]: "keeps (merged tid) (fire x ev n kw)"
  unfolding fire_def by (intro keeps_intros merged_intros)

lemma merged_helpers [merged_intros]:
  "keeps (merged tid) (enter_rebasing_to_main x n kw)" "keeps (merged tid) (block_current x n kw)"
  "keeps (merged tid) (mark_merged x n kw)" "keeps (merged tid) (enter_awaiting_review x n kw)"
  "keeps (merged tid) (pr_closed x n kw)"
  unfolding enter_rebasing_to_main_def block_current_def mark_merged_def enter_awaiting_review_def
    pr_closed_def Let_def
  by (auto intro!: keeps_intros merged_intros)

lemma merged_prune [merged_intros]: "keeps (merged tid) (prune_merge_node_parent mn p)"
  unfolding prune_merge_node_parent_def Let_def
  by (auto intro!: keeps_intros merged_intros split: option.splits)

lemma merged_propagate [merged_intros]:
  "keeps (merged tid) (propagate_parent_merged p)" "keeps (merged tid) (propagate_parent_advanced p)"
  unfolding propagate_parent_merged_def propagate_parent_advanced_def merged_row_def
  by (intro keeps_intros merged_intros)+

lemma merged_begin [merged_intros]: "keeps (merged tid) (begin_scheduled_rebase cfg x r k)"
  unfolding begin_scheduled_rebase_def Let_def
  by (auto intro!: keeps_intros merged_intros split: prod.splits option.splits)

lemma merged_modify:
  "(\<And>o'. o_db (f o') = o_db o') \<Longrightarrow> keeps (merged_o tid) (py_modify f)"
  by (rule keeps_modify) simp

lemma merged_submit [merged_intros]: "keeps (merged_o tid) (submit_review_job x j)"
  unfolding submit_review_job_def by (rule merged_modify) simp

lemma merged_schedule [merged_intros]:
  "keeps (merged_o tid) (schedule_rebase_to_main cfg x r)"
  "keeps (merged_o tid) (schedule_rebase_to_parent_tip cfg x)"
  unfolding schedule_rebase_to_main_def schedule_rebase_to_parent_tip_def
  by (intro keeps_intros merged_intros)+

lemma merged_parent_merged [merged_intros]:
  "keeps (merged_o tid) (schedule_rebases_for_merged_parent env cfg b)"
  unfolding schedule_rebases_for_merged_parent_def rebase_child_of_merged_def Let_def
  by (intro keeps_intros merged_intros)

lemma merged_cascade_loop [merged_intros]: "keeps (merged_o tid) (cascade_loop fuel cfg scheduled work)"
proof (induction fuel arbitrary: scheduled work)
  case 0
  then show ?case by (simp add: keeps_intros)
next
  case (Suc fuel)
  have "keeps (merged_o tid) (cascade_visit cfg child)" for child
    unfolding cascade_visit_def by (intro keeps_intros merged_intros)
  with Suc.IH show ?case by (cases work) (auto intro!: keeps_intros)
qed

lemma merged_cascade [merged_intros]: "keeps (merged_o tid) (schedule_cascade_rebase cfg b)"
  unfolding schedule_cascade_rebase_def cascade_walk_should_proceed_def
  by (auto intro!: keeps_intros merged_intros merged_modify split: prod.splits)

lemma merged_stamp [merged_intros]: "keeps (merged_o tid) (stamp_poll x now)"
  unfolding stamp_poll_def by (intro merged_intros)

lemma merged_pr_info [merged_intros]: "keeps (merged_o tid) (review_pr_info env row now)"
  unfolding review_pr_info_def repo_identifier_def Let_def
  by (intro keeps_intros merged_intros merged_modify) simp_all

lemma merged_push [merged_intros]: "keeps (merged_o tid) (maybe_schedule_cascade_for_push cfg row st)"
  unfolding maybe_schedule_cascade_for_push_def Let_def by (intro keeps_intros merged_intros)

lemma merged_terminal [merged_intros]:
  "keeps (merged_o tid) (handle_closed_pr env cfg row st now)"
  "keeps (merged_o tid) (handle_terminal_pr_status env cfg row st now)"
  unfolding handle_terminal_pr_status_def handle_closed_pr_def clear_stranded_children_def Let_def
  by (intro keeps_intros merged_intros)+

lemma merged_signals [merged_intros]:
  "keeps (merged_o tid) (handle_post_pr_rebase_signal cfg row st now)"
  "keeps (merged_o tid) (handle_post_pr_ci_failure cfg row st now)"
  "keeps (merged_o tid) (maybe_handle_ci_pass row st)"
  unfolding handle_post_pr_rebase_signal_def handle_post_pr_ci_failure_def schedule_ci_fix_response_def
    maybe_handle_ci_pass_def
  by (intro keeps_intros merged_intros)+

lemma merged_notify [merged_intros]: "keeps (merged_o tid) (maybe_notify_review_ready env cfg titles row)"
  unfolding maybe_notify_review_ready_def Let_def
  by (auto intro!: keeps_intros merged_intros merged_modify split: prod.splits option.splits)

lemma merged_reviews [merged_intros]:
  "keeps (merged_o tid) (handle_awaiting_review_reviews env cfg repo n row st)"
  unfolding handle_awaiting_review_reviews_def handle_changes_requested_def handle_approval_def
    attempt_auto_merge_def Let_def
  by (intro keeps_intros merged_intros merged_modify) simp_all

lemma merged_candidate_tick [merged_intros]:
  "keeps (merged_o tid) (poll_review_candidate env cfg titles now row)"
  unfolding poll_review_candidate_def handle_pre_review_pr_signal_def Let_def
  by (auto intro!: keeps_intros merged_intros split: prod.splits option.splits)

lemma merged_tick: "keeps (merged_o tid) (poll_review_threads env cfg titles)"
  unfolding poll_review_threads_def by (auto intro!: keeps_intros merged_intros split: prod.splits)

section \<open>Merge calls\<close>

text \<open>What must hold of a PR for the orchestrator to merge it by itself.\<close>

definition merge_allowed :: "github_env \<Rightarrow> config \<Rightarrow> int \<Rightarrow> bool" where
  "merge_allowed env cfg n \<longleftrightarrow>
     cfg_auto_merge_when_clean cfg \<and>
     (\<exists>st. poll env n = Some st \<and> pr_state st = ''OPEN'' \<and> pr_mergeable st = ''MERGEABLE'' \<and>
        pr_checks_status st \<in> {''success'', ''none''}) \<and>
     (\<exists>repo rv. rv \<in> set (reviews_of env repo n) \<and> rv_state rv = ''APPROVED'' \<and> \<not> rv_is_bot rv)"

abbreviation calls_ok :: "github_env \<Rightarrow> config \<Rightarrow> int set \<Rightarrow> orch \<Rightarrow> bool" where
  "calls_ok env cfg old o' \<equiv> set (o_merge_calls o') \<subseteq> old \<union> {n. merge_allowed env cfg n}"

named_theorems calls_intros \<open>actions that make no merge call\<close>

lemma calls_on_db [calls_intros]: "keeps (calls_ok env cfg old) (on_db m)"
  by (simp add: keeps_def on_db_def split: prod.splits)

lemma calls_modify: "(\<And>o'. o_merge_calls (f o') = o_merge_calls o') \<Longrightarrow> keeps (calls_ok env cfg old) (py_modify f)"
  by (rule keeps_modify) simp

lemma calls_submit [calls_intros]: "keeps (calls_ok env cfg old) (submit_review_job x j)"
  unfolding submit_review_job_def by (rule calls_modify) simp

lemma calls_schedule [calls_intros]:
  "keeps (calls_ok env cfg old) (schedule_rebase_to_main c x r)"
  "keeps (calls_ok env cfg old) (schedule_rebase_to_parent_tip c x)"
  unfolding schedule_rebase_to_main_def schedule_rebase_to_parent_tip_def
  by (intro keeps_intros calls_intros)+

lemma calls_parent_merged [calls_intros]:
  "keeps (calls_ok env cfg old) (schedule_rebases_for_merged_parent e c b)"
  unfolding schedule_rebases_for_merged_parent_def rebase_child_of_merged_def Let_def
  by (intro keeps_intros calls_intros)

lemma calls_cascade_loop [calls_intros]: "keeps (calls_ok env cfg old) (cascade_loop fuel c scheduled work)"
proof (induction fuel arbitrary: scheduled work)
  case 0
  then show ?case by (simp add: keeps_intros)
next
  case (Suc fuel)
  have "keeps (calls_ok env cfg old) (cascade_visit c child)" for child
    unfolding cascade_visit_def by (intro keeps_intros calls_intros)
  with Suc.IH show ?case by (cases work) (auto intro!: keeps_intros)
qed

lemma calls_cascade [calls_intros]: "keeps (calls_ok env cfg old) (schedule_cascade_rebase c b)"
  unfolding schedule_cascade_rebase_def cascade_walk_should_proceed_def
  by (auto intro!: keeps_intros calls_intros calls_modify split: prod.splits)

lemma calls_pr_info [calls_intros]: "keeps (calls_ok env cfg old) (review_pr_info e row now)"
  unfolding review_pr_info_def repo_identifier_def stamp_poll_def Let_def
  by (intro keeps_intros calls_intros calls_modify) simp_all

lemma calls_push [calls_intros]: "keeps (calls_ok env cfg old) (maybe_schedule_cascade_for_push c row st)"
  unfolding maybe_schedule_cascade_for_push_def Let_def by (intro keeps_intros calls_intros)

lemma calls_pre_review [calls_intros]:
  "keeps (calls_ok env cfg old) (handle_pre_review_pr_signal e c row st now)"
  "keeps (calls_ok env cfg old) (maybe_handle_ci_pass row st)"
  unfolding handle_pre_review_pr_signal_def handle_terminal_pr_status_def handle_closed_pr_def
    clear_stranded_children_def handle_post_pr_rebase_signal_def handle_post_pr_ci_failure_def
    schedule_ci_fix_response_def stamp_poll_def maybe_handle_ci_pass_def Let_def
  by (intro keeps_intros calls_intros)+

lemma calls_notify [calls_intros]: "keeps (calls_ok env cfg old) (maybe_notify_review_ready e c titles row)"
  unfolding maybe_notify_review_ready_def Let_def
  by (auto intro!: keeps_intros calls_intros calls_modify split: prod.splits option.splits)

lemma novel_reviews_subset:
  "r \<in> set (novel_reviews rs lp) \<Longrightarrow> r \<in> set rs \<and> \<not> rv_is_bot r \<and> rv_state r \<noteq> ''PENDING''"
proof -
  have sub: "after_review rid xs = Some ys \<Longrightarrow> set ys \<subseteq> set xs" for rid xs ys
    by (induction xs) (auto split: if_splits)
  assume "r \<in> set (novel_reviews rs lp)"
  then show ?thesis
    using sub by (fastforce simp: novel_reviews_def Let_def split: option.splits)
qed

lemma calls_auto_merge:
  assumes "poll env (or0 (t_pr_number row)) = Some st"
    and "rv \<in> set (reviews_of env repo (or0 (t_pr_number row)))" "rv_state rv = ''APPROVED''" "\<not> rv_is_bot rv"
  shows "keeps (calls_ok env cfg old) (attempt_auto_merge env cfg row st a)"
proof -
  let ?n = "or0 (t_pr_number row)"
  have call: "keeps (calls_ok env cfg old) (py_modify (\<lambda>o'. o'\<lparr>o_merge_calls := o_merge_calls o' @ [?n]\<rparr>))"
    if "merge_allowed env cfg ?n"
    by (rule keeps_modify) (use that in auto)
  show ?thesis
    unfolding attempt_auto_merge_def Let_def
    by (intro keeps_intros calls_intros call) (use assms in \<open>auto simp: merge_allowed_def\<close>)
qed

lemma calls_reviews:
  assumes "poll env (or0 (t_pr_number row)) = Some st"
  shows "keeps (calls_ok env cfg old) (handle_awaiting_review_reviews env cfg repo (or0 (t_pr_number row)) row st)"
  unfolding handle_awaiting_review_reviews_def
proof (rule keeps_bind_yields [where Q = "\<lambda>novel. \<forall>r \<in> set novel.
    r \<in> set (reviews_of env repo (or0 (t_pr_number row))) \<and> \<not> rv_is_bot r"])
  show "yields (\<lambda>novel. \<forall>r \<in> set novel. r \<in> set (reviews_of env repo (or0 (t_pr_number row))) \<and> \<not> rv_is_bot r)
     (py_read (\<lambda>o'. novel_reviews (reviews_of env repo (or0 (t_pr_number row)))
        (get_last_processed_review_id (t_id row) (o_db o'))))"
    by (rule yields_read) (use novel_reviews_subset in blast)
next
  fix novel
  assume n: "\<forall>r \<in> set novel. r \<in> set (reviews_of env repo (or0 (t_pr_number row))) \<and> \<not> rv_is_bot r"
  have approve: "keeps (calls_ok env cfg old) (attempt_auto_merge env cfg row st a)"
    if "novel \<noteq> []" "rv_state (last novel) = ''APPROVED''" for a
    using n that by (intro calls_auto_merge [OF assms, of "last novel" repo]) auto
  show "keeps (calls_ok env cfg old)
      (if novel = [] then py_return ()
       else let target = last novel
            in if rv_state target = ''CHANGES_REQUESTED''
               then handle_changes_requested env cfg repo (or0 (t_pr_number row)) row target
               else if rv_state target = ''APPROVED'' then handle_approval env cfg row st target
               else on_db (mark_review_processed (t_id row) (rv_review_id target)))"
    unfolding handle_changes_requested_def handle_approval_def Let_def
    by (intro keeps_intros calls_intros approve)
qed (rule keeps_read)

lemma calls_candidate: "keeps (calls_ok env cfg old) (poll_review_candidate env cfg titles now row)"
proof -
  let ?Q = "\<lambda>info. \<forall>n repo. info = Some (n, repo) \<longrightarrow> n = or0 (t_pr_number row)"
  have info: "yields ?Q (review_pr_info env row now)"
    by (auto simp: yields_def review_pr_info_def act_simps stamp_poll_def split: sum.splits prod.splits if_splits)
  have rest: "keeps (calls_ok env cfg old)
     (case info of
            None \<Rightarrow> py_return ()
          | Some (n, repo) \<Rightarrow>
              (case poll env n of
                 None \<Rightarrow> py_raise (OSError ''gh pr view'')
               | Some st \<Rightarrow>
                   py_then (maybe_schedule_cascade_for_push cfg row st)
                     (py_bind (handle_pre_review_pr_signal env cfg row st now) (\<lambda>handled.
                        if handled then py_return ()
                        else py_then (stamp_poll (t_id row) now)
                          (py_bind (maybe_handle_ci_pass row st) (\<lambda>passed.
                             if passed then py_return ()
                             else if t_state row \<noteq> AWAITING_REVIEW then py_return ()
                             else py_then (maybe_notify_review_ready env cfg titles row)
                                    (handle_awaiting_review_reviews env cfg repo n row st)))))))"
    if "?Q info" for info :: "(int \<times> string) option"
  proof (cases info)
    case None
    then show ?thesis by (simp add: keeps_intros)
  next
    case (Some x)
    then obtain repo where i: "info = Some (or0 (t_pr_number row), repo)" using \<open>?Q info\<close> by (cases x) auto
    have body: "keeps (calls_ok env cfg old) (py_then (maybe_schedule_cascade_for_push cfg row st)
                     (py_bind (handle_pre_review_pr_signal env cfg row st now) (\<lambda>handled.
                        if handled then py_return ()
                        else py_then (stamp_poll (t_id row) now)
                          (py_bind (maybe_handle_ci_pass row st) (\<lambda>passed.
                             if passed then py_return ()
                             else if t_state row \<noteq> AWAITING_REVIEW then py_return ()
                             else py_then (maybe_notify_review_ready env cfg titles row)
                                    (handle_awaiting_review_reviews env cfg repo (or0 (t_pr_number row)) row st))))))"
      if "poll env (or0 (t_pr_number row)) = Some st" for st
      unfolding stamp_poll_def by (intro keeps_intros calls_intros calls_reviews [OF that])
    show ?thesis
    proof (cases "poll env (or0 (t_pr_number row))")
      case None
      with i show ?thesis by (simp add: keeps_raise)
    next
      case (Some st)
      from body [OF Some] i Some show ?thesis by simp
    qed
  qed
  show ?thesis
    unfolding poll_review_candidate_def Let_def
    by (intro keeps_bind [OF keeps_read] keeps_if keeps_return)
       (rule keeps_bind_yields [OF info calls_pr_info rest])
qed


section \<open>Properties\<close>

text \<open>
  C3: automatic merges are safe. In a whole poll tick the orchestrator calls \<^verbatim>\<open>gh pr merge\<close> only for pull requests
  that, with auto-merge switched on, this tick saw open, mergeable, without failing or pending checks, and approved
  by a reviewer who is not a bot.
\<close>

theorem auto_merge_safe:
  "set (o_merge_calls (snd (poll_review_threads env cfg titles o1))) \<subseteq>
     set (o_merge_calls o1) \<union> {n. merge_allowed env cfg n}"
proof -
  have "keeps (calls_ok env cfg old) (poll_review_threads env cfg titles)" for old
    unfolding poll_review_threads_def
    by (auto intro!: keeps_intros calls_candidate split: prod.splits)
  from keepsD [OF this [of "set (o_merge_calls o1)"], of o1] show ?thesis by simp
qed

text \<open>
  Merged on GitHub. When the poll finds the pull request of a task merged, the task is MERGED once the handler is
  through, its children's rebases included, provided the state of the task lets it be marked.
\<close>

theorem merged_pr_recorded:
  assumes "select_state (t_id row) (o_db o1) = Some s" and "mergeable s" and "pr_state st = ''MERGED''"
  shows "\<exists>r o2. handle_terminal_pr_status env cfg row st now o1 = (r, o2) \<and>
    select_state (t_id row) (o_db o2) = Some MERGED \<and> (\<forall>b. r = Inr b \<longrightarrow> b)"
proof -
  let ?tid = "t_id row"
  obtain d1 where m: "mark_merged ?tid (Some ''merged on github'') [] (o_db o1) = (Inr (Some MERGED), d1)"
    "select_state ?tid d1 = Some MERGED"
    using mark_merged_merges [OF assms(1,2)] by blast
  let ?o1 = "o1\<lparr>o_db := d1\<rparr>" and ?b = "the_or (t_branch row) []"
  let ?rest = "py_then (stamp_poll ?tid now)
    (py_then (if ?b \<noteq> [] then schedule_rebases_for_merged_parent env cfg ?b else py_return ()) (py_return True))"
  have run: "handle_terminal_pr_status env cfg row st now o1 = ?rest ?o1"
    using assms(3) m(1) by (simp add: handle_terminal_pr_status_def py_then_run [of "on_db _"] on_db_run Let_def)
  have "keeps (merged_o ?tid) ?rest" by (intro keeps_intros merged_intros)
  then have "select_state ?tid (o_db (snd (?rest ?o1))) = Some MERGED" by (rule keepsD) (simp add: m(2))
  moreover have "yields (\<lambda>b. b) ?rest"
    by (intro then_yields yields_return) simp
  then have "\<forall>b. fst (?rest ?o1) = Inr b \<longrightarrow> b" unfolding yields_def by blast
  ultimately show ?thesis unfolding run by (metis prod.collapse)
qed

text \<open>
  Each review is acted on once. When the review ids are distinct and not empty and the last new review has been
  marked as processed, the next tick finds no new review.
\<close>

theorem reviews_processed_once:
  assumes "distinct (map rv_review_id rs)" and "\<forall>r \<in> set rs. rv_review_id r \<noteq> []"
    and "novel_reviews rs seen \<noteq> []"
  shows "novel_reviews rs (Some (rv_review_id (last (novel_reviews rs seen)))) = []"
proof -
  let ?nb = "filter (\<lambda>r. \<not> rv_is_bot r \<and> rv_state r \<noteq> ''PENDING'') rs"
  have last: "after_review rid xs = Some ys \<Longrightarrow> ys \<noteq> [] \<Longrightarrow> last ys = last xs" for rid xs ys
    by (induction xs) (auto split: if_splits)
  have at_end: "xs \<noteq> [] \<Longrightarrow> distinct (map rv_review_id xs) \<Longrightarrow> after_review (rv_review_id (last xs)) xs = Some []" for xs
    by (induction xs) (auto simp: image_iff)
  have eq: "last (novel_reviews rs seen) = last ?nb" and nb: "?nb \<noteq> []"
    using assms(3) last by (auto simp: novel_reviews_def Let_def split: option.splits)
  have "distinct (map rv_review_id ?nb)" using assms(1) by (rule distinct_map_filter)
  from at_end [OF nb this] have fin: "after_review (rv_review_id (last ?nb)) ?nb = Some []" .
  have "last ?nb \<in> set rs" using last_in_set [OF nb] by simp
  then have "rv_review_id (last ?nb) \<noteq> []" using assms(2) by blast
  with fin show ?thesis unfolding eq
    by (simp add: novel_reviews_def str_or_none_def Let_def del: filter_filter)
qed

definition demo_review :: "string \<Rightarrow> string \<Rightarrow> review" where
  "demo_review i st = \<lparr>rv_review_id = i, rv_database_id = None, rv_state = st, rv_submitted_at = 5, rv_body = [],
     rv_author = ''ann'', rv_is_bot = False\<rparr>"

definition demo_reviews :: "review list" where
  "demo_reviews = [demo_review ''R1'' ''COMMENTED'', demo_review ''R2'' ''APPROVED'']"

theorem reviews_processed_once_witness:
  "last (novel_reviews demo_reviews (Some ''R1'')) = demo_review ''R2'' ''APPROVED'' \<and>
   novel_reviews demo_reviews (Some (rv_review_id (last (novel_reviews demo_reviews (Some ''R1''))))) = []"
  by (rule conjI [OF _ reviews_processed_once]) code_simp+

text \<open>
  The caps on review responses. A CHANGES_REQUESTED review dispatches a worker only below the pool's cap and
  below \<^verbatim>\<open>review_rounds_max\<close>, and is then marked as processed. At the pool's cap nothing happens. Past the last
  round nobody is dispatched and the review is marked as processed, but the task is not blocked: AWAITING_REVIEW has
  no blocking event, so \<^verbatim>\<open>block_current\<close> skips and the task keeps waiting.
\<close>

theorem review_response_caps:
  assumes "select_state (t_id row) (o_db o1) = Some AWAITING_REVIEW"
  shows "if review_cap cfg \<le> int (length (o_futures o1))
    then handle_changes_requested env cfg repo n row rv o1 = (Inr (), o1)
    else \<exists>o2. handle_changes_requested env cfg repo n row rv o1 = (Inr (), o2) \<and>
      select_state (t_id row) (o_db o2) = Some AWAITING_REVIEW \<and>
      get_last_processed_review_id (t_id row) (o_db o2) = str_or_none (Some (rv_review_id rv)) \<and>
      o_jobs o2 = o_jobs o1 @
        (if cfg_review_rounds_max cfg \<le> or0 (t_review_round row) then []
         else [(t_id row, Job_CHANGES_REQUESTED (review_context env repo n rv))])"
proof -
  have "block_current (t_id row) nt kw (o_db o1) = (Inr None, o_db o1)" for nt kw
    using block_current_state [OF assms, of nt kw] by (simp add: active_states_def audit_stage_states_def)
  moreover obtain r where "find_task (t_id row) (o_db o1) = Some r" "t_state r = AWAITING_REVIEW"
    using assms by (auto simp: select_state_def)
  ultimately show ?thesis
    using assms
    by (simp add: handle_changes_requested_def submit_review_job_def mark_review_processed_def act_simps Let_def
        select_state_def get_last_processed_review_id_def find_task_update_row)
qed

text \<open>An orchestrator with one task awaiting review, and answers of GitHub that are all empty.\<close>

definition demo_review_row :: task_row where
  "demo_review_row = (new_task ''A'' AWAITING_REVIEW 7)\<lparr>t_pr_number := Some 12, t_review_round := Some 3\<rparr>"

definition orch_of :: "task_row list \<Rightarrow> orch" where
  "orch_of rows = \<lparr>o_db = (empty_db 7)\<lparr>db_tasks := rows\<rparr>, o_futures = [], o_review_futures = {}, o_jobs = [],
     o_cascade_ts = Map.empty, o_repo_id_cache = None, o_notified = [], o_merge_calls = []\<rparr>"

definition quiet_env :: github_env where
  "quiet_env = \<lparr>g_run_pr_view = (\<lambda>_ _. None), g_decode_pr = (\<lambda>_. None), g_run_reviews = (\<lambda>_ _ _ _. None),
     g_decode_reviews = (\<lambda>_. None), g_bots = [], g_ls_remote = (\<lambda>_. None), g_bundle_context = (\<lambda>_ _. None),
     g_merge_pr = (\<lambda>_. None), g_notify = (\<lambda>_. True), g_repo_view = None\<rparr>"

theorem review_response_caps_witness:
  "cfg_review_rounds_max demo_config \<le> or0 (t_review_round demo_review_row) \<and>
   (if review_cap demo_config \<le> int (length (o_futures (orch_of [demo_review_row])))
    then handle_changes_requested quiet_env demo_config ''o/r'' 12 demo_review_row (demo_review ''R2'' ''CHANGES_REQUESTED'')
      (orch_of [demo_review_row]) = (Inr (), orch_of [demo_review_row])
    else \<exists>o2. handle_changes_requested quiet_env demo_config ''o/r'' 12 demo_review_row
        (demo_review ''R2'' ''CHANGES_REQUESTED'') (orch_of [demo_review_row]) = (Inr (), o2) \<and>
      select_state (t_id demo_review_row) (o_db o2) = Some AWAITING_REVIEW \<and>
      get_last_processed_review_id (t_id demo_review_row) (o_db o2) =
        str_or_none (Some (rv_review_id (demo_review ''R2'' ''CHANGES_REQUESTED''))) \<and>
      o_jobs o2 = o_jobs (orch_of [demo_review_row]) @
        (if cfg_review_rounds_max demo_config \<le> or0 (t_review_round demo_review_row) then []
         else [(t_id demo_review_row, Job_CHANGES_REQUESTED
           (review_context quiet_env ''o/r'' 12 (demo_review ''R2'' ''CHANGES_REQUESTED'')))]))"
proof -
  have "select_state (t_id demo_review_row) (o_db (orch_of [demo_review_row])) = Some AWAITING_REVIEW" by code_simp
  from review_response_caps [OF this] have "if review_cap demo_config \<le> int (length (o_futures (orch_of [demo_review_row])))
    then handle_changes_requested quiet_env demo_config ''o/r'' 12 demo_review_row (demo_review ''R2'' ''CHANGES_REQUESTED'')
      (orch_of [demo_review_row]) = (Inr (), orch_of [demo_review_row])
    else \<exists>o2. handle_changes_requested quiet_env demo_config ''o/r'' 12 demo_review_row
        (demo_review ''R2'' ''CHANGES_REQUESTED'') (orch_of [demo_review_row]) = (Inr (), o2) \<and>
      select_state (t_id demo_review_row) (o_db o2) = Some AWAITING_REVIEW \<and>
      get_last_processed_review_id (t_id demo_review_row) (o_db o2) =
        str_or_none (Some (rv_review_id (demo_review ''R2'' ''CHANGES_REQUESTED''))) \<and>
      o_jobs o2 = o_jobs (orch_of [demo_review_row]) @
        (if cfg_review_rounds_max demo_config \<le> or0 (t_review_round demo_review_row) then []
         else [(t_id demo_review_row, Job_CHANGES_REQUESTED
           (review_context quiet_env ''o/r'' 12 (demo_review ''R2'' ''CHANGES_REQUESTED'')))])" .
  moreover have "cfg_review_rounds_max demo_config \<le> or0 (t_review_round demo_review_row)" by code_simp
  ultimately show ?thesis by (intro conjI)
qed

text \<open>Actions on the orchestrator that return and move no task.\<close>

definition calm :: "'a orch_act \<Rightarrow> bool" where
  "calm m \<longleftrightarrow> (\<forall>o1. \<exists>a o2. m o1 = (Inr a, o2) \<and> (\<forall>x. select_state x (o_db o2) = select_state x (o_db o1)))"

named_theorems calm_intros \<open>actions on the orchestrator that move no task\<close>

lemma calmD: "calm m \<Longrightarrow> \<exists>a o2. m o1 = (Inr a, o2) \<and> (\<forall>x. select_state x (o_db o2) = select_state x (o_db o1))"
  unfolding calm_def by blast

lemma calm_on_db [calm_intros]: "same_states m \<Longrightarrow> calm (on_db m)"
proof -
  assume m: "same_states m"
  have "\<exists>a o2. on_db m o1 = (Inr a, o2) \<and> (\<forall>x. select_state x (o_db o2) = select_state x (o_db o1))" for o1
  proof -
    obtain a d' where "m (o_db o1) = (Inr a, d')" "\<And>x. select_state x d' = select_state x (o_db o1)"
      using same_statesD [OF m] by blast
    then show ?thesis by (simp add: on_db_run)
  qed
  then show ?thesis by (simp add: calm_def)
qed

lemma calm_return [calm_intros]: "calm (py_return a)" and calm_read [calm_intros]: "calm (py_read f)"
  by (simp_all add: calm_def act_simps)

lemma calm_bind [calm_intros]:
  assumes "calm m" and "\<And>a. calm (k a)"
  shows "calm (py_bind m k)"
  unfolding calm_def
proof
  fix o1
  obtain a o2 where 1: "m o1 = (Inr a, o2)" "\<forall>x. select_state x (o_db o2) = select_state x (o_db o1)"
    using calmD [OF assms(1)] by blast
  obtain b o3 where 2: "k a o2 = (Inr b, o3)" "\<forall>x. select_state x (o_db o3) = select_state x (o_db o2)"
    using calmD [OF assms(2)] by blast
  from 1 2 show "\<exists>a o2. py_bind m k o1 = (Inr a, o2) \<and> (\<forall>x. select_state x (o_db o2) = select_state x (o_db o1))"
    by (simp add: py_bind_run)
qed

lemma calm_then [calm_intros]: "calm m \<Longrightarrow> calm k \<Longrightarrow> calm (py_then m k)"
  unfolding py_then_def by (rule calm_bind)

lemma calm_if [calm_intros]: "calm m \<Longrightarrow> calm k \<Longrightarrow> calm (if b then m else k)"
  by simp

lemma calm_for [calm_intros]: "(\<And>x. calm (f x)) \<Longrightarrow> calm (py_for xs f)"
  by (induction xs) (auto intro!: calm_intros)

text \<open>
  A closed pull request. Unless its parent's merge closed it, a PR that was closed without merging aborts a task in
  PENDING_CI or AWAITING_REVIEW; for a task in any other state the handler raises InvalidTransition with nothing
  changed. The poll visits BLOCKED tasks that have a PR, so this exception is reachable.
\<close>

theorem closed_pr_outcome:
  assumes "select_state (t_id row) (o_db o1) = Some s" and "pr_state st = ''CLOSED''"
    and "\<not> closed_pr_needs_rebase env cfg (t_id row) (pr_base_ref_name st) (o_db o1)"
  shows "if s \<in> {PENDING_CI, AWAITING_REVIEW}
    then \<exists>o2. handle_terminal_pr_status env cfg row st now o1 = (Inr True, o2) \<and>
      select_state (t_id row) (o_db o2) = Some ABORTED
    else \<exists>msg. handle_terminal_pr_status env cfg row st now o1 = (Inl (InvalidTransition msg), o1)"
proof -
  let ?tid = "t_id row" and ?rest = "py_then (stamp_poll (t_id row) now)
      (py_then (clear_stranded_children (the_or (t_branch row) [])) (py_return True))"
  have closed: "pr_closed ?tid (Some ''closed without merge'') [] (o_db o1) =
      (case target_of s Ev_PR_CLOSED of
         None \<Rightarrow> (Inl (InvalidTransition (''event '' @ py_repr (event_value Ev_PR_CLOSED) @
                  '' is not valid from state '' @ py_repr (state_value s))), o_db o1)
       | Some t \<Rightarrow> (Inr t, snd (transition ?tid t (note_or (Some ''closed without merge'') (event_value Ev_PR_CLOSED)) []
           (o_db o1))))"
    by (simp add: pr_closed_def apply_event_run [OF assms(1)])
  have target: "target_of s Ev_PR_CLOSED = (if s \<in> {PENDING_CI, AWAITING_REVIEW} then Some ABORTED else None)"
    by (rule state_check [of _ s]) code_simp
  show ?thesis
  proof (cases "s \<in> {PENDING_CI, AWAITING_REVIEW}")
    case False
    then show ?thesis
      using assms closed target by (simp add: handle_terminal_pr_status_def handle_closed_pr_def act_simps Let_def)
  next
    case True
    let ?d = "snd (transition ?tid ABORTED (note_or (Some ''closed without merge'') (event_value Ev_PR_CLOSED)) [] (o_db o1))"
    have sel: "select_state ?tid ?d = Some ABORTED" using assms(1) by (simp add: select_state_transition)
    have "calm ?rest"
      unfolding stamp_poll_def clear_stranded_children_def by (intro calm_intros same_intros)
    moreover have yields: "yields (\<lambda>b. b) ?rest" by (intro then_yields yields_return) simp
    ultimately obtain o2 where o2: "?rest (o1\<lparr>o_db := ?d\<rparr>) = (Inr True, o2)" "select_state ?tid (o_db o2) = Some ABORTED"
      using calmD [of ?rest "o1\<lparr>o_db := ?d\<rparr>"] sel yieldsD [OF yields] by fastforce
    have "handle_terminal_pr_status env cfg row st now o1 = ?rest (o1\<lparr>o_db := ?d\<rparr>)"
      using True assms(2,3) closed target
      by (simp add: handle_terminal_pr_status_def handle_closed_pr_def py_then_run [of "on_db _"] py_bind_run [of "py_read _"]
          py_read_run on_db_run Let_def)
    with o2 True show ?thesis by auto
  qed
qed

definition demo_closed :: pr_status where
  "demo_closed = status_of_json 12 (empty_json\<lparr>j_state := Some ''CLOSED''\<rparr>)"

definition demo_blocked_row :: task_row where
  "demo_blocked_row = demo_review_row\<lparr>t_state := BLOCKED\<rparr>"

theorem closed_pr_outcome_witness:
  "map t_id (tasks_needing_review_poll 7 (o_db (orch_of [demo_blocked_row]))) = [''A''] \<and>
   (if BLOCKED \<in> {PENDING_CI, AWAITING_REVIEW}
    then \<exists>o2. handle_terminal_pr_status quiet_env demo_config demo_blocked_row demo_closed 7
        (orch_of [demo_blocked_row]) = (Inr True, o2) \<and>
      select_state (t_id demo_blocked_row) (o_db o2) = Some ABORTED
    else \<exists>msg. handle_terminal_pr_status quiet_env demo_config demo_blocked_row demo_closed 7
        (orch_of [demo_blocked_row]) = (Inl (InvalidTransition msg), orch_of [demo_blocked_row]))"
  by (rule conjI [OF _ closed_pr_outcome]) code_simp+

text \<open>When a task has waited for review long enough and its wait has not been announced.\<close>

definition notice_due :: "config \<Rightarrow> ident \<Rightarrow> db \<Rightarrow> bool" where
  "notice_due cfg tid d \<longleftrightarrow>
     strip (cfg_notify_ntfy_topic cfg) \<noteq> [] \<and>
     (\<exists>entered. most_recent_awaiting_review_entry_ts tid d = Some entered \<and>
        cfg_review_ready_settle_s cfg \<le> clock d - entered \<and>
        (\<forall>l. get_last_review_ready_notified_ts tid d = Some l \<longrightarrow> l < entered))"

lemma notify_waits: "\<not> notice_due cfg (t_id row) (o_db o1) \<Longrightarrow> maybe_notify_review_ready env cfg titles row o1 = (Inr (), o1)"
  by (auto simp: maybe_notify_review_ready_def notice_due_def act_simps Let_def not_less not_le split: option.splits)

lemma notify_sends:
  assumes "notice_due cfg (t_id row) (o_db o1)" and "\<And>msg. g_notify env msg"
  shows "\<exists>msg. maybe_notify_review_ready env cfg titles row o1 =
    (Inr (), o1\<lparr>o_notified := o_notified o1 @ [msg],
      o_db := update_row (t_id row) (\<lambda>r. r\<lparr>t_last_notified_settled_ts := Some (clock (o_db o1))\<rparr>) (o_db o1)\<rparr>)"
  using assms
  by (auto simp: maybe_notify_review_ready_def notice_due_def act_simps Let_def not_less not_le
      set_last_review_ready_notified_ts_def split: option.splits)

text \<open>
  One notification per wait. The check sends one message when the wait is due and none otherwise; once the server
  took the message, the wait is not due any more at any later time, until the task enters AWAITING_REVIEW again.
\<close>

theorem notified_once:
  assumes "0 \<le> cfg_review_ready_settle_s cfg" and "\<And>msg. g_notify env msg"
    and "find_task (t_id row) (o_db o1) \<noteq> None"
  shows "\<exists>o2. maybe_notify_review_ready env cfg titles row o1 = (Inr (), o2) \<and>
    length (o_notified o2) = length (o_notified o1) + (if notice_due cfg (t_id row) (o_db o1) then 1 else 0) \<and>
    (notice_due cfg (t_id row) (o_db o1) \<longrightarrow>
       (\<forall>now. \<not> notice_due cfg (t_id row) ((o_db o2)\<lparr>clock := now\<rparr>)))"
proof (cases "notice_due cfg (t_id row) (o_db o1)")
  case False
  with notify_waits [OF this] show ?thesis by auto
next
  case True
  let ?d = "update_row (t_id row) (\<lambda>r. r\<lparr>t_last_notified_settled_ts := Some (clock (o_db o1))\<rparr>) (o_db o1)"
  from True obtain entered where e: "most_recent_awaiting_review_entry_ts (t_id row) (o_db o1) = Some entered"
    "cfg_review_ready_settle_s cfg \<le> clock (o_db o1) - entered" by (auto simp: notice_due_def)
  have "most_recent_awaiting_review_entry_ts (t_id row) (?d\<lparr>clock := now\<rparr>) = Some entered" for now
    using e(1) by (simp add: most_recent_awaiting_review_entry_ts_def last_entry_ts_def task_log_def update_row_def)
  moreover have "get_last_review_ready_notified_ts (t_id row) (?d\<lparr>clock := now\<rparr>) = Some (clock (o_db o1))" for now
    using assms(3) by (auto simp: get_last_review_ready_notified_ts_def find_task_def update_row_def
        find_map_key_update)
  ultimately have "\<not> notice_due cfg (t_id row) (?d\<lparr>clock := now\<rparr>)" for now
    using e(2) assms(1) by (auto simp: notice_due_def)
  with True notify_sends [OF True assms(2), of titles] show ?thesis by auto
qed

definition demo_waiting :: orch where
  "demo_waiting = (orch_of [demo_review_row])\<lparr>o_db := (o_db (orch_of [demo_review_row]))
     \<lparr>db_log := [\<lparr>l_task_id = ''A'', l_from_state = Some PENDING_CI, l_to_state = AWAITING_REVIEW, l_note = None,
                  l_ts = 7\<rparr>], clock := 4000\<rparr>\<rparr>"

theorem notified_once_witness:
  "most_recent_awaiting_review_entry_ts ''A'' (o_db demo_waiting) = Some 7 \<and>
   (\<exists>o2. maybe_notify_review_ready quiet_env demo_config Map.empty demo_review_row demo_waiting = (Inr (), o2) \<and>
    length (o_notified o2) = length (o_notified demo_waiting) +
      (if notice_due demo_config (t_id demo_review_row) (o_db demo_waiting) then 1 else 0) \<and>
    (notice_due demo_config (t_id demo_review_row) (o_db demo_waiting) \<longrightarrow>
       (\<forall>now. \<not> notice_due demo_config (t_id demo_review_row) ((o_db o2)\<lparr>clock := now\<rparr>))))"
proof (intro conjI notified_once)
  show "most_recent_awaiting_review_entry_ts ''A'' (o_db demo_waiting) = Some 7" by code_simp
  show "0 \<le> cfg_review_ready_settle_s demo_config" by (simp add: demo_config_def)
  show "g_notify quiet_env msg" for msg by (simp add: quiet_env_def)
  show "find_task (t_id demo_review_row) (o_db demo_waiting) \<noteq> None" by code_simp
qed

theorem merged_pr_recorded_witness:
  "\<exists>r o2. handle_terminal_pr_status quiet_env demo_config demo_review_row
      (status_of_json 12 (empty_json\<lparr>j_state := Some ''MERGED''\<rparr>)) 7 (orch_of [demo_review_row]) = (r, o2) \<and>
    select_state (t_id demo_review_row) (o_db o2) = Some MERGED \<and> (\<forall>b. r = Inr b \<longrightarrow> b)"
proof (rule merged_pr_recorded)
  show "select_state (t_id demo_review_row) (o_db (orch_of [demo_review_row])) = Some AWAITING_REVIEW" by code_simp
  show "mergeable AWAITING_REVIEW" by code_simp
  show "pr_state (status_of_json 12 (empty_json\<lparr>j_state := Some ''MERGED''\<rparr>)) = ''MERGED''" by code_simp
qed

end
