(* ===== verification/Supervision.thy ===== *)
theory Supervision
  imports RebaseWatch
begin

text \<open>
  \<^verbatim>\<open>quikode/orchestration/supervision.py\<close>: container samples, the stall detector and the heartbeat. The
  answers of docker and of the file system are the record \<open>host_env\<close>.
\<close>

section \<open>Container samples\<close>

record container_info =
  ci_id :: string
  ci_name :: string

record container_sample =
  sm_cpu_pct :: "int option"
  sm_mem_bytes :: "int option"
  sm_mem_pct :: "int option"

record host_env =
  h_containers :: "container_info list"
  h_sample :: "string \<Rightarrow> container_sample option"
  h_worktree_mtime :: "string \<Rightarrow> time option"

definition sampled_states :: "state list" where
  "sampled_states =
     [PROVISIONING, PLANNING, DOING_SUBTASK, CHECKING_SUBTASK, TRIAGING_SUBTASK, COMMITTING, PUSHING,
      PR_OPENING]"

definition dev_container_of :: "host_env \<Rightarrow> string \<Rightarrow> container_info option" where
  "dev_container_of env cid =
     List.find (\<lambda>c. ends_with ''-dev'' (ci_name c) \<and> starts_with (take 12 cid) (ci_id c)) (h_containers env)"

definition sample_row :: "host_env \<Rightarrow> task_row \<Rightarrow> unit store_act" where
  "sample_row env row =
     (case str_or_none (t_container_id row) of
        None \<Rightarrow> py_return ()
      | Some cid \<Rightarrow>
          (case dev_container_of env cid of
             None \<Rightarrow> py_return ()
           | Some c \<Rightarrow>
               (case h_sample env (ci_name c) of
                  None \<Rightarrow> py_return ()
                | Some s \<Rightarrow>
                    record_container_stats (t_id row) (ci_name c) (sm_cpu_pct s) (sm_mem_bytes s)
                      (sm_mem_pct s))))"

definition sample_container_stats :: "host_env \<Rightarrow> unit store_act" where
  "sample_container_stats env =
     py_bind (py_read (in_state sampled_states)) (\<lambda>rows.
       py_then (py_for rows (sample_row env)) (py_return ()))"

definition sample_stats_if_due :: "host_env \<Rightarrow> config \<Rightarrow> time \<Rightarrow> time store_act" where
  "sample_stats_if_due env cfg last_sample =
     py_bind (py_read clock) (\<lambda>now.
       if cfg_container_stats_sample_seconds cfg \<le> now - last_sample
       then py_then (sample_container_stats env) (py_return now)
       else py_return last_sample)"

section \<open>Quiet worktrees\<close>

text \<open>The \<^verbatim>\<open>warned\<close> dictionary after one row; a logged warning is an entry with the current time.\<close>

definition warn_row :: "host_env \<Rightarrow> time \<Rightarrow> time \<Rightarrow> task_row \<Rightarrow> (ident \<rightharpoonup> time) \<Rightarrow> (ident \<rightharpoonup> time)" where
  "warn_row env threshold now row warned =
     (case str_or_none (t_worktree_path row) of
        None \<Rightarrow> warned
      | Some wt \<Rightarrow>
          (case h_worktree_mtime env wt of
             None \<Rightarrow> warned
           | Some mt \<Rightarrow>
               if now - mt < threshold then warned(t_id row := None)
               else if now - (case warned (t_id row) of None \<Rightarrow> 0 | Some t \<Rightarrow> t) < threshold then warned
               else warned(t_id row \<mapsto> now)))"

definition warn_quiet_worktrees ::
  "host_env \<Rightarrow> time \<Rightarrow> db \<Rightarrow> (ident \<rightharpoonup> time) \<Rightarrow> (ident \<rightharpoonup> time)" where
  "warn_quiet_worktrees env threshold d warned =
     fold (warn_row env threshold (clock d)) (in_state [DOING_SUBTASK] d) warned"

section \<open>Stalled review responses\<close>

definition review_stuck_states :: "state list" where
  "review_stuck_states =
     [AUDIT_LOCAL_CI, AUDIT_RUBRIC, AUDIT_STANDARDS, AUDIT_ARCHITECTURE, AUDIT_BEHAVIOR, FIXUP_PLANNING]"

text \<open>\<^verbatim>\<open>SELECT MAX(ts) FROM agent_calls\<close> and \<^verbatim>\<open>FROM state_log\<close>; no row and 0 read as 0.\<close>

definition silence_start :: "ident \<Rightarrow> db \<Rightarrow> time" where
  "silence_start tid d =
     (let last_ts = or0 (max_option (map a_ts (filter (\<lambda>a. a_task_id a = tid) (db_agent_calls d))));
          entered_ts = or0 (max_option (map l_ts (filter (\<lambda>l. l_task_id l = tid \<and>
                              l_to_state l = AUDIT_LOCAL_CI) (db_log d))))
      in max entered_ts last_ts)"

definition stall_note :: "time \<Rightarrow> string" where
  "stall_note silence =
     ''orchestrator force-recovery: audit-stage stalled '' @ str_int (silence div 60) @
     ''min, slot freed for re-dispatch''"

definition recover_stalled :: "time \<Rightarrow> time \<Rightarrow> ident \<Rightarrow> unit orch_act" where
  "recover_stalled threshold now tid =
     py_bind (py_read (\<lambda>o'. (select_state tid (o_db o'), now - silence_start tid (o_db o')))) (\<lambda>(st, silence).
       case st of
         None \<Rightarrow> py_return ()
       | Some s \<Rightarrow>
           if s \<notin> set review_stuck_states then py_return ()
           else if silence < threshold then py_return ()
           else
             py_then
               (py_modify (\<lambda>o'. o'\<lparr>o_futures := filter (\<lambda>x. x \<noteq> tid) (o_futures o'),
                                 o_review_futures := o_review_futures o' - {tid}\<rparr>))
               (py_then (on_db (force_recover_to_pending_ci tid (Some (stall_note silence)) []))
                  (py_return ())))"

text \<open>
  \<open>order\<close> is the order in which \<^verbatim>\<open>list(review_response_futures)\<close> enumerates the set. The value is the
  \<^verbatim>\<open>warned\<close> dictionary the caller keeps.
\<close>

definition check_stalls ::
  "host_env \<Rightarrow> config \<Rightarrow> ident list \<Rightarrow> (ident \<rightharpoonup> time) \<Rightarrow> (ident \<rightharpoonup> time) orch_act" where
  "check_stalls env cfg order warned =
     (if cfg_stall_warn_seconds cfg \<le> 0 then py_return warned
      else py_bind (py_read (\<lambda>o'. (clock (o_db o'),
             warn_quiet_worktrees env (cfg_stall_warn_seconds cfg) (o_db o') warned))) (\<lambda>(now, warned').
        py_then (py_for order (recover_stalled (cfg_stall_warn_seconds cfg) now)) (py_return warned')))"

section \<open>Heartbeat\<close>

record heartbeat =
  hb_ts :: time
  hb_in_flight :: nat
  hb_pending_ci :: nat
  hb_audit_in_flight :: nat
  hb_audit_futures :: nat
  hb_max_parallel :: int

definition write_heartbeat :: "config \<Rightarrow> nat \<Rightarrow> nat \<Rightarrow> db \<Rightarrow> heartbeat" where
  "write_heartbeat cfg in_flight audit_futures d =
     \<lparr>hb_ts = clock d, hb_in_flight = in_flight, hb_pending_ci = length (in_state [PENDING_CI] d),
      hb_audit_in_flight = length (in_state [AUDIT_LOCAL_CI, AUDIT_RUBRIC, AUDIT_STANDARDS,
        AUDIT_ARCHITECTURE, AUDIT_BEHAVIOR, FIXUP_PLANNING] d),
      hb_audit_futures = audit_futures, hb_max_parallel = cfg_max_parallel cfg\<rparr>"

section \<open>What recovery does\<close>

lemma keeps_sampling [keeps_intros]:
  "keeps store_ok (sample_container_stats env)" "keeps store_ok (sample_stats_if_due env cfg t)"
  unfolding sample_stats_if_due_def sample_container_stats_def sample_row_def
  by (intro keeps_intros)+

lemma stuck_states: "s \<in> set review_stuck_states \<longleftrightarrow> s \<in> set (FIXUP_PLANNING # audit_stage_states)"
  by (rule state_check [of _ s]) code_simp

lemma recover_stalled_run:
  assumes "select_state tid (o_db o1) = Some s" and "s \<in> set review_stuck_states"
    and "threshold \<le> now - silence_start tid (o_db o1)"
  shows "recover_stalled threshold now tid o1 = (Inr (),
    o1\<lparr>o_db := snd (force_recover_to_pending_ci tid
                 (Some (stall_note (now - silence_start tid (o_db o1)))) [] (o_db o1)),
       o_futures := filter (\<lambda>x. x \<noteq> tid) (o_futures o1),
       o_review_futures := o_review_futures o1 - {tid}\<rparr>)"
  using assms by (simp add: recover_stalled_def act_simps force_recover_run split: prod.splits)

lemma recover_stalled_waits:
  assumes "\<not> (\<exists>s. select_state tid (o_db o1) = Some s \<and> s \<in> set review_stuck_states) \<or>
    now - silence_start tid (o_db o1) < threshold"
  shows "recover_stalled threshold now tid o1 = (Inr (), o1)"
  using assms by (auto simp: recover_stalled_def act_simps split: option.splits)

lemma keeps_recover_stalled [keeps_intros]: "keeps orch_ok (recover_stalled threshold now tid)"
proof (rule keepsI)
  fix o1 assume ok: "orch_ok o1"
  show "orch_ok (snd (recover_stalled threshold now tid o1))"
  proof (cases "(\<exists>s. select_state tid (o_db o1) = Some s \<and> s \<in> set review_stuck_states) \<and>
      threshold \<le> now - silence_start tid (o_db o1)")
    case False
    then have "recover_stalled threshold now tid o1 = (Inr (), o1)"
      by (intro recover_stalled_waits) auto
    with ok show ?thesis by simp
  next
    case True
    then obtain s where s: "select_state tid (o_db o1) = Some s" "s \<in> set review_stuck_states"
      "threshold \<le> now - silence_start tid (o_db o1)" by blast
    then have "s \<in> set (FIXUP_PLANNING # audit_stage_states)" by (simp only: stuck_states)
    with ok s store_ok_force_recover [of "o_db o1" tid s] show ?thesis
      by (simp add: recover_stalled_run [OF s] orch_ok_def)
  qed
qed

lemma keeps_check_stalls [keeps_intros]: "keeps orch_ok (check_stalls env cfg order warned)"
  unfolding check_stalls_def by (auto intro!: keeps_intros split: prod.splits)

section \<open>Properties\<close>

text \<open>
  A stalled review response is recovered. A task silent for the threshold in an audit stage leaves both future
  tables and is back in PENDING_CI, where the poll can dispatch it again; the other tasks stay where they are.
\<close>

theorem stalled_slot_freed:
  assumes "select_state tid (o_db o1) = Some s" and "s \<in> set review_stuck_states"
    and "threshold \<le> now - silence_start tid (o_db o1)"
  shows "\<exists>o2. recover_stalled threshold now tid o1 = (Inr (), o2) \<and> select_state tid (o_db o2) = Some PENDING_CI \<and>
    tid \<notin> set (o_futures o2) \<and> tid \<notin> o_review_futures o2 \<and>
    (\<forall>x. x \<noteq> tid \<longrightarrow> select_state x (o_db o2) = select_state x (o_db o1) \<and>
       (x \<in> set (o_futures o2) \<longleftrightarrow> x \<in> set (o_futures o1)))"
proof -
  let ?d = "snd (force_recover_to_pending_ci tid
    (Some (stall_note (now - silence_start tid (o_db o1)))) [] (o_db o1))"
  have "select_state x ?d = (if x = tid then Some PENDING_CI else select_state x (o_db o1))" for x
    using assms(1) by (simp add: force_recover_run act_simps select_state_transition)
  then show ?thesis by (simp add: recover_stalled_run [OF assms])
qed


definition demo_stalled :: orch where
  "demo_stalled = \<lparr>o_db = (empty_db 7)\<lparr>db_tasks := [new_task ''A'' AUDIT_RUBRIC 0]\<rparr>, o_futures = [''A''],
     o_review_futures = {''A''}, o_jobs = [], o_cascade_ts = Map.empty, o_repo_id_cache = None,
     o_notified = [], o_merge_calls = []\<rparr>"

theorem stalled_slot_freed_witness:
  "\<exists>o2. recover_stalled 1800 3600 ''A'' demo_stalled = (Inr (), o2) \<and>
    select_state ''A'' (o_db o2) = Some PENDING_CI \<and> ''A'' \<notin> set (o_futures o2) \<and> ''A'' \<notin> o_review_futures o2 \<and>
    (\<forall>x. x \<noteq> ''A'' \<longrightarrow> select_state x (o_db o2) = select_state x (o_db demo_stalled) \<and>
       (x \<in> set (o_futures o2) \<longleftrightarrow> x \<in> set (o_futures demo_stalled)))"
proof -
  have "select_state ''A'' (o_db demo_stalled) = Some AUDIT_RUBRIC" by code_simp
  moreover have "AUDIT_RUBRIC \<in> set review_stuck_states" by (simp add: review_stuck_states_def)
  moreover have "1800 \<le> 3600 - silence_start ''A'' (o_db demo_stalled)" by code_simp
  ultimately show ?thesis by (rule stalled_slot_freed)
qed

end
