(* ===== verification/Orchestrator.thy ===== *)
theory Orchestrator
  imports ReviewWatch Supervision
begin

text \<open>
  The loop of \<^verbatim>\<open>Orchestrator.run\<close> (\<^verbatim>\<open>quikode/orchestration/runner.py\<close>) as one step over the record
  \<open>orch\<close>, and the system around it: between the calls of the loop, worker threads and CLI commands
  call the store. \<open>system\<close> is the set of orchestrator states such a history can reach.
\<close>

section \<open>One turn of the loop\<close>

text \<open>\<^verbatim>\<open>futures[nxt] = pool.submit(self._run_one, nxt)\<close> for every task the scheduler picked.\<close>

definition schedule_ready :: "(string \<Rightarrow> string) \<Rightarrow> config \<Rightarrow> dag \<Rightarrow> ident set \<Rightarrow> unit orch_act" where
  "schedule_ready hexdigest cfg g scope =
     py_bind (py_read o_futures) (\<lambda>fs.
     py_bind (on_db (schedule_ready_tasks (nat (cfg_max_parallel cfg) - length fs) hexdigest cfg g scope fs)) (\<lambda>fs'.
       py_modify (\<lambda>o'. o'\<lparr>o_futures := fs',
                         o_jobs := o_jobs o' @ map (\<lambda>tid. (tid, Job_RUN)) (drop (length fs) fs')\<rparr>)))"

definition reap_finished :: "(ident \<times> state option) list \<Rightarrow> unit orch_act" where
  "reap_finished outcomes =
     py_bind (py_read (\<lambda>o'. (o_futures o', o_review_futures o'))) (\<lambda>(fs, rfs).
     py_bind (on_db (reap_finished_tasks outcomes fs rfs)) (\<lambda>(fs', rfs').
       py_modify (\<lambda>o'. o'\<lparr>o_futures := fs', o_review_futures := rfs'\<rparr>)))"

text \<open>The local variables of \<^verbatim>\<open>run\<close>.\<close>

record loop_vars =
  lp_warned :: "ident \<rightharpoonup> time"
  lp_last_stats_sample :: time
  lp_previously_merged :: "ident set"

text \<open>
  The body of the \<^verbatim>\<open>while\<close> loop; the result says whether \<^verbatim>\<open>run\<close> returns. \<open>order\<close> enumerates the review
  futures and \<open>outcomes\<close> are the futures that are done when the turn reaps them.
\<close>

definition loop_turn ::
  "github_env \<Rightarrow> host_env \<Rightarrow> (string \<Rightarrow> string) \<Rightarrow> config \<Rightarrow> dag \<Rightarrow> (ident \<rightharpoonup> string) \<Rightarrow> ident set \<Rightarrow>
   ident list \<Rightarrow> (ident \<times> state option) list \<Rightarrow> loop_vars \<Rightarrow> (bool \<times> loop_vars) orch_act" where
  "loop_turn genv henv hexdigest cfg g titles scope order outcomes lp =
     py_bind (check_stalls henv cfg order (lp_warned lp)) (\<lambda>warned.
     py_bind (on_db (sample_stats_if_due henv cfg (lp_last_stats_sample lp))) (\<lambda>sampled.
     py_then (poll_review_threads genv cfg titles)
    (py_bind (on_db (flag_external_merges scope (lp_previously_merged lp))) (\<lambda>current_merged.
     py_then (schedule_ready hexdigest cfg g scope)
    (py_bind (py_read (\<lambda>o'. (o_futures o', all_done scope (o_db o')))) (\<lambda>(fs, finished).
       let lp' = \<lparr>lp_warned = warned, lp_last_stats_sample = sampled,
                  lp_previously_merged = current_merged\<rparr>
       in if fs = [] then py_return (finished, lp')
          else py_then (reap_finished outcomes) (py_return (False, lp'))))))))"

section \<open>The calls other threads make\<close>

abbreviation after :: "'a store_act \<Rightarrow> db \<Rightarrow> db" where
  "after m \<equiv> \<lambda>d. snd (m d)"

definition fsm_helpers :: "helper list" where
  "fsm_helpers =
     [enter_doing_subtask, enter_checking_subtask, enter_triaging_subtask, enter_committing, enter_pushing,
      enter_local_ci_checking, audit_local_ci_passed, audit_local_ci_failed, enter_audit_rubric,
      audit_rubric_passed, audit_rubric_failed, enter_audit_standards, audit_standards_passed,
      audit_standards_failed, enter_audit_architecture, audit_architecture_passed,
      audit_architecture_failed, enter_audit_behavior, audit_behavior_passed, audit_behavior_failed,
      enter_fixup_planning, enter_pr_opening, enter_pending_ci, enter_awaiting_review,
      enter_audit_cycle_for_ci_fixup, enter_audit_cycle_for_review_fixup, mark_merged,
      enter_rebasing_to_main, enter_conflict_resolving, block_current]"

inductive store_call :: "(db \<Rightarrow> db) \<Rightarrow> bool" where
  "store_call (after (upsert_pending tid))"
| "store_call (after (apply_event tid ev n kw))"
| "h \<in> set fsm_helpers \<Longrightarrow> store_call (after (h tid n kw))"
| "store_call (after (enter_audit_local_ci tid ev n kw))"
| "store_call (after (seed_merged_node tid source evidence at))"
| "store_call (after (enter_phase tid ph c tr n))"
| "store_call (after (increment_cycle_in_phase tid tr' n))"
| "store_call (after (record_agent_call_started tid ph cli tier sub))"
| "store_call (after (record_agent_call_finished cid rc dur i1 i2 i3 i4 i5 i6))"
| "store_call (after (update_agent_call_status cid st))"
| "store_call (after (set_field tid kw))"
| "store_call (after (reset_field tid fld))"
| "store_call (after (increment tid ctr))"
| "store_call (after (set_last_observed_branch_tip_sha tid sha))"
| "store_call (after (set_parent_merge_base tid mb sh))"
| "store_call (after (append_retry_reason tid sid k cat sig tra))"
| "store_call (after (record_progress_check tid sid k v rat))"
| "store_call (after (add_artifact tid knd pth pin))"
| "store_call (after (upsert_subtasks tid specs cyc src))"
| "store_call (after (append_subtasks tid specs cyc' src))"
| "store_call (after (update_subtask tid sid skw))"
| "store_call (after repair_stale_skipped_subtasks)"
| "store_call (after (reset_subtask_for_rewind tid sid))"
| "store_call (after (increment_subtask_retries tid sid))"
| "store_call (after (delete_subtasks_in_cycle tid k))"
| "store_call (after (begin_pre_pr_audit_cycle tid k))"
| "store_call (after (update_pre_pr_audit_stage tid k stg ok stt))"
| "store_call (after (create_merge_node tid ids brs br))"
| "store_call (after (lookup_or_create_merge_node hexdigest ids brs))"
| "store_call (after (set_parent_chain tid ids brs' brs''))"
| "store_call (after (propagate_parent_merged tid))"
| "store_call (after (propagate_parent_advanced tid))"
| "store_call (after recover_orphan_tasks)"
| "store_call (after (mark_review_processed tid rid))"
| "store_call (after (clear_parent_branch tid))"
| "store_call (after (mark_needs_parent_rebase tid))"
| "store_call (after (clear_needs_parent_rebase tid))"
| "store_call (after (increment_review_round tid))"
| "store_call (after (set_block_forensics tid snap))"
| "store_call (after (increment_subtask_pre_commit_failures tid sid))"
| "store_call (after (increment_subtask_flatline_count tid sid))"
| "store_call (after (reset_subtask_flatline_count tid sid))"
| "store_call (after (increment_subtask_transient_retries tid sid))"
| "store_call (after (record_agent_call tid ph cli sub rc dur i1 tier i2 i3 i4 i5 i6))"
| "store_call (after (record_container_stats tid nm i1 i2 i3))"
| "store_call (after (mark_needs_intent_review ids))"
| "store_call (after (clear_intent_review_flag tid))"
| "store_call (after (record_intent_review tid s1 s2 s3 s4 s5 s6 s7))"
| "store_call (after (upsert_review_thread tid thr res seen s1 by_bot))"
| "store_call (after (mark_thread_addressed tid thr s4))"
| "store_call (after (set_pre_rebase_state tid s4))"
| "store_call (after (set_last_rebase_scheduled tid ts))"
| "store_call (after (set_last_review_ready_notified_ts tid ts))"
| "store_call (after (prune_merge_node_parent mn tid))"

text \<open>
  What \<^verbatim>\<open>run\<close> starts from: no futures, no cascade walks, no cached repository, and a row for every node of the
  scope.
\<close>

definition fresh_orch :: "db \<Rightarrow> orch" where
  "fresh_orch d = \<lparr>o_db = d, o_futures = [], o_review_futures = {}, o_jobs = [], o_cascade_ts = Map.empty,
     o_repo_id_cache = None, o_notified = [], o_merge_calls = []\<rparr>"

definition run_entry :: "ident set \<Rightarrow> db \<Rightarrow> orch" where
  "run_entry scope d = fresh_orch (snd (register_scope scope d))"

text \<open>
  \<open>start\<close> and \<open>restart\<close> are a process that enters \<^verbatim>\<open>run\<close> on a new or an existing database, \<open>turn\<close> is a turn of its
  loop, \<open>call\<close> a store call of another thread or of a CLI command, \<open>tick\<close> the clock.
\<close>

inductive system ::
  "github_env \<Rightarrow> host_env \<Rightarrow> (string \<Rightarrow> string) \<Rightarrow> config \<Rightarrow> dag \<Rightarrow> (ident \<rightharpoonup> string) \<Rightarrow> ident set \<Rightarrow> orch \<Rightarrow> bool"
  for genv henv hexdigest cfg g titles scope where
  start: "system genv henv hexdigest cfg g titles scope (run_entry scope (empty_db now))"
| turn: "system genv henv hexdigest cfg g titles scope o1 \<Longrightarrow>
    system genv henv hexdigest cfg g titles scope
      (snd (loop_turn genv henv hexdigest cfg g titles scope order outcomes lp o1))"
| call: "system genv henv hexdigest cfg g titles scope o1 \<Longrightarrow> store_call f \<Longrightarrow>
    system genv henv hexdigest cfg g titles scope (o1\<lparr>o_db := f (o_db o1)\<rparr>)"
| tick: "system genv henv hexdigest cfg g titles scope o1 \<Longrightarrow> clock (o_db o1) \<le> now \<Longrightarrow>
    system genv henv hexdigest cfg g titles scope (o1\<lparr>o_db := (o_db o1)\<lparr>clock := now\<rparr>\<rparr>)"
| restart: "system genv henv hexdigest cfg g titles scope o1 \<Longrightarrow>
    system genv henv hexdigest cfg g titles scope (run_entry scope (o_db o1))"

section \<open>Every history is lawful\<close>

lemmas helper_histories =
  to_doing.keeps_history to_checking.keeps_history to_triaging.keeps_history to_committing.keeps_history
  to_pushing.keeps_history to_local_ci.keeps_history local_ci_passed.keeps_history
  local_ci_failed.keeps_history rubric_passed.keeps_history rubric_failed.keeps_history
  standards_passed.keeps_history standards_failed.keeps_history architecture_passed.keeps_history
  architecture_failed.keeps_history behavior_passed.keeps_history behavior_failed.keeps_history
  to_fixup.keeps_history to_pr_opening.keeps_history to_pending_ci.keeps_history
  to_awaiting.keeps_history to_ci_fixup.keeps_history to_review_fixup.keeps_history
  to_rebasing.keeps_history to_conflict.keeps_history to_blocked.keeps_history keeps_mark_merged

lemma fsm_helpers_keep: "h \<in> set fsm_helpers \<Longrightarrow> keeps store_ok (h tid n kw)"
  by (auto simp: fsm_helpers_def enter_audit_rubric_def enter_audit_standards_def
      enter_audit_architecture_def enter_audit_behavior_def helper_histories)

lemma keeps_audit_entry [keeps_intros]: "keeps store_ok (enter_audit_local_ci tid ev n kw)"
  unfolding enter_audit_local_ci_def Let_def by (intro keeps_intros)

lemma store_call_ok:
  assumes "store_call f" and "store_ok d"
  shows "store_ok (f d)"
  using assms(1)
  by cases (auto intro!: keepsD [where P = store_ok, OF _ assms(2)] keeps_intros fsm_helpers_keep)

lemma keeps_register [keeps_intros]: "keeps store_ok (register_scope scope)"
  unfolding register_scope_def by (intro keeps_intros)

lemma keeps_flag_merges [keeps_intros]: "keeps store_ok (flag_external_merges scope prev)"
  unfolding flag_external_merges_def Let_def by (intro keeps_intros)

lemma keeps_schedule_ready [keeps_intros]: "keeps orch_ok (schedule_ready hexdigest cfg g scope)"
  unfolding schedule_ready_def by (intro keeps_intros keeps_modify) (simp add: orch_ok_def)

lemma keeps_reap_finished [keeps_intros]: "keeps orch_ok (reap_finished outcomes)"
  unfolding reap_finished_def by (auto intro!: keeps_intros keeps_modify simp: orch_ok_def split: prod.splits)

lemma keeps_turn [keeps_intros]:
  "keeps orch_ok (loop_turn genv henv hexdigest cfg g titles scope order outcomes lp)"
  unfolding loop_turn_def Let_def by (auto intro!: keeps_intros split: prod.splits)

lemma store_ok_clock: "store_ok (d\<lparr>clock := now\<rparr>) \<longleftrightarrow> store_ok d"
  by (rule store_ok_cong) simp_all

lemma system_ok:
  assumes "system genv henv hexdigest cfg g titles scope o1"
  shows "store_ok (o_db o1)"
  using assms
proof induction
  case (start now)
  then show ?case using keepsD [OF keeps_register store_ok_empty] by (simp add: run_entry_def fresh_orch_def)
next
  case (turn o1 order outcomes lp)
  then show ?case using keepsD [OF keeps_turn] by (simp add: orch_ok_def)
next
  case (call o1 f)
  then show ?case by (simp add: store_call_ok)
next
  case (tick o1 now)
  then show ?case by (simp add: store_ok_clock)
next
  case (restart o1)
  then show ?case using keepsD [OF keeps_register] by (simp add: run_entry_def fresh_orch_def)
qed

section \<open>Worker slots\<close>

text \<open>A task holds at most one future, and every review response is one of the futures.\<close>

definition slots_ok :: "orch \<Rightarrow> bool" where
  "slots_ok o' \<longleftrightarrow> distinct (o_futures o') \<and> o_review_futures o' \<subseteq> set (o_futures o')"

named_theorems slots_intros \<open>actions that keep the slots in order\<close>

lemma slots_on_db [slots_intros]: "keeps slots_ok (on_db m)"
  by (simp add: keeps_def on_db_def slots_ok_def split: prod.splits)

lemma slots_modify:
  "(\<And>o'. o_futures (f o') = o_futures o') \<Longrightarrow> (\<And>o'. o_review_futures (f o') = o_review_futures o') \<Longrightarrow>
   keeps slots_ok (py_modify f)"
  by (rule keeps_modify) (simp add: slots_ok_def)

lemma slots_submit [slots_intros]: "keeps slots_ok (submit_review_job x j)"
  unfolding submit_review_job_def by (rule keeps_modify) (auto simp: slots_ok_def)

lemma slots_schedule [slots_intros]:
  "keeps slots_ok (schedule_rebase_to_main c x r)"
  "keeps slots_ok (schedule_rebase_to_parent_tip c x)"
  unfolding schedule_rebase_to_main_def schedule_rebase_to_parent_tip_def
  by (intro keeps_intros slots_intros)+

lemma slots_parent_merged [slots_intros]: "keeps slots_ok (schedule_rebases_for_merged_parent e c b)"
  unfolding schedule_rebases_for_merged_parent_def rebase_child_of_merged_def Let_def
  by (intro keeps_intros slots_intros)

lemma slots_cascade_loop [slots_intros]: "keeps slots_ok (cascade_loop fuel c scheduled work)"
proof (induction fuel arbitrary: scheduled work)
  case 0
  then show ?case by (simp add: keeps_intros)
next
  case (Suc fuel)
  have "keeps slots_ok (cascade_visit c child)" for child
    unfolding cascade_visit_def by (intro keeps_intros slots_intros)
  with Suc.IH show ?case by (cases work) (auto intro!: keeps_intros)
qed

lemma slots_cascade [slots_intros]: "keeps slots_ok (schedule_cascade_rebase c b)"
  unfolding schedule_cascade_rebase_def cascade_walk_should_proceed_def
  by (auto intro!: keeps_intros slots_intros slots_modify split: prod.splits)

lemma slots_stamp [slots_intros]: "keeps slots_ok (stamp_poll tid now)"
  unfolding stamp_poll_def by (intro slots_intros)

lemma slots_pr_info [slots_intros]: "keeps slots_ok (review_pr_info e row now)"
  unfolding review_pr_info_def repo_identifier_def Let_def
  by (intro keeps_intros slots_intros slots_modify) simp_all

lemma slots_pre_review [slots_intros]:
  "keeps slots_ok (maybe_schedule_cascade_for_push c row st)"
  "keeps slots_ok (handle_pre_review_pr_signal e c row st now)"
  "keeps slots_ok (maybe_handle_ci_pass row st)"
  unfolding maybe_schedule_cascade_for_push_def handle_pre_review_pr_signal_def handle_terminal_pr_status_def
    handle_closed_pr_def clear_stranded_children_def handle_post_pr_rebase_signal_def
    handle_post_pr_ci_failure_def schedule_ci_fix_response_def maybe_handle_ci_pass_def Let_def
  by (intro keeps_intros slots_intros)+

lemma slots_notify [slots_intros]: "keeps slots_ok (maybe_notify_review_ready e c titles row)"
  unfolding maybe_notify_review_ready_def Let_def
  by (auto intro!: keeps_intros slots_intros slots_modify split: prod.splits option.splits)

lemma slots_reviews [slots_intros]: "keeps slots_ok (handle_awaiting_review_reviews e c repo n row st)"
  unfolding handle_awaiting_review_reviews_def handle_changes_requested_def handle_approval_def
    attempt_auto_merge_def Let_def
  by (intro keeps_intros slots_intros slots_modify) simp_all

lemma slots_tick [slots_intros]: "keeps slots_ok (poll_review_threads e c titles)"
  unfolding poll_review_threads_def poll_review_candidate_def Let_def
  by (auto intro!: keeps_intros slots_intros split: prod.splits option.splits)

lemma slots_check_stalls [slots_intros]: "keeps slots_ok (check_stalls e c order warned)"
proof -
  have "keeps slots_ok (recover_stalled threshold now tid)" for threshold now tid
    unfolding recover_stalled_def
    by (auto intro!: keeps_intros slots_intros keeps_modify simp: slots_ok_def split: prod.splits)
  then show ?thesis unfolding check_stalls_def by (auto intro!: keeps_intros split: prod.splits)
qed

lemma slots_reap [slots_intros]: "keeps slots_ok (reap_finished outcomes)"
proof (rule keepsI)
  fix o1 assume ok: "slots_ok o1"
  let ?m = "reap_finished_tasks outcomes (o_futures o1) (o_review_futures o1)"
  have y: "yields (\<lambda>(fs, rfs). \<exists>gone. fs = filter (\<lambda>x. x \<notin> gone) (o_futures o1) \<and> rfs = o_review_futures o1 - gone) ?m"
    unfolding reap_finished_tasks_def Let_def by (intro then_yields yields_return) (auto intro!: exI [of _ "set (filter (\<lambda>tid. map_of outcomes tid \<noteq> None) (o_futures o1))"])
  have "slots_ok (o1\<lparr>o_db := d, o_futures := fs, o_review_futures := rfs\<rparr>)"
    if "?m (o_db o1) = (Inr (fs, rfs), d)" for fs rfs d
  proof -
    from yieldsD [OF y that] obtain gone where "fs = filter (\<lambda>x. x \<notin> gone) (o_futures o1)"
      "rfs = o_review_futures o1 - gone" by auto
    with ok show ?thesis by (auto simp: slots_ok_def)
  qed
  with ok show "slots_ok (snd (reap_finished outcomes o1))"
    by (cases "?m (o_db o1)") (auto simp: reap_finished_def act_simps slots_ok_def split: sum.splits prod.splits)
qed

lemma slots_schedule_ready:
  assumes "finite scope"
  shows "keeps (\<lambda>o'. orch_ok o' \<and> slots_ok o') (schedule_ready hexdigest cfg g scope)"
proof (rule keepsI)
  fix o1 assume ok: "orch_ok o1 \<and> slots_ok o1"
  then have ids: "distinct (task_ids (o_db o1))" and fut: "distinct (o_futures o1)"
    by (simp_all add: orch_ok_def store_ok_def slots_ok_def)
  obtain fs d' where run: "schedule_ready_tasks (nat (cfg_max_parallel cfg) - length (o_futures o1)) hexdigest cfg g scope
      (o_futures o1) (o_db o1) = (Inr fs, d')" and fs: "distinct fs" "take (length (o_futures o1)) fs = o_futures o1"
    using schedule_run [OF ids assms fut, of "nat (cfg_max_parallel cfg) - length (o_futures o1)" hexdigest cfg g]
    by blast
  have "set (o_futures o1) \<subseteq> set fs" using fs(2) by (metis set_take_subset)
  then have "slots_ok (snd (schedule_ready hexdigest cfg g scope o1))"
    using ok fs(1) run by (auto simp: schedule_ready_def act_simps slots_ok_def)
  moreover have "orch_ok (snd (schedule_ready hexdigest cfg g scope o1))"
    using keepsD [OF keeps_schedule_ready] ok by blast
  ultimately show "orch_ok (snd (schedule_ready hexdigest cfg g scope o1)) \<and>
      slots_ok (snd (schedule_ready hexdigest cfg g scope o1))" by simp
qed

lemma slots_turn:
  assumes "finite scope"
  shows "keeps (\<lambda>o'. orch_ok o' \<and> slots_ok o')
    (loop_turn genv henv hexdigest cfg g titles scope order outcomes lp)"
proof -
  note both = keeps_conj [OF _ slots_check_stalls] keeps_conj [OF _ slots_on_db] keeps_conj [OF _ slots_tick]
    keeps_conj [OF _ slots_reap] slots_schedule_ready [OF assms]
  show ?thesis unfolding loop_turn_def Let_def
    by (auto intro!: keeps_intros both split: prod.splits)
qed

lemma slots_system:
  assumes "system genv henv hexdigest cfg g titles scope o1" and "finite scope"
  shows "slots_ok o1"
  using assms(1)
proof induction
  case (turn o1 order outcomes lp)
  have "orch_ok o1" using system_ok [OF turn(1)] by (simp add: orch_ok_def)
  with keepsD [OF slots_turn [OF assms(2)]] turn(2) show ?case by blast
qed (simp_all add: slots_ok_def run_entry_def fresh_orch_def)

section \<open>A turn and a merged task\<close>

lemma merged_recover_stalled: "keeps (merged_o tid) (recover_stalled threshold now x)"
proof (rule keepsI)
  fix o1 assume m: "merged_o tid o1"
  show "merged_o tid (snd (recover_stalled threshold now x o1))"
  proof (cases "(\<exists>s. select_state x (o_db o1) = Some s \<and> s \<in> set review_stuck_states) \<and>
      threshold \<le> now - silence_start x (o_db o1)")
    case False
    then have "recover_stalled threshold now x o1 = (Inr (), o1)" by (intro recover_stalled_waits) auto
    with m show ?thesis by simp
  next
    case True
    then obtain s where s: "select_state x (o_db o1) = Some s" "s \<in> set review_stuck_states"
      "threshold \<le> now - silence_start x (o_db o1)" by blast
    then have "x \<noteq> tid" using m by (auto simp: review_stuck_states_def)
    then show ?thesis
      using m by (simp add: recover_stalled_run [OF s] force_recover_run [OF s(1)] select_state_transition [OF s(1)])
  qed
qed

lemma same_stats [same_intros]: "same_states (record_container_stats tid nm a b c)"
  unfolding record_container_stats_def same_states_def by (simp add: act_simps select_state_def find_task_def task_ids_def)

lemma same_sampling [same_intros]: "same_states (sample_stats_if_due env cfg t)"
  unfolding sample_stats_if_due_def sample_container_stats_def sample_row_def
  by (intro same_intros)

lemma same_flag_merges [same_intros]: "same_states (flag_external_merges scope prev)"
  unfolding flag_external_merges_def Let_def by (intro same_intros)

lemma same_reap [same_intros]: "same_states (reap_finished_tasks outcomes fs rfs)"
  unfolding reap_finished_tasks_def handle_finished_task_def Let_def
  by (intro same_intros)

lemma merged_schedule_ready:
  assumes "finite scope"
  shows "keeps (\<lambda>o'. orch_ok o' \<and> merged_o tid o') (schedule_ready hexdigest cfg g scope)"
proof (rule keepsI)
  fix o1 assume ok: "orch_ok o1 \<and> merged_o tid o1"
  then have ids: "distinct (task_ids (o_db o1))" by (simp add: orch_ok_def store_ok_def)
  show "orch_ok (snd (schedule_ready hexdigest cfg g scope o1)) \<and>
      merged_o tid (snd (schedule_ready hexdigest cfg g scope o1))"
  proof
    show "orch_ok (snd (schedule_ready hexdigest cfg g scope o1))"
      using keepsD [OF keeps_schedule_ready] ok by blast
    obtain fs d' where "schedule_ready_tasks (nat (cfg_max_parallel cfg) - length (o_futures o1)) hexdigest cfg g scope
        (o_futures o1) (o_db o1) = (Inr fs, d')" "\<And>x s. select_state x (o_db o1) = Some s \<Longrightarrow> select_state x d' = Some s"
      using schedule_keeps_states [OF ids assms] by blast
    with ok show "merged_o tid (snd (schedule_ready hexdigest cfg g scope o1))"
      by (simp add: schedule_ready_def act_simps)
  qed
qed

lemma merged_turn:
  assumes "finite scope"
  shows "keeps (\<lambda>o'. orch_ok o' \<and> merged_o tid o')
    (loop_turn genv henv hexdigest cfg g titles scope order outcomes lp)"
proof -
  have stalls: "keeps (merged_o tid) (check_stalls e c os w)" for e c os w
    unfolding check_stalls_def by (auto intro!: keeps_intros merged_recover_stalled split: prod.splits)
  have reap: "keeps (merged_o tid) (reap_finished out)" for out
    unfolding reap_finished_def
    by (auto intro!: keeps_intros merged_on_db merged_same same_intros merged_modify split: prod.splits)
  note both = keeps_conj [OF keeps_check_stalls stalls] keeps_conj [OF keeps_tick merged_tick]
    keeps_conj [OF keeps_reap_finished reap] merged_schedule_ready [OF assms]
    keeps_conj [OF keeps_on_db merged_on_db [OF merged_same]]
  show ?thesis unfolding loop_turn_def Let_def
    by (auto intro!: keeps_intros both same_intros split: prod.splits)
qed

end
