(* ===== verification/Histories.thy ===== *)
theory Histories
  imports Db
begin

text \<open>
  What a lawful log (\<open>store_ok\<close> of \<open>Db\<close>) says about the past of a task. Rows that only note something,
  with the same state on both sides, are left out by \<open>moves\<close>.
\<close>

definition moves :: "log_row list \<Rightarrow> log_row list" where
  "moves ls = filter (\<lambda>l. l_from_state l \<noteq> Some (l_to_state l)) ls"

definition all_legal :: "log_row list \<Rightarrow> bool" where
  "all_legal ls \<longleftrightarrow> (\<forall>l \<in> set ls. legal_edge (l_from_state l) (l_to_state l))"

lemma moves_chain: "log_chain prev ls \<Longrightarrow> log_chain prev (moves ls)"
  by (induction ls arbitrary: prev) (auto simp: moves_def)

lemma store_ok_log:
  assumes "store_ok d"
  shows "log_chain None (moves (task_log tid d))" and "all_legal (moves (task_log tid d))"
  using assms moves_chain by (auto simp: store_ok_def history_ok_def all_legal_def moves_def)

text \<open>The row before a row with a source state ends in that state.\<close>

lemma chain_before:
  assumes "log_chain None (ls @ l # ms)" and "l_from_state l = Some s"
  obtains ks k where "ls = ks @ [k]" and "l_to_state k = s"
proof -
  have "log_end None ls = Some s" using assms by (simp add: log_chain_append)
  then have "ls \<noteq> []" "l_to_state (last ls) = s" by (auto simp: log_end_def split: if_splits)
  then show ?thesis using that [of "butlast ls" "last ls"] by simp
qed

lemma legal_into:
  assumes "legal_edge p t" and "p \<noteq> Some t" and "t \<notin> {PENDING, PENDING_CI, MERGED}"
  obtains s e where "p = Some s" and "target_of s e = Some t"
  using assms by (cases rule: legal_edge.cases) auto

text \<open>If only \<open>s\<close> leads to \<open>t\<close>, then a move to \<open>t\<close> comes directly after a move to \<open>s\<close>.\<close>

lemma move_before:
  assumes chain: "log_chain None (ls @ l # ms)" and legal: "all_legal (ls @ l # ms)"
    and move: "l_from_state l \<noteq> Some t" "l_to_state l = t" "t \<notin> {PENDING, PENDING_CI, MERGED}"
    and only: "\<And>s' e. target_of s' e = Some t \<Longrightarrow> s' = s"
  obtains ks k where "ls = ks @ [k]" and "l_to_state k = s"
proof -
  have "legal_edge (l_from_state l) t" using legal move(2) by (simp add: all_legal_def)
  from legal_into [OF this move(1,3)] only obtain "l_from_state l = Some s" by metis
  with chain_before [OF chain] that show ?thesis by blast
qed

lemma moves_not_note: "l \<in> set (moves ls) \<Longrightarrow> l_from_state l \<noteq> Some (l_to_state l)"
  by (simp add: moves_def)

text \<open>The five stages of the gauntlet, in order, precede every move to PR_OPENING.\<close>

lemma gauntlet_logged:
  assumes chain: "log_chain None ls" and legal: "all_legal ls"
    and moved: "\<And>l. l \<in> set ls \<Longrightarrow> l_from_state l \<noteq> Some (l_to_state l)"
    and at: "ls = before @ l # rest" "l_to_state l = PR_OPENING"
  shows "\<exists>start stages. before = start @ stages \<and> map l_to_state stages =
    [AUDIT_LOCAL_CI, AUDIT_RUBRIC, AUDIT_STANDARDS, AUDIT_ARCHITECTURE, AUDIT_BEHAVIOR]"
proof -
  have step: "\<exists>ks k. xs = ks @ [k] \<and> l_to_state k = s"
    if "ls = xs @ x # ys" "l_to_state x = t" "t \<notin> {PENDING, PENDING_CI, MERGED}"
      "\<And>s' e. target_of s' e = Some t \<Longrightarrow> s' = s" for xs x ys s t
  proof (rule move_before [of xs x ys t s])
    show "log_chain None (xs @ x # ys)" "all_legal (xs @ x # ys)" using chain legal that(1) by simp_all
    show "l_from_state x \<noteq> Some t" using moved [of x] that(1,2) by simp
  qed (use that in blast)+
  obtain b5 k5 where 5: "before = b5 @ [k5]" "l_to_state k5 = AUDIT_BEHAVIOR"
    using step [OF at, of AUDIT_BEHAVIOR] into_pr_opening by auto
  obtain b4 k4 where 4: "b5 = b4 @ [k4]" "l_to_state k4 = AUDIT_ARCHITECTURE"
    using step [of b5 k5 "l # rest" AUDIT_BEHAVIOR AUDIT_ARCHITECTURE] at(1) 5 into_audit_behavior by auto
  obtain b3 k3 where 3: "b4 = b3 @ [k3]" "l_to_state k3 = AUDIT_STANDARDS"
    using step [of b4 k4 "k5 # l # rest" AUDIT_ARCHITECTURE AUDIT_STANDARDS] at(1) 5 4
      into_audit_architecture by auto
  obtain b2 k2 where 2: "b3 = b2 @ [k2]" "l_to_state k2 = AUDIT_RUBRIC"
    using step [of b3 k3 "k4 # k5 # l # rest" AUDIT_STANDARDS AUDIT_RUBRIC] at(1) 5 4 3
      into_audit_standards by auto
  obtain b1 k1 where 1: "b2 = b1 @ [k1]" "l_to_state k1 = AUDIT_LOCAL_CI"
    using step [of b2 k2 "k3 # k4 # k5 # l # rest" AUDIT_RUBRIC AUDIT_LOCAL_CI] at(1) 5 4 3 2
      into_audit_rubric by auto
  from 1 2 3 4 5 show ?thesis
    by (intro exI [of _ b1] exI [of _ "[k1, k2, k3, k4, k5]"]) simp
qed

section \<open>Absorbing states\<close>

lemma active_not_final: "s \<in> set active_states \<Longrightarrow> s \<noteq> MERGED \<and> s \<noteq> MERGE_NODE_RETIRED"
  by (rule active_check [where P = "\<lambda>s. s \<noteq> MERGED \<and> s \<noteq> MERGE_NODE_RETIRED"]) code_simp

lemma legal_from_final:
  assumes "legal_edge (Some s) t" and "s = MERGED \<or> s = MERGE_NODE_RETIRED"
  shows "t = s"
  using assms(1)
proof (cases rule: legal_edge.cases)
  case (fired e)
  with absorbing [OF assms(2)] show ?thesis by simp
next
  case recovered
  with active_not_final assms(2) show ?thesis by blast
next
  case forced
  with assms(2) show ?thesis by (auto simp: audit_stage_states_def)
qed simp

lemma chain_stays_final:
  assumes "log_chain (Some s) ls" and "all_legal ls" and "s = MERGED \<or> s = MERGE_NODE_RETIRED" and "l \<in> set ls"
  shows "l_to_state l = s"
  using assms
proof (induction ls)
  case (Cons k ks)
  have "legal_edge (Some s) (l_to_state k)" using Cons.prems(1,2) by (simp add: all_legal_def)
  then have "l_to_state k = s" by (rule legal_from_final [OF _ Cons.prems(3)])
  with Cons show ?case by (auto simp: all_legal_def)
qed simp

text \<open>How a task got to MERGED: out of AWAITING_REVIEW, out of PENDING, or created there.\<close>

lemma legal_into_merged: "legal_edge p MERGED \<Longrightarrow> p \<in> {None, Some PENDING, Some AWAITING_REVIEW, Some MERGED}"
  by (cases rule: legal_edge.cases) (auto dest: into_merged)

lemma moves_end: "log_chain prev ls \<Longrightarrow> log_end prev (moves ls) = log_end prev ls"
proof (induction ls arbitrary: prev)
  case (Cons l ls)
  have end_cons: "log_end p (k # ks) = log_end (Some (l_to_state k)) ks" for p k ks
    by (simp add: log_end_def)
  from Cons.prems have "l_from_state l = prev" "log_chain (Some (l_to_state l)) ls" by simp_all
  with Cons.IH [OF this(2)] show ?case by (simp add: moves_def end_cons)
qed (simp add: moves_def)

end
