(* ===== verification/Machine.thy ===== *)
theory Machine
  imports StoreReview FsmRuntime
begin

text \<open>
  What the store promises about task states: an abstract machine. Its state is the state of every task together with the
  history of the edges taken, and its step function is the transition table. The writers of \<^verbatim>\<open>store_tasks.py\<close>, with
  their rows, transactions, notes, timestamps and forensics, refine it.
\<close>

section \<open>The abstract machine\<close>

record machine =
  mc_state :: "ident \<Rightarrow> state option"
  mc_trace :: "(ident \<times> state option \<times> state) list"

datatype command =
    Create ident
  | Seed ident string string "time option"
  | Fire ident event "string option" "task_field list"
  | Recover ident "string option" "task_field list"
  | Enter_phase ident phase int pr_review_trigger "string option"
  | Next_cycle ident "pr_review_trigger option" "string option"
  | Write ident "task_field list"

definition move :: "ident \<Rightarrow> state \<Rightarrow> machine \<Rightarrow> machine" where
  "move tid t M =
     \<lparr>mc_state = (mc_state M)(tid \<mapsto> t), mc_trace = mc_trace M @ [(tid, mc_state M tid, t)]\<rparr>"

text \<open>A phase note is an edge from a state to itself.\<close>

definition remain :: "ident \<Rightarrow> machine \<Rightarrow> machine" where
  "remain tid M = (case mc_state M tid of None \<Rightarrow> M | Some s \<Rightarrow> move tid s M)"

fun machine_step :: "command \<Rightarrow> machine \<Rightarrow> machine" where
  "machine_step (Create tid) M = (if mc_state M tid = None then move tid PENDING M else M)"
| "machine_step (Seed tid source evidence at) M =
     (if mc_state M tid = None \<or> mc_state M tid = Some PENDING then move tid MERGED M else M)"
| "machine_step (Fire tid ev note kw) M =
     (case Option.bind (mc_state M tid) (\<lambda>s. target_of s ev) of None \<Rightarrow> M | Some t \<Rightarrow> move tid t M)"
| "machine_step (Recover tid note kw) M =
     (if mc_state M tid = None \<or> mc_state M tid = Some PENDING_CI then M else move tid PENDING_CI M)"
| "machine_step (Enter_phase tid ph cycle trigger note) M = remain tid M"
| "machine_step (Next_cycle tid trigger note) M = remain tid M"
| "machine_step (Write tid kw) M = M"

section \<open>The store as an implementation\<close>

definition ended :: "'a store_act \<Rightarrow> db \<Rightarrow> db" where
  "ended m d = snd (m d)"

primrec run_command :: "command \<Rightarrow> db \<Rightarrow> db" where
  "run_command (Create tid) = ended (upsert_pending tid)"
| "run_command (Seed tid source evidence at) = ended (seed_merged_node tid source evidence at)"
| "run_command (Fire tid ev note kw) = ended (apply_event tid ev note kw)"
| "run_command (Recover tid note kw) = ended (force_recover_to_pending_ci tid note kw)"
| "run_command (Enter_phase tid ph cycle trigger note) = ended (enter_phase tid ph cycle trigger note)"
| "run_command (Next_cycle tid trigger note) = ended (increment_cycle_in_phase tid trigger note)"
| "run_command (Write tid kw) = ended (set_field tid kw)"

definition log_edge :: "log_row \<Rightarrow> ident \<times> state option \<times> state" where
  "log_edge l = (l_task_id l, l_from_state l, l_to_state l)"

definition machine_of :: "db \<Rightarrow> machine" where
  "machine_of d = \<lparr>mc_state = (\<lambda>tid. select_state tid d), mc_trace = map log_edge (db_log d)\<rparr>"

section \<open>Simulation\<close>

text \<open>An implementation whose steps commute with an abstraction does so for every sequence of operations.\<close>

locale simulation =
  fixes abs :: "'c \<Rightarrow> 'a" and run :: "'o \<Rightarrow> 'c \<Rightarrow> 'c" and spec :: "'o \<Rightarrow> 'a \<Rightarrow> 'a"
  assumes step: "abs (run c s) = spec c (abs s)"
begin

lemma runs: "abs (fold run cs s) = fold spec cs (abs s)"
  by (induction cs arbitrary: s) (simp_all add: step)

end

lemma machine_ofI:
  "(\<And>x. select_state x d' = mc_state M x) \<Longrightarrow> map log_edge (db_log d') = mc_trace M \<Longrightarrow> machine_of d' = M"
  by (simp add: machine_of_def)

lemma mc_of [simp]: "mc_state (machine_of d) tid = select_state tid d" "mc_trace (machine_of d) = map log_edge (db_log d)"
  by (simp_all add: machine_of_def)

lemma machine_of_update_row [simp]:
  "(\<And>r. t_id (f r) = t_id r) \<Longrightarrow> (\<And>r. t_state (f r) = t_state r) \<Longrightarrow> machine_of (update_row tid f d) = machine_of d"
  by (simp add: machine_of_def select_state_update_row)

lemma machine_of_moved:
  assumes "select_state tid d = Some s"
  shows "machine_of (snd (transition tid t note kw d)) = move tid t (machine_of d)"
proof -
  have moved: "machine_of (moved_db tid s t note kw d) = move tid t (machine_of d)"
    by (rule machine_ofI)
      (simp_all add: select_state_moved_db [OF assms] move_def assms log_edge_def, simp add: moved_db_def log_edge_def)
  then show ?thesis by (auto simp: transition_run [OF assms] Let_def)
qed

text \<open>Updating a row and logging the edge, as the seeding and the phase writers do.\<close>

lemma machine_of_logged:
  assumes "select_state tid d = Some s" and "\<And>r. t_id (f r) = t_id r" and "\<And>r. t_state (f r) = t \<or> t_state (f r) = t_state r \<and> t = s"
  shows "machine_of ((update_row tid f d)\<lparr>db_log := db_log d @
      [\<lparr>l_task_id = tid, l_from_state = Some s, l_to_state = t, l_note = n, l_ts = c\<rparr>]\<rparr>) = move tid t (machine_of d)"
proof (rule machine_ofI)
  fix x
  obtain r where r: "find_task tid d = Some r" "t_state r = s" using assms(1) by (auto simp: select_state_def)
  then have "select_state x (update_row tid f d) = (if x = tid then Some t else select_state x d)"
    using assms(3) [of r] find_task_update_row [of f x tid d, OF assms(2)] by (auto simp: select_state_def)
  then show "select_state x ((update_row tid f d)\<lparr>db_log := db_log d @
      [\<lparr>l_task_id = tid, l_from_state = Some s, l_to_state = t, l_note = n, l_ts = c\<rparr>]\<rparr>) =
      mc_state (move tid t (machine_of d)) x"
    by (simp add: move_def select_state_def find_task_def)
qed (simp add: move_def assms(1) log_edge_def)

lemma machine_of_created:
  assumes "select_state (t_id r) d = None"
  shows "machine_of (d\<lparr>db_tasks := db_tasks d @ [r], db_log := db_log d @
      [\<lparr>l_task_id = t_id r, l_from_state = None, l_to_state = t_state r, l_note = n, l_ts = c\<rparr>]\<rparr>) =
    move (t_id r) (t_state r) (machine_of d)"
proof (rule machine_ofI)
  fix x
  have "List.find (\<lambda>q. t_id q = t_id r) (db_tasks d) = None"
    using assms by (simp add: select_state_def find_task_def)
  then show "select_state x (d\<lparr>db_tasks := db_tasks d @ [r], db_log := db_log d @
      [\<lparr>l_task_id = t_id r, l_from_state = None, l_to_state = t_state r, l_note = n, l_ts = c\<rparr>]\<rparr>) =
      mc_state (move (t_id r) (t_state r) (machine_of d)) x"
    by (auto simp: select_state_def find_task_def move_def find_append split: option.splits)
qed (simp add: move_def assms log_edge_def)

lemma run_create: "machine_of (ended (upsert_pending tid) d) = machine_step (Create tid) (machine_of d)"
proof (cases "select_state tid d")
  case None
  then have "tid \<notin> set (task_ids d)" by (simp add: in_task_ids_iff)
  with None machine_of_created [of "new_task tid PENDING (clock d)" d None "clock d"] show ?thesis
    by (simp add: ended_def upsert_pending_def act_simps task_ids_def)
qed (simp add: ended_def upsert_pending_def act_simps)

lemma run_seed:
  "machine_of (ended (seed_merged_node tid source evidence at) d) = machine_step (Seed tid source evidence at) (machine_of d)"
proof -
  define now where "now = (case at of None \<Rightarrow> clock d | Some t \<Rightarrow> if t = 0 then clock d else t)"
  define stamp where "stamp = (\<lambda>r :: task_row. r\<lparr>t_seed_source := Some source, t_seed_evidence := Some evidence,
    t_seeded_at := Some now\<rparr>)"
  note run = ended_def seed_merged_node_def act_simps Let_def now_def [symmetric]
  show ?thesis
  proof (cases "select_state tid d")
    case None
    then have "tid \<notin> set (task_ids d)" by (simp add: in_task_ids_iff)
    with None machine_of_created [of "stamp (new_task tid MERGED now)" d "Some (''seed-from-base:'' @ source)" "clock d"]
    show ?thesis by (simp add: run stamp_def task_ids_def)
  next
    case (Some s)
    then have known: "tid \<in> set (task_ids d)" by (simp add: in_task_ids_iff)
    have "machine_of ((update_row tid (\<lambda>r. stamp (r\<lparr>t_state := MERGED\<rparr>)) d)\<lparr>db_log := db_log d @
        [\<lparr>l_task_id = tid, l_from_state = Some PENDING, l_to_state = MERGED,
          l_note = Some (''seed-from-base:'' @ source), l_ts = clock d\<rparr>]\<rparr>) = move tid MERGED (machine_of d)"
      if "s = PENDING"
      using Some that by (intro machine_of_logged) (simp_all add: stamp_def)
    with Some known show ?thesis by (auto simp: run stamp_def)
  qed
qed

lemma run_fire: "machine_of (ended (apply_event tid ev note kw) d) = machine_step (Fire tid ev note kw) (machine_of d)"
  by (cases "select_state tid d")
    (auto simp: ended_def apply_event_missing apply_event_run machine_of_moved split: option.splits)

lemma run_recover:
  "machine_of (ended (force_recover_to_pending_ci tid note kw) d) = machine_step (Recover tid note kw) (machine_of d)"
proof (cases "select_state tid d")
  case None
  then show ?thesis
    by (simp add: ended_def force_recover_to_pending_ci_def current_state_def act_simps)
qed (simp add: ended_def force_recover_run machine_of_moved)

lemma run_phase:
  "machine_of (ended (enter_phase tid ph cycle trigger note) d) = machine_step (Enter_phase tid ph cycle trigger note) (machine_of d)"
  "machine_of (ended (increment_cycle_in_phase tid trig note) d) = machine_step (Next_cycle tid trig note) (machine_of d)"
proof -
  show "machine_of (ended (enter_phase tid ph cycle trigger note) d) = machine_step (Enter_phase tid ph cycle trigger note) (machine_of d)"
    by (cases "select_state tid d")
      (simp_all add: ended_def enter_phase_def act_simps in_task_ids_iff remain_def machine_of_logged select_state_update_row)
  show "machine_of (ended (increment_cycle_in_phase tid trig note) d) = machine_step (Next_cycle tid trig note) (machine_of d)"
  proof (cases "find_task tid d")
    case (Some r)
    then have s: "select_state tid d = Some (t_state r)" by (simp add: select_state_def)
    then show ?thesis
      using Some machine_of_logged [OF s, where t = "t_state r"]
      by (simp add: ended_def increment_cycle_in_phase_def act_simps in_task_ids_iff remain_def Let_def
          select_state_update_row)
  qed (simp add: ended_def increment_cycle_in_phase_def act_simps remain_def select_state_def)
qed

lemma run_write: "machine_of (ended (set_field tid kw) d) = machine_of d"
  by (simp add: ended_def set_field_def act_simps)

interpretation store: simulation machine_of run_command machine_step
proof unfold_locales
  fix c d show "machine_of (run_command c d) = machine_step c (machine_of d)"
    by (cases c) (simp_all only: run_command.simps run_create run_seed run_fire run_recover run_phase run_write machine_step.simps)
qed

section \<open>Property\<close>


end
