(* ===== verification/Plans.thy ===== *)
theory Plans
  imports Dag StoreSubtasks
begin

text \<open>
  \<^verbatim>\<open>quikode/subtask_schema.py\<close>: the plans the worker runs. A plan is a list of subtasks with
  dependencies; building one injects the stabilization subtask, checks the fields, the uniqueness of the
  identifiers and the dependencies, and orders the subtasks. The topological order is the loop of
  \<^verbatim>\<open>DAG._topo_order\<close> over the plan's own graph, so the theorems of theory Dag apply to it.
  A record plays the part of a dictionary or a pydantic instance with the same keys; the text pydantic writes
  for a violated field constraint is a parameter.
\<close>

section \<open>Data\<close>

record rubric_target =
  rt_category :: string
  rt_predicted_score :: int

text \<open>\<^verbatim>\<open>StandardsRef\<close> and \<^verbatim>\<open>ArchitectureRef\<close> have the same two fields.\<close>

record doc_ref =
  dr_doc_path :: string
  dr_section :: string

record subtask =
  st_id :: string
  st_title :: string
  st_depends_on :: "string list"
  st_files_to_touch :: "string list"
  st_boundary :: string
  st_acceptance :: "string list"
  st_notes :: string
  st_interfaces :: "string list"
  st_kind :: string
  st_rubric_targets :: "rubric_target list"
  st_standards_referenced :: "doc_ref list"
  st_architecture_referenced :: "doc_ref list"
  st_behavior_evidence_advanced :: "string list"
  st_root_cause_hypothesis :: string

record plan =
  p_node_id :: string
  p_summary :: string
  p_subtasks :: "subtask list"
  p_final_acceptance :: "string list"
  p_gauntlet_strategy :: string

record fixup_plan =
  fx_summary :: string
  fx_subtasks :: "subtask list"
  fx_findings_addressed :: "string list"

text \<open>What building a plan can raise, with the message of the source.\<close>

datatype plan_error =
    Duplicate_id string
  | Unknown_dependency string string
  | Cycle "string list"
  | Bad_field string
  | Wrong_node string string

section \<open>Field constraints\<close>

definition rubric_target_ok :: "rubric_target \<Rightarrow> bool" where
  "rubric_target_ok t \<longleftrightarrow>
     rt_category t \<noteq> [] \<and> 1 \<le> rt_predicted_score t \<and> rt_predicted_score t \<le> 10"

definition doc_ref_ok :: "doc_ref \<Rightarrow> bool" where
  "doc_ref_ok r \<longleftrightarrow> dr_doc_path r \<noteq> [] \<and> dr_section r \<noteq> []"

definition subtask_ok :: "subtask \<Rightarrow> bool" where
  "subtask_ok s \<longleftrightarrow>
     st_id s \<noteq> [] \<and> st_acceptance s \<noteq> [] \<and> length (st_root_cause_hypothesis s) \<le> 500 \<and>
     list_all rubric_target_ok (st_rubric_targets s) \<and>
     list_all doc_ref_ok (st_standards_referenced s) \<and>
     list_all doc_ref_ok (st_architecture_referenced s)"

definition plan_fields_ok :: "plan \<Rightarrow> bool" where
  "plan_fields_ok p \<longleftrightarrow>
     p_node_id p \<noteq> [] \<and> p_subtasks p \<noteq> [] \<and> list_all subtask_ok (p_subtasks p) \<and>
     p_final_acceptance p \<noteq> []"

definition fixup_fields_ok :: "fixup_plan \<Rightarrow> bool" where
  "fixup_fields_ok p \<longleftrightarrow> fx_subtasks p \<noteq> [] \<and> list_all subtask_ok (fx_subtasks p)"

section \<open>Uniqueness, dependencies and order\<close>

text \<open>The first scan: \<^verbatim>\<open>if s.id in ids: raise ...; ids.add(s.id)\<close>.\<close>

fun first_duplicate :: "string list \<Rightarrow> string list \<Rightarrow> string option" where
  "first_duplicate seen [] = None"
| "first_duplicate seen (i # is) = (if i \<in> set seen then Some i else first_duplicate (i # seen) is)"

text \<open>The second scan: the first dependency that names no subtask of the plan.\<close>

fun first_unknown :: "string list \<Rightarrow> subtask list \<Rightarrow> (string \<times> string) option" where
  "first_unknown ids [] = None"
| "first_unknown ids (s # ss) =
     (case List.find (\<lambda>d. d \<notin> set ids) (st_depends_on s) of
        Some d \<Rightarrow> Some (st_id s, d)
      | None \<Rightarrow> first_unknown ids ss)"

text \<open>The graph the loop runs on: \<^verbatim>\<open>by_id\<close>, \<^verbatim>\<open>indeg\<close> and \<^verbatim>\<open>children\<close> are read off these nodes.\<close>

definition subtask_node :: "subtask \<Rightarrow> node" where
  "subtask_node s =
     \<lparr>n_id = st_id s, n_kind = st_kind s, n_milestone = [], n_title = st_title s, n_scope = [],
      n_depends_on = st_depends_on s, n_completes_behaviors = [], n_supports_behaviors = [],
      n_boundary_with_neighbors = [], n_expected_evidence = [], n_playbook = [], n_rationale = [],
      n_risks = []\<rparr>"

definition plan_graph :: "subtask list \<Rightarrow> dag" where
  "plan_graph ss =
     \<lparr>dag_nodes = map (\<lambda>s. (st_id s, subtask_node s)) ss, dag_milestones = []\<rparr>"

text \<open>\<^verbatim>\<open>{s.id: s for s in self.subtasks}\<close>; the loop only looks up keys of the plan.\<close>

definition by_id :: "subtask list \<Rightarrow> string \<Rightarrow> subtask" where
  "by_id ss i = the (map_of (rev (map (\<lambda>s. (st_id s, s)) ss)) i)"

definition topo_subtasks :: "subtask list \<Rightarrow> plan_error + subtask list" where
  "topo_subtasks ss =
     (let g = plan_graph ss;
          out = kahn g (indegrees g) (filter (\<lambda>x. indegrees g x = 0) (node_ids g)) []
      in if length out \<noteq> length ss
         then Inl (Cycle (filter (\<lambda>i. i \<notin> set out) (map st_id ss)))
         else Inr (map (by_id ss) out))"

definition check_unique_and_known :: "subtask list \<Rightarrow> plan_error + unit" where
  "check_unique_and_known ss =
     (case first_duplicate [] (map st_id ss) of
        Some i \<Rightarrow> Inl (Duplicate_id i)
      | None \<Rightarrow>
          (case first_unknown (map st_id ss) ss of
             Some (i, d) \<Rightarrow> Inl (Unknown_dependency i d)
           | None \<Rightarrow> Inr ()))"

text \<open>\<^verbatim>\<open>Plan._check_unique_and_acyclic\<close>, and the fixup plan's validator of the same name, which has no third check.\<close>

definition check_plan :: "plan \<Rightarrow> plan_error + plan" where
  "check_plan p =
     (case check_unique_and_known (p_subtasks p) of
        Inl e \<Rightarrow> Inl e
      | Inr _ \<Rightarrow> (case topo_subtasks (p_subtasks p) of Inl e \<Rightarrow> Inl e | Inr _ \<Rightarrow> Inr p))"

definition check_fixup_plan :: "fixup_plan \<Rightarrow> plan_error + fixup_plan" where
  "check_fixup_plan p =
     (case check_unique_and_known (fx_subtasks p) of Inl e \<Rightarrow> Inl e | Inr _ \<Rightarrow> Inr p)"

text \<open>\<^verbatim>\<open>Plan.topo_order\<close> runs the loop again on the plan.\<close>

definition plan_order :: "plan \<Rightarrow> plan_error + subtask list" where
  "plan_order p = topo_subtasks (p_subtasks p)"

section \<open>The stabilization subtask\<close>

definition STABILIZATION_SUBTASK_ID :: string where
  "STABILIZATION_SUBTASK_ID = ''Z-99-stabilize-spec-gate''"

definition em_dash :: string where
  "em_dash = [char_of (226 :: nat), char_of (128 :: nat), char_of (148 :: nat)]"

definition build_stabilization_subtask ::
  "string list \<Rightarrow> string \<Rightarrow> string list option \<Rightarrow> int option \<Rightarrow> subtask" where
  "build_stabilization_subtask prior_ids gate categories min_score =
     \<lparr>st_id = STABILIZATION_SUBTASK_ID,
      st_title = ''Stabilize spec gate '' @ em_dash @ '' ensure all gate checks pass cleanly'',
      st_depends_on = prior_ids, st_files_to_touch = [],
      st_boundary =
        ''Make the spec gate (`'' @ gate @ ''`) pass cleanly. May edit any file required to fix gate failures. '' @
        ''Plan 33: `files_to_touch` is advisory '' @ em_dash @ '' the audit gauntlet is the truth; '' @
        ''gate-keeping cross-file fixes are always legitimate.'',
      st_acceptance =
        [''Spec gate (`'' @ gate @ ''`) passes with rc=0'',
         ''All committed changes from prior subtasks remain functional''],
      st_notes =
        ''System-injected stabilization subtask (plan 24, plan 33 D4). '' @
        ''Every prior subtask has already landed and been committed. '' @
        ''Your job is to run the gate, fix anything that fails, run it again, and repeat until rc=0. '' @
        ''As the holistic-pass guardian, your `rubric_targets` cover every category at the minimum score '' @
        em_dash @ '' the audit must clear that bar by the time you commit.'',
      st_interfaces = [], st_kind = ''spec'',
      st_rubric_targets =
        (case (categories, min_score) of
           (Some cats, Some m) \<Rightarrow> map (\<lambda>c. \<lparr>rt_category = c, rt_predicted_score = m\<rparr>) cats
         | _ \<Rightarrow> []),
      st_standards_referenced = [], st_architecture_referenced = [],
      st_behavior_evidence_advanced = [], st_root_cause_hypothesis = []\<rparr>"

definition maybe_inject_stabilization ::
  "plan \<Rightarrow> string option \<Rightarrow> string list option \<Rightarrow> int option \<Rightarrow> plan" where
  "maybe_inject_stabilization raw gate categories min_score =
     (case gate of
        None \<Rightarrow> raw
      | Some cmd \<Rightarrow>
          if cmd = [] then raw
          else if list_ex (\<lambda>s. st_id s = STABILIZATION_SUBTASK_ID) (p_subtasks raw) then raw
          else
            let prior_ids = filter (\<lambda>i. i \<noteq> []) (map st_id (p_subtasks raw))
            in raw\<lparr>p_subtasks :=
                 p_subtasks raw @ [build_stabilization_subtask prior_ids cmd categories min_score]\<rparr>)"

section \<open>Building a plan\<close>

text \<open>\<open>pyd\<close> is the text pydantic writes for the field constraints a plan violates.\<close>

definition validate_and_build_plan ::
  "(plan \<Rightarrow> string) \<Rightarrow> plan \<Rightarrow> string option \<Rightarrow> string option \<Rightarrow> string list option \<Rightarrow> int option \<Rightarrow>
   plan_error + plan" where
  "validate_and_build_plan pyd raw expected gate categories min_score =
     (let raw' = maybe_inject_stabilization raw gate categories min_score
      in if \<not> plan_fields_ok raw' then Inl (Bad_field (pyd raw'))
         else case check_plan raw' of
                Inl e \<Rightarrow> Inl e
              | Inr p \<Rightarrow>
                  (case expected of
                     None \<Rightarrow> Inr p
                   | Some n \<Rightarrow>
                       if n \<noteq> [] \<and> p_node_id p \<noteq> n then Inl (Wrong_node (p_node_id p) n) else Inr p))"

definition validate_fixup_fields ::
  "(fixup_plan \<Rightarrow> string) \<Rightarrow> fixup_plan \<Rightarrow> plan_error + fixup_plan" where
  "validate_fixup_fields pyd raw =
     (if \<not> fixup_fields_ok raw then Inl (Bad_field (pyd raw)) else check_fixup_plan raw)"

text \<open>
  The message of the error a caller sees: pydantic prefixes the text of a validator's \<^verbatim>\<open>ValueError\<close> with
  \<^verbatim>\<open>Value error, \<close>, and the flattening puts the (empty) location and a colon before it.
\<close>

definition quote1 :: string where
  "quote1 = [CHR 0x27]"

definition plan_error_text :: "bool \<Rightarrow> plan_error \<Rightarrow> string" where
  "plan_error_text fixup e =
     (let pre = (if fixup then ''fixup '' else []) in
      case e of
        Duplicate_id i \<Rightarrow> '': Value error, duplicate '' @ pre @ ''subtask id: '' @ py_repr i
      | Unknown_dependency i d \<Rightarrow>
          '': Value error, '' @ pre @ ''subtask '' @ i @ '' depends_on unknown id '' @ py_repr d
      | Cycle is \<Rightarrow>
          '': Value error, subtask cycle detected, involving: ['' @ py_list_body is @ '']''
      | Bad_field txt \<Rightarrow> txt
      | Wrong_node n m \<Rightarrow>
          ''plan node_id='' @ py_repr n @ '' doesn'' @ quote1 @ ''t match expected '' @ py_repr m)"

section \<open>Order\<close>

definition sub_rel :: "subtask list \<Rightarrow> (string \<times> string) set" where
  "sub_rel ss = {(d, i). \<exists>s \<in> set ss. st_id s = i \<and> d \<in> set (st_depends_on s)}"

definition deps_known :: "subtask list \<Rightarrow> bool" where
  "deps_known ss \<longleftrightarrow> (\<forall>s \<in> set ss. set (st_depends_on s) \<subseteq> st_id ` set ss)"

text \<open>Every subtask comes after the subtasks it depends on.\<close>

fun ordered_after :: "string set \<Rightarrow> subtask list \<Rightarrow> bool" where
  "ordered_after seen [] \<longleftrightarrow> True"
| "ordered_after seen (s # ss) \<longleftrightarrow> set (st_depends_on s) \<subseteq> seen \<and> ordered_after (insert (st_id s) seen) ss"

lemma first_duplicate_None: "first_duplicate seen is = None \<longleftrightarrow> distinct is \<and> set is \<inter> set seen = {}"
  by (induction "is" arbitrary: seen) auto

lemma first_unknown_None:
  "first_unknown ids ss = None \<longleftrightarrow> (\<forall>s \<in> set ss. set (st_depends_on s) \<subseteq> set ids)"
  by (induction ss) (auto simp: find_eq_None split: option.splits dest: find_SomeD)

lemma check_unique_and_known_ok:
  "check_unique_and_known ss = Inr () \<longleftrightarrow> distinct (map st_id ss) \<and> deps_known ss"
  using first_duplicate_None [of "[]" "map st_id ss"] first_unknown_None [of "map st_id ss" ss]
  by (cases "first_duplicate [] (map st_id ss)"; cases "first_unknown (map st_id ss) ss")
    (auto simp: check_unique_and_known_def deps_known_def)

lemma node_ids_plan_graph [simp]: "node_ids (plan_graph ss) = map st_id ss"
  by (simp add: node_ids_def plan_graph_def comp_def)

lemma map_of_plan_graph:
  "distinct (map st_id ss) \<Longrightarrow> s \<in> set ss \<Longrightarrow>
   map_of (dag_nodes (plan_graph ss)) (st_id s) = Some (subtask_node s)"
  by (rule map_of_is_SomeI) (auto simp: plan_graph_def comp_def)

lemma deps_of_plan_graph:
  assumes "distinct (map st_id ss)" and "deps_known ss" and "s \<in> set ss"
  shows "deps_of (plan_graph ss) (st_id s) = st_depends_on s"
proof -
  have "set (st_depends_on s) \<subseteq> set (map st_id ss)" using assms by (auto simp: deps_known_def)
  then have "filter (\<lambda>d. d \<in> set (map st_id ss)) (st_depends_on s) = st_depends_on s"
    by (auto simp: filter_id_conv)
  then show ?thesis
    using map_of_plan_graph [OF assms(1,3)] by (simp add: deps_of_def inner_deps_def subtask_node_def)
qed

lemma dep_rel_plan_graph:
  assumes "distinct (map st_id ss)" and "deps_known ss"
  shows "dep_rel (plan_graph ss) = sub_rel ss"
proof -
  have "d \<in> set (deps_of (plan_graph ss) x) \<longleftrightarrow> (d, x) \<in> sub_rel ss" for d x
  proof (cases "x \<in> set (map st_id ss)")
    case True
    then obtain s where s: "s \<in> set ss" "x = st_id s" by auto
    moreover have "s' = s" if "s' \<in> set ss" "st_id s' = st_id s" for s'
      using that s assms(1) by (simp add: distinct_map inj_on_def)
    ultimately show ?thesis using deps_of_plan_graph [OF assms s(1)] by (auto simp: sub_rel_def)
  next
    case False
    then show ?thesis using deps_of_keys [of d "plan_graph ss" x] by (auto simp: sub_rel_def)
  qed
  then show ?thesis by (auto simp: dep_rel_def)
qed

lemma by_id_mem:
  assumes "distinct (map st_id ss)" and "s \<in> set ss"
  shows "by_id ss (st_id s) = s"
proof -
  have "map_of (rev (map (\<lambda>s. (st_id s, s)) ss)) (st_id s) = Some s"
    using assms by (intro map_of_is_SomeI) (auto simp: rev_map comp_def distinct_map)
  then show ?thesis by (simp add: by_id_def)
qed

lemma by_id_id: "i \<in> set (map st_id ss) \<Longrightarrow> distinct (map st_id ss) \<Longrightarrow> st_id (by_id ss i) = i \<and> by_id ss i \<in> set ss"
  by (auto simp: by_id_mem)

lemma ordered_after_iff:
  "ordered_after seen ss \<longleftrightarrow>
     (\<forall>i < length ss. set (st_depends_on (ss ! i)) \<subseteq> seen \<union> st_id ` set (take i ss))"
proof (induction ss arbitrary: seen)
  case Nil
  then show ?case by simp
next
  case (Cons s ss)
  show ?case
    unfolding ordered_after.simps Cons.IH length_Cons All_less_Suc2 by simp
qed

lemma topo_subtasks_spec:
  assumes "distinct (map st_id ss)" and "deps_known ss"
  shows "case topo_subtasks ss of
     Inr ts \<Rightarrow> acyclic (sub_rel ss) \<and> set ts = set ss \<and> distinct ts \<and> ordered_after {} ts
   | Inl e \<Rightarrow> \<not> acyclic (sub_rel ss) \<and> (\<exists>is. e = Cycle is)"
proof -
  let ?g = "plan_graph ss" and ?out = "kahn_result (plan_graph ss)"
  have run: "topo_subtasks ss = (if length ?out \<noteq> length ss
      then Inl (Cycle (filter (\<lambda>i. i \<notin> set ?out) (map st_id ss))) else Inr (map (by_id ss) ?out))"
    by (simp add: topo_subtasks_def kahn_result_def Let_def)
  have dist: "distinct (node_ids ?g)" using assms(1) by simp
  have len: "length ?out = length ss \<longleftrightarrow> set ?out = set (map st_id ss)"
    using full_length_iff [OF dist] by simp
  show ?thesis
  proof (cases "acyclic (sub_rel ss)")
    case True
    then have all: "set ?out = set (map st_id ss)" and first: "deps_first ?g ?out" and d: "distinct ?out"
      using topo_order_cases [OF dist] dep_rel_plan_graph [OF assms] kahn_result_facts(1,3) [OF dist] len
      by (auto simp: topo_order_eq split: if_splits)
    let ?ts = "map (by_id ss) ?out"
    have ids: "map st_id ?ts = ?out"
      using by_id_id [OF _ assms(1)] all by (auto simp: comp_def intro!: map_idI)
    have "set ?ts = set ss"
      using all by_id_mem [OF assms(1)] by (force simp: image_image)
    moreover have "distinct ?ts" using d ids by (metis distinct_map)
    moreover have "ordered_after {} ?ts"
      unfolding ordered_after_iff
    proof (intro allI impI)
      fix i assume i: "i < length ?ts"
      have "?ts ! i \<in> set ss" using \<open>set ?ts = set ss\<close> i nth_mem by blast
      moreover have "st_id (?ts ! i) = ?out ! i" using ids i by (metis length_map nth_map)
      ultimately have "set (st_depends_on (?ts ! i)) \<subseteq> set (take i ?out)"
        using deps_firstD [OF first, of i] i deps_of_plan_graph [OF assms, of "?ts ! i"] by auto
      also have "set (take i ?out) = st_id ` set (take i ?ts)" using ids by (metis set_map take_map)
      finally show "set (st_depends_on (?ts ! i)) \<subseteq> {} \<union> st_id ` set (take i ?ts)" by simp
    qed
    ultimately show ?thesis using True all len by (simp add: run)
  next
    case False
    then have "length ?out \<noteq> length ss"
      using topo_order_cases [OF dist] dep_rel_plan_graph [OF assms] by (auto simp: topo_order_eq split: if_splits)
    with False show ?thesis by (simp add: run)
  qed
qed

section \<open>Injection of the stabilization subtask\<close>

lemma inject_cases:
  "maybe_inject_stabilization raw gate cats m = raw \<or>
   (\<exists>cmd. gate = Some cmd \<and> cmd \<noteq> [] \<and> STABILIZATION_SUBTASK_ID \<notin> st_id ` set (p_subtasks raw) \<and>
      maybe_inject_stabilization raw gate cats m = raw\<lparr>p_subtasks := p_subtasks raw @
        [build_stabilization_subtask (filter (\<lambda>i. i \<noteq> []) (map st_id (p_subtasks raw))) cmd cats m]\<rparr>)"
  by (cases gate) (auto simp: maybe_inject_stabilization_def Let_def list_ex_iff)

lemma inject_frame [simp]:
  "p_node_id (maybe_inject_stabilization raw gate cats m) = p_node_id raw"
  using inject_cases [of raw gate cats m] by auto

text \<open>Re-parsing the stored text of a plan that already carries the subtask adds no second one.\<close>

lemma inject_idempotent:
  "maybe_inject_stabilization (maybe_inject_stabilization raw gate cats m) gate cats m =
   maybe_inject_stabilization raw gate cats m"
proof (rule disjE [OF inject_cases [of raw gate cats m]])
  assume "\<exists>cmd. gate = Some cmd \<and> cmd \<noteq> [] \<and> STABILIZATION_SUBTASK_ID \<notin> st_id ` set (p_subtasks raw) \<and>
      maybe_inject_stabilization raw gate cats m = raw\<lparr>p_subtasks := p_subtasks raw @
        [build_stabilization_subtask (filter (\<lambda>i. i \<noteq> []) (map st_id (p_subtasks raw))) cmd cats m]\<rparr>"
  then show ?thesis
    by (elim exE conjE) (simp add: maybe_inject_stabilization_def [of "p_subtasks_update _ _"]
        build_stabilization_subtask_def)
qed simp

text \<open>In an order with dependencies first, a subtask that depends on all others comes last.\<close>

lemma ordered_after_last:
  assumes "ordered_after seen ts" and "z \<in> set ts" and "distinct (map st_id ts)"
    and "\<forall>s \<in> set ts. st_id s \<noteq> st_id z \<longrightarrow> st_id s \<in> set (st_depends_on z)"
    and "seen \<inter> st_id ` set ts = {}"
  shows "last ts = z"
  using assms
proof (induction ts arbitrary: seen)
  case Nil
  then show ?case by simp
next
  case (Cons s ts)
  show ?case
  proof (cases "z = s")
    case True
    have "ts = []"
    proof (rule ccontr)
      assume "ts \<noteq> []"
      then obtain u where "u \<in> set ts" by (cases ts) auto
      moreover have "st_id u \<noteq> st_id s" using Cons.prems(3) \<open>u \<in> set ts\<close> by (auto dest: sym)
      ultimately have "st_id u \<in> seen" using Cons.prems(1,4) True by auto
      with Cons.prems(5) \<open>u \<in> set ts\<close> show False by auto
    qed
    with True show ?thesis by simp
  next
    case False
    with Cons.prems(2) have z: "z \<in> set ts" by simp
    have "last ts = z"
      using Cons.prems z by (intro Cons.IH [of "insert (st_id s) seen"]) auto
    with z show ?thesis by auto
  qed
qed

section \<open>Properties\<close>

lemma check_plan_ok:
  "if distinct (map st_id (p_subtasks q)) \<and> deps_known (p_subtasks q) \<and> acyclic (sub_rel (p_subtasks q))
   then check_plan q = Inr q else \<exists>e. check_plan q = Inl e"
proof (cases "check_unique_and_known (p_subtasks q) = Inr ()")
  case True
  with topo_subtasks_spec [of "p_subtasks q"] check_unique_and_known_ok [of "p_subtasks q"]
  show ?thesis by (auto simp: check_plan_def split: sum.splits)
next
  case False
  then obtain e where "check_unique_and_known (p_subtasks q) = Inl e"
    by (cases "check_unique_and_known (p_subtasks q)") auto
  moreover have "\<not> (distinct (map st_id (p_subtasks q)) \<and> deps_known (p_subtasks q))"
    using False check_unique_and_known_ok [of "p_subtasks q"] by blast
  ultimately show ?thesis by (auto simp: check_plan_def)
qed

lemma validate_ok_iff:
  "validate_and_build_plan pyd raw expected gate cats m = Inr p \<longleftrightarrow>
     p = maybe_inject_stabilization raw gate cats m \<and> plan_fields_ok p \<and>
     distinct (map st_id (p_subtasks p)) \<and> deps_known (p_subtasks p) \<and> acyclic (sub_rel (p_subtasks p)) \<and>
     (expected = None \<or> expected = Some [] \<or> expected = Some (p_node_id p))"
proof (cases "check_plan (maybe_inject_stabilization raw gate cats m)")
  case (Inl e)
  with check_plan_ok [of "maybe_inject_stabilization raw gate cats m"] show ?thesis
    by (auto simp: validate_and_build_plan_def Let_def split: if_splits)
next
  case (Inr q)
  with check_plan_ok [of "maybe_inject_stabilization raw gate cats m"]
  have q: "q = maybe_inject_stabilization raw gate cats m" "distinct (map st_id (p_subtasks q))"
    "deps_known (p_subtasks q)" "acyclic (sub_rel (p_subtasks q))"
    by (auto split: if_splits)
  with Inr show ?thesis
    by (cases expected) (auto simp: validate_and_build_plan_def Let_def)
qed

text \<open>
  C13: a plan is accepted exactly when its fields are legal, the identifiers are distinct, every dependency
  names a subtask of the plan, the dependencies are acyclic and the node is the expected one; an accepted plan
  then has an order that lists every subtask once, dependencies first, and when the stabilization subtask was
  injected it runs last.
\<close>

theorem plan_accepted_iff:
  fixes raw :: plan
  defines "q gate cats m \<equiv> maybe_inject_stabilization raw gate cats m"
  shows "((\<exists>p. validate_and_build_plan pyd raw expected gate cats m = Inr p) \<longleftrightarrow>
      plan_fields_ok (q gate cats m) \<and> distinct (map st_id (p_subtasks (q gate cats m))) \<and>
      deps_known (p_subtasks (q gate cats m)) \<and> acyclic (sub_rel (p_subtasks (q gate cats m))) \<and>
      (expected = None \<or> expected = Some [] \<or> expected = Some (p_node_id raw))) \<and>
    (\<forall>p. validate_and_build_plan pyd raw expected gate cats m = Inr p \<longrightarrow>
      (\<exists>ts. plan_order p = Inr ts \<and> set ts = set (p_subtasks p) \<and> distinct ts \<and> ordered_after {} ts \<and>
        (p_subtasks p = p_subtasks raw \<or> last ts = last (p_subtasks p))))"
proof (intro conjI allI impI)
  show "(\<exists>p. validate_and_build_plan pyd raw expected gate cats m = Inr p) \<longleftrightarrow>
      plan_fields_ok (q gate cats m) \<and> distinct (map st_id (p_subtasks (q gate cats m))) \<and>
      deps_known (p_subtasks (q gate cats m)) \<and> acyclic (sub_rel (p_subtasks (q gate cats m))) \<and>
      (expected = None \<or> expected = Some [] \<or> expected = Some (p_node_id raw))"
    unfolding validate_ok_iff q_def by auto
next
  fix p assume "validate_and_build_plan pyd raw expected gate cats m = Inr p"
  then have p: "p = maybe_inject_stabilization raw gate cats m" "plan_fields_ok p"
    "distinct (map st_id (p_subtasks p))" "deps_known (p_subtasks p)" "acyclic (sub_rel (p_subtasks p))"
    unfolding validate_ok_iff by blast+
  then obtain ts where ts: "plan_order p = Inr ts" "set ts = set (p_subtasks p)" "distinct ts" "ordered_after {} ts"
    using topo_subtasks_spec [of "p_subtasks p"] by (auto simp: plan_order_def split: sum.splits)
  have "p_subtasks p = p_subtasks raw \<or> last ts = last (p_subtasks p)"
  proof (rule disjE [OF inject_cases [of raw gate cats m]])
    assume "maybe_inject_stabilization raw gate cats m = raw"
    with p(1) show ?thesis by simp
  next
    assume "\<exists>cmd. gate = Some cmd \<and> cmd \<noteq> [] \<and> STABILIZATION_SUBTASK_ID \<notin> st_id ` set (p_subtasks raw) \<and>
      maybe_inject_stabilization raw gate cats m = raw\<lparr>p_subtasks := p_subtasks raw @
        [build_stabilization_subtask (filter (\<lambda>i. i \<noteq> []) (map st_id (p_subtasks raw))) cmd cats m]\<rparr>"
    then obtain cmd where z: "p_subtasks p = p_subtasks raw @
        [build_stabilization_subtask (filter (\<lambda>i. i \<noteq> []) (map st_id (p_subtasks raw))) cmd cats m]"
      using p(1) by auto
    have named: "\<forall>s \<in> set (p_subtasks p). st_id s \<noteq> []"
      using p(2) by (auto simp: plan_fields_ok_def subtask_ok_def list_all_iff)
    have "last ts = last (p_subtasks p)"
    proof (rule ordered_after_last [OF ts(4)])
      show "last (p_subtasks p) \<in> set ts" using z ts(2) by simp
      show "distinct (map st_id ts)" using ts(2,3) p(3) by (simp add: distinct_map)
      show "\<forall>s \<in> set ts. st_id s \<noteq> st_id (last (p_subtasks p)) \<longrightarrow>
          st_id s \<in> set (st_depends_on (last (p_subtasks p)))"
        using z ts(2) named by (auto simp: build_stabilization_subtask_def)
    qed simp
    then show ?thesis ..
  qed
  with ts show "\<exists>ts. plan_order p = Inr ts \<and> set ts = set (p_subtasks p) \<and> distinct ts \<and>
      ordered_after {} ts \<and> (p_subtasks p = p_subtasks raw \<or> last ts = last (p_subtasks p))" by blast
qed

definition demo_subtask :: "string \<Rightarrow> string list \<Rightarrow> subtask" where
  "demo_subtask i deps = \<lparr>st_id = i, st_title = [], st_depends_on = deps, st_files_to_touch = [],
     st_boundary = [], st_acceptance = [''works''], st_notes = [], st_interfaces = [], st_kind = ''spec'',
     st_rubric_targets = [], st_standards_referenced = [], st_architecture_referenced = [],
     st_behavior_evidence_advanced = [], st_root_cause_hypothesis = []\<rparr>"

definition demo_raw_plan :: plan where
  "demo_raw_plan = \<lparr>p_node_id = ''T1'', p_summary = [],
     p_subtasks = [demo_subtask ''S2'' [''S1''], demo_subtask ''S1'' []], p_final_acceptance = [''green''],
     p_gauntlet_strategy = []\<rparr>"

definition demo_plan :: plan where
  "demo_plan = (case validate_and_build_plan (\<lambda>_. []) demo_raw_plan (Some ''T1'') (Some ''ci'')
     (Some [''tests'']) (Some 7) of Inr p \<Rightarrow> p)"

lemma demo_plan_built:
  "validate_and_build_plan (\<lambda>_. []) demo_raw_plan (Some ''T1'') (Some ''ci'') (Some [''tests'']) (Some 7) =
     Inr demo_plan"
  by code_simp

theorem plan_accepted_iff_witness:
  "map st_id (p_subtasks demo_plan) = [''S2'', ''S1'', STABILIZATION_SUBTASK_ID] \<and>
   (\<exists>ts. plan_order demo_plan = Inr ts \<and> set ts = set (p_subtasks demo_plan) \<and> distinct ts \<and>
      ordered_after {} ts \<and>
      (p_subtasks demo_plan = p_subtasks demo_raw_plan \<or> last ts = last (p_subtasks demo_plan)))"
  by (rule conjI [OF _ conjunct2 [OF plan_accepted_iff, rule_format, OF demo_plan_built]]) code_simp

end
