(* ===== verification/Retry.thy ===== *)
theory Retry
  imports Text StoreForensics
begin

text \<open>
  Why a subtask is tried again, and when to stop: \<^verbatim>\<open>quikode/retry_classify.py\<close>,
  \<^verbatim>\<open>quikode/workers/subtask_stop_loss.py\<close>, the cadence of \<^verbatim>\<open>subtask_progress.py\<close>, and the two
  readers of checker texts in \<^verbatim>\<open>task_worker.py\<close>. The regular expressions are those of the source, run by
  the matcher of theory Text.
\<close>

section \<open>Classification\<close>

datatype verdict = PASS | FAIL

primrec verdict_name :: "verdict \<Rightarrow> string" where
  "verdict_name PASS = ''PASS''"
| "verdict_name FAIL = ''FAIL''"

definition ALL_CATEGORIES :: "string list" where
  "ALL_CATEGORIES =
     [''doer_output_invalid'', ''checker_fail'', ''checker_timeout'', ''container_oom'',
      ''container_vanished'', ''agent_cli_rate_limit'', ''pre_commit_hook_fail'', ''network_timeout'',
      ''other'']"

text \<open>A gap of any characters but the line feed, and an optional single character.\<close>

definition gap :: rx where
  "gap = Many any_char"

definition maybe_any :: rx where
  "maybe_any = Maybe (One any_char)"

definition retry_patterns :: "(rx \<times> string) list" where
  "retry_patterns =
     [(seq_of [Word_edge, ilit ''429'', Word_edge, gap, Word_edge,
         alt_of [seq_of [ilit ''rate'', maybe_any, ilit ''limit''],
                 seq_of [ilit ''too'', maybe_any, ilit ''many'', maybe_any, ilit ''requests'']],
         Word_edge], ''agent_cli_rate_limit''),
      (seq_of [Word_edge, ilit ''rate'', maybe_any, ilit ''limit'', Maybe (Alt (ilit ''ed'') (ilit ''ing'')),
         Word_edge, gap, Word_edge,
         alt_of [seq_of [ilit ''retry'', maybe_any, ilit ''after''],
                 seq_of [ilit ''reset'', maybe_any, ilit ''at'']],
         Word_edge], ''agent_cli_rate_limit''),
      (seq_of [Word_edge, Alt (ilit ''quota'') (ilit ''usage limit''), ilit '' exceeded'', Word_edge],
       ''agent_cli_rate_limit''),
      (alt_of [lit ''OOMKilled'', lit ''out of memory'', lit ''exit code 137'', lit ''exit status 137''],
       ''container_oom''),
      (alt_of [ilit ''no such container'',
               seq_of [ilit ''container '', gap, ilit '' is not running''],
               ilit ''Error: No such container''], ''container_vanished''),
      (alt_of [ilit ''could not resolve host'',
               Seq (ilit ''connection '') (Alt (ilit ''timed out'') (ilit ''refused'')),
               ilit ''temporary failure in name resolution'', ilit ''network is unreachable'',
               ilit ''tls handshake timeout''], ''network_timeout''),
      (alt_of [seq_of [ilit ''lefthook '', gap, ilit ''FAIL''],
               seq_of [ilit ''pre-commit hook '', gap, ilit ''failed''],
               seq_of [ilit ''hook '', gap, ilit ''returned non-zero'']], ''pre_commit_hook_fail''),
      (alt_of [seq_of [ilit ''timed out after '', some_of is_digit, Maybe (ilit '' ''), ilit ''s''],
               seq_of [ilit ''timeout'', gap, ilit ''exceeded''],
               ilit ''context deadline exceeded''], ''checker_timeout'')]"

definition or_else :: "string \<Rightarrow> string \<Rightarrow> string" where
  "or_else s t = (if s = [] then t else s)"

definition snippet :: "string \<Rightarrow> rx_match \<Rightarrow> string" where
  "snippet blob m =
     take 120 (strip (map (\<lambda>c. if c = CHR 0x0A then CHR '' '' else c)
       (slice (m_start m - 15) (m_end m + 30) blob)))"

fun first_pattern :: "(rx \<times> string) list \<Rightarrow> string \<Rightarrow> (string \<times> rx_match) option" where
  "first_pattern [] blob = None"
| "first_pattern ((r, cat) # ps) blob =
     (case search r blob of Some m \<Rightarrow> Some (cat, m) | None \<Rightarrow> first_pattern ps blob)"

definition classify_retry_hint ::
  "string \<Rightarrow> string option \<Rightarrow> verdict option \<Rightarrow> (string \<times> string) option" where
  "classify_retry_hint sig_default hint verdict =
     (if hint = Some ''pre_commit'' then Some (''pre_commit_hook_fail'', sig_default)
      else if hint = Some ''network'' then Some (''network_timeout'', sig_default)
      else if hint \<noteq> Some ''checker'' then None
      else if map_option verdict_name verdict = Some ''FAIL'' then Some (''checker_fail'', ''verdict=FAIL'')
      else Some (''doer_output_invalid'', sig_default))"

definition classify_retry_blob ::
  "string \<Rightarrow> string \<Rightarrow> string option \<Rightarrow> int option \<Rightarrow> verdict option \<Rightarrow> string \<times> string" where
  "classify_retry_blob blob sig_default hint rc verdict =
     (case first_pattern retry_patterns blob of
        Some (cat, m) \<Rightarrow> (cat, or_else (snippet blob m) sig_default)
      | None \<Rightarrow>
          (case classify_retry_hint sig_default hint verdict of
             Some r \<Rightarrow> r
           | None \<Rightarrow> if rc = None then (''other'', ''rc=None'') else (''other'', sig_default)))"

definition classify_retry ::
  "int option \<Rightarrow> string \<Rightarrow> string \<Rightarrow> string option \<Rightarrow> verdict option \<Rightarrow> string option \<Rightarrow>
   string \<times> string" where
  "classify_retry rc stderr stdout hint verdict failure_layer =
     (let blob = join nl (filter (\<lambda>s. s \<noteq> []) [stderr, stdout]);
          sig_default = ''rc='' @ (case rc of None \<Rightarrow> ''?'' | Some n \<Rightarrow> str_int n);
          (category, signature) =
            (if rc = Some 137 then (''container_oom'', ''rc=137 (OOMKilled)'')
             else classify_retry_blob blob sig_default hint rc verdict)
      in if category \<in> {''checker_fail'', ''doer_output_invalid''}
         then (case failure_layer of
                 None \<Rightarrow> (category, signature)
               | Some l \<Rightarrow> if l = [] then (category, signature)
                           else (category, signature @ '',layer='' @ l))
         else (category, signature))"

text \<open>\<^verbatim>\<open>histogram\<close> counts unknown categories as \<^verbatim>\<open>other\<close>; a dictionary is its list of items in insertion order.\<close>

definition histogram :: "retry_reason list \<Rightarrow> (string \<times> nat) list" where
  "histogram reasons =
     fold (\<lambda>r. bump_count (if rr_category r \<in> set ALL_CATEGORIES then rr_category r else ''other'')) reasons []"

definition format_histogram :: "(string \<times> nat) list \<Rightarrow> string" where
  "format_histogram counts =
     join '' '' (map (\<lambda>(cat, n). cat @ ''='' @ str_nat n) (sort_key (\<lambda>(cat, n). - int n) counts))"

section \<open>Stop-loss\<close>

definition content_category :: "string \<Rightarrow> bool" where
  "content_category cat \<longleftrightarrow> cat \<in> {''checker_fail'', ''doer_output_invalid''}"

definition maybe_cannot_reproduce_stop_loss ::
  "string \<Rightarrow> (string \<times> string) list \<Rightarrow> nat \<Rightarrow> string option" where
  "maybe_cannot_reproduce_stop_loss subtask_id sigs k =
     (if k < 2 \<or> length sigs < k then None
      else if list_all (\<lambda>(cat, sig). content_category cat \<and> contains '',layer=cannot_reproduce'' sig) sigs
      then Some (''cannot_reproduce stop-loss: last '' @ str_nat k @ '' non-transient retries on '' @ subtask_id @
        '' produced empty diffs while the local objective gate and scoped witnesses were green '' @
        ''(layer=cannot_reproduce). GitHub CI is failing on environmental drift the local container cannot '' @
        ''reproduce '' @ [char_of (226 :: nat), char_of (128 :: nat), char_of (148 :: nat)] @
        '' likely cached intermediate artifacts, pinned-version divergence between local and CI runner, or a '' @
        ''missing checked-in generated file. Operator action: investigate the environment delta; do not retry '' @
        ''this recipe.'')
      else None)"

definition maybe_transport_stop_loss :: "(string \<times> string) list \<Rightarrow> nat \<Rightarrow> string option" where
  "maybe_transport_stop_loss sigs k =
     (if k < 2 \<or> length sigs < k then None
      else if list_all (\<lambda>(cat, sig). content_category cat \<and> contains '',layer=transport'' sig) sigs
      then Some (''transport stop-loss: last '' @ str_nat k @
        '' non-transient retries had empty diffs (layer=transport). The doer model is not producing work '' @
        ''product. Check `cfg.subtask_doer_model` and the underlying transport (litellm bridge, codex profile, '' @
        ''provider quota). Operator action: swap subtask_doer_model to a known-reliable model and resume.'')
      else None)"

definition maybe_same_signature_stop_loss :: "(string \<times> string) list \<Rightarrow> nat \<Rightarrow> string option" where
  "maybe_same_signature_stop_loss sigs n =
     (if n < 2 \<or> length sigs < n then None
      else case sigs of
             [] \<Rightarrow> None
           | first # rest \<Rightarrow>
               if list_all (\<lambda>s. s = first) (first # rest)
               then Some (''same-signature stop-loss: last '' @ str_nat n @
                 '' non-transient retries all share category='' @ py_repr (fst first) @ '' signature='' @
                 py_repr (take 120 (snd first)))
               else None)"

section \<open>Progress cadence\<close>

definition should_run_progress_check :: "int \<Rightarrow> int \<Rightarrow> int \<Rightarrow> bool" where
  "should_run_progress_check after every attempt =
     (if attempt < after then False
      else if every \<le> 0 then attempt = after
      else (attempt - after) mod every = 0)"

section \<open>Reading checker texts\<close>

text \<open>\<^verbatim>\<open>VERDICT:\s*(PASS|FAIL)\<close> and \<^verbatim>\<open>ROOT_CAUSE:\s*(.+?)(?:\n[A-Z_]+:|\Z)\<close>, case-insensitive.\<close>

definition verdict_re :: rx where
  "verdict_re = seq_of [ilit ''VERDICT:'', Many whitespace, Group ''1'' (Alt (ilit ''PASS'') (ilit ''FAIL''))]"

definition parse_verdict :: "string \<Rightarrow> verdict" where
  "parse_verdict txt =
     (case search verdict_re txt of
        None \<Rightarrow> FAIL
      | Some m \<Rightarrow>
          (case group ''1'' m txt of
             None \<Rightarrow> FAIL
           | Some w \<Rightarrow> if map lower_char w = ''pass'' then PASS else FAIL))"

definition upper_or_bar :: "char \<Rightarrow> bool" where
  "upper_or_bar c \<longleftrightarrow>
     (let n = of_char (lower_char c) :: nat in 97 \<le> n \<and> n \<le> 122) \<or> c = CHR ''_''"

definition root_cause_re :: rx where
  "root_cause_re =
     seq_of [ilit ''ROOT_CAUSE:'', Many whitespace, Group ''1'' (Seq (One (\<lambda>_. True)) (Few (\<lambda>_. True))),
             Alt (seq_of [One (\<lambda>c. c = CHR 0x0A), some_of upper_or_bar, One (\<lambda>c. c = CHR '':'')])
                 Text_end]"

definition extract_root_cause :: "string \<Rightarrow> string" where
  "extract_root_cause txt =
     (if txt = [] then []
      else case search root_cause_re txt of
             Some m \<Rightarrow>
               (case group ''1'' m txt of Some g \<Rightarrow> take 600 (strip g) | None \<Rightarrow> take 400 (strip txt))
           | None \<Rightarrow> take 400 (strip txt))"

end
