(* ===== verification/Agents.thy ===== *)
theory Agents
  imports Plans Retry
begin

text \<open>
  What the agents hand back: the records of \<^verbatim>\<open>agent_schemas.py\<close>, the result of one call of the agent layer, and
  the functions that read them: \<^verbatim>\<open>workers/subtask_render.py\<close> and the verdict mapping of \<^verbatim>\<open>agents/progress.py\<close>. An
  agent's answer is arbitrary data of these types; a schema constraint is a predicate on it.
\<close>

section \<open>Structured outputs\<close>

datatype row_verdict = Row_pass | Row_fail | Row_unknown

record checker_finding =
  cf_category :: string
  cf_verdict :: row_verdict
  cf_rationale :: string

record checker_output =
  co_verdict :: verdict
  co_findings :: "checker_finding list"
  co_overall_assessment :: string

datatype failure_layer =
    Layer_local_ci | Layer_rubric | Layer_standards | Layer_architecture | Layer_behavior
  | Layer_parse_failure | Layer_transport | Layer_cannot_reproduce

primrec layer_value :: "failure_layer \<Rightarrow> string" where
  "layer_value Layer_local_ci = ''local_ci''"
| "layer_value Layer_rubric = ''rubric''"
| "layer_value Layer_standards = ''standards''"
| "layer_value Layer_architecture = ''architecture''"
| "layer_value Layer_behavior = ''behavior''"
| "layer_value Layer_parse_failure = ''parse_failure''"
| "layer_value Layer_transport = ''transport''"
| "layer_value Layer_cannot_reproduce = ''cannot_reproduce''"

record triage_output =
  to_failure_layer :: failure_layer
  to_root_cause :: string
  to_file_line_cites :: "string list"
  to_teaching_narrative :: string

record audit_gap =
  ga_id :: string
  ga_description :: string
  ga_concrete_fix :: string
  ga_files :: "string list"

record category_score =
  cs_name :: string
  cs_score :: int
  cs_rationale :: string
  cs_gaps :: "audit_gap list"

datatype severity = Sev_low | Sev_medium | Sev_high | Sev_critical

primrec severity_value :: "severity \<Rightarrow> string" where
  "severity_value Sev_low = ''low''"
| "severity_value Sev_medium = ''medium''"
| "severity_value Sev_high = ''high''"
| "severity_value Sev_critical = ''critical''"

text \<open>\<^verbatim>\<open>StandardsFinding\<close> and \<^verbatim>\<open>ArchitectureFinding\<close> differ in the name of the reference only.\<close>

record aligned_finding =
  al_id :: string
  al_file :: string
  al_line :: "int option"
  al_severity :: severity
  al_doc_ref :: string
  al_description :: string
  al_concrete_fix :: string

record behavior_check =
  bc_behavior_id :: string
  bc_verified :: bool
  bc_evidence_seen :: string
  bc_gap_explanation :: string
  bc_concrete_fix :: string
  bc_completeness_gaps :: "audit_gap list"

datatype progress_value = Progressing | Flatline | Uncertain

record resolver_envelope =
  re_summary :: string
  re_files_touched :: "string list"
  re_gave_up :: bool
  re_give_up_reason :: string

datatype structured =
    S_planner plan
  | S_fixup fixup_plan
  | S_merge plan string
  | S_checker checker_output
  | S_triage triage_output
  | S_rubric "category_score list"
  | S_standards "aligned_finding list"
  | S_architecture "aligned_finding list"
  | S_behavior "behavior_check list"
  | S_progress progress_value string
  | S_resolver resolver_envelope
  | S_intent string "string list" string

definition schema_name :: "structured \<Rightarrow> string" where
  "schema_name v =
     (case v of
        S_planner _ \<Rightarrow> ''PlannerOutput''
      | S_fixup _ \<Rightarrow> ''FixupPlannerOutput''
      | S_merge _ _ \<Rightarrow> ''MergePlannerOutput''
      | S_checker _ \<Rightarrow> ''SubtaskCheckerOutput''
      | S_triage _ \<Rightarrow> ''SubtaskTriageOutput''
      | S_rubric _ \<Rightarrow> ''PrePRRubricAuditOutput''
      | S_standards _ \<Rightarrow> ''PrePRStandardsAuditOutput''
      | S_architecture _ \<Rightarrow> ''PrePRArchitectureAuditOutput''
      | S_behavior _ \<Rightarrow> ''PrePRBehaviorAuditOutput''
      | S_progress _ _ \<Rightarrow> ''ProgressVerdict''
      | S_resolver _ \<Rightarrow> ''ConflictResolverEnvelope''
      | S_intent _ _ _ \<Rightarrow> ''IntentReviewVerdict'')"

text \<open>The result of \<^verbatim>\<open>agent.invoke\<close>.\<close>

record agent_result =
  ag_rc :: int
  ag_raw_text :: string
  ag_structured :: "structured option"
  ag_parse_errors :: "string list"
  ag_transient :: bool
  ag_category :: string
  ag_stderr_excerpt :: string
  ag_duration_s :: time
  ag_tokens_input :: "int option"
  ag_tokens_output :: "int option"
  ag_cost_usd :: "int option"

section \<open>Rendering for the artifacts\<close>

primrec row_verdict_upper :: "row_verdict \<Rightarrow> string" where
  "row_verdict_upper Row_pass = ''PASS''"
| "row_verdict_upper Row_fail = ''FAIL''"
| "row_verdict_upper Row_unknown = ''UNKNOWN''"

definition render_finding :: "checker_finding \<Rightarrow> string" where
  "render_finding f =
     ''  - ['' @ row_verdict_upper (cf_verdict f) @ ''] '' @ cf_category f @
     (if cf_rationale f \<noteq> [] then '' '' @ em_dash @ '' '' @ cf_rationale f else [])"

definition render_checker_output :: "checker_output \<Rightarrow> string" where
  "render_checker_output out =
     join nl
       ([''VERDICT: '' @ verdict_name (co_verdict out)] @
        (if co_overall_assessment out \<noteq> [] then [''ROOT_CAUSE: '' @ take 600 (co_overall_assessment out)] else []) @
        (if co_findings out \<noteq> [] then ''FINDINGS:'' # map render_finding (co_findings out) else []))"

definition render_triage_output :: "triage_output \<Rightarrow> string" where
  "render_triage_output out =
     join nl
       ([''failure_layer: '' @ layer_value (to_failure_layer out), ''root_cause: '' @ to_root_cause out] @
        (if to_file_line_cites out \<noteq> []
         then ''file_line_cites:'' # map (\<lambda>c. ''  - '' @ c) (to_file_line_cites out) else []) @
        (if to_teaching_narrative out \<noteq> []
         then [''teaching_narrative:'', to_teaching_narrative out] else []))"

section \<open>Witness results\<close>

record witness_result =
  wr_rc :: "int option"
  wr_stdout_excerpt :: string
  wr_stderr_excerpt :: string
  wr_runtime_ms :: time
  wr_classification :: string
  wr_note :: string

text \<open>\<^verbatim>\<open>int(entry.get("rc", 1) or 1) != 0\<close>: the \<^verbatim>\<open>or\<close> turns a zero (and a null) into one.\<close>

definition rc_or_one :: "int option \<Rightarrow> int" where
  "rc_or_one rc = (case rc of None \<Rightarrow> 1 | Some n \<Rightarrow> if n = 0 then 1 else n)"

definition witnesses_all_passed :: "(string \<times> witness_result) list \<Rightarrow> bool" where
  "witnesses_all_passed results \<longleftrightarrow>
     list_all (\<lambda>(_, r). \<not> rc_or_one (wr_rc r) \<noteq> 0 \<and> map upper_ascii (wr_classification r) \<noteq> ''FAIL'') results"

section \<open>Progress verdicts\<close>

datatype worker_verdict = W_progressing | W_flatlined | W_uncertain

primrec worker_verdict_value :: "worker_verdict \<Rightarrow> string" where
  "worker_verdict_value W_progressing = ''progressing''"
| "worker_verdict_value W_flatlined = ''flatlined''"
| "worker_verdict_value W_uncertain = ''uncertain''"

primrec to_worker_verdict :: "progress_value \<Rightarrow> worker_verdict" where
  "to_worker_verdict Flatline = W_flatlined"
| "to_worker_verdict Progressing = W_progressing"
| "to_worker_verdict Uncertain = W_uncertain"

text \<open>What \<^verbatim>\<open>ProgressAgent.check\<close> makes of the call: an exception, a failed run, no valid output, or a verdict.\<close>

definition progress_of :: "py_error + agent_result \<Rightarrow> worker_verdict \<times> string" where
  "progress_of res =
     (case res of
        Inl e \<Rightarrow> (W_uncertain, ''agent transient failure: '' @ take 200 (err_text e))
      | Inr r \<Rightarrow>
          if ag_rc r \<noteq> 0 then (W_uncertain, ''agent rc='' @ str_int (ag_rc r) @ ''; treating as uncertain'')
          else if ag_parse_errors r \<noteq> [] then (W_uncertain, take 500 (join ''; '' (ag_parse_errors r)))
          else (case ag_structured r of
                  None \<Rightarrow> (W_uncertain, ''agent returned no structured output'')
                | Some (S_progress v rationale) \<Rightarrow> (to_worker_verdict v, rationale)
                | Some v \<Rightarrow> (W_uncertain, ''progress agent returned unexpected schema '' @ schema_name v @
                               ''; expected ProgressVerdict'')))"

section \<open>Facts\<close>

lemma rc_or_one_nonzero: "rc_or_one rc \<noteq> 0"
  by (simp add: rc_or_one_def split: option.splits)

text \<open>Any witness at all, whatever its exit code, makes the check fail.\<close>

lemma witnesses_all_passed_iff: "witnesses_all_passed rs \<longleftrightarrow> rs = []"
  by (cases rs) (auto simp: witnesses_all_passed_def rc_or_one_nonzero)

text \<open>The rendered output of a checker starts with its verdict line.\<close>

lemma render_checker_head:
  "\<exists>rest. render_checker_output out = ''VERDICT: '' @ verdict_name (co_verdict out) @ rest"
  unfolding render_checker_output_def
  by (cases "co_overall_assessment out = []"; cases "co_findings out = []") auto

end
