(* ===== verification/Contract.thy ===== *)
theory Contract
  imports Text
begin

text \<open>
  \<^verbatim>\<open>quikode/evaluation_contract.py\<close> and \<^verbatim>\<open>evaluation_contract_serde.py\<close>: the rubric every agent of a
  task is graded against, its persisted form and how it is read back; with the lookups of
  \<^verbatim>\<open>standards_profiles.py\<close> and \<^verbatim>\<open>architecture_docs.py\<close> that validators use. A JSON value is a term;
  writing and parsing its text is the \<^verbatim>\<open>json\<close> module's business, which keeps the value up to the order of
  object keys. A path is its string in pathlib's normal form.
\<close>

section \<open>JSON values\<close>

datatype json =
    JNull
  | JBool bool
  | JNum int
  | JStr string
  | JArr "json list"
  | JObj "(string \<times> json) list"

text \<open>\<^verbatim>\<open>repr(v)\<close> and \<^verbatim>\<open>str(v)\<close> of the Python value.\<close>

fun json_repr :: "json \<Rightarrow> string" where
  "json_repr JNull = ''None''"
| "json_repr (JBool b) = (if b then ''True'' else ''False'')"
| "json_repr (JNum n) = str_int n"
| "json_repr (JStr s) = py_repr s"
| "json_repr (JArr xs) = ''['' @ join '', '' (map json_repr xs) @ '']''"
| "json_repr (JObj kvs) = ''{'' @ join '', '' (map (\<lambda>(k, v). py_repr k @ '': '' @ json_repr v) kvs) @ ''}''"

definition json_str :: "json \<Rightarrow> string" where
  "json_str v = (case v of JStr s \<Rightarrow> s | _ \<Rightarrow> json_repr v)"

text \<open>\<^verbatim>\<open>json.loads(json.dumps(v, sort_keys=True))\<close>.\<close>

fun sort_keys :: "json \<Rightarrow> json" where
  "sort_keys (JArr xs) = JArr (map sort_keys xs)"
| "sort_keys (JObj kvs) = JObj (sort_key fst (map (\<lambda>(k, v). (k, sort_keys v)) kvs))"
| "sort_keys v = v"

text \<open>Computations that may raise.\<close>

definition ebind :: "'e + 'a \<Rightarrow> ('a \<Rightarrow> 'e + 'b) \<Rightarrow> 'e + 'b" where
  "ebind x f = (case x of Inl e \<Rightarrow> Inl e | Inr a \<Rightarrow> f a)"

lemma ebind_simps [simp]: "ebind (Inl e) f = Inl e" "ebind (Inr a) f = f a"
  by (simp_all add: ebind_def)

fun etraverse :: "('a \<Rightarrow> 'e + 'b) \<Rightarrow> 'a list \<Rightarrow> 'e + 'b list" where
  "etraverse f [] = Inr []"
| "etraverse f (x # xs) = ebind (f x) (\<lambda>y. ebind (etraverse f xs) (\<lambda>ys. Inr (y # ys)))"

section \<open>The contract\<close>

datatype importance = Imp_low | Imp_medium | Imp_high | Imp_critical

primrec importance_value :: "importance \<Rightarrow> string" where
  "importance_value Imp_low = ''low''"
| "importance_value Imp_medium = ''medium''"
| "importance_value Imp_high = ''high''"
| "importance_value Imp_critical = ''critical''"

record standards_doc =
  sd_profile :: string
  sd_category :: string
  sd_name :: string
  sd_path :: string
  sd_repo_relative :: string
  sd_importance :: importance
  sd_applies_to :: "string list"
  sd_applies_to_languages :: "string list"
  sd_applies_to_domains :: "string list"
  sd_body :: string
  sd_sections :: "string list"

record standards_profile =
  sp_name :: string
  sp_root :: string
  sp_docs :: "standards_doc list"

record arch_doc =
  ad_path :: string
  ad_repo_relative :: string
  ad_title :: string
  ad_sections :: "string list"
  ad_body :: string

record arch_corpus =
  ac_root :: string
  ac_docs :: "arch_doc list"

datatype stage_name = Stage_local_ci | Stage_rubric | Stage_standards | Stage_architecture | Stage_behavior

primrec stage_value :: "stage_name \<Rightarrow> string" where
  "stage_value Stage_local_ci = ''local_ci''"
| "stage_value Stage_rubric = ''rubric''"
| "stage_value Stage_standards = ''standards''"
| "stage_value Stage_architecture = ''architecture''"
| "stage_value Stage_behavior = ''behavior''"

record stage_rubric =
  sr_name :: stage_name
  sr_one_line :: string
  sr_threshold :: string
  sr_grading_template :: string
  sr_source_text :: string

record standards_stage =
  sg_one_line :: string
  sg_threshold :: string
  sg_grading_template :: string
  sg_profiles :: "standards_profile list"
  sg_source_text :: string

record architecture_stage =
  ag_one_line :: string
  ag_threshold :: string
  ag_grading_template :: string
  ag_corpus :: arch_corpus
  ag_source_text :: string

record contract =
  ct_task_id :: string
  ct_local_ci :: stage_rubric
  ct_rubric :: stage_rubric
  ct_standards :: standards_stage
  ct_architecture :: architecture_stage
  ct_behavior :: stage_rubric

section \<open>Encoding\<close>

definition strs :: "string list \<Rightarrow> json" where
  "strs xs = JArr (map JStr xs)"

definition standards_doc_to_jsonable :: "standards_doc \<Rightarrow> json" where
  "standards_doc_to_jsonable d =
     JObj [(''profile'', JStr (sd_profile d)), (''category'', JStr (sd_category d)),
           (''name'', JStr (sd_name d)), (''path'', JStr (sd_path d)),
           (''repo_relative'', JStr (sd_repo_relative d)),
           (''importance'', JStr (importance_value (sd_importance d))),
           (''applies_to'', strs (sd_applies_to d)),
           (''applies_to_languages'', strs (sd_applies_to_languages d)),
           (''applies_to_domains'', strs (sd_applies_to_domains d)), (''body'', JStr (sd_body d)),
           (''sections'', strs (sd_sections d))]"

definition profile_to_jsonable :: "standards_profile \<Rightarrow> json" where
  "profile_to_jsonable p =
     JObj [(''name'', JStr (sp_name p)), (''root'', JStr (sp_root p)),
           (''docs'', JArr (map standards_doc_to_jsonable (sp_docs p)))]"

definition arch_doc_to_jsonable :: "arch_doc \<Rightarrow> json" where
  "arch_doc_to_jsonable d =
     JObj [(''path'', JStr (ad_path d)), (''repo_relative'', JStr (ad_repo_relative d)),
           (''title'', JStr (ad_title d)), (''sections'', strs (ad_sections d)),
           (''body'', JStr (ad_body d))]"

definition arch_corpus_to_jsonable :: "arch_corpus \<Rightarrow> json" where
  "arch_corpus_to_jsonable c =
     JObj [(''root'', JStr (ac_root c)), (''docs'', JArr (map arch_doc_to_jsonable (ac_docs c)))]"

text \<open>\<^verbatim>\<open>dataclasses.asdict\<close> of a generic stage.\<close>

definition stage_asdict :: "stage_rubric \<Rightarrow> json" where
  "stage_asdict s =
     JObj [(''name'', JStr (stage_value (sr_name s))), (''one_line'', JStr (sr_one_line s)),
           (''threshold'', JStr (sr_threshold s)), (''grading_template'', JStr (sr_grading_template s)),
           (''source_text'', JStr (sr_source_text s))]"

definition to_jsonable :: "contract \<Rightarrow> json" where
  "to_jsonable c =
     JObj [(''task_id'', JStr (ct_task_id c)), (''local_ci'', stage_asdict (ct_local_ci c)),
           (''rubric'', stage_asdict (ct_rubric c)),
           (''standards'',
              JObj [(''name'', JStr ''standards''), (''one_line'', JStr (sg_one_line (ct_standards c))),
                    (''threshold'', JStr (sg_threshold (ct_standards c))),
                    (''grading_template'', JStr (sg_grading_template (ct_standards c))),
                    (''profiles'', JArr (map profile_to_jsonable (sg_profiles (ct_standards c)))),
                    (''source_text'', JStr (sg_source_text (ct_standards c)))]),
           (''architecture'',
              JObj [(''name'', JStr ''architecture''), (''one_line'', JStr (ag_one_line (ct_architecture c))),
                    (''threshold'', JStr (ag_threshold (ct_architecture c))),
                    (''grading_template'', JStr (ag_grading_template (ct_architecture c))),
                    (''corpus'', arch_corpus_to_jsonable (ag_corpus (ct_architecture c))),
                    (''source_text'', JStr (ag_source_text (ct_architecture c)))]),
           (''behavior'', stage_asdict (ct_behavior c))]"

section \<open>Decoding\<close>

text \<open>\<^verbatim>\<open>blob.get(key)\<close> of a value known to be a dictionary.\<close>

definition jget :: "json \<Rightarrow> string \<Rightarrow> json option" where
  "jget v k = (case v of JObj kvs \<Rightarrow> map_of kvs k | _ \<Rightarrow> None)"

definition is_obj :: "json \<Rightarrow> bool" where
  "is_obj v = (case v of JObj _ \<Rightarrow> True | _ \<Rightarrow> False)"

text \<open>\<^verbatim>\<open>str(blob.get(key, default))\<close>; and \<^verbatim>\<open>_get_str\<close>, which also takes the default for null.\<close>

definition jstr_or :: "json \<Rightarrow> string \<Rightarrow> string \<Rightarrow> string" where
  "jstr_or v k dflt = (case jget v k of None \<Rightarrow> dflt | Some x \<Rightarrow> json_str x)"

definition get_str :: "json \<Rightarrow> string \<Rightarrow> string" where
  "get_str v k = (case jget v k of None \<Rightarrow> [] | Some JNull \<Rightarrow> [] | Some x \<Rightarrow> json_str x)"

definition str_tuple_from_list :: "json option \<Rightarrow> string list" where
  "str_tuple_from_list v = (case v of Some (JArr xs) \<Rightarrow> map json_str xs | _ \<Rightarrow> [])"

definition to_path :: "string \<Rightarrow> string" where
  "to_path s = (if s = [] then ''.'' else s)"

definition importance_from_jsonable :: "string \<Rightarrow> py_error + importance" where
  "importance_from_jsonable t =
     (if t = ''low'' then Inr Imp_low
      else if t = ''medium'' then Inr Imp_medium
      else if t = ''high'' then Inr Imp_high
      else if t = ''critical'' then Inr Imp_critical
      else Inl (ValueError (''importance '' @ py_repr t @ '' not in low/medium/high/critical'')))"

definition coerce_stage_name :: "string \<Rightarrow> py_error + stage_name" where
  "coerce_stage_name t =
     (if t = ''local_ci'' then Inr Stage_local_ci
      else if t = ''rubric'' then Inr Stage_rubric
      else if t = ''standards'' then Inr Stage_standards
      else if t = ''architecture'' then Inr Stage_architecture
      else if t = ''behavior'' then Inr Stage_behavior
      else Inl (ValueError (''unknown stage name '' @ py_repr t @ ''; expected one of '' @
        json_repr (strs [''local_ci'', ''rubric'', ''standards'', ''architecture'', ''behavior'']))))"

definition standards_doc_from_jsonable :: "json \<Rightarrow> py_error + standards_doc" where
  "standards_doc_from_jsonable b =
     ebind (importance_from_jsonable (jstr_or b ''importance'' ''low'')) (\<lambda>imp. Inr
       \<lparr>sd_profile = jstr_or b ''profile'' [], sd_category = jstr_or b ''category'' [],
        sd_name = jstr_or b ''name'' [], sd_path = to_path (jstr_or b ''path'' []),
        sd_repo_relative = jstr_or b ''repo_relative'' [], sd_importance = imp,
        sd_applies_to = str_tuple_from_list (jget b ''applies_to''),
        sd_applies_to_languages = str_tuple_from_list (jget b ''applies_to_languages''),
        sd_applies_to_domains = str_tuple_from_list (jget b ''applies_to_domains''),
        sd_body = jstr_or b ''body'' [], sd_sections = str_tuple_from_list (jget b ''sections'')\<rparr>)"

text \<open>The objects of a list value; anything else is skipped.\<close>

definition objects :: "json option \<Rightarrow> json list" where
  "objects v = (case v of Some (JArr xs) \<Rightarrow> filter is_obj xs | _ \<Rightarrow> [])"

definition profile_from_jsonable :: "json \<Rightarrow> py_error + standards_profile" where
  "profile_from_jsonable b =
     ebind (etraverse standards_doc_from_jsonable (objects (jget b ''docs''))) (\<lambda>docs. Inr
       \<lparr>sp_name = jstr_or b ''name'' [], sp_root = to_path (jstr_or b ''root'' []), sp_docs = docs\<rparr>)"

definition arch_doc_from_jsonable :: "json \<Rightarrow> arch_doc" where
  "arch_doc_from_jsonable b =
     \<lparr>ad_path = to_path (jstr_or b ''path'' []), ad_repo_relative = jstr_or b ''repo_relative'' [],
      ad_title = jstr_or b ''title'' [], ad_sections = str_tuple_from_list (jget b ''sections''),
      ad_body = jstr_or b ''body'' []\<rparr>"

definition arch_corpus_from_jsonable :: "json \<Rightarrow> arch_corpus" where
  "arch_corpus_from_jsonable b =
     \<lparr>ac_root = to_path (jstr_or b ''root'' []),
      ac_docs = map arch_doc_from_jsonable (objects (jget b ''docs''))\<rparr>"

definition type_name :: "json \<Rightarrow> string" where
  "type_name v =
     (case v of JNull \<Rightarrow> ''NoneType'' | JBool _ \<Rightarrow> ''bool'' | JNum _ \<Rightarrow> ''int'' | JStr _ \<Rightarrow> ''str''
      | JArr _ \<Rightarrow> ''list'' | JObj _ \<Rightarrow> ''dict'')"

definition decode_stage :: "json \<Rightarrow> py_error + stage_rubric" where
  "decode_stage b =
     (if \<not> is_obj b then Inl (ValueError (''expected stage dict, got '' @ type_name b))
      else ebind (coerce_stage_name (case jget b ''name'' of None \<Rightarrow> ''None'' | Some v \<Rightarrow> json_str v)) (\<lambda>n. Inr
        \<lparr>sr_name = n, sr_one_line = get_str b ''one_line'', sr_threshold = get_str b ''threshold'',
         sr_grading_template = get_str b ''grading_template'', sr_source_text = get_str b ''source_text''\<rparr>))"

definition decode_standards :: "json \<Rightarrow> py_error + standards_stage" where
  "decode_standards b =
     (if \<not> is_obj b then Inl (ValueError (''expected standards stage dict, got '' @ type_name b))
      else ebind (etraverse profile_from_jsonable (objects (jget b ''profiles''))) (\<lambda>ps. Inr
        \<lparr>sg_one_line = get_str b ''one_line'', sg_threshold = get_str b ''threshold'',
         sg_grading_template = get_str b ''grading_template'', sg_profiles = ps,
         sg_source_text = get_str b ''source_text''\<rparr>))"

definition decode_architecture :: "json \<Rightarrow> py_error + architecture_stage" where
  "decode_architecture b =
     (if \<not> is_obj b then Inl (ValueError (''expected architecture stage dict, got '' @ type_name b))
      else Inr
        \<lparr>ag_one_line = get_str b ''one_line'', ag_threshold = get_str b ''threshold'',
         ag_grading_template = get_str b ''grading_template'',
         ag_corpus =
           (case jget b ''corpus'' of
              None \<Rightarrow> arch_corpus_from_jsonable (JObj [])
            | Some c \<Rightarrow> if is_obj c then arch_corpus_from_jsonable c else \<lparr>ac_root = ''.'', ac_docs = []\<rparr>),
         ag_source_text = get_str b ''source_text''\<rparr>)"

text \<open>\<^verbatim>\<open>raw[key]\<close>.\<close>

definition require :: "json \<Rightarrow> string \<Rightarrow> py_error + json" where
  "require b k = (case jget b k of None \<Rightarrow> Inl (KeyError k) | Some v \<Rightarrow> Inr v)"

definition decode_contract :: "json \<Rightarrow> py_error + contract" where
  "decode_contract b =
     ebind (require b ''task_id'') (\<lambda>tid.
     ebind (ebind (require b ''local_ci'') decode_stage) (\<lambda>lc.
     ebind (ebind (require b ''rubric'') decode_stage) (\<lambda>ru.
     ebind (ebind (require b ''standards'') decode_standards) (\<lambda>st.
     ebind (ebind (require b ''architecture'') decode_architecture) (\<lambda>ar.
     ebind (ebind (require b ''behavior'') decode_stage) (\<lambda>be. Inr
       \<lparr>ct_task_id = json_str tid, ct_local_ci = lc, ct_rubric = ru, ct_standards = st,
        ct_architecture = ar, ct_behavior = be\<rparr>))))))"

text \<open>
  The files under the state directory, by task: \<^verbatim>\<open>persist\<close> writes one, \<^verbatim>\<open>load\<close> reads it or reports
  that it does not exist.
\<close>

type_synonym contract_files = "(string \<times> json) list"

definition persist :: "contract \<Rightarrow> string \<Rightarrow> contract_files \<Rightarrow> contract_files" where
  "persist c tid fs = (tid, sort_keys (to_jsonable c)) # filter (\<lambda>(t, _). t \<noteq> tid) fs"

definition load_contract :: "contract_files \<Rightarrow> string \<Rightarrow> (py_error + contract) option" where
  "load_contract fs tid = map_option decode_contract (map_of fs tid)"

section \<open>Lookups\<close>

definition find_doc :: "standards_profile list \<Rightarrow> string \<Rightarrow> standards_doc option" where
  "find_doc profiles doc_path =
     List.find (\<lambda>d. sd_repo_relative d = strip doc_path) (concat (map sp_docs profiles))"

text \<open>\<^verbatim>\<open>" ".join(s.split()).lower()\<close>.\<close>

definition fold_heading :: "string \<Rightarrow> string" where
  "fold_heading s = map lower_char (join '' '' (words s))"

definition has_heading :: "string list \<Rightarrow> string \<Rightarrow> bool" where
  "has_heading headings section \<longleftrightarrow>
     fold_heading section \<noteq> [] \<and> list_ex (\<lambda>h. fold_heading h = fold_heading section) headings"

definition find_section :: "standards_doc \<Rightarrow> string \<Rightarrow> bool" where
  "find_section doc section \<longleftrightarrow> has_heading (sd_sections doc) section"

definition find_arch_doc :: "arch_corpus \<Rightarrow> string \<Rightarrow> arch_doc option" where
  "find_arch_doc corpus doc_path = List.find (\<lambda>d. ad_repo_relative d = strip doc_path) (ac_docs corpus)"

definition find_arch_section :: "arch_doc \<Rightarrow> string \<Rightarrow> bool" where
  "find_arch_section doc section \<longleftrightarrow> has_heading (ad_sections doc) section"

text \<open>
  Whether a stored contract has an empty corpus that the present configuration could fill; the loaded
  corpora are what \<^verbatim>\<open>load_profiles\<close> and \<^verbatim>\<open>load_architecture\<close> return.
\<close>

definition has_docs :: "standards_profile list \<Rightarrow> bool" where
  "has_docs ps \<longleftrightarrow> list_ex (\<lambda>p. sp_docs p \<noteq> []) ps"

definition audit_corpora_need_refresh ::
  "contract \<Rightarrow> standards_profile list \<Rightarrow> arch_corpus \<Rightarrow> bool" where
  "audit_corpora_need_refresh c loaded_profiles loaded_corpus \<longleftrightarrow>
     (let standards_empty = sg_profiles (ct_standards c) = [] \<or> \<not> has_docs (sg_profiles (ct_standards c));
          architecture_empty = ac_docs (ag_corpus (ct_architecture c)) = []
      in if \<not> standards_empty \<and> \<not> architecture_empty then False
         else if standards_empty \<and> has_docs loaded_profiles then True
         else architecture_empty \<and> ac_docs loaded_corpus \<noteq> [])"

text \<open>One entry of \<^verbatim>\<open>expected_evidence\<close>: a dictionary, of which a missing key is \<^const>\<open>None\<close>.\<close>

definition option_list :: "'a option \<Rightarrow> 'a list" where
  "option_list x = (case x of None \<Rightarrow> [] | Some a \<Rightarrow> [a])"

record evidence =
  ev_id :: "string option"
  ev_behavior_id :: "string option"
  ev_kind :: "string option"
  ev_description :: "string option"
  ev_witnesses :: "string list"
  ev_command :: "string option"
  ev_witness_command :: "string option"

definition evidence_canonical_id :: "evidence \<Rightarrow> string" where
  "evidence_canonical_id ev =
     (let kind = (case ev_kind ev of None \<Rightarrow> ''evidence'' | Some k \<Rightarrow> k)
      in case filter (\<lambda>i. i \<noteq> []) (option_list (ev_id ev)) of
           i # _ \<Rightarrow> i
         | [] \<Rightarrow>
             (case filter (\<lambda>i. i \<noteq> []) (option_list (ev_behavior_id ev)) of
                b # _ \<Rightarrow>
                  if ev_witnesses ev \<noteq> [] then b @ ''-'' @ kind @ ''-'' @ join ''-'' (ev_witnesses ev)
                  else b @ ''-'' @ kind
              | [] \<Rightarrow>
                  (let desc = map (\<lambda>c. lower_char (if c = CHR '' '' then CHR ''-'' else c))
                         (strip (take 32 (case ev_description ev of None \<Rightarrow> [] | Some t \<Rightarrow> t)))
                   in if desc \<noteq> [] then ''ev-'' @ kind @ ''-'' @ desc else ''ev-'' @ kind)))"

section \<open>Facts\<close>

lemma map_of_sort_key: "distinct (map fst kvs) \<Longrightarrow> map_of (sort_key fst kvs) = map_of kvs"
  by (subst map_of_inject_set) (auto simp: distinct_map)

lemma jget_sort_keys:
  "distinct (map fst kvs) \<Longrightarrow> jget (sort_keys (JObj kvs)) k = map_option sort_keys (map_of kvs k)"
proof -
  have "map_of (map (\<lambda>(a, v). (a, sort_keys v)) kvs) k = map_option sort_keys (map_of kvs k)"
    by (induction kvs) auto
  moreover assume "distinct (map fst kvs)"
  ultimately show ?thesis by (simp add: jget_def map_of_sort_key comp_def case_prod_unfold)
qed

lemma sort_keys_strs [simp]: "sort_keys (strs xs) = strs xs"
  by (simp add: strs_def comp_def)

lemma str_tuple_strs [simp]: "str_tuple_from_list (Some (strs xs)) = xs"
  by (simp add: str_tuple_from_list_def strs_def comp_def json_str_def)

lemma is_obj_sort_keys [simp]: "is_obj (sort_keys (JObj kvs))"
  by (simp add: is_obj_def)

lemma to_path_id [simp]: "p \<noteq> [] \<Longrightarrow> to_path p = p"
  by (simp add: to_path_def)

lemma json_str_JStr [simp]: "json_str (JStr s) = s"
  by (simp add: json_str_def)

lemma importance_round_trip [simp]: "importance_from_jsonable (importance_value i) = Inr i"
  by (cases i) (simp_all add: importance_from_jsonable_def)

lemma stage_name_round_trip [simp]: "coerce_stage_name (stage_value n) = Inr n"
  by (cases n) (simp_all add: coerce_stage_name_def)

lemma etraverse_map:
  "(\<And>x. x \<in> set xs \<Longrightarrow> f (g x) = Inr x) \<Longrightarrow> etraverse f (map g xs) = Inr xs"
  by (induction xs) simp_all

lemma objects_arr:
  "(\<And>x. x \<in> set xs \<Longrightarrow> is_obj (g x)) \<Longrightarrow> objects (Some (JArr (map g xs))) = map g xs"
  by (simp add: objects_def filter_id_conv)

text \<open>Paths are never empty strings: \<^verbatim>\<open>str(Path())\<close> is a dot.\<close>

definition doc_paths_ok :: "standards_doc \<Rightarrow> bool" where
  "doc_paths_ok d \<longleftrightarrow> sd_path d \<noteq> []"

definition profile_paths_ok :: "standards_profile \<Rightarrow> bool" where
  "profile_paths_ok p \<longleftrightarrow> sp_root p \<noteq> [] \<and> list_all doc_paths_ok (sp_docs p)"

definition corpus_paths_ok :: "arch_corpus \<Rightarrow> bool" where
  "corpus_paths_ok c \<longleftrightarrow> ac_root c \<noteq> [] \<and> list_all (\<lambda>d. ad_path d \<noteq> []) (ac_docs c)"

definition contract_paths_ok :: "contract \<Rightarrow> bool" where
  "contract_paths_ok c \<longleftrightarrow>
     list_all profile_paths_ok (sg_profiles (ct_standards c)) \<and>
     corpus_paths_ok (ag_corpus (ct_architecture c))"

lemmas decode_simps = jget_sort_keys jstr_or_def get_str_def json_str_JStr

lemma standards_doc_round_trip:
  "doc_paths_ok d \<Longrightarrow> standards_doc_from_jsonable (sort_keys (standards_doc_to_jsonable d)) = Inr d"
  unfolding standards_doc_to_jsonable_def standards_doc_from_jsonable_def
  by (simp add: decode_simps doc_paths_ok_def del: sort_keys.simps(2))

lemma profile_round_trip:
  assumes "profile_paths_ok p"
  shows "profile_from_jsonable (sort_keys (profile_to_jsonable p)) = Inr p"
proof -
  have "objects (Some (JArr (map (\<lambda>d. sort_keys (standards_doc_to_jsonable d)) (sp_docs p)))) =
      map (\<lambda>d. sort_keys (standards_doc_to_jsonable d)) (sp_docs p)"
    by (rule objects_arr) (simp add: standards_doc_to_jsonable_def is_obj_def)
  moreover have "etraverse standards_doc_from_jsonable
      (map (\<lambda>d. sort_keys (standards_doc_to_jsonable d)) (sp_docs p)) = Inr (sp_docs p)"
    using assms by (intro etraverse_map standards_doc_round_trip) (auto simp: profile_paths_ok_def list_all_iff)
  ultimately show ?thesis
    using assms unfolding profile_to_jsonable_def profile_from_jsonable_def
    by (simp add: decode_simps profile_paths_ok_def comp_def del: sort_keys.simps(2))
qed

lemma arch_doc_round_trip:
  "ad_path d \<noteq> [] \<Longrightarrow> arch_doc_from_jsonable (sort_keys (arch_doc_to_jsonable d)) = d"
  unfolding arch_doc_to_jsonable_def arch_doc_from_jsonable_def
  by (simp add: decode_simps del: sort_keys.simps(2))

lemma corpus_round_trip:
  assumes "corpus_paths_ok c"
  shows "arch_corpus_from_jsonable (sort_keys (arch_corpus_to_jsonable c)) = c"
proof -
  have "objects (Some (JArr (map (\<lambda>d. sort_keys (arch_doc_to_jsonable d)) (ac_docs c)))) =
      map (\<lambda>d. sort_keys (arch_doc_to_jsonable d)) (ac_docs c)"
    by (rule objects_arr) (simp add: arch_doc_to_jsonable_def is_obj_def)
  moreover have "map (\<lambda>d. arch_doc_from_jsonable (sort_keys (arch_doc_to_jsonable d))) (ac_docs c) = ac_docs c"
    using assms by (intro map_idI arch_doc_round_trip) (auto simp: corpus_paths_ok_def list_all_iff)
  ultimately show ?thesis
    using assms unfolding arch_corpus_to_jsonable_def arch_corpus_from_jsonable_def
    by (simp add: decode_simps corpus_paths_ok_def comp_def del: sort_keys.simps(2))
qed

lemma stage_round_trip: "decode_stage (sort_keys (stage_asdict s)) = Inr s"
  unfolding stage_asdict_def decode_stage_def
  by (simp add: decode_simps del: sort_keys.simps(2))

lemma corpus_is_obj: "is_obj (sort_keys (arch_corpus_to_jsonable c))"
  by (simp add: arch_corpus_to_jsonable_def is_obj_def)

lemma decode_round_trip:
  assumes "contract_paths_ok c"
  shows "decode_contract (sort_keys (to_jsonable c)) = Inr c"
proof -
  have ps: "etraverse profile_from_jsonable
      (map (\<lambda>p. sort_keys (profile_to_jsonable p)) (sg_profiles (ct_standards c))) =
      Inr (sg_profiles (ct_standards c))"
    using assms by (intro etraverse_map profile_round_trip) (auto simp: contract_paths_ok_def list_all_iff)
  have po: "objects (Some (JArr (map (\<lambda>p. sort_keys (profile_to_jsonable p)) (sg_profiles (ct_standards c))))) =
      map (\<lambda>p. sort_keys (profile_to_jsonable p)) (sg_profiles (ct_standards c))"
    by (rule objects_arr) (simp add: profile_to_jsonable_def is_obj_def)
  have co: "arch_corpus_from_jsonable (sort_keys (arch_corpus_to_jsonable (ag_corpus (ct_architecture c)))) =
      ag_corpus (ct_architecture c)"
    using assms by (intro corpus_round_trip) (simp add: contract_paths_ok_def)
  show ?thesis
    unfolding to_jsonable_def decode_contract_def require_def
    by (simp add: decode_simps stage_round_trip decode_standards_def decode_architecture_def ps po co comp_def
        corpus_is_obj del: sort_keys.simps(2))
qed

text \<open>
  C16: writing a task's contract and loading it gives the same contract, whatever was stored for that task
  before, and leaves the stored contracts of all other tasks as they were.
\<close>

theorem contract_round_trip:
  assumes "contract_paths_ok c"
  shows "load_contract (persist c tid fs) tid = Some (Inr c) \<and>
    (\<forall>t. t \<noteq> tid \<longrightarrow> load_contract (persist c tid fs) t = load_contract fs t)"
proof -
  have "map_of (filter (\<lambda>(t, _). t \<noteq> tid) fs) t = map_of fs t" if "t \<noteq> tid" for t
    using that by (induction fs) auto
  then show ?thesis using decode_round_trip [OF assms] by (simp add: load_contract_def persist_def)
qed

definition demo_stage :: "stage_name \<Rightarrow> stage_rubric" where
  "demo_stage n = \<lparr>sr_name = n, sr_one_line = ''gate'', sr_threshold = ''rc=0'', sr_grading_template = [],
     sr_source_text = ''- **tests**''\<rparr>"

definition demo_standards_doc :: standards_doc where
  "demo_standards_doc = \<lparr>sd_profile = ''py'', sd_category = ''style'', sd_name = ''naming'',
     sd_path = ''/r/py/naming.md'', sd_repo_relative = ''py/naming.md'', sd_importance = Imp_high,
     sd_applies_to = [''*.py''], sd_applies_to_languages = [], sd_applies_to_domains = [], sd_body = ''# Rules'',
     sd_sections = [''Rules'']\<rparr>"

definition demo_contract :: contract where
  "demo_contract = \<lparr>ct_task_id = ''T1'', ct_local_ci = demo_stage Stage_local_ci,
     ct_rubric = demo_stage Stage_rubric,
     ct_standards = \<lparr>sg_one_line = [], sg_threshold = [], sg_grading_template = [],
       sg_profiles = [\<lparr>sp_name = ''py'', sp_root = ''/r/py'', sp_docs = [demo_standards_doc]\<rparr>],
       sg_source_text = []\<rparr>,
     ct_architecture = \<lparr>ag_one_line = [], ag_threshold = [], ag_grading_template = [],
       ag_corpus = \<lparr>ac_root = ''/r/docs'', ac_docs = [\<lparr>ad_path = ''/r/docs/a.md'',
         ad_repo_relative = ''docs/a.md'', ad_title = ''A'', ad_sections = [''Store''], ad_body = ''# Store''\<rparr>]\<rparr>,
       ag_source_text = []\<rparr>,
     ct_behavior = demo_stage Stage_behavior\<rparr>"

lemma demo_contract_ok: "contract_paths_ok demo_contract"
  by code_simp

theorem contract_round_trip_witness:
  "load_contract (persist demo_contract ''T1'' []) ''T1'' = Some (Inr demo_contract) \<and>
   load_contract (persist demo_contract ''T1'' []) ''T2'' = load_contract [] ''T2''"
proof (rule conjI)
  note trip = contract_round_trip [OF demo_contract_ok, of "''T1''" "[]"]
  show "load_contract (persist demo_contract ''T1'' []) ''T1'' = Some (Inr demo_contract)"
    by (rule conjunct1 [OF trip])
  show "load_contract (persist demo_contract ''T1'' []) ''T2'' = load_contract [] ''T2''"
    by (rule conjunct2 [OF trip, rule_format]) simp
qed

end
