(* ===== verification/PlanChecks.thy ===== *)
theory PlanChecks
  imports Plans Contract
begin

text \<open>
  \<^verbatim>\<open>quikode/planner_validators.py\<close> and the checks of \<^verbatim>\<open>workers/fixup_coverage.py\<close>: what a plan must satisfy
  before the worker accepts it. A validator returns the violation it raises, or nothing; the violation carries
  the values its message lists. The properties say exactly which plans pass.
\<close>

section \<open>Violations\<close>

datatype ref_problem = Unknown_doc | Unknown_section "string list"

datatype check_error =
    No_categories
  | Categories_missing "string list"
  | Categories_unknown "(string \<times> string) list"
  | Claims_unexpected "(string \<times> string) list"
  | Evidence_partition "string list" "(string \<times> string list) list" "(string \<times> string) list" "string list"
  | Strategy_short nat
  | Strategy_long nat
  | Standards_refs "(string \<times> doc_ref \<times> ref_problem) list"
  | Architecture_refs "(string \<times> doc_ref \<times> ref_problem) list"
  | Finding_coverage "string list" "(string \<times> string list) list"

text \<open>The attribute \<^verbatim>\<open>which\<close>.\<close>

fun which_check :: "check_error \<Rightarrow> string" where
  "which_check No_categories = ''rubric_coverage''"
| "which_check (Categories_missing _) = ''rubric_coverage''"
| "which_check (Categories_unknown _) = ''rubric_coverage''"
| "which_check (Claims_unexpected _) = ''evidence_partition''"
| "which_check (Evidence_partition _ _ _ _) = ''evidence_partition''"
| "which_check (Strategy_short _) = ''gauntlet_strategy''"
| "which_check (Strategy_long _) = ''gauntlet_strategy''"
| "which_check (Standards_refs _) = ''standards_refs''"
| "which_check (Architecture_refs _) = ''architecture_refs''"
| "which_check (Finding_coverage _ _) = ''finding_coverage''"

section \<open>Validators\<close>

text \<open>\<^verbatim>\<open>^\s*-\s+\*\*(?P<cat>[^*]+)\*\*\<close>, multi-line.\<close>

definition rubric_line_re :: rx where
  "rubric_line_re =
     seq_of [Line_start, Many whitespace, One (\<lambda>c. c = CHR ''-''), some_of whitespace, lit ''**'',
             Group ''cat'' (some_of (\<lambda>c. c \<noteq> CHR ''*'')), lit ''**'']"

definition categories_from_contract :: "contract \<Rightarrow> string list" where
  "categories_from_contract c =
     (let txt = sr_source_text (ct_rubric c)
      in map (\<lambda>m. strip (case group ''cat'' m txt of Some g \<Rightarrow> g | None \<Rightarrow> [])) (finditer rubric_line_re txt))"

definition target_categories :: "subtask list \<Rightarrow> (string \<times> string) list" where
  "target_categories ss = concat (map (\<lambda>s. map (\<lambda>t. (st_id s, rt_category t)) (st_rubric_targets s)) ss)"

definition validate_rubric_coverage :: "subtask list \<Rightarrow> contract \<Rightarrow> check_error option" where
  "validate_rubric_coverage ss c =
     (let expected = categories_from_contract c;
          seen = snd ` set (target_categories ss);
          missing = filter (\<lambda>cat. cat \<notin> seen) expected;
          unknown = filter (\<lambda>(sid, cat). cat \<notin> set expected) (target_categories ss)
      in if expected = [] then Some No_categories
         else if missing \<noteq> [] then Some (Categories_missing missing)
         else if unknown \<noteq> [] then Some (Categories_unknown unknown)
         else None)"

text \<open>
  The dictionary of holders: which subtasks claim a key, in plan order; the keys come in the order of their
  first claim.
\<close>

definition claims :: "subtask list \<Rightarrow> (string \<times> string) list" where
  "claims ss = concat (map (\<lambda>s. map (\<lambda>e. (e, st_id s)) (st_behavior_evidence_advanced s)) ss)"

definition owners_of :: "(string \<times> string) list \<Rightarrow> string \<Rightarrow> string list" where
  "owners_of cs k = map snd (filter (\<lambda>(e, _). e = k) cs)"

definition holder_keys :: "(string \<times> string) list \<Rightarrow> string list" where
  "holder_keys cs = rev (remdups (rev (map fst cs)))"

definition classify_evidence_claims ::
  "subtask list \<Rightarrow> string list \<Rightarrow>
   string list \<times> (string \<times> string list) list \<times> (string \<times> string) list" where
  "classify_evidence_claims ss expected =
     (let cs = claims ss; keys = holder_keys cs
      in (filter (\<lambda>e. e \<notin> set keys) expected,
          map (\<lambda>e. (e, sort (owners_of cs e)))
            (filter (\<lambda>e. e \<in> set expected \<and> 1 < length (owners_of cs e)) keys),
          concat (map (\<lambda>e. map (\<lambda>sid. (sid, e)) (owners_of cs e)) (filter (\<lambda>e. e \<notin> set expected) keys))))"

definition validate_evidence_partition :: "subtask list \<Rightarrow> evidence list \<Rightarrow> check_error option" where
  "validate_evidence_partition ss evs =
     (let expected = map evidence_canonical_id evs
      in if expected = []
         then (let unexpected = map (\<lambda>(e, sid). (sid, e)) (claims ss)
               in if unexpected \<noteq> [] then Some (Claims_unexpected unexpected) else None)
         else (case classify_evidence_claims ss expected of
                 (missing, duplicated, unknown) \<Rightarrow>
                   if missing = [] \<and> duplicated = [] \<and> unknown = [] then None
                   else Some (Evidence_partition missing duplicated unknown expected)))"

definition validate_gauntlet_strategy :: "plan \<Rightarrow> check_error option" where
  "validate_gauntlet_strategy p =
     (let n = length (p_gauntlet_strategy p)
      in if n < 200 then Some (Strategy_short n)
         else if 2000 < n then Some (Strategy_long n)
         else None)"

text \<open>The two kinds of reference: \<open>sections\<close> is the result of the document lookup, if there is one.\<close>

definition ref_problem ::
  "(string \<Rightarrow> 'd option) \<Rightarrow> ('d \<Rightarrow> string \<Rightarrow> bool) \<Rightarrow> ('d \<Rightarrow> string list) \<Rightarrow> doc_ref \<Rightarrow> ref_problem option" where
  "ref_problem find_d find_s heads r =
     (case find_d (dr_doc_path r) of
        None \<Rightarrow> Some Unknown_doc
      | Some d \<Rightarrow> if find_s d (dr_section r) then None else Some (Unknown_section (heads d)))"

definition bad_refs ::
  "(doc_ref \<Rightarrow> ref_problem option) \<Rightarrow> (subtask \<Rightarrow> doc_ref list) \<Rightarrow> subtask list \<Rightarrow>
   (string \<times> doc_ref \<times> ref_problem) list" where
  "bad_refs prob refs ss =
     concat (map (\<lambda>s. concat (map (\<lambda>r. case prob r of None \<Rightarrow> [] | Some p \<Rightarrow> [(st_id s, r, p)]) (refs s))) ss)"

definition validate_standards_refs :: "subtask list \<Rightarrow> contract \<Rightarrow> check_error option" where
  "validate_standards_refs ss c =
     (let bad = bad_refs (ref_problem (find_doc (sg_profiles (ct_standards c))) find_section sd_sections)
            st_standards_referenced ss
      in if bad \<noteq> [] then Some (Standards_refs bad) else None)"

definition validate_architecture_refs :: "subtask list \<Rightarrow> contract \<Rightarrow> check_error option" where
  "validate_architecture_refs ss c =
     (let bad = bad_refs (ref_problem (find_arch_doc (ag_corpus (ct_architecture c))) find_arch_section ad_sections)
            st_architecture_referenced ss
      in if bad \<noteq> [] then Some (Architecture_refs bad) else None)"

text \<open>The part of an identifier after its first colon; \<open>[]\<close> when there is none.\<close>

definition after_colon :: "string \<Rightarrow> string" where
  "after_colon s = tl (dropWhile (\<lambda>c. c \<noteq> CHR '':'') s)"

definition is_parse_failure_finding :: "string \<Rightarrow> bool" where
  "is_parse_failure_finding fid \<longleftrightarrow> after_colon fid = ''parse_failure''"

definition section_sign :: string where
  "section_sign = [char_of (194 :: nat), char_of (167 :: nat)]"

definition ref_keys :: "string \<Rightarrow> doc_ref \<Rightarrow> string list" where
  "ref_keys stage r =
     [stage @ '':'' @ dr_doc_path r, stage @ '':'' @ dr_doc_path r @ section_sign @ dr_section r]"

definition coverage_keys :: "subtask \<Rightarrow> string list" where
  "coverage_keys s =
     map (\<lambda>t. ''rubric:'' @ rt_category t) (st_rubric_targets s) @
     concat (map (ref_keys ''standards'') (st_standards_referenced s)) @
     concat (map (ref_keys ''architecture'') (st_architecture_referenced s)) @
     map (\<lambda>e. ''behavior:'' @ e) (st_behavior_evidence_advanced s)"

definition coverage :: "subtask list \<Rightarrow> (string \<times> string) list" where
  "coverage ss = concat (map (\<lambda>s. map (\<lambda>k. (k, st_id s)) (coverage_keys s)) ss)"

definition classify_finding_coverage ::
  "fixup_plan \<Rightarrow> string list \<Rightarrow> string list \<times> (string \<times> string list) list" where
  "classify_finding_coverage p expected =
     (let owners = owners_of (coverage (fx_subtasks p))
      in (filter (\<lambda>f. owners f = [] \<and> f \<notin> set (fx_findings_addressed p)) expected,
          map (\<lambda>f. (f, sort (remdups (owners f)))) (filter (\<lambda>f. 1 < card (set (owners f))) expected)))"

definition validate_finding_coverage :: "fixup_plan \<Rightarrow> string list \<Rightarrow> check_error option" where
  "validate_finding_coverage p findings =
     (let expected = filter (\<lambda>f. \<not> is_parse_failure_finding f) findings
      in if expected = [] then None
         else (case classify_finding_coverage p expected of
                 (missing, duplicated) \<Rightarrow>
                   if missing = [] \<and> duplicated = [] then None else Some (Finding_coverage missing duplicated)))"

text \<open>The five checks of the planner driver, in its order; the first violation is the one reported.\<close>

fun first_error :: "check_error option list \<Rightarrow> check_error option" where
  "first_error [] = None"
| "first_error (x # xs) = (case x of Some e \<Rightarrow> Some e | None \<Rightarrow> first_error xs)"

definition validate_plan :: "plan \<Rightarrow> contract \<Rightarrow> evidence list \<Rightarrow> check_error option" where
  "validate_plan p c evs =
     first_error
       [validate_rubric_coverage (p_subtasks p) c, validate_evidence_partition (p_subtasks p) evs,
        validate_standards_refs (p_subtasks p) c, validate_architecture_refs (p_subtasks p) c,
        validate_gauntlet_strategy p]"

section \<open>Fixup plans\<close>

definition fixup_standards_doc_refs :: "subtask list \<Rightarrow> contract \<Rightarrow> check_error option" where
  "fixup_standards_doc_refs ss c =
     (let bad = bad_refs (ref_problem (find_doc (sg_profiles (ct_standards c))) (\<lambda>_ _. True) sd_sections)
            st_standards_referenced ss
      in if bad \<noteq> [] then Some (Standards_refs bad) else None)"

definition fixup_architecture_doc_refs :: "subtask list \<Rightarrow> contract \<Rightarrow> check_error option" where
  "fixup_architecture_doc_refs ss c =
     (let bad = bad_refs (ref_problem (find_arch_doc (ag_corpus (ct_architecture c))) (\<lambda>_ _. True) ad_sections)
            st_architecture_referenced ss
      in if bad \<noteq> [] then Some (Architecture_refs bad) else None)"

text \<open>What the next prompt is told: that the runtime model rejected the plan, or which validator did.\<close>

datatype fixup_feedback = Rejected plan_error | Violated check_error

definition validate_fixup_plan ::
  "(fixup_plan \<Rightarrow> string) \<Rightarrow> fixup_plan \<Rightarrow> contract \<Rightarrow> string list option \<Rightarrow> fixup_feedback + fixup_plan" where
  "validate_fixup_plan pyd raw c findings =
     (case validate_fixup_fields pyd raw of
        Inl e \<Rightarrow> Inl (Rejected e)
      | Inr p \<Rightarrow>
          (case first_error
                  [validate_finding_coverage p (case findings of None \<Rightarrow> [] | Some fs \<Rightarrow> fs),
                   fixup_standards_doc_refs (fx_subtasks p) c, fixup_architecture_doc_refs (fx_subtasks p) c] of
             Some e \<Rightarrow> Inl (Violated e)
           | None \<Rightarrow> Inr p))"

text \<open>The lenient coverage union the completeness check uses.\<close>

definition notes_text :: "subtask list \<Rightarrow> string" where
  "notes_text ss = join nl (filter (\<lambda>n. n \<noteq> []) (map st_notes ss))"

definition finding_covered :: "subtask list \<Rightarrow> string \<Rightarrow> bool" where
  "finding_covered ss fid \<longleftrightarrow>
     (if contains fid (notes_text ss) then True
      else if starts_with ''behavior:'' fid \<and>
              list_ex (\<lambda>s. after_colon fid \<in> set (st_behavior_evidence_advanced s)) ss then True
      else if starts_with ''rubric:'' fid \<and> list_ex (\<lambda>s. st_rubric_targets s \<noteq> []) ss then True
      else starts_with ''standards:'' fid \<and> list_ex (\<lambda>s. st_standards_referenced s \<noteq> []) ss \<or>
           starts_with ''architecture:'' fid \<and> list_ex (\<lambda>s. st_architecture_referenced s \<noteq> []) ss)"

definition missing_finding_coverage :: "fixup_plan \<Rightarrow> string list \<Rightarrow> string list" where
  "missing_finding_coverage p expected =
     filter (\<lambda>f. f \<notin> set (fx_findings_addressed p) \<and> \<not> finding_covered (fx_subtasks p) f) (remdups expected)"

text \<open>How existing subtask rows are shown to the fixup planner.\<close>

definition split_subtask_rows_for_planner :: "subtask_row list \<Rightarrow> subtask_row list \<times> subtask_row list" where
  "split_subtask_rows_for_planner rows =
     (filter (\<lambda>r. s_kind r = ''spec'' \<and> s_state r = Sub_DONE) rows, filter (\<lambda>r. s_kind r \<noteq> ''spec'') rows)"

definition build_coverage_gap_addendum :: "string list \<Rightarrow> string option \<Rightarrow> string" where
  "build_coverage_gap_addendum missing root_cause =
     take 16000
       (''## Coverage gap from your previous attempt'' @ nl @ nl @
        ''Your previous plan missed the following finding ids. Include each one in `findings_addressed` AND in '' @
        ''at least one subtask'' @ quote1 @ ''s stage-typed coverage (`rubric_targets`, `standards_referenced`, '' @
        ''`architecture_referenced`, or `behavior_evidence_advanced` matching the finding'' @ quote1 @
        ''s namespace):'' @ nl @ nl @
        join nl (map (\<lambda>f. ''- `'' @ f @ ''`'') (sort missing)) @ nl @ nl @
        ''Re-emit the COMPLETE plan (do not emit only the deltas).'' @ nl @ nl @ ''---'' @ nl @ nl @
        (case root_cause of None \<Rightarrow> [] | Some t \<Rightarrow> t))"

section \<open>Facts\<close>

lemma first_error_None: "first_error xs = None \<longleftrightarrow> (\<forall>x \<in> set xs. x = None)"
  by (induction xs) (auto split: option.splits)

lemma set_holder_keys [simp]: "set (holder_keys cs) = fst ` set cs"
  by (simp add: holder_keys_def)

lemma owners_of_Nil: "owners_of cs k = [] \<longleftrightarrow> k \<notin> fst ` set cs"
  by (force simp: owners_of_def filter_empty_conv)

lemma set_owners_of: "set (owners_of cs k) = {i. (k, i) \<in> set cs}"
  by (force simp: owners_of_def)

text \<open>No key has two claims exactly when the claimed keys are distinct.\<close>

lemma single_owners: "(\<forall>k. length (owners_of cs k) \<le> 1) \<longleftrightarrow> distinct (map fst cs)"
proof (induction cs)
  case Nil
  then show ?case by (simp add: owners_of_def)
next
  case (Cons c cs)
  have step: "length (owners_of (c # cs) k) = (if k = fst c then Suc (length (owners_of cs k)) else length (owners_of cs k))"
    for k by (cases c) (simp add: owners_of_def)
  show ?case
  proof
    assume all: "\<forall>k. length (owners_of (c # cs) k) \<le> 1"
    then have "owners_of cs (fst c) = []" by (auto simp: step dest!: spec [of _ "fst c"])
    moreover have "length (owners_of cs k) \<le> 1" for k
      using all [rule_format, of k] step [of k] by (auto split: if_splits)
    ultimately show "distinct (map fst (c # cs))" using Cons.IH by (simp add: owners_of_Nil)
  next
    assume d: "distinct (map fst (c # cs))"
    then have "owners_of cs (fst c) = []" by (simp add: owners_of_Nil)
    moreover have "\<forall>k. length (owners_of cs k) \<le> 1" using d Cons.IH by simp
    ultimately show "\<forall>k. length (owners_of (c # cs) k) \<le> 1" by (auto simp: step)
  qed
qed

lemma evidence_partition_exact:
  "validate_evidence_partition ss evs = None \<longleftrightarrow>
     distinct (map fst (claims ss)) \<and> set (map fst (claims ss)) = set (map evidence_canonical_id evs)"
proof (cases "evs = []")
  case True
  then show ?thesis by (auto simp: validate_evidence_partition_def Let_def)
next
  case False
  let ?cs = "claims ss" and ?ex = "map evidence_canonical_id evs"
  have missing: "filter (\<lambda>e. e \<notin> fst ` set ?cs) ?ex = [] \<longleftrightarrow> set ?ex \<subseteq> fst ` set ?cs"
    by (auto simp: filter_empty_conv)
  have unknown: "concat (map (\<lambda>e. map (\<lambda>sid. (sid, e)) (owners_of ?cs e))
      (filter (\<lambda>e. e \<notin> set ?ex) (holder_keys ?cs))) = [] \<longleftrightarrow> fst ` set ?cs \<subseteq> set ?ex"
    by (auto simp: concat_eq_Nil_conv owners_of_Nil)
  have dup: "filter (\<lambda>e. e \<in> set ?ex \<and> 1 < length (owners_of ?cs e)) (holder_keys ?cs) = [] \<longleftrightarrow>
      distinct (map fst ?cs)" if sub: "fst ` set ?cs \<subseteq> set ?ex"
  proof -
    have "filter (\<lambda>e. e \<in> set ?ex \<and> 1 < length (owners_of ?cs e)) (holder_keys ?cs) = [] \<longleftrightarrow>
        (\<forall>k. length (owners_of ?cs k) \<le> 1)"
    proof
      assume "filter (\<lambda>e. e \<in> set ?ex \<and> 1 < length (owners_of ?cs e)) (holder_keys ?cs) = []"
      then have "\<forall>e \<in> fst ` set ?cs. length (owners_of ?cs e) \<le> 1"
        using sub by (simp add: filter_empty_conv not_less subset_iff)
      moreover have "length (owners_of ?cs e) \<le> 1" if "e \<notin> fst ` set ?cs" for e
        using that owners_of_Nil [of ?cs e] by simp
      ultimately show "\<forall>k. length (owners_of ?cs k) \<le> 1" by blast
    next
      assume "\<forall>k. length (owners_of ?cs k) \<le> 1"
      then show "filter (\<lambda>e. e \<in> set ?ex \<and> 1 < length (owners_of ?cs e)) (holder_keys ?cs) = []"
        by (simp add: not_less filter_empty_conv)
    qed
    then show ?thesis using single_owners by simp
  qed
  have "validate_evidence_partition ss evs = None \<longleftrightarrow>
      set ?ex \<subseteq> fst ` set ?cs \<and> distinct (map fst ?cs) \<and> fst ` set ?cs \<subseteq> set ?ex"
    using False missing unknown dup
    by (auto simp: validate_evidence_partition_def classify_evidence_claims_def Let_def)
  then show ?thesis by auto
qed

lemma bad_refs_Nil:
  "bad_refs prob refs ss = [] \<longleftrightarrow> (\<forall>s \<in> set ss. \<forall>r \<in> set (refs s). prob r = None)"
  by (fastforce simp: bad_refs_def concat_eq_Nil_conv split: option.splits)

lemma rubric_coverage_exact:
  "validate_rubric_coverage ss c = None \<longleftrightarrow>
     categories_from_contract c \<noteq> [] \<and>
     snd ` set (target_categories ss) = set (categories_from_contract c)"
proof -
  let ?e = "categories_from_contract c" and ?t = "target_categories ss"
  have "filter (\<lambda>cat. cat \<notin> snd ` set ?t) ?e = [] \<longleftrightarrow> set ?e \<subseteq> snd ` set ?t"
    by (auto simp: filter_empty_conv)
  moreover have "filter (\<lambda>(sid, cat). cat \<notin> set ?e) ?t = [] \<longleftrightarrow> snd ` set ?t \<subseteq> set ?e"
    by (force simp: filter_empty_conv)
  ultimately show ?thesis by (auto simp: validate_rubric_coverage_def Let_def)
qed

section \<open>Properties\<close>

text \<open>A reference that resolves: its document is loaded and has the cited heading.\<close>

definition resolves :: "(string \<Rightarrow> 'd option) \<Rightarrow> ('d \<Rightarrow> string \<Rightarrow> bool) \<Rightarrow> doc_ref \<Rightarrow> bool" where
  "resolves find_d find_s r \<longleftrightarrow> (\<exists>d. find_d (dr_doc_path r) = Some d \<and> find_s d (dr_section r))"

lemma ref_problem_None: "ref_problem fd fs h r = None \<longleftrightarrow> resolves fd fs r"
  by (auto simp: ref_problem_def resolves_def split: option.splits)

text \<open>
  C14: the planner driver's five validators pass a plan exactly when every configured rubric category and no other
  is targeted, the expected evidence is partitioned among the subtasks (each identifier claimed once, nothing else
  claimed), every cited standards and architecture passage exists, and the gauntlet strategy has between 200 and
  2000 characters.
\<close>

theorem validated_plan_iff:
  "validate_plan p c evs = None \<longleftrightarrow>
     (let ss = p_subtasks p in
      categories_from_contract c \<noteq> [] \<and>
      snd ` set (target_categories ss) = set (categories_from_contract c) \<and>
      distinct (concat (map st_behavior_evidence_advanced ss)) \<and>
      set (concat (map st_behavior_evidence_advanced ss)) = set (map evidence_canonical_id evs) \<and>
      (\<forall>s \<in> set ss. \<forall>r \<in> set (st_standards_referenced s).
        resolves (find_doc (sg_profiles (ct_standards c))) find_section r) \<and>
      (\<forall>s \<in> set ss. \<forall>r \<in> set (st_architecture_referenced s).
        resolves (find_arch_doc (ag_corpus (ct_architecture c))) find_arch_section r) \<and>
      200 \<le> length (p_gauntlet_strategy p) \<and> length (p_gauntlet_strategy p) \<le> 2000)"
proof -
  have keys: "map fst (claims ss) = concat (map st_behavior_evidence_advanced ss)" for ss
    by (induction ss) (simp_all add: claims_def comp_def)
  have strategy: "validate_gauntlet_strategy p = None \<longleftrightarrow>
      200 \<le> length (p_gauntlet_strategy p) \<and> length (p_gauntlet_strategy p) \<le> 2000"
    by (auto simp: validate_gauntlet_strategy_def Let_def)
  show ?thesis
    unfolding validate_plan_def first_error_None Let_def
    by (simp add: rubric_coverage_exact evidence_partition_exact keys strategy validate_standards_refs_def
        validate_architecture_refs_def bad_refs_Nil ref_problem_None Let_def conj_assoc)
qed

text \<open>The subtasks whose stage-typed fields cover a finding.\<close>

definition coverers :: "subtask list \<Rightarrow> string \<Rightarrow> subtask set" where
  "coverers ss f = {s \<in> set ss. f \<in> set (coverage_keys s)}"

lemma owners_coverage: "set (owners_of (coverage ss) f) = st_id ` coverers ss f"
  by (force simp: set_owners_of coverage_def coverers_def)

lemma finding_coverage_exact:
  assumes "distinct (map st_id (fx_subtasks p))"
  shows "validate_finding_coverage p fs = None \<longleftrightarrow>
    (\<forall>f \<in> set fs. is_parse_failure_finding f \<or> card (coverers (fx_subtasks p) f) = 1 \<or>
       coverers (fx_subtasks p) f = {} \<and> f \<in> set (fx_findings_addressed p))"
proof -
  let ?o = "\<lambda>f. owners_of (coverage (fx_subtasks p)) f"
  have fin: "finite (coverers (fx_subtasks p) f)" for f by (simp add: coverers_def)
  have inj: "inj_on st_id (coverers (fx_subtasks p) f)" for f
    using assms by (auto simp: distinct_map coverers_def inj_on_def)
  have card: "card (set (?o f)) = card (coverers (fx_subtasks p) f)" for f
    by (simp add: owners_coverage card_image [OF inj])
  have empty: "?o f = [] \<longleftrightarrow> coverers (fx_subtasks p) f = {}" for f
    using owners_coverage [of "fx_subtasks p" f] by (metis image_is_empty set_empty)
  have one: "\<not> (?o f = [] \<and> f \<notin> set (fx_findings_addressed p)) \<and> \<not> 1 < card (set (?o f)) \<longleftrightarrow>
      card (coverers (fx_subtasks p) f) = 1 \<or>
       coverers (fx_subtasks p) f = {} \<and> f \<in> set (fx_findings_addressed p)" for f
    using fin [of f] unfolding card empty
    by (cases "coverers (fx_subtasks p) f = {}") (auto simp: card_gt_0_iff le_Suc_eq not_less)
  have "validate_finding_coverage p fs = None \<longleftrightarrow> (\<forall>f \<in> set fs. is_parse_failure_finding f \<or>
      (\<not> (?o f = [] \<and> f \<notin> set (fx_findings_addressed p)) \<and> \<not> 1 < card (set (?o f))))"
    by (auto simp: validate_finding_coverage_def classify_finding_coverage_def Let_def filter_empty_conv)
  then show ?thesis unfolding one .
qed

text \<open>Which fixup plans are accepted.\<close>

lemma fixup_accepted:
  "(validate_fixup_plan pyd raw c findings = Inr p) \<longleftrightarrow>
     p = raw \<and> fixup_fields_ok raw \<and> distinct (map st_id (fx_subtasks raw)) \<and> deps_known (fx_subtasks raw) \<and>
     (\<forall>f \<in> set (case findings of None \<Rightarrow> [] | Some fs \<Rightarrow> fs).
        is_parse_failure_finding f \<or> card (coverers (fx_subtasks raw) f) = 1 \<or>
        coverers (fx_subtasks raw) f = {} \<and> f \<in> set (fx_findings_addressed raw)) \<and>
     (\<forall>s \<in> set (fx_subtasks raw). \<forall>r \<in> set (st_standards_referenced s).
        find_doc (sg_profiles (ct_standards c)) (dr_doc_path r) \<noteq> None) \<and>
     (\<forall>s \<in> set (fx_subtasks raw). \<forall>r \<in> set (st_architecture_referenced s).
        find_arch_doc (ag_corpus (ct_architecture c)) (dr_doc_path r) \<noteq> None)"
proof (cases "fixup_fields_ok raw \<and> check_unique_and_known (fx_subtasks raw) = Inr ()")
  case True
  then have run: "validate_fixup_fields pyd raw = Inr raw"
    by (simp add: validate_fixup_fields_def check_fixup_plan_def)
  from True check_unique_and_known_ok [of "fx_subtasks raw"]
  have d: "distinct (map st_id (fx_subtasks raw))" "deps_known (fx_subtasks raw)" by simp_all
  have lenient: "ref_problem fd (\<lambda>_ _. True) h r = None \<longleftrightarrow> fd (dr_doc_path r) \<noteq> None" for fd h r
    by (auto simp: ref_problem_def split: option.splits)
  have std: "fixup_standards_doc_refs (fx_subtasks raw) c = None \<longleftrightarrow>
      (\<forall>s \<in> set (fx_subtasks raw). \<forall>r \<in> set (st_standards_referenced s).
        find_doc (sg_profiles (ct_standards c)) (dr_doc_path r) \<noteq> None)"
    by (simp add: fixup_standards_doc_refs_def bad_refs_Nil lenient Let_def)
  have arch: "fixup_architecture_doc_refs (fx_subtasks raw) c = None \<longleftrightarrow>
      (\<forall>s \<in> set (fx_subtasks raw). \<forall>r \<in> set (st_architecture_referenced s).
        find_arch_doc (ag_corpus (ct_architecture c)) (dr_doc_path r) \<noteq> None)"
    by (simp add: fixup_architecture_doc_refs_def bad_refs_Nil lenient Let_def)
  let ?x = "[validate_finding_coverage raw (case findings of None \<Rightarrow> [] | Some fs \<Rightarrow> fs),
     fixup_standards_doc_refs (fx_subtasks raw) c, fixup_architecture_doc_refs (fx_subtasks raw) c]"
  have "validate_fixup_plan pyd raw c findings = Inr p \<longleftrightarrow> p = raw \<and> first_error ?x = None"
    unfolding validate_fixup_plan_def run by (auto split: option.splits)
  then show ?thesis
    unfolding first_error_None using finding_coverage_exact [OF d(1)] std arch d True by simp
next
  case False
  have "validate_fixup_plan pyd raw c findings \<noteq> Inr p"
  proof -
    have "\<exists>e. validate_fixup_fields pyd raw = Inl e"
      using False by (cases "check_unique_and_known (fx_subtasks raw)")
        (auto simp: validate_fixup_fields_def check_fixup_plan_def)
    then show ?thesis by (auto simp: validate_fixup_plan_def)
  qed
  then show ?thesis using False check_unique_and_known_ok [of "fx_subtasks raw"] by auto
qed

lemma coverage_key_cases:
  assumes "f \<in> set (coverage_keys s)"
  shows "starts_with ''behavior:'' f \<and> after_colon f \<in> set (st_behavior_evidence_advanced s) \<or>
     starts_with ''rubric:'' f \<and> st_rubric_targets s \<noteq> [] \<or>
     starts_with ''standards:'' f \<and> st_standards_referenced s \<noteq> [] \<or>
     starts_with ''architecture:'' f \<and> st_architecture_referenced s \<noteq> []"
proof -
  consider t where "t \<in> set (st_rubric_targets s)" "f = ''rubric:'' @ rt_category t"
    | r where "r \<in> set (st_standards_referenced s)" "f \<in> set (ref_keys ''standards'' r)"
    | r where "r \<in> set (st_architecture_referenced s)" "f \<in> set (ref_keys ''architecture'' r)"
    | e where "e \<in> set (st_behavior_evidence_advanced s)" "f = ''behavior:'' @ e"
    using assms unfolding coverage_keys_def by auto
  then show ?thesis
    by cases (auto simp: ref_keys_def starts_with_def after_colon_def)
qed

text \<open>What the strict check accepts, the lenient completeness check finds covered, parse failures apart.\<close>

lemma accepted_covered:
  assumes "validate_fixup_plan pyd raw c (Some fs) = Inr p" and "f \<in> set fs"
    and "\<not> is_parse_failure_finding f"
  shows "f \<notin> set (missing_finding_coverage p fs)"
proof (cases "f \<in> set (fx_findings_addressed p)")
  case True
  then show ?thesis by (simp add: missing_finding_coverage_def)
next
  case False
  have "p = raw" "card (coverers (fx_subtasks raw) f) = 1"
    using assms False unfolding fixup_accepted by auto
  then obtain s where s: "s \<in> set (fx_subtasks p)" "f \<in> set (coverage_keys s)"
    by (auto simp: coverers_def card_Suc_eq_finite dest!: card_1_singletonE)
  have "finding_covered (fx_subtasks p) f"
    using s coverage_key_cases [OF s(2)] unfolding finding_covered_def
    by (elim disjE exE conjE) (auto simp: list_ex_iff)
  then show ?thesis by (simp add: missing_finding_coverage_def)
qed


definition demo_target :: rubric_target where
  "demo_target = \<lparr>rt_category = ''tests'', rt_predicted_score = 8\<rparr>"

definition demo_checked_subtask :: subtask where
  "demo_checked_subtask = (demo_subtask ''S1'' [])\<lparr>st_rubric_targets := [demo_target],
     st_standards_referenced := [\<lparr>dr_doc_path = ''py/naming.md'', dr_section = ''rules''\<rparr>],
     st_behavior_evidence_advanced := [''B1-positive'']\<rparr>"

definition demo_checked_plan :: plan where
  "demo_checked_plan = demo_raw_plan\<lparr>p_subtasks := [demo_checked_subtask],
     p_gauntlet_strategy := replicate 200 CHR ''x''\<rparr>"

definition demo_evidence :: "evidence list" where
  "demo_evidence = [\<lparr>ev_id = None, ev_behavior_id = Some ''B1'', ev_kind = Some ''positive'',
     ev_description = None, ev_witnesses = [], ev_command = None, ev_witness_command = None\<rparr>]"

definition demo_fixup :: fixup_plan where
  "demo_fixup = \<lparr>fx_summary = [], fx_subtasks = [demo_checked_subtask], fx_findings_addressed = [''rubric:gap-1'']\<rparr>"

lemma demo_rubric: "validate_rubric_coverage [demo_checked_subtask] demo_contract = None"
  by code_simp

lemma demo_partition: "validate_evidence_partition [demo_checked_subtask] demo_evidence = None"
  by code_simp

lemma demo_standards: "validate_standards_refs [demo_checked_subtask] demo_contract = None"
  by code_simp

lemma demo_architecture: "validate_architecture_refs [demo_checked_subtask] demo_contract = None"
  by code_simp

lemmas demo_checks = demo_rubric demo_partition demo_standards demo_architecture

lemma demo_plan_checks: "validate_plan demo_checked_plan demo_contract demo_evidence = None"
  by (simp add: validate_plan_def demo_checks validate_gauntlet_strategy_def demo_checked_plan_def)

theorem validated_plan_iff_witness:
  "validate_plan demo_checked_plan demo_contract demo_evidence = None \<and>
   snd ` set (target_categories (p_subtasks demo_checked_plan)) = set (categories_from_contract demo_contract) \<and>
   set (concat (map st_behavior_evidence_advanced (p_subtasks demo_checked_plan))) =
     set (map evidence_canonical_id demo_evidence)"
  using demo_plan_checks validated_plan_iff [of demo_checked_plan demo_contract demo_evidence]
  unfolding Let_def by blast

lemma demo_fixup_accepted:
  "validate_fixup_plan (\<lambda>_. []) demo_fixup demo_contract
     (Some [''rubric:gap-1'', ''standards:py/naming.md'', ''behavior:parse_failure'']) = Inr demo_fixup"
  by code_simp


end
