(* ===== verification/World.thy ===== *)
theory World
  imports Agents PlanChecks FsmRuntime
begin

text \<open>
  What the methods of a \<^verbatim>\<open>TaskWorker\<close> run on. \<open>world\<close> is the store, the attributes of the worker object that change
  and the list of calls made to the outside, newest first. \<open>task_worker\<close> is what stays fixed: the configuration, the
  node, and the answers of the outside, each a function of the number of calls made before, so every sequence of
  answers is covered; \<open>tw_json\<close> is \<^verbatim>\<open>json.loads\<close>, \<open>tw_render\<close> says whether a prompt template fails to
  render. While a call runs, time passes and other threads write to the store: \<open>tw_meanwhile\<close>. The text of a
  prompt is not represented, an agent may answer anything. Code with loops that need not end has type \<open>proc\<close>, where
  \<^const>\<open>None\<close> means that it never returns.
\<close>

section \<open>State\<close>

record worker_cfg =
  wc_base_branch :: string
  wc_worktree_root :: string
  wc_pr_remote :: string
  wc_models :: "string \<Rightarrow> string option"
  wc_timeouts :: "string \<Rightarrow> int"
  wc_hard_max_attempts :: int
  wc_transient_max_retries :: int
  wc_transient_delays :: "(string \<times> int) list"
  wc_progress_after :: int
  wc_progress_every :: int
  wc_flatline_block_count :: int
  wc_same_signature_count :: nat
  wc_transport_count :: nat
  wc_cannot_reproduce_count :: nat
  wc_subtask_check_command :: string
  wc_subtask_check_timeout_s :: int
  wc_local_ci_command :: string
  wc_local_ci_timeout_s :: int
  wc_pre_commit_runner :: string
  wc_pre_commit_timeout_s :: int
  wc_witness_timeout_s :: int
  wc_planner_transient_retries :: int
  wc_fixup_transient_retries :: int
  wc_fixup_output_retries :: int
  wc_conflict_max_iterations :: nat
  wc_audit_max_cycles :: int
  wc_audit_output_retries :: nat
  wc_rubric_categories :: "string list"
  wc_rubric_min_score :: int
  wc_standards_budget :: "nat \<times> nat \<times> nat"
  wc_architecture_budget :: "nat \<times> nat \<times> nat"
  wc_valve_after_cycles :: int
  wc_valve_stages :: "string list"
  wc_valve_max_critical :: int
  wc_audit_fresh_container :: bool
  wc_audit_bootstrap_command :: string
  wc_triage_budget :: int
  wc_conflict_auto_resolve :: bool
  wc_rebase_max_attempts :: int
  wc_intent_max_reviews :: int
  wc_intent_max_replans :: int

datatype call =
    Exec "string list" "int option"
  | Agent string int
  | Host "string list"
  | Ensure_running
  | Call_provision string
  | Teardown
  | Sleep int

type_synonym run_result = "int \<times> string \<times> string"

text \<open>
  What pydantic does: the text of an instance, an instance from a text, and the messages for the field constraints an
  instance violates.
\<close>

record pydantic =
  pd_dump :: "structured \<Rightarrow> string"
  pd_parse_plan :: "string \<Rightarrow> string + plan"
  pd_plan_errors :: "plan \<Rightarrow> string"
  pd_fixup_errors :: "fixup_plan \<Rightarrow> string"

record task_worker =
  tw_cfg :: worker_cfg
  tw_id :: ident
  tw_title :: string
  tw_scope :: string
  tw_hexdigest :: "string \<Rightarrow> string"
  tw_token :: "nat \<Rightarrow> string"
  tw_resolve :: "string \<Rightarrow> string"
  tw_evidence :: "evidence list"
  tw_node_evidence :: "ident \<Rightarrow> evidence list option"
  tw_exec :: "nat \<Rightarrow> string list \<Rightarrow> py_error + run_result"
  tw_agent :: "nat \<Rightarrow> string \<Rightarrow> py_error + agent_result"
  tw_host :: "nat \<Rightarrow> string list \<Rightarrow> py_error + run_result"
  tw_ensure :: "nat \<Rightarrow> py_error + bool"
  tw_provision :: "nat \<Rightarrow> py_error + string"
  tw_teardown :: "nat \<Rightarrow> py_error + unit"
  tw_exists :: "nat \<Rightarrow> string \<Rightarrow> bool"
  tw_clock :: "nat \<Rightarrow> int"
  tw_stop :: "nat \<Rightarrow> bool"
  tw_json :: "string \<Rightarrow> json option"
  tw_pydantic :: pydantic
  tw_render :: "string \<Rightarrow> py_error option"
  tw_built_contract :: contract
  tw_loaded :: "standards_profile list \<times> arch_corpus"
  tw_meanwhile :: "nat \<Rightarrow> db \<Rightarrow> db"

record world =
  wd_db :: db
  wd_calls :: "call list"
  wd_handle :: "string option"
  wd_plan :: "plan option"
  wd_plan_text :: string
  wd_doer_summary :: string
  wd_diff :: string
  wd_witness :: "(string \<times> witness_result) list"
  wd_contract :: "contract option"
  wd_files :: contract_files

type_synonym 'a wact = "(world, 'a) act"

record worker_outcome =
  wo_final_state :: state
  wo_note :: string

section \<open>Primitive actions\<close>

text \<open>An operation of the store.\<close>

definition on_store :: "'a store_act \<Rightarrow> 'a wact" where
  "on_store m = (\<lambda>w. case m (wd_db w) of (r, d) \<Rightarrow> (r, w\<lparr>wd_db := d\<rparr>))"

definition store_read :: "(db \<Rightarrow> 'a) \<Rightarrow> 'a wact" where
  "store_read f = py_read (\<lambda>w. f (wd_db w))"

text \<open>A call to the outside: it is recorded, the store may change meanwhile, and the answer may be an exception.\<close>

definition outside :: "task_worker \<Rightarrow> call \<Rightarrow> (nat \<Rightarrow> py_error + 'a) \<Rightarrow> 'a wact" where
  "outside tw c answer =
     (\<lambda>w. let n = length (wd_calls w)
          in (answer n, w\<lparr>wd_calls := c # wd_calls w, wd_db := tw_meanwhile tw n (wd_db w)\<rparr>))"

text \<open>\<^verbatim>\<open>self._h\<close>.\<close>

definition the_handle :: "string wact" where
  "the_handle =
     py_bind (py_read wd_handle) (\<lambda>h. case h of
        None \<Rightarrow> py_raise (AssertionError ''_provision() must run before this method'')
      | Some s \<Rightarrow> py_return s)"

definition exec_in :: "task_worker \<Rightarrow> string list \<Rightarrow> int option \<Rightarrow> run_result wact" where
  "exec_in tw argv timeout =
     py_then the_handle (outside tw (Exec argv timeout) (\<lambda>n. tw_exec tw n argv))"

text \<open>\<^verbatim>\<open>time.monotonic()\<close> in milliseconds.\<close>

definition monotonic :: "task_worker \<Rightarrow> int wact" where
  "monotonic tw = py_read (\<lambda>w. tw_clock tw (length (wd_calls w)))"

definition bash :: "string \<Rightarrow> string list" where
  "bash cmd = [''bash'', ''-lc'', cmd]"

text \<open>Sleeps are in milliseconds.\<close>

definition sleep :: "task_worker \<Rightarrow> int \<Rightarrow> unit wact" where
  "sleep tw s = outside tw (Sleep s) (\<lambda>_. Inr ())"

text \<open>\<^verbatim>\<open>subprocess.run(argv, check=False)\<close> on the host.\<close>

definition host_run :: "task_worker \<Rightarrow> string list \<Rightarrow> run_result wact" where
  "host_run tw argv = outside tw (Host argv) (\<lambda>n. tw_host tw n argv)"

text \<open>\<^verbatim>\<open>shlex.quote\<close>: a string of safe characters stands for itself.\<close>

definition shell_safe :: "char \<Rightarrow> bool" where
  "shell_safe c \<longleftrightarrow> is_word_char c \<or> c \<in> set ''@%+=:,./-''"

definition shell_quote :: "string \<Rightarrow> string" where
  "shell_quote s =
     (if s = [] then quote1 @ quote1
      else if list_all shell_safe s then s
      else quote1 @
        concat (map (\<lambda>c. if [c] = quote1 then quote1 @ [CHR 0x22] @ quote1 @ [CHR 0x22] @ quote1 else [c]) s) @
        quote1)"

text \<open>\<^verbatim>\<open>_git_in_workspace\<close>: the arguments are joined without quoting.\<close>

definition git_in_workspace :: "task_worker \<Rightarrow> string list \<Rightarrow> (int \<times> string) wact" where
  "git_in_workspace tw args =
     py_bind (exec_in tw (bash (''cd /workspace && git '' @ join '' '' args)) (Some 300)) (\<lambda>(rc, out, err).
       py_return (rc, out @ err))"

text \<open>\<^verbatim>\<open>self._row()\<close>.\<close>

definition the_row :: "task_worker \<Rightarrow> task_row wact" where
  "the_row tw =
     py_bind (store_read (find_task (tw_id tw))) (\<lambda>r. case r of
        None \<Rightarrow> py_raise (AssertionError (''task '' @ py_repr (tw_id tw) @ '' should be in store but isn'' @ quote1 @ ''t''))
      | Some row \<Rightarrow> py_return row)"

definition opt_text :: "string option \<Rightarrow> string" where
  "opt_text x = (case x of None \<Rightarrow> [] | Some s \<Rightarrow> s)"

text \<open>\<^verbatim>\<open>s or None\<close>.\<close>

definition some_text :: "string \<Rightarrow> string option" where
  "some_text s = (if s = [] then None else Some s)"

text \<open>\<^verbatim>\<open>str(row["branch"])\<close> renders a null as the word.\<close>

definition str_col :: "string option \<Rightarrow> string" where
  "str_col x = (case x of None \<Rightarrow> ''None'' | Some s \<Rightarrow> s)"

definition artifact :: "task_worker \<Rightarrow> string \<Rightarrow> string \<Rightarrow> unit wact" where
  "artifact tw kind content = on_store (add_artifact (tw_id tw) kind content False)"

text \<open>A helper of \<^verbatim>\<open>fsm_runtime\<close>, called for its effect.\<close>

definition fsm_call :: "task_worker \<Rightarrow> helper \<Rightarrow> string option \<Rightarrow> task_field list \<Rightarrow> unit wact" where
  "fsm_call tw h note kw = py_then (on_store (h (tw_id tw) note kw)) (py_return ())"

definition outcome :: "state \<Rightarrow> string \<Rightarrow> worker_outcome" where
  "outcome s note = \<lparr>wo_final_state = s, wo_note = note\<rparr>"

text \<open>The common ending \<^verbatim>\<open>block_current(..., note, last_error)\<close> with a BLOCKED outcome.\<close>

definition block_with :: "task_worker \<Rightarrow> string \<Rightarrow> string option \<Rightarrow> string \<Rightarrow> worker_outcome option wact" where
  "block_with tw note err text =
     py_then (fsm_call tw block_current (Some note) (case err of None \<Rightarrow> [] | Some e \<Rightarrow> [F_last_error (Some e)]))
       (py_return (Some (outcome BLOCKED text)))"

section \<open>Agent calls\<close>

text \<open>\<^verbatim>\<open>agent.invoke\<close>, and the same between the start and finish marks in the ledger.\<close>

definition invoke :: "task_worker \<Rightarrow> string \<Rightarrow> agent_result wact" where
  "invoke tw role =
     py_then the_handle
       (outside tw (Agent role (wc_timeouts (tw_cfg tw) role)) (\<lambda>n. tw_agent tw n role))"

definition recorded_invoke :: "task_worker \<Rightarrow> string \<Rightarrow> string \<Rightarrow> string option \<Rightarrow> agent_result wact" where
  "recorded_invoke tw role ph sid =
     py_bind (on_store (record_agent_call_started (tw_id tw) ph ''json_agent'' (wc_models (tw_cfg tw) role) sid))
       (\<lambda>call_id.
     py_bind (invoke tw role) (\<lambda>r.
     py_then (on_store (record_agent_call_finished call_id (ag_rc r) (ag_duration_s r) None (ag_tokens_input r)
                (ag_tokens_output r) None None (ag_cost_usd r)))
       (py_return r)))"

text \<open>\<^verbatim>\<open>TaskWorker._evaluation_contract\<close>: cached, else loaded, else built and persisted.\<close>

definition adopt_contract :: "task_worker \<Rightarrow> contract wact" where
  "adopt_contract tw =
     py_then (py_modify (\<lambda>w. w\<lparr>wd_contract := Some (tw_built_contract tw),
                               wd_files := persist (tw_built_contract tw) (tw_id tw) (wd_files w)\<rparr>))
       (py_return (tw_built_contract tw))"

definition evaluation_contract :: "task_worker \<Rightarrow> contract wact" where
  "evaluation_contract tw =
     py_bind (py_read (\<lambda>w. (wd_contract w, load_contract (wd_files w) (tw_id tw)))) (\<lambda>(cached, stored).
       case cached of
         Some c \<Rightarrow> py_return c
       | None \<Rightarrow>
           (case stored of
              None \<Rightarrow> adopt_contract tw
            | Some (Inl e) \<Rightarrow> py_raise e
            | Some (Inr c) \<Rightarrow>
                py_then (py_modify (\<lambda>w. w\<lparr>wd_contract := Some c\<rparr>))
                  (if audit_corpora_need_refresh c (fst (tw_loaded tw)) (snd (tw_loaded tw))
                   then adopt_contract tw else py_return c)))"

section \<open>Procedures that may not return\<close>

type_synonym 'a proc = "world \<Rightarrow> ((py_error + 'a) \<times> world) option"

definition p_act :: "'a wact \<Rightarrow> 'a proc" where
  "p_act m = (\<lambda>w. Some (m w))"

definition p_bind :: "'a proc \<Rightarrow> ('a \<Rightarrow> 'b proc) \<Rightarrow> 'b proc" where
  "p_bind m f =
     (\<lambda>w. case m w of
            None \<Rightarrow> None
          | Some (Inl e, w') \<Rightarrow> Some (Inl e, w')
          | Some (Inr a, w') \<Rightarrow> f a w')"

definition p_return :: "'a \<Rightarrow> 'a proc" where
  "p_return a = p_act (py_return a)"

definition p_then :: "'a proc \<Rightarrow> 'b proc \<Rightarrow> 'b proc" where
  "p_then m k = p_bind m (\<lambda>_. k)"

definition p_catch :: "'a proc \<Rightarrow> (py_error \<Rightarrow> 'a proc) \<Rightarrow> 'a proc" where
  "p_catch m h =
     (\<lambda>w. case m w of
            None \<Rightarrow> None
          | Some (Inl e, w') \<Rightarrow> h e w'
          | Some (Inr a, w') \<Rightarrow> Some (Inr a, w'))"

text \<open>\<^verbatim>\<open>while True\<close>: a turn goes on with \<^const>\<open>Inl\<close> a new loop state or leaves with \<^const>\<open>Inr\<close> the result.\<close>

partial_function (option) p_loop :: "('s \<Rightarrow> ('s + 'a) proc) \<Rightarrow> 's \<Rightarrow> 'a proc" where
  "p_loop body s w =
     (case body s w of
        None \<Rightarrow> None
      | Some (Inl e, w') \<Rightarrow> Some (Inl e, w')
      | Some (Inr (Inr a), w') \<Rightarrow> Some (Inr a, w')
      | Some (Inr (Inl s'), w') \<Rightarrow> p_loop body s' w')"

text \<open>Running a list of steps until one settles the whole.\<close>

fun p_first :: "('a \<Rightarrow> 'b option proc) \<Rightarrow> 'a list \<Rightarrow> 'b option proc" where
  "p_first f [] = p_return None"
| "p_first f (x # xs) =
     p_bind (f x) (\<lambda>r. case r of Some b \<Rightarrow> p_return (Some b) | None \<Rightarrow> p_first f xs)"

section \<open>Invariants\<close>

text \<open>What other threads do while a call runs preserves \<open>P\<close>.\<close>

definition others_keep :: "(db \<Rightarrow> bool) \<Rightarrow> task_worker \<Rightarrow> bool" where
  "others_keep P tw \<longleftrightarrow> (\<forall>n d. P d \<longrightarrow> P (tw_meanwhile tw n d))"

abbreviation wkeeps :: "(db \<Rightarrow> bool) \<Rightarrow> 'a wact \<Rightarrow> bool" where
  "wkeeps P m \<equiv> keeps (\<lambda>w. P (wd_db w)) m"

lemma keeps_on_store [keeps_intros]: "keeps P m \<Longrightarrow> wkeeps P (on_store m)"
  by (fastforce simp: keeps_def on_store_def split: prod.splits)

lemma keeps_store_read [keeps_intros]: "wkeeps P (store_read f)"
  unfolding store_read_def by (rule keeps_read)

lemma keeps_outside: "others_keep P tw \<Longrightarrow> wkeeps P (outside tw c a)"
  by (simp add: keeps_def outside_def others_keep_def Let_def)

lemma keeps_field_update: "(\<And>w. wd_db (f w) = wd_db w) \<Longrightarrow> wkeeps P (py_modify f)"
  by (simp add: keeps_def py_modify_def)

lemma keeps_case_prod [keeps_intros]: "(\<And>a b. x = (a, b) \<Longrightarrow> keeps P (f a b)) \<Longrightarrow> keeps P (case x of (a, b) \<Rightarrow> f a b)"
  by (cases x) simp

lemma keeps_case_list [keeps_intros]:
  "(xs = [] \<Longrightarrow> keeps P m) \<Longrightarrow> (\<And>a as. xs = a # as \<Longrightarrow> keeps P (k a as)) \<Longrightarrow>
   keeps P (case xs of [] \<Rightarrow> m | a # as \<Rightarrow> k a as)"
  by (cases xs) simp_all

lemma keeps_handle [keeps_intros]: "wkeeps P the_handle"
  unfolding the_handle_def by (intro keeps_intros)

lemma keeps_row [keeps_intros]: "wkeeps P (the_row tw)"
  unfolding the_row_def by (intro keeps_intros)

lemmas [keeps_intros] =
  to_doing.keeps_history to_checking.keeps_history to_triaging.keeps_history to_committing.keeps_history
  to_pushing.keeps_history to_local_ci.keeps_history to_fixup.keeps_history to_pr_opening.keeps_history
  to_conflict.keeps_history to_audit.keeps_history local_ci_passed.keeps_history local_ci_failed.keeps_history
  rubric_passed.keeps_history rubric_failed.keeps_history standards_passed.keeps_history
  standards_failed.keeps_history architecture_passed.keeps_history architecture_failed.keeps_history
  behavior_passed.keeps_history behavior_failed.keeps_history

named_theorems calls_keep \<open>actions that make outside calls\<close>

lemmas [calls_keep] = keeps_outside

lemma keeps_exec [calls_keep]: "others_keep P tw \<Longrightarrow> wkeeps P (exec_in tw argv t)"
  unfolding exec_in_def by (intro keeps_intros calls_keep)

lemma keeps_sleep [calls_keep]: "others_keep P tw \<Longrightarrow> wkeeps P (sleep tw s)"
  unfolding sleep_def by (intro calls_keep)

lemma keeps_host [calls_keep]: "others_keep P tw \<Longrightarrow> wkeeps P (host_run tw argv)"
  unfolding host_run_def by (intro calls_keep)

lemma keeps_git [calls_keep]: "others_keep P tw \<Longrightarrow> wkeeps P (git_in_workspace tw args)"
  unfolding git_in_workspace_def by (intro keeps_intros calls_keep)

lemma keeps_invoke [calls_keep]: "others_keep P tw \<Longrightarrow> wkeeps P (invoke tw role)"
  unfolding invoke_def by (intro keeps_intros calls_keep)

lemma keeps_recorded [calls_keep]: "others_keep store_ok tw \<Longrightarrow> wkeeps store_ok (recorded_invoke tw role ph sid)"
  unfolding recorded_invoke_def by (intro keeps_intros calls_keep)

lemma keeps_artifact [keeps_intros]: "wkeeps store_ok (artifact tw k c)"
  unfolding artifact_def by (intro keeps_intros)

lemma keeps_fsm_call [keeps_intros]:
  "keeps store_ok (h (tw_id tw) txt kw) \<Longrightarrow> wkeeps store_ok (fsm_call tw h txt kw)"
  unfolding fsm_call_def by (intro keeps_intros)

lemma keeps_block_with [keeps_intros]: "wkeeps store_ok (block_with tw note err txt)"
  unfolding block_with_def by (intro keeps_intros)

lemma keeps_contract [keeps_intros]: "wkeeps P (evaluation_contract tw)"
proof -
  have adopt: "wkeeps P (adopt_contract tw)"
    unfolding adopt_contract_def by (intro keeps_intros keeps_field_update) simp
  show ?thesis
    unfolding evaluation_contract_def by (intro keeps_intros keeps_field_update adopt) simp
qed

text \<open>What an action returns is what its last step returns.\<close>

lemma bind_yields: "(\<And>a. yields Q (f a)) \<Longrightarrow> yields Q (py_bind m f)"
  by (rule yields_bind [where R = "\<lambda>_. True"]) (simp_all add: yields_def)

lemma prod_yields: "(\<And>a b. yields Q (f a b)) \<Longrightarrow> yields Q (case x of (a, b) \<Rightarrow> f a b)"
  by (cases x) simp

section \<open>Counting calls\<close>

text \<open>\<open>spends p k m\<close>: whatever the outside answers, \<open>m\<close> makes at most \<open>k\<close> of the calls \<open>p\<close>.\<close>

definition calls_of :: "(call \<Rightarrow> bool) \<Rightarrow> world \<Rightarrow> nat" where
  "calls_of p w = length (filter p (wd_calls w))"

definition spends :: "(call \<Rightarrow> bool) \<Rightarrow> nat \<Rightarrow> 'a wact \<Rightarrow> bool" where
  "spends p k m \<longleftrightarrow> (\<forall>w. calls_of p (snd (m w)) \<le> k + calls_of p w)"

lemma spendsI: "(\<And>w. calls_of p (snd (m w)) \<le> k + calls_of p w) \<Longrightarrow> spends p k m"
  by (simp add: spends_def)

lemma spendsD: "spends p k m \<Longrightarrow> calls_of p (snd (m w)) \<le> k + calls_of p w"
  by (simp add: spends_def)

lemma spends_le: "spends p i m \<Longrightarrow> i \<le> k \<Longrightarrow> spends p k m"
  unfolding spends_def by (meson add_le_mono1 le_trans)

named_theorems spends_intros \<open>rules counting the calls of an action\<close>

lemma spends_basic [spends_intros]:
  "spends p 0 (py_return a)" "spends p 0 (py_raise e)" "spends p 0 (py_read f)" "spends p 0 (store_read g)"
  "spends p 0 (on_store m)"
  by (auto simp: spends_def calls_of_def store_read_def on_store_def act_simps split: prod.splits)

lemma spends_modify: "(\<And>w. wd_calls (f w) = wd_calls w) \<Longrightarrow> spends p 0 (py_modify f)"
  by (simp add: spends_def calls_of_def act_simps)

lemma spends_bind [spends_intros]:
  assumes "spends p i m" and "\<And>a. spends p j (f a)"
  shows "spends p (i + j) (py_bind m f)"
proof (rule spendsI)
  fix w
  obtain r v where run: "m w = (r, v)" by fastforce
  have v: "calls_of p v \<le> i + calls_of p w" using spendsD [OF assms(1), of w] run by simp
  show "calls_of p (snd (py_bind m f w)) \<le> i + j + calls_of p w"
  proof (cases r)
    case (Inr a)
    with run v spendsD [OF assms(2) [of a], of v] show ?thesis by (simp add: act_simps)
  qed (use run v in \<open>simp add: act_simps\<close>)
qed

lemma spends_then [spends_intros]: "spends p i m \<Longrightarrow> spends p j k \<Longrightarrow> spends p (i + j) (py_then m k)"
  unfolding py_then_def by (intro spends_intros)

lemma spends_catch [spends_intros]:
  assumes "spends p i m" and "\<And>e. spends p j (h e)"
  shows "spends p (i + j) (py_catch m h)"
proof (rule spendsI)
  fix w
  obtain r v where run: "m w = (r, v)" by fastforce
  have v: "calls_of p v \<le> i + calls_of p w" using spendsD [OF assms(1), of w] run by simp
  show "calls_of p (snd (py_catch m h w)) \<le> i + j + calls_of p w"
  proof (cases r)
    case (Inl e)
    with run v spendsD [OF assms(2) [of e], of v] show ?thesis by (simp add: act_simps)
  qed (use run v in \<open>simp add: act_simps\<close>)
qed

lemma spends_if [spends_intros]: "spends p i m \<Longrightarrow> spends p j k \<Longrightarrow> spends p (max i j) (if b then m else k)"
  by (auto intro: spends_le [OF _ max.cobounded1] spends_le [OF _ max.cobounded2])

lemma spends_option [spends_intros]:
  "spends p i m \<Longrightarrow> (\<And>y. spends p j (k y)) \<Longrightarrow> spends p (max i j) (case x of None \<Rightarrow> m | Some y \<Rightarrow> k y)"
  by (cases x) (auto intro: spends_le [OF _ max.cobounded1] spends_le [OF _ max.cobounded2])

lemma spends_sum [spends_intros]:
  "(\<And>y. spends p i (m y)) \<Longrightarrow> (\<And>y. spends p j (k y)) \<Longrightarrow>
   spends p (max i j) (case x of Inl y \<Rightarrow> m y | Inr y \<Rightarrow> k y)"
  by (cases x) (auto intro: spends_le [OF _ max.cobounded1] spends_le [OF _ max.cobounded2])

lemma spends_list [spends_intros]:
  "spends p i m \<Longrightarrow> (\<And>y ys. spends p j (k y ys)) \<Longrightarrow>
   spends p (max i j) (case xs of [] \<Rightarrow> m | y # ys \<Rightarrow> k y ys)"
  by (cases xs) (auto intro: spends_le [OF _ max.cobounded1] spends_le [OF _ max.cobounded2])

lemma spends_prod [spends_intros]: "(\<And>a b. spends p i (f a b)) \<Longrightarrow> spends p i (case x of (a, b) \<Rightarrow> f a b)"
  by (cases x) simp

lemma spends_for:
  assumes "\<And>x. spends p 0 (f x)"
  shows "spends p 0 (py_for xs f)"
proof (induction xs)
  case (Cons x xs)
  have "spends p (0 + (0 + 0)) (py_bind (f x) (\<lambda>y. py_bind (py_for xs f) (\<lambda>ys. py_return (y # ys))))"
    by (intro spends_intros assms Cons.IH)
  then show ?case by simp
qed (simp add: spends_intros)

lemma spends_outside: "spends p (if p c then 1 else 0) (outside tw c a)"
  by (simp add: spends_def calls_of_def outside_def Let_def)

lemma spends_handle [spends_intros]: "spends p 0 the_handle"
proof -
  have "spends p (0 + max 0 0) the_handle" unfolding the_handle_def by (intro spends_intros)
  then show ?thesis by simp
qed

text \<open>A predicate that concerns calls of agents only: commands and container operations are free.\<close>

definition only_agents :: "(call \<Rightarrow> bool) \<Rightarrow> bool" where
  "only_agents p \<longleftrightarrow> (\<forall>c. p c \<longrightarrow> (\<exists>r t. c = Agent r t))"

definition agent_call_of :: "string \<Rightarrow> call \<Rightarrow> bool" where
  "agent_call_of role c \<longleftrightarrow> (\<exists>t. c = Agent role t)"

lemma only_agents_of [simp, intro]: "only_agents (agent_call_of role)"
  by (auto simp: only_agents_def agent_call_of_def)

lemma spends_free: "only_agents p \<Longrightarrow> \<nexists>r t. c = Agent r t \<Longrightarrow> spends p 0 (outside tw c a)"
  using spends_outside [of p c tw a] by (auto simp: only_agents_def split: if_splits)

lemma spends_exec [spends_intros]: "only_agents p \<Longrightarrow> spends p 0 (exec_in tw argv t)"
proof -
  assume p: "only_agents p"
  have "spends p (0 + 0) (exec_in tw argv t)" unfolding exec_in_def by (intro spends_intros spends_free p) simp
  then show ?thesis by simp
qed

lemma spends_host [spends_intros]: "only_agents p \<Longrightarrow> spends p 0 (host_run tw argv)"
  unfolding host_run_def by (rule spends_free) simp_all

lemma spends_sleep [spends_intros]: "only_agents p \<Longrightarrow> spends p 0 (sleep tw s)"
  unfolding sleep_def by (rule spends_free) simp_all

lemma spends_git [spends_intros]: "only_agents p \<Longrightarrow> spends p 0 (git_in_workspace tw args)"
proof -
  assume p: "only_agents p"
  have "spends p (0 + 0) (git_in_workspace tw args)" unfolding git_in_workspace_def by (intro spends_intros p)
  then show ?thesis by simp
qed

lemma spends_row [spends_intros]: "spends p 0 (the_row tw)"
proof -
  have "spends p (0 + max 0 0) (the_row tw)" unfolding the_row_def by (intro spends_intros)
  then show ?thesis by simp
qed

lemma spends_artifact [spends_intros]: "spends p 0 (artifact tw kind content)"
  unfolding artifact_def by (intro spends_intros)

lemma spends_fsm_call [spends_intros]: "spends p 0 (fsm_call tw h txt kw)"
proof -
  have "spends p (0 + 0) (fsm_call tw h txt kw)" unfolding fsm_call_def by (intro spends_intros)
  then show ?thesis by simp
qed

lemma spends_block_with [spends_intros]: "spends p 0 (block_with tw n e t)"
proof -
  have "spends p (0 + 0) (block_with tw n e t)" unfolding block_with_def by (intro spends_intros)
  then show ?thesis by simp
qed

lemma spends_recorded [spends_intros]: "spends p (if p (Agent role (wc_timeouts (tw_cfg tw) role)) then 1 else 0)
    (recorded_invoke tw role ph sid)"
proof -
  have "spends p (0 + ((0 + (if p (Agent role (wc_timeouts (tw_cfg tw) role)) then 1 else 0)) + (0 + 0)))
      (recorded_invoke tw role ph sid)"
    unfolding recorded_invoke_def invoke_def by (intro spends_intros spends_outside)
  then show ?thesis by simp
qed

definition p_keeps :: "(world \<Rightarrow> bool) \<Rightarrow> 'a proc \<Rightarrow> bool" where
  "p_keeps P m \<longleftrightarrow> (\<forall>w r w'. P w \<longrightarrow> m w = Some (r, w') \<longrightarrow> P w')"

lemma p_keepsD: "p_keeps P m \<Longrightarrow> P w \<Longrightarrow> m w = Some (r, w') \<Longrightarrow> P w'"
  by (simp add: p_keeps_def)

named_theorems p_keeps_intros \<open>rules carrying an invariant through a procedure\<close>

lemma p_keeps_act [p_keeps_intros]: "keeps P m \<Longrightarrow> p_keeps P (p_act m)"
  by (auto simp: p_keeps_def p_act_def dest: keeps_result)

lemma p_keeps_return [p_keeps_intros]: "p_keeps P (p_return a)"
  unfolding p_return_def by (intro p_keeps_intros keeps_intros)

lemma p_keeps_bind [p_keeps_intros]:
  assumes "p_keeps P m" and "\<And>a. p_keeps P (f a)"
  shows "p_keeps P (p_bind m f)"
  unfolding p_keeps_def
proof (intro allI impI)
  fix w r w' assume "P w" and run: "p_bind m f w = Some (r, w')"
  then obtain x v where m: "m w = Some (x, v)" by (auto simp: p_bind_def split: option.splits)
  with assms(1) \<open>P w\<close> have "P v" by (blast intro: p_keepsD)
  with run m assms(2) show "P w'" by (cases x) (auto simp: p_bind_def dest: p_keepsD)
qed

lemma p_keeps_then [p_keeps_intros]: "p_keeps P m \<Longrightarrow> p_keeps P k \<Longrightarrow> p_keeps P (p_then m k)"
  unfolding p_then_def by (intro p_keeps_intros)

lemma p_keeps_catch [p_keeps_intros]:
  assumes "p_keeps P m" and "\<And>e. p_keeps P (h e)"
  shows "p_keeps P (p_catch m h)"
  unfolding p_keeps_def
proof (intro allI impI)
  fix w r w' assume "P w" and run: "p_catch m h w = Some (r, w')"
  then obtain x v where m: "m w = Some (x, v)" by (auto simp: p_catch_def split: option.splits)
  with assms(1) \<open>P w\<close> have "P v" by (blast intro: p_keepsD)
  with run m assms(2) show "P w'" by (cases x) (auto simp: p_catch_def dest: p_keepsD)
qed

lemma p_keeps_if [p_keeps_intros]:
  "(b \<Longrightarrow> p_keeps P m) \<Longrightarrow> (\<not> b \<Longrightarrow> p_keeps P k) \<Longrightarrow> p_keeps P (if b then m else k)"
  by simp

lemma p_keeps_option [p_keeps_intros]:
  "(x = None \<Longrightarrow> p_keeps P m) \<Longrightarrow> (\<And>y. x = Some y \<Longrightarrow> p_keeps P (k y)) \<Longrightarrow>
   p_keeps P (case x of None \<Rightarrow> m | Some y \<Rightarrow> k y)"
  by (cases x) simp_all

lemma p_keeps_sum [p_keeps_intros]:
  "(\<And>a. x = Inl a \<Longrightarrow> p_keeps P (m a)) \<Longrightarrow> (\<And>b. x = Inr b \<Longrightarrow> p_keeps P (k b)) \<Longrightarrow>
   p_keeps P (case x of Inl a \<Rightarrow> m a | Inr b \<Rightarrow> k b)"
  by (cases x) simp_all

lemma p_keeps_prod [p_keeps_intros]:
  "(\<And>a b. x = (a, b) \<Longrightarrow> p_keeps P (f a b)) \<Longrightarrow> p_keeps P (case x of (a, b) \<Rightarrow> f a b)"
  by (cases x) simp

lemma p_keeps_first [p_keeps_intros]: "(\<And>x. x \<in> set xs \<Longrightarrow> p_keeps P (f x)) \<Longrightarrow> p_keeps P (p_first f xs)"
  by (induction xs) (auto intro!: p_keeps_intros)

text \<open>What a run of the loop does is what a finite number of its turns do.\<close>

lemma p_loop_run:
  assumes "p_loop body s w = Some y"
    and "\<And>s w e w'. body s w = Some (Inl e, w') \<Longrightarrow> Q s w (Inl e, w')"
    and "\<And>s w a w'. body s w = Some (Inr (Inr a), w') \<Longrightarrow> Q s w (Inr a, w')"
    and "\<And>s w s' w' y. body s w = Some (Inr (Inl s'), w') \<Longrightarrow> p_loop body s' w' = Some y \<Longrightarrow> Q s' w' y \<Longrightarrow> Q s w y"
  shows "Q s w y"
proof -
  have "p_loop body s w = Some y \<and> (b = body \<longrightarrow> Q s w y)" if "p_loop b s w = Some y" "b = body" for b s w y
  proof -
    have "b = body \<longrightarrow> p_loop body s w = Some y \<and> Q s w y"
    proof (rule p_loop.raw_induct [where P = "\<lambda>b s w y. b = body \<longrightarrow> p_loop body s w = Some y \<and> Q s w y", OF _ that(1)])
      fix f b s w y
      assume IH: "\<And>b s w y. f b s w = Some y \<Longrightarrow> b = body \<longrightarrow> p_loop body s w = Some y \<and> Q s w y"
        and run: "(case b s w of None \<Rightarrow> None | Some (Inl e, w') \<Rightarrow> Some (Inl e, w')
          | Some (Inr (Inl s'), w') \<Rightarrow> f b s' w' | Some (Inr (Inr a), w') \<Rightarrow> Some (Inr a, w')) = Some y"
      show "b = body \<longrightarrow> p_loop body s w = Some y \<and> Q s w y"
      proof
        assume "b = body"
        have IH': "p_loop body s w = Some y \<and> Q s w y" if "f body s w = Some y" for s w y
          using IH that by blast
        consider e w' where "body s w = Some (Inl e, w')" | a w' where "body s w = Some (Inr (Inr a), w')"
          | s' w' where "body s w = Some (Inr (Inl s'), w')"
          using run \<open>b = body\<close> by (cases "body s w") (auto split: sum.splits)
        then show "p_loop body s w = Some y \<and> Q s w y"
        proof cases
          case 1
          with run \<open>b = body\<close> have "y = (Inl e, w')" by simp
          with assms(2) [OF 1] 1 show ?thesis by (simp add: p_loop.simps)
        next
          case 2
          with run \<open>b = body\<close> have "y = (Inr a, w')" by simp
          with assms(3) [OF 2] 2 show ?thesis by (simp add: p_loop.simps)
        next
          case 3
          then have "f body s' w' = Some y" using run \<open>b = body\<close> by simp
          from IH' [OF this] have "p_loop body s' w' = Some y" "Q s' w' y" by blast+
          moreover from 3 this(1) have "p_loop body s w = Some y" by (subst p_loop.simps) simp
          ultimately show ?thesis using assms(4) [OF 3] by blast
        qed
      qed
    qed
    with that show ?thesis by blast
  qed
  with assms(1) show ?thesis by blast
qed

lemma p_keeps_loop [p_keeps_intros]:
  assumes body: "\<And>s. p_keeps P (body s)"
  shows "p_keeps P (p_loop body s)"
proof -
  have "P w \<longrightarrow> P (snd y)" if "p_loop body s w = Some y" for s w y
    using that
    by (rule p_loop_run [where Q = "\<lambda>s w y. P w \<longrightarrow> P (snd y)"])
      (use body in \<open>auto dest: p_keepsD\<close>)
  then show ?thesis by (fastforce simp: p_keeps_def)
qed

text \<open>
  Total correctness with a bound: \<open>ends_in p k Q m\<close> says that \<open>m\<close> returns whatever the outside answers, makes at most \<open>k\<close> of
  the calls \<open>p\<close>, and that every value it returns has \<open>Q\<close>.
\<close>

definition ends_in :: "(call \<Rightarrow> bool) \<Rightarrow> nat \<Rightarrow> ('a \<Rightarrow> bool) \<Rightarrow> 'a proc \<Rightarrow> bool" where
  "ends_in p k Q m \<longleftrightarrow>
     (\<forall>w. \<exists>r w'. m w = Some (r, w') \<and> calls_of p w' \<le> k + calls_of p w \<and> (\<forall>a. r = Inr a \<longrightarrow> Q a))"

lemma endsE:
  assumes "ends_in p k Q m"
  obtains r w' where "m w = Some (r, w')" and "calls_of p w' \<le> k + calls_of p w" and "\<And>a. r = Inr a \<Longrightarrow> Q a"
  using assms unfolding ends_in_def by blast

lemma ends_result: "ends_in p k Q m \<Longrightarrow> m w = Some (Inr a, w') \<Longrightarrow> Q a"
  by (erule endsE [where w = w]) simp

lemma ends_weaken: "ends_in p i Q m \<Longrightarrow> i \<le> k \<Longrightarrow> (\<And>a. Q a \<Longrightarrow> R a) \<Longrightarrow> ends_in p k R m"
  unfolding ends_in_def by (meson add_le_mono1 le_trans)

lemma ends_act: "spends p k m \<Longrightarrow> yields Q m \<Longrightarrow> ends_in p k Q (p_act m)"
  unfolding ends_in_def p_act_def yields_def by (metis option.inject prod.collapse spendsD)

lemma ends_return: "Q a \<Longrightarrow> ends_in p 0 Q (p_return a)"
  unfolding p_return_def by (intro ends_act spends_intros yields_return)

lemma ends_bind:
  assumes "ends_in p i R m" and "\<And>a. R a \<Longrightarrow> ends_in p j Q (f a)"
  shows "ends_in p (i + j) Q (p_bind m f)"
  unfolding ends_in_def
proof
  fix w
  obtain r v where run: "m w = Some (r, v)" "calls_of p v \<le> i + calls_of p w" "\<And>a. r = Inr a \<Longrightarrow> R a"
    using endsE [OF assms(1)] by blast
  show "\<exists>r w'. p_bind m f w = Some (r, w') \<and> calls_of p w' \<le> i + j + calls_of p w \<and> (\<forall>a. r = Inr a \<longrightarrow> Q a)"
  proof (cases r)
    case (Inr a)
    obtain x u where "f a v = Some (x, u)" "calls_of p u \<le> j + calls_of p v" "\<And>a. x = Inr a \<Longrightarrow> Q a"
      using endsE [OF assms(2) [OF run(3) [OF Inr]]] by blast
    with run Inr show ?thesis by (auto simp: p_bind_def)
  qed (use run in \<open>auto simp: p_bind_def\<close>)
qed

lemma ends_then: "ends_in p i R m \<Longrightarrow> ends_in p j Q k \<Longrightarrow> ends_in p (i + j) Q (p_then m k)"
  unfolding p_then_def by (rule ends_bind)

text \<open>
  A loop whose turns go on with a smaller measure, making at most one of the calls, or leave with \<open>Q\<close>: the measure
  bounds the calls.
\<close>

lemma ends_loop:
  fixes turn :: "'s \<Rightarrow> ('s + 'a) wact" and f :: "'s \<Rightarrow> nat"
  assumes "I s"
    and down: "\<And>s. I s \<Longrightarrow> yields (\<lambda>x. case x of Inl s' \<Rightarrow> I s' \<and> f s' < f s | Inr a \<Rightarrow> Q a) (turn s)"
    and cost: "\<And>s. I s \<Longrightarrow> spends p (min 1 (f s)) (turn s)"
  shows "ends_in p (f s) Q (p_loop (\<lambda>s. p_act (turn s)) s)"
  unfolding ends_in_def
proof
  fix w
  show "\<exists>r w'. p_loop (\<lambda>s. p_act (turn s)) s w = Some (r, w') \<and> calls_of p w' \<le> f s + calls_of p w \<and>
      (\<forall>a. r = Inr a \<longrightarrow> Q a)"
    using assms(1)
  proof (induction "f s" arbitrary: s w rule: less_induct)
    case less
    obtain r v where run: "turn s w = (r, v)" by fastforce
    have calls: "calls_of p v \<le> min 1 (f s) + calls_of p w" using spendsD [OF cost [OF less.prems], of w] run by simp
    note step = yieldsD [OF down [OF less.prems]]
    consider e where "r = Inl e" | a where "r = Inr (Inr a)" | s' where "r = Inr (Inl s')" by (metis sum.exhaust)
    then show ?case
    proof cases
      case 3
      with step run have s': "I s'" "f s' < f s" by fastforce+
      obtain x w' where rest: "p_loop (\<lambda>s. p_act (turn s)) s' v = Some (x, w')" "calls_of p w' \<le> f s' + calls_of p v"
        "\<forall>a. x = Inr a \<longrightarrow> Q a"
        using less.hyps [OF s'(2,1), of v] by blast
      then have "p_loop (\<lambda>s. p_act (turn s)) s w = Some (x, w')"
        by (subst p_loop.simps) (simp add: p_act_def run 3)
      with rest(2,3) calls s'(2) show ?thesis by force
    next
      case 2
      with step run have "Q a" by fastforce
      with calls show ?thesis by (subst p_loop.simps) (simp add: p_act_def run 2)
    qed (use calls in \<open>subst p_loop.simps, simp add: p_act_def run\<close>)
  qed
qed

section \<open>A concrete worker\<close>

text \<open>For the witnesses: every command succeeds without output and every agent answers with an empty text.\<close>

definition demo_worker_cfg :: worker_cfg where
  "demo_worker_cfg =
     \<lparr>wc_base_branch = ''main'', wc_worktree_root = ''/wt'', wc_pr_remote = ''origin'', wc_models = (\<lambda>_. None),
      wc_timeouts = (\<lambda>_. 60), wc_hard_max_attempts = 8, wc_transient_max_retries = 2,
      wc_transient_delays = [(''unknown'', 5)], wc_progress_after = 3, wc_progress_every = 2,
      wc_flatline_block_count = 2, wc_same_signature_count = 3, wc_transport_count = 3, wc_cannot_reproduce_count = 3,
      wc_subtask_check_command = ''just check'', wc_subtask_check_timeout_s = 60, wc_local_ci_command = ''just ci'',
      wc_local_ci_timeout_s = 60, wc_pre_commit_runner = [], wc_pre_commit_timeout_s = 60, wc_witness_timeout_s = 60,
      wc_planner_transient_retries = 1, wc_fixup_transient_retries = 1, wc_fixup_output_retries = 1,
      wc_conflict_max_iterations = 2, wc_audit_max_cycles = 2, wc_audit_output_retries = 1,
      wc_rubric_categories = [''correctness''], wc_rubric_min_score = 4, wc_standards_budget = (1, 1, 1),
      wc_architecture_budget = (1, 1, 1), wc_valve_after_cycles = 2, wc_valve_stages = [''rubric''],
      wc_valve_max_critical = 0, wc_audit_fresh_container = False, wc_audit_bootstrap_command = [],
      wc_triage_budget = 2, wc_conflict_auto_resolve = True, wc_rebase_max_attempts = 2, wc_intent_max_reviews = 2,
      wc_intent_max_replans = 1\<rparr>"

definition demo_answer :: agent_result where
  "demo_answer =
     \<lparr>ag_rc = 0, ag_raw_text = [], ag_structured = None, ag_parse_errors = [], ag_transient = False, ag_category = [],
      ag_stderr_excerpt = [], ag_duration_s = 1, ag_tokens_input = None, ag_tokens_output = None, ag_cost_usd = None\<rparr>"

definition demo_pydantic :: pydantic where
  "demo_pydantic =
     \<lparr>pd_dump = (\<lambda>_. []), pd_parse_plan = (\<lambda>_. Inl []), pd_plan_errors = (\<lambda>_. []), pd_fixup_errors = (\<lambda>_. [])\<rparr>"

definition demo_worker :: task_worker where
  "demo_worker =
     \<lparr>tw_cfg = demo_worker_cfg, tw_id = ''T1'', tw_title = ''One'', tw_scope = [], tw_hexdigest = (\<lambda>s. s), tw_token = (\<lambda>_. ''abcd''),
      tw_resolve = (\<lambda>s. s), tw_evidence = [], tw_node_evidence = Map.empty,
      tw_exec = (\<lambda>_ _. Inr (0, [], [])), tw_agent = (\<lambda>_ _. Inr demo_answer),
      tw_host = (\<lambda>_ _. Inr (0, [], [])), tw_ensure = (\<lambda>_. Inr True), tw_provision = (\<lambda>_. Inr ''c1''),
      tw_teardown = (\<lambda>_. Inr ()), tw_exists = (\<lambda>_ _. True), tw_clock = int,
      tw_stop = (\<lambda>_. False), tw_json = (\<lambda>_. None), tw_pydantic = demo_pydantic,
      tw_render = (\<lambda>_. None),
      tw_built_contract = demo_contract, tw_loaded = ([], \<lparr>ac_root = [], ac_docs = []\<rparr>), tw_meanwhile = (\<lambda>_ d. d)\<rparr>"

definition demo_world :: "event list \<Rightarrow> world" where
  "demo_world evs =
     \<lparr>wd_db = snd (py_then (upsert_pending ''T1'') (py_for evs (\<lambda>ev. apply_event ''T1'' ev None [])) (empty_db 7)),
      wd_calls = [], wd_handle = Some ''c1'', wd_plan = None, wd_plan_text = [], wd_doer_summary = [], wd_diff = [],
      wd_witness = [], wd_contract = None, wd_files = []\<rparr>"

lemma demo_others_keep [simp]: "others_keep P demo_worker"
  by (simp add: others_keep_def demo_worker_def)

lemma demo_worker_simps [simp]:
  "tw_id demo_worker = ''T1''" "tw_cfg demo_worker = demo_worker_cfg" "wd_calls (demo_world evs) = []"
  by (simp_all add: demo_worker_def demo_world_def)

lemma demo_world_ok [simp]: "store_ok (wd_db (demo_world evs))"
  unfolding demo_world_def
  by (simp, rule keepsD [where P = store_ok, OF _ store_ok_empty]) (intro keeps_intros)

end
