(* ===== verification/Commits.thy ===== *)
theory Commits
  imports World
begin

text \<open>
  Committing and pushing from the task's container: \<^verbatim>\<open>worktree.py\<close> (\<^verbatim>\<open>commit_subtask\<close>, \<^verbatim>\<open>commit_response\<close>),
  \<^verbatim>\<open>git_push_recovery.py\<close> and the git wrappers of \<^verbatim>\<open>github.py\<close>. The commands are those of the source; what git
  answers is arbitrary. The properties say which commands a commit runs in which case.
\<close>

section \<open>Data\<close>

record commit_result =
  cr_success :: bool
  cr_commit_sha :: "string option"
  cr_transient :: bool
  cr_output :: string
  cr_accepted_files :: "string list"

definition commit_failure :: "string \<Rightarrow> string option \<Rightarrow> bool \<Rightarrow> commit_result" where
  "commit_failure out sha transient =
     \<lparr>cr_success = False, cr_commit_sha = sha, cr_transient = transient, cr_output = out, cr_accepted_files = []\<rparr>"

definition commit_success :: "string option \<Rightarrow> string list \<Rightarrow> commit_result" where
  "commit_success sha files =
     \<lparr>cr_success = True, cr_commit_sha = sha, cr_transient = False, cr_output = ''ok'', cr_accepted_files = files\<rparr>"

definition transient_git_markers :: "string list" where
  "transient_git_markers =
     [''Could not resolve host'', ''Connection refused'', ''Connection timed out'', ''Operation timed out'',
      ''Could not read from remote repository'', ''TLS connection'', ''Failed to connect to'',
      ''remote end hung up unexpectedly'', ''RPC failed'', ''early EOF'', ''fatal: unable to access'']"

definition is_transient_git_failure :: "int \<Rightarrow> string \<Rightarrow> bool" where
  "is_transient_git_failure rc out \<longleftrightarrow>
     rc \<noteq> 0 \<and> out \<noteq> [] \<and> list_ex (\<lambda>m. contains m out) transient_git_markers"

definition transient_stderr_markers :: "string list" where
  "transient_stderr_markers =
     [''Error response from daemon'', ''Cannot connect to the Docker daemon'', ''container not running'',
      ''context deadline exceeded'']"

definition is_transient_container_failure :: "int \<Rightarrow> string \<Rightarrow> bool" where
  "is_transient_container_failure rc err \<longleftrightarrow>
     (if rc = 0 then False
      else if rc = 137 then True
      else err \<noteq> [] \<and> list_ex (\<lambda>m. contains m err) transient_stderr_markers)"

section \<open>Push with recovery\<close>

definition is_non_fast_forward :: "string \<Rightarrow> bool" where
  "is_non_fast_forward combined \<longleftrightarrow>
     combined \<noteq> [] \<and> list_ex (\<lambda>m. contains m combined) [''non-fast-forward'', ''rejected]'', ''fetch first'']"

definition push_cmd :: "string \<Rightarrow> string \<Rightarrow> string" where
  "push_cmd remote br = ''cd /workspace && git push '' @ shell_quote remote @ '' '' @ shell_quote br"

definition rebase_cmd :: "string \<Rightarrow> string \<Rightarrow> string" where
  "rebase_cmd remote br =
     ''cd /workspace && git fetch '' @ shell_quote remote @ '' '' @ shell_quote br @
     '' && git rebase '' @ shell_quote remote @ ''/'' @ shell_quote br"

definition rebase_on_remote :: "task_worker \<Rightarrow> string \<Rightarrow> string \<Rightarrow> int \<Rightarrow> string option wact" where
  "rebase_on_remote tw remote br timeout =
     py_bind (exec_in tw (bash (rebase_cmd remote br)) (Some timeout)) (\<lambda>(rc, out, err).
       if rc = 0 then py_return None
       else py_then (exec_in tw (bash ''cd /workspace && git rebase --abort'') (Some 30))
              (py_return (Some (out @ nl @ err))))"

definition push_with_recovery ::
  "task_worker \<Rightarrow> string \<Rightarrow> string \<Rightarrow> int \<Rightarrow> string option \<Rightarrow> string list \<Rightarrow> commit_result wact" where
  "push_with_recovery tw br remote timeout sha files =
     py_bind (exec_in tw (bash (push_cmd remote br)) (Some timeout)) (\<lambda>(rc, out, err).
       let combined = out @ nl @ err
       in if rc = 0 then py_return (commit_success sha files)
          else if \<not> is_non_fast_forward combined
          then py_return (commit_failure (''git push failed (rc='' @ str_int rc @ ''):'' @ nl @ combined) sha
                 (is_transient_git_failure rc combined))
          else py_bind (rebase_on_remote tw remote br timeout) (\<lambda>e. case e of
            Some txt \<Rightarrow> py_return (commit_failure
              (''git push rejected non-fast-forward; auto-rebase failed:'' @ nl @ txt) sha False)
          | None \<Rightarrow>
              py_bind (exec_in tw (bash (push_cmd remote br)) (Some timeout)) (\<lambda>(rc2, out2, err2).
                let combined2 = out2 @ nl @ err2
                in if rc2 = 0 then py_return (commit_success sha files)
                   else py_return (commit_failure
                     (''git push failed after auto-rebase (rc='' @ str_int rc2 @ ''):'' @ nl @ combined2) sha
                     (is_transient_git_failure rc2 combined2)))))"

section \<open>Committing one subtask\<close>

definition classify_empty_staging ::
  "task_worker \<Rightarrow> string list \<Rightarrow> string list \<Rightarrow> int \<Rightarrow> commit_result option wact" where
  "classify_empty_staging tw declared touched timeout =
     (if touched \<noteq> [] then py_return None
      else if declared \<noteq> []
      then py_return (Some (commit_failure
        (''commit_subtask: subtask declared files_to_touch=['' @ py_list_body declared @
         ''] but doer produced no edits'') None False))
      else py_bind (exec_in tw (bash ''cd /workspace && git rev-parse HEAD'') (Some timeout)) (\<lambda>(rc, head, _).
        if rc = 0 \<and> head \<noteq> [] \<and> splitlines (strip head) = []
        then py_raise (IndexError ''list index out of range'')
        else py_return (Some
          \<lparr>cr_success = True,
           cr_commit_sha = (if rc = 0 \<and> head \<noteq> [] then Some (hd (splitlines (strip head))) else None),
           cr_transient = False,
           cr_output = ''commit_subtask: gate-only success (declared=[] AND no edits required)'',
           cr_accepted_files = []\<rparr>)))"

text \<open>\<^verbatim>\<open>int((ahead_out or "0").strip().splitlines()[-1])\<close>, zero when that raises.\<close>

definition last_line_int :: "string \<Rightarrow> int" where
  "last_line_int s =
     (case splitlines (strip s) of
        [] \<Rightarrow> 0
      | l # ls \<Rightarrow> (case parse_int (last (l # ls)) of None \<Rightarrow> 0 | Some n \<Rightarrow> n))"

definition commit_or_idempotent :: "task_worker \<Rightarrow> string \<Rightarrow> int \<Rightarrow> commit_result option wact" where
  "commit_or_idempotent tw message timeout =
     py_bind (exec_in tw (bash (''cd /workspace && git commit -m '' @ shell_quote message)) (Some timeout))
       (\<lambda>(rc, out, err).
          let nothing_to_commit = (rc \<noteq> 0 \<and> contains ''nothing to commit'' (out @ err));
              failed = commit_failure (''git commit failed (rc='' @ str_int rc @ ''):'' @ nl @ out @ nl @ err) None False
          in if rc \<noteq> 0 \<and> \<not> nothing_to_commit then py_return (Some failed)
             else if \<not> nothing_to_commit then py_return None
             else py_bind
               (exec_in tw (bash ''cd /workspace && git rev-list --count main..HEAD 2>/dev/null || echo 0'') (Some 30))
               (\<lambda>(_, ahead_out, _).
                  if last_line_int (if ahead_out = [] then ''0'' else ahead_out) = 0 then py_return (Some failed)
                  else py_return None))"

definition commit_subtask :: "task_worker \<Rightarrow> subtask \<Rightarrow> string \<Rightarrow> string \<Rightarrow> string \<Rightarrow> commit_result wact" where
  "commit_subtask tw sub message br remote =
     py_bind (exec_in tw (bash ''cd /workspace && git add -A'') (Some 300)) (\<lambda>(rc, out, err).
       if rc \<noteq> 0
       then py_return (commit_failure (''git add -A failed (rc='' @ str_int rc @ ''):'' @ nl @ out @ nl @ err) None False)
       else py_bind (exec_in tw (bash ''cd /workspace && git diff --cached --name-only'') (Some 30)) (\<lambda>(_, diff_out, _).
         let touched = filter (\<lambda>l. strip l \<noteq> []) (splitlines diff_out)
         in py_bind (classify_empty_staging tw (st_files_to_touch sub) touched 300) (\<lambda>early. case early of
              Some r \<Rightarrow> py_return r
            | None \<Rightarrow>
                py_bind (commit_or_idempotent tw message 300) (\<lambda>c. case c of
                  Some r \<Rightarrow> py_return r
                | None \<Rightarrow>
                    py_bind (exec_in tw (bash ''cd /workspace && git rev-parse HEAD'') (Some 30)) (\<lambda>(rc3, sha_out, _).
                      push_with_recovery tw br remote 300 (if rc3 = 0 then Some (strip sha_out) else None) touched)))))"

definition commit_response :: "task_worker \<Rightarrow> string \<Rightarrow> string \<Rightarrow> string \<Rightarrow> commit_result wact" where
  "commit_response tw message br remote =
     py_bind (exec_in tw (bash ''cd /workspace && git add -A'') (Some 300)) (\<lambda>(rc, out, err).
       if rc \<noteq> 0
       then py_return (commit_failure (''git add -A failed (rc='' @ str_int rc @ ''):'' @ nl @ out @ nl @ err) None False)
       else py_bind (exec_in tw (bash (''cd /workspace && git commit -m '' @ shell_quote message)) (Some 300))
         (\<lambda>(rc1, out1, err1).
            if rc1 \<noteq> 0
            then py_return (commit_failure
              (''git commit failed (rc='' @ str_int rc1 @ ''):'' @ nl @ out1 @ nl @ err1) None False)
            else py_bind (exec_in tw (bash ''cd /workspace && git rev-parse HEAD'') (Some 30)) (\<lambda>(rc2, sha_out, _).
              let sha = (if rc2 = 0 then Some (strip sha_out) else None)
              in py_bind (exec_in tw (bash (push_cmd remote br)) (Some 300)) (\<lambda>(rc3, out3, err3).
                   let combined = out3 @ nl @ err3
                   in if rc3 \<noteq> 0
                      then py_return (commit_failure (''git push failed (rc='' @ str_int rc3 @ ''):'' @ nl @ combined)
                             sha (is_transient_git_failure rc3 combined))
                      else py_return (commit_success sha [])))))"

section \<open>The wrappers of github.py\<close>

definition sh_quote :: "string \<Rightarrow> string" where
  "sh_quote s =
     quote1 @ concat (map (\<lambda>c. if [c] = quote1 then quote1 @ [CHR 0x22] @ quote1 @ [CHR 0x22] @ quote1 else [c]) s) @
     quote1"

definition commit_all :: "task_worker \<Rightarrow> string \<Rightarrow> (int \<times> string) wact" where
  "commit_all tw message =
     py_bind (exec_in tw (bash (''git add -A && git commit -m '' @ sh_quote message)) None) (\<lambda>(rc, out, err).
       py_return (rc, out @ err))"

definition gh_push :: "task_worker \<Rightarrow> string \<Rightarrow> (int \<times> string) wact" where
  "gh_push tw br =
     py_bind (exec_in tw (bash (''git push -u '' @ wc_pr_remote (tw_cfg tw) @ '' '' @ br)) (Some 180))
       (\<lambda>(rc, out, err). py_return (rc, out @ err))"

definition ahead_count :: "task_worker \<Rightarrow> string \<Rightarrow> string \<Rightarrow> int wact" where
  "ahead_count tw br base =
     py_bind (exec_in tw
         (bash (''git rev-list --count origin/'' @ base @ ''..'' @ br @ '' 2>/dev/null || echo 0'')) (Some 30))
       (\<lambda>(rc, out, _). py_return (if rc \<noteq> 0 then 0 else last_line_int out))"

section \<open>Facts\<close>

lemma keeps_rebase_on_remote [calls_keep]: "others_keep P tw \<Longrightarrow> wkeeps P (rebase_on_remote tw r b t)"
  unfolding rebase_on_remote_def by (intro keeps_intros calls_keep)

lemma keeps_push_with_recovery [calls_keep]: "others_keep P tw \<Longrightarrow> wkeeps P (push_with_recovery tw b r t sha fs)"
  unfolding push_with_recovery_def Let_def by (intro keeps_intros calls_keep)

lemma keeps_empty_staging [calls_keep]: "others_keep P tw \<Longrightarrow> wkeeps P (classify_empty_staging tw ds ts t)"
  unfolding classify_empty_staging_def Let_def by (intro keeps_intros calls_keep)

lemma keeps_commit_or_idempotent [calls_keep]: "others_keep P tw \<Longrightarrow> wkeeps P (commit_or_idempotent tw msg t)"
  unfolding commit_or_idempotent_def Let_def by (intro keeps_intros calls_keep)

lemma keeps_commit_subtask [calls_keep]: "others_keep P tw \<Longrightarrow> wkeeps P (commit_subtask tw s msg b r)"
  unfolding commit_subtask_def Let_def by (intro keeps_intros calls_keep)

lemma keeps_commit_response [calls_keep]: "others_keep P tw \<Longrightarrow> wkeeps P (commit_response tw msg b r)"
  unfolding commit_response_def Let_def by (intro keeps_intros calls_keep)

lemma keeps_commit_all [calls_keep]: "others_keep P tw \<Longrightarrow> wkeeps P (commit_all tw msg)"
  unfolding commit_all_def by (intro keeps_intros calls_keep)

lemma keeps_gh_push [calls_keep]: "others_keep P tw \<Longrightarrow> wkeeps P (gh_push tw b)"
  unfolding gh_push_def by (intro keeps_intros calls_keep)

lemma keeps_ahead [calls_keep]: "others_keep P tw \<Longrightarrow> wkeeps P (ahead_count tw b base)"
  unfolding ahead_count_def by (intro keeps_intros calls_keep)

end
