(* ===== verification/Provision.thy ===== *)
theory Provision
  imports Commits MergeNode
begin

text \<open>
  Standing a worker up and taking it down: the provisioning methods of \<^verbatim>\<open>workers/task_worker.py\<close> with the
  worktree commands of \<^verbatim>\<open>worktree.py\<close>, the crash guard, and the teardown. The random token of a branch name is
  \<open>tw_token\<close>, \<^verbatim>\<open>Path.resolve\<close> and \<^verbatim>\<open>Path.exists\<close> are \<open>tw_resolve\<close> and \<open>tw_exists\<close>. Identifiers are ASCII.
\<close>

section \<open>Worktrees\<close>

text \<open>
  \<^verbatim>\<open>_run(cmd)\<close> with its default \<^verbatim>\<open>check=True\<close>, and the text of the exception (for a command that died of a signal
  the one of an unknown signal).
\<close>

definition called_process_text :: "string list \<Rightarrow> int \<Rightarrow> string" where
  "called_process_text argv rc =
     ''Command '' @ quote1 @ ''['' @ py_list_body argv @ '']'' @ quote1 @
     (if rc < 0 then '' died with unknown signal '' @ str_int (- rc) @ ''.''
      else '' returned non-zero exit status '' @ str_int rc @ ''.'')"

definition checked_run :: "task_worker \<Rightarrow> string list \<Rightarrow> run_result wact" where
  "checked_run tw argv =
     py_bind (host_run tw argv) (\<lambda>(rc, out, err).
       if rc \<noteq> 0 then py_raise (CalledProcessError (called_process_text argv rc)) else py_return (rc, out, err))"

definition path_exists :: "task_worker \<Rightarrow> string \<Rightarrow> bool wact" where
  "path_exists tw path = py_read (\<lambda>w. tw_exists tw (length (wd_calls w)) path)"

definition sanitize_branch_name :: "string \<Rightarrow> string" where
  "sanitize_branch_name s = map (\<lambda>c. if is_word_char c \<or> c \<in> set ''.-/'' then c else CHR ''-'') s"

definition branch_for :: "task_worker \<Rightarrow> string wact" where
  "branch_for tw =
     py_bind (py_read (\<lambda>w. tw_token tw (length (wd_calls w)))) (\<lambda>token.
       py_return (''quikode/'' @ map lower_char (sanitize_branch_name (tw_id tw)) @ ''-'' @ token))"

text \<open>\<^verbatim>\<open>fetch_base\<close> with its three attempts; the sleeps are in milliseconds.\<close>

definition fetch_contended :: "string \<Rightarrow> bool" where
  "fetch_contended err \<longleftrightarrow>
     list_ex (\<lambda>m. contains m (map lower_char err)) [''cannot lock ref'', ''unable to create'', ''another git process'']"

fun fetch_base :: "task_worker \<Rightarrow> string list \<Rightarrow> int list \<Rightarrow> unit wact" where
  "fetch_base tw argv [] = py_return ()"
| "fetch_base tw argv (attempt # rest) =
     py_bind (host_run tw argv) (\<lambda>(rc, out, err).
       if rc = 0 then py_return ()
       else if \<not> fetch_contended err \<or> rest = []
       then py_raise (CalledProcessError (called_process_text argv rc))
       else py_then (sleep tw (500 * (attempt + 1))) (fetch_base tw argv rest))"

definition registered_worktree :: "string \<Rightarrow> string \<Rightarrow> bool" where
  "registered_worktree path listing \<longleftrightarrow> list_ex (\<lambda>l. strip l = ''worktree '' @ path) (splitlines listing)"

definition list_worktrees :: "task_worker \<Rightarrow> string wact" where
  "list_worktrees tw =
     py_bind (host_run tw [''git'', ''worktree'', ''list'', ''--porcelain'']) (\<lambda>(_, out, _). py_return out)"

definition add_worktree :: "task_worker \<Rightarrow> string \<Rightarrow> string \<Rightarrow> unit wact" where
  "add_worktree tw path br =
     py_bind (list_worktrees tw) (\<lambda>listing.
     py_bind (path_exists tw path) (\<lambda>there.
       if registered_worktree path listing \<and> there then py_return ()
       else py_bind (host_run tw [''git'', ''branch'', ''--list'', br]) (\<lambda>(_, out, _).
         py_then
           (checked_run tw
              (if strip out \<noteq> [] then [''git'', ''worktree'', ''add'', path, br]
               else [''git'', ''worktree'', ''add'', ''-b'', br, path,
                     wc_pr_remote (tw_cfg tw) @ ''/'' @ wc_base_branch (tw_cfg tw)]))
           (py_return ()))))"

definition add_worktree_off_branch :: "task_worker \<Rightarrow> string \<Rightarrow> string \<Rightarrow> string \<Rightarrow> unit wact" where
  "add_worktree_off_branch tw path br parent =
     py_then
       (if wc_pr_remote (tw_cfg tw) = [] then py_return ()
        else py_then (host_run tw [''git'', ''fetch'', wc_pr_remote (tw_cfg tw), parent @ '':'' @ parent])
               (py_return ()))
       (py_then (checked_run tw [''git'', ''worktree'', ''add'', ''-b'', br, path, parent]) (py_return ()))"

definition remove_worktree :: "task_worker \<Rightarrow> string \<Rightarrow> unit wact" where
  "remove_worktree tw path =
     py_then (host_run tw [''git'', ''worktree'', ''remove'', path, ''--force'']) (py_return ())"

section \<open>The crash guard\<close>

definition safe_crash_current :: "task_worker \<Rightarrow> string \<Rightarrow> unit wact" where
  "safe_crash_current tw err =
     py_bind
       (py_catch (py_bind (on_store (current_state (tw_id tw))) (\<lambda>s. py_return (Some s)))
          (\<lambda>_. py_return None)) (\<lambda>cur.
       case cur of
         Some s \<Rightarrow>
           if s \<in> set terminal_states then py_return ()
           else py_catch
             (py_then (on_store (crash_current (tw_id tw) (Some err) [F_last_error (Some (take 1000 err))])) (py_return ()))
             (\<lambda>_. py_return ())
       | None \<Rightarrow> py_catch
             (py_then (on_store (crash_current (tw_id tw) (Some err) [F_last_error (Some (take 1000 err))])) (py_return ()))
             (\<lambda>_. py_return ()))"

section \<open>Several parents\<close>

text \<open>The note, recorded by the crash guard, then raised.\<close>

definition crash_and_raise :: "task_worker \<Rightarrow> string \<Rightarrow> 'a wact" where
  "crash_and_raise tw note = py_then (safe_crash_current tw note) (py_raise (RuntimeError note))"

definition reduce_multi_parent_to_merge_node :: "task_worker \<Rightarrow> ident list \<Rightarrow> unit wact" where
  "reduce_multi_parent_to_merge_node tw parents =
     (case compute_merge_node_id (tw_hexdigest tw) (sort parents) of
        Inl e \<Rightarrow> py_raise e
      | Inr mn \<Rightarrow>
          py_bind (store_read (find_task mn)) (\<lambda>r. case r of
            None \<Rightarrow>
              crash_and_raise tw (''task '' @ tw_id tw @ '' has '' @ str_nat (length parents) @
                '' parents but no merge-node '' @ mn @ '' exists; scheduler should have created it. '' @
                ''Refusing to provision against an undefined effective base.'')
          | Some row \<Rightarrow>
              if t_state row \<noteq> MERGE_NODE_READY
              then crash_and_raise tw (''task '' @ tw_id tw @ '' merge-node '' @ mn @ '' is '' @
                py_repr (state_value (t_state row)) @ '', not '' @ py_repr (state_value MERGE_NODE_READY) @
                ''; scheduler should have deferred provisioning until ready.'')
              else if opt_text (t_branch row) = []
              then crash_and_raise tw (''merge-node '' @ mn @ '' is READY but has no branch; data corruption?'')
              else on_store (set_parent_chain (tw_id tw) [mn] (Some [opt_text (t_branch row)])
                     (Some [opt_text (t_branch row)]))))"

section \<open>Provisioning\<close>

definition after_last :: "char \<Rightarrow> string \<Rightarrow> string" where
  "after_last c s = rev (takeWhile (\<lambda>x. x \<noteq> c) (rev s))"

definition slugify :: "string \<Rightarrow> string" where
  "slugify s =
     map (\<lambda>c. if is_word_char c \<or> c = CHR ''-'' then c else CHR ''-'') (map lower_char s)"

definition worktree_dir :: "task_worker \<Rightarrow> string \<Rightarrow> string" where
  "worktree_dir tw br =
     (let tail = after_last (CHR ''/'') br;
          suffix = (if CHR ''-'' \<in> set tail then after_last (CHR ''-'') tail else [])
      in tw_resolve tw (wc_worktree_root (tw_cfg tw) @ ''/'' @ slugify (tw_id tw) @
           (if suffix \<noteq> [] then ''-'' @ suffix else [])))"

text \<open>The resume case: path and branch are recorded, the path exists and git knows the worktree.\<close>

definition can_resume_worktree :: "task_worker \<Rightarrow> bool wact" where
  "can_resume_worktree tw =
     py_bind (store_read (find_task (tw_id tw))) (\<lambda>r.
       let path = opt_text (Option.bind r t_worktree_path); br = opt_text (Option.bind r t_branch)
       in if path = [] \<or> br = [] then py_return False
          else py_bind (path_exists tw path) (\<lambda>there.
            if \<not> there then py_return False
            else py_bind (list_worktrees tw) (\<lambda>listing. py_return (registered_worktree path listing))))"

definition provision_worktree :: "task_worker \<Rightarrow> unit wact" where
  "provision_worktree tw =
     py_bind (can_resume_worktree tw) (\<lambda>resume.
       if resume then py_return ()
       else py_bind (branch_for tw) (\<lambda>br.
         let path = worktree_dir tw br
         in py_bind (store_read (get_parent_task_ids (tw_id tw))) (\<lambda>parents.
            py_then
              (if 1 < length parents then reduce_multi_parent_to_merge_node tw parents else py_return ())
            (py_bind (store_read (get_parent_branches (tw_id tw))) (\<lambda>branches.
            py_then
              (fetch_base tw [''git'', ''fetch'', wc_pr_remote (tw_cfg tw), wc_base_branch (tw_cfg tw)] [0, 1, 2])
            (py_bind
              (host_run tw [''git'', ''rev-parse'', wc_pr_remote (tw_cfg tw) @ ''/'' @ wc_base_branch (tw_cfg tw)])
              (\<lambda>(rc, out, _).
                 let sha = (if rc = 0 then Some (strip out) else None)
                 in py_then
                      (case branches of
                         p # _ \<Rightarrow> add_worktree_off_branch tw path br p
                       | [] \<Rightarrow> add_worktree tw path br)
                      (on_store (set_field (tw_id tw)
                         [F_branch (Some br), F_worktree_path (Some path), F_base_ref_sha sha,
                          F_last_synced_main_sha sha])))))))))"

definition existing_worktree_path :: "task_worker \<Rightarrow> string wact" where
  "existing_worktree_path tw =
     (let missing = py_raise (RuntimeError (''task '' @ tw_id tw @
            '' has no worktree_path; cannot provision container without worktree''))
      in py_bind (the_row tw) (\<lambda>row.
           if opt_text (t_worktree_path row) \<noteq> [] then py_return (opt_text (t_worktree_path row))
           else if opt_text (t_branch row) = [] then missing
           else let candidate = worktree_dir tw (opt_text (t_branch row))
                in py_bind (path_exists tw candidate) (\<lambda>there.
                     if there
                     then py_then (on_store (set_field (tw_id tw) [F_worktree_path (Some candidate)]))
                            (py_return candidate)
                     else missing)))"

text \<open>\<^verbatim>\<open>execution_backend.provision\<close> answers with the container's identifier.\<close>

definition provision_container :: "task_worker \<Rightarrow> string \<Rightarrow> unit wact" where
  "provision_container tw path =
     py_bind (outside tw (Call_provision path) (tw_provision tw)) (\<lambda>unit_id.
       py_then (py_modify (\<lambda>w. w\<lparr>wd_handle := Some unit_id\<rparr>))
         (on_store (set_field (tw_id tw) [F_container_id (Some unit_id)])))"

definition provision :: "task_worker \<Rightarrow> bool \<Rightarrow> unit wact" where
  "provision tw with_worktree =
     py_bind (on_store (current_state (tw_id tw))) (\<lambda>s.
     py_then
       (if s = PENDING
        then py_then (on_store (start_task (tw_id tw) (Some ''creating worktree + container'') [])) (py_return ())
        else py_return ())
     (py_then (if with_worktree then provision_worktree tw else py_return ())
     (py_bind (existing_worktree_path tw) (\<lambda>path. provision_container tw path))))"

section \<open>Teardown\<close>

definition teardown_container :: "task_worker \<Rightarrow> unit wact" where
  "teardown_container tw = py_then the_handle (outside tw Teardown (tw_teardown tw))"

definition teardown :: "task_worker \<Rightarrow> unit wact" where
  "teardown tw =
     py_bind (py_read wd_handle) (\<lambda>h.
     py_then (if h \<noteq> None then teardown_container tw else py_return ())
     (py_bind (store_read (find_task (tw_id tw))) (\<lambda>r.
       if opt_text (Option.bind r t_worktree_path) = [] then py_return ()
       else py_bind (the_row tw) (\<lambda>row.
         if t_state row \<in> {MERGED, ABORTED} then remove_worktree tw (str_col (t_worktree_path row))
         else py_return ()))))"

text \<open>The \<^verbatim>\<open>finally\<close> clause of the entries that bring their own container.\<close>

definition release_container :: "task_worker \<Rightarrow> unit wact" where
  "release_container tw =
     py_bind (py_read wd_handle) (\<lambda>h.
       if h = None then py_return ()
       else py_then (teardown_container tw) (py_modify (\<lambda>w. w\<lparr>wd_handle := None\<rparr>)))"

text \<open>\<^verbatim>\<open>try: m / finally: f\<close>: an exception of \<open>f\<close> replaces the result.\<close>

definition w_finally :: "'a wact \<Rightarrow> unit wact \<Rightarrow> 'a wact" where
  "w_finally m f =
     (\<lambda>w. case m w of (r, w1) \<Rightarrow> (case f w1 of (Inl e, w2) \<Rightarrow> (Inl e, w2) | (Inr _, w2) \<Rightarrow> (r, w2)))"

section \<open>Facts\<close>

lemma keeps_finally [keeps_intros]:
  assumes "keeps P m" and "keeps P f"
  shows "keeps P (w_finally m f)"
proof (rule keepsI)
  fix s assume "P s"
  obtain r s1 where m: "m s = (r, s1)" by fastforce
  obtain q s2 where f: "f s1 = (q, s2)" by fastforce
  have "P s1" by (rule keeps_result [OF assms(1) \<open>P s\<close> m])
  then have "P s2" by (rule keeps_result [OF assms(2) _ f])
  with m f show "P (snd (w_finally m f s))" by (cases q) (simp_all add: w_finally_def)
qed

lemma keeps_worktree_calls [calls_keep]:
  assumes "others_keep P tw"
  shows "wkeeps P (checked_run tw argv)" and "wkeeps P (list_worktrees tw)" and "wkeeps P (path_exists tw p)"
    and "wkeeps P (remove_worktree tw p)" and "wkeeps P (teardown_container tw)"
  unfolding checked_run_def list_worktrees_def path_exists_def remove_worktree_def teardown_container_def
  by (intro keeps_intros calls_keep assms)+

lemma keeps_fetch_base [calls_keep]: "others_keep P tw \<Longrightarrow> wkeeps P (fetch_base tw argv as)"
  by (induction as) (auto intro!: keeps_intros calls_keep)

lemma keeps_add_worktree [calls_keep]:
  assumes "others_keep P tw"
  shows "wkeeps P (add_worktree tw p b)" and "wkeeps P (add_worktree_off_branch tw p b q)"
    and "wkeeps P (can_resume_worktree tw)"
  unfolding add_worktree_def add_worktree_off_branch_def can_resume_worktree_def Let_def
  by (intro keeps_intros calls_keep assms)+

lemma keeps_release [calls_keep]: "others_keep P tw \<Longrightarrow> wkeeps P (release_container tw)"
  unfolding release_container_def by (intro keeps_intros calls_keep keeps_field_update) simp_all

lemma keeps_teardown [calls_keep]: "others_keep P tw \<Longrightarrow> wkeeps P (teardown tw)"
  unfolding teardown_def by (intro keeps_intros calls_keep)

lemma keeps_branch_for [keeps_intros]: "wkeeps P (branch_for tw)"
  unfolding branch_for_def by (intro keeps_intros)

lemma keeps_safe_crash [keeps_intros]: "wkeeps store_ok (safe_crash_current tw e)"
  unfolding safe_crash_current_def by (intro keeps_intros)

lemma keeps_reduce [keeps_intros]: "wkeeps store_ok (reduce_multi_parent_to_merge_node tw ps)"
  unfolding reduce_multi_parent_to_merge_node_def crash_and_raise_def by (intro keeps_intros)

lemma keeps_provision_worktree [calls_keep]: "others_keep store_ok tw \<Longrightarrow> wkeeps store_ok (provision_worktree tw)"
  unfolding provision_worktree_def Let_def by (intro keeps_intros calls_keep)

lemma keeps_existing_path [calls_keep]: "others_keep store_ok tw \<Longrightarrow> wkeeps store_ok (existing_worktree_path tw)"
  unfolding existing_worktree_path_def Let_def by (intro keeps_intros calls_keep)

lemma keeps_provision_container [calls_keep]:
  "others_keep store_ok tw \<Longrightarrow> wkeeps store_ok (provision_container tw path)"
  unfolding provision_container_def by (intro keeps_intros calls_keep keeps_field_update) simp_all

lemma keeps_provision [calls_keep]: "others_keep store_ok tw \<Longrightarrow> wkeeps store_ok (provision tw b)"
  unfolding provision_def by (intro keeps_intros calls_keep)

section \<open>Properties\<close>

definition merge_base_ready :: "ident \<Rightarrow> db \<Rightarrow> bool" where
  "merge_base_ready mn d \<longleftrightarrow>
     (case find_task mn d of
        None \<Rightarrow> False
      | Some row \<Rightarrow> t_state row = MERGE_NODE_READY \<and> opt_text (t_branch row) \<noteq> [])"

lemma crash_guard_returns: "\<exists>w'. safe_crash_current tw e w = (Inr (), w')"
  by (auto simp: safe_crash_current_def act_simps split: prod.splits sum.splits option.splits)

lemma crash_and_raise_run: "crash_and_raise tw msg w = (r, w') \<Longrightarrow> r = Inl (RuntimeError msg)"
  using crash_guard_returns [of tw msg w] by (auto simp: crash_and_raise_def act_simps)

lemma set_parent_chain_parents:
  assumes "find_task tid d = Some child" and "p \<noteq> []" and "b \<noteq> []"
  shows "\<exists>d'. set_parent_chain tid [p] (Some [b]) (Some [b]) d = (Inr (), d') \<and>
    get_parent_task_ids tid d' = [p] \<and> get_parent_branches tid d' = [b]"
  using assms
  by (simp add: set_parent_chain_def tx_run act_simps get_parent_task_ids_def get_parent_branches_def
    find_task_update_row nonempty_strings_def get_default_def)

text \<open>
  A child of several parents is built on their merge-node or not at all. When that node is READY and has a branch,
  the child's parents become exactly that node and that branch; in every other case provisioning raises, whatever
  order the parents are listed in.
\<close>

theorem multi_parent_base:
  assumes "compute_merge_node_id (tw_hexdigest tw) parents = Inr mn"
    and "find_task (tw_id tw) (wd_db w) = Some child"
    and "reduce_multi_parent_to_merge_node tw parents w = (r, w')"
  shows "if merge_base_ready mn (wd_db w)
    then r = Inr () \<and> get_parent_task_ids (tw_id tw) (wd_db w') = [mn] \<and>
      (\<exists>row. find_task mn (wd_db w) = Some row \<and>
        get_parent_branches (tw_id tw) (wd_db w') = [opt_text (t_branch row)])
    else \<exists>msg. r = Inl (RuntimeError msg)"
proof -
  have mn: "compute_merge_node_id (tw_hexdigest tw) (sort parents) = Inr mn"
    using compute_id_perm [of "sort parents" parents] assms(1) by simp
  have "mn \<noteq> []" using assms(1) by (auto simp: compute_merge_node_id_def split: if_splits)
  note reduce = reduce_multi_parent_to_merge_node_def merge_base_ready_def act_simps store_read_def mn
  show ?thesis
  proof (cases "find_task mn (wd_db w)")
    case None
    with assms(3) show ?thesis by (auto simp: reduce dest!: crash_and_raise_run)
  next
    case (Some row)
    show ?thesis
    proof (cases "merge_base_ready mn (wd_db w)")
      case True
      with Some have ready: "t_state row = MERGE_NODE_READY" "opt_text (t_branch row) \<noteq> []"
        by (simp_all add: merge_base_ready_def)
      from set_parent_chain_parents [OF assms(2) \<open>mn \<noteq> []\<close> ready(2)] assms(3) Some ready True show ?thesis
        by (auto simp: reduce on_store_def)
    next
      case False
      with assms(3) Some show ?thesis by (auto simp: reduce split: if_splits dest!: crash_and_raise_run)
    qed
  qed
qed

definition demo_merge_world :: world where
  "demo_merge_world =
     (demo_world [])\<lparr>wd_db := snd (py_bind (py_then (upsert_pending ''T1'')
        (lookup_or_create_merge_node (\<lambda>s. s) [''B'', ''A''] [''qk/b'', ''qk/a''])) (\<lambda>mn.
        py_for (butlast shortest_pr_run @ [Ev_MERGE_NODE_BUILT]) (\<lambda>ev. apply_event mn ev None []))
        (empty_db 7))\<rparr>"

definition demo_reduced :: "(py_error + unit) \<times> world" where
  "demo_reduced = reduce_multi_parent_to_merge_node demo_worker [''A'', ''B''] demo_merge_world"

theorem multi_parent_base_witness:
  "fst demo_reduced = Inr () \<and> get_parent_task_ids ''T1'' (wd_db (snd demo_reduced)) = [''M-A,B'']"
proof -
  have id: "compute_merge_node_id (tw_hexdigest demo_worker) [''A'', ''B''] = Inr ''M-A,B''"
    by code_simp
  have "find_task (tw_id demo_worker) (wd_db demo_merge_world) \<noteq> None"
    by code_simp
  then obtain child where child: "find_task (tw_id demo_worker) (wd_db demo_merge_world) = Some child" by blast
  have "merge_base_ready ''M-A,B'' (wd_db demo_merge_world)"
    by code_simp
  with multi_parent_base [OF id child surjective_pairing [of demo_reduced, unfolded demo_reduced_def]] show ?thesis
    by (simp add: demo_reduced_def)
qed

end
