(* ===== verification/Regions.thy ===== *)
theory Regions
  imports World Runner
begin

text \<open>
  Where a task can be while a worker runs. A region is a set of states; the bookkeeping operations of the store
  never leave one, and a helper of \<^verbatim>\<open>fsm_runtime\<close> leaves none that is closed under the transitions it may fire. The
  closure is checked on the transition table.
\<close>

definition in_states :: "ident \<Rightarrow> state list \<Rightarrow> db \<Rightarrow> bool" where
  "in_states tid S d \<longleftrightarrow> (\<exists>s \<in> set S. select_state tid d = Some s)"

definition region_closed :: "(state \<Rightarrow> bool) \<Rightarrow> state list \<Rightarrow> bool" where
  "region_closed T S \<longleftrightarrow>
     list_all (\<lambda>s. list_all (\<lambda>ev. case target_of s ev of None \<Rightarrow> True | Some t \<Rightarrow> T t \<longrightarrow> t \<in> set S) all_events) S"

lemma region_closedD:
  assumes "region_closed T S" and "s \<in> set S" and "target_of s ev = Some t" and "T t"
  shows "t \<in> set S"
proof -
  have "list_all (\<lambda>ev. case target_of s ev of None \<Rightarrow> True | Some t \<Rightarrow> T t \<longrightarrow> t \<in> set S) all_events"
    using assms(1,2) by (simp add: region_closed_def list_all_iff)
  moreover have "ev \<in> set all_events" by (rule event_UNIV)
  ultimately have "case target_of s ev of None \<Rightarrow> True | Some t \<Rightarrow> T t \<longrightarrow> t \<in> set S" by (simp add: list_all_iff)
  with assms(3,4) show ?thesis by simp
qed

named_theorems stays \<open>actions that keep a task in its region\<close>

text \<open>An operation that moves no task.\<close>

definition unmoving :: "'a store_act \<Rightarrow> bool" where
  "unmoving m \<longleftrightarrow> (\<forall>x c. keeps (\<lambda>d. select_state x d = c) m)"

lemma unmovingI: "(\<And>x c. keeps (\<lambda>d. select_state x d = c) m) \<Longrightarrow> unmoving m"
  by (simp add: unmoving_def)

lemma keeps_unmoving: "unmoving m \<Longrightarrow> keeps (\<lambda>d. select_state x d = c) m"
  by (simp add: unmoving_def)

lemma unmovingD: "unmoving m \<Longrightarrow> select_state x (snd (m d)) = select_state x d"
  by (auto simp: unmoving_def keeps_def)

lemma stays_unmoving: "unmoving m \<Longrightarrow> keeps (in_states x S) m"
  by (simp add: keeps_def in_states_def unmovingD)

lemma unmoving_same: "same_states m \<Longrightarrow> unmoving m"
  by (auto simp: unmoving_def keeps_def same_states_def)

lemma keeps_moved_row:
  assumes "\<And>r. t_id (f r) = t_id r" and "\<And>r. t_state (f r) = t_state r"
  shows "keeps (\<lambda>d. select_state x d = c) (update_task tid f)"
  using assms by (simp add: keeps_def update_task_run select_state_update_row)

lemma keeps_other_table:
  assumes "\<And>d. db_tasks (f d) = db_tasks d"
  shows "keeps (\<lambda>d. select_state x d = c) (py_modify f)"
  using assms by (simp add: keeps_def py_modify_def select_state_def find_task_def)

lemma unmoving_tasks [stays]:
  "unmoving (set_field tid kw)" "unmoving (clear_parent_branch tid)" "unmoving (set_parent_chain tid ids brs prs)"
  "unmoving (clear_needs_parent_rebase tid)" "unmoving (increment tid c)" "unmoving (clear_intent_review_flag tid)"
  "unmoving (increment_review_round tid)" "unmoving (begin_pre_pr_audit_cycle tid n)"
  "unmoving (set_parent_merge_base tid b sha)"
  unfolding set_field_def clear_parent_branch_def set_parent_chain_def clear_needs_parent_rebase_def increment_def
    clear_intent_review_flag_def increment_review_round_def begin_pre_pr_audit_cycle_def write_summary_def Let_def
    set_parent_merge_base_def
  by (intro unmovingI keeps_intros keeps_moved_row; simp)+

lemma unmoving_audit_stage [stays]: "unmoving (update_pre_pr_audit_stage tid c nm b txt)"
  unfolding update_pre_pr_audit_stage_def begin_pre_pr_audit_cycle_def write_summary_def
  by (intro unmovingI keeps_intros keeps_moved_row; simp)+

lemma unmoving_log [stays]: "unmoving (insert_log tid a b n)"
  by (intro unmovingI) (simp add: keeps_def insert_log_def select_state_def find_task_def)

lemma unmoving_phases [stays]:
  "unmoving (enter_phase tid ph c tr n)" "unmoving (increment_cycle_in_phase tid tro n)"
  unfolding enter_phase_def increment_cycle_in_phase_def Let_def
  by (intro unmovingI keeps_intros keeps_moved_row keeps_unmoving [OF unmoving_log]; simp)+

lemma unmoving_subtask_row: "unmoving (update_subtask_act tid sid f)"
  unfolding update_subtask_act_def
  by (intro unmovingI keeps_other_table) (simp add: update_subtask_row_def)

lemma unmoving_subtasks [stays]:
  "unmoving (append_retry_reason tid sid n cat sig tr)" "unmoving (update_subtask tid sid fs)"
  "unmoving (increment_subtask_retries tid sid)" "unmoving (increment_subtask_pre_commit_failures tid sid)"
  "unmoving (increment_subtask_flatline_count tid sid)" "unmoving (reset_subtask_flatline_count tid sid)"
  "unmoving (increment_subtask_transient_retries tid sid)"
  unfolding append_retry_reason_def update_subtask_def increment_subtask_retries_def
    increment_subtask_pre_commit_failures_def increment_subtask_flatline_count_def reset_subtask_flatline_count_def
    increment_subtask_transient_retries_def read_subtask_counter_def Let_def
  by (intro unmovingI keeps_intros keeps_unmoving [OF unmoving_subtask_row]; simp)+

lemma unmoving_insert_subtasks: "unmoving (insert_subtasks rows)"
proof (rule unmovingI)
  fix x c
  have one: "keeps (\<lambda>d. select_state x d = c) (insert_subtask r)" for r
    unfolding insert_subtask_def by (simp add: keeps_def act_simps select_state_def find_task_def)
  show "keeps (\<lambda>d. select_state x d = c) (insert_subtasks rows)"
    by (induction rows) (auto intro!: keeps_intros one)
qed

lemma unmoving_plans [stays]:
  "unmoving (upsert_subtasks tid specs c k)" "unmoving (append_subtasks tid specs co k)"
  unfolding upsert_subtasks_def append_subtasks_def Let_def
  by (intro unmovingI keeps_intros keeps_other_table keeps_unmoving [OF unmoving_insert_subtasks]; simp)+

lemma unmoving_ledger [stays]:
  "unmoving (add_artifact tid k c p)"
  "unmoving (record_agent_call_finished i rc dur used tin tout tread tcreate cost)"
  "unmoving (record_intent_review tid a b2 c2 v e af raw)"
  unfolding add_artifact_def record_agent_call_finished_def update_calls_def record_intent_review_def
  by (intro unmovingI keeps_intros keeps_other_table; simp)+

lemma unmoving_call_started [stays]: "unmoving (record_agent_call_started tid ph cli model so)"
  unfolding record_agent_call_started_def
  by (intro unmovingI keeps_intros) (simp add: keeps_def insert_agent_call_def select_state_def find_task_def)

lemma unmoving_progress_check [stays]: "unmoving (record_progress_check tid sid n v r)"
  unfolding record_progress_check_def
  by (intro unmovingI keeps_intros) (simp add: keeps_def select_state_def find_task_def)

text \<open>A helper stays in a region its target set cannot leave; it moves no other task.\<close>

lemma stays_helper:
  assumes "fsm_helper h T" and "region_closed T S"
  shows "keeps (in_states tid S) (h tid n kw)"
proof (rule keepsI)
  fix d assume "in_states tid S d"
  then obtain s where s: "s \<in> set S" "select_state tid d = Some s" by (auto simp: in_states_def)
  have "(\<exists>s' \<in> set S. select_state tid (snd (transition tid t m kw d)) = Some s')"
    if "target_of s ev = Some t" "T t" for ev t m
    using region_closedD [OF assms(2) s(1) that] select_state_transition [OF s(2)] by simp
  with fsm_helper.outcome [OF assms(1) s(2), of n kw] s show "in_states tid S (snd (h tid n kw d))"
    unfolding in_states_def by fastforce
qed

lemma stays_helper_other:
  assumes "fsm_helper h T" and "x \<noteq> tid"
  shows "keeps (in_states x S) (h tid n kw)"
  by (simp add: keeps_def in_states_def fsm_helper.others [OF assms])

text \<open>The same on the worker's state.\<close>

lemma wkeeps_unmoving: "unmoving m \<Longrightarrow> wkeeps (in_states x S) (on_store m)"
  by (intro keeps_on_store stays_unmoving)

lemma wkeeps_fsm_call:
  assumes "fsm_helper h T" and "region_closed T S"
  shows "wkeeps (in_states (tw_id tw) S) (fsm_call tw h txt kw)"
  unfolding fsm_call_def by (intro keeps_intros stays_helper [OF assms])

end
