(* ===== verification/RebaseWork.thy ===== *)
theory RebaseWork
  imports Provision Regions
begin

text \<open>
  The rebases a worker runs in its container: \<^verbatim>\<open>workers/rebase_branch.py\<close> (divergence of the branch, the parent
  rebase at a checkpoint), \<^verbatim>\<open>workers/rebase_conflicts.py\<close> (the resolver loop) and \<^verbatim>\<open>workers/rebases.py\<close> (the two
  entries the orchestrator dispatches). What the resolver sees of the repository is gathered by the same commands.
\<close>

section \<open>Small helpers\<close>

text \<open>\<^verbatim>\<open>except (subprocess.TimeoutExpired, OSError)\<close>.\<close>

definition run_error :: "py_error \<Rightarrow> bool" where
  "run_error e = (case e of TimeoutExpired _ \<Rightarrow> True | OSError _ \<Rightarrow> True | _ \<Rightarrow> False)"

definition catch_run_error :: "'a wact \<Rightarrow> (py_error \<Rightarrow> 'a wact) \<Rightarrow> 'a wact" where
  "catch_run_error m h = py_catch m (\<lambda>e. if run_error e then h e else py_raise e)"

definition base_ref :: "task_worker \<Rightarrow> string" where
  "base_ref tw = wc_pr_remote (tw_cfg tw) @ ''/'' @ wc_base_branch (tw_cfg tw)"

definition remote_ref :: "task_worker \<Rightarrow> string \<Rightarrow> string" where
  "remote_ref tw br = wc_pr_remote (tw_cfg tw) @ ''/'' @ br"

definition latest_commit_sha_on_branch :: "task_worker \<Rightarrow> string wact" where
  "latest_commit_sha_on_branch tw =
     py_catch
       (py_bind (exec_in tw (bash ''cd /workspace && git rev-parse HEAD'') (Some 30)) (\<lambda>(rc, out, _).
          py_return (if rc \<noteq> 0 then [] else strip out)))
       (\<lambda>_. py_return [])"

definition git_ahead_count :: "task_worker \<Rightarrow> string \<Rightarrow> int wact" where
  "git_ahead_count tw br =
     py_bind (git_in_workspace tw [''rev-list'', ''--count'', base_ref tw @ ''..'' @ br]) (\<lambda>(rc, out).
       py_return (if rc \<noteq> 0 then 0 else last_line_int out))"

definition is_dir_cmd :: "string \<Rightarrow> string" where
  "is_dir_cmd path = ''cd /workspace && test -d '' @ shell_quote path"

definition rebase_kind_in_progress :: "task_worker \<Rightarrow> string \<Rightarrow> bool wact" where
  "rebase_kind_in_progress tw kind =
     py_bind (git_in_workspace tw [''rev-parse'', ''--git-path'', kind]) (\<lambda>(rc, out).
       let path = (case splitlines (strip out) of [] \<Rightarrow> [] | l # ls \<Rightarrow> strip (last (l # ls)))
       in if rc \<noteq> 0 \<or> path = [] then py_return False
          else py_bind (exec_in tw (bash (is_dir_cmd path)) (Some 15)) (\<lambda>(rc2, _). py_return (rc2 = 0)))"

definition rebase_in_progress :: "task_worker \<Rightarrow> bool wact" where
  "rebase_in_progress tw =
     py_bind (rebase_kind_in_progress tw ''rebase-merge'') (\<lambda>b.
       if b then py_return True else rebase_kind_in_progress tw ''rebase-apply'')"

definition ensure_on_branch :: "task_worker \<Rightarrow> unit wact" where
  "ensure_on_branch tw =
     py_bind (git_in_workspace tw [''symbolic-ref'', ''--short'', ''-q'', ''HEAD'']) (\<lambda>(rc, _).
       if rc = 0 then py_return ()
       else py_bind (store_read (\<lambda>d. Option.bind (find_task (tw_id tw) d) t_branch)) (\<lambda>b.
         if opt_text b = [] then py_return ()
         else py_then (git_in_workspace tw [''symbolic-ref'', ''HEAD'', ''refs/heads/'' @ opt_text b]) (py_return ())))"

text \<open>\<^verbatim>\<open>post-rebase branch is 0 commits ahead\<close>.\<close>

definition empty_branch_note :: "task_worker \<Rightarrow> bool \<Rightarrow> string \<Rightarrow> string" where
  "empty_branch_note tw long wt =
     ''post-rebase branch is 0 commits ahead of '' @ wc_base_branch (tw_cfg tw) @ '' '' @
     (if long then em_dash else ''-'') @
     '' the rebase likely dropped task changes. Inspect the worktree at '' @ wt @ '' before retrying.''"

section \<open>The conflict resolver\<close>

definition conflicted_files :: "task_worker \<Rightarrow> (string \<times> string) list wact" where
  "conflicted_files tw =
     py_bind (git_in_workspace tw [''diff'', ''--name-only'', ''--diff-filter=U'']) (\<lambda>(_, status_out).
       py_for (filter (\<lambda>p. p \<noteq> []) (map strip (splitlines status_out))) (\<lambda>path.
         py_bind (exec_in tw (bash (''cat /workspace/'' @ path)) (Some 30)) (\<lambda>(_, marked, _).
           py_return (path, take 3000 marked))))"

text \<open>The context of the prompt: the task's diff, and log and diff of what the branch is rebased onto.\<close>

definition merge_node_contexts :: "task_worker \<Rightarrow> unit wact" where
  "merge_node_contexts tw =
     py_bind (store_read (\<lambda>d. zip (get_parent_task_ids (tw_id tw) d) (get_parent_branches (tw_id tw) d))) (\<lambda>ps.
     py_then (py_for ps (\<lambda>(_, b).
         py_then (git_in_workspace tw [''log'', ''--oneline'', base_ref tw @ ''..'' @ remote_ref tw b])
           (git_in_workspace tw [''diff'', base_ref tw @ ''...'' @ remote_ref tw b, ''--no-color''])))
       (py_return ()))"

definition gather_context :: "task_worker \<Rightarrow> string \<Rightarrow> string \<Rightarrow> unit wact" where
  "gather_context tw kind parent =
     py_bind (the_row tw) (\<lambda>row.
     let base = (if opt_text (t_base_ref_sha row) = [] then ''HEAD~1'' else opt_text (t_base_ref_sha row));
         onto = (if kind = ''parent_tip'' \<and> parent \<noteq> [] then remote_ref tw parent else base_ref tw)
     in py_then (if kind = ''main'' \<and> t_kind row = Kind_MERGE then merge_node_contexts tw else py_return ())
       (py_then (git_in_workspace tw [''diff'', base @ ''...HEAD'', ''--no-color''])
         (py_then (git_in_workspace tw [''log'', ''--oneline'', base @ ''..'' @ onto])
           (py_then (git_in_workspace tw [''diff'', base @ ''..'' @ onto, ''--no-color'']) (py_return ())))))"

definition rebase_continue :: "task_worker \<Rightarrow> (int \<times> string) wact" where
  "rebase_continue tw = git_in_workspace tw [''-c'', ''core.editor=true'', ''rebase'', ''--continue'']"

definition rebase_abort :: "task_worker \<Rightarrow> unit wact" where
  "rebase_abort tw = py_then (git_in_workspace tw [''rebase'', ''--abort'']) (py_return ())"

definition resolve_one_conflict_step ::
  "task_worker \<Rightarrow> nat \<Rightarrow> string \<Rightarrow> string \<Rightarrow> worker_outcome option wact" where
  "resolve_one_conflict_step tw iteration kind parent =
     py_then (gather_context tw kind parent)
     (py_bind (conflicted_files tw) (\<lambda>conflicted.
       if conflicted = []
       then py_bind (rebase_continue tw) (\<lambda>(rc, out).
         if rc = 0 then py_return None
         else py_then (rebase_abort tw)
           (py_then (ensure_on_branch tw)
             (block_with tw (''rebase iter '' @ str_nat iteration @
                '' failed; no conflicts surfaced and --continue rc='' @ str_int rc @ '': '' @ take 200 out)
                None ''rebase abort'')))
       else py_bind (recorded_invoke tw ''conflict_resolver'' ''conflict_resolver'' None) (\<lambda>r.
         py_then (artifact tw (''conflict_resolver_output_iter'' @ str_nat iteration) (ag_raw_text r))
         (case ag_structured r of
            Some (S_resolver env) \<Rightarrow>
              if ag_rc r \<noteq> 0 \<or> ag_parse_errors r \<noteq> []
              then py_then (rebase_abort tw)
                (let errs = (if ag_parse_errors r \<noteq> [] then join ''; '' (ag_parse_errors r) else ''rc='' @ str_int (ag_rc r))
                 in block_with tw (''conflict resolver call failed at iter '' @ str_nat iteration @ '': '' @ errs @
                      ''; treating as unresolvable'') (Some (take 1000 errs)) ''conflict resolver call failed'')
              else if re_gave_up env
              then py_then (rebase_abort tw)
                (let reason = or_else (strip (re_give_up_reason env)) ''(no reason given)''
                 in block_with tw (''conflict resolver gave up at iter '' @ str_nat iteration @ '': '' @
                      take 500 reason @ ''; needs human resolution'') None ''conflict resolver gave up'')
              else py_then (git_in_workspace tw [''add'', ''-A''])
                (py_bind (rebase_continue tw) (\<lambda>(rc, out).
                   if rc = 0 then py_return None
                   else py_bind (rebase_in_progress tw) (\<lambda>busy.
                     if busy then py_return None
                     else py_then (rebase_abort tw)
                       (block_with tw (''rebase --continue at iter '' @ str_nat iteration @ '' failed: '' @ take 200 out)
                          None ''rebase --continue failed''))))
          | _ \<Rightarrow>
              py_then (rebase_abort tw)
                (let errs = (if ag_parse_errors r \<noteq> [] then join ''; '' (ag_parse_errors r) else ''rc='' @ str_int (ag_rc r))
                 in block_with tw (''conflict resolver call failed at iter '' @ str_nat iteration @ '': '' @ errs @
                      ''; treating as unresolvable'') (Some (take 1000 errs)) ''conflict resolver call failed'')))))"

text \<open>The \<^verbatim>\<open>for\<close> loop over the iterations: an outcome, the end of the rebase, or all iterations used.\<close>

datatype resolve_result = Resolver_outcome worker_outcome | Rebase_over | Iterations_used

fun resolve_loop :: "task_worker \<Rightarrow> string \<Rightarrow> string \<Rightarrow> nat list \<Rightarrow> resolve_result wact" where
  "resolve_loop tw kind parent [] = py_return Iterations_used"
| "resolve_loop tw kind parent (i # is) =
     py_bind (resolve_one_conflict_step tw i kind parent) (\<lambda>o1. case o1 of
       Some oc \<Rightarrow> py_return (Resolver_outcome oc)
     | None \<Rightarrow>
         py_bind (rebase_in_progress tw) (\<lambda>busy.
           if \<not> busy then py_return Rebase_over else resolve_loop tw kind parent is))"

definition last_lines :: "string \<Rightarrow> nat \<Rightarrow> string" where
  "last_lines s n = join nl (tail_of n (splitlines s))"

definition verify_resolution :: "task_worker \<Rightarrow> worker_outcome option wact" where
  "verify_resolution tw =
     (let verify_cmd = or_else (strip (wc_local_ci_command (tw_cfg tw))) ''true''
      in py_bind (exec_in tw (bash (''cd /workspace && '' @ verify_cmd @ '' 2>&1''))
             (Some (wc_local_ci_timeout_s (tw_cfg tw)))) (\<lambda>(rc, out, err).
           if rc \<noteq> 0
           then py_then (artifact tw ''post_rebase_ci_log'' (out @ nl @ err))
             (block_with tw (''post-rebase `'' @ verify_cmd @ ''` FAILed; conflict resolution broke build'')
                (Some (take 1000 (last_lines (out @ nl @ err) 30))) ''rebase verify failed'')
           else py_bind (the_row tw) (\<lambda>row.
             let br = str_col (t_branch row)
             in py_bind (git_ahead_count tw br) (\<lambda>ahead.
               if ahead = 0
               then py_bind (the_row tw) (\<lambda>row_now.
                 let note = empty_branch_note tw False (opt_text (t_worktree_path row_now))
                 in block_with tw note (Some (take 1000 note)) ''post-rebase empty branch'')
               else py_bind (the_row tw) (\<lambda>row_now.
                 py_bind (git_in_workspace tw
                     [''push'', ''--force-with-lease'', ''-u'', wc_pr_remote (tw_cfg tw), str_col (t_branch row_now)])
                   (\<lambda>(rc2, out2).
                      if rc2 \<noteq> 0
                      then block_with tw (''force-push after resolution failed: '' @ take 200 out2) None
                             ''rebase resolved but push failed''
                      else py_return None))))))"

definition spawn_conflict_resolver :: "task_worker \<Rightarrow> string \<Rightarrow> string \<Rightarrow> worker_outcome option wact" where
  "spawn_conflict_resolver tw kind parent =
     py_then (fsm_call tw enter_conflict_resolving None [])
     (let n = wc_conflict_max_iterations (tw_cfg tw) in
      py_bind (resolve_loop tw kind parent [1 ..< Suc n]) (\<lambda>res. case res of
        Resolver_outcome oc \<Rightarrow> py_return (Some oc)
      | Rebase_over \<Rightarrow> verify_resolution tw
      | Iterations_used \<Rightarrow>
          py_then (rebase_abort tw)
            (py_then (ensure_on_branch tw)
              (block_with tw (''conflict resolver exceeded '' @ str_nat n @ '' iterations; aborting'') None
                 ''conflict iteration cap''))))"

section \<open>Divergence from the remote branch\<close>

definition active_fixup_review :: "ident \<Rightarrow> db \<Rightarrow> bool" where
  "active_fixup_review tid d \<longleftrightarrow>
     list_ex (\<lambda>s. starts_with ''fixup-review'' (map lower_char (s_kind s)) \<and>
                  s_state s \<in> {Sub_DOING, Sub_CHECKING, Sub_TRIAGING}) (task_subtasks tid d)"

definition branch_for_divergence :: "task_worker \<Rightarrow> task_row \<Rightarrow> string option wact" where
  "branch_for_divergence tw row =
     py_bind (py_read wd_handle) (\<lambda>h.
       if opt_text (t_branch row) = [] \<or> h = None then py_return None
       else py_bind (store_read (active_fixup_review (tw_id tw))) (\<lambda>active.
         py_return (if active then None else t_branch row)))"

definition parse_counts :: "string \<Rightarrow> (int \<times> int) option" where
  "parse_counts out =
     (case splitlines (strip out) of
        [] \<Rightarrow> None
      | l # ls \<Rightarrow>
          (let parts = words (last (l # ls));
               nth_int = (\<lambda>i. if i < length parts then parse_int (parts ! i) else Some 0)
           in case nth_int 0 of
                None \<Rightarrow> None
              | Some a \<Rightarrow> (case nth_int 1 of None \<Rightarrow> None | Some b \<Rightarrow> Some (a, b))))"

definition branch_ahead_behind :: "task_worker \<Rightarrow> string \<Rightarrow> (int \<times> int) option wact" where
  "branch_ahead_behind tw br =
     py_bind (git_in_workspace tw [''fetch'', wc_pr_remote (tw_cfg tw), br]) (\<lambda>(rc, _).
       if rc \<noteq> 0 then py_return None
       else py_bind (git_in_workspace tw
              [''rev-list'', ''--count'', ''--left-right'', ''HEAD...'' @ remote_ref tw br]) (\<lambda>(rc2, out).
         py_return (if rc2 \<noteq> 0 then None else parse_counts out)))"

definition handle_upstream_fast_forward :: "task_worker \<Rightarrow> string \<Rightarrow> worker_outcome option wact" where
  "handle_upstream_fast_forward tw br =
     py_bind (git_in_workspace tw [''reset'', ''--hard'', remote_ref tw br]) (\<lambda>(rc, _).
       if rc = 0 then py_return None
       else block_with tw (''upstream FF detected on '' @ br @ '' but `git reset --hard` failed'') None
              ''upstream FF reset failed'')"

definition block_if_remote_history_rewritten ::
  "task_worker \<Rightarrow> task_row \<Rightarrow> string \<Rightarrow> worker_outcome option wact" where
  "block_if_remote_history_rewritten tw row br =
     (if opt_text (t_base_ref_sha row) = [] then py_return None
      else py_bind (git_in_workspace tw
             [''merge-base'', ''--is-ancestor'', opt_text (t_base_ref_sha row), remote_ref tw br]) (\<lambda>(rc, _).
        if rc = 0 then py_return None
        else let msg = ''branch '' @ br @ '' was force-pushed (history rewritten); the work in this container does '' @
               ''not match what'' @ quote1 @ ''s on the remote. Use `quikode unblock '' @ tw_id tw @
               ''` to inspect, then `quikode retry '' @ tw_id tw @ ''` to start fresh.''
             in block_with tw (take 300 msg) (Some (take 1000 msg)) ''force-push detected on branch''))"

definition is_blocked :: "worker_outcome option \<Rightarrow> bool" where
  "is_blocked oc = (case oc of None \<Rightarrow> False | Some x \<Rightarrow> wo_final_state x = BLOCKED)"

definition rebase_diverged_branch :: "task_worker \<Rightarrow> string \<Rightarrow> worker_outcome option wact" where
  "rebase_diverged_branch tw br =
     (let push = git_in_workspace tw [''push'', ''--force-with-lease'', wc_pr_remote (tw_cfg tw), br]
      in py_bind (git_in_workspace tw [''-c'', ''core.editor=true'', ''rebase'', remote_ref tw br]) (\<lambda>(rc, out).
        if rc = 0 then py_then push (py_return None)
        else py_bind (rebase_in_progress tw) (\<lambda>busy.
          if \<not> busy
          then block_with tw (''diverged-branch rebase failed (no rebase state dir): '' @ take 200 out)
                 (Some (''rebase '' @ remote_ref tw br @ '' failed: '' @ take 500 out))
                 ''diverged-branch rebase hard-failed''
          else py_bind (spawn_conflict_resolver tw ''main'' []) (\<lambda>oc.
            if is_blocked oc then py_return oc else py_then push (py_return None)))))"

definition handle_branch_divergence :: "task_worker \<Rightarrow> worker_outcome option wact" where
  "handle_branch_divergence tw =
     py_bind (the_row tw) (\<lambda>row.
     py_bind (branch_for_divergence tw row) (\<lambda>b. case b of
       None \<Rightarrow> py_return None
     | Some br \<Rightarrow>
         py_bind (branch_ahead_behind tw br) (\<lambda>counts. case counts of
           None \<Rightarrow> py_return None
         | Some (ahead, behind) \<Rightarrow>
             if behind = 0 then py_return None
             else if ahead = 0 then handle_upstream_fast_forward tw br
             else py_bind (block_if_remote_history_rewritten tw row br) (\<lambda>oc. case oc of
               Some x \<Rightarrow> py_return (Some x)
             | None \<Rightarrow> rebase_diverged_branch tw br))))"

section \<open>The parent rebase at a checkpoint\<close>

definition inline_target_is_main :: "ident \<Rightarrow> db \<Rightarrow> bool" where
  "inline_target_is_main tid d \<longleftrightarrow> get_parent_branches tid d = [] \<or> all_parents_merged tid d"

definition force_push :: "task_worker \<Rightarrow> string \<Rightarrow> bool wact" where
  "force_push tw br =
     py_bind (git_in_workspace tw [''push'', ''--force-with-lease'', wc_pr_remote (tw_cfg tw), br]) (\<lambda>(rc, _).
       py_return (rc = 0))"

definition rebase_inline_to_parent_tip :: "task_worker \<Rightarrow> string \<Rightarrow> string \<Rightarrow> bool wact" where
  "rebase_inline_to_parent_tip tw br parent =
     py_bind (git_in_workspace tw [''fetch'', wc_pr_remote (tw_cfg tw), parent]) (\<lambda>(rc, _).
       if rc \<noteq> 0 then py_return False
       else py_bind (git_in_workspace tw [''-c'', ''core.editor=true'', ''rebase'', remote_ref tw parent]) (\<lambda>(rc2, _).
         if rc2 = 0 then force_push tw br
         else py_bind (spawn_conflict_resolver tw ''parent_tip'' parent) (\<lambda>oc.
           if is_blocked oc then py_return False else force_push tw br)))"

text \<open>\<^verbatim>\<open>out.strip().splitlines()[-1] if out.strip() else ""\<close>.\<close>

definition last_line :: "string \<Rightarrow> string" where
  "last_line out = (case splitlines (strip out) of [] \<Rightarrow> [] | l # ls \<Rightarrow> last (l # ls))"

definition rebase_inline_to_main :: "task_worker \<Rightarrow> string \<Rightarrow> string list \<Rightarrow> bool wact" where
  "rebase_inline_to_main tw br parents =
     py_bind
       (case parents of
          [p] \<Rightarrow> py_bind (git_in_workspace tw [''rev-parse'', ''--verify'', p]) (\<lambda>(rc, out).
                   py_return (if rc = 0 then last_line out else []))
        | _ \<Rightarrow> py_return []) (\<lambda>parent_sha.
     py_then (git_in_workspace tw [''fetch'', wc_pr_remote (tw_cfg tw), wc_base_branch (tw_cfg tw)])
     (py_bind
       (git_in_workspace tw
          (if parent_sha \<noteq> [] then [''-c'', ''core.editor=true'', ''rebase'', ''--onto'', base_ref tw, parent_sha]
           else [''-c'', ''core.editor=true'', ''rebase'', base_ref tw])) (\<lambda>(rc, _).
     py_bind (if rc \<noteq> 0 then spawn_conflict_resolver tw ''main'' [] else py_return None) (\<lambda>oc.
       if is_blocked oc then py_return False
       else py_bind (git_ahead_count tw br) (\<lambda>ahead.
         if ahead = 0
         then py_bind (the_row tw) (\<lambda>row_now.
           let note = empty_branch_note tw False (opt_text (t_worktree_path row_now))
           in py_then (fsm_call tw block_current (Some note) [F_last_error (Some (take 1000 note))]) (py_return False))
         else force_push tw br)))))"

definition rebase_inline :: "task_worker \<Rightarrow> bool \<Rightarrow> bool wact" where
  "rebase_inline tw to_main =
     py_bind (the_row tw) (\<lambda>row.
     py_bind (store_read (get_parent_branches (tw_id tw))) (\<lambda>parents.
       if to_main then rebase_inline_to_main tw (str_col (t_branch row)) parents
       else case parents of
              [] \<Rightarrow> py_raise (IndexError ''list index out of range'')
            | p # _ \<Rightarrow> rebase_inline_to_parent_tip tw (str_col (t_branch row)) p))"

definition retarget_pr_to_main :: "task_worker \<Rightarrow> int \<Rightarrow> bool wact" where
  "retarget_pr_to_main tw n =
     catch_run_error
       (py_bind (host_run tw [''gh'', ''pr'', ''edit'', str_int n, ''--base'', wc_base_branch (tw_cfg tw)])
          (\<lambda>(rc, _). py_return (rc = 0)))
       (\<lambda>_. py_return False)"

definition nonzero_number :: "int option \<Rightarrow> int option" where
  "nonzero_number x = (case x of Some n \<Rightarrow> if n = 0 then None else Some n | None \<Rightarrow> None)"

definition handle_parent_rebase :: "task_worker \<Rightarrow> worker_outcome option wact" where
  "handle_parent_rebase tw =
     py_bind (the_row tw) (\<lambda>row.
       if or0 (t_needs_parent_rebase row) = 0 then py_return None
       else py_bind (py_read wd_handle) (\<lambda>h.
         if h = None then py_return None
         else py_bind (store_read (inline_target_is_main (tw_id tw))) (\<lambda>to_main.
           let kind = (if to_main then ''main'' else ''parent_tip'')
           in py_bind (rebase_inline tw to_main) (\<lambda>ok.
             if \<not> ok
             then block_with tw (''needs_parent_rebase: inline rebase ('' @ kind @ '') failed'') None
                    (''parent-rebase ('' @ kind @ '') failed'')
             else py_bind (the_row tw) (\<lambda>row2.
               py_then
                 (if to_main
                  then py_then
                    (case nonzero_number (t_pr_number row2) of
                       Some n \<Rightarrow> py_then (retarget_pr_to_main tw n) (py_return ())
                     | None \<Rightarrow> py_return ())
                    (on_store (clear_parent_branch (tw_id tw)))
                  else py_return ())
                 (py_then (on_store (clear_needs_parent_rebase (tw_id tw))) (py_return None)))))))"

section \<open>Rebase of the whole branch\<close>

definition rebase_or_resolve :: "task_worker \<Rightarrow> worker_outcome option wact" where
  "rebase_or_resolve tw =
     py_then (fsm_call tw enter_rebasing_to_main None [])
     (py_bind (git_in_workspace tw [''fetch'', wc_pr_remote (tw_cfg tw), wc_base_branch (tw_cfg tw)]) (\<lambda>(rc, out).
       if rc \<noteq> 0
       then block_with tw (''git fetch failed: '' @ take 300 out) None ''git fetch failed before rebase''
       else py_bind (git_in_workspace tw [''rebase'', base_ref tw]) (\<lambda>(rc1, _).
         if rc1 \<noteq> 0
         then py_then (on_store (increment (tw_id tw) C_conflict_resolve_retries))
                (spawn_conflict_resolver tw ''main'' [])
         else py_bind (git_in_workspace tw [''rev-parse'', base_ref tw]) (\<lambda>(_, sha).
           py_then (on_store (set_field (tw_id tw) [F_last_synced_main_sha (some_text (strip sha))]))
           (py_bind (the_row tw) (\<lambda>row.
           py_bind (git_ahead_count tw (str_col (t_branch row))) (\<lambda>ahead.
             if ahead = 0
             then py_bind (the_row tw) (\<lambda>row_now.
               let note = empty_branch_note tw False (opt_text (t_worktree_path row_now))
               in block_with tw note (Some (take 1000 note)) ''post-rebase empty branch'')
             else py_bind (the_row tw) (\<lambda>row_now.
               py_bind (gh_push tw (str_col (t_branch row_now))) (\<lambda>(push_rc, _).
                 if push_rc = 0 then py_return None
                 else py_bind (the_row tw) (\<lambda>row_then.
                   py_bind (git_in_workspace tw
                       [''push'', ''--force-with-lease'', ''-u'', wc_pr_remote (tw_cfg tw),
                        str_col (t_branch row_then)])
                     (\<lambda>(rc2, out2).
                        if rc2 = 0 then py_return None
                        else block_with tw (''force-push after rebase failed: '' @ take 300 out2) None
                               ''rebase push failed'')))))))))))"

section \<open>The two dispatched rebases\<close>

record rebase_plan =
  rp_pre_state :: state
  rp_onto_sha :: string
  rp_target :: string
  rp_to_main :: bool
  rp_parent_branch :: string

definition kind_name :: "bool \<Rightarrow> string" where
  "kind_name to_main = (if to_main then ''main'' else ''parent_tip'')"

definition pre_rebase_state_of :: "ident \<Rightarrow> task_row option \<Rightarrow> db \<Rightarrow> state" where
  "pre_rebase_state_of tid row d =
     (let stored = opt_text (get_pre_rebase_state tid d);
          txt = (if stored \<noteq> [] then stored else case row of None \<Rightarrow> [] | Some r \<Rightarrow> state_value (t_state r))
      in case List.find (\<lambda>s. state_value s = txt) all_states of
           None \<Rightarrow> PENDING_CI
         | Some s \<Rightarrow> if s = REBASING_TO_MAIN then PENDING_CI else s)"

definition to_pending_ci :: "task_worker \<Rightarrow> string \<Rightarrow> string \<Rightarrow> unit wact" where
  "to_pending_ci tw note err = fsm_call tw enter_pending_ci (Some note) [F_last_error (Some err)]"

definition prepare_parent_tip_plan ::
  "task_worker \<Rightarrow> string list \<Rightarrow> state \<Rightarrow> (worker_outcome + rebase_plan) wact" where
  "prepare_parent_tip_plan tw parents pre =
     (case parents of
        [] \<Rightarrow>
          let note = ''parent_tip rebase requested for '' @ tw_id tw @ '' but no parent branches '' @
                ''recorded. This shouldn'' @ quote1 @ ''t happen '' @ em_dash @
                '' orchestrator schedules parent_tip only on cascade-on-push from a parent. '' @
                ''BLOCKING for inspection.''
          in py_then (fsm_call tw block_current (Some note) [F_last_error (Some (take 1000 note))])
               (py_return (Inl (outcome BLOCKED ''parent_tip rebase with no parent'')))
      | p # _ \<Rightarrow>
          py_bind (git_in_workspace tw [''fetch'', wc_pr_remote (tw_cfg tw), p]) (\<lambda>(rc, _).
            if rc \<noteq> 0
            then let note = ''fetch of parent branch '' @ p @ '' failed for parent_tip rebase''
                 in py_then (to_pending_ci tw note (take 1000 note)) (py_return (Inl (outcome pre note)))
            else py_return (Inr
              \<lparr>rp_pre_state = pre, rp_onto_sha = [], rp_target = remote_ref tw p, rp_to_main = False,
               rp_parent_branch = p\<rparr>)))"

definition verified_prior_merge_base :: "task_worker \<Rightarrow> task_row option \<Rightarrow> string wact" where
  "verified_prior_merge_base tw row =
     (let sha = opt_text (Option.bind row t_parent_merge_base_sha)
      in if sha = [] then py_return []
         else py_bind (git_in_workspace tw [''rev-parse'', ''--verify'', sha]) (\<lambda>(rc, _).
           py_return (if rc = 0 then sha else [])))"

definition prepare_main_plan ::
  "task_worker \<Rightarrow> task_row option \<Rightarrow> string list \<Rightarrow> state \<Rightarrow> (worker_outcome + rebase_plan) wact" where
  "prepare_main_plan tw row parents pre =
     py_bind (verified_prior_merge_base tw row) (\<lambda>prior.
     py_bind
       (if prior = [] \<and> parents \<noteq> []
        then py_bind (git_in_workspace tw [''rev-parse'', ''--verify'', hd parents]) (\<lambda>(rc, out).
          py_return (if rc = 0 then last_line out else []))
        else py_return prior) (\<lambda>onto.
       py_return (Inr
         \<lparr>rp_pre_state = pre, rp_onto_sha = onto, rp_target = base_ref tw, rp_to_main = True,
          rp_parent_branch = []\<rparr>)))"

definition prepare_rebase_plan ::
  "task_worker \<Rightarrow> task_row option \<Rightarrow> state \<Rightarrow> bool \<Rightarrow> (worker_outcome + rebase_plan) wact" where
  "prepare_rebase_plan tw row pre to_main =
     py_bind (store_read (get_parent_branches (tw_id tw))) (\<lambda>parents.
       if to_main then prepare_main_plan tw row parents pre else prepare_parent_tip_plan tw parents pre)"

definition fetch_base_for_rebase :: "task_worker \<Rightarrow> rebase_plan \<Rightarrow> state \<Rightarrow> worker_outcome option wact" where
  "fetch_base_for_rebase tw p pre =
     py_bind (git_in_workspace tw
         [''fetch'', wc_pr_remote (tw_cfg tw), if rp_to_main p then wc_base_branch (tw_cfg tw) else rp_parent_branch p])
       (\<lambda>(rc, out).
          if rc = 0 then py_return None
          else py_then
            (to_pending_ci tw (''rebase fetch failed ('' @ take 200 out @ ''); restoring '' @ state_value pre)
               (''rebase fetch: '' @ take 500 out))
            (py_return (Some (outcome pre ''rebase fetch failed''))))"

text \<open>Whether the resolver has already pushed, or the outcome it ends with.\<close>

definition run_rebase_plan :: "task_worker \<Rightarrow> rebase_plan \<Rightarrow> (worker_outcome + bool) wact" where
  "run_rebase_plan tw p =
     py_bind (git_in_workspace tw
         (if rp_onto_sha p \<noteq> []
          then [''-c'', ''core.editor=true'', ''rebase'', ''--onto'', rp_target p, rp_onto_sha p]
          else [''-c'', ''core.editor=true'', ''rebase'', rp_target p]))
       (\<lambda>(rc, _).
          if rc = 0 then py_return (Inr False)
          else py_bind (spawn_conflict_resolver tw (kind_name (rp_to_main p)) (rp_parent_branch p)) (\<lambda>oc.
            py_return (case oc of None \<Rightarrow> Inr True | Some x \<Rightarrow> Inl x)))"

text \<open>\<^verbatim>\<open>row.get(key) or self._row().get(key)\<close> of a text column.\<close>

definition row_text :: "task_worker \<Rightarrow> (task_row \<Rightarrow> string option) \<Rightarrow> task_row option \<Rightarrow> string wact" where
  "row_text tw col row =
     (if opt_text (Option.bind row col) \<noteq> [] then py_return (opt_text (Option.bind row col))
      else py_bind (the_row tw) (\<lambda>now. py_return (opt_text (col now))))"

definition block_if_rebased_branch_empty ::
  "task_worker \<Rightarrow> task_row option \<Rightarrow> string \<Rightarrow> worker_outcome option wact" where
  "block_if_rebased_branch_empty tw row br =
     py_bind (git_ahead_count tw br) (\<lambda>ahead.
       if ahead \<noteq> 0 then py_return None
       else py_bind (row_text tw t_worktree_path row) (\<lambda>path.
         let note = empty_branch_note tw True path
         in block_with tw note (Some (take 1000 note)) ''post-rebase empty branch''))"

definition push_rebased_branch :: "task_worker \<Rightarrow> task_row option \<Rightarrow> bool \<Rightarrow> worker_outcome option wact" where
  "push_rebased_branch tw row pushed =
     py_bind (row_text tw t_branch row) (\<lambda>br.
       if br = [] then py_return None
       else py_bind (block_if_rebased_branch_empty tw row br) (\<lambda>oc.
         if oc \<noteq> None \<or> pushed then py_return oc
         else py_bind (git_in_workspace tw
                [''push'', ''--force-with-lease'', ''-u'', wc_pr_remote (tw_cfg tw), br]) (\<lambda>(rc, out).
           if rc = 0 then py_return None
           else block_with tw (''rebase: force-push failed: '' @ take 200 out)
                  (Some (''rebase push: '' @ take 500 out)) ''rebase push failed'')))"

section \<open>The pull request after a rebase onto main\<close>

text \<open>\<^verbatim>\<open>open_pr\<close>; what it sends on standard input is not recorded.\<close>

definition first_github_url :: "string \<Rightarrow> string" where
  "first_github_url out =
     (case List.find (starts_with ''https://github.com/'') (splitlines out) of None \<Rightarrow> [] | Some l \<Rightarrow> strip l)"

definition open_pr :: "task_worker \<Rightarrow> string \<Rightarrow> string \<Rightarrow> (int \<times> string \<times> string) wact" where
  "open_pr tw title base =
     py_bind (exec_in tw (bash ''cat > /tmp/qk_pr_body.md'') None) (\<lambda>(rc, out, err).
       if rc \<noteq> 0 then py_return (rc, [], out @ err)
       else py_bind (exec_in tw (bash (''gh '' @ join '' ''
              [''pr'', ''create'', ''--title'', sh_quote title, ''--body-file'', ''/tmp/qk_pr_body.md'', ''--base'', base]))
              (Some 120)) (\<lambda>(rc2, out2, err2).
         py_return (rc2, first_github_url (out2 @ err2), out2 @ err2)))"

definition pull_number :: "string \<Rightarrow> int option" where
  "pull_number url =
     (case search (Seq (lit ''/pull/'') (Group ''1'' (some_of is_digit))) url of
        None \<Rightarrow> None
      | Some m \<Rightarrow> map_option (\<lambda>ds. int (digits_value ds)) (group ''1'' m url))"

definition pr_title :: "task_worker \<Rightarrow> string" where
  "pr_title tw = tw_id tw @ '': '' @ tw_title tw"

definition create_new_pr_for_rebased_branch :: "task_worker \<Rightarrow> (string option \<times> int option) wact" where
  "create_new_pr_for_rebased_branch tw =
     py_bind (open_pr tw (pr_title tw) (wc_base_branch (tw_cfg tw))) (\<lambda>(rc, url, _).
       py_return (if rc \<noteq> 0 \<or> url = [] then (None, None) else (Some url, pull_number url)))"

text \<open>An answer that is no JSON object makes \<^verbatim>\<open>data.get\<close> raise an \<^verbatim>\<open>AttributeError\<close>, represented by \<^const>\<open>TypeError\<close>.\<close>

definition pr_state :: "task_worker \<Rightarrow> int \<Rightarrow> string option wact" where
  "pr_state tw n =
     py_bind
       (catch_run_error
          (py_bind (host_run tw [''gh'', ''pr'', ''view'', str_int n, ''--json'', ''state'']) (\<lambda>r. py_return (Some r)))
          (\<lambda>_. py_return None)) (\<lambda>res.
       case res of
         None \<Rightarrow> py_return None
       | Some (rc, out, _) \<Rightarrow>
           if rc \<noteq> 0 then py_return None
           else (case tw_json tw out of
                   None \<Rightarrow> py_return None
                 | Some v \<Rightarrow>
                     if is_obj v then py_return (case jget v ''state'' of Some (JStr s) \<Rightarrow> Some s | _ \<Rightarrow> None)
                     else py_raise (TypeError (quote1 @ type_name v @ quote1 @ '' object has no attribute '' @
                       quote1 @ ''get'' @ quote1))))"

definition safe_retarget_or_recreate :: "task_worker \<Rightarrow> int \<Rightarrow> unit wact" where
  "safe_retarget_or_recreate tw n =
     py_bind (retarget_pr_to_main tw n) (\<lambda>ok.
       if ok then py_return ()
       else py_bind (pr_state tw n) (\<lambda>st.
         if st = Some ''OPEN''
         then py_then (sleep tw 2000)
           (py_bind (retarget_pr_to_main tw n) (\<lambda>ok2.
              if ok2 then py_return ()
              else fsm_call tw block_current
                (Some (''rebase-to-main: retarget of OPEN PR #'' @ str_int n @ '' failed twice''))
                [F_last_error (Some (''retarget #'' @ str_int n @ '' failed; PR is OPEN''))]))
         else if st = Some ''CLOSED''
         then py_bind (create_new_pr_for_rebased_branch tw) (\<lambda>(url, number).
           case (url, nonzero_number number) of
             (Some u, Some k) \<Rightarrow> on_store (set_field (tw_id tw) [F_pr_url (Some u), F_pr_number (Some k)])
           | _ \<Rightarrow> py_return ())
         else if st = Some ''MERGED'' then py_return ()
         else fsm_call tw block_current (Some (''rebase-to-main: PR #'' @ str_int n @ '' state unreachable''))
                [F_last_error (Some (''could not read state for PR #'' @ str_int n @ ''; refusing to recreate''))]))"

section \<open>Finishing\<close>

definition finish_rebase :: "task_worker \<Rightarrow> task_row option \<Rightarrow> rebase_plan \<Rightarrow> worker_outcome wact" where
  "finish_rebase tw row p =
     py_bind (git_in_workspace tw [''rev-parse'', base_ref tw]) (\<lambda>(_, sha).
     py_bind
       (case nonzero_number (Option.bind row t_pr_number) of
          Some n \<Rightarrow> py_return (Some n)
        | None \<Rightarrow> py_bind (the_row tw) (\<lambda>now. py_return (nonzero_number (t_pr_number now)))) (\<lambda>pr.
     let note = (if rp_to_main p then ''rebased onto main; restored '' @ state_value (rp_pre_state p)
                 else ''rebased onto parent tip ('' @ rp_parent_branch p @ ''); restored '' @
                   state_value (rp_pre_state p))
     in py_then
          (if rp_to_main p
           then py_then (case pr of Some n \<Rightarrow> safe_retarget_or_recreate tw n | None \<Rightarrow> py_return ())
                  (on_store (clear_parent_branch (tw_id tw)))
           else py_return ())
        (py_then (on_store (set_field (tw_id tw)
                    [F_last_synced_main_sha (some_text (strip sha)), F_pre_rebase_state None]))
        (py_then (fsm_call tw enter_pending_ci (Some note) [])
          (py_return (outcome (rp_pre_state p) note))))))"

definition run_rebase :: "task_worker \<Rightarrow> bool \<Rightarrow> worker_outcome wact" where
  "run_rebase tw to_main =
     py_bind (store_read (find_task (tw_id tw))) (\<lambda>row.
     py_bind (store_read (pre_rebase_state_of (tw_id tw) row)) (\<lambda>pre.
       w_finally
         (py_catch
            (py_then (provision tw False)
            (py_bind (prepare_rebase_plan tw row pre to_main) (\<lambda>prep. case prep of
               Inl oc \<Rightarrow> py_return oc
             | Inr p \<Rightarrow>
                 py_bind (fetch_base_for_rebase tw p pre) (\<lambda>f. case f of
                   Some oc \<Rightarrow> py_return oc
                 | None \<Rightarrow>
                     py_bind (run_rebase_plan tw p) (\<lambda>r. case r of
                       Inl oc \<Rightarrow> py_return oc
                     | Inr pushed \<Rightarrow>
                         py_bind (push_rebased_branch tw row pushed) (\<lambda>q. case q of
                           Some oc \<Rightarrow> py_return oc
                         | None \<Rightarrow> finish_rebase tw row p))))))
            (\<lambda>e. py_then
               (to_pending_ci tw (''rebase ('' @ kind_name to_main @ '') crashed: '' @ err_text e @ ''; restoring '' @
                    state_value pre) (take 1000 (err_text e)))
               (py_return (outcome pre (''rebase ('' @ kind_name to_main @ '') crashed: '' @ err_text e)))))
         (release_container tw)))"

section \<open>Facts\<close>

lemma keeps_catch_run_error [keeps_intros]:
  "keeps P m \<Longrightarrow> (\<And>e. keeps P (h e)) \<Longrightarrow> keeps P (catch_run_error m h)"
  unfolding catch_run_error_def by (intro keeps_intros)

lemma keeps_to_pending_ci [keeps_intros]: "wkeeps store_ok (to_pending_ci tw n e)"
  unfolding to_pending_ci_def by (intro keeps_intros)

lemma keeps_row_text [keeps_intros]: "wkeeps P (row_text tw col row)"
  unfolding row_text_def by (intro keeps_intros)

lemma keeps_git_helpers [calls_keep]:
  assumes "others_keep P tw"
  shows "wkeeps P (git_ahead_count tw br)" and "wkeeps P (rebase_kind_in_progress tw k)"
    and "wkeeps P (rebase_continue tw)" and "wkeeps P (rebase_abort tw)" and "wkeeps P (conflicted_files tw)"
    and "wkeeps P (force_push tw br)" and "wkeeps P (retarget_pr_to_main tw n)" and "wkeeps P (branch_ahead_behind tw br)"
    and "wkeeps P (verified_prior_merge_base tw row)" and "wkeeps P (merge_node_contexts tw)"
    and "wkeeps P (open_pr tw title base)" and "wkeeps P (pr_state tw n)"
  unfolding git_ahead_count_def rebase_kind_in_progress_def rebase_continue_def rebase_abort_def conflicted_files_def
    force_push_def retarget_pr_to_main_def branch_ahead_behind_def verified_prior_merge_base_def merge_node_contexts_def
    open_pr_def pr_state_def Let_def
  by (intro keeps_intros calls_keep assms)+

lemma keeps_git_states [calls_keep]:
  assumes "others_keep P tw"
  shows "wkeeps P (rebase_in_progress tw)" and "wkeeps P (ensure_on_branch tw)"
    and "wkeeps P (gather_context tw kind parent)" and "wkeeps P (create_new_pr_for_rebased_branch tw)"
  unfolding rebase_in_progress_def ensure_on_branch_def gather_context_def create_new_pr_for_rebased_branch_def Let_def
  by (intro keeps_intros calls_keep assms)+

lemma keeps_resolve_step [calls_keep]:
  "others_keep store_ok tw \<Longrightarrow> wkeeps store_ok (resolve_one_conflict_step tw i kind parent)"
  unfolding resolve_one_conflict_step_def Let_def
  by (intro keeps_intros calls_keep) (auto split: structured.splits intro!: keeps_intros calls_keep)

lemma keeps_resolve_loop [calls_keep]:
  "others_keep store_ok tw \<Longrightarrow> wkeeps store_ok (resolve_loop tw kind parent is)"
  by (induction tw kind parent "is" rule: resolve_loop.induct) (auto intro!: keeps_intros calls_keep)

lemma keeps_resolver [calls_keep]:
  assumes "others_keep store_ok tw"
  shows "wkeeps store_ok (verify_resolution tw)" and "wkeeps store_ok (spawn_conflict_resolver tw kind parent)"
proof -
  show v: "wkeeps store_ok (verify_resolution tw)"
    unfolding verify_resolution_def Let_def by (intro keeps_intros calls_keep assms)
  show "wkeeps store_ok (spawn_conflict_resolver tw kind parent)"
    unfolding spawn_conflict_resolver_def Let_def
    by (intro keeps_intros calls_keep assms) (auto split: resolve_result.splits intro!: keeps_intros calls_keep assms v)
qed

lemma keeps_divergence [calls_keep]:
  assumes "others_keep store_ok tw"
  shows "wkeeps store_ok (branch_for_divergence tw row)" and "wkeeps store_ok (handle_upstream_fast_forward tw br)"
    and "wkeeps store_ok (block_if_remote_history_rewritten tw row br)" and "wkeeps store_ok (rebase_diverged_branch tw br)"
  unfolding branch_for_divergence_def handle_upstream_fast_forward_def block_if_remote_history_rewritten_def
    rebase_diverged_branch_def Let_def
  by (intro keeps_intros calls_keep assms)+

lemma keeps_handle_divergence [calls_keep]:
  "others_keep store_ok tw \<Longrightarrow> wkeeps store_ok (handle_branch_divergence tw)"
  unfolding handle_branch_divergence_def by (intro keeps_intros calls_keep)

lemma keeps_inline [calls_keep]:
  assumes "others_keep store_ok tw"
  shows "wkeeps store_ok (rebase_inline_to_parent_tip tw br p)" and "wkeeps store_ok (rebase_inline_to_main tw br ps)"
proof -
  show "wkeeps store_ok (rebase_inline_to_parent_tip tw br p)"
    unfolding rebase_inline_to_parent_tip_def by (intro keeps_intros calls_keep assms)
  show "wkeeps store_ok (rebase_inline_to_main tw br ps)"
    unfolding rebase_inline_to_main_def Let_def by (intro keeps_intros calls_keep assms)
qed

lemma keeps_parent_rebase [calls_keep]:
  assumes "others_keep store_ok tw"
  shows "wkeeps store_ok (rebase_inline tw to_main)" and "wkeeps store_ok (handle_parent_rebase tw)"
proof -
  show inline: "wkeeps store_ok (rebase_inline tw to_main)" for to_main
    unfolding rebase_inline_def by (intro keeps_intros calls_keep assms)
  show "wkeeps store_ok (handle_parent_rebase tw)"
    unfolding handle_parent_rebase_def Let_def by (intro keeps_intros calls_keep assms inline)
qed

lemma keeps_rebase_or_resolve [calls_keep]: "others_keep store_ok tw \<Longrightarrow> wkeeps store_ok (rebase_or_resolve tw)"
  unfolding rebase_or_resolve_def Let_def by (intro keeps_intros calls_keep)

lemma keeps_rebase_phases [calls_keep]:
  assumes "others_keep store_ok tw"
  shows "wkeeps store_ok (prepare_rebase_plan tw row pre to_main)" and "wkeeps store_ok (fetch_base_for_rebase tw q pre)"
    and "wkeeps store_ok (run_rebase_plan tw q)" and "wkeeps store_ok (push_rebased_branch tw row pushed)"
    and "wkeeps store_ok (safe_retarget_or_recreate tw n)"
  unfolding prepare_rebase_plan_def prepare_parent_tip_plan_def prepare_main_plan_def fetch_base_for_rebase_def
    run_rebase_plan_def push_rebased_branch_def block_if_rebased_branch_empty_def safe_retarget_or_recreate_def Let_def
  by (intro keeps_intros calls_keep assms)+

lemma keeps_finish_rebase [calls_keep]: "others_keep store_ok tw \<Longrightarrow> wkeeps store_ok (finish_rebase tw row q)"
  unfolding finish_rebase_def Let_def by (intro keeps_intros calls_keep)

lemma keeps_run_rebase [calls_keep]: "others_keep store_ok tw \<Longrightarrow> wkeeps store_ok (run_rebase tw to_main)"
  unfolding run_rebase_def by (intro keeps_intros calls_keep)

section \<open>The resolver's budget\<close>

lemma spends_rebase_parts [spends_intros]:
  assumes "only_agents p"
  shows "spends p 0 (git_ahead_count tw br)" and "spends p 0 (rebase_kind_in_progress tw k)"
    and "spends p 0 (rebase_continue tw)" and "spends p 0 (rebase_abort tw)"
    and "spends p 0 (merge_node_contexts tw)" and "spends p 0 (conflicted_files tw)"
    and "spends p 0 (rebase_in_progress tw)" and "spends p 0 (ensure_on_branch tw)"
    and "spends p 0 (gather_context tw kind parent)" and "spends p 0 (verify_resolution tw)"
proof -
  note intros = spends_intros assms
  show ahead: "spends p 0 (git_ahead_count tw br)" for br
    unfolding git_ahead_count_def by (rule spends_le, (rule intros)+, simp)
  show one: "spends p 0 (rebase_kind_in_progress tw k)" for k
    unfolding rebase_kind_in_progress_def Let_def by (rule spends_le, (rule intros)+, simp)
  show "spends p 0 (rebase_continue tw)"
    unfolding rebase_continue_def by (intro intros)
  show "spends p 0 (rebase_abort tw)"
    unfolding rebase_abort_def by (rule spends_le, (rule intros)+, simp)
  have pair: "spends p 0 (case x of (_ :: ident, b) \<Rightarrow>
      py_then (git_in_workspace tw [''log'', ''--oneline'', base_ref tw @ ''..'' @ remote_ref tw b])
        (git_in_workspace tw [''diff'', base_ref tw @ ''...'' @ remote_ref tw b, ''--no-color'']))" for x
    by (rule spends_le, (rule intros)+, simp)
  show merge: "spends p 0 (merge_node_contexts tw)"
    unfolding merge_node_contexts_def by (rule spends_le, (rule intros spends_for pair)+, simp)
  have shown: "spends p 0 (py_bind (exec_in tw (bash (''cat /workspace/'' @ path)) (Some 30)) (\<lambda>(_, marked, _).
           py_return (path, take 3000 marked)))" for path
    by (rule spends_le, (rule intros)+, simp)
  show "spends p 0 (conflicted_files tw)"
    unfolding conflicted_files_def by (rule spends_le, (rule intros spends_for shown)+, simp)
  show "spends p 0 (rebase_in_progress tw)"
    unfolding rebase_in_progress_def by (rule spends_le, (rule intros one)+, simp)
  show "spends p 0 (ensure_on_branch tw)"
    unfolding ensure_on_branch_def by (rule spends_le, (rule intros)+, simp)
  show "spends p 0 (gather_context tw kind parent)"
    unfolding gather_context_def Let_def by (rule spends_le, (rule intros merge)+, simp)
  show "spends p 0 (verify_resolution tw)"
    unfolding verify_resolution_def Let_def by (rule spends_le, (rule intros ahead)+, simp)
qed

lemma spends_resolver_answer:
  assumes "\<And>env. spends p a (k env)" and "spends p b m"
  shows "spends p (max a b) (case x of Some (S_resolver env) \<Rightarrow> k env | _ \<Rightarrow> m)"
  using spends_le [OF assms(1) max.cobounded1] spends_le [OF assms(2) max.cobounded2]
  by (simp split: option.splits structured.splits)

lemma spends_resolve_step:
  assumes "only_agents p"
  shows "spends p 1 (resolve_one_conflict_step tw i kind parent)"
  unfolding resolve_one_conflict_step_def Let_def
  by (rule spends_le, (rule spends_resolver_answer spends_intros assms)+, simp)

lemma spends_resolve_loop:
  "only_agents p \<Longrightarrow> spends p (length is) (resolve_loop tw kind parent is)"
proof (induction "is")
  case (Cons i "is")
  note intros = spends_intros spends_resolve_step [OF Cons.prems] Cons.IH [OF Cons.prems] Cons.prems
  show ?case by (simp, rule spends_le, (rule intros)+, simp)
qed (simp add: spends_intros)

lemma spends_resolver:
  assumes "only_agents p"
  shows "spends p (wc_conflict_max_iterations (tw_cfg tw)) (spawn_conflict_resolver tw kind parent)"
proof -
  note intros = spends_intros spends_resolve_loop [OF assms] assms
  have settle: "spends p 0 (case res of Resolver_outcome oc \<Rightarrow> py_return (Some oc) | Rebase_over \<Rightarrow> verify_resolution tw
      | Iterations_used \<Rightarrow> py_then (rebase_abort tw) (py_then (ensure_on_branch tw) (block_with tw a b c)))" for res a b c
  proof (cases res)
    case Iterations_used
    show ?thesis unfolding Iterations_used resolve_result.case by (rule spends_le, (rule intros)+, simp)
  qed (simp_all add: intros)
  show ?thesis
    unfolding spawn_conflict_resolver_def Let_def by (rule spends_le, (rule intros settle)+, simp)
qed

section \<open>Properties\<close>

text \<open>
  The conflict resolver is bounded. Whatever git and the agent answer, and whichever role one counts, a resolver run
  asks agents at most \<^verbatim>\<open>conflict_resolver_max_iterations\<close> times, and it leaves a lawful store lawful.
\<close>

theorem resolver_bounded:
  assumes "others_keep store_ok tw" and "store_ok (wd_db w)"
    and "spawn_conflict_resolver tw kind parent w = (r, w')"
  shows "calls_of (agent_call_of role) w' \<le> wc_conflict_max_iterations (tw_cfg tw) + calls_of (agent_call_of role) w \<and>
    store_ok (wd_db w')"
  using spendsD [OF spends_resolver [OF only_agents_of], of role tw kind parent w] assms(3)
    keeps_result [OF keeps_resolver(2) [OF assms(1)] assms(2,3)]
  by simp

theorem resolver_bounded_witness:
  "calls_of (agent_call_of ''conflict_resolver'')
     (snd (spawn_conflict_resolver demo_worker ''main'' [] (demo_world [Ev_START_TASK, Ev_PARENT_MERGED_OR_CONFLICT])))
   \<le> 2"
  using resolver_bounded [OF demo_others_keep demo_world_ok surjective_pairing, where kind = "''main''"
      and role = "''conflict_resolver''"]
  by (simp add: calls_of_def demo_worker_cfg_def)

lemma release_releases: "release_container tw w = (Inr (), w') \<Longrightarrow> wd_handle w' = None"
  by (auto simp: release_container_def act_simps split: if_splits prod.splits sum.splits)

lemma finally_released: "w_finally m (release_container tw) w = (Inr a, w') \<Longrightarrow> wd_handle w' = None"
  by (auto simp: w_finally_def split: prod.splits sum.splits dest: release_releases)

text \<open>
  A dispatched rebase cleans up. Whatever happens inside, when the entry returns its container is gone, and the
  store is lawful even when it raises.
\<close>

theorem rebase_cleans_up:
  assumes "others_keep store_ok tw" and "store_ok (wd_db w)" and "run_rebase tw to_main w = (r, w')"
  shows "store_ok (wd_db w') \<and> (\<forall>oc. r = Inr oc \<longrightarrow> wd_handle w' = None)"
proof
  show "store_ok (wd_db w')" by (rule keeps_result [OF keeps_run_rebase [OF assms(1)] assms(2,3)])
  have "wd_handle w' = None" if "r = Inr oc" for oc
    using assms(3) that finally_released by (fastforce simp: run_rebase_def store_read_def act_simps)
  then show "\<forall>oc. r = Inr oc \<longrightarrow> wd_handle w' = None" by blast
qed

definition demo_rebase_world :: world where
  "demo_rebase_world =
     snd (on_store (set_field ''T1'' [F_worktree_path (Some ''/wt/t1''), F_branch (Some ''quikode/t1'')])
       (demo_world [Ev_START_TASK, Ev_PARENT_MERGED_OR_CONFLICT]))"

lemma demo_rebase_world_ok: "store_ok (wd_db demo_rebase_world)"
  unfolding demo_rebase_world_def
  by (rule keepsD [where P = "\<lambda>w. store_ok (wd_db w)", OF _ demo_world_ok]) (intro keeps_intros)

definition demo_rebase :: "(py_error + worker_outcome) \<times> world" where
  "demo_rebase = run_rebase demo_worker True demo_rebase_world"

theorem rebase_cleans_up_witness:
  "fst demo_rebase = Inr (outcome BLOCKED ''post-rebase empty branch'') \<and>
   store_ok (wd_db (snd demo_rebase)) \<and> wd_handle (snd demo_rebase) = None"
proof -
  have "fst demo_rebase = Inr (outcome BLOCKED ''post-rebase empty branch'')"
    by code_simp
  with rebase_cleans_up [OF demo_others_keep demo_rebase_world_ok
      surjective_pairing [of demo_rebase, unfolded demo_rebase_def]]
  show ?thesis by (simp add: demo_rebase_def)
qed

lemma parked_closed:
  "region_closed (\<lambda>s. s = PENDING_CI) [CONFLICT_RESOLVING, BLOCKED]"
  "region_closed (\<lambda>s. s = BLOCKED) [CONFLICT_RESOLVING, BLOCKED]"
  by code_simp+

lemmas parked_helpers =
  wkeeps_fsm_call [OF to_pending_ci.fsm_helper_axioms parked_closed(1)]
  wkeeps_fsm_call [OF to_blocked.fsm_helper_axioms parked_closed(2)]

text \<open>
  A rebase whose conflicts were resolved is not finished. After the resolver ran the task is CONFLICT_RESOLVING,
  and nothing between the resolver and the end of \<^verbatim>\<open>_finish_rebase\<close> fires RESOLVED: whatever git, \<^verbatim>\<open>gh\<close> and the agents
  answer, the task is left CONFLICT_RESOLVING or BLOCKED, while the outcome reports the state from before the rebase.
\<close>

theorem finished_rebase_parked:
  assumes "others_keep (in_states (tw_id tw) [CONFLICT_RESOLVING, BLOCKED]) tw"
    and "in_states (tw_id tw) [CONFLICT_RESOLVING, BLOCKED] (wd_db w)"
    and "finish_rebase tw row p w = (r, w')"
  shows "in_states (tw_id tw) [CONFLICT_RESOLVING, BLOCKED] (wd_db w') \<and>
    (\<forall>oc. r = Inr oc \<longrightarrow> wo_final_state oc = rp_pre_state p)"
proof
  note steps = keeps_intros calls_keep assms(1) parked_helpers wkeeps_unmoving [OF stays(1)]
    wkeeps_unmoving [OF stays(2)]
  have "wkeeps (in_states (tw_id tw) [CONFLICT_RESOLVING, BLOCKED]) (finish_rebase tw row p)"
    unfolding finish_rebase_def safe_retarget_or_recreate_def Let_def by (intro steps)
  from keeps_result [OF this assms(2,3)] show "in_states (tw_id tw) [CONFLICT_RESOLVING, BLOCKED] (wd_db w')" .
  have "yields (\<lambda>oc. wo_final_state oc = rp_pre_state p) (finish_rebase tw row p)"
    unfolding finish_rebase_def Let_def by (intro bind_yields prod_yields then_yields yields_return) (simp add: outcome_def)
  with assms(3) show "\<forall>oc. r = Inr oc \<longrightarrow> wo_final_state oc = rp_pre_state p" by (auto dest: yieldsD)
qed

definition demo_conflict_world :: world where
  "demo_conflict_world = demo_world [Ev_START_TASK, Ev_PARENT_MERGED_OR_CONFLICT, Ev_CONFLICT]"

definition demo_finish :: "(py_error + worker_outcome) \<times> world" where
  "demo_finish =
     finish_rebase demo_worker None
       \<lparr>rp_pre_state = PENDING_CI, rp_onto_sha = [], rp_target = ''origin/main'', rp_to_main = True,
        rp_parent_branch = []\<rparr> demo_conflict_world"

theorem finished_rebase_parked_witness:
  "fst demo_finish = Inr (outcome PENDING_CI ''rebased onto main; restored pending_ci'') \<and>
   in_states ''T1'' [CONFLICT_RESOLVING, BLOCKED] (wd_db (snd demo_finish))"
proof
  show "fst demo_finish = Inr (outcome PENDING_CI ''rebased onto main; restored pending_ci'')"
    by code_simp
  have "in_states (tw_id demo_worker) [CONFLICT_RESOLVING, BLOCKED] (wd_db demo_conflict_world)"
    by code_simp
  from finished_rebase_parked [OF demo_others_keep this surjective_pairing [of demo_finish, unfolded demo_finish_def]]
  show "in_states ''T1'' [CONFLICT_RESOLVING, BLOCKED] (wd_db (snd demo_finish))"
    by (simp add: demo_finish_def)
qed

end
