(* ===== verification/Witnesses.thy ===== *)
theory Witnesses
  imports RebaseWork "HOL-Library.AList"
begin

text \<open>
  \<^verbatim>\<open>workers/witness_runner.py\<close>: the witness commands of the evidence a subtask advances, run in the container under
  their caps, and the artifact the worker makes of them. Evidence comes from the node, or, for a command the node does
  not have, from the DAG file of the worktree.
\<close>

section \<open>Which command belongs to an evidence id\<close>

definition command_prefixes :: "string list" where
  "command_prefixes =
     [''bash '', ''sh '', ''just '', ''npm '', ''yarn '', ''pnpm '', ''cargo '', ''pytest'', ''uv '', ''python '',
      ''make '', ''go '', ''tsc '', ''deno '', ''./'']"

text \<open>\<^verbatim>\<open>str.lstrip\<close>; a text that strips to nothing does not count.\<close>

definition lstrip :: "string \<Rightarrow> string" where
  "lstrip s = dropWhile whitespace s"

definition stripped :: "string option \<Rightarrow> string option" where
  "stripped t = (case t of None \<Rightarrow> None | Some s \<Rightarrow> some_text (strip s))"

definition first_command :: "string list \<Rightarrow> string option" where
  "first_command ws =
     (case ws of
        [] \<Rightarrow> None
      | w # _ \<Rightarrow> if list_ex (\<lambda>p. starts_with p (lstrip w)) command_prefixes then Some (strip w) else None)"

definition pick_command :: "string option \<Rightarrow> string option \<Rightarrow> string list \<Rightarrow> string option" where
  "pick_command cmd witness_cmd ws =
     (case stripped cmd of
        Some c \<Rightarrow> Some c
      | None \<Rightarrow> (case stripped witness_cmd of Some c \<Rightarrow> Some c | None \<Rightarrow> first_command ws))"

definition extract_witness_command :: "evidence \<Rightarrow> string option" where
  "extract_witness_command ev = pick_command (ev_command ev) (ev_witness_command ev) (ev_witnesses ev)"

definition evidence_id_to_command :: "evidence list \<Rightarrow> string \<Rightarrow> string option" where
  "evidence_id_to_command evs i =
     (case List.find (\<lambda>ev. evidence_canonical_id ev = i) evs of
        None \<Rightarrow> None
      | Some ev \<Rightarrow> extract_witness_command ev)"

text \<open>The same on the rows of a DAG file, where a field may have any type.\<close>

definition json_text :: "json option \<Rightarrow> string option" where
  "json_text v = (case v of Some (JStr s) \<Rightarrow> Some s | _ \<Rightarrow> None)"

definition json_true :: "json option \<Rightarrow> bool" where
  "json_true v =
     (case v of
        None \<Rightarrow> False
      | Some w \<Rightarrow> w \<notin> {JNull, JBool False, JNum 0, JStr [], JArr [], JObj []})"

text \<open>\<^verbatim>\<open>for x in v\<close>: an object gives its keys, a string its characters.\<close>

definition json_iter :: "json \<Rightarrow> py_error + json list" where
  "json_iter v =
     (case v of
        JArr xs \<Rightarrow> Inr xs
      | JObj kvs \<Rightarrow> Inr (map (\<lambda>(k, _). JStr k) kvs)
      | JStr s \<Rightarrow> Inr (map (\<lambda>c. JStr [c]) s)
      | _ \<Rightarrow> Inl (TypeError (quote1 @ type_name v @ quote1 @ '' object is not iterable'')))"

definition json_witness_command :: "json \<Rightarrow> string option" where
  "json_witness_command v =
     pick_command (json_text (jget v ''command'')) (json_text (jget v ''witness_command''))
       (case jget v ''witnesses'' of Some (JArr (JStr s # _)) \<Rightarrow> [s] | _ \<Rightarrow> [])"

definition json_evidence_id :: "json \<Rightarrow> py_error + string" where
  "json_evidence_id v =
     (let kind = (case jget v ''kind'' of None \<Rightarrow> ''evidence'' | Some k \<Rightarrow> json_str k);
          explicit = opt_text (json_text (jget v ''id''));
          bid = opt_text (json_text (jget v ''behavior_id''))
      in if explicit \<noteq> [] then Inr explicit
         else if bid \<noteq> []
         then (if json_true (jget v ''witnesses'')
               then ebind (json_iter (the (jget v ''witnesses''))) (\<lambda>ws.
                 Inr (bid @ ''-'' @ kind @ ''-'' @ join ''-'' (map json_str ws)))
               else Inr (bid @ ''-'' @ kind))
         else if \<not> json_true (jget v ''description'') then Inr (''ev-'' @ kind)
         else case json_text (jget v ''description'') of
                None \<Rightarrow> Inl (TypeError ''description is not a string'')
              | Some t \<Rightarrow>
                  (let desc = map (\<lambda>c. lower_char (if c = CHR '' '' then CHR ''-'' else c)) (strip (take 32 t))
                   in Inr (if desc \<noteq> [] then ''ev-'' @ kind @ ''-'' @ desc else ''ev-'' @ kind)))"

fun json_id_to_command :: "json list \<Rightarrow> string \<Rightarrow> py_error + string option" where
  "json_id_to_command [] i = Inr None"
| "json_id_to_command (v # vs) i =
     (if \<not> is_obj v then json_id_to_command vs i
      else ebind (json_evidence_id v) (\<lambda>x.
        if x = i then Inr (json_witness_command v) else json_id_to_command vs i))"

text \<open>The \<^verbatim>\<open>expected_evidence\<close> rows of all nodes of a DAG file.\<close>

definition node_evidence :: "json \<Rightarrow> py_error + json list" where
  "node_evidence node =
     (if \<not> is_obj node \<or> \<not> json_true (jget node ''expected_evidence'') then Inr []
      else ebind (json_iter (the (jget node ''expected_evidence''))) (\<lambda>evs. Inr (filter is_obj evs)))"

definition dag_evidence :: "json \<Rightarrow> py_error + json list" where
  "dag_evidence v =
     (case jget v ''nodes'' of
        None \<Rightarrow> Inr []
      | Some ns \<Rightarrow>
          ebind (json_iter ns) (\<lambda>nodes.
          ebind (etraverse node_evidence nodes) (\<lambda>rows. Inr (concat rows))))"

definition load_workspace_evidence :: "task_worker \<Rightarrow> json list wact" where
  "load_workspace_evidence tw =
     py_bind
       (catch_run_error
          (py_bind (exec_in tw (bash
              ''cd /workspace && test -f docs/roadmap/dag.json && cat docs/roadmap/dag.json || true'') (Some 5))
             (\<lambda>r. py_return (Some r)))
          (\<lambda>_. py_return None)) (\<lambda>res.
       case res of
         None \<Rightarrow> py_return []
       | Some (rc, out, _) \<Rightarrow>
           if rc \<noteq> 0 \<or> strip out = [] then py_return []
           else case tw_json tw out of
                  None \<Rightarrow> py_return []
                | Some v \<Rightarrow> (case dag_evidence v of Inl e \<Rightarrow> py_raise e | Inr rows \<Rightarrow> py_return rows))"

section \<open>Running them\<close>

definition excerpt :: "string \<Rightarrow> string" where
  "excerpt t = (if length t \<le> 4096 then t else take 4096 t @ nl @ ''... [truncated to first 4 KB]'')"

definition no_command_result :: "string \<Rightarrow> witness_result" where
  "no_command_result i =
     \<lparr>wr_rc = None, wr_stdout_excerpt = [], wr_stderr_excerpt = [], wr_runtime_ms = 0,
      wr_classification = ''NO_COMMAND'',
      wr_note = ''no runnable command for evidence id '' @ py_repr i @
        '' on the node or worktree DAG (checker grades the diff alone)''\<rparr>"

definition failed_result :: "string \<Rightarrow> int \<Rightarrow> int \<Rightarrow> py_error \<Rightarrow> witness_result" where
  "failed_result cmd cap ms e =
     (let timed_out = (case e of TimeoutExpired _ \<Rightarrow> True | _ \<Rightarrow> False)
      in \<lparr>wr_rc = None, wr_stdout_excerpt = [], wr_stderr_excerpt = take 4096 (err_text e), wr_runtime_ms = ms,
          wr_classification = (if timed_out then ''TIMEOUT'' else ''ERROR''),
          wr_note = ''witness `'' @ take 160 cmd @ ''` did not finish within '' @ str_int cap @ ''s cap; NOTE: '' @
            (if timed_out then ''per-witness timeout'' else ''exec error: '' @ err_text e)\<rparr>)"

definition finished_result :: "string \<Rightarrow> int \<Rightarrow> run_result \<Rightarrow> witness_result" where
  "finished_result cmd ms r =
     (case r of (rc, out, err) \<Rightarrow>
       (let class = (if rc = 0 then ''OK'' else ''NONZERO_RC'')
        in \<lparr>wr_rc = Some rc, wr_stdout_excerpt = excerpt out, wr_stderr_excerpt = excerpt err, wr_runtime_ms = ms,
            wr_classification = class,
            wr_note = ''witness command: `'' @ take 160 cmd @ ''` (rc='' @ str_int rc @ '', runtime='' @ str_int ms @
              ''ms, classification='' @ class @ '')''\<rparr>))"

text \<open>
  One command under its cap: what is left of the total budget, at least a second. The branch of the source for an
  exhausted budget is unreachable, the remainder being positive.
\<close>

definition witness_cap :: "int \<Rightarrow> int \<Rightarrow> int \<Rightarrow> int" where
  "witness_cap per deadline t = min per (max ((deadline - t) div 1000) 1)"

definition run_witness :: "task_worker \<Rightarrow> int \<Rightarrow> int \<Rightarrow> string \<Rightarrow> witness_result wact" where
  "run_witness tw per deadline cmd =
     py_bind (monotonic tw) (\<lambda>start.
     let cap = witness_cap per deadline start
     in py_bind
          (catch_run_error
             (py_bind (exec_in tw (bash (''cd /workspace && '' @ cmd)) (Some cap)) (\<lambda>r. py_return (Inr r)))
             (\<lambda>e. py_return (Inl e))) (\<lambda>res.
          py_bind (monotonic tw) (\<lambda>end_time.
            py_return (case res of
                Inl e \<Rightarrow> failed_result cmd cap (end_time - start) e
              | Inr r \<Rightarrow> finished_result cmd (end_time - start) r))))"

text \<open>The rows of the worktree are read once, when the first id needs them.\<close>

fun witness_loop ::
  "task_worker \<Rightarrow> int \<Rightarrow> int \<Rightarrow> string list \<Rightarrow> json list option \<Rightarrow> (string \<times> witness_result) list \<Rightarrow>
   (string \<times> witness_result) list wact" where
  "witness_loop tw per deadline [] rows results = py_return results"
| "witness_loop tw per deadline (i # is) rows results =
     (case evidence_id_to_command (tw_evidence tw) i of
        Some cmd \<Rightarrow>
          py_bind (run_witness tw per deadline cmd) (\<lambda>r.
            witness_loop tw per deadline is rows (AList.update i r results))
      | None \<Rightarrow>
          py_bind (case rows of Some vs \<Rightarrow> py_return vs | None \<Rightarrow> load_workspace_evidence tw) (\<lambda>vs.
            case json_id_to_command vs i of
              Inl e \<Rightarrow> py_raise e
            | Inr None \<Rightarrow> witness_loop tw per deadline is (Some vs) (AList.update i (no_command_result i) results)
            | Inr (Some cmd) \<Rightarrow>
                py_bind (run_witness tw per deadline cmd) (\<lambda>r.
                  witness_loop tw per deadline is (Some vs) (AList.update i r results))))"

definition run_scoped_witnesses :: "task_worker \<Rightarrow> string list \<Rightarrow> (string \<times> witness_result) list wact" where
  "run_scoped_witnesses tw ids =
     (let per = (if wc_witness_timeout_s (tw_cfg tw) \<le> 0 then 15 else wc_witness_timeout_s (tw_cfg tw));
          budget = max (2 * int (length ids) * per) per
      in py_bind (monotonic tw) (\<lambda>t. witness_loop tw per (t + 1000 * budget) ids None []))"

section \<open>The artifact\<close>

text \<open>\<^verbatim>\<open>json.dumps(v, indent=2)\<close> of ASCII texts.\<close>

definition hex_digit :: "nat \<Rightarrow> char" where
  "hex_digit n = (if n < 10 then char_of (48 + n) else char_of (87 + n))"

definition json_escape :: "char \<Rightarrow> string" where
  "json_escape c =
     (if c = CHR 0x22 then [CHR 0x5C, CHR 0x22]
      else if c = CHR 0x5C then [CHR 0x5C, CHR 0x5C]
      else if c = CHR 0x0A then [CHR 0x5C, CHR ''n'']
      else if c = CHR 0x0D then [CHR 0x5C, CHR ''r'']
      else if c = CHR 0x09 then [CHR 0x5C, CHR ''t'']
      else if c = CHR 0x08 then [CHR 0x5C, CHR ''b'']
      else if c = CHR 0x0C then [CHR 0x5C, CHR ''f'']
      else let n = of_char c :: nat
           in if n < 32 \<or> 126 < n then [CHR 0x5C] @ ''u00'' @ [hex_digit (n div 16), hex_digit (n mod 16)] else [c])"

definition json_quote :: "string \<Rightarrow> string" where
  "json_quote s = [CHR 0x22] @ concat (map json_escape s) @ [CHR 0x22]"

definition json_block :: "nat \<Rightarrow> char \<Rightarrow> char \<Rightarrow> string list \<Rightarrow> string" where
  "json_block level l r items =
     (if items = [] then [l, r]
      else [l] @ nl @ join (CHR '','' # nl) (map (\<lambda>i. replicate (2 * Suc level) (CHR '' '') @ i) items) @ nl @
           replicate (2 * level) (CHR '' '') @ [r])"

fun json_dumps :: "nat \<Rightarrow> json \<Rightarrow> string" where
  "json_dumps level JNull = ''null''"
| "json_dumps level (JBool b) = (if b then ''true'' else ''false'')"
| "json_dumps level (JNum n) = str_int n"
| "json_dumps level (JStr s) = json_quote s"
| "json_dumps level (JArr vs) = json_block level (CHR ''['') (CHR '']'') (map (json_dumps (Suc level)) vs)"
| "json_dumps level (JObj kvs) =
     json_block level (CHR ''{'') (CHR ''}'')
       (map (\<lambda>(k, v). json_quote k @ '': '' @ json_dumps (Suc level) v) kvs)"

definition witness_json :: "witness_result \<Rightarrow> json" where
  "witness_json r =
     JObj [(''rc'', case wr_rc r of None \<Rightarrow> JNull | Some n \<Rightarrow> JNum n),
           (''stdout_excerpt'', JStr (wr_stdout_excerpt r)), (''stderr_excerpt'', JStr (wr_stderr_excerpt r)),
           (''runtime_ms'', JNum (wr_runtime_ms r)), (''classification'', JStr (wr_classification r)),
           (''note'', JStr (wr_note r))]"

text \<open>\<^verbatim>\<open>SubtaskExecutionMixin._run_scoped_witnesses\<close>: a failure of the runner gives no results.\<close>

definition scoped_witnesses :: "task_worker \<Rightarrow> subtask \<Rightarrow> (string \<times> witness_result) list wact" where
  "scoped_witnesses tw sub =
     (if st_behavior_evidence_advanced sub = [] then py_return []
      else py_bind
        (py_catch
           (py_bind (run_scoped_witnesses tw (st_behavior_evidence_advanced sub)) (\<lambda>rs. py_return (Some rs)))
           (\<lambda>_. py_return None)) (\<lambda>res.
        case res of
          None \<Rightarrow> py_return []
        | Some rs \<Rightarrow>
            py_then
              (py_catch
                 (artifact tw (''subtask_witness_results:'' @ st_id sub)
                    (take 20000 (json_dumps 0 (JObj (map (\<lambda>(i, r). (i, witness_json r)) rs)))))
                 (\<lambda>_. py_return ()))
              (py_return rs)))"

section \<open>Facts\<close>

lemma keeps_load_evidence [calls_keep]: "others_keep P tw \<Longrightarrow> wkeeps P (load_workspace_evidence tw)"
  unfolding load_workspace_evidence_def by (intro keeps_intros calls_keep)

lemma keeps_monotonic [keeps_intros]: "wkeeps P (monotonic tw)"
  unfolding monotonic_def by (rule keeps_read)

lemma keeps_run_witness [calls_keep]: "others_keep P tw \<Longrightarrow> wkeeps P (run_witness tw per deadline cmd)"
  unfolding run_witness_def Let_def by (intro keeps_intros calls_keep)

lemma keeps_witness_loop [calls_keep]: "others_keep P tw \<Longrightarrow> wkeeps P (witness_loop tw per deadline is rows rs)"
  by (induction tw per deadline "is" rows rs rule: witness_loop.induct)
    (auto intro!: keeps_intros calls_keep split: option.splits)

lemma keeps_scoped_witnesses [calls_keep]:
  "others_keep store_ok tw \<Longrightarrow> wkeeps store_ok (scoped_witnesses tw sub)"
  unfolding scoped_witnesses_def run_scoped_witnesses_def Let_def artifact_def
  by (intro keeps_intros calls_keep)

section \<open>The shape of the results\<close>

definition witness_shape :: "witness_result \<Rightarrow> bool" where
  "witness_shape r \<longleftrightarrow>
     (case wr_rc r of
        Some n \<Rightarrow> wr_classification r = (if n = 0 then ''OK'' else ''NONZERO_RC'')
      | None \<Rightarrow> wr_classification r \<in> {''TIMEOUT'', ''ERROR'', ''NO_COMMAND''}) \<and>
     length (wr_stdout_excerpt r) \<le> 4126 \<and> length (wr_stderr_excerpt r) \<le> 4126"

lemma excerpt_length: "length (excerpt t) \<le> 4126"
  by (simp add: excerpt_def nl_def)

lemma witness_shapes:
  "witness_shape (no_command_result i)" "witness_shape (failed_result cmd cap ms e)"
  "witness_shape (finished_result cmd ms r)"
  by (auto simp: witness_shape_def no_command_result_def failed_result_def finished_result_def Let_def excerpt_length
    split: prod.splits py_error.splits)

text \<open>What holds of the results so far holds with the next one: the ids done are those that have a row.\<close>

definition results_ok :: "string list \<Rightarrow> (string \<times> witness_result) list \<Rightarrow> bool" where
  "results_ok ids rs \<longleftrightarrow>
     distinct (map fst rs) \<and> set (map fst rs) = set ids \<and> list_all (\<lambda>(_, r). witness_shape r) rs"

lemma results_ok_update:
  assumes "results_ok ids rs" and "witness_shape r"
  shows "results_ok (ids @ [i]) (AList.update i r rs)"
proof -
  have "list_all (\<lambda>(_, r). witness_shape r) (AList.update i r rs)" if "list_all (\<lambda>(_, r). witness_shape r) rs"
    for rs :: "(string \<times> witness_result) list"
    using that assms(2) by (induction rs) auto
  with assms(1) show ?thesis by (auto simp: results_ok_def distinct_update update_keys)
qed

lemma yields_run_witness: "yields witness_shape (run_witness tw per deadline cmd)"
  unfolding run_witness_def Let_def
  by (intro bind_yields yields_return) (auto simp: witness_shapes split: sum.splits)

lemma yields_witness_loop:
  "results_ok done_ids rs \<Longrightarrow> yields (results_ok (done_ids @ is)) (witness_loop tw per deadline is rows rs)"
proof (induction tw per deadline "is" rows rs arbitrary: done_ids rule: witness_loop.induct)
  case (1 tw per deadline rows results)
  then show ?case by (simp add: yields_return)
next
  case (2 tw per deadline i "is" rows results)
  have run: "yields (results_ok (done_ids @ i # is))
      (py_bind (run_witness tw per deadline cmd) (\<lambda>r. witness_loop tw per deadline is vs (AList.update i r results)))"
    if "\<And>r. witness_shape r \<Longrightarrow> yields (results_ok ((done_ids @ [i]) @ is))
      (witness_loop tw per deadline is vs (AList.update i r results))" for cmd vs
    using that by (intro yields_bind [OF yields_run_witness]) simp
  note step = results_ok_update [OF 2(4)]
  show ?case
  proof (cases "evidence_id_to_command (tw_evidence tw) i")
    case (Some cmd)
    with run [OF 2(3) [OF Some step]] show ?thesis by simp
  next
    case None
    have "yields (results_ok (done_ids @ i # is))
      (case json_id_to_command vs i of
         Inl e \<Rightarrow> py_raise e
       | Inr None \<Rightarrow> witness_loop tw per deadline is (Some vs) (AList.update i (no_command_result i) results)
       | Inr (Some cmd) \<Rightarrow> py_bind (run_witness tw per deadline cmd) (\<lambda>r.
           witness_loop tw per deadline is (Some vs) (AList.update i r results)))" for vs
    proof (cases "json_id_to_command vs i")
      case (Inl e)
      then show ?thesis by (simp add: yields_def act_simps)
    next
      case (Inr c)
      show ?thesis
      proof (cases c)
        case None
        with 2(1) [OF \<open>evidence_id_to_command (tw_evidence tw) i = None\<close> Inr None step [OF witness_shapes(1)]] Inr
        show ?thesis by simp
      next
        case (Some cmd)
        with run [OF 2(2) [OF \<open>evidence_id_to_command (tw_evidence tw) i = None\<close> Inr Some step]] Inr
        show ?thesis by simp
      qed
    qed
    with None show ?thesis by (simp add: bind_yields)
  qed
qed


definition demo_witnesses :: "(py_error + (string \<times> witness_result) list) \<times> world" where
  "demo_witnesses =
     run_scoped_witnesses
       (demo_worker\<lparr>tw_evidence := [\<lparr>ev_id = Some ''B1'', ev_behavior_id = None, ev_kind = None, ev_description = None,
          ev_witnesses = [''just test''], ev_command = None, ev_witness_command = None\<rparr>]\<rparr>)
       [''B1'', ''B2'', ''B1''] (demo_world [])"


end
