(* ===== verification/SubtaskSteps.thy ===== *)
theory SubtaskSteps
  imports Witnesses
begin

text \<open>
  One attempt at a subtask: \<^verbatim>\<open>workers/subtask_execution.py\<close> (doer, checker, triage), \<^verbatim>\<open>workers/subtask_completion.py\<close>
  (commit gate, blocking) and \<^verbatim>\<open>workers/subtask_progress.py\<close>. Prompts and log headers are not represented, nor is what
  a command reads on its standard input.
\<close>

section \<open>Outcomes\<close>

record checker_outcome =
  ko_verdict :: verdict
  ko_checker_text :: string
  ko_transient :: bool
  ko_rc :: "int option"
  ko_stderr :: string
  ko_category :: string

datatype pass_outcome = Settled | Transient_retry | Pass_failed string

definition plain_outcome :: "verdict \<Rightarrow> string \<Rightarrow> checker_outcome" where
  "plain_outcome v msg =
     \<lparr>ko_verdict = v, ko_checker_text = msg, ko_transient = False, ko_rc = None, ko_stderr = [],
      ko_category = ''none''\<rparr>"

section \<open>The doer\<close>

definition run_doer_agent :: "task_worker \<Rightarrow> subtask \<Rightarrow> unit wact" where
  "run_doer_agent tw sub =
     py_bind (recorded_invoke tw ''subtask_doer'' ''subtask_doer'' (Some (st_id sub))) (\<lambda>r.
       let body = tail_of 20000 (ag_raw_text r)
       in py_then (py_modify (\<lambda>w. w\<lparr>wd_doer_summary := tail_of 2000 body\<rparr>))
            (artifact tw (''subtask_doer:'' @ st_id sub) body))"

definition status_part :: "int \<Rightarrow> string \<Rightarrow> string" where
  "status_part rc status = (if rc = 0 \<and> status \<noteq> [] then ''git status --porcelain:'' @ nl @ status @ nl else [])"

definition cut_lines :: "nat \<Rightarrow> string \<Rightarrow> string" where
  "cut_lines n out =
     (let lines = splitlines out
      in if n < length lines
         then join nl (take n lines @ [''... (diff truncated; '' @ str_nat (length lines - n) @ '' more lines)''])
         else out)"

definition diff_excerpt_text :: "int \<times> string \<Rightarrow> int \<times> string \<Rightarrow> string" where
  "diff_excerpt_text st un =
     (case (st, un) of ((rc1, status), (rc2, unified)) \<Rightarrow>
       if rc2 \<noteq> 0 \<or> unified = [] then status_part rc1 status
       else if rc1 = 0 \<and> status \<noteq> [] then status_part rc1 status @ nl @ cut_lines 1500 unified
       else cut_lines 1500 unified)"

definition compute_subtask_diff_excerpt :: "task_worker \<Rightarrow> string wact" where
  "compute_subtask_diff_excerpt tw =
     py_bind (py_catch (git_in_workspace tw [''status'', ''--porcelain'']) (\<lambda>_. py_return (- 1, []))) (\<lambda>st.
     py_bind
       (py_catch
          (py_bind (git_in_workspace tw [''diff'', ''HEAD'', ''--no-color'']) (\<lambda>un. py_return (Some un)))
          (\<lambda>_. py_return None)) (\<lambda>un.
       py_return (case un of None \<Rightarrow> [] | Some u \<Rightarrow> diff_excerpt_text st u)))"

definition cache_doer_state :: "task_worker \<Rightarrow> subtask \<Rightarrow> unit wact" where
  "cache_doer_state tw sub =
     py_bind (compute_subtask_diff_excerpt tw) (\<lambda>diff.
     py_then (py_modify (\<lambda>w. w\<lparr>wd_diff := diff\<rparr>))
     (py_bind (scoped_witnesses tw sub) (\<lambda>rs. py_modify (\<lambda>w. w\<lparr>wd_witness := rs\<rparr>))))"

definition do_subtask :: "task_worker \<Rightarrow> subtask \<Rightarrow> int \<Rightarrow> unit wact" where
  "do_subtask tw sub attempt =
     py_then (fsm_call tw enter_doing_subtask (Some (st_id sub @ '' attempt '' @ str_int attempt)) [])
     (py_then (on_store (update_subtask (tw_id tw) (st_id sub) [SF_state Sub_DOING]))
     (py_then (evaluation_contract tw)
     (py_then (run_doer_agent tw sub) (cache_doer_state tw sub))))"

section \<open>The checker\<close>

definition empty_diff_prefix :: string where
  "empty_diff_prefix = ''VERDICT: FAIL'' @ nl @ ''ROOT_CAUSE: doer produced no diff''"

definition no_op_done_prefix :: string where
  "no_op_done_prefix = ''VERDICT: PASS'' @ nl @ ''ROOT_CAUSE: subtask no-op DONE''"

definition cannot_reproduce_prefix :: string where
  "cannot_reproduce_prefix = ''VERDICT: FAIL'' @ nl @ ''ROOT_CAUSE: cannot reproduce CI failure locally''"

definition is_fixup_ci_subtask :: "subtask \<Rightarrow> bool" where
  "is_fixup_ci_subtask sub \<longleftrightarrow> st_kind sub \<in> {''fixup_ci'', ''fixup-ci''}"

text \<open>The two artifacts of a synthesized verdict.\<close>

definition synthesized :: "task_worker \<Rightarrow> subtask \<Rightarrow> verdict \<Rightarrow> string \<Rightarrow> string \<Rightarrow> string \<Rightarrow> checker_outcome wact" where
  "synthesized tw sub v msg kind detail =
     py_then (artifact tw (''subtask_checker:'' @ st_id sub) msg)
     (py_then (artifact tw (kind @ '':'' @ st_id sub) detail)
       (py_return (plain_outcome v msg)))"

definition classify_no_op_done_outcome :: "task_worker \<Rightarrow> subtask \<Rightarrow> checker_outcome wact" where
  "classify_no_op_done_outcome tw sub =
     synthesized tw sub PASS
       (no_op_done_prefix @ ''; objective gate green and scoped witnesses green on an empty diff. Subtask was '' @
        ''already satisfied by upstream commits.'')
       ''subtask_no_op_done'' ''subtask settled with no edits: gate + witnesses green on empty diff.''"

definition double_arrow :: string where
  "double_arrow = [char_of (226 :: nat), char_of (135 :: nat), char_of (146 :: nat)]"

definition classify_cannot_reproduce_outcome :: "task_worker \<Rightarrow> subtask \<Rightarrow> checker_outcome wact" where
  "classify_cannot_reproduce_outcome tw sub =
     synthesized tw sub FAIL
       (cannot_reproduce_prefix @ '' (Plan 53 environmental-drift signal). Doer ran the CI-fix recipe and produced no '' @
        ''diff while the local objective gate and scoped witnesses are green. GitHub CI must be diverging on '' @
        ''environment, not code. Operator action: investigate environmental drift '' @
        ''between the local container and the CI runner.'')
       ''subtask_cannot_reproduce''
       (''fixup_ci subtask: empty diff + green local gates '' @ double_arrow @ '' environmental drift.'')"

definition classify_empty_diff_outcome :: "task_worker \<Rightarrow> subtask \<Rightarrow> checker_outcome wact" where
  "classify_empty_diff_outcome tw sub =
     synthesized tw sub FAIL
       (empty_diff_prefix @ '' (transport-class failure). git status --porcelain returned 0 entries. '' @
        ''Skipping LLM checker; this is not a content-grading failure.'')
       ''subtask_empty_diff'' ''doer rc=0 but worktree had no edits (git status --porcelain empty).''"

definition classify_empty_diff_branch :: "task_worker \<Rightarrow> subtask \<Rightarrow> checker_outcome wact" where
  "classify_empty_diff_branch tw sub =
     py_bind (py_read wd_witness) (\<lambda>rs.
       if \<not> witnesses_all_passed rs then classify_empty_diff_outcome tw sub
       else if is_fixup_ci_subtask sub then classify_cannot_reproduce_outcome tw sub
       else classify_no_op_done_outcome tw sub)"

text \<open>Errors of an answer that is not the schema asked for.\<close>

definition schema_errors :: "string \<Rightarrow> string \<Rightarrow> agent_result \<Rightarrow> string list" where
  "schema_errors role expected r =
     (if ag_parse_errors r \<noteq> [] then ag_parse_errors r
      else case ag_structured r of
             None \<Rightarrow> []
           | Some v \<Rightarrow> [role @ '' returned unexpected schema '' @ schema_name v @ ''; expected '' @ expected])"

definition checker_parse_failure :: "task_worker \<Rightarrow> subtask \<Rightarrow> agent_result \<Rightarrow> checker_outcome wact" where
  "checker_parse_failure tw sub r =
     (let details = take 4000 (join ''; '' (schema_errors ''checker'' ''SubtaskCheckerOutput'' r));
          msg = ''VERDICT: FAIL'' @ nl @ ''ROOT_CAUSE: subtask checker output failed schema validation; '' @
            ''failure_layer=parse_failure.'' @ nl @ ''DETAILS:'' @ nl @ details
      in py_then (artifact tw (''subtask_checker:'' @ st_id sub) msg)
           (py_return \<lparr>ko_verdict = FAIL, ko_checker_text = msg, ko_transient = ag_transient r, ko_rc = Some (ag_rc r),
              ko_stderr = ag_stderr_excerpt r, ko_category = or_else (ag_category r) ''none''\<rparr>))"

definition checker_answer :: "task_worker \<Rightarrow> subtask \<Rightarrow> agent_result \<Rightarrow> checker_output \<Rightarrow> checker_outcome wact" where
  "checker_answer tw sub r out =
     (let msg = render_checker_output out
      in py_then (artifact tw (''subtask_checker:'' @ st_id sub) msg)
           (py_return \<lparr>ko_verdict = co_verdict out, ko_checker_text = msg,
              ko_transient = (ag_transient r \<or> (ag_rc r \<noteq> 0 \<and> ag_duration_s r < 5)), ko_rc = Some (ag_rc r),
              ko_stderr = ag_stderr_excerpt r, ko_category = or_else (ag_category r) ''none''\<rparr>))"

definition run_llm_subtask_checker :: "task_worker \<Rightarrow> subtask \<Rightarrow> checker_outcome wact" where
  "run_llm_subtask_checker tw sub =
     py_then (evaluation_contract tw)
     (py_bind (recorded_invoke tw ''subtask_checker'' ''subtask_checker'' (Some (st_id sub))) (\<lambda>r.
       case (ag_parse_errors r, ag_structured r) of
         ([], Some (S_checker out)) \<Rightarrow> checker_answer tw sub r out
       | _ \<Rightarrow> checker_parse_failure tw sub r))"

definition check_command :: "task_worker \<Rightarrow> subtask \<Rightarrow> string \<times> int" where
  "check_command tw sub =
     (if st_id sub = STABILIZATION_SUBTASK_ID
      then (strip (wc_local_ci_command (tw_cfg tw)), wc_local_ci_timeout_s (tw_cfg tw))
      else (strip (wc_subtask_check_command (tw_cfg tw)), wc_subtask_check_timeout_s (tw_cfg tw)))"

definition failed_check :: "string \<Rightarrow> run_result \<Rightarrow> checker_outcome" where
  "failed_check cmd r =
     (case r of (rc, out, err) \<Rightarrow>
       (let blob = out @ (if err \<noteq> [] then nl @ err else [])
        in \<lparr>ko_verdict = FAIL,
            ko_checker_text = ''VERDICT: FAIL'' @ nl @ ''ROOT_CAUSE: objective subtask check `'' @ cmd @ ''` failed (rc='' @
              str_int rc @ '')'' @ nl @ ''DETAILS:'' @ nl @ take 6000 blob,
            ko_transient = (is_transient_container_failure rc err \<or> is_transient_container_failure rc blob),
            ko_rc = Some rc, ko_stderr = err, ko_category = ''none''\<rparr>))"

definition run_subtask_check_command :: "task_worker \<Rightarrow> subtask \<Rightarrow> checker_outcome option wact" where
  "run_subtask_check_command tw sub =
     (case check_command tw sub of (cmd, timeout) \<Rightarrow>
       if cmd = [] then py_return None
       else py_bind
         (catch_run_error
            (py_bind (exec_in tw (bash (''cd /workspace && '' @ cmd)) (Some timeout)) (\<lambda>r. py_return (Inr r)))
            (\<lambda>e. py_return (Inl e))) (\<lambda>res.
         case res of
           Inl e \<Rightarrow> py_return (Some
             \<lparr>ko_verdict = FAIL, ko_checker_text = ''subtask check command raised: '' @ err_text e, ko_transient = True,
              ko_rc = Some 124, ko_stderr = err_text e, ko_category = ''none''\<rparr>)
         | Inr (rc, out, err) \<Rightarrow>
             if rc = 0 then py_return None
             else py_then
               (artifact tw (''subtask_objective_check:'' @ st_id sub)
                  (take 20000 (out @ (if err \<noteq> [] then nl @ err else []))))
               (py_return (Some (failed_check cmd (rc, out, err))))))"

definition check_subtask :: "task_worker \<Rightarrow> subtask \<Rightarrow> checker_outcome wact" where
  "check_subtask tw sub =
     py_then (fsm_call tw enter_checking_subtask (Some (st_id sub)) [])
     (py_then (on_store (update_subtask (tw_id tw) (st_id sub) [SF_state Sub_CHECKING]))
     (py_bind (run_subtask_check_command tw sub) (\<lambda>gate. case gate of
        Some oc \<Rightarrow> py_return oc
      | None \<Rightarrow>
          py_bind (py_read wd_diff) (\<lambda>diff.
            if diff = [] then classify_empty_diff_branch tw sub else run_llm_subtask_checker tw sub))))"

section \<open>Triage\<close>

definition triage_subtask :: "task_worker \<Rightarrow> subtask \<Rightarrow> (string \<times> string option) wact" where
  "triage_subtask tw sub =
     py_then (evaluation_contract tw)
     (py_bind (recorded_invoke tw ''subtask_triage'' ''subtask_triage'' (Some (st_id sub))) (\<lambda>r.
       let keep = (\<lambda>msg layer. py_then (artifact tw (''subtask_triage:'' @ st_id sub) msg) (py_return (msg, layer)))
       in if ag_rc r \<noteq> 0 \<or> ag_transient r
          then keep (''TRIAGE TRANSPORT FAILURE'' @ nl @ ''failure_layer: transport'' @ nl @
                 ''root_cause: triage agent transport failed before producing structured guidance'' @ nl @
                 ''details: rc='' @ str_int (ag_rc r) @ ''; '' @ take 1000 (ag_stderr_excerpt r)) None
          else case (ag_parse_errors r, ag_structured r) of
                 ([], Some (S_triage out)) \<Rightarrow> keep (render_triage_output out) (Some (layer_value (to_failure_layer out)))
               | _ \<Rightarrow> keep (''TRIAGE PARSE FAILURE'' @ nl @ ''failure_layer: parse_failure'' @ nl @
                   ''root_cause: triage agent output failed schema validation'' @ nl @ ''details: '' @
                   take 1000 (join ''; '' (schema_errors ''triage'' ''SubtaskTriageOutput'' r))) None))"

section \<open>Passing\<close>

definition mark_subtask_done :: "task_worker \<Rightarrow> subtask \<Rightarrow> unit wact" where
  "mark_subtask_done tw sub = on_store (update_subtask (tw_id tw) (st_id sub) [SF_state Sub_DONE])"

definition detect_pre_commit_runner :: "task_worker \<Rightarrow> string option wact" where
  "detect_pre_commit_runner tw =
     py_bind (exec_in tw (bash ''test -f /workspace/lefthook.yml || test -f /workspace/lefthook.yaml'') (Some 10))
       (\<lambda>(rc, _). if rc = 0 then py_return (Some ''lefthook'')
          else py_bind (exec_in tw (bash ''test -f /workspace/.pre-commit-config.yaml'') (Some 10)) (\<lambda>(rc2, _).
            py_return (if rc2 = 0 then Some ''pre-commit'' else None)))"

definition run_hook :: "task_worker \<Rightarrow> string \<Rightarrow> (bool \<times> string) wact" where
  "run_hook tw cmd =
     (let timeout = wc_pre_commit_timeout_s (tw_cfg tw)
      in py_catch
           (py_bind (exec_in tw (bash cmd) (Some timeout)) (\<lambda>(rc, out, err).
              py_return (rc = 0, out @ (if err \<noteq> [] then nl @ err else []))))
           (\<lambda>e. case e of
              TimeoutExpired _ \<Rightarrow> py_return (False, ''pre-commit timed out after '' @ str_int timeout @ ''s'')
            | _ \<Rightarrow> py_raise e))"

definition run_pre_commit :: "task_worker \<Rightarrow> subtask \<Rightarrow> string \<Rightarrow> (bool \<times> string) wact" where
  "run_pre_commit tw sub runner =
     (if runner = ''lefthook''
      then run_hook tw ''cd /workspace && lefthook run pre-commit --files-from-stdin''
      else if runner = ''pre-commit''
      then run_hook tw (''cd /workspace && pre-commit run --files '' @ join '' '' (map shell_quote (st_files_to_touch sub)))
      else py_return (True, ''unknown runner '' @ py_repr runner @ ''; skipped''))"

definition pre_commit_gate :: "task_worker \<Rightarrow> subtask \<Rightarrow> (bool \<times> string) wact" where
  "pre_commit_gate tw sub =
     (let runner = wc_pre_commit_runner (tw_cfg tw)
      in if runner = ''none'' \<or> st_files_to_touch sub = [] then py_return (True, ''skipped'')
         else if runner = ''auto''
         then py_bind (detect_pre_commit_runner tw) (\<lambda>r. case r of
                None \<Rightarrow> py_return (True, ''no hook configured'')
              | Some found \<Rightarrow> run_pre_commit tw sub found)
         else run_pre_commit tw sub runner)"

definition accepted_update :: "subtask \<Rightarrow> commit_result \<Rightarrow> subtask_field list" where
  "accepted_update sub r =
     (if cr_accepted_files r \<noteq> [] \<and> set (cr_accepted_files r) \<noteq> set (st_files_to_touch sub)
      then [SF_accepted_files (Some (join '','' (cr_accepted_files r)))] else [])"

definition commit_passed :: "task_worker \<Rightarrow> subtask \<Rightarrow> pass_outcome wact" where
  "commit_passed tw sub =
     py_bind (the_row tw) (\<lambda>row.
     py_bind (commit_subtask tw sub (''subtask('' @ st_id sub @ ''): '' @ st_title sub) (str_col (t_branch row))
                (wc_pr_remote (tw_cfg tw))) (\<lambda>r.
       if cr_success r
       then py_then (on_store (update_subtask (tw_id tw) (st_id sub) (SF_commit_sha (cr_commit_sha r) # accepted_update sub r)))
              (py_then (mark_subtask_done tw sub) (py_return Settled))
       else if cr_transient r
       then py_then (on_store (increment_subtask_transient_retries (tw_id tw) (st_id sub))) (py_return Transient_retry)
       else py_return (Pass_failed (''VERDICT: FAIL'' @ nl @ ''ROOT_CAUSE: commit/push failed'' @ nl @ ''DETAILS:'' @ nl @
              take 4000 (cr_output r)))))"

definition handle_subtask_pass :: "task_worker \<Rightarrow> subtask \<Rightarrow> string \<Rightarrow> pass_outcome wact" where
  "handle_subtask_pass tw sub checker_text =
     (if starts_with no_op_done_prefix checker_text
      then py_then (mark_subtask_done tw sub) (py_return Settled)
      else py_bind (pre_commit_gate tw sub) (\<lambda>(ok, out).
        if ok then commit_passed tw sub
        else py_then (on_store (increment_subtask_pre_commit_failures (tw_id tw) (st_id sub)))
               (py_return (Pass_failed (''VERDICT: FAIL'' @ nl @ ''ROOT_CAUSE: pre-commit hook failed'' @ nl @ ''DETAILS:'' @
                  nl @ take 4000 out)))))"

section \<open>Progress\<close>

definition recent_attempt_history :: "ident \<Rightarrow> string \<Rightarrow> nat \<Rightarrow> db \<Rightarrow> (nat \<times> string \<times> string) list" where
  "recent_attempt_history tid sid n d =
     (let outputs = recent_subtask_checker_outputs tid sid n d;
          triage = opt_text (Option.bind (get_subtask tid sid d) s_triage_notes);
          total = length outputs
      in map (\<lambda>(i, out). (Suc i, extract_root_cause out,
                if Suc i = total then triage else ''(earlier triage notes not retained)''))
           (zip [0 ..< total] outputs))"

definition run_progress_check :: "task_worker \<Rightarrow> subtask \<Rightarrow> int \<Rightarrow> worker_verdict wact" where
  "run_progress_check tw sub attempt =
     py_then the_handle
     (py_bind
       (py_catch
          (py_bind (outside tw (Agent ''progress'' 180) (\<lambda>n. tw_agent tw n ''progress'')) (\<lambda>r.
             py_return (progress_of (Inr r))))
          (\<lambda>e. py_return (progress_of (Inl e)))) (\<lambda>(v, rationale).
       py_then
         (on_store (record_progress_check (tw_id tw) (st_id sub) attempt (worker_verdict_value v) (Some rationale)))
         (py_return v)))"

section \<open>Blocking\<close>

definition blocked_comment :: "task_worker \<Rightarrow> subtask \<Rightarrow> string \<Rightarrow> (nat \<times> string \<times> string) list \<Rightarrow> string \<Rightarrow> string" where
  "blocked_comment tw sub reason attempts wt =
     ''## Blocked at '' @ st_id sub @ nl @ nl @ ''Reason: '' @ reason @
     (if attempts = [] then []
      else nl @ nl @ ''Last '' @ str_nat (length attempts) @ '' attempts:'' @ nl @
        join nl (map (\<lambda>(n, rc, _). ''- attempt '' @ str_nat n @ '': '' @
          take 300 (strip (or_else rc ''(no checker output captured)''))) attempts)) @
     nl @ nl @ ''To unblock, choose one:'' @ nl @
     ''1. **Push fixes to this branch directly.** Daemon detects new commits and resumes from '' @ st_id sub @ ''.'' @ nl @
     ''2. **Reply with guidance** as a review comment on this PR. Daemon picks it up via the review loop.'' @ nl @
     ''3. **Locally**: `quikode unblock '' @ tw_id tw @ ''` (opens worktree at '' @ wt @ '') then `quikode resume '' @
     tw_id tw @ ''`.'' @ nl"

definition subprocess_error :: "py_error \<Rightarrow> bool" where
  "subprocess_error e = (case e of CalledProcessError _ \<Rightarrow> True | _ \<Rightarrow> run_error e)"

definition try_host :: "task_worker \<Rightarrow> string list \<Rightarrow> unit wact" where
  "try_host tw argv =
     py_catch (py_then (host_run tw argv) (py_return ()))
       (\<lambda>e. if subprocess_error e then py_return () else py_raise e)"

definition post_blocked_pr_comment :: "task_worker \<Rightarrow> subtask \<Rightarrow> string \<Rightarrow> unit wact" where
  "post_blocked_pr_comment tw sub reason =
     py_bind (store_read (\<lambda>d. (find_task (tw_id tw) d, recent_attempt_history (tw_id tw) (st_id sub) 3 d)))
       (\<lambda>(row, attempts).
          let draft = nonzero_number (Option.bind row t_draft_pr_number);
              number = (if draft \<noteq> None then draft else nonzero_number (Option.bind row t_pr_number));
              wt = or_else (opt_text (Option.bind row t_worktree_path)) ''(unknown - see `quikode show`)''
          in case number of
               None \<Rightarrow> py_return ()
             | Some n \<Rightarrow>
                 py_then (try_host tw [''gh'', ''pr'', ''comment'', str_int n, ''--body'',
                            blocked_comment tw sub reason attempts wt])
                   (try_host tw [''gh'', ''pr'', ''edit'', str_int n, ''--add-label'', ''quikode:blocked'']))"

definition mark_subtask_blocked :: "task_worker \<Rightarrow> subtask \<Rightarrow> string \<Rightarrow> unit wact" where
  "mark_subtask_blocked tw sub reason =
     py_then (on_store (update_subtask (tw_id tw) (st_id sub) [SF_state Sub_BLOCKED, SF_last_error (Some reason)]))
       (py_catch (post_blocked_pr_comment tw sub reason) (\<lambda>_. py_return ()))"

definition mark_subtask_pending_after_block :: "task_worker \<Rightarrow> subtask \<Rightarrow> string \<Rightarrow> unit wact" where
  "mark_subtask_pending_after_block tw sub reason =
     on_store (update_subtask (tw_id tw) (st_id sub) [SF_state Sub_PENDING, SF_last_error (Some reason)])"

text \<open>Every subtask with the id of the blocked one only sets the marker, those behind the first such are looked at.\<close>

fun after_marker :: "string \<Rightarrow> bool \<Rightarrow> subtask list \<Rightarrow> subtask list" where
  "after_marker i seen [] = []"
| "after_marker i seen (s # ss) =
     (if st_id s = i then after_marker i True ss
      else if seen then s # after_marker i seen ss else after_marker i seen ss)"

definition mark_remaining_pending_after_block :: "task_worker \<Rightarrow> string \<Rightarrow> subtask list \<Rightarrow> unit wact" where
  "mark_remaining_pending_after_block tw i subs =
     py_then
       (py_for (after_marker i False subs) (\<lambda>s.
          py_bind (store_read (get_subtask (tw_id tw) (st_id s))) (\<lambda>row.
            if map_option s_state row = Some Sub_PENDING
            then mark_subtask_pending_after_block tw s (''upstream subtask '' @ i @ '' blocked'')
            else py_return ())))
       (py_return ())"

section \<open>Facts\<close>

lemma keeps_synthesized [keeps_intros]: "wkeeps store_ok (synthesized tw sub v msg kind detail)"
  unfolding synthesized_def artifact_def by (intro keeps_intros)

lemma keeps_answers [keeps_intros]:
  "wkeeps store_ok (checker_parse_failure tw sub r)" "wkeeps store_ok (checker_answer tw sub r out)"
  "wkeeps store_ok (mark_subtask_done tw sub)" "wkeeps store_ok (mark_subtask_pending_after_block tw sub reason)"
  "wkeeps store_ok (mark_remaining_pending_after_block tw i subs)"
  unfolding checker_parse_failure_def checker_answer_def mark_subtask_done_def mark_subtask_pending_after_block_def
    mark_remaining_pending_after_block_def Let_def artifact_def
  by (intro keeps_intros)+

lemma keeps_empty_branch [keeps_intros]: "wkeeps store_ok (classify_empty_diff_branch tw sub)"
  unfolding classify_empty_diff_branch_def classify_empty_diff_outcome_def classify_cannot_reproduce_outcome_def
    classify_no_op_done_outcome_def
  by (intro keeps_intros)

text \<open>An answer of the schema asked for, or something else.\<close>

lemma keeps_schema_cases [keeps_intros]:
  assumes "\<And>out. keeps P (k out)" and "keeps P m"
  shows "keeps P (case (es, v) of ([], Some (S_checker out)) \<Rightarrow> k out | _ \<Rightarrow> m)"
  using assms by (simp split: list.splits option.splits structured.splits)

lemma keeps_triage_cases [keeps_intros]:
  assumes "\<And>out. keeps P (k out)" and "keeps P m"
  shows "keeps P (case (es, v) of ([], Some (S_triage out)) \<Rightarrow> k out | _ \<Rightarrow> m)"
  using assms by (simp split: list.splits option.splits structured.splits)

lemma keeps_doer [calls_keep]:
  assumes "others_keep store_ok tw"
  shows "wkeeps store_ok (compute_subtask_diff_excerpt tw)" and "wkeeps store_ok (run_doer_agent tw sub)"
    and "wkeeps store_ok (cache_doer_state tw sub)" and "wkeeps store_ok (do_subtask tw sub n)"
proof -
  show diff: "wkeeps store_ok (compute_subtask_diff_excerpt tw)"
    unfolding compute_subtask_diff_excerpt_def by (intro keeps_intros calls_keep assms)
  show doer: "wkeeps store_ok (run_doer_agent tw sub)"
    unfolding run_doer_agent_def Let_def artifact_def
    by (intro keeps_intros calls_keep keeps_field_update assms) simp
  show cache: "wkeeps store_ok (cache_doer_state tw sub)"
    unfolding cache_doer_state_def by (intro keeps_intros calls_keep keeps_field_update diff assms) simp_all
  show "wkeeps store_ok (do_subtask tw sub n)"
    unfolding do_subtask_def by (intro keeps_intros calls_keep doer cache assms)
qed

lemma keeps_checker [calls_keep]:
  assumes "others_keep store_ok tw"
  shows "wkeeps store_ok (run_llm_subtask_checker tw sub)" and "wkeeps store_ok (run_subtask_check_command tw sub)"
    and "wkeeps store_ok (check_subtask tw sub)" and "wkeeps store_ok (triage_subtask tw sub)"
proof -
  show llm: "wkeeps store_ok (run_llm_subtask_checker tw sub)"
    unfolding run_llm_subtask_checker_def by (intro keeps_intros calls_keep assms)
  show gate: "wkeeps store_ok (run_subtask_check_command tw sub)"
    unfolding run_subtask_check_command_def Let_def artifact_def by (intro keeps_intros calls_keep assms)
  show "wkeeps store_ok (check_subtask tw sub)"
    unfolding check_subtask_def by (intro keeps_intros calls_keep llm gate assms)
  show "wkeeps store_ok (triage_subtask tw sub)"
    unfolding triage_subtask_def Let_def artifact_def by (intro keeps_intros calls_keep assms)
qed

lemma keeps_hooks [calls_keep]:
  assumes "others_keep P tw"
  shows "wkeeps P (detect_pre_commit_runner tw)" and "wkeeps P (run_hook tw cmd)"
    and "wkeeps P (run_pre_commit tw sub runner)" and "wkeeps P (pre_commit_gate tw sub)" and "wkeeps P (try_host tw argv)"
proof -
  show detect: "wkeeps P (detect_pre_commit_runner tw)"
    unfolding detect_pre_commit_runner_def by (intro keeps_intros calls_keep assms)
  show hook: "wkeeps P (run_hook tw cmd)" for cmd
    unfolding run_hook_def Let_def
    by (intro keeps_intros calls_keep assms) (auto split: py_error.splits intro!: keeps_intros)
  show pre: "wkeeps P (run_pre_commit tw sub runner)" for runner
    unfolding run_pre_commit_def by (intro keeps_intros hook)
  show "wkeeps P (pre_commit_gate tw sub)"
    unfolding pre_commit_gate_def Let_def by (intro keeps_intros detect pre)
  show "wkeeps P (try_host tw argv)"
    unfolding try_host_def by (intro keeps_intros calls_keep assms)
qed

lemma keeps_passing [calls_keep]:
  assumes "others_keep store_ok tw"
  shows "wkeeps store_ok (commit_passed tw sub)" and "wkeeps store_ok (handle_subtask_pass tw sub msg)"
    and "wkeeps store_ok (run_progress_check tw sub n)" and "wkeeps store_ok (post_blocked_pr_comment tw sub reason)"
    and "wkeeps store_ok (mark_subtask_blocked tw sub reason)"
proof -
  show commit: "wkeeps store_ok (commit_passed tw sub)"
    unfolding commit_passed_def by (intro keeps_intros calls_keep assms)
  show "wkeeps store_ok (handle_subtask_pass tw sub msg)"
    unfolding handle_subtask_pass_def by (intro keeps_intros calls_keep commit assms)
  show "wkeeps store_ok (run_progress_check tw sub n)"
    unfolding run_progress_check_def by (intro keeps_intros calls_keep assms)
  show comment: "wkeeps store_ok (post_blocked_pr_comment tw sub reason)"
    unfolding post_blocked_pr_comment_def Let_def by (intro keeps_intros calls_keep assms)
  show "wkeeps store_ok (mark_subtask_blocked tw sub reason)"
    unfolding mark_subtask_blocked_def by (intro keeps_intros comment)
qed

end
