(* ===== verification/SubtaskLoop.thy ===== *)
theory SubtaskLoop
  imports SubtaskSteps
begin

text \<open>
  The subtask loop, \<^verbatim>\<open>workers/subtasks.py\<close>: the attempts at one subtask with their retries and stop-losses, the set of
  subtasks in order, and the leftovers of an earlier fixup round. The attempt loop is the only \<^verbatim>\<open>while\<close>; it is a
  \<open>p_loop\<close>, because a push that stays transient repeats an attempt without counting it.
\<close>

section \<open>After a passing check\<close>

datatype pass_step = Step_settled | Step_retry | Step_failed string

definition handle_passed_subtask :: "task_worker \<Rightarrow> subtask \<Rightarrow> string \<Rightarrow> pass_step wact" where
  "handle_passed_subtask tw sub checker_text =
     py_bind (handle_subtask_pass tw sub checker_text) (\<lambda>p. case p of
       Settled \<Rightarrow>
         py_then (fsm_call tw enter_committing (Some (st_id sub @ '' passed'')) [])
         (py_then (fsm_call tw enter_pushing (Some (st_id sub @ '' committed and pushed'')) [])
           (py_return Step_settled))
     | Transient_retry \<Rightarrow>
         py_then (fsm_call tw enter_triaging_subtask (Some (st_id sub @ '' transient commit/push failure'')) [])
           (py_return Step_retry)
     | Pass_failed msg \<Rightarrow> py_return (Step_failed msg))"

section \<open>After a failing one\<close>

definition append_reason ::
  "task_worker \<Rightarrow> subtask \<Rightarrow> int \<Rightarrow> checker_outcome \<Rightarrow> bool \<Rightarrow> string option \<Rightarrow> unit wact" where
  "append_reason tw sub attempt oc transient layer =
     (case classify_retry (ko_rc oc) (ko_stderr oc) (ko_checker_text oc) (Some ''checker'') (Some (ko_verdict oc)) layer of
        (cat, sig) \<Rightarrow>
          on_store (append_retry_reason (tw_id tw) (st_id sub) attempt cat sig transient))"

text \<open>The counter of consecutive transients, and the reason to block when it is over its cap.\<close>

definition record_transient_subtask_failure ::
  "task_worker \<Rightarrow> subtask \<Rightarrow> int \<Rightarrow> checker_outcome \<Rightarrow> int \<Rightarrow> (int \<times> string option) wact" where
  "record_transient_subtask_failure tw sub attempt oc n =
     (let cap = wc_transient_max_retries (tw_cfg tw)
      in if cap < n + 1
         then py_return (n + 1, Some (''subtask transient checker failures exceeded cap ('' @ str_int cap @ '')''))
         else py_then (on_store (increment_subtask_transient_retries (tw_id tw) (st_id sub)))
           (py_then (append_reason tw sub attempt oc True None)
           (py_then (fsm_call tw enter_triaging_subtask (Some (st_id sub @ '' transient checker failure'')) [])
           (py_then
             (sleep tw (1000 * get_default (map_of (wc_transient_delays (tw_cfg tw)) (or_else (ko_category oc) ''none'')) 15))
             (py_return (n + 1, None))))))"

definition empty_diff_triage :: string where
  "empty_diff_triage =
     ''TRIAGE TRANSPORT FAILURE'' @ nl @ ''failure_layer: transport'' @ nl @
     ''root_cause: doer produced no diff (empty git status). Transport-class failure; no LLM triage call needed.''"

definition cannot_reproduce_triage :: string where
  "cannot_reproduce_triage =
     ''TRIAGE CANNOT_REPRODUCE'' @ nl @ ''failure_layer: cannot_reproduce'' @ nl @
     ''root_cause: GitHub CI failed but the local container'' @ quote1 @
     ''s objective gate and scoped witnesses are green on an '' @
     ''empty diff. Likely environmental drift (cached intermediate artifacts, pinned-version divergence, or '' @
     ''missing checked-in generated file). No LLM triage call needed; operator should investigate the '' @
     ''environmental delta.''"

definition triage_of :: "task_worker \<Rightarrow> subtask \<Rightarrow> string \<Rightarrow> (string \<times> string option) wact" where
  "triage_of tw sub checker_text =
     (if starts_with empty_diff_prefix checker_text
      then py_then (artifact tw (''subtask_triage:'' @ st_id sub) empty_diff_triage)
             (py_return (empty_diff_triage, Some ''transport''))
      else if starts_with cannot_reproduce_prefix checker_text
      then py_then (artifact tw (''subtask_triage:'' @ st_id sub) cannot_reproduce_triage)
             (py_return (cannot_reproduce_triage, Some ''cannot_reproduce''))
      else triage_subtask tw sub)"

definition record_subtask_triage :: "task_worker \<Rightarrow> subtask \<Rightarrow> int \<Rightarrow> string \<Rightarrow> checker_outcome \<Rightarrow> unit wact" where
  "record_subtask_triage tw sub attempt checker_text oc =
     py_then (fsm_call tw enter_triaging_subtask (Some (st_id sub @ '' attempt '' @ str_int attempt @ '' failed'')) [])
     (py_bind (triage_of tw sub checker_text) (\<lambda>(notes, layer).
       py_then
         (on_store (update_subtask (tw_id tw) (st_id sub) [SF_triage_notes (Some notes), SF_state Sub_TRIAGING]))
       (py_then (on_store (increment_subtask_retries (tw_id tw) (st_id sub)))
         (append_reason tw sub attempt oc False layer))))"

definition signature_stop_loss :: "worker_cfg \<Rightarrow> string \<Rightarrow> (string \<times> string) list \<Rightarrow> string option" where
  "signature_stop_loss cfg sid sigs =
     (let cr = wc_cannot_reproduce_count cfg; tr = wc_transport_count cfg; ss = wc_same_signature_count cfg
      in case maybe_cannot_reproduce_stop_loss sid (take cr sigs) cr of
           Some b \<Rightarrow> Some b
         | None \<Rightarrow>
             (case maybe_transport_stop_loss (take tr sigs) tr of
                Some b \<Rightarrow> Some b
              | None \<Rightarrow> maybe_same_signature_stop_loss (take ss sigs) ss))"

definition maybe_signature_stop_loss :: "task_worker \<Rightarrow> subtask \<Rightarrow> string option wact" where
  "maybe_signature_stop_loss tw sub =
     (let cfg = tw_cfg tw;
          limit = max (wc_cannot_reproduce_count cfg) (max (wc_transport_count cfg) (wc_same_signature_count cfg))
      in py_bind (store_read (last_n_retry_signatures (tw_id tw) (st_id sub) limit)) (\<lambda>sigs.
           py_return (signature_stop_loss cfg (st_id sub) sigs)))"

definition maybe_record_progress_block :: "task_worker \<Rightarrow> subtask \<Rightarrow> int \<Rightarrow> string option wact" where
  "maybe_record_progress_block tw sub attempt =
     (if \<not> should_run_progress_check (wc_progress_after (tw_cfg tw)) (wc_progress_every (tw_cfg tw)) attempt
      then py_return None
      else py_bind (run_progress_check tw sub attempt) (\<lambda>v.
        if v \<noteq> W_flatlined
        then py_then (on_store (reset_subtask_flatline_count (tw_id tw) (st_id sub))) (py_return None)
        else py_bind (on_store (increment_subtask_flatline_count (tw_id tw) (st_id sub))) (\<lambda>n.
          py_return
            (if wc_flatline_block_count (tw_cfg tw) \<le> n
             then Some (''progress check flatlined '' @ str_int n @ '' consecutive times'') else None))))"

section \<open>The attempt loop\<close>

record attempt_state =
  at_attempt :: int
  at_transients :: int
  at_reprovisions :: int

text \<open>\<^verbatim>\<open>(settled, block_reason)\<close>.\<close>

type_synonym settlement = "bool \<times> string option"

definition ensure_container :: "task_worker \<Rightarrow> bool wact" where
  "ensure_container tw =
     py_catch
       (py_then the_handle
         (py_bind (existing_worktree_path tw) (\<lambda>_. outside tw Ensure_running (tw_ensure tw))))
       (\<lambda>_. py_return False)"

definition after_failure ::
  "task_worker \<Rightarrow> subtask \<Rightarrow> int \<Rightarrow> string \<Rightarrow> checker_outcome \<Rightarrow> string option wact" where
  "after_failure tw sub attempt checker_text oc =
     py_then (record_subtask_triage tw sub attempt checker_text oc)
     (py_bind (maybe_signature_stop_loss tw sub) (\<lambda>b. case b of
        Some reason \<Rightarrow> py_return (Some reason)
      | None \<Rightarrow> maybe_record_progress_block tw sub attempt))"

text \<open>One turn of the loop: \<^const>\<open>Inl\<close> the state it goes on with, \<^const>\<open>Inr\<close> what it leaves with.\<close>

definition failed_turn ::
  "task_worker \<Rightarrow> subtask \<Rightarrow> int \<Rightarrow> int \<Rightarrow> string \<Rightarrow> checker_outcome \<Rightarrow> (attempt_state + settlement) wact" where
  "failed_turn tw sub attempt reprovisions checker_text oc =
     py_bind (after_failure tw sub attempt checker_text oc) (\<lambda>b. py_return (case b of
       Some reason \<Rightarrow> Inr (False, Some reason)
     | None \<Rightarrow> Inl \<lparr>at_attempt = attempt, at_transients = 0, at_reprovisions = reprovisions\<rparr>))"

definition judge_attempt ::
  "task_worker \<Rightarrow> subtask \<Rightarrow> int \<Rightarrow> int \<Rightarrow> int \<Rightarrow> checker_outcome \<Rightarrow> (attempt_state + settlement) wact" where
  "judge_attempt tw sub attempt transients reprovisions oc =
     (if ko_transient oc
      then py_bind (record_transient_subtask_failure tw sub attempt oc transients) (\<lambda>(n, capped). py_return (case capped of
             Some reason \<Rightarrow> Inr (False, Some reason)
           | None \<Rightarrow> Inl \<lparr>at_attempt = attempt - 1, at_transients = n, at_reprovisions = reprovisions\<rparr>))
      else if ko_verdict oc = PASS
      then py_bind (handle_passed_subtask tw sub (ko_checker_text oc)) (\<lambda>p. case p of
             Step_settled \<Rightarrow> py_return (Inr (True, None))
           | Step_retry \<Rightarrow>
               py_return (Inl \<lparr>at_attempt = attempt - 1, at_transients = 0, at_reprovisions = reprovisions\<rparr>)
           | Step_failed msg \<Rightarrow> failed_turn tw sub attempt reprovisions msg oc)
      else failed_turn tw sub attempt reprovisions (ko_checker_text oc) oc)"

definition attempt_turn ::
  "task_worker \<Rightarrow> subtask \<Rightarrow> int \<Rightarrow> attempt_state \<Rightarrow> (attempt_state + settlement) wact" where
  "attempt_turn tw sub hard_max s =
     (if \<not> at_attempt s < hard_max then py_return (Inr (False, None))
      else py_bind (ensure_container tw) (\<lambda>recreated.
        let reprovisions = (if recreated then at_reprovisions s + 1 else 0)
        in if 3 < reprovisions
           then py_return (Inr (False, Some (''subtask '' @ st_id sub @
             '': dev container recreation failed 3 consecutive times; aborting attempt loop'')))
           else
             let attempt = at_attempt s + 1
             in py_then (fsm_call tw enter_doing_subtask (Some (st_id sub @ '' attempt '' @ str_int attempt)) [])
               (py_then (do_subtask tw sub attempt)
               (py_then (fsm_call tw enter_checking_subtask (Some (st_id sub)) [])
               (py_bind (check_subtask tw sub) (\<lambda>oc.
                 judge_attempt tw sub attempt (at_transients s) reprovisions oc))))))"

definition attempt_subtask_until_settled :: "task_worker \<Rightarrow> subtask \<Rightarrow> int \<Rightarrow> subtask_row option \<Rightarrow> settlement proc" where
  "attempt_subtask_until_settled tw sub hard_max row =
     p_loop (\<lambda>s. p_act (attempt_turn tw sub hard_max s))
       \<lparr>at_attempt = or0 (Option.bind row s_retries), at_transients = 0, at_reprovisions = 0\<rparr>"

section \<open>The set of subtasks\<close>

definition subtask_boundary_checks :: "task_worker \<Rightarrow> worker_outcome option wact" where
  "subtask_boundary_checks tw =
     py_bind (handle_parent_rebase tw) (\<lambda>oc. case oc of
       Some x \<Rightarrow> py_return (Some x)
     | None \<Rightarrow> handle_branch_divergence tw)"

text \<open>
  \<^verbatim>\<open>_maybe_yield_at_boundary\<close> compares priorities and logs; every one of its branches returns None and none writes.
\<close>

definition maybe_yield_at_boundary :: "task_worker \<Rightarrow> worker_outcome option wact" where
  "maybe_yield_at_boundary tw = py_return None"

definition block_subtask_set ::
  "task_worker \<Rightarrow> subtask \<Rightarrow> subtask list \<Rightarrow> string option \<Rightarrow> int \<Rightarrow> worker_outcome wact" where
  "block_subtask_set tw sub subs reason hard_max =
     (let reason_text = or_else (opt_text reason) (''exhausted hard ceiling of '' @ str_int hard_max @ '' attempts'');
          msg = ''subtask '' @ st_id sub @ '' blocked: '' @ reason_text @ ''; remaining subtasks held pending.''
      in py_then (mark_subtask_blocked tw sub reason_text)
        (py_then (mark_remaining_pending_after_block tw (st_id sub) subs)
        (py_then (fsm_call tw block_current (Some msg) [F_last_error (Some (take 1000 msg))])
          (py_return (outcome BLOCKED msg)))))"

definition run_one_subtask :: "task_worker \<Rightarrow> subtask list \<Rightarrow> subtask \<Rightarrow> worker_outcome option proc" where
  "run_one_subtask tw subs sub =
     (let hard_max = wc_hard_max_attempts (tw_cfg tw)
      in p_bind (p_act (subtask_boundary_checks tw)) (\<lambda>boundary. case boundary of
           Some x \<Rightarrow> p_return (Some x)
         | None \<Rightarrow>
             p_bind (p_act (store_read (get_subtask (tw_id tw) (st_id sub)))) (\<lambda>row.
               if map_option s_state row = Some Sub_DONE then p_return None
               else p_then
                 (if map_option s_state row = Some Sub_SKIPPED
                  then p_act (on_store (update_subtask (tw_id tw) (st_id sub) [SF_state Sub_PENDING]))
                  else p_return ())
                 (p_bind (p_act (maybe_yield_at_boundary tw)) (\<lambda>yielded. case yielded of
                    Some x \<Rightarrow> p_return (Some x)
                  | None \<Rightarrow>
                      p_bind (attempt_subtask_until_settled tw sub hard_max row) (\<lambda>(settled, reason).
                        if settled then p_return None
                        else p_bind (p_act (block_subtask_set tw sub subs reason hard_max)) (\<lambda>oc.
                          p_return (Some oc)))))))) "

definition run_subtask_set :: "task_worker \<Rightarrow> subtask list \<Rightarrow> worker_outcome option proc" where
  "run_subtask_set tw subs = p_first (run_one_subtask tw subs) subs"

section \<open>The whole loop\<close>

definition the_plan_order :: "string \<Rightarrow> subtask list wact" where
  "the_plan_order missing =
     py_bind (py_read wd_plan) (\<lambda>p. case p of
       None \<Rightarrow> py_raise (AssertionError missing)
     | Some pl \<Rightarrow>
         (case plan_order pl of
            Inl e \<Rightarrow> py_raise (ValueError (plan_error_text False e))
          | Inr subs \<Rightarrow> py_return subs))"

definition subtask_from_row :: "subtask_row \<Rightarrow> subtask" where
  "subtask_from_row r =
     \<lparr>st_id = s_subtask_id r, st_title = opt_text (s_title r), st_depends_on = s_depends_on r,
      st_files_to_touch = s_files_to_touch r, st_boundary = opt_text (s_boundary r),
      st_acceptance = (if s_acceptance r = [] then [''(reconstructed)''] else s_acceptance r),
      st_notes = opt_text (s_notes r), st_interfaces = [], st_kind = or_else (s_kind r) ''spec'',
      st_rubric_targets = [], st_standards_referenced = [], st_architecture_referenced = [],
      st_behavior_evidence_advanced = [], st_root_cause_hypothesis = []\<rparr>"

definition leftover_subtasks :: "string list \<Rightarrow> subtask_row list \<Rightarrow> subtask list" where
  "leftover_subtasks plan_ids rows =
     map subtask_from_row
       (filter (\<lambda>r. s_subtask_id r \<noteq> [] \<and> s_subtask_id r \<notin> set plan_ids \<and> s_state r \<noteq> Sub_DONE) rows)"

definition collect_leftover_fixup_subtasks :: "task_worker \<Rightarrow> subtask list wact" where
  "collect_leftover_fixup_subtasks tw =
     py_bind (the_plan_order []) (\<lambda>subs.
       store_read (\<lambda>d. leftover_subtasks (map st_id subs) (list_subtasks (tw_id tw) d)))"

definition subtask_loop :: "task_worker \<Rightarrow> worker_outcome option proc" where
  "subtask_loop tw =
     p_bind (p_act (the_plan_order ''_plan() must run before _subtask_loop()'')) (\<lambda>subs.
     p_bind (run_subtask_set tw subs) (\<lambda>oc. case oc of
       Some x \<Rightarrow> p_return (Some x)
     | None \<Rightarrow>
         p_bind (p_act (collect_leftover_fixup_subtasks tw)) (\<lambda>leftover.
           if leftover \<noteq> [] then run_subtask_set tw leftover else p_return None)))"

section \<open>Facts\<close>

lemma keeps_after_pass [calls_keep]:
  assumes "others_keep store_ok tw"
  shows "wkeeps store_ok (handle_passed_subtask tw sub msg)"
  unfolding handle_passed_subtask_def
  by (intro keeps_intros calls_keep assms) (auto split: pass_outcome.splits intro!: keeps_intros)

lemma keeps_append_reason [keeps_intros]: "wkeeps store_ok (append_reason tw sub n oc t layer)"
  unfolding append_reason_def by (intro keeps_intros)

lemma keeps_after_failure [calls_keep]:
  assumes "others_keep store_ok tw"
  shows "wkeeps store_ok (record_transient_subtask_failure tw sub n oc k)"
    and "wkeeps store_ok (record_subtask_triage tw sub n msg oc)"
    and "wkeeps store_ok (maybe_record_progress_block tw sub n)"
    and "wkeeps store_ok (after_failure tw sub n msg oc)"
proof -
  show "wkeeps store_ok (record_transient_subtask_failure tw sub n oc k)"
    unfolding record_transient_subtask_failure_def Let_def by (intro keeps_intros calls_keep assms)
  show triage: "wkeeps store_ok (record_subtask_triage tw sub n msg oc)"
    unfolding record_subtask_triage_def triage_of_def artifact_def by (intro keeps_intros calls_keep assms)
  show progress: "wkeeps store_ok (maybe_record_progress_block tw sub n)"
    unfolding maybe_record_progress_block_def by (intro keeps_intros calls_keep assms)
  show "wkeeps store_ok (after_failure tw sub n msg oc)"
    unfolding after_failure_def maybe_signature_stop_loss_def Let_def by (intro keeps_intros triage progress)
qed

lemma keeps_ensure [calls_keep]: "others_keep store_ok tw \<Longrightarrow> wkeeps store_ok (ensure_container tw)"
  unfolding ensure_container_def by (intro keeps_intros calls_keep)

lemma keeps_attempt_turn [calls_keep]:
  assumes "others_keep store_ok tw"
  shows "wkeeps store_ok (attempt_turn tw sub hard_max s)"
proof -
  have failed: "wkeeps store_ok (failed_turn tw sub n k msg oc)" for n k msg oc
    unfolding failed_turn_def by (intro keeps_intros calls_keep assms)
  have judge: "wkeeps store_ok (judge_attempt tw sub n i k oc)" for n i k oc
    unfolding judge_attempt_def
    by (intro keeps_intros calls_keep assms failed) (auto split: pass_step.splits intro!: keeps_intros failed)
  show ?thesis
    unfolding attempt_turn_def Let_def by (intro keeps_intros calls_keep judge assms)
qed

lemma keeps_block_set [calls_keep]:
  "others_keep store_ok tw \<Longrightarrow> wkeeps store_ok (block_subtask_set tw sub subs reason n)"
  unfolding block_subtask_set_def Let_def by (intro keeps_intros calls_keep)

lemma keeps_boundary [calls_keep]: "others_keep store_ok tw \<Longrightarrow> wkeeps store_ok (subtask_boundary_checks tw)"
  unfolding subtask_boundary_checks_def by (intro keeps_intros calls_keep)

abbreviation wpkeeps :: "(db \<Rightarrow> bool) \<Rightarrow> 'a proc \<Rightarrow> bool" where
  "wpkeeps P m \<equiv> p_keeps (\<lambda>w. P (wd_db w)) m"

lemma keeps_run_one: "others_keep store_ok tw \<Longrightarrow> wpkeeps store_ok (run_one_subtask tw subs sub)"
  unfolding run_one_subtask_def attempt_subtask_until_settled_def maybe_yield_at_boundary_def Let_def
  by (intro p_keeps_intros keeps_intros calls_keep)

lemma keeps_run_set [p_keeps_intros]: "others_keep store_ok tw \<Longrightarrow> wpkeeps store_ok (run_subtask_set tw subs)"
  unfolding run_subtask_set_def by (intro p_keeps_intros keeps_run_one)

lemma keeps_the_plan_order [keeps_intros]: "wkeeps P (the_plan_order missing)"
  unfolding the_plan_order_def by (intro keeps_intros)

lemma keeps_subtask_loop [p_keeps_intros]: "others_keep store_ok tw \<Longrightarrow> wpkeeps store_ok (subtask_loop tw)"
  unfolding subtask_loop_def collect_leftover_fixup_subtasks_def by (intro p_keeps_intros keeps_intros)

section \<open>Counting the calls of an attempt\<close>

lemma spends_contract [spends_intros]: "spends p 0 (evaluation_contract tw)"
proof -
  have adopt: "spends p 0 (adopt_contract tw)"
    unfolding adopt_contract_def by (rule spends_le, ((rule spends_intros spends_modify) | (simp; fail))+)
  show ?thesis
    unfolding evaluation_contract_def by (rule spends_le, ((rule spends_intros spends_modify adopt) | (simp; fail))+)
qed

lemma spends_commit_calls [spends_intros]:
  assumes "only_agents p"
  shows "spends p 0 (rebase_on_remote tw r b t)" and "spends p 0 (push_with_recovery tw b r t sha fs)"
    and "spends p 0 (classify_empty_staging tw ds ts t)" and "spends p 0 (commit_or_idempotent tw msg t)"
    and "spends p 0 (commit_subtask tw sub msg b r)"
proof -
  note intros = spends_intros assms
  show rebase: "spends p 0 (rebase_on_remote tw r b t)" for r b t
    unfolding rebase_on_remote_def by (rule spends_le, (rule intros)+, simp)
  show push: "spends p 0 (push_with_recovery tw b r t sha fs)" for b r t sha fs
    unfolding push_with_recovery_def Let_def by (rule spends_le, (rule intros rebase)+, simp)
  show staging: "spends p 0 (classify_empty_staging tw ds ts t)" for ds ts t
    unfolding classify_empty_staging_def by (rule spends_le, (rule intros)+, simp)
  show idem: "spends p 0 (commit_or_idempotent tw msg t)" for msg t
    unfolding commit_or_idempotent_def Let_def by (rule spends_le, (rule intros)+, simp)
  show "spends p 0 (commit_subtask tw sub msg b r)"
    unfolding commit_subtask_def Let_def by (rule spends_le, (rule intros push staging idem)+, simp)
qed

lemma spends_witness_calls [spends_intros]:
  assumes "only_agents p"
  shows "spends p 0 (load_workspace_evidence tw)" and "spends p 0 (run_witness tw per deadline cmd)"
proof -
  note intros = spends_intros assms
  show "spends p 0 (load_workspace_evidence tw)"
    unfolding load_workspace_evidence_def catch_run_error_def by (rule spends_le, (rule intros)+, simp)
  show "spends p 0 (run_witness tw per deadline cmd)"
    unfolding run_witness_def catch_run_error_def monotonic_def Let_def by (rule spends_le, (rule intros)+, simp)
qed

lemma spends_witness_loop:
  "only_agents p \<Longrightarrow> spends p 0 (witness_loop tw per deadline is rows rs)"
proof (induction tw per deadline "is" rows rs rule: witness_loop.induct)
  case (2 tw per deadline i "is" rows results)
  show ?case
  proof (cases "evidence_id_to_command (tw_evidence tw) i")
    case (Some cmd)
    then show ?thesis
      by simp (rule spends_le, (rule spends_intros 2(3) [OF Some] 2(4))+, simp)
  next
    case None
    have "spends p 0 (case json_id_to_command vs i of
         Inl e \<Rightarrow> py_raise e
       | Inr None \<Rightarrow> witness_loop tw per deadline is (Some vs) (AList.update i (no_command_result i) results)
       | Inr (Some cmd) \<Rightarrow> py_bind (run_witness tw per deadline cmd) (\<lambda>r.
           witness_loop tw per deadline is (Some vs) (AList.update i r results)))" for vs
    proof (cases "json_id_to_command vs i")
      case (Inr c)
      show ?thesis
      proof (cases c)
        case None
        with Inr 2(1) [OF \<open>evidence_id_to_command (tw_evidence tw) i = None\<close> Inr None 2(4)] show ?thesis by simp
      next
        case (Some cmd)
        have "spends p 0 (py_bind (run_witness tw per deadline cmd) (\<lambda>r.
           witness_loop tw per deadline is (Some vs) (AList.update i r results)))"
          by (rule spends_le, (rule spends_intros
            2(2) [OF \<open>evidence_id_to_command (tw_evidence tw) i = None\<close> Inr Some] 2(4))+, simp)
        with Inr Some show ?thesis by simp
      qed
    qed (simp add: spends_intros)
    note found = this
    have "spends p 0 (case rows of Some vs \<Rightarrow> py_return vs | None \<Rightarrow> load_workspace_evidence tw)"
      by (rule spends_le, (rule spends_intros 2(4))+, simp)
    from spends_bind [OF this found] None show ?thesis by simp
  qed
qed (simp add: spends_intros)

lemma spends_steps [spends_intros]:
  assumes "only_agents p"
  shows "spends p 0 (scoped_witnesses tw sub)" and "spends p 0 (compute_subtask_diff_excerpt tw)"
    and "spends p 0 (cache_doer_state tw sub)" and "spends p 0 (run_subtask_check_command tw sub)"
    and "spends p 0 (classify_empty_diff_branch tw sub)" and "spends p 0 (detect_pre_commit_runner tw)"
    and "spends p 0 (existing_worktree_path tw)"
proof -
  note intros = spends_intros assms spends_witness_loop [OF assms]
  show wit: "spends p 0 (scoped_witnesses tw sub)"
    unfolding scoped_witnesses_def run_scoped_witnesses_def monotonic_def Let_def
    by (rule spends_le, (rule intros)+, simp)
  show diff: "spends p 0 (compute_subtask_diff_excerpt tw)"
    unfolding compute_subtask_diff_excerpt_def by (rule spends_le, (rule intros)+, simp)
  show "spends p 0 (cache_doer_state tw sub)"
    unfolding cache_doer_state_def
    by (rule spends_le, ((rule intros wit diff spends_modify) | (simp; fail))+)
  show "spends p 0 (run_subtask_check_command tw sub)"
    unfolding run_subtask_check_command_def catch_run_error_def Let_def by (rule spends_le, (rule intros)+, simp)
  have syn: "spends p 0 (synthesized tw sub v msg kind detail)" for v msg kind detail
    unfolding synthesized_def by (rule spends_le, (rule intros)+, simp)
  show "spends p 0 (classify_empty_diff_branch tw sub)"
    unfolding classify_empty_diff_branch_def classify_empty_diff_outcome_def classify_cannot_reproduce_outcome_def
      classify_no_op_done_outcome_def
    by (rule spends_le, (rule intros syn)+, simp)
  show "spends p 0 (detect_pre_commit_runner tw)"
    unfolding detect_pre_commit_runner_def by (rule spends_le, (rule intros)+, simp)
  show "spends p 0 (existing_worktree_path tw)"
    unfolding existing_worktree_path_def path_exists_def Let_def by (rule spends_le, (rule intros)+, simp)
qed

text \<open>Calls of the doer: one per turn; every other agent of a turn has another role.\<close>

abbreviation doer_call :: "call \<Rightarrow> bool" where
  "doer_call \<equiv> agent_call_of ''subtask_doer''"

lemma doer_call_roles [simp]: "agent_call_of r (Agent s t) \<longleftrightarrow> s = r"
  by (auto simp: agent_call_of_def)

lemma spends_schema_cases:
  assumes "\<And>out. spends p a (k out)" and "spends p b m"
  shows "spends p (max a b) (case (es, v) of ([], Some (S_checker out)) \<Rightarrow> k out | _ \<Rightarrow> m)"
  using spends_le [OF assms(1) max.cobounded1] spends_le [OF assms(2) max.cobounded2]
  by (simp split: list.splits option.splits structured.splits)

lemma spends_triage_cases:
  assumes "\<And>out. spends p a (k out)" and "spends p b m"
  shows "spends p (max a b) (case (es, v) of ([], Some (S_triage out)) \<Rightarrow> k out | _ \<Rightarrow> m)"
  using spends_le [OF assms(1) max.cobounded1] spends_le [OF assms(2) max.cobounded2]
  by (simp split: list.splits option.splits structured.splits)

lemma spends_doer: "spends doer_call 1 (do_subtask tw sub n)"
proof -
  note intros = spends_intros spends_modify only_agents_of
  have doer: "spends doer_call 1 (run_doer_agent tw sub)"
    unfolding run_doer_agent_def Let_def by (rule spends_le, ((rule intros) | (simp; fail))+)
  show ?thesis
    unfolding do_subtask_def by (rule spends_le, (rule intros doer)+, simp)
qed

lemma spends_checker:
  "spends doer_call 0 (check_subtask tw sub)" "spends doer_call 0 (triage_subtask tw sub)"
proof -
  note intros = spends_intros only_agents_of
  have answers: "spends doer_call 0 (checker_parse_failure tw sub r)" "spends doer_call 0 (checker_answer tw sub r out)"
    for r out
    unfolding checker_parse_failure_def checker_answer_def Let_def by (rule spends_le, (rule intros)+, simp)+
  have llm: "spends doer_call 0 (run_llm_subtask_checker tw sub)"
    unfolding run_llm_subtask_checker_def
    by (rule spends_le, (rule spends_schema_cases intros answers)+, simp)
  show "spends doer_call 0 (check_subtask tw sub)"
    unfolding check_subtask_def by (rule spends_le, (rule intros llm)+, simp)
  show "spends doer_call 0 (triage_subtask tw sub)"
    unfolding triage_subtask_def Let_def by (rule spends_le, (rule spends_triage_cases intros)+, simp)
qed

lemma spends_pass:
  "spends doer_call 0 (handle_passed_subtask tw sub msg)"
proof -
  note intros = spends_intros only_agents_of
  have hook: "spends doer_call 0 (run_hook tw cmd)" for cmd
  proof -
    have err: "spends doer_call 0 (case e of TimeoutExpired t \<Rightarrow> py_return a | _ \<Rightarrow> py_raise e)" for e and a :: "bool \<times> string"
      by (cases e) (simp_all add: spends_intros)
    show ?thesis unfolding run_hook_def Let_def by (rule spends_le, (rule intros err)+, simp)
  qed
  have pre: "spends doer_call 0 (run_pre_commit tw sub r)" for r
    unfolding run_pre_commit_def by (rule spends_le, (rule intros hook)+, simp)
  have gate: "spends doer_call 0 (pre_commit_gate tw sub)"
    unfolding pre_commit_gate_def Let_def by (rule spends_le, (rule intros pre)+, simp)
  have commit: "spends doer_call 0 (commit_passed tw sub)"
    unfolding commit_passed_def mark_subtask_done_def by (rule spends_le, (rule intros)+, simp)
  have pass: "spends doer_call 0 (handle_subtask_pass tw sub msg)"
    unfolding handle_subtask_pass_def mark_subtask_done_def by (rule spends_le, (rule intros gate commit)+, simp)
  have after: "spends doer_call 0 (case p of
       Settled \<Rightarrow> py_then (fsm_call tw h1 a1 []) (py_then (fsm_call tw h2 a2 []) (py_return Step_settled))
     | Transient_retry \<Rightarrow> py_then (fsm_call tw h3 a3 []) (py_return Step_retry)
     | Pass_failed m \<Rightarrow> py_return (Step_failed m))" for p h1 a1 h2 a2 h3 a3
    by (cases p; simp; rule spends_le, (rule intros)+, simp)
  show ?thesis
    unfolding handle_passed_subtask_def by (rule spends_le, (rule intros pass after)+, simp)
qed

lemma spends_failure:
  "spends doer_call 0 (after_failure tw sub n msg oc)"
  "spends doer_call 0 (record_transient_subtask_failure tw sub n oc k)"
proof -
  note intros = spends_intros only_agents_of
  have reason: "spends doer_call 0 (append_reason tw sub n oc t layer)" for t layer
    unfolding append_reason_def by (rule spends_le, (rule intros)+, simp)
  have triage: "spends doer_call 0 (record_subtask_triage tw sub n msg oc)"
    unfolding record_subtask_triage_def triage_of_def
    by (rule spends_le, (rule intros reason spends_checker)+, simp)
  have agent: "spends doer_call 0 (outside tw (Agent ''progress'' 180) a)" for a :: "nat \<Rightarrow> py_error + agent_result"
    using spends_outside [of doer_call "Agent ''progress'' 180" tw a] by simp
  have progress: "spends doer_call 0 (run_progress_check tw sub n)"
    unfolding run_progress_check_def by (rule spends_le, (rule intros agent)+, simp)
  have block: "spends doer_call 0 (maybe_record_progress_block tw sub n)"
    unfolding maybe_record_progress_block_def by (rule spends_le, (rule intros progress)+, simp)
  show "spends doer_call 0 (after_failure tw sub n msg oc)"
    unfolding after_failure_def maybe_signature_stop_loss_def Let_def
    by (rule spends_le, (rule intros triage block)+, simp)
  show "spends doer_call 0 (record_transient_subtask_failure tw sub n oc k)"
    unfolding record_transient_subtask_failure_def Let_def by (rule spends_le, (rule intros reason)+, simp)
qed

lemma spends_turn: "spends doer_call (if at_attempt s < hard_max then 1 else 0) (attempt_turn tw sub hard_max s)"
proof -
  note intros = spends_intros only_agents_of
  have ensure: "spends doer_call 0 (ensure_container tw)"
    unfolding ensure_container_def
    by (rule spends_le, ((rule intros spends_free) | (simp; fail))+)
  have failed: "spends doer_call 0 (failed_turn tw sub n k msg oc)" for n k msg oc
    unfolding failed_turn_def by (rule spends_le, (rule intros spends_failure)+, simp)
  have step: "spends doer_call 0 (case p of
        Step_settled \<Rightarrow> py_return a | Step_retry \<Rightarrow> py_return b | Step_failed m \<Rightarrow> failed_turn tw sub n k m oc)"
    for p a b n k oc
    by (cases p) (simp_all add: failed spends_intros)
  have judge: "spends doer_call 0 (judge_attempt tw sub n i k oc)" for n i k oc
    unfolding judge_attempt_def
    by (rule spends_le, (rule intros spends_failure spends_pass failed step)+, simp)
  have live: "spends doer_call 1 (attempt_turn tw sub hard_max s)"
    unfolding attempt_turn_def Let_def
    by (rule spends_le, (rule intros ensure spends_doer spends_checker judge)+, simp)
  moreover have "spends doer_call 0 (attempt_turn tw sub hard_max s)" if "\<not> at_attempt s < hard_max"
    using that by (simp add: attempt_turn_def spends_intros)
  ultimately show ?thesis by simp
qed

section \<open>The attempt loop returns\<close>

text \<open>The turns that are left: an attempt may be tried once more for each transient allowed in a row.\<close>

definition turns_left :: "int \<Rightarrow> int \<Rightarrow> attempt_state \<Rightarrow> nat" where
  "turns_left hard_max cap s =
     (if at_attempt s < hard_max
      then nat ((hard_max - at_attempt s - 1) * (max cap 0 + 1) + (max cap 0 + 1 - at_transients s)) else 0)"

text \<open>git never answers a push in a way that is classified as transient.\<close>

definition pushes_settle :: "task_worker \<Rightarrow> subtask \<Rightarrow> bool" where
  "pushes_settle tw sub \<longleftrightarrow> (\<forall>msg. yields (\<lambda>p. p \<noteq> Transient_retry) (handle_subtask_pass tw sub msg))"

definition goes_down :: "int \<Rightarrow> int \<Rightarrow> attempt_state \<Rightarrow> attempt_state + settlement \<Rightarrow> bool" where
  "goes_down hard_max cap s x \<longleftrightarrow>
     (case x of
        Inr _ \<Rightarrow> True
      | Inl s' \<Rightarrow> at_transients s' \<le> max cap 0 \<and> turns_left hard_max cap s' < turns_left hard_max cap s)"

lemma turns_left_live:
  assumes "at_attempt s < hard_max"
  shows "\<exists>m \<ge> 0. turns_left hard_max cap s = nat (m + (max cap 0 + 1 - at_transients s)) \<and>
    (\<forall>s'. at_attempt s' = at_attempt s \<longrightarrow>
      turns_left hard_max cap s' = nat (m + (max cap 0 + 1 - at_transients s'))) \<and>
    (\<forall>s'. at_attempt s' = at_attempt s + 1 \<longrightarrow> at_transients s' = 0 \<longrightarrow> turns_left hard_max cap s' \<le> nat m)"
proof -
  define m where "m = (hard_max - at_attempt s - 1) * (max cap 0 + 1)"
  have "0 \<le> m" using assms by (simp add: m_def)
  moreover have "turns_left hard_max cap s' \<le> nat m" if "at_attempt s' = at_attempt s + 1" "at_transients s' = 0" for s'
  proof -
    have "(hard_max - at_attempt s' - 1) * (max cap 0 + 1) + (max cap 0 + 1) = m"
      using that by (simp add: m_def algebra_simps)
    with that show ?thesis by (simp add: turns_left_def)
  qed
  ultimately show ?thesis using assms by (intro exI [of _ m]) (simp add: turns_left_def m_def)
qed

lemma turns_down:
  assumes "at_attempt s < hard_max" and "at_transients s \<le> max cap 0"
  shows "at_transients s' = 0 \<Longrightarrow> at_attempt s' = at_attempt s + 1 \<Longrightarrow>
      turns_left hard_max cap s' < turns_left hard_max cap s"
    and "at_transients s' = at_transients s + 1 \<Longrightarrow> at_attempt s' = at_attempt s \<Longrightarrow> at_transients s' \<le> max cap 0 \<Longrightarrow>
      turns_left hard_max cap s' < turns_left hard_max cap s"
    and "1 \<le> turns_left hard_max cap s"
proof -
  obtain m where m: "0 \<le> m" "turns_left hard_max cap s = nat (m + (max cap 0 + 1 - at_transients s))"
    and same: "\<And>s'. at_attempt s' = at_attempt s \<Longrightarrow>
      turns_left hard_max cap s' = nat (m + (max cap 0 + 1 - at_transients s'))"
    and next_one: "\<And>s'. at_attempt s' = at_attempt s + 1 \<Longrightarrow> at_transients s' = 0 \<Longrightarrow>
      turns_left hard_max cap s' \<le> nat m"
    using turns_left_live [OF assms(1), of cap] by blast
  show "turns_left hard_max cap s' < turns_left hard_max cap s"
    if "at_transients s' = 0" "at_attempt s' = at_attempt s + 1"
    using next_one [OF that(2,1)] m assms(2) by linarith
  show "turns_left hard_max cap s' < turns_left hard_max cap s"
    if "at_transients s' = at_transients s + 1" "at_attempt s' = at_attempt s" "at_transients s' \<le> max cap 0"
    using same [OF that(2)] that m by linarith
  show "1 \<le> turns_left hard_max cap s"
    using m assms(2) by linarith
qed

lemma yields_weaken: "yields Q m \<Longrightarrow> (\<And>x. Q x \<Longrightarrow> R x) \<Longrightarrow> yields R m"
  by (auto simp: yields_def)

lemma yields_if: "(b \<Longrightarrow> yields Q m) \<Longrightarrow> (\<not> b \<Longrightarrow> yields Q k) \<Longrightarrow> yields Q (if b then m else k)"
  by simp

lemma yields_transient:
  "yields (\<lambda>(n, c). n = k + 1 \<and> (c = None \<longrightarrow> n \<le> wc_transient_max_retries (tw_cfg tw)))
     (record_transient_subtask_failure tw sub attempt oc k)"
  unfolding record_transient_subtask_failure_def Let_def
  by (auto intro!: then_yields yields_return)

lemma yields_passed:
  assumes "pushes_settle tw sub"
  shows "yields (\<lambda>p. p \<noteq> Step_retry) (handle_passed_subtask tw sub msg)"
  unfolding handle_passed_subtask_def
proof (rule yields_bind [where R = "\<lambda>p. p \<noteq> Transient_retry"])
  show "yields (\<lambda>p. p \<noteq> Transient_retry) (handle_subtask_pass tw sub msg)"
    using assms by (simp add: pushes_settle_def)
qed (auto split: pass_outcome.splits intro!: then_yields yields_return)

lemma yields_turn:
  fixes s :: attempt_state
  assumes "pushes_settle tw sub" and "at_transients s \<le> max (wc_transient_max_retries (tw_cfg tw)) 0"
  shows "yields (goes_down hard_max (wc_transient_max_retries (tw_cfg tw)) s) (attempt_turn tw sub hard_max s)"
proof -
  let ?cap = "wc_transient_max_retries (tw_cfg tw)"
  have failed: "yields (goes_down hard_max ?cap s) (failed_turn tw sub (at_attempt s + 1) r msg oc)"
    if "at_attempt s < hard_max" for r msg oc
    unfolding failed_turn_def using turns_down(1) [OF that assms(2)]
    by (intro bind_yields yields_return) (auto simp: goes_down_def split: option.splits)
  have transient: "yields (goes_down hard_max ?cap s)
      (py_bind (record_transient_subtask_failure tw sub a oc (at_transients s)) (\<lambda>(n, capped). py_return (case capped of
         Some reason \<Rightarrow> Inr (False, Some reason)
       | None \<Rightarrow> Inl \<lparr>at_attempt = at_attempt s + 1 - 1, at_transients = n, at_reprovisions = r\<rparr>)))"
    if "at_attempt s < hard_max" for a oc r
    using turns_down(2) [OF that assms(2)]
    by (intro yields_bind [OF yields_transient]) (auto simp: goes_down_def yields_return split: option.splits)
  have passed: "yields (goes_down hard_max ?cap s)
      (py_bind (handle_passed_subtask tw sub msg) (\<lambda>p. case p of
         Step_settled \<Rightarrow> py_return (Inr (True, None))
       | Step_retry \<Rightarrow> py_return (Inl \<lparr>at_attempt = at_attempt s + 1 - 1, at_transients = 0, at_reprovisions = r\<rparr>)
       | Step_failed m \<Rightarrow> failed_turn tw sub (at_attempt s + 1) r m oc))"
    if "at_attempt s < hard_max" for msg r oc
    by (rule yields_bind [OF yields_passed [OF assms(1)]])
      (auto split: pass_step.splits simp: goes_down_def [of hard_max ?cap s "Inr x" for x] intro!: yields_return failed that)
  have judge: "yields (goes_down hard_max ?cap s)
      (judge_attempt tw sub (at_attempt s + 1) (at_transients s) r oc)" if "at_attempt s < hard_max" for r oc
    unfolding judge_attempt_def by (intro yields_if failed transient passed that)
  show ?thesis
    unfolding attempt_turn_def Let_def
    by (auto intro!: bind_yields then_yields judge yields_return simp: goes_down_def [of hard_max ?cap s "Inr x" for x])
qed

lemma attempt_bounded:
  fixes s :: attempt_state
  assumes "pushes_settle tw sub" and "at_transients s \<le> max (wc_transient_max_retries (tw_cfg tw)) 0"
  shows "ends_in doer_call (turns_left hard_max (wc_transient_max_retries (tw_cfg tw)) s) (\<lambda>_. True)
    (p_loop (\<lambda>s. p_act (attempt_turn tw sub hard_max s)) s)"
proof (rule ends_loop [where I = "\<lambda>s. at_transients s \<le> max (wc_transient_max_retries (tw_cfg tw)) 0", OF assms(2)])
  let ?cap = "wc_transient_max_retries (tw_cfg tw)"
  fix s :: attempt_state assume ok: "at_transients s \<le> max ?cap 0"
  show "yields (\<lambda>x. case x of
      Inl s' \<Rightarrow> at_transients s' \<le> max ?cap 0 \<and> turns_left hard_max ?cap s' < turns_left hard_max ?cap s
    | Inr a \<Rightarrow> True) (attempt_turn tw sub hard_max s)"
    by (rule yields_weaken [OF yields_turn [OF assms(1) ok]]) (simp add: goes_down_def split: sum.splits)
  have "(if at_attempt s < hard_max then 1 else 0) \<le> min 1 (turns_left hard_max ?cap s)"
    using turns_down(3) [OF _ ok, of hard_max] by simp
  then show "spends doer_call (min 1 (turns_left hard_max ?cap s)) (attempt_turn tw sub hard_max s)"
    by (rule spends_le [OF spends_turn])
qed

text \<open>What git has to answer for that: no output of a command is one that counts as a transient failure.\<close>

definition no_transient_git :: "task_worker \<Rightarrow> bool" where
  "no_transient_git tw \<longleftrightarrow>
     (\<forall>n argv rc out err. tw_exec tw n argv = Inr (rc, out, err) \<longrightarrow> \<not> is_transient_git_failure rc (out @ nl @ err))"

lemma yields_exec:
  assumes "no_transient_git tw"
  shows "yields (\<lambda>(rc, out, err). \<not> is_transient_git_failure rc (out @ nl @ err)) (exec_in tw argv t)"
  unfolding exec_in_def
  by (rule then_yields) (use assms in \<open>auto simp: yields_def outside_def no_transient_git_def Let_def\<close>)

lemma yields_commit:
  assumes "no_transient_git tw"
  shows "yields (\<lambda>r. \<not> cr_transient r) (commit_subtask tw sub msg br remote)"
proof -
  note exec = yields_bind [OF yields_exec [OF assms]]
  have plain: "\<not> cr_transient (commit_success sha fs)" "\<not> cr_transient (commit_failure out sha False)" for sha fs out
    by (simp_all add: commit_success_def commit_failure_def)
  have failed: "\<not> cr_transient (commit_failure out sha b)" if "\<not> b" for out sha b
    using that by (simp add: commit_failure_def)
  have again: "yields (\<lambda>r. \<not> cr_transient r)
      (py_bind (exec_in tw argv t) (\<lambda>(rc2, out2, err2).
         if rc2 = 0 then py_return (commit_success sha fs)
         else py_return (commit_failure (m rc2 out2 err2) sha (is_transient_git_failure rc2 (out2 @ nl @ err2)))))"
    for argv t sha fs m
    by (rule exec) (auto intro!: yields_return yields_if plain failed)
  have recovered: "yields (\<lambda>r. \<not> cr_transient r) (push_with_recovery tw b rem t sha fs)" for b rem t sha fs
    unfolding push_with_recovery_def Let_def
    by (rule exec)
      (auto intro!: yields_return bind_yields plain failed again [unfolded append_assoc]
        split: option.splits)
  have staging: "yields (\<lambda>x. \<forall>r. x = Some r \<longrightarrow> \<not> cr_transient r) (classify_empty_staging tw ds ts t)" for ds ts t
    unfolding classify_empty_staging_def
    by (auto intro!: yields_return bind_yields plain simp: yields_def [of _ "py_raise e" for e] act_simps)
  have idem: "yields (\<lambda>x. \<forall>r. x = Some r \<longrightarrow> \<not> cr_transient r) (commit_or_idempotent tw m t)" for m t
    unfolding commit_or_idempotent_def Let_def
    by (auto intro!: yields_return bind_yields plain)
  show ?thesis
    unfolding commit_subtask_def Let_def
    by (intro bind_yields prod_yields yields_if yields_return plain yields_bind [OF staging] yields_bind [OF idem])
      (auto split: option.splits intro!: yields_return bind_yields recovered yields_bind [OF idem])
qed

lemma pushes_settle_if:
  assumes "no_transient_git tw"
  shows "pushes_settle tw sub"
proof -
  have commit: "yields (\<lambda>p. p \<noteq> Transient_retry) (commit_passed tw sub)"
    unfolding commit_passed_def
    by (intro bind_yields yields_bind [OF yields_commit [OF assms]]) (auto intro!: yields_return then_yields)
  show ?thesis
    unfolding pushes_settle_def handle_subtask_pass_def
    by (auto intro!: yields_return then_yields bind_yields commit)
qed

section \<open>Properties\<close>

text \<open>
  C17: the attempts at a subtask end. When no command answers with the text of a transient git failure, the attempt loop returns, whatever the agents and the commands answer, and the doer is called at most once for each attempt below
  the hard ceiling and each transient failure allowed in a row.
\<close>

theorem attempts_end:
  assumes "no_transient_git tw" and "retries = or0 (Option.bind row s_retries)"
    and "cap = max (wc_transient_max_retries (tw_cfg tw)) 0"
  shows "\<exists>r w'. attempt_subtask_until_settled tw sub hard_max row w = Some (r, w') \<and>
    calls_of doer_call w' \<le> nat (hard_max - retries) * nat (cap + 1) + calls_of doer_call w"
proof -
  let ?s = "\<lparr>at_attempt = or0 (Option.bind row s_retries), at_transients = 0, at_reprovisions = 0\<rparr>"
  have ok: "at_transients ?s \<le> max (wc_transient_max_retries (tw_cfg tw)) 0" by simp
  note settles = pushes_settle_if [OF assms(1)]
  have "turns_left hard_max (wc_transient_max_retries (tw_cfg tw)) ?s = nat (hard_max - retries) * nat (cap + 1)"
  proof (cases "retries < hard_max")
    case True
    have "(hard_max - retries - 1) * (cap + 1) + (cap + 1) = (hard_max - retries) * (cap + 1)"
      by (simp add: algebra_simps)
    with True assms(2,3) show ?thesis by (simp add: turns_left_def nat_mult_distrib)
  qed (use assms(2) in \<open>simp add: turns_left_def\<close>)
  with attempt_bounded [OF settles ok, of hard_max, unfolded ends_in_def, THEN spec [of _ w]] show ?thesis
    by (auto simp: attempt_subtask_until_settled_def)
qed

definition demo_attempt_subtask :: subtask where
  "demo_attempt_subtask = subtask_from_row (spec_row ''T1'' (demo_spec ''S-1'') 1 ''initial'' 7)"

theorem attempts_end_witness:
  "\<exists>r w'. attempt_subtask_until_settled demo_worker demo_attempt_subtask 8 None (demo_world []) = Some (r, w') \<and>
     calls_of doer_call w' \<le> 24"
proof -
  have "no_transient_git demo_worker"
    by (simp add: no_transient_git_def demo_worker_def is_transient_git_failure_def)
  from attempts_end [OF this, of 0 None 2 demo_attempt_subtask 8 "demo_world []"] show ?thesis
    by (simp add: demo_worker_cfg_def or0_def calls_of_def)
qed

lemma starts_with_iff: "starts_with p s \<longleftrightarrow> (\<exists>r. s = p @ r)"
  by (auto simp: starts_with_def) (metis append_take_drop_id)

lemma join_two: "\<exists>r. join sep (a # b # ss) = a @ sep @ b @ r"
  by (cases ss) auto

lemma no_op_prefix_rendered:
  assumes "co_verdict out = PASS" and "starts_with ''subtask no-op DONE'' (co_overall_assessment out)"
  shows "starts_with no_op_done_prefix (render_checker_output out)"
proof -
  obtain rest where rest: "co_overall_assessment out = ''subtask no-op DONE'' @ rest"
    using assms(2) unfolding starts_with_iff by blast
  have "take 600 (co_overall_assessment out) = ''subtask no-op DONE'' @ take (600 - 18) rest"
    unfolding rest take_append by simp
  moreover obtain r where "render_checker_output out =
      (''VERDICT: '' @ verdict_name PASS) @ nl @ (''ROOT_CAUSE: '' @ take 600 (co_overall_assessment out)) @ r"
    using join_two [of nl "''VERDICT: '' @ verdict_name PASS" "''ROOT_CAUSE: '' @ take 600 (co_overall_assessment out)"]
    by (auto simp: render_checker_output_def assms(1) rest)
  ultimately have "\<exists>r. render_checker_output out = no_op_done_prefix @ r"
    by (simp add: no_op_done_prefix_def)
  then show ?thesis unfolding starts_with_iff .
qed

text \<open>
  The no-op path never touches the branch. A checker text that starts with the no-op mark settles the subtask with no
  command, no commit and no push; and an agent that merely opens its assessment with these words produces such a text, so
  the edits of that attempt stay uncommitted while the subtask is DONE.
\<close>

theorem no_op_done_uncommitted:
  assumes "co_verdict out = PASS" and "starts_with ''subtask no-op DONE'' (co_overall_assessment out)"
  shows "\<exists>w'. handle_subtask_pass tw sub (render_checker_output out) w = (Inr Settled, w') \<and>
    wd_calls w' = wd_calls w \<and>
    (\<forall>row. get_subtask (tw_id tw) (st_id sub) (wd_db w) = Some row \<longrightarrow>
      map_option s_state (get_subtask (tw_id tw) (st_id sub) (wd_db w')) = Some Sub_DONE)"
proof -
  note prefix = no_op_prefix_rendered [OF assms]
  show ?thesis
    by (auto simp: handle_subtask_pass_def prefix mark_subtask_done_def on_store_def update_subtask_def tx_run
      update_subtask_act_def act_simps get_subtask_def find_subtask_update)
qed

definition demo_praise :: checker_output where
  "demo_praise = \<lparr>co_verdict = PASS, co_findings = [], co_overall_assessment = ''subtask no-op DONE twice over''\<rparr>"

theorem no_op_done_uncommitted_witness:
  "\<exists>w'. handle_subtask_pass demo_worker demo_attempt_subtask (render_checker_output demo_praise) (demo_world []) = (Inr Settled, w') \<and>
     wd_calls w' = []"
proof -
  have "co_verdict demo_praise = PASS" "starts_with ''subtask no-op DONE'' (co_overall_assessment demo_praise)"
    by code_simp+
  from no_op_done_uncommitted [OF this, of demo_worker demo_attempt_subtask "demo_world []"] show ?thesis by auto
qed

end
