(* ===== verification/PlannerDrive.thy ===== *)
theory PlannerDrive
  imports SubtaskLoop
begin

text \<open>
  The planning phase: \<^verbatim>\<open>workers/planner_driver.py\<close> and \<^verbatim>\<open>_plan\<close> of \<^verbatim>\<open>workers/subtasks.py\<close>. The planner is
  called until its answer parses and passes the validators, with a budget for each kind of failure; a task that resumes
  takes its plan from the stored text instead. What the next prompt is told is not represented; the message of the last
  failure is, because it is written to the task.
\<close>

section \<open>Messages of the validators\<close>

definition py_list :: "string list \<Rightarrow> string" where
  "py_list xs = ''['' @ py_list_body xs @ '']''"

definition bullets :: "('a \<Rightarrow> string) \<Rightarrow> 'a list \<Rightarrow> string" where
  "bullets f xs = join nl (map (\<lambda>x. ''- '' @ f x) xs)"

definition unknown_section_reason :: "doc_ref \<Rightarrow> string list \<Rightarrow> string" where
  "unknown_section_reason r heads =
     ''section heading '' @ py_repr (dr_section r) @ '' not found in doc; available: '' @
     or_else (join '', '' heads) ''(no headings parsed)''"

definition ref_bullet :: "string \<Rightarrow> string \<Rightarrow> string \<times> doc_ref \<times> ref_problem \<Rightarrow> string" where
  "ref_bullet what unknown_doc b =
     (case b of (sid, r, p) \<Rightarrow>
        ''subtask '' @ py_repr sid @ '' cites '' @ what @ '' ref '' @
        (case p of
           Unknown_doc \<Rightarrow> py_repr (dr_doc_path r) @ '': '' @ unknown_doc
         | Unknown_section heads \<Rightarrow>
             py_repr (dr_doc_path r @ section_sign @ dr_section r) @ '': '' @ unknown_section_reason r heads))"

definition standards_unknown_doc :: "contract \<Rightarrow> string" where
  "standards_unknown_doc c =
     ''doc_path does not live under any configured standards profile (loaded: '' @
     py_list (map sp_name (sg_profiles (ct_standards c))) @
     ''). Standards refs MUST cite profile docs (e.g. profiles/rust-cargo/rust/error-handling.md), not architecture '' @
     ''or feature documentation. If you meant to cite a project-architecture doc, use `architecture_referenced` instead.''"

definition architecture_unknown_doc :: "contract \<Rightarrow> string" where
  "architecture_unknown_doc c =
     ''doc_path does not live under the configured architecture_docs_dir ('' @
     ac_root (ag_corpus (ct_architecture c)) @
     ''). Architecture refs MUST cite project-architecture docs, not standards profiles or feature documentation. '' @
     ''If you meant to cite a language/framework standard, use `standards_referenced` instead.''"

definition evidence_message ::
  "string list \<Rightarrow> (string \<times> string list) list \<Rightarrow> (string \<times> string) list \<Rightarrow> string list \<Rightarrow> string" where
  "evidence_message missing duplicated unknown expected =
     ''validate_evidence_partition:'' @ nl @ nl @
     join (nl @ nl)
       ((if missing = [] then []
         else [''missing evidence (no subtask claims to advance it):'' @ nl @ bullets py_repr missing @ nl @
               ''Assign each to exactly one subtask'' @ quote1 @ ''s `behavior_evidence_advanced`.'']) @
        (if duplicated = [] then []
         else [''duplicated evidence (multiple subtasks claim to advance the same id):'' @ nl @
               bullets (\<lambda>(e, owners). py_repr e @ '': '' @ py_list owners) duplicated @ nl @
               ''The behavior_evidence_advanced field is a partition; assign each id to exactly one subtask.'']) @
        (if unknown = [] then []
         else [''unknown evidence (subtask claims an id not in node.expected_evidence):'' @ nl @
               bullets (\<lambda>(sid, e). ''subtask '' @ py_repr sid @ '': '' @ py_repr e) unknown @ nl @
               ''Valid ids: '' @ py_list expected]))"

definition finding_message :: "string list \<Rightarrow> (string \<times> string list) list \<Rightarrow> string" where
  "finding_message missing duplicated =
     ''validate_finding_coverage:'' @ nl @ nl @
     join (nl @ nl)
       ((if missing = [] then []
         else [''missing finding coverage (no subtask'' @ quote1 @ ''s stage-typed field matches the finding'' @ quote1 @
               ''s namespace):'' @ nl @ bullets py_repr missing @ nl @
               ''Assign each finding to exactly one subtask: a `rubric:<cat>` finding goes into `rubric_targets`; '' @
               ''`standards:<doc_path>['' @ section_sign @ ''section]` goes into `standards_referenced`; '' @
               ''`architecture:<doc_path>['' @ section_sign @ ''section]` goes into `architecture_referenced`; '' @
               ''`behavior:<id>` goes into `behavior_evidence_advanced`.'']) @
        (if duplicated = [] then []
         else [''duplicated finding coverage (multiple subtasks claim the same audit finding):'' @ nl @
               bullets (\<lambda>(f, owners). py_repr f @ '': '' @ py_list owners) duplicated @ nl @
               ''The audit completeness check is a partition; assign each finding to exactly one subtask.'']))"

fun check_message :: "contract \<Rightarrow> check_error \<Rightarrow> string" where
  "check_message c No_categories =
     ''the EvaluationContract has no rubric categories; the workspace config (`pre_pr_rubric_categories`) must list '' @
     ''at least one category before planning can proceed''"
| "check_message c (Categories_missing cats) =
     ''validate_rubric_coverage: '' @ str_nat (length cats) @
     '' rubric category/categories have no subtask coverage. Fix:'' @ nl @
     bullets (\<lambda>cat. py_repr cat @
       '' is not advanced by any subtask; assign it to at least one subtask'' @ quote1 @ ''s `rubric_targets`'') cats"
| "check_message c (Categories_unknown us) =
     ''validate_rubric_coverage: subtask(s) reference unknown rubric category/categories. Fix:'' @ nl @
     bullets (\<lambda>(sid, cat). ''subtask '' @ py_repr sid @ '' references category '' @ py_repr cat @
       '' which is not in the workspace'' @ quote1 @ ''s rubric category list ('' @
       py_list (sort (remdups (categories_from_contract c))) @ '')'') us"
| "check_message c (Claims_unexpected us) =
     ''validate_evidence_partition: this node declares no expected_evidence; remove unexpected claim(s):'' @ nl @
     bullets (\<lambda>(sid, e). ''subtask '' @ py_repr sid @ '' claims to advance evidence id '' @ py_repr e @
       '' but the node has no expected_evidence'') us"
| "check_message c (Evidence_partition missing duplicated unknown expected) =
     evidence_message missing duplicated unknown expected"
| "check_message c (Strategy_short n) =
     ''validate_gauntlet_strategy: `gauntlet_strategy` is '' @ str_nat n @
     '' chars (need >= 200). Write a 200-2000 char section explaining how the plan passes each of the four audit '' @
     ''stages on cycle 1 (which subtasks carry rubric weight, how standards alignment is preserved, where witnesses '' @
     ''come from, what local-CI risks Z-99 mops up).''"
| "check_message c (Strategy_long n) =
     ''validate_gauntlet_strategy: `gauntlet_strategy` is '' @ str_nat n @
     '' chars (need <= 2000). Tighten the prose.''"
| "check_message c (Standards_refs bad) =
     ''validate_standards_refs: '' @ str_nat (length bad) @
     '' standards reference(s) do not resolve to a loaded profile doc + section. Fix:'' @ nl @
     bullets (ref_bullet ''standards'' (standards_unknown_doc c)) bad"
| "check_message c (Architecture_refs bad) =
     ''validate_architecture_refs: '' @ str_nat (length bad) @
     '' architecture reference(s) do not resolve under the configured architecture_docs_dir. Fix:'' @ nl @
     bullets (ref_bullet ''architecture'' (architecture_unknown_doc c)) bad"
| "check_message c (Finding_coverage missing duplicated) = finding_message missing duplicated"

section \<open>One call of the planner\<close>

text \<open>\<^verbatim>\<open>_PlannerInvokeOutcome\<close>, or the \<^verbatim>\<open>_PlannerTransientFailure\<close> the caller catches.\<close>

datatype planner_reply = Planned plan string | Reprompt string string | Transport_failed string

definition planner_phase :: "nat \<Rightarrow> nat \<Rightarrow> string" where
  "planner_phase validator_retries parse_retries =
     (let total = validator_retries + parse_retries
      in if total = 0 then ''planner''
         else if 0 < parse_retries \<and> validator_retries = 0 then ''planner_parse_retry_'' @ str_nat parse_retries
         else if 0 < validator_retries \<and> parse_retries = 0 then ''planner_validator_retry_'' @ str_nat validator_retries
         else ''planner_retry_'' @ str_nat total)"

definition parse_error_feedback :: "string list \<Rightarrow> string" where
  "parse_error_feedback errs =
     ''Your previous response failed JSON schema validation:'' @ nl @ nl @
     (if errs = [] then ''(agent returned no structured output)'' else bullets id (take 20 errs)) @ nl @ nl @
     ''Re-emit a single fenced ```json ... ``` block that conforms strictly to the planner schema. '' @
     ''No prose outside the fence.''"

definition runtime_feedback :: "plan_error \<Rightarrow> string" where
  "runtime_feedback e =
     ''Your previous plan was structurally valid JSON but failed the runtime plan validators:'' @ nl @ nl @
     ''```'' @ nl @ plan_error_text False e @ nl @ ''```'' @ nl @ nl @
     ''Re-emit the COMPLETE plan correcting the issue (e.g. duplicate subtask ids, unknown `depends_on`, cycles, or '' @
     ''a `node_id` that doesn'' @ quote1 @ ''t match the task you were planning).''"

definition wire_to_runtime_plan :: "task_worker \<Rightarrow> plan \<Rightarrow> string option \<Rightarrow> plan_error + plan" where
  "wire_to_runtime_plan tw p gate =
     validate_and_build_plan (pd_plan_errors (tw_pydantic tw)) p (Some (tw_id tw)) gate
       (Some (wc_rubric_categories (tw_cfg tw))) (Some (wc_rubric_min_score (tw_cfg tw)))"

definition answer_text :: "task_worker \<Rightarrow> agent_result \<Rightarrow> string" where
  "answer_text tw r =
     or_else (ag_raw_text r) (case ag_structured r of None \<Rightarrow> [] | Some v \<Rightarrow> pd_dump (tw_pydantic tw) v)"

definition planner_answer :: "task_worker \<Rightarrow> agent_result \<Rightarrow> planner_reply wact" where
  "planner_answer tw r =
     (let txt = answer_text tw r; rc_note = str_int (ag_rc r) @ '': '' @ take 500 (ag_stderr_excerpt r)
      in if ag_rc r \<noteq> 0
         then if ag_transient r then py_return (Transport_failed (''planner agent exited transient rc='' @ rc_note))
              else py_raise (RuntimeError (''planner agent exited rc='' @ rc_note))
         else if ag_parse_errors r \<noteq> [] \<or> ag_structured r = None
         then py_return (Reprompt txt (parse_error_feedback (ag_parse_errors r)))
         else case ag_structured r of
                Some (S_planner p) \<Rightarrow> py_return
                  (case wire_to_runtime_plan tw p (Some (wc_local_ci_command (tw_cfg tw))) of
                     Inr pl \<Rightarrow> Planned pl txt
                   | Inl e \<Rightarrow> Reprompt txt (runtime_feedback e))
              | Some v \<Rightarrow> py_raise (RuntimeError (''planner agent returned unexpected schema '' @ schema_name v @
                  ''; expected PlannerOutput'')))"

definition invoke_planner_once :: "task_worker \<Rightarrow> string \<Rightarrow> planner_reply wact" where
  "invoke_planner_once tw ph =
     py_bind (recorded_invoke tw ''planner'' ph None) (\<lambda>r.
     py_then (if answer_text tw r \<noteq> [] then artifact tw ''planner_output'' (answer_text tw r) else py_return ())
       (planner_answer tw r))"

section \<open>The driver\<close>

record planner_state =
  ps_validator_retries :: nat
  ps_parse_retries :: nat
  ps_transient_retries :: int

definition max_validator_retries :: nat where "max_validator_retries = 2"

definition max_parse_error_retries :: nat where "max_parse_error_retries = 2"

text \<open>\<^verbatim>\<open>block_current\<close> with a failure reason, then \<^verbatim>\<open>raise RuntimeError(note)\<close>.\<close>

definition give_up :: "task_worker \<Rightarrow> string \<Rightarrow> string \<Rightarrow> 'a wact" where
  "give_up tw reason note =
     py_then (fsm_call tw block_current (Some note) [F_last_error (Some (take 1000 note)), F_failure_reason (Some reason)])
       (py_raise (RuntimeError note))"

definition keep_plan_text :: "task_worker \<Rightarrow> string \<Rightarrow> unit wact" where
  "keep_plan_text tw txt =
     py_then (py_modify (\<lambda>w. w\<lparr>wd_plan_text := txt\<rparr>)) (on_store (set_field (tw_id tw) [F_plan_text (Some txt)]))"

definition after_transport :: "task_worker \<Rightarrow> planner_state \<Rightarrow> string \<Rightarrow> (planner_state + plan) wact" where
  "after_transport tw s msg =
     (let m = wc_planner_transient_retries (tw_cfg tw)
      in if m \<le> ps_transient_retries s
         then give_up tw ''planner_transport''
                (''planner transport failed after '' @ str_int (m + 1) @ '' transient attempts: '' @ take 500 msg)
         else py_return (Inl (s\<lparr>ps_transient_retries := ps_transient_retries s + 1\<rparr>)))"

definition after_parse_failure :: "task_worker \<Rightarrow> planner_state \<Rightarrow> string \<Rightarrow> (planner_state + plan) wact" where
  "after_parse_failure tw s feedback =
     (if max_parse_error_retries \<le> ps_parse_retries s
      then give_up tw ''planner_parse_failure''
             (''planner output failed schema validation after '' @ str_nat (max_parse_error_retries + 1) @ '' attempts: '' @
              take 500 feedback)
      else py_return (Inl (s\<lparr>ps_parse_retries := ps_parse_retries s + 1\<rparr>)))"

definition after_plan :: "task_worker \<Rightarrow> contract \<Rightarrow> planner_state \<Rightarrow> plan \<Rightarrow> (planner_state + plan) wact" where
  "after_plan tw c s p =
     (case validate_plan p c (tw_evidence tw) of
        None \<Rightarrow> py_return (Inr p)
      | Some e \<Rightarrow>
          if max_validator_retries \<le> ps_validator_retries s
          then give_up tw (''planner_validator_'' @ which_check e)
                 (''planner output failed validator after '' @ str_nat (max_validator_retries + 1) @ '' attempts: '' @
                  check_message c e)
          else py_return (Inl (s\<lparr>ps_validator_retries := ps_validator_retries s + 1\<rparr>)))"

definition planner_turn :: "task_worker \<Rightarrow> contract \<Rightarrow> planner_state \<Rightarrow> (planner_state + plan) wact" where
  "planner_turn tw c s =
     py_bind (invoke_planner_once tw (planner_phase (ps_validator_retries s) (ps_parse_retries s))) (\<lambda>rep. case rep of
       Transport_failed msg \<Rightarrow> after_transport tw s msg
     | Reprompt txt feedback \<Rightarrow> py_then (keep_plan_text tw txt) (after_parse_failure tw s feedback)
     | Planned p txt \<Rightarrow> py_then (keep_plan_text tw txt) (after_plan tw c s p))"

definition planner_start :: planner_state where
  "planner_start = \<lparr>ps_validator_retries = 0, ps_parse_retries = 0, ps_transient_retries = 0\<rparr>"

definition invoke_planner_with_validators :: "task_worker \<Rightarrow> contract \<Rightarrow> plan proc" where
  "invoke_planner_with_validators tw c = p_loop (\<lambda>s. p_act (planner_turn tw c s)) planner_start"

section \<open>The planning phase\<close>

definition has_existing_fixup_subtasks :: "ident \<Rightarrow> db \<Rightarrow> bool" where
  "has_existing_fixup_subtasks tid d \<longleftrightarrow> list_ex (\<lambda>s. starts_with ''fixup-'' (or_else (s_kind s) ''spec'')) (list_subtasks tid d)"

definition initial_spec :: "subtask \<Rightarrow> subtask_spec" where
  "initial_spec s =
     \<lparr>sp_subtask_id = st_id s, sp_title = Some (st_title s), sp_depends_on = Some (st_depends_on s),
      sp_files_to_touch = Some (st_files_to_touch s), sp_boundary = Some (st_boundary s),
      sp_acceptance = Some (st_acceptance s), sp_notes = Some (st_notes s), sp_kind = None, sp_planning_cycle = None,
      sp_planning_kind = None\<rparr>"

text \<open>The plan of the stored text, when it still parses and builds.\<close>

definition stored_plan :: "task_worker \<Rightarrow> string \<Rightarrow> bool \<Rightarrow> plan option" where
  "stored_plan tw txt has_fixups =
     (case pd_parse_plan (tw_pydantic tw) txt of
        Inl _ \<Rightarrow> None
      | Inr p \<Rightarrow>
          (case wire_to_runtime_plan tw p (if has_fixups then None else Some (wc_local_ci_command (tw_cfg tw))) of
             Inl _ \<Rightarrow> None
           | Inr pl \<Rightarrow> Some pl))"

definition ready :: "task_worker \<Rightarrow> string option \<Rightarrow> unit wact" where
  "ready tw note = py_then (on_store (environment_ready (tw_id tw) note [])) (py_return ())"

definition adopt_plan :: "plan \<Rightarrow> unit wact" where
  "adopt_plan p = py_modify (\<lambda>w. w\<lparr>wd_plan := Some p\<rparr>)"

text \<open>The resume path; \<^const>\<open>False\<close> when the text does not parse and the planner has to run.\<close>

definition resume_plan :: "task_worker \<Rightarrow> string \<Rightarrow> bool wact" where
  "resume_plan tw txt =
     py_then (ready tw (Some ''resume - skipping planner''))
     (py_then (py_modify (\<lambda>w. w\<lparr>wd_plan_text := txt\<rparr>))
     (py_bind (store_read (has_existing_fixup_subtasks (tw_id tw))) (\<lambda>has_fixups.
        case stored_plan tw txt has_fixups of
          None \<Rightarrow> py_return False
        | Some p \<Rightarrow>
            py_then (adopt_plan p)
            (py_then
              (on_store (set_field (tw_id tw) [F_resume_from_existing_subtasks (Some 0), F_replan_cycle_marker None]))
              (py_return True)))))"

definition fresh_plan :: "task_worker \<Rightarrow> contract \<Rightarrow> unit proc" where
  "fresh_plan tw c =
     p_then (p_act (ready tw None))
     (p_bind (invoke_planner_with_validators tw c) (\<lambda>p.
        p_act (py_then (adopt_plan p)
          (on_store (upsert_subtasks (tw_id tw) (map initial_spec (p_subtasks p)) 1 ''initial'')))))"

definition plan_task :: "task_worker \<Rightarrow> unit proc" where
  "plan_task tw =
     p_bind (p_act (evaluation_contract tw)) (\<lambda>c.
     p_bind (p_act (the_row tw)) (\<lambda>row.
       if or0 (t_resume_from_existing_subtasks row) \<noteq> 0 \<and> opt_text (t_plan_text row) \<noteq> []
       then p_bind (p_act (resume_plan tw (opt_text (t_plan_text row)))) (\<lambda>resumed.
              if resumed then p_return () else fresh_plan tw c)
       else fresh_plan tw c))"

section \<open>Facts\<close>

lemma keeps_planner_turn [calls_keep]:
  assumes "others_keep store_ok tw"
  shows "wkeeps store_ok (planner_turn tw c s)"
proof -
  have give: "wkeeps store_ok (give_up tw reason msg)" for reason msg
    unfolding give_up_def by (intro keeps_intros)
  have kept: "wkeeps store_ok (keep_plan_text tw t)" for t
    unfolding keep_plan_text_def by (intro keeps_intros keeps_field_update) simp
  have answer: "wkeeps store_ok (planner_answer tw r)" for r
    unfolding planner_answer_def Let_def by (intro keeps_intros) (auto split: structured.splits intro!: keeps_intros)
  have once: "wkeeps store_ok (invoke_planner_once tw ph)" for ph
    unfolding invoke_planner_once_def by (intro keeps_intros calls_keep answer assms)
  show ?thesis
    unfolding planner_turn_def after_transport_def after_parse_failure_def after_plan_def Let_def
    by (intro keeps_intros once) (auto split: planner_reply.splits intro!: keeps_intros give kept)
qed

lemma keeps_ready [keeps_intros]: "wkeeps store_ok (ready tw note)"
  unfolding ready_def environment_ready_def by (intro keeps_intros)

lemma keeps_adopt_plan [keeps_intros]: "wkeeps P (adopt_plan p)"
  unfolding adopt_plan_def by (rule keeps_field_update) simp

lemma keeps_plan_task [p_keeps_intros]: "others_keep store_ok tw \<Longrightarrow> wpkeeps store_ok (plan_task tw)"
  unfolding plan_task_def resume_plan_def fresh_plan_def invoke_planner_with_validators_def
  by (intro p_keeps_intros keeps_intros calls_keep keeps_field_update) simp_all

text \<open>The retries that are left, the present call included.\<close>

definition planner_left :: "int \<Rightarrow> planner_state \<Rightarrow> nat" where
  "planner_left m s = 1 + (2 - ps_validator_retries s) + (2 - ps_parse_retries s) + nat (m - ps_transient_retries s)"

lemma spends_planner_turn:
  "spends (agent_call_of ''planner'') (min 1 (planner_left m s)) (planner_turn tw c s)"
proof -
  note intros = spends_intros only_agents_of
  have give: "spends p 0 (give_up tw reason msg)" for p and reason msg
    unfolding give_up_def by (rule spends_le, (rule intros)+, simp)
  have kept: "spends p 0 (keep_plan_text tw t)" for p t
    unfolding keep_plan_text_def by (rule spends_le, ((rule intros spends_modify) | (simp; fail))+)
  have schema: "spends p 0 (case v of Some (S_planner q) \<Rightarrow> py_return (f q) | Some x \<Rightarrow> py_raise (e x))" if "v \<noteq> None"
    for p f e and v :: "structured option"
    using that by (auto split: structured.splits intro!: spends_intros)
  have answer: "spends p 0 (planner_answer tw r)" for p r
    unfolding planner_answer_def Let_def by (auto intro!: spends_intros(1,2) split: structured.splits option.splits)
  have once: "spends (agent_call_of ''planner'') 1 (invoke_planner_once tw ph)" for ph
    unfolding invoke_planner_once_def by (rule spends_le, (rule intros answer)+, simp)
  have after: "spends p 0 (after_transport tw s msg)" "spends p 0 (after_parse_failure tw s msg)" "spends p 0 (after_plan tw c s q)"
    for p msg q
    unfolding after_transport_def after_parse_failure_def after_plan_def Let_def
    by (rule spends_le, (rule intros give)+, simp)+
  have reply: "spends p 0 (case rep of Transport_failed msg \<Rightarrow> after_transport tw s msg
     | Reprompt t f \<Rightarrow> py_then (keep_plan_text tw t) (after_parse_failure tw s f)
     | Planned q t \<Rightarrow> py_then (keep_plan_text tw t) (after_plan tw c s q))" for p rep
    by (cases rep) (simp_all add: after, (rule spends_le, (rule intros kept after)+, simp)+)
  have "spends (agent_call_of ''planner'') 1 (planner_turn tw c s)"
    unfolding planner_turn_def by (rule spends_le, (rule intros once reply)+, simp)
  then show ?thesis by (simp add: planner_left_def)
qed

lemma give_up_yields: "yields Q (give_up tw reason note)"
  by (simp add: give_up_def yields_def act_simps split: prod.splits sum.splits)

text \<open>A turn that goes on used up a retry; one that leaves has a valid plan for this task.\<close>

definition good_plan :: "task_worker \<Rightarrow> contract \<Rightarrow> plan \<Rightarrow> bool" where
  "good_plan tw c p \<longleftrightarrow>
     validate_plan p c (tw_evidence tw) = None \<and>
     (\<exists>raw. wire_to_runtime_plan tw raw (Some (wc_local_ci_command (tw_cfg tw))) = Inr p)"

definition planner_step_ok :: "task_worker \<Rightarrow> contract \<Rightarrow> planner_state \<Rightarrow> planner_state + plan \<Rightarrow> bool" where
  "planner_step_ok tw c s x \<longleftrightarrow>
     (case x of
        Inl s' \<Rightarrow> planner_left (wc_planner_transient_retries (tw_cfg tw)) s' <
                    planner_left (wc_planner_transient_retries (tw_cfg tw)) s
      | Inr p \<Rightarrow> good_plan tw c p)"

lemma yields_planner_turn: "yields (planner_step_ok tw c s) (planner_turn tw c s)"
proof -
  let ?ok = "\<lambda>rep. case rep of Planned p t \<Rightarrow>
      \<exists>raw. wire_to_runtime_plan tw raw (Some (wc_local_ci_command (tw_cfg tw))) = Inr p | _ \<Rightarrow> True"
  have answer: "yields ?ok (planner_answer tw r)" for r
    unfolding planner_answer_def Let_def
    by (auto intro!: yields_return yields_if split: structured.splits option.splits sum.splits
        simp: yields_def [of _ "py_raise e" for e] act_simps)
  have once: "yields ?ok (invoke_planner_once tw ph)" for ph
    unfolding invoke_planner_once_def by (intro bind_yields then_yields answer)
  show ?thesis
    unfolding planner_turn_def
    by (rule yields_bind [OF once])
      (auto simp: after_transport_def after_parse_failure_def after_plan_def Let_def planner_step_ok_def
        planner_left_def good_plan_def max_parse_error_retries_def max_validator_retries_def
        intro!: then_yields yields_if give_up_yields yields_return split: planner_reply.splits option.splits)
qed

lemma planner_ends:
  "ends_in (agent_call_of ''planner'') (5 + nat (wc_planner_transient_retries (tw_cfg tw))) (good_plan tw c)
     (invoke_planner_with_validators tw c)"
proof -
  let ?f = "planner_left (wc_planner_transient_retries (tw_cfg tw))"
  have "ends_in (agent_call_of ''planner'') (?f planner_start) (good_plan tw c) (invoke_planner_with_validators tw c)"
    unfolding invoke_planner_with_validators_def
  proof (rule ends_loop [where I = "\<lambda>_. True"])
    show "yields (\<lambda>x. case x of Inl s' \<Rightarrow> True \<and> ?f s' < ?f s | Inr p \<Rightarrow> good_plan tw c p) (planner_turn tw c s)" for s
      by (rule yields_weaken [OF yields_planner_turn]) (simp add: planner_step_ok_def split: sum.splits)
  qed (rule TrueI, rule spends_planner_turn)
  moreover have "?f planner_start = 5 + nat (wc_planner_transient_retries (tw_cfg tw))"
    by (simp add: planner_left_def planner_start_def)
  ultimately show ?thesis by (simp only:)
qed

lemma wire_to_runtime_plan_valid:
  assumes "wire_to_runtime_plan tw raw gate = Inr p"
  shows "tw_id tw \<noteq> [] \<longrightarrow> p_node_id p = tw_id tw" and "distinct (map st_id (p_subtasks p))"
    and "\<exists>ts. plan_order p = Inr ts \<and> set ts = set (p_subtasks p) \<and> distinct ts \<and> ordered_after {} ts"
proof -
  have ok: "distinct (map st_id (p_subtasks p))" "deps_known (p_subtasks p)" "acyclic (sub_rel (p_subtasks p))"
    "tw_id tw = [] \<or> tw_id tw = p_node_id raw" "p_node_id p = p_node_id raw"
    using assms unfolding wire_to_runtime_plan_def validate_ok_iff by auto
  from ok(4,5) show "tw_id tw \<noteq> [] \<longrightarrow> p_node_id p = tw_id tw" by auto
  show "distinct (map st_id (p_subtasks p))" by (rule ok(1))
  show "\<exists>ts. plan_order p = Inr ts \<and> set ts = set (p_subtasks p) \<and> distinct ts \<and> ordered_after {} ts"
    using topo_subtasks_spec [OF ok(1,2)] ok(3) by (auto simp: plan_order_def split: sum.splits)
qed

lemma evaluation_contract_db:
  assumes "evaluation_contract tw w = (r, v)"
  shows "wd_db v = wd_db w" and "wd_calls v = wd_calls w"
proof -
  show "wd_db v = wd_db w"
    using keeps_result [OF keeps_contract [where P = "\<lambda>d. d = wd_db w"] refl assms] .
  have "keeps (\<lambda>u. wd_calls u = wd_calls w) (evaluation_contract tw)"
    unfolding evaluation_contract_def adopt_contract_def
    by (intro keeps_intros) (simp_all add: keeps_def py_modify_def)
  from keeps_result [OF this refl assms] show "wd_calls v = wd_calls w" .
qed

text \<open>A transition to a state other than BLOCKED writes the state of the task and appends to the log.\<close>

lemma ready_run:
  assumes "select_state (tw_id tw) (wd_db w) = Some PROVISIONING"
  shows "ready tw note w = (Inr (), w\<lparr>wd_db := moved_db (tw_id tw) PROVISIONING PLANNING
    (note_or note (event_value Ev_ENVIRONMENT_READY)) [] (wd_db w)\<rparr>)"
proof -
  have "target_of PROVISIONING Ev_ENVIRONMENT_READY = Some PLANNING" by code_simp
  then show ?thesis
    by (simp add: ready_def environment_ready_def on_store_def act_simps apply_event_run [OF assms]
        transition_run [OF assms] Let_def)
qed

lemma ready_refused:
  assumes "select_state (tw_id tw) (wd_db w) = Some PLANNING"
  shows "\<exists>e. ready tw note w = (Inl (InvalidTransition e), w)"
proof -
  have "target_of PLANNING Ev_ENVIRONMENT_READY = None" by code_simp
  then show ?thesis by (simp add: ready_def environment_ready_def on_store_def act_simps apply_event_run [OF assms])
qed

section \<open>Properties\<close>

text \<open>
  Planning ends. Whatever the planner answers, the driver returns, after at most one call for each of its three
  budgets' retries and one more: two re-prompts for the schema, two for the validators, the configured number for
  transport.
\<close>

theorem planner_bounded:
  "\<exists>r w'. invoke_planner_with_validators tw c w = Some (r, w') \<and>
     calls_of (agent_call_of ''planner'') w' \<le> 5 + nat (wc_planner_transient_retries (tw_cfg tw)) +
       calls_of (agent_call_of ''planner'') w"
  using planner_ends by (rule endsE) blast

text \<open>
  C20: what planning returns can be run. The plan passes the five validators against the contract and the evidence of the
  node, is for this task, names its subtasks apart and has an order with dependencies first.
\<close>

theorem planner_plan_valid:
  assumes "invoke_planner_with_validators tw c w = Some (Inr p, w')"
  shows "validate_plan p c (tw_evidence tw) = None \<and> (tw_id tw \<noteq> [] \<longrightarrow> p_node_id p = tw_id tw) \<and>
    distinct (map st_id (p_subtasks p)) \<and>
    (\<exists>ts. plan_order p = Inr ts \<and> set ts = set (p_subtasks p) \<and> distinct ts \<and> ordered_after {} ts)"
  using ends_result [OF planner_ends assms] wire_to_runtime_plan_valid unfolding good_plan_def by blast

definition demo_planner :: task_worker where
  "demo_planner = demo_worker\<lparr>tw_cfg := demo_worker_cfg\<lparr>wc_local_ci_command := []\<rparr>, tw_evidence := demo_evidence,
     tw_agent := (\<lambda>_ _. Inr (demo_answer\<lparr>ag_structured := Some (S_planner demo_checked_plan)\<rparr>)),
     tw_pydantic := demo_pydantic\<lparr>pd_parse_plan := (\<lambda>_. Inr demo_checked_plan)\<rparr>\<rparr>"

lemma demo_wire: "wire_to_runtime_plan demo_planner demo_checked_plan gate = Inr demo_checked_plan"
  if "gate = None \<or> gate = Some []"
proof -
  have "validate_and_build_plan (\<lambda>_. []) demo_checked_plan (Some ''T1'') gate (Some [''correctness'']) (Some 4) =
      Inr demo_checked_plan"
    using that by (elim disjE) (simp; code_simp)+
  then show ?thesis by (simp add: wire_to_runtime_plan_def demo_planner_def demo_worker_def demo_pydantic_def demo_worker_cfg_def)
qed

lemma demo_planner_turn:
  "\<exists>w'. planner_turn demo_planner demo_contract planner_start (demo_world []) = (Inr (Inr demo_checked_plan), w')"
proof -
  define r where "r = demo_answer\<lparr>ag_structured := Some (S_planner demo_checked_plan)\<rparr>"
  have "\<exists>w'. recorded_invoke demo_planner role ph sid (demo_world []) = (Inr r, w')" for role ph sid
    by (simp add: recorded_invoke_def invoke_def the_handle_def outside_def on_store_def act_simps demo_planner_def
        demo_worker_def demo_world_def record_agent_call_started_def record_agent_call_finished_def insert_agent_call_def
        update_calls_def tx_run r_def Let_def split: prod.splits)
  then obtain w' where "recorded_invoke demo_planner ''planner'' ''planner'' None (demo_world []) = (Inr r, w')" by blast
  moreover have "answer_text demo_planner r = []"
    by (simp add: answer_text_def r_def demo_answer_def demo_planner_def demo_pydantic_def or_else_def)
  moreover have "planner_answer demo_planner r = py_return (Planned demo_checked_plan [])"
    using demo_wire [of "Some []"]
    by (simp add: planner_answer_def r_def demo_answer_def answer_text_def demo_planner_def demo_pydantic_def or_else_def Let_def)
  moreover have "validate_plan demo_checked_plan demo_contract (tw_evidence demo_planner) = None"
    using demo_plan_checks by (simp add: demo_planner_def)
  ultimately show ?thesis
    by (auto simp: planner_turn_def planner_start_def planner_phase_def invoke_planner_once_def keep_plan_text_def
        after_plan_def act_simps on_store_def set_field_def tx_run split: prod.splits)
qed

theorem planner_plan_valid_witness:
  "\<exists>w'. invoke_planner_with_validators demo_planner demo_contract (demo_world []) = Some (Inr demo_checked_plan, w') \<and>
     p_node_id demo_checked_plan = ''T1'' \<and> (\<exists>ts. plan_order demo_checked_plan = Inr ts \<and> ordered_after {} ts)"
proof -
  obtain w' where "planner_turn demo_planner demo_contract planner_start (demo_world []) = (Inr (Inr demo_checked_plan), w')"
    using demo_planner_turn by blast
  then have "invoke_planner_with_validators demo_planner demo_contract (demo_world []) = Some (Inr demo_checked_plan, w')"
    by (simp add: invoke_planner_with_validators_def p_loop.simps p_act_def)
  from planner_plan_valid [OF this] this show ?thesis by (auto simp: demo_planner_def)
qed

text \<open>
  A stored plan text that no longer parses ends the resume with an exception. The comment promises a fresh plan from
  the agent; but the resume path has already moved the task from PROVISIONING to PLANNING, and the planning path starts
  with the same event, which PLANNING does not accept. The planner is not called.
\<close>

theorem malformed_resume_raises:
  assumes "evaluation_contract tw w = (Inr c, v)" and "find_task (tw_id tw) (wd_db w) = Some row"
    and "t_state row = PROVISIONING" and "or0 (t_resume_from_existing_subtasks row) \<noteq> 0"
    and "t_plan_text row = Some stored" and "stored \<noteq> []"
    and "stored_plan tw stored (has_existing_fixup_subtasks (tw_id tw) (wd_db w)) = None"
  shows "\<exists>e w'. plan_task tw w = Some (Inl (InvalidTransition e), w') \<and> wd_calls w' = wd_calls w \<and>
    select_state (tw_id tw) (wd_db w') = Some PLANNING"
proof -
  have db: "wd_db v = wd_db w" "wd_calls v = wd_calls w" using evaluation_contract_db [OF assms(1)] by simp_all
  have state: "select_state (tw_id tw) (wd_db v) = Some PROVISIONING" using assms(2,3) db by (simp add: select_state_def)
  define u where "u = v\<lparr>wd_db := moved_db (tw_id tw) PROVISIONING PLANNING
    (note_or (Some ''resume - skipping planner'') (event_value Ev_ENVIRONMENT_READY)) [] (wd_db v), wd_plan_text := stored\<rparr>"
  have subs: "has_existing_fixup_subtasks (tw_id tw) (wd_db u) = has_existing_fixup_subtasks (tw_id tw) (wd_db w)"
    by (simp add: u_def db has_existing_fixup_subtasks_def list_subtasks_def task_subtasks_def moved_db_def update_row_def)
  have planning: "select_state (tw_id tw) (wd_db u) = Some PLANNING"
    using select_state_moved_db [OF state] by (simp add: u_def)
  then obtain e where refused: "ready tw None u = (Inl (InvalidTransition e), u)" using ready_refused by blast
  have "resume_plan tw stored v = (Inr False, u)"
    using subs assms(7) by (simp add: resume_plan_def act_simps ready_run [OF state] store_read_def u_def)
  then have "plan_task tw w = Some (Inl (InvalidTransition e), u)"
    using assms(1,2,4-6) db refused
    by (simp add: plan_task_def fresh_plan_def p_bind_def p_act_def p_then_def the_row_def store_read_def act_simps
        opt_text_def)
  with planning db show ?thesis by (auto simp: u_def)
qed

definition demo_resume_world :: world where
  "demo_resume_world = (demo_world [Ev_START_TASK])\<lparr>wd_db :=
     snd (set_field ''T1'' [F_resume_from_existing_subtasks (Some 1), F_plan_text (Some ''plan'')]
       (wd_db (demo_world [Ev_START_TASK])))\<rparr>"

lemma demo_resume_row:
  "map_option (\<lambda>r. (t_state r, t_resume_from_existing_subtasks r, t_plan_text r)) (find_task ''T1'' (wd_db demo_resume_world)) =
     Some (PROVISIONING, Some 1, Some ''plan'')"
  by code_simp

lemma demo_resume_contract:
  "tw_built_contract tw = demo_contract \<Longrightarrow> \<exists>v. evaluation_contract tw demo_resume_world = (Inr demo_contract, v)"
  by (simp add: evaluation_contract_def adopt_contract_def act_simps demo_resume_world_def demo_world_def load_contract_def)

theorem malformed_resume_raises_witness:
  "\<exists>e w'. plan_task demo_worker demo_resume_world = Some (Inl (InvalidTransition e), w') \<and>
     select_state ''T1'' (wd_db w') = Some PLANNING"
proof -
  obtain row where row: "find_task (tw_id demo_worker) (wd_db demo_resume_world) = Some row" "t_state row = PROVISIONING"
    "or0 (t_resume_from_existing_subtasks row) \<noteq> 0" "t_plan_text row = Some ''plan''"
    using demo_resume_row by (auto simp: or0_def)
  obtain v where c: "evaluation_contract demo_worker demo_resume_world = (Inr demo_contract, v)"
    using demo_resume_contract [of demo_worker] by (auto simp: demo_worker_def)
  have "stored_plan demo_worker ''plan'' (has_existing_fixup_subtasks (tw_id demo_worker) (wd_db demo_resume_world)) = None"
    by (simp add: stored_plan_def demo_worker_def demo_pydantic_def)
  from malformed_resume_raises [OF c row _ this] show ?thesis by auto
qed

text \<open>
  A resumed task keeps its plan. When the stored text still parses and builds, planning makes no call at all, adopts
  the plan of the text, leaves the subtask rows as they are and clears the flag, so the next run plans as usual.
\<close>

theorem resume_keeps_plan:
  assumes "evaluation_contract tw w = (Inr c, v)" and "find_task (tw_id tw) (wd_db w) = Some row"
    and "t_state row = PROVISIONING" and "or0 (t_resume_from_existing_subtasks row) \<noteq> 0"
    and "t_plan_text row = Some stored" and "stored \<noteq> []"
    and "stored_plan tw stored (has_existing_fixup_subtasks (tw_id tw) (wd_db w)) = Some p"
  shows "\<exists>w'. plan_task tw w = Some (Inr (), w') \<and> wd_plan w' = Some p \<and> wd_calls w' = wd_calls w \<and>
    task_subtasks (tw_id tw) (wd_db w') = task_subtasks (tw_id tw) (wd_db w) \<and>
    map_option t_resume_from_existing_subtasks (find_task (tw_id tw) (wd_db w')) = Some (Some 0)"
proof -
  have db: "wd_db v = wd_db w" "wd_calls v = wd_calls w" using evaluation_contract_db [OF assms(1)] by simp_all
  have state: "select_state (tw_id tw) (wd_db v) = Some PROVISIONING" using assms(2,3) db by (simp add: select_state_def)
  define d where "d = moved_db (tw_id tw) PROVISIONING PLANNING
    (note_or (Some ''resume - skipping planner'') (event_value Ev_ENVIRONMENT_READY)) [] (wd_db v)"
  have subs: "db_subtasks d = db_subtasks (wd_db w)"
    by (simp add: d_def db moved_db_def update_row_def)
  then have fixups: "has_existing_fixup_subtasks (tw_id tw) d = has_existing_fixup_subtasks (tw_id tw) (wd_db w)"
    by (simp add: has_existing_fixup_subtasks_def list_subtasks_def task_subtasks_def)
  define fs where "fs = [F_resume_from_existing_subtasks (Some 0), F_replan_cycle_marker None]"
  define u where "u = v\<lparr>wd_db := update_row (tw_id tw) (set_task_fields fs) d, wd_plan_text := stored, wd_plan := Some p\<rparr>"
  obtain r where row: "find_task (tw_id tw) d = Some r"
    using select_state_moved_db [OF state, of "tw_id tw" PLANNING] by (fastforce simp: d_def select_state_def)
  then have known: "tw_id tw \<in> set (task_ids d)" by (simp add: in_task_ids_iff select_state_def)
  have stored: "set_field (tw_id tw) fs d = (Inr (), update_row (tw_id tw) (set_task_fields fs) d)"
    using known by (auto simp: set_field_def act_simps fs_def)
  have "ready tw (Some ''resume - skipping planner'') v = (Inr (), v\<lparr>wd_db := d\<rparr>)"
    by (simp only: ready_run [OF state] d_def)
  with assms(7) fixups stored have "resume_plan tw stored v = (Inr True, u)"
    by (simp add: resume_plan_def act_simps store_read_def adopt_plan_def on_store_def u_def fs_def)
  then have "plan_task tw w = Some (Inr (), u)"
    using assms(1,2,4-6) db
    by (simp add: plan_task_def p_bind_def p_act_def p_return_def the_row_def store_read_def act_simps opt_text_def)
  moreover have "map_option t_resume_from_existing_subtasks (find_task (tw_id tw) (wd_db u)) = Some (Some 0)"
    using row by (simp add: u_def find_task_update_row fs_def)
  moreover have "task_subtasks (tw_id tw) (wd_db u) = task_subtasks (tw_id tw) (wd_db w)"
    using subs by (simp add: u_def task_subtasks_def update_row_def)
  ultimately show ?thesis using db by (auto simp: u_def)
qed

theorem resume_keeps_plan_witness:
  "\<exists>w'. plan_task demo_planner demo_resume_world = Some (Inr (), w') \<and> wd_plan w' = Some demo_checked_plan \<and>
     wd_calls w' = []"
proof -
  obtain row where row: "find_task (tw_id demo_planner) (wd_db demo_resume_world) = Some row" "t_state row = PROVISIONING"
    "or0 (t_resume_from_existing_subtasks row) \<noteq> 0" "t_plan_text row = Some ''plan''"
    using demo_resume_row by (auto simp: or0_def demo_planner_def)
  obtain v where c: "evaluation_contract demo_planner demo_resume_world = (Inr demo_contract, v)"
    using demo_resume_contract [of demo_planner] by (auto simp: demo_planner_def demo_worker_def)
  have "pd_parse_plan (tw_pydantic demo_planner) ''plan'' = Inr demo_checked_plan"
    "wc_local_ci_command (tw_cfg demo_planner) = []"
    by (simp_all add: demo_planner_def)
  then have "stored_plan demo_planner ''plan'' b = Some demo_checked_plan" for b
    by (cases b) (simp_all add: stored_plan_def demo_wire)
  from resume_keeps_plan [OF c row _ this] show ?thesis by (auto simp: demo_resume_world_def)
qed

end
