(* ===== verification/FixupRound.thy ===== *)
theory FixupRound
  imports PlannerDrive
begin

text \<open>
  A fixup round: the planner loop of \<^verbatim>\<open>workers/fixup_coverage.py\<close> and \<^verbatim>\<open>_run_fixup_round\<close> of \<^verbatim>\<open>workers/pre_pr.py\<close>. The
  fixup planner turns the findings of a failed audit, a failed CI run or a review into more subtasks, which are appended
  to the task's table and run like the others.
\<close>

section \<open>The planner loop\<close>

record fixup_state =
  fs_retries :: int
  fs_output_retries :: int
  fs_attempt :: nat

definition fixup_start :: "worker_cfg \<Rightarrow> fixup_state" where
  "fixup_start cfg =
     \<lparr>fs_retries = wc_fixup_transient_retries cfg, fs_output_retries = wc_fixup_output_retries cfg, fs_attempt = 0\<rparr>"

text \<open>\<^verbatim>\<open>output_retries_left\<close>: give up, or prompt again with the feedback.\<close>

definition output_retry :: "fixup_state \<Rightarrow> fixup_state + fixup_plan option" where
  "output_retry s =
     (if fs_output_retries s \<le> 0 then Inr None else Inl (s\<lparr>fs_output_retries := fs_output_retries s - 1\<rparr>))"

definition fixup_verdict ::
  "task_worker \<Rightarrow> contract \<Rightarrow> string list option \<Rightarrow> fixup_state \<Rightarrow> agent_result \<Rightarrow> fixup_state + fixup_plan option" where
  "fixup_verdict tw c findings s r =
     (if ag_transient r \<and> 0 < fs_retries s then Inl (s\<lparr>fs_retries := fs_retries s - 1\<rparr>)
      else if ag_rc r \<noteq> 0 then Inr None
      else if ag_parse_errors r \<noteq> [] \<or> ag_structured r = None then output_retry s
      else case ag_structured r of
             Some (S_fixup raw) \<Rightarrow>
               (case validate_fixup_plan (pd_fixup_errors (tw_pydantic tw)) raw c findings of
                  Inr p \<Rightarrow> Inr (Some p)
                | Inl _ \<Rightarrow> output_retry s)
           | _ \<Rightarrow> Inr None)"

definition fixup_turn ::
  "task_worker \<Rightarrow> string \<Rightarrow> int \<Rightarrow> contract \<Rightarrow> string list option \<Rightarrow> fixup_state \<Rightarrow>
   (fixup_state + fixup_plan option) wact" where
  "fixup_turn tw kind round_no c findings s =
     (let s' = s\<lparr>fs_attempt := Suc (fs_attempt s)\<rparr>
      in py_bind (recorded_invoke tw ''fixup_planner'' (''fixup_planner:'' @ kind) None) (\<lambda>r.
         py_then
           (if answer_text tw r \<noteq> []
            then artifact tw (''fixup_planner_output:'' @ kind @ '':'' @ str_int round_no @ '':attempt'' @
                   str_nat (fs_attempt s')) (answer_text tw r)
            else py_return ())
           (py_return (fixup_verdict tw c findings s' r))))"

definition run_fixup_planner_loop ::
  "task_worker \<Rightarrow> string \<Rightarrow> int \<Rightarrow> string list option \<Rightarrow> contract \<Rightarrow> fixup_plan option proc" where
  "run_fixup_planner_loop tw kind round_no findings c =
     p_loop (\<lambda>s. p_act (fixup_turn tw kind round_no c findings s)) (fixup_start (tw_cfg tw))"

definition invoke_fixup_planner :: "task_worker \<Rightarrow> string \<Rightarrow> int \<Rightarrow> string list option \<Rightarrow> fixup_plan option proc" where
  "invoke_fixup_planner tw kind round_no findings =
     p_bind (p_act (evaluation_contract tw)) (run_fixup_planner_loop tw kind round_no findings)"

section \<open>The round\<close>

definition usable :: "fixup_plan option \<Rightarrow> bool" where
  "usable p \<longleftrightarrow> (case p of None \<Rightarrow> False | Some q \<Rightarrow> fx_subtasks q \<noteq> [])"

text \<open>The ids the completeness check finds missing in a usable plan of an audit round.\<close>

definition missing_in :: "string \<Rightarrow> string list option \<Rightarrow> fixup_plan option \<Rightarrow> string list" where
  "missing_in kind findings p =
     (case (p, findings) of
        (Some q, Some fs) \<Rightarrow>
          if usable p \<and> kind = ''fixup-pre-pr-audit'' then missing_finding_coverage q fs else []
      | _ \<Rightarrow> [])"

definition still_missing_note :: "string list \<Rightarrow> string \<Rightarrow> int \<Rightarrow> string" where
  "still_missing_note missing kind round_no =
     ''fixup planner still missed '' @ str_nat (length missing) @ '' finding(s) after re-prompt for '' @ kind @ '' round '' @
     str_int round_no @ '': '' @ join '', '' (take 8 (sort missing)) @ ''; BLOCKing''"

definition no_plan_note :: "string \<Rightarrow> int \<Rightarrow> string \<Rightarrow> string" where
  "no_plan_note kind round_no trigger =
     ''fixup planner returned empty/invalid plan for '' @ kind @ '' round '' @ str_int round_no @ '' ('' @ trigger @
     ''); BLOCKing for operator review''"

definition block_round :: "task_worker \<Rightarrow> string \<Rightarrow> (worker_outcome + fixup_plan) wact" where
  "block_round tw msg =
     py_then (fsm_call tw block_current (Some msg) [F_last_error (Some (take 1000 msg))])
       (py_return (Inl (outcome BLOCKED msg)))"

definition settle_fixup_plan :: "task_worker \<Rightarrow> string \<Rightarrow> int \<Rightarrow> string \<Rightarrow> fixup_plan option \<Rightarrow> (worker_outcome + fixup_plan) wact" where
  "settle_fixup_plan tw kind round_no trigger p =
     (case p of
        None \<Rightarrow> block_round tw (no_plan_note kind round_no trigger)
      | Some q \<Rightarrow>
          if fx_subtasks q = [] then block_round tw (no_plan_note kind round_no trigger) else py_return (Inr q))"

text \<open>Up to the plan: at most one more call when the first plan misses findings, and BLOCKED when it still does.\<close>

definition obtain_fixup_plan ::
  "task_worker \<Rightarrow> string \<Rightarrow> int \<Rightarrow> string \<Rightarrow> string list option \<Rightarrow> (worker_outcome + fixup_plan) proc" where
  "obtain_fixup_plan tw kind round_no trigger findings =
     p_bind (invoke_fixup_planner tw kind round_no findings) (\<lambda>p.
       if missing_in kind findings p = [] then p_act (settle_fixup_plan tw kind round_no trigger p)
       else p_bind (invoke_fixup_planner tw kind round_no findings) (\<lambda>q.
         if missing_in kind findings q \<noteq> []
         then p_act (block_round tw (still_missing_note (missing_in kind findings q) kind round_no))
         else p_act (settle_fixup_plan tw kind round_no trigger q)))"

definition fixup_spec :: "string \<Rightarrow> subtask \<Rightarrow> subtask_spec" where
  "fixup_spec kind s = (initial_spec s)\<lparr>sp_kind := Some (or_else (st_kind s) kind)\<rparr>"

definition planning_kind :: "string \<Rightarrow> string" where
  "planning_kind kind = (if kind = ''fixup-ci'' then ''fixup_ci'' else ''fixup'')"

definition open_round :: "task_worker \<Rightarrow> string \<Rightarrow> int \<Rightarrow> string \<Rightarrow> unit wact" where
  "open_round tw kind round_no trigger =
     py_then (fsm_call tw enter_fixup_planning (Some (kind @ '' round '' @ str_int round_no @ '' ('' @ trigger @ '')'')) [])
       (py_catch
         (py_then
           (on_store (increment_cycle_in_phase (tw_id tw) None
              (Some (''fixup-planner round '' @ str_int round_no @ '' ('' @ trigger @ '')''))))
           (py_return ()))
         (\<lambda>_. py_return ()))"

definition run_fixup_round ::
  "task_worker \<Rightarrow> string \<Rightarrow> int \<Rightarrow> string \<Rightarrow> string list option \<Rightarrow> worker_outcome option proc" where
  "run_fixup_round tw kind round_no trigger findings =
     p_then (p_act (open_round tw kind round_no trigger))
     (p_bind (obtain_fixup_plan tw kind round_no trigger findings) (\<lambda>res. case res of
        Inl oc \<Rightarrow> p_return (Some oc)
      | Inr p \<Rightarrow>
          p_then
            (p_act (on_store (append_subtasks (tw_id tw) (map (fixup_spec kind) (fx_subtasks p)) None (planning_kind kind))))
            (run_subtask_set tw (fx_subtasks p))))"

section \<open>Facts\<close>

lemma keeps_fixup_turn [calls_keep]:
  "others_keep store_ok tw \<Longrightarrow> wkeeps store_ok (fixup_turn tw kind n c findings s)"
  unfolding fixup_turn_def Let_def by (intro keeps_intros calls_keep)

lemma keeps_invoke_fixup [p_keeps_intros]:
  "others_keep store_ok tw \<Longrightarrow> wpkeeps store_ok (invoke_fixup_planner tw kind n findings)"
  unfolding invoke_fixup_planner_def run_fixup_planner_loop_def
  by (intro p_keeps_intros keeps_intros calls_keep)

lemma keeps_obtain_fixup [p_keeps_intros]:
  "others_keep store_ok tw \<Longrightarrow> wpkeeps store_ok (obtain_fixup_plan tw kind n trigger findings)"
  unfolding obtain_fixup_plan_def settle_fixup_plan_def block_round_def
  by (intro p_keeps_intros keeps_intros)

lemma keeps_fixup_round [p_keeps_intros]:
  "others_keep store_ok tw \<Longrightarrow> wpkeeps store_ok (run_fixup_round tw kind n trigger findings)"
  unfolding run_fixup_round_def open_round_def by (intro p_keeps_intros keeps_intros)

definition fixup_left :: "fixup_state \<Rightarrow> nat" where
  "fixup_left s = 1 + nat (fs_retries s) + nat (fs_output_retries s)"

lemma spends_fixup_turn:
  "spends (agent_call_of ''fixup_planner'') (min 1 (fixup_left s)) (fixup_turn tw kind n c findings s)"
proof -
  have "spends (agent_call_of ''fixup_planner'') 1 (fixup_turn tw kind n c findings s)"
    unfolding fixup_turn_def Let_def by (rule spends_le, (rule spends_intros only_agents_of)+, simp)
  then show ?thesis by (simp add: fixup_left_def)
qed

definition fixup_step_ok ::
  "task_worker \<Rightarrow> contract \<Rightarrow> string list option \<Rightarrow> fixup_state \<Rightarrow> fixup_state + fixup_plan option \<Rightarrow> bool" where
  "fixup_step_ok tw c findings s x \<longleftrightarrow>
     (case x of
        Inl s' \<Rightarrow> fixup_left s' < fixup_left s
      | Inr p \<Rightarrow> (\<forall>q. p = Some q \<longrightarrow>
          (\<exists>raw. validate_fixup_plan (pd_fixup_errors (tw_pydantic tw)) raw c findings = Inr q)))"

lemma output_retry_ok: "fixup_step_ok tw c findings s (output_retry (s\<lparr>fs_attempt := n\<rparr>))"
  by (simp add: output_retry_def fixup_step_ok_def fixup_left_def)

lemma yields_fixup_turn: "yields (fixup_step_ok tw c findings s) (fixup_turn tw kind n c findings s)"
proof -
  have "fixup_step_ok tw c findings s (fixup_verdict tw c findings (s\<lparr>fs_attempt := m\<rparr>) r)" for m r
    using output_retry_ok [of tw c findings s m]
    by (auto simp: fixup_verdict_def fixup_step_ok_def [of _ _ _ _ "Inr x" for x] fixup_step_ok_def [of _ _ _ _ "Inl x" for x]
        fixup_left_def split: option.splits structured.splits sum.splits)
  then show ?thesis
    unfolding fixup_turn_def Let_def by (intro bind_yields then_yields yields_return)
qed

definition accepted_by :: "task_worker \<Rightarrow> contract \<Rightarrow> string list option \<Rightarrow> fixup_plan option \<Rightarrow> bool" where
  "accepted_by tw c findings p \<longleftrightarrow>
     (\<forall>q. p = Some q \<longrightarrow> (\<exists>raw. validate_fixup_plan (pd_fixup_errors (tw_pydantic tw)) raw c findings = Inr q))"

abbreviation fixup_call :: "call \<Rightarrow> bool" where
  "fixup_call \<equiv> agent_call_of ''fixup_planner''"

definition fixup_budget :: "task_worker \<Rightarrow> nat" where
  "fixup_budget tw = 1 + nat (wc_fixup_transient_retries (tw_cfg tw)) + nat (wc_fixup_output_retries (tw_cfg tw))"

lemma fixup_planner_ends:
  "ends_in fixup_call (fixup_budget tw) (\<lambda>p. \<exists>c. accepted_by tw c findings p) (invoke_fixup_planner tw kind n findings)"
proof -
  have loop: "ends_in fixup_call (fixup_left (fixup_start (tw_cfg tw))) (accepted_by tw c findings)
      (run_fixup_planner_loop tw kind n findings c)" for c
    unfolding run_fixup_planner_loop_def
  proof (rule ends_loop [where I = "\<lambda>_. True"])
    show "yields (\<lambda>x. case x of Inl s' \<Rightarrow> True \<and> fixup_left s' < fixup_left s | Inr p \<Rightarrow> accepted_by tw c findings p)
        (fixup_turn tw kind n c findings s)" for s
      by (rule yields_weaken [OF yields_fixup_turn]) (simp add: fixup_step_ok_def accepted_by_def split: sum.splits)
  qed (rule TrueI, rule spends_fixup_turn)
  have "ends_in fixup_call (0 + fixup_left (fixup_start (tw_cfg tw))) (\<lambda>p. \<exists>c. accepted_by tw c findings p)
      (invoke_fixup_planner tw kind n findings)"
    unfolding invoke_fixup_planner_def
    by (rule ends_bind [where R = "\<lambda>_. True"], rule ends_act [OF spends_contract])
      (simp add: yields_def, rule ends_weaken [OF loop], auto)
  then show ?thesis by (simp add: fixup_left_def fixup_start_def fixup_budget_def)
qed

text \<open>An accepted plan misses parse failures at most.\<close>

lemma accepted_missing:
  assumes "accepted_by tw c findings p" and "\<forall>fs. findings = Some fs \<longrightarrow> \<not> list_ex is_parse_failure_finding fs"
  shows "missing_in kind findings p = []"
proof (rule ccontr)
  assume "missing_in kind findings p \<noteq> []"
  then obtain q fs f where q: "p = Some q" "findings = Some fs" "f \<in> set (missing_finding_coverage q fs)"
    by (fastforce simp: missing_in_def neq_Nil_conv split: option.splits if_splits)
  moreover from q(3) have "f \<in> set fs" by (simp add: missing_finding_coverage_def)
  ultimately show False
    using assms accepted_covered [of "pd_fixup_errors (tw_pydantic tw)" _ c fs q f]
    by (auto simp: accepted_by_def list_ex_iff)
qed

text \<open>What a round starts to run: a plan the validators accepted, with subtasks, that misses no finding.\<close>

definition runnable ::
  "task_worker \<Rightarrow> string \<Rightarrow> string list option \<Rightarrow> worker_outcome + fixup_plan \<Rightarrow> bool" where
  "runnable tw kind findings res \<longleftrightarrow>
     (case res of
        Inl oc \<Rightarrow> wo_final_state oc = BLOCKED
      | Inr q \<Rightarrow> fx_subtasks q \<noteq> [] \<and> missing_in kind findings (Some q) = [] \<and>
          (\<exists>c. accepted_by tw c findings (Some q)))"

lemma settle_ends:
  assumes "\<exists>c. accepted_by tw c findings p" and "missing_in kind findings p = []"
  shows "ends_in fixup_call 0 (runnable tw kind findings) (p_act (settle_fixup_plan tw kind n trigger p))"
proof (rule ends_act)
  have block: "spends fixup_call 0 (block_round tw msg)" for msg
    unfolding block_round_def by (rule spends_le, (rule spends_intros)+, simp)
  show "spends fixup_call 0 (settle_fixup_plan tw kind n trigger p)"
    unfolding settle_fixup_plan_def by (rule spends_le, (rule spends_intros block)+, simp)
  show "yields (runnable tw kind findings) (settle_fixup_plan tw kind n trigger p)"
    using assms by (auto simp: settle_fixup_plan_def block_round_def runnable_def outcome_def split: option.splits
      intro!: then_yields yields_return)
qed

lemma obtain_fixup_ends:
  "ends_in fixup_call (fixup_budget tw + fixup_budget tw) (runnable tw kind findings)
     (obtain_fixup_plan tw kind n trigger findings)"
  unfolding obtain_fixup_plan_def
proof (rule ends_bind [OF fixup_planner_ends])
  fix p assume p: "\<exists>c. accepted_by tw c findings p"
  have block: "ends_in fixup_call 0 (runnable tw kind findings) (p_act (block_round tw msg))" for msg
    unfolding block_round_def
    by (rule ends_act, rule spends_le, (rule spends_intros)+, simp)
      (auto simp: runnable_def outcome_def intro!: then_yields yields_return)
  have second: "ends_in fixup_call (fixup_budget tw + 0) (runnable tw kind findings)
     (p_bind (invoke_fixup_planner tw kind n findings) (\<lambda>q.
       if missing_in kind findings q \<noteq> [] then p_act (block_round tw (m q))
       else p_act (settle_fixup_plan tw kind n trigger q)))" for m
    by (rule ends_bind [OF fixup_planner_ends]) (auto intro: block settle_ends)
  then show "ends_in fixup_call (fixup_budget tw) (runnable tw kind findings)
     (if missing_in kind findings p = [] then p_act (settle_fixup_plan tw kind n trigger p)
      else p_bind (invoke_fixup_planner tw kind n findings) (\<lambda>q.
        if missing_in kind findings q \<noteq> [] then p_act (block_round tw (still_missing_note (missing_in kind findings q) kind n))
        else p_act (settle_fixup_plan tw kind n trigger q)))"
    using ends_weaken [OF settle_ends [OF p]] by auto
qed

lemma obtain_fixup_once:
  assumes "\<forall>fs. findings = Some fs \<longrightarrow> \<not> list_ex is_parse_failure_finding fs"
  shows "ends_in fixup_call (fixup_budget tw) (runnable tw kind findings) (obtain_fixup_plan tw kind n trigger findings)"
proof -
  have "ends_in fixup_call (fixup_budget tw + 0) (runnable tw kind findings) (obtain_fixup_plan tw kind n trigger findings)"
    unfolding obtain_fixup_plan_def
  proof (rule ends_bind [OF fixup_planner_ends])
    fix p assume p: "\<exists>c. accepted_by tw c findings p"
    with accepted_missing [OF _ assms] have "missing_in kind findings p = []" by blast
    with settle_ends [OF p] show "ends_in fixup_call 0 (runnable tw kind findings)
       (if missing_in kind findings p = [] then p_act (settle_fixup_plan tw kind n trigger p)
        else p_bind (invoke_fixup_planner tw kind n findings) (\<lambda>q.
          if missing_in kind findings q \<noteq> [] then p_act (block_round tw (still_missing_note (missing_in kind findings q) kind n))
          else p_act (settle_fixup_plan tw kind n trigger q)))" by simp
  qed
  then show ?thesis by simp
qed

lemma run_one_done:
  assumes "subtask_boundary_checks tw w = (Inr None, v)"
    and "map_option s_state (get_subtask (tw_id tw) (st_id sub) (wd_db v)) = Some Sub_DONE"
  shows "run_one_subtask tw subs sub w = Some (Inr None, v)"
  using assms by (simp add: run_one_subtask_def p_bind_def p_act_def p_return_def store_read_def act_simps Let_def)

lemma append_known:
  assumes "set (map sp_subtask_id specs) \<subseteq> set (map s_subtask_id (task_subtasks tid d))"
  shows "append_subtasks tid specs cycle kind d = (Inr (), d)"
proof -
  have "filter (\<lambda>s. sp_subtask_id s \<notin> s_subtask_id ` set (task_subtasks tid d)) specs = []"
    using assms by (auto simp: filter_empty_conv)
  then show ?thesis by (simp add: append_subtasks_def act_simps Let_def)
qed

section \<open>Properties\<close>

text \<open>
  Fixup planning ends. Whatever the fixup planner answers, a round has its plan or is BLOCKED after at most one call,
  plus one for each transient and each output retry configured; only when the findings name a parse failure, which the
  validator skips and the completeness check does not, may it start over once.
\<close>

theorem fixup_planning_bounded:
  "\<exists>r w'. obtain_fixup_plan tw kind n trigger findings w = Some (r, w') \<and>
     calls_of fixup_call w' \<le>
       (if findings \<noteq> None \<and> list_ex is_parse_failure_finding (the findings) then 2 else 1) *
         (1 + nat (wc_fixup_transient_retries (tw_cfg tw)) + nat (wc_fixup_output_retries (tw_cfg tw))) +
       calls_of fixup_call w"
proof (cases "findings \<noteq> None \<and> list_ex is_parse_failure_finding (the findings)")
  case True
  from endsE [OF obtain_fixup_ends, of tw kind n trigger findings w] obtain r w' where
    "obtain_fixup_plan tw kind n trigger findings w = Some (r, w')"
    "calls_of fixup_call w' \<le> fixup_budget tw + fixup_budget tw + calls_of fixup_call w" by metis
  with True show ?thesis by (simp add: fixup_budget_def)
next
  case False
  then have "\<forall>fs. findings = Some fs \<longrightarrow> \<not> list_ex is_parse_failure_finding fs" by auto
  from endsE [OF obtain_fixup_once [OF this], of tw kind n trigger w] obtain r w' where
    "obtain_fixup_plan tw kind n trigger findings w = Some (r, w')"
    "calls_of fixup_call w' \<le> fixup_budget tw + calls_of fixup_call w" by metis
  with False show ?thesis by (auto simp: fixup_budget_def)
qed


definition demo_fixer :: task_worker where
  "demo_fixer = demo_worker\<lparr>tw_agent := (\<lambda>_ _. Inr (demo_answer\<lparr>ag_structured := Some (S_fixup demo_fixup)\<rparr>))\<rparr>"

definition demo_findings :: "string list" where
  "demo_findings = [''rubric:gap-1'', ''standards:py/naming.md'']"

lemma demo_fixup_valid: "validate_fixup_plan (\<lambda>_. []) demo_fixup demo_contract (Some demo_findings) = Inr demo_fixup"
  by code_simp

lemma demo_fixup_turn:
  "\<exists>w'. fixup_turn demo_fixer kind n demo_contract (Some demo_findings) s w = (Inr (Inr (Some demo_fixup)), w')"
  if "wd_handle w = Some h"
proof -
  define r where "r = demo_answer\<lparr>ag_structured := Some (S_fixup demo_fixup)\<rparr>"
  have "\<exists>w'. recorded_invoke demo_fixer role ph sid w = (Inr r, w')" for role ph sid
    using that by (simp add: recorded_invoke_def invoke_def the_handle_def outside_def on_store_def act_simps demo_fixer_def
        demo_worker_def record_agent_call_started_def record_agent_call_finished_def insert_agent_call_def
        update_calls_def tx_run r_def Let_def split: prod.splits)
  then obtain w' where "recorded_invoke demo_fixer ''fixup_planner'' (''fixup_planner:'' @ kind) None w = (Inr r, w')" by blast
  moreover have "answer_text demo_fixer r = []"
    by (simp add: answer_text_def r_def demo_answer_def demo_fixer_def demo_worker_def demo_pydantic_def or_else_def)
  moreover have "fixup_verdict demo_fixer demo_contract (Some demo_findings) t r = Inr (Some demo_fixup)" for t
    using demo_fixup_valid
    by (simp add: fixup_verdict_def r_def demo_answer_def demo_fixer_def demo_worker_def demo_pydantic_def)
  ultimately show ?thesis by (simp add: fixup_turn_def act_simps Let_def)
qed


text \<open>
  A fixup subtask that takes the identifier of a finished subtask is never worked on. Appending leaves the old row as it
  is, and the round then finds it DONE and settles it without calling the doer, so the finding it was planned for stays.
\<close>

theorem fixup_collision_settles:
  assumes "map_option s_state (get_subtask (tw_id tw) (st_id sub) (wd_db w)) = Some Sub_DONE"
    and "subtask_boundary_checks tw w = (Inr None, v)"
    and "map_option s_state (get_subtask (tw_id tw) (st_id sub) (wd_db v)) = Some Sub_DONE"
  shows "append_subtasks (tw_id tw) [fixup_spec kind sub] None (planning_kind kind) (wd_db w) = (Inr (), wd_db w) \<and>
    run_subtask_set tw [sub] w = Some (Inr None, v)"
proof
  obtain r where "r \<in> set (task_subtasks (tw_id tw) (wd_db w))" "s_subtask_id r = st_id sub"
    using assms(1) by (auto simp: get_subtask_def find_subtask_def task_subtasks_def dest: find_SomeD)
  then show "append_subtasks (tw_id tw) [fixup_spec kind sub] None (planning_kind kind) (wd_db w) = (Inr (), wd_db w)"
    by (intro append_known) (force simp: fixup_spec_def initial_spec_def)
  show "run_subtask_set tw [sub] w = Some (Inr None, v)"
    using run_one_done [OF assms(2,3)] by (simp add: run_subtask_set_def p_bind_def p_return_def p_act_def py_return_def)
qed

definition demo_done_world :: world where
  "demo_done_world = (demo_world [])\<lparr>wd_db :=
     snd (py_then (upsert_subtasks ''T1'' [demo_spec ''S1''] 1 ''initial'')
       (update_subtask ''T1'' ''S1'' [SF_state Sub_DONE]) (wd_db (demo_world [])))\<rparr>"

lemma demo_done_state: "map_option s_state (get_subtask ''T1'' ''S1'' (wd_db demo_done_world)) = Some Sub_DONE"
  by code_simp

lemma demo_done_boundary: "fst (subtask_boundary_checks demo_worker demo_done_world) = Inr None"
  by code_simp

lemma demo_done_boundary_state:
  "map_option s_state (get_subtask ''T1'' ''S1'' (wd_db (snd (subtask_boundary_checks demo_worker demo_done_world)))) =
     Some Sub_DONE"
  by code_simp

theorem fixup_collision_settles_witness:
  "append_subtasks ''T1'' [fixup_spec ''fixup-ci'' demo_checked_subtask] None ''fixup_ci'' (wd_db demo_done_world) =
     (Inr (), wd_db demo_done_world) \<and>
   (\<exists>v. run_subtask_set demo_worker [demo_checked_subtask] demo_done_world = Some (Inr None, v))"
proof -
  let ?v = "snd (subtask_boundary_checks demo_worker demo_done_world)"
  have ids: "st_id demo_checked_subtask = ''S1''" "planning_kind ''fixup-ci'' = ''fixup_ci''"
    by (simp_all add: demo_checked_subtask_def demo_subtask_def planning_kind_def)
  have "subtask_boundary_checks demo_worker demo_done_world = (Inr None, ?v)"
    by (rule prod_eqI) (simp_all add: demo_done_boundary)
  from fixup_collision_settles [OF _ this, of demo_checked_subtask "''fixup-ci''"] demo_done_state demo_done_boundary_state
  show ?thesis by (auto simp: ids)
qed

end
