(* ===== verification/AuditStages.thy ===== *)
theory AuditStages
  imports FixupRound
begin

text \<open>
  The five stages of the audit gauntlet: \<^verbatim>\<open>pre_pr_audit.py\<close>, \<^verbatim>\<open>pre_pr_audit_standards.py\<close>,
  \<^verbatim>\<open>pre_pr_audit_architecture.py\<close>, \<^verbatim>\<open>pre_pr_audit_refs.py\<close> and the reports of \<^verbatim>\<open>workers/pre_pr_reports.py\<close>. A stage
  gives an outcome; a finding is the dictionary of the source, a JSON object with its keys in their order. The prompt
  of an auditor is not represented, the sections it cites are.
\<close>

section \<open>Outcomes\<close>

record stage_outcome =
  so_name :: stage_name
  so_passed :: bool
  so_summary :: string
  so_raw_output :: string
  so_findings :: "json list"

record cycle_result =
  cy_cycle :: int
  cy_stages :: "stage_outcome list"

definition failed_stages :: "cycle_result \<Rightarrow> stage_outcome list" where
  "failed_stages cr = filter (\<lambda>s. \<not> so_passed s) (cy_stages cr)"

definition cycle_passed :: "cycle_result \<Rightarrow> bool" where
  "cycle_passed cr \<longleftrightarrow> list_all so_passed (cy_stages cr)"

text \<open>\<^verbatim>\<open>_tail\<close>.\<close>

definition log_tail :: "string \<Rightarrow> nat \<Rightarrow> string" where
  "log_tail t n = (let ls = splitlines t in if n < length ls then join nl (tail_of n ls) else t)"

text \<open>\<^verbatim>\<open>str(finding.get(key) or "")\<close>.\<close>

definition str_or_empty :: "json \<Rightarrow> string \<Rightarrow> string" where
  "str_or_empty f key =
     (case jget f key of None \<Rightarrow> [] | Some v \<Rightarrow> if json_true (Some v) then json_str v else [])"

section \<open>Severities\<close>

definition finding_severity :: "json \<Rightarrow> string" where
  "finding_severity f = map lower_char (str_or_empty f ''severity'')"

definition severity_count :: "json list \<Rightarrow> string \<Rightarrow> nat" where
  "severity_count fs sev = length (filter (\<lambda>f. finding_severity f = sev) fs)"

definition severity_counts :: "json list \<Rightarrow> (string \<times> nat) list" where
  "severity_counts fs = map (\<lambda>s. (s, severity_count fs s)) [''low'', ''medium'', ''high'', ''critical'']"

definition severity_budget_violations :: "json list \<Rightarrow> nat \<times> nat \<times> nat \<Rightarrow> (string \<times> nat \<times> nat) list" where
  "severity_budget_violations fs budget =
     (case budget of (m, h, c) \<Rightarrow>
        [(s, severity_count fs s, b). (s, b) \<leftarrow> [(''medium'', m), (''high'', h), (''critical'', c)],
           b < severity_count fs s])"

definition severity_budget_summary :: "json list \<Rightarrow> string" where
  "severity_budget_summary fs =
     str_nat (severity_count fs ''critical'') @ '' critical, '' @ str_nat (severity_count fs ''high'') @ '' high, '' @
     str_nat (severity_count fs ''medium'') @ '' medium, '' @ str_nat (severity_count fs ''low'') @ '' low''"

definition format_severity_budget_violations :: "(string \<times> nat \<times> nat) list \<Rightarrow> string" where
  "format_severity_budget_violations vs =
     join '', '' (map (\<lambda>(s, n, b). s @ '' '' @ str_nat n @ ''/'' @ str_nat b) vs)"

section \<open>The local CI gate\<close>

definition message_finding :: "string \<Rightarrow> string \<Rightarrow> json" where
  "message_finding kind msg = JObj [(''kind'', JStr kind), (''message'', JStr msg)]"

definition failed_outcome :: "stage_name \<Rightarrow> string \<Rightarrow> string \<Rightarrow> json list \<Rightarrow> stage_outcome" where
  "failed_outcome n summary raw fs =
     \<lparr>so_name = n, so_passed = False, so_summary = summary, so_raw_output = raw, so_findings = fs\<rparr>"

definition passed_outcome :: "stage_name \<Rightarrow> string \<Rightarrow> string \<Rightarrow> json list \<Rightarrow> stage_outcome" where
  "passed_outcome n summary raw fs =
     \<lparr>so_name = n, so_passed = True, so_summary = summary, so_raw_output = raw, so_findings = fs\<rparr>"

definition local_ci_raised :: "py_error \<Rightarrow> stage_outcome" where
  "local_ci_raised e =
     failed_outcome Stage_local_ci (''local CI raised: '' @ err_text e) (take 2000 (err_text e))
       [message_finding ''infra'' (take 500 (err_text e))]"

definition local_ci_result :: "string \<Rightarrow> run_result \<Rightarrow> stage_outcome" where
  "local_ci_result cmd res =
     (case res of (rc, out, err) \<Rightarrow>
        let blob = out @ nl @ err
        in if rc = 0
           then passed_outcome Stage_local_ci (''local CI passed: `'' @ cmd @ ''` rc=0'') (log_tail blob 80) []
           else failed_outcome Stage_local_ci (''local CI failed: rc='' @ str_int rc @ '' (full output below)'')
                  (log_tail blob 600) [])"

definition run_local_ci_gate :: "task_worker \<Rightarrow> stage_outcome wact" where
  "run_local_ci_gate tw =
     (let cmd = strip (wc_local_ci_command (tw_cfg tw))
      in if cmd = []
         then py_return (failed_outcome Stage_local_ci
                (''cfg.local_ci_command is empty '' @ em_dash @ '' pipeline cannot validate'') []
                [message_finding ''config_error''
                   (''Set cfg.local_ci_command (e.g. '' @ quote1 @ ''just ci'' @ quote1 @ '') to enable the gate.'')])
         else py_catch
           (py_bind (exec_in tw (bash cmd) (Some (wc_local_ci_timeout_s (tw_cfg tw)))) (\<lambda>res.
              py_return (local_ci_result cmd res)))
           (\<lambda>e. case e of
              TimeoutExpired _ \<Rightarrow> py_return (local_ci_raised e)
            | OSError _ \<Rightarrow> py_return (local_ci_raised e)
            | _ \<Rightarrow> py_raise e))"

section \<open>Asking an auditor\<close>

definition parse_failure_outcome :: "stage_name \<Rightarrow> agent_result \<Rightarrow> stage_outcome" where
  "parse_failure_outcome n r =
     (let msg = stage_value n @ '' audit response failed schema validation''
      in failed_outcome n (msg @ '' '' @ em_dash @ '' failing closed (parse_failure)'') (log_tail (ag_raw_text r) 200)
           [JObj [(''kind'', JStr ''parse_failure''), (''message'', JStr msg),
                  (''rationale'', JStr (if ag_parse_errors r = [] then ''no structured output''
                                       else take 500 (join ''; '' (ag_parse_errors r)))),
                  (''parse_errors'', strs (ag_parse_errors r))]])"

definition agent_failure_outcome :: "stage_name \<Rightarrow> agent_result \<Rightarrow> stage_outcome" where
  "agent_failure_outcome n r =
     failed_outcome n (stage_value n @ '' agent rc='' @ str_int (ag_rc r)) (log_tail (ag_raw_text r) 80)
       [JObj [(''kind'', JStr ''infra''), (''message'', JStr (stage_value n @ '' agent failed'')), (''rc'', JNum (ag_rc r))]]"

definition render_failure_outcome :: "stage_name \<Rightarrow> py_error \<Rightarrow> stage_outcome" where
  "render_failure_outcome n e =
     failed_outcome n (stage_value n @ '' prompt render failed: '' @ err_text e) []
       [message_finding ''infra'' (take 500 (err_text e))]"

definition schema_mismatch_outcome :: "stage_name \<Rightarrow> string \<Rightarrow> string \<Rightarrow> stage_outcome" where
  "schema_mismatch_outcome n got wanted =
     failed_outcome n (stage_value n @ '' agent returned unexpected schema '' @ got @ ''; expected '' @ wanted) []
       [message_finding ''infra'' ''registry/schema mismatch'']"

text \<open>What an answer with return code 0 settles: an outcome, or the instance of the expected schema.\<close>

definition checked_answer ::
  "stage_name \<Rightarrow> string \<Rightarrow> agent_result \<Rightarrow> stage_outcome + structured \<times> agent_result" where
  "checked_answer n wanted r =
     (case ag_structured r of
        None \<Rightarrow> Inl (parse_failure_outcome n r)
      | Some v \<Rightarrow>
          if schema_name v \<noteq> wanted then Inl (schema_mismatch_outcome n (schema_name v) wanted) else Inr (v, r))"

text \<open>The loop over the attempts; \<open>k\<close> are left after this one.\<close>

fun audit_attempts ::
  "task_worker \<Rightarrow> stage_name \<Rightarrow> string \<Rightarrow> string \<Rightarrow> nat \<Rightarrow> (stage_outcome + structured \<times> agent_result) wact" where
  "audit_attempts tw n role wanted k =
     py_bind (invoke tw role) (\<lambda>r.
       if ag_rc r \<noteq> 0 then py_return (Inl (agent_failure_outcome n r))
       else if ag_parse_errors r \<noteq> [] \<or> ag_structured r = None
       then (case k of
               0 \<Rightarrow> py_return (Inl (parse_failure_outcome n r))
             | Suc k' \<Rightarrow> audit_attempts tw n role wanted k')
       else py_return (checked_answer n wanted r))"

declare audit_attempts.simps [simp del]

definition invoke_audit ::
  "task_worker \<Rightarrow> stage_name \<Rightarrow> string \<Rightarrow> string \<Rightarrow> string \<Rightarrow> (stage_outcome + structured \<times> agent_result) wact" where
  "invoke_audit tw n role template wanted =
     (case tw_render tw template of
        Some e \<Rightarrow> py_return (Inl (render_failure_outcome n e))
      | None \<Rightarrow> audit_attempts tw n role wanted (wc_audit_output_retries (tw_cfg tw)))"

section \<open>The rubric\<close>

definition gap_json :: "audit_gap \<Rightarrow> json" where
  "gap_json g =
     JObj [(''id'', JStr (ga_id g)), (''description'', JStr (ga_description g)),
           (''concrete_fix'', JStr (ga_concrete_fix g)), (''files'', strs (ga_files g))]"

definition rubric_finding :: "string \<Rightarrow> string \<Rightarrow> category_score \<Rightarrow> json" where
  "rubric_finding kind fid s =
     JObj [(''kind'', JStr kind), (''id'', JStr fid), (''category'', JStr (cs_name s)), (''score'', JNum (cs_score s)),
           (''rationale'', JStr (cs_rationale s)), (''gaps_to_reach_ten'', JArr (map gap_json (cs_gaps s)))]"

definition rubric_findings :: "string list \<Rightarrow> category_score list \<Rightarrow> json list" where
  "rubric_findings failing scores =
     concat (map (\<lambda>s.
       if cs_name s \<in> set failing then [rubric_finding ''rubric_below_threshold'' (''category-'' @ cs_name s) s]
       else if cs_score s < 10 \<and> cs_gaps s \<noteq> [] then [rubric_finding ''rubric_reach_ten_gap'' (''reach-ten-'' @ cs_name s) s]
       else []) scores)"

definition build_rubric_outcome :: "worker_cfg \<Rightarrow> category_score list \<Rightarrow> agent_result \<Rightarrow> stage_outcome" where
  "build_rubric_outcome cfg scores r =
     (let failing = filter (\<lambda>s. cs_score s < wc_rubric_min_score cfg) scores;
          lines = join '', '' (map (\<lambda>s. cs_name s @ ''='' @ str_int (cs_score s)) scores)
      in if failing \<noteq> []
         then failed_outcome Stage_rubric
                (''rubric failed: '' @ str_nat (length failing) @ '' category(s) < '' @ str_int (wc_rubric_min_score cfg) @
                 '' ('' @ lines @ '')'')
                (log_tail (ag_raw_text r) 200) (rubric_findings (map cs_name failing) scores)
         else passed_outcome Stage_rubric (''rubric passed ('' @ lines @ '')'') (log_tail (ag_raw_text r) 80) [])"

text \<open>The bridge of a stage: an early outcome is surfaced as it is.\<close>

definition bridge ::
  "(structured \<Rightarrow> agent_result \<Rightarrow> py_error + stage_outcome) \<Rightarrow> (stage_outcome + structured \<times> agent_result) \<Rightarrow> stage_outcome wact" where
  "bridge build res =
     (case res of
        Inl early \<Rightarrow> py_return early
      | Inr (v, r) \<Rightarrow> (case build v r of Inl e \<Rightarrow> py_raise e | Inr oc \<Rightarrow> py_return oc))"

definition run_rubric_audit :: "task_worker \<Rightarrow> stage_outcome wact" where
  "run_rubric_audit tw =
     py_bind (invoke_audit tw Stage_rubric ''pre_pr_rubric'' ''pre-pr-rubric.md'' ''PrePRRubricAuditOutput'')
       (bridge (\<lambda>v r. case v of
          S_rubric scores \<Rightarrow> Inr (build_rubric_outcome (tw_cfg tw) scores r)
        | _ \<Rightarrow> Inl (AssertionError [])))"

section \<open>Cited passages\<close>

record cited_section =
  cd_doc_path :: string
  cd_section :: string
  cd_body :: string
  cd_title :: string

definition render_cited_sections :: "cited_section list \<Rightarrow> nat \<Rightarrow> string" where
  "render_cited_sections ss cap =
     (if ss = [] then ''(no refs cited by this task'' @ quote1 @ ''s subtasks)''
      else
        let block = (\<lambda>s.
              [''### `'' @ cd_doc_path s @ ''` '' @ section_sign @ '' '' @ cd_section s @
                 (if cd_title s = [] then [] else '' '' @ em_dash @ '' '' @ cd_title s),
               [], ''```'', take 6000 (cd_body s), ''```'', []]);
            is_nl = (\<lambda>c. [c] = nl);
            txt = rev (dropWhile is_nl (rev (dropWhile is_nl (join nl (concat (map block ss))))))
        in if cap < length txt
           then rev (dropWhile whitespace (rev (take cap txt))) @ nl @ ''[CITED SECTIONS TRUNCATED]''
           else txt)"

text \<open>\<^verbatim>\<open>_section_match\<close> is the comparison of \<^const>\<open>has_heading\<close>. The documents are compared with the path as it is cited.\<close>

definition section_match :: "string list \<Rightarrow> string \<Rightarrow> bool" where
  "section_match headings sec =
     (let target = fold_heading sec
      in target \<noteq> [] \<and> list_ex (\<lambda>h. fold_heading h = target) headings)"

definition cited_in_profile :: "string \<times> string \<Rightarrow> standards_profile \<Rightarrow> cited_section list" where
  "cited_in_profile key p =
     (case key of (path, sec) \<Rightarrow>
        (case List.find (\<lambda>d. sd_repo_relative d = path) (sp_docs p) of
           None \<Rightarrow> []
         | Some d \<Rightarrow>
             if section_match (sd_sections d) sec
             then [\<lparr>cd_doc_path = path, cd_section = sec, cd_body = sd_body d,
                    cd_title = ''profile: '' @ sp_name p @ ''; importance: '' @ importance_value (sd_importance d)\<rparr>]
             else []))"

definition collect_standards_refs_in_diff ::
  "contract \<Rightarrow> (string \<times> string) list \<Rightarrow> cited_section list \<times> string list" where
  "collect_standards_refs_in_diff c cited =
     (concat (map (\<lambda>key. concat (map (cited_in_profile key) (sg_profiles (ct_standards c)))) cited), map fst cited)"

definition cited_in_corpus :: "arch_corpus \<Rightarrow> string \<times> string \<Rightarrow> cited_section list" where
  "cited_in_corpus corpus key =
     (case key of (path, sec) \<Rightarrow>
        (case List.find (\<lambda>d. ad_repo_relative d = path) (ac_docs corpus) of
           None \<Rightarrow> []
         | Some d \<Rightarrow>
             if section_match (ad_sections d) sec
             then [\<lparr>cd_doc_path = path, cd_section = sec, cd_body = ad_body d, cd_title = ad_title d\<rparr>]
             else []))"

definition collect_architecture_refs_in_diff ::
  "contract \<Rightarrow> (string \<times> string) list \<Rightarrow> cited_section list \<times> string list" where
  "collect_architecture_refs_in_diff c cited =
     (concat (map (cited_in_corpus (ag_corpus (ct_architecture c))) cited), map fst cited)"

section \<open>Standards and architecture\<close>

definition aligned_finding_json :: "string \<Rightarrow> aligned_finding \<Rightarrow> json" where
  "aligned_finding_json ref_key f =
     JObj [(''id'', JStr (al_id f)), (''file'', JStr (al_file f)),
           (''line'', case al_line f of None \<Rightarrow> JNull | Some n \<Rightarrow> JNum n),
           (''severity'', JStr (severity_value (al_severity f))), (ref_key, JStr (al_doc_ref f)),
           (''description'', JStr (al_description f)), (''concrete_fix'', JStr (al_concrete_fix f))]"

definition budget_outcome :: "stage_name \<Rightarrow> nat \<times> nat \<times> nat \<Rightarrow> json list \<Rightarrow> agent_result \<Rightarrow> stage_outcome" where
  "budget_outcome n budget fs r =
     (let violations = severity_budget_violations fs budget;
          raw = log_tail (ag_raw_text r) (if violations \<noteq> [] then 200 else 80)
      in if violations \<noteq> []
         then failed_outcome n
                (stage_value n @ '' failed: severity budget exceeded ('' @ format_severity_budget_violations violations @
                 ''; '' @ severity_budget_summary fs @ '')'') raw fs
         else passed_outcome n (stage_value n @ '' passed ('' @ severity_budget_summary fs @ '')'') raw fs)"

definition build_standards_outcome :: "worker_cfg \<Rightarrow> aligned_finding list \<Rightarrow> agent_result \<Rightarrow> stage_outcome" where
  "build_standards_outcome cfg fs r =
     budget_outcome Stage_standards (wc_standards_budget cfg) (map (aligned_finding_json ''profile_doc_ref'') fs) r"

definition build_architecture_outcome :: "worker_cfg \<Rightarrow> aligned_finding list \<Rightarrow> agent_result \<Rightarrow> stage_outcome" where
  "build_architecture_outcome cfg fs r =
     budget_outcome Stage_architecture (wc_architecture_budget cfg) (map (aligned_finding_json ''architecture_doc_ref'') fs) r"

definition run_standards_audit :: "task_worker \<Rightarrow> contract \<Rightarrow> stage_outcome wact" where
  "run_standards_audit tw c =
     (if strip (sg_source_text (ct_standards c)) = [] \<or> sg_profiles (ct_standards c) = []
      then py_return (failed_outcome Stage_standards
             (''no standards profile docs loaded '' @ em_dash @
              '' configure `standards_profiles_dir` + `standards_profiles` to enable the gate'') []
             [message_finding ''config_error''
                (''No standards profile docs loaded. Set `standards_profiles_dir` and `standards_profiles` in quikode '' @
                 ''config (plan 35).'')])
      else py_bind
        (invoke_audit tw Stage_standards ''pre_pr_standards'' ''pre-pr-standards.md'' ''PrePRStandardsAuditOutput'')
        (bridge (\<lambda>v r. case v of
           S_standards fs \<Rightarrow> Inr (build_standards_outcome (tw_cfg tw) fs r)
         | _ \<Rightarrow> Inl (AssertionError []))))"

definition run_architecture_audit :: "task_worker \<Rightarrow> contract \<Rightarrow> stage_outcome wact" where
  "run_architecture_audit tw c =
     (if ac_docs (ag_corpus (ct_architecture c)) = []
      then py_return (failed_outcome Stage_architecture
             (''no architecture docs loaded '' @ em_dash @
              '' configure `architecture_docs_dir` + `architecture_doc_globs` to enable the gate'') []
             [message_finding ''config_error''
                (''No architecture docs loaded. Set `architecture_docs_dir` (and optionally '' @
                 ''`architecture_doc_globs`) in quikode config (plan 35).'')])
      else py_bind
        (invoke_audit tw Stage_architecture ''pre_pr_architecture'' ''pre-pr-architecture.md''
           ''PrePRArchitectureAuditOutput'')
        (bridge (\<lambda>v r. case v of
           S_architecture fs \<Rightarrow> Inr (build_architecture_outcome (tw_cfg tw) fs r)
         | _ \<Rightarrow> Inl (AssertionError []))))"

section \<open>Behavior\<close>

definition behavior_gap_json :: "audit_gap \<Rightarrow> json" where
  "behavior_gap_json g =
     JObj [(''id'', JStr (ga_id g)), (''description'', JStr (ga_description g)),
           (''concrete_fix'', JStr (ga_concrete_fix g))]"

definition behavior_finding :: "behavior_check \<Rightarrow> json" where
  "behavior_finding b =
     JObj [(''kind'', JStr ''behavior_unverified''), (''behavior_id'', JStr (bc_behavior_id b)),
           (''evidence_seen'', JStr (bc_evidence_seen b)), (''gap_explanation'', JStr (bc_gap_explanation b)),
           (''concrete_fix'', JStr (bc_concrete_fix b)),
           (''completeness_gaps'', JArr (map behavior_gap_json (bc_completeness_gaps b)))]"

definition build_behavior_outcome :: "behavior_check list \<Rightarrow> agent_result \<Rightarrow> stage_outcome" where
  "build_behavior_outcome bs r =
     (let unverified = filter (\<lambda>b. \<not> bc_verified b) bs
      in if unverified \<noteq> []
         then failed_outcome Stage_behavior
                (''behavior failed: '' @ str_nat (length unverified) @ '' unverified behavior(s)'')
                (log_tail (ag_raw_text r) 200) (map behavior_finding unverified)
         else passed_outcome Stage_behavior (''behavior passed ('' @ str_nat (length bs) @ '' verified)'')
                (log_tail (ag_raw_text r) 80) [])"

definition run_behavior_audit :: "task_worker \<Rightarrow> evidence list \<Rightarrow> stage_outcome wact" where
  "run_behavior_audit tw evs =
     (if evs = []
      then py_return (passed_outcome Stage_behavior
             (''no expected_evidence on this node '' @ em_dash @ '' gate skipped'') [] [])
      else py_bind
        (invoke_audit tw Stage_behavior ''pre_pr_behavior'' ''pre-pr-behavior.md'' ''PrePRBehaviorAuditOutput'')
        (bridge (\<lambda>v r. case v of
           S_behavior bs \<Rightarrow> Inr (build_behavior_outcome bs r)
         | _ \<Rightarrow> Inl (AssertionError []))))"

section \<open>Reports\<close>

definition stage_report :: "stage_outcome \<Rightarrow> string" where
  "stage_report s =
     join nl
       ([''## Stage `'' @ stage_value (so_name s) @ ''` '' @ em_dash @ '' '' @ so_summary s] @
        (if so_findings s = [] then []
         else [nl @ ''### Structured findings'' @ nl, ''```json'', take 6000 (json_dumps 0 (JArr (so_findings s))), ''```'']) @
        (if so_raw_output s = [] then []
         else [nl @ ''### Agent output (tail)'' @ nl, ''```'', take 4000 (so_raw_output s), ''```'']))"

definition merge_failed_stage_reports :: "stage_outcome list \<Rightarrow> string" where
  "merge_failed_stage_reports failed = join (nl @ nl @ ''---'' @ nl @ nl) (map stage_report failed)"

text \<open>\<^verbatim>\<open>f.get("id") or f.get("behavior_id") or ... or f.get("kind")\<close>, when it is truthy.\<close>

definition raw_finding_id :: "json \<Rightarrow> json option" where
  "raw_finding_id f =
     List.find (\<lambda>v. json_true (Some v))
       (List.map_filter (jget f) [''id'', ''behavior_id'', ''category'', ''file'', ''kind''])"

definition finding_id :: "stage_name \<Rightarrow> nat \<Rightarrow> json \<Rightarrow> string" where
  "finding_id n idx f =
     stage_value n @ '':'' @ (case raw_finding_id f of Some v \<Rightarrow> json_str v | None \<Rightarrow> ''auto-'' @ str_nat idx)"

definition gap_ids :: "stage_name \<Rightarrow> json \<Rightarrow> string \<Rightarrow> string list" where
  "gap_ids n f key =
     (case jget f key of
        Some (JArr gaps) \<Rightarrow>
          [stage_value n @ '':'' @ json_str i. g \<leftarrow> gaps, i \<leftarrow> option_list (jget g ''id''), json_true (Some i)]
      | _ \<Rightarrow> [])"

definition stage_finding_ids :: "stage_outcome \<Rightarrow> string list" where
  "stage_finding_ids s =
     concat (map (\<lambda>(idx, f). gap_ids (so_name s) f ''gaps_to_reach_ten'' @ gap_ids (so_name s) f ''completeness_gaps'' @
         [finding_id (so_name s) idx f]) (enumerate 0 (so_findings s)))"

definition collect_finding_ids :: "stage_outcome list \<Rightarrow> string list" where
  "collect_finding_ids failed =
     fold (\<lambda>i ids. if i \<in> set ids then ids else ids @ [i]) (concat (map stage_finding_ids failed)) []"

definition NON_DEFERABLE_FINDING_KINDS :: "string list" where
  "NON_DEFERABLE_FINDING_KINDS =
     [''config_error'', ''bootstrap_error'', ''infra'', ''parse_failure'', ''render_failure'', ''transport'']"

definition structural_finding :: "json \<Rightarrow> bool" where
  "structural_finding f \<longleftrightarrow> str_or_empty f ''kind'' \<in> set NON_DEFERABLE_FINDING_KINDS"

definition critical_findings :: "stage_outcome list \<Rightarrow> nat" where
  "critical_findings failed =
     sum_list (map (\<lambda>s. length (filter (\<lambda>f. finding_severity f = ''critical'') (so_findings s))) failed)"

definition valve_blocked :: "worker_cfg \<Rightarrow> cycle_result \<Rightarrow> bool" where
  "valve_blocked cfg cr \<longleftrightarrow>
     (let failed = failed_stages cr; names = map (\<lambda>s. stage_value (so_name s)) failed
      in wc_valve_after_cycles cfg < 0 \<or> cy_cycle cr < wc_valve_after_cycles cfg \<or> failed = [] \<or>
         ''local_ci'' \<in> set names \<or> ''behavior'' \<in> set names \<or> \<not> set names \<subseteq> set (wc_valve_stages cfg) \<or>
         list_ex (\<lambda>s. so_findings s = [] \<or> list_ex structural_finding (so_findings s)) failed \<or>
         wc_valve_max_critical cfg < int (critical_findings failed))"

definition release_valve_report :: "worker_cfg \<Rightarrow> cycle_result \<Rightarrow> string option" where
  "release_valve_report cfg cr =
     (if valve_blocked cfg cr then None
      else Some
        (''## Deferred pre-PR audit findings'' @ nl @ nl @
         ''quikode opened this PR after pre-PR audit cycle '' @ str_int (cy_cycle cr) @
         '' because `local_ci` and `behavior` passed, and only configured quality-audit content findings remained.'' @
         nl @ nl @ ''Deferred stage(s): '' @
         join '', '' (sort (remdups (map (\<lambda>s. stage_value (so_name s)) (failed_stages cr)))) @ ''.'' @ nl @ nl @
         ''---'' @ nl @ nl @ merge_failed_stage_reports (failed_stages cr)))"

definition structural_failures :: "cycle_result \<Rightarrow> string list" where
  "structural_failures cr =
     [stage_value (so_name s) @ '':'' @ str_or_empty f ''kind''.
        s \<leftarrow> failed_stages cr, f \<leftarrow> so_findings s, structural_finding f]"

definition structural_failure_report :: "cycle_result \<Rightarrow> string option" where
  "structural_failure_report cr =
     (if structural_failures cr = [] then None
      else Some
        (''pre-PR audit stage failed structurally; blocking instead of planning target-repo fixups: '' @
         join '', '' (structural_failures cr) @ nl @ nl @ merge_failed_stage_reports (failed_stages cr)))"

section \<open>Facts\<close>

lemma keeps_audit_attempts [calls_keep]: "others_keep P tw \<Longrightarrow> wkeeps P (audit_attempts tw n role wanted k)"
proof (induction k)
  case 0
  then show ?case by (subst audit_attempts.simps) (auto intro!: keeps_intros calls_keep)
next
  case (Suc k)
  then show ?case by (subst audit_attempts.simps) (auto intro!: keeps_intros calls_keep)
qed

lemma keeps_invoke_audit [calls_keep]: "others_keep P tw \<Longrightarrow> wkeeps P (invoke_audit tw n role tmpl wanted)"
  unfolding invoke_audit_def by (intro keeps_intros calls_keep)

lemma keeps_bridge [keeps_intros]: "wkeeps P (bridge build res)"
  unfolding bridge_def by (intro keeps_intros)

lemma keeps_audits [calls_keep]:
  assumes "others_keep P tw"
  shows "wkeeps P (run_local_ci_gate tw)" and "wkeeps P (run_rubric_audit tw)" and "wkeeps P (run_standards_audit tw c)"
    and "wkeeps P (run_architecture_audit tw c)" and "wkeeps P (run_behavior_audit tw evs)"
  unfolding run_rubric_audit_def run_standards_audit_def run_architecture_audit_def run_behavior_audit_def
  using assms by (auto intro!: keeps_intros calls_keep simp: run_local_ci_gate_def Let_def split: py_error.splits)

text \<open>The calls of one stage.\<close>

lemma spends_invoke: "spends p 1 (invoke tw role)"
proof -
  have "spends p (0 + (if p (Agent role (wc_timeouts (tw_cfg tw) role)) then 1 else 0)) (invoke tw role)"
    unfolding invoke_def by (intro spends_intros spends_outside)
  then show ?thesis by (rule spends_le) simp
qed

lemma spends_return: "spends p k (py_return a)"
  by (rule spends_le [OF spends_basic(1)]) simp

lemma spends_audit_attempts: "spends p (Suc k) (audit_attempts tw n role wanted k)"
proof (induction k)
  case 0
  have "spends p (1 + 0) (audit_attempts tw n role wanted 0)"
    by (subst audit_attempts.simps, rule spends_bind [OF spends_invoke]) (simp add: spends_return)
  then show ?case by simp
next
  case (Suc k)
  have "spends p (1 + Suc k) (audit_attempts tw n role wanted (Suc k))"
    by (subst audit_attempts.simps, rule spends_bind [OF spends_invoke]) (simp add: spends_return Suc.IH)
  then show ?case by simp
qed

lemma spends_audit:
  "spends p (Suc (wc_audit_output_retries (tw_cfg tw))) (py_bind (invoke_audit tw n role tmpl wanted) (bridge build))"
proof -
  have "spends p (Suc (wc_audit_output_retries (tw_cfg tw))) (invoke_audit tw n role tmpl wanted)"
    unfolding invoke_audit_def by (auto intro!: spends_audit_attempts spends_return split: option.split)
  moreover have "spends p 0 (bridge build res)" for res
    unfolding bridge_def by (auto intro!: spends_basic split: sum.split)
  ultimately have "spends p (Suc (wc_audit_output_retries (tw_cfg tw)) + 0)
      (py_bind (invoke_audit tw n role tmpl wanted) (bridge build))"
    by (rule spends_bind)
  then show ?thesis by simp
qed

lemma spends_stages:
  fixes tw :: task_worker
  assumes "only_agents p"
  defines "k \<equiv> Suc (wc_audit_output_retries (tw_cfg tw))"
  shows "spends p 0 (run_local_ci_gate tw)" and "spends p k (run_rubric_audit tw)"
    and "spends p k (run_standards_audit tw c)" and "spends p k (run_architecture_audit tw c)"
    and "spends p k (run_behavior_audit tw evs)"
proof -
  have "spends p ((0 + 0) + 0) (py_catch (py_bind (exec_in tw argv t) (\<lambda>res. py_return (f res)))
      (\<lambda>e. case e of TimeoutExpired _ \<Rightarrow> py_return (g e) | OSError _ \<Rightarrow> py_return (g e) | _ \<Rightarrow> py_raise e))"
    for argv t and f :: "run_result \<Rightarrow> stage_outcome" and g
    by (intro spends_catch spends_bind spends_exec assms spends_return)
      (auto intro!: spends_basic split: py_error.split)
  then show "spends p 0 (run_local_ci_gate tw)" by (simp add: run_local_ci_gate_def Let_def spends_return)
  show "spends p k (run_rubric_audit tw)" "spends p k (run_standards_audit tw c)"
    "spends p k (run_architecture_audit tw c)" "spends p k (run_behavior_audit tw evs)"
    unfolding run_rubric_audit_def run_standards_audit_def run_architecture_audit_def run_behavior_audit_def k_def
    by (auto intro!: spends_audit spends_return)
qed

text \<open>Where an answer comes from: one of the calls the attempts make.\<close>

definition answered :: "task_worker \<Rightarrow> string \<Rightarrow> world \<Rightarrow> structured \<Rightarrow> agent_result \<Rightarrow> bool" where
  "answered tw role w v r \<longleftrightarrow>
     (\<exists>i \<le> wc_audit_output_retries (tw_cfg tw). tw_agent tw (length (wd_calls w) + i) role = Inr r) \<and>
     ag_rc r = 0 \<and> ag_parse_errors r = [] \<and> ag_structured r = Some v"

lemma invoke_run:
  "invoke tw role w = (Inr r, w') \<Longrightarrow>
   tw_agent tw (length (wd_calls w)) role = Inr r \<and> length (wd_calls w') = Suc (length (wd_calls w))"
  by (auto simp: invoke_def the_handle_def outside_def Let_def act_simps split: option.splits)

lemma audit_attempts_answer:
  assumes "audit_attempts tw n role wanted k w = (Inr (Inr (v, r)), w')"
  shows "(\<exists>i \<le> k. tw_agent tw (length (wd_calls w) + i) role = Inr r) \<and> ag_rc r = 0 \<and> ag_parse_errors r = [] \<and>
    ag_structured r = Some v \<and> schema_name v = wanted"
  using assms
proof (induction k arbitrary: w)
  case 0
  then show ?case
    by (subst (asm) audit_attempts.simps)
      (auto simp: act_simps checked_answer_def dest!: invoke_run split: sum.splits prod.splits if_splits option.splits)
next
  case (Suc k)
  obtain x u where inv: "invoke tw role w = (x, u)" by fastforce
  with Suc.prems obtain a where a: "x = Inr a"
    by (subst (asm) audit_attempts.simps) (auto simp: act_simps split: sum.splits)
  note call = invoke_run [OF inv [unfolded a]]
  show ?case
  proof (cases "ag_rc a = 0 \<and> (ag_parse_errors a \<noteq> [] \<or> ag_structured a = None)")
    case True
    with Suc.prems inv a have "audit_attempts tw n role wanted k u = (Inr (Inr (v, r)), w')"
      by (subst (asm) audit_attempts.simps) (simp add: act_simps)
    from Suc.IH [OF this] call show ?thesis by (metis Suc_le_mono add_Suc_right add_Suc)
  next
    case False
    with Suc.prems inv a call show ?thesis
      by (subst (asm) audit_attempts.simps)
        (auto simp: act_simps checked_answer_def intro!: exI [of _ 0] split: if_splits option.splits)
  qed
qed

lemma audited:
  assumes "py_bind (invoke_audit tw n role tmpl wanted) (bridge build) w = (Inr oc, w')" and "so_passed oc"
  obtains v r where "answered tw role w v r" and "build v r = Inr oc"
proof -
  have failing: "\<not> so_passed x" if "audit_attempts tw n role wanted k w = (Inr (Inl x), u)" for k w x u
    using that
    by (induction k arbitrary: w; subst (asm) audit_attempts.simps)
      (fastforce simp: act_simps checked_answer_def agent_failure_outcome_def parse_failure_outcome_def failed_outcome_def
        schema_mismatch_outcome_def Let_def split: sum.splits prod.splits if_splits option.splits)+
  obtain x u where inv: "invoke_audit tw n role tmpl wanted w = (x, u)" by fastforce
  with assms obtain y where y: "x = Inr y" by (auto simp: act_simps split: sum.splits)
  show thesis
  proof (cases y)
    case (Inl z)
    then have "oc = z" using assms(1) inv y by (simp add: act_simps bridge_def)
    then have "\<not> so_passed oc"
      using inv y Inl failing
      by (auto simp: invoke_audit_def render_failure_outcome_def failed_outcome_def act_simps split: option.splits)
    with assms(2) show thesis by simp
  next
    case (Inr z)
    obtain v r where z: "z = (v, r)" by fastforce
    have "answered tw role w v r"
      using inv y Inr z audit_attempts_answer
      by (fastforce simp: invoke_audit_def answered_def act_simps split: option.splits)
    moreover have "build v r = Inr oc"
      using assms(1) inv y Inr z by (auto simp: act_simps bridge_def split: sum.splits)
    ultimately show thesis by (rule that)
  qed
qed

text \<open>What each stage demands of the answer.\<close>

lemma rubric_gate: "so_passed (build_rubric_outcome cfg scores r) \<longleftrightarrow> (\<forall>s \<in> set scores. wc_rubric_min_score cfg \<le> cs_score s)"
  by (auto simp: build_rubric_outcome_def failed_outcome_def passed_outcome_def Let_def filter_empty_conv not_less)

lemma behavior_gate: "so_passed (build_behavior_outcome bs r) \<longleftrightarrow> (\<forall>b \<in> set bs. bc_verified b)"
  by (auto simp: build_behavior_outcome_def failed_outcome_def passed_outcome_def Let_def filter_empty_conv)

definition within_budget :: "nat \<times> nat \<times> nat \<Rightarrow> aligned_finding list \<Rightarrow> bool" where
  "within_budget budget fs \<longleftrightarrow>
     (case budget of (m, h, c) \<Rightarrow>
        length (filter (\<lambda>f. al_severity f = Sev_medium) fs) \<le> m \<and>
        length (filter (\<lambda>f. al_severity f = Sev_high) fs) \<le> h \<and>
        length (filter (\<lambda>f. al_severity f = Sev_critical) fs) \<le> c)"

lemma severity_of_finding:
  "finding_severity (aligned_finding_json k f) = severity_value (al_severity f)"
  by (cases "al_severity f")
    (simp_all add: finding_severity_def str_or_empty_def aligned_finding_json_def jget_def json_true_def json_str_def
      lower_char_def)

lemma severity_count_findings:
  "severity_count (map (aligned_finding_json k) fs) (severity_value v) = length (filter (\<lambda>f. al_severity f = v) fs)"
proof -
  have inj: "severity_value a = severity_value v \<longleftrightarrow> a = v" for a by (cases a; cases v) simp_all
  show ?thesis by (simp add: severity_count_def filter_map o_def severity_of_finding inj)
qed

lemma budget_gate: "so_passed (budget_outcome n budget (map (aligned_finding_json k) fs) r) \<longleftrightarrow> within_budget budget fs"
proof -
  obtain m h c where b: "budget = (m, h, c)" by (cases budget)
  note counts = severity_count_findings [of k fs Sev_medium] severity_count_findings [of k fs Sev_high]
    severity_count_findings [of k fs Sev_critical]
  have "severity_budget_violations (map (aligned_finding_json k) fs) budget = [] \<longleftrightarrow> within_budget budget fs"
    using counts by (auto simp: severity_budget_violations_def within_budget_def b not_less)
  then show ?thesis by (auto simp: budget_outcome_def Let_def failed_outcome_def passed_outcome_def)
qed

definition supports :: "worker_cfg \<Rightarrow> stage_name \<Rightarrow> structured \<Rightarrow> bool" where
  "supports cfg n v \<longleftrightarrow>
     (case (n, v) of
        (Stage_rubric, S_rubric scores) \<Rightarrow> \<forall>s \<in> set scores. wc_rubric_min_score cfg \<le> cs_score s
      | (Stage_standards, S_standards fs) \<Rightarrow> within_budget (wc_standards_budget cfg) fs
      | (Stage_architecture, S_architecture fs) \<Rightarrow> within_budget (wc_architecture_budget cfg) fs
      | (Stage_behavior, S_behavior bs) \<Rightarrow> \<forall>b \<in> set bs. bc_verified b
      | _ \<Rightarrow> False)"

lemma rubric_supports:
  assumes "(case v of S_rubric scores \<Rightarrow> Inr (build_rubric_outcome cfg scores r) | _ \<Rightarrow> Inl e) = Inr oc" and "so_passed oc"
  shows "supports cfg Stage_rubric v"
  using assms by (cases v) (auto simp: supports_def rubric_gate)

lemma standards_supports:
  assumes "(case v of S_standards fs \<Rightarrow> Inr (build_standards_outcome cfg fs r) | _ \<Rightarrow> Inl e) = Inr oc" and "so_passed oc"
  shows "supports cfg Stage_standards v"
  using assms by (cases v) (auto simp: supports_def build_standards_outcome_def budget_gate)

lemma architecture_supports:
  assumes "(case v of S_architecture fs \<Rightarrow> Inr (build_architecture_outcome cfg fs r) | _ \<Rightarrow> Inl e) = Inr oc"
    and "so_passed oc"
  shows "supports cfg Stage_architecture v"
  using assms by (cases v) (auto simp: supports_def build_architecture_outcome_def budget_gate)

lemma behavior_supports:
  assumes "(case v of S_behavior bs \<Rightarrow> Inr (build_behavior_outcome bs r) | _ \<Rightarrow> Inl e) = Inr oc" and "so_passed oc"
  shows "supports cfg Stage_behavior v"
  using assms by (cases v) (auto simp: supports_def behavior_gate)

text \<open>The runner of each stage, as \<^verbatim>\<open>_execute_audit_stages\<close> picks it, and the role it asks.\<close>

definition run_stage :: "task_worker \<Rightarrow> contract \<Rightarrow> evidence list \<Rightarrow> stage_name \<Rightarrow> stage_outcome wact" where
  "run_stage tw c evs n =
     (case n of
        Stage_local_ci \<Rightarrow> run_local_ci_gate tw
      | Stage_rubric \<Rightarrow> run_rubric_audit tw
      | Stage_standards \<Rightarrow> run_standards_audit tw c
      | Stage_architecture \<Rightarrow> run_architecture_audit tw c
      | Stage_behavior \<Rightarrow> run_behavior_audit tw evs)"

definition auditor :: "stage_name \<Rightarrow> string" where
  "auditor n = ''pre_pr_'' @ stage_value n"

lemma auditor_simps [simp]:
  "auditor Stage_rubric = ''pre_pr_rubric''" "auditor Stage_standards = ''pre_pr_standards''"
  "auditor Stage_architecture = ''pre_pr_architecture''" "auditor Stage_behavior = ''pre_pr_behavior''"
  by (simp_all add: auditor_def)

lemma stage_support:
  assumes "py_bind (invoke_audit tw n role tmpl wanted) (bridge build) w = (Inr oc, w1)" and "so_passed oc"
    and "\<And>v r. build v r = Inr oc \<Longrightarrow> supports (tw_cfg tw) n v"
  shows "\<exists>v r. answered tw role w v r \<and> supports (tw_cfg tw) n v"
proof -
  obtain v r where "answered tw role w v r" and "build v r = Inr oc" by (rule audited [OF assms(1,2)])
  with assms(3) show ?thesis by blast
qed

lemma keeps_stage [calls_keep]: "others_keep P tw \<Longrightarrow> wkeeps P (run_stage tw c evs n)"
  by (cases n) (auto simp: run_stage_def intro: calls_keep)

lemma spends_stage:
  assumes "only_agents p"
  shows "spends p (Suc (wc_audit_output_retries (tw_cfg tw))) (run_stage tw c evs n)"
proof -
  note each = spends_le [OF spends_stages(1) [OF assms] le0] spends_stages(2-) [OF assms]
  show ?thesis unfolding run_stage_def by (cases n; simp only: stage_name.case; rule each)
qed

text \<open>
  C24: the audits fail closed. An audit stage that passes has an answer of its auditor behind it: one of the attempts, the
  first call or one of the configured repetitions, ended with return code 0 and without parse errors, and its content
  meets the demand of the stage (no listed category under the minimum, no severity over its budget, no behavior
  unverified). The behavior stage of a node without expected evidence is the one exception.
\<close>

theorem audits_fail_closed:
  assumes "run_stage tw c evs n w = (Inr oc, w1)" and "so_passed oc" and "n \<noteq> Stage_local_ci"
    and "n = Stage_behavior \<Longrightarrow> evs \<noteq> []"
  shows "\<exists>v r. answered tw (auditor n) w v r \<and> supports (tw_cfg tw) n v"
proof (cases n)
  case Stage_rubric
  with assms(1) have "py_bind (invoke_audit tw Stage_rubric ''pre_pr_rubric'' ''pre-pr-rubric.md''
      ''PrePRRubricAuditOutput'')
      (bridge (\<lambda>v r. case v of S_rubric scores \<Rightarrow> Inr (build_rubric_outcome (tw_cfg tw) scores r)
        | _ \<Rightarrow> Inl (AssertionError []))) w = (Inr oc, w1)"
    by (simp add: run_stage_def run_rubric_audit_def)
  from stage_support [OF this assms(2) rubric_supports [OF _ assms(2)]] show ?thesis
    unfolding Stage_rubric auditor_simps .
next
  case Stage_standards
  with assms(1,2) have "py_bind (invoke_audit tw Stage_standards ''pre_pr_standards'' ''pre-pr-standards.md''
      ''PrePRStandardsAuditOutput'')
      (bridge (\<lambda>v r. case v of S_standards fs \<Rightarrow> Inr (build_standards_outcome (tw_cfg tw) fs r)
        | _ \<Rightarrow> Inl (AssertionError []))) w = (Inr oc, w1)"
    by (auto simp: run_stage_def run_standards_audit_def failed_outcome_def act_simps split: if_splits)
  from stage_support [OF this assms(2) standards_supports [OF _ assms(2)]] show ?thesis
    unfolding Stage_standards auditor_simps .
next
  case Stage_architecture
  with assms(1,2) have "py_bind (invoke_audit tw Stage_architecture ''pre_pr_architecture'' ''pre-pr-architecture.md''
      ''PrePRArchitectureAuditOutput'')
      (bridge (\<lambda>v r. case v of S_architecture fs \<Rightarrow> Inr (build_architecture_outcome (tw_cfg tw) fs r)
        | _ \<Rightarrow> Inl (AssertionError []))) w = (Inr oc, w1)"
    by (auto simp: run_stage_def run_architecture_audit_def failed_outcome_def act_simps split: if_splits)
  from stage_support [OF this assms(2) architecture_supports [OF _ assms(2)]] show ?thesis
    unfolding Stage_architecture auditor_simps .
next
  case Stage_behavior
  with assms(1,4) have "py_bind (invoke_audit tw Stage_behavior ''pre_pr_behavior'' ''pre-pr-behavior.md''
      ''PrePRBehaviorAuditOutput'')
      (bridge (\<lambda>v r. case v of S_behavior bs \<Rightarrow> Inr (build_behavior_outcome bs r)
        | _ \<Rightarrow> Inl (AssertionError []))) w = (Inr oc, w1)"
    by (simp add: run_stage_def run_behavior_audit_def)
  from stage_support [OF this assms(2) behavior_supports [OF _ assms(2)]] show ?thesis
    unfolding Stage_behavior auditor_simps .
qed (use assms(3) in simp)

text \<open>A worker whose rubric auditor answers on the second attempt.\<close>

definition demo_scores :: "category_score list" where
  "demo_scores = [\<lparr>cs_name = ''correctness'', cs_score = 8, cs_rationale = ''fine'', cs_gaps = []\<rparr>]"

definition demo_auditor :: task_worker where
  "demo_auditor = demo_worker\<lparr>tw_agent := (\<lambda>n _. Inr (if n = 0 then demo_answer
     else demo_answer\<lparr>ag_structured := Some (S_rubric demo_scores)\<rparr>))\<rparr>"

definition demo_rubric_run :: "(py_error + stage_outcome) \<times> world" where
  "demo_rubric_run = run_stage demo_auditor demo_contract [] Stage_rubric (demo_world [])"

theorem audits_fail_closed_witness:
  "length (wd_calls (snd demo_rubric_run)) = 2 \<and>
   (\<exists>v r. answered demo_auditor (auditor Stage_rubric) (demo_world []) v r \<and>
      supports (tw_cfg demo_auditor) Stage_rubric v)"
proof -
  define oc where "oc = projr (fst demo_rubric_run)"
  have "\<not> isl (fst demo_rubric_run) \<and> so_passed (projr (fst demo_rubric_run)) \<and>
      length (wd_calls (snd demo_rubric_run)) = 2"
    by code_simp
  then have run: "run_stage demo_auditor demo_contract [] Stage_rubric (demo_world []) = (Inr oc, snd demo_rubric_run)"
      "so_passed oc" "length (wd_calls (snd demo_rubric_run)) = 2"
    by (simp_all add: oc_def demo_rubric_run_def sum.expand prod_eq_iff)
  from audits_fail_closed [OF run(1,2)] run(3) show ?thesis by simp
qed

section \<open>The cited passages reach the auditor\<close>

lemma section_match_heading: "section_match hs sec \<longleftrightarrow> has_heading hs sec"
  by (simp add: section_match_def has_heading_def Let_def)

lemma find_concat: "List.find P (concat xss) = Some x \<Longrightarrow> \<exists>xs \<in> set xss. List.find P xs = Some x"
proof (induction xss)
  case (Cons ys xss)
  then show ?case by (cases "List.find P ys") (auto simp: find_append split: option.splits)
qed simp

lemma find_none_iff: "List.find P xs = None \<longleftrightarrow> (\<forall>x \<in> set xs. \<not> P x)"
  by (induction xs) auto

text \<open>
  The standards auditor reads a passage exactly when it is cited without padding. A plan whose references pass
  \<^verbatim>\<open>validate_standards_refs\<close> may cite a document with white space around its path, because the validator strips it;
  \<^verbatim>\<open>collect_standards_refs_in_diff\<close> does not, and skips such a citation. Every other validated citation is rendered.
\<close>

theorem cited_refs_reach_audit:
  assumes "validate_standards_refs ss c = None" and "s \<in> set ss" and "r \<in> set (st_standards_referenced s)"
    and "\<And>p d. p \<in> set (sg_profiles (ct_standards c)) \<Longrightarrow> d \<in> set (sp_docs p) \<Longrightarrow>
      strip (sd_repo_relative d) = sd_repo_relative d"
  shows "fst (collect_standards_refs_in_diff c [(dr_doc_path r, dr_section r)]) \<noteq> [] \<longleftrightarrow>
    strip (dr_doc_path r) = dr_doc_path r"
proof -
  let ?ps = "sg_profiles (ct_standards c)" and ?key = "(dr_doc_path r, dr_section r)"
  have "resolves (find_doc ?ps) find_section r"
    using assms(1-3) by (auto simp: validate_standards_refs_def Let_def bad_refs_Nil ref_problem_None split: if_splits)
  then obtain d where d: "find_doc ?ps (dr_doc_path r) = Some d" "find_section d (dr_section r)"
    by (auto simp: resolves_def)
  have collected: "fst (collect_standards_refs_in_diff c [?key]) \<noteq> [] \<longleftrightarrow> (\<exists>p \<in> set ?ps. cited_in_profile ?key p \<noteq> [])"
    by (auto simp: collect_standards_refs_in_diff_def)
  show ?thesis
  proof
    assume "fst (collect_standards_refs_in_diff c [?key]) \<noteq> []"
    then obtain p e where "p \<in> set ?ps" "List.find (\<lambda>d. sd_repo_relative d = dr_doc_path r) (sp_docs p) = Some e"
      by (auto simp: collected cited_in_profile_def split: option.splits)
    then have "e \<in> set (sp_docs p)" "sd_repo_relative e = dr_doc_path r" by (auto simp: find_Some_iff)
    with assms(4) [OF \<open>p \<in> set ?ps\<close>, of e] show "strip (dr_doc_path r) = dr_doc_path r" by simp
  next
    assume plain: "strip (dr_doc_path r) = dr_doc_path r"
    with d(1) obtain p where "p \<in> set ?ps" "List.find (\<lambda>d. sd_repo_relative d = dr_doc_path r) (sp_docs p) = Some d"
      using find_concat [of _ "map sp_docs ?ps" d] by (auto simp: find_doc_def)
    with d(2) have "cited_in_profile ?key p \<noteq> []"
      by (simp add: cited_in_profile_def find_section_def section_match_heading)
    with \<open>p \<in> set ?ps\<close> show "fst (collect_standards_refs_in_diff c [?key]) \<noteq> []" by (auto simp: collected)
  qed
qed

theorem cited_refs_reach_audit_witness:
  "fst (collect_standards_refs_in_diff demo_contract [('' py/naming.md'', ''Rules'')]) = []"
proof -
  let ?r = "\<lparr>dr_doc_path = '' py/naming.md'', dr_section = ''Rules''\<rparr>"
  let ?s = "(hd (p_subtasks demo_checked_plan))\<lparr>st_standards_referenced := [?r]\<rparr>"
  have "validate_standards_refs [?s] demo_contract = None" by code_simp
  moreover have "\<And>p d. p \<in> set (sg_profiles (ct_standards demo_contract)) \<Longrightarrow> d \<in> set (sp_docs p) \<Longrightarrow>
      strip (sd_repo_relative d) = sd_repo_relative d"
    by (simp add: demo_contract_def demo_standards_doc_def) code_simp
  moreover have "strip '' py/naming.md'' \<noteq> '' py/naming.md''" by code_simp
  ultimately show ?thesis using cited_refs_reach_audit [of "[?s]" demo_contract ?s ?r] by simp
qed

section \<open>Findings and their identifiers\<close>

lemma fold_first_occurrences:
  "distinct ids \<Longrightarrow>
   distinct (fold (\<lambda>i ids. if i \<in> set ids then ids else ids @ [i]) xs ids) \<and>
   set (fold (\<lambda>i ids. if i \<in> set ids then ids else ids @ [i]) xs ids) = set ids \<union> set xs"
proof (induction xs arbitrary: ids)
  case (Cons x xs)
  then show ?case using Cons.IH [of "if x \<in> set ids then ids else ids @ [x]"] by auto
qed simp

lemma collected_ids:
  "distinct (collect_finding_ids failed)" "set (collect_finding_ids failed) = (\<Union>s \<in> set failed. set (stage_finding_ids s))"
  using fold_first_occurrences [of "[]" "concat (map stage_finding_ids failed)"] by (simp_all add: collect_finding_ids_def)

lemma finding_id_collected:
  assumes "s \<in> set failed" and "idx < length (so_findings s)"
  shows "finding_id (so_name s) idx (so_findings s ! idx) \<in> set (collect_finding_ids failed)"
proof -
  have "(idx, so_findings s ! idx) \<in> set (enumerate 0 (so_findings s))"
    using assms(2) by (auto simp: in_set_enumerate_eq)
  then have "finding_id (so_name s) idx (so_findings s ! idx) \<in> set (stage_finding_ids s)"
    unfolding stage_finding_ids_def by fastforce
  with assms(1) show ?thesis by (auto simp: collected_ids(2))
qed

text \<open>A stage that fails for a reason the auditor gave has findings, so the next plan has something to cover.\<close>

lemma gap_ids_collected:
  assumes "s \<in> set failed" and "f \<in> set (so_findings s)" and "key \<in> {''gaps_to_reach_ten'', ''completeness_gaps''}"
  shows "set (gap_ids (so_name s) f key) \<subseteq> set (collect_finding_ids failed)"
proof -
  obtain idx where "idx < length (so_findings s)" "so_findings s ! idx = f" using assms(2) by (auto simp: in_set_conv_nth)
  then have "(idx, f) \<in> set (enumerate 0 (so_findings s))" by (auto simp: in_set_enumerate_eq)
  then have "set (gap_ids (so_name s) f key) \<subseteq> set (stage_finding_ids s)"
    using assms(3) unfolding stage_finding_ids_def by fastforce
  with assms(1) show ?thesis by (auto simp: collected_ids(2))
qed

lemma rubric_finding_id [simp]:
  "fid \<noteq> [] \<Longrightarrow> finding_id n idx (rubric_finding k fid s) = stage_value n @ '':'' @ fid"
  by (simp add: finding_id_def raw_finding_id_def rubric_finding_def jget_def json_true_def List.map_filter_simps)

text \<open>
  Every category under the minimum is on the list the fixup plan has to cover. When the rubric stage of a cycle
  fails, the identifiers collected from the failed stages have no repetition, each listed category under the minimum has
  the identifier \<^verbatim>\<open>rubric:category-NAME\<close> among them, and each of its gaps with an id is there as well.
\<close>

theorem rubric_findings_collected:
  assumes "cs \<in> set scores" and "cs_score cs < wc_rubric_min_score cfg" and "g \<in> set (cs_gaps cs)" and "ga_id g \<noteq> []"
    and "failed_stages cr = before @ build_rubric_outcome cfg scores r # rest"
  shows "distinct (collect_finding_ids (failed_stages cr)) \<and>
    ''rubric:category-'' @ cs_name cs \<in> set (collect_finding_ids (failed_stages cr)) \<and>
    ''rubric:'' @ ga_id g \<in> set (collect_finding_ids (failed_stages cr))"
proof -
  let ?oc = "build_rubric_outcome cfg scores r"
  let ?f = "rubric_finding ''rubric_below_threshold'' (''category-'' @ cs_name cs) cs"
  have "filter (\<lambda>s. cs_score s < wc_rubric_min_score cfg) scores \<noteq> []" using assms(1,2) by (auto simp: filter_empty_conv)
  then have oc: "so_name ?oc = Stage_rubric" "?f \<in> set (so_findings ?oc)"
    using assms(1,2) by (auto simp: build_rubric_outcome_def failed_outcome_def rubric_findings_def Let_def
        intro!: bexI [of _ cs] imageI)
  have mem: "?oc \<in> set (failed_stages cr)" using assms(5) by simp
  obtain idx where idx: "idx < length (so_findings ?oc)" "so_findings ?oc ! idx = ?f"
    using oc(2) by (auto simp: in_set_conv_nth)
  have "stage_value Stage_rubric @ '':'' @ ''category-'' @ cs_name cs \<in> set (collect_finding_ids (failed_stages cr))"
    using finding_id_collected [OF mem idx(1)] by (simp add: oc(1) idx(2))
  moreover have "stage_value Stage_rubric @ '':'' @ ga_id g \<in> set (gap_ids Stage_rubric ?f ''gaps_to_reach_ten'')"
    using assms(3,4)
    by (force simp: gap_ids_def rubric_finding_def jget_def gap_json_def option_list_def json_true_def json_str_def)
  ultimately show ?thesis
    using gap_ids_collected [OF mem oc(2), of "''gaps_to_reach_ten''"] oc(1) by (auto simp: collected_ids(1))
qed

section \<open>The release valve\<close>

text \<open>A stage's outcome carries its name.\<close>

lemma outcome_names [simp]: "so_name (failed_outcome n a b c) = n" "so_name (passed_outcome n a b c) = n"
  by (simp_all add: failed_outcome_def passed_outcome_def)

lemma early_names [simp]:
  "so_name (parse_failure_outcome n r) = n" "so_name (agent_failure_outcome n r) = n"
  "so_name (render_failure_outcome n e) = n" "so_name (schema_mismatch_outcome n a b) = n"
  by (simp_all add: parse_failure_outcome_def agent_failure_outcome_def render_failure_outcome_def
      schema_mismatch_outcome_def Let_def)

definition named :: "stage_name \<Rightarrow> (stage_outcome + structured \<times> agent_result) \<Rightarrow> bool" where
  "named n x \<longleftrightarrow> (case x of Inl oc \<Rightarrow> so_name oc = n | Inr _ \<Rightarrow> True)"

lemma named_simps [simp]: "named n (Inl oc) \<longleftrightarrow> so_name oc = n" "named n (Inr y)"
  by (simp_all add: named_def)

lemma attempts_named: "yields (named n) (audit_attempts tw n role wanted k)"
proof (induction k)
  case 0
  show ?case
    by (subst audit_attempts.simps, rule bind_yields) (auto simp: checked_answer_def intro!: yields_return
        split: option.split)
next
  case (Suc k)
  then show ?case
    by (subst audit_attempts.simps, intro bind_yields) (auto simp: checked_answer_def intro!: yields_return
        split: option.split)
qed

lemma bridge_named:
  assumes "\<And>v r oc. build v r = Inr oc \<Longrightarrow> so_name oc = n"
  shows "yields (\<lambda>oc. so_name oc = n) (py_bind (invoke_audit tw n role tmpl wanted) (bridge build))"
proof (rule yields_bind [where R = "named n"])
  show "yields (named n) (invoke_audit tw n role tmpl wanted)"
    unfolding invoke_audit_def by (auto simp: named_def intro!: attempts_named yields_return split: option.split)
  show "yields (\<lambda>oc. so_name oc = n) (bridge build x)" if "named n x" for x
    using that assms by (auto simp: named_def bridge_def yields_def act_simps split: sum.splits prod.splits)
qed

lemma stage_named: "yields (\<lambda>oc. so_name oc = n) (run_stage tw c evs n)"
proof (cases n)
  case Stage_local_ci
  have "so_name (local_ci_result cmd res) = Stage_local_ci" "so_name (local_ci_raised e) = Stage_local_ci" for cmd res e
    by (auto simp: local_ci_result_def local_ci_raised_def Let_def split: prod.splits)
  then show ?thesis unfolding Stage_local_ci run_stage_def
    by (auto simp: run_local_ci_gate_def Let_def yields_def act_simps split: sum.splits prod.splits py_error.splits)
next
  case Stage_rubric
  show ?thesis unfolding Stage_rubric run_stage_def stage_name.case run_rubric_audit_def
    by (rule bridge_named) (auto simp: build_rubric_outcome_def Let_def split: structured.splits if_splits)
next
  case Stage_standards
  show ?thesis unfolding Stage_standards run_stage_def stage_name.case run_standards_audit_def
    by (auto simp: build_standards_outcome_def budget_outcome_def Let_def intro!: bridge_named yields_return
        split: structured.splits if_splits)
next
  case Stage_architecture
  show ?thesis unfolding Stage_architecture run_stage_def stage_name.case run_architecture_audit_def
    by (auto simp: build_architecture_outcome_def budget_outcome_def Let_def intro!: bridge_named yields_return
        split: structured.splits if_splits)
next
  case Stage_behavior
  show ?thesis unfolding Stage_behavior run_stage_def stage_name.case run_behavior_audit_def
    by (auto simp: build_behavior_outcome_def Let_def intro!: bridge_named yields_return split: structured.splits if_splits)
qed

lemma structural_some: "structural_failures cr = [] \<longleftrightarrow> (\<forall>s \<in> set (failed_stages cr). \<forall>f \<in> set (so_findings s). \<not> structural_finding f)"
  by (auto simp: structural_failures_def)

lemma valve_report_exact:
  "release_valve_report cfg cr \<noteq> None \<longleftrightarrow>
     0 \<le> wc_valve_after_cycles cfg \<and> wc_valve_after_cycles cfg \<le> cy_cycle cr \<and> \<not> cycle_passed cr \<and>
     (\<forall>s \<in> set (failed_stages cr). so_name s \<notin> {Stage_local_ci, Stage_behavior} \<and>
        stage_value (so_name s) \<in> set (wc_valve_stages cfg) \<and> so_findings s \<noteq> []) \<and>
     structural_failure_report cr = None \<and> int (critical_findings (failed_stages cr)) \<le> wc_valve_max_critical cfg"
proof -
  have eqs: "''local_ci'' = stage_value n \<longleftrightarrow> n = Stage_local_ci" "''behavior'' = stage_value n \<longleftrightarrow> n = Stage_behavior" for n
    by (cases n; simp)+
  have names: "''local_ci'' \<in> set (map (\<lambda>s. stage_value (so_name s)) fs) \<longleftrightarrow> (\<exists>s \<in> set fs. so_name s = Stage_local_ci)"
    "''behavior'' \<in> set (map (\<lambda>s. stage_value (so_name s)) fs) \<longleftrightarrow> (\<exists>s \<in> set fs. so_name s = Stage_behavior)" for fs
    by (auto simp: eqs image_iff)
  have passed: "cycle_passed cr \<longleftrightarrow> failed_stages cr = []"
    by (auto simp: cycle_passed_def failed_stages_def filter_empty_conv list_all_iff)
  have structural: "structural_failure_report cr = None \<longleftrightarrow>
      (\<forall>s \<in> set (failed_stages cr). \<not> list_ex structural_finding (so_findings s))"
    by (simp add: structural_failure_report_def structural_some list_ex_iff)
  show ?thesis
    unfolding release_valve_report_def valve_blocked_def Let_def passed structural names
    by (auto simp: list_ex_iff not_less subset_iff)
qed

text \<open>
  C25: the release valve never hides a failure it must not. When it gives a report, local CI and behavior are not among
  the failed stages, only stages configured as deferable are, every one of them has findings and none of these is
  structural (so the cycle would not be blocked either), the critical ones are within the limit, and the cycle is late
  enough; and it always gives a report then.
\<close>

theorem release_valve_exact:
  "release_valve_report cfg cr \<noteq> None \<longleftrightarrow>
     0 \<le> wc_valve_after_cycles cfg \<and> wc_valve_after_cycles cfg \<le> cy_cycle cr \<and> \<not> cycle_passed cr \<and>
     (\<forall>s \<in> set (failed_stages cr). so_name s \<notin> {Stage_local_ci, Stage_behavior} \<and>
        stage_value (so_name s) \<in> set (wc_valve_stages cfg) \<and> so_findings s \<noteq> []) \<and>
     structural_failure_report cr = None \<and> int (critical_findings (failed_stages cr)) \<le> wc_valve_max_critical cfg"
  by (rule valve_report_exact)

text \<open>Two rubric categories, one under the minimum, after the second cycle; and the same with a parse failure.\<close>

definition demo_low :: "category_score list" where
  "demo_low = [\<lparr>cs_name = ''tests'', cs_score = 2, cs_rationale = ''thin'',
     cs_gaps = [\<lparr>ga_id = ''g1'', ga_description = ''no edge cases'', ga_concrete_fix = ''add them'', ga_files = []\<rparr>]\<rparr>]"

definition demo_low_cycle :: cycle_result where
  "demo_low_cycle =
     \<lparr>cy_cycle = 2, cy_stages = [passed_outcome Stage_local_ci [] [] [],
        build_rubric_outcome demo_worker_cfg demo_low demo_answer, passed_outcome Stage_behavior [] [] []]\<rparr>"

lemma demo_low_failed: "failed_stages demo_low_cycle = [] @ build_rubric_outcome demo_worker_cfg demo_low demo_answer # []"
  by code_simp

theorem rubric_findings_collected_witness:
  "distinct (collect_finding_ids (failed_stages demo_low_cycle)) \<and>
    ''rubric:category-tests'' \<in> set (collect_finding_ids (failed_stages demo_low_cycle)) \<and>
    ''rubric:g1'' \<in> set (collect_finding_ids (failed_stages demo_low_cycle))"
  using rubric_findings_collected [OF _ _ _ _ demo_low_failed, of "demo_low ! 0" "cs_gaps (demo_low ! 0) ! 0"]
  by (simp add: demo_low_def demo_worker_cfg_def)

theorem release_valve_exact_witness:
  "structural_failure_report demo_low_cycle = None \<and> release_valve_report demo_worker_cfg demo_low_cycle \<noteq> None"
proof -
  have none: "structural_failure_report demo_low_cycle = None" by code_simp
  have "release_valve_report demo_worker_cfg demo_low_cycle \<noteq> None"
    unfolding release_valve_exact
  proof (intro conjI none)
    show "\<forall>s \<in> set (failed_stages demo_low_cycle). so_name s \<notin> {Stage_local_ci, Stage_behavior} \<and>
        stage_value (so_name s) \<in> set (wc_valve_stages demo_worker_cfg) \<and> so_findings s \<noteq> []"
      by code_simp
  qed code_simp+
  with none show ?thesis by simp
qed

end
