(* ===== verification/AuditCycle.thy ===== *)
theory AuditCycle
  imports AuditStages
begin

text \<open>
  The audit cycle of a worker: \<^verbatim>\<open>workers/pre_pr_audit_stages.py\<close>, \<^verbatim>\<open>workers/audit_bootstrap.py\<close>,
  \<^verbatim>\<open>workers/audit_driver.py\<close> and the cycle methods of \<^verbatim>\<open>workers/pre_pr.py\<close>. Every cycle runs the stages in order,
  reuses the passes of an interrupted cycle, moves the task from one audit state to the next after each pass, and ends
  in the PR, in a block, or in a fixup round before the next cycle.
\<close>

section \<open>Passes of an interrupted cycle\<close>

definition stage_was_passed :: "audit_stage \<Rightarrow> bool" where
  "stage_was_passed s \<longleftrightarrow> as_passed s = Some True"

definition resumable_pre_pr_audit_summary :: "task_worker \<Rightarrow> db \<Rightarrow> audit_summary option" where
  "resumable_pre_pr_audit_summary tw d =
     (case get_pre_pr_audit_summary (tw_id tw) d of
        None \<Rightarrow> None
      | Some s \<Rightarrow>
          if sum_cycle s < 1 \<or> wc_audit_max_cycles (tw_cfg tw) < sum_cycle s then None
          else if list_ex stage_was_passed (sum_stages s) then Some s else None)"

definition resumable_pre_pr_stage_names :: "audit_summary \<Rightarrow> string list" where
  "resumable_pre_pr_stage_names s =
     map as_name (filter (\<lambda>st. stage_was_passed st \<and> as_name st \<noteq> []) (sum_stages s))"

definition pre_pr_stage_passed :: "audit_summary option \<Rightarrow> string \<Rightarrow> bool" where
  "pre_pr_stage_passed summary nm \<longleftrightarrow>
     (case summary of None \<Rightarrow> False | Some s \<Rightarrow> nm \<in> set (resumable_pre_pr_stage_names s))"

definition stage_outcome_from_summary :: "audit_summary option \<Rightarrow> stage_name \<Rightarrow> stage_outcome option" where
  "stage_outcome_from_summary summary n =
     (case summary of
        None \<Rightarrow> None
      | Some s \<Rightarrow>
          (case List.find (\<lambda>st. as_name st = stage_value n \<and> stage_was_passed st) (sum_stages s) of
             None \<Rightarrow> None
           | Some st \<Rightarrow> Some (passed_outcome n (or_else (as_summary st) ''resumed from prior passed stage'') [] [])))"

section \<open>The stages of one cycle\<close>

definition record_stage :: "task_worker \<Rightarrow> int \<Rightarrow> stage_outcome \<Rightarrow> unit wact" where
  "record_stage tw cycle oc =
     on_store (update_pre_pr_audit_stage (tw_id tw) cycle (stage_value (so_name oc)) (so_passed oc) (so_summary oc))"

definition stop_requested :: "task_worker \<Rightarrow> bool wact" where
  "stop_requested tw = py_read (\<lambda>w. tw_stop tw (length (wd_calls w)))"

definition run_or_reuse ::
  "task_worker \<Rightarrow> contract \<Rightarrow> evidence list \<Rightarrow> int \<Rightarrow> audit_summary option \<Rightarrow> stage_name \<Rightarrow> stage_outcome wact" where
  "run_or_reuse tw c evs cycle resume n =
     py_then the_handle
       (case stage_outcome_from_summary resume n of
          Some oc \<Rightarrow> py_return oc
        | None \<Rightarrow>
            py_bind (run_stage tw c evs n) (\<lambda>oc.
            py_bind (stop_requested tw) (\<lambda>stop.
              if stop
              then py_raise (ShutdownRequested
                     (''shutdown requested after pre-pr stage '' @ stage_value n @ ''; discarding result''))
              else py_then (record_stage tw cycle oc) (py_return oc))))"

definition stage_enter_helper :: "stage_name \<Rightarrow> helper option" where
  "stage_enter_helper n =
     (case n of
        Stage_local_ci \<Rightarrow> None
      | Stage_rubric \<Rightarrow> Some enter_audit_rubric
      | Stage_standards \<Rightarrow> Some enter_audit_standards
      | Stage_architecture \<Rightarrow> Some enter_audit_architecture
      | Stage_behavior \<Rightarrow> Some enter_audit_behavior)"

text \<open>\<^verbatim>\<open>advance_to(stage, f"{stage} audit", prior)\<close>: only after a pass.\<close>

definition advance_to :: "task_worker \<Rightarrow> int \<Rightarrow> stage_name \<Rightarrow> stage_outcome \<Rightarrow> unit wact" where
  "advance_to tw cycle n prior =
     (if \<not> so_passed prior then py_return ()
      else case stage_enter_helper n of
             None \<Rightarrow> py_return ()
           | Some h \<Rightarrow>
               fsm_call tw h (Some (''audit cycle '' @ str_int cycle @ '': '' @ stage_value n @ '' audit'')) [])"

definition merge_integration_subtasks_present :: "task_worker \<Rightarrow> db \<Rightarrow> bool" where
  "merge_integration_subtasks_present tw d \<longleftrightarrow>
     list_ex (\<lambda>s. s_kind s = ''merge-integration'') (list_subtasks (tw_id tw) d)"

text \<open>A merge-node is audited against the evidence of its source parents; equal entries count once.\<close>

definition behavior_audit_expected_evidence :: "task_worker \<Rightarrow> bool \<Rightarrow> db \<Rightarrow> evidence list" where
  "behavior_audit_expected_evidence tw merge_node_mode d =
     (if \<not> merge_node_mode then tw_evidence tw
      else fold (\<lambda>ev seen. if ev \<in> set seen then seen else seen @ [ev])
             (concat (map (\<lambda>pid. case tw_node_evidence tw pid of None \<Rightarrow> [] | Some evs \<Rightarrow> evs)
                (get_parent_task_ids (tw_id tw) d))) [])"

definition first_keys :: "doc_ref list \<Rightarrow> (string \<times> string) list" where
  "first_keys refs =
     fold (\<lambda>r ks. let k = (dr_doc_path r, dr_section r) in if k \<in> set ks then ks else ks @ [k]) refs []"

definition collect_cited_refs :: "plan option \<Rightarrow> (string \<times> string) list \<times> (string \<times> string) list" where
  "collect_cited_refs p =
     (case p of
        None \<Rightarrow> ([], [])
      | Some q \<Rightarrow>
          (first_keys (concat (map st_standards_referenced (p_subtasks q))),
           first_keys (concat (map st_architecture_referenced (p_subtasks q)))))"

text \<open>From local CI on; the contract is read only when the middle stages run.\<close>

definition middle_stages ::
  "task_worker \<Rightarrow> int \<Rightarrow> audit_summary option \<Rightarrow> stage_outcome \<Rightarrow> stage_outcome list wact" where
  "middle_stages tw cycle resume local_ci =
     py_bind (evaluation_contract tw) (\<lambda>c.
     py_then (advance_to tw cycle Stage_rubric local_ci)
     (py_bind (run_or_reuse tw c [] cycle resume Stage_rubric) (\<lambda>rubric.
     py_then (advance_to tw cycle Stage_standards rubric)
     (py_bind (run_or_reuse tw c [] cycle resume Stage_standards) (\<lambda>standards.
     py_then (advance_to tw cycle Stage_architecture standards)
     (py_bind (run_or_reuse tw c [] cycle resume Stage_architecture) (\<lambda>architecture.
     py_then (advance_to tw cycle Stage_behavior architecture)
       (py_return [rubric, standards, architecture]))))))))"

definition execute_audit_stages ::
  "task_worker \<Rightarrow> int \<Rightarrow> bool \<Rightarrow> audit_summary option \<Rightarrow> stage_outcome list wact" where
  "execute_audit_stages tw cycle merge_node_mode resume =
     py_bind (run_or_reuse tw (tw_built_contract tw) [] cycle resume Stage_local_ci) (\<lambda>local_ci.
     py_then
       (if so_passed local_ci
        then fsm_call tw (\<lambda>tid. enter_audit_local_ci tid None)
               (Some (''audit cycle '' @ str_int cycle @ '': local_ci passed'')) []
        else py_return ())
     (py_bind (store_read (merge_integration_subtasks_present tw)) (\<lambda>integration.
      py_bind
        (if \<not> merge_node_mode \<or> integration then middle_stages tw cycle resume local_ci
         else py_then (advance_to tw cycle Stage_behavior local_ci) (py_return [])) (\<lambda>middle.
      py_bind (store_read (behavior_audit_expected_evidence tw merge_node_mode)) (\<lambda>evs.
      py_bind (run_or_reuse tw (tw_built_contract tw) evs cycle resume Stage_behavior) (\<lambda>behavior.
        py_return ([local_ci] @ middle @ [behavior])))))))"

section \<open>A fresh container\<close>

definition reprovision_fresh_container :: "task_worker \<Rightarrow> unit wact" where
  "reprovision_fresh_container tw =
     py_bind (existing_worktree_path tw) (\<lambda>path.
     py_bind (py_read wd_handle) (\<lambda>h.
     py_then
       (if h = None then py_return ()
        else py_then (py_catch (teardown_container tw) (\<lambda>_. py_return ())) (py_modify (\<lambda>w. w\<lparr>wd_handle := None\<rparr>)))
       (provision_container tw path)))"

definition bootstrap_failed :: "task_worker \<Rightarrow> string \<Rightarrow> string \<Rightarrow> worker_outcome option wact" where
  "bootstrap_failed tw note err = block_with tw note (Some (take 2000 err)) note"

definition push_bootstrap_drift :: "task_worker \<Rightarrow> int \<Rightarrow> worker_outcome option wact" where
  "push_bootstrap_drift tw cycle =
     py_then (git_in_workspace tw [''add'', ''-A''])
     (py_bind (git_in_workspace tw [''commit'', ''-m'', ''audit-bootstrap: cycle '' @ str_int cycle]) (\<lambda>(rc, out).
       let failed = ''audit_bootstrap_failed: cycle '' @ str_int cycle
       in if rc \<noteq> 0 \<and> \<not> contains ''nothing to commit'' out
          then (let note = failed @ '' produced drift but commit failed rc='' @ str_int rc @ '': '' @ take 500 out
                in bootstrap_failed tw note note)
          else py_bind (the_row tw) (\<lambda>row.
               py_bind (gh_push tw (str_col (t_branch row))) (\<lambda>(rc2, out2).
                 if rc2 \<noteq> 0
                 then (let note = failed @ '' drift commit pushed rc='' @ str_int rc2 @ '': '' @ take 500 out2
                       in bootstrap_failed tw note note)
                 else py_return None))))"

definition run_audit_bootstrap :: "task_worker \<Rightarrow> int \<Rightarrow> worker_outcome option wact" where
  "run_audit_bootstrap tw cycle =
     (let cmd = wc_audit_bootstrap_command (tw_cfg tw)
      in if cmd = [] then py_return None
         else py_bind (exec_in tw (bash (''cd /workspace && '' @ cmd)) (Some 900)) (\<lambda>(rc, out, err).
           if rc \<noteq> 0
           then (let note = ''audit_bootstrap_failed: cycle '' @ str_int cycle @ '' bootstrap command `'' @ cmd @
                       ''` exited rc='' @ str_int rc @ ''; aborting audit cycle'';
                     excerpt = tail_of 2000 (out @ (if err = [] then [] else nl @ ''[stderr]'' @ nl @ err))
                 in bootstrap_failed tw note (note @ nl @ nl @ excerpt))
           else py_bind (git_in_workspace tw [''status'', ''--porcelain'']) (\<lambda>(rc1, status).
             if rc1 = 0 \<and> strip status \<noteq> [] then push_bootstrap_drift tw cycle else py_return None)))"

definition prepare_audit_cycle :: "task_worker \<Rightarrow> int \<Rightarrow> worker_outcome option wact" where
  "prepare_audit_cycle tw cycle =
     (if \<not> wc_audit_fresh_container (tw_cfg tw) then py_return None
      else py_then (reprovision_fresh_container tw) (run_audit_bootstrap tw cycle))"

section \<open>One cycle\<close>

datatype audit_trigger = INITIAL_AUDIT | CI_FAILURE | REVIEW_FEEDBACK

definition enter_audit_cycle ::
  "task_worker \<Rightarrow> int \<Rightarrow> audit_summary option \<Rightarrow> (audit_summary option \<times> worker_outcome option) wact" where
  "enter_audit_cycle tw cycle resume =
     (case resume of
        Some s \<Rightarrow>
          if sum_cycle s = cycle then py_return (Some s, None)
          else py_then (on_store (begin_pre_pr_audit_cycle (tw_id tw) cycle))
                 (py_bind (prepare_audit_cycle tw cycle) (\<lambda>oc. py_return (None, oc)))
      | None \<Rightarrow>
          py_then (on_store (begin_pre_pr_audit_cycle (tw_id tw) cycle))
            (py_bind (prepare_audit_cycle tw cycle) (\<lambda>oc. py_return (None, oc))))"

definition branch_diff_args :: "task_worker \<Rightarrow> string list" where
  "branch_diff_args tw = [''diff'', wc_pr_remote (tw_cfg tw) @ ''/'' @ wc_base_branch (tw_cfg tw) @ ''...HEAD'']"

definition compute_branch_diff_excerpt :: "task_worker \<Rightarrow> string wact" where
  "compute_branch_diff_excerpt tw =
     py_bind (git_in_workspace tw (branch_diff_args tw)) (\<lambda>(rc, out).
       py_return (if rc \<noteq> 0 \<or> out = [] then [] else cut_lines 1500 out))"

text \<open>\<^verbatim>\<open>_settle_pre_pr_cycle\<close>: \<^const>\<open>None\<close> for a fixup round, otherwise the outcome, if any, that ends the pipeline.\<close>

definition settle_pre_pr_cycle :: "task_worker \<Rightarrow> int \<Rightarrow> cycle_result \<Rightarrow> worker_outcome option option wact" where
  "settle_pre_pr_cycle tw cycle cr =
     (if cycle_passed cr then py_return (Some None)
      else case release_valve_report (tw_cfg tw) cr of
             Some report \<Rightarrow> py_then (artifact tw ''pre_pr_deferred_findings'' report) (py_return (Some None))
           | None \<Rightarrow>
               (case structural_failure_report cr of
                  None \<Rightarrow> py_return None
                | Some report \<Rightarrow>
                    (let note = ''pre-pr cycle '' @ str_int cycle @
                           '' structural audit failure; blocked instead of fixup planning''
                     in py_then (artifact tw (''pre_pr_audit:cycle_'' @ str_int cycle) report)
                        (py_bind (block_with tw note (Some (take 1000 report)) note) (\<lambda>oc. py_return (Some oc))))))"

definition open_fixup :: "task_worker \<Rightarrow> int \<Rightarrow> cycle_result \<Rightarrow> unit wact" where
  "open_fixup tw cycle cr =
     py_then
       (fsm_call tw enter_fixup_planning
          (Some (''audit cycle '' @ str_int cycle @ '' failed: '' @
                 join '', '' (map (\<lambda>s. stage_value (so_name s)) (failed_stages cr)))) [])
       (artifact tw (''pre_pr_audit:cycle_'' @ str_int cycle) (merge_failed_stage_reports (failed_stages cr)))"

definition drive_fixup_round_for_cycle :: "task_worker \<Rightarrow> int \<Rightarrow> cycle_result \<Rightarrow> worker_outcome option proc" where
  "drive_fixup_round_for_cycle tw cycle cr =
     p_then (p_act (open_fixup tw cycle cr))
     (p_bind
       (run_fixup_round tw ''fixup-pre-pr-audit'' cycle ''pre_pr_audit''
          (Some (collect_finding_ids (failed_stages cr)))) (\<lambda>oc.
        p_return (case oc of None \<Rightarrow> None | Some o1 \<Rightarrow> if wo_final_state o1 = BLOCKED then Some o1 else None)))"

datatype cycle_end = Cycle_passed | Cycle_continue | Cycle_ended worker_outcome

definition audit_note :: string where
  "audit_note = ''shutdown requested during pre-pr audit; discarding partial audit result''"

text \<open>The stages of the cycle, or the outcome when a shutdown interrupts them.\<close>

definition guarded_stages ::
  "task_worker \<Rightarrow> int \<Rightarrow> bool \<Rightarrow> audit_summary option \<Rightarrow> (worker_outcome + stage_outcome list) wact" where
  "guarded_stages tw cycle merge_node_mode resume =
     py_catch
       (py_bind (execute_audit_stages tw cycle merge_node_mode resume) (\<lambda>stages. py_return (Inr stages)))
       (\<lambda>e. case e of
          ShutdownRequested _ \<Rightarrow>
            py_bind (on_store (current_state (tw_id tw))) (\<lambda>s. py_return (Inl (outcome s audit_note)))
        | _ \<Rightarrow> py_raise e)"

definition begin_cycle ::
  "task_worker \<Rightarrow> int \<Rightarrow> audit_trigger \<Rightarrow> bool \<Rightarrow> audit_summary option \<Rightarrow> (worker_outcome + stage_outcome list) wact" where
  "begin_cycle tw cycle trigger merge_node_mode resume =
     py_bind (enter_audit_cycle tw cycle resume) (\<lambda>(resume', boot).
       case boot of
         Some oc \<Rightarrow> py_return (Inl oc)
       | None \<Rightarrow>
           py_then
             (if trigger = INITIAL_AUDIT \<and> \<not> pre_pr_stage_passed resume' ''local_ci''
              then fsm_call tw enter_local_ci_checking
                     (Some (''audit cycle '' @ str_int cycle @ '': local-ci ('' @ wc_local_ci_command (tw_cfg tw) @ '')'')) []
              else py_return ())
           (py_then (compute_branch_diff_excerpt tw)
           (py_then (the_row tw) (guarded_stages tw cycle merge_node_mode resume'))))"

definition end_cycle ::
  "task_worker \<Rightarrow> int \<Rightarrow> bool \<Rightarrow> cycle_result \<Rightarrow> cycle_end option wact" where
  "end_cycle tw cycle merge_node_mode cr =
     py_bind (settle_pre_pr_cycle tw cycle cr) (\<lambda>settled. case settled of
       None \<Rightarrow> py_return None
     | Some (Some oc) \<Rightarrow> py_return (Some (Cycle_ended oc))
     | Some None \<Rightarrow>
         py_then
           (if merge_node_mode then py_return ()
            else fsm_call tw audit_behavior_passed (Some (''audit cycle '' @ str_int cycle @ '' passed cleanly'')) [])
           (py_return (Some Cycle_passed)))"

definition run_one_audit_cycle ::
  "task_worker \<Rightarrow> int \<Rightarrow> audit_trigger \<Rightarrow> bool \<Rightarrow> audit_summary option \<Rightarrow> cycle_end proc" where
  "run_one_audit_cycle tw cycle trigger merge_node_mode resume =
     p_bind (p_act (begin_cycle tw cycle trigger merge_node_mode resume)) (\<lambda>begun. case begun of
       Inl oc \<Rightarrow> p_return (Cycle_ended oc)
     | Inr stages \<Rightarrow>
         (let cr = \<lparr>cy_cycle = cycle, cy_stages = stages\<rparr>
          in p_bind (p_act (end_cycle tw cycle merge_node_mode cr)) (\<lambda>settled. case settled of
               Some e \<Rightarrow> p_return e
             | None \<Rightarrow>
                 p_bind (drive_fixup_round_for_cycle tw cycle cr) (\<lambda>oc.
                   p_return (case oc of None \<Rightarrow> Cycle_continue | Some o1 \<Rightarrow> Cycle_ended o1)))))"

section \<open>The driver\<close>

definition maybe_enter_pre_pr_review_phase :: "task_worker \<Rightarrow> unit wact" where
  "maybe_enter_pre_pr_review_phase tw =
     py_catch
       (py_bind (the_row tw) (\<lambda>row.
          if t_phase row = Phase_INITIAL
          then on_store (enter_phase (tw_id tw) Phase_PRE_PR_REVIEW 1 Trigger_NONE
                 (Some ''initial subtasks done; entering PRE_PR_REVIEW phase''))
          else py_return ()))
       (\<lambda>_. py_return ())"

definition audit_cycle_prologue :: "task_worker \<Rightarrow> audit_trigger \<Rightarrow> unit wact" where
  "audit_cycle_prologue tw trigger =
     (case trigger of
        INITIAL_AUDIT \<Rightarrow> maybe_enter_pre_pr_review_phase tw
      | CI_FAILURE \<Rightarrow>
          fsm_call tw enter_audit_cycle_for_ci_fixup (Some ''post-PR CI failure: entering unified audit cycle'') []
      | REVIEW_FEEDBACK \<Rightarrow>
          fsm_call tw enter_audit_cycle_for_review_fixup
            (Some ''post-PR CHANGES_REQUESTED: entering unified audit cycle'') [])"

definition audit_exhausted :: "task_worker \<Rightarrow> worker_outcome option wact" where
  "audit_exhausted tw =
     (let note = ''pre-PR audit pipeline exhausted '' @ str_int (wc_audit_max_cycles (tw_cfg tw)) @
            '' cycle(s) without a clean pass '' @ em_dash @ '' manual review required''
      in block_with tw note (Some (take 1000 note)) note)"

text \<open>\<^verbatim>\<open>for cycle in range(start, max + 1)\<close>, with \<open>k\<close> cycles to go.\<close>

fun audit_cycles ::
  "task_worker \<Rightarrow> audit_trigger \<Rightarrow> bool \<Rightarrow> nat \<Rightarrow> int \<Rightarrow> audit_summary option \<Rightarrow> worker_outcome option proc" where
  "audit_cycles tw trigger merge_node_mode 0 cycle resume = p_act (audit_exhausted tw)"
| "audit_cycles tw trigger merge_node_mode (Suc k) cycle resume =
     p_bind (run_one_audit_cycle tw cycle trigger merge_node_mode resume) (\<lambda>e. case e of
       Cycle_passed \<Rightarrow> p_return None
     | Cycle_continue \<Rightarrow> audit_cycles tw trigger merge_node_mode k (cycle + 1) None
     | Cycle_ended oc \<Rightarrow> p_return (Some oc))"

definition run_audit_cycle :: "task_worker \<Rightarrow> audit_trigger \<Rightarrow> bool \<Rightarrow> worker_outcome option proc" where
  "run_audit_cycle tw trigger merge_node_mode =
     p_then (p_act (audit_cycle_prologue tw trigger))
     (p_bind (p_act (store_read (resumable_pre_pr_audit_summary tw))) (\<lambda>resume.
        let start = (case resume of None \<Rightarrow> 1 | Some s \<Rightarrow> sum_cycle s)
        in audit_cycles tw trigger merge_node_mode (nat (wc_audit_max_cycles (tw_cfg tw) - start + 1)) start resume))"

definition run_pre_pr_pipeline :: "task_worker \<Rightarrow> bool \<Rightarrow> worker_outcome option proc" where
  "run_pre_pr_pipeline tw merge_node_mode = run_audit_cycle tw INITIAL_AUDIT merge_node_mode"

section \<open>Before the audit\<close>

definition fast_forward_to_local_ci_if_subtasks_done :: "task_worker \<Rightarrow> bool wact" where
  "fast_forward_to_local_ci_if_subtasks_done tw =
     py_bind (on_store (current_state (tw_id tw))) (\<lambda>cur.
       if cur \<notin> {PUSHING, PLANNING, DOING_SUBTASK} then py_return False
       else
         py_then
           (if cur = PLANNING then fsm_call tw enter_doing_subtask (Some ''resume: subtasks already DONE'') []
            else py_return ())
         (py_then
           (if cur = PLANNING \<or> cur = DOING_SUBTASK
            then py_then (fsm_call tw enter_checking_subtask (Some ''fast-forward'') [])
                 (py_then (fsm_call tw enter_committing (Some ''fast-forward'') [])
                   (fsm_call tw enter_pushing (Some ''fast-forward'') []))
            else py_return ())
         (py_then
           (fsm_call tw enter_local_ci_checking (Some ''all subtasks committed and pushed via per-subtask flow'') [])
           (py_return True))))"

definition final_push :: "task_worker \<Rightarrow> string \<Rightarrow> worker_outcome option wact" where
  "final_push tw br =
     py_then (fsm_call tw enter_pushing None [])
     (py_bind (gh_push tw br) (\<lambda>(rc, out).
        if rc \<noteq> 0 then py_raise (RuntimeError (''push failed: '' @ take 1000 out)) else py_return None))"

definition no_diff :: "task_worker \<Rightarrow> worker_outcome option wact" where
  "no_diff tw =
     py_then (fsm_call tw enter_pushing (Some ''no diff before final push'') [])
     (py_then
       (fsm_call tw enter_local_ci_checking (Some ''no diff - task already complete or doer made no changes'') [])
       (py_return (Some (outcome PENDING_CI ''no diff''))))"

definition commit_push :: "task_worker \<Rightarrow> worker_outcome option wact" where
  "commit_push tw =
     py_bind (handle_parent_rebase tw) (\<lambda>rebased. case rebased of
       Some oc \<Rightarrow> py_return (Some oc)
     | None \<Rightarrow>
         py_bind (fast_forward_to_local_ci_if_subtasks_done tw) (\<lambda>fast.
           if fast then py_return None
           else
             py_then (fsm_call tw enter_committing None [])
             (py_bind
               (commit_all tw (tw_id tw @ '': '' @ tw_title tw @ nl @ nl @ ''Planned and implemented by quikode.''))
               (\<lambda>(rc, out).
                py_bind (the_row tw) (\<lambda>row.
                  let br = str_col (t_branch row)
                  in if rc = 0 then final_push tw br
                     else if contains ''nothing to commit'' out \<or> contains ''no changes added to commit'' out
                     then py_bind (ahead_count tw br (wc_base_branch (tw_cfg tw))) (\<lambda>ahead.
                            if 0 < ahead then final_push tw br else no_diff tw)
                     else py_raise (RuntimeError (''commit failed (post-subtasks): '' @ take 1000 out)))))))"

section \<open>Facts\<close>

lemma keeps_record_stage [keeps_intros]: "wkeeps store_ok (record_stage tw cycle oc)"
  unfolding record_stage_def by (intro keeps_intros)

lemma keeps_stop [keeps_intros]: "wkeeps P (stop_requested tw)"
  unfolding stop_requested_def by (intro keeps_intros)

lemma keeps_run_or_reuse [calls_keep]:
  "others_keep store_ok tw \<Longrightarrow> wkeeps store_ok (run_or_reuse tw c evs cycle resume n)"
  unfolding run_or_reuse_def by (intro keeps_intros calls_keep)

lemma keeps_advance_to [keeps_intros]: "wkeeps store_ok (advance_to tw cycle n prior)"
  unfolding advance_to_def stage_enter_helper_def
  by (cases n) (auto intro!: keeps_intros simp: enter_audit_rubric_def enter_audit_standards_def
      enter_audit_architecture_def enter_audit_behavior_def)

lemma keeps_execute [calls_keep]:
  assumes "others_keep store_ok tw"
  shows "wkeeps store_ok (middle_stages tw cycle resume oc)" and "wkeeps store_ok (execute_audit_stages tw cycle m resume)"
proof -
  show middle: "wkeeps store_ok (middle_stages tw cycle resume oc)" for oc
    unfolding middle_stages_def by (intro keeps_intros calls_keep assms)
  show "wkeeps store_ok (execute_audit_stages tw cycle m resume)"
    unfolding execute_audit_stages_def by (intro keeps_intros calls_keep assms middle)
qed

lemma keeps_bootstrap [calls_keep]:
  assumes "others_keep store_ok tw"
  shows "wkeeps store_ok (reprovision_fresh_container tw)" and "wkeeps store_ok (push_bootstrap_drift tw cycle)"
    and "wkeeps store_ok (run_audit_bootstrap tw cycle)" and "wkeeps store_ok (prepare_audit_cycle tw cycle)"
proof -
  show reprov: "wkeeps store_ok (reprovision_fresh_container tw)"
    unfolding reprovision_fresh_container_def by (intro keeps_intros calls_keep assms keeps_field_update) simp
  show drift: "wkeeps store_ok (push_bootstrap_drift tw cycle)"
    unfolding push_bootstrap_drift_def bootstrap_failed_def Let_def by (intro keeps_intros calls_keep assms)
  show boot: "wkeeps store_ok (run_audit_bootstrap tw cycle)"
    unfolding run_audit_bootstrap_def bootstrap_failed_def Let_def by (intro keeps_intros calls_keep assms drift)
  show "wkeeps store_ok (prepare_audit_cycle tw cycle)"
    unfolding prepare_audit_cycle_def by (intro keeps_intros reprov boot)
qed

lemma keeps_shutdown_case [keeps_intros]:
  "keeps P m \<Longrightarrow> keeps P (case e of ShutdownRequested x \<Rightarrow> m | _ \<Rightarrow> py_raise e)"
  by (cases e) (auto intro: keeps_intros)

lemma keeps_cycle [calls_keep]:
  assumes "others_keep store_ok tw"
  shows "wkeeps store_ok (enter_audit_cycle tw cycle resume)" and "wkeeps store_ok (settle_pre_pr_cycle tw cycle cr)"
    and "wkeeps store_ok (begin_cycle tw cycle trigger m resume)" and "wkeeps store_ok (end_cycle tw cycle m cr)"
proof -
  show enter: "wkeeps store_ok (enter_audit_cycle tw cycle resume)"
    unfolding enter_audit_cycle_def by (intro keeps_intros calls_keep assms)
  show settle: "wkeeps store_ok (settle_pre_pr_cycle tw cycle cr)"
    unfolding settle_pre_pr_cycle_def Let_def by (intro keeps_intros)
  show "wkeeps store_ok (begin_cycle tw cycle trigger m resume)"
    unfolding begin_cycle_def guarded_stages_def compute_branch_diff_excerpt_def
    by (intro keeps_intros calls_keep assms enter)
  show "wkeeps store_ok (end_cycle tw cycle m cr)"
    unfolding end_cycle_def by (intro keeps_intros settle)
qed

lemma keeps_one_cycle [p_keeps_intros]:
  assumes "others_keep store_ok tw"
  shows "wpkeeps store_ok (run_one_audit_cycle tw cycle trigger m resume)"
proof -
  have fixup: "wpkeeps store_ok (drive_fixup_round_for_cycle tw cycle cr)" for cr
    unfolding drive_fixup_round_for_cycle_def open_fixup_def by (intro p_keeps_intros keeps_intros assms)
  show ?thesis
    unfolding run_one_audit_cycle_def Let_def by (intro p_keeps_intros calls_keep assms fixup)
qed

lemma keeps_cycles [p_keeps_intros]:
  "others_keep store_ok tw \<Longrightarrow> wpkeeps store_ok (audit_cycles tw trigger m k cycle resume)"
proof (induction k arbitrary: cycle resume)
  case 0
  then show ?case by (simp add: audit_exhausted_def Let_def) (intro p_keeps_intros keeps_intros)
next
  case (Suc k)
  then show ?case by (auto intro!: p_keeps_intros split: cycle_end.split)
qed

lemma keeps_audit_cycle [p_keeps_intros]:
  assumes "others_keep store_ok tw"
  shows "wpkeeps store_ok (run_audit_cycle tw trigger m)"
proof -
  have "wkeeps store_ok (audit_cycle_prologue tw trigger)"
    unfolding audit_cycle_prologue_def maybe_enter_pre_pr_review_phase_def
    by (cases trigger) (auto intro!: keeps_intros)
  then show ?thesis
    unfolding run_audit_cycle_def Let_def by (intro p_keeps_intros keeps_intros assms)
qed

lemma keeps_commit_push [calls_keep]:
  assumes "others_keep store_ok tw"
  shows "wkeeps store_ok (commit_push tw)"
proof -
  have fast: "wkeeps store_ok (fast_forward_to_local_ci_if_subtasks_done tw)"
    unfolding fast_forward_to_local_ci_if_subtasks_done_def by (intro keeps_intros)
  show ?thesis
    unfolding commit_push_def final_push_def no_diff_def Let_def by (intro keeps_intros calls_keep assms fast)
qed

section \<open>Where the cycle leaves the task\<close>

text \<open>
  \<open>leads x s Q m\<close>: from a store in which task \<open>x\<close> is in state \<open>s\<close>, when \<open>m\<close> returns a value \<open>a\<close> the task is in a
  state \<open>t\<close> with \<open>Q a t\<close>.
\<close>

definition leads :: "ident \<Rightarrow> state \<Rightarrow> ('a \<Rightarrow> state \<Rightarrow> bool) \<Rightarrow> 'a wact \<Rightarrow> bool" where
  "leads x s Q m \<longleftrightarrow>
     (\<forall>w a w'. select_state x (wd_db w) = Some s \<longrightarrow> m w = (Inr a, w') \<longrightarrow>
        (\<exists>t. select_state x (wd_db w') = Some t \<and> Q a t))"

lemma leadsD:
  assumes "leads x s Q m" and "select_state x (wd_db w) = Some s" and "m w = (Inr a, w')"
  obtains t where "select_state x (wd_db w') = Some t" and "Q a t"
  using assms unfolding leads_def by blast

lemma leads_return: "Q a s \<Longrightarrow> leads x s Q (py_return a)"
  by (simp add: leads_def act_simps)

lemma leads_bind:
  assumes "leads x s R m" and "\<And>a t. R a t \<Longrightarrow> leads x t Q (f a)"
  shows "leads x s Q (py_bind m f)"
  unfolding leads_def
proof (intro allI impI)
  fix w b w' assume s: "select_state x (wd_db w) = Some s" and run: "py_bind m f w = (Inr b, w')"
  obtain a v where m: "m w = (Inr a, v)" and f: "f a v = (Inr b, w')"
    using run by (auto simp: act_simps split: prod.splits sum.splits)
  obtain t where "select_state x (wd_db v) = Some t" "R a t" by (rule leadsD [OF assms(1) s m])
  from leadsD [OF assms(2) [OF this(2)] this(1) f]
  show "\<exists>t. select_state x (wd_db w') = Some t \<and> Q b t" by blast
qed

lemma leads_then: "leads x s R m \<Longrightarrow> (\<And>a t. R a t \<Longrightarrow> leads x t Q k) \<Longrightarrow> leads x s Q (py_then m k)"
  unfolding py_then_def by (rule leads_bind)

lemma leads_kept: "(\<And>c. wkeeps (\<lambda>d. select_state x d = c) m) \<Longrightarrow> leads x s (\<lambda>_ t. t = s) m"
  unfolding leads_def keeps_def by fastforce

lemma leads_weaken: "leads x s R m \<Longrightarrow> (\<And>a t. R a t \<Longrightarrow> Q a t) \<Longrightarrow> leads x s Q m"
  unfolding leads_def by blast

text \<open>What other threads do during a call leaves the task where it is.\<close>

definition others_leave :: "task_worker \<Rightarrow> bool" where
  "others_leave tw \<longleftrightarrow> (\<forall>c. others_keep (\<lambda>d. select_state (tw_id tw) d = c) tw)"

lemma others_leaveD: "others_leave tw \<Longrightarrow> others_keep (\<lambda>d. select_state (tw_id tw) d = c) tw"
  by (simp add: others_leave_def)

lemma leads_both:
  assumes "leads x s Q m" and "yields R m"
  shows "leads x s (\<lambda>a t. R a \<and> Q a t) m"
  unfolding leads_def
proof (intro allI impI)
  fix w a w' assume s: "select_state x (wd_db w) = Some s" and run: "m w = (Inr a, w')"
  have "R a" using yieldsD [OF assms(2), of w a] run by simp
  with leadsD [OF assms(1) s run] show "\<exists>t. select_state x (wd_db w') = Some t \<and> R a \<and> Q a t" by blast
qed

lemma reuse_named: "yields (\<lambda>oc. so_name oc = n) (run_or_reuse tw c evs cycle resume n)"
proof -
  have old: "so_name oc = n" if "stage_outcome_from_summary resume n = Some oc" for oc
    using that by (auto simp: stage_outcome_from_summary_def split: option.splits)
  have "yields (\<lambda>oc. so_name oc = n)
      (py_bind (run_stage tw c evs n) (\<lambda>oc. py_bind (stop_requested tw) (\<lambda>stop.
         if stop then py_raise e else py_then (record_stage tw cycle oc) (py_return oc))))" for e
    by (rule yields_bind [OF stage_named])
      (auto simp: yields_def act_simps split: sum.splits prod.splits if_splits)
  then show ?thesis
    unfolding run_or_reuse_def
    by (cases "stage_outcome_from_summary resume n") (auto intro!: then_yields yields_return old)
qed

lemma leads_run_or_reuse:
  assumes "others_leave tw"
  shows "leads (tw_id tw) s (\<lambda>oc t. so_name oc = n \<and> t = s) (run_or_reuse tw c evs cycle resume n)"
proof (rule leads_both [OF leads_kept reuse_named])
  fix k
  have "wkeeps (\<lambda>d. select_state (tw_id tw) d = k) (record_stage tw cycle oc)" for oc
    unfolding record_stage_def by (intro keeps_on_store keeps_unmoving stays)
  then show "wkeeps (\<lambda>d. select_state (tw_id tw) d = k) (run_or_reuse tw c evs cycle resume n)"
    unfolding run_or_reuse_def by (intro keeps_intros calls_keep others_leaveD [OF assms])
qed

text \<open>The helpers, exactly: each moves the task out of one state.\<close>

lemma leads_helper:
  assumes "h = dispatch stay ev_of" and "select_state tid d = Some s"
  shows "select_state tid (snd (h tid n kw d)) =
    Some (if stay s then s else case Option.bind (ev_of s) (target_of s) of None \<Rightarrow> s | Some t \<Rightarrow> t)"
  using assms select_state_transition [OF assms(2)]
  by (auto simp: dispatch_def py_bind_run current_state_run fire_run py_return_run split: option.splits)

lemma leads_fsm_call:
  assumes "h = dispatch stay ev_of"
  shows "leads (tw_id tw) s (\<lambda>_ t. t = (if stay s then s else case Option.bind (ev_of s) (target_of s) of None \<Rightarrow> s | Some t \<Rightarrow> t))
    (fsm_call tw h n kw)"
proof -
  let ?t = "if stay s then s else case Option.bind (ev_of s) (target_of s) of None \<Rightarrow> s | Some t \<Rightarrow> t"
  have "select_state (tw_id tw) (wd_db (snd (fsm_call tw h n kw w))) = Some ?t"
    if "select_state (tw_id tw) (wd_db w) = Some s" for w
    using leads_helper [OF assms that, of n kw]
    by (cases "h (tw_id tw) n kw (wd_db w)"; cases "fst (h (tw_id tw) n kw (wd_db w))")
      (simp_all add: fsm_call_def act_simps on_store_def)
  then show ?thesis unfolding leads_def by (metis snd_conv)
qed

lemma advance_dispatch:
  assumes "map_of audit_stage_events s0 = Some (p, f)"
  shows "(\<lambda>tid. advance_audit_stage tid True s0) = dispatch (\<lambda>s. False) (only s0 p)"
  using assms by (auto simp: advance_audit_stage_def same_body split: prod.splits sum.splits)

definition stage_before :: "stage_name \<Rightarrow> state" where
  "stage_before n =
     (case n of Stage_rubric \<Rightarrow> AUDIT_LOCAL_CI | Stage_standards \<Rightarrow> AUDIT_RUBRIC | Stage_architecture \<Rightarrow> AUDIT_STANDARDS
      | Stage_behavior \<Rightarrow> AUDIT_ARCHITECTURE | Stage_local_ci \<Rightarrow> LOCAL_CI_CHECKING)"

definition stage_state :: "stage_name \<Rightarrow> state" where
  "stage_state n =
     (case n of Stage_rubric \<Rightarrow> AUDIT_RUBRIC | Stage_standards \<Rightarrow> AUDIT_STANDARDS | Stage_architecture \<Rightarrow> AUDIT_ARCHITECTURE
      | Stage_behavior \<Rightarrow> AUDIT_BEHAVIOR | Stage_local_ci \<Rightarrow> AUDIT_LOCAL_CI)"

lemma enter_helpers:
  "n \<noteq> Stage_local_ci \<Longrightarrow> \<exists>p. stage_enter_helper n = Some (dispatch (\<lambda>s. False) (only (stage_before n) p)) \<and>
     target_of (stage_before n) p = Some (stage_state n)"
proof (cases n)
  case Stage_rubric
  have "target_of AUDIT_LOCAL_CI Ev_AUDIT_LOCAL_CI_PASSED = Some AUDIT_RUBRIC" by code_simp
  moreover have "enter_audit_rubric = dispatch (\<lambda>s. False) (only AUDIT_LOCAL_CI Ev_AUDIT_LOCAL_CI_PASSED)"
    by (subst advance_dispatch [symmetric, of _ _ Ev_AUDIT_LOCAL_CI_FAILED], code_simp)
      (simp add: fun_eq_iff enter_audit_rubric_def audit_local_ci_passed_def)
  ultimately show ?thesis unfolding Stage_rubric stage_enter_helper_def stage_before_def stage_state_def by auto
next
  case Stage_standards
  have "target_of AUDIT_RUBRIC Ev_AUDIT_RUBRIC_PASSED = Some AUDIT_STANDARDS" by code_simp
  moreover have "enter_audit_standards = dispatch (\<lambda>s. False) (only AUDIT_RUBRIC Ev_AUDIT_RUBRIC_PASSED)"
    by (subst advance_dispatch [symmetric, of _ _ Ev_AUDIT_RUBRIC_FAILED], code_simp)
      (simp add: fun_eq_iff enter_audit_standards_def audit_rubric_passed_def)
  ultimately show ?thesis unfolding Stage_standards stage_enter_helper_def stage_before_def stage_state_def by auto
next
  case Stage_architecture
  have "target_of AUDIT_STANDARDS Ev_AUDIT_STANDARDS_PASSED = Some AUDIT_ARCHITECTURE" by code_simp
  moreover have "enter_audit_architecture = dispatch (\<lambda>s. False) (only AUDIT_STANDARDS Ev_AUDIT_STANDARDS_PASSED)"
    by (subst advance_dispatch [symmetric, of _ _ Ev_AUDIT_STANDARDS_FAILED], code_simp)
      (simp add: fun_eq_iff enter_audit_architecture_def audit_standards_passed_def)
  ultimately show ?thesis unfolding Stage_architecture stage_enter_helper_def stage_before_def stage_state_def by auto
next
  case Stage_behavior
  have "target_of AUDIT_ARCHITECTURE Ev_AUDIT_ARCHITECTURE_PASSED = Some AUDIT_BEHAVIOR" by code_simp
  moreover have "enter_audit_behavior = dispatch (\<lambda>s. False) (only AUDIT_ARCHITECTURE Ev_AUDIT_ARCHITECTURE_PASSED)"
    by (subst advance_dispatch [symmetric, of _ _ Ev_AUDIT_ARCHITECTURE_FAILED], code_simp)
      (simp add: fun_eq_iff enter_audit_behavior_def audit_architecture_passed_def)
  ultimately show ?thesis unfolding Stage_behavior stage_enter_helper_def stage_before_def stage_state_def by auto
qed simp

lemma leads_advance:
  assumes "n \<noteq> Stage_local_ci"
  shows "leads (tw_id tw) s (\<lambda>_ t. t = (if so_passed prior \<and> s = stage_before n then stage_state n else s))
    (advance_to tw cycle n prior)"
proof -
  obtain p where p: "stage_enter_helper n = Some (dispatch (\<lambda>s. False) (only (stage_before n) p))"
      "target_of (stage_before n) p = Some (stage_state n)"
    using enter_helpers [OF assms] by blast
  show ?thesis
    unfolding advance_to_def p(1) option.case
    by (auto intro!: leads_return leads_weaken [OF leads_fsm_call [OF refl]] simp: only_def p(2))
qed

lemma leads_local_ci:
  "leads (tw_id tw) LOCAL_CI_CHECKING (\<lambda>_ t. t = (if so_passed oc then AUDIT_LOCAL_CI else LOCAL_CI_CHECKING))
    (if so_passed oc then fsm_call tw (\<lambda>tid. enter_audit_local_ci tid None) txt [] else py_return ())"
proof -
  have body: "(\<lambda>tid. enter_audit_local_ci tid None) = dispatch (\<lambda>s. s = AUDIT_LOCAL_CI)
      (\<lambda>s. map_of [(LOCAL_CI_CHECKING, Ev_LOCAL_CI_PASSED), (PENDING_CI, Ev_CI_FIXUP_START),
        (AWAITING_REVIEW, Ev_REVIEW_FIXUP_START)] s)"
    by (auto simp: enter_audit_local_ci_def same_body get_default_def Let_def split: prod.splits sum.splits)
  have "target_of LOCAL_CI_CHECKING Ev_LOCAL_CI_PASSED = Some AUDIT_LOCAL_CI" by code_simp
  then show ?thesis by (auto intro!: leads_return leads_weaken [OF leads_fsm_call [OF body]])
qed

text \<open>Where the stages park the task: at the first that failed, or at the last.\<close>

fun parked_at :: "stage_outcome list \<Rightarrow> state" where
  "parked_at [lc, r, s, a, b] =
     (if \<not> so_passed lc then LOCAL_CI_CHECKING
      else if \<not> so_passed r then AUDIT_RUBRIC
      else if \<not> so_passed s then AUDIT_STANDARDS
      else if \<not> so_passed a then AUDIT_ARCHITECTURE
      else AUDIT_BEHAVIOR)"
| "parked_at _ = LOCAL_CI_CHECKING"

lemma leads_contract: "leads x s (\<lambda>_ t. t = s) (evaluation_contract tw)"
  by (intro leads_kept keeps_intros)

lemma leads_read: "leads x s (\<lambda>_ t. t = s) (store_read f)"
  by (intro leads_kept keeps_intros)

lemma leads_middle:
  assumes "others_leave tw"
  shows "leads (tw_id tw) (if so_passed lc then AUDIT_LOCAL_CI else LOCAL_CI_CHECKING)
    (\<lambda>ms t. \<exists>r s a. ms = [r, s, a] \<and> map so_name ms = [Stage_rubric, Stage_standards, Stage_architecture] \<and>
       t = parked_at [lc, r, s, a, b]) (middle_stages tw cycle resume lc)"
  unfolding middle_stages_def
proof (rule leads_bind [OF leads_contract])
  note reuse = leads_run_or_reuse [OF assms]
  fix c t assume t: "t = (if so_passed lc then AUDIT_LOCAL_CI else LOCAL_CI_CHECKING)"
  show "leads (tw_id tw) t (\<lambda>ms t. \<exists>r s a. ms = [r, s, a] \<and> map so_name ms = [Stage_rubric, Stage_standards, Stage_architecture] \<and>
       t = parked_at [lc, r, s, a, b])
      (py_then (advance_to tw cycle Stage_rubric lc) (py_bind (run_or_reuse tw c [] cycle resume Stage_rubric) (\<lambda>rubric.
       py_then (advance_to tw cycle Stage_standards rubric)
         (py_bind (run_or_reuse tw c [] cycle resume Stage_standards) (\<lambda>standards.
       py_then (advance_to tw cycle Stage_architecture standards)
         (py_bind (run_or_reuse tw c [] cycle resume Stage_architecture) (\<lambda>architecture.
       py_then (advance_to tw cycle Stage_behavior architecture) (py_return [rubric, standards, architecture]))))))))"
    by (rule leads_then, rule leads_advance, simp, rule leads_bind, rule reuse,
        erule conjE, rule leads_then, rule leads_advance, simp, rule leads_bind, rule reuse,
        erule conjE, rule leads_then, rule leads_advance, simp, rule leads_bind, rule reuse,
        erule conjE, rule leads_then, rule leads_advance, simp, rule leads_return)
      (simp add: t stage_before_def stage_state_def split: if_splits)
qed

lemma leads_execute:
  assumes "others_leave tw"
  shows "leads (tw_id tw) LOCAL_CI_CHECKING
    (\<lambda>st t. map so_name st = [Stage_local_ci, Stage_rubric, Stage_standards, Stage_architecture, Stage_behavior] \<and>
       t = parked_at st)
    (execute_audit_stages tw cycle False resume)"
  unfolding execute_audit_stages_def not_False_eq_True simp_thms if_True
proof (rule leads_bind [OF leads_run_or_reuse [OF assms]], rule leads_then)
  fix lc :: stage_outcome and t assume "so_name lc = Stage_local_ci \<and> t = LOCAL_CI_CHECKING"
  then show "leads (tw_id tw) t
      (\<lambda>_ t. so_name lc = Stage_local_ci \<and> t = (if so_passed lc then AUDIT_LOCAL_CI else LOCAL_CI_CHECKING))
      (if so_passed lc then fsm_call tw (\<lambda>tid. enter_audit_local_ci tid None)
         (Some (''audit cycle '' @ str_int cycle @ '': local_ci passed'')) [] else py_return ())"
    by (elim conjE, hypsubst, intro leads_weaken [OF leads_local_ci]) simp
next
  fix lc :: stage_outcome and u :: unit and t
  assume t: "so_name lc = Stage_local_ci \<and> t = (if so_passed lc then AUDIT_LOCAL_CI else LOCAL_CI_CHECKING)"
  show "leads (tw_id tw) t
      (\<lambda>st t. map so_name st = [Stage_local_ci, Stage_rubric, Stage_standards, Stage_architecture, Stage_behavior] \<and>
         t = parked_at st)
      (py_bind (store_read (merge_integration_subtasks_present tw)) (\<lambda>integration.
       py_bind (middle_stages tw cycle resume lc) (\<lambda>middle.
       py_bind (store_read (behavior_audit_expected_evidence tw False)) (\<lambda>evs.
       py_bind (run_or_reuse tw (tw_built_contract tw) evs cycle resume Stage_behavior) (\<lambda>behavior.
         py_return ([lc] @ middle @ [behavior]))))))"
    unfolding conjunct2 [OF t]
    by (rule leads_bind, rule leads_read, hypsubst, rule leads_bind, rule leads_middle [OF assms],
        rule leads_bind, rule leads_read, hypsubst, rule leads_bind, rule leads_run_or_reuse [OF assms], rule leads_return)
      (use t in \<open>auto split: if_splits\<close>)
qed

lemma gauntlet_parks:
  assumes "others_leave tw" and "select_state (tw_id tw) (wd_db w) = Some LOCAL_CI_CHECKING"
    and "execute_audit_stages tw cycle False resume w = (Inr stages, w')"
  shows "select_state (tw_id tw) (wd_db w') = Some (parked_at stages)"
  using leadsD [OF leads_execute [OF assms(1)] assms(2,3)] by blast

text \<open>
  C23: the gauntlet stops the task at the first stage that fails. When the stages of a spec task's cycle, entered in
  LOCAL_CI_CHECKING, have run, the task is in the state of the first stage that failed, although every stage has been
  run; when all passed, or only behavior failed, it is in AUDIT_BEHAVIOR. So the move to PR_OPENING, which needs
  AUDIT_BEHAVIOR, is closed after a failure of any other stage.
\<close>

theorem gauntlet_parks_at_failure:
  assumes "others_leave tw" and "select_state (tw_id tw) (wd_db w) = Some LOCAL_CI_CHECKING"
    and "execute_audit_stages tw cycle False resume w = (Inr stages, w')"
  shows "map so_name stages = [Stage_local_ci, Stage_rubric, Stage_standards, Stage_architecture, Stage_behavior] \<and>
    select_state (tw_id tw) (wd_db w') = Some (parked_at stages)"
  using leadsD [OF leads_execute [OF assms(1)] assms(2,3)] by blast

section \<open>The release valve\<close>

lemma pr_opening_dispatch: "enter_pr_opening = dispatch (\<lambda>s. s = PR_OPENING) (only AUDIT_BEHAVIOR Ev_AUDIT_BEHAVIOR_PASSED)"
  by (auto simp: enter_pr_opening_def same_body split: prod.splits sum.splits)

lemma pending_ci_dispatch: "enter_pending_ci = dispatch (\<lambda>s. s = PENDING_CI)
    (\<lambda>s. map_of [(PR_OPENING, Ev_PR_OPENED), (REBASING_TO_MAIN, Ev_REBASE_PUSHED)] s)"
  by (auto simp: enter_pending_ci_def same_body split: prod.splits sum.splits)

lemma behavior_passed_dispatch: "audit_behavior_passed = dispatch (\<lambda>s. False) (only AUDIT_BEHAVIOR Ev_AUDIT_BEHAVIOR_PASSED)"
  by (subst advance_dispatch [symmetric, of _ _ Ev_AUDIT_BEHAVIOR_FAILED], code_simp)
    (simp add: fun_eq_iff audit_behavior_passed_def)

definition waiting_audit :: "state \<Rightarrow> bool" where
  "waiting_audit s \<longleftrightarrow> s \<in> {AUDIT_RUBRIC, AUDIT_STANDARDS, AUDIT_ARCHITECTURE}"

text \<open>A store in which the helpers that lead to the PR and to CI do nothing for the task.\<close>

lemma helpers_refuse:
  assumes "select_state tid d = Some s" and "waiting_audit s"
  shows "select_state tid (snd (audit_behavior_passed tid n kw d)) = Some s"
    and "enter_pr_opening tid n kw d = (Inr None, d)" and "enter_pending_ci tid n kw d = (Inr None, d)"
  using leads_helper [OF behavior_passed_dispatch assms(1)] assms
  by (auto simp: waiting_audit_def only_def pr_opening_dispatch pending_ci_dispatch dispatch_def act_simps current_state_run)

lemma valve_deferred:
  assumes "release_valve_report cfg cr \<noteq> None"
    and "map so_name (cy_stages cr) = [Stage_local_ci, Stage_rubric, Stage_standards, Stage_architecture, Stage_behavior]"
  shows "waiting_audit (parked_at (cy_stages cr))"
proof -
  obtain lc r s a b where st: "cy_stages cr = [lc, r, s, a, b]"
    using arg_cong [OF assms(2), of length] by (auto simp: length_Suc_conv)
  have names: "so_name lc = Stage_local_ci" "so_name b = Stage_behavior" using assms(2) st by simp_all
  have failed: "\<not> cycle_passed cr"
      "f \<in> set (cy_stages cr) \<Longrightarrow> \<not> so_passed f \<Longrightarrow> so_name f \<notin> {Stage_local_ci, Stage_behavior}" for f
    using assms(1) unfolding valve_report_exact failed_stages_def set_filter by blast+
  have "so_passed lc" using failed(2) [of lc] names(1) by (auto simp: st)
  moreover have "so_passed b" using failed(2) [of b] names(2) by (auto simp: st)
  ultimately show ?thesis using failed(1) by (auto simp: cycle_passed_def st waiting_audit_def)
qed

lemma valve_ends:
  assumes "release_valve_report (tw_cfg tw) cr \<noteq> None" and "\<not> cycle_passed cr"
    and "select_state (tw_id tw) (wd_db w) = Some s" and "waiting_audit s"
  shows "fst (end_cycle tw cycle False cr w) = Inr (Some Cycle_passed)"
proof -
  have same: "select_state x (d\<lparr>db_artifacts := as\<rparr>) = select_state x d" for x d as
    by (simp add: select_state_def find_task_def)
  show ?thesis
    using assms
    by (auto simp: end_cycle_def settle_pre_pr_cycle_def artifact_def on_store_def add_artifact_def fsm_call_def act_simps
        behavior_passed_dispatch dispatch_def current_state_run same only_def waiting_audit_def)
qed

text \<open>
  The release valve leaves the task behind. When a cycle with a failed stage still ends as passed, because its
  findings are deferred, the task stays in the audit state of the first failed stage: neither the end of the cycle nor
  the moves to PR_OPENING and PENDING_CI that the worker makes next, around opening the PR, take it out of there.
\<close>

theorem valve_leaves_parked:
  assumes "others_leave tw" and "select_state (tw_id tw) (wd_db w) = Some LOCAL_CI_CHECKING"
    and "execute_audit_stages tw cycle False resume w = (Inr stages, w1)"
    and "end_cycle tw cycle False \<lparr>cy_cycle = cycle, cy_stages = stages\<rparr> w1 = (Inr (Some Cycle_passed), w2)"
    and "\<not> cycle_passed \<lparr>cy_cycle = cycle, cy_stages = stages\<rparr>"
  shows "waiting_audit (parked_at stages) \<and> select_state (tw_id tw) (wd_db w2) = Some (parked_at stages) \<and>
    enter_pr_opening (tw_id tw) n1 kw1 (wd_db w2) = (Inr None, wd_db w2) \<and>
    enter_pending_ci (tw_id tw) n2 kw2 (wd_db w2) = (Inr None, wd_db w2)"
proof -
  let ?cr = "\<lparr>cy_cycle = cycle, cy_stages = stages\<rparr>"
  have names: "map so_name stages = [Stage_local_ci, Stage_rubric, Stage_standards, Stage_architecture, Stage_behavior]"
    and parked: "select_state (tw_id tw) (wd_db w1) = Some (parked_at stages)"
    using leadsD [OF leads_execute [OF assms(1)] assms(2,3)] by blast+
  have valve: "release_valve_report (tw_cfg tw) ?cr \<noteq> None"
    using assms(4,5)
    by (auto simp: end_cycle_def settle_pre_pr_cycle_def Let_def act_simps block_with_def split: option.splits sum.splits prod.splits)
  then obtain report where report: "release_valve_report (tw_cfg tw) ?cr = Some report" by blast
  have waiting: "waiting_audit (parked_at stages)" using valve_deferred [OF valve] names by simp
  have ends: "leads (tw_id tw) (parked_at stages) (\<lambda>e t. t = parked_at stages) (end_cycle tw cycle False ?cr)"
    unfolding end_cycle_def settle_pre_pr_cycle_def report option.case if_not_P [OF assms(5)]
  proof (rule leads_bind)
    show "leads (tw_id tw) (parked_at stages) (\<lambda>x t. x = Some None \<and> t = parked_at stages)
        (py_then (artifact tw ''pre_pr_deferred_findings'' report) (py_return (Some None)))"
      by (rule leads_then, rule leads_kept, unfold artifact_def, intro keeps_on_store keeps_unmoving stays)
        (simp add: leads_return)
  next
    fix x :: "worker_outcome option option" and t
    assume x: "x = Some None \<and> t = parked_at stages"
    have same: "leads (tw_id tw) (parked_at stages) (\<lambda>_ t. t = parked_at stages) (fsm_call tw audit_behavior_passed m [])" for m
      using waiting by (auto intro!: leads_weaken [OF leads_fsm_call [OF behavior_passed_dispatch]]
          simp: only_def waiting_audit_def)
    show "leads (tw_id tw) t (\<lambda>e t. t = parked_at stages)
        (case x of None \<Rightarrow> py_return None | Some None \<Rightarrow> py_then (if False then py_return ()
            else fsm_call tw audit_behavior_passed (Some (''audit cycle '' @ str_int cycle @ '' passed cleanly'')) [])
            (py_return (Some Cycle_passed)) | Some (Some oc) \<Rightarrow> py_return (Some (Cycle_ended oc)))"
      unfolding conjunct1 [OF x] conjunct2 [OF x] option.case if_False by (rule leads_then [OF same]) (simp add: leads_return)
  qed
  have "select_state (tw_id tw) (wd_db w2) = Some (parked_at stages)"
    by (rule leadsD [OF ends parked assms(4)]) simp
  with waiting helpers_refuse(2,3) show ?thesis by blast
qed

section \<open>A stale summary\<close>

text \<open>
  \<open>settles x s a t m\<close>: with a container and a loaded contract, and task \<open>x\<close> in state \<open>s\<close>, \<open>m\<close> returns \<open>a\<close>, moves the
  task to \<open>t\<close> and touches nothing but the store; in particular it makes no call to the outside.
\<close>

definition settles :: "ident \<Rightarrow> state \<Rightarrow> 'a \<Rightarrow> state \<Rightarrow> 'a wact \<Rightarrow> bool" where
  "settles x s a t m \<longleftrightarrow>
     (\<forall>w. select_state x (wd_db w) = Some s \<longrightarrow> wd_handle w \<noteq> None \<longrightarrow> wd_contract w \<noteq> None \<longrightarrow>
        (\<exists>d. m w = (Inr a, w\<lparr>wd_db := d\<rparr>) \<and> select_state x d = Some t))"

lemma settlesD:
  fixes w :: world
  assumes "settles x s a t m" and "select_state x (wd_db w) = Some s" and "wd_handle w \<noteq> None" and "wd_contract w \<noteq> None"
  obtains d where "m w = (Inr a, w\<lparr>wd_db := d\<rparr>)" and "select_state x d = Some t"
  using assms unfolding settles_def by blast

lemma settles_return: "settles x s a s (py_return a)"
  unfolding settles_def act_simps
proof (intro allI impI)
  fix w :: world assume "select_state x (wd_db w) = Some s"
  then show "\<exists>d. (Inr a, w) = (Inr a, w\<lparr>wd_db := d\<rparr>) \<and> select_state x d = Some s"
    by (intro exI [of _ "wd_db w"]) simp
qed

lemma settles_bind:
  assumes "settles x s a t m" and "settles x t b u (f a)"
  shows "settles x s b u (py_bind m f)"
  unfolding settles_def
proof (intro allI impI)
  fix w :: world assume w: "select_state x (wd_db w) = Some s" "wd_handle w \<noteq> None" "wd_contract w \<noteq> None"
  obtain d where d: "m w = (Inr a, w\<lparr>wd_db := d\<rparr>)" "select_state x d = Some t" by (rule settlesD [OF assms(1) w])
  obtain d' where "f a (w\<lparr>wd_db := d\<rparr>) = (Inr b, w\<lparr>wd_db := d\<rparr>\<lparr>wd_db := d'\<rparr>)" "select_state x d' = Some u"
    by (rule settlesD [OF assms(2), of "w\<lparr>wd_db := d\<rparr>"]) (use d w in auto)
  with d show "\<exists>d. py_bind m f w = (Inr b, w\<lparr>wd_db := d\<rparr>) \<and> select_state x d = Some u"
    by (auto simp: act_simps)
qed

lemma settles_then: "settles x s a t m \<Longrightarrow> settles x t b u k \<Longrightarrow> settles x s b u (py_then m k)"
  unfolding py_then_def by (rule settles_bind)

lemma settles_read: "(\<And>v. settles x s b u (k v)) \<Longrightarrow> settles x s b u (py_bind (store_read g) k)"
  unfolding settles_def store_read_def by (simp add: act_simps)

lemma settles_contract: "(\<And>v. settles x s b u (k v)) \<Longrightarrow> settles x s b u (py_bind (evaluation_contract tw) k)"
  unfolding settles_def evaluation_contract_def by (auto simp: act_simps)

lemma settles_fsm_call:
  assumes "h = dispatch stay ev_of" and "\<not> stay s" and "ev_of s = Some ev" and "target_of s ev = Some t"
  shows "settles (tw_id tw) s () t (fsm_call tw h n kw)"
  unfolding settles_def
  using assms select_state_transition
  by (auto simp: fsm_call_def act_simps on_store_def dispatch_def current_state_run fire_run)

lemma settles_reuse:
  assumes "stage_outcome_from_summary resume n = Some oc"
  shows "settles x s oc s (run_or_reuse tw c evs cycle resume n)"
  unfolding run_or_reuse_def assms option.case settles_def the_handle_def
proof (intro allI impI)
  fix w :: world assume "select_state x (wd_db w) = Some s" "wd_handle w \<noteq> None"
  then show "\<exists>d. py_then (py_bind (py_read wd_handle) (\<lambda>h. case h of
        None \<Rightarrow> py_raise (AssertionError ''_provision() must run before this method'') | Some s \<Rightarrow> py_return s))
      (py_return oc) w = (Inr oc, w\<lparr>wd_db := d\<rparr>) \<and> select_state x d = Some s"
    by (intro exI [of _ "wd_db w"]) (auto simp: act_simps)
qed

lemma summary_passed: "stage_outcome_from_summary resume n = Some oc \<Longrightarrow> so_passed oc"
  by (auto simp: stage_outcome_from_summary_def passed_outcome_def split: option.splits)

lemma settles_advance:
  assumes "n \<noteq> Stage_local_ci" and "so_passed prior" and "s = stage_before n"
  shows "settles (tw_id tw) s () (stage_state n) (advance_to tw cycle n prior)"
proof -
  obtain p where p: "stage_enter_helper n = Some (dispatch (\<lambda>s. False) (only (stage_before n) p))"
      "target_of (stage_before n) p = Some (stage_state n)"
    using enter_helpers [OF assms(1)] by blast
  show ?thesis
    using assms(2,3) settles_fsm_call [OF refl, of "\<lambda>s. False" s "only (stage_before n) p" p "stage_state n"] p
    by (simp add: advance_to_def only_def)
qed

text \<open>A summary in which every stage of the cycle is recorded as passed.\<close>

definition all_passed :: "audit_summary \<Rightarrow> bool" where
  "all_passed s \<longleftrightarrow>
     list_all (\<lambda>n. stage_outcome_from_summary (Some s) n \<noteq> None)
       [Stage_local_ci, Stage_rubric, Stage_standards, Stage_architecture, Stage_behavior]"

lemma settles_execute:
  assumes "all_passed s"
  obtains stages where "list_all so_passed stages"
    and "settles (tw_id tw) AUDIT_LOCAL_CI stages AUDIT_BEHAVIOR (execute_audit_stages tw cycle False (Some s))"
proof -
  obtain lc r st a b where old: "stage_outcome_from_summary (Some s) Stage_local_ci = Some lc"
      "stage_outcome_from_summary (Some s) Stage_rubric = Some r" "stage_outcome_from_summary (Some s) Stage_standards = Some st"
      "stage_outcome_from_summary (Some s) Stage_architecture = Some a" "stage_outcome_from_summary (Some s) Stage_behavior = Some b"
    using assms(1) by (auto simp: all_passed_def)
  note passed = old [THEN summary_passed] and reuse = old [THEN settles_reuse]
  have enter: "settles (tw_id tw) AUDIT_LOCAL_CI () AUDIT_LOCAL_CI (fsm_call tw (\<lambda>tid. enter_audit_local_ci tid None) n [])" for n
    unfolding settles_def
  proof (intro allI impI)
    fix w :: world assume s: "select_state (tw_id tw) (wd_db w) = Some AUDIT_LOCAL_CI"
    then show "\<exists>d. fsm_call tw (\<lambda>tid. enter_audit_local_ci tid None) n [] w = (Inr (), w\<lparr>wd_db := d\<rparr>) \<and>
        select_state (tw_id tw) d = Some AUDIT_LOCAL_CI"
      by (intro exI [of _ "wd_db w"])
        (simp add: fsm_call_def act_simps on_store_def enter_audit_local_ci_def current_state_run)
  qed
  have middle: "settles (tw_id tw) AUDIT_LOCAL_CI [r, st, a] AUDIT_BEHAVIOR (middle_stages tw cycle (Some s) lc)"
    unfolding middle_stages_def
    by (rule settles_contract, rule settles_then, rule settles_advance, simp, rule passed, simp add: stage_before_def,
        rule settles_bind, rule reuse, rule settles_then, rule settles_advance, simp, rule passed,
        simp add: stage_before_def stage_state_def,
        rule settles_bind, rule reuse, rule settles_then, rule settles_advance, simp, rule passed,
        simp add: stage_before_def stage_state_def,
        rule settles_bind, rule reuse, rule settles_then, rule settles_advance, simp, rule passed,
        simp add: stage_before_def stage_state_def, simp only: stage_state_def stage_name.case, rule settles_return)
  have "settles (tw_id tw) AUDIT_LOCAL_CI ([lc] @ [r, st, a] @ [b]) AUDIT_BEHAVIOR (execute_audit_stages tw cycle False (Some s))"
    unfolding execute_audit_stages_def not_False_eq_True simp_thms if_True
    by (rule settles_bind, rule reuse, unfold if_P [OF passed(1)], rule settles_then, rule enter,
        rule settles_read, rule settles_bind, rule middle, rule settles_read, rule settles_bind, rule reuse,
        rule settles_return)
  with passed that [of "[lc] @ [r, st, a] @ [b]"] show ?thesis by simp
qed

lemma settles_end_cycle:
  assumes "list_all so_passed stages"
  shows "settles (tw_id tw) AUDIT_BEHAVIOR (Some Cycle_passed) PR_OPENING
    (end_cycle tw cycle False \<lparr>cy_cycle = cycle, cy_stages = stages\<rparr>)"
proof -
  have "target_of AUDIT_BEHAVIOR Ev_AUDIT_BEHAVIOR_PASSED = Some PR_OPENING" by code_simp
  then have "settles (tw_id tw) AUDIT_BEHAVIOR () PR_OPENING (fsm_call tw audit_behavior_passed n [])" for n
    by (intro settles_fsm_call [OF behavior_passed_dispatch]) (simp_all add: only_def)
  then show ?thesis
    using assms unfolding end_cycle_def settle_pre_pr_cycle_def cycle_passed_def
    by simp (rule settles_bind, rule settles_return, simp, rule settles_then, assumption, rule settles_return)
qed

lemma summary_update_row:
  "(\<And>r. t_id (f r) = t_id r) \<Longrightarrow> (\<And>r. t_pre_pr_audit_summary (f r) = t_pre_pr_audit_summary r) \<Longrightarrow>
   get_pre_pr_audit_summary x (update_row tid f d) = get_pre_pr_audit_summary x d"
  by (cases "find_task x d") (auto simp: get_pre_pr_audit_summary_def find_task_update_row)

lemma summary_transition:
  assumes "select_state tid d = Some s"
  shows "get_pre_pr_audit_summary tid (snd (transition tid t n [] d)) = get_pre_pr_audit_summary tid d"
proof -
  have "get_pre_pr_audit_summary tid (moved_db tid s t n [] d) =
      get_pre_pr_audit_summary tid (update_row tid (\<lambda>r. set_task_fields [] (r\<lparr>t_state := t\<rparr>)) d)"
    by (simp add: moved_db_def get_pre_pr_audit_summary_def find_task_def)
  also have "\<dots> = get_pre_pr_audit_summary tid d" by (rule summary_update_row) simp_all
  finally show ?thesis by (auto simp: transition_run [OF assms] Let_def summary_update_row)
qed

lemma prologue_post_pr:
  assumes "(trigger, st) \<in> {(CI_FAILURE, PENDING_CI), (CI_FAILURE, AWAITING_REVIEW), (REVIEW_FEEDBACK, AWAITING_REVIEW)}"
    and "select_state (tw_id tw) (wd_db w) = Some st"
  shows "\<exists>d. audit_cycle_prologue tw trigger w = (Inr (), w\<lparr>wd_db := d\<rparr>) \<and>
    select_state (tw_id tw) d = Some AUDIT_LOCAL_CI \<and>
    get_pre_pr_audit_summary (tw_id tw) d = get_pre_pr_audit_summary (tw_id tw) (wd_db w)"
proof -
  have "\<not> in_audit_stage st" "target_of PENDING_CI Ev_CI_FIXUP_START = Some AUDIT_LOCAL_CI"
      "target_of AWAITING_REVIEW Ev_CI_FIXUP_START = Some AUDIT_LOCAL_CI"
      "target_of AWAITING_REVIEW Ev_REVIEW_FIXUP_START = Some AUDIT_LOCAL_CI"
    using assms(1) by (auto, code_simp+)
  then show ?thesis
    using assms select_state_transition [OF assms(2)] summary_transition [OF assms(2)]
    by (auto simp: audit_cycle_prologue_def fsm_call_def act_simps on_store_def current_state_run fire_run
        enter_audit_cycle_for_ci_fixup_def enter_audit_cycle_for_review_fixup_def)
qed

lemma execs_git:
  assumes "wd_handle w \<noteq> None"
    and "tw_exec tw (length (wd_calls w)) (bash (''cd /workspace && git '' @ join '' '' args)) = Inr res"
  shows "\<exists>r. git_in_workspace tw args w =
    (Inr r, w\<lparr>wd_calls := Exec (bash (''cd /workspace && git '' @ join '' '' args)) (Some 300) # wd_calls w,
              wd_db := tw_meanwhile tw (length (wd_calls w)) (wd_db w)\<rparr>)"
proof -
  obtain h where h: "wd_handle w = Some h" using assms(1) by blast
  define argv where "argv = bash (''cd /workspace && git '' @ join '' '' args)"
  note answer = assms(2) [folded argv_def]
  show ?thesis
    unfolding git_in_workspace_def argv_def [symmetric]
    by (cases res) (simp add: exec_in_def the_handle_def act_simps outside_def Let_def answer h)
qed

lemma vacuous_cycle:
  assumes "others_leave tw" and "trigger \<noteq> INITIAL_AUDIT" and "all_passed s"
    and "select_state (tw_id tw) (wd_db w) = Some AUDIT_LOCAL_CI" and "wd_handle w \<noteq> None" and "wd_contract w \<noteq> None"
    and "tw_exec tw (length (wd_calls w)) (bash (''cd /workspace && git '' @ join '' '' (branch_diff_args tw))) = Inr res"
  shows "\<exists>w'. run_one_audit_cycle tw (sum_cycle s) trigger False (Some s) w = Some (Inr Cycle_passed, w') \<and>
    wd_calls w' = Exec (bash (''cd /workspace && git '' @ join '' '' (branch_diff_args tw))) (Some 300) # wd_calls w \<and>
    select_state (tw_id tw) (wd_db w') = Some PR_OPENING"
proof -
  obtain r where git: "git_in_workspace tw (branch_diff_args tw) w =
      (Inr r, w\<lparr>wd_calls := Exec (bash (''cd /workspace && git '' @ join '' '' (branch_diff_args tw))) (Some 300) # wd_calls w,
              wd_db := tw_meanwhile tw (length (wd_calls w)) (wd_db w)\<rparr>)" (is "_ = (Inr r, ?v)")
    using execs_git [OF assms(5,7)] by blast
  have v: "select_state (tw_id tw) (wd_db ?v) = Some AUDIT_LOCAL_CI" "wd_handle ?v \<noteq> None" "wd_contract ?v \<noteq> None"
    using assms(1,4,5,6) by (simp_all add: others_leave_def others_keep_def)
  obtain stages where passed: "list_all so_passed stages"
    and run: "settles (tw_id tw) AUDIT_LOCAL_CI stages AUDIT_BEHAVIOR
      (execute_audit_stages tw (sum_cycle s) False (Some s))"
    by (rule settles_execute [OF assms(3)])
  obtain d where d: "execute_audit_stages tw (sum_cycle s) False (Some s) ?v = (Inr stages, ?v\<lparr>wd_db := d\<rparr>)"
      "select_state (tw_id tw) d = Some AUDIT_BEHAVIOR"
    by (rule settlesD [OF run v])
  obtain row where row: "find_task (tw_id tw) (wd_db ?v) = Some row"
    using v(1) by (auto simp: select_state_def)
  have begun: "begin_cycle tw (sum_cycle s) trigger False (Some s) w = (Inr (Inr stages), ?v\<lparr>wd_db := d\<rparr>)"
    using git d(1) row assms(2)
    by (cases r) (simp add: begin_cycle_def enter_audit_cycle_def compute_branch_diff_excerpt_def guarded_stages_def
        the_row_def store_read_def act_simps)
  obtain e where "end_cycle tw (sum_cycle s) False \<lparr>cy_cycle = sum_cycle s, cy_stages = stages\<rparr> (?v\<lparr>wd_db := d\<rparr>) =
      (Inr (Some Cycle_passed), ?v\<lparr>wd_db := d\<rparr>\<lparr>wd_db := e\<rparr>)" "select_state (tw_id tw) e = Some PR_OPENING"
    by (rule settlesD [OF settles_end_cycle [OF passed], of tw "?v\<lparr>wd_db := d\<rparr>" "sum_cycle s"]) (use d v in auto)
  with begun show ?thesis
    by (simp add: run_one_audit_cycle_def p_bind_def p_act_def p_return_def act_simps Let_def)
qed

lemma all_passed_resumable:
  assumes "all_passed s" and "get_pre_pr_audit_summary (tw_id tw) d = Some s"
    and "1 \<le> sum_cycle s" and "sum_cycle s \<le> wc_audit_max_cycles (tw_cfg tw)"
  shows "resumable_pre_pr_audit_summary tw d = Some s"
proof -
  obtain st where "List.find (\<lambda>st. as_name st = stage_value Stage_rubric \<and> stage_was_passed st) (sum_stages s) = Some st"
    using assms(1) by (auto simp: all_passed_def stage_outcome_from_summary_def split: option.splits)
  then have "list_ex stage_was_passed (sum_stages s)"
    by (auto simp: find_Some_iff list_ex_iff)
  with assms(2-4) show ?thesis by (simp add: resumable_pre_pr_audit_summary_def)
qed

text \<open>
  C22: an audit after the PR can be vacuous. The summary of the last cycle is not cleared when the pipeline passes, so
  when CI fails or a reviewer asks for changes and that summary records five passes, the audit cycle reuses them all:
  it makes one call, the git diff of the branch, asks no auditor, does not run the local CI gate, writes no fixup plan,
  and reports success with the task in PR_OPENING.
\<close>

theorem post_pr_audit_vacuous:
  assumes "others_leave tw"
    and "(trigger, st) \<in> {(CI_FAILURE, PENDING_CI), (CI_FAILURE, AWAITING_REVIEW), (REVIEW_FEEDBACK, AWAITING_REVIEW)}"
    and "select_state (tw_id tw) (wd_db w) = Some st"
    and "get_pre_pr_audit_summary (tw_id tw) (wd_db w) = Some s" and "all_passed s"
    and "1 \<le> sum_cycle s" and "sum_cycle s \<le> wc_audit_max_cycles (tw_cfg tw)"
    and "wd_handle w \<noteq> None" and "wd_contract w \<noteq> None"
    and "tw_exec tw (length (wd_calls w)) (bash (''cd /workspace && git '' @ join '' '' (branch_diff_args tw))) = Inr res"
  shows "\<exists>w'. run_audit_cycle tw trigger False w = Some (Inr None, w') \<and>
    wd_calls w' = Exec (bash (''cd /workspace && git '' @ join '' '' (branch_diff_args tw))) (Some 300) # wd_calls w \<and>
    select_state (tw_id tw) (wd_db w') = Some PR_OPENING"
proof -
  obtain d where d: "audit_cycle_prologue tw trigger w = (Inr (), w\<lparr>wd_db := d\<rparr>)"
      "select_state (tw_id tw) d = Some AUDIT_LOCAL_CI" "get_pre_pr_audit_summary (tw_id tw) d = Some s"
    using prologue_post_pr [OF assms(2,3)] assms(4) by auto
  have resume: "resumable_pre_pr_audit_summary tw d = Some s"
    by (rule all_passed_resumable [OF assms(5) d(3) assms(6,7)])
  obtain k where k: "nat (wc_audit_max_cycles (tw_cfg tw) - sum_cycle s + 1) = Suc k"
    using assms(7) by (metis Suc_nat_eq_nat_zadd1 add.commute diff_ge_0_iff_ge)
  have "trigger \<noteq> INITIAL_AUDIT" using assms(2) by auto
  from vacuous_cycle [OF assms(1) this assms(5), of "w\<lparr>wd_db := d\<rparr>" res] d(2) assms(8-10)
  obtain w' where "run_one_audit_cycle tw (sum_cycle s) trigger False (Some s) (w\<lparr>wd_db := d\<rparr>) = Some (Inr Cycle_passed, w')"
      "wd_calls w' = Exec (bash (''cd /workspace && git '' @ join '' '' (branch_diff_args tw))) (Some 300) # wd_calls w"
      "select_state (tw_id tw) (wd_db w') = Some PR_OPENING"
    by auto
  with d(1) resume k show ?thesis
    by (simp add: run_audit_cycle_def p_then_def p_bind_def p_act_def p_return_def act_simps store_read_def Let_def)
qed

section \<open>A task whose rubric audit fails\<close>

text \<open>
  A task interrupted in its second cycle, after every stage but the rubric had passed; the rubric auditor gives a score
  below the bar once more.
\<close>

definition demo_gauntlet :: task_worker where
  "demo_gauntlet = demo_worker\<lparr>tw_agent := (\<lambda>_ _. Inr (demo_answer\<lparr>ag_structured := Some (S_rubric demo_low)\<rparr>))\<rparr>"

definition demo_resumed :: audit_summary where
  "demo_resumed =
     \<lparr>sum_cycle = 2, sum_ts = 7, sum_stages = map (\<lambda>n. \<lparr>as_name = n, as_passed = Some True, as_summary = ''ok''\<rparr>)
       [''local_ci'', ''standards'', ''architecture'', ''behavior'']\<rparr>"

definition to_gauntlet :: "event list" where
  "to_gauntlet = [Ev_START_TASK, Ev_ENVIRONMENT_READY, Ev_PLAN_VALID, Ev_DOER_DONE, Ev_SUBTASK_PASSED, Ev_COMMIT_CREATED,
     Ev_ALL_SUBTASKS_DONE]"

definition demo_stages_run :: "(py_error + stage_outcome list) \<times> world" where
  "demo_stages_run = execute_audit_stages demo_gauntlet 2 False (Some demo_resumed) (demo_world to_gauntlet)"

lemma demo_gauntlet_simps [simp]: "tw_id demo_gauntlet = ''T1''" "tw_cfg demo_gauntlet = demo_worker_cfg"
  "others_leave demo_gauntlet"
  by (simp_all add: demo_gauntlet_def others_leave_def others_keep_def demo_worker_def)

definition demo_end_run :: "(py_error + cycle_end option) \<times> world" where
  "demo_end_run = end_cycle demo_gauntlet 2 False \<lparr>cy_cycle = 2, cy_stages = projr (fst demo_stages_run)\<rparr> (snd demo_stages_run)"

lemma demo_start: "select_state ''T1'' (wd_db (demo_world to_gauntlet)) = Some LOCAL_CI_CHECKING"
  by code_simp

definition deferred_at :: "state \<Rightarrow> py_error + stage_outcome list \<Rightarrow> bool" where
  "deferred_at s r =
     (case r of
        Inl _ \<Rightarrow> False
      | Inr stages \<Rightarrow>
          parked_at stages = s \<and> \<not> cycle_passed \<lparr>cy_cycle = 2, cy_stages = stages\<rparr> \<and>
          \<not> valve_blocked demo_worker_cfg \<lparr>cy_cycle = 2, cy_stages = stages\<rparr>)"

lemma demo_deferred: "deferred_at AUDIT_RUBRIC (fst demo_stages_run)"
  by code_simp

lemma demo_stages_ran: "\<not> isl (fst demo_stages_run) \<and> parked_at (projr (fst demo_stages_run)) = AUDIT_RUBRIC \<and>
    \<not> cycle_passed \<lparr>cy_cycle = 2, cy_stages = projr (fst demo_stages_run)\<rparr> \<and>
    release_valve_report demo_worker_cfg \<lparr>cy_cycle = 2, cy_stages = projr (fst demo_stages_run)\<rparr> \<noteq> None"
  using demo_deferred by (cases "fst demo_stages_run") (simp_all add: deferred_at_def release_valve_report_def)

lemma demo_stages_eq: "execute_audit_stages demo_gauntlet 2 False (Some demo_resumed) (demo_world to_gauntlet) =
    (Inr (projr (fst demo_stages_run)), snd demo_stages_run)"
  using demo_stages_ran by (simp add: demo_stages_run_def sum.expand prod_eq_iff)

theorem gauntlet_parks_at_failure_witness:
  "length (projr (fst demo_stages_run)) = 5 \<and> select_state ''T1'' (wd_db (snd demo_stages_run)) = Some AUDIT_RUBRIC"
  using gauntlet_parks_at_failure [OF _ _ demo_stages_eq] demo_start demo_stages_ran
  by (auto dest: arg_cong [where f = length])

theorem valve_leaves_parked_witness:
  "select_state ''T1'' (wd_db (snd demo_end_run)) = Some AUDIT_RUBRIC \<and>
   enter_pr_opening ''T1'' None [] (wd_db (snd demo_end_run)) = (Inr None, wd_db (snd demo_end_run))"
proof -
  have ends: "end_cycle demo_gauntlet 2 False \<lparr>cy_cycle = 2, cy_stages = projr (fst demo_stages_run)\<rparr> (snd demo_stages_run) =
      (Inr (Some Cycle_passed), snd demo_end_run)"
    using valve_ends [of demo_gauntlet _ "snd demo_stages_run" AUDIT_RUBRIC] demo_stages_ran
      gauntlet_parks [OF _ _ demo_stages_eq] demo_start
    by (auto simp: demo_end_run_def prod_eq_iff waiting_audit_def)
  show ?thesis
    using valve_leaves_parked [OF _ _ demo_stages_eq ends, of None "[]" None "[]"] demo_start demo_stages_ran by simp
qed

text \<open>A task whose pipeline passed, with its PR open.\<close>

definition demo_pr_world :: world where
  "demo_pr_world =
     (let w = demo_world (to_gauntlet @ [Ev_LOCAL_CI_PASSED, Ev_AUDIT_LOCAL_CI_PASSED, Ev_AUDIT_RUBRIC_PASSED,
                Ev_AUDIT_STANDARDS_PASSED, Ev_AUDIT_ARCHITECTURE_PASSED, Ev_AUDIT_BEHAVIOR_PASSED, Ev_PR_OPENED])
      in w\<lparr>wd_contract := Some demo_contract,
           wd_db := snd (py_for [''local_ci'', ''rubric'', ''standards'', ''architecture'', ''behavior'']
             (\<lambda>n. update_pre_pr_audit_stage ''T1'' 1 n True ''fine'') (wd_db w))\<rparr>)"

definition demo_summary :: audit_summary where
  "demo_summary = the (get_pre_pr_audit_summary ''T1'' (wd_db demo_pr_world))"

lemma demo_pr_state: "select_state ''T1'' (wd_db demo_pr_world) = Some PENDING_CI"
  by code_simp

lemma demo_pr_summary: "get_pre_pr_audit_summary ''T1'' (wd_db demo_pr_world) = Some demo_summary"
proof -
  have "get_pre_pr_audit_summary ''T1'' (wd_db demo_pr_world) \<noteq> None" by code_simp
  then show ?thesis by (auto simp: demo_summary_def)
qed

lemma demo_pr_passed: "all_passed demo_summary \<and> sum_cycle demo_summary = 1"
  by code_simp

theorem post_pr_audit_vacuous_witness:
  "\<exists>w'. run_audit_cycle demo_worker CI_FAILURE False demo_pr_world = Some (Inr None, w') \<and> length (wd_calls w') = 1 \<and>
    select_state ''T1'' (wd_db w') = Some PR_OPENING"
proof -
  have w: "wd_handle demo_pr_world \<noteq> None" "wd_contract demo_pr_world \<noteq> None" "wd_calls demo_pr_world = []"
    by (simp_all add: demo_pr_world_def Let_def) (simp add: demo_world_def)
  have "others_leave demo_worker" by (simp add: others_leave_def)
  from post_pr_audit_vacuous [OF this, of CI_FAILURE PENDING_CI demo_pr_world demo_summary "(0, [], [])"]
    demo_pr_state demo_pr_summary demo_pr_passed w
  show ?thesis by (fastforce simp: demo_worker_cfg_def demo_worker_def)
qed

end
