(* ===== verification/TaskLife.thy ===== *)
theory TaskLife
  imports AuditCycle Github
begin

text \<open>
  The life of a task worker: \<^verbatim>\<open>TaskWorker.run\<close>, the PR phases of \<^verbatim>\<open>workers/pr_lifecycle.py\<close>, the responses to a red CI
  and to a review of \<^verbatim>\<open>workers/feedback.py\<close>, \<^verbatim>\<open>workers/local_ci_capture.py\<close> and \<^verbatim>\<open>ancestry.py\<close>. What GitHub answers to
  \<^verbatim>\<open>gh pr view\<close> is the record \<open>life_env\<close>; a poll with its retries is one call in the log.
\<close>

section \<open>GitHub\<close>

record life_env =
  le_view :: "nat \<Rightarrow> int \<Rightarrow> nat \<Rightarrow> completed_process option"
  le_decode :: "string \<Rightarrow> pr_json option"
  le_error :: "nat \<Rightarrow> py_error"
  le_detect_ancestry :: bool

definition poll_current_pr :: "task_worker \<Rightarrow> life_env \<Rightarrow> task_row \<Rightarrow> pr_status wact" where
  "poll_current_pr tw le row =
     (let n = or0 (t_pr_number row)
      in outside tw (Host [''gh'', ''pr'', ''view'', str_int n]) (\<lambda>k.
           case poll_pr (le_decode le) (le_view le k n) n of None \<Rightarrow> Inl (le_error le k) | Some st \<Rightarrow> Inr st))"

section \<open>Merged without the merge button\<close>

record ancestry_result =
  an_is_ancestor :: bool
  an_branch_tip :: string
  an_reason :: string

definition resolved_tip :: "string \<Rightarrow> string" where
  "resolved_tip out = (if strip out = [] then [] else strip (last (splitlines (strip out))))"

definition branch_is_ancestor_of_main ::
  "(string list \<Rightarrow> (int \<times> string) wact) \<Rightarrow> string \<Rightarrow> string \<Rightarrow> bool \<Rightarrow> string \<Rightarrow> string \<Rightarrow> ancestry_result wact" where
  "branch_is_ancestor_of_main run_git branch_ref base fetch_first remote base_branch =
     py_then
       (if fetch_first then py_then (run_git [''fetch'', remote, base_branch]) (py_return ()) else py_return ())
     (py_bind (run_git [''rev-parse'', branch_ref]) (\<lambda>(rc, out).
        let tip = resolved_tip out
        in if rc \<noteq> 0 \<or> tip = []
           then py_return \<lparr>an_is_ancestor = False, an_branch_tip = [],
                  an_reason = ''could not resolve branch tip for '' @ py_repr branch_ref\<rparr>
           else py_bind (run_git [''merge-base'', ''--is-ancestor'', tip, base]) (\<lambda>(rc2, out2).
             py_return
               (if rc2 = 0
                then \<lparr>an_is_ancestor = True, an_branch_tip = tip,
                      an_reason = take 12 tip @ '' is an ancestor of '' @ base\<rparr>
                else \<lparr>an_is_ancestor = False, an_branch_tip = tip,
                      an_reason = take 12 tip @ '' is NOT an ancestor of '' @ base @ '': '' @ take 200 (strip out2)\<rparr>))))"

definition maybe_auto_merge_via_ancestry :: "task_worker \<Rightarrow> life_env \<Rightarrow> task_row \<Rightarrow> bool wact" where
  "maybe_auto_merge_via_ancestry tw le row =
     (if \<not> le_detect_ancestry le \<or> opt_text (t_branch row) = [] then py_return False
      else py_bind
        (branch_is_ancestor_of_main (git_in_workspace tw) (opt_text (t_branch row)) (base_ref tw) True (wc_pr_remote (tw_cfg tw))
           (wc_base_branch (tw_cfg tw))) (\<lambda>r.
        if \<not> an_is_ancestor r then py_return False
        else py_then
          (fsm_call tw mark_merged
             (Some (''auto-merged via ancestry: PR closed without GH merge, but '' @ take 12 (an_branch_tip r) @
                '' is reachable from '' @ base_ref tw @ '' (release-batch integration pattern detected)'')) [])
          (py_return True)))"

section \<open>Opening the PR\<close>

definition latest_artifact :: "ident \<Rightarrow> string \<Rightarrow> db \<Rightarrow> string option" where
  "latest_artifact tid kind d =
     (case newest_first ar_ts (filter (\<lambda>a. ar_task_id a = tid \<and> ar_kind a = kind) (db_artifacts d)) of
        [] \<Rightarrow> None
      | a # _ \<Rightarrow> some_text (ar_content a))"

definition plain_footer :: string where
  "plain_footer =
     ''_Generated by quikode. Acceptance criteria above were verified by the automated checker before PR open._'' @ nl"

definition deferred_footer :: string where
  "deferred_footer =
     ''_Generated by quikode. Local CI and behavior evidence passed before PR open; '' @
     ''deferred quality-audit findings are listed above for human review._'' @ nl"

definition pr_body :: "task_worker \<Rightarrow> world \<Rightarrow> string" where
  "pr_body tw w =
     (let deferred = latest_artifact (tw_id tw) ''pre_pr_deferred_findings'' (wd_db w)
      in ''## Task'' @ nl @ nl @ ''**'' @ tw_id tw @ ''** '' @ em_dash @ '' '' @ tw_title tw @ nl @ nl @
         ''## Scope'' @ nl @ nl @ tw_scope tw @ nl @ nl @ ''## Plan'' @ nl @ nl @ wd_plan_text w @ nl @ nl @
         ''---'' @ nl @ nl @
         (case deferred of
            None \<Rightarrow> plain_footer
          | Some t \<Rightarrow> nl @ nl @ take 12000 t @ nl @ nl @ ''---'' @ nl @ deferred_footer))"

definition enter_pr_review :: "task_worker \<Rightarrow> int \<Rightarrow> unit wact" where
  "enter_pr_review tw n =
     py_catch
       (py_bind (the_row tw) (\<lambda>row.
          if t_phase row = Phase_PRE_PR_REVIEW
          then on_store (enter_phase (tw_id tw) Phase_PR_REVIEW 0 Trigger_NONE
                 (Some (''PR opened (#'' @ str_int n @ ''); entering PR_REVIEW phase'')))
          else py_return ()))
       (\<lambda>_. py_return ())"

text \<open>
  \<^verbatim>\<open>row.get("parent_pr_branch") or row.get("parent_branch")\<close>: the schema dropped both columns, rows have lists of parents
  instead, so the value is always null.
\<close>

definition scalar_parent_branch :: "task_row \<Rightarrow> string" where
  "scalar_parent_branch row = []"

definition remote_branch_exists :: "task_worker \<Rightarrow> string \<Rightarrow> bool wact" where
  "remote_branch_exists tw b =
     py_bind (git_in_workspace tw [''ls-remote'', ''--heads'', wc_pr_remote (tw_cfg tw), b]) (\<lambda>(rc, out).
       py_return (rc = 0 \<and> strip out \<noteq> []))"

text \<open>
  The base of the PR. When the parent's branch is gone the branch is rebased onto the configured base, and the write of
  the dropped columns raises (\<^const>\<open>IntegrityError\<close> stands for every error of SQLite).
\<close>

definition pr_base_branch :: "task_worker \<Rightarrow> task_row \<Rightarrow> string wact" where
  "pr_base_branch tw row =
     (let base = or_else (scalar_parent_branch row) (wc_base_branch (tw_cfg tw))
      in if base = wc_base_branch (tw_cfg tw) then py_return base
         else py_bind (remote_branch_exists tw base) (\<lambda>exists.
           if exists then py_return base
           else py_bind (rebase_inline tw True) (\<lambda>ok.
             if \<not> ok
             then py_raise (RuntimeError (''parent branch '' @ base @ '' deleted; rebase to '' @
                    wc_base_branch (tw_cfg tw) @ '' failed''))
             else py_raise (IntegrityError ''no such column: parent_branch''))))"

text \<open>The body is what \<^verbatim>\<open>open_pr\<close> sends on standard input, which the log of calls does not record.\<close>

definition open_task_pr :: "task_worker \<Rightarrow> worker_outcome option wact" where
  "open_task_pr tw =
     py_bind (handle_parent_rebase tw) (\<lambda>rebased. case rebased of
       Some oc \<Rightarrow> py_return (Some oc)
     | None \<Rightarrow>
         py_then (fsm_call tw enter_pr_opening None [])
         (py_bind (the_row tw) (\<lambda>row.
            if or0 (t_pr_number row) \<noteq> 0 \<and> opt_text (t_pr_url row) \<noteq> [] then py_return None
            else
              py_bind (py_read (pr_body tw)) (\<lambda>body.
              py_bind (pr_base_branch tw row) (\<lambda>base.
              py_bind (open_pr tw (pr_title tw) base) (\<lambda>(rc, url, out).
                if rc \<noteq> 0 \<or> url = [] then py_raise (RuntimeError (''PR create failed: '' @ take 300 out))
                else
                  let n = (case pull_number url of None \<Rightarrow> 0 | Some k \<Rightarrow> k)
                  in py_then (on_store (set_field (tw_id tw) [F_pr_url (Some url), F_pr_number (Some n)]))
                     (py_then (enter_pr_review tw n) (py_return None))))))))"

section \<open>Responses\<close>

definition capture_local_ci_at_head :: "task_worker \<Rightarrow> (bool \<times> string) option wact" where
  "capture_local_ci_at_head tw =
     (let cmd = strip (wc_local_ci_command (tw_cfg tw))
      in if cmd = [] then py_return None
         else py_bind (py_read wd_handle) (\<lambda>h.
           if h = None then py_return None
           else py_bind
             (py_catch
               (py_bind (exec_in tw (bash (''cd /workspace && '' @ cmd)) (Some (wc_local_ci_timeout_s (tw_cfg tw))))
                 (\<lambda>r. py_return (Some r)))
               (\<lambda>e. case e of
                  TimeoutExpired _ \<Rightarrow> py_return None
                | OSError _ \<Rightarrow> py_return None
                | _ \<Rightarrow> py_raise e)) (\<lambda>res. case res of
               None \<Rightarrow> py_return None
             | Some (rc, out, err) \<Rightarrow>
                 let blob = out @ (if err = [] then [] else nl @ err)
                 in py_then
                      (py_catch
                        (artifact tw ''local_ci_at_head''
                          (''rc='' @ str_int rc @ ''; passed='' @ (if rc = 0 then ''True'' else ''False'') @ nl @ nl @
                           take 20000 blob))
                        (\<lambda>_. py_return ()))
                      (py_return (Some (rc = 0, last_lines blob 40))))))"

definition p_finally :: "'a proc \<Rightarrow> unit wact \<Rightarrow> 'a proc" where
  "p_finally m f =
     (\<lambda>w. case m w of
            None \<Rightarrow> None
          | Some (r, w1) \<Rightarrow> (case f w1 of (Inl e, w2) \<Rightarrow> Some (Inl e, w2) | (Inr _, w2) \<Rightarrow> Some (r, w2)))"

definition stamp_cycle :: "task_worker \<Rightarrow> pr_review_trigger \<Rightarrow> string \<Rightarrow> unit wact" where
  "stamp_cycle tw trigger note =
     py_catch
       (py_then (on_store (increment_cycle_in_phase (tw_id tw) (Some trigger) (Some note))) (py_return ()))
       (\<lambda>_. py_return ())"

text \<open>A fixup round with the context, then the gauntlet.\<close>

definition run_audit_cycle_with_context ::
  "task_worker \<Rightarrow> string \<Rightarrow> int \<Rightarrow> string \<Rightarrow> audit_trigger \<Rightarrow> worker_outcome option proc" where
  "run_audit_cycle_with_context tw kind round_no trigger source =
     p_bind (run_fixup_round tw kind round_no trigger None) (\<lambda>oc.
       if is_blocked oc then p_return oc else run_audit_cycle tw source False)"

definition run_audit_cycle_with_review_context :: "task_worker \<Rightarrow> int \<Rightarrow> worker_outcome option proc" where
  "run_audit_cycle_with_review_context tw round_no =
     run_audit_cycle_with_context tw ''fixup-review'' round_no ''review'' REVIEW_FEEDBACK"

definition run_audit_cycle_with_ci_context :: "task_worker \<Rightarrow> int \<Rightarrow> worker_outcome option proc" where
  "run_audit_cycle_with_ci_context tw round_no =
     run_audit_cycle_with_context tw ''fixup-ci'' round_no ''ci'' CI_FAILURE"

text \<open>Both responses end in \<^verbatim>\<open>enter_pending_ci\<close> and an outcome with that note.\<close>

definition report_pending :: "task_worker \<Rightarrow> string \<Rightarrow> string \<Rightarrow> task_field list \<Rightarrow> worker_outcome wact" where
  "report_pending tw note text kw =
     py_then (fsm_call tw enter_pending_ci (Some note) kw) (py_return (outcome PENDING_CI text))"

definition response_crashed :: "task_worker \<Rightarrow> string \<Rightarrow> py_error \<Rightarrow> worker_outcome proc" where
  "response_crashed tw what e =
     (let note = what @ '' crashed: '' @ err_text e
      in p_act (report_pending tw note note [F_last_error (Some (take 1000 (err_text e)))]))"

definition adopt_plan_text :: "task_row \<Rightarrow> unit wact" where
  "adopt_plan_text row = py_modify (\<lambda>w. w\<lparr>wd_plan_text := opt_text (t_plan_text row)\<rparr>)"

definition settle_response ::
  "task_worker \<Rightarrow> string \<Rightarrow> worker_outcome wact \<Rightarrow> worker_outcome option \<Rightarrow> worker_outcome wact" where
  "settle_response tw what settled oc =
     (case oc of
        Some o1 \<Rightarrow>
          if wo_final_state o1 = BLOCKED
          then (let note = what @ '' blocked: '' @ take 200 (wo_note o1) in report_pending tw note note [])
          else settled
      | None \<Rightarrow> settled)"

definition changes_requested_body :: "task_worker \<Rightarrow> worker_outcome proc" where
  "changes_requested_body tw =
     p_then (p_act (provision tw False))
     (p_bind (p_act (the_row tw)) (\<lambda>row.
        let round_no = or0 (t_review_round row) + 1
        in p_then (p_act (adopt_plan_text row))
           (p_then (p_act (stamp_cycle tw Trigger_REVIEW_FEEDBACK
              (''PR_REVIEW cycle: CHANGES_REQUESTED round '' @ str_int round_no)))
           (p_bind (run_audit_cycle_with_review_context tw round_no) (\<lambda>oc.
              p_act (settle_response tw ''review response''
                (py_then (on_store (increment_review_round (tw_id tw)))
                   (report_pending tw (''responded to CHANGES_REQUESTED (round '' @ str_int round_no @ '')'')
                      (''changes-requested response round '' @ str_int round_no @ '' complete'') []))
                oc))))))"

definition run_changes_requested_response :: "task_worker \<Rightarrow> string \<Rightarrow> worker_outcome proc" where
  "run_changes_requested_response tw bundled_context =
     (if strip bundled_context = [] then p_return (outcome PENDING_CI ''no context to address'')
      else p_finally
        (p_catch (changes_requested_body tw) (response_crashed tw ''changes-requested response''))
        (release_container tw))"

definition fetch_failed_check_logs :: "task_worker \<Rightarrow> int \<Rightarrow> unit wact" where
  "fetch_failed_check_logs tw n = py_then (host_run tw [''gh'', ''pr'', ''checks'', str_int n]) (py_return ())"

definition ci_fix_body :: "task_worker \<Rightarrow> pr_status \<Rightarrow> worker_outcome proc" where
  "ci_fix_body tw st =
     p_then (p_act (provision tw False))
     (p_bind (p_act (the_row tw)) (\<lambda>row.
        let round_no = or0 (t_ci_triage_retries row) + 1
        in p_then (p_act (adopt_plan_text row))
           (p_then (p_act (py_catch (fetch_failed_check_logs tw (pr_number st)) (\<lambda>_. py_return ())))
           (p_then (p_act (on_store (increment (tw_id tw) C_ci_triage_retries)))
           (p_then (p_act (stamp_cycle tw Trigger_CI_FAILURE
              (''PR_REVIEW cycle: CI failure round '' @ str_int round_no)))
           (p_then (p_act (capture_local_ci_at_head tw))
           (p_bind (run_audit_cycle_with_ci_context tw round_no) (\<lambda>oc.
              p_act (settle_response tw ''ci-fix''
                (report_pending tw (''ci-fix round '' @ str_int round_no @ '' pushed '' @
                     str_nat (length (pr_failed_checks st)) @ '' fix slice(s)'')
                   (''ci-fix round '' @ str_int round_no @ '' complete'') [])
                oc)))))))))"

definition run_ci_fix_response :: "task_worker \<Rightarrow> pr_status \<Rightarrow> worker_outcome proc" where
  "run_ci_fix_response tw st =
     p_finally (p_catch (ci_fix_body tw st) (response_crashed tw ''ci-fix'')) (release_container tw)"

section \<open>Intent review\<close>

definition intent_review_budget_exhausted :: "task_worker \<Rightarrow> task_row \<Rightarrow> bool wact" where
  "intent_review_budget_exhausted tw row =
     (if or0 (t_intent_review_count row) < wc_intent_max_reviews (tw_cfg tw) then py_return False
      else py_then (on_store (clear_intent_review_flag (tw_id tw))) (py_return True))"

definition no_review_needed :: "task_worker \<Rightarrow> string \<Rightarrow> (string \<times> string) option wact" where
  "no_review_needed tw note =
     py_then (on_store (clear_intent_review_flag (tw_id tw)))
       (py_then (fsm_call tw enter_pending_ci (Some note) []) (py_return None))"

definition intent_review_window :: "task_worker \<Rightarrow> task_row \<Rightarrow> (string \<times> string) option wact" where
  "intent_review_window tw row =
     py_then (git_in_workspace tw [''fetch'', wc_pr_remote (tw_cfg tw), wc_base_branch (tw_cfg tw)])
     (let base = or_else (opt_text (t_last_synced_main_sha row)) (opt_text (t_base_ref_sha row))
      in if base = [] then no_review_needed tw ''no base sha; skipping intent review''
         else py_bind (git_in_workspace tw [''rev-parse'', base_ref tw]) (\<lambda>(_, out).
           if strip out = base then no_review_needed tw ''main unchanged; no review needed''
           else py_return (Some (base, strip out))))"

text \<open>Verdict, affected areas, explanation; a call that fails counts as no drift.\<close>

definition intent_verdict :: "agent_result \<Rightarrow> string \<times> string list \<times> string" where
  "intent_verdict r =
     (case (ag_rc r = 0 \<and> ag_parse_errors r = [], ag_structured r) of
        (True, Some (S_intent v areas expl)) \<Rightarrow> (v, areas, expl)
      | _ \<Rightarrow>
          (''no_drift'', [],
           ''intent reviewer call failed: '' @
             take 500 (if ag_parse_errors r = [] then ''rc='' @ str_int (ag_rc r) else join ''; '' (ag_parse_errors r))))"

definition intent_raw :: "task_worker \<Rightarrow> agent_result \<Rightarrow> string" where
  "intent_raw tw r =
     (case (ag_rc r = 0 \<and> ag_parse_errors r = [], ag_structured r) of
        (True, Some (S_intent _ _ _)) \<Rightarrow> answer_text tw r
      | _ \<Rightarrow> ag_raw_text r)"

definition run_intent_reviewer :: "task_worker \<Rightarrow> string \<Rightarrow> string \<Rightarrow> (string \<times> string list \<times> string) wact" where
  "run_intent_reviewer tw base current_main =
     py_bind (recorded_invoke tw ''intent_reviewer'' ''intent_reviewer'' None) (\<lambda>r.
       case intent_verdict r of (v, areas, expl) \<Rightarrow>
         py_then
           (on_store (record_intent_review (tw_id tw) None (some_text base) (Some current_main) v expl
              (join '', '' areas) (intent_raw tw r)))
           (py_return (v, areas, expl)))"

section \<open>Replanning\<close>

definition replan_cycle :: "subtask_row list \<Rightarrow> int" where
  "replan_cycle rows =
     (if rows = [] then 0
      else Max (set (map (\<lambda>r. if s_planning_cycle r = 0 then 1 else s_planning_cycle r) rows))) + 1"

definition carried_over :: "subtask_row list \<Rightarrow> plan \<Rightarrow> string list" where
  "carried_over existing p =
     filter (\<lambda>sid. sid \<in> set (map st_id (p_subtasks p)))
       (remdups (map s_subtask_id (filter (\<lambda>r. s_state r = Sub_DONE) existing)))"

text \<open>The rows of the new plan; a subtask that was done before stays done.\<close>

definition store_replan :: "task_worker \<Rightarrow> subtask_row list \<Rightarrow> plan \<Rightarrow> unit store_act" where
  "store_replan tw existing p =
     py_then (upsert_subtasks (tw_id tw) (map initial_spec (p_subtasks p)) (replan_cycle existing) ''replan'')
     (py_then
       (py_for (carried_over existing p) (\<lambda>sid. update_subtask (tw_id tw) sid [SF_state Sub_DONE]))
       (py_return ()))"

definition bump_replan_count :: "ident \<Rightarrow> unit store_act" where
  "bump_replan_count tid = tx (update_task tid (\<lambda>r. r\<lparr>t_replan_count := Some (or0 (t_replan_count r) + 1)\<rparr>))"

definition replan_blocked :: "task_worker \<Rightarrow> string \<Rightarrow> string \<Rightarrow> (worker_outcome + plan) wact" where
  "replan_blocked tw note text =
     py_then (fsm_call tw block_current (Some note) []) (py_return (Inl (outcome BLOCKED text)))"

text \<open>What the answer of the replanner gives: a runnable plan, or a block.\<close>

definition adopt_replan :: "task_worker \<Rightarrow> agent_result \<Rightarrow> (worker_outcome + plan) wact" where
  "adopt_replan tw r =
     (let txt' = answer_text tw r
      in py_then (if txt' = [] then py_return () else artifact tw ''planner_replan_output'' txt')
        (if ag_rc r \<noteq> 0
         then replan_blocked tw (''replan agent exited rc='' @ str_int (ag_rc r) @ '': '' @ take 300 (ag_stderr_excerpt r))
                ''replan failed''
         else
           (case (ag_parse_errors r = [], ag_structured r) of
              (True, Some (S_planner q)) \<Rightarrow>
                py_then (py_modify (\<lambda>w. w\<lparr>wd_plan_text := txt'\<rparr>))
                (py_then (on_store (set_field (tw_id tw) [F_plan_text (Some txt')]))
                  (case wire_to_runtime_plan tw q (Some (wc_local_ci_command (tw_cfg tw))) of
                     Inr p \<Rightarrow> py_return (Inr p)
                   | Inl e \<Rightarrow> replan_blocked tw (''replan parse failed: '' @ plan_error_text False e)
                       ''replan output unparseable''))
            | _ \<Rightarrow>
                replan_blocked tw
                  (''replan parse failed: '' @
                   take 500 (if ag_parse_errors r = [] then ''no structured output''
                             else join ''; '' (ag_parse_errors r)))
                  ''replan output unparseable'')))"

definition replan :: "task_worker \<Rightarrow> string \<Rightarrow> (worker_outcome + unit) wact" where
  "replan tw affected =
     py_then (fsm_call tw enter_audit_cycle_for_ci_fixup
        (Some (''replan triggered by intent conflict: '' @ take 120 affected)) [])
     (py_then (evaluation_contract tw)
     (py_bind (store_read (list_subtasks (tw_id tw))) (\<lambda>existing.
      py_bind (recorded_invoke tw ''replan_planner'' ''planner_replan'' None) (\<lambda>r.
      py_bind (adopt_replan tw r) (\<lambda>res. case res of
        Inl oc \<Rightarrow> py_return (Inl oc)
      | Inr p \<Rightarrow>
          py_then (on_store (store_replan tw existing p))
          (py_then (adopt_plan p)
          (py_then (on_store (bump_replan_count (tw_id tw))) (py_return (Inr ())))))))))"

definition replan_and_resume :: "task_worker \<Rightarrow> string \<Rightarrow> worker_outcome option proc" where
  "replan_and_resume tw affected =
     p_bind (p_act (replan tw affected)) (\<lambda>res. case res of
       Inl oc \<Rightarrow> p_return (Some oc)
     | Inr _ \<Rightarrow>
         p_bind (subtask_loop tw) (\<lambda>oc. case oc of
           Some o1 \<Rightarrow> p_return (Some o1)
         | None \<Rightarrow>
             p_then (p_act (fsm_call tw enter_pending_ci (Some ''post-replan; back to polling'') []))
               (p_return None)))"

definition handle_intent_review_outcome ::
  "task_worker \<Rightarrow> string \<times> string list \<times> string \<Rightarrow> worker_outcome option proc" where
  "handle_intent_review_outcome tw v =
     (case v of (verdict, areas, expl) \<Rightarrow>
        if verdict = ''no_drift''
        then p_then (p_act (fsm_call tw enter_pending_ci (Some ''intent review: NO_DRIFT'') [])) (p_return None)
        else if verdict = ''minor_drift'' then p_act (rebase_or_resolve tw)
        else p_bind (p_act (store_read (find_task (tw_id tw)))) (\<lambda>row.
          if wc_intent_max_replans (tw_cfg tw) \<le> (case row of None \<Rightarrow> 0 | Some r \<Rightarrow> or0 (t_replan_count r))
          then p_act (block_with tw (''intent conflict + replan budget exhausted: '' @ take 300 expl)
                 (Some (''INTENT_CONFLICT: '' @ take 500 expl)) ''intent conflict; replan budget exhausted'')
          else replan_and_resume tw (join '', '' areas)))"

text \<open>The three diffs only feed the prompt.\<close>

definition run_intent_review :: "task_worker \<Rightarrow> worker_outcome option proc" where
  "run_intent_review tw =
     p_bind (p_act (the_row tw)) (\<lambda>row.
     p_bind (p_act (intent_review_budget_exhausted tw row)) (\<lambda>exhausted.
       if exhausted then p_return None
       else p_bind (p_act (intent_review_window tw row)) (\<lambda>window. case window of
         None \<Rightarrow> p_return None
       | Some (base, current_main) \<Rightarrow>
           p_then (p_act (git_in_workspace tw [''diff'', base @ ''...HEAD'', ''--no-color'']))
           (p_then (p_act (git_in_workspace tw [''log'', ''--oneline'', base @ ''..'' @ current_main]))
           (p_then (p_act (git_in_workspace tw [''diff'', base @ ''..'' @ current_main, ''--no-color'']))
           (p_bind (p_act (run_intent_reviewer tw base current_main)) (\<lambda>v.
            p_then (p_act (on_store (clear_intent_review_flag (tw_id tw))))
            (p_then (p_act (on_store (set_field (tw_id tw) [F_last_synced_main_sha (Some current_main)])))
              (handle_intent_review_outcome tw v)))))))))"

section \<open>Polling\<close>

definition worker_terminal_outcome :: "task_row \<Rightarrow> worker_outcome option" where
  "worker_terminal_outcome row =
     (if t_state row \<in> {ABORTED, MERGED} then Some (outcome (t_state row) []) else None)"

definition prepare_pr_poll_row :: "task_worker \<Rightarrow> (worker_outcome + task_row) proc" where
  "prepare_pr_poll_row tw =
     p_bind (p_act (handle_parent_rebase tw)) (\<lambda>rebased. case rebased of
       Some oc \<Rightarrow> p_return (Inl oc)
     | None \<Rightarrow>
         p_bind (p_act (the_row tw)) (\<lambda>row.
           if or0 (t_needs_intent_review row) = 0 then p_return (Inr row)
           else p_bind (run_intent_review tw) (\<lambda>oc. case oc of
             Some o1 \<Rightarrow> p_return (Inl o1)
           | None \<Rightarrow> p_bind (p_act (the_row tw)) (\<lambda>row2. p_return (Inr row2)))))"

definition closed_with_its_base :: "task_worker \<Rightarrow> task_row \<Rightarrow> pr_status \<Rightarrow> bool wact" where
  "closed_with_its_base tw row st =
     (if scalar_parent_branch row = [] \<or> pr_base_ref_name st = [] \<or> pr_base_ref_name st = wc_base_branch (tw_cfg tw)
      then py_return False
      else py_bind (remote_branch_exists tw (pr_base_ref_name st)) (\<lambda>exists. py_return (\<not> exists)))"

definition handle_closed_polled_pr :: "task_worker \<Rightarrow> life_env \<Rightarrow> pr_status \<Rightarrow> worker_outcome wact" where
  "handle_closed_polled_pr tw le st =
     py_bind (the_row tw) (\<lambda>row.
     py_bind (closed_with_its_base tw row st) (\<lambda>orphaned.
       if orphaned then run_rebase tw True
       else py_bind (maybe_auto_merge_via_ancestry tw le row) (\<lambda>merged.
         if merged then py_return (outcome MERGED [])
         else py_then (on_store (pr_closed (tw_id tw) (Some ''PR was closed'') []))
                (py_return (outcome ABORTED [])))))"

definition handle_polled_terminal_status :: "task_worker \<Rightarrow> life_env \<Rightarrow> pr_status \<Rightarrow> worker_outcome option wact" where
  "handle_polled_terminal_status tw le st =
     (if Github.pr_state st = ''MERGED''
      then py_then (fsm_call tw mark_merged None []) (py_return (Some (outcome MERGED [])))
      else if Github.pr_state st \<noteq> ''CLOSED'' then py_return None
      else py_bind (handle_closed_polled_pr tw le st) (\<lambda>oc. py_return (Some oc)))"

definition handle_polled_conflict :: "task_worker \<Rightarrow> pr_status \<Rightarrow> task_row \<Rightarrow> worker_outcome option wact" where
  "handle_polled_conflict tw st row =
     (if pr_mergeable st \<noteq> ''CONFLICTING'' \<or> \<not> wc_conflict_auto_resolve (tw_cfg tw) \<or>
         wc_rebase_max_attempts (tw_cfg tw) \<le> or0 (t_conflict_resolve_retries row)
      then py_return None
      else py_bind (rebase_or_resolve tw) (\<lambda>oc. case oc of
        Some o1 \<Rightarrow> py_return (Some o1)
      | None \<Rightarrow> py_then (fsm_call tw enter_pending_ci (Some ''back to polling after rebase'') []) (py_return None)))"

text \<open>The outcome, the attempts used, and whether the failure was handled.\<close>

definition handle_polled_ci_failure ::
  "task_worker \<Rightarrow> pr_status \<Rightarrow> int \<Rightarrow> int \<Rightarrow> (worker_outcome option \<times> int \<times> bool) proc" where
  "handle_polled_ci_failure tw st attempts budget =
     (if pr_checks_status st \<noteq> ''failure'' \<or> budget \<le> attempts then p_return (None, attempts, False)
      else p_bind (run_ci_fix_response tw st) (\<lambda>oc.
        p_return (if wo_final_state oc = BLOCKED then Some oc else None, attempts + 1, True)))"

definition green_pr_outcome_or_raise :: "pr_status \<Rightarrow> int \<Rightarrow> int \<Rightarrow> worker_outcome option wact" where
  "green_pr_outcome_or_raise st attempts budget =
     (if budget \<le> attempts then py_raise (RuntimeError ''exhausted PR triage budget'')
      else py_return
        (if pr_checks_status st \<notin> {''success'', ''none''} \<or> pr_mergeable st = ''CONFLICTING'' then None
         else Some (outcome PENDING_CI [])))"

definition settle_poll ::
  "task_worker \<Rightarrow> life_env \<Rightarrow> int \<Rightarrow> int \<Rightarrow> task_row \<Rightarrow> (worker_outcome option \<times> int) proc" where
  "settle_poll tw le attempts budget row =
     p_bind (p_act (poll_current_pr tw le row)) (\<lambda>st.
     p_bind (p_act (handle_polled_terminal_status tw le st)) (\<lambda>ended. case ended of
       Some oc \<Rightarrow> p_return (Some oc, attempts)
     | None \<Rightarrow>
         p_bind (p_act (handle_polled_conflict tw st row)) (\<lambda>conflict. case conflict of
           Some oc \<Rightarrow> p_return (Some oc, attempts)
         | None \<Rightarrow>
             p_bind (handle_polled_ci_failure tw st attempts budget) (\<lambda>(oc, attempts', handled).
               if handled then p_return (oc, attempts')
               else p_bind (p_act (green_pr_outcome_or_raise st attempts' budget)) (\<lambda>green.
                 p_return (green, attempts'))))))"

definition poll_pr_once :: "task_worker \<Rightarrow> life_env \<Rightarrow> int \<Rightarrow> int \<Rightarrow> (worker_outcome option \<times> int) proc" where
  "poll_pr_once tw le attempts budget =
     p_bind (p_act (the_row tw)) (\<lambda>row.
       case worker_terminal_outcome row of
         Some oc \<Rightarrow> p_return (Some oc, attempts)
       | None \<Rightarrow>
           p_bind (prepare_pr_poll_row tw) (\<lambda>prepared. case prepared of
             Inl oc \<Rightarrow> p_return (Some oc, attempts)
           | Inr row2 \<Rightarrow> settle_poll tw le attempts budget row2))"

definition poll_turn :: "task_worker \<Rightarrow> life_env \<Rightarrow> int \<Rightarrow> (int + worker_outcome) proc" where
  "poll_turn tw le attempts =
     p_then (p_act (sleep tw 20000))
     (p_bind (poll_pr_once tw le attempts (wc_triage_budget (tw_cfg tw))) (\<lambda>(oc, attempts').
        p_return (case oc of Some o1 \<Rightarrow> Inr o1 | None \<Rightarrow> Inl attempts')))"

definition poll_pr_loop :: "task_worker \<Rightarrow> life_env \<Rightarrow> worker_outcome proc" where
  "poll_pr_loop tw le = p_then (p_act (fsm_call tw enter_pending_ci None [])) (p_loop (poll_turn tw le) 0)"

section \<open>The whole life\<close>

definition or_next :: "worker_outcome option proc \<Rightarrow> worker_outcome proc \<Rightarrow> worker_outcome proc" where
  "or_next m k = p_bind m (\<lambda>oc. case oc of Some o1 \<Rightarrow> p_return o1 | None \<Rightarrow> k)"

definition work :: "task_worker \<Rightarrow> life_env \<Rightarrow> worker_outcome proc" where
  "work tw le =
     p_then (p_act (provision tw True))
     (p_then (plan_task tw)
     (or_next (subtask_loop tw)
     (or_next (p_act (commit_push tw))
     (or_next (run_pre_pr_pipeline tw False)
     (or_next (p_act (open_task_pr tw)) (poll_pr_loop tw le))))))"

definition run_task :: "task_worker \<Rightarrow> life_env \<Rightarrow> worker_outcome proc" where
  "run_task tw le =
     p_finally
       (p_catch (work tw le)
          (\<lambda>e. p_then (p_act (safe_crash_current tw (err_text e))) (p_return (outcome FAILED (err_text e)))))
       (teardown tw)"

section \<open>Facts\<close>

lemma keeps_p_finally [p_keeps_intros]:
  assumes "p_keeps P m" and "keeps P f"
  shows "p_keeps P (p_finally m f)"
  unfolding p_keeps_def
proof (intro allI impI)
  fix w r w' assume "P w" and run: "p_finally m f w = Some (r, w')"
  then obtain x v where m: "m w = Some (x, v)" by (auto simp: p_finally_def split: option.splits)
  have "P v" by (rule p_keepsD [OF assms(1) \<open>P w\<close> m])
  obtain y u where f: "f v = (y, u)" by fastforce
  have "P u" by (rule keeps_result [OF assms(2) \<open>P v\<close> f])
  with run m f show "P w'" by (auto simp: p_finally_def split: sum.splits)
qed

lemma keeps_replan_rows [keeps_intros]: "keeps store_ok (store_replan tw existing p)"
  unfolding store_replan_def by (intro keeps_intros)

lemma keeps_bump_replan [keeps_intros]: "keeps store_ok (bump_replan_count tid)"
  unfolding bump_replan_count_def by (intro keeps_intros) simp_all

lemma keeps_report [keeps_intros]: "wkeeps store_ok (report_pending tw note t kw)"
  unfolding report_pending_def by (intro keeps_intros)

lemma keeps_adopt_text [keeps_intros]: "wkeeps P (adopt_plan_text row)"
  unfolding adopt_plan_text_def by (rule keeps_field_update) simp

lemma keeps_life_calls [calls_keep]:
  assumes "others_keep store_ok tw"
  shows "wkeeps store_ok (poll_current_pr tw le row)" and "wkeeps store_ok (maybe_auto_merge_via_ancestry tw le row)"
    and "wkeeps store_ok (capture_local_ci_at_head tw)" and "wkeeps store_ok (open_task_pr tw)"
    and "wkeeps store_ok (fetch_failed_check_logs tw n)"
proof -
  show "wkeeps store_ok (poll_current_pr tw le row)"
    unfolding poll_current_pr_def Let_def by (intro calls_keep assms)
  show "wkeeps store_ok (maybe_auto_merge_via_ancestry tw le row)"
    unfolding maybe_auto_merge_via_ancestry_def branch_is_ancestor_of_main_def Let_def
    by (intro keeps_intros calls_keep assms)
  show "wkeeps store_ok (capture_local_ci_at_head tw)"
    unfolding capture_local_ci_at_head_def Let_def
    by (intro keeps_intros calls_keep assms) (auto split: py_error.splits intro!: keeps_intros)
  show "wkeeps store_ok (open_task_pr tw)"
    unfolding open_task_pr_def pr_base_branch_def remote_branch_exists_def enter_pr_review_def Let_def by (intro keeps_intros calls_keep assms)
  show "wkeeps store_ok (fetch_failed_check_logs tw n)"
    unfolding fetch_failed_check_logs_def by (intro keeps_intros calls_keep assms)
qed

lemma keeps_responses [p_keeps_intros]:
  assumes "others_keep store_ok tw"
  shows "wpkeeps store_ok (run_changes_requested_response tw context)" and "wpkeeps store_ok (run_ci_fix_response tw st)"
proof -
  have audit: "wpkeeps store_ok (run_audit_cycle_with_context tw kind n trigger source)" for kind n trigger source
    unfolding run_audit_cycle_with_context_def by (intro p_keeps_intros assms)
  have settle: "wkeeps store_ok m \<Longrightarrow> wkeeps store_ok (settle_response tw what m oc)" for what oc and m :: "worker_outcome wact"
    unfolding settle_response_def Let_def by (intro keeps_intros)
  have crash: "wpkeeps store_ok (response_crashed tw what e)" for what e
    unfolding response_crashed_def Let_def by (intro p_keeps_intros keeps_intros)
  show "wpkeeps store_ok (run_changes_requested_response tw context)"
    unfolding run_changes_requested_response_def changes_requested_body_def stamp_cycle_def
      run_audit_cycle_with_review_context_def Let_def
    by (intro p_keeps_intros keeps_intros calls_keep audit settle crash assms)
  show "wpkeeps store_ok (run_ci_fix_response tw st)"
    unfolding run_ci_fix_response_def ci_fix_body_def stamp_cycle_def run_audit_cycle_with_ci_context_def Let_def
    by (intro p_keeps_intros keeps_intros calls_keep audit settle crash assms)
qed

lemma keeps_intent_review [p_keeps_intros]:
  assumes "others_keep store_ok tw"
  shows "wpkeeps store_ok (run_intent_review tw)"
proof -
  have blocked: "wkeeps store_ok (replan_blocked tw n t)" for n t
    unfolding replan_blocked_def by (intro keeps_intros)
  have adopt: "wkeeps store_ok (adopt_replan tw r)" for r
    unfolding adopt_replan_def Let_def
    by (intro keeps_intros keeps_field_update) (auto split: option.splits structured.splits bool.splits sum.splits
      intro!: keeps_intros keeps_field_update blocked)
  have rep: "wkeeps store_ok (replan tw affected)" for affected
    unfolding replan_def by (intro keeps_intros calls_keep adopt assms)
  have resume: "wpkeeps store_ok (replan_and_resume tw affected)" for affected
    unfolding replan_and_resume_def by (intro p_keeps_intros keeps_intros rep assms)
  have handle: "wpkeeps store_ok (handle_intent_review_outcome tw v)" for v
    unfolding handle_intent_review_outcome_def by (intro p_keeps_intros keeps_intros calls_keep resume assms)
  have window: "wkeeps store_ok (intent_review_window tw row)" for row
    unfolding intent_review_window_def no_review_needed_def Let_def by (intro keeps_intros calls_keep assms)
  have budget: "wkeeps store_ok (intent_review_budget_exhausted tw row)" for row
    unfolding intent_review_budget_exhausted_def by (intro keeps_intros)
  have reviewer: "wkeeps store_ok (run_intent_reviewer tw b c)" for b c
    unfolding run_intent_reviewer_def by (intro keeps_intros calls_keep assms)
  show ?thesis
    unfolding run_intent_review_def
    by (intro p_keeps_intros keeps_intros calls_keep handle window budget reviewer assms)
qed

lemma keeps_poll [p_keeps_intros]:
  assumes "others_keep store_ok tw"
  shows "wpkeeps store_ok (poll_pr_loop tw le)"
proof -
  have prepare: "wpkeeps store_ok (prepare_pr_poll_row tw)"
    unfolding prepare_pr_poll_row_def by (intro p_keeps_intros keeps_intros calls_keep assms)
  have terminal: "wkeeps store_ok (handle_polled_terminal_status tw le st)" for st
    unfolding handle_polled_terminal_status_def handle_closed_polled_pr_def closed_with_its_base_def
      remote_branch_exists_def pr_closed_def
    by (intro keeps_intros calls_keep assms)
  have conflict: "wkeeps store_ok (handle_polled_conflict tw st row)" for st row
    unfolding handle_polled_conflict_def by (intro keeps_intros calls_keep assms)
  have ci: "wpkeeps store_ok (handle_polled_ci_failure tw st n budget)" for st n budget
    unfolding handle_polled_ci_failure_def by (intro p_keeps_intros assms)
  have green: "wkeeps store_ok (green_pr_outcome_or_raise st n budget)" for st n budget
    unfolding green_pr_outcome_or_raise_def by (intro keeps_intros)
  have settle: "wpkeeps store_ok (settle_poll tw le n budget row)" for n budget row
    unfolding settle_poll_def by (intro p_keeps_intros calls_keep terminal conflict ci green assms)
  have once: "wpkeeps store_ok (poll_pr_once tw le n budget)" for n budget
    unfolding poll_pr_once_def by (intro p_keeps_intros keeps_intros prepare settle)
  show ?thesis
    unfolding poll_pr_loop_def poll_turn_def by (intro p_keeps_intros keeps_intros calls_keep once assms)
qed

lemma keeps_run_task [p_keeps_intros]:
  assumes "others_keep store_ok tw"
  shows "wpkeeps store_ok (run_task tw le)"
proof -
  have "wpkeeps store_ok (run_pre_pr_pipeline tw False)"
    unfolding run_pre_pr_pipeline_def by (intro p_keeps_intros assms)
  then have "wpkeeps store_ok (work tw le)"
    unfolding work_def or_next_def by (intro p_keeps_intros keeps_intros calls_keep assms)
  then show ?thesis
    unfolding run_task_def by (intro p_keeps_intros keeps_intros calls_keep assms)
qed

text \<open>What a procedure returns, when it returns a value.\<close>

definition gives :: "('a \<Rightarrow> bool) \<Rightarrow> 'a proc \<Rightarrow> bool" where
  "gives Q m \<longleftrightarrow> (\<forall>w a w'. m w = Some (Inr a, w') \<longrightarrow> Q a)"

lemma givesD: "gives Q m \<Longrightarrow> m w = Some (Inr a, w') \<Longrightarrow> Q a"
  by (auto simp: gives_def)

lemma gives_act: "yields Q m \<Longrightarrow> gives Q (p_act m)"
  unfolding gives_def p_act_def yields_def by (metis option.inject prod.sel(1))

lemma gives_bind: "(\<And>a. gives Q (f a)) \<Longrightarrow> gives Q (p_bind m f)"
  unfolding gives_def p_bind_def by (fastforce split: option.splits prod.splits sum.splits)

lemma gives_then: "gives Q k \<Longrightarrow> gives Q (p_then m k)"
  unfolding p_then_def by (rule gives_bind)

lemma gives_catch: "gives Q m \<Longrightarrow> (\<And>e. gives Q (h e)) \<Longrightarrow> gives Q (p_catch m h)"
  unfolding gives_def p_catch_def by (fastforce split: option.splits prod.splits sum.splits)

lemma report_yields: "yields (\<lambda>oc. wo_final_state oc = PENDING_CI) (report_pending tw n t kw)"
  by (simp add: report_pending_def yields_def act_simps outcome_def split: sum.splits prod.splits)

lemma settle_yields:
  "yields (\<lambda>oc. wo_final_state oc = PENDING_CI) m \<Longrightarrow>
   yields (\<lambda>oc. wo_final_state oc = PENDING_CI) (settle_response tw what m oc)"
  unfolding settle_response_def Let_def using report_yields by (auto split: option.splits)

lemma task_released:
  assumes "p_finally m (release_container tw) w = Some (Inr a, w')"
  shows "wd_handle w' = None \<and> (\<exists>v. m w = Some (Inr a, v))"
proof -
  obtain r v where m: "m w = Some (r, v)" using assms by (auto simp: p_finally_def split: option.splits)
  then show ?thesis
    using assms
    by (auto simp: p_finally_def release_container_def act_simps split: sum.splits prod.splits if_splits)
qed

lemma ci_fix_pending:
  assumes "run_ci_fix_response tw st w = Some (Inr oc, w')"
  shows "wo_final_state oc = PENDING_CI \<and> wd_handle w' = None"
proof -
  have "gives (\<lambda>oc. wo_final_state oc = PENDING_CI) (p_catch (ci_fix_body tw st) (response_crashed tw ''ci-fix''))"
    unfolding ci_fix_body_def response_crashed_def Let_def
    by (intro gives_catch gives_then gives_bind gives_act settle_yields report_yields)
  with task_released [OF assms [unfolded run_ci_fix_response_def]] show ?thesis by (auto dest: givesD)
qed

lemma changes_pending:
  assumes "run_changes_requested_response tw context w = Some (Inr oc, w')" and "strip context \<noteq> []"
  shows "wo_final_state oc = PENDING_CI \<and> wd_handle w' = None"
proof -
  have "gives (\<lambda>oc. wo_final_state oc = PENDING_CI)
      (p_catch (changes_requested_body tw) (response_crashed tw ''changes-requested response''))"
    unfolding changes_requested_body_def response_crashed_def Let_def
    by (intro gives_catch gives_then gives_bind gives_act settle_yields then_yields report_yields)
  with task_released [of _ tw w oc w'] assms show ?thesis
    unfolding run_changes_requested_response_def by (fastforce dest: givesD)
qed

section \<open>Properties\<close>


text \<open>
  A red CI in the poll loop never ends it. When \<^verbatim>\<open>_handle_polled_ci_failure\<close> returns, it returns no outcome: the
  response to the failure always reports PENDING_CI, also when it was blocked or crashed. It counts the attempt exactly
  when CI failed and the budget was not used up, and then the worker has no container any more.
\<close>

theorem ci_failure_goes_on:
  assumes "handle_polled_ci_failure tw st attempts budget w = Some (Inr (oc, attempts', handled), w')"
  shows "oc = None \<and> (handled \<longleftrightarrow> pr_checks_status st = ''failure'' \<and> attempts < budget) \<and>
    attempts' = (if handled then attempts + 1 else attempts) \<and> (handled \<longrightarrow> wd_handle w' = None)"
proof (cases "pr_checks_status st \<noteq> ''failure'' \<or> budget \<le> attempts")
  case True
  with assms show ?thesis
    by (auto simp: handle_polled_ci_failure_def p_return_def p_act_def act_simps)
next
  case False
  with assms obtain o1 where "run_ci_fix_response tw st w = Some (Inr o1, w')"
      and "oc = (if wo_final_state o1 = BLOCKED then Some o1 else None)" "attempts' = attempts + 1" "handled"
    by (auto simp: handle_polled_ci_failure_def p_bind_def p_return_def p_act_def act_simps
        split: option.splits prod.splits sum.splits)
  with ci_fix_pending [OF this(1)] False show ?thesis by simp
qed

text \<open>
  A stacked task is treated like any other at both ends of its PR. The base of a new PR is always the configured base
  branch, and a closed PR is never taken for one whose base was deleted with its parent, whatever the parents of the
  task, because both decisions read columns that the schema no longer has.
\<close>

theorem stacked_pr_ignored:
  "pr_base_branch tw row w = (Inr (wc_base_branch (tw_cfg tw)), w) \<and> closed_with_its_base tw row st w = (Inr False, w)"
  by (simp add: pr_base_branch_def closed_with_its_base_def scalar_parent_branch_def or_else_def act_simps)

section \<open>Two polls that crash the worker\<close>

text \<open>A poll whose row needs neither a rebase nor an intent review and that changes nothing in the store.\<close>

definition quiet_poll :: "task_worker \<Rightarrow> life_env \<Rightarrow> world \<Rightarrow> task_row \<Rightarrow> pr_status \<Rightarrow> bool" where
  "quiet_poll tw le w row st \<longleftrightarrow>
     find_task (tw_id tw) (wd_db w) = Some row \<and> t_state row \<notin> {ABORTED, MERGED} \<and>
     (or0 (t_needs_parent_rebase row) = 0 \<or> wd_handle w = None) \<and> or0 (t_needs_intent_review row) = 0 \<and>
     poll_pr (le_decode le) (le_view le (length (wd_calls w)) (or0 (t_pr_number row))) (or0 (t_pr_number row)) = Some st \<and>
     tw_meanwhile tw (length (wd_calls w)) (wd_db w) = wd_db w"

definition polled :: "task_row \<Rightarrow> world \<Rightarrow> world" where
  "polled row w = w\<lparr>wd_calls := Host [''gh'', ''pr'', ''view'', str_int (or0 (t_pr_number row))] # wd_calls w\<rparr>"

lemma quiet_poll_run:
  assumes "quiet_poll tw le w row st"
  shows "poll_pr_once tw le n budget w =
    p_bind (p_act (handle_polled_terminal_status tw le st)) (\<lambda>ended. case ended of
       Some oc \<Rightarrow> p_return (Some oc, n)
     | None \<Rightarrow>
         p_bind (p_act (handle_polled_conflict tw st row)) (\<lambda>conflict. case conflict of
           Some oc \<Rightarrow> p_return (Some oc, n)
         | None \<Rightarrow>
             p_bind (handle_polled_ci_failure tw st n budget) (\<lambda>(oc, n', handled).
               if handled then p_return (oc, n')
               else p_bind (p_act (green_pr_outcome_or_raise st n' budget)) (\<lambda>green.
                 p_return (green, n'))))) (polled row w)"
proof -
  have row: "the_row tw w = (Inr row, w)"
    using assms by (simp add: quiet_poll_def the_row_def store_read_def act_simps)
  have "handle_parent_rebase tw w = (Inr None, w)"
    using assms by (auto simp: quiet_poll_def handle_parent_rebase_def row act_simps)
  then have prep: "prepare_pr_poll_row tw w = Some (Inr (Inr row), w)"
    using assms by (simp add: prepare_pr_poll_row_def p_bind_def p_act_def p_return_def row quiet_poll_def act_simps)
  have "poll_current_pr tw le row w = (Inr st, polled row w)"
    using assms by (simp add: poll_current_pr_def outside_def quiet_poll_def polled_def Let_def)
  moreover have "worker_terminal_outcome row = None"
    using assms by (auto simp: worker_terminal_outcome_def quiet_poll_def)
  ultimately show ?thesis
    by (simp add: poll_pr_once_def settle_poll_def p_bind_def p_act_def row prep)
qed

text \<open>
  A worker that used up its CI attempts crashes on a green PR. When the attempts have reached the triage budget, a
  poll that finds the PR open, its checks passed and nothing in conflict raises "exhausted PR triage budget" instead of
  leaving the loop, so the last fix the budget allows can never be seen to succeed.
\<close>

theorem exhausted_budget_crashes_green:
  assumes "quiet_poll tw le w row st" and "Github.pr_state st = ''OPEN''" and "pr_mergeable st \<noteq> ''CONFLICTING''"
    and "pr_checks_status st = ''success''" and "budget \<le> n"
  shows "\<exists>w'. poll_pr_once tw le n budget w = Some (Inl (RuntimeError ''exhausted PR triage budget''), w')"
  using assms(2-5)
  by (simp add: quiet_poll_run [OF assms(1)] p_bind_def p_act_def p_return_def handle_polled_terminal_status_def
      handle_polled_conflict_def handle_polled_ci_failure_def green_pr_outcome_or_raise_def act_simps)

text \<open>
  A worker whose PR is closed after a CI fix crashes. The response to a red CI tears the container down at its end;
  when a later poll finds the PR closed, the check whether its commits are on the base branch needs that container,
  so the poll raises an AssertionError and the task ends FAILED instead of MERGED or ABORTED.
\<close>

theorem closed_without_container_crashes:
  assumes "quiet_poll tw le w row st" and "Github.pr_state st = ''CLOSED''" and "wd_handle w = None"
    and "le_detect_ancestry le" and "opt_text (t_branch row) \<noteq> []"
  shows "poll_pr_once tw le n budget w =
    Some (Inl (AssertionError ''_provision() must run before this method''), polled row w)"
proof -
  have "find_task (tw_id tw) (wd_db (polled row w)) = Some row" and "wd_handle (polled row w) = None"
    using assms(1,3) by (simp_all add: quiet_poll_def polled_def)
  then show ?thesis
    using assms(2,4,5)
    by (simp add: quiet_poll_run [OF assms(1)] p_bind_def p_act_def handle_polled_terminal_status_def
        handle_closed_polled_pr_def closed_with_its_base_def scalar_parent_branch_def the_row_def store_read_def maybe_auto_merge_via_ancestry_def
        branch_is_ancestor_of_main_def git_in_workspace_def exec_in_def the_handle_def act_simps)
qed

section \<open>Replanning keeps what is done\<close>

definition subtask_view :: "subtask_row \<Rightarrow> string \<times> subtask_state \<times> int" where
  "subtask_view r = (s_subtask_id r, s_state r, s_planning_cycle r)"

definition finish_in :: "string set \<Rightarrow> string \<times> subtask_state \<times> int \<Rightarrow> string \<times> subtask_state \<times> int" where
  "finish_in S v = (case v of (i, st, c) \<Rightarrow> (i, if i \<in> S then Sub_DONE else st, c))"

lemma view_update_row:
  "map subtask_view (task_subtasks tid (update_subtask_row tid sid (set_subtask_field (SF_state Sub_DONE)) d)) =
   map (finish_in {sid}) (map subtask_view (task_subtasks tid d))"
proof -
  have "map subtask_view (filter (\<lambda>s. s_task_id s = tid) (map (\<lambda>s. if s_task_id s = tid \<and> s_subtask_id s = sid
        then (set_subtask_field (SF_state Sub_DONE) s)\<lparr>s_updated_at := Some c\<rparr> else s) rows)) =
      map (finish_in {sid}) (map subtask_view (filter (\<lambda>s. s_task_id s = tid) rows))" for rows c
    by (induction rows) (auto simp: subtask_view_def finish_in_def)
  then show ?thesis by (simp add: task_subtasks_def update_subtask_row_def)
qed

lemma view_updates:
  "\<exists>us d'. py_for sids (\<lambda>sid. update_subtask tid sid [SF_state Sub_DONE]) d = (Inr us, d') \<and>
     map subtask_view (task_subtasks tid d') = map (finish_in (set sids)) (map subtask_view (task_subtasks tid d))"
proof (induction sids arbitrary: d)
  case Nil
  then show ?case by (auto simp: act_simps finish_in_def subtask_view_def)
next
  case (Cons sid sids)
  let ?d = "update_subtask_row tid sid (set_subtask_field (SF_state Sub_DONE)) d"
  obtain us d' where rest: "py_for sids (\<lambda>sid. update_subtask tid sid [SF_state Sub_DONE]) ?d = (Inr us, d')"
      "map subtask_view (task_subtasks tid d') = map (finish_in (set sids)) (map subtask_view (task_subtasks tid ?d))"
    using Cons.IH by blast
  have "map (finish_in (set sids)) (map (finish_in {sid}) xs) = map (finish_in (set (sid # sids))) xs" for xs
    by (induction xs) (auto simp: finish_in_def split: prod.splits)
  moreover have "update_subtask tid sid [SF_state Sub_DONE] d = (Inr (), ?d)"
    by (simp add: act_simps update_subtask_def)
  ultimately show ?case
    using rest by (simp add: py_bind_run py_return_run view_update_row del: map_map set_subtask_field.simps)
qed

lemma upsert_distinct:
  assumes "distinct (map sp_subtask_id specs)"
  shows "upsert_subtasks tid specs c kind d =
    (Inr (), d\<lparr>db_subtasks := filter (\<lambda>s. s_task_id s \<noteq> tid) (db_subtasks d) @
       map (\<lambda>s. spec_row tid s c kind (clock d)) specs\<rparr>)"
proof -
  let ?d = "d\<lparr>db_subtasks := filter (\<lambda>s. s_task_id s \<noteq> tid) (db_subtasks d)\<rparr>"
  let ?rows = "map (\<lambda>s. spec_row tid s c kind (clock d)) specs"
  have "distinct (map subtask_key ?rows)"
    using assms by (induction specs) (auto simp: subtask_key_def spec_row_def)
  moreover have "set (map subtask_key ?rows) \<inter> set (map subtask_key (db_subtasks ?d)) = {}"
    by (auto simp: subtask_key_def spec_row_def)
  ultimately have "insert_subtasks ?rows ?d = (Inr (), ?d\<lparr>db_subtasks := db_subtasks ?d @ ?rows\<rparr>)"
    by (rule insert_subtasks_ok)
  then show ?thesis by (simp add: upsert_subtasks_def tx_run py_bind_run py_then_run py_read_run py_modify_run)
qed

text \<open>
  C27: replanning keeps what is done. With distinct identifiers in the new plan, the rows of the task are exactly the
  subtasks of the plan in its order, all of one new planning cycle above every earlier one; a subtask is DONE when a
  subtask with its identifier was DONE before, and PENDING otherwise.
\<close>

theorem replan_keeps_done:
  assumes "distinct (map st_id (p_subtasks p))"
  shows "fst (store_replan tw existing p d) = Inr () \<and>
    map subtask_view (task_subtasks (tw_id tw) (snd (store_replan tw existing p d))) =
      map (\<lambda>s. (st_id s, if \<exists>r \<in> set existing. s_subtask_id r = st_id s \<and> s_state r = Sub_DONE then Sub_DONE else Sub_PENDING,
                replan_cycle existing)) (p_subtasks p) \<and>
    (\<forall>r \<in> set existing. s_planning_cycle r < replan_cycle existing)"
proof (intro conjI ballI)
  let ?d = "d\<lparr>db_subtasks := filter (\<lambda>s. s_task_id s \<noteq> tw_id tw) (db_subtasks d) @
     map (\<lambda>s. spec_row (tw_id tw) s (replan_cycle existing) ''replan'' (clock d)) (map initial_spec (p_subtasks p))\<rparr>"
  have "distinct (map sp_subtask_id (map initial_spec (p_subtasks p)))"
    using assms by (simp add: initial_spec_def comp_def)
  note ups = upsert_distinct [OF this, of "tw_id tw" "replan_cycle existing" "''replan''" d]
  obtain us d' where run: "py_for (carried_over existing p) (\<lambda>sid. update_subtask (tw_id tw) sid [SF_state Sub_DONE]) ?d = (Inr us, d')"
      "map subtask_view (task_subtasks (tw_id tw) d') =
         map (finish_in (set (carried_over existing p))) (map subtask_view (task_subtasks (tw_id tw) ?d))"
    using view_updates by blast
  then have res: "store_replan tw existing p d = (Inr (), d')"
    by (simp add: store_replan_def act_simps ups)
  then show "fst (store_replan tw existing p d) = Inr ()" by simp
  have "map subtask_view (task_subtasks (tw_id tw) ?d) = map (\<lambda>s. (st_id s, Sub_PENDING, replan_cycle existing)) (p_subtasks p)"
    by (simp add: task_subtasks_def spec_row_def initial_spec_def subtask_view_def get_default_def comp_def)
  then show "map subtask_view (task_subtasks (tw_id tw) (snd (store_replan tw existing p d))) =
      map (\<lambda>s. (st_id s, if \<exists>r \<in> set existing. s_subtask_id r = st_id s \<and> s_state r = Sub_DONE then Sub_DONE else Sub_PENDING,
                replan_cycle existing)) (p_subtasks p)"
    using run(2) by (auto simp: res finish_in_def carried_over_def comp_def image_iff)
  show "s_planning_cycle r < replan_cycle existing" if "r \<in> set existing" for r
  proof -
    have "(if s_planning_cycle r = 0 then 1 else s_planning_cycle r) \<le>
        Max (set (map (\<lambda>r. if s_planning_cycle r = 0 then 1 else s_planning_cycle r) existing))" (is "?c \<le> ?m")
      by (rule Max_ge) (use that in auto)
    moreover have "replan_cycle existing = ?m + 1" using that unfolding replan_cycle_def by (subst if_not_P) auto
    moreover have "s_planning_cycle r \<le> ?c" by simp
    ultimately show ?thesis by linarith
  qed
qed

section \<open>Concrete runs\<close>

definition demo_checks :: "check_run list" where
  "demo_checks = [\<lparr>c_conclusion = Some ''SUCCESS'', c_state = None, c_status = Some ''COMPLETED''\<rparr>]"

definition demo_life :: "string \<Rightarrow> life_env" where
  "demo_life st =
     \<lparr>le_view = (\<lambda>_ _ _. Some \<lparr>cp_returncode = 0, cp_stdout = [], cp_stderr = []\<rparr>),
      le_decode = (\<lambda>_. Some (empty_json\<lparr>j_state := Some st, j_rollup := Some demo_checks\<rparr>)),
      le_error = (\<lambda>_. OSError []), le_detect_ancestry = True\<rparr>"

definition demo_status :: "string \<Rightarrow> pr_status" where
  "demo_status st = status_of_json 0 (empty_json\<lparr>j_state := Some st, j_rollup := Some demo_checks\<rparr>)"

definition demo_pr_row :: "world \<Rightarrow> task_row" where
  "demo_pr_row w = the (find_task ''T1'' (wd_db w))"

definition demo_closed_world :: world where
  "demo_closed_world =
     demo_pr_world\<lparr>wd_handle := None, wd_db := snd (set_field ''T1'' [F_branch (Some ''b'')] (wd_db demo_pr_world))\<rparr>"

lemma demo_poll: "poll_pr (le_decode (demo_life st)) (le_view (demo_life st) k n) 0 = Some (demo_status st)"
proof -
  have "fst (run_with_backoff gh_classifier 3 2 (\<lambda>_. Some \<lparr>cp_returncode = 0, cp_stdout = [], cp_stderr = []\<rparr>)) =
      Some \<lparr>cp_returncode = 0, cp_stdout = [], cp_stderr = []\<rparr>"
    unfolding run_with_backoff_def by (subst backoff_loop.simps) (simp add: gh_classifier_def)
  then show ?thesis by (simp add: poll_pr_def pr_view_def demo_life_def demo_status_def)
qed

definition demo_row_ok :: "world \<Rightarrow> bool" where
  "demo_row_ok w \<longleftrightarrow>
     (case find_task ''T1'' (wd_db w) of
        None \<Rightarrow> False
      | Some r \<Rightarrow> t_state r = PENDING_CI \<and> or0 (t_needs_parent_rebase r) = 0 \<and> or0 (t_needs_intent_review r) = 0 \<and>
          or0 (t_pr_number r) = 0)"

lemma demo_quiet:
  assumes "demo_row_ok w"
  shows "quiet_poll demo_worker (demo_life st) w (demo_pr_row w) (demo_status st)"
proof -
  obtain r where r: "find_task ''T1'' (wd_db w) = Some r" "t_state r = PENDING_CI" "or0 (t_needs_parent_rebase r) = 0"
      "or0 (t_needs_intent_review r) = 0" "or0 (t_pr_number r) = 0"
    using assms by (auto simp: demo_row_ok_def split: option.splits)
  have "tw_meanwhile demo_worker k d = d" for k d by (simp add: demo_worker_def)
  then show ?thesis using r demo_poll by (simp add: quiet_poll_def demo_pr_row_def)
qed

lemma demo_rows_ok: "demo_row_ok demo_pr_world"
  by code_simp

lemma demo_closed_ok: "demo_row_ok demo_closed_world"
  by code_simp

theorem exhausted_budget_crashes_green_witness:
  "\<exists>w'. poll_pr_once demo_worker (demo_life ''OPEN'') 2 2 demo_pr_world =
     Some (Inl (RuntimeError ''exhausted PR triage budget''), w')"
proof -
  have "Github.pr_state (demo_status ''OPEN'') = ''OPEN''" "pr_mergeable (demo_status ''OPEN'') \<noteq> ''CONFLICTING''"
      "pr_checks_status (demo_status ''OPEN'') = ''success''"
    by code_simp+
  from exhausted_budget_crashes_green [OF demo_quiet [OF demo_rows_ok] this] show ?thesis by simp
qed

theorem closed_without_container_crashes_witness:
  "\<exists>w'. poll_pr_once demo_worker (demo_life ''CLOSED'') 1 2 demo_closed_world =
     Some (Inl (AssertionError ''_provision() must run before this method''), w')"
proof -
  have state: "Github.pr_state (demo_status ''CLOSED'') = ''CLOSED''" by code_simp
  have "opt_text (t_branch (demo_pr_row demo_closed_world)) \<noteq> []" by code_simp
  from closed_without_container_crashes [OF demo_quiet [OF demo_closed_ok] state _ _ this]
  show ?thesis by (simp add: demo_closed_world_def demo_life_def)
qed

text \<open>A response whose provisioning fails, because the row has no worktree.\<close>

lemma ci_fix_crashed:
  "provision tw False w = (Inl e, v) \<Longrightarrow>
   run_ci_fix_response tw st w = p_finally (response_crashed tw ''ci-fix'' e) (release_container tw) v"
  by (simp add: run_ci_fix_response_def p_finally_def p_catch_def ci_fix_body_def p_then_def p_bind_def p_act_def)

definition demo_failed_start :: "(py_error + unit) \<times> world" where
  "demo_failed_start = provision demo_worker False demo_pr_world"

definition demo_failed_fix :: "((py_error + worker_outcome) \<times> world) option" where
  "demo_failed_fix =
     p_finally (response_crashed demo_worker ''ci-fix'' (projl (fst demo_failed_start))) (release_container demo_worker)
       (snd demo_failed_start)"

definition demo_red :: pr_status where
  "demo_red = (demo_status ''OPEN'')\<lparr>pr_checks_status := ''failure''\<rparr>"

lemma demo_red_status: "pr_checks_status demo_red = ''failure''"
  by (simp add: demo_red_def)

lemma demo_failed: "isl (fst demo_failed_start)"
  by code_simp

lemma demo_fix_returns: "(case demo_failed_fix of Some (Inr oc, _) \<Rightarrow> wo_final_state oc = PENDING_CI | _ \<Rightarrow> False)"
  by code_simp

theorem ci_failure_goes_on_witness:
  "\<exists>w'. handle_polled_ci_failure demo_worker demo_red 0 2 demo_pr_world = Some (Inr (None, 1, True), w') \<and>
     wd_handle w' = None"
proof -
  have "provision demo_worker False demo_pr_world = (Inl (projl (fst demo_failed_start)), snd demo_failed_start)"
    using demo_failed by (simp add: demo_failed_start_def prod_eq_iff)
  from ci_fix_crashed [OF this, of demo_red] have fix_run: "run_ci_fix_response demo_worker demo_red demo_pr_world = demo_failed_fix"
    by (simp add: demo_failed_fix_def)
  obtain oc w' where res: "demo_failed_fix = Some (Inr oc, w')" "wo_final_state oc = PENDING_CI"
    using demo_fix_returns by (auto split: option.splits sum.splits prod.splits)
  have "run_ci_fix_response demo_worker demo_red demo_pr_world = Some (Inr oc, w')" by (rule trans [OF fix_run res(1)])
  then have "handle_polled_ci_failure demo_worker demo_red 0 2 demo_pr_world = Some (Inr (None, 1, True), w')"
    by (simp add: handle_polled_ci_failure_def p_bind_def p_return_def p_act_def act_simps res(2) demo_red_status)
  with ci_failure_goes_on [OF this] show ?thesis by auto
qed

text \<open>A worker without git: the run ends in a crash.\<close>

definition demo_no_git :: task_worker where
  "demo_no_git = demo_worker\<lparr>tw_host := (\<lambda>_ _. Inl (OSError ''git''))\<rparr>"

lemma run_returns:
  assumes "provision tw True w = (Inl e, v)"
  shows "\<exists>r w'. run_task tw le w = Some (r, w')"
proof -
  have "work tw le w = Some (Inl e, v)" using assms by (simp add: work_def p_then_def p_bind_def p_act_def)
  moreover obtain r u where "p_then (p_act (safe_crash_current tw (err_text e))) (p_return (outcome FAILED (err_text e))) v = Some (r, u)"
    by (cases "safe_crash_current tw (err_text e) v"; cases "fst (safe_crash_current tw (err_text e) v)")
      (auto simp: p_then_def p_bind_def p_act_def p_return_def act_simps)
  ultimately show ?thesis
    by (cases "teardown tw u"; cases "fst (teardown tw u)") (auto simp: run_task_def p_finally_def p_catch_def)
qed

lemma demo_no_git_start: "isl (fst (provision demo_no_git True (demo_world [])))"
  by code_simp


theorem replan_keeps_done_witness:
  "map subtask_view (task_subtasks ''T1'' (snd (store_replan demo_worker (list_subtasks ''T1'' (wd_db demo_done_world))
      demo_checked_plan (wd_db demo_done_world)))) = [(''S1'', Sub_DONE, 2)]"
proof -
  have "distinct (map st_id (p_subtasks demo_checked_plan))" by code_simp
  from replan_keeps_done [OF this, of demo_worker "list_subtasks ''T1'' (wd_db demo_done_world)" "wd_db demo_done_world"]
  have "map subtask_view (task_subtasks ''T1'' (snd (store_replan demo_worker (list_subtasks ''T1'' (wd_db demo_done_world))
      demo_checked_plan (wd_db demo_done_world)))) =
    map (\<lambda>s. (st_id s, if \<exists>r \<in> set (list_subtasks ''T1'' (wd_db demo_done_world)). s_subtask_id r = st_id s \<and> s_state r = Sub_DONE
              then Sub_DONE else Sub_PENDING, replan_cycle (list_subtasks ''T1'' (wd_db demo_done_world))))
      (p_subtasks demo_checked_plan)"
    by simp
  also have "\<dots> = [(''S1'', Sub_DONE, 2)]" by code_simp
  finally show ?thesis .
qed

end
