(* ===== verification/MergeWork.thy ===== *)
theory MergeWork
  imports TaskLife
begin

text \<open>
  The worker of a merge-node, \<^verbatim>\<open>workers/merge_node_worker.py\<close>, and the choice between the two kinds of worker in
  \<^verbatim>\<open>workers/factory.py\<close>. The parents' branches are merged at once, then one by one, and a conflict is handed to the
  merge planner, whose subtasks run in the loop of \<^verbatim>\<open>SubtaskLoop\<close>; the result is pushed and audited. The summaries
  and diffs of the parents only feed the prompt: of them the calls of \<^verbatim>\<open>git diff\<close> remain.
\<close>

section \<open>Standing up\<close>

definition merge_block :: "task_worker \<Rightarrow> string \<Rightarrow> string \<Rightarrow> worker_outcome option wact" where
  "merge_block tw short note = block_with tw note (Some (take 1000 note)) short"

definition worktree_registered :: "task_worker \<Rightarrow> string \<Rightarrow> bool wact" where
  "worktree_registered tw path =
     (if path = [] then py_return False
      else py_bind (path_exists tw path) (\<lambda>there.
        if \<not> there then py_return False
        else py_bind (list_worktrees tw) (\<lambda>listing. py_return (registered_worktree path listing))))"

definition merge_worktree_path :: "task_worker \<Rightarrow> string" where
  "merge_worktree_path tw =
     tw_resolve tw (wc_worktree_root (tw_cfg tw) @ ''/'' @
       map lower_char (map (\<lambda>c. if c = CHR ''/'' then CHR ''-'' else c) (tw_id tw)))"

definition provision_merge_node_worktree :: "task_worker \<Rightarrow> unit wact" where
  "provision_merge_node_worktree tw =
     py_bind (on_store (current_state (tw_id tw))) (\<lambda>s.
     py_then
       (if s = PENDING
        then py_then (on_store (start_task (tw_id tw) (Some ''merge-node provisioning worktree off base branch'') []))
               (py_return ())
        else py_return ())
     (py_bind (the_row tw) (\<lambda>row.
        if opt_text (t_branch row) = []
        then py_raise (RuntimeError (''merge-node '' @ tw_id tw @
               '' has no branch on row; create_merge_node should have stamped one''))
        else py_bind (worktree_registered tw (opt_text (t_worktree_path row))) (\<lambda>registered.
          if registered then py_return ()
          else
            let path = merge_worktree_path tw
            in py_then
                 (fetch_base tw [''git'', ''fetch'', wc_pr_remote (tw_cfg tw), wc_base_branch (tw_cfg tw)] [0, 1, 2])
               (py_then (add_worktree tw path (opt_text (t_branch row)))
                 (on_store (set_field (tw_id tw)
                   [F_branch (Some (opt_text (t_branch row))), F_worktree_path (Some path)])))))))"

section \<open>The seeded subtask\<close>

definition seeded_subtask :: "ident list \<Rightarrow> subtask_spec" where
  "seeded_subtask parents =
     \<lparr>sp_subtask_id = ''S-01-integrate'', sp_title = Some ''Integrate parents via octopus or sequential merge'',
      sp_depends_on = Some [], sp_files_to_touch = Some [], sp_boundary = Some ''git merge only; no semantic edits'',
      sp_acceptance = Some [''all parent branches merged into merge-node branch''],
      sp_notes = Some (''parents='' @ py_list parents), sp_kind = Some ''merge-integration'', sp_planning_cycle = None,
      sp_planning_kind = None\<rparr>"

definition enter_planning_and_seed_subtask :: "task_worker \<Rightarrow> ident list \<Rightarrow> string list \<Rightarrow> unit wact" where
  "enter_planning_and_seed_subtask tw parents branches =
     py_then (ready tw (Some ''merge-node provisioned; entering planning''))
     (py_then (on_store (upsert_subtasks (tw_id tw) [seeded_subtask parents] 1 ''merge''))
       (fsm_call tw enter_doing_subtask
          (Some (''merge-node integrating '' @ str_nat (length branches) @ '' parent(s)'')) []))"

section \<open>Merging\<close>

fun fetch_parent_branches :: "task_worker \<Rightarrow> string list \<Rightarrow> worker_outcome option wact" where
  "fetch_parent_branches tw [] = py_return None"
| "fetch_parent_branches tw (pb # pbs) =
     py_bind
       (exec_in tw (bash (''cd /workspace && git fetch '' @ wc_pr_remote (tw_cfg tw) @ '' '' @ pb)) (Some 120))
       (\<lambda>(rc, out, err).
         if rc \<noteq> 0
         then merge_block tw ''parent fetch failed''
                (''merge-node '' @ tw_id tw @ '': failed to fetch parent branch '' @ py_repr pb @ '': '' @
                 take 200 (out @ err))
         else fetch_parent_branches tw pbs)"

definition reset_to_base :: "task_worker \<Rightarrow> string \<Rightarrow> worker_outcome option wact" where
  "reset_to_base tw label =
     py_bind (git_in_workspace tw [''reset'', ''--hard'', base_ref tw]) (\<lambda>(rc, out).
       if rc \<noteq> 0
       then merge_block tw ''reset failed''
              (''merge-node '' @ label @ '' ('' @ wc_base_branch (tw_cfg tw) @ '') failed: '' @ take 200 out)
       else py_return None)"

definition fetch_and_reset :: "task_worker \<Rightarrow> string list \<Rightarrow> worker_outcome option wact" where
  "fetch_and_reset tw branches =
     py_bind (fetch_parent_branches tw branches) (\<lambda>oc. case oc of
       Some o1 \<Rightarrow> py_return (Some o1)
     | None \<Rightarrow> reset_to_base tw ''initial reset before merge'')"

definition merge_argv :: "string list \<Rightarrow> string list" where
  "merge_argv refs = [''-c'', ''core.editor=true'', ''merge'', ''--no-ff'', ''--no-edit''] @ refs"

definition try_octopus :: "task_worker \<Rightarrow> string list \<Rightarrow> bool wact" where
  "try_octopus tw branches =
     py_bind (git_in_workspace tw (merge_argv (map (remote_ref tw) branches))) (\<lambda>(rc, out). py_return (rc = 0))"

fun try_sequential :: "task_worker \<Rightarrow> (ident \<times> string) list \<Rightarrow> (bool \<times> ident option) wact" where
  "try_sequential tw [] = py_return (True, None)"
| "try_sequential tw ((pid, b) # rest) =
     py_bind (git_in_workspace tw (merge_argv [remote_ref tw b])) (\<lambda>(rc, out).
       if rc \<noteq> 0 then py_return (False, Some pid) else try_sequential tw rest)"

definition finish_integration_subtask :: "task_worker \<Rightarrow> string \<Rightarrow> worker_outcome option wact" where
  "finish_integration_subtask tw strategy =
     py_then (fsm_call tw enter_checking_subtask (Some (''deterministic merge ('' @ strategy @ '') complete'')) [])
     (py_then (fsm_call tw enter_committing (Some ''merge commit already on HEAD'') []) (py_return None))"

section \<open>The merge planner\<close>

definition build_parent_contexts :: "task_worker \<Rightarrow> (ident \<times> string) list \<Rightarrow> unit wact" where
  "build_parent_contexts tw parents =
     py_then
       (py_for parents (\<lambda>(pid, b).
          git_in_workspace tw [''diff'', base_ref tw @ ''...'' @ remote_ref tw b, ''--no-color'']))
       (py_return ())"

definition merge_plan_of :: "task_worker \<Rightarrow> agent_result \<Rightarrow> plan option" where
  "merge_plan_of tw r =
     (if ag_rc r \<noteq> 0 \<or> ag_parse_errors r \<noteq> [] then None
      else case ag_structured r of
             Some (S_merge q ctx) \<Rightarrow>
               (case wire_to_runtime_plan tw q (Some (wc_local_ci_command (tw_cfg tw))) of
                  Inl _ \<Rightarrow> None
                | Inr p \<Rightarrow> Some p)
           | _ \<Rightarrow> None)"

definition invoke_merge_planner :: "task_worker \<Rightarrow> (ident \<times> string) list \<Rightarrow> plan option wact" where
  "invoke_merge_planner tw parents =
     py_then (evaluation_contract tw)
     (py_then (build_parent_contexts tw parents)
     (py_bind (recorded_invoke tw ''merge_planner'' ''merge_planner'' None) (\<lambda>r.
      py_then
        (if answer_text tw r = [] then py_return ()
         else artifact tw ''merge_planner_output'' (answer_text tw r))
        (py_return (merge_plan_of tw r)))))"

definition merge_spec :: "subtask \<Rightarrow> subtask_spec" where
  "merge_spec s = (initial_spec s)\<lparr>sp_kind := Some ''merge-integration''\<rparr>"

definition adopt_merge_plan :: "task_worker \<Rightarrow> plan \<Rightarrow> unit wact" where
  "adopt_merge_plan tw p =
     py_then (on_store (upsert_subtasks (tw_id tw) (map merge_spec (p_subtasks p)) 1 ''merge''))
     (py_then (adopt_plan p)
       (keep_plan_text tw (pd_dump (tw_pydantic tw) (S_planner p))))"

definition run_merge_planner_subloop :: "task_worker \<Rightarrow> (ident \<times> string) list \<Rightarrow> worker_outcome option proc" where
  "run_merge_planner_subloop tw parents =
     p_bind (p_act (invoke_merge_planner tw parents)) (\<lambda>plan. case plan of
       None \<Rightarrow>
         p_act (merge_block tw ''merge-planner failed''
           (''merge-node '' @ tw_id tw @ '': merge-planner agent did not produce a '' @
            ''valid plan after sequential conflict; BLOCKing for operator review''))
     | Some p \<Rightarrow>
         p_then (p_act (adopt_merge_plan tw p))
         (p_bind (p_act (the_plan_order [])) (run_subtask_set tw)))"

section \<open>Integration\<close>

definition merge_octopus_or_sequential ::
  "task_worker \<Rightarrow> ident list \<Rightarrow> string list \<Rightarrow> worker_outcome option proc" where
  "merge_octopus_or_sequential tw parents branches =
     p_bind (p_act (try_octopus tw branches)) (\<lambda>clean.
       if clean then p_act (finish_integration_subtask tw ''octopus'')
       else
         p_then (p_act (git_in_workspace tw [''merge'', ''--abort'']))
         (p_bind (p_act (reset_to_base tw ''reset before sequential merge'')) (\<lambda>oc. case oc of
            Some o1 \<Rightarrow> p_return (Some o1)
          | None \<Rightarrow>
              p_bind (p_act (try_sequential tw (zip parents branches))) (\<lambda>(seq_clean, conflict).
                if seq_clean then p_act (finish_integration_subtask tw ''sequential'')
                else run_merge_planner_subloop tw (zip parents branches)))))"

definition integrate_parents :: "task_worker \<Rightarrow> worker_outcome option proc" where
  "integrate_parents tw =
     p_bind (p_act (store_read (get_parent_task_ids (tw_id tw)))) (\<lambda>parents.
     p_bind (p_act (store_read (get_parent_branches (tw_id tw)))) (\<lambda>branches.
       if branches = []
       then p_act (merge_block tw ''no parent branches''
              (''merge-node '' @ tw_id tw @ '' has no parent branches; '' @
               ''cannot integrate. BLOCKING for operator inspection.''))
       else
         p_then (p_act (enter_planning_and_seed_subtask tw parents branches))
         (p_bind (p_act (fetch_and_reset tw branches)) (\<lambda>oc. case oc of
            Some o1 \<Rightarrow> p_return (Some o1)
          | None \<Rightarrow> merge_octopus_or_sequential tw parents branches))))"

section \<open>Push and audit\<close>

definition push_merge_branch :: "task_worker \<Rightarrow> worker_outcome option wact" where
  "push_merge_branch tw =
     py_bind (on_store (current_state (tw_id tw))) (\<lambda>s.
     py_then (if s \<noteq> PUSHING then fsm_call tw enter_pushing None [] else py_return ())
     (py_bind (the_row tw) (\<lambda>row.
      py_bind
        (git_in_workspace tw
          [''push'', ''--force-with-lease'', ''-u'', wc_pr_remote (tw_cfg tw), str_col (t_branch row)])
        (\<lambda>(rc, out).
          if rc \<noteq> 0
          then (let note = ''merge-node force-push failed: '' @ take 200 out
                in block_with tw note (Some (take 1000 note)) ''merge-node push failed'')
          else py_return None))))"

definition run_audit_gauntlet :: "task_worker \<Rightarrow> worker_outcome option proc" where
  "run_audit_gauntlet tw =
     p_then
       (p_act (py_then
         (on_store (apply_event (tw_id tw) Ev_ALL_SUBTASKS_DONE
            (Some ''merge integration pushed; entering merge-node audit gauntlet'') []))
         (py_return ())))
       (run_pre_pr_pipeline tw True)"

section \<open>The whole life\<close>

definition merge_built :: "task_worker \<Rightarrow> worker_outcome wact" where
  "merge_built tw =
     py_then
       (on_store (merge_node_built (tw_id tw)
          (Some ''merge-node audit gauntlet passed; ready as integration base'') []))
       (py_return (outcome MERGE_NODE_READY ''merge-node integrated''))"

definition merge_work :: "task_worker \<Rightarrow> worker_outcome proc" where
  "merge_work tw =
     p_then (p_act (provision_merge_node_worktree tw))
     (p_then (p_act (py_bind (the_row tw) (\<lambda>row. provision_container tw (str_col (t_worktree_path row)))))
     (or_next (integrate_parents tw)
     (or_next (p_act (push_merge_branch tw))
     (or_next (run_audit_gauntlet tw) (p_act (merge_built tw))))))"

definition run_merge_node :: "task_worker \<Rightarrow> worker_outcome proc" where
  "run_merge_node tw =
     p_finally
       (p_catch (merge_work tw)
          (\<lambda>e. p_then (p_act (safe_crash_current tw (err_text e))) (p_return (outcome FAILED (err_text e)))))
       (teardown tw)"

text \<open>The node of a runtime task: its title and scope; it has no expected evidence.\<close>

definition synthesize_node_for_runtime_task :: "task_worker \<Rightarrow> db \<Rightarrow> task_worker" where
  "synthesize_node_for_runtime_task tw d =
     (let parents = (if find_task (tw_id tw) d = None then [] else get_parent_task_ids (tw_id tw) d)
      in tw\<lparr>tw_title := ''merge-node integrating '' @ join '','' parents, tw_scope := [], tw_evidence := []\<rparr>)"

definition task_kind_of :: "ident \<Rightarrow> db \<Rightarrow> task_kind" where
  "task_kind_of tid d = (case find_task tid d of None \<Rightarrow> Kind_SPEC | Some r \<Rightarrow> t_kind r)"

text \<open>A task given as a DAG node (\<open>in_dag\<close>) or by its identifier alone.\<close>

definition build_task_worker :: "task_worker \<Rightarrow> life_env \<Rightarrow> bool \<Rightarrow> db \<Rightarrow> worker_outcome proc" where
  "build_task_worker tw le in_dag d =
     (let tw' = (if in_dag then tw else synthesize_node_for_runtime_task tw d)
      in if task_kind_of (tw_id tw) d = Kind_MERGE then run_merge_node tw' else run_task tw' le)"

section \<open>Facts\<close>

lemma keeps_merge_block [keeps_intros]: "wkeeps store_ok (merge_block tw short note)"
  unfolding merge_block_def by (intro keeps_intros)

lemma keeps_fetch_parents [calls_keep]: "others_keep store_ok tw \<Longrightarrow> wkeeps store_ok (fetch_parent_branches tw bs)"
  by (induction bs) (auto intro!: keeps_intros calls_keep)

lemma keeps_try_sequential [calls_keep]: "others_keep P tw \<Longrightarrow> wkeeps P (try_sequential tw ps)"
  by (induction ps) (auto intro!: keeps_intros calls_keep)

lemma keeps_merge_steps [calls_keep]:
  assumes "others_keep store_ok tw"
  shows "wkeeps store_ok (provision_merge_node_worktree tw)" and "wkeeps store_ok (reset_to_base tw label)"
    and "wkeeps store_ok (try_octopus tw branches)" and "wkeeps store_ok (fetch_and_reset tw branches)"
    and "wkeeps store_ok (invoke_merge_planner tw parents)" and "wkeeps store_ok (push_merge_branch tw)"
proof -
  show reset: "wkeeps store_ok (reset_to_base tw label)" for label
    unfolding reset_to_base_def by (intro keeps_intros calls_keep assms)
  show "wkeeps store_ok (provision_merge_node_worktree tw)"
    unfolding provision_merge_node_worktree_def worktree_registered_def Let_def by (intro keeps_intros calls_keep assms)
  show "wkeeps store_ok (try_octopus tw branches)"
    unfolding try_octopus_def by (intro keeps_intros calls_keep assms)
  show "wkeeps store_ok (fetch_and_reset tw branches)"
    unfolding fetch_and_reset_def by (intro keeps_intros calls_keep reset assms)
  show "wkeeps store_ok (invoke_merge_planner tw parents)"
    unfolding invoke_merge_planner_def build_parent_contexts_def by (intro keeps_intros calls_keep assms)
  show "wkeeps store_ok (push_merge_branch tw)"
    unfolding push_merge_branch_def Let_def by (intro keeps_intros calls_keep assms)
qed

lemma keeps_merge_moves [keeps_intros]:
  "wkeeps store_ok (enter_planning_and_seed_subtask tw parents branches)"
  "wkeeps store_ok (finish_integration_subtask tw strategy)" "wkeeps store_ok (adopt_merge_plan tw p)"
  "wkeeps store_ok (merge_built tw)"
  unfolding enter_planning_and_seed_subtask_def finish_integration_subtask_def adopt_merge_plan_def keep_plan_text_def
    merge_built_def
  by (intro keeps_intros keeps_field_update; simp)+

lemma keeps_integrate [p_keeps_intros]: "others_keep store_ok tw \<Longrightarrow> wpkeeps store_ok (integrate_parents tw)"
  unfolding integrate_parents_def merge_octopus_or_sequential_def run_merge_planner_subloop_def
  by (intro p_keeps_intros keeps_intros calls_keep)

lemma keeps_merge_node: "others_keep store_ok tw \<Longrightarrow> wpkeeps store_ok (run_merge_node tw)"
  unfolding run_merge_node_def merge_work_def or_next_def run_audit_gauntlet_def run_pre_pr_pipeline_def
  by (intro p_keeps_intros keeps_intros calls_keep)

text \<open>
  Both kinds of worker keep the store consistent. Whatever the outside answers, also when it raises, every complete
  life of a worker, of a spec task or of a merge-node, leaves a store whose rows, keys and transition log are consistent.
\<close>

theorem any_worker_keeps_store:
  assumes "others_keep store_ok tw" and "store_ok (wd_db w)" and "build_task_worker tw le in_dag d w = Some (r, w')"
  shows "store_ok (wd_db w')"
proof -
  let ?tw = "if in_dag then tw else synthesize_node_for_runtime_task tw d"
  have others: "others_keep store_ok ?tw"
    using assms(1) by (simp add: others_keep_def synthesize_node_for_runtime_task_def Let_def)
  have "wpkeeps store_ok (build_task_worker tw le in_dag d)"
    unfolding build_task_worker_def Let_def using keeps_merge_node [OF others] keeps_run_task [OF others] by simp
  from p_keepsD [OF this assms(2,3)] show ?thesis .
qed

section \<open>The audit of a merge-node\<close>

text \<open>All five stages ran and the first four passed.\<close>

fun fully_audited :: "stage_outcome list \<Rightarrow> bool" where
  "fully_audited [lc, r, s, a, b] \<longleftrightarrow> so_passed lc \<and> so_passed r \<and> so_passed s \<and> so_passed a"
| "fully_audited _ \<longleftrightarrow> False"

lemma leads_merge_audit:
  assumes "others_leave tw"
  shows "leads (tw_id tw) LOCAL_CI_CHECKING (\<lambda>st t. t = AUDIT_BEHAVIOR \<longleftrightarrow> fully_audited st)
    (execute_audit_stages tw cycle True resume)"
  unfolding execute_audit_stages_def not_True_eq_False simp_thms
proof (rule leads_bind [OF leads_run_or_reuse [OF assms]], rule leads_then)
  fix lc :: stage_outcome and t assume "so_name lc = Stage_local_ci \<and> t = LOCAL_CI_CHECKING"
  then show "leads (tw_id tw) t
      (\<lambda>_ t. so_name lc = Stage_local_ci \<and> t = (if so_passed lc then AUDIT_LOCAL_CI else LOCAL_CI_CHECKING))
      (if so_passed lc then fsm_call tw (\<lambda>tid. enter_audit_local_ci tid None)
         (Some (''audit cycle '' @ str_int cycle @ '': local_ci passed'')) [] else py_return ())"
    by (elim conjE, hypsubst, intro leads_weaken [OF leads_local_ci]) simp
next
  fix lc :: stage_outcome and u :: unit and t
  assume t: "so_name lc = Stage_local_ci \<and> t = (if so_passed lc then AUDIT_LOCAL_CI else LOCAL_CI_CHECKING)"
  let ?R = "\<lambda>ms t. (\<exists>r s a. ms = [r, s, a] \<and> (t = AUDIT_BEHAVIOR \<longleftrightarrow> fully_audited [lc, r, s, a, lc])) \<or>
    ms = [] \<and> t \<noteq> AUDIT_BEHAVIOR"
  have some: "leads (tw_id tw) t ?R (middle_stages tw cycle resume lc)"
    unfolding conjunct2 [OF t] by (rule leads_weaken [OF leads_middle [OF assms]]) (auto split: if_splits)
  have none: "leads (tw_id tw) t ?R (py_then (advance_to tw cycle Stage_behavior lc) (py_return []))"
    by (rule leads_then, rule leads_advance, simp, rule leads_return)
      (use t in \<open>auto simp: stage_before_def stage_state_def split: if_splits\<close>)
  have middle: "leads (tw_id tw) t ?R (if integration then middle_stages tw cycle resume lc
      else py_then (advance_to tw cycle Stage_behavior lc) (py_return []))" for integration
    using some none by simp
  show "leads (tw_id tw) t (\<lambda>st t. t = AUDIT_BEHAVIOR \<longleftrightarrow> fully_audited st)
      (py_bind (store_read (merge_integration_subtasks_present tw)) (\<lambda>integration.
       py_bind (if integration then middle_stages tw cycle resume lc
         else py_then (advance_to tw cycle Stage_behavior lc) (py_return [])) (\<lambda>middle.
       py_bind (store_read (behavior_audit_expected_evidence tw True)) (\<lambda>evs.
       py_bind (run_or_reuse tw (tw_built_contract tw) evs cycle resume Stage_behavior) (\<lambda>behavior.
         py_return ([lc] @ middle @ [behavior]))))))"
    by (rule leads_bind, rule leads_read, hypsubst, rule leads_bind, rule middle,
        rule leads_bind, rule leads_read, hypsubst, rule leads_bind, rule leads_run_or_reuse [OF assms], rule leads_return)
      auto
qed


section \<open>One parent after the other\<close>

definition merge_call :: "task_worker \<Rightarrow> string \<Rightarrow> call" where
  "merge_call tw b = Exec (bash (''cd /workspace && git '' @ join '' '' (merge_argv [remote_ref tw b]))) (Some 300)"

lemma git_calls:
  assumes "git_in_workspace tw args w = (Inr r, w')"
  shows "wd_calls w' = Exec (bash (''cd /workspace && git '' @ join '' '' args)) (Some 300) # wd_calls w"
proof -
  define argv where "argv = bash (''cd /workspace && git '' @ join '' '' args)"
  show ?thesis
    using assms unfolding git_in_workspace_def argv_def [symmetric]
    by (auto simp: exec_in_def the_handle_def act_simps outside_def Let_def split: option.splits prod.splits sum.splits)
qed

text \<open>
  The sequential merge gives up at the first conflict. When it reports a conflict, that is with one of the parents,
  the parents before it were merged in order, and no merge of a later one was tried: the worktree that the merge planner
  gets lacks their work.
\<close>

theorem later_parents_unmerged:
  assumes "try_sequential tw parents w = (Inr (False, conflict), w')"
  shows "\<exists>i < length parents. conflict = Some (fst (parents ! i)) \<and>
    wd_calls w' = rev (map (merge_call tw) (map snd (take (Suc i) parents))) @ wd_calls w"
  using assms
proof (induction parents arbitrary: w)
  case Nil
  then show ?case by (simp add: act_simps)
next
  case (Cons p rest)
  obtain pid b where p: "p = (pid, b)" by fastforce
  obtain rc out v where git: "git_in_workspace tw (merge_argv [remote_ref tw b]) w = (Inr (rc, out), v)"
    using Cons.prems by (auto simp: p act_simps split: prod.splits sum.splits)
  note call = git_calls [OF git, folded merge_call_def]
  show ?case
  proof (cases "rc = 0")
    case True
    then have "try_sequential tw rest v = (Inr (False, conflict), w')" using Cons.prems git by (simp add: p act_simps)
    from Cons.IH [OF this] obtain i where "i < length rest" "conflict = Some (fst (rest ! i))"
        "wd_calls w' = rev (map (merge_call tw) (map snd (take (Suc i) rest))) @ wd_calls v" by blast
    with call show ?thesis by (intro exI [of _ "Suc i"]) (simp add: p)
  next
    case False
    with Cons.prems git call show ?thesis by (intro exI [of _ 0]) (auto simp: p act_simps)
  qed
qed

section \<open>A merge without conflicts\<close>

text \<open>A returning action, with what holds before and after.\<close>

definition turns :: "(world \<Rightarrow> bool) \<Rightarrow> 'a wact \<Rightarrow> 'a \<Rightarrow> (world \<Rightarrow> bool) \<Rightarrow> bool" where
  "turns P m a Q \<longleftrightarrow> (\<forall>w. P w \<longrightarrow> (\<exists>w'. m w = (Inr a, w') \<and> Q w'))"

lemma turnsD: "turns P m a Q \<Longrightarrow> P w \<Longrightarrow> \<exists>w'. m w = (Inr a, w') \<and> Q w'"
  by (simp add: turns_def)

lemma turns_return: "turns P (py_return a) a P"
  by (simp add: turns_def act_simps)

lemma turns_bind: "turns P m a R \<Longrightarrow> turns R (f a) b Q \<Longrightarrow> turns P (py_bind m f) b Q"
  unfolding turns_def act_simps by fastforce

lemma turns_then: "turns P m a R \<Longrightarrow> turns R k b Q \<Longrightarrow> turns P (py_then m k) b Q"
  unfolding py_then_def by (rule turns_bind)

text \<open>The task with its container, in a state, with the identifiers and kinds of its subtasks and the commands run.\<close>

definition subtask_kinds :: "ident \<Rightarrow> db \<Rightarrow> (string \<times> string) list" where
  "subtask_kinds tid d = map (\<lambda>r. (s_subtask_id r, s_kind r)) (task_subtasks tid d)"

definition standing :: "task_worker \<Rightarrow> state \<Rightarrow> (string \<times> string) list \<Rightarrow> call list \<Rightarrow> world \<Rightarrow> bool" where
  "standing tw s kinds calls w \<longleftrightarrow>
     select_state (tw_id tw) (wd_db w) = Some s \<and> subtask_kinds (tw_id tw) (wd_db w) = kinds \<and> wd_calls w = calls \<and>
     wd_handle w \<noteq> None"

text \<open>Every command succeeds, and other threads leave the task and its subtasks alone.\<close>

definition smooth :: "task_worker \<Rightarrow> bool" where
  "smooth tw \<longleftrightarrow>
     others_leave tw \<and> (\<forall>c. others_keep (\<lambda>d. subtask_kinds (tw_id tw) d = c) tw) \<and>
     (\<forall>n argv. \<exists>out err. tw_exec tw n argv = Inr (0, out, err))"

lemma kinds_transition:
  assumes "select_state tid d = Some s"
  shows "subtask_kinds tid (snd (transition tid t n kw d)) = subtask_kinds tid d"
  by (simp add: transition_run [OF assms] Let_def moved_db_def subtask_kinds_def task_subtasks_def)

lemma turns_store:
  assumes "\<And>d. select_state (tw_id tw) d = Some s \<Longrightarrow> subtask_kinds (tw_id tw) d = k \<Longrightarrow>
      \<exists>d'. m d = (Inr a, d') \<and> select_state (tw_id tw) d' = Some t \<and> subtask_kinds (tw_id tw) d' = k'"
  shows "turns (standing tw s k c) (on_store m) a (standing tw t k' c)"
  unfolding turns_def
proof (intro allI impI)
  fix w assume w: "standing tw s k c w"
  then obtain d' where "m (wd_db w) = (Inr a, d')" "select_state (tw_id tw) d' = Some t" "subtask_kinds (tw_id tw) d' = k'"
    using assms unfolding standing_def by blast
  then show "\<exists>w'. on_store m w = (Inr a, w') \<and> standing tw t k' c w'"
    using w by (simp add: on_store_def standing_def)
qed

lemma turns_event:
  assumes "target_of s ev = Some t"
  shows "turns (standing tw s k c) (on_store (apply_event (tw_id tw) ev n [])) t (standing tw t k c)"
  by (rule turns_store) (use assms in \<open>simp add: apply_event_run select_state_transition kinds_transition\<close>)

lemma turns_fsm_call:
  assumes "h = dispatch stay ev_of" and "\<not> stay s" and "ev_of s = Some ev" and "target_of s ev = Some t"
  shows "turns (standing tw s k c) (fsm_call tw h n []) () (standing tw t k c)"
  unfolding fsm_call_def
proof (rule turns_then [OF turns_store turns_return])
  fix d assume "select_state (tw_id tw) d = Some s" and "subtask_kinds (tw_id tw) d = k"
  then show "\<exists>d'. h (tw_id tw) n [] d = (Inr (Some t), d') \<and> select_state (tw_id tw) d' = Some t \<and>
      subtask_kinds (tw_id tw) d' = k"
    using assms by (simp add: dispatch_def act_simps current_state_run fire_run select_state_transition kinds_transition)
qed

lemma turns_exec:
  assumes "smooth tw"
  shows "\<exists>out err. turns (standing tw s k c) (exec_in tw argv t) (0, out, err) (standing tw s k (Exec argv t # c))"
proof -
  obtain out err where run: "tw_exec tw (length c) argv = Inr (0, out, err)" using assms unfolding smooth_def by blast
  have meanwhile: "select_state (tw_id tw) (tw_meanwhile tw n d) = Some s"
      if "select_state (tw_id tw) d = Some s" for n d
    using assms that unfolding smooth_def others_leave_def others_keep_def by blast
  have kinds: "subtask_kinds (tw_id tw) (tw_meanwhile tw n d) = k" if "subtask_kinds (tw_id tw) d = k" for n d
    using assms that unfolding smooth_def others_keep_def by blast
  have "turns (standing tw s k c) (exec_in tw argv t) (0, out, err) (standing tw s k (Exec argv t # c))"
    unfolding turns_def using run
    by (auto simp: standing_def exec_in_def the_handle_def act_simps outside_def Let_def meanwhile kinds)
  then show ?thesis by blast
qed

definition git_call :: "string list \<Rightarrow> call" where
  "git_call args = Exec (bash (''cd /workspace && git '' @ join '' '' args)) (Some 300)"

lemma turns_git:
  assumes "smooth tw"
  shows "\<exists>out. turns (standing tw s k c) (git_in_workspace tw args) (0, out) (standing tw s k (git_call args # c))"
proof -
  obtain out err where run: "turns (standing tw s k c) (exec_in tw (bash (''cd /workspace && git '' @ join '' '' args)) (Some 300))
      (0, out, err) (standing tw s k (git_call args # c))"
    using turns_exec [OF assms] unfolding git_call_def by blast
  have "turns (standing tw s k c) (git_in_workspace tw args) (0, out @ err) (standing tw s k (git_call args # c))"
    unfolding git_in_workspace_def by (rule turns_bind [OF run]) (simp add: turns_return)
  then show ?thesis by blast
qed

definition fetch_call :: "task_worker \<Rightarrow> string \<Rightarrow> call" where
  "fetch_call tw b = Exec (bash (''cd /workspace && git fetch '' @ wc_pr_remote (tw_cfg tw) @ '' '' @ b)) (Some 120)"

lemma turns_fetch:
  assumes "smooth tw"
  shows "turns (standing tw s k c) (fetch_parent_branches tw bs) None (standing tw s k (rev (map (fetch_call tw) bs) @ c))"
proof (induction bs arbitrary: c)
  case Nil
  then show ?case by (simp add: turns_return)
next
  case (Cons b bs)
  obtain out err where run: "turns (standing tw s k c)
      (exec_in tw (bash (''cd /workspace && git fetch '' @ wc_pr_remote (tw_cfg tw) @ '' '' @ b)) (Some 120))
      (0, out, err) (standing tw s k (fetch_call tw b # c))"
    using turns_exec [OF assms] unfolding fetch_call_def by blast
  show ?case
    unfolding fetch_parent_branches.simps by (rule turns_bind [OF run]) (use Cons.IH [of "fetch_call tw b # c"] in simp)
qed

lemma doing_dispatch: "enter_doing_subtask = dispatch (\<lambda>s. s = DOING_SUBTASK)
    (\<lambda>s. map_of [(PLANNING, Ev_PLAN_VALID), (TRIAGING_SUBTASK, Ev_RETRY_SUBTASK),
       (FIXUP_PLANNING, Ev_FIXUP_PLAN_VALID), (PUSHING, Ev_MORE_SUBTASKS)] s)"
  by (auto simp: enter_doing_subtask_def same_body split: prod.splits sum.splits)

lemma checking_dispatch:
  "enter_checking_subtask = dispatch (\<lambda>s. s = CHECKING_SUBTASK) (only DOING_SUBTASK Ev_DOER_DONE)"
  by (auto simp: enter_checking_subtask_def same_body split: prod.splits sum.splits)

lemma committing_dispatch: "enter_committing = dispatch (\<lambda>s. False) (only CHECKING_SUBTASK Ev_SUBTASK_PASSED)"
  by (auto simp: enter_committing_def same_body split: prod.splits sum.splits)

lemma turns_seed:
  "turns (standing tw PROVISIONING k c) (enter_planning_and_seed_subtask tw parents branches) ()
     (standing tw DOING_SUBTASK [(''S-01-integrate'', ''merge-integration'')] c)"
proof -
  have edges: "target_of PROVISIONING Ev_ENVIRONMENT_READY = Some PLANNING"
      "target_of PLANNING Ev_PLAN_VALID = Some DOING_SUBTASK" by code_simp+
  have ready: "turns (standing tw PROVISIONING k c) (ready tw n) () (standing tw PLANNING k c)" for n
    unfolding ready_def environment_ready_def by (rule turns_then [OF turns_event [OF edges(1)] turns_return])
  have seed: "turns (standing tw PLANNING k c) (on_store (upsert_subtasks (tw_id tw) [seeded_subtask parents] 1 ''merge'')) ()
      (standing tw PLANNING [(''S-01-integrate'', ''merge-integration'')] c)"
    by (rule turns_store)
      (auto simp: upsert_distinct subtask_kinds_def task_subtasks_def spec_row_def seeded_subtask_def get_default_def
        select_state_def find_task_def)
  show ?thesis
    unfolding enter_planning_and_seed_subtask_def
    by (rule turns_then [OF ready turns_then [OF seed turns_fsm_call [OF doing_dispatch _ _ edges(2)]]]) simp_all
qed

lemma turns_finish:
  "turns (standing tw DOING_SUBTASK k c) (finish_integration_subtask tw strategy) None (standing tw COMMITTING k c)"
proof -
  have edges: "target_of DOING_SUBTASK Ev_DOER_DONE = Some CHECKING_SUBTASK"
      "target_of CHECKING_SUBTASK Ev_SUBTASK_PASSED = Some COMMITTING" by code_simp+
  show ?thesis
    unfolding finish_integration_subtask_def
    by (rule turns_then [OF turns_fsm_call [OF checking_dispatch _ _ edges(1)]
        turns_then [OF turns_fsm_call [OF committing_dispatch _ _ edges(2)] turns_return]]) (simp_all add: only_def)
qed

definition octopus_call :: "task_worker \<Rightarrow> string list \<Rightarrow> call" where
  "octopus_call tw branches = git_call (merge_argv (map (remote_ref tw) branches))"

text \<open>
  C32: parents without conflicts are merged in one commit, and the node always gets the full audit. When every command
  succeeds, a merge-node in PROVISIONING with parents ends its integration in COMMITTING without any agent call: each
  parent's branch was fetched, the worktree reset to the base branch, and all parents merged by one command. Its only
  subtask is the seeded one, of the kind that makes the audit run the rubric, standards and architecture stages, although
  no integration code was written.
\<close>

theorem clean_merge_commits:
  assumes "smooth tw" and "select_state (tw_id tw) (wd_db w) = Some PROVISIONING" and "wd_handle w \<noteq> None"
    and "get_parent_branches (tw_id tw) (wd_db w) = branches" and "branches \<noteq> []"
  shows "\<exists>w'. integrate_parents tw w = Some (Inr None, w') \<and>
    select_state (tw_id tw) (wd_db w') = Some COMMITTING \<and>
    subtask_kinds (tw_id tw) (wd_db w') = [(''S-01-integrate'', ''merge-integration'')] \<and>
    merge_integration_subtasks_present tw (wd_db w') \<and>
    wd_calls w' = octopus_call tw branches # git_call [''reset'', ''--hard'', base_ref tw] #
      rev (map (fetch_call tw) branches) @ wd_calls w"
proof -
  let ?k = "[(''S-01-integrate'', ''merge-integration'')]"
  let ?f = "rev (map (fetch_call tw) branches) @ wd_calls w"
  let ?r = "git_call [''reset'', ''--hard'', base_ref tw] # ?f"
  have start: "standing tw PROVISIONING (subtask_kinds (tw_id tw) (wd_db w)) (wd_calls w) w"
    using assms by (simp add: standing_def)
  obtain w1 where w1: "enter_planning_and_seed_subtask tw (get_parent_task_ids (tw_id tw) (wd_db w)) branches w = (Inr (), w1)"
      "standing tw DOING_SUBTASK ?k (wd_calls w) w1"
    using turnsD [OF turns_seed start] by blast
  obtain out where git: "turns (standing tw DOING_SUBTASK ?k ?f) (git_in_workspace tw [''reset'', ''--hard'', base_ref tw]) (0, out)
      (standing tw DOING_SUBTASK ?k ?r)"
    using turns_git [OF assms(1)] by blast
  have reset: "turns (standing tw DOING_SUBTASK ?k ?f) (reset_to_base tw label) None (standing tw DOING_SUBTASK ?k ?r)" for label
    unfolding reset_to_base_def by (rule turns_bind [OF git]) (simp add: turns_return)
  have prep: "turns (standing tw DOING_SUBTASK ?k (wd_calls w)) (fetch_and_reset tw branches) None (standing tw DOING_SUBTASK ?k ?r)"
    unfolding fetch_and_reset_def by (rule turns_bind [OF turns_fetch [OF assms(1)]]) (simp add: reset)
  obtain w2 where w2: "fetch_and_reset tw branches w1 = (Inr None, w2)" "standing tw DOING_SUBTASK ?k ?r w2"
    using turnsD [OF prep w1(2)] by blast
  obtain out' where merge: "turns (standing tw DOING_SUBTASK ?k ?r) (git_in_workspace tw (merge_argv (map (remote_ref tw) branches)))
      (0, out') (standing tw DOING_SUBTASK ?k (octopus_call tw branches # ?r))"
    using turns_git [OF assms(1)] unfolding octopus_call_def by blast
  have octopus: "turns (standing tw DOING_SUBTASK ?k ?r) (try_octopus tw branches) True
      (standing tw DOING_SUBTASK ?k (octopus_call tw branches # ?r))"
    unfolding try_octopus_def by (rule turns_bind [OF merge]) (simp add: turns_def act_simps)
  obtain w3 where w3: "try_octopus tw branches w2 = (Inr True, w3)"
      "standing tw DOING_SUBTASK ?k (octopus_call tw branches # ?r) w3"
    using turnsD [OF octopus w2(2)] by blast
  obtain w4 where w4: "finish_integration_subtask tw ''octopus'' w3 = (Inr None, w4)"
      "standing tw COMMITTING ?k (octopus_call tw branches # ?r) w4"
    using turnsD [OF turns_finish w3(2)] by blast
  have "integrate_parents tw w = Some (Inr None, w4)"
    using assms(4,5) w1(1) w2(1) w3(1) w4(1)
    by (simp add: integrate_parents_def merge_octopus_or_sequential_def p_bind_def p_then_def p_act_def store_read_def act_simps)
  moreover have "merge_integration_subtasks_present tw (wd_db w4)"
  proof -
    have "''merge-integration'' \<in> set (map snd (subtask_kinds (tw_id tw) (wd_db w4)))"
      using w4(2) by (simp add: standing_def)
    then show ?thesis
      by (auto simp: merge_integration_subtasks_present_def list_ex_iff list_subtasks_def subtask_kinds_def)
  qed
  ultimately show ?thesis using w4(2) unfolding standing_def by blast
qed

section \<open>Concrete runs\<close>

definition demo_parents_world :: world where
  "demo_parents_world =
     (let w = demo_world [Ev_START_TASK]
      in w\<lparr>wd_db := snd (set_parent_chain ''T1'' [''A'', ''B''] (Some [''a'', ''b'']) None (wd_db w))\<rparr>)"

lemma demo_smooth: "smooth demo_worker"
  by (simp add: smooth_def others_leave_def) (simp add: demo_worker_def)

lemma demo_parents: "select_state ''T1'' (wd_db demo_parents_world) = Some PROVISIONING \<and>
    get_parent_branches ''T1'' (wd_db demo_parents_world) = [''a'', ''b''] \<and> wd_handle demo_parents_world \<noteq> None"
  by code_simp

theorem clean_merge_commits_witness:
  "\<exists>w'. integrate_parents demo_worker demo_parents_world = Some (Inr None, w') \<and>
     select_state ''T1'' (wd_db w') = Some COMMITTING \<and> length (wd_calls w') = 4"
proof -
  have "wd_calls demo_parents_world = []" by code_simp
  with clean_merge_commits [OF demo_smooth, of demo_parents_world] demo_parents show ?thesis by fastforce
qed

text \<open>The third merge of three is refused.\<close>

definition demo_conflicting :: task_worker where
  "demo_conflicting = demo_worker\<lparr>tw_exec := (\<lambda>n _. Inr (if n = 1 then 1 else 0, [], []))\<rparr>"

lemma demo_conflict:
  "fst (try_sequential demo_conflicting [(''A'', ''a''), (''B'', ''b''), (''C'', ''c'')] (demo_world [Ev_START_TASK])) =
     Inr (False, Some ''B'')"
  by code_simp

theorem later_parents_unmerged_witness:
  "\<exists>w'. try_sequential demo_conflicting [(''A'', ''a''), (''B'', ''b''), (''C'', ''c'')] (demo_world [Ev_START_TASK]) =
       (Inr (False, Some ''B''), w') \<and> length (wd_calls w') < 3"
proof -
  obtain w' where run: "try_sequential demo_conflicting [(''A'', ''a''), (''B'', ''b''), (''C'', ''c'')] (demo_world [Ev_START_TASK]) =
      (Inr (False, Some ''B''), w')"
    using demo_conflict by (metis prod.collapse)
  obtain i where i: "i < length [(''A'', ''a''), (''B'', ''b''), (''C'', ''c'')]"
      "Some ''B'' = Some (fst ([(''A'', ''a''), (''B'', ''b''), (''C'', ''c'')] ! i))"
      "wd_calls w' = rev (map (merge_call demo_conflicting) (map snd (take (Suc i) [(''A'', ''a''), (''B'', ''b''), (''C'', ''c'')]))) @
         wd_calls (demo_world [Ev_START_TASK])"
    using later_parents_unmerged [OF run] by blast
  then have "i \<noteq> 2" by auto
  then have "length (wd_calls w') < 3" using i(1,3) by simp
  with run show ?thesis by blast
qed

definition demo_merge_gate :: world where
  "demo_merge_gate =
     (let w = demo_world to_gauntlet
      in w\<lparr>wd_contract := Some demo_contract,
           wd_db := snd (upsert_subtasks ''T1'' [seeded_subtask [''A'', ''B'']] 1 ''merge'' (wd_db w))\<rparr>)"

definition demo_passed :: audit_summary where
  "demo_passed =
     \<lparr>sum_cycle = 1, sum_ts = 7, sum_stages = map (\<lambda>n. \<lparr>as_name = n, as_passed = Some True, as_summary = ''ok''\<rparr>)
       [''local_ci'', ''rubric'', ''standards'', ''architecture'', ''behavior'']\<rparr>"

definition demo_merge_run :: "(py_error + stage_outcome list) \<times> world" where
  "demo_merge_run = execute_audit_stages demo_worker 1 True (Some demo_passed) demo_merge_gate"

lemma demo_merge_ran: "\<not> isl (fst demo_merge_run) \<and> fully_audited (projr (fst demo_merge_run))"
  by code_simp

lemma demo_merge_start: "select_state ''T1'' (wd_db demo_merge_gate) = Some LOCAL_CI_CHECKING"
  by code_simp


end
