(* ===== verification/Recovery.thy ===== *)
theory Recovery
  imports TaskLife
begin

text \<open>
  The commands with which an operator takes a task out of trouble: \<^verbatim>\<open>abort\<close>, \<^verbatim>\<open>retry\<close>, \<^verbatim>\<open>resume\<close>, \<^verbatim>\<open>reset-retries\<close>,
  \<^verbatim>\<open>rewind\<close>, \<^verbatim>\<open>replan-cycle\<close> and \<^verbatim>\<open>mark-merged\<close> of \<^verbatim>\<open>cli_lifecycle.py\<close>, \<^verbatim>\<open>cli_rewind.py\<close> and \<^verbatim>\<open>cli_replan_cycle.py\<close>, the
  sweep of \<^verbatim>\<open>cli_detect_merged.py\<close> and the recovery at the start of \<^verbatim>\<open>cli_core.py\<close>. A command ends with its exit code;
  what it prints is left out. \<open>rewind\<close> and \<open>replan-cycle\<close> write the state column themselves, so they are not among the
  store calls of \<open>Orchestrator\<close>.
\<close>

section \<open>Abort\<close>

definition workspace_containers :: "task_worker \<Rightarrow> string \<Rightarrow> string list wact" where
  "workspace_containers tw label =
     py_bind
       (host_run tw ([''docker'', ''ps'', ''-a'', ''--filter'', ''name=qk-'', ''--format'', ''{{.ID}}'' @ [CHR 0x09] @
          ''{{.Names}}'' @ [CHR 0x09] @ ''{{.Status}}'', ''--filter'', ''label='' @ label])) (\<lambda>(_, out, _).
       py_return (concat (map (\<lambda>l. case split_on (\<lambda>c. c = CHR 0x09) l of [_, nm, _] \<Rightarrow> [nm] | _ \<Rightarrow> [])
         (splitlines out))))"

definition container_prefix :: "ident \<Rightarrow> string" where
  "container_prefix tid = ''qk-'' @ slugify tid @ ''-''"

text \<open>The name of the container a task gets, with its random token.\<close>

definition container_name :: "ident \<Rightarrow> string \<Rightarrow> string" where
  "container_name tid token = ''qk-'' @ slugify tid @ ''-'' @ token @ ''-dev''"

definition with_reason :: "string \<Rightarrow> string option \<Rightarrow> string" where
  "with_reason base reason = (if opt_text reason = [] then base else base @ '': '' @ opt_text reason)"

definition abort :: "task_worker \<Rightarrow> string \<Rightarrow> string option \<Rightarrow> int wact" where
  "abort tw label reason =
     py_bind (store_read (find_task (tw_id tw))) (\<lambda>row. case row of
       None \<Rightarrow> py_return 1
     | Some _ \<Rightarrow>
         py_then (on_store (abort_pending (tw_id tw) (Some (with_reason ''aborted by user'' reason)) []))
         (py_bind (workspace_containers tw label) (\<lambda>names.
          py_then
            (py_for (filter (starts_with (container_prefix (tw_id tw))) names)
               (\<lambda>nm. host_run tw [''docker'', ''rm'', ''-f'', nm]))
            (py_return 0))))"

section \<open>Retry\<close>

definition discard_worktree :: "task_worker \<Rightarrow> task_row \<Rightarrow> unit wact" where
  "discard_worktree tw row =
     (let path = opt_text (t_worktree_path row); br = opt_text (t_branch row)
      in py_then
           (if path = [] then py_return ()
            else py_bind (path_exists tw path) (\<lambda>there. if there then remove_worktree tw path else py_return ()))
         (py_then
           (if br = [] then py_return ()
            else py_then (host_run tw [''git'', ''branch'', ''-D'', br]) (py_return ()))
           (py_then (host_run tw [''git'', ''worktree'', ''prune'']) (py_return ()))))"

definition cli_retry_fields :: "task_field list" where
  "cli_retry_fields =
     [F_ci_triage_retries (Some 0), F_last_error None, F_failure_reason None, F_branch None, F_worktree_path None,
      F_container_id None, F_pr_url None, F_pr_number None]"

definition retry_one :: "task_worker \<Rightarrow> task_row \<Rightarrow> bool \<Rightarrow> string option \<Rightarrow> unit wact" where
  "retry_one tw row keep_worktree reason =
     py_then (if keep_worktree then py_return () else discard_worktree tw row)
     (py_then
       (on_store (retry_task (tw_id tw) (Some (with_reason ''manual retry'' reason)) cli_retry_fields))
       (py_return ()))"

definition non_merged_retry_states :: "state list" where
  "non_merged_retry_states = [BLOCKED, FAILED, ABORTED]"

definition retry_all_non_merged :: "task_worker \<Rightarrow> bool \<Rightarrow> string option \<Rightarrow> unit wact" where
  "retry_all_non_merged tw keep_worktree reason =
     py_bind (store_read all_tasks) (\<lambda>rows.
     py_then
       (py_for (filter (\<lambda>r. t_state r \<in> set non_merged_retry_states) rows)
          (\<lambda>r. retry_one (tw\<lparr>tw_id := t_id r\<rparr>) r keep_worktree
             (Some (or_else (opt_text reason) ''bulk retry: --all-non-merged''))))
       (py_return ()))"

text \<open>The command: \<open>target\<close> is the task given on the command line.\<close>

definition retry :: "task_worker \<Rightarrow> ident option \<Rightarrow> bool \<Rightarrow> string option \<Rightarrow> bool \<Rightarrow> int wact" where
  "retry tw target keep_worktree reason all_non_merged =
     (if all_non_merged
      then if opt_text target \<noteq> [] then py_return 2
           else py_then (retry_all_non_merged tw keep_worktree reason) (py_return 0)
      else if opt_text target = [] then py_return 2
      else py_bind (store_read (find_task (opt_text target))) (\<lambda>row. case row of
        None \<Rightarrow> py_return 1
      | Some r \<Rightarrow> py_then (retry_one (tw\<lparr>tw_id := t_id r\<rparr>) r keep_worktree reason) (py_return 0)))"

section \<open>Resume\<close>

definition forgive_fields :: "subtask_field list" where
  "forgive_fields =
     [SF_retry_reasons None, SF_retries (Some 0), SF_transient_retries (Some 0), SF_flatline_count (Some 0),
      SF_progress_check_count (Some 0)]"

definition cli_resume_fields :: "task_field list" where
  "cli_resume_fields =
     [F_ci_triage_retries (Some 0), F_last_error None, F_failure_reason None, F_container_id None,
      F_resume_from_existing_subtasks (Some 1)]"

definition repend_subtasks :: "ident \<Rightarrow> subtask_row list \<Rightarrow> unit store_act" where
  "repend_subtasks tid subs =
     py_then
       (py_for (map s_subtask_id (filter (\<lambda>s. s_state s \<noteq> Sub_DONE) subs))
          (\<lambda>sid. update_subtask tid sid [SF_state Sub_PENDING]))
     (py_then
       (py_for (map s_subtask_id (filter (\<lambda>s. s_state s = Sub_BLOCKED) subs))
          (\<lambda>sid. update_subtask tid sid forgive_fields))
       (py_return ()))"

definition resume_note :: "string option \<Rightarrow> string" where
  "resume_note reason = with_reason (''manual resume '' @ em_dash @ '' keep worktree + plan'') reason"

definition resume :: "ident \<Rightarrow> string option \<Rightarrow> int store_act" where
  "resume tid reason =
     py_bind (py_read (find_task tid)) (\<lambda>row. case row of
       None \<Rightarrow> py_return 1
     | Some r \<Rightarrow>
         if opt_text (t_plan_text r) = [] then py_return 1
         else py_bind (py_read (list_subtasks tid)) (\<lambda>subs.
           if subs = [] then py_return 1
           else
             py_then
               (resume_task tid (Some (resume_note reason)) cli_resume_fields)
             (py_then (repend_subtasks tid subs) (py_return 0))))"

definition reset_subtask_retries :: "ident \<Rightarrow> subtask_row \<Rightarrow> unit store_act" where
  "reset_subtask_retries tid s =
     update_subtask tid (s_subtask_id s)
       [SF_retries (Some 0), SF_transient_retries (Some 0), SF_flatline_count (Some 0), SF_retry_reasons None,
        SF_progress_check_count (Some 0), SF_last_error None,
        SF_state (if s_state s = Sub_BLOCKED then Sub_PENDING else s_state s)]"

definition reset_retries :: "ident \<Rightarrow> string option \<Rightarrow> int store_act" where
  "reset_retries tid subtask_id =
     py_bind (py_read (find_task tid)) (\<lambda>row. case row of
       None \<Rightarrow> py_return 1
     | Some r \<Rightarrow>
         if t_state r \<notin> {BLOCKED, FAILED} then py_return 2
         else py_bind (py_read (list_subtasks tid)) (\<lambda>subs.
           let targets = (case subtask_id of
                  None \<Rightarrow> filter (\<lambda>s. s_state s = Sub_BLOCKED) subs
                | Some sid \<Rightarrow> filter (\<lambda>s. s_subtask_id s = sid) subs)
           in if targets = [] then py_return (case subtask_id of None \<Rightarrow> 0 | Some _ \<Rightarrow> 1)
              else py_then (py_for targets (reset_subtask_retries tid)) (py_return 0)))"

section \<open>Rewind and replan\<close>

text \<open>The checks the two commands share: the worktree and the branch of a task that is BLOCKED or FAILED.\<close>

definition recoverable :: "task_worker \<Rightarrow> (int + string \<times> string) wact" where
  "recoverable tw =
     py_bind (store_read (find_task (tw_id tw))) (\<lambda>row. case row of
       None \<Rightarrow> py_return (Inl 1)
     | Some r \<Rightarrow>
         let path = opt_text (t_worktree_path r); br = opt_text (t_branch r)
         in if t_state r \<notin> {BLOCKED, FAILED} \<or> path = [] then py_return (Inl 2)
            else py_bind (path_exists tw path) (\<lambda>there.
              py_return (if \<not> there \<or> br = [] then Inl 2 else Inr (path, br))))"

definition git_at :: "task_worker \<Rightarrow> string \<Rightarrow> string list \<Rightarrow> run_result wact" where
  "git_at tw path args = host_run tw ([''git'', ''-C'', path] @ args)"

text \<open>The commit before the given one, or HEAD when nothing was committed.\<close>

definition resolve_target_sha :: "task_worker \<Rightarrow> string \<Rightarrow> string \<Rightarrow> string option wact" where
  "resolve_target_sha tw path commit =
     py_bind (git_at tw path [''rev-parse'', if commit = [] then ''HEAD'' else commit @ ''~1'']) (\<lambda>(rc, out, _).
       py_return (if rc \<noteq> 0 then None else some_text (strip out)))"

definition stripped_commit :: "subtask_row \<Rightarrow> string" where
  "stripped_commit s = strip (opt_text (s_commit_sha s))"

text \<open>Where the worktree goes back to.\<close>

record recovery_point =
  rp_path :: string
  rp_branch :: string
  rp_sha :: string

text \<open>The reset and the push; \<open>False\<close> when the reset failed, a failed push is only reported.\<close>

definition reset_branch :: "task_worker \<Rightarrow> recovery_point \<Rightarrow> bool \<Rightarrow> bool wact" where
  "reset_branch tw rp keep_remote =
     py_bind (git_at tw (rp_path rp) [''reset'', ''--hard'', rp_sha rp]) (\<lambda>(rc, _, _).
       if rc \<noteq> 0 then py_return False
       else py_then
         (if keep_remote then py_return ()
          else py_then
            (git_at tw (rp_path rp) [''push'', ''--no-verify'', ''--force-with-lease'', ''origin'', rp_branch rp])
            (py_return ()))
         (py_return True))"

text \<open>\<^verbatim>\<open>set_field(task_id, state="pending", block_forensics=None, ...)\<close>: the state column is written like any other.\<close>

definition drop_to_pending :: "ident \<Rightarrow> task_field list \<Rightarrow> unit store_act" where
  "drop_to_pending tid kw =
     tx (update_task tid (\<lambda>r. set_task_fields kw (r\<lparr>t_state := PENDING, t_block_forensics := None\<rparr>)))"

definition recovery_fields :: "task_field list" where
  "recovery_fields =
     [F_last_error None, F_failure_reason None, F_container_id None, F_resume_from_existing_subtasks (Some 1)]"

text \<open>The named subtask and everything inserted after it.\<close>

definition rewind_set :: "string \<Rightarrow> subtask_row list \<Rightarrow> subtask_row list" where
  "rewind_set sid subs = dropWhile (\<lambda>s. s_subtask_id s \<noteq> sid) subs"

definition validate_rewind_inputs ::
  "task_worker \<Rightarrow> string \<Rightarrow> (int + recovery_point \<times> subtask_row list) wact" where
  "validate_rewind_inputs tw sid =
     py_bind (recoverable tw) (\<lambda>checked. case checked of
       Inl code \<Rightarrow> py_return (Inl code)
     | Inr (path, br) \<Rightarrow>
         py_bind (store_read (list_subtasks (tw_id tw))) (\<lambda>subs. case rewind_set sid subs of
           [] \<Rightarrow> py_return (Inl 1)
         | target # later \<Rightarrow>
             py_bind (resolve_target_sha tw path (stripped_commit target)) (\<lambda>sha. case sha of
               None \<Rightarrow> py_return (Inl 2)
             | Some s \<Rightarrow>
                 py_return (Inr (\<lparr>rp_path = path, rp_branch = br, rp_sha = s\<rparr>, target # later)))))"

definition apply_rewind :: "task_worker \<Rightarrow> recovery_point \<Rightarrow> subtask_row list \<Rightarrow> bool \<Rightarrow> int wact" where
  "apply_rewind tw rp to_reset keep_remote =
     py_bind (reset_branch tw rp keep_remote) (\<lambda>ok.
       if \<not> ok then py_return 3
       else
         py_then (on_store (py_for to_reset (\<lambda>s. reset_subtask_for_rewind (tw_id tw) (s_subtask_id s))))
         (py_then (on_store (set_field (tw_id tw) [F_pre_pr_audit_summary None]))
         (py_then (on_store (drop_to_pending (tw_id tw) recovery_fields)) (py_return 0))))"

definition rewind :: "task_worker \<Rightarrow> string \<Rightarrow> bool \<Rightarrow> bool \<Rightarrow> int wact" where
  "rewind tw sid keep_remote dry_run =
     py_bind (validate_rewind_inputs tw sid) (\<lambda>plan. case plan of
       Inl code \<Rightarrow> py_return code
     | Inr (rp, to_reset) \<Rightarrow> if dry_run then py_return 0 else apply_rewind tw rp to_reset keep_remote)"

text \<open>The commit of the first subtask of the cycle that has one.\<close>

definition first_commit :: "subtask_row list \<Rightarrow> string" where
  "first_commit subs =
     (case List.find (\<lambda>s. stripped_commit s \<noteq> []) subs of None \<Rightarrow> [] | Some s \<Rightarrow> stripped_commit s)"

definition validate_replan_cycle_inputs ::
  "task_worker \<Rightarrow> (int + recovery_point \<times> int \<times> string) wact" where
  "validate_replan_cycle_inputs tw =
     py_bind (recoverable tw) (\<lambda>checked. case checked of
       Inl code \<Rightarrow> py_return (Inl code)
     | Inr (path, br) \<Rightarrow>
         py_bind (store_read (latest_planning_cycle (tw_id tw))) (\<lambda>(cycle, kind). case kind of
           None \<Rightarrow> py_return (Inl 2)
         | Some k \<Rightarrow>
             if cycle \<le> 1 then py_return (Inl 2)
             else py_bind (store_read (subtasks_in_cycle (tw_id tw) cycle)) (\<lambda>subs.
               if subs = [] then py_return (Inl 2)
               else py_bind (resolve_target_sha tw path (first_commit subs)) (\<lambda>sha. case sha of
                 None \<Rightarrow> py_return (Inl 2)
               | Some s \<Rightarrow> py_return (Inr (\<lparr>rp_path = path, rp_branch = br, rp_sha = s\<rparr>, cycle, k))))))"

definition marker_blob :: "int \<Rightarrow> string \<Rightarrow> time \<Rightarrow> string" where
  "marker_blob cycle kind now =
     (let q = (\<lambda>s. [CHR 0x22] @ s @ [CHR 0x22])
      in ''{'' @ q ''cycle'' @ '': '' @ str_int cycle @ '', '' @ q ''kind'' @ '': '' @ q kind @ '', '' @ q ''ts'' @ '': '' @
         str_int now @ ''}'')"

definition apply_replan_cycle :: "task_worker \<Rightarrow> recovery_point \<Rightarrow> int \<Rightarrow> string \<Rightarrow> bool \<Rightarrow> int wact" where
  "apply_replan_cycle tw rp cycle kind keep_remote =
     py_bind (reset_branch tw rp keep_remote) (\<lambda>ok.
       if \<not> ok then py_return 3
       else
         py_then (on_store (delete_subtasks_in_cycle (tw_id tw) cycle))
         (py_bind (store_read clock) (\<lambda>now.
          py_then (on_store (set_field (tw_id tw) [F_pre_pr_audit_summary None]))
          (py_then
            (on_store (drop_to_pending (tw_id tw)
               (recovery_fields @ [F_replan_cycle_marker (Some (marker_blob cycle kind now))])))
            (py_return 0)))))"

definition replan_latest_cycle :: "task_worker \<Rightarrow> bool \<Rightarrow> bool \<Rightarrow> int wact" where
  "replan_latest_cycle tw keep_remote dry_run =
     py_bind (validate_replan_cycle_inputs tw) (\<lambda>plan. case plan of
       Inl code \<Rightarrow> py_return code
     | Inr (rp, cycle, kind) \<Rightarrow> if dry_run then py_return 0 else apply_replan_cycle tw rp cycle kind keep_remote)"

section \<open>Merged outside\<close>

definition mark_merged_tasks :: "ident list \<Rightarrow> unit store_act" where
  "mark_merged_tasks tids =
     py_then
       (py_for tids (\<lambda>tid. py_then (upsert_pending tid)
          (mark_merged tid (Some ''manually marked merged via mark-merged'') [])))
       (py_return ())"

definition host_run_git :: "task_worker \<Rightarrow> string \<Rightarrow> string list \<Rightarrow> (int \<times> string) wact" where
  "host_run_git tw repo args = py_bind (git_at tw repo args) (\<lambda>(rc, out, err). py_return (rc, out @ err))"

definition detect_merged_states :: "state list" where
  "detect_merged_states =
     [PROVISIONING, PLANNING, DOING_SUBTASK, CHECKING_SUBTASK, TRIAGING_SUBTASK, COMMITTING, PUSHING, LOCAL_CI_CHECKING,
      AUDIT_LOCAL_CI, AUDIT_RUBRIC, AUDIT_STANDARDS, AUDIT_ARCHITECTURE, AUDIT_BEHAVIOR, FIXUP_PLANNING, PR_OPENING,
      PENDING_CI, AWAITING_REVIEW, REBASING_TO_MAIN, CONFLICT_RESOLVING, BLOCKED, FAILED, ABORTED]"

definition check_task_ancestry :: "task_worker \<Rightarrow> string \<Rightarrow> task_row \<Rightarrow> ancestry_result wact" where
  "check_task_ancestry tw repo row =
     (if opt_text (t_branch row) = []
      then py_return \<lparr>an_is_ancestor = False, an_branch_tip = [], an_reason = ''task has no recorded branch''\<rparr>
      else branch_is_ancestor_of_main (host_run_git tw repo) (opt_text (t_branch row)) (base_ref tw) False
             (wc_pr_remote (tw_cfg tw)) (wc_base_branch (tw_cfg tw)))"

definition apply_merged :: "task_worker \<Rightarrow> task_row \<Rightarrow> ancestry_result \<Rightarrow> unit wact" where
  "apply_merged tw row r =
     py_catch
       (fsm_call (tw\<lparr>tw_id := t_id row\<rparr>) mark_merged
          (Some (''auto-merged via ancestry (qk detect-merged --apply): PR closed without GH merge, but '' @
             take 12 (an_branch_tip r) @ '' is reachable from '' @ base_ref tw @ '' (release-batch integration pattern)'')) [])
       (\<lambda>_. py_return ())"

definition detect_merged :: "task_worker \<Rightarrow> string \<Rightarrow> bool \<Rightarrow> bool \<Rightarrow> unit wact" where
  "detect_merged tw repo apply_it no_fetch =
     py_bind (store_read all_tasks) (\<lambda>rows.
       let targets = filter (\<lambda>r. t_state r \<in> set detect_merged_states) rows
       in if targets = [] then py_return ()
          else
            py_then
              (if no_fetch then py_return ()
               else py_then (host_run_git tw repo [''fetch'', wc_pr_remote (tw_cfg tw), wc_base_branch (tw_cfg tw)])
                      (py_return ()))
            (py_bind (py_for targets (\<lambda>r. py_bind (check_task_ancestry tw repo r) (\<lambda>a. py_return (r, a)))) (\<lambda>results.
              if \<not> apply_it then py_return ()
              else py_then (py_for (filter (\<lambda>(_, a). an_is_ancestor a) results) (\<lambda>(r, a). apply_merged tw r a))
                     (py_return ()))))"

section \<open>At the start of a run\<close>

definition recover_at_start :: "unit store_act" where
  "recover_at_start = py_then recover_orphan_tasks (py_then repair_stale_skipped_subtasks (py_return ()))"

definition retry_failed_tasks :: "ident set option \<Rightarrow> unit store_act" where
  "retry_failed_tasks scope =
     py_bind (py_read all_tasks) (\<lambda>rows.
     py_then
       (py_for
          (filter (\<lambda>r. t_state r \<in> {BLOCKED, FAILED, ABORTED} \<and>
             (case scope of None \<Rightarrow> True | Some ids \<Rightarrow> t_id r \<in> ids)) rows)
          (\<lambda>r. retry_task (t_id r) (Some ''auto retry-failed'') cli_resume_fields))
       (py_return ()))"

section \<open>Facts\<close>

text \<open>The operator works alone: no other process writes to the store during a command.\<close>

definition alone :: "task_worker \<Rightarrow> bool" where
  "alone tw \<longleftrightarrow> (\<forall>n d. tw_meanwhile tw n d = d)"

lemma alone_others: "alone tw \<Longrightarrow> others_keep P tw"
  by (simp add: alone_def others_keep_def)

lemma keeps_git_at [calls_keep]: "others_keep P tw \<Longrightarrow> wkeeps P (git_at tw path args)"
  unfolding git_at_def by (intro keeps_intros calls_keep)

lemma keeps_recovery_checks [calls_keep]:
  assumes "others_keep P tw"
  shows "wkeeps P (recoverable tw)" and "wkeeps P (resolve_target_sha tw path c)" and "wkeeps P (reset_branch tw rp keep)"
    and "wkeeps P (discard_worktree tw row)"
  unfolding recoverable_def resolve_target_sha_def reset_branch_def discard_worktree_def Let_def
  by (intro keeps_intros calls_keep assms)+

lemma keeps_validations [calls_keep]:
  assumes "others_keep P tw"
  shows "wkeeps P (validate_rewind_inputs tw sid)" and "wkeeps P (validate_replan_cycle_inputs tw)"
  unfolding validate_rewind_inputs_def validate_replan_cycle_inputs_def
  by (intro keeps_intros calls_keep assms | simp split: sum.splits prod.splits list.splits option.splits)+

lemma same_db:
  assumes "\<And>c. wkeeps (\<lambda>d. d = c) m" and "m w = (r, w')"
  shows "wd_db w' = wd_db w"
  using keepsD [OF assms(1) [of "wd_db w"], of w] assms(2) by simp

text \<open>Writes that leave the log and the states alone.\<close>

definition log_view :: "ident \<Rightarrow> db \<Rightarrow> state option \<times> log_row list" where
  "log_view tid d = (select_state tid d, task_log tid d)"

lemma log_view_subtasks [simp]: "log_view tid (d\<lparr>db_subtasks := ss\<rparr>) = log_view tid d"
  by (simp add: log_view_def select_state_def find_task_def task_log_def)

lemma keeps_subtask_writes:
  "keeps (\<lambda>d. log_view x d = c) (py_for subs (\<lambda>s. reset_subtask_for_rewind tid (s_subtask_id s)))"
  "keeps (\<lambda>d. log_view x d = c) (delete_subtasks_in_cycle tid n)"
  unfolding reset_subtask_for_rewind_def delete_subtasks_in_cycle_def update_subtask_act_def
  by (intro keeps_intros keeps_for keeps_modify; simp add: update_subtask_row_def)+

lemma recoverable_run:
  assumes "alone tw" and "recoverable tw w = (Inr (Inr x), v)"
  shows "wd_db v = wd_db w \<and> (\<exists>s. select_state (tw_id tw) (wd_db w) = Some s \<and> s \<in> {BLOCKED, FAILED})"
proof
  show "wd_db v = wd_db w"
    by (rule same_db [OF keeps_recovery_checks(1) [OF alone_others [OF assms(1)]] assms(2)])
  show "\<exists>s. select_state (tw_id tw) (wd_db w) = Some s \<and> s \<in> {BLOCKED, FAILED}"
    using assms(2)
    by (auto simp: recoverable_def store_read_def act_simps select_state_def Let_def split: option.splits if_splits)
qed

lemma rewind_inputs:
  assumes "alone tw" and "validate_rewind_inputs tw sid w = (Inr (Inr (rp, to_reset)), v)"
  shows "wd_db v = wd_db w \<and> to_reset = rewind_set sid (list_subtasks (tw_id tw) (wd_db w)) \<and> to_reset \<noteq> [] \<and>
    (\<exists>s. select_state (tw_id tw) (wd_db w) = Some s \<and> s \<in> {BLOCKED, FAILED})"
proof -
  obtain u x where u: "recoverable tw w = (Inr (Inr x), u)"
    using assms(2) by (auto simp: validate_rewind_inputs_def act_simps split: prod.splits sum.splits)
  note checked = recoverable_run [OF assms(1) u]
  have "to_reset = rewind_set sid (list_subtasks (tw_id tw) (wd_db u)) \<and> to_reset \<noteq> []"
    using assms(2) u
    by (auto simp: validate_rewind_inputs_def store_read_def act_simps split: prod.splits sum.splits list.splits option.splits)
  moreover have "wd_db v = wd_db w"
    by (rule same_db [OF keeps_validations(1) [OF alone_others [OF assms(1)]] assms(2)])
  ultimately show ?thesis using checked by metis
qed

lemma replan_inputs:
  assumes "alone tw" and "validate_replan_cycle_inputs tw w = (Inr (Inr (rp, cycle, kind)), v)"
  shows "wd_db v = wd_db w \<and> latest_planning_cycle (tw_id tw) (wd_db w) = (cycle, Some kind) \<and> 1 < cycle \<and>
    (\<exists>s. select_state (tw_id tw) (wd_db w) = Some s \<and> s \<in> {BLOCKED, FAILED})"
proof -
  obtain u x where u: "recoverable tw w = (Inr (Inr x), u)"
    using assms(2) by (auto simp: validate_replan_cycle_inputs_def act_simps split: prod.splits sum.splits)
  note checked = recoverable_run [OF assms(1) u]
  have "latest_planning_cycle (tw_id tw) (wd_db u) = (cycle, Some kind) \<and> 1 < cycle"
    using assms(2) u
    by (auto simp: validate_replan_cycle_inputs_def store_read_def act_simps split: prod.splits sum.splits option.splits if_splits)
  moreover have "wd_db v = wd_db w"
    by (rule same_db [OF keeps_validations(2) [OF alone_others [OF assms(1)]] assms(2)])
  ultimately show ?thesis using checked by simp
qed

definition rewound :: "time \<Rightarrow> subtask_row \<Rightarrow> subtask_row" where
  "rewound now s =
     s\<lparr>s_state := Sub_PENDING, s_retries := Some 0, s_transient_retries := Some 0, s_flatline_count := Some 0,
       s_triage_notes := None, s_last_error := None, s_commit_sha := None, s_retry_reasons := None,
       s_accepted_files := None, s_pre_commit_failures := Some 0, s_progress_check_count := Some 0,
       s_updated_at := Some now\<rparr>"

text \<open>The store after the resets: the rows with these identifiers are rewound.\<close>

definition rewound_rows :: "ident \<Rightarrow> string set \<Rightarrow> time \<Rightarrow> subtask_row list \<Rightarrow> subtask_row list" where
  "rewound_rows tid ids now rows =
     map (\<lambda>s. if s_task_id s = tid \<and> s_subtask_id s \<in> ids then rewound now s else s) rows"

definition rewound_db :: "ident \<Rightarrow> string set \<Rightarrow> db \<Rightarrow> db" where
  "rewound_db tid ids d = d\<lparr>db_subtasks := rewound_rows tid ids (clock d) (db_subtasks d)\<rparr>"

lemma rewound_again: "rewound_db tid B (rewound_db tid A d) = rewound_db tid (A \<union> B) d"
proof -
  have "rewound_rows tid B now (rewound_rows tid A now rows) = rewound_rows tid (A \<union> B) now rows" for now rows
    by (induction rows) (auto simp: rewound_rows_def rewound_def)
  then show ?thesis by (simp add: rewound_db_def)
qed

lemma reset_subtasks_run:
  "\<exists>us. py_for subs (\<lambda>s. reset_subtask_for_rewind tid (s_subtask_id s)) d = (Inr us, rewound_db tid (s_subtask_id ` set subs) d)"
proof (induction subs arbitrary: d)
  case Nil
  then show ?case by (simp add: act_simps rewound_db_def rewound_rows_def)
next
  case (Cons s subs)
  have "reset_subtask_for_rewind tid (s_subtask_id s) d = (Inr (), rewound_db tid {s_subtask_id s} d)"
    by (simp add: reset_subtask_for_rewind_def act_simps update_subtask_act_def update_subtask_row_def rewound_db_def rewound_rows_def rewound_def)
  with Cons.IH [of "rewound_db tid {s_subtask_id s} d"] show ?case by (auto simp: act_simps rewound_again)
qed

lemma drop_run:
  "drop_to_pending tid kw d =
     (Inr (), update_row tid (\<lambda>r. set_task_fields kw (r\<lparr>t_state := PENDING, t_block_forensics := None\<rparr>)) d)"
  by (simp add: drop_to_pending_def act_simps update_task_def)

lemma drop_view:
  assumes "select_state tid d = Some s"
  shows "log_view tid (snd (drop_to_pending tid kw d)) = (Some PENDING, task_log tid d)"
  using assms by (auto simp: drop_run log_view_def select_state_def find_task_update_row task_log_def)

lemma field_view: "log_view tid (snd (set_field x kw d)) = log_view tid d"
proof -
  have "keeps (\<lambda>d. log_view tid d = c) (set_field x kw)" for c
    unfolding set_field_def update_task_def
    by (intro keeps_intros keeps_modify) (simp add: log_view_def select_state_update_row task_log_def)
  from keepsD [OF this] show ?thesis by blast
qed

lemma rewind_run:
  assumes "alone tw" and "rewind tw sid keep False w = (Inr 0, w')"
  obtains s kw where "select_state (tw_id tw) (wd_db w) = Some s" and "s \<in> {BLOCKED, FAILED}"
    and "rewind_set sid (list_subtasks (tw_id tw) (wd_db w)) \<noteq> []"
    and "wd_db w' = snd (drop_to_pending (tw_id tw) recovery_fields (snd (set_field (tw_id tw) kw
        (rewound_db (tw_id tw) (s_subtask_id ` set (rewind_set sid (list_subtasks (tw_id tw) (wd_db w)))) (wd_db w)))))"
proof -
  obtain p v where v: "validate_rewind_inputs tw sid w = (Inr p, v)"
    using assms(2) by (auto simp: rewind_def act_simps split: prod.splits sum.splits)
  show thesis
  proof (cases p)
    case (Inl code)
    with assms(2) v have "code = 0" by (simp add: rewind_def act_simps)
    moreover have "code \<noteq> 0"
      using v Inl
      by (auto simp: validate_rewind_inputs_def recoverable_def store_read_def act_simps Let_def
          split: prod.splits sum.splits option.splits list.splits if_splits)
    ultimately show ?thesis by blast
  next
    case (Inr rps)
    obtain rp subs where rps: "rps = (rp, subs)" by fastforce
    note inputs = rewind_inputs [OF assms(1) v [unfolded Inr rps]]
    have "apply_rewind tw rp subs keep v = (Inr 0, w')" using assms(2) v by (simp add: rewind_def act_simps Inr rps)
    then obtain u where u: "reset_branch tw rp keep v = (Inr True, u)"
        "(py_then (on_store (py_for subs (\<lambda>s. reset_subtask_for_rewind (tw_id tw) (s_subtask_id s))))
         (py_then (on_store (set_field (tw_id tw) [F_pre_pr_audit_summary None]))
         (py_then (on_store (drop_to_pending (tw_id tw) recovery_fields)) (py_return 0)))) u = (Inr (0::int), w')"
      by (auto simp: apply_rewind_def act_simps split: prod.splits sum.splits if_splits)
    have db: "wd_db u = wd_db w"
      using same_db [OF keeps_recovery_checks(3) [OF alone_others [OF assms(1)]] u(1)] inputs by simp
    obtain us where us: "py_for subs (\<lambda>s. reset_subtask_for_rewind (tw_id tw) (s_subtask_id s)) (wd_db w) =
        (Inr us, rewound_db (tw_id tw) (s_subtask_id ` set subs) (wd_db w))"
      using reset_subtasks_run by blast
    have "wd_db w' = snd (drop_to_pending (tw_id tw) recovery_fields (snd (set_field (tw_id tw) [F_pre_pr_audit_summary None]
        (rewound_db (tw_id tw) (s_subtask_id ` set subs) (wd_db w)))))"
      using u(2) by (auto simp: act_simps on_store_def db us drop_run set_field_def split: prod.splits sum.splits)
    then show thesis using that inputs by blast
  qed
qed

lemma replan_run:
  assumes "alone tw" and "replan_latest_cycle tw keep False w = (Inr 0, w')"
  obtains s kw kw' cycle kind where "select_state (tw_id tw) (wd_db w) = Some s" and "s \<in> {BLOCKED, FAILED}"
    and "latest_planning_cycle (tw_id tw) (wd_db w) = (cycle, Some kind)" and "1 < cycle"
    and "wd_db w' = snd (drop_to_pending (tw_id tw) kw' (snd (set_field (tw_id tw) kw
        (snd (delete_subtasks_in_cycle (tw_id tw) cycle (wd_db w))))))"
proof -
  obtain p v where v: "validate_replan_cycle_inputs tw w = (Inr p, v)"
    using assms(2) by (auto simp: replan_latest_cycle_def act_simps split: prod.splits sum.splits)
  show thesis
  proof (cases p)
    case (Inl code)
    with assms(2) v have "code = 0" by (simp add: replan_latest_cycle_def act_simps)
    moreover have "code \<noteq> 0"
      using v Inl
      by (auto simp: validate_replan_cycle_inputs_def recoverable_def store_read_def act_simps Let_def
          split: prod.splits sum.splits option.splits if_splits)
    ultimately show ?thesis by blast
  next
    case (Inr rps)
    obtain rp cycle kind where rps: "rps = (rp, cycle, kind)" by (metis prod_cases3)
    note inputs = replan_inputs [OF assms(1) v [unfolded Inr rps]]
    have "apply_replan_cycle tw rp cycle kind keep v = (Inr 0, w')"
      using assms(2) v by (simp add: replan_latest_cycle_def act_simps Inr rps)
    then obtain u where u: "reset_branch tw rp keep v = (Inr True, u)"
        "(py_then (on_store (delete_subtasks_in_cycle (tw_id tw) cycle))
         (py_bind (store_read clock) (\<lambda>now.
          py_then (on_store (set_field (tw_id tw) [F_pre_pr_audit_summary None]))
          (py_then (on_store (drop_to_pending (tw_id tw)
               (recovery_fields @ [F_replan_cycle_marker (Some (marker_blob cycle kind now))])))
            (py_return 0))))) u = (Inr (0::int), w')"
      by (auto simp: apply_replan_cycle_def act_simps split: prod.splits sum.splits if_splits)
    have db: "wd_db u = wd_db w"
      using same_db [OF keeps_recovery_checks(3) [OF alone_others [OF assms(1)]] u(1)] inputs by simp
    have "wd_db w' = snd (drop_to_pending (tw_id tw)
        (recovery_fields @ [F_replan_cycle_marker (Some (marker_blob cycle kind (clock (wd_db w))))])
        (snd (set_field (tw_id tw) [F_pre_pr_audit_summary None]
          (snd (delete_subtasks_in_cycle (tw_id tw) cycle (wd_db w))))))"
      using u(2) by (auto simp: act_simps on_store_def store_read_def db drop_run set_field_def delete_subtasks_in_cycle_def
          split: prod.splits sum.splits)
    then show thesis using that inputs by blast
  qed
qed

section \<open>Properties\<close>

text \<open>
  C28: rewind and replan move the task behind the back of the log. When either command succeeds, the task is PENDING and
  its log is what it was, so the last entry still says BLOCKED or FAILED: the store, consistent before, no longer is one
  in which the history of each task is a chain of lawful transitions that ends in its state.
\<close>

theorem recovery_skips_the_log:
  assumes "alone tw" and "store_ok (wd_db w)"
    and "rewind tw sid keep False w = (Inr 0, w') \<or> replan_latest_cycle tw keep False w = (Inr 0, w')"
  shows "select_state (tw_id tw) (wd_db w') = Some PENDING \<and>
    task_log (tw_id tw) (wd_db w') = task_log (tw_id tw) (wd_db w) \<and> \<not> store_ok (wd_db w')"
proof -
  let ?t = "tw_id tw"
  obtain s d kw kw' where d: "select_state ?t (wd_db w) = Some s" "s \<in> {BLOCKED, FAILED}"
      "log_view ?t d = log_view ?t (wd_db w)" "wd_db w' = snd (drop_to_pending ?t kw' (snd (set_field ?t kw d)))"
    using assms(3)
  proof
    assume run: "rewind tw sid keep False w = (Inr 0, w')"
    show thesis by (rule rewind_run [OF assms(1) run], rule that) (simp_all add: rewound_db_def)
  next
    assume run: "replan_latest_cycle tw keep False w = (Inr 0, w')"
    show thesis by (rule replan_run [OF assms(1) run], rule that) (simp_all add: delete_subtasks_in_cycle_def act_simps)
  qed
  have "select_state ?t (snd (set_field ?t kw d)) = Some s"
    using d(1,3) field_view [of ?t ?t kw d] by (simp add: log_view_def)
  from drop_view [OF this, of kw'] have view: "select_state ?t (wd_db w') = Some PENDING"
      "task_log ?t (wd_db w') = task_log ?t (wd_db w)"
    using d(3,4) field_view [of ?t ?t kw d] by (simp_all add: log_view_def)
  have before: "history_ok (Some s) (task_log ?t (wd_db w))"
    using assms(2) d(1) by (simp add: store_ok_def) (metis d(1))
  have "\<not> history_ok (Some PENDING) (task_log ?t (wd_db w))"
    using before d(2) by (auto simp: history_ok_def)
  then have "\<not> store_ok (wd_db w')" using view unfolding store_ok_def by metis
  with view show ?thesis by blast
qed

lemma recovered_subtasks:
  "task_subtasks x (snd (drop_to_pending tid kw (snd (set_field tid kw' d)))) = task_subtasks x d"
proof -
  have "keeps (\<lambda>d. task_subtasks x d = c) (drop_to_pending tid kw)" and "keeps (\<lambda>d. task_subtasks x d = c) (set_field tid kw')" for c
    unfolding drop_to_pending_def set_field_def update_task_def
    by (intro keeps_intros keeps_modify; simp add: task_subtasks_def)+
  from keepsD [OF this(1)] keepsD [OF this(2)] show ?thesis by blast
qed

lemma task_subtasks_rewound: "task_subtasks tid (rewound_db tid ids d) = rewound_rows tid ids (clock d) (task_subtasks tid d)"
proof -
  have "filter (\<lambda>s. s_task_id s = tid) (rewound_rows tid ids now rows) =
      rewound_rows tid ids now (filter (\<lambda>s. s_task_id s = tid) rows)" for now rows
    by (induction rows) (auto simp: rewound_rows_def rewound_def)
  then show ?thesis by (simp add: task_subtasks_def rewound_db_def)
qed

lemma rewound_tail:
  assumes "distinct (map s_subtask_id (before @ rest))" and "\<forall>s \<in> set (before @ rest). s_task_id s = tid"
  shows "rewound_rows tid (s_subtask_id ` set rest) now (before @ rest) = before @ map (rewound now) rest"
  using assms by (auto simp: rewound_rows_def intro!: map_idI) (metis disjoint_iff imageI)

text \<open>
  C30: rewind resets the named subtask and everything after it, and nothing else. With distinct identifiers, the subtasks
  of the task split into those before the named one, which keep every column, and the rest, which are PENDING with no
  commit, no retries and no findings, in the same order.
\<close>

theorem rewind_scope:
  assumes "alone tw" and "distinct (map s_subtask_id (task_subtasks (tw_id tw) (wd_db w)))"
    and "rewind tw sid keep False w = (Inr 0, w')"
  shows "\<exists>before target later.
    task_subtasks (tw_id tw) (wd_db w) = before @ target # later \<and> s_subtask_id target = sid \<and>
    task_subtasks (tw_id tw) (wd_db w') = before @ map (rewound (clock (wd_db w))) (target # later)"
proof -
  let ?rows = "task_subtasks (tw_id tw) (wd_db w)"
  let ?before = "takeWhile (\<lambda>s. s_subtask_id s \<noteq> sid) ?rows"
  let ?rest = "rewind_set sid ?rows"
  obtain kw where kw: "?rest \<noteq> []"
      "wd_db w' = snd (drop_to_pending (tw_id tw) recovery_fields (snd (set_field (tw_id tw) kw
         (rewound_db (tw_id tw) (s_subtask_id ` set ?rest) (wd_db w)))))"
    by (rule rewind_run [OF assms(1,3)]) (auto simp: list_subtasks_def intro: that)
  have split: "?rows = ?before @ ?rest" by (simp add: rewind_set_def)
  obtain target later where rest: "?rest = target # later" using kw(1) by (cases ?rest) auto
  have target: "s_subtask_id target = sid" using rest unfolding rewind_set_def by (auto simp: dropWhile_eq_Cons_conv)
  have "\<forall>s \<in> set ?rows. s_task_id s = tw_id tw" by (simp add: task_subtasks_def)
  then have "rewound_rows (tw_id tw) (s_subtask_id ` set ?rest) now (?before @ ?rest) = ?before @ map (rewound now) ?rest" for now
    using assms(2) split by (intro rewound_tail) metis+
  then have "task_subtasks (tw_id tw) (wd_db w') = ?before @ map (rewound (clock (wd_db w))) ?rest"
    by (simp add: kw(2) recovered_subtasks task_subtasks_rewound split [symmetric])
  with split rest target show ?thesis by metis
qed

text \<open>
  Replanning removes exactly the latest cycle: the subtasks of the earlier cycles stay as they are, and every
  cycle that is left has a smaller number, so the next round of fixups gets the number again.
\<close>

theorem replan_scope:
  assumes "alone tw" and "replan_latest_cycle tw keep False w = (Inr 0, w')"
  shows "\<exists>cycle kind. latest_planning_cycle (tw_id tw) (wd_db w) = (cycle, Some kind) \<and> 1 < cycle \<and>
    task_subtasks (tw_id tw) (wd_db w') = filter (\<lambda>s. s_planning_cycle s < cycle) (task_subtasks (tw_id tw) (wd_db w))"
proof -
  let ?rows = "task_subtasks (tw_id tw) (wd_db w)"
  obtain kw kw' cycle kind where run: "latest_planning_cycle (tw_id tw) (wd_db w) = (cycle, Some kind)" "1 < cycle"
      "wd_db w' = snd (drop_to_pending (tw_id tw) kw' (snd (set_field (tw_id tw) kw
         (snd (delete_subtasks_in_cycle (tw_id tw) cycle (wd_db w))))))"
    by (rule replan_run [OF assms]) (rule that)
  have max: "max_option (map s_planning_cycle ?rows) = Some cycle"
    using run(1) by (auto simp: latest_planning_cycle_def split: option.splits)
  have "s_planning_cycle s \<le> cycle" if "s \<in> set ?rows" for s
    by (rule max_option_bound [OF max]) (use that in simp)
  then have "filter (\<lambda>s. s_planning_cycle s \<noteq> cycle) ?rows = filter (\<lambda>s. s_planning_cycle s < cycle) ?rows"
    by (intro filter_cong) (auto simp: less_le)
  moreover have "task_subtasks (tw_id tw) (wd_db w') = filter (\<lambda>s. s_planning_cycle s \<noteq> cycle) ?rows"
    unfolding run(3) recovered_subtasks
    by (auto simp: delete_subtasks_in_cycle_def act_simps task_subtasks_def intro!: filter_cong)
  ultimately show ?thesis using run(1,2) by metis
qed

section \<open>Retry\<close>

lemma retry_edges: "target_of s Ev_RETRY_TASK = (if s \<in> {BLOCKED, FAILED, ABORTED} then Some PENDING else None)"
  by (rule state_check [where P = "\<lambda>s. target_of s Ev_RETRY_TASK = (if s \<in> {BLOCKED, FAILED, ABORTED} then Some PENDING else None)"])
    code_simp

lemma retry_store:
  assumes "find_task tid d = Some r" and "t_state r \<in> {BLOCKED, FAILED, ABORTED}"
  shows "\<exists>t d'. retry_task tid n kw d = (Inr t, d') \<and>
    find_task tid d' = Some (set_task_fields kw (r\<lparr>t_state := PENDING\<rparr>)\<lparr>t_updated_at := clock d\<rparr>) \<and>
    task_subtasks tid d' = task_subtasks tid d"
proof -
  have st: "select_state tid d = Some (t_state r)" using assms(1) by (simp add: select_state_def)
  show ?thesis
    using assms
    by (auto simp: retry_task_def apply_event_run [OF st] retry_edges transition_run [OF st] moved_db_def find_task_update_row
        task_subtasks_def find_task_def [where d = "_\<lparr>db_log := _\<rparr>"] simp flip: find_task_def)
qed


lemma host_run_calls: "host_run tw argv w = (r, w') \<Longrightarrow> wd_calls w' = Host argv # wd_calls w"
  by (auto simp: host_run_def outside_def Let_def)

lemma discards_branch:
  assumes "discard_worktree tw row w = (Inr (), u)" and "opt_text (t_branch row) \<noteq> []"
  shows "Host [''git'', ''branch'', ''-D'', opt_text (t_branch row)] \<in> set (wd_calls u)"
proof -
  define del where "del = [''git'', ''branch'', ''-D'', opt_text (t_branch row)]"
  define prune where "prune = [''git'', ''worktree'', ''prune'']"
  obtain v where "py_then (py_then (host_run tw del) (py_return ())) (py_then (host_run tw prune) (py_return ())) v = (Inr (), u)"
    using assms unfolding discard_worktree_def Let_def del_def [symmetric] prune_def [symmetric] if_not_P [OF assms(2)]
    by (auto simp: py_then_def py_bind_run split: prod.splits sum.splits)
  then obtain a b v1 where "host_run tw del v = (Inr a, v1)" and "host_run tw prune v1 = (Inr b, u)"
    by (auto simp: act_simps split: prod.splits sum.splits)
  from this [THEN host_run_calls] show ?thesis by (simp add: del_def)
qed

text \<open>
  Retry destroys before it checks. Asked to retry a task that is at work, the command first removes its worktree and
  its branch and only then raises InvalidTransition; the row still names what is gone.
\<close>

theorem retry_destroys_first:
  assumes "alone tw" and "find_task (tw_id tw) (wd_db w) = Some row" and "t_state row \<notin> {BLOCKED, FAILED, ABORTED}"
    and "discard_worktree tw row w = (Inr (), u)"
  shows "\<exists>msg. retry_one tw row False reason w = (Inl (InvalidTransition msg), u) \<and> wd_db u = wd_db w \<and>
    (opt_text (t_branch row) \<noteq> [] \<longrightarrow> Host [''git'', ''branch'', ''-D'', opt_text (t_branch row)] \<in> set (wd_calls u))"
proof -
  have db: "wd_db u = wd_db w" by (rule same_db [OF keeps_recovery_checks(4) [OF alone_others [OF assms(1)]] assms(4)])
  have st: "select_state (tw_id tw) (wd_db w) = Some (t_state row)" using assms(2) by (simp add: select_state_def)
  have "opt_text (t_branch row) \<noteq> [] \<longrightarrow> Host [''git'', ''branch'', ''-D'', opt_text (t_branch row)] \<in> set (wd_calls u)"
    using discards_branch [OF assms(4)] by blast
  with assms(3,4) db st show ?thesis
    by (simp add: retry_one_def act_simps on_store_def retry_task_def apply_event_run retry_edges)
qed

text \<open>
  Aborting a task removes the containers of every task whose slug extends its own by a dash.
\<close>

theorem abort_prefix_collides:
  assumes "slugify other = slugify tid @ ''-'' @ rest"
  shows "starts_with (container_prefix tid) (container_name other token)"
  by (simp add: assms container_prefix_def container_name_def starts_with_def)

section \<open>Resume\<close>

definition touched :: "ident \<Rightarrow> string set \<Rightarrow> (subtask_row \<Rightarrow> subtask_row) \<Rightarrow> time \<Rightarrow> subtask_row list \<Rightarrow> subtask_row list" where
  "touched tid ids f now rows =
     map (\<lambda>s. if s_task_id s = tid \<and> s_subtask_id s \<in> ids then (f s)\<lparr>s_updated_at := Some now\<rparr> else s) rows"

lemma fields_keep_key: "s_task_id (fold set_subtask_field kw s) = s_task_id s \<and>
    s_subtask_id (fold set_subtask_field kw s) = s_subtask_id s"
proof (induction kw arbitrary: s)
  case (Cons k kw)
  then show ?case by (cases k) simp_all
qed simp

lemma touched_again:
  assumes "A \<inter> B = {}" and "\<And>s. s_task_id (f s) = s_task_id s \<and> s_subtask_id (f s) = s_subtask_id s"
  shows "touched tid B f now (touched tid A f now rows) = touched tid (A \<union> B) f now rows"
  using assms by (induction rows) (auto simp: touched_def)

lemma touch_run:
  assumes "kw \<noteq> []" and "distinct sids"
  shows "\<exists>us. py_for sids (\<lambda>sid. update_subtask tid sid kw) d =
    (Inr us, d\<lparr>db_subtasks := touched tid (set sids) (fold set_subtask_field kw) (clock d) (db_subtasks d)\<rparr>)"
  using assms(2)
proof (induction sids arbitrary: d)
  case Nil
  then show ?case by (simp add: act_simps touched_def)
next
  case (Cons sid sids)
  let ?f = "fold set_subtask_field kw"
  let ?d = "d\<lparr>db_subtasks := touched tid {sid} ?f (clock d) (db_subtasks d)\<rparr>"
  have first: "update_subtask tid sid kw d = (Inr (), ?d)"
    using assms(1) by (simp add: update_subtask_def act_simps update_subtask_act_def update_subtask_row_def touched_def)
  have "touched tid (set sids) ?f (clock d) (touched tid {sid} ?f (clock d) (db_subtasks d)) =
      touched tid ({sid} \<union> set sids) ?f (clock d) (db_subtasks d)"
    by (rule touched_again) (use Cons.prems fields_keep_key in auto)
  with Cons.IH [of ?d] Cons.prems first show ?case by (auto simp: act_simps)
qed

definition resumed :: "time \<Rightarrow> subtask_row \<Rightarrow> subtask_row" where
  "resumed now s =
     (if s_state s = Sub_DONE then s
      else if s_state s \<noteq> Sub_BLOCKED then s\<lparr>s_state := Sub_PENDING, s_updated_at := Some now\<rparr>
      else s\<lparr>s_state := Sub_PENDING, s_updated_at := Some now, s_retry_reasons := None, s_retries := Some 0,
             s_transient_retries := Some 0, s_flatline_count := Some 0, s_progress_check_count := Some 0\<rparr>)"

lemma touched_task: "task_subtasks tid (d\<lparr>db_subtasks := touched tid ids (fold set_subtask_field kw) now (db_subtasks d)\<rparr>) =
    touched tid ids (fold set_subtask_field kw) now (task_subtasks tid d)"
proof -
  have "filter (\<lambda>s. s_task_id s = tid) (touched tid ids (fold set_subtask_field kw) now rows) =
      touched tid ids (fold set_subtask_field kw) now (filter (\<lambda>s. s_task_id s = tid) rows)" for rows
    by (induction rows) (auto simp: touched_def fields_keep_key)
  then show ?thesis by (simp add: task_subtasks_def)
qed

lemma resumed_rows:
  assumes "distinct (map s_subtask_id rows)" and "\<forall>s \<in> set rows. s_task_id s = tid"
  shows "touched tid (s_subtask_id ` {s \<in> set rows. s_state s = Sub_BLOCKED}) (fold set_subtask_field forgive_fields) now
      (touched tid (s_subtask_id ` {s \<in> set rows. s_state s \<noteq> Sub_DONE}) (fold set_subtask_field [SF_state Sub_PENDING]) now rows) =
    map (resumed now) rows"
proof -
  have same: "s = t" if "s \<in> set rows" "t \<in> set rows" "s_subtask_id s = s_subtask_id t" for s t
    using assms(1) that by (auto simp: distinct_map inj_on_def)
  have "s_subtask_id s \<in> s_subtask_id ` {t \<in> set rows. P t} \<longleftrightarrow> P s" if "s \<in> set rows" for s P
    using that same by blast
  with assms(2) show ?thesis
    by (auto simp: touched_def resumed_def forgive_fields_def)
qed

lemma resume_edges: "target_of s Ev_RESUME_TASK = (if s \<in> {BLOCKED, FAILED} then Some PENDING else None)"
  by (rule state_check [where P = "\<lambda>s. target_of s Ev_RESUME_TASK = (if s \<in> {BLOCKED, FAILED} then Some PENDING else None)"])
    code_simp

text \<open>
  What resuming a task does. A BLOCKED or FAILED task with a plan and subtasks goes to PENDING with its branch,
  worktree and plan, marked to skip the planner. Its DONE subtasks keep every column, all others are PENDING, and those
  that were BLOCKED have no retries and no retry history, so the stop-loss that blocked the task starts from nothing.
\<close>

theorem resume_exact:
  assumes "find_task tid d = Some row" and "t_state row \<in> {BLOCKED, FAILED}" and "opt_text (t_plan_text row) \<noteq> []"
    and "task_subtasks tid d \<noteq> []" and "distinct (map s_subtask_id (task_subtasks tid d))"
  shows "\<exists>d' r. resume tid reason d = (Inr 0, d') \<and> find_task tid d' = Some r \<and> t_state r = PENDING \<and>
    t_branch r = t_branch row \<and> t_worktree_path r = t_worktree_path row \<and> t_plan_text r = t_plan_text row \<and>
    t_resume_from_existing_subtasks r = Some 1 \<and>
    task_subtasks tid d' = map (resumed (clock d)) (task_subtasks tid d)"
proof -
  let ?rows = "task_subtasks tid d"
  have st: "select_state tid d = Some (t_state row)" using assms(1) by (simp add: select_state_def)
  obtain t d1 where d1: "resume_task tid (Some (resume_note reason)) cli_resume_fields d = (Inr t, d1)" "clock d1 = clock d" "task_subtasks tid d1 = ?rows"
      "find_task tid d1 = Some (set_task_fields cli_resume_fields (row\<lparr>t_state := PENDING\<rparr>)\<lparr>t_updated_at := clock d\<rparr>)"
    using assms(1,2)
    by (auto simp: resume_task_def apply_event_run [OF st] resume_edges transition_run [OF st] moved_db_def find_task_update_row
        task_subtasks_def find_task_def [where d = "_\<lparr>db_log := _\<rparr>"] simp flip: find_task_def)
  let ?ids = "\<lambda>P. map s_subtask_id (filter P ?rows)"
  have dist: "distinct (?ids P)" for P using assms(5) by (rule distinct_map_filter)
  obtain us d2 where us: "py_for (?ids (\<lambda>s. s_state s \<noteq> Sub_DONE)) (\<lambda>sid. update_subtask tid sid [SF_state Sub_PENDING]) d1 = (Inr us, d2)"
      "d2 = d1\<lparr>db_subtasks := touched tid (set (?ids (\<lambda>s. s_state s \<noteq> Sub_DONE))) (fold set_subtask_field [SF_state Sub_PENDING])
         (clock d1) (db_subtasks d1)\<rparr>"
    using touch_run [OF _ dist] by blast
  have "forgive_fields \<noteq> []" by (simp add: forgive_fields_def)
  then obtain vs d3 where vs: "py_for (?ids (\<lambda>s. s_state s = Sub_BLOCKED)) (\<lambda>sid. update_subtask tid sid forgive_fields) d2 = (Inr vs, d3)"
      "d3 = d2\<lparr>db_subtasks := touched tid (set (?ids (\<lambda>s. s_state s = Sub_BLOCKED))) (fold set_subtask_field forgive_fields)
         (clock d2) (db_subtasks d2)\<rparr>"
    using touch_run [OF _ dist] by blast
  have run: "resume tid reason d = (Inr 0, d3)"
    using assms(1,3,4) by (simp add: resume_def repend_subtasks_def act_simps list_subtasks_def d1(1) us(1) vs(1))
  have t2: "task_subtasks tid d2 = touched tid (set (?ids (\<lambda>s. s_state s \<noteq> Sub_DONE))) (fold set_subtask_field [SF_state Sub_PENDING])
      (clock d1) (task_subtasks tid d1)" by (simp only: us(2) touched_task)
  have t3: "task_subtasks tid d3 = touched tid (set (?ids (\<lambda>s. s_state s = Sub_BLOCKED))) (fold set_subtask_field forgive_fields)
      (clock d2) (task_subtasks tid d2)" by (simp only: vs(2) touched_task)
  have c2: "clock d2 = clock d1" by (simp add: us(2))
  have "\<forall>s \<in> set ?rows. s_task_id s = tid" by (simp add: task_subtasks_def)
  note rows = resumed_rows [OF assms(5) this, of "clock d"]
  have "task_subtasks tid d3 = map (resumed (clock d)) ?rows"
    by (simp only: t3 t2 d1(2,3) c2 set_map set_filter rows)
  moreover have "find_task tid d3 = find_task tid d1" by (simp add: find_task_def us(2) vs(2))
  ultimately show ?thesis
    using run d1(4) by (simp add: cli_resume_fields_def set_task_fields_def)
qed

section \<open>Concrete runs\<close>

definition demo_operator :: task_worker where
  "demo_operator = demo_worker\<lparr>tw_host := (\<lambda>_ _. Inr (0, ''abc'', []))\<rparr>"

definition demo_part :: "string \<Rightarrow> subtask_spec" where
  "demo_part sid =
     \<lparr>sp_subtask_id = sid, sp_title = None, sp_depends_on = None, sp_files_to_touch = None, sp_boundary = None,
      sp_acceptance = None, sp_notes = None, sp_kind = None, sp_planning_cycle = None, sp_planning_kind = None\<rparr>"

text \<open>A task that was blocked on the second of its two subtasks.\<close>

definition demo_stuck :: "event list \<Rightarrow> world" where
  "demo_stuck evs =
     (let w = demo_world evs
      in w\<lparr>wd_db := snd (py_then (set_field ''T1'' [F_branch (Some ''b''), F_worktree_path (Some ''/wt/t1''), F_plan_text (Some ''p'')])
             (py_then (upsert_subtasks ''T1'' [demo_part ''S1'', demo_part ''S2''] 1 ''initial'')
             (py_then (update_subtask ''T1'' ''S1'' [SF_state Sub_DONE])
               (update_subtask ''T1'' ''S2'' [SF_state Sub_BLOCKED, SF_retries (Some 8)]))) (wd_db w))\<rparr>)"

definition demo_blocked :: world where
  "demo_blocked = demo_stuck [Ev_START_TASK, Ev_BLOCK_TASK]"

lemma demo_operator_simps [simp]: "tw_id demo_operator = ''T1''" "alone demo_operator"
  by (simp_all add: demo_operator_def alone_def demo_worker_def)

lemma demo_stuck_ok: "store_ok (wd_db (demo_stuck evs))"
  unfolding demo_stuck_def Let_def
  by (simp, rule keepsD [where P = store_ok, OF _ demo_world_ok]) (intro keeps_intros)

lemma demo_rewound: "fst (rewind demo_operator ''S2'' True False demo_blocked) = Inr 0"
  by code_simp

lemma demo_rewind_eq: "rewind demo_operator ''S2'' True False demo_blocked = (Inr 0, snd (rewind demo_operator ''S2'' True False demo_blocked))"
  using demo_rewound by (simp add: prod_eq_iff)

theorem recovery_skips_the_log_witness:
  "\<not> store_ok (wd_db (snd (rewind demo_operator ''S2'' True False demo_blocked)))"
  using recovery_skips_the_log [OF _ _ disjI1 [OF demo_rewind_eq]] demo_stuck_ok
  by (simp add: demo_blocked_def)

lemma demo_blocked_ids: "map s_subtask_id (task_subtasks ''T1'' (wd_db demo_blocked)) = [''S1'', ''S2'']"
  by code_simp

theorem rewind_scope_witness:
  "length (task_subtasks ''T1'' (wd_db (snd (rewind demo_operator ''S2'' True False demo_blocked)))) = 2"
proof -
  have "length (task_subtasks ''T1'' (wd_db demo_blocked)) = 2" using arg_cong [OF demo_blocked_ids, of length] by simp
  moreover have "distinct (map s_subtask_id (task_subtasks (tw_id demo_operator) (wd_db demo_blocked)))"
    by (simp add: demo_blocked_ids)
  ultimately show ?thesis using rewind_scope [OF demo_operator_simps(2) _ demo_rewind_eq] by auto
qed

lemma demo_row: "find_task ''T1'' (wd_db demo_blocked) = Some (the (find_task ''T1'' (wd_db demo_blocked)))"
proof -
  have "find_task ''T1'' (wd_db demo_blocked) \<noteq> None" by code_simp
  then show ?thesis by simp
qed

lemma demo_row_state: "t_state (the (find_task ''T1'' (wd_db demo_blocked))) = BLOCKED \<and>
    opt_text (t_plan_text (the (find_task ''T1'' (wd_db demo_blocked)))) = ''p''"
  by code_simp

theorem resume_exact_witness:
  "\<exists>d' r. resume ''T1'' None (wd_db demo_blocked) = (Inr 0, d') \<and> find_task ''T1'' d' = Some r \<and> t_state r = PENDING"
  using resume_exact [OF demo_row, of None] demo_row_state demo_blocked_ids by fastforce

lemma demo_retried: "fst (retry_one demo_operator (the (find_task ''T1'' (wd_db demo_blocked))) False None demo_blocked) = Inr ()"
  by code_simp


definition demo_busy :: world where
  "demo_busy = demo_stuck [Ev_START_TASK]"

definition demo_busy_row :: task_row where
  "demo_busy_row = the (find_task ''T1'' (wd_db demo_busy))"

lemma demo_busy_state: "t_state demo_busy_row = PROVISIONING \<and> find_task ''T1'' (wd_db demo_busy) \<noteq> None \<and>
    opt_text (t_branch demo_busy_row) = ''b''"
  by code_simp

lemma demo_discards: "fst (discard_worktree demo_operator demo_busy_row demo_busy) = Inr ()"
  by code_simp

theorem retry_destroys_first_witness:
  "\<exists>msg u. retry_one demo_operator demo_busy_row False None demo_busy = (Inl (InvalidTransition msg), u) \<and>
     Host [''git'', ''branch'', ''-D'', ''b''] \<in> set (wd_calls u)"
proof -
  have row: "find_task (tw_id demo_operator) (wd_db demo_busy) = Some demo_busy_row"
    using demo_busy_state by (simp add: demo_busy_row_def)
  have busy: "t_state demo_busy_row \<notin> {BLOCKED, FAILED, ABORTED}" using demo_busy_state by simp
  have "discard_worktree demo_operator demo_busy_row demo_busy = (Inr (), snd (discard_worktree demo_operator demo_busy_row demo_busy))"
    using demo_discards by (simp add: prod_eq_iff)
  from retry_destroys_first [OF _ row busy this, of None] demo_busy_state show ?thesis by auto
qed

end
