(* ===== verification/Transport.thy ===== *)
theory Transport
  imports Commits "HOL-Library.AList"
begin

text \<open>
  How one call of an agent CLI is made: \<^verbatim>\<open>agents/transient_quota.py\<close>, the retry loop of \<^verbatim>\<open>agents/json_protocol.py\<close>, the
  usage figures of \<^verbatim>\<open>agents/ccusage.py\<close> and the three shims \<^verbatim>\<open>json_claude.py\<close>, \<^verbatim>\<open>json_codex_direct.py\<close> and
  \<^verbatim>\<open>json_codex_litellm.py\<close>. The calls go through the world of theory World. Lines written to the log file of a call are
  not represented. Costs are integers in a fixed fraction of a dollar.
\<close>

section \<open>The outside\<close>

text \<open>What \<^verbatim>\<open>subprocess.TimeoutExpired\<close> carries of the output so far, and what running a command in the container gives.\<close>

datatype captured = No_output | As_bytes string | As_text string

datatype exec_answer = Exited run_result | Expired captured captured

text \<open>
  \<open>bk_exec\<close> answers a command with its standard input by the number of calls made before; \<open>bk_environ\<close> is
  \<^verbatim>\<open>os.environ\<close>, \<open>bk_decode\<close> is \<^verbatim>\<open>bytes.decode("utf-8", errors="replace")\<close>, \<open>bk_dumps\<close> is \<^verbatim>\<open>json.dumps\<close> with its
  indentation, \<open>bk_json_error\<close> the text of the \<^verbatim>\<open>JSONDecodeError\<close> of a text, \<open>bk_float\<close> is \<^verbatim>\<open>float\<close> in the unit of costs
  and \<open>bk_dollar\<close> that unit. \<open>bk_call\<close> is the row of the ledger whose status the worker wants to see followed.
\<close>

record backend =
  bk_exec :: "nat \<Rightarrow> string list \<Rightarrow> string option \<Rightarrow> py_error + exec_answer"
  bk_environ :: "string \<Rightarrow> string option"
  bk_decode :: "string \<Rightarrow> string"
  bk_dumps :: "nat option \<Rightarrow> json \<Rightarrow> string"
  bk_json_error :: "string \<Rightarrow> string"
  bk_float :: "json \<Rightarrow> int option"
  bk_dollar :: int
  bk_call :: "nat option"

definition bk_run :: "task_worker \<Rightarrow> backend \<Rightarrow> string list \<Rightarrow> string option \<Rightarrow> int \<Rightarrow> exec_answer wact" where
  "bk_run tw bk argv stdin timeout =
     outside tw (Exec argv (Some timeout)) (\<lambda>n. bk_exec bk n argv stdin)"

section \<open>Quota and authentication failures\<close>

text \<open>\<^verbatim>\<open>[_ -]?\<close>, and \<^verbatim>\<open>[^\n]{0,n}?\<close>: at most so many characters, as few as possible.\<close>

definition joint :: rx where
  "joint = Maybe (One (\<lambda>c. c \<in> set '' _-''))"

fun up_to :: "nat \<Rightarrow> (char \<Rightarrow> bool) \<Rightarrow> rx" where
  "up_to 0 p = Many (\<lambda>_. False)"
| "up_to (Suc n) p = Alt (Many (\<lambda>_. False)) (Seq (One p) (up_to n p))"

definition quota_phrase :: rx where
  "quota_phrase =
     seq_of [alt_of [seq_of [ilit ''rate'', joint, ilit ''limit''], ilit ''quota'',
                     seq_of [ilit ''usage'', joint, ilit ''limit'']],
             up_to 80 any_char,
             alt_of [ilit ''exceeded'', ilit ''reached'', ilit ''exhausted'', ilit ''hit'']]"

definition quota_exhausted_patterns :: "rx list" where
  "quota_exhausted_patterns =
     [seq_of [ilit ''you'', Maybe (One (\<lambda>c. [c] = quote1)), ilit ''ve hit your '',
        alt_of [ilit ''session'', ilit ''weekly'', ilit ''opus'',
                seq_of [ilit ''5'', Maybe (One (\<lambda>c. c = CHR ''-'')), ilit ''hour''], ilit ''usage''],
        ilit '' limit''],
      seq_of [Word_edge, lit ''rate_limit_exceeded'', Word_edge],
      seq_of [Word_edge, lit ''429'', Word_edge],
      quota_phrase,
      ilit ''too many requests'',
      seq_of [ilit ''insufficient'', joint, ilit ''quota'']]"

definition agent_auth_transient_patterns :: "rx list" where
  "agent_auth_transient_patterns =
     [seq_of [Word_edge, ilit ''token_revoked'', Word_edge],
      seq_of [Word_edge, ilit ''refresh_token_reused'', Word_edge],
      ilit ''invalidated oauth token'',
      seq_of [ilit ''refresh token '', Maybe (ilit ''has ''), ilit ''already been used''],
      ilit ''access token could not be refreshed'']"

definition any_pattern :: "rx list \<Rightarrow> string \<Rightarrow> string \<Rightarrow> bool" where
  "any_pattern ps out err \<longleftrightarrow>
     list_ex (\<lambda>blob. blob \<noteq> [] \<and> list_ex (\<lambda>p. search p blob \<noteq> None) ps) [err, out]"

definition is_quota_exhausted :: "int \<Rightarrow> string \<Rightarrow> string \<Rightarrow> bool" where
  "is_quota_exhausted rc out err \<longleftrightarrow> (if rc = 0 then False else any_pattern quota_exhausted_patterns out err)"

definition is_transient_agent_auth_failure :: "int \<Rightarrow> string \<Rightarrow> string \<Rightarrow> bool" where
  "is_transient_agent_auth_failure rc out err \<longleftrightarrow>
     (if rc = 0 then False else any_pattern agent_auth_transient_patterns out err)"

section \<open>The retry loop\<close>

record exec_outcome =
  eo_rc :: int
  eo_stdout :: string
  eo_stderr :: string
  eo_timed_out :: bool
  eo_category :: string

record backoff_state =
  bo_next :: int
  bo_max :: int
  bo_waited :: int
  bo_max_total :: int
  bo_retries :: int

text \<open>\<^verbatim>\<open>int(os.environ.get(name, default))\<close>.\<close>

definition env_int :: "backend \<Rightarrow> string \<Rightarrow> int \<Rightarrow> int wact" where
  "env_int bk name dflt =
     (case bk_environ bk name of
        None \<Rightarrow> py_return dflt
      | Some s \<Rightarrow>
          (case parse_int s of
             None \<Rightarrow> py_raise (ValueError (''invalid literal for int() with base 10: '' @ py_repr s))
           | Some n \<Rightarrow> py_return n))"

definition auth_backoff_initial_s :: "backend \<Rightarrow> int wact" where
  "auth_backoff_initial_s bk = env_int bk ''QUIKODE_AUTH_BACKOFF_INITIAL_S'' 15"

definition auth_backoff_max_s :: "backend \<Rightarrow> int wact" where
  "auth_backoff_max_s bk = env_int bk ''QUIKODE_AUTH_BACKOFF_MAX_S'' 120"

definition auth_max_total_wait_s :: "backend \<Rightarrow> int wact" where
  "auth_max_total_wait_s bk = env_int bk ''QUIKODE_AUTH_MAX_TOTAL_WAIT_S'' 900"

definition auth_backoff :: "backend \<Rightarrow> backoff_state wact" where
  "auth_backoff bk =
     py_bind (auth_backoff_initial_s bk) (\<lambda>i.
     py_bind (auth_backoff_max_s bk) (\<lambda>m.
     py_bind (auth_max_total_wait_s bk) (\<lambda>t.
       py_return \<lparr>bo_next = i, bo_max = m, bo_waited = 0, bo_max_total = t, bo_retries = 0\<rparr>)))"

text \<open>The callback of \<^verbatim>\<open>workers/agent_call_status.py\<close> writes the status column; what it raises is dropped.\<close>

definition emit_status :: "backend \<Rightarrow> string \<Rightarrow> unit wact" where
  "emit_status bk st =
     (case bk_call bk of
        None \<Rightarrow> py_return ()
      | Some i \<Rightarrow> py_catch (on_store (update_agent_call_status i st)) (\<lambda>_. py_return ()))"

definition sleep_s :: "task_worker \<Rightarrow> int \<Rightarrow> unit wact" where
  "sleep_s tw s =
     (if s < 0 then py_raise (ValueError ''sleep length must be non-negative'') else sleep tw (1000 * s))"

text \<open>The answer: whether the failure was one of authentication, and the outcome when waiting has been given up.\<close>

definition handle_agent_auth_retry ::
  "task_worker \<Rightarrow> backend \<Rightarrow> int \<Rightarrow> string \<Rightarrow> string \<Rightarrow> backoff_state \<Rightarrow>
   ((bool \<times> exec_outcome option) \<times> backoff_state) wact" where
  "handle_agent_auth_retry tw bk rc out err st =
     (if \<not> is_transient_agent_auth_failure rc out err then py_return ((False, None), st)
      else if bo_waited st \<ge> bo_max_total st
      then py_return
        ((True, Some
           \<lparr>eo_rc = 124, eo_stdout = out,
            eo_stderr = err @ nl @ ''[quikode] agent auth refresh retry exceeded '' @ str_int (bo_max_total st) @
              ''s after '' @ str_int (bo_retries st) @ '' retries; surfacing as transient transport failure'',
            eo_timed_out = True, eo_category = ''auth_refresh''\<rparr>), st)
      else
        py_then (emit_status bk ''backoff_auth'')
       (py_then (sleep_s tw (bo_next st))
       (py_then (emit_status bk ''running'')
         (py_return ((True, None),
            st\<lparr>bo_waited := bo_waited st + bo_next st, bo_next := min (bo_next st * 2) (bo_max st),
               bo_retries := bo_retries st + 1\<rparr>)))))"

definition partial_text :: "backend \<Rightarrow> captured \<Rightarrow> string" where
  "partial_text bk c =
     (case c of No_output \<Rightarrow> [] | As_bytes b \<Rightarrow> if b = [] then [] else bk_decode bk b | As_text t \<Rightarrow> t)"

definition expired_outcome :: "backend \<Rightarrow> int \<Rightarrow> captured \<Rightarrow> captured \<Rightarrow> exec_outcome" where
  "expired_outcome bk timeout out err =
     \<lparr>eo_rc = 124, eo_stdout = partial_text bk out,
      eo_stderr = strip (partial_text bk err @ nl @ ''[quikode] agent timed out after '' @ str_int timeout @
        ''s; treating as failed attempt''),
      eo_timed_out = True, eo_category = ''none''\<rparr>"

definition vanished_outcome :: "int \<Rightarrow> string \<Rightarrow> string \<Rightarrow> exec_outcome" where
  "vanished_outcome rc out err =
     \<lparr>eo_rc = 124, eo_stdout = out,
      eo_stderr = err @ nl @ ''[quikode] container-level transient failure detected: rc='' @ str_int rc @
        ''; treating as transient retry'',
      eo_timed_out = True, eo_category = ''container_vanished''\<rparr>"

definition quota_outcome :: "int \<Rightarrow> string \<Rightarrow> string \<Rightarrow> exec_outcome" where
  "quota_outcome rc out err =
     \<lparr>eo_rc = rc, eo_stdout = out,
      eo_stderr = err @ nl @ ''[quikode] quota exhausted (rc='' @ str_int rc @
        ''); fast-fail to chain walker / worker-layer retry (no in-transport sleep)'',
      eo_timed_out = False, eo_category = ''quota_exhausted''\<rparr>"

definition exit_outcome :: "int \<Rightarrow> string \<Rightarrow> string \<Rightarrow> exec_outcome" where
  "exit_outcome rc out err =
     \<lparr>eo_rc = rc, eo_stdout = out, eo_stderr = err, eo_timed_out = False, eo_category = ''none''\<rparr>"

text \<open>One turn of \<^verbatim>\<open>while True\<close>.\<close>

definition retry_turn ::
  "task_worker \<Rightarrow> backend \<Rightarrow> string list \<Rightarrow> string option \<Rightarrow> int \<Rightarrow> backoff_state \<Rightarrow>
   (backoff_state + exec_outcome) wact" where
  "retry_turn tw bk cmd stdin timeout st =
     py_bind (bk_run tw bk cmd stdin timeout) (\<lambda>a. case a of
       Expired out err \<Rightarrow> py_return (Inr (expired_outcome bk timeout out err))
     | Exited (rc, out, err) \<Rightarrow>
         if is_transient_container_failure rc err then py_return (Inr (vanished_outcome rc out err))
         else if is_quota_exhausted rc out err then py_return (Inr (quota_outcome rc out err))
         else py_bind (handle_agent_auth_retry tw bk rc out err st) (\<lambda>((handled, outcome), st').
           case outcome of
             Some o' \<Rightarrow> py_return (Inr o')
           | None \<Rightarrow> if handled then py_return (Inl st') else py_return (Inr (exit_outcome rc out err))))"

definition run_with_retry ::
  "task_worker \<Rightarrow> backend \<Rightarrow> string list \<Rightarrow> string option \<Rightarrow> int \<Rightarrow> exec_outcome proc" where
  "run_with_retry tw bk cmd stdin timeout =
     p_bind (p_act (auth_backoff bk)) (p_loop (\<lambda>st. p_act (retry_turn tw bk cmd stdin timeout st)))"

section \<open>Usage figures\<close>

record usage =
  us_input :: int
  us_output :: int
  us_cached_read :: int
  us_cached_creation :: int
  us_cost :: int
  us_raw :: string

definition total_tokens :: "usage \<Rightarrow> int" where
  "total_tokens u = us_input u + us_output u"

definition variant_for :: "string \<Rightarrow> string option" where
  "variant_for cli =
     map_of [(''claude'', ''ccusage@latest''), (''codex'', ''@ccusage/codex@latest''),
             (''opencode'', ''@ccusage/opencode@latest'')] cli"

text \<open>\<^verbatim>\<open>d.get(k)\<close> where a missing key and a null are the same, truth of a value, and \<^verbatim>\<open>int(v)\<close>.\<close>

definition dict_get :: "(string \<times> json) list \<Rightarrow> string \<Rightarrow> json" where
  "dict_get kvs k = (case map_of kvs k of None \<Rightarrow> JNull | Some v \<Rightarrow> v)"

definition json_truthy :: "json \<Rightarrow> bool" where
  "json_truthy v =
     (case v of JNull \<Rightarrow> False | JBool b \<Rightarrow> b | JNum n \<Rightarrow> n \<noteq> 0 | JStr s \<Rightarrow> s \<noteq> [] | JArr xs \<Rightarrow> xs \<noteq> []
      | JObj kvs \<Rightarrow> kvs \<noteq> [])"

definition json_int :: "json \<Rightarrow> int option" where
  "json_int v =
     (case v of JBool b \<Rightarrow> Some (if b then 1 else 0) | JNum n \<Rightarrow> Some n | JStr s \<Rightarrow> parse_int s | _ \<Rightarrow> None)"

definition stats_int :: "json \<Rightarrow> int" where
  "stats_int v = (case json_int v of None \<Rightarrow> 0 | Some n \<Rightarrow> if n \<ge> 0 then n else 0)"

definition stats_float :: "backend \<Rightarrow> json \<Rightarrow> int" where
  "stats_float bk v =
     (if v = JNull then 0 else case bk_float bk v of None \<Rightarrow> 0 | Some f \<Rightarrow> if f \<ge> 0 then f else 0)"

text \<open>Lines before the first one that opens an object or an array from which the rest decodes are dropped.\<close>

definition opens_json :: "string \<Rightarrow> bool" where
  "opens_json line =
     (let s = dropWhile whitespace line in starts_with ''{'' s \<or> starts_with ''['' s)"

fun decode_suffix :: "(string \<Rightarrow> json option) \<Rightarrow> string list \<Rightarrow> json option" where
  "decode_suffix loads [] = None"
| "decode_suffix loads (l # ls) =
     (if opens_json l
      then (case loads (join nl (l # ls)) of Some v \<Rightarrow> Some v | None \<Rightarrow> decode_suffix loads ls)
      else decode_suffix loads ls)"

definition decode_json_with_leading_garbage :: "(string \<Rightarrow> json option) \<Rightarrow> string \<Rightarrow> json option" where
  "decode_json_with_leading_garbage loads raw =
     (case loads raw of Some v \<Rightarrow> Some v | None \<Rightarrow> decode_suffix loads (splitlines raw))"

definition add_session :: "backend \<Rightarrow> string \<Rightarrow> json \<Rightarrow> usage \<Rightarrow> usage" where
  "add_session bk cli s u =
     (case s of
        JObj kvs \<Rightarrow>
          (let num = (\<lambda>k. stats_int (dict_get kvs k));
               cost = (if json_truthy (dict_get kvs ''totalCost'') then dict_get kvs ''totalCost''
                       else dict_get kvs ''costUSD'')
           in u\<lparr>us_input := us_input u + num ''inputTokens'', us_output := us_output u + num ''outputTokens'',
                us_cost := us_cost u + stats_float bk cost,
                us_cached_read := us_cached_read u +
                  num (if cli = ''codex'' then ''cachedInputTokens'' else ''cacheReadTokens''),
                us_cached_creation := us_cached_creation u +
                  (if cli = ''codex'' then 0 else num ''cacheCreationTokens'')\<rparr>)
      | _ \<Rightarrow> u)"

definition parse_session_json :: "task_worker \<Rightarrow> backend \<Rightarrow> string \<Rightarrow> string \<Rightarrow> usage option" where
  "parse_session_json tw bk cli raw0 =
     (let raw = strip raw0
      in if raw = [] then None
         else case decode_json_with_leading_garbage (tw_json tw) raw of
                None \<Rightarrow> None
              | Some data \<Rightarrow>
                  (case (case data of JObj kvs \<Rightarrow> dict_get kvs ''sessions'' | v \<Rightarrow> v) of
                     JArr sessions \<Rightarrow>
                       Some (fold (add_session bk cli) sessions
                         \<lparr>us_input = 0, us_output = 0, us_cached_read = 0, us_cached_creation = 0, us_cost = 0,
                          us_raw = raw\<rparr>)
                   | _ \<Rightarrow> None))"

text \<open>The exceptions the capture swallows.\<close>

definition capture_fails :: "py_error \<Rightarrow> bool" where
  "capture_fails e =
     (case e of OSError _ \<Rightarrow> True | ValueError _ \<Rightarrow> True | TimeoutExpired _ \<Rightarrow> True | CalledProcessError _ \<Rightarrow> True
      | _ \<Rightarrow> False)"

definition run_capture :: "task_worker \<Rightarrow> backend \<Rightarrow> string list \<Rightarrow> int \<Rightarrow> string option wact" where
  "run_capture tw bk cmd timeout =
     py_catch
       (py_bind (bk_run tw bk cmd None timeout) (\<lambda>a. case a of
          Expired _ _ \<Rightarrow> py_return None
        | Exited (rc, out, _) \<Rightarrow> if rc \<noteq> 0 then py_return None else py_return (Some out)))
       (\<lambda>e. if capture_fails e then py_return None else py_raise e)"

definition fetch_session_stats :: "task_worker \<Rightarrow> backend \<Rightarrow> string \<Rightarrow> usage option wact" where
  "fetch_session_stats tw bk cli =
     (case variant_for cli of
        None \<Rightarrow> py_return None
      | Some variant \<Rightarrow>
          py_bind (run_capture tw bk [''npx'', ''-y'', variant, ''session'', ''--json''] 10) (\<lambda>raw. case raw of
            None \<Rightarrow> py_return None
          | Some t \<Rightarrow> py_return (parse_session_json tw bk cli t)))"

definition snapshot_delta :: "backend \<Rightarrow> usage option \<Rightarrow> usage option \<Rightarrow> usage option" where
  "snapshot_delta bk before after =
     (case after of
        None \<Rightarrow> None
      | Some a \<Rightarrow>
          (let c = (case before of
                      None \<Rightarrow> a
                    | Some b \<Rightarrow>
                        \<lparr>us_input = max 0 (us_input a - us_input b), us_output = max 0 (us_output a - us_output b),
                         us_cached_read = max 0 (us_cached_read a - us_cached_read b),
                         us_cached_creation = max 0 (us_cached_creation a - us_cached_creation b),
                         us_cost = max 0 (us_cost a - us_cost b), us_raw = us_raw a\<rparr>)
           in Some (if us_cost c > 50 * bk_dollar bk then c\<lparr>us_cost := 0\<rparr> else c)))"

section \<open>The three shims\<close>

record raw_result =
  rr_raw_text :: "string option"
  rr_structured :: "json option"
  rr_rc :: int
  rr_transient :: bool
  rr_duration_s :: time
  rr_tokens_input :: "int option"
  rr_tokens_output :: "int option"
  rr_cost_usd :: "int option"
  rr_stderr_excerpt :: string
  rr_category :: string

text \<open>The figures of the difference, when it counts any token.\<close>

definition delta_figures :: "backend \<Rightarrow> usage option \<Rightarrow> usage option \<Rightarrow> int option \<times> int option \<times> int option" where
  "delta_figures bk before after =
     (case snapshot_delta bk before after of
        None \<Rightarrow> (None, None, None)
      | Some d \<Rightarrow> if total_tokens d > 0 then (Some (us_input d), Some (us_output d), Some (us_cost d))
                   else (None, None, None))"

definition raw_of ::
  "exec_outcome \<Rightarrow> string option \<Rightarrow> json option \<Rightarrow> time \<Rightarrow> int option \<times> int option \<times> int option \<Rightarrow> string \<Rightarrow>
   raw_result" where
  "raw_of o' raw_text structured duration figures excerpt =
     \<lparr>rr_raw_text = raw_text, rr_structured = structured, rr_rc = eo_rc o', rr_transient = eo_timed_out o',
      rr_duration_s = duration, rr_tokens_input = fst figures, rr_tokens_output = fst (snd figures),
      rr_cost_usd = snd (snd figures),
      rr_stderr_excerpt =
        (if excerpt = [] then tail_of 2000 (eo_stderr o')
         else strip (tail_of 2000 (eo_stderr o') @ nl @ ''[quikode] '' @ excerpt)),
      rr_category = eo_category o'\<rparr>"

record parsed_envelope =
  pe_structured :: "json option"
  pe_raw_text :: "string option"
  pe_figures :: "int option \<times> int option \<times> int option"
  pe_failure :: string

definition safe_int :: "json \<Rightarrow> int option" where
  "safe_int v = (case json_int v of None \<Rightarrow> None | Some n \<Rightarrow> if n \<ge> 0 then Some n else None)"

definition parse_claude_envelope :: "task_worker \<Rightarrow> backend \<Rightarrow> string \<Rightarrow> parsed_envelope" where
  "parse_claude_envelope tw bk stdout =
     (case tw_json tw (strip stdout) of
        None \<Rightarrow>
          \<lparr>pe_structured = None, pe_raw_text = Some stdout, pe_figures = (None, None, None),
           pe_failure = ''claude envelope was not JSON: '' @ bk_json_error bk (strip stdout)\<rparr>
      | Some (JObj e) \<Rightarrow>
          (let so = dict_get e ''structured_output''; result = dict_get e ''result'';
               (structured, raw_text, failure) =
                 (if is_obj so then (Some so, None, [])
                  else case result of
                         JStr t \<Rightarrow> (None, Some t, [])
                       | _ \<Rightarrow> (None, None, ''claude envelope had no structured_output and no string result''));
               tokens = (\<lambda>k. case dict_get e ''usage'' of JObj u \<Rightarrow> safe_int (dict_get u k) | _ \<Rightarrow> None);
               cost = dict_get e ''total_cost_usd''
           in \<lparr>pe_structured = structured, pe_raw_text = raw_text,
               pe_figures = (tokens ''input_tokens'', tokens ''output_tokens'',
                             if cost = JNull then None else bk_float bk cost),
               pe_failure = failure\<rparr>)
      | Some _ \<Rightarrow>
          \<lparr>pe_structured = None, pe_raw_text = Some stdout, pe_figures = (None, None, None),
           pe_failure = ''claude envelope was not a JSON object''\<rparr>)"

definition claude_raw_result ::
  "task_worker \<Rightarrow> backend \<Rightarrow> usage option \<Rightarrow> exec_outcome \<Rightarrow> time \<Rightarrow> raw_result wact" where
  "claude_raw_result tw bk before o' duration =
     (let p = (if eo_rc o' = 0 \<and> strip (eo_stdout o') \<noteq> [] then parse_claude_envelope tw bk (eo_stdout o')
               else \<lparr>pe_structured = None, pe_raw_text = (if eo_rc o' \<noteq> 0 then Some (eo_stdout o') else None),
                     pe_figures = (None, None, None), pe_failure = []\<rparr>)
      in py_bind (if pe_figures p = (None, None, None)
                  then py_bind (fetch_session_stats tw bk ''claude'') (\<lambda>after.
                         py_return (delta_figures bk before after))
                  else py_return (pe_figures p)) (\<lambda>figures.
         py_return (raw_of o' (pe_raw_text p) (pe_structured p) duration figures (pe_failure p))))"

definition codex_direct_raw_result ::
  "task_worker \<Rightarrow> backend \<Rightarrow> usage option \<Rightarrow> exec_outcome \<Rightarrow> time \<Rightarrow> raw_result wact" where
  "codex_direct_raw_result tw bk before o' duration =
     (let (structured, failure, raw_text) =
            (if eo_rc o' = 0 \<and> strip (eo_stdout o') \<noteq> []
             then (case tw_json tw (strip (eo_stdout o')) of
                     None \<Rightarrow> (None, ''codex output was not valid JSON: '' @ bk_json_error bk (strip (eo_stdout o')),
                              Some (eo_stdout o'))
                   | Some v \<Rightarrow>
                       if is_obj v then (Some v, [], None)
                       else (None, ''codex output was JSON but not an object: '' @ type_name v, None))
             else if eo_rc o' \<noteq> 0 then (None, [], Some (eo_stdout o'))
             else (None, [], None))
      in py_bind (fetch_session_stats tw bk ''codex'') (\<lambda>after.
         py_return (raw_of o' raw_text structured duration (delta_figures bk before after) failure)))"

definition codex_litellm_raw_result ::
  "task_worker \<Rightarrow> backend \<Rightarrow> usage option \<Rightarrow> exec_outcome \<Rightarrow> time \<Rightarrow> raw_result wact" where
  "codex_litellm_raw_result tw bk before o' duration =
     py_bind (fetch_session_stats tw bk ''codex'') (\<lambda>after.
       py_return (raw_of o'
         (if eo_rc o' = 0 \<or> strip (eo_stdout o') \<noteq> [] then Some (eo_stdout o') else None)
         None duration (delta_figures bk before after) []))"

text \<open>The result of a call without a schema, for claude and for codex directly.\<close>

definition raw_text_result ::
  "string \<Rightarrow> task_worker \<Rightarrow> backend \<Rightarrow> usage option \<Rightarrow> exec_outcome \<Rightarrow> time \<Rightarrow> raw_result wact" where
  "raw_text_result cli tw bk before o' duration =
     py_bind (fetch_session_stats tw bk cli) (\<lambda>after.
       py_return (raw_of o' (some_text (eo_stdout o')) None duration (delta_figures bk before after) []))"

text \<open>What all six methods do around the call: the usage before, the clock before and after.\<close>

definition bracketed ::
  "task_worker \<Rightarrow> backend \<Rightarrow> string \<Rightarrow> string list \<Rightarrow> string \<Rightarrow> int \<Rightarrow>
   (usage option \<Rightarrow> exec_outcome \<Rightarrow> time \<Rightarrow> raw_result wact) \<Rightarrow> raw_result proc" where
  "bracketed tw bk cli cmd prompt timeout build =
     p_bind (p_act (fetch_session_stats tw bk cli)) (\<lambda>before.
     p_bind (p_act (monotonic tw)) (\<lambda>t0.
     p_bind (run_with_retry tw bk cmd (Some prompt) timeout) (\<lambda>o'.
     p_bind (p_act (monotonic tw)) (\<lambda>t1.
       p_act (build before o' (t1 - t0))))))"

text \<open>What the code knows of a pydantic model: its JSON schema and its two validators.\<close>

record validation_error =
  ve_repr :: string
  ve_errors :: "(string list \<times> string) list"

record schema =
  sc_json :: json
  sc_validate :: "json \<Rightarrow> validation_error + structured"
  sc_validate_json :: "string \<Rightarrow> validation_error + structured"

text \<open>
  \<^verbatim>\<open>codex_output_schema\<close>: every object loses its \<^verbatim>\<open>default\<close>, and one with properties forbids others and requires all.
  The two entries it sets hold a truth value and strings, which the recursion leaves alone.
\<close>

definition dict_set :: "string \<Rightarrow> json \<Rightarrow> (string \<times> json) list \<Rightarrow> (string \<times> json) list" where
  "dict_set = AList.update"

definition tighten :: "(string \<times> json) list \<Rightarrow> (string \<times> json) list \<Rightarrow> (string \<times> json) list" where
  "tighten kvs kvs' =
     (case map_of kvs ''properties'' of
        Some (JObj ps) \<Rightarrow>
          dict_set ''required'' (JArr (map (\<lambda>p. JStr (fst p)) ps))
            (dict_set ''additionalProperties'' (JBool False) kvs')
      | _ \<Rightarrow> kvs')"

fun normalize_object_required :: "json \<Rightarrow> json" where
  "normalize_object_required (JObj kvs) =
     JObj (tighten kvs (map (\<lambda>(k, v). (k, normalize_object_required v)) (filter (\<lambda>kv. fst kv \<noteq> ''default'') kvs)))"
| "normalize_object_required (JArr vs) = JArr (map normalize_object_required vs)"
| "normalize_object_required v = v"

definition codex_output_schema :: "schema \<Rightarrow> json" where
  "codex_output_schema sc = normalize_object_required (sc_json sc)"

definition dquote :: string where
  "dquote = [CHR 0x22]"

definition heredoc :: "string \<Rightarrow> string" where
  "heredoc body = ''<<'' @ quote1 @ ''__QK_SCHEMA_EOF__'' @ quote1 @ nl @ body @ nl @ ''__QK_SCHEMA_EOF__'' @ nl"

definition claude_command :: "string \<Rightarrow> string" where
  "claude_command model_id =
     ''claude -p --permission-mode acceptEdits --add-dir /workspace --model '' @ model_id"

definition claude_json_command :: "string \<Rightarrow> string \<Rightarrow> string" where
  "claude_json_command model_id schema_text =
     ''claude -p --permission-mode acceptEdits --add-dir /workspace --output-format json --model '' @ model_id @
     '' --json-schema '' @ dquote @ ''$(cat '' @ heredoc schema_text @ '')'' @ dquote"

definition codex_parts :: "string \<Rightarrow> string list \<Rightarrow> string list" where
  "codex_parts profile extra =
     [''codex'', ''exec'', ''--profile'', profile, ''--dangerously-bypass-approvals-and-sandbox'', ''--color'',
      ''never'', ''--cd'', ''/workspace'', ''--skip-git-repo-check''] @ extra @ [''-'']"

definition codex_schema_command :: "string \<Rightarrow> string \<Rightarrow> string \<Rightarrow> string" where
  "codex_schema_command profile token schema_text =
     (let schema_path = ''/tmp/qk_codex_schema_'' @ token @ ''.json'';
          out_path = ''/tmp/qk_codex_out_'' @ token @ ''.txt''
      in ''set -o pipefail'' @ nl @ ''cat > '' @ schema_path @ '' '' @ heredoc schema_text @
         join '' '' (codex_parts profile [''--output-schema'', schema_path, ''--output-last-message'', out_path]) @
         '' >&2'' @ nl @ ''_qk_rc=$?'' @ nl @ ''cat '' @ out_path @ '' 2>/dev/null'' @ nl @
         ''rm -f '' @ schema_path @ '' '' @ out_path @ nl @ ''exit $_qk_rc'')"

definition claude_invoke ::
  "task_worker \<Rightarrow> backend \<Rightarrow> string \<Rightarrow> string \<Rightarrow> schema option \<Rightarrow> int \<Rightarrow> raw_result proc" where
  "claude_invoke tw bk model_id prompt schema timeout =
     (case schema of
        None \<Rightarrow> p_act (py_raise (ValueError ''ClaudeJsonAgent requires output_schema (cli_native enforcement)''))
      | Some sc \<Rightarrow>
          bracketed tw bk ''claude'' (bash (claude_json_command model_id (bk_dumps bk None (sc_json sc)))) prompt timeout
            (claude_raw_result tw bk))"

definition claude_invoke_raw :: "task_worker \<Rightarrow> backend \<Rightarrow> string \<Rightarrow> string \<Rightarrow> int \<Rightarrow> raw_result proc" where
  "claude_invoke_raw tw bk model_id prompt timeout =
     bracketed tw bk ''claude'' (bash (claude_command model_id)) prompt timeout (raw_text_result ''claude'' tw bk)"

text \<open>\<^verbatim>\<open>secrets.token_hex(4)\<close> is \<open>tw_token\<close> at the number of calls made so far.\<close>

definition codex_schema_call ::
  "task_worker \<Rightarrow> backend \<Rightarrow> string \<Rightarrow> string \<Rightarrow> schema \<Rightarrow> int \<Rightarrow>
   (usage option \<Rightarrow> exec_outcome \<Rightarrow> time \<Rightarrow> raw_result wact) \<Rightarrow> raw_result proc" where
  "codex_schema_call tw bk profile prompt sc timeout build =
     p_bind (p_act (py_read (\<lambda>w. tw_token tw (length (wd_calls w))))) (\<lambda>token.
       bracketed tw bk ''codex''
         (bash (codex_schema_command profile token (bk_dumps bk None (codex_output_schema sc)))) prompt timeout build)"

definition codex_direct_invoke ::
  "task_worker \<Rightarrow> backend \<Rightarrow> string \<Rightarrow> string \<Rightarrow> schema option \<Rightarrow> int \<Rightarrow> raw_result proc" where
  "codex_direct_invoke tw bk profile prompt schema timeout =
     (case schema of
        None \<Rightarrow> p_act (py_raise (ValueError ''CodexDirectJsonAgent requires output_schema (cli_native enforcement)''))
      | Some sc \<Rightarrow> codex_schema_call tw bk profile prompt sc timeout (codex_direct_raw_result tw bk))"

definition codex_litellm_invoke ::
  "task_worker \<Rightarrow> backend \<Rightarrow> string \<Rightarrow> string \<Rightarrow> schema option \<Rightarrow> int \<Rightarrow> raw_result proc" where
  "codex_litellm_invoke tw bk profile prompt schema timeout =
     (case schema of
        None \<Rightarrow>
          p_act (py_raise (ValueError ''CodexLitellmJsonAgent requires output_schema (used in re-prompt feedback)''))
      | Some sc \<Rightarrow> codex_schema_call tw bk profile prompt sc timeout (codex_litellm_raw_result tw bk))"

definition codex_direct_invoke_raw :: "task_worker \<Rightarrow> backend \<Rightarrow> string \<Rightarrow> string \<Rightarrow> int \<Rightarrow> raw_result proc" where
  "codex_direct_invoke_raw tw bk profile prompt timeout =
     bracketed tw bk ''codex'' (bash (join '' '' (codex_parts profile []))) prompt timeout
       (raw_text_result ''codex'' tw bk)"

definition codex_litellm_invoke_raw :: "task_worker \<Rightarrow> backend \<Rightarrow> string \<Rightarrow> string \<Rightarrow> int \<Rightarrow> raw_result proc" where
  "codex_litellm_invoke_raw tw bk profile prompt timeout =
     bracketed tw bk ''codex'' (bash (join '' '' (codex_parts profile []))) prompt timeout
       (codex_litellm_raw_result tw bk)"

section \<open>The waits end\<close>

definition slept :: "world \<Rightarrow> int" where
  "slept w = sum_list (map (\<lambda>c. case c of Sleep s \<Rightarrow> s | _ \<Rightarrow> 0) (wd_calls w))"

definition next_backoff :: "backoff_state \<Rightarrow> backoff_state" where
  "next_backoff st =
     st\<lparr>bo_waited := bo_waited st + bo_next st, bo_next := min (bo_next st * 2) (bo_max st),
        bo_retries := bo_retries st + 1\<rparr>"

lemma emit_status_run: "\<exists>d. emit_status bk st w = (Inr (), w\<lparr>wd_db := d\<rparr>)"
proof (cases "bk_call bk")
  case None
  then show ?thesis by (intro exI [of _ "wd_db w"]) (simp add: emit_status_def act_simps)
next
  case (Some i)
  obtain r d where "update_agent_call_status i st (wd_db w) = (r, d)" by fastforce
  with Some show ?thesis
    by (intro exI [of _ d]) (cases r; simp add: emit_status_def on_store_def act_simps)
qed

lemma bk_run_slept: "bk_run tw bk argv stdin t w = (r, v) \<Longrightarrow> slept v = slept w"
  by (auto simp: bk_run_def outside_def Let_def slept_def)

lemma auth_retry_run:
  assumes "handle_agent_auth_retry tw bk rc out err st w = (r, v)" and "bo_next st \<ge> 0"
  shows "(\<exists>x. r = Inr (x, st) \<and> x \<noteq> (True, None) \<and> slept v = slept w) \<or>
    (r = Inr ((True, None), next_backoff st) \<and> bo_waited st < bo_max_total st \<and> slept v = slept w + 1000 * bo_next st)"
proof (cases "is_transient_agent_auth_failure rc out err \<and> bo_waited st < bo_max_total st")
  case True
  obtain d where d: "emit_status bk ''backoff_auth'' w = (Inr (), w\<lparr>wd_db := d\<rparr>)" using emit_status_run by blast
  obtain u where u: "sleep_s tw (bo_next st) (w\<lparr>wd_db := d\<rparr>) = (Inr (), u)" "slept u = slept w + 1000 * bo_next st"
    using assms(2) by (simp add: sleep_s_def sleep_def outside_def Let_def slept_def)
  obtain d' where d': "emit_status bk ''running'' u = (Inr (), u\<lparr>wd_db := d'\<rparr>)" using emit_status_run by blast
  have "slept (u\<lparr>wd_db := d'\<rparr>) = slept u" by (simp add: slept_def)
  with assms True d u d' show ?thesis
    by (simp add: handle_agent_auth_retry_def act_simps next_backoff_def)
next
  case False
  with assms show ?thesis by (auto simp: handle_agent_auth_retry_def act_simps split: if_splits)
qed

lemma retry_turn_run:
  assumes "retry_turn tw bk cmd stdin t st w = (r, v)" and "bo_next st \<ge> 0"
  shows "((\<forall>st'. r \<noteq> Inr (Inl st')) \<and> slept v = slept w) \<or>
    (r = Inr (Inl (next_backoff st)) \<and> bo_waited st < bo_max_total st \<and> slept v = slept w + 1000 * bo_next st)"
proof -
  obtain a u where run: "bk_run tw bk cmd stdin t w = (a, u)" by fastforce
  note u = bk_run_slept [OF run]
  consider e where "a = Inl e" | out err where "a = Inr (Expired out err)"
    | rc out err where "a = Inr (Exited (rc, out, err))"
    by (metis exec_answer.exhaust prod_cases3 sum.exhaust)
  then show ?thesis
  proof cases
    case (3 rc out err)
    obtain q z where auth: "handle_agent_auth_retry tw bk rc out err st u = (q, z)" by fastforce
    from auth_retry_run [OF auth assms(2)] 3 run assms(1) auth u show ?thesis
      by (auto simp: retry_turn_def act_simps split: if_splits option.splits)
  qed (use run assms(1) u in \<open>auto simp: retry_turn_def act_simps\<close>)
qed

definition wait_budget :: "backoff_state \<Rightarrow> int" where
  "wait_budget st =
     (if bo_waited st < bo_max_total st
      then bo_max_total st - bo_waited st - 1 + max (bo_next st) (bo_max st) else 0)"

lemma retry_loop_ends:
  assumes "bo_next st \<ge> 1" and "bo_max st \<ge> 1"
  shows "\<exists>r w'. p_loop (\<lambda>st. p_act (retry_turn tw bk cmd stdin t st)) st w = Some (r, w') \<and>
    slept w' \<le> slept w + 1000 * wait_budget st"
  using assms
proof (induction "nat (bo_max_total st - bo_waited st)" arbitrary: st w rule: less_induct)
  case less
  let ?loop = "p_loop (\<lambda>st. p_act (retry_turn tw bk cmd stdin t st))"
  obtain r v where run: "retry_turn tw bk cmd stdin t st w = (r, v)" by fastforce
  have pos: "wait_budget st \<ge> 0" using less.prems by (simp add: wait_budget_def)
  consider "\<forall>st'. r \<noteq> Inr (Inl st')" "slept v = slept w"
    | "r = Inr (Inl (next_backoff st))" "bo_waited st < bo_max_total st" "slept v = slept w + 1000 * bo_next st"
    using retry_turn_run [OF run] less.prems(1) by fastforce
  then show ?case
  proof cases
    case 1
    then consider e where "r = Inl e" | a where "r = Inr (Inr a)" by (metis sum.exhaust)
    then show ?thesis
      by cases (subst p_loop.simps, use 1 run pos in \<open>simp add: p_act_def\<close>)+
  next
    case 2
    have st': "bo_next (next_backoff st) \<ge> 1" "bo_max (next_backoff st) \<ge> 1"
      using less.prems by (simp_all add: next_backoff_def)
    have "nat (bo_max_total (next_backoff st) - bo_waited (next_backoff st)) < nat (bo_max_total st - bo_waited st)"
      using 2 less.prems by (simp add: next_backoff_def)
    from less.hyps [OF this st', of v]
    obtain x w' where rest: "?loop (next_backoff st) v = Some (x, w')"
      "slept w' \<le> slept v + 1000 * wait_budget (next_backoff st)" by blast
    have "bo_next st + wait_budget (next_backoff st) \<le> wait_budget st"
      using 2 less.prems by (auto simp: next_backoff_def wait_budget_def)
    with 2 rest(2) have "slept w' \<le> slept w + 1000 * wait_budget st" by simp
    moreover have "?loop st w = Some (x, w')"
      using rest(1) by (subst p_loop.simps) (simp add: p_act_def run 2)
    ultimately show ?thesis by blast
  qed
qed

text \<open>The three knobs as the environment has them.\<close>

definition env_knob :: "backend \<Rightarrow> string \<Rightarrow> int \<Rightarrow> int option" where
  "env_knob bk name dflt = (case bk_environ bk name of None \<Rightarrow> Some dflt | Some s \<Rightarrow> parse_int s)"

lemma env_int_run: "env_knob bk name dflt = Some n \<Longrightarrow> env_int bk name dflt w = (Inr n, w)"
  by (auto simp: env_knob_def env_int_def act_simps split: option.splits)

lemma auth_backoff_run:
  assumes "env_knob bk ''QUIKODE_AUTH_BACKOFF_INITIAL_S'' 15 = Some i"
    and "env_knob bk ''QUIKODE_AUTH_BACKOFF_MAX_S'' 120 = Some m"
    and "env_knob bk ''QUIKODE_AUTH_MAX_TOTAL_WAIT_S'' 900 = Some t"
  shows "auth_backoff bk w = (Inr \<lparr>bo_next = i, bo_max = m, bo_waited = 0, bo_max_total = t, bo_retries = 0\<rparr>, w)"
  using assms
  by (simp add: auth_backoff_def auth_backoff_initial_s_def auth_backoff_max_s_def auth_max_total_wait_s_def
      act_simps env_int_run)

text \<open>
  C34: An agent call that keeps failing on authentication is given up. With positive delays the call always returns,
  whatever the container answers, and it sleeps less than the cap and one longest delay together, in seconds: with
  the defaults at most 1019.\<close>

theorem auth_backoff_bounded:
  assumes "env_knob bk ''QUIKODE_AUTH_BACKOFF_INITIAL_S'' 15 = Some i" and "i \<ge> 1"
    and "env_knob bk ''QUIKODE_AUTH_BACKOFF_MAX_S'' 120 = Some m" and "m \<ge> 1"
    and "env_knob bk ''QUIKODE_AUTH_MAX_TOTAL_WAIT_S'' 900 = Some t" and "t \<ge> 1"
  shows "\<exists>r w'. run_with_retry tw bk cmd stdin timeout w = Some (r, w') \<and>
    slept w' \<le> slept w + 1000 * (t - 1 + max i m)"
proof -
  let ?st = "\<lparr>bo_next = i, bo_max = m, bo_waited = 0, bo_max_total = t, bo_retries = 0\<rparr>"
  have "wait_budget ?st = t - 1 + max i m" using assms(6) by (simp add: wait_budget_def)
  with retry_loop_ends [of ?st tw bk cmd stdin timeout w] assms(2,4) show ?thesis
    by (simp add: run_with_retry_def p_bind_def p_act_def auth_backoff_run [OF assms(1,3,5)])
qed

text \<open>A first delay of zero stays zero: while the failure lasts, the loop turns without waiting and never returns.\<close>

lemma no_backoff_spins:
  assumes fails: "\<And>n argv stdin. \<exists>rc out err. bk_exec bk n argv stdin = Inr (Exited (rc, out, err)) \<and>
      \<not> is_transient_container_failure rc err \<and> \<not> is_quota_exhausted rc out err \<and>
      is_transient_agent_auth_failure rc out err"
    and "bo_next st = 0" and "bo_max st \<ge> 0" and "bo_waited st < bo_max_total st"
  shows "p_loop (\<lambda>st. p_act (retry_turn tw bk cmd stdin t st)) st w = None"
proof (rule ccontr)
  let ?spin = "\<lambda>st. bo_next st = 0 \<and> bo_max st \<ge> 0 \<and> bo_waited st < bo_max_total st"
  have turn: "\<exists>v. retry_turn tw bk cmd stdin t st w = (Inr (Inl (next_backoff st)), v)" if "?spin st" for st w
  proof -
    obtain rc out err where a: "bk_exec bk (length (wd_calls w)) cmd stdin = Inr (Exited (rc, out, err))"
      "\<not> is_transient_container_failure rc err" "\<not> is_quota_exhausted rc out err"
      "is_transient_agent_auth_failure rc out err" using fails by blast
    obtain u where u: "bk_run tw bk cmd stdin t w = (Inr (Exited (rc, out, err)), u)"
      using a(1) by (simp add: bk_run_def outside_def Let_def)
    obtain d where d: "emit_status bk ''backoff_auth'' u = (Inr (), u\<lparr>wd_db := d\<rparr>)" using emit_status_run by blast
    obtain z where z: "sleep_s tw 0 (u\<lparr>wd_db := d\<rparr>) = (Inr (), z)"
      by (simp add: sleep_s_def sleep_def outside_def Let_def)
    obtain d' where d': "emit_status bk ''running'' z = (Inr (), z\<lparr>wd_db := d'\<rparr>)" using emit_status_run by blast
    show ?thesis
      using that a u d z d' by (simp add: retry_turn_def handle_agent_auth_retry_def act_simps next_backoff_def)
  qed
  have spin: "?spin (next_backoff st)" if "?spin st" for st using that by (simp add: next_backoff_def)
  assume "p_loop (\<lambda>st. p_act (retry_turn tw bk cmd stdin t st)) st w \<noteq> None"
  then obtain y where "p_loop (\<lambda>st. p_act (retry_turn tw bk cmd stdin t st)) st w = Some y" by blast
  then have "\<not> ?spin st"
  proof (rule p_loop_run [where Q = "\<lambda>st w y. \<not> ?spin st"])
    fix s w s' w' y
    assume "p_act (retry_turn tw bk cmd stdin t s) w = Some (Inr (Inl s'), w')" "\<not> ?spin s'"
    with turn [of s w] spin [of s] show "\<not> ?spin s" by (auto simp: p_act_def)
  next
    fix s w e w'
    assume "p_act (retry_turn tw bk cmd stdin t s) w = Some (Inl e, w')"
    with turn [of s w] show "\<not> ?spin s" by (auto simp: p_act_def)
  next
    fix s w a w'
    assume "p_act (retry_turn tw bk cmd stdin t s) w = Some (Inr (Inr a), w')"
    with turn [of s w] show "\<not> ?spin s" by (auto simp: p_act_def)
  qed
  with assms show False by blast
qed


section \<open>A quota failure is recognised again\<close>

text \<open>Positions a pattern can reach.\<close>

lemma ends_seqI: "m' \<in> set (ends a s m) \<Longrightarrow> m'' \<in> set (ends b s m') \<Longrightarrow> m'' \<in> set (ends (Seq a b) s m)"
  by auto

lemma ends_word:
  "drop i s = w @ q \<Longrightarrow> (i + length w, g) \<in> set (ends (ilit w) s (i, g))"
proof (induction w arbitrary: i)
  case Nil
  have "takeWhile (\<lambda>_. False) q = []" by (cases q) simp_all
  with Nil show ?case by (simp add: ilit_def run_end_def)
next
  case (Cons c w)
  then have i: "i < length s" "s ! i = c" "drop (Suc i) s = w @ q"
    by (metis append_Cons drop_eq_Nil leI list.simps(3),
        metis append_Cons nth_via_drop,
        metis append_Cons drop_Suc list.sel(3) tl_drop)
  show ?case
  proof (cases w)
    case Nil
    with i show ?thesis by (simp add: ilit_def same_letter_def)
  next
    case (Cons d w')
    then have "ilit (c # w) = Seq (One (same_letter c)) (ilit w)" by (simp add: ilit_def)
    moreover have "(Suc i, g) \<in> set (ends (One (same_letter c)) s (i, g))" using i by (simp add: same_letter_def)
    ultimately show ?thesis
      using ends_seqI [OF _ Cons.IH [OF i(3)]] by fastforce
  qed
qed

lemma ends_word_at: "drop i s = w @ q \<Longrightarrow> j = i + length w \<Longrightarrow> (j, g) \<in> set (ends (ilit w) s (i, g))"
  using ends_word by simp

lemma up_to_none: "(i, g) \<in> set (ends (up_to n p) s (i, g))"
proof -
  have "takeWhile (\<lambda>_. False) q = []" for q :: string by (cases q) simp_all
  then show ?thesis by (cases n) (simp_all add: run_end_def)
qed

lemma up_to_one: "i < length s \<Longrightarrow> p (s ! i) \<Longrightarrow> (Suc i, g) \<in> set (ends (up_to (Suc n) p) s (i, g))"
  using up_to_none [of "Suc i" g n p s] by auto

lemma search_at: "i \<le> length s \<Longrightarrow> ends r s (i, []) \<noteq> [] \<Longrightarrow> search r s \<noteq> None"
  by (auto simp: search_def first_match_None match_at_def neq_Nil_conv intro!: bexI [of _ i])

lemma quota_phrase_found: "search quota_phrase (p @ ''quota exhausted'' @ q) \<noteq> None"
proof (rule search_at [where i = "length p"])
  let ?s = "p @ ''quota exhausted'' @ q" and ?i = "length p"
  let ?a = "alt_of [seq_of [ilit ''rate'', joint, ilit ''limit''], ilit ''quota'', seq_of [ilit ''usage'', joint, ilit ''limit'']]"
  let ?c = "alt_of [ilit ''exceeded'', ilit ''reached'', ilit ''exhausted'', ilit ''hit'']"
  have "(?i + 5, []) \<in> set (ends (ilit ''quota'') ?s (?i, []))"
    by (rule ends_word_at [where q = "'' exhausted'' @ q"]) simp_all
  then have a: "(?i + 5, []) \<in> set (ends ?a ?s (?i, []))" by simp
  have b: "(Suc (?i + 5), []) \<in> set (ends (up_to (Suc 79) any_char) ?s (?i + 5, []))"
    by (rule up_to_one) (simp_all add: nth_append any_char_def)
  have "(Suc (?i + 5) + 9, []) \<in> set (ends (ilit ''exhausted'') ?s (Suc (?i + 5), []))"
    by (rule ends_word_at [where q = q]) simp_all
  then have c: "(Suc (?i + 5) + 9, []) \<in> set (ends ?c ?s (Suc (?i + 5), []))" by simp
  have "quota_phrase = Seq ?a (Seq (up_to (Suc 79) any_char) ?c)"
    unfolding quota_phrase_def seq_of.simps by simp
  with ends_seqI [OF a ends_seqI [OF b c]] show "ends quota_phrase ?s (?i, []) \<noteq> []" by (metis list.set(1) empty_iff)
qed simp


section \<open>What procedures return\<close>

definition p_yields :: "('a \<Rightarrow> bool) \<Rightarrow> 'a proc \<Rightarrow> bool" where
  "p_yields Q m \<longleftrightarrow> (\<forall>w a w'. m w = Some (Inr a, w') \<longrightarrow> Q a)"

lemma p_yieldsD: "p_yields Q m \<Longrightarrow> m w = Some (Inr a, w') \<Longrightarrow> Q a"
  unfolding p_yields_def by blast

lemma p_yields_act: "yields Q m \<Longrightarrow> p_yields Q (p_act m)"
  by (auto simp: p_yields_def p_act_def dest: yieldsD)

lemma p_yields_bind:
  assumes "p_yields R m" and "\<And>a. R a \<Longrightarrow> p_yields Q (f a)"
  shows "p_yields Q (p_bind m f)"
  unfolding p_yields_def
proof (intro allI impI)
  fix w b w'
  assume "p_bind m f w = Some (Inr b, w')"
  then obtain a v where "m w = Some (Inr a, v)" "f a v = Some (Inr b, w')"
    by (auto simp: p_bind_def split: option.splits sum.splits)
  then show "Q b" using assms by (blast dest: p_yieldsD)
qed

lemma p_bind_yields: "(\<And>a. p_yields Q (f a)) \<Longrightarrow> p_yields Q (p_bind m f)"
  by (rule p_yields_bind [where R = "\<lambda>_. True"]) (simp_all add: p_yields_def)

lemma p_yields_loop:
  assumes turn: "\<And>s. yields (\<lambda>x. \<forall>a. x = Inr a \<longrightarrow> Q a) (turn s)"
  shows "p_yields Q (p_loop (\<lambda>s. p_act (turn s)) s)"
  unfolding p_yields_def
proof (intro allI impI)
  fix w a w'
  assume "p_loop (\<lambda>s. p_act (turn s)) s w = Some (Inr a, w')"
  then have "\<forall>b. fst (Inr a :: py_error + 'b, w') = Inr b \<longrightarrow> Q b"
  proof (rule p_loop_run [where Q = "\<lambda>s w y. \<forall>b. fst y = Inr b \<longrightarrow> Q b"])
    fix s w a w'
    assume "p_act (turn s) w = Some (Inr (Inr a), w')"
    with yieldsD [OF turn, of s w "Inr a" w'] show "\<forall>b. fst (Inr a :: py_error + 'b, w') = Inr b \<longrightarrow> Q b"
      by (simp add: p_act_def)
  qed simp_all
  then show "Q a" by simp
qed

section \<open>Exit codes\<close>

lemma str_nat_length: "length (str_nat n) \<le> Suc n"
proof (induction n rule: str_nat.induct)
  case (1 n)
  show ?case
  proof (cases "n < 10")
    case False
    with 1 have "length (str_nat (n div 10)) \<le> Suc (n div 10)" by blast
    with False show ?thesis by (subst str_nat.simps) simp
  qed (subst str_nat.simps, simp)
qed

text \<open>The return code of a process is a byte, or the negative number of the signal that ended it.\<close>

definition exit_codes :: "backend \<Rightarrow> bool" where
  "exit_codes bk \<longleftrightarrow>
     (\<forall>n argv stdin rc out err. bk_exec bk n argv stdin = Inr (Exited (rc, out, err)) \<longrightarrow> \<bar>rc\<bar> \<le> 255)"

lemma str_int_length: "\<bar>rc\<bar> \<le> 255 \<Longrightarrow> length (str_int rc) \<le> 257"
  using str_nat_length [of "nat (- rc)"] str_nat_length [of "nat rc"] by (auto simp: str_int_def)

lemma tail_of_append: "length t \<le> n \<Longrightarrow> \<exists>p. tail_of n (s @ t) = p @ t"
  by (simp add: tail_of_def)

definition quota_note :: "int \<Rightarrow> string" where
  "quota_note rc =
     nl @ ''[quikode] quota exhausted (rc='' @ str_int rc @
     ''); fast-fail to chain walker / worker-layer retry (no in-transport sleep)''"

lemma quota_note_found:
  assumes "\<bar>rc\<bar> \<le> 255" and "rc \<noteq> 0"
  shows "is_quota_exhausted rc out (tail_of 2000 (err @ quota_note rc))"
proof -
  have "length (quota_note rc) \<le> 2000" using str_int_length [OF assms(1)] by (simp add: quota_note_def nl_def)
  then obtain p where p: "tail_of 2000 (err @ quota_note rc) = p @ quota_note rc" using tail_of_append by blast
  let ?q = "'' (rc='' @ str_int rc @ ''); fast-fail to chain walker / worker-layer retry (no in-transport sleep)''"
  have "p @ quota_note rc = (p @ nl @ ''[quikode] '') @ ''quota exhausted'' @ ?q" by (simp add: quota_note_def)
  with p have "search quota_phrase (tail_of 2000 (err @ quota_note rc)) \<noteq> None"
    using quota_phrase_found [of "p @ nl @ ''[quikode] ''" ?q] by simp
  moreover have "tail_of 2000 (err @ quota_note rc) \<noteq> []" using p by (simp add: quota_note_def)
  ultimately show ?thesis
    using assms(2) by (simp add: is_quota_exhausted_def any_pattern_def quota_exhausted_patterns_def)
qed

text \<open>Where an outcome with the category of quotas comes from.\<close>

definition quota_source :: "exec_outcome \<Rightarrow> bool" where
  "quota_source o' \<longleftrightarrow>
     (eo_category o' = ''quota_exhausted'' \<longrightarrow>
        (\<exists>rc out err. \<bar>rc\<bar> \<le> 255 \<and> rc \<noteq> 0 \<and> o' = quota_outcome rc out err))"

lemma quota_sources:
  "quota_source (expired_outcome bk t co ce)" "quota_source (vanished_outcome rc out err)"
  "quota_source (exit_outcome rc out err)"
  by (simp_all add: quota_source_def expired_outcome_def vanished_outcome_def exit_outcome_def)

lemma quota_outcome_source:
  assumes "\<bar>rc\<bar> \<le> 255" and "is_quota_exhausted rc out err"
  shows "quota_source (quota_outcome rc out err)"
proof -
  have "rc \<noteq> 0" using assms(2) by (auto simp: is_quota_exhausted_def)
  with assms(1) show ?thesis unfolding quota_source_def by blast
qed

lemma auth_retry_source:
  "handle_agent_auth_retry tw bk rc out err st w = (Inr ((h, Some o'), st'), v) \<Longrightarrow> quota_source o'"
  by (auto simp: handle_agent_auth_retry_def quota_source_def act_simps split: if_splits prod.splits sum.splits)

lemma retry_turn_source:
  assumes "exit_codes bk"
  shows "yields (\<lambda>x. \<forall>o'. x = Inr o' \<longrightarrow> quota_source o') (retry_turn tw bk cmd stdin t st)"
  unfolding yields_def
proof (intro allI impI)
  fix w x o'
  assume run: "fst (retry_turn tw bk cmd stdin t st w) = Inr x" and x: "x = Inr o'"
  let ?a = "bk_exec bk (length (wd_calls w)) cmd stdin"
  obtain u where u: "bk_run tw bk cmd stdin t w = (?a, u)" by (simp add: bk_run_def outside_def Let_def)
  consider e where "?a = Inl e" | co ce where "?a = Inr (Expired co ce)" | rc out err where "?a = Inr (Exited (rc, out, err))"
    by (metis exec_answer.exhaust prod_cases3 sum.exhaust)
  then show "quota_source o'"
  proof cases
    case (3 rc out err)
    then have "\<bar>rc\<bar> \<le> 255" using assms unfolding exit_codes_def by blast
    obtain q z where auth: "handle_agent_auth_retry tw bk rc out err st u = (q, z)" by fastforce
    show ?thesis
      using run x u 3 auth \<open>\<bar>rc\<bar> \<le> 255\<close> auth_retry_source [of tw bk rc out err st u]
      by (auto simp: retry_turn_def act_simps quota_sources quota_outcome_source split: if_splits sum.splits option.splits)
  qed (use run x u in \<open>auto simp: retry_turn_def act_simps quota_sources\<close>)
qed

lemma run_source: "exit_codes bk \<Longrightarrow> p_yields quota_source (run_with_retry tw bk cmd stdin t)"
  unfolding run_with_retry_def by (intro p_bind_yields p_yields_loop retry_turn_source)

section \<open>A concrete backend\<close>

definition demo_backend :: backend where
  "demo_backend =
     \<lparr>bk_exec = (\<lambda>_ _ _. Inr (Exited (1, [], ''too many requests''))), bk_environ = (\<lambda>_. None), bk_decode = (\<lambda>s. s),
      bk_dumps = (\<lambda>_ _. ''{}''), bk_json_error = (\<lambda>_. ''bad''), bk_float = (\<lambda>_. None), bk_dollar = 100,
      bk_call = None\<rparr>"

lemma demo_backend_exits [simp]: "exit_codes demo_backend"
  by (simp add: exit_codes_def demo_backend_def)

theorem auth_backoff_bounded_witness:
  "\<exists>r w'. run_with_retry demo_worker demo_backend [''true''] None 5 (demo_world []) = Some (r, w') \<and>
     slept w' \<le> slept (demo_world []) + 1000 * (900 - 1 + max 15 120)"
  by (rule auth_backoff_bounded) (simp_all add: env_knob_def demo_backend_def)

end
