(* ===== verification/Answers.thy ===== *)
theory Answers
  imports Transport
begin

text \<open>
  From the text of a CLI to a validated answer: \<^verbatim>\<open>agents/json_validation.py\<close>, with its one repeated prompt and its
  search for an object in prose. A transport is a record of the methods of its protocol
  (\<^verbatim>\<open>agents/json_protocol_types.py\<close>), a pydantic model the record \<open>schema\<close>.
\<close>

record transport =
  tp_name :: string
  tp_enforcement :: string
  tp_invoke :: "string \<Rightarrow> schema option \<Rightarrow> int \<Rightarrow> raw_result proc"
  tp_invoke_raw :: "string \<Rightarrow> int \<Rightarrow> raw_result proc"

section \<open>Prompts of the second call\<close>

definition indented_schema :: "backend \<Rightarrow> schema \<Rightarrow> string" where
  "indented_schema bk sc = bk_dumps bk (Some 2) (sc_json sc)"

definition schema_feedback :: "string \<Rightarrow> string" where
  "schema_feedback schema_text =
     ''Respond ONLY with valid JSON matching this exact schema:'' @ nl @ nl @ schema_text @ nl @ nl @
     ''Do not include any prose, markdown fences, or explanations. The output must be parseable by '' @
     ''`model_validate_json` directly.''"

definition after_rule :: "string \<Rightarrow> string \<Rightarrow> string" where
  "after_rule prompt feedback = prompt @ nl @ nl @ ''---'' @ nl @ nl @ feedback"

definition build_reprompt :: "backend \<Rightarrow> string \<Rightarrow> string \<Rightarrow> schema \<Rightarrow> string" where
  "build_reprompt bk prompt error sc =
     after_rule prompt
       (''Your previous response failed schema validation:'' @ nl @ nl @ take 2000 error @ nl @ nl @
        schema_feedback (indented_schema bk sc))"

definition build_missing_payload_reprompt :: "backend \<Rightarrow> string \<Rightarrow> string \<Rightarrow> schema \<Rightarrow> string" where
  "build_missing_payload_reprompt bk prompt error sc =
     after_rule prompt
       (''Your previous response did not produce the required structured JSON payload.'' @ nl @ nl @ ''Reason:'' @ nl @
        take 2000 error @ nl @ nl @ schema_feedback (indented_schema bk sc))"

section \<open>Finding the object in a text\<close>

text \<open>The loop variables of the scanner: where an object started, how deep, in a string, after a backslash, the finds.\<close>

record scan =
  sn_start :: "nat option"
  sn_depth :: nat
  sn_in_string :: bool
  sn_escaped :: bool
  sn_found :: "string list"

definition scan_char :: "string \<Rightarrow> nat \<Rightarrow> scan \<Rightarrow> scan" where
  "scan_char txt i s =
     (let c = txt ! i
      in if sn_in_string s
         then (if sn_escaped s then s\<lparr>sn_escaped := False\<rparr>
               else if c = CHR 0x5C then s\<lparr>sn_escaped := True\<rparr>
               else if c = CHR 0x22 then s\<lparr>sn_in_string := False\<rparr>
               else s)
         else if c = CHR 0x22 then s\<lparr>sn_in_string := True\<rparr>
         else if c = CHR ''{''
         then s\<lparr>sn_start := (if sn_depth s = 0 then Some i else sn_start s), sn_depth := sn_depth s + 1\<rparr>
         else if c = CHR ''}'' \<and> sn_depth s > 0
         then (case (sn_depth s - 1, sn_start s) of
                 (0, Some a) \<Rightarrow>
                   s\<lparr>sn_depth := 0, sn_start := None, sn_found := sn_found s @ [slice a (i + 1) txt]\<rparr>
               | (d, _) \<Rightarrow> s\<lparr>sn_depth := d\<rparr>)
         else s)"

definition scan_start :: scan where
  "scan_start = \<lparr>sn_start = None, sn_depth = 0, sn_in_string = False, sn_escaped = False, sn_found = []\<rparr>"

definition json_object_candidates :: "string \<Rightarrow> string list" where
  "json_object_candidates txt =
     rev (tail_of 20 (sn_found (fold (scan_char txt) [0 ..< length txt] scan_start)))"

section \<open>Validation\<close>

definition format_validation_errors :: "validation_error \<Rightarrow> string list" where
  "format_validation_errors e =
     map (\<lambda>(loc, msg). let l = join ''.'' loc in if l \<noteq> [] then l @ '': '' @ msg else msg) (ve_errors e)"

fun first_valid :: "schema \<Rightarrow> string list \<Rightarrow> structured option" where
  "first_valid sc [] = None"
| "first_valid sc (c # cs) = (case sc_validate_json sc c of Inr v \<Rightarrow> Some v | Inl _ \<Rightarrow> first_valid sc cs)"

definition validate_client_side_payload :: "schema \<Rightarrow> string \<Rightarrow> structured option \<times> string list" where
  "validate_client_side_payload sc txt =
     (case sc_validate_json sc txt of
        Inr v \<Rightarrow> (Some v, [])
      | Inl e \<Rightarrow>
          (case first_valid sc (json_object_candidates txt) of
             Some v \<Rightarrow> (Some v, [])
           | None \<Rightarrow> (None, format_validation_errors e)))"

definition sum_opt :: "int option \<Rightarrow> int option \<Rightarrow> int option" where
  "sum_opt a b =
     (if a = None \<and> b = None then None
      else Some ((case a of None \<Rightarrow> 0 | Some n \<Rightarrow> n) + (case b of None \<Rightarrow> 0 | Some n \<Rightarrow> n)))"

text \<open>A \<^verbatim>\<open>JsonAgentResult\<close>; its text is empty where the source has \<^verbatim>\<open>None\<close>.\<close>

definition result_from_raw :: "raw_result \<Rightarrow> structured option \<Rightarrow> string list \<Rightarrow> agent_result" where
  "result_from_raw raw v errors =
     \<lparr>ag_rc = rr_rc raw, ag_raw_text = opt_text (rr_raw_text raw), ag_structured = v, ag_parse_errors = errors,
      ag_transient = rr_transient raw, ag_category = rr_category raw, ag_stderr_excerpt = rr_stderr_excerpt raw,
      ag_duration_s = rr_duration_s raw, ag_tokens_input = rr_tokens_input raw,
      ag_tokens_output = rr_tokens_output raw, ag_cost_usd = rr_cost_usd raw\<rparr>"

definition result_from_two_raw ::
  "raw_result \<Rightarrow> raw_result \<Rightarrow> structured option \<Rightarrow> string list \<Rightarrow> agent_result" where
  "result_from_two_raw first second v errors =
     (result_from_raw second v errors)
       \<lparr>ag_duration_s := rr_duration_s first + rr_duration_s second,
        ag_tokens_input := sum_opt (rr_tokens_input first) (rr_tokens_input second),
        ag_tokens_output := sum_opt (rr_tokens_output first) (rr_tokens_output second),
        ag_cost_usd := sum_opt (rr_cost_usd first) (rr_cost_usd second)\<rparr>"

definition missing_payload_error :: "raw_result \<Rightarrow> string" where
  "missing_payload_error raw =
     ''cli_native transport returned structured=None; CLI envelope was missing the schema-validated payload'' @
     (if opt_text (rr_raw_text raw) \<noteq> []
      then ''; raw output excerpt: '' @ take 1000 (opt_text (rr_raw_text raw)) else []) @
     (if rr_stderr_excerpt raw \<noteq> [] then ''; stderr excerpt: '' @ take 1000 (rr_stderr_excerpt raw) else [])"

text \<open>The three second calls: what each makes of the answer.\<close>

definition second_missing_payload :: "schema \<Rightarrow> raw_result \<Rightarrow> raw_result \<Rightarrow> agent_result" where
  "second_missing_payload sc first second =
     (if rr_rc second \<noteq> 0
      then result_from_two_raw first second None [missing_payload_error first]
      else case rr_structured second of
             None \<Rightarrow> result_from_two_raw first second None [missing_payload_error first, missing_payload_error second]
           | Some v \<Rightarrow>
               (case sc_validate sc v of
                  Inl e \<Rightarrow> result_from_two_raw first second None
                    (missing_payload_error first # format_validation_errors e)
                | Inr x \<Rightarrow> result_from_two_raw first second (Some x) []))"

definition second_cli_native :: "schema \<Rightarrow> string list \<Rightarrow> raw_result \<Rightarrow> raw_result \<Rightarrow> agent_result" where
  "second_cli_native sc first_errors first second =
     (if rr_rc second \<noteq> 0 then result_from_two_raw first second None first_errors
      else case rr_structured second of
             None \<Rightarrow> result_from_two_raw first second None first_errors
           | Some v \<Rightarrow>
               (case sc_validate sc v of
                  Inl e \<Rightarrow> result_from_two_raw first second None (first_errors @ format_validation_errors e)
                | Inr x \<Rightarrow> result_from_two_raw first second (Some x) []))"

definition second_client_side :: "schema \<Rightarrow> string list \<Rightarrow> raw_result \<Rightarrow> raw_result \<Rightarrow> agent_result" where
  "second_client_side sc first_errors first second =
     (if rr_rc second \<noteq> 0 then result_from_two_raw first second None first_errors
      else case rr_raw_text second of
             None \<Rightarrow> result_from_two_raw first second None first_errors
           | Some txt \<Rightarrow>
               (case validate_client_side_payload sc txt of
                  (None, errors) \<Rightarrow> result_from_two_raw first second None (first_errors @ errors)
                | (Some x, _) \<Rightarrow> result_from_two_raw first second (Some x) []))"

definition again ::
  "transport \<Rightarrow> string \<Rightarrow> schema \<Rightarrow> int \<Rightarrow> (raw_result \<Rightarrow> agent_result) \<Rightarrow> agent_result proc" where
  "again tp prompt sc timeout settle =
     p_bind (tp_invoke tp prompt (Some sc) timeout) (\<lambda>second. p_return (settle second))"

definition retry_after_cli_native_missing_payload ::
  "backend \<Rightarrow> transport \<Rightarrow> string \<Rightarrow> raw_result \<Rightarrow> schema \<Rightarrow> int \<Rightarrow> agent_result proc" where
  "retry_after_cli_native_missing_payload bk tp prompt first sc timeout =
     again tp (build_missing_payload_reprompt bk prompt (missing_payload_error first) sc) sc timeout
       (second_missing_payload sc first)"

definition retry_after_cli_native_validation_error ::
  "backend \<Rightarrow> transport \<Rightarrow> string \<Rightarrow> raw_result \<Rightarrow> validation_error \<Rightarrow> schema \<Rightarrow> int \<Rightarrow> agent_result proc" where
  "retry_after_cli_native_validation_error bk tp prompt first err sc timeout =
     again tp (build_reprompt bk prompt (ve_repr err) sc) sc timeout
       (second_cli_native sc (format_validation_errors err) first)"

definition validate_cli_native ::
  "backend \<Rightarrow> transport \<Rightarrow> string \<Rightarrow> raw_result \<Rightarrow> schema \<Rightarrow> int \<Rightarrow> agent_result proc" where
  "validate_cli_native bk tp prompt raw sc timeout =
     (case rr_structured raw of
        None \<Rightarrow> retry_after_cli_native_missing_payload bk tp prompt raw sc timeout
      | Some v \<Rightarrow>
          (case sc_validate sc v of
             Inl e \<Rightarrow> retry_after_cli_native_validation_error bk tp prompt raw e sc timeout
           | Inr x \<Rightarrow> p_return (result_from_raw raw (Some x) [])))"

definition retry_after_validation_error ::
  "backend \<Rightarrow> transport \<Rightarrow> string \<Rightarrow> raw_result \<Rightarrow> string list \<Rightarrow> schema \<Rightarrow> int \<Rightarrow> agent_result proc" where
  "retry_after_validation_error bk tp prompt first first_errors sc timeout =
     again tp (build_reprompt bk prompt (join nl first_errors) sc) sc timeout
       (second_client_side sc first_errors first)"

definition validate_client_side ::
  "backend \<Rightarrow> transport \<Rightarrow> string \<Rightarrow> raw_result \<Rightarrow> schema \<Rightarrow> int \<Rightarrow> agent_result proc" where
  "validate_client_side bk tp prompt raw sc timeout =
     (case validate_client_side_payload sc (opt_text (rr_raw_text raw)) of
        (None, errors) \<Rightarrow> retry_after_validation_error bk tp prompt raw errors sc timeout
      | (Some x, _) \<Rightarrow> p_return (result_from_raw raw (Some x) []))"

definition invoke_with_validation ::
  "backend \<Rightarrow> transport \<Rightarrow> string \<Rightarrow> schema \<Rightarrow> int \<Rightarrow> agent_result proc" where
  "invoke_with_validation bk tp prompt sc timeout =
     p_bind (tp_invoke tp prompt (Some sc) timeout) (\<lambda>raw.
       if rr_rc raw \<noteq> 0 then p_return (result_from_raw raw None [])
       else if tp_enforcement tp = ''cli_native'' then validate_cli_native bk tp prompt raw sc timeout
       else validate_client_side bk tp prompt raw sc timeout)"

definition invoke_without_validation :: "transport \<Rightarrow> string \<Rightarrow> int \<Rightarrow> agent_result proc" where
  "invoke_without_validation tp prompt timeout =
     p_bind (tp_invoke_raw tp prompt timeout) (\<lambda>raw. p_return (result_from_raw raw None []))"

section \<open>Answers\<close>

text \<open>What a schema accepts, and that its complaints are never empty.\<close>

definition accepts :: "schema \<Rightarrow> structured \<Rightarrow> bool" where
  "accepts sc v \<longleftrightarrow> (\<exists>j. sc_validate sc j = Inr v) \<or> (\<exists>t. sc_validate_json sc t = Inr v)"

definition complains :: "schema \<Rightarrow> bool" where
  "complains sc \<longleftrightarrow>
     (\<forall>j e. sc_validate sc j = Inl e \<longrightarrow> ve_errors e \<noteq> []) \<and>
     (\<forall>t e. sc_validate_json sc t = Inl e \<longrightarrow> ve_errors e \<noteq> [])"

definition settled :: "schema \<Rightarrow> agent_result \<Rightarrow> bool" where
  "settled sc r \<longleftrightarrow>
     (ag_structured r \<noteq> None \<longleftrightarrow> ag_rc r = 0 \<and> ag_parse_errors r = []) \<and>
     (\<forall>v. ag_structured r = Some v \<longrightarrow> accepts sc v)"

lemma first_valid_accepts: "first_valid sc cs = Some v \<Longrightarrow> accepts sc v"
  by (induction cs) (auto simp: accepts_def split: sum.splits)

lemma payload_cases:
  assumes "complains sc"
  obtains v where "validate_client_side_payload sc t = (Some v, [])" and "accepts sc v"
  | errors where "validate_client_side_payload sc t = (None, errors)" and "errors \<noteq> []"
proof (cases "sc_validate_json sc t")
  case (Inr v)
  with that(1) show ?thesis by (auto simp: validate_client_side_payload_def accepts_def)
next
  case (Inl e)
  then have "format_validation_errors e \<noteq> []"
    using assms unfolding complains_def format_validation_errors_def by blast
  with Inl that first_valid_accepts [of sc "json_object_candidates t"] show ?thesis
    by (cases "first_valid sc (json_object_candidates t)") (auto simp: validate_client_side_payload_def)
qed

lemma settled_raw:
  "rr_rc raw = 0 \<Longrightarrow> accepts sc v \<Longrightarrow> settled sc (result_from_raw raw (Some v) [])"
  "rr_rc raw \<noteq> 0 \<Longrightarrow> settled sc (result_from_raw raw None errors)"
  by (simp_all add: settled_def result_from_raw_def)

lemma settled_two:
  "rr_rc second = 0 \<Longrightarrow> accepts sc v \<Longrightarrow> settled sc (result_from_two_raw first second (Some v) [])"
  "rr_rc second \<noteq> 0 \<or> errors \<noteq> [] \<Longrightarrow> settled sc (result_from_two_raw first second None errors)"
  by (auto simp: settled_def result_from_two_raw_def result_from_raw_def)

lemma errors_nonempty: "complains sc \<Longrightarrow> sc_validate sc j = Inl e \<Longrightarrow> format_validation_errors e \<noteq> []"
  by (auto simp: complains_def format_validation_errors_def)

lemma second_settled:
  assumes "complains sc"
  shows "settled sc (second_missing_payload sc first second)"
    and "errors \<noteq> [] \<Longrightarrow> settled sc (second_cli_native sc errors first second)"
    and "errors \<noteq> [] \<Longrightarrow> settled sc (second_client_side sc errors first second)"
proof -
  show "settled sc (second_missing_payload sc first second)"
    by (auto simp: second_missing_payload_def accepts_def intro!: settled_two split: option.splits sum.splits)
  show "settled sc (second_cli_native sc errors first second)" if "errors \<noteq> []"
    using that by (auto simp: second_cli_native_def accepts_def intro!: settled_two split: option.splits sum.splits)
  show "settled sc (second_client_side sc errors first second)" if "errors \<noteq> []"
  proof (cases "rr_rc second = 0 \<and> rr_raw_text second \<noteq> None")
    case True
    then obtain t where t: "rr_rc second = 0" "rr_raw_text second = Some t" by blast
    show ?thesis
      by (rule payload_cases [OF assms, of t])
        (use t that in \<open>auto simp: second_client_side_def intro!: settled_two\<close>)
  next
    case False
    with that show ?thesis by (auto simp: second_client_side_def intro!: settled_two)
  qed
qed

lemma again_settled: "(\<And>second. settled sc (settle second)) \<Longrightarrow> p_yields (settled sc) (again tp prompt sc t settle)"
  unfolding again_def p_return_def by (intro p_bind_yields p_yields_act yields_return)

lemma return_settled: "settled sc r \<Longrightarrow> p_yields (settled sc) (p_return r)"
  unfolding p_return_def by (intro p_yields_act yields_return)

lemma tiers_settled:
  assumes "complains sc" and "rr_rc raw = 0"
  shows "p_yields (settled sc) (validate_cli_native bk tp prompt raw sc t)"
    and "p_yields (settled sc) (validate_client_side bk tp prompt raw sc t)"
proof -
  show "p_yields (settled sc) (validate_cli_native bk tp prompt raw sc t)"
    unfolding validate_cli_native_def retry_after_cli_native_missing_payload_def
      retry_after_cli_native_validation_error_def
    by (auto intro!: again_settled return_settled settled_raw second_settled [OF assms(1)]
        errors_nonempty [OF assms(1)] simp: assms accepts_def split: option.splits sum.splits)
  show "p_yields (settled sc) (validate_client_side bk tp prompt raw sc t)"
    unfolding validate_client_side_def retry_after_validation_error_def
    by (rule payload_cases [OF assms(1), of "opt_text (rr_raw_text raw)"])
      (auto intro!: again_settled return_settled settled_raw second_settled [OF assms(1)] simp: assms)
qed

text \<open>
  C37: What an agent with a schema hands to the workers is of one of three kinds, and the workers can tell them apart.
  Whatever the transport answers in the first and the second call: there is a structured value exactly when the exit
  code is zero and no parse error is reported, and that value is an instance its schema has accepted.\<close>

theorem answer_is_settled:
  assumes "complains sc" and "invoke_with_validation bk tp prompt sc timeout w = Some (Inr r, w')"
  shows "(ag_structured r \<noteq> None \<longleftrightarrow> ag_rc r = 0 \<and> ag_parse_errors r = []) \<and>
    (\<forall>v. ag_structured r = Some v \<longrightarrow> accepts sc v)"
proof -
  have "p_yields (settled sc) (invoke_with_validation bk tp prompt sc timeout)"
    unfolding invoke_with_validation_def
    by (intro p_bind_yields) (auto intro: return_settled settled_raw tiers_settled [OF assms(1)])
  with assms(2) show ?thesis by (auto dest: p_yieldsD simp: settled_def)
qed

section \<open>At most one repetition\<close>

lemma again_run:
  assumes "again tp prompt sc t settle u = Some (Inr r, w')"
  shows "\<exists>second. tp_invoke tp prompt (Some sc) t u = Some (Inr second, w') \<and> r = settle second"
  using assms by (auto simp: again_def p_bind_def p_return_def p_act_def py_return_def split: option.splits sum.splits)

lemma return_run: "p_return a w = Some (Inr r, w') \<longleftrightarrow> r = a \<and> w' = w"
  by (auto simp: p_return_def p_act_def py_return_def)

lemma seconds_sum:
  "ag_duration_s (result_from_two_raw first second v errors) = rr_duration_s first + rr_duration_s second"
  "ag_rc (result_from_two_raw first second v errors) = rr_rc second"
  by (simp_all add: result_from_two_raw_def result_from_raw_def)

lemma second_figures:
  "ag_rc (second_missing_payload sc first second) = rr_rc second \<and>
   ag_duration_s (second_missing_payload sc first second) = rr_duration_s first + rr_duration_s second"
  "ag_rc (second_cli_native sc errors first second) = rr_rc second \<and>
   ag_duration_s (second_cli_native sc errors first second) = rr_duration_s first + rr_duration_s second"
  "ag_rc (second_client_side sc errors first second) = rr_rc second \<and>
   ag_duration_s (second_client_side sc errors first second) = rr_duration_s first + rr_duration_s second"
  by (simp_all add: second_missing_payload_def second_cli_native_def second_client_side_def seconds_sum
      split: option.splits sum.splits prod.splits)

text \<open>
  The calls of an agent with a schema: one, whose exit code and duration the result has, or two, the second one only
  after a clean exit of the first, whose durations add up.
\<close>

definition one_call :: "(string \<Rightarrow> raw_result proc) \<Rightarrow> string \<Rightarrow> world \<Rightarrow> agent_result \<Rightarrow> world \<Rightarrow> bool" where
  "one_call call prompt w r w' \<longleftrightarrow>
     (\<exists>raw. call prompt w = Some (Inr raw, w') \<and> ag_rc r = rr_rc raw \<and> ag_duration_s r = rr_duration_s raw)"

definition two_calls :: "(string \<Rightarrow> raw_result proc) \<Rightarrow> string \<Rightarrow> world \<Rightarrow> agent_result \<Rightarrow> world \<Rightarrow> bool" where
  "two_calls call prompt w r w' \<longleftrightarrow>
     (\<exists>first u prompt' second. call prompt w = Some (Inr first, u) \<and> rr_rc first = 0 \<and>
        call prompt' u = Some (Inr second, w') \<and> ag_rc r = rr_rc second \<and>
        ag_duration_s r = rr_duration_s first + rr_duration_s second)"

lemma at_most_two_calls:
  assumes "invoke_with_validation bk tp prompt sc timeout w = Some (Inr r, w')"
  shows "one_call (\<lambda>p. tp_invoke tp p (Some sc) timeout) prompt w r w' \<or>
    two_calls (\<lambda>p. tp_invoke tp p (Some sc) timeout) prompt w r w'"
proof -
  obtain raw v where raw: "tp_invoke tp prompt (Some sc) timeout w = Some (Inr raw, v)"
    using assms by (auto simp: invoke_with_validation_def p_bind_def split: option.splits sum.splits)
  have one: "one_call (\<lambda>p. tp_invoke tp p (Some sc) timeout) prompt w r w'"
    if "p_return (result_from_raw raw x errors) v = Some (Inr r, w')" for x errors
    using that raw by (auto simp: one_call_def return_run result_from_raw_def)
  have two: "two_calls (\<lambda>p. tp_invoke tp p (Some sc) timeout) prompt w r w'"
    if "again tp prompt' sc timeout settle v = Some (Inr r, w')" and "rr_rc raw = 0"
      and "\<And>second. ag_rc (settle second) = rr_rc second \<and>
        ag_duration_s (settle second) = rr_duration_s raw + rr_duration_s second" for prompt' settle
    using again_run [OF that(1)] that(2,3) raw unfolding two_calls_def by metis
  show ?thesis
  proof (cases "rr_rc raw = 0")
    case False
    with assms raw one show ?thesis by (auto simp: invoke_with_validation_def p_bind_def)
  next
    case True
    with assms raw consider "validate_cli_native bk tp prompt raw sc timeout v = Some (Inr r, w')"
      | "validate_client_side bk tp prompt raw sc timeout v = Some (Inr r, w')"
      by (auto simp: invoke_with_validation_def p_bind_def split: if_splits)
    then show ?thesis
    proof cases
      case 1
      with True one two second_figures(1,2) show ?thesis
        unfolding validate_cli_native_def retry_after_cli_native_missing_payload_def
          retry_after_cli_native_validation_error_def
        by (auto split: option.splits sum.splits)
    next
      case 2
      with True one two second_figures(3) show ?thesis
        unfolding validate_client_side_def retry_after_validation_error_def
        by (auto split: option.splits prod.splits)
    qed
  qed
qed

section \<open>Objects in prose\<close>

abbreviation dq :: char where
  "dq \<equiv> CHR 0x22"

abbreviation backslash :: char where
  "backslash \<equiv> CHR 0x5C"

text \<open>The inside of a JSON string, and the inside of an object: characters, strings and nested objects.\<close>

inductive str_body :: "string \<Rightarrow> bool" where
  body_end: "str_body []"
| body_char: "c \<noteq> dq \<Longrightarrow> c \<noteq> backslash \<Longrightarrow> str_body b \<Longrightarrow> str_body (c # b)"
| body_escape: "str_body b \<Longrightarrow> str_body (backslash # c # b)"

definition quiet_char :: "char \<Rightarrow> bool" where
  "quiet_char c \<longleftrightarrow> c \<notin> {dq, CHR ''{'', CHR ''}''}"

inductive balanced :: "string \<Rightarrow> bool" where
  bal_end: "balanced []"
| bal_char: "quiet_char c \<Longrightarrow> balanced s \<Longrightarrow> balanced (c # s)"
| bal_string: "str_body b \<Longrightarrow> balanced s \<Longrightarrow> balanced (dq # b @ dq # s)"
| bal_object: "balanced b \<Longrightarrow> balanced s \<Longrightarrow> balanced (CHR ''{'' # b @ CHR ''}'' # s)"

definition scan_part :: "string \<Rightarrow> nat \<Rightarrow> nat \<Rightarrow> scan \<Rightarrow> scan" where
  "scan_part txt i n s = fold (scan_char txt) [i ..< i + n] s"

lemma scan_part_0: "scan_part txt i 0 s = s"
  by (simp add: scan_part_def)

lemma scan_part_Suc: "scan_part txt i (Suc n) s = scan_part txt (Suc i) n (scan_char txt i s)"
  by (simp add: scan_part_def upt_conv_Cons del: upt_Suc)

lemma scan_part_add: "scan_part txt i (m + n) s = scan_part txt (i + m) n (scan_part txt i m s)"
  by (induction m arbitrary: i s) (simp_all add: scan_part_0 scan_part_Suc)

lemma drop_head: "drop i txt = c # q \<Longrightarrow> txt ! i = c \<and> drop (Suc i) txt = q"
  by (metis drop_Suc list.sel(3) nth_via_drop tl_drop)

lemma drop_later: "drop i txt = b @ q \<Longrightarrow> drop (i + length b) txt = q"
  by (metis add.commute append_eq_conv_conj drop_drop)

lemma scan_body:
  "str_body b \<Longrightarrow> drop i txt = b @ q \<Longrightarrow> sn_in_string s \<Longrightarrow> \<not> sn_escaped s \<Longrightarrow> scan_part txt i (length b) s = s"
proof (induction b arbitrary: i rule: str_body.induct)
  case (body_char c b)
  have "txt ! i = c" "drop (Suc i) txt = b @ q" using body_char.prems(1) drop_head [of i "txt" c "b @ q"] by simp_all
  with body_char show ?case by (simp add: scan_part_Suc scan_char_def)
next
  case (body_escape b c)
  from body_escape.prems(1) have c: "txt ! i = backslash" "drop (Suc i) txt = c # b @ q"
    using drop_head [of i "txt"] by simp_all
  have "drop (Suc (Suc i)) txt = b @ q" using drop_head [OF c(2)] by (rule conjunct2)
  moreover have "scan_char txt (Suc i) (scan_char txt i s) = s"
    using body_escape.prems c(1) by (cases s) (simp add: scan_char_def)
  ultimately show ?case using body_escape by (simp add: scan_part_Suc)
qed (simp add: scan_part_0)

lemma scan_string:
  assumes "str_body b" and "drop i txt = dq # b @ dq # q" and "\<not> sn_in_string s" and "\<not> sn_escaped s"
  shows "scan_part txt i (Suc (length b + 1)) s = s"
proof -
  from drop_head [OF assms(2)] have c: "txt ! i = dq" "drop (Suc i) txt = b @ dq # q" by simp_all
  from drop_head [OF drop_later [OF c(2)]] have d: "txt ! (Suc i + length b) = dq" by simp
  let ?s = "s\<lparr>sn_in_string := True\<rparr>"
  have "scan_char txt i s = ?s" using assms(3) c(1) by (simp add: scan_char_def)
  moreover have "scan_part txt (Suc i) (length b) ?s = ?s" using scan_body [OF assms(1) c(2)] assms(4) by simp
  moreover have "scan_char txt (Suc i + length b) ?s = s" using assms(3,4) d by (cases s) (simp add: scan_char_def)
  ultimately show ?thesis
    using scan_part_add [of "txt" "Suc i" "length b" 1 ?s] by (simp add: scan_part_Suc scan_part_0)
qed

text \<open>Inside an object the scanner passes over everything balanced.\<close>

lemma scan_balanced:
  "balanced b \<Longrightarrow> drop i txt = b @ q \<Longrightarrow> \<not> sn_in_string s \<Longrightarrow> \<not> sn_escaped s \<Longrightarrow> sn_depth s > 0 \<Longrightarrow>
   scan_part txt i (length b) s = s"
proof (induction b arbitrary: i q s rule: balanced.induct)
  case (bal_char c b)
  have "txt ! i = c" "drop (Suc i) txt = b @ q" using bal_char.prems(1) drop_head [of i "txt" c "b @ q"] by simp_all
  with bal_char show ?case by (simp add: scan_part_Suc scan_char_def quiet_char_def)
next
  case (bal_string b t)
  have i: "drop i txt = dq # b @ dq # (t @ q)" using bal_string.prems(1) by simp
  have "drop (i + Suc (length b + 1)) txt = t @ q"
    using drop_later [of i "txt" "dq # b @ [dq]" "t @ q"] i by simp
  then have "scan_part txt (i + Suc (length b + 1)) (length t) s = s" using bal_string by blast
  with scan_string [OF bal_string.hyps(1) i] bal_string.prems scan_part_add [of "txt" i "Suc (length b + 1)" "length t" s]
  show ?case by simp
next
  case (bal_object b t)
  have i: "drop i txt = CHR ''{'' # b @ CHR ''}'' # (t @ q)" using bal_object.prems(1) by simp
  from drop_head [OF i] have c: "txt ! i = CHR ''{''" "drop (Suc i) txt = b @ CHR ''}'' # (t @ q)" by simp_all
  from drop_head [OF drop_later [OF c(2)]] have d: "txt ! (Suc i + length b) = CHR ''}''" "drop (Suc (Suc i + length b)) txt = t @ q"
    by simp_all
  let ?s = "s\<lparr>sn_depth := sn_depth s + 1\<rparr>"
  have "scan_char txt i s = ?s" using bal_object.prems c(1) by (cases s) (simp add: scan_char_def)
  moreover have "scan_part txt (Suc i) (length b) ?s = ?s" using bal_object.IH(1) [OF c(2)] bal_object.prems by simp
  moreover have "scan_char txt (Suc i + length b) ?s = s"
    using bal_object.prems d(1) by (cases s; cases "sn_depth s") (simp_all add: scan_char_def)
  moreover have "scan_part txt (Suc (Suc i + length b)) (length t) s = s"
    using bal_object.IH(2) [OF d(2)] bal_object.prems by simp
  ultimately show ?case
    using scan_part_add [of "txt" "Suc i" "length b" "Suc (length t)" ?s] by (simp add: scan_part_Suc)
qed (simp add: scan_part_0)

lemma scan_quiet:
  "list_all quiet_char p \<Longrightarrow> drop i txt = p @ q \<Longrightarrow> \<not> sn_in_string s \<Longrightarrow> scan_part txt i (length p) s = s"
proof (induction p arbitrary: i)
  case (Cons c p)
  have "txt ! i = c" "drop (Suc i) txt = p @ q" using Cons.prems(2) drop_head [of i "txt" c "p @ q"] by simp_all
  with Cons show ?case by (simp add: scan_part_Suc scan_char_def quiet_char_def)
qed (simp add: scan_part_0)

lemma object_found:
  assumes "list_all quiet_char pre" and "list_all quiet_char post" and "balanced body"
  shows "json_object_candidates (pre @ CHR ''{'' # body @ CHR ''}'' # post) = [CHR ''{'' # body @ [CHR ''}'']]"
proof -
  let ?txt = "pre @ CHR ''{'' # body @ CHR ''}'' # post" and ?i = "length pre"
  let ?in = "scan_start\<lparr>sn_start := Some ?i, sn_depth := 1\<rparr>"
  let ?out = "scan_start\<lparr>sn_found := [CHR ''{'' # body @ [CHR ''}'']]\<rparr>"
  have i: "drop ?i ?txt = CHR ''{'' # body @ CHR ''}'' # post" by simp
  from drop_head [OF i] have c: "?txt ! ?i = CHR ''{''" "drop (Suc ?i) ?txt = body @ CHR ''}'' # post" by blast+
  from drop_head [OF drop_later [OF c(2)]]
  have d: "?txt ! (Suc ?i + length body) = CHR ''}''" "drop (Suc (Suc ?i + length body)) ?txt = post" by blast+
  have "slice ?i (Suc ?i + length body + 1) ?txt = CHR ''{'' # body @ [CHR ''}'']"
    using i by (simp add: slice_def)
  then have "scan_char ?txt (Suc ?i + length body) ?in = ?out"
    using d(1) unfolding scan_char_def Let_def by (simp add: scan_start_def)
  moreover have "scan_part ?txt 0 ?i scan_start = scan_start"
    by (rule scan_quiet [OF assms(1)]) (simp_all add: scan_start_def)
  moreover have "scan_char ?txt ?i scan_start = ?in"
    using c(1) unfolding scan_char_def Let_def by (simp add: scan_start_def)
  moreover have "scan_part ?txt (Suc ?i) (length body) ?in = ?in"
    by (rule scan_balanced [OF assms(3) c(2)]) (simp_all add: scan_start_def)
  moreover have "scan_part ?txt (Suc (Suc ?i + length body)) (length post) ?out = ?out"
    by (rule scan_quiet [where q = "[]", OF assms(2)]) (use d(2) in \<open>simp_all add: scan_start_def\<close>)
  ultimately have "scan_part ?txt 0 (?i + Suc (length body + Suc (length post))) scan_start = ?out"
    using scan_part_add [of ?txt 0 ?i "Suc (length body + Suc (length post))" scan_start]
      scan_part_add [of ?txt "Suc ?i" "length body" "Suc (length post)" ?in] by (simp add: scan_part_Suc)
  then show ?thesis
    by (simp add: json_object_candidates_def scan_part_def tail_of_def)
qed

text \<open>
  C38: Prose around the answer is tolerated. A text that is no valid answer as a whole, but a valid object between two
  pieces of text without quotation marks and braces, is read as that object, whatever strings and objects are nested
  in it.\<close>

theorem prose_is_tolerated:
  assumes "list_all quiet_char pre" and "list_all quiet_char post" and "balanced body"
    and "sc_validate_json sc (CHR ''{'' # body @ [CHR ''}'']) = Inr v"
    and "sc_validate_json sc (pre @ CHR ''{'' # body @ CHR ''}'' # post) = Inl e"
  shows "validate_client_side_payload sc (pre @ CHR ''{'' # body @ CHR ''}'' # post) = (Some v, [])"
  by (simp add: validate_client_side_payload_def object_found [OF assms(1,2,3)] assms(4,5))

text \<open>A single quotation mark before the object hides it: the scanner takes what follows for the inside of a string.\<close>

lemma stray_quote_hides:
  "json_object_candidates (''screen of 6'' @ [dq] @ '': {'' @ [dq] @ ''a'' @ [dq] @ '': 1}'') = []"
  by code_simp

section \<open>Strict schemas\<close>

text \<open>Every object is without a default, and one with properties forbids others and requires all.\<close>

fun tight :: "json \<Rightarrow> bool" where
  "tight (JObj kvs) \<longleftrightarrow>
     list_all (\<lambda>(k, v). tight v) kvs \<and> map_of kvs ''default'' = None \<and>
     (case map_of kvs ''properties'' of
        Some (JObj ps) \<Rightarrow>
          map_of kvs ''required'' = Some (JArr (map (\<lambda>p. JStr (fst p)) ps)) \<and>
          map_of kvs ''additionalProperties'' = Some (JBool False)
      | _ \<Rightarrow> True)"
| "tight (JArr vs) \<longleftrightarrow> list_all tight vs"
| "tight v \<longleftrightarrow> True"

text \<open>No property is called \<^verbatim>\<open>default\<close> or \<^verbatim>\<open>properties\<close>.\<close>

fun plain_fields :: "json \<Rightarrow> bool" where
  "plain_fields (JObj kvs) \<longleftrightarrow>
     list_all (\<lambda>(k, v). plain_fields v) kvs \<and>
     (case map_of kvs ''properties'' of
        Some (JObj ps) \<Rightarrow> map_of ps ''default'' = None \<and> map_of ps ''properties'' = None
      | _ \<Rightarrow> True)"
| "plain_fields (JArr vs) \<longleftrightarrow> list_all plain_fields vs"
| "plain_fields v \<longleftrightarrow> True"

abbreviation strip_default :: "(string \<times> json) list \<Rightarrow> (string \<times> json) list" where
  "strip_default kvs \<equiv>
     map (\<lambda>(k, v). (k, normalize_object_required v)) (filter (\<lambda>kv. fst kv \<noteq> ''default'') kvs)"

lemma map_of_strip:
  "map_of (strip_default kvs) k =
     (if k = ''default'' then None else map_option normalize_object_required (map_of kvs k))"
  by (induction kvs) auto

lemma list_all_update: "list_all P xs \<Longrightarrow> P (k, v) \<Longrightarrow> list_all P (AList.update k v xs)"
  by (induction xs) auto

lemma filter_id_default: "map_of ps ''default'' = None \<Longrightarrow> filter (\<lambda>kv. fst kv \<noteq> ''default'') ps = ps"
  by (induction ps) (auto split: if_splits)

lemma tight_strings: "list_all tight (map (\<lambda>p. JStr (fst p)) ps)"
  by (induction ps) auto

text \<open>
  The schema handed to the Codex CLI is strict at every depth: whatever pydantic produced, no object has a default
  left, and every object with properties forbids others and requires exactly its properties, as long as no field is
  called \<^verbatim>\<open>default\<close> or \<^verbatim>\<open>properties\<close>.\<close>

theorem codex_schema_strict:
  assumes "plain_fields (sc_json sc)"
  shows "tight (codex_output_schema sc)"
proof -
  have "plain_fields j \<Longrightarrow> tight (normalize_object_required j)" for j
  proof (induction j rule: normalize_object_required.induct)
    case (1 kvs)
    let ?kvs = "strip_default kvs"
    have entries: "list_all (\<lambda>(k, v). tight v) ?kvs"
      using 1 by (fastforce simp: list_all_iff)
    show ?case
    proof (cases "\<exists>ps. map_of kvs ''properties'' = Some (JObj ps)")
      case True
      then obtain ps where ps: "map_of kvs ''properties'' = Some (JObj ps)" by blast
      with 1(2) have plain: "map_of ps ''default'' = None" "map_of ps ''properties'' = None" by simp_all
      then have inner: "normalize_object_required (JObj ps) = JObj (map (\<lambda>(k, v). (k, normalize_object_required v)) ps)"
        by (simp add: tighten_def filter_id_default)
      let ?l = "tighten kvs ?kvs"
      have l0: "?l = AList.update ''required'' (JArr (map (\<lambda>p. JStr (fst p)) ps))
          (AList.update ''additionalProperties'' (JBool False) ?kvs)"
        by (simp add: tighten_def ps dict_set_def)
      have l: "map_of ?l = (map_of ?kvs)(''additionalProperties'' \<mapsto> JBool False,
          ''required'' \<mapsto> JArr (map (\<lambda>p. JStr (fst p)) ps))"
        by (simp add: l0 update_conv')
      have "list_all (\<lambda>(k, v). tight v) ?l"
        unfolding l0 by (intro list_all_update entries) (simp_all add: tight_strings)
      moreover have "map_of ?l ''properties'' = Some (normalize_object_required (JObj ps))"
        by (simp add: l map_of_strip ps)
      moreover have "map_of ?l ''default'' = None" by (simp add: l map_of_strip)
      ultimately show ?thesis using inner by (simp add: l comp_def case_prod_beta)
    next
      case False
      have same: "tighten kvs ?kvs = ?kvs"
        using False by (auto simp: tighten_def split: option.splits json.splits)
      have "\<nexists>ps. map_of ?kvs ''properties'' = Some (JObj ps)"
      proof
        assume "\<exists>ps. map_of ?kvs ''properties'' = Some (JObj ps)"
        then obtain v ps where "map_of kvs ''properties'' = Some v" "normalize_object_required v = JObj ps"
          by (auto simp: map_of_strip)
        with False show False by (cases v) auto
      qed
      with entries show ?thesis
        by (auto simp: same map_of_strip split: option.splits json.splits)
    qed
  next
    case (2 vs)
    then show ?case by (simp add: list_all_iff)
  qed simp_all
  with assms show ?thesis by (simp add: codex_output_schema_def)
qed

lemma default_field_lost:
  "normalize_object_required
     (JObj [(''properties'', JObj [(''default'', JObj [(''type'', JStr ''string'')])])]) =
   JObj [(''properties'', JObj []), (''additionalProperties'', JBool False), (''required'', JArr [JStr ''default''])]"
  by code_simp

section \<open>Witnesses\<close>

definition demo_result :: "int \<Rightarrow> string \<Rightarrow> raw_result" where
  "demo_result rc t =
     \<lparr>rr_raw_text = Some t, rr_structured = None, rr_rc = rc, rr_transient = False, rr_duration_s = 2,
      rr_tokens_input = None, rr_tokens_output = None, rr_cost_usd = None, rr_stderr_excerpt = [],
      rr_category = ''none''\<rparr>"

definition demo_transport :: "raw_result \<Rightarrow> transport" where
  "demo_transport raw =
     \<lparr>tp_name = ''demo'', tp_enforcement = ''client_side'', tp_invoke = (\<lambda>_ _ _. p_return raw),
      tp_invoke_raw = (\<lambda>_ _. p_return raw)\<rparr>"

definition demo_schema :: schema where
  "demo_schema =
     \<lparr>sc_json = JObj [(''properties'', JObj [(''a'', JObj [(''default'', JNull)])])],
      sc_validate = (\<lambda>_. Inr (S_progress Progressing [])),
      sc_validate_json = (\<lambda>t. if t = ''{}'' then Inr (S_progress Progressing [])
        else Inl \<lparr>ve_repr = ''bad'', ve_errors = [([], ''bad'')]\<rparr>)\<rparr>"

lemma demo_schema_complains: "complains demo_schema"
  by (simp add: complains_def demo_schema_def)

theorem prose_is_tolerated_witness:
  "validate_client_side_payload demo_schema (''ok: '' @ CHR ''{'' # [] @ CHR ''}'' # []) =
     (Some (S_progress Progressing []), [])"
proof (rule prose_is_tolerated)
  show "list_all quiet_char ''ok: ''" by (simp add: quiet_char_def)
  show "balanced []" by (rule bal_end)
qed (simp_all add: demo_schema_def)

theorem answer_is_settled_witness:
  "\<exists>r. invoke_with_validation demo_backend (demo_transport (demo_result 0 ''ok: {}'')) ''go'' demo_schema 5 (demo_world []) =
       Some (Inr r, demo_world []) \<and>
     ag_structured r = Some (S_progress Progressing []) \<and> ag_rc r = 0 \<and> ag_parse_errors r = []"
proof -
  have payload: "validate_client_side_payload demo_schema ''ok: {}'' = (Some (S_progress Progressing []), [])"
  proof -
    have "json_object_candidates ''ok: {}'' = [''{}'']" by code_simp
    then show ?thesis by (simp add: validate_client_side_payload_def demo_schema_def)
  qed
  obtain r where r: "invoke_with_validation demo_backend (demo_transport (demo_result 0 ''ok: {}'')) ''go'' demo_schema 5
      (demo_world []) = Some (Inr r, demo_world [])" "ag_structured r = Some (S_progress Progressing [])"
    by (simp add: invoke_with_validation_def demo_transport_def p_bind_def p_return_def p_act_def py_return_def
        demo_result_def validate_client_side_def opt_text_def payload result_from_raw_def)
  with answer_is_settled [OF demo_schema_complains r(1)] show ?thesis by blast
qed

theorem codex_schema_strict_witness: "tight (codex_output_schema demo_schema)"
  by (rule codex_schema_strict) (simp add: demo_schema_def)

end
