(* ===== verification/AgentLayer.thy ===== *)
theory AgentLayer
  imports Answers
begin

text \<open>
  From a role to its answer: the quota fallback of \<^verbatim>\<open>agents/json_fallback.py\<close>, the wrappers of
  \<^verbatim>\<open>agents/json_protocol.py\<close>, and the registries \<^verbatim>\<open>model_registry.py\<close> and \<^verbatim>\<open>agent_registry.py\<close>. The properties say that a
  chain of transports is its calls put together, that a quota failure moves it on, which agents exist, and that a call
  with all it does keeps the store lawful.
\<close>

section \<open>Quota fallback\<close>

definition sum_or :: "int option \<Rightarrow> int option \<Rightarrow> int option" where
  "sum_or a b = (case (a, b) of (None, _) \<Rightarrow> b | (Some x, None) \<Rightarrow> a | (Some x, Some y) \<Rightarrow> Some (x + y))"

definition combine :: "raw_result option \<Rightarrow> raw_result \<Rightarrow> raw_result" where
  "combine prior second =
     (case prior of
        None \<Rightarrow> second
      | Some first \<Rightarrow>
          second
            \<lparr>rr_duration_s := rr_duration_s first + rr_duration_s second,
             rr_tokens_input := sum_or (rr_tokens_input first) (rr_tokens_input second),
             rr_tokens_output := sum_or (rr_tokens_output first) (rr_tokens_output second),
             rr_cost_usd := sum_or (rr_cost_usd first) (rr_cost_usd second),
             rr_stderr_excerpt :=
               tail_of 2000 (join nl (filter (\<lambda>p. p \<noteq> []) [rr_stderr_excerpt first, rr_stderr_excerpt second]))\<rparr>)"

definition normalize_for_primary_schema :: "backend \<Rightarrow> string \<Rightarrow> raw_result \<Rightarrow> raw_result" where
  "normalize_for_primary_schema bk enforcement raw =
     (if enforcement \<noteq> ''client_side'' then raw
      else case (rr_raw_text raw, rr_structured raw) of
             (None, Some v) \<Rightarrow> raw\<lparr>rr_raw_text := Some (bk_dumps bk None v), rr_structured := None\<rparr>
           | _ \<Rightarrow> raw)"

definition quota_result :: "raw_result \<Rightarrow> bool" where
  "quota_result raw = is_quota_exhausted (rr_rc raw) (opt_text (rr_raw_text raw)) (rr_stderr_excerpt raw)"

text \<open>The loop over the transports; \<open>call\<close> is the call of one with what is made of its result.\<close>

fun walk_chain :: "(transport \<Rightarrow> raw_result proc) \<Rightarrow> raw_result option \<Rightarrow> transport list \<Rightarrow> raw_result proc" where
  "walk_chain call prior [] =
     (case prior of
        None \<Rightarrow> p_act (py_raise (RuntimeError ''quota fallback invoked without transports''))
      | Some r \<Rightarrow> p_return r)"
| "walk_chain call prior (tp # tps) =
     p_bind (call tp) (\<lambda>raw.
       if \<not> quota_result raw then p_return (combine prior raw)
       else if tps = [] then p_return (combine prior raw)
       else walk_chain call (Some (combine prior raw)) tps)"

definition fallback_transport :: "backend \<Rightarrow> transport \<Rightarrow> transport list \<Rightarrow> py_error + transport" where
  "fallback_transport bk primary fallbacks =
     (if fallbacks = [] then Inl (ValueError ''QuotaFallbackJsonAgent requires at least one fallback'')
      else Inr
        \<lparr>tp_name = ''quota_fallback'', tp_enforcement = tp_enforcement primary,
         tp_invoke = (\<lambda>prompt schema timeout.
           walk_chain
             (\<lambda>tp. p_bind (tp_invoke tp prompt schema timeout) (\<lambda>raw.
                p_return (normalize_for_primary_schema bk (tp_enforcement primary) raw)))
             None (primary # fallbacks)),
         tp_invoke_raw = (\<lambda>prompt timeout.
           walk_chain (\<lambda>tp. tp_invoke_raw tp prompt timeout) None (primary # fallbacks))\<rparr>)"

section \<open>Models and roles\<close>

record model_spec =
  ms_name :: string
  ms_transport :: string
  ms_enforcement :: string
  ms_codex_profile :: "string option"
  ms_claude_model_id :: "string option"
  ms_quota_fallbacks :: "string list"

definition codex_spec :: "string \<Rightarrow> string \<Rightarrow> string \<Rightarrow> string \<Rightarrow> string list \<Rightarrow> model_spec" where
  "codex_spec name kind enforcement profile fallbacks =
     \<lparr>ms_name = name, ms_transport = kind, ms_enforcement = enforcement, ms_codex_profile = Some profile,
      ms_claude_model_id = None, ms_quota_fallbacks = fallbacks\<rparr>"

definition claude_spec :: "string \<Rightarrow> string \<Rightarrow> model_spec" where
  "claude_spec name model_id =
     \<lparr>ms_name = name, ms_transport = ''claude'', ms_enforcement = ''cli_native'', ms_codex_profile = None,
      ms_claude_model_id = Some model_id, ms_quota_fallbacks = []\<rparr>"

definition model_entries :: "model_spec list" where
  "model_entries =
     [codex_spec ''gpt-5.5'' ''codex_direct'' ''cli_native'' ''gpt5'' [],
      codex_spec ''gpt-5.3-codex'' ''codex_direct'' ''cli_native'' ''codex'' [],
      codex_spec ''gpt-5.4-mini'' ''codex_direct'' ''cli_native'' ''gpt-mini'' [],
      codex_spec ''GLM-5.1-zai'' ''codex_litellm'' ''client_side'' ''glm-zai''
        [''GLM-5.1-wafer'', ''claude-sonnet-4-6'', ''gpt-5.3-codex''],
      codex_spec ''GLM-5.1-wafer'' ''codex_litellm'' ''client_side'' ''glm-wafer'' [],
      codex_spec ''MiniMax-M2.7'' ''codex_litellm'' ''client_side'' ''minimax'' [],
      codex_spec ''DeepSeek-V4-Pro'' ''codex_litellm'' ''client_side'' ''deepseek'' [],
      codex_spec ''Qwen3.5-397B-A17B'' ''codex_litellm'' ''client_side'' ''qwen'' [],
      claude_spec ''claude-opus-4-7'' ''claude-opus-4-7[1m]'',
      claude_spec ''claude-haiku-4-5'' ''claude-haiku-4-5'',
      claude_spec ''claude-sonnet-4-6'' ''claude-sonnet-4-6'']"

definition spec_error :: "model_spec \<Rightarrow> string \<Rightarrow> py_error" where
  "spec_error spec what = ValueError (''model '' @ py_repr (ms_name spec) @ '': '' @ what)"

definition validate_ids :: "model_spec \<Rightarrow> py_error + unit" where
  "validate_ids spec =
     (let kind = ms_transport spec; prefix = ''transport='' @ kind
      in if kind \<in> {''codex_direct'', ''codex_litellm''}
         then (if opt_text (ms_codex_profile spec) = [] then Inl (spec_error spec (prefix @ '' requires codex_profile''))
               else if ms_claude_model_id spec \<noteq> None then Inl (spec_error spec (prefix @ '' forbids claude_model_id''))
               else Inr ())
         else if kind = ''claude''
         then (if opt_text (ms_claude_model_id spec) = []
               then Inl (spec_error spec (prefix @ '' requires claude_model_id''))
               else if ms_codex_profile spec \<noteq> None then Inl (spec_error spec (prefix @ '' forbids codex_profile''))
               else Inr ())
         else Inl (spec_error spec (''unknown transport '' @ py_repr kind)))"

definition validate_spec :: "model_spec \<Rightarrow> py_error + unit" where
  "validate_spec spec =
     ebind (validate_ids spec) (\<lambda>_.
       let kind = ms_transport spec; declared = ms_enforcement spec
       in if kind = ''codex_direct'' \<and> declared \<noteq> ''cli_native''
          then Inl (spec_error spec ''codex_direct must declare schema_enforcement=cli_native'')
          else if kind = ''codex_litellm'' \<and> declared \<noteq> ''client_side''
          then Inl (spec_error spec ''codex_litellm must declare schema_enforcement=client_side'')
          else if kind = ''claude'' \<and> declared \<noteq> ''cli_native''
          then Inl (spec_error spec ''claude must declare schema_enforcement=cli_native'')
          else Inr ())"

type_synonym registry = "(string \<times> model_spec) list"

fun register :: "model_spec list \<Rightarrow> registry \<Rightarrow> py_error + registry" where
  "register [] acc = Inr acc"
| "register (spec # specs) acc =
     ebind (validate_spec spec) (\<lambda>_.
       if map_of acc (ms_name spec) \<noteq> None
       then Inl (ValueError (''duplicate model name in registry: '' @ py_repr (ms_name spec)))
       else register specs (acc @ [(ms_name spec, spec)]))"

definition validate_fallback :: "registry \<Rightarrow> model_spec \<Rightarrow> string \<Rightarrow> py_error + unit" where
  "validate_fallback models spec name =
     (if name = ms_name spec then Inl (spec_error spec ''quota_fallbacks cannot reference itself'')
      else if map_of models name = None then Inl (spec_error spec (''unknown quota fallback '' @ py_repr name))
      else Inr ())"

definition validate_fallbacks :: "registry \<Rightarrow> py_error + unit" where
  "validate_fallbacks models =
     ebind (etraverse (\<lambda>(_, spec). etraverse (validate_fallback models spec) (ms_quota_fallbacks spec)) models)
       (\<lambda>_. Inr ())"

definition build_models :: "model_spec list \<Rightarrow> py_error + registry" where
  "build_models entries =
     ebind (register entries []) (\<lambda>models. ebind (validate_fallbacks models) (\<lambda>_. Inr models))"

definition MODELS :: registry where
  "MODELS = (case build_models model_entries of Inl _ \<Rightarrow> [] | Inr models \<Rightarrow> models)"

definition known_names :: "(string \<times> 'a) list \<Rightarrow> string" where
  "known_names kvs = join '', '' (sort (map fst kvs))"

definition get_model :: "string \<Rightarrow> py_error + model_spec" where
  "get_model name =
     (case map_of MODELS name of
        Some spec \<Rightarrow> Inr spec
      | None \<Rightarrow> Inl (KeyError (''unknown model name '' @ py_repr name @ ''; known models: '' @ known_names MODELS)))"

record role_spec =
  ro_name :: string
  ro_output_schema :: "string option"
  ro_writes_files :: bool
  ro_default_model :: string
  ro_timeout_s_field :: string

definition reader_role :: "string \<Rightarrow> string \<Rightarrow> string \<Rightarrow> string \<times> role_spec" where
  "reader_role name schema timeout =
     (name, \<lparr>ro_name = name, ro_output_schema = Some schema, ro_writes_files = False, ro_default_model = ''gpt-5.5'',
             ro_timeout_s_field = timeout\<rparr>)"

definition writer_role :: "string \<Rightarrow> string option \<Rightarrow> string \<Rightarrow> string \<times> role_spec" where
  "writer_role name schema timeout =
     (name, \<lparr>ro_name = name, ro_output_schema = schema, ro_writes_files = True, ro_default_model = ''GLM-5.1-zai'',
             ro_timeout_s_field = timeout\<rparr>)"

definition ROLES :: "(string \<times> role_spec) list" where
  "ROLES =
     [reader_role ''planner'' ''PlannerOutput'' ''planner_timeout_s'',
      writer_role ''subtask_doer'' None ''subtask_doer_timeout_s'',
      reader_role ''subtask_checker'' ''SubtaskCheckerOutput'' ''subtask_checker_timeout_s'',
      reader_role ''subtask_triage'' ''SubtaskTriageOutput'' ''subtask_triage_timeout_s'',
      reader_role ''pre_pr_rubric'' ''PrePRRubricAuditOutput'' ''pre_pr_audit_timeout_s'',
      reader_role ''pre_pr_standards'' ''PrePRStandardsAuditOutput'' ''pre_pr_audit_timeout_s'',
      reader_role ''pre_pr_architecture'' ''PrePRArchitectureAuditOutput'' ''pre_pr_audit_timeout_s'',
      reader_role ''pre_pr_behavior'' ''PrePRBehaviorAuditOutput'' ''pre_pr_audit_timeout_s'',
      reader_role ''fixup_planner'' ''FixupPlannerOutput'' ''fixup_planner_timeout_s'',
      reader_role ''merge_planner'' ''MergePlannerOutput'' ''merge_planner_timeout_s'',
      writer_role ''conflict_resolver'' (Some ''ConflictResolverEnvelope'') ''conflict_resolver_timeout_s'',
      reader_role ''intent_reviewer'' ''IntentReviewVerdict'' ''intent_reviewer_timeout_s'',
      reader_role ''replan_planner'' ''PlannerOutput'' ''replan_planner_timeout_s'',
      reader_role ''progress'' ''ProgressVerdict'' ''progress_timeout_s'']"

text \<open>The transport a spec names, and the chain with its fallbacks.\<close>

definition claude_agent :: "task_worker \<Rightarrow> backend \<Rightarrow> string \<Rightarrow> transport" where
  "claude_agent tw bk model_id =
     \<lparr>tp_name = ''claude'', tp_enforcement = ''cli_native'', tp_invoke = claude_invoke tw bk model_id,
      tp_invoke_raw = claude_invoke_raw tw bk model_id\<rparr>"

definition codex_direct_agent :: "task_worker \<Rightarrow> backend \<Rightarrow> string \<Rightarrow> transport" where
  "codex_direct_agent tw bk profile =
     \<lparr>tp_name = ''codex_direct'', tp_enforcement = ''cli_native'', tp_invoke = codex_direct_invoke tw bk profile,
      tp_invoke_raw = codex_direct_invoke_raw tw bk profile\<rparr>"

definition codex_litellm_agent :: "task_worker \<Rightarrow> backend \<Rightarrow> string \<Rightarrow> transport" where
  "codex_litellm_agent tw bk profile =
     \<lparr>tp_name = ''codex_litellm'', tp_enforcement = ''client_side'', tp_invoke = codex_litellm_invoke tw bk profile,
      tp_invoke_raw = codex_litellm_invoke_raw tw bk profile\<rparr>"

definition build_base_transport :: "task_worker \<Rightarrow> backend \<Rightarrow> model_spec \<Rightarrow> py_error + transport" where
  "build_base_transport tw bk spec =
     (if ms_transport spec = ''codex_direct''
      then (case ms_codex_profile spec of
              None \<Rightarrow> Inl (spec_error spec ''codex_direct missing codex_profile'')
            | Some p \<Rightarrow> Inr (codex_direct_agent tw bk p))
      else if ms_transport spec = ''codex_litellm''
      then (case ms_codex_profile spec of
              None \<Rightarrow> Inl (spec_error spec ''codex_litellm missing codex_profile'')
            | Some p \<Rightarrow> Inr (codex_litellm_agent tw bk p))
      else if ms_transport spec = ''claude''
      then (case ms_claude_model_id spec of
              None \<Rightarrow> Inl (spec_error spec ''claude missing claude_model_id'')
            | Some m \<Rightarrow> Inr (claude_agent tw bk m))
      else Inl (spec_error spec (''unknown transport '' @ py_repr (ms_transport spec))))"

definition build_transport :: "task_worker \<Rightarrow> backend \<Rightarrow> model_spec \<Rightarrow> py_error + transport" where
  "build_transport tw bk spec =
     (if ms_quota_fallbacks spec = [] then build_base_transport tw bk spec
      else ebind (build_base_transport tw bk spec) (\<lambda>primary.
           ebind (etraverse (\<lambda>name. case map_of MODELS name of
                    None \<Rightarrow> Inl (KeyError (py_repr name))
                  | Some s \<Rightarrow> build_base_transport tw bk s) (ms_quota_fallbacks spec)) (\<lambda>fallbacks.
           fallback_transport bk primary fallbacks)))"

datatype agent =
    Json_output_agent transport string
  | Writes_files_agent transport "string option"

definition make_agent :: "task_worker \<Rightarrow> backend \<Rightarrow> string \<Rightarrow> py_error + agent" where
  "make_agent tw bk role =
     (case map_of ROLES role of
        None \<Rightarrow> Inl (KeyError (''unknown role '' @ py_repr role @ ''; known roles: '' @ known_names ROLES))
      | Some rs \<Rightarrow>
          (let override = opt_text (wc_models (tw_cfg tw) role);
               name = (if override \<noteq> [] then override else ro_default_model rs)
           in case map_of MODELS name of
                None \<Rightarrow> Inl (KeyError (''role '' @ py_repr role @ '': cfg.'' @ role @ ''_model='' @ py_repr name @
                          '' not in model registry; known models: '' @ known_names MODELS))
              | Some spec \<Rightarrow>
                  ebind (build_transport tw bk spec) (\<lambda>tp.
                    if ro_writes_files rs then Inr (Writes_files_agent tp (ro_output_schema rs))
                    else case ro_output_schema rs of
                           None \<Rightarrow> Inl (ValueError (''role '' @ py_repr role @
                             '': non-writes-files roles must declare output_schema; got None''))
                         | Some sc \<Rightarrow> Inr (Json_output_agent tp sc))))"

text \<open>\<^verbatim>\<open>agent.invoke\<close> of either wrapper; \<open>schemas\<close> gives the pydantic model of a name.\<close>

definition invoke_agent ::
  "backend \<Rightarrow> (string \<Rightarrow> schema) \<Rightarrow> agent \<Rightarrow> string \<Rightarrow> int \<Rightarrow> agent_result proc" where
  "invoke_agent bk schemas ag prompt timeout =
     (case ag of
        Json_output_agent tp sc \<Rightarrow> invoke_with_validation bk tp prompt (schemas sc) timeout
      | Writes_files_agent tp None \<Rightarrow> invoke_without_validation tp prompt timeout
      | Writes_files_agent tp (Some sc) \<Rightarrow> invoke_with_validation bk tp prompt (schemas sc) timeout)"

section \<open>Quota failures reach the chain\<close>

definition quota_marked :: "raw_result \<Rightarrow> bool" where
  "quota_marked raw \<longleftrightarrow>
     (rr_category raw = ''quota_exhausted'' \<longrightarrow>
        (\<exists>err. \<bar>rr_rc raw\<bar> \<le> 255 \<and> rr_rc raw \<noteq> 0 \<and>
           rr_stderr_excerpt raw = tail_of 2000 (err @ quota_note (rr_rc raw))))"

lemma raw_of_marked:
  assumes "quota_source o'" and "eo_rc o' \<noteq> 0 \<longrightarrow> excerpt = []"
  shows "quota_marked (raw_of o' txt v d figures excerpt)"
  unfolding quota_marked_def
proof
  assume "rr_category (raw_of o' txt v d figures excerpt) = ''quota_exhausted''"
  then have "eo_category o' = ''quota_exhausted''" by (simp add: raw_of_def)
  then obtain rc out err where o': "\<bar>rc\<bar> \<le> 255" "rc \<noteq> 0" "o' = quota_outcome rc out err"
    using assms(1) unfolding quota_source_def by blast
  with assms(2) have "rr_stderr_excerpt (raw_of o' txt v d figures excerpt) = tail_of 2000 (err @ quota_note rc)"
    by (simp add: raw_of_def quota_outcome_def quota_note_def)
  moreover have "rr_rc (raw_of o' txt v d figures excerpt) = rc" using o'(3) by (simp add: raw_of_def quota_outcome_def)
  ultimately show "\<exists>err. \<bar>rr_rc (raw_of o' txt v d figures excerpt)\<bar> \<le> 255 \<and>
      rr_rc (raw_of o' txt v d figures excerpt) \<noteq> 0 \<and>
      rr_stderr_excerpt (raw_of o' txt v d figures excerpt) =
        tail_of 2000 (err @ quota_note (rr_rc (raw_of o' txt v d figures excerpt)))"
    using o'(1,2) by blast
qed

lemma builds_marked:
  assumes "quota_source o'"
  shows "yields quota_marked (claude_raw_result tw bk before o' d)"
    and "yields quota_marked (codex_direct_raw_result tw bk before o' d)"
    and "yields quota_marked (codex_litellm_raw_result tw bk before o' d)"
    and "yields quota_marked (raw_text_result cli tw bk before o' d)"
  unfolding claude_raw_result_def codex_direct_raw_result_def codex_litellm_raw_result_def raw_text_result_def Let_def
  by (auto intro!: bind_yields yields_return raw_of_marked assms split: prod.splits)

lemma bracketed_marked:
  assumes "exit_codes bk" and "\<And>before o' d. quota_source o' \<Longrightarrow> yields quota_marked (build before o' d)"
  shows "p_yields quota_marked (bracketed tw bk cli cmd prompt timeout build)"
  unfolding bracketed_def
  by (intro p_bind_yields p_yields_bind [OF run_source [OF assms(1)]] p_yields_act assms(2))

lemma raise_marked: "p_yields Q (p_act (py_raise e))"
  by (simp add: p_yields_def p_act_def py_raise_def)

lemma shims_marked:
  assumes "exit_codes bk"
  shows "p_yields quota_marked (claude_invoke tw bk x prompt schema timeout)"
    and "p_yields quota_marked (codex_direct_invoke tw bk x prompt schema timeout)"
    and "p_yields quota_marked (codex_litellm_invoke tw bk x prompt schema timeout)"
    and "p_yields quota_marked (claude_invoke_raw tw bk x prompt timeout)"
    and "p_yields quota_marked (codex_direct_invoke_raw tw bk x prompt timeout)"
    and "p_yields quota_marked (codex_litellm_invoke_raw tw bk x prompt timeout)"
  unfolding claude_invoke_def codex_direct_invoke_def codex_litellm_invoke_def claude_invoke_raw_def
    codex_direct_invoke_raw_def codex_litellm_invoke_raw_def codex_schema_call_def
  by (auto intro!: raise_marked p_bind_yields bracketed_marked [OF assms] builds_marked split: option.splits)

lemma marked_quota:
  assumes "quota_marked raw" and "rr_category raw = ''quota_exhausted''"
  shows "quota_result (normalize_for_primary_schema bk enforcement raw)"
proof -
  let ?raw = "normalize_for_primary_schema bk enforcement raw"
  have same: "rr_rc ?raw = rr_rc raw" "rr_stderr_excerpt ?raw = rr_stderr_excerpt raw"
    by (simp_all add: normalize_for_primary_schema_def split: option.splits)
  with assms quota_note_found show ?thesis unfolding quota_marked_def quota_result_def by metis
qed

text \<open>
  C35: A quota failure found by the shim is found again by the chain. The shim reports the category and leaves the
  streams of the process behind a note; the chain walker does not look at the category but searches the texts. For
  every transport of the registry the note is what it needs: a result with the category of quotas counts as a quota
  failure, with and without a schema and after the adaptation to the primary's tier, so the chain goes on.\<close>

theorem quota_reaches_chain:
  assumes "exit_codes bk" and "build_base_transport tw bk spec = Inr tp"
    and "tp_invoke tp prompt schema timeout w = Some (Inr raw, w') \<or>
         tp_invoke_raw tp prompt timeout w = Some (Inr raw, w')"
    and "rr_category raw = ''quota_exhausted''"
  shows "quota_result (normalize_for_primary_schema bk' enforcement raw)"
proof -
  have "(\<exists>m. tp = claude_agent tw bk m) \<or> (\<exists>p. tp = codex_direct_agent tw bk p) \<or> (\<exists>p. tp = codex_litellm_agent tw bk p)"
    using assms(2) by (auto simp: build_base_transport_def split: if_splits option.splits)
  then have "p_yields quota_marked (tp_invoke tp prompt schema timeout)"
    "p_yields quota_marked (tp_invoke_raw tp prompt timeout)"
    by (auto simp: claude_agent_def codex_direct_agent_def codex_litellm_agent_def shims_marked [OF assms(1)])
  with assms(3) have "quota_marked raw" by (auto dest: p_yieldsD)
  then show ?thesis using marked_quota assms(4) by blast
qed


section \<open>The walk over the chain\<close>

text \<open>The reference: the transports called one after the other, each once, and their results put together.\<close>

fun p_each :: "('a \<Rightarrow> 'b proc) \<Rightarrow> 'a list \<Rightarrow> 'b list proc" where
  "p_each f [] = p_return []"
| "p_each f (x # xs) = p_bind (f x) (\<lambda>y. p_bind (p_each f xs) (\<lambda>ys. p_return (y # ys)))"

definition combined :: "raw_result option \<Rightarrow> raw_result list \<Rightarrow> raw_result option" where
  "combined prior raws = fold (\<lambda>r acc. Some (combine acc r)) raws prior"

text \<open>The calls a walk makes: up to the first result that is no quota failure, or all of them.\<close>

definition walked :: "raw_result list \<Rightarrow> nat \<Rightarrow> bool" where
  "walked raws n \<longleftrightarrow>
     raws \<noteq> [] \<and> length raws \<le> n \<and> list_all quota_result (butlast raws) \<and>
     (length raws < n \<longrightarrow> \<not> quota_result (last raws))"

lemma walked_one: "n \<ge> 1 \<Longrightarrow> (n > 1 \<longrightarrow> \<not> quota_result r) \<Longrightarrow> walked [r] n"
  by (auto simp: walked_def)

lemma walked_Cons: "quota_result r \<Longrightarrow> walked raws n \<Longrightarrow> walked (r # raws) (Suc n)"
  by (auto simp: walked_def)

lemma p_each_Cons:
  "f x w = Some (Inr y, v) \<Longrightarrow> p_each f xs v = Some (Inr ys, w') \<Longrightarrow> p_each f (x # xs) w = Some (Inr (y # ys), w')"
  by (simp add: p_bind_def p_return_def p_act_def py_return_def)

text \<open>
  C36: The quota fallback is the calls it should make, put together. What a chain of transports answers is the
  combination of the results of its first transports, each called exactly once, in order, and where the calls leave
  the world is where the chain leaves it: every result before the last is a quota failure, and unless the last
  transport has been called, the last result is none.\<close>

theorem chain_is_its_calls:
  assumes "tps \<noteq> []" and "walk_chain call prior tps w = Some (Inr r, w')"
  shows "\<exists>raws. walked raws (length tps) \<and> p_each call (take (length raws) tps) w = Some (Inr raws, w') \<and>
    combined prior raws = Some r"
  using assms
proof (induction tps arbitrary: prior w)
  case (Cons tp tps)
  from Cons.prems(2) obtain raw v where raw: "call tp w = Some (Inr raw, v)"
    by (auto simp: p_bind_def split: option.splits sum.splits)
  show ?case
  proof (cases "quota_result raw \<and> tps \<noteq> []")
    case True
    with Cons.prems(2) raw have "walk_chain call (Some (combine prior raw)) tps v = Some (Inr r, w')"
      by (simp add: p_bind_def)
    from Cons.IH [OF _ this] True obtain raws where raws: "walked raws (length tps)"
      "p_each call (take (length raws) tps) v = Some (Inr raws, w')"
      "combined (Some (combine prior raw)) raws = Some r" by blast
    show ?thesis
    proof (intro exI conjI)
      show "walked (raw # raws) (length (tp # tps))" using walked_Cons True raws(1) by simp
      show "p_each call (take (length (raw # raws)) (tp # tps)) w = Some (Inr (raw # raws), w')"
        using p_each_Cons [of call tp w raw v] raw raws(2) by simp
      show "combined prior (raw # raws) = Some r" using raws(3) by (simp add: combined_def)
    qed
  next
    case False
    with Cons.prems(2) raw have r: "r = combine prior raw" "w' = v"
      by (auto simp: p_bind_def p_return_def p_act_def py_return_def split: if_splits)
    show ?thesis
    proof (intro exI conjI)
      show "walked [raw] (length (tp # tps))" using False by (auto intro!: walked_one)
      show "p_each call (take (length [raw]) (tp # tps)) w = Some (Inr [raw], w')"
        using raw r(2) by (simp add: p_bind_def p_return_def p_act_def py_return_def)
      show "combined prior [raw] = Some r" using r(1) by (simp add: combined_def)
    qed
  qed
qed simp

section \<open>Registries\<close>

lemma models_built: "build_models model_entries = Inr (map (\<lambda>s. (ms_name s, s)) model_entries)"
  by code_simp

lemma MODELS_entries: "MODELS = map (\<lambda>s. (ms_name s, s)) model_entries"
  by (simp add: MODELS_def models_built)

lemma specs_valid: "list_all (\<lambda>s. validate_spec s = Inr () \<and>
    list_all (\<lambda>f. map_of MODELS f \<noteq> None) (ms_quota_fallbacks s)) model_entries"
  unfolding MODELS_entries by code_simp

lemma base_transport: "validate_spec s = Inr () \<Longrightarrow> \<exists>tp. build_base_transport tw bk s = Inr tp"
  by (auto simp: validate_spec_def validate_ids_def build_base_transport_def Let_def opt_text_def ebind_def
      split: if_splits option.splits sum.splits)

lemma MODELS_valid: "map_of MODELS name = Some s \<Longrightarrow> validate_spec s = Inr ()"
  using specs_valid by (auto simp: MODELS_entries list_all_iff dest!: map_of_SomeD)

lemma etraverse_total: "(\<And>x. x \<in> set xs \<Longrightarrow> \<exists>y. f x = Inr y) \<Longrightarrow> \<exists>ys. etraverse f xs = Inr ys \<and> length ys = length xs"
proof (induction xs)
  case (Cons x xs)
  then obtain y ys where "f x = Inr y" "etraverse f xs = Inr ys" "length ys = length xs" by (metis list.set_intros)
  then show ?case by simp
qed simp

lemma registered_transport:
  assumes "map_of MODELS name = Some spec"
  shows "\<exists>tp. build_transport tw bk spec = Inr tp"
proof (cases "ms_quota_fallbacks spec = []")
  case True
  with base_transport [OF MODELS_valid [OF assms]] show ?thesis by (simp add: build_transport_def)
next
  case False
  let ?f = "\<lambda>name. case map_of MODELS name of None \<Rightarrow> Inl (KeyError (py_repr name)) | Some s \<Rightarrow> build_base_transport tw bk s"
  obtain primary where primary: "build_base_transport tw bk spec = Inr primary"
    using base_transport MODELS_valid [OF assms] by blast
  have "spec \<in> set model_entries" using assms by (auto simp: MODELS_entries dest!: map_of_SomeD)
  then have "map_of MODELS f \<noteq> None" if "f \<in> set (ms_quota_fallbacks spec)" for f
    using specs_valid that by (simp add: list_all_iff)
  then have "\<exists>y. ?f x = Inr y" if "x \<in> set (ms_quota_fallbacks spec)" for x
    using that base_transport MODELS_valid by fastforce
  from etraverse_total [of "ms_quota_fallbacks spec" ?f, OF this]
  obtain ys where ys: "etraverse ?f (ms_quota_fallbacks spec) = Inr ys" "length ys = length (ms_quota_fallbacks spec)"
    by blast
  from ys(2) False have "ys \<noteq> []" by auto
  with False primary ys(1) show ?thesis by (simp add: build_transport_def fallback_transport_def)
qed

lemma roles_sound: "list_all (\<lambda>(_, r). (ro_writes_files r \<or> ro_output_schema r \<noteq> None) \<and>
    map_of MODELS (ro_default_model r) \<noteq> None) ROLES"
  unfolding MODELS_entries by code_simp

text \<open>
  Exactly the registered roles with a registered model have an agent. Building one never fails otherwise: every
  role with a default, every model, every fallback chain and every wrapper can be built, and what cannot is an unknown
  role or an unknown model name in the configuration.\<close>

theorem agent_exists_iff:
  "(\<exists>ag. make_agent tw bk role = Inr ag) \<longleftrightarrow>
     role \<in> fst ` set ROLES \<and>
     (opt_text (wc_models (tw_cfg tw) role) = [] \<or> opt_text (wc_models (tw_cfg tw) role) \<in> fst ` set MODELS)"
proof (cases "map_of ROLES role")
  case None
  then have "role \<notin> fst ` set ROLES" by (simp only: map_of_eq_None_iff not_False_eq_True)
  moreover have "make_agent tw bk role \<noteq> Inr ag" for ag using None by (simp add: make_agent_def)
  ultimately show ?thesis by blast
next
  case (Some rs)
  let ?o = "opt_text (wc_models (tw_cfg tw) role)"
  let ?name = "if ?o \<noteq> [] then ?o else ro_default_model rs"
  have role: "role \<in> fst ` set ROLES" using map_of_SomeD [OF Some] by (metis fst_conv imageI)
  have rs: "ro_writes_files rs \<or> ro_output_schema rs \<noteq> None" "map_of MODELS (ro_default_model rs) \<noteq> None"
    using roles_sound map_of_SomeD [OF Some] by (auto simp: list_all_iff)
  have name: "map_of MODELS ?name = None \<longleftrightarrow> ?o \<noteq> [] \<and> ?o \<notin> fst ` set MODELS"
    using rs(2) by (simp add: map_of_eq_None_iff)
  show ?thesis
  proof (cases "map_of MODELS ?name")
    case None
    with Some name role show ?thesis by (simp add: make_agent_def Let_def)
  next
    case spec: (Some spec)
    obtain tp where tp: "build_transport tw bk spec = Inr tp" using registered_transport [OF spec] by blast
    have "\<exists>ag. make_agent tw bk role = Inr ag"
      using Some spec tp rs(1) unfolding make_agent_def Let_def by auto
    with name spec role show ?thesis by auto
  qed
qed

section \<open>The store\<close>

abbreviation pkeeps :: "'a proc \<Rightarrow> bool" where
  "pkeeps m \<equiv> p_keeps (\<lambda>w. store_ok (wd_db w)) m"

lemma keeps_emit [keeps_intros]: "wkeeps store_ok (emit_status bk st)"
  unfolding emit_status_def by (intro keeps_intros)

lemma keeps_env [keeps_intros]: "wkeeps P (env_int bk name dflt)"
  unfolding env_int_def by (intro keeps_intros)

lemma keeps_bk_run [calls_keep]: "others_keep P tw \<Longrightarrow> wkeeps P (bk_run tw bk argv stdin t)"
  unfolding bk_run_def by (intro calls_keep)

lemma keeps_sleep_s [calls_keep]: "others_keep P tw \<Longrightarrow> wkeeps P (sleep_s tw s)"
  unfolding sleep_s_def by (intro keeps_intros calls_keep)

lemma keeps_answer [keeps_intros]:
  "(\<And>r. keeps P (f r)) \<Longrightarrow> (\<And>o' e. keeps P (g o' e)) \<Longrightarrow>
   keeps P (case a of Exited r \<Rightarrow> f r | Expired o' e \<Rightarrow> g o' e)"
  by (cases a) simp_all

lemma keeps_auth_retry [calls_keep]:
  "others_keep store_ok tw \<Longrightarrow> wkeeps store_ok (handle_agent_auth_retry tw bk rc out err st)"
  unfolding handle_agent_auth_retry_def by (intro keeps_intros calls_keep)

lemma keeps_retry_turn [calls_keep]:
  "others_keep store_ok tw \<Longrightarrow> wkeeps store_ok (retry_turn tw bk cmd stdin t st)"
  unfolding retry_turn_def
  by (intro keeps_intros calls_keep) (auto intro!: keeps_intros split: prod.splits)

lemma keeps_run_with_retry [p_keeps_intros]:
  "others_keep store_ok tw \<Longrightarrow> pkeeps (run_with_retry tw bk cmd stdin t)"
  unfolding run_with_retry_def auth_backoff_def auth_backoff_initial_s_def auth_backoff_max_s_def
    auth_max_total_wait_s_def
  by (intro p_keeps_intros keeps_intros calls_keep)

lemma keeps_fetch [calls_keep]: "others_keep P tw \<Longrightarrow> wkeeps P (fetch_session_stats tw bk cli)"
  unfolding fetch_session_stats_def run_capture_def by (intro keeps_intros calls_keep)

lemma keeps_builds:
  assumes "others_keep P tw"
  shows "wkeeps P (claude_raw_result tw bk before o' d)"
    and "wkeeps P (codex_direct_raw_result tw bk before o' d)"
    and "wkeeps P (codex_litellm_raw_result tw bk before o' d)"
    and "wkeeps P (raw_text_result cli tw bk before o' d)"
  unfolding claude_raw_result_def codex_direct_raw_result_def codex_litellm_raw_result_def raw_text_result_def Let_def
  by (intro keeps_intros calls_keep assms)+

lemma keeps_bracketed:
  "others_keep store_ok tw \<Longrightarrow> (\<And>before o' d. wkeeps store_ok (build before o' d)) \<Longrightarrow>
   pkeeps (bracketed tw bk cli cmd prompt timeout build)"
  unfolding bracketed_def monotonic_def by (intro p_keeps_intros keeps_intros calls_keep) assumption+

definition transport_keeps :: "transport \<Rightarrow> bool" where
  "transport_keeps tp \<longleftrightarrow>
     (\<forall>prompt schema timeout. pkeeps (tp_invoke tp prompt schema timeout)) \<and>
     (\<forall>prompt timeout. pkeeps (tp_invoke_raw tp prompt timeout))"

lemma base_transport_keeps:
  assumes "others_keep store_ok tw" and "build_base_transport tw bk spec = Inr tp"
  shows "transport_keeps tp"
proof -
  note unf = claude_invoke_def codex_direct_invoke_def codex_litellm_invoke_def claude_invoke_raw_def
    codex_direct_invoke_raw_def codex_litellm_invoke_raw_def codex_schema_call_def
  have "transport_keeps (claude_agent tw bk x)" "transport_keeps (codex_direct_agent tw bk x)"
    "transport_keeps (codex_litellm_agent tw bk x)" for x
    unfolding transport_keeps_def claude_agent_def codex_direct_agent_def codex_litellm_agent_def transport.simps unf
    by (intro conjI allI p_keeps_intros keeps_intros keeps_bracketed keeps_builds assms(1))+
  with assms(2) show ?thesis by (auto simp: build_base_transport_def split: if_splits option.splits)
qed

lemma keeps_walk: "(\<And>tp. tp \<in> set tps \<Longrightarrow> pkeeps (call tp)) \<Longrightarrow> pkeeps (walk_chain call prior tps)"
proof (induction tps arbitrary: prior)
  case Nil
  show ?case by (cases prior) (auto intro!: p_keeps_intros keeps_intros)
next
  case (Cons tp tps)
  have "pkeeps (walk_chain call p tps)" for p using Cons by simp
  with Cons.prems show ?case by (auto intro!: p_keeps_intros)
qed

lemma etraverse_each: "etraverse f xs = Inr ys \<Longrightarrow> y \<in> set ys \<Longrightarrow> \<exists>x. f x = Inr y"
  by (induction xs arbitrary: ys) (auto simp: ebind_def split: sum.splits)

lemma transport_keeps_store:
  assumes "others_keep store_ok tw" and "build_transport tw bk spec = Inr tp"
  shows "transport_keeps tp"
proof (cases "ms_quota_fallbacks spec = []")
  case True
  with assms base_transport_keeps show ?thesis by (simp add: build_transport_def)
next
  case False
  let ?f = "\<lambda>name. case map_of MODELS name of None \<Rightarrow> Inl (KeyError (py_repr name)) | Some s \<Rightarrow> build_base_transport tw bk s"
  from False assms(2) obtain primary fallbacks where built: "build_base_transport tw bk spec = Inr primary"
    "etraverse ?f (ms_quota_fallbacks spec) = Inr fallbacks" "fallback_transport bk primary fallbacks = Inr tp"
    by (auto simp: build_transport_def ebind_def split: sum.splits)
  have each: "transport_keeps t" if "t \<in> set (primary # fallbacks)" for t
    using that built(1) etraverse_each [OF built(2)] base_transport_keeps [OF assms(1)]
    by (fastforce split: option.splits)
  then have "pkeeps (tp_invoke t p s n)" "pkeeps (tp_invoke_raw t p n)" if "t \<in> set (primary # fallbacks)" for t p s n
    using that unfolding transport_keeps_def by blast+
  with built(3) show ?thesis
    unfolding transport_keeps_def fallback_transport_def
    by (auto split: if_splits intro!: keeps_walk p_keeps_intros)
qed

lemma keeps_validated: "transport_keeps tp \<Longrightarrow> pkeeps (invoke_with_validation bk tp prompt sc timeout)"
  unfolding transport_keeps_def invoke_with_validation_def validate_cli_native_def validate_client_side_def
    retry_after_cli_native_missing_payload_def retry_after_cli_native_validation_error_def
    retry_after_validation_error_def again_def
  by (intro p_keeps_intros) blast+

text \<open>A call of an agent, with all it does, keeps the store lawful when the other threads do.\<close>

definition agent_transport :: "agent \<Rightarrow> transport" where
  "agent_transport ag = (case ag of Json_output_agent tp _ \<Rightarrow> tp | Writes_files_agent tp _ \<Rightarrow> tp)"

lemma make_agent_transport:
  "make_agent tw bk role = Inr ag \<Longrightarrow> \<exists>spec. build_transport tw bk spec = Inr (agent_transport ag)"
  by (auto simp: make_agent_def agent_transport_def Let_def ebind_def
      split: option.splits sum.splits if_splits)

lemma keeps_unvalidated: "transport_keeps tp \<Longrightarrow> pkeeps (invoke_without_validation tp prompt timeout)"
  unfolding transport_keeps_def invoke_without_validation_def by (intro p_keeps_intros) blast

theorem agent_call_keeps_store:
  assumes "others_keep store_ok tw" and "make_agent tw bk role = Inr ag" and "store_ok (wd_db w)"
    and "invoke_agent bk schemas ag prompt timeout w = Some (r, w')"
  shows "store_ok (wd_db w')"
proof -
  obtain spec where "build_transport tw bk spec = Inr (agent_transport ag)" using make_agent_transport assms(2) by blast
  then have tp: "transport_keeps (agent_transport ag)" using transport_keeps_store assms(1) by blast
  have "pkeeps (invoke_agent bk schemas ag prompt timeout)"
    unfolding invoke_agent_def using tp
    by (auto simp: agent_transport_def intro: keeps_validated keeps_unvalidated split: agent.splits option.splits)
  with assms(3,4) show ?thesis by (blast dest: p_keepsD)
qed

section \<open>A timeout can look like a quota failure\<close>

text \<open>
  The chain walker reads the streams again, so a call that ran into its timeout while its output spoke of a 429 counts
  as a quota failure and is made again on the next provider, although the shim had classified it.
\<close>

lemma timed_out_counts_as_quota:
  "quota_result (raw_of (expired_outcome bk 1800 (As_text ''handle HTTP 429 in the client'') No_output)
     (Some ''handle HTTP 429 in the client'') None d figures [])"
proof -
  have "search (seq_of [Word_edge, lit ''429'', Word_edge]) ''handle HTTP 429 in the client'' \<noteq> None" by code_simp
  then have "any_pattern quota_exhausted_patterns ''handle HTTP 429 in the client'' err" for err
    by (simp add: any_pattern_def quota_exhausted_patterns_def)
  then show ?thesis
    by (simp add: quota_result_def raw_of_def expired_outcome_def is_quota_exhausted_def opt_text_def)
qed

section \<open>Witnesses\<close>

lemma demo_backend_quota: "is_quota_exhausted 1 [] ''too many requests''"
proof -
  have "search (ilit ''too many requests'') ''too many requests'' \<noteq> None" by code_simp
  then show ?thesis by (simp add: is_quota_exhausted_def any_pattern_def quota_exhausted_patterns_def)
qed

lemma demo_backend_run:
  "run_with_retry demo_worker demo_backend cmd stdin t w =
     Some (Inr (quota_outcome 1 [] ''too many requests''), w\<lparr>wd_calls := Exec cmd (Some t) # wd_calls w\<rparr>)"
proof -
  have "\<not> is_transient_container_failure 1 ''too many requests''" by code_simp
  then have "retry_turn demo_worker demo_backend cmd stdin t st w =
      (Inr (Inr (quota_outcome 1 [] ''too many requests'')), w\<lparr>wd_calls := Exec cmd (Some t) # wd_calls w\<rparr>)" for st
    by (simp add: retry_turn_def bk_run_def outside_def Let_def act_simps demo_backend_def demo_worker_def
        demo_backend_quota)
  then show ?thesis
    by (simp add: run_with_retry_def auth_backoff_def auth_backoff_initial_s_def auth_backoff_max_s_def
        auth_max_total_wait_s_def env_int_def p_bind_def p_act_def p_loop.simps act_simps demo_backend_def)
qed

lemma demo_backend_fetch:
  "fetch_session_stats demo_worker demo_backend ''codex'' w =
     (Inr None, w\<lparr>wd_calls := Exec [''npx'', ''-y'', ''@ccusage/codex@latest'', ''session'', ''--json''] (Some 10) # wd_calls w\<rparr>)"
  by (simp add: fetch_session_stats_def variant_for_def run_capture_def bk_run_def outside_def Let_def act_simps
      demo_backend_def demo_worker_def)

theorem quota_reaches_chain_witness:
  "\<exists>raw w'. codex_litellm_invoke_raw demo_worker demo_backend ''glm'' ''go'' 5 (demo_world []) = Some (Inr raw, w') \<and>
     quota_result (normalize_for_primary_schema demo_backend ''client_side'' raw)"
proof -
  let ?spec = "codex_spec ''m'' ''codex_litellm'' ''client_side'' ''glm'' []"
  let ?tp = "codex_litellm_agent demo_worker demo_backend ''glm''"
  obtain raw w' where raw: "tp_invoke_raw ?tp ''go'' 5 (demo_world []) = Some (Inr raw, w')"
    "rr_category raw = ''quota_exhausted''"
    by (simp add: codex_litellm_agent_def codex_litellm_invoke_raw_def bracketed_def p_bind_def p_act_def
        demo_backend_fetch demo_backend_run monotonic_def act_simps codex_litellm_raw_result_def raw_of_def
        quota_outcome_def)
  have spec: "build_base_transport demo_worker demo_backend ?spec = Inr ?tp"
    by (simp add: build_base_transport_def codex_spec_def)
  from raw(1) have "codex_litellm_invoke_raw demo_worker demo_backend ''glm'' ''go'' 5 (demo_world []) = Some (Inr raw, w')"
    by (simp add: codex_litellm_agent_def)
  with quota_reaches_chain [OF demo_backend_exits spec disjI2 [OF raw(1)] raw(2)] show ?thesis by blast
qed

lemma demo_quota: "quota_result (demo_result 1 ''too many requests'')" "\<not> quota_result (demo_result 0 t)"
proof -
  have "search (ilit ''too many requests'') ''too many requests'' \<noteq> None" by code_simp
  then show "quota_result (demo_result 1 ''too many requests'')"
    by (simp add: quota_result_def demo_result_def is_quota_exhausted_def any_pattern_def quota_exhausted_patterns_def
        opt_text_def)
qed (simp add: quota_result_def demo_result_def is_quota_exhausted_def)

theorem chain_is_its_calls_witness:
  "\<exists>raws. walked raws 2 \<and>
     p_each (\<lambda>tp. tp_invoke_raw tp ''go'' 5)
       (take (length raws) [demo_transport (demo_result 1 ''too many requests''), demo_transport (demo_result 0 ''ok'')])
       (demo_world []) = Some (Inr raws, demo_world []) \<and>
     combined None raws = Some (combine (Some (demo_result 1 ''too many requests'')) (demo_result 0 ''ok''))"
  using chain_is_its_calls [of "[demo_transport (demo_result 1 ''too many requests''), demo_transport (demo_result 0 ''ok'')]"
      "\<lambda>tp. tp_invoke_raw tp ''go'' 5" None "demo_world []"
      "combine (Some (demo_result 1 ''too many requests'')) (demo_result 0 ''ok'')" "demo_world []"]
  by (simp add: demo_transport_def demo_quota p_bind_def p_return_def p_act_def py_return_def combine_def [of None] numeral_2_eq_2)

end
