(* ===== verification/Corpora.thy ===== *)
theory Corpora
  imports Witnesses "HOL-Library.AList"
begin

text \<open>
  The documents an audit grades against and the contract built from them: the frontmatter parser and the loader of
  \<^verbatim>\<open>standards_profiles.py\<close>, \<^verbatim>\<open>architecture_docs.py\<close>, and \<^verbatim>\<open>build_for\<close> of \<^verbatim>\<open>evaluation_contract.py\<close>. Files are the record
  \<open>doc_fs\<close>; a path is its string in pathlib's normal form. The grading templates, fixed texts that no code reads, are the
  record \<open>templates\<close>.
\<close>

section \<open>Frontmatter\<close>

datatype fm_value = Fm_str string | Fm_list "string list"

type_synonym frontmatter = "(string \<times> fm_value) list"

definition dquote_text :: string where
  "dquote_text = [CHR 0x22]"

definition enclosed :: "string \<Rightarrow> string \<Rightarrow> bool" where
  "enclosed q v \<longleftrightarrow> starts_with q v \<and> ends_with q v"

text \<open>\<^verbatim>\<open>v[1:-1]\<close>.\<close>

definition inside :: "string \<Rightarrow> string" where
  "inside v = take (length v - 2) (drop 1 v)"

definition strip_quotes :: "string \<Rightarrow> string" where
  "strip_quotes v = (if enclosed dquote_text v \<or> enclosed quote1 v then inside v else v)"

definition parse_inline_list :: "string \<Rightarrow> string list" where
  "parse_inline_list v =
     (let inner = strip (inside v)
      in if inner = [] then [] else map (\<lambda>p. strip_quotes (strip p)) (split_on (\<lambda>c. c = CHR '','') inner))"

definition fm_error :: "string \<Rightarrow> string \<Rightarrow> py_error" where
  "fm_error path what = RuntimeError (''frontmatter at '' @ path @ '': '' @ what)"

definition rule :: "string \<Rightarrow> bool" where
  "rule line \<longleftrightarrow> strip line = ''---''"

definition split_frontmatter_block :: "string \<Rightarrow> string \<Rightarrow> py_error + (string list \<times> string) option" where
  "split_frontmatter_block txt path =
     (if \<not> starts_with (''---'' @ nl) txt \<and> \<not> starts_with (''---'' @ [CHR 0x0D] @ nl) txt then Inr None
      else case splitlines txt of
             [] \<Rightarrow> Inr None
           | l # ls \<Rightarrow>
               if \<not> rule l then Inr None
               else case dropWhile (\<lambda>x. \<not> rule x) ls of
                      [] \<Rightarrow> Inl (fm_error path ''opening `---` has no matching closing `---`'')
                    | _ # body \<Rightarrow> Inr (Some (takeWhile (\<lambda>x. \<not> rule x) ls, join nl body)))"

text \<open>The dictionary and the list being collected.\<close>

type_synonym fm_state = "frontmatter \<times> string option \<times> string list"

definition flush_list :: "fm_state \<Rightarrow> fm_state" where
  "flush_list s =
     (case s of (fm, key, items) \<Rightarrow>
        (case key of None \<Rightarrow> fm | Some k \<Rightarrow> AList.update k (Fm_list items) fm, None, []))"

definition consume_bullet_line :: "string \<Rightarrow> string \<Rightarrow> fm_state \<Rightarrow> py_error + fm_state" where
  "consume_bullet_line path line s =
     (case s of (fm, key, items) \<Rightarrow>
        if key = None
        then Inl (fm_error path (''bullet line '' @ py_repr line @ '' appears outside a list-typed key''))
        else Inr (fm, key, items @ [strip_quotes (strip (drop 2 (dropWhile whitespace line)))]))"

text \<open>\<^verbatim>\<open>raw_line.partition(":")\<close> of a line with a colon.\<close>

definition colon :: "char \<Rightarrow> bool" where
  "colon c \<longleftrightarrow> c = CHR '':''"

definition consume_kv_line :: "string \<Rightarrow> string \<Rightarrow> frontmatter \<Rightarrow> py_error + fm_state" where
  "consume_kv_line path line fm =
     (if \<not> list_ex colon line
      then Inl (fm_error path (''line '' @ py_repr line @ '' is not `key: value` and not a `- item` bullet''))
      else let key = strip (takeWhile (\<lambda>c. \<not> colon c) line);
               v = strip (drop 1 (dropWhile (\<lambda>c. \<not> colon c) line))
           in if key = [] then Inl (fm_error path (''empty key in line '' @ py_repr line))
              else if v = [] then Inr (fm, Some key, [])
              else if starts_with ''['' v \<and> ends_with '']'' v
              then Inr (AList.update key (Fm_list (parse_inline_list v)) fm, None, [])
              else Inr (AList.update key (Fm_str (strip_quotes v)) fm, None, []))"

definition fm_line :: "string \<Rightarrow> string \<Rightarrow> fm_state \<Rightarrow> py_error + fm_state" where
  "fm_line path line s =
     (if strip line = [] then Inr (flush_list s)
      else if starts_with ''- '' (dropWhile whitespace line) then consume_bullet_line path line s
      else consume_kv_line path line (fst (flush_list s)))"

fun fm_lines :: "string \<Rightarrow> string list \<Rightarrow> fm_state \<Rightarrow> py_error + fm_state" where
  "fm_lines path [] s = Inr s"
| "fm_lines path (l # ls) s = ebind (fm_line path l s) (fm_lines path ls)"

definition parse_frontmatter :: "string \<Rightarrow> string \<Rightarrow> py_error + frontmatter \<times> string" where
  "parse_frontmatter txt path =
     ebind (split_frontmatter_block txt path) (\<lambda>parts. case parts of
       None \<Rightarrow> Inr ([], txt)
     | Some (lines, body) \<Rightarrow>
         ebind (fm_lines path lines ([], None, [])) (\<lambda>s. Inr (fst (flush_list s), body)))"

section \<open>Paths and files\<close>

record doc_fs =
  fs_exists :: "string \<Rightarrow> bool"
  fs_is_dir :: "string \<Rightarrow> bool"
  fs_is_file :: "string \<Rightarrow> bool"
  fs_read :: "string \<Rightarrow> py_error + string"
  fs_markdown :: "string \<Rightarrow> string list"
  fs_glob :: "string \<Rightarrow> string \<Rightarrow> string list"
  fs_resolve :: "string \<Rightarrow> string"

definition slash :: "char \<Rightarrow> bool" where
  "slash c \<longleftrightarrow> c = CHR ''/''"

definition is_absolute :: "string \<Rightarrow> bool" where
  "is_absolute p \<longleftrightarrow> starts_with ''/'' p"

definition join_path :: "string \<Rightarrow> string \<Rightarrow> string" where
  "join_path a b =
     (if is_absolute b \<or> a = ''.'' then b
      else if b = ''.'' then a
      else if a = ''/'' then a @ b
      else a @ ''/'' @ b)"

text \<open>The order of paths is that of their parts.\<close>

definition sorted_paths :: "string list \<Rightarrow> string list" where
  "sorted_paths ps = sort_key (split_on slash) ps"

definition repo_relative_path :: "string \<Rightarrow> string \<Rightarrow> string" where
  "repo_relative_path repo_root path =
     (if path = repo_root then ''.''
      else if repo_root = ''.'' then path
      else case drop_prefix (if repo_root = ''/'' then ''/'' else repo_root @ ''/'') path of
             None \<Rightarrow> path
           | Some rest \<Rightarrow> rest)"

definition path_stem :: "string \<Rightarrow> string" where
  "path_stem path =
     (let name = last (split_on slash path);
          tl_rev = takeWhile (\<lambda>c. c \<noteq> CHR ''.'') (rev name);
          n = length name - length tl_rev
      in if tl_rev = [] \<or> n \<le> 1 then name else take (n - 1) name)"

record corpora_cfg =
  cc_repo_path :: string
  cc_profiles_dir :: string
  cc_profiles :: "string list"
  cc_architecture_dir :: string
  cc_architecture_globs :: "string list"
  cc_local_ci_command :: string
  cc_rubric_categories :: "string list"
  cc_rubric_min_score :: int

section \<open>Standards profiles\<close>

definition heading_re :: rx where
  "heading_re =
     seq_of [Line_start, One (\<lambda>c. c = CHR ''#''), Maybe (One (\<lambda>c. c = CHR ''#'')),
             Maybe (One (\<lambda>c. c = CHR ''#'')), some_of whitespace,
             Group ''2'' (Seq (One any_char) (Few any_char)), Many whitespace, Line_end]"

definition parse_sections :: "string \<Rightarrow> string list" where
  "parse_sections body = map (\<lambda>m. strip (opt_text (group ''2'' m body))) (finditer heading_re body)"

definition required_keys :: "string list" where
  "required_keys = [''kind'', ''name'', ''category'', ''importance'']"

definition fm_type :: "fm_value \<Rightarrow> string" where
  "fm_type v = (case v of Fm_str _ \<Rightarrow> ''str'' | Fm_list _ \<Rightarrow> ''list'')"

definition to_str :: "string \<Rightarrow> string \<Rightarrow> fm_value \<Rightarrow> py_error + string" where
  "to_str path key v =
     (case v of
        Fm_str s \<Rightarrow> Inr s
      | Fm_list _ \<Rightarrow> Inl (fm_error path (''key '' @ py_repr key @ '' must be a string, got '' @ fm_type v)))"

definition to_str_tuple :: "fm_value option \<Rightarrow> string list" where
  "to_str_tuple v = (case v of None \<Rightarrow> [] | Some (Fm_str s) \<Rightarrow> [s] | Some (Fm_list xs) \<Rightarrow> xs)"

definition valid_importance :: "importance list" where
  "valid_importance = [Imp_low, Imp_medium, Imp_high, Imp_critical]"

definition importance_of :: "string \<Rightarrow> string \<Rightarrow> py_error + importance" where
  "importance_of path raw =
     (case List.find (\<lambda>i. importance_value i = raw) valid_importance of
        Some i \<Rightarrow> Inr i
      | None \<Rightarrow> Inl (fm_error path (''importance must be one of ['' @
          py_list_body (map importance_value valid_importance) @ ''], got '' @ py_repr raw)))"

definition fm_required :: "string \<Rightarrow> frontmatter \<Rightarrow> py_error + unit" where
  "fm_required path fm =
     (case List.find (\<lambda>k. map_of fm k = None) required_keys of
        Some k \<Rightarrow> Inl (fm_error path (''missing required key '' @ py_repr k))
      | None \<Rightarrow> Inr ())"

definition build_standards_doc :: "doc_fs \<Rightarrow> string \<Rightarrow> string \<Rightarrow> string \<Rightarrow> py_error + standards_doc" where
  "build_standards_doc fs profile repo_root path =
     ebind (fs_read fs path) (\<lambda>txt.
     ebind (parse_frontmatter txt path) (\<lambda>(fm, body).
     ebind (fm_required path fm) (\<lambda>_.
     ebind (to_str path ''importance'' (the (map_of fm ''importance''))) (\<lambda>raw.
     ebind (importance_of path raw) (\<lambda>imp.
     ebind (to_str path ''category'' (the (map_of fm ''category''))) (\<lambda>category.
     ebind (to_str path ''name'' (the (map_of fm ''name''))) (\<lambda>name. Inr
       \<lparr>sd_profile = profile, sd_category = category, sd_name = name, sd_path = path,
        sd_repo_relative = repo_relative_path repo_root path, sd_importance = imp,
        sd_applies_to = to_str_tuple (map_of fm ''applies_to''),
        sd_applies_to_languages = to_str_tuple (map_of fm ''applies_to_languages''),
        sd_applies_to_domains = to_str_tuple (map_of fm ''applies_to_domains''),
        sd_body = body, sd_sections = parse_sections body\<rparr>)))))))"

definition load_profile :: "doc_fs \<Rightarrow> corpora_cfg \<Rightarrow> string \<Rightarrow> string \<Rightarrow> py_error + standards_profile" where
  "load_profile fs cfg root name =
     (let dir = join_path root name
      in if \<not> fs_exists fs dir
         then Inl (RuntimeError (''standards profile '' @ py_repr name @
                '' listed in cfg.standards_profiles but directory '' @ dir @ '' does not exist''))
         else if \<not> fs_is_dir fs dir
         then Inl (RuntimeError (''standards profile path '' @ dir @ '' is not a directory''))
         else ebind (etraverse (build_standards_doc fs name (cc_repo_path cfg))
                (filter (fs_is_file fs) (sorted_paths (fs_markdown fs dir)))) (\<lambda>docs.
              Inr \<lparr>sp_name = name, sp_root = dir, sp_docs = docs\<rparr>))"

definition load_profiles :: "doc_fs \<Rightarrow> corpora_cfg \<Rightarrow> py_error + standards_profile list" where
  "load_profiles fs cfg =
     etraverse
       (load_profile fs cfg (fs_resolve fs (join_path (cc_repo_path cfg) (cc_profiles_dir cfg))))
       (cc_profiles cfg)"

text \<open>\<^verbatim>\<open>text.strip("\n")\<close> and \<^verbatim>\<open>text.rstrip()\<close>.\<close>

definition strip_newlines :: "string \<Rightarrow> string" where
  "strip_newlines s =
     rev (dropWhile (\<lambda>c. c = CHR 0x0A) (rev (dropWhile (\<lambda>c. c = CHR 0x0A) s)))"

definition rstrip :: "string \<Rightarrow> string" where
  "rstrip s = rev (dropWhile whitespace (rev s))"

definition capped :: "nat \<Rightarrow> string \<Rightarrow> string \<Rightarrow> string" where
  "capped cap marker txt = (if length txt > cap then rstrip (take cap txt) @ nl @ marker else txt)"

definition long_dash :: string where
  "long_dash = [char_of (226 :: nat), char_of (128 :: nat), char_of (148 :: nat)]"

definition doc_line :: "standards_doc \<Rightarrow> string" where
  "doc_line d =
     ''- `'' @ sd_repo_relative d @ ''` '' @ long_dash @ '' applies_to_languages: '' @
     or_else (join '', '' (sd_applies_to_languages d)) ''(any)'' @ ''; sections: '' @
     or_else (join '', '' (sd_sections d)) ''(no sections)''"

definition profile_lines :: "standards_profile \<Rightarrow> string list" where
  "profile_lines p =
     [''## profile: '' @ sp_name p, []] @
     (if sp_docs p = [] then [''(empty profile '' @ long_dash @ '' no .md files under '' @ sp_root p @ '')'', []]
      else map doc_line (sp_docs p) @ [[]])"

definition render_profile_catalog :: "standards_profile list \<Rightarrow> nat \<Rightarrow> string" where
  "render_profile_catalog profiles cap =
     (if profiles = []
      then ''(no standards profiles configured '' @ long_dash @
           '' set `standards_profiles_dir` + `standards_profiles` in quikode config; '' @
           ''the standards audit will report a config_error)''
      else capped cap ''[STANDARDS PROFILE CATALOG TRUNCATED]''
             (strip_newlines (join nl (concat (map profile_lines profiles)))))"

section \<open>Architecture documents\<close>

definition first_h1_re :: rx where
  "first_h1_re =
     seq_of [Line_start, One (\<lambda>c. c = CHR ''#''), some_of whitespace,
             Group ''1'' (Seq (One any_char) (Few any_char)), Many whitespace, Line_end]"

text \<open>\<^verbatim>\<open>^(?!#)([^\n].*?)$\<close>: the look-ahead and the class are about the same character.\<close>

definition non_heading_re :: rx where
  "non_heading_re =
     seq_of [Line_start,
             Group ''1'' (Seq (One (\<lambda>c. c \<noteq> CHR ''#'' \<and> c \<noteq> CHR 0x0A)) (Few any_char)), Line_end]"

definition parse_title :: "string \<Rightarrow> string \<Rightarrow> string" where
  "parse_title body fallback =
     (case search first_h1_re body of
        Some m \<Rightarrow> strip (opt_text (group ''1'' m body))
      | None \<Rightarrow> fallback)"

definition build_arch_doc :: "doc_fs \<Rightarrow> string \<Rightarrow> string \<Rightarrow> py_error + arch_doc" where
  "build_arch_doc fs repo_root path =
     ebind (fs_read fs path) (\<lambda>txt.
     ebind (parse_frontmatter txt path) (\<lambda>(_, b).
       let body = or_else b txt
       in Inr \<lparr>ad_path = path, ad_repo_relative = repo_relative_path repo_root path,
               ad_title = parse_title body (path_stem path), ad_sections = parse_sections body, ad_body = body\<rparr>))"

text \<open>The loop over the matches of all patterns: a file is taken once, under its resolved path.\<close>

fun arch_docs :: "doc_fs \<Rightarrow> string \<Rightarrow> string list \<Rightarrow> string list \<Rightarrow> py_error + arch_doc list" where
  "arch_docs fs repo_root seen [] = Inr []"
| "arch_docs fs repo_root seen (p # ps) =
     (if \<not> fs_is_file fs p \<or> fs_resolve fs p \<in> set seen then arch_docs fs repo_root seen ps
      else ebind (build_arch_doc fs repo_root (fs_resolve fs p)) (\<lambda>d.
           ebind (arch_docs fs repo_root (fs_resolve fs p # seen) ps) (\<lambda>ds. Inr (d # ds))))"

definition load_architecture :: "doc_fs \<Rightarrow> corpora_cfg \<Rightarrow> py_error + arch_corpus" where
  "load_architecture fs cfg =
     (let root = fs_resolve fs (join_path (cc_repo_path cfg) (cc_architecture_dir cfg));
          globs = (if cc_architecture_globs cfg = [] then [''**/*.md''] else cc_architecture_globs cfg)
      in if \<not> fs_exists fs root \<or> \<not> fs_is_dir fs root then Inr \<lparr>ac_root = root, ac_docs = []\<rparr>
         else ebind (arch_docs fs (cc_repo_path cfg) [] (concat (map (\<lambda>g. sorted_paths (fs_glob fs root g)) globs)))
                (\<lambda>docs. Inr \<lparr>ac_root = root, ac_docs = docs\<rparr>))"

fun first_nonempty :: "string list \<Rightarrow> string" where
  "first_nonempty [] = []"
| "first_nonempty (s # ss) = (if s \<noteq> [] then s else first_nonempty ss)"

definition arch_summary :: "arch_doc \<Rightarrow> string" where
  "arch_summary d =
     first_nonempty (map (\<lambda>m. strip (opt_text (group ''1'' m (ad_body d)))) (finditer non_heading_re (ad_body d)))"

definition toc_lines :: "arch_doc \<Rightarrow> string list" where
  "toc_lines d =
     [''## '' @ ad_repo_relative d @ '' '' @ long_dash @ '' '' @ ad_title d] @
     (if arch_summary d \<noteq> [] then [''   summary: '' @ take 240 (arch_summary d)] else []) @
     [''   sections: '' @ or_else (join '', '' (ad_sections d)) ''(no sections)'', []]"

definition render_architecture_toc :: "arch_corpus \<Rightarrow> nat \<Rightarrow> string" where
  "render_architecture_toc corpus cap =
     (if ac_docs corpus = []
      then ''(no architecture docs found under '' @ ac_root corpus @ '' '' @ long_dash @
           '' set `architecture_docs_dir` + `architecture_doc_globs` in quikode config)''
      else capped cap ''[ARCHITECTURE TOC TRUNCATED]''
             (strip_newlines (join nl (concat (map toc_lines (ac_docs corpus))))))"

section \<open>The contract\<close>

record templates =
  tm_local_ci :: "string \<Rightarrow> string"
  tm_rubric :: string
  tm_standards :: string
  tm_architecture :: string
  tm_behavior :: string

definition build_local_ci :: "templates \<Rightarrow> corpora_cfg \<Rightarrow> stage_rubric" where
  "build_local_ci tm cfg =
     (let cmd = or_else (cc_local_ci_command cfg) ''(unset)''
      in \<lparr>sr_name = Stage_local_ci,
          sr_one_line = ''Build / lint / test / fmt / migration / line-budget gate. Single command.'',
          sr_threshold = ''rc=0'', sr_grading_template = tm_local_ci tm cmd,
          sr_source_text = ''Command: `'' @ cmd @ ''`''\<rparr>)"

definition build_rubric :: "templates \<Rightarrow> corpora_cfg \<Rightarrow> stage_rubric" where
  "build_rubric tm cfg =
     (let categories = cc_rubric_categories cfg; score = str_int (cc_rubric_min_score cfg)
      in \<lparr>sr_name = Stage_rubric,
          sr_one_line = ''Code-quality dimensions (security, scalability, maintainability, ...). Per-category 1-10 score.'',
          sr_threshold = ''every category >= '' @ score, sr_grading_template = tm_rubric tm,
          sr_source_text =
            (if categories \<noteq> []
             then ''Rubric categories (each scored 1-10; gate passes when every category clears the threshold of '' @
                  score @ ''):'' @ nl @ nl @ join nl (map (\<lambda>c. ''- **'' @ c @ ''**'') categories)
             else ''(no rubric categories configured for this workspace; the planner cannot '' @
                  ''advance any rubric category and the validators will fail accordingly)'')\<rparr>)"

definition build_standards :: "templates \<Rightarrow> standards_profile list \<Rightarrow> standards_stage" where
  "build_standards tm profiles =
     \<lparr>sg_one_line = ''Language/framework standards-profile alignment. Cite passages '' @
        ''via `standards_referenced` (NOT `architecture_referenced`).'',
      sg_threshold = ''no drift from any cited profile section'', sg_grading_template = tm_standards tm,
      sg_profiles = profiles, sg_source_text = render_profile_catalog profiles 30000\<rparr>"

definition build_architecture :: "templates \<Rightarrow> arch_corpus \<Rightarrow> architecture_stage" where
  "build_architecture tm corpus =
     \<lparr>ag_one_line = ''Project-architecture alignment with this repo'' @ quote1 @ ''s documented '' @
        ''subsystem contracts. Cite via `architecture_referenced` (NOT `standards_referenced`).'',
      ag_threshold = ''no drift from any cited architecture section'', ag_grading_template = tm_architecture tm,
      ag_corpus = corpus, ag_source_text = render_architecture_toc corpus 30000\<rparr>"

text \<open>\<^verbatim>\<open>f" interfaces={list(interfaces)!r}"\<close> of a value that is true.\<close>

definition listed :: "string \<Rightarrow> json \<Rightarrow> string \<Rightarrow> py_error + string" where
  "listed label ev key =
     (if json_true (jget ev key)
      then ebind (json_iter (the (jget ev key))) (\<lambda>xs. Inr ('' '' @ label @ ''='' @ json_repr (JArr xs)))
      else Inr [])"

definition get_or_empty :: "json \<Rightarrow> string \<Rightarrow> string" where
  "get_or_empty ev key = (case jget ev key of None \<Rightarrow> [] | Some v \<Rightarrow> json_str v)"

definition evidence_line :: "json \<Rightarrow> py_error + string" where
  "evidence_line ev =
     ebind (json_evidence_id ev) (\<lambda>i.
     ebind (listed ''interfaces'' ev ''interfaces'') (\<lambda>ifaces.
     ebind (listed ''witnesses'' ev ''witnesses'') (\<lambda>witnesses.
       Inr (''- `'' @ i @ ''` ('' @ get_or_empty ev ''kind'' @ '')'' @ ifaces @ witnesses @ '': '' @
         get_or_empty ev ''description''))))"

definition build_behavior :: "templates \<Rightarrow> json list \<Rightarrow> py_error + stage_rubric" where
  "build_behavior tm expected =
     ebind (if expected = []
            then Inr (''(no expected_evidence on this node; the behavior gate has nothing to verify '' @
                   ''and downstream gates carry the load '' @ long_dash @ '' typical for non-behavior tasks)'')
            else ebind (etraverse evidence_line expected) (\<lambda>lines. Inr
                   (''Expected behavior witnesses (each id must be empirically observable;'' @ nl @
                    ''the audit gate runs the witness command and asserts substantive output):'' @ nl @ nl @
                    join nl lines)))
       (\<lambda>source. Inr
          \<lparr>sr_name = Stage_behavior,
           sr_one_line = ''Empirical witness verification: each expected_evidence id must run and produce real output.'',
           sr_threshold = ''every expected_evidence id verified=true with non-stub output'',
           sr_grading_template = tm_behavior tm, sr_source_text = source\<rparr>)"

text \<open>\<^verbatim>\<open>build_for\<close>; a node is its identifier and its \<^verbatim>\<open>expected_evidence\<close>.\<close>

definition build_for :: "templates \<Rightarrow> doc_fs \<Rightarrow> corpora_cfg \<Rightarrow> string \<Rightarrow> json list \<Rightarrow> py_error + contract" where
  "build_for tm fs cfg node_id expected =
     ebind (load_profiles fs cfg) (\<lambda>profiles.
     ebind (load_architecture fs cfg) (\<lambda>corpus.
     ebind (build_behavior tm expected) (\<lambda>behavior. Inr
       \<lparr>ct_task_id = node_id, ct_local_ci = build_local_ci tm cfg, ct_rubric = build_rubric tm cfg,
        ct_standards = build_standards tm profiles, ct_architecture = build_architecture tm corpus,
        ct_behavior = behavior\<rparr>)))"

section \<open>Frontmatter is read back\<close>

text \<open>The text of a dictionary: scalars on the line of their key, lists as bullets below it.\<close>

definition bullet :: "string \<Rightarrow> string" where
  "bullet x = ''  - '' @ x"

definition fm_entry_lines :: "string \<times> fm_value \<Rightarrow> string list" where
  "fm_entry_lines e =
     (case e of
        (k, Fm_str v) \<Rightarrow> [k @ '': '' @ v]
      | (k, Fm_list xs) \<Rightarrow> (k @ '':'') # map bullet xs)"

definition fm_text :: "frontmatter \<Rightarrow> string list \<Rightarrow> string" where
  "fm_text es body = join nl ([''---''] @ concat (map fm_entry_lines es) @ [''---''] @ body)"

definition unbroken :: "string \<Rightarrow> bool" where
  "unbroken w \<longleftrightarrow> list_all (\<lambda>c. \<not> line_break c) w"

definition trimmed :: "string \<Rightarrow> bool" where
  "trimmed w \<longleftrightarrow> w = [] \<or> \<not> whitespace (hd w) \<and> \<not> whitespace (last w)"

definition key_ok :: "string \<Rightarrow> bool" where
  "key_ok k \<longleftrightarrow> k \<noteq> [] \<and> trimmed k \<and> unbroken k \<and> \<not> list_ex colon k \<and> \<not> starts_with ''- '' k"

definition item_ok :: "string \<Rightarrow> bool" where
  "item_ok x \<longleftrightarrow> trimmed x \<and> unbroken x \<and> strip_quotes x = x"

definition value_ok :: "fm_value \<Rightarrow> bool" where
  "value_ok v \<longleftrightarrow>
     (case v of
        Fm_str s \<Rightarrow> item_ok s \<and> s \<noteq> [] \<and> \<not> (starts_with ''['' s \<and> ends_with '']'' s)
      | Fm_list xs \<Rightarrow> list_all item_ok xs)"

definition entry_ok :: "string \<times> fm_value \<Rightarrow> bool" where
  "entry_ok e \<longleftrightarrow> key_ok (fst e) \<and> value_ok (snd e)"

lemma drop_white: "w \<noteq> [] \<Longrightarrow> \<not> whitespace (hd w) \<Longrightarrow> dropWhile whitespace w = w"
  by (cases w) simp_all

lemma strip_trimmed: "trimmed w \<Longrightarrow> strip w = w"
  by (cases "w = []") (auto simp: trimmed_def strip_def drop_white hd_rev)

lemma strip_space: "strip (CHR '' '' # w) = strip w"
  by (simp add: strip_def whitespace_def)

lemma trimmed_append: "trimmed a \<Longrightarrow> a \<noteq> [] \<Longrightarrow> b \<noteq> [] \<Longrightarrow> \<not> whitespace (last b) \<Longrightarrow> trimmed (a @ b)"
  by (auto simp: trimmed_def)

lemma white_facts [simp]: "\<not> whitespace (CHR '':'')" "\<not> whitespace (CHR ''-'')" "whitespace (CHR '' '')"
  by (simp_all add: whitespace_def)

lemma kv_line:
  assumes "key_ok k" and "v = [] \<or> v = CHR '' '' # u" and "u \<noteq> [] \<and> trimmed u"
  shows "strip (k @ '':'' @ v) \<noteq> []" and "\<not> rule (k @ '':'' @ v)"
    and "\<not> starts_with ''- '' (dropWhile whitespace (k @ '':'' @ v))"
    and "fm_line path (k @ '':'' @ v) s = consume_kv_line path (k @ '':'' @ v) (fst (flush_list s))"
proof -
  have k: "k \<noteq> []" "trimmed k" "\<not> whitespace (hd k)" using assms(1) by (auto simp: key_ok_def trimmed_def)
  have t: "trimmed (k @ '':'' @ v)"
  proof (rule trimmed_append [OF k(2,1)])
    show "\<not> whitespace (last ('':'' @ v))" using assms(2,3) by (auto simp: trimmed_def)
  qed simp
  then have strip: "strip (k @ '':'' @ v) = k @ '':'' @ v" by (rule strip_trimmed)
  then show ne: "strip (k @ '':'' @ v) \<noteq> []" by simp
  have "CHR '':'' \<in> set (k @ '':'' @ v)" by simp
  moreover have "CHR '':'' \<notin> set ''---''" by simp
  ultimately show "\<not> rule (k @ '':'' @ v)" unfolding rule_def strip by metis
  have "dropWhile whitespace (k @ '':'' @ v) = k @ '':'' @ v" by (rule drop_white) (use k in simp_all)
  moreover have "\<not> starts_with ''- '' (k @ '':'' @ v)"
  proof -
    obtain c w where c: "k = c # w" using k(1) by (cases k) simp_all
    show ?thesis
      using assms(1) unfolding c by (cases w) (auto simp: starts_with_def key_ok_def)
  qed
  ultimately show nb: "\<not> starts_with ''- '' (dropWhile whitespace (k @ '':'' @ v))" by simp
  show "fm_line path (k @ '':'' @ v) s = consume_kv_line path (k @ '':'' @ v) (fst (flush_list s))"
    using ne nb by (simp add: fm_line_def)
qed

lemma colon_split:
  assumes "\<not> list_ex colon k"
  shows "takeWhile (\<lambda>c. \<not> colon c) (k @ '':'' @ v) = k" and "drop 1 (dropWhile (\<lambda>c. \<not> colon c) (k @ '':'' @ v)) = v"
  using assms by (induction k) (simp_all add: colon_def)

lemma scalar_line:
  assumes "key_ok k" and "value_ok (Fm_str v)"
  shows "fm_line path (k @ '': '' @ v) s = Inr (AList.update k (Fm_str v) (fst (flush_list s)), None, [])"
proof -
  have v: "v \<noteq> []" "trimmed v" "strip_quotes v = v" "\<not> (starts_with ''['' v \<and> ends_with '']'' v)"
    using assms(2) by (auto simp: value_ok_def item_ok_def)
  have k: "\<not> list_ex colon k" "strip k = k" "k \<noteq> []" using assms(1) by (auto simp: key_ok_def strip_trimmed)
  have "fm_line path (k @ '': '' @ v) s = consume_kv_line path (k @ '':'' @ CHR '' '' # v) (fst (flush_list s))"
    using kv_line(4) [OF assms(1), of "CHR '' '' # v" v path s] v by simp
  moreover have "list_ex colon (k @ '':'' @ CHR '' '' # v)" by (simp add: colon_def)
  ultimately show ?thesis
    using v k(2,3) colon_split [OF k(1), of "CHR '' '' # v"]
    by (auto simp: consume_kv_line_def Let_def strip_space strip_trimmed)
qed

lemma list_head_line:
  assumes "key_ok k"
  shows "fm_line path (k @ '':'') s = Inr (fst (flush_list s), Some k, [])"
proof -
  have k: "\<not> list_ex colon k" "strip k = k" "k \<noteq> []" using assms by (auto simp: key_ok_def strip_trimmed)
  have "fm_line path (k @ '':'') s = consume_kv_line path (k @ '':'' @ []) (fst (flush_list s))"
    using kv_line(4) [OF assms, of "[]" "''x''" path s] by (simp add: trimmed_def whitespace_def)
  moreover have "list_ex colon (k @ '':'' @ [])" by (simp add: colon_def)
  moreover have "strip [] = []" by (simp add: strip_def)
  ultimately show ?thesis
    using k(2,3) colon_split [OF k(1), of "[]"] by (simp add: consume_kv_line_def Let_def)
qed

lemma bullet_line:
  assumes "item_ok x"
  shows "fm_line path (bullet x) (fm, Some k, items) = Inr (fm, Some k, items @ [x])"
    and "\<not> rule (bullet x)"
  unfolding bullet_def
proof -
  have x: "strip x = x" "strip_quotes x = x" using assms by (auto simp: item_ok_def strip_trimmed)
  have drop: "dropWhile whitespace (''  - '' @ x) = ''- '' @ x" by simp
  have strip: "strip (''  - '' @ x) = rev (dropWhile whitespace (rev (''- '' @ x)))" by (simp add: strip_def)
  have "CHR ''-'' \<in> set (dropWhile whitespace (rev (''- '' @ x)))"
    by (induction "rev x") (auto simp: dropWhile_append)
  then have ne: "strip (''  - '' @ x) \<noteq> []" unfolding strip by auto
  with drop x show "fm_line path (''  - '' @ x) (fm, Some k, items) = Inr (fm, Some k, items @ [x])"
    by (simp add: fm_line_def consume_bullet_line_def starts_with_def)
  show "\<not> rule (''  - '' @ x)"
  proof (cases "x = []")
    case True
    then show ?thesis by (simp add: rule_def strip_def)
  next
    case False
    with assms have "trimmed (''- '' @ x)" by (auto simp: item_ok_def trimmed_def)
    then have "strip (''  - '' @ x) = ''- '' @ x" by (simp add: strip_space strip_trimmed)
    then show ?thesis by (simp add: rule_def)
  qed
qed


lemma fm_lines_append:
  "fm_lines path (xs @ ys) s = ebind (fm_lines path xs s) (fm_lines path ys)"
  by (induction xs arbitrary: s) (auto simp: ebind_def split: sum.splits)

lemma bullet_lines:
  "list_all item_ok xs \<Longrightarrow>
   fm_lines path (map bullet xs) (fm, Some k, items) = Inr (fm, Some k, items @ xs)"
proof (induction xs arbitrary: items)
  case (Cons x xs)
  then have "fm_line path (bullet x) (fm, Some k, items) = Inr (fm, Some k, items @ [x])"
    by (intro bullet_line(1)) simp
  with Cons show ?case by simp
qed simp

lemma entry_read:
  assumes "entry_ok (k, v)"
  shows "\<exists>s'. fm_lines path (fm_entry_lines (k, v)) s = Inr s' \<and>
    fst (flush_list s') = AList.update k v (fst (flush_list s))"
proof (cases v)
  case (Fm_str t)
  with assms have "fm_line path (k @ '': '' @ t) s = Inr (AList.update k (Fm_str t) (fst (flush_list s)), None, [])"
    by (intro scalar_line) (simp_all add: entry_ok_def)
  with Fm_str show ?thesis by (simp add: fm_entry_lines_def flush_list_def)
next
  case (Fm_list xs)
  with assms have "list_all item_ok xs" "key_ok k" by (simp_all add: entry_ok_def value_ok_def)
  with bullet_lines [of xs path "fst (flush_list s)" k "[]"] list_head_line [of k path s]
  have "fm_lines path (fm_entry_lines (k, v)) s = Inr (fst (flush_list s), Some k, xs)"
    unfolding Fm_list fm_entry_lines_def by simp
  then show ?thesis by (simp add: flush_list_def Fm_list)
qed

lemma entries_read:
  "list_all entry_ok es \<Longrightarrow> \<exists>s'. fm_lines path (concat (map fm_entry_lines es)) s = Inr s' \<and>
     fst (flush_list s') = fold (\<lambda>(k, v). AList.update k v) es (fst (flush_list s))"
proof (induction es arbitrary: s)
  case (Cons e es)
  obtain k v where e: "e = (k, v)" by fastforce
  with Cons.prems obtain s1 where s1: "fm_lines path (fm_entry_lines e) s = Inr s1"
    "fst (flush_list s1) = AList.update k v (fst (flush_list s))" using entry_read [of k v path s] by auto
  from Cons obtain s2 where "fm_lines path (concat (map fm_entry_lines es)) s1 = Inr s2"
    "fst (flush_list s2) = fold (\<lambda>(k, v). AList.update k v) es (fst (flush_list s1))" by fastforce
  with s1 e show ?case by (simp add: fm_lines_append)
qed simp

lemma update_fresh: "k \<notin> fst ` set m \<Longrightarrow> AList.update k v m = m @ [(k, v)]"
  by (induction m) auto

lemma fold_fresh: "distinct (map fst (m @ es)) \<Longrightarrow> fold (\<lambda>(k, v). AList.update k v) es m = m @ es"
proof (induction es arbitrary: m)
  case (Cons e es)
  then have "AList.update (fst e) (snd e) m = m @ [e]" using update_fresh [of "fst e" m "snd e"] by simp
  with Cons show ?case by (simp add: case_prod_beta)
qed simp

lemma lines_from_word: "unbroken w \<Longrightarrow> lines_from cur (w @ CHR 0x0A # s) = (rev cur @ w) # lines_from [] s"
proof (induction w arbitrary: cur)
  case Nil
  then show ?case by (cases s) (simp_all add: line_break_def)
next
  case (Cons c w)
  then show ?case by (simp add: unbroken_def)
qed

lemma lines_from_last: "unbroken w \<Longrightarrow> cur \<noteq> [] \<or> w \<noteq> [] \<Longrightarrow> lines_from cur w = [rev cur @ w]"
  by (induction w arbitrary: cur) (simp_all add: unbroken_def)

lemma splitlines_join:
  "list_all unbroken ls \<Longrightarrow> ls \<noteq> [] \<Longrightarrow> last ls \<noteq> [] \<Longrightarrow> splitlines (join nl ls) = ls"
proof (induction ls rule: join.induct [of "\<lambda>_. _" nl, case_names Nil One More])
  case (One s)
  then show ?case by (simp add: splitlines_def lines_from_last)
next
  case (More s t ss)
  then show ?case by (simp add: splitlines_def nl_def lines_from_word)
qed simp


lemma entry_unbroken: "entry_ok e \<Longrightarrow> list_all unbroken (fm_entry_lines e)"
proof -
  assume "entry_ok e"
  obtain k v where e: "e = (k, v)" by fastforce
  have colon: "unbroken '':''" "unbroken '': ''" "unbroken ''  - ''" by (simp_all add: unbroken_def line_break_def)
  have append: "unbroken (a @ b) \<longleftrightarrow> unbroken a \<and> unbroken b" for a b by (simp add: unbroken_def)
  from \<open>entry_ok e\<close> show ?thesis
    unfolding e by (cases v) (auto simp: fm_entry_lines_def entry_ok_def key_ok_def value_ok_def item_ok_def bullet_def
        append list_all_iff simp del: append_Cons intro: colon)
qed

lemma entry_no_rule: "entry_ok e \<Longrightarrow> list_all (\<lambda>l. \<not> rule l) (fm_entry_lines e)"
proof -
  assume "entry_ok e"
  obtain k v where e: "e = (k, v)" by fastforce
  show ?thesis
  proof (cases v)
    case (Fm_str t)
    with \<open>entry_ok e\<close> e have "key_ok k" "t \<noteq> [] \<and> trimmed t" by (auto simp: entry_ok_def value_ok_def item_ok_def)
    with kv_line(2) [of k "CHR '' '' # t" t] show ?thesis by (simp add: e Fm_str fm_entry_lines_def)
  next
    case (Fm_list xs)
    with \<open>entry_ok e\<close> e have "key_ok k" "list_all item_ok xs" by (simp_all add: entry_ok_def value_ok_def)
    moreover from this(1) kv_line(2) [of k "[]" "''x''"] have "\<not> rule (k @ '':'')"
      by (simp add: trimmed_def whitespace_def)
    ultimately show ?thesis using bullet_line(2) by (auto simp: e Fm_list fm_entry_lines_def list_all_iff)
  qed
qed

lemma until_rule:
  "list_all (\<lambda>l. \<not> rule l) xs \<Longrightarrow> rule d \<Longrightarrow>
   dropWhile (\<lambda>x. \<not> rule x) (xs @ d # ys) = d # ys \<and> takeWhile (\<lambda>x. \<not> rule x) (xs @ d # ys) = xs"
  by (induction xs) simp_all



section \<open>Loaded corpora\<close>

lemma etraverse_members: "etraverse f xs = Inr ys \<Longrightarrow> list_all2 (\<lambda>x y. f x = Inr y) xs ys"
  by (induction xs arbitrary: ys) (auto simp: ebind_def split: sum.splits)

lemma ebind_Inr: "ebind x f = Inr y \<longleftrightarrow> (\<exists>a. x = Inr a \<and> f a = Inr y)"
  by (cases x) simp_all

lemma built_doc:
  assumes "build_standards_doc fs profile root path = Inr d"
  shows "sd_profile d = profile \<and> sd_path d = path \<and> sd_repo_relative d = repo_relative_path root path"
  using assms by (auto simp: build_standards_doc_def ebind_Inr)

text \<open>Every loaded document is found under its own path, so a planner can cite it.\<close>

lemma loaded_doc_found:
  assumes "p \<in> set profiles" and "d \<in> set (sp_docs p)" and "strip (sd_repo_relative d) = sd_repo_relative d"
  shows "\<exists>d'. find_doc profiles (sd_repo_relative d) = Some d' \<and> sd_repo_relative d' = sd_repo_relative d"
proof -
  have "find_doc profiles (sd_repo_relative d) \<noteq> None"
    using assms by (auto simp: find_doc_def find_None_iff)
  then show ?thesis using assms(3) by (auto simp: find_doc_def find_Some_iff)
qed

text \<open>A path that does not start with the configured root is cited as it is.\<close>

lemma symlinked_root:
  "repo_relative_path ''/home/me/repo'' ''/data/repo/docs/a.md'' = ''/data/repo/docs/a.md''"
  by code_simp

lemma built_arch_doc: "build_arch_doc fs root p = Inr d \<Longrightarrow> ad_path d = p"
  by (auto simp: build_arch_doc_def ebind_Inr Let_def)

lemma arch_docs_distinct:
  "arch_docs fs root seen ps = Inr ds \<Longrightarrow>
   distinct (map ad_path ds) \<and> set (map ad_path ds) \<inter> set seen = {} \<and>
   set (map ad_path ds) = fs_resolve fs ` {p \<in> set ps. fs_is_file fs p} - set seen"
proof (induction ps arbitrary: seen ds)
  case (Cons p ps)
  show ?case
  proof (cases "\<not> fs_is_file fs p \<or> fs_resolve fs p \<in> set seen")
    case True
    with Cons.prems have "arch_docs fs root seen ps = Inr ds" by simp
    with Cons.IH True show ?thesis by auto
  next
    case False
    with Cons.prems obtain d ds' where d: "build_arch_doc fs root (fs_resolve fs p) = Inr d"
      "arch_docs fs root (fs_resolve fs p # seen) ps = Inr ds'" "ds = d # ds'"
      by (auto simp: ebind_Inr)
    from Cons.IH [OF d(2)] built_arch_doc [OF d(1)] d(3) False show ?thesis by auto
  qed
qed simp

text \<open>
  C40: The architecture corpus has every file once. However the patterns overlap and whichever links point to a file,
  the paths of the loaded documents are distinct, and they are the resolved paths of exactly the files matched by the
  patterns.\<close>

theorem architecture_corpus_exact:
  assumes "load_architecture fs cfg = Inr corpus" and "fs_exists fs (ac_root corpus)" and "fs_is_dir fs (ac_root corpus)"
    and "cc_architecture_globs cfg \<noteq> []"
  shows "distinct (map ad_path (ac_docs corpus)) \<and>
    set (map ad_path (ac_docs corpus)) =
      fs_resolve fs ` {p. fs_is_file fs p \<and> (\<exists>g \<in> set (cc_architecture_globs cfg). p \<in> set (fs_glob fs (ac_root corpus) g))}"
proof -
  let ?ps = "concat (map (\<lambda>g. sorted_paths (fs_glob fs (ac_root corpus) g)) (cc_architecture_globs cfg))"
  have "ac_root corpus = fs_resolve fs (join_path (cc_repo_path cfg) (cc_architecture_dir cfg))"
    using assms(1) by (auto simp: load_architecture_def Let_def ebind_Inr split: if_splits)
  with assms have "arch_docs fs (cc_repo_path cfg) [] ?ps = Inr (ac_docs corpus)"
    by (auto simp: load_architecture_def Let_def ebind_Inr)
  from arch_docs_distinct [OF this]
  have "distinct (map ad_path (ac_docs corpus))"
    "set (map ad_path (ac_docs corpus)) = fs_resolve fs ` {p \<in> set ?ps. fs_is_file fs p}" by simp_all
  moreover have "{p \<in> set ?ps. fs_is_file fs p} =
      {p. fs_is_file fs p \<and> (\<exists>g \<in> set (cc_architecture_globs cfg). p \<in> set (fs_glob fs (ac_root corpus) g))}"
    by (auto simp: sorted_paths_def)
  ultimately show ?thesis by simp
qed

text \<open>A contract that has just been built is not refreshed again while the files stay as they are.\<close>

lemma built_needs_no_refresh:
  assumes "build_for tm fs cfg node_id expected = Inr c" and "load_profiles fs cfg = Inr profiles"
    and "load_architecture fs cfg = Inr corpus"
  shows "\<not> audit_corpora_need_refresh c profiles corpus"
proof -
  have "sg_profiles (ct_standards c) = profiles" "ag_corpus (ct_architecture c) = corpus"
    using assms by (auto simp: build_for_def ebind_Inr build_standards_def build_architecture_def)
  then show ?thesis by (auto simp: audit_corpora_need_refresh_def Let_def has_docs_def)
qed

lemma capped_length: "length (capped cap marker txt) \<le> cap + length marker + 1"
proof -
  have "length (rstrip (take cap txt)) \<le> cap"
    using length_dropWhile_le [of whitespace "rev (take cap txt)"] by (simp add: rstrip_def)
  then show ?thesis by (simp add: capped_def nl_def)
qed

section \<open>Witnesses\<close>


definition demo_fs :: doc_fs where
  "demo_fs =
     \<lparr>fs_exists = (\<lambda>_. True), fs_is_dir = (\<lambda>p. p = ''/r/docs''), fs_is_file = (\<lambda>p. p \<noteq> ''/r/docs''),
      fs_read = (\<lambda>_. Inr ''# Title''), fs_markdown = (\<lambda>_. []), fs_glob = (\<lambda>_ _. [''/r/docs/a.md'', ''/r/docs/b.md'']),
      fs_resolve = (\<lambda>p. if p = ''/r/docs/b.md'' then ''/r/docs/a.md'' else p)\<rparr>"

definition demo_corpora_cfg :: corpora_cfg where
  "demo_corpora_cfg =
     \<lparr>cc_repo_path = ''/r'', cc_profiles_dir = ''profiles'', cc_profiles = [], cc_architecture_dir = ''docs'',
      cc_architecture_globs = [''*.md'', ''**/*.md''], cc_local_ci_command = [], cc_rubric_categories = [],
      cc_rubric_min_score = 7\<rparr>"

lemma demo_plain_text: "parse_frontmatter ''# Title'' p = Inr ([], ''# Title'')"
  by (simp add: parse_frontmatter_def split_frontmatter_block_def starts_with_def nl_def)

theorem architecture_corpus_exact_witness:
  "\<exists>corpus. load_architecture demo_fs demo_corpora_cfg = Inr corpus \<and> distinct (map ad_path (ac_docs corpus)) \<and>
     set (map ad_path (ac_docs corpus)) =
       fs_resolve demo_fs ` {p. fs_is_file demo_fs p \<and>
         (\<exists>g \<in> set (cc_architecture_globs demo_corpora_cfg). p \<in> set (fs_glob demo_fs (ac_root corpus) g))}"
proof -
  have root: "fs_resolve demo_fs (join_path (cc_repo_path demo_corpora_cfg) (cc_architecture_dir demo_corpora_cfg)) = ''/r/docs''"
    by code_simp
  have doc: "\<exists>d. build_arch_doc demo_fs r p = Inr d" for r p
    by (simp add: build_arch_doc_def demo_fs_def demo_plain_text Let_def)
  have docs: "\<exists>ds. arch_docs demo_fs r seen ps = Inr ds" for r seen ps
  proof (induction ps arbitrary: seen)
    case (Cons p ps)
    obtain d where "build_arch_doc demo_fs r (fs_resolve demo_fs p) = Inr d" using doc by blast
    moreover obtain ds where "arch_docs demo_fs r (fs_resolve demo_fs p # seen) ps = Inr ds" using Cons by blast
    ultimately show ?case using Cons by simp
  qed simp
  have dirs: "fs_exists demo_fs ''/r/docs''" "fs_is_dir demo_fs ''/r/docs''" by (simp_all add: demo_fs_def)
  obtain ds where "arch_docs demo_fs (cc_repo_path demo_corpora_cfg) []
      (concat (map (\<lambda>g. sorted_paths (fs_glob demo_fs ''/r/docs'' g)) (cc_architecture_globs demo_corpora_cfg))) = Inr ds"
    using docs by blast
  then have load: "load_architecture demo_fs demo_corpora_cfg = Inr \<lparr>ac_root = ''/r/docs'', ac_docs = ds\<rparr>"
    using root dirs by (simp add: load_architecture_def Let_def demo_corpora_cfg_def)
  have exact: "distinct (map ad_path (ac_docs \<lparr>ac_root = ''/r/docs'', ac_docs = ds\<rparr>)) \<and>
      set (map ad_path (ac_docs \<lparr>ac_root = ''/r/docs'', ac_docs = ds\<rparr>)) =
        fs_resolve demo_fs ` {p. fs_is_file demo_fs p \<and>
          (\<exists>g \<in> set (cc_architecture_globs demo_corpora_cfg).
             p \<in> set (fs_glob demo_fs (ac_root \<lparr>ac_root = ''/r/docs'', ac_docs = ds\<rparr>) g))}"
    by (rule architecture_corpus_exact [OF load]) (simp_all add: dirs demo_corpora_cfg_def)
  with load show ?thesis by blast
qed

end
