(* ===== verification/Spec2Isabelle.thy ===== *)
theory Spec2Isabelle
  imports Orchestrator Histories Machine MergeWork Recovery AgentLayer Corpora
begin

text \<open>
  quikode runs a plan of tasks with coding agents: every task is worked on in its own worktree, audited, opened as a
  pull request, reviewed and merged. This development models the part of quikode that decides: the state machine of
  a task, the SQLite store, the DAG and the scheduler, merge-nodes and stacking, and the orchestrator's loop with its
  polls. All file names are under \<^verbatim>\<open>src/quikode/\<close>.

  \<^bold>\<open>Conventions.\<close> Identifiers are strings, time is an integer clock reading, Python integers are \<^typ>\<open>int\<close> or
  \<^typ>\<open>nat\<close>. Code that reads and writes state is an action \<open>('s, 'a) act\<close> of \<open>Prelude\<close>, a function from a state to a
  result and a state; the result is \<^const>\<open>Inl\<close> of a \<open>py_error\<close> for a raised exception and \<^const>\<open>Inr\<close> of a value
  otherwise. \<open>keeps P m\<close> says that \<open>m\<close> preserves \<open>P\<close> even when it raises, \<open>yields Q m\<close> that its values have \<open>Q\<close>;
  the collection \<open>keeps_intros\<close> carries an invariant through an action, and each family of invariants below has a
  collection of its own on top of it.

  \<^bold>\<open>State machine.\<close> \<open>Fsm\<close> models \<^verbatim>\<open>fsm.py\<close>: the members of \<^verbatim>\<open>State\<close> and \<^verbatim>\<open>Event\<close>, the transition table with its two
  computed updates, \<^verbatim>\<open>target_for_event\<close>, coercion from text, crash recovery. Its properties speak about runs of the
  table. \<open>FsmRuntime\<close> models \<^verbatim>\<open>fsm_runtime.py\<close>, the helpers through which everything else moves a task; the locale
  \<open>fsm_helper\<close> is their common contract and is interpreted once per helper.

  \<^bold>\<open>Store.\<close> \<open>StateTypes\<close> has the rows, \<open>Db\<close> the database, its transactions and the meaning of a lawful history
  (\<open>store_ok\<close>: the log of a task is a chain of lawful edges that ends in the state of its row). \<open>StoreTasks\<close>,
  \<open>StoreForensics\<close>, \<open>StoreSubtasks\<close> and \<open>StoreReview\<close> model the operations of \<^verbatim>\<open>store_tasks.py\<close>,
  \<^verbatim>\<open>store_forensics.py\<close>, \<^verbatim>\<open>store_subtasks.py\<close> with \<^verbatim>\<open>store_planning_cycle.py\<close>, and \<^verbatim>\<open>store_review.py\<close>; every
  operation that writes is shown to keep \<open>store_ok\<close>. \<open>Histories\<close> derives from a lawful log what it says about the
  past of a task.

  \<^bold>\<open>Graphs.\<close> \<open>Worklist\<close> has the traversal loops, \<open>Dag\<close> models \<^verbatim>\<open>dag.py\<close>, \<open>Stacking\<close> models
  \<^verbatim>\<open>orchestration/stacking_helpers.py\<close> over any store that answers for parents (locale \<open>stack_store\<close>, interpreted on
  the store and on the TUI's adapter). The loops of the code that walk a graph are functions with a measure.

  \<^bold>\<open>Scheduling.\<close> \<open>Scheduler\<close> models \<^verbatim>\<open>orchestration/scheduler.py\<close> over the protocol \<^verbatim>\<open>_SchedulerStore\<close> (locale
  \<open>scheduler_store\<close>, interpreted on the store and on the adapter of \<^verbatim>\<open>tui/controllers/pending_eligibility.py\<close>).
  \<open>MergeNode\<close> models \<^verbatim>\<open>merge_node.py\<close> with the hash as a parameter. \<open>Runner\<close> models the collection of
  \<^verbatim>\<open>orchestration/candidates.py\<close> and the picking, slot-filling and reaping of \<^verbatim>\<open>orchestration/runner.py\<close>.

  \<^bold>\<open>The orchestrator.\<close> \<open>Github\<close> models \<^verbatim>\<open>net_retry.py\<close> and the parsing of \<^verbatim>\<open>github.py\<close> and \<^verbatim>\<open>github_graphql.py\<close>.
  \<open>RebaseWatch\<close>, \<open>ReviewWatch\<close> and \<open>Supervision\<close> model \<^verbatim>\<open>orchestration/rebase_watch.py\<close>, \<^verbatim>\<open>review_watch.py\<close> with
  \<^verbatim>\<open>merge_watch.py\<close>, and \<^verbatim>\<open>supervision.py\<close>, on the record \<open>orch\<close> of the orchestrator's own state. \<open>Orchestrator\<close>
  composes them to one turn of the loop of \<^verbatim>\<open>run\<close> and closes the system: \<open>system\<close> is the set of states that turns,
  arbitrary store calls of worker threads and CLI commands (rewind and replan-cycle apart), clock ticks and restarts
  can reach. The properties in
  this theory hold in all of these states.

  \<^bold>\<open>Plans.\<close> \<open>Plans\<close> models \<^verbatim>\<open>subtask_schema.py\<close>: which plans are accepted and in which order their subtasks run.
  \<open>Contract\<close> models the evaluation contract with its persisted form and the document lookups, \<open>PlanChecks\<close> the
  validators of \<^verbatim>\<open>planner_validators.py\<close> and \<^verbatim>\<open>workers/fixup_coverage.py\<close>. The properties say exactly which plans pass.
  \<open>Corpora\<close> models where a contract comes from: the frontmatter parser and the loaders of \<^verbatim>\<open>standards_profiles.py\<close> and
  \<^verbatim>\<open>architecture_docs.py\<close> and the builders of \<^verbatim>\<open>evaluation_contract.py\<close>, over a record of what the file system answers.
  \<open>Text\<close> has Python's string operations and a matcher for the regular expressions of the source.

  \<^bold>\<open>Workers.\<close> \<open>Retry\<close> models \<^verbatim>\<open>retry_classify.py\<close> and the stop-loss rules, \<open>Agents\<close> what the agents return and how it is
  read. \<open>World\<close> is what a task worker runs on: the store, the attributes of the worker and the log of its calls to the
  outside, whose answers are functions of the number of calls made before; \<open>others_keep\<close> says what other threads may do
  to the store meanwhile, \<open>spends\<close> counts calls, and \<open>proc\<close> is code that need not return. \<open>Commits\<close> has the commits
  and the push with recovery (\<^verbatim>\<open>worktree.py\<close>, \<^verbatim>\<open>git_push_recovery.py\<close>), \<open>Provision\<close> the worktree, the container and the
  reduction of several parents to a merge-node, \<open>RebaseWork\<close> the rebases with the conflict resolver. \<open>Regions\<close> says
  which states a helper of \<open>FsmRuntime\<close> cannot leave; the closure is computed on the transition table. \<open>Witnesses\<close>,
  \<open>SubtaskSteps\<close> and \<open>SubtaskLoop\<close> model the work on subtasks: \<^verbatim>\<open>workers/witness_runner.py\<close>, one attempt
  (\<^verbatim>\<open>workers/subtask_execution.py\<close>, \<^verbatim>\<open>subtask_completion.py\<close>, \<^verbatim>\<open>subtask_progress.py\<close>), and the loops of
  \<^verbatim>\<open>workers/subtasks.py\<close>; the attempt loop is a \<open>p_loop\<close> whose measure is the number of turns left. \<open>PlannerDrive\<close> models
  \<^verbatim>\<open>workers/planner_driver.py\<close> and the planning phase, \<open>FixupRound\<close> the fixup planner and \<^verbatim>\<open>_run_fixup_round\<close> of
  \<^verbatim>\<open>workers/pre_pr.py\<close>. \<open>AuditStages\<close> models the five stages of the audit gauntlet (\<^verbatim>\<open>pre_pr_audit.py\<close> and its split
  files, \<^verbatim>\<open>workers/pre_pr_reports.py\<close>), \<open>AuditCycle\<close> the cycle around them (\<^verbatim>\<open>workers/audit_driver.py\<close>,
  \<^verbatim>\<open>audit_bootstrap.py\<close>, \<^verbatim>\<open>pre_pr_audit_stages.py\<close> and the rest of \<^verbatim>\<open>pre_pr.py\<close>); \<open>leads\<close> says in which state an
  action leaves the task when it returns, \<open>settles\<close> that it returns without a call to the outside.
  \<open>TaskLife\<close> composes them all to \<^verbatim>\<open>TaskWorker.run\<close>: the PR phases of \<^verbatim>\<open>workers/pr_lifecycle.py\<close>, the responses of
  \<^verbatim>\<open>workers/feedback.py\<close> and \<^verbatim>\<open>ancestry.py\<close>. \<open>MergeWork\<close> models \<^verbatim>\<open>workers/merge_node_worker.py\<close>, the worker that
  merges several parents into one branch, and \<^verbatim>\<open>workers/factory.py\<close>; \<open>turns\<close> is the total-correctness triple in which
  its run without conflicts is followed. A loop of a worker is shown to return by \<open>ends_in\<close>, the total-correctness reading of \<open>proc\<close>, with
  the retries left as the measure.

  \<^bold>\<open>Agent calls.\<close> \<open>Transport\<close> models how a CLI is called: the classifiers of \<^verbatim>\<open>agents/transient_quota.py\<close>, the retry
  loop of \<^verbatim>\<open>agents/json_protocol.py\<close> with the status column it writes (\<^verbatim>\<open>workers/agent_call_status.py\<close>), the usage figures
  of \<^verbatim>\<open>agents/ccusage.py\<close> and the shims \<^verbatim>\<open>json_claude.py\<close>, \<^verbatim>\<open>json_codex_direct.py\<close>, \<^verbatim>\<open>json_codex_litellm.py\<close>; the loop is a
  \<open>p_loop\<close>, shown to return with a bound on its sleeps. \<open>Answers\<close> models \<^verbatim>\<open>agents/json_validation.py\<close>: what a schema
  accepts, the one repeated prompt, the search for an object in prose. \<open>AgentLayer\<close> has the quota chain of
  \<^verbatim>\<open>agents/json_fallback.py\<close>, \<^verbatim>\<open>model_registry.py\<close> and \<^verbatim>\<open>agent_registry.py\<close>. These theories open up the call
  \<open>invoke\<close> of \<open>World\<close>, which the workers use with an arbitrary answer: every answer of the layer is one of those.

  \<^bold>\<open>Operator.\<close> \<open>Recovery\<close> models the commands of \<^verbatim>\<open>cli_lifecycle.py\<close>, \<^verbatim>\<open>cli_rewind.py\<close>,
  \<^verbatim>\<open>cli_replan_cycle.py\<close> and \<^verbatim>\<open>cli_detect_merged.py\<close> that change the store. \<^verbatim>\<open>rewind\<close> and \<^verbatim>\<open>replan-cycle\<close> are not among
  the store calls of \<open>system\<close>: they write the state column directly, and \<open>recovery_skips_the_log\<close> shows that no log
  after them is lawful. The properties of \<open>system\<close> speak about histories without these two commands.

  \<^bold>\<open>Refinement.\<close> \<open>Machine\<close> is the abstract store: a map from tasks to states and the trace of edges. Every operation of
  the store that can move a task commutes with the abstraction (locale \<open>simulation\<close>, interpreted on the store).

  \<^bold>\<open>Bounds and fuel.\<close> \<open>schedule_ready_tasks\<close> has as fuel the number of free slots, and every pick takes one
  (\<open>slots_filled\<close>: it stops only when the pool is full or nothing can be picked). \<open>cascade_loop\<close> has \<open>n + n * n\<close>
  turns for \<open>n\<close> tasks, which is enough from every database (\<open>cascade_terminates\<close>). \<open>backoff_loop\<close> recurses on the
  retries left.

  \<^bold>\<open>Parameters.\<close> GitHub, git, docker, the file system and the ntfy server are the records \<open>github_env\<close>, \<open>host_env\<close> and
  \<open>task_worker\<close> of their answers; the hash of merge-node ids is a function; what a worker returns is an argument of the
  turn that reaps it. In \<open>Transport\<close> the record \<open>backend\<close> has what the commands of an agent call answer, the environment
  variables and the functions of \<^verbatim>\<open>json\<close>; a pydantic model is the record \<open>schema\<close> of its validators. In \<open>Corpora\<close> the
  record \<open>doc_fs\<close> is the file system and \<open>templates\<close> has the fixed grading texts.

  \<^bold>\<open>Not modelled.\<close> The texts of the first prompts, the lines of log files, the printing commands of the CLI, the TUI surfaces, the daemon,
  the loading of configuration, and the migrations of old databases: they are I/O around the modelled operations, and
  what they call of the store is covered by the arbitrary store calls of \<open>system\<close>.
\<close>

section \<open>The system as a whole\<close>

text \<open>What the log of a reachable system says about a task, ready for the lemmas of \<open>Histories\<close>.\<close>

lemma system_log:
  assumes "system genv henv hexdigest cfg g titles scope o1"
  shows "log_chain None (moves (task_log tid (o_db o1)))" and "all_legal (moves (task_log tid (o_db o1)))"
  using store_ok_log [OF system_ok [OF assms]] by blast+

text \<open>A demonstration history: events fired one after another on a fresh system.\<close>

definition fire_all :: "ident \<Rightarrow> event list \<Rightarrow> orch \<Rightarrow> orch" where
  "fire_all tid evs o1 = fold (\<lambda>ev o'. o'\<lparr>o_db := after (apply_event tid ev None []) (o_db o')\<rparr>) evs o1"

lemma system_fire_all:
  "system genv henv hexdigest cfg g titles scope o1 \<Longrightarrow>
   system genv henv hexdigest cfg g titles scope (fire_all tid evs o1)"
proof (induction evs arbitrary: o1)
  case Nil
  then show ?case by (simp add: fire_all_def)
next
  case (Cons ev evs)
  have "system genv henv hexdigest cfg g titles scope (o1\<lparr>o_db := after (apply_event tid ev None []) (o_db o1)\<rparr>)"
    by (rule system.call [OF Cons.prems store_call.intros(2)])
  from Cons.IH [OF this] show ?case by (simp add: fire_all_def)
qed

definition quiet_host :: host_env where
  "quiet_host = \<lparr>h_containers = [], h_sample = (\<lambda>_. None), h_worktree_mtime = (\<lambda>_. None)\<rparr>"

text \<open>One subtask, the gauntlet, the PR and its merge.\<close>

definition demo_events :: "event list" where
  "demo_events =
     [Ev_START_TASK, Ev_ENVIRONMENT_READY, Ev_PLAN_VALID, Ev_DOER_DONE, Ev_SUBTASK_PASSED, Ev_COMMIT_CREATED,
      Ev_ALL_SUBTASKS_DONE, Ev_LOCAL_CI_PASSED, Ev_AUDIT_LOCAL_CI_PASSED, Ev_AUDIT_RUBRIC_PASSED,
      Ev_AUDIT_STANDARDS_PASSED, Ev_AUDIT_ARCHITECTURE_PASSED, Ev_AUDIT_BEHAVIOR_PASSED, Ev_PR_OPENED,
      Ev_CI_PASSED, Ev_MERGED]"

definition demo_final :: orch where
  "demo_final = fire_all ''A'' demo_events (run_entry {''A''} (empty_db 7))"

lemma demo_final_reachable: "system quiet_env quiet_host id demo_config demo_dag Map.empty {''A''} demo_final"
  unfolding demo_final_def by (rule system_fire_all [OF system.start])

definition demo_log :: "log_row list" where
  "demo_log = moves (task_log ''A'' (o_db demo_final))"

lemma demo_log_states:
  "map l_to_state demo_log =
     [PENDING, PROVISIONING, PLANNING, DOING_SUBTASK, CHECKING_SUBTASK, COMMITTING, PUSHING, LOCAL_CI_CHECKING,
      AUDIT_LOCAL_CI, AUDIT_RUBRIC, AUDIT_STANDARDS, AUDIT_ARCHITECTURE, AUDIT_BEHAVIOR, PR_OPENING, PENDING_CI,
      AWAITING_REVIEW, MERGED]"
  by code_simp

lemma demo_log_split: "i < 17 \<Longrightarrow> demo_log = take i demo_log @ demo_log ! i # drop (Suc i) demo_log"
  using arg_cong [OF demo_log_states, of length] by (simp add: id_take_nth_drop)

lemma demo_log_at: "i < 17 \<Longrightarrow> l_to_state (demo_log ! i) = map l_to_state demo_log ! i"
  using arg_cong [OF demo_log_states, of length] by simp

section \<open>Properties of every history\<close>



text \<open>
  C2: no PR without the gauntlet. In every reachable history the move of a task to PR_OPENING directly follows its
  moves through the five audit stages, in their order.
\<close>

theorem gauntlet_before_pr:
  assumes "system genv henv hexdigest cfg g titles scope o1"
    and "moves (task_log tid (o_db o1)) = before @ l # rest" and "l_to_state l = PR_OPENING"
  shows "\<exists>start stages. before = start @ stages \<and> map l_to_state stages =
    [AUDIT_LOCAL_CI, AUDIT_RUBRIC, AUDIT_STANDARDS, AUDIT_ARCHITECTURE, AUDIT_BEHAVIOR]"
  by (rule gauntlet_logged [OF system_log [OF assms(1)] moves_not_note assms(2,3)])

theorem gauntlet_before_pr_witness:
  "\<exists>start stages. take 13 demo_log = start @ stages \<and> map l_to_state stages =
    [AUDIT_LOCAL_CI, AUDIT_RUBRIC, AUDIT_STANDARDS, AUDIT_ARCHITECTURE, AUDIT_BEHAVIOR]"
proof (rule gauntlet_before_pr [OF demo_final_reachable])
  show "moves (task_log ''A'' (o_db demo_final)) = take 13 demo_log @ demo_log ! 13 # drop (Suc 13) demo_log"
    using demo_log_split [of 13] by (simp add: demo_log_def)
  show "l_to_state (demo_log ! 13) = PR_OPENING" by (simp add: demo_log_at demo_log_states)
qed

text \<open>
  C7: merging is final and has one source. In every reachable history a move of a task to MERGED comes out of
  AWAITING_REVIEW or PENDING or creates the task, it is the last move of its log, and the task is MERGED.
\<close>

theorem merged_is_final:
  assumes "system genv henv hexdigest cfg g titles scope o1"
    and "moves (task_log tid (o_db o1)) = before @ l # rest" and "l_to_state l = MERGED"
  shows "l_from_state l \<in> {None, Some PENDING, Some AWAITING_REVIEW} \<and> rest = [] \<and>
    select_state tid (o_db o1) = Some MERGED"
proof -
  note chain = system_log(1) [OF assms(1), of tid] and legal = system_log(2) [OF assms(1), of tid]
  have note_free: "k \<in> set (before @ l # rest) \<Longrightarrow> l_from_state k \<noteq> Some (l_to_state k)" for k
    using moves_not_note assms(2) by metis
  have "legal_edge (l_from_state l) MERGED" using legal assms(2,3) by (auto simp: all_legal_def)
  from legal_into_merged [OF this] have src: "l_from_state l \<in> {None, Some PENDING, Some AWAITING_REVIEW}"
    using note_free [of l] assms(3) by auto
  have "log_chain (Some MERGED) rest" "all_legal rest"
    using chain legal assms(2,3) by (auto simp: log_chain_append log_end_def all_legal_def)
  then have stay: "k \<in> set rest \<Longrightarrow> l_to_state k = MERGED" for k
    by (rule chain_stays_final) simp_all
  have rest: "rest = []"
  proof (cases rest)
    case (Cons k ks)
    with \<open>log_chain (Some MERGED) rest\<close> have "l_from_state k = Some MERGED" by simp
    with stay [of k] note_free [of k] Cons show ?thesis by simp
  qed simp
  have "history_ok (select_state tid (o_db o1)) (task_log tid (o_db o1))"
    using system_ok [OF assms(1)] by (simp add: store_ok_def)
  then have "select_state tid (o_db o1) = log_end None (moves (task_log tid (o_db o1)))"
    by (simp add: history_ok_def moves_end)
  with src rest assms(2,3) show ?thesis by (simp add: log_end_def)
qed

theorem merged_is_final_witness:
  "l_from_state (demo_log ! 16) \<in> {None, Some PENDING, Some AWAITING_REVIEW} \<and> drop (Suc 16) demo_log = [] \<and>
    select_state ''A'' (o_db demo_final) = Some MERGED"
proof (rule merged_is_final [OF demo_final_reachable])
  show "moves (task_log ''A'' (o_db demo_final)) = take 16 demo_log @ demo_log ! 16 # drop (Suc 16) demo_log"
    using demo_log_split [of 16] by (simp add: demo_log_def)
  show "l_to_state (demo_log ! 16) = MERGED" by (simp add: demo_log_at demo_log_states)
qed



text \<open>
  A turn loses no merge. One turn of the loop, with everything it polls, schedules, recovers and reaps, leaves a
  MERGED task MERGED, from any state of the orchestrator whose store is lawful.
\<close>

theorem merged_survives_turn:
  assumes "store_ok (o_db o1)" and "select_state tid (o_db o1) = Some MERGED" and "finite scope"
  shows "select_state tid (o_db (snd (loop_turn genv henv hexdigest cfg g titles scope order outcomes lp o1))) =
    Some MERGED"
  using keepsD [OF merged_turn [OF assms(3)], of o1 tid] assms(1,2) by (simp add: orch_ok_def)

theorem merged_survives_turn_witness:
  "select_state ''A'' (o_db (snd (loop_turn quiet_env quiet_host id demo_config demo_dag Map.empty {''A''} [] []
     \<lparr>lp_warned = Map.empty, lp_last_stats_sample = 0, lp_previously_merged = {}\<rparr> demo_final))) = Some MERGED"
proof (rule merged_survives_turn)
  show "store_ok (o_db demo_final)" by (rule system_ok [OF demo_final_reachable])
  show "select_state ''A'' (o_db demo_final) = Some MERGED" by code_simp
qed simp

text \<open>
  The TUI counts what the scheduler would offer. As long as no row has an empty parent id, the number of pending
  tasks the TUI shows as eligible, computed through its read-only adapter, is the size of the scheduler's top tier
  on the store itself.
\<close>

theorem tui_agrees:
  assumes "\<forall>r \<in> set (db_tasks d). \<forall>ids. t_parent_task_ids r = Some ids \<longrightarrow> [] \<notin> set ids"
  shows "count_pending_eligible cfg g d =
     length (prefer_primary_candidates (collect_pick_candidates cfg g (store_view d) (set (node_ids g)) {}
       (store_fns cfg d) None))"
proof -
  have "adapter_table d = store_table d"
    unfolding adapter_table_def store_table_def
  proof (rule map_cong [OF refl])
    fix r assume "r \<in> set (all_tasks d)"
    then have "r \<in> set (db_tasks d)" by (simp add: all_tasks_facts)
    with assms show "(t_id r, case t_parent_task_ids r of None \<Rightarrow> [] | Some ids \<Rightarrow> ids) =
        (t_id r, nonempty_strings (t_parent_task_ids r))"
      by (auto simp: nonempty_strings_def intro!: filter_True [symmetric] split: option.splits)
  qed
  then show ?thesis by (simp add: count_pending_eligible_def adapter_view_eq store_fns_def)
qed

theorem tui_agrees_witness:
  "count_pending_eligible demo_config demo_dag demo_merged_root = 2 \<and>
   count_pending_eligible demo_config demo_dag demo_merged_root =
     length (prefer_primary_candidates (collect_pick_candidates demo_config demo_dag (store_view demo_merged_root)
       (set (node_ids demo_dag)) {} (store_fns demo_config demo_merged_root) None))"
proof (rule conjI)
  show "count_pending_eligible demo_config demo_dag demo_merged_root = 2" by code_simp
qed (rule tui_agrees, simp add: demo_merged_root_def new_task_def)

end
